(* ===== verification/Prelude.thy ===== *)
theory Prelude
  imports Main "HOL-Library.Word"
begin

text \<open>
  Shared vocabulary of the development: the machine integer types of the C sources, the error
  values every fallible routine returns, byte-addressed memory, the little-endian codecs, and the
  generic lemmas on words and lists that the component theories use. Nothing in this theory is
  specific to one component.
\<close>

unbundle bit_operations_syntax

section \<open>Machine integers\<close>

type_synonym u8 = "8 word"
type_synonym u16 = "16 word"
type_synonym u32 = "32 word"
type_synonym u64 = "64 word"

named_theorems byte_simps \<open>length and content of encoded bytes\<close>
named_theorems ext4_consts \<open>the values of the constants of the source's headers\<close>
named_theorems bmap_simps \<open>reads of a bitmap after an update\<close>

section \<open>Error values\<close>

text \<open>
  The codes of \<^verbatim>\<open>include/ext4_errno.h\<close> (\<^verbatim>\<open>EOK\<close> is the right injection of a result).
  \<open>EDEV n\<close> is a non-zero code handed back by a block device driver, which the code passes on
  unchanged. The last three are no error codes: \<open>EASSERT\<close> is a failed \<^verbatim>\<open>ext4_assert\<close>, where the
  program stops; \<open>EHANG\<close> is a loop that did not finish within the fuel of its model; \<open>UNDEF\<close> is
  undefined behaviour, such as an access outside a buffer or a division by zero. So memory
  safety and termination are statements of the model: a routine does not return these values.
\<close>

datatype ext4_err =
    EPERM | ENOENT | EIO | ENXIO | E2BIG | ENOMEM | EACCES | EFAULT | EEXIST | ENODEV | ENOTDIR
  | EISDIR | EINVAL | EFBIG | ENOSPC | EROFS | EMLINK | ERANGE | ENOTEMPTY | ENODATA | ENOTSUP
  | EDEV int
  | EASSERT
  | EHANG
  | UNDEF

fun errno_code :: "ext4_err \<Rightarrow> int" where
  "errno_code EPERM = 1"
| "errno_code ENOENT = 2"
| "errno_code EIO = 5"
| "errno_code ENXIO = 6"
| "errno_code E2BIG = 7"
| "errno_code ENOMEM = 12"
| "errno_code EACCES = 13"
| "errno_code EFAULT = 14"
| "errno_code EEXIST = 17"
| "errno_code ENODEV = 19"
| "errno_code ENOTDIR = 20"
| "errno_code EISDIR = 21"
| "errno_code EINVAL = 22"
| "errno_code EFBIG = 27"
| "errno_code ENOSPC = 28"
| "errno_code EROFS = 30"
| "errno_code EMLINK = 31"
| "errno_code ERANGE = 34"
| "errno_code ENOTEMPTY = 39"
| "errno_code ENODATA = 61"
| "errno_code ENOTSUP = 95"
| "errno_code (EDEV n) = n"
| "errno_code EASSERT = -1"
| "errno_code EHANG = -1"
| "errno_code UNDEF = -1"

type_synonym 'a res = "ext4_err + 'a"

text \<open>\<open>rbind m f\<close>: go on with the value of \<open>m\<close>, or return its error.\<close>

definition rbind :: "'a res \<Rightarrow> ('a \<Rightarrow> 'b res) \<Rightarrow> 'b res" where
  "rbind m f = (case m of Inl e \<Rightarrow> Inl e | Inr v \<Rightarrow> f v)"

lemma rbind_simps [simp]: "rbind (Inl e) f = Inl e" "rbind (Inr v) f = f v"
  by (simp_all add: rbind_def)

lemma rbind_Inr_iff: "rbind m f = Inr w \<longleftrightarrow> (\<exists>v. m = Inr v \<and> f v = Inr w)"
  by (cases m) simp_all

lemma rbind_Inl_iff: "rbind m f = Inl e \<longleftrightarrow> m = Inl e \<or> (\<exists>v. m = Inr v \<and> f v = Inl e)"
  by (cases m) simp_all

text \<open>The same for operations that also transform a state: an error keeps the state reached.\<close>

definition sbind :: "'a res \<times> 's \<Rightarrow> ('a \<Rightarrow> 's \<Rightarrow> 'b res \<times> 's) \<Rightarrow> 'b res \<times> 's" where
  "sbind m f = (case m of (Inl e, s) \<Rightarrow> (Inl e, s) | (Inr v, s) \<Rightarrow> f v s)"

lemma sbind_simps [simp]: "sbind (Inl e, s) f = (Inl e, s)" "sbind (Inr v, s) f = f v s"
  by (simp_all add: sbind_def)

text \<open>
  Errors that end the program are not results of C functions: an ignored code, or a cleanup on an error path,
  is about the others.
\<close>

definition fatal :: "ext4_err \<Rightarrow> bool" where "fatal e \<longleftrightarrow> e = EASSERT \<or> e = EHANG \<or> e = UNDEF"

definition sforget :: "'a res \<times> 's \<Rightarrow> unit res \<times> 's" where
  "sforget m = (case m of (Inl e, s) \<Rightarrow> (if fatal e then Inl e else Inr (), s) | (Inr _, s) \<Rightarrow> (Inr (), s))"

definition scatch :: "'a res \<times> 's \<Rightarrow> (ext4_err \<Rightarrow> 's \<Rightarrow> 'a res \<times> 's) \<Rightarrow> 'a res \<times> 's" where
  "scatch m h = (case m of (Inl e, s) \<Rightarrow> if fatal e then (Inl e, s) else h e s | (Inr v, s) \<Rightarrow> (Inr v, s))"

lemma sforget_simps [simp]: "sforget (Inr v, s) = (Inr (), s)" "\<not> fatal e \<Longrightarrow> sforget (Inl e, s) = (Inr (), s)"
  by (simp_all add: sforget_def)

lemma scatch_Inr [simp]: "scatch (Inr v, s) h = (Inr v, s)"
  by (simp add: scatch_def)

section \<open>Byte-addressed memory\<close>

text \<open>A buffer is the list of its bytes; an access past its end is \<open>UNDEF\<close>.\<close>

definition rd8 :: "u8 list \<Rightarrow> nat \<Rightarrow> u8 res" where
  "rd8 m i = (if i < length m then Inr (m ! i) else Inl UNDEF)"

definition wr8 :: "u8 list \<Rightarrow> nat \<Rightarrow> u8 \<Rightarrow> u8 list res" where
  "wr8 m i v = (if i < length m then Inr (m[i := v]) else Inl UNDEF)"

text \<open>\<open>wr_range m p bs\<close> is \<^verbatim>\<open>memcpy(m + p, bs, length bs)\<close>.\<close>

definition wr_range :: "u8 list \<Rightarrow> nat \<Rightarrow> u8 list \<Rightarrow> u8 list res" where
  "wr_range m p bs =
     (if p + length bs \<le> length m then Inr (take p m @ bs @ drop (p + length bs) m)
      else Inl UNDEF)"

definition rd_range :: "u8 list \<Rightarrow> nat \<Rightarrow> nat \<Rightarrow> u8 list res" where
  "rd_range m p n = (if p + n \<le> length m then Inr (take n (drop p m)) else Inl UNDEF)"

section \<open>Words as numbers\<close>

lemma unat_dec:
  fixes x :: "'a::len word"
  assumes "x \<noteq> 0"
  shows "unat (x - 1) = unat x - 1"
proof -
  from assms have "0 < unat x" by (simp add: unat_gt_0)
  then have "unat (1 :: 'a word) \<le> unat x"
    by (metis One_nat_def Suc_leI unsigned_1)
  then have "unat (x - 1) = unat x - unat (1 :: 'a word)"
    by (simp add: unat_sub word_le_nat_alt)
  then show ?thesis by simp
qed

lemma unat_dec_less: "x \<noteq> 0 \<Longrightarrow> unat (x - 1) < unat (x :: 'a::len word)"
  by (simp add: unat_dec unat_gt_0)

lemma unat_inc:
  fixes x :: "'a::len word"
  assumes "unat x < 2 ^ LENGTH('a) - 1"
  shows "unat (x + 1) = unat x + 1"
proof -
  have "unat x + 1 < 2 ^ LENGTH('a)" using assms by linarith
  then show ?thesis by (simp add: unat_word_ariths)
qed

lemma unat_add_le:
  fixes x y :: "'a::len word"
  assumes "unat x + unat y < 2 ^ LENGTH('a)"
  shows "unat (x + y) = unat x + unat y"
  using assms by (simp add: unat_word_ariths)

lemma unat_minus_le:
  fixes x y :: "'a::len word"
  assumes "unat y \<le> unat x"
  shows "unat (x - y) = unat x - unat y"
  using assms by (simp add: unat_sub word_le_nat_alt)

lemma unat_ucast_small: "unat w < 2 ^ LENGTH('b) \<Longrightarrow> unat (ucast (w :: 'a::len word) :: 'b::len word) = unat w"
  by (simp add: unsigned_ucast_eq take_bit_nat_eq_self)

lemma unat_ucast_up: "unat (ucast (w :: u32) :: u64) = unat w"
proof -
  have "unat w < 2 ^ 32" using unsigned_less [of w] by simp
  then show ?thesis by (intro unat_ucast_small) simp
qed

lemma unat_lt32: "unat (w :: u32) < 2 ^ 32"
  using unsigned_less [of w] by simp

lemma unat_mult_le: "unat x * unat y < 2 ^ LENGTH('a) \<Longrightarrow> unat (x * y) = unat x * unat (y :: 'a::len word)"
  by (simp add: unat_word_ariths)

lemma unat_pow2: "j < LENGTH('a) \<Longrightarrow> unat (2 ^ j :: 'a::len word) = 2 ^ j"
proof -
  assume "j < LENGTH('a)"
  then have "(2 :: nat) ^ j < 2 ^ LENGTH('a)" by simp
  then have "unat (of_nat (2 ^ j) :: 'a word) = 2 ^ j"
    by (simp only: unat_of_nat mod_less)
  then show ?thesis by simp
qed

lemma unat_lt64: "unat (w :: u64) < 2 ^ 64"
  using unsigned_less [of w] by simp

lemma dvd_next: "b dvd x \<Longrightarrow> b dvd e \<Longrightarrow> x < e \<Longrightarrow> x + b \<le> (e :: nat)"
  by (metis add_diff_inverse_nat dvd_diff_nat dvd_imp_le nat_add_left_cancel_le not_less_iff_gr_or_eq
      zero_less_diff)

lemma unat_and_7: "unat (x AND 7 :: u32) = unat x mod 8"
proof -
  have "x AND 7 = take_bit 3 x"
    by (simp add: take_bit_eq_mask mask_eq_exp_minus_1)
  then have "x AND 7 = x mod 8"
    by (simp add: take_bit_eq_mod)
  then show ?thesis
    by (simp add: unat_mod)
qed

lemma unat_shr_3: "unat (drop_bit 3 x :: u32) = unat x div 8"
  by (simp add: unat_drop_bit_eq) (simp add: drop_bit_eq_div)

lemma and_7_eq_0_iff: "(x AND 7 = (0 :: u32)) = (unat x mod 8 = 0)"
  by (metis unat_and_7 unat_eq_zero)

section \<open>Little-endian codecs\<close>

text \<open>
  The on-disk structures are packed C structs of little-endian integers. \<open>le_enc k w\<close> is the \<open>k\<close>
  low bytes of \<open>w\<close>, lowest first, and \<open>le_dec\<close> the word made of a byte list. The \<open>get\<close> functions
  take one field off the front of a byte list; a struct is decoded field by field.
\<close>

fun le_enc :: "nat \<Rightarrow> 'a::len word \<Rightarrow> u8 list" where
  "le_enc 0 w = []"
| "le_enc (Suc k) w = ucast w # le_enc k (drop_bit 8 w)"

fun le_dec :: "u8 list \<Rightarrow> 'a::len word" where
  "le_dec [] = 0"
| "le_dec (b # bs) = ucast b OR push_bit 8 (le_dec bs)"

definition enc16 :: "u16 \<Rightarrow> u8 list" where "enc16 = le_enc 2"
definition enc32 :: "u32 \<Rightarrow> u8 list" where "enc32 = le_enc 4"
definition enc64 :: "u64 \<Rightarrow> u8 list" where "enc64 = le_enc 8"

definition get8 :: "u8 list \<Rightarrow> u8 \<times> u8 list" where "get8 bs = (hd bs, drop 1 bs)"
definition get16 :: "u8 list \<Rightarrow> u16 \<times> u8 list" where
  "get16 bs = (le_dec (take 2 bs), drop 2 bs)"
definition get32 :: "u8 list \<Rightarrow> u32 \<times> u8 list" where
  "get32 bs = (le_dec (take 4 bs), drop 4 bs)"
definition get64 :: "u8 list \<Rightarrow> u64 \<times> u8 list" where
  "get64 bs = (le_dec (take 8 bs), drop 8 bs)"
definition get_bytes :: "nat \<Rightarrow> u8 list \<Rightarrow> u8 list \<times> u8 list" where
  "get_bytes n bs = (take n bs, drop n bs)"

definition enc32s :: "u32 list \<Rightarrow> u8 list" where "enc32s ws = concat (map enc32 ws)"

fun get32s :: "nat \<Rightarrow> u8 list \<Rightarrow> u32 list \<times> u8 list" where
  "get32s 0 bs = ([], bs)"
| "get32s (Suc n) bs =
     (case get32 bs of (w, bs1) \<Rightarrow> case get32s n bs1 of (ws, bs2) \<Rightarrow> (w # ws, bs2))"

lemma length_le_enc [byte_simps, simp]: "length (le_enc k w) = k"
  by (induction k arbitrary: w) simp_all

lemma le_dec_enc: "le_dec (le_enc k w) = take_bit (8 * k) (w :: 'a::len word)"
proof (induction k arbitrary: w)
  case 0
  then show ?case by simp
next
  case (Suc k)
  show ?case
  proof (rule bit_word_eqI)
    fix n assume "n < LENGTH('a)"
    then show "bit (le_dec (le_enc (Suc k) w) :: 'a word) n = bit (take_bit (8 * Suc k) w) n"
      using Suc by (cases "n < 8") (auto simp: bit_simps)
  qed
qed

lemma le_dec_bound: "bit (le_dec bs :: 'a::len word) n \<Longrightarrow> n < 8 * length bs"
proof (induction bs arbitrary: n)
  case (Cons b bs)
  show ?case
  proof (cases "n < 8")
    case False
    then have "\<not> bit (ucast b :: 'a word) n" by (auto simp: bit_simps dest: bit_imp_le_length)
    with Cons.prems False have "bit (le_dec bs :: 'a word) (n - 8)" by (auto simp: bit_simps)
    from Cons.IH [OF this] False show ?thesis by simp
  qed simp
qed simp

lemma le_enc_dec:
  "8 * length bs \<le> LENGTH('a) \<Longrightarrow> le_enc (length bs) (le_dec bs :: 'a::len word) = bs"
proof (induction bs)
  case (Cons b bs)
  let ?w = "le_dec bs :: 'a word"
  have "ucast (le_dec (b # bs) :: 'a word) = b"
    by (rule bit_word_eqI) (use Cons.prems in \<open>auto simp: bit_simps\<close>)
  moreover have "drop_bit 8 (le_dec (b # bs) :: 'a word) = ?w"
  proof (rule bit_word_eqI)
    fix n assume "n < LENGTH('a)"
    have "\<not> bit (ucast b :: 'a word) (8 + n)" by (auto simp: bit_simps dest: bit_imp_le_length)
    moreover have "bit ?w n \<Longrightarrow> 8 + n < LENGTH('a)"
      using le_dec_bound [of bs n, where ?'a = 'a] Cons.prems by simp
    ultimately show "bit (drop_bit 8 (le_dec (b # bs) :: 'a word)) n = bit ?w n"
      by (auto simp: bit_simps)
  qed
  ultimately show ?case using Cons by simp
qed simp

lemma length_enc [byte_simps, simp]:
  "length (enc16 a) = 2" "length (enc32 b) = 4" "length (enc64 c) = 8"
  by (simp_all add: enc16_def enc32_def enc64_def)

lemma length_enc32s [byte_simps, simp]: "length (enc32s ws) = 4 * length ws"
  by (induction ws) (simp_all add: enc32s_def)

lemma take_bit_word_full: "take_bit LENGTH('a) (w :: 'a::len word) = w"
  by (rule bit_word_eqI) (auto simp: bit_simps)

lemma le_dec_enc_full [byte_simps, simp]:
  "le_dec (enc16 b) = b" "le_dec (enc32 c) = c" "le_dec (enc64 d) = d"
  using take_bit_word_full [of b] take_bit_word_full [of c] take_bit_word_full [of d]
  by (simp_all add: enc16_def enc32_def enc64_def le_dec_enc)

lemma get_enc [byte_simps, simp]:
  "get8 (a # bs) = (a, bs)"
  "get16 (enc16 b @ bs) = (b, bs)"
  "get32 (enc32 c @ bs) = (c, bs)"
  "get64 (enc64 d @ bs) = (d, bs)"
  using take_bit_word_full [of b] take_bit_word_full [of c] take_bit_word_full [of d]
  by (simp_all add: get8_def get16_def get32_def get64_def enc16_def enc32_def enc64_def le_dec_enc)

lemma get_enc_end [byte_simps, simp]:
  "get16 (enc16 b) = (b, [])" "get32 (enc32 c) = (c, [])" "get64 (enc64 d) = (d, [])"
  using get_enc(2-4) [where bs = "[]"] by simp_all

lemma get_bytes_append [byte_simps, simp]: "length xs = n \<Longrightarrow> get_bytes n (xs @ bs) = (xs, bs)"
  by (simp add: get_bytes_def)

lemma get32s_enc [byte_simps, simp]: "length ws = n \<Longrightarrow> get32s n (enc32s ws @ bs) = (ws, bs)"
  by (induction n arbitrary: ws) (auto simp: enc32s_def length_Suc_conv)

text \<open>Conversely, the encoding of the fields read from a byte list rebuilds it.\<close>

lemma enc_le_dec:
  "2 \<le> length bs \<Longrightarrow> enc16 (le_dec (take 2 bs)) = take 2 bs"
  "4 \<le> length bs \<Longrightarrow> enc32 (le_dec (take 4 bs)) = take 4 bs"
  "8 \<le> length bs \<Longrightarrow> enc64 (le_dec (take 8 bs)) = take 8 bs"
  using le_enc_dec [of "take 2 bs", where ?'a = 16] le_enc_dec [of "take 4 bs", where ?'a = 32]
    le_enc_dec [of "take 8 bs", where ?'a = 64]
  by (simp_all add: enc16_def enc32_def enc64_def min_absorb2)

lemma enc_le_dec_all:
  "length bs = 2 \<Longrightarrow> enc16 (le_dec bs) = bs" "length bs = 4 \<Longrightarrow> enc32 (le_dec bs) = bs"
  "length bs = 8 \<Longrightarrow> enc64 (le_dec bs) = bs"
  using enc_le_dec [of bs] by simp_all

lemma hd_drop_join: "k < length bs \<Longrightarrow> k' = Suc k \<Longrightarrow> hd (drop k bs) # drop k' bs = drop k bs"
  by (simp add: Cons_nth_drop_Suc hd_drop_conv_nth)

definition dec32s :: "nat \<Rightarrow> u8 list \<Rightarrow> u32 list" where "dec32s n bs = fst (get32s n bs)"

lemma get32s_eq: "get32s n bs = (dec32s n bs, drop (4 * n) bs)"
proof (induction n arbitrary: bs)
  case (Suc n)
  have "snd (get32s n (drop 4 bs)) = drop (4 * n) (drop 4 bs)" by (subst Suc) simp
  then show ?case by (simp add: dec32s_def get32_def split_beta add.commute)
qed (simp add: dec32s_def)

lemma length_dec32s [simp]: "length (dec32s n bs) = n"
  by (induction n arbitrary: bs) (simp_all add: dec32s_def split_beta)

lemma enc32s_dec32s: "4 * n \<le> length bs \<Longrightarrow> enc32s (dec32s n bs) = take (4 * n) bs"
proof (induction n arbitrary: bs)
  case (Suc n)
  have "enc32s (dec32s (Suc n) bs) = enc32 (le_dec (take 4 bs)) @ enc32s (dec32s n (drop 4 bs))"
    by (simp add: dec32s_def get32_def enc32s_def split_beta)
  also have "\<dots> = take 4 bs @ take (4 * n) (drop 4 bs)" using Suc by (simp add: enc_le_dec)
  also have "\<dots> = take (4 * Suc n) bs" by (simp add: take_add)
  finally show ?case .
qed (simp add: dec32s_def enc32s_def)

lemma take_drop_join: "k' = n + k \<Longrightarrow> take n (drop k bs) @ drop k' bs = drop k bs"
  by (metis append_take_drop_id drop_drop)

lemma take_drop_end: "length bs = n + k \<Longrightarrow> take n (drop k bs) = drop k bs"
  by simp

lemmas get_field_defs = get8_def get16_def get32_def get64_def get_bytes_def get32s_eq

end
