(* ===== verification/Bcache.thy ===== *)
theory Bcache
  imports Prelude
begin

text \<open>
  The block cache of \<^verbatim>\<open>src/ext4_bcache.c\<close> and \<^verbatim>\<open>include/ext4_bcache.h\<close>, without the two operations
  that write to the device (\<open>ext4_bcache_free\<close> and \<open>ext4_bcache_cleanup\<close>, theory \<open>BlockDev\<close>).

  A buffer is named by its block address: the LBA tree holds at most one buffer per address, so the
  address stands for the C pointer. The LBA tree is the list of its buffers in tree order
  (ascending address); the LRU tree is the list of its nodes in tree order (ascending LRU id), each
  a pair of id and buffer address; the dirty list is the list of addresses. The red-black tree and
  list macros of \<^verbatim>\<open>misc/tree.h\<close> and \<^verbatim>\<open>misc/queue.h\<close> are used through this documented behaviour:
  find, insert (nothing happens when the key is present), remove, minimum, and successors in
  order. The allocator is a field: \<open>bc_malloc n\<close> is what the \<open>n\<close>-th allocation returns, \<open>None\<close> for
  failure, else the initial contents of the block.
\<close>

section \<open>State\<close>

datatype bcache_state_bits = BC_UPTODATE | BC_DIRTY | BC_FLUSH | BC_TMP

text \<open>
  \<open>buf_end_write\<close> is the completion callback with its argument, as an identifier; the effect of a
  callback belongs to the journal and is not modelled, its invocations are recorded in \<open>bc_events\<close>
  as callback, block address and the code of the write.
\<close>

record ext4_buf =
  buf_flags :: "bcache_state_bits set"
  buf_lba :: u64
  buf_data :: "u8 list"
  buf_lru_id :: u32
  buf_refctr :: u32
  buf_read_refctr :: u32
  buf_on_dirty_list :: bool
  buf_end_write :: "nat option"

record ext4_bcache =
  bc_cnt :: u32
  bc_itemsize :: u32
  bc_lru_ctr :: u32
  bc_ref_blocks :: u32
  bc_max_ref_blocks :: u32
  bc_dont_shake :: bool
  bc_lba_root :: "ext4_buf list"
  bc_lru_root :: "(u32 \<times> u64) list"
  bc_dirty_list :: "u64 list"
  bc_malloc :: "nat \<Rightarrow> u8 list option"
  bc_mallocs :: nat
  bc_events :: "(nat \<times> u64 \<times> int) list"

text \<open>A block handle: the block address and the buffer it points to (\<^verbatim>\<open>data\<close> is that buffer's).\<close>

record ext4_block =
  b_lb_id :: u64
  b_buf :: "u64 option"

section \<open>Trees and lists\<close>

definition ext4_bcache_lba_compare :: "ext4_buf \<Rightarrow> ext4_buf \<Rightarrow> int" where
  "ext4_bcache_lba_compare a b =
     (if buf_lba a > buf_lba b then 1 else if buf_lba a < buf_lba b then -1 else 0)"

definition ext4_bcache_lru_compare :: "u32 \<times> u64 \<Rightarrow> u32 \<times> u64 \<Rightarrow> int" where
  "ext4_bcache_lru_compare a b = (if fst a > fst b then 1 else if fst a < fst b then -1 else 0)"

text \<open>\<^verbatim>\<open>RB_INSERT\<close>: into the ordered position, unless a node with the same key is there.\<close>

fun rb_insert :: "('a \<Rightarrow> 'a \<Rightarrow> int) \<Rightarrow> 'a \<Rightarrow> 'a list \<Rightarrow> 'a list" where
  "rb_insert cmp x [] = [x]"
| "rb_insert cmp x (y # ys) =
     (if cmp x y < 0 then x # y # ys
      else if cmp x y = 0 then y # ys
      else y # rb_insert cmp x ys)"

definition ext4_buf_lookup :: "ext4_bcache \<Rightarrow> u64 \<Rightarrow> ext4_buf option" where
  "ext4_buf_lookup bc lba = find (\<lambda>b. buf_lba b = lba) (bc_lba_root bc)"

definition ext4_buf_lowest_lru :: "ext4_bcache \<Rightarrow> u64 option" where
  "ext4_buf_lowest_lru bc = (case bc_lru_root bc of [] \<Rightarrow> None | n # ns \<Rightarrow> Some (snd n))"

text \<open>Assignment through a buffer pointer: the buffer at an address is replaced.\<close>

definition buf_update :: "u64 \<Rightarrow> (ext4_buf \<Rightarrow> ext4_buf) \<Rightarrow> ext4_bcache \<Rightarrow> ext4_bcache" where
  "buf_update lba f bc =
     bc\<lparr> bc_lba_root := map (\<lambda>b. if buf_lba b = lba then f b else b) (bc_lba_root bc) \<rparr>"

definition lru_remove :: "u64 \<Rightarrow> ext4_bcache \<Rightarrow> ext4_bcache" where
  "lru_remove lba bc = bc\<lparr> bc_lru_root := filter (\<lambda>n. snd n \<noteq> lba) (bc_lru_root bc) \<rparr>"

definition lru_insert :: "ext4_buf \<Rightarrow> ext4_bcache \<Rightarrow> ext4_bcache" where
  "lru_insert b bc =
     bc\<lparr> bc_lru_root := rb_insert ext4_bcache_lru_compare (buf_lru_id b, buf_lba b) (bc_lru_root bc) \<rparr>"

section \<open>Flags and dirty list\<close>

definition ext4_bcache_set_flag :: "bcache_state_bits \<Rightarrow> ext4_buf \<Rightarrow> ext4_buf" where
  "ext4_bcache_set_flag f b = b\<lparr> buf_flags := insert f (buf_flags b) \<rparr>"

definition ext4_bcache_clear_flag :: "bcache_state_bits \<Rightarrow> ext4_buf \<Rightarrow> ext4_buf" where
  "ext4_bcache_clear_flag f b = b\<lparr> buf_flags := buf_flags b - {f} \<rparr>"

definition ext4_bcache_test_flag :: "bcache_state_bits \<Rightarrow> ext4_buf \<Rightarrow> bool" where
  "ext4_bcache_test_flag f b \<longleftrightarrow> f \<in> buf_flags b"

definition ext4_bcache_set_dirty :: "ext4_buf \<Rightarrow> ext4_buf" where
  "ext4_bcache_set_dirty b = ext4_bcache_set_flag BC_DIRTY (ext4_bcache_set_flag BC_UPTODATE b)"

definition ext4_bcache_clear_dirty :: "ext4_buf \<Rightarrow> ext4_buf" where
  "ext4_bcache_clear_dirty b = ext4_bcache_clear_flag BC_DIRTY (ext4_bcache_clear_flag BC_UPTODATE b)"

definition ext4_bcache_inc_ref :: "ext4_buf \<Rightarrow> ext4_buf" where
  "ext4_bcache_inc_ref b = b\<lparr> buf_refctr := buf_refctr b + 1 \<rparr>"

definition ext4_bcache_dec_ref :: "ext4_buf \<Rightarrow> ext4_buf" where
  "ext4_bcache_dec_ref b = b\<lparr> buf_refctr := buf_refctr b - 1 \<rparr>"

definition ext4_bcache_inc_read_ref :: "ext4_buf \<Rightarrow> ext4_buf" where
  "ext4_bcache_inc_read_ref b = b\<lparr> buf_read_refctr := buf_read_refctr b + 1 \<rparr>"

definition ext4_bcache_dec_read_ref :: "ext4_buf \<Rightarrow> ext4_buf" where
  "ext4_bcache_dec_read_ref b = b\<lparr> buf_read_refctr := buf_read_refctr b - 1 \<rparr>"

definition ext4_bcache_insert_dirty_node :: "ext4_buf \<Rightarrow> ext4_bcache \<Rightarrow> ext4_bcache" where
  "ext4_bcache_insert_dirty_node b bc =
     (if \<not> buf_on_dirty_list b
      then buf_update (buf_lba b) (\<lambda>b. b\<lparr> buf_on_dirty_list := True \<rparr>)
             (bc\<lparr> bc_dirty_list := buf_lba b # bc_dirty_list bc \<rparr>)
      else bc)"

definition ext4_bcache_remove_dirty_node :: "ext4_buf \<Rightarrow> ext4_bcache \<Rightarrow> ext4_bcache" where
  "ext4_bcache_remove_dirty_node b bc =
     (if buf_on_dirty_list b
      then buf_update (buf_lba b) (\<lambda>b. b\<lparr> buf_on_dirty_list := False \<rparr>)
             (bc\<lparr> bc_dirty_list := remove1 (buf_lba b) (bc_dirty_list bc) \<rparr>)
      else bc)"

section \<open>Operations\<close>

definition ext4_bcache_init_dynamic :: "(nat \<Rightarrow> u8 list option) \<Rightarrow> u32 \<Rightarrow> u32 \<Rightarrow> ext4_bcache res" where
  "ext4_bcache_init_dynamic mem cnt itemsize =
     (if cnt = 0 \<or> itemsize = 0 then Inl EASSERT
      else Inr \<lparr> bc_cnt = cnt, bc_itemsize = itemsize, bc_lru_ctr = 0, bc_ref_blocks = 0,
        bc_max_ref_blocks = 0, bc_dont_shake = False, bc_lba_root = [], bc_lru_root = [],
        bc_dirty_list = [], bc_malloc = mem, bc_mallocs = 0, bc_events = [] \<rparr>)"

definition ext4_bcache_fini_dynamic :: "ext4_bcache \<Rightarrow> ext4_bcache" where
  "ext4_bcache_fini_dynamic bc =
     bc\<lparr> bc_cnt := 0, bc_itemsize := 0, bc_lru_ctr := 0, bc_ref_blocks := 0, bc_max_ref_blocks := 0,
        bc_dont_shake := False, bc_lba_root := [], bc_lru_root := [], bc_dirty_list := [] \<rparr>"

text \<open>Two allocations, the data block and the (zeroed) descriptor; the first is undone if the second fails.\<close>

definition ext4_buf_alloc :: "ext4_bcache \<Rightarrow> u64 \<Rightarrow> ext4_buf option \<times> ext4_bcache" where
  "ext4_buf_alloc bc lba =
     (case bc_malloc bc (bc_mallocs bc) of
        None \<Rightarrow> (None, bc\<lparr> bc_mallocs := bc_mallocs bc + 1 \<rparr>)
      | Some d \<Rightarrow>
          (case bc_malloc bc (bc_mallocs bc + 1) of
             None \<Rightarrow> (None, bc\<lparr> bc_mallocs := bc_mallocs bc + 2 \<rparr>)
           | Some _ \<Rightarrow>
               (Some \<lparr> buf_flags = {}, buf_lba = lba, buf_data = d, buf_lru_id = 0, buf_refctr = 0,
                   buf_read_refctr = 0, buf_on_dirty_list = False, buf_end_write = None \<rparr>,
                bc\<lparr> bc_mallocs := bc_mallocs bc + 2 \<rparr>)))"

text \<open>Dropping a buffer; the debug message for a buffer still referenced is left out.\<close>

definition ext4_bcache_drop_buf :: "ext4_buf \<Rightarrow> ext4_bcache \<Rightarrow> ext4_bcache" where
  "ext4_bcache_drop_buf b bc =
     (let bc = (if buf_refctr b \<noteq> 0 then bc else lru_remove (buf_lba b) bc);
          bc = bc\<lparr> bc_lba_root := filter (\<lambda>x. buf_lba x \<noteq> buf_lba b) (bc_lba_root bc) \<rparr>;
          bc = (if ext4_bcache_test_flag BC_DIRTY b then ext4_bcache_remove_dirty_node b bc else bc)
      in bc\<lparr> bc_ref_blocks := bc_ref_blocks bc - 1 \<rparr>)"

definition ext4_bcache_invalidate_buf :: "ext4_buf \<Rightarrow> ext4_bcache \<Rightarrow> ext4_bcache" where
  "ext4_bcache_invalidate_buf b bc =
     (let bc = buf_update (buf_lba b) (\<lambda>x. x\<lparr> buf_end_write := None \<rparr>) bc;
          bc = (if ext4_bcache_test_flag BC_DIRTY b then ext4_bcache_remove_dirty_node b bc else bc)
      in buf_update (buf_lba b) ext4_bcache_clear_dirty bc)"

text \<open>
  The range form starts at the buffer found at exactly \<open>from\<close> and follows the tree order; when there
  is none, \<^verbatim>\<open>RB_FOREACH_FROM\<close> starts at the null pointer and the loop body never runs.
\<close>

definition ext4_bcache_invalidate_lba :: "u64 \<Rightarrow> u32 \<Rightarrow> ext4_bcache \<Rightarrow> ext4_bcache" where
  "ext4_bcache_invalidate_lba from cnt bc =
     (let end = from + ucast cnt - 1
      in case ext4_buf_lookup bc from of
           None \<Rightarrow> bc
         | Some _ \<Rightarrow>
             fold ext4_bcache_invalidate_buf
               (takeWhile (\<lambda>b. \<not> buf_lba b > end)
                 (dropWhile (\<lambda>b. buf_lba b \<noteq> from) (bc_lba_root bc))) bc)"

definition ext4_bcache_find_get :: "u64 \<Rightarrow> ext4_bcache \<Rightarrow> ext4_block option \<times> ext4_bcache" where
  "ext4_bcache_find_get lba bc =
     (case ext4_buf_lookup bc lba of
        None \<Rightarrow> (None, bc)
      | Some b \<Rightarrow>
          let bc = (if buf_refctr b = 0 then
                      let ctr = bc_lru_ctr bc + 1;
                          bc = buf_update lba (\<lambda>b. b\<lparr> buf_lru_id := ctr \<rparr>) (bc\<lparr> bc_lru_ctr := ctr \<rparr>);
                          bc = lru_remove lba bc
                      in if ext4_bcache_test_flag BC_DIRTY b then ext4_bcache_remove_dirty_node b bc
                         else bc
                    else bc)
          in (Some \<lparr> b_lb_id = lba, b_buf = Some lba \<rparr>, buf_update lba ext4_bcache_inc_ref bc))"

text \<open>The result says whether the buffer is new.\<close>

definition ext4_bcache_alloc :: "u64 \<Rightarrow> ext4_bcache \<Rightarrow> (ext4_block \<times> bool) res \<times> ext4_bcache" where
  "ext4_bcache_alloc lba bc =
     (case ext4_bcache_find_get lba bc of
        (Some b, bc1) \<Rightarrow> (Inr (b, False), bc1)
      | (None, bc1) \<Rightarrow>
          (case ext4_buf_alloc bc1 lba of
             (None, bc2) \<Rightarrow> (Inl ENOMEM, bc2)
           | (Some buf, bc2) \<Rightarrow>
               let ctr = bc_lru_ctr bc2 + 1;
                   buf = (ext4_bcache_inc_ref buf)\<lparr> buf_lru_id := ctr \<rparr>;
                   refs = bc_ref_blocks bc2 + 1
               in (Inr (\<lparr> b_lb_id = lba, b_buf = Some lba \<rparr>, True),
                   bc2\<lparr> bc_lba_root := rb_insert ext4_bcache_lba_compare buf (bc_lba_root bc2),
                        bc_ref_blocks := refs,
                        bc_max_ref_blocks :=
                          (if bc_max_ref_blocks bc2 < refs then refs else bc_max_ref_blocks bc2),
                        bc_lru_ctr := ctr \<rparr>)))"

definition ext4_bcache_is_full :: "ext4_bcache \<Rightarrow> bool" where
  "ext4_bcache_is_full bc \<longleftrightarrow> bc_cnt bc \<le> bc_ref_blocks bc"

end
