(* ===== verification/BlockDev.thy ===== *)
theory BlockDev
  imports Bcache
begin

text \<open>
  The block device layer: \<^verbatim>\<open>src/ext4_blockdev.c\<close>, \<^verbatim>\<open>include/ext4_blockdev.h\<close> and the two
  operations of \<^verbatim>\<open>src/ext4_bcache.c\<close> that write to the device. A driver is the record
  \<open>ext4_blockdev_iface\<close> of its functions over the device state \<open>'d\<close>; \<open>ext4_blockdev\<close> is the C struct
  of that name together with the data members of its \<^verbatim>\<open>bdif\<close> and the cache bound to it. Driver functions
  return the C code (0 is \<^verbatim>\<open>EOK\<close>), and a read also returns the buffer it filled.
\<close>

section \<open>State and driver\<close>

record 'd ext4_blockdev =
  bd_dev :: 'd
  bd_ph_bsize :: u32
  bd_ph_bcnt :: u64
  bd_ph_bbuf :: "u8 list"
  bd_ph_refctr :: u32
  bd_bread_ctr :: u32
  bd_bwrite_ctr :: u32
  bd_part_offset :: u64
  bd_part_size :: u64
  bd_bc :: ext4_bcache
  bd_lg_bsize :: u32
  bd_lg_bcnt :: u64
  bd_cache_write_back :: u32

record 'd ext4_blockdev_iface =
  if_open :: "'d ext4_blockdev \<Rightarrow> int \<times> 'd ext4_blockdev"
  if_bread :: "'d ext4_blockdev \<Rightarrow> u8 list \<Rightarrow> u64 \<Rightarrow> u32 \<Rightarrow> int res \<times> u8 list \<times> 'd ext4_blockdev"
  if_bwrite :: "'d ext4_blockdev \<Rightarrow> u8 list \<Rightarrow> u64 \<Rightarrow> u32 \<Rightarrow> int res \<times> 'd ext4_blockdev"
  if_close :: "'d ext4_blockdev \<Rightarrow> int \<times> 'd ext4_blockdev"
  if_lock :: "('d ext4_blockdev \<Rightarrow> int \<times> 'd ext4_blockdev) option"
  if_unlock :: "('d ext4_blockdev \<Rightarrow> int \<times> 'd ext4_blockdev) option"

definition rc_res :: "int \<Rightarrow> unit res" where
  "rc_res r = (if r = 0 then Inr () else Inl (EDEV r))"

definition bc_apply :: "(ext4_bcache \<Rightarrow> ext4_bcache) \<Rightarrow> 'd ext4_blockdev \<Rightarrow> 'd ext4_blockdev" where
  "bc_apply f bd = bd\<lparr> bd_bc := f (bd_bc bd) \<rparr>"

section \<open>Physical access\<close>

definition bdif_call_lock ::
    "('d ext4_blockdev \<Rightarrow> int \<times> 'd ext4_blockdev) option \<Rightarrow> 'd ext4_blockdev \<Rightarrow>
     unit res \<times> 'd ext4_blockdev" where
  "bdif_call_lock f bd =
     (case f of
        None \<Rightarrow> (Inr (), bd)
      | Some l \<Rightarrow> (case l bd of (r, bd') \<Rightarrow> (if r = 0 then Inr () else Inl EASSERT, bd')))"

definition ext4_bdif_lock :: "'d ext4_blockdev_iface \<Rightarrow> 'd ext4_blockdev \<Rightarrow> unit res \<times> 'd ext4_blockdev" where
  "ext4_bdif_lock io bd = bdif_call_lock (if_lock io) bd"

definition ext4_bdif_unlock :: "'d ext4_blockdev_iface \<Rightarrow> 'd ext4_blockdev \<Rightarrow> unit res \<times> 'd ext4_blockdev" where
  "ext4_bdif_unlock io bd = bdif_call_lock (if_unlock io) bd"

text \<open>The buffer the read leaves behind is part of the result, whatever the code.\<close>

definition ext4_bdif_bread ::
    "'d ext4_blockdev_iface \<Rightarrow> u8 list \<Rightarrow> u64 \<Rightarrow> u32 \<Rightarrow> 'd ext4_blockdev \<Rightarrow>
     unit res \<times> u8 list \<times> 'd ext4_blockdev" where
  "ext4_bdif_bread io buf blk_id blk_cnt bd =
     (case ext4_bdif_lock io bd of
        (Inl e, bd1) \<Rightarrow> (Inl e, buf, bd1)
      | (Inr _, bd1) \<Rightarrow>
          (case if_bread io bd1 buf blk_id blk_cnt of
             (r, buf', bd2) \<Rightarrow>
               (case ext4_bdif_unlock io (bd2\<lparr> bd_bread_ctr := bd_bread_ctr bd2 + 1 \<rparr>) of
                  (Inl e, bd3) \<Rightarrow> (Inl e, buf', bd3)
                | (Inr _, bd3) \<Rightarrow> (rbind r rc_res, buf', bd3))))"

definition ext4_bdif_bwrite ::
    "'d ext4_blockdev_iface \<Rightarrow> u8 list \<Rightarrow> u64 \<Rightarrow> u32 \<Rightarrow> 'd ext4_blockdev \<Rightarrow>
     unit res \<times> 'd ext4_blockdev" where
  "ext4_bdif_bwrite io buf blk_id blk_cnt bd =
     sbind (ext4_bdif_lock io bd) (\<lambda>_ bd1.
       case if_bwrite io bd1 buf blk_id blk_cnt of
         (r, bd2) \<Rightarrow>
           sbind (ext4_bdif_unlock io (bd2\<lparr> bd_bwrite_ctr := bd_bwrite_ctr bd2 + 1 \<rparr>)) (\<lambda>_ bd3.
           (rbind r rc_res, bd3)))"

section \<open>Opening and closing\<close>

definition ext4_block_init :: "'d ext4_blockdev_iface \<Rightarrow> 'd ext4_blockdev \<Rightarrow> unit res \<times> 'd ext4_blockdev" where
  "ext4_block_init io bd =
     (if bd_ph_refctr bd \<noteq> 0 then (Inr (), bd\<lparr> bd_ph_refctr := bd_ph_refctr bd + 1 \<rparr>)
      else case if_open io bd of
             (r, bd1) \<Rightarrow> sbind (rc_res r, bd1) (\<lambda>_ bd2. (Inr (), bd2\<lparr> bd_ph_refctr := 1 \<rparr>)))"

definition ext4_block_bind_bcache :: "ext4_bcache \<Rightarrow> 'd ext4_blockdev \<Rightarrow> 'd ext4_blockdev" where
  "ext4_block_bind_bcache bc bd = bd\<lparr> bd_bc := bc \<rparr>"

definition ext4_block_set_lb_size :: "u32 \<Rightarrow> 'd ext4_blockdev \<Rightarrow> unit res \<times> 'd ext4_blockdev" where
  "ext4_block_set_lb_size lb_bsize bd =
     (if lb_bsize mod bd_ph_bsize bd \<noteq> 0 then (Inl EASSERT, bd)
      else (Inr (), bd\<lparr> bd_lg_bsize := lb_bsize, bd_lg_bcnt := bd_part_size bd div ucast lb_bsize \<rparr>))"

definition ext4_block_fini :: "'d ext4_blockdev_iface \<Rightarrow> 'd ext4_blockdev \<Rightarrow> unit res \<times> 'd ext4_blockdev" where
  "ext4_block_fini io bd =
     (if bd_ph_refctr bd = 0 then (Inr (), bd)
      else
        let bd1 = bd\<lparr> bd_ph_refctr := bd_ph_refctr bd - 1 \<rparr>
        in if bd_ph_refctr bd1 \<noteq> 0 then (Inr (), bd1)
           else (case if_close io bd1 of (r, bd2) \<Rightarrow> (rc_res r, bd2)))"

section \<open>Direct block access\<close>

definition blk_pba :: "'d ext4_blockdev \<Rightarrow> u64 \<Rightarrow> u64" where
  "blk_pba bd lba = (lba * ucast (bd_lg_bsize bd) + bd_part_offset bd) div ucast (bd_ph_bsize bd)"

definition blk_pb_cnt :: "'d ext4_blockdev \<Rightarrow> u32" where
  "blk_pb_cnt bd = bd_lg_bsize bd div bd_ph_bsize bd"

definition ext4_blocks_get_direct ::
    "'d ext4_blockdev_iface \<Rightarrow> u8 list \<Rightarrow> u64 \<Rightarrow> u32 \<Rightarrow> 'd ext4_blockdev \<Rightarrow>
     unit res \<times> u8 list \<times> 'd ext4_blockdev" where
  "ext4_blocks_get_direct io buf lba cnt bd =
     ext4_bdif_bread io buf (blk_pba bd lba) (blk_pb_cnt bd * cnt) bd"

definition ext4_blocks_set_direct ::
    "'d ext4_blockdev_iface \<Rightarrow> u8 list \<Rightarrow> u64 \<Rightarrow> u32 \<Rightarrow> 'd ext4_blockdev \<Rightarrow>
     unit res \<times> 'd ext4_blockdev" where
  "ext4_blocks_set_direct io buf lba cnt bd =
     ext4_bdif_bwrite io buf (blk_pba bd lba) (blk_pb_cnt bd * cnt) bd"

section \<open>Flushing\<close>

text \<open>The completion callback of a buffer: recorded, and \<^verbatim>\<open>dont_shake\<close> is off afterwards.\<close>

definition end_write :: "ext4_buf \<Rightarrow> int \<Rightarrow> ext4_bcache \<Rightarrow> ext4_bcache" where
  "end_write b r bc =
     (case buf_end_write b of
        None \<Rightarrow> bc
      | Some cb \<Rightarrow> bc\<lparr> bc_events := bc_events bc @ [(cb, buf_lba b, r)], bc_dont_shake := False \<rparr>)"

definition ext4_block_flush_buf ::
    "'d ext4_blockdev_iface \<Rightarrow> u64 \<Rightarrow> 'd ext4_blockdev \<Rightarrow> unit res \<times> 'd ext4_blockdev" where
  "ext4_block_flush_buf io buf bd =
     (case ext4_buf_lookup (bd_bc bd) buf of
        None \<Rightarrow> (Inl UNDEF, bd)
      | Some b \<Rightarrow>
          if ext4_bcache_test_flag BC_DIRTY b \<and> ext4_bcache_test_flag BC_UPTODATE b then
            (case ext4_blocks_set_direct io (buf_data b) (buf_lba b) 1 bd of
               (Inl e, bd1) \<Rightarrow> (Inl e, bc_apply (end_write b (errno_code e)) bd1)
             | (Inr _, bd1) \<Rightarrow>
                 (Inr (), bc_apply (\<lambda>bc. end_write b 0
                            (buf_update buf (ext4_bcache_clear_flag BC_DIRTY)
                              (ext4_bcache_remove_dirty_node b bc))) bd1))
          else (Inr (), bd))"

text \<open>
  The two places of \<open>ext4_bcache_free\<close> where a dirty buffer is ready to go: it is queued on the dirty
  list in write-back mode, else written at once, whatever the outcome of the write.
\<close>

definition bcache_release_dirty ::
    "'d ext4_blockdev_iface \<Rightarrow> u64 \<Rightarrow> 'd ext4_blockdev \<Rightarrow> unit res \<times> 'd ext4_blockdev" where
  "bcache_release_dirty io buf bd =
     (case ext4_buf_lookup (bd_bc bd) buf of
        None \<Rightarrow> (Inl UNDEF, bd)
      | Some b \<Rightarrow>
          if ext4_bcache_test_flag BC_DIRTY b \<and> ext4_bcache_test_flag BC_UPTODATE b then
            if bd_cache_write_back bd \<noteq> 0 \<and> \<not> ext4_bcache_test_flag BC_FLUSH b \<and>
               \<not> ext4_bcache_test_flag BC_TMP b
            then (Inr (), bc_apply (ext4_bcache_insert_dirty_node b) bd)
            else sbind (sforget (ext4_block_flush_buf io buf bd)) (\<lambda>_ bd.
                 (Inr (), bc_apply (buf_update buf (ext4_bcache_clear_flag BC_FLUSH)) bd))
          else (Inr (), bd))"

definition ext4_bcache_free ::
    "'d ext4_blockdev_iface \<Rightarrow> ext4_block \<Rightarrow> 'd ext4_blockdev \<Rightarrow> unit res \<times> 'd ext4_blockdev" where
  "ext4_bcache_free io b bd =
     (if b_lb_id b = 0 then (Inl EASSERT, bd)
      else case b_buf b of
        None \<Rightarrow> (Inl EASSERT, bd)
      | Some buf \<Rightarrow>
          (case ext4_buf_lookup (bd_bc bd) buf of
             None \<Rightarrow> (Inl UNDEF, bd)
           | Some x \<Rightarrow>
               if buf_refctr x = 0 then (Inl EASSERT, bd)
               else
                 let bd = bc_apply (buf_update buf ext4_bcache_dec_ref) bd;
                     x = ext4_bcache_dec_ref x
                 in sbind (if buf_refctr x \<noteq> 0 \<and> buf_refctr x = buf_read_refctr x
                           then bcache_release_dirty io buf bd else (Inr (), bd)) (\<lambda>_ bd.
                    if buf_refctr x \<noteq> 0 then (Inr (), bd)
                    else
                      sbind (bcache_release_dirty io buf (bc_apply (lru_insert x) bd)) (\<lambda>_ bd.
                      case ext4_buf_lookup (bd_bc bd) buf of
                        None \<Rightarrow> (Inl UNDEF, bd)
                      | Some y \<Rightarrow>
                          (Inr (), if \<not> ext4_bcache_test_flag BC_UPTODATE y \<or>
                                      ext4_bcache_test_flag BC_TMP y
                                   then bc_apply (ext4_bcache_drop_buf y) bd else bd)))))"

definition ext4_block_flush_lba ::
    "'d ext4_blockdev_iface \<Rightarrow> u64 \<Rightarrow> 'd ext4_blockdev \<Rightarrow> unit res \<times> 'd ext4_blockdev" where
  "ext4_block_flush_lba io lba bd =
     (case ext4_bcache_find_get lba (bd_bc bd) of
        (None, bc) \<Rightarrow> (Inr (), bd\<lparr> bd_bc := bc \<rparr>)
      | (Some b, bc) \<Rightarrow>
          sbind (scatch (ext4_block_flush_buf io lba (bd\<lparr> bd_bc := bc \<rparr>)) (\<lambda>e bd.
                   sbind (sforget (ext4_bcache_free io b bd)) (\<lambda>_ bd. (Inl e, bd)))) (\<lambda>_ bd.
          sforget (ext4_bcache_free io b bd)))"

text \<open>
  The eviction loop; \<open>fuel\<close> bounds its iterations. Each iteration drops a node of the LRU tree, so the
  size of that tree is enough (\<open>shake_terminates\<close> below).
\<close>

fun cache_shake_loop ::
    "nat \<Rightarrow> 'd ext4_blockdev_iface \<Rightarrow> 'd ext4_blockdev \<Rightarrow> unit res \<times> 'd ext4_blockdev" where
  "cache_shake_loop fuel io bd =
     (case ext4_buf_lowest_lru (bd_bc bd) of
        None \<Rightarrow> (Inr (), bd)
      | Some buf \<Rightarrow>
          if \<not> ext4_bcache_is_full (bd_bc bd) then (Inr (), bd)
          else (case fuel of
                  0 \<Rightarrow> (Inl EHANG, bd)
                | Suc fuel' \<Rightarrow>
                    (case ext4_buf_lookup (bd_bc bd) buf of
                       None \<Rightarrow> (Inl UNDEF, bd)
                     | Some b \<Rightarrow>
                         sbind (if ext4_bcache_test_flag BC_DIRTY b then ext4_block_flush_buf io buf bd
                                else (Inr (), bd)) (\<lambda>_ bd1.
                           case ext4_buf_lookup (bd_bc bd1) buf of
                             None \<Rightarrow> (Inl UNDEF, bd1)
                           | Some b1 \<Rightarrow> cache_shake_loop fuel' io (bc_apply (ext4_bcache_drop_buf b1) bd1)))))"

declare cache_shake_loop.simps [simp del]

definition ext4_block_cache_shake ::
    "'d ext4_blockdev_iface \<Rightarrow> 'd ext4_blockdev \<Rightarrow> unit res \<times> 'd ext4_blockdev" where
  "ext4_block_cache_shake io bd =
     (if bc_dont_shake (bd_bc bd) then (Inr (), bd)
      else
        let bd = bc_apply (\<lambda>bc. bc\<lparr> bc_dont_shake := True \<rparr>) bd
        in case cache_shake_loop (length (bc_lru_root (bd_bc bd))) io bd of
             (r, bd1) \<Rightarrow> (r, bc_apply (\<lambda>bc. bc\<lparr> bc_dont_shake := False \<rparr>) bd1))"

text \<open>The flush loop empties the dirty list; each successful iteration removes its head.\<close>

fun cache_flush_loop ::
    "nat \<Rightarrow> 'd ext4_blockdev_iface \<Rightarrow> 'd ext4_blockdev \<Rightarrow> unit res \<times> 'd ext4_blockdev" where
  "cache_flush_loop fuel io bd =
     (case bc_dirty_list (bd_bc bd) of
        [] \<Rightarrow> (Inr (), bd)
      | buf # _ \<Rightarrow>
          (case fuel of
             0 \<Rightarrow> (Inl EHANG, bd)
           | Suc fuel' \<Rightarrow>
               sbind (ext4_block_flush_buf io buf bd) (\<lambda>_ bd1. cache_flush_loop fuel' io bd1)))"

declare cache_flush_loop.simps [simp del]

definition ext4_block_cache_flush ::
    "'d ext4_blockdev_iface \<Rightarrow> 'd ext4_blockdev \<Rightarrow> unit res \<times> 'd ext4_blockdev" where
  "ext4_block_cache_flush io bd = cache_flush_loop (length (bc_dirty_list (bd_bc bd))) io bd"

definition ext4_block_cache_write_back ::
    "'d ext4_blockdev_iface \<Rightarrow> u8 \<Rightarrow> 'd ext4_blockdev \<Rightarrow> unit res \<times> 'd ext4_blockdev" where
  "ext4_block_cache_write_back io on_off bd =
     (let bd = (if on_off \<noteq> 0 then bd\<lparr> bd_cache_write_back := bd_cache_write_back bd + 1 \<rparr> else bd);
          bd = (if on_off = 0 \<and> bd_cache_write_back bd \<noteq> 0
                then bd\<lparr> bd_cache_write_back := bd_cache_write_back bd - 1 \<rparr> else bd)
      in if bd_cache_write_back bd \<noteq> 0 then (Inr (), bd) else ext4_block_cache_flush io bd)"

fun bcache_cleanup_loop ::
    "'d ext4_blockdev_iface \<Rightarrow> u64 list \<Rightarrow> 'd ext4_blockdev \<Rightarrow> unit res \<times> 'd ext4_blockdev" where
  "bcache_cleanup_loop io [] bd = (Inr (), bd)"
| "bcache_cleanup_loop io (l # ls) bd =
     sbind (sforget (ext4_block_flush_buf io l bd)) (\<lambda>_ bd.
       case ext4_buf_lookup (bd_bc bd) l of
         None \<Rightarrow> (Inl UNDEF, bd)
       | Some b \<Rightarrow> bcache_cleanup_loop io ls (bc_apply (ext4_bcache_drop_buf b) bd))"

definition ext4_bcache_cleanup ::
    "'d ext4_blockdev_iface \<Rightarrow> 'd ext4_blockdev \<Rightarrow> unit res \<times> 'd ext4_blockdev" where
  "ext4_bcache_cleanup io bd = bcache_cleanup_loop io (map buf_lba (bc_lba_root (bd_bc bd))) bd"

section \<open>Cached block access\<close>

definition ext4_block_get_noread ::
    "'d ext4_blockdev_iface \<Rightarrow> u64 \<Rightarrow> 'd ext4_blockdev \<Rightarrow> ext4_block res \<times> 'd ext4_blockdev" where
  "ext4_block_get_noread io lba bd =
     (if bd_ph_refctr bd = 0 then (Inl EIO, bd)
      else if \<not> lba < bd_lg_bcnt bd then (Inl ENXIO, bd)
      else sbind (ext4_block_cache_shake io bd) (\<lambda>_ bd1.
             case ext4_bcache_alloc lba (bd_bc bd1) of
               (r, bc) \<Rightarrow> sbind (r, bd1\<lparr> bd_bc := bc \<rparr>) (\<lambda>(b, is_new) bd2. (Inr b, bd2))))"

definition ext4_block_get ::
    "'d ext4_blockdev_iface \<Rightarrow> u64 \<Rightarrow> 'd ext4_blockdev \<Rightarrow> ext4_block res \<times> 'd ext4_blockdev" where
  "ext4_block_get io lba bd =
     sbind (ext4_block_get_noread io lba bd) (\<lambda>b bd1.
       case ext4_buf_lookup (bd_bc bd1) lba of
         None \<Rightarrow> (Inl UNDEF, bd1)
       | Some x \<Rightarrow>
           if ext4_bcache_test_flag BC_UPTODATE x then (Inr b, bd1)
           else (case ext4_blocks_get_direct io (buf_data x) lba 1 bd1 of
                   (r, data, bd2) \<Rightarrow>
                     let bd3 = bc_apply (buf_update lba (\<lambda>x. x\<lparr> buf_data := data \<rparr>)) bd2
                     in sbind (scatch (r, bd3) (\<lambda>e bd.
                                 sbind (sforget (ext4_bcache_free io b bd)) (\<lambda>_ bd. (Inl e, bd)))) (\<lambda>_ bd.
                        (Inr b, bc_apply (buf_update lba (ext4_bcache_set_flag BC_UPTODATE)) bd))))"

definition ext4_block_set ::
    "'d ext4_blockdev_iface \<Rightarrow> ext4_block \<Rightarrow> 'd ext4_blockdev \<Rightarrow> unit res \<times> 'd ext4_blockdev" where
  "ext4_block_set io b bd =
     (if b_buf b = None then (Inl EASSERT, bd)
      else if bd_ph_refctr bd = 0 then (Inl EIO, bd)
      else ext4_bcache_free io b bd)"

end
