(* ===== verification/BlockBytes.thy ===== *)
theory BlockBytes
  imports BlockDev
begin

text \<open>
  Byte-granular access to a partition: \<open>ext4_block_readbytes\<close> and \<open>ext4_block_writebytes\<close> of
  \<^verbatim>\<open>src/ext4_blockdev.c\<close>, in their three stages: the unaligned head (through the device's bounce
  buffer \<^verbatim>\<open>ph_bbuf\<close>), the aligned middle, and the rest of the last block. The cursor of the C code is
  the triple of the offset of \<^verbatim>\<open>p\<close> in the caller's buffer, \<^verbatim>\<open>len\<close> and \<^verbatim>\<open>block_idx\<close>.
\<close>

type_synonym cursor = "nat \<times> u32 \<times> u64"

definition bread_bbuf ::
    "'d ext4_blockdev_iface \<Rightarrow> u64 \<Rightarrow> 'd ext4_blockdev \<Rightarrow> unit res \<times> 'd ext4_blockdev" where
  "bread_bbuf io block_idx bd =
     (case ext4_bdif_bread io (bd_ph_bbuf bd) block_idx 1 bd of
        (r, buf, bd1) \<Rightarrow> (r, bd1\<lparr> bd_ph_bbuf := buf \<rparr>))"

text \<open>\<^verbatim>\<open>memcpy\<close> into the bounce buffer at an offset.\<close>

definition bbuf_store :: "nat \<Rightarrow> u8 list \<Rightarrow> 'd ext4_blockdev \<Rightarrow> unit res \<times> 'd ext4_blockdev" where
  "bbuf_store at bytes bd =
     (case wr_range (bd_ph_bbuf bd) at bytes of
        Inl e \<Rightarrow> (Inl e, bd)
      | Inr b \<Rightarrow> (Inr (), bd\<lparr> bd_ph_bbuf := b \<rparr>))"

definition bytes_unalg :: "u64 \<Rightarrow> 'd ext4_blockdev \<Rightarrow> u32" where
  "bytes_unalg off bd = ucast (off AND ucast (bd_ph_bsize bd - 1))"

definition bytes_head_len :: "u32 \<Rightarrow> u32 \<Rightarrow> 'd ext4_blockdev \<Rightarrow> u32" where
  "bytes_head_len unalg len bd =
     (if bd_ph_bsize bd - unalg > len then len else bd_ph_bsize bd - unalg)"

section \<open>Writing\<close>

definition writebytes_head ::
    "'d ext4_blockdev_iface \<Rightarrow> u8 list \<Rightarrow> u32 \<Rightarrow> cursor \<Rightarrow> 'd ext4_blockdev \<Rightarrow>
     cursor res \<times> 'd ext4_blockdev" where
  "writebytes_head io buf unalg cur bd =
     (case cur of (p, len, block_idx) \<Rightarrow>
       if unalg = 0 then (Inr cur, bd)
       else
         let wlen = bytes_head_len unalg len bd
         in sbind (bread_bbuf io block_idx bd) (\<lambda>_ bd1.
            sbind (rd_range buf p (unat wlen), bd1) (\<lambda>bytes bd2.
            sbind (bbuf_store (unat unalg) bytes bd2) (\<lambda>_ bd3.
            sbind (ext4_bdif_bwrite io (bd_ph_bbuf bd3) block_idx 1 bd3) (\<lambda>_ bd4.
            (Inr (p + unat wlen, len - wlen, block_idx + 1), bd4))))))"

definition writebytes_mid ::
    "'d ext4_blockdev_iface \<Rightarrow> u8 list \<Rightarrow> cursor \<Rightarrow> 'd ext4_blockdev \<Rightarrow> cursor res \<times> 'd ext4_blockdev" where
  "writebytes_mid io buf cur bd =
     (case cur of (p, len, block_idx) \<Rightarrow>
       let blen = len div bd_ph_bsize bd
       in if blen = 0 then (Inr cur, bd)
          else
            sbind (ext4_bdif_bwrite io (drop p buf) block_idx blen bd) (\<lambda>_ bd1.
            (Inr (p + unat (bd_ph_bsize bd * blen), len - bd_ph_bsize bd * blen,
                  block_idx + ucast blen), bd1)))"

definition writebytes_tail ::
    "'d ext4_blockdev_iface \<Rightarrow> u8 list \<Rightarrow> cursor \<Rightarrow> 'd ext4_blockdev \<Rightarrow> unit res \<times> 'd ext4_blockdev" where
  "writebytes_tail io buf cur bd =
     (case cur of (p, len, block_idx) \<Rightarrow>
       if len = 0 then (Inr (), bd)
       else
         sbind (bread_bbuf io block_idx bd) (\<lambda>_ bd1.
         sbind (rd_range buf p (unat len), bd1) (\<lambda>bytes bd2.
         sbind (bbuf_store 0 bytes bd2) (\<lambda>_ bd3.
         ext4_bdif_bwrite io (bd_ph_bbuf bd3) block_idx 1 bd3))))"

definition ext4_block_writebytes ::
    "'d ext4_blockdev_iface \<Rightarrow> u64 \<Rightarrow> u8 list \<Rightarrow> u32 \<Rightarrow> 'd ext4_blockdev \<Rightarrow> unit res \<times> 'd ext4_blockdev" where
  "ext4_block_writebytes io off buf len bd =
     (if bd_ph_refctr bd = 0 then (Inl EIO, bd)
      else if off + ucast len > bd_part_size bd then (Inl EINVAL, bd)
      else
        let block_idx = (off + bd_part_offset bd) div ucast (bd_ph_bsize bd)
        in sbind (writebytes_head io buf (bytes_unalg off bd) (0, len, block_idx) bd) (\<lambda>cur bd1.
           sbind (writebytes_mid io buf cur bd1) (\<lambda>cur bd2.
           writebytes_tail io buf cur bd2)))"

section \<open>Reading\<close>

text \<open>The caller's buffer is threaded through and is part of the result.\<close>

definition readbytes_head ::
    "'d ext4_blockdev_iface \<Rightarrow> u32 \<Rightarrow> u8 list \<times> cursor \<Rightarrow> 'd ext4_blockdev \<Rightarrow>
     (u8 list \<times> cursor) res \<times> 'd ext4_blockdev" where
  "readbytes_head io unalg bcur bd =
     (case bcur of (buf, p, len, block_idx) \<Rightarrow>
       if unalg = 0 then (Inr bcur, bd)
       else
         let rlen = bytes_head_len unalg len bd
         in sbind (bread_bbuf io block_idx bd) (\<lambda>_ bd1.
            sbind (rd_range (bd_ph_bbuf bd1) (unat unalg) (unat rlen), bd1) (\<lambda>bytes bd2.
            sbind (wr_range buf p bytes, bd2) (\<lambda>buf bd3.
            (Inr (buf, p + unat rlen, len - rlen, block_idx + 1), bd3)))))"

definition readbytes_mid ::
    "'d ext4_blockdev_iface \<Rightarrow> u8 list \<times> cursor \<Rightarrow> 'd ext4_blockdev \<Rightarrow>
     (u8 list \<times> cursor) res \<times> 'd ext4_blockdev" where
  "readbytes_mid io bcur bd =
     (case bcur of (buf, p, len, block_idx) \<Rightarrow>
       let blen = len div bd_ph_bsize bd
       in if blen = 0 then (Inr bcur, bd)
          else (case ext4_bdif_bread io (drop p buf) block_idx blen bd of
                  (r, tail, bd1) \<Rightarrow>
                    sbind (r, bd1) (\<lambda>_ bd2.
                    (Inr (take p buf @ tail, p + unat (bd_ph_bsize bd * blen),
                          len - bd_ph_bsize bd * blen, block_idx + ucast blen), bd2))))"

definition readbytes_tail ::
    "'d ext4_blockdev_iface \<Rightarrow> u8 list \<times> cursor \<Rightarrow> 'd ext4_blockdev \<Rightarrow> u8 list res \<times> 'd ext4_blockdev" where
  "readbytes_tail io bcur bd =
     (case bcur of (buf, p, len, block_idx) \<Rightarrow>
       if len = 0 then (Inr buf, bd)
       else
         sbind (bread_bbuf io block_idx bd) (\<lambda>_ bd1.
         sbind (rd_range (bd_ph_bbuf bd1) 0 (unat len), bd1) (\<lambda>bytes bd2.
         (wr_range buf p bytes, bd2))))"

definition ext4_block_readbytes ::
    "'d ext4_blockdev_iface \<Rightarrow> u64 \<Rightarrow> u8 list \<Rightarrow> u32 \<Rightarrow> 'd ext4_blockdev \<Rightarrow> u8 list res \<times> 'd ext4_blockdev" where
  "ext4_block_readbytes io off buf len bd =
     (if bd_ph_refctr bd = 0 then (Inl EIO, bd)
      else if off + ucast len > bd_part_size bd then (Inl EINVAL, bd)
      else
        let block_idx = (off + bd_part_offset bd) div ucast (bd_ph_bsize bd)
        in sbind (readbytes_head io (bytes_unalg off bd) (buf, 0, len, block_idx) bd) (\<lambda>bcur bd1.
           sbind (readbytes_mid io bcur bd1) (\<lambda>bcur bd2.
           readbytes_tail io bcur bd2)))"

end
