(* ===== verification/BlockSpec.thy ===== *)
theory BlockSpec
  imports BlockBytes
begin

text \<open>
  The contract between the library and a block device driver, as the locale \<open>block_device\<close>, and
  what the library's block layer guarantees on top of it, proved once inside the locale: byte-granular
  reads and writes access exactly the bytes named. Theory \<open>FileDev\<close> interprets the locale on the
  Linux file driver of the repository.
\<close>

section \<open>Pieces of a byte sequence\<close>

definition slice :: "'a list \<Rightarrow> nat \<Rightarrow> nat \<Rightarrow> 'a list" where
  "slice c i n = take n (drop i c)"

definition splice :: "'a list \<Rightarrow> nat \<Rightarrow> 'a list \<Rightarrow> 'a list" where
  "splice c i bs = take i c @ bs @ drop (i + length bs) c"

lemma length_slice [simp]: "i + n \<le> length c \<Longrightarrow> length (slice c i n) = n"
  by (simp add: slice_def)

lemma slice_0 [simp]: "slice c i 0 = []"
  by (simp add: slice_def)

lemma splice_Nil [simp]: "splice c i [] = c"
  by (simp add: splice_def)

lemma length_splice [simp]: "i + length bs \<le> length c \<Longrightarrow> length (splice c i bs) = length c"
  by (simp add: splice_def)

lemma slice_append: "slice c i (n + m) = slice c i n @ slice c (i + n) m"
  unfolding slice_def take_add drop_drop by (simp add: add.commute)

lemma slice_slice: "j + m \<le> n \<Longrightarrow> slice (slice c i n) j m = slice c (i + j) m"
  by (simp add: slice_def drop_take min_def add.commute)

lemma splice_append:
  "i + length xs + length ys \<le> length c \<Longrightarrow> splice (splice c i xs) (i + length xs) ys = splice c i (xs @ ys)"
  by (simp add: splice_def ac_simps)

lemma splice_rmw:
  assumes "i + n \<le> length c" and "j + length xs \<le> n"
  shows "splice c i (splice (slice c i n) j xs) = splice c (i + j) xs"
proof -
  have "take i c @ take j (slice c i n) = take (i + j) c"
    using assms by (simp add: slice_def take_add)
  moreover have "drop (j + length xs) (slice c i n) @ drop (i + n) c = drop (i + j + length xs) c"
  proof -
    have "drop (j + length xs) (slice c i n) = take (n - (j + length xs)) (drop (i + (j + length xs)) c)"
      by (simp add: slice_def drop_take add.commute)
    also have "\<dots> @ drop (i + n) c = drop (i + (j + length xs)) c"
      using assms by (intro take_drop_join) simp
    finally show ?thesis by (simp add: add.assoc)
  qed
  moreover have "length (splice (slice c i n) j xs) = n" using assms by simp
  ultimately show ?thesis
    by (simp add: splice_def [of c] splice_def [of "slice c i n"] add.assoc)
qed

lemma slice_splice_same: "i + length bs \<le> length c \<Longrightarrow> slice (splice c i bs) i (length bs) = bs"
  by (simp add: slice_def splice_def)

lemma slice_splice_before: "i + n \<le> j \<Longrightarrow> j + length bs \<le> length c \<Longrightarrow> slice (splice c j bs) i n = slice c i n"
proof -
  assume a: "i + n \<le> j" "j + length bs \<le> length c"
  then have "drop i (splice c j bs) = take (j - i) (drop i c) @ bs @ drop (j + length bs) c"
    by (simp add: splice_def drop_take)
  moreover have "n \<le> length (take (j - i) (drop i c))" using a by simp
  ultimately show ?thesis using a by (simp add: slice_def min_absorb1)
qed

lemma slice_splice_after:
  "j + length bs \<le> i \<Longrightarrow> i \<le> length c \<Longrightarrow> slice (splice c j bs) i n = slice c i n"
  by (simp add: slice_def splice_def)

section \<open>The driver contract\<close>

text \<open>
  \<open>content d\<close> is the byte sequence the device holds. A transfer of whole blocks inside the device, of
  less than 4 GiB, succeeds; a read fills the front of the buffer and leaves the device's contents, a write
  replaces the bytes addressed; neither touches the descriptor. Lock and unlock succeed.
\<close>

locale block_device =
  fixes io :: "'d ext4_blockdev_iface" and content :: "'d \<Rightarrow> u8 list"
  assumes bread_ok:
    "\<lbrakk> unat (bd_ph_bsize bd) * unat cnt \<noteq> 0;
       unat (bd_ph_bsize bd) * (unat blk + unat cnt) \<le> length (content (bd_dev bd));
       length (content (bd_dev bd)) < 2 ^ 63; unat (bd_ph_bsize bd) * unat cnt < 2 ^ 32;
       unat (bd_ph_bsize bd) * unat cnt \<le> length buf \<rbrakk> \<Longrightarrow>
     \<exists>d'. content d' = content (bd_dev bd) \<and>
       if_bread io bd buf blk cnt =
         (Inr 0, slice (content (bd_dev bd)) (unat (bd_ph_bsize bd) * unat blk) (unat (bd_ph_bsize bd) * unat cnt) @
             drop (unat (bd_ph_bsize bd) * unat cnt) buf, bd\<lparr> bd_dev := d' \<rparr>)"
  and bwrite_ok:
    "\<lbrakk> unat (bd_ph_bsize bd) * unat cnt \<noteq> 0;
       unat (bd_ph_bsize bd) * (unat blk + unat cnt) \<le> length (content (bd_dev bd));
       length (content (bd_dev bd)) < 2 ^ 63; unat (bd_ph_bsize bd) * unat cnt < 2 ^ 32;
       unat (bd_ph_bsize bd) * unat cnt \<le> length buf \<rbrakk> \<Longrightarrow>
     \<exists>d'. content d' = splice (content (bd_dev bd)) (unat (bd_ph_bsize bd) * unat blk)
                        (take (unat (bd_ph_bsize bd) * unat cnt) buf) \<and>
       if_bwrite io bd buf blk cnt = (Inr 0, bd\<lparr> bd_dev := d' \<rparr>)"
  and lock_ok:
    "if_lock io = Some l \<Longrightarrow> \<exists>d'. content d' = content (bd_dev bd) \<and> l bd = (0, bd\<lparr> bd_dev := d' \<rparr>)"
  and unlock_ok:
    "if_unlock io = Some u \<Longrightarrow> \<exists>d'. content d' = content (bd_dev bd) \<and> u bd = (0, bd\<lparr> bd_dev := d' \<rparr>)"

text \<open>Two descriptors that differ in the device state and the transfer counters only.\<close>

definition bd_same :: "'d ext4_blockdev \<Rightarrow> 'd ext4_blockdev \<Rightarrow> bool" where
  "bd_same bd bd' \<longleftrightarrow>
     bd' = bd\<lparr> bd_dev := bd_dev bd', bd_bread_ctr := bd_bread_ctr bd', bd_bwrite_ctr := bd_bwrite_ctr bd' \<rparr>"

lemma bd_same_refl [simp]: "bd_same bd bd"
  by (simp add: bd_same_def)

lemma bd_same_dev: "bd_same bd (bd\<lparr> bd_dev := d, bd_bread_ctr := r, bd_bwrite_ctr := w \<rparr>)"
  by (simp add: bd_same_def)

lemma bd_same_fields:
  assumes "bd_same bd bd'"
  shows "bd_ph_bsize bd' = bd_ph_bsize bd" "bd_ph_bbuf bd' = bd_ph_bbuf bd"
    "bd_ph_refctr bd' = bd_ph_refctr bd" "bd_part_offset bd' = bd_part_offset bd"
    "bd_part_size bd' = bd_part_size bd" "bd_bc bd' = bd_bc bd" "bd_lg_bsize bd' = bd_lg_bsize bd"
    "bd_lg_bcnt bd' = bd_lg_bcnt bd" "bd_cache_write_back bd' = bd_cache_write_back bd"
    "bd_ph_bcnt bd' = bd_ph_bcnt bd"
  using assms by (cases bd; cases bd'; simp add: bd_same_def)+

lemma bd_same_trans: "bd_same a b \<Longrightarrow> bd_same b c \<Longrightarrow> bd_same a c"
  by (cases a; cases b; cases c) (simp add: bd_same_def)

section \<open>Byte-granular access\<close>

text \<open>The shape of a device on which byte access works: the partition is made of whole blocks of the device.\<close>

definition dev_geom :: "'d ext4_blockdev \<Rightarrow> nat \<Rightarrow> bool" where
  "dev_geom bd n \<longleftrightarrow>
     (\<exists>k < 32. unat (bd_ph_bsize bd) = 2 ^ k) \<and>
     unat (bd_ph_bsize bd) dvd unat (bd_part_offset bd) \<and>
     unat (bd_ph_bsize bd) dvd unat (bd_part_size bd) \<and>
     unat (bd_part_offset bd) + unat (bd_part_size bd) \<le> n \<and> n < 2 ^ 63 \<and>
     length (bd_ph_bbuf bd) = unat (bd_ph_bsize bd) \<and> bd_ph_refctr bd \<noteq> 0"

text \<open>Like \<open>bd_same\<close>, but the bounce buffer may have new contents.\<close>

definition bd_keep :: "'d ext4_blockdev \<Rightarrow> 'd ext4_blockdev \<Rightarrow> bool" where
  "bd_keep bd bd' \<longleftrightarrow>
     bd_same (bd\<lparr> bd_ph_bbuf := bd_ph_bbuf bd' \<rparr>) bd' \<and> length (bd_ph_bbuf bd') = length (bd_ph_bbuf bd)"

lemma bd_keep_refl [simp]: "bd_keep bd bd"
  by (simp add: bd_keep_def)

lemma bd_keep_fields:
  assumes "bd_keep bd bd'"
  shows "bd_ph_bsize bd' = bd_ph_bsize bd" "length (bd_ph_bbuf bd') = length (bd_ph_bbuf bd)"
    "bd_ph_refctr bd' = bd_ph_refctr bd" "bd_part_offset bd' = bd_part_offset bd"
    "bd_part_size bd' = bd_part_size bd" "bd_bc bd' = bd_bc bd" "bd_lg_bsize bd' = bd_lg_bsize bd"
    "bd_lg_bcnt bd' = bd_lg_bcnt bd" "bd_cache_write_back bd' = bd_cache_write_back bd"
    "bd_ph_bcnt bd' = bd_ph_bcnt bd"
  using assms bd_same_fields [of "bd\<lparr> bd_ph_bbuf := bd_ph_bbuf bd' \<rparr>" bd'] by (auto simp: bd_keep_def)

lemma bd_keep_trans: "bd_keep a b \<Longrightarrow> bd_keep b c \<Longrightarrow> bd_keep a c"
  by (cases a; cases b; cases c) (simp add: bd_keep_def bd_same_def)

lemma bd_same_keep: "bd_same a b \<Longrightarrow> bd_keep a b"
  by (cases a; cases b) (simp add: bd_keep_def bd_same_def)

lemma bd_keep_bbuf: "length b = length (bd_ph_bbuf a) \<Longrightarrow> bd_keep a (a\<lparr> bd_ph_bbuf := b \<rparr>)"
  by (cases a) (simp add: bd_keep_def bd_same_def)

lemma dev_geom_pos: "dev_geom bd n \<Longrightarrow> 0 < unat (bd_ph_bsize bd)"
  by (auto simp: dev_geom_def)

lemma dev_geom_keep: "bd_keep bd bd' \<Longrightarrow> dev_geom bd' n = dev_geom bd n"
  by (simp add: dev_geom_def bd_keep_fields)

lemma bytes_unalg_eq:
  assumes "dev_geom bd n"
  shows "unat (bytes_unalg off bd) = unat off mod unat (bd_ph_bsize bd)"
proof -
  from assms obtain k where k: "k < 32" "unat (bd_ph_bsize bd) = 2 ^ k" by (auto simp: dev_geom_def)
  then have "bd_ph_bsize bd = 2 ^ k" by (simp add: word_unat_eq_iff unat_pow2)
  then have m: "bd_ph_bsize bd - 1 = mask k" by (simp add: mask_eq_exp_minus_1)
  have "ucast (mask k :: u32) = (mask k :: u64)"
    by (rule bit_word_eqI) (use k(1) in \<open>auto simp: bit_simps\<close>)
  then have "off AND ucast (bd_ph_bsize bd - 1) = take_bit k off"
    by (simp add: m take_bit_eq_mask)
  moreover have u: "unat (take_bit k off) = unat off mod 2 ^ k"
    by (simp only: unsigned_take_bit_eq) (simp only: take_bit_eq_mod)
  moreover have "unat off mod 2 ^ k < 2 ^ 32"
  proof -
    have "unat off mod 2 ^ k < 2 ^ k" by simp
    also have "(2 :: nat) ^ k \<le> 2 ^ 32" using k(1) by (intro power_increasing) simp_all
    finally show ?thesis .
  qed
  ultimately show ?thesis
    unfolding bytes_unalg_def k(2) by (subst unat_ucast_small) simp_all
qed

text \<open>
  The cursor after some progress: \<open>p\<close> bytes of \<open>L\<close> are done, and the next block starts where the
  transfer stands. \<open>a\<close> is the position of the transfer on the device.
\<close>

definition cursor_at :: "nat \<Rightarrow> nat \<Rightarrow> nat \<Rightarrow> cursor \<Rightarrow> bool" where
  "cursor_at b a L cur \<longleftrightarrow>
     (case cur of (p, len, idx) \<Rightarrow> p + unat len = L \<and> (len = 0 \<or> unat idx * b = a + p))"

text \<open>The arithmetic of the head stage.\<close>

lemma head_arith:
  assumes g: "dev_geom bd n" and r: "unat off + unat len \<le> unat (bd_part_size bd)" and u: "bytes_unalg off bd \<noteq> 0"
  defines "b \<equiv> unat (bd_ph_bsize bd)" and "a \<equiv> unat (bd_part_offset bd) + unat off"
    and "idx \<equiv> (off + bd_part_offset bd) div ucast (bd_ph_bsize bd)"
    and "u' \<equiv> bytes_unalg off bd"
  defines "h \<equiv> bytes_head_len u' len bd"
  assumes l: "len \<noteq> 0"
  shows "unat idx * b + unat u' = a" and "unat u' + unat h \<le> b" and "unat h \<le> unat len"
    and "b * (unat idx + 1) \<le> n" and "cursor_at b a (unat len) (unat h, len - h, idx + 1)"
proof -
  have b0: "0 < b" and dvd: "b dvd unat (bd_part_offset bd)" "b dvd unat (bd_part_size bd)"
    using g by (auto simp: dev_geom_def b_def)
  have u'_eq: "unat u' = unat off mod b" unfolding u'_def b_def by (rule bytes_unalg_eq [OF g])
  have u0: "0 < unat u'" using u unfolding u'_def by (simp add: unat_gt_0)
  have ub: "unat u' < b" using u'_eq b0 by simp
  have asum: "unat (off + bd_part_offset bd) = a"
    using r g unfolding a_def dev_geom_def by (subst unat_add_le) simp_all
  have idx: "unat idx = a div b"
    unfolding idx_def by (simp only: unat_div asum unat_ucast_up b_def)
  have amod: "a mod b = unat u'"
    using dvd(1) unfolding a_def u'_eq by (metis dvd_eq_mod_eq_0 add.left_neutral mod_add_left_eq)
  then show 1: "unat idx * b + unat u' = a" unfolding idx by (metis div_mult_mod_eq)
  have su: "unat (bd_ph_bsize bd - u') = b - unat u'"
    using ub unfolding b_def by (intro unat_minus_le) simp
  have h: "unat h = min (b - unat u') (unat len)"
    unfolding h_def bytes_head_len_def u'_def [symmetric] by (auto simp: word_less_nat_alt su)
  then show 2: "unat u' + unat h \<le> b" and 3: "unat h \<le> unat len" using ub by auto
  have pe: "a < unat (bd_part_offset bd) + unat (bd_part_size bd)"
    using r l unfolding a_def by (simp add: word_unat_eq_iff)
  have "unat idx * b + b \<le> unat (bd_part_offset bd) + unat (bd_part_size bd)"
    by (rule dvd_next) (use dvd 1 pe in auto)
  also have "\<dots> \<le> n" using g by (simp add: dev_geom_def)
  finally show nb: "b * (unat idx + 1) \<le> n" by (simp add: algebra_simps)
  have lh: "unat (len - h) = unat len - unat h" using 3 by (rule unat_minus_le)
  have "1 * (unat idx + 1) \<le> b * (unat idx + 1)" using b0 by (intro mult_le_mono1) simp
  with nb g have "unat idx + 1 < 2 ^ 63" by (simp add: dev_geom_def)
  then have i1: "unat (idx + 1) = unat idx + 1" by (intro unat_inc) simp
  have "len - h = 0 \<or> (unat idx + 1) * b = a + unat h"
  proof (cases "unat len \<le> b - unat u'")
    case True
    then have "unat (len - h) = 0" using h lh by simp
    then show ?thesis by (simp add: word_unat_eq_iff)
  next
    case False
    then have "unat h = b - unat u'" using h by simp
    then have "(unat idx + 1) * b = a + unat h" using 1 ub by (simp add: distrib_right)
    then show ?thesis by simp
  qed
  with lh 3 i1 show "cursor_at b a (unat len) (unat h, len - h, idx + 1)"
    by (simp add: cursor_at_def)
qed

text \<open>The arithmetic of the middle stage.\<close>

lemma mid_arith:
  assumes g: "dev_geom bd n" and c: "cursor_at (unat (bd_ph_bsize bd)) a L (p, len, idx)" and e: "a + L \<le> n"
    and l: "len div bd_ph_bsize bd \<noteq> 0"
  defines "b \<equiv> unat (bd_ph_bsize bd)" and "blen \<equiv> len div bd_ph_bsize bd"
  defines "m \<equiv> b * unat blen"
  shows "unat (bd_ph_bsize bd * blen) = m" and "m \<le> unat len" and "b * (unat idx + unat blen) \<le> n"
    and "b * unat idx = a + p" and "m < 2 ^ 32"
    and "cursor_at b a L (p + m, len - bd_ph_bsize bd * blen, idx + ucast blen)"
    and "unat (len - bd_ph_bsize bd * blen) < b"
proof -
  have b0: "0 < b" using g by (auto simp: dev_geom_def b_def)
  have bl: "unat blen = unat len div b" unfolding blen_def b_def by (rule unat_div)
  have "len \<noteq> 0" using l by (auto simp: blen_def)
  then have cp: "p + unat len = L" "unat idx * b = a + p" using c by (auto simp: cursor_at_def b_def)
  then show 4: "b * unat idx = a + p" by (simp add: mult.commute)
  show 2: "m \<le> unat len" unfolding m_def bl by simp
  then show 5: "m < 2 ^ 32" using unat_lt32 [of len] by linarith
  then show 1: "unat (bd_ph_bsize bd * blen) = m"
    unfolding m_def b_def by (intro unat_mult_le) simp
  have "b * (unat idx + unat blen) = a + p + m" using 4 by (simp add: m_def algebra_simps)
  then show 3: "b * (unat idx + unat blen) \<le> n" using 2 cp e by linarith
  have lm: "unat (len - bd_ph_bsize bd * blen) = unat len - m"
    using 1 2 by (subst unat_minus_le) simp_all
  have "unat len - m = unat len mod b" unfolding m_def bl by (simp add: minus_mult_div_eq_mod)
  then show "unat (len - bd_ph_bsize bd * blen) < b" using lm b0 by simp
  have "1 * (unat idx + unat blen) \<le> b * (unat idx + unat blen)" using b0 by (intro mult_le_mono1) simp
  also note 3
  also have "n < 2 ^ 63" using g by (simp add: dev_geom_def)
  finally have "unat idx + unat blen < 2 ^ 63" by simp
  then have iu: "unat (idx + ucast blen) = unat idx + unat blen"
    by (subst unat_add_le) (simp_all add: unat_ucast_up)
  show "cursor_at b a L (p + m, len - bd_ph_bsize bd * blen, idx + ucast blen)"
    unfolding cursor_at_def prod.case iu lm
    using cp 2 \<open>b * (unat idx + unat blen) = a + p + m\<close> by (simp add: mult.commute)
qed

text \<open>The arithmetic of the last stage.\<close>

lemma tail_arith:
  assumes g: "dev_geom bd n" and c: "cursor_at (unat (bd_ph_bsize bd)) a L (p, len, idx)"
    and e: "a + L \<le> unat (bd_part_offset bd) + unat (bd_part_size bd)" and l: "len \<noteq> 0"
  shows "unat (bd_ph_bsize bd) * unat idx = a + p" and "p + unat len = L"
    and "unat (bd_ph_bsize bd) * (unat idx + 1) \<le> n"
proof -
  let ?b = "unat (bd_ph_bsize bd)"
  have dvd: "?b dvd unat (bd_part_offset bd)" "?b dvd unat (bd_part_size bd)"
    using g by (auto simp: dev_geom_def)
  show 1: "?b * unat idx = a + p" and 2: "p + unat len = L"
    using c l by (auto simp: cursor_at_def mult.commute)
  have "?b * unat idx < unat (bd_part_offset bd) + unat (bd_part_size bd)"
    using 1 2 e l by (simp add: word_unat_eq_iff)
  then have "?b * unat idx + ?b \<le> unat (bd_part_offset bd) + unat (bd_part_size bd)"
    by (intro dvd_next) (use dvd in auto)
  also have "\<dots> \<le> n" using g by (simp add: dev_geom_def)
  finally show "?b * (unat idx + 1) \<le> n" by (simp add: algebra_simps)
qed

context block_device begin

lemma call_lock_ok:
  assumes "\<And>l bd. f = Some l \<Longrightarrow> \<exists>d'. content d' = content (bd_dev bd) \<and> l bd = (0, bd\<lparr> bd_dev := d' \<rparr>)"
  shows "\<exists>d'. content d' = content (bd_dev bd) \<and> bdif_call_lock f bd = (Inr (), bd\<lparr> bd_dev := d' \<rparr>)"
proof (cases f)
  case None
  then show ?thesis by (intro exI [of _ "bd_dev bd"]) (simp add: bdif_call_lock_def)
next
  case (Some l)
  from assms [OF Some, of bd] show ?thesis by (auto simp: bdif_call_lock_def Some)
qed

lemma bdif_bread_ok:
  assumes "unat (bd_ph_bsize bd) * unat cnt \<noteq> 0"
    and "unat (bd_ph_bsize bd) * (unat blk + unat cnt) \<le> length (content (bd_dev bd))"
    and "length (content (bd_dev bd)) < 2 ^ 63" and "unat (bd_ph_bsize bd) * unat cnt < 2 ^ 32"
    and "unat (bd_ph_bsize bd) * unat cnt \<le> length buf"
  shows "\<exists>bd'. bd_same bd bd' \<and> content (bd_dev bd') = content (bd_dev bd) \<and>
    ext4_bdif_bread io buf blk cnt bd =
      (Inr (), slice (content (bd_dev bd)) (unat (bd_ph_bsize bd) * unat blk) (unat (bd_ph_bsize bd) * unat cnt) @
          drop (unat (bd_ph_bsize bd) * unat cnt) buf, bd')"
proof -
  obtain d1 where 1: "content d1 = content (bd_dev bd)" "ext4_bdif_lock io bd = (Inr (), bd\<lparr> bd_dev := d1 \<rparr>)"
    using call_lock_ok [of "if_lock io" bd] lock_ok unfolding ext4_bdif_lock_def by blast
  let ?bd1 = "bd\<lparr> bd_dev := d1 \<rparr>"
  from bread_ok [of ?bd1 cnt blk buf] assms 1 obtain d2 where 2: "content d2 = content (bd_dev bd)"
    "if_bread io ?bd1 buf blk cnt =
       (Inr 0, slice (content (bd_dev bd)) (unat (bd_ph_bsize bd) * unat blk) (unat (bd_ph_bsize bd) * unat cnt) @
           drop (unat (bd_ph_bsize bd) * unat cnt) buf, bd\<lparr> bd_dev := d2 \<rparr>)" by auto
  let ?bd2 = "bd\<lparr> bd_dev := d2, bd_bread_ctr := bd_bread_ctr bd + 1 \<rparr>"
  obtain d3 where 3: "content d3 = content d2" "ext4_bdif_unlock io ?bd2 = (Inr (), ?bd2\<lparr> bd_dev := d3 \<rparr>)"
    using call_lock_ok [of "if_unlock io" ?bd2] unlock_ok unfolding ext4_bdif_unlock_def by auto
  show ?thesis
    by (rule exI [of _ "?bd2\<lparr> bd_dev := d3 \<rparr>"])
       (use 1 2 3 in \<open>simp add: ext4_bdif_bread_def rc_res_def bd_same_def\<close>)
qed

lemma bdif_bwrite_ok:
  assumes "unat (bd_ph_bsize bd) * unat cnt \<noteq> 0"
    and "unat (bd_ph_bsize bd) * (unat blk + unat cnt) \<le> length (content (bd_dev bd))"
    and "length (content (bd_dev bd)) < 2 ^ 63" and "unat (bd_ph_bsize bd) * unat cnt < 2 ^ 32"
    and "unat (bd_ph_bsize bd) * unat cnt \<le> length buf"
  shows "\<exists>bd'. bd_same bd bd' \<and>
    content (bd_dev bd') = splice (content (bd_dev bd)) (unat (bd_ph_bsize bd) * unat blk)
                             (take (unat (bd_ph_bsize bd) * unat cnt) buf) \<and>
    ext4_bdif_bwrite io buf blk cnt bd = (Inr (), bd')"
proof -
  obtain d1 where 1: "content d1 = content (bd_dev bd)" "ext4_bdif_lock io bd = (Inr (), bd\<lparr> bd_dev := d1 \<rparr>)"
    using call_lock_ok [of "if_lock io" bd] lock_ok unfolding ext4_bdif_lock_def by blast
  let ?bd1 = "bd\<lparr> bd_dev := d1 \<rparr>"
  from bwrite_ok [of ?bd1 cnt blk buf] assms 1 obtain d2 where
    2: "content d2 = splice (content (bd_dev bd)) (unat (bd_ph_bsize bd) * unat blk)
          (take (unat (bd_ph_bsize bd) * unat cnt) buf)"
    "if_bwrite io ?bd1 buf blk cnt = (Inr 0, bd\<lparr> bd_dev := d2 \<rparr>)" by auto
  let ?bd2 = "bd\<lparr> bd_dev := d2, bd_bwrite_ctr := bd_bwrite_ctr bd + 1 \<rparr>"
  obtain d3 where 3: "content d3 = content d2" "ext4_bdif_unlock io ?bd2 = (Inr (), ?bd2\<lparr> bd_dev := d3 \<rparr>)"
    using call_lock_ok [of "if_unlock io" ?bd2] unlock_ok unfolding ext4_bdif_unlock_def by auto
  show ?thesis
    by (rule exI [of _ "?bd2\<lparr> bd_dev := d3 \<rparr>"])
       (use 1 2 3 in \<open>simp add: ext4_bdif_bwrite_def rc_res_def bd_same_def\<close>)
qed

text \<open>A one-block read into the bounce buffer.\<close>

lemma bread_bbuf_ok:
  assumes g: "dev_geom bd (length (content (bd_dev bd)))"
    and e: "unat (bd_ph_bsize bd) * (unat idx + 1) \<le> length (content (bd_dev bd))"
  shows "\<exists>bd'. bd_keep bd bd' \<and> content (bd_dev bd') = content (bd_dev bd) \<and>
    bd_ph_bbuf bd' = slice (content (bd_dev bd)) (unat (bd_ph_bsize bd) * unat idx) (unat (bd_ph_bsize bd)) \<and>
    bread_bbuf io idx bd = (Inr (), bd')"
proof -
  let ?b = "unat (bd_ph_bsize bd)" and ?c = "content (bd_dev bd)"
  have lb: "length (bd_ph_bbuf bd) = ?b" and "?b < 2 ^ 32" "length ?c < 2 ^ 63" "0 < ?b"
    using g unat_lt32 [of "bd_ph_bsize bd"] dev_geom_pos [OF g] by (auto simp: dev_geom_def)
  with e bdif_bread_ok [of bd 1 idx "bd_ph_bbuf bd"] obtain bd1 where
    1: "bd_same bd bd1" "content (bd_dev bd1) = ?c"
      "ext4_bdif_bread io (bd_ph_bbuf bd) idx 1 bd = (Inr (), slice ?c (?b * unat idx) ?b, bd1)" by auto
  let ?s = "slice ?c (?b * unat idx) ?b"
  have "length ?s = ?b" using e by simp
  then have "bd_keep bd (bd1\<lparr> bd_ph_bbuf := ?s \<rparr>)"
    using bd_keep_trans [OF bd_same_keep [OF 1(1)] bd_keep_bbuf] bd_same_fields [OF 1(1)] lb by simp
  with 1 show ?thesis
    by (intro exI [of _ "bd1\<lparr> bd_ph_bbuf := ?s \<rparr>"]) (simp add: bread_bbuf_def)
qed

text \<open>Reading: after a stage the bytes up to the cursor are in the caller's buffer.\<close>

lemma readbytes_head_ok:
  assumes g: "dev_geom bd (length (content (bd_dev bd)))"
    and r: "unat off + unat len \<le> unat (bd_part_size bd)" and lb: "unat len \<le> length buf" and l: "len \<noteq> 0"
  defines "a \<equiv> unat (bd_part_offset bd) + unat off"
  shows "\<exists>bd' p len' idx'. bd_keep bd bd' \<and> content (bd_dev bd') = content (bd_dev bd) \<and>
    cursor_at (unat (bd_ph_bsize bd)) a (unat len) (p, len', idx') \<and>
    readbytes_head io (bytes_unalg off bd)
        (buf, 0, len, (off + bd_part_offset bd) div ucast (bd_ph_bsize bd)) bd =
      (Inr (splice buf 0 (slice (content (bd_dev bd)) a p), p, len', idx'), bd')"
proof (cases "bytes_unalg off bd = 0")
  case True
  let ?b = "unat (bd_ph_bsize bd)" and ?idx = "(off + bd_part_offset bd) div ucast (bd_ph_bsize bd)"
  have dvd: "?b dvd unat off" "?b dvd unat (bd_part_offset bd)"
    using True bytes_unalg_eq [OF g, of off] g by (auto simp: dev_geom_def dvd_eq_mod_eq_0)
  have "unat (off + bd_part_offset bd) = a"
    using r g unfolding a_def dev_geom_def by (subst unat_add_le) simp_all
  then have "unat ?idx = a div ?b" by (simp only: unat_div unat_ucast_up)
  moreover have "?b dvd a" using dvd by (simp add: a_def)
  ultimately have "cursor_at ?b a (unat len) (0, len, ?idx)" by (simp add: cursor_at_def)
  with True show ?thesis by (intro exI [of _ bd]) (auto simp: readbytes_head_def)
next
  case False
  let ?b = "unat (bd_ph_bsize bd)" and ?idx = "(off + bd_part_offset bd) div ucast (bd_ph_bsize bd)"
  let ?u = "bytes_unalg off bd" and ?c = "content (bd_dev bd)"
  let ?h = "bytes_head_len ?u len bd"
  note h = head_arith [OF g r False l, folded a_def]
  from bread_bbuf_ok [OF g h(4)] obtain bd1 where
    1: "bd_keep bd bd1" "content (bd_dev bd1) = ?c" "bd_ph_bbuf bd1 = slice ?c (?b * unat ?idx) ?b"
      "bread_bbuf io ?idx bd = (Inr (), bd1)" by blast
  have "slice (bd_ph_bbuf bd1) (unat ?u) (unat ?h) = slice ?c a (unat ?h)"
    using h(1,2) 1(3) by (simp add: slice_slice mult.commute)
  moreover have "length (bd_ph_bbuf bd1) = ?b" using bd_keep_fields(2) [OF 1(1)] g by (simp add: dev_geom_def)
  ultimately have rd: "rd_range (bd_ph_bbuf bd1) (unat ?u) (unat ?h) = Inr (slice ?c a (unat ?h))"
    using h(2) by (simp add: rd_range_def slice_def)
  have "a + unat ?h \<le> length ?c"
  proof -
    have "a + unat ?h \<le> ?b * (unat ?idx + 1)" using h(1,2) by (simp add: algebra_simps)
    with h(4) show ?thesis by linarith
  qed
  then have wr: "wr_range buf 0 (slice ?c a (unat ?h)) = Inr (splice buf 0 (slice ?c a (unat ?h)))"
    using h(3) lb by (simp add: wr_range_def splice_def)
  have "readbytes_head io ?u (buf, 0, len, ?idx) bd =
      (Inr (splice buf 0 (slice ?c a (unat ?h)), unat ?h, len - ?h, ?idx + 1), bd1)"
    using False 1(4) rd wr by (simp add: readbytes_head_def Let_def)
  with h(5) 1 show ?thesis by blast
qed

lemma readbytes_mid_ok:
  assumes g: "dev_geom bd (length (content (bd_dev bd)))"
    and c: "cursor_at (unat (bd_ph_bsize bd)) a L (p, len, idx)"
    and e: "a + L \<le> length (content (bd_dev bd))" and lb: "L \<le> length buf"
  shows "\<exists>bd' p' len' idx'. bd_keep bd bd' \<and> content (bd_dev bd') = content (bd_dev bd) \<and>
    cursor_at (unat (bd_ph_bsize bd)) a L (p', len', idx') \<and> unat len' < unat (bd_ph_bsize bd) \<and>
    readbytes_mid io (splice buf 0 (slice (content (bd_dev bd)) a p), p, len, idx) bd =
      (Inr (splice buf 0 (slice (content (bd_dev bd)) a p'), p', len', idx'), bd')"
proof (cases "len div bd_ph_bsize bd = 0")
  case True
  have "0 < unat (bd_ph_bsize bd)" using g by (auto simp: dev_geom_def)
  moreover have "unat len div unat (bd_ph_bsize bd) = 0" using True by (metis unat_0 unat_div)
  ultimately have "unat len < unat (bd_ph_bsize bd)" by (simp add: div_eq_0_iff)
  with True c show ?thesis by (intro exI [of _ bd]) (auto simp: readbytes_mid_def)
next
  case False
  let ?b = "unat (bd_ph_bsize bd)" and ?c = "content (bd_dev bd)" and ?blen = "len div bd_ph_bsize bd"
  let ?m = "?b * unat ?blen" and ?buf = "splice buf 0 (slice ?c a p)"
  note m = mid_arith [OF g c e False]
  have pL: "p + unat len = L" using c by (simp add: cursor_at_def)
  have ls: "length (slice ?c a p) = p" using pL e by (intro length_slice) simp
  then have lbuf: "length ?buf = length buf" using pL lb by (subst length_splice) simp_all
  have "?m \<le> length (drop p ?buf)" using m(2) pL lb lbuf by simp
  moreover have "?m \<noteq> 0" "length ?c < 2 ^ 63"
    using False dev_geom_pos [OF g] g by (auto simp: unat_eq_zero dev_geom_def)
  ultimately obtain bd1 where 1: "bd_same bd bd1" "content (bd_dev bd1) = ?c"
    "ext4_bdif_bread io (drop p ?buf) idx ?blen bd =
       (Inr (), slice ?c (?b * unat idx) ?m @ drop ?m (drop p ?buf), bd1)"
    using bdif_bread_ok [OF _ m(3) _ m(5), of "drop p ?buf"] by blast
  have "take p ?buf @ slice ?c (a + p) ?m @ drop ?m (drop p ?buf) = splice ?buf p (slice ?c (a + p) ?m)"
    using m(2) pL e by (simp add: splice_def add.commute)
  also have "\<dots> = splice buf 0 (slice ?c a p @ slice ?c (a + p) ?m)"
    using splice_append [of 0 "slice ?c a p" "slice ?c (a + p) ?m" buf] ls m(2) pL e lb by simp
  finally have buf: "take p ?buf @ slice ?c (a + p) ?m @ drop ?m (drop p ?buf) = splice buf 0 (slice ?c a (p + ?m))"
    by (simp only: slice_append)
  have "readbytes_mid io (?buf, p, len, idx) bd =
      (Inr (splice buf 0 (slice ?c a (p + ?m)), p + ?m, len - bd_ph_bsize bd * ?blen, idx + ucast ?blen), bd1)"
    using False 1(3) buf m(1) unfolding m(4) by (simp add: readbytes_mid_def Let_def)
  with m(6,7) 1 bd_same_keep show ?thesis by blast
qed

lemma readbytes_tail_ok:
  assumes g: "dev_geom bd (length (content (bd_dev bd)))"
    and c: "cursor_at (unat (bd_ph_bsize bd)) a L (p, len, idx)" and s: "unat len < unat (bd_ph_bsize bd)"
    and e: "a + L \<le> unat (bd_part_offset bd) + unat (bd_part_size bd)" and lb: "L \<le> length buf"
  shows "\<exists>bd'. bd_keep bd bd' \<and> content (bd_dev bd') = content (bd_dev bd) \<and>
    readbytes_tail io (splice buf 0 (slice (content (bd_dev bd)) a p), p, len, idx) bd =
      (Inr (splice buf 0 (slice (content (bd_dev bd)) a L)), bd')"
proof (cases "len = 0")
  case True
  then show ?thesis using c by (intro exI [of _ bd]) (auto simp: readbytes_tail_def cursor_at_def)
next
  case False
  let ?b = "unat (bd_ph_bsize bd)" and ?c = "content (bd_dev bd)" and ?buf = "splice buf 0 (slice (content (bd_dev bd)) a p)"
  note t = tail_arith [OF g c e False]
  have en: "a + L \<le> length ?c" using e g by (simp add: dev_geom_def)
  from bread_bbuf_ok [OF g t(3)] obtain bd1 where
    1: "bd_keep bd bd1" "content (bd_dev bd1) = ?c" "bd_ph_bbuf bd1 = slice ?c (a + p) ?b"
      "bread_bbuf io idx bd = (Inr (), bd1)" using t(1) by auto
  have "slice (slice ?c (a + p) ?b) 0 (unat len) = slice ?c (a + p) (unat len)"
    using s by (simp add: slice_slice)
  moreover have "a + p + ?b \<le> length ?c" using t(1,3) by (simp add: algebra_simps)
  ultimately have rd: "rd_range (bd_ph_bbuf bd1) 0 (unat len) = Inr (slice ?c (a + p) (unat len))"
    using s 1(3) by (simp add: rd_range_def slice_def)
  have ls: "length (slice ?c a p) = p" "length (slice ?c (a + p) (unat len)) = unat len"
    using t(2) en by simp_all
  then have "length ?buf = length buf" using t(2) lb by (subst length_splice) simp_all
  then have "wr_range ?buf p (slice ?c (a + p) (unat len)) = Inr (splice ?buf p (slice ?c (a + p) (unat len)))"
    using ls t(2) lb by (simp add: wr_range_def splice_def)
  also have "splice ?buf p (slice ?c (a + p) (unat len)) = splice buf 0 (slice ?c a p @ slice ?c (a + p) (unat len))"
    using splice_append [of 0 "slice ?c a p" "slice ?c (a + p) (unat len)" buf] ls t(2) lb by simp
  also have "slice ?c a p @ slice ?c (a + p) (unat len) = slice ?c a L"
    using t(2) by (simp only: slice_append [symmetric])
  finally have "readbytes_tail io (?buf, p, len, idx) bd = (Inr (splice buf 0 (slice ?c a L)), bd1)"
    using False 1(4) rd by (simp add: readbytes_tail_def)
  with 1 show ?thesis by blast
qed

lemma bytes_in_range:
  fixes len :: u32
  assumes g: "dev_geom bd (length (content (bd_dev bd)))" and r: "unat off + unat len \<le> unat (bd_part_size bd)"
  shows "\<not> off + ucast len > bd_part_size bd" and "bd_ph_refctr bd \<noteq> 0"
    and "unat (bd_part_offset bd) + unat off + unat len \<le> unat (bd_part_offset bd) + unat (bd_part_size bd)"
    and "unat (bd_part_offset bd) + unat off + unat len \<le> length (content (bd_dev bd))"
proof -
  have "unat (off + ucast len) = unat off + unat len"
    using r unat_lt64 [of "bd_part_size bd"] by (subst unat_add_le) (simp_all add: unat_ucast_up)
  then show "\<not> off + ucast len > bd_part_size bd" using r by (simp add: word_less_nat_alt)
qed (use g r in \<open>auto simp: dev_geom_def\<close>)

lemma readbytes_ok:
  assumes g: "dev_geom bd (length (content (bd_dev bd)))"
    and r: "unat off + unat len \<le> unat (bd_part_size bd)" and lb: "unat len \<le> length buf" and l: "len \<noteq> 0"
  shows "\<exists>bd'. bd_keep bd bd' \<and> content (bd_dev bd') = content (bd_dev bd) \<and>
    ext4_block_readbytes io off buf len bd =
      (Inr (slice (content (bd_dev bd)) (unat (bd_part_offset bd) + unat off) (unat len) @ drop (unat len) buf), bd')"
proof -
  let ?c = "content (bd_dev bd)" and ?a = "unat (bd_part_offset bd) + unat off"
  let ?idx = "(off + bd_part_offset bd) div ucast (bd_ph_bsize bd)"
  note rng = bytes_in_range [OF g r]
  obtain bd1 p1 len1 idx1 where 1: "bd_keep bd bd1" "content (bd_dev bd1) = ?c"
    "cursor_at (unat (bd_ph_bsize bd)) ?a (unat len) (p1, len1, idx1)"
    "readbytes_head io (bytes_unalg off bd) (buf, 0, len, ?idx) bd =
       (Inr (splice buf 0 (slice ?c ?a p1), p1, len1, idx1), bd1)"
    using readbytes_head_ok [OF g r lb l] by blast
  note f1 = bd_keep_fields [OF 1(1)]
  have g1: "dev_geom bd1 (length (content (bd_dev bd1)))" using g 1(2) by (simp add: dev_geom_keep [OF 1(1)])
  obtain bd2 p2 len2 idx2 where 2: "bd_keep bd1 bd2" "content (bd_dev bd2) = ?c"
    "cursor_at (unat (bd_ph_bsize bd1)) ?a (unat len) (p2, len2, idx2)" "unat len2 < unat (bd_ph_bsize bd1)"
    "readbytes_mid io (splice buf 0 (slice ?c ?a p1), p1, len1, idx1) bd1 =
       (Inr (splice buf 0 (slice ?c ?a p2), p2, len2, idx2), bd2)"
    using readbytes_mid_ok [OF g1, of ?a "unat len" p1 len1 idx1 buf] 1(2,3) rng(4) lb f1 by auto
  note f2 = bd_keep_fields [OF 2(1)]
  have g2: "dev_geom bd2 (length (content (bd_dev bd2)))" using g1 2(2) 1(2) by (simp add: dev_geom_keep [OF 2(1)])
  obtain bd3 where 3: "bd_keep bd2 bd3" "content (bd_dev bd3) = ?c"
    "readbytes_tail io (splice buf 0 (slice ?c ?a p2), p2, len2, idx2) bd2 =
       (Inr (splice buf 0 (slice ?c ?a (unat len))), bd3)"
    using readbytes_tail_ok [OF g2, of ?a "unat len" p2 len2 idx2 buf] 2(2-4) rng(3) lb f1 f2 by auto
  have "splice buf 0 (slice ?c ?a (unat len)) = slice ?c ?a (unat len) @ drop (unat len) buf"
    using rng(4) by (simp add: splice_def)
  moreover have "ext4_block_readbytes io off buf len bd = (Inr (splice buf 0 (slice ?c ?a (unat len))), bd3)"
    using rng(1,2) 1(4) 2(5) 3(3) by (simp add: ext4_block_readbytes_def Let_def)
  moreover have "bd_keep bd bd3" using 1(1) 2(1) 3(1) by (blast intro: bd_keep_trans)
  ultimately show ?thesis using 3(2) by auto
qed

text \<open>Writing: after a stage the bytes up to the cursor are on the device.\<close>

text \<open>The read-modify-write of one block.\<close>

lemma rmw_ok:
  assumes g: "dev_geom bd (length (content (bd_dev bd)))"
    and e: "unat (bd_ph_bsize bd) * (unat idx + 1) \<le> length (content (bd_dev bd))"
    and j: "j + length xs \<le> unat (bd_ph_bsize bd)"
  shows "\<exists>bd1 bd2 bd3. bread_bbuf io idx bd = (Inr (), bd1) \<and> bbuf_store j xs bd1 = (Inr (), bd2) \<and>
    ext4_bdif_bwrite io (bd_ph_bbuf bd2) idx 1 bd2 = (Inr (), bd3) \<and> bd_keep bd bd3 \<and>
    content (bd_dev bd3) = splice (content (bd_dev bd)) (unat (bd_ph_bsize bd) * unat idx + j) xs"
proof -
  let ?b = "unat (bd_ph_bsize bd)" and ?c = "content (bd_dev bd)" and ?i = "unat (bd_ph_bsize bd) * unat idx"
  from bread_bbuf_ok [OF g e] obtain bd1 where
    1: "bd_keep bd bd1" "content (bd_dev bd1) = ?c" "bd_ph_bbuf bd1 = slice ?c ?i ?b"
      "bread_bbuf io idx bd = (Inr (), bd1)" by blast
  have ib: "?i + ?b \<le> length ?c" using e by (simp add: algebra_simps)
  let ?s = "splice (slice ?c ?i ?b) j xs"
  have ls: "length ?s = ?b" using j ib by simp
  have w: "wr_range (slice ?c ?i ?b) j xs = Inr ?s" using j ib by (simp add: wr_range_def splice_def)
  let ?bd2 = "bd1\<lparr> bd_ph_bbuf := ?s \<rparr>"
  have k2: "bd_keep bd ?bd2"
    by (rule bd_keep_trans [OF 1(1)]) (rule bd_keep_bbuf, use ls 1(3) ib in simp)
  have "length ?c < 2 ^ 63" "?b < 2 ^ 32" "0 < ?b"
    using g unat_lt32 dev_geom_pos [OF g] by (auto simp: dev_geom_def)
  then obtain bd3 where 3: "bd_same ?bd2 bd3" "content (bd_dev bd3) = splice ?c ?i ?s"
    "ext4_bdif_bwrite io ?s idx 1 ?bd2 = (Inr (), bd3)"
    using bdif_bwrite_ok [of ?bd2 1 idx ?s] e ls 1(2) bd_keep_fields(1) [OF 1(1)] by auto
  have "splice ?c ?i ?s = splice ?c (?i + j) xs" using ib j by (rule splice_rmw)
  moreover have "bd_keep bd bd3" using k2 bd_same_keep [OF 3(1)] by (rule bd_keep_trans)
  ultimately show ?thesis using 1(3,4) w 3 by (auto simp: bbuf_store_def)
qed

lemma writebytes_head_ok:
  assumes g: "dev_geom bd (length (content (bd_dev bd)))"
    and r: "unat off + unat len \<le> unat (bd_part_size bd)" and lb: "unat len \<le> length buf" and l: "len \<noteq> 0"
  defines "a \<equiv> unat (bd_part_offset bd) + unat off"
  shows "\<exists>bd' p len' idx'. bd_keep bd bd' \<and> content (bd_dev bd') = splice (content (bd_dev bd)) a (take p buf) \<and>
    cursor_at (unat (bd_ph_bsize bd)) a (unat len) (p, len', idx') \<and>
    writebytes_head io buf (bytes_unalg off bd)
        (0, len, (off + bd_part_offset bd) div ucast (bd_ph_bsize bd)) bd = (Inr (p, len', idx'), bd')"
proof (cases "bytes_unalg off bd = 0")
  case True
  then show ?thesis
    using readbytes_head_ok [OF g r lb l] by (auto simp: readbytes_head_def writebytes_head_def a_def)
next
  case False
  let ?b = "unat (bd_ph_bsize bd)" and ?idx = "(off + bd_part_offset bd) div ucast (bd_ph_bsize bd)"
  let ?u = "bytes_unalg off bd"
  let ?h = "bytes_head_len ?u len bd"
  note h = head_arith [OF g r False l, folded a_def]
  have rd: "rd_range buf 0 (unat ?h) = Inr (take (unat ?h) buf)"
    using h(3) lb by (simp add: rd_range_def)
  have "unat ?u + length (take (unat ?h) buf) \<le> ?b" using h(2,3) lb by simp
  from rmw_ok [OF g h(4) this] obtain bd1 bd2 bd3 where
    1: "bread_bbuf io ?idx bd = (Inr (), bd1)" "bbuf_store (unat ?u) (take (unat ?h) buf) bd1 = (Inr (), bd2)"
      "ext4_bdif_bwrite io (bd_ph_bbuf bd2) ?idx 1 bd2 = (Inr (), bd3)" "bd_keep bd bd3"
      "content (bd_dev bd3) = splice (content (bd_dev bd)) (?b * unat ?idx + unat ?u) (take (unat ?h) buf)"
    by blast
  have "writebytes_head io buf ?u (0, len, ?idx) bd = (Inr (unat ?h, len - ?h, ?idx + 1), bd3)"
    using False rd 1(1-3) by (simp add: writebytes_head_def Let_def)
  moreover have "?b * unat ?idx + unat ?u = a" using h(1) by (simp add: mult.commute)
  ultimately show ?thesis using h(5) 1(4,5) by auto
qed

lemma writebytes_mid_ok:
  assumes g: "dev_geom bd (length (content (bd_dev bd)))"
    and c: "cursor_at (unat (bd_ph_bsize bd)) a L (p, len, idx)"
    and e: "a + L \<le> length (content (bd_dev bd))" and lb: "L \<le> length buf"
    and d: "content (bd_dev bd) = splice c0 a (take p buf)" and l0: "length c0 = length (content (bd_dev bd))"
  shows "\<exists>bd' p' len' idx'. bd_keep bd bd' \<and> content (bd_dev bd') = splice c0 a (take p' buf) \<and>
    cursor_at (unat (bd_ph_bsize bd)) a L (p', len', idx') \<and> unat len' < unat (bd_ph_bsize bd) \<and>
    writebytes_mid io buf (p, len, idx) bd = (Inr (p', len', idx'), bd')"
proof (cases "len div bd_ph_bsize bd = 0")
  case True
  have "0 < unat (bd_ph_bsize bd)" using g by (auto simp: dev_geom_def)
  moreover have "unat len div unat (bd_ph_bsize bd) = 0" using True by (metis unat_0 unat_div)
  ultimately have "unat len < unat (bd_ph_bsize bd)" by (simp add: div_eq_0_iff)
  with True c d show ?thesis by (intro exI [of _ bd]) (auto simp: writebytes_mid_def)
next
  case False
  let ?b = "unat (bd_ph_bsize bd)" and ?c = "content (bd_dev bd)" and ?blen = "len div bd_ph_bsize bd"
  let ?m = "?b * unat ?blen"
  note m = mid_arith [OF g c e False]
  have pL: "p + unat len = L" using c by (simp add: cursor_at_def)
  have "?m \<le> length (drop p buf)" using m(2) pL lb by simp
  moreover have "?m \<noteq> 0" "length ?c < 2 ^ 63"
    using False dev_geom_pos [OF g] g by (auto simp: unat_eq_zero dev_geom_def)
  ultimately obtain bd1 where 1: "bd_same bd bd1"
    "content (bd_dev bd1) = splice ?c (?b * unat idx) (take ?m (drop p buf))"
    "ext4_bdif_bwrite io (drop p buf) idx ?blen bd = (Inr (), bd1)"
    using bdif_bwrite_ok [OF _ m(3) _ m(5), of "drop p buf"] by blast
  have lp: "length (take p buf) = p" using pL lb by simp
  have "splice (splice c0 a (take p buf)) (a + p) (take ?m (drop p buf)) =
      splice c0 a (take p buf @ take ?m (drop p buf))"
    using splice_append [of a "take p buf" "take ?m (drop p buf)" c0] lp m(2) pL e lb l0 by simp
  then have "content (bd_dev bd1) = splice c0 a (take (p + ?m) buf)"
    using 1(2) d m(4) by (simp add: take_add)
  moreover have "writebytes_mid io buf (p, len, idx) bd =
      (Inr (p + ?m, len - bd_ph_bsize bd * ?blen, idx + ucast ?blen), bd1)"
    using False 1(3) m(1) by (simp add: writebytes_mid_def Let_def)
  ultimately show ?thesis using m(6,7) bd_same_keep [OF 1(1)] by blast
qed

lemma writebytes_tail_ok:
  assumes g: "dev_geom bd (length (content (bd_dev bd)))"
    and c: "cursor_at (unat (bd_ph_bsize bd)) a L (p, len, idx)" and s: "unat len < unat (bd_ph_bsize bd)"
    and e: "a + L \<le> unat (bd_part_offset bd) + unat (bd_part_size bd)" and lb: "L \<le> length buf"
    and d: "content (bd_dev bd) = splice c0 a (take p buf)" and l0: "length c0 = length (content (bd_dev bd))"
  shows "\<exists>bd'. bd_keep bd bd' \<and> content (bd_dev bd') = splice c0 a (take L buf) \<and>
    writebytes_tail io buf (p, len, idx) bd = (Inr (), bd')"
proof (cases "len = 0")
  case True
  then show ?thesis using c d by (intro exI [of _ bd]) (auto simp: writebytes_tail_def cursor_at_def)
next
  case False
  note t = tail_arith [OF g c e False]
  let ?xs = "take (unat len) (drop p buf)"
  have rd: "rd_range buf p (unat len) = Inr ?xs" using t(2) lb by (simp add: rd_range_def)
  have en: "a + L \<le> length c0" using e g l0 by (simp add: dev_geom_def)
  have "0 + length ?xs \<le> unat (bd_ph_bsize bd)" using s by simp
  from rmw_ok [OF g t(3) this] obtain bd1 bd2 bd3 where
    1: "bread_bbuf io idx bd = (Inr (), bd1)" "bbuf_store 0 ?xs bd1 = (Inr (), bd2)"
      "ext4_bdif_bwrite io (bd_ph_bbuf bd2) idx 1 bd2 = (Inr (), bd3)" "bd_keep bd bd3"
      "content (bd_dev bd3) = splice (splice c0 a (take p buf)) (a + p) ?xs"
    unfolding t(1) d by auto
  have "splice (splice c0 a (take p buf)) (a + p) ?xs = splice c0 a (take p buf @ ?xs)"
    using splice_append [of a "take p buf" ?xs c0] t(2) en lb by simp
  also have "take p buf @ ?xs = take L buf" using t(2) by (simp add: take_add [symmetric])
  finally have "content (bd_dev bd3) = splice c0 a (take L buf)" using 1(5) by simp
  moreover have "writebytes_tail io buf (p, len, idx) bd = (Inr (), bd3)"
    using False rd 1(1-3) by (simp add: writebytes_tail_def)
  ultimately show ?thesis using 1(4) by blast
qed

lemma writebytes_ok:
  assumes g: "dev_geom bd (length (content (bd_dev bd)))"
    and r: "unat off + unat len \<le> unat (bd_part_size bd)" and lb: "unat len \<le> length buf" and l: "len \<noteq> 0"
  shows "\<exists>bd'. bd_keep bd bd' \<and>
    content (bd_dev bd') = splice (content (bd_dev bd)) (unat (bd_part_offset bd) + unat off) (take (unat len) buf) \<and>
    ext4_block_writebytes io off buf len bd = (Inr (), bd')"
proof -
  let ?c = "content (bd_dev bd)" and ?a = "unat (bd_part_offset bd) + unat off"
  let ?idx = "(off + bd_part_offset bd) div ucast (bd_ph_bsize bd)"
  note rng = bytes_in_range [OF g r]
  obtain bd1 p1 len1 idx1 where 1: "bd_keep bd bd1" "content (bd_dev bd1) = splice ?c ?a (take p1 buf)"
    "cursor_at (unat (bd_ph_bsize bd)) ?a (unat len) (p1, len1, idx1)"
    "writebytes_head io buf (bytes_unalg off bd) (0, len, ?idx) bd = (Inr (p1, len1, idx1), bd1)"
    using writebytes_head_ok [OF g r lb l] by blast
  have p1: "p1 \<le> unat len" using 1(3) by (simp add: cursor_at_def)
  have l1: "length (content (bd_dev bd1)) = length ?c" unfolding 1(2) using p1 rng(4) by (subst length_splice) simp_all
  note f1 = bd_keep_fields [OF 1(1)]
  have g1: "dev_geom bd1 (length (content (bd_dev bd1)))" using g l1 by (simp add: dev_geom_keep [OF 1(1)])
  obtain bd2 p2 len2 idx2 where 2: "bd_keep bd1 bd2" "content (bd_dev bd2) = splice ?c ?a (take p2 buf)"
    "cursor_at (unat (bd_ph_bsize bd1)) ?a (unat len) (p2, len2, idx2)" "unat len2 < unat (bd_ph_bsize bd1)"
    "writebytes_mid io buf (p1, len1, idx1) bd1 = (Inr (p2, len2, idx2), bd2)"
    using writebytes_mid_ok [OF g1 _ _ lb 1(2)] 1(3) rng(4) l1 f1 by metis
  have p2: "p2 \<le> unat len" using 2(3) by (simp add: cursor_at_def)
  have l2: "length (content (bd_dev bd2)) = length ?c" unfolding 2(2) using p2 rng(4) by (subst length_splice) simp_all
  note f2 = bd_keep_fields [OF 2(1)]
  have g2: "dev_geom bd2 (length (content (bd_dev bd2)))" using g1 l1 l2 by (simp add: dev_geom_keep [OF 2(1)])
  obtain bd3 where 3: "bd_keep bd2 bd3" "content (bd_dev bd3) = splice ?c ?a (take (unat len) buf)"
    "writebytes_tail io buf (p2, len2, idx2) bd2 = (Inr (), bd3)"
    using writebytes_tail_ok [OF g2 _ _ _ lb 2(2)] 2(3,4) rng(3) l2 f1 f2 by metis
  have "ext4_block_writebytes io off buf len bd = (Inr (), bd3)"
    using rng(1,2) 1(4) 2(5) 3(3) by (simp add: ext4_block_writebytes_def Let_def)
  moreover have "bd_keep bd bd3" using 1(1) 2(1) 3(1) by (blast intro: bd_keep_trans)
  ultimately show ?thesis using 3(2) by auto
qed

end

end
