(* ===== verification/FileDev.thy ===== *)
theory FileDev
  imports BlockSpec
begin

text \<open>
  The Linux file driver of \<^verbatim>\<open>blockdev/linux/file_dev.c\<close>. The C library's file is modelled by the bytes of
  the image file (\<open>None\<close>: no such file), whether it is open, its position, and the size beyond which
  the host refuses to write; \<^verbatim>\<open>fseeko\<close>, \<^verbatim>\<open>ftello\<close>, \<^verbatim>\<open>fread\<close> and \<^verbatim>\<open>fwrite\<close> (one item)
  follow the C standard. The interpretation at the end shows that the driver meets the contract
  \<open>block_device\<close>; the properties are the guarantees of the block layer on this driver.
\<close>

section \<open>The host file\<close>

record hostfile =
  hf_image :: "u8 list option"
  hf_open :: bool
  hf_pos :: nat
  hf_limit :: nat

text \<open>\<^verbatim>\<open>fseeko(f, off, SEEK_SET)\<close>: \<open>off\<close> is the unsigned argument before its conversion to \<^verbatim>\<open>off_t\<close>.\<close>

definition fseeko_set :: "u64 \<Rightarrow> hostfile \<Rightarrow> bool \<times> hostfile" where
  "fseeko_set off f =
     (if \<not> hf_open f \<or> sint off < 0 then (False, f) else (True, f\<lparr> hf_pos := unat off \<rparr>))"

definition fseeko_end :: "hostfile \<Rightarrow> bool \<times> hostfile" where
  "fseeko_end f =
     (case hf_image f of
        None \<Rightarrow> (False, f)
      | Some img \<Rightarrow> (if hf_open f then (True, f\<lparr> hf_pos := length img \<rparr>) else (False, f)))"

text \<open>
  \<^verbatim>\<open>fread(buf, n, 1, f)\<close>: true when the whole item was read; the buffer receives what there is, and must have room for it.
\<close>

definition fread_item :: "u8 list \<Rightarrow> nat \<Rightarrow> hostfile \<Rightarrow> bool res \<times> u8 list \<times> hostfile" where
  "fread_item buf n f =
     (case hf_image f of
        None \<Rightarrow> (Inr False, buf, f)
      | Some img \<Rightarrow>
          let got = take n (drop (hf_pos f) img)
          in if length buf < length got then (Inl UNDEF, buf, f)
             else (Inr (0 < n \<and> length got = n), got @ drop (length got) buf,
                   f\<lparr> hf_pos := hf_pos f + length got \<rparr>))"

text \<open>\<^verbatim>\<open>fwrite(buf, n, 1, f)\<close>: a gap before the position is filled with zeros; the buffer must hold the item.\<close>

definition fwrite_item :: "u8 list \<Rightarrow> nat \<Rightarrow> hostfile \<Rightarrow> bool res \<times> hostfile" where
  "fwrite_item buf n f =
     (case hf_image f of
        None \<Rightarrow> (Inr False, f)
      | Some img \<Rightarrow>
          if length buf < n then (Inl UNDEF, f)
          else if n = 0 \<or> max (length img) (hf_limit f) < hf_pos f + n then (Inr False, f)
          else
            let img = img @ replicate (hf_pos f - length img) 0
            in (Inr True, f\<lparr> hf_image := Some (splice img (hf_pos f) (take n buf)), hf_pos := hf_pos f + n \<rparr>))"

section \<open>The driver\<close>

definition item_code :: "bool res \<Rightarrow> int res" where
  "item_code r = rbind r (\<lambda>ok. Inr (if ok then 0 else errno_code EIO))"

definition EXT4_FILEDEV_BSIZE :: u32 where "EXT4_FILEDEV_BSIZE = 4096"

definition file_dev_open :: "hostfile ext4_blockdev \<Rightarrow> int \<times> hostfile ext4_blockdev" where
  "file_dev_open bd =
     (case hf_image (bd_dev bd) of
        None \<Rightarrow> (errno_code EIO, bd)
      | Some img \<Rightarrow>
          (case fseeko_end ((bd_dev bd)\<lparr> hf_open := True, hf_pos := 0 \<rparr>) of
             (ok, f) \<Rightarrow>
               if \<not> ok then (errno_code EFAULT, bd\<lparr> bd_dev := f \<rparr>)
               else (0, bd\<lparr> bd_dev := f, bd_part_offset := 0, bd_part_size := of_nat (hf_pos f),
                           bd_ph_bcnt := of_nat (hf_pos f) div ucast (bd_ph_bsize bd) \<rparr>)))"

definition file_dev_bread ::
    "hostfile ext4_blockdev \<Rightarrow> u8 list \<Rightarrow> u64 \<Rightarrow> u32 \<Rightarrow> int res \<times> u8 list \<times> hostfile ext4_blockdev" where
  "file_dev_bread bd buf blk_id blk_cnt =
     (case fseeko_set (blk_id * ucast (bd_ph_bsize bd)) (bd_dev bd) of
        (ok, f) \<Rightarrow>
          if \<not> ok then (Inr (errno_code EIO), buf, bd)
          else if blk_cnt = 0 then (Inr 0, buf, bd\<lparr> bd_dev := f \<rparr>)
          else (case fread_item buf (unat (bd_ph_bsize bd * blk_cnt)) f of
                  (r, buf, f) \<Rightarrow> (item_code r, buf, bd\<lparr> bd_dev := f \<rparr>)))"

definition file_dev_bwrite ::
    "hostfile ext4_blockdev \<Rightarrow> u8 list \<Rightarrow> u64 \<Rightarrow> u32 \<Rightarrow> int res \<times> hostfile ext4_blockdev" where
  "file_dev_bwrite bd buf blk_id blk_cnt =
     (case fseeko_set (blk_id * ucast (bd_ph_bsize bd)) (bd_dev bd) of
        (ok, f) \<Rightarrow>
          if \<not> ok then (Inr (errno_code EIO), bd)
          else if blk_cnt = 0 then (Inr 0, bd\<lparr> bd_dev := f \<rparr>)
          else (case fwrite_item buf (unat (bd_ph_bsize bd * blk_cnt)) f of
                  (r, f) \<Rightarrow> (item_code r, bd\<lparr> bd_dev := f \<rparr>)))"

definition file_dev_close :: "hostfile ext4_blockdev \<Rightarrow> int \<times> hostfile ext4_blockdev" where
  "file_dev_close bd = (0, bd\<lparr> bd_dev := (bd_dev bd)\<lparr> hf_open := False \<rparr> \<rparr>)"

definition file_dev_iface :: "hostfile ext4_blockdev_iface" where
  "file_dev_iface = \<lparr> if_open = file_dev_open, if_bread = file_dev_bread, if_bwrite = file_dev_bwrite,
     if_close = file_dev_close, if_lock = None, if_unlock = None \<rparr>"

text \<open>The static instance, before it is opened, with an empty cache of the given parameters.\<close>

definition file_dev_get :: "hostfile \<Rightarrow> ext4_bcache \<Rightarrow> hostfile ext4_blockdev" where
  "file_dev_get f bc =
     \<lparr> bd_dev = f, bd_ph_bsize = EXT4_FILEDEV_BSIZE, bd_ph_bcnt = 0,
       bd_ph_bbuf = replicate (unat EXT4_FILEDEV_BSIZE) 0, bd_ph_refctr = 0, bd_bread_ctr = 0,
       bd_bwrite_ctr = 0, bd_part_offset = 0, bd_part_size = 0, bd_bc = bc, bd_lg_bsize = 0,
       bd_lg_bcnt = 0, bd_cache_write_back = 0 \<rparr>"

section \<open>The driver meets the contract\<close>

definition hf_content :: "hostfile \<Rightarrow> u8 list" where
  "hf_content f = (if hf_open f then (case hf_image f of None \<Rightarrow> [] | Some img \<Rightarrow> img) else [])"

lemma hf_content_nonempty: "hf_content f \<noteq> [] \<Longrightarrow> hf_open f \<and> hf_image f = Some (hf_content f)"
  by (auto simp: hf_content_def split: if_splits option.splits)

text \<open>The position of a transfer inside the file.\<close>

lemma file_seek:
  assumes "unat b * unat cnt \<noteq> 0" and "unat b * (unat blk + unat cnt) \<le> length (hf_content f)"
    and "length (hf_content f) < 2 ^ 63" and "unat b * unat (cnt :: u32) < 2 ^ 32"
  shows "fseeko_set (blk * ucast (b :: u32)) f = (True, f\<lparr> hf_pos := unat b * unat (blk :: u64) \<rparr>)"
    and "unat (b * cnt) = unat b * unat cnt" and "cnt \<noteq> 0"
    and "hf_image f = Some (hf_content f)"
proof -
  have le: "unat b * unat blk < 2 ^ 63" using assms(2,3) by (simp add: distrib_left)
  then have p: "unat (blk * ucast b) = unat b * unat blk"
    by (subst unat_mult_le) (simp_all add: unat_ucast_up mult.commute)
  have "sint (blk * ucast b) = int (unat b * unat blk)"
  proof -
    have "uint (blk * ucast b) = int (unat b * unat blk)" using p by (metis uint_nat)
    moreover have "signed_take_bit 63 (int m) = int m" if "m < 2 ^ 63" for m
      using that by (intro signed_take_bit_int_eq_self) simp_all
    note this [OF le]
    ultimately show ?thesis by (simp add: sint_uint)
  qed
  then have s: "\<not> sint (blk * ucast b) < 0" by (metis not_less of_nat_0_le_iff)
  have "hf_content f \<noteq> []" using assms(1,2) by (auto simp: distrib_left)
  then have o: "hf_open f" "hf_image f = Some (hf_content f)" by (simp_all add: hf_content_nonempty)
  show "fseeko_set (blk * ucast b) f = (True, f\<lparr> hf_pos := unat b * unat blk \<rparr>)"
    using o s p by (simp add: fseeko_set_def)
  show "unat (b * cnt) = unat b * unat cnt" using assms(4) by (intro unat_mult_le) simp
  show "cnt \<noteq> 0" using assms(1) by auto
  show "hf_image f = Some (hf_content f)" by (rule o(2))
qed

interpretation file_dev: block_device file_dev_iface hf_content
proof (unfold_locales, goal_cases)
  case (1 bd cnt blk buf)
  note s = file_seek [OF 1(1-4)]
  let ?f = "bd_dev bd" and ?n = "unat (bd_ph_bsize bd) * unat cnt" and ?p = "unat (bd_ph_bsize bd) * unat blk"
  have len: "length (take ?n (drop ?p (hf_content ?f))) = ?n" using 1(2) by (simp add: distrib_left)
  have img: "hf_image (?f\<lparr> hf_pos := ?p \<rparr>) = Some (hf_content ?f)" using s(4) by simp
  have "fread_item buf ?n (?f\<lparr> hf_pos := ?p \<rparr>) =
      (Inr True, slice (hf_content ?f) ?p ?n @ drop ?n buf, ?f\<lparr> hf_pos := ?p + ?n \<rparr>)"
    using 1(1,5) len unfolding fread_item_def img by (simp add: Let_def slice_def del: length_take)
  then have "file_dev_bread bd buf blk cnt =
      (Inr 0, slice (hf_content ?f) ?p ?n @ drop ?n buf, bd\<lparr> bd_dev := ?f\<lparr> hf_pos := ?p + ?n \<rparr> \<rparr>)"
    using s(3) unfolding file_dev_bread_def s(1) s(2) by (simp add: item_code_def)
  then show ?case
    by (intro exI [of _ "?f\<lparr> hf_pos := ?p + ?n \<rparr>"]) (simp add: file_dev_iface_def hf_content_def)
next
  case (2 bd cnt blk buf)
  note s = file_seek [OF 2(1-4)]
  let ?f = "bd_dev bd" and ?n = "unat (bd_ph_bsize bd) * unat cnt" and ?p = "unat (bd_ph_bsize bd) * unat blk"
  let ?img = "splice (hf_content ?f) ?p (take ?n buf)"
  have fit: "?p + ?n \<le> length (hf_content ?f)" using 2(2) by (simp add: distrib_left)
  have img: "hf_image (?f\<lparr> hf_pos := ?p \<rparr>) = Some (hf_content ?f)" using s(4) by simp
  have "fwrite_item buf ?n (?f\<lparr> hf_pos := ?p \<rparr>) =
      (Inr True, ?f\<lparr> hf_image := Some ?img, hf_pos := ?p + ?n \<rparr>)"
    using 2(1,5) fit unfolding fwrite_item_def img by simp
  then have "file_dev_bwrite bd buf blk cnt =
      (Inr 0, bd\<lparr> bd_dev := ?f\<lparr> hf_image := Some ?img, hf_pos := ?p + ?n \<rparr> \<rparr>)"
    using s(3) unfolding file_dev_bwrite_def s(1) s(2) by (simp add: item_code_def)
  moreover have "hf_content ?f \<noteq> []" using fit 2(1) by auto
  then have "hf_open ?f" by (simp add: hf_content_nonempty)
  ultimately show ?case
    by (intro exI [of _ "?f\<lparr> hf_image := Some ?img, hf_pos := ?p + ?n \<rparr>"])
       (simp add: file_dev_iface_def hf_content_def [of "_\<lparr> hf_image := _, hf_pos := _ \<rparr>"])
qed (simp_all add: file_dev_iface_def)

section \<open>Properties\<close>

text \<open>
  A device ready for use: open, holding an image of whole device blocks, the partition inside it.
\<close>

definition file_ready :: "hostfile ext4_blockdev \<Rightarrow> bool" where
  "file_ready bd \<longleftrightarrow> dev_geom bd (length (hf_content (bd_dev bd)))"

text \<open>
  C3: byte reads return the bytes asked for. On an open image file, for every offset and length inside
  the partition (aligned or not, within one device block or across many), \<open>ext4_block_readbytes\<close>
  succeeds, fills the buffer with exactly the partition's bytes from the offset on, and changes neither
  the image nor the block cache.
\<close>

theorem readbytes_exact:
  assumes "file_ready bd" and "unat off + unat len \<le> unat (bd_part_size bd)"
    and "length buf = unat len" and "len \<noteq> 0"
  shows "\<exists>bd'. ext4_block_readbytes file_dev_iface off buf len bd =
      (Inr (take (unat len) (drop (unat (bd_part_offset bd) + unat off) (hf_content (bd_dev bd)))), bd') \<and>
    hf_content (bd_dev bd') = hf_content (bd_dev bd) \<and> bd_bc bd' = bd_bc bd \<and> file_ready bd'"
proof -
  from assms(1) have g: "dev_geom bd (length (hf_content (bd_dev bd)))" by (simp add: file_ready_def)
  from file_dev.readbytes_ok [OF g assms(2) _ assms(4), of buf] assms(3)
  obtain bd' where "bd_keep bd bd'" "hf_content (bd_dev bd') = hf_content (bd_dev bd)"
    "ext4_block_readbytes file_dev_iface off buf len bd =
      (Inr (slice (hf_content (bd_dev bd)) (unat (bd_part_offset bd) + unat off) (unat len)), bd')"
    by auto
  with g show ?thesis
    by (intro exI [of _ bd']) (simp add: slice_def file_ready_def dev_geom_keep bd_keep_fields)
qed

text \<open>
  C5: byte writes change exactly the bytes addressed. On an open image file, for every offset and length
  inside the partition, \<open>ext4_block_writebytes\<close> succeeds and afterwards the image holds the buffer at the
  offset and its old bytes everywhere else (the head and the tail of partly covered device
  blocks are read, modified and written back); reading the range back returns the buffer.
\<close>

theorem writebytes_exact:
  assumes "file_ready bd" and "unat off + unat len \<le> unat (bd_part_size bd)"
    and "length buf = unat len" and "len \<noteq> 0"
  shows "\<exists>bd' bd''. ext4_block_writebytes file_dev_iface off buf len bd = (Inr (), bd') \<and>
    hf_content (bd_dev bd') =
      take (unat (bd_part_offset bd) + unat off) (hf_content (bd_dev bd)) @ buf @
      drop (unat (bd_part_offset bd) + unat off + unat len) (hf_content (bd_dev bd)) \<and>
    bd_bc bd' = bd_bc bd \<and> file_ready bd' \<and>
    ext4_block_readbytes file_dev_iface off (replicate (unat len) 0) len bd' = (Inr buf, bd'')"
proof -
  from assms(1) have g: "dev_geom bd (length (hf_content (bd_dev bd)))" by (simp add: file_ready_def)
  let ?c = "hf_content (bd_dev bd)" and ?a = "unat (bd_part_offset bd) + unat off"
  from file_dev.writebytes_ok [OF g assms(2) _ assms(4), of buf] assms(3)
  obtain bd' where 1: "bd_keep bd bd'" "hf_content (bd_dev bd') = splice ?c ?a buf"
    "ext4_block_writebytes file_dev_iface off buf len bd = (Inr (), bd')" by auto
  note f = bd_keep_fields [OF 1(1)]
  have fit: "?a + unat len \<le> length ?c" using g assms(2) by (simp add: dev_geom_def)
  then have l: "length (hf_content (bd_dev bd')) = length ?c" using 1(2) assms(3) by simp
  with g have g': "dev_geom bd' (length (hf_content (bd_dev bd')))" by (simp add: dev_geom_keep [OF 1(1)])
  from file_dev.readbytes_ok [OF g', of off len "replicate (unat len) 0"] assms(2,4) f
  obtain bd'' where "ext4_block_readbytes file_dev_iface off (replicate (unat len) 0) len bd' =
      (Inr (slice (splice ?c ?a buf) ?a (unat len)), bd'')" by (auto simp: 1(2))
  moreover have "slice (splice ?c ?a buf) ?a (unat len) = buf"
    using slice_splice_same [of ?a buf ?c] fit assms(3) by simp
  ultimately show ?thesis
    using 1 f g' assms(3) by (intro exI [of _ bd'] exI [of _ bd'']) (simp add: splice_def file_ready_def)
qed

text \<open>A device of two blocks of four bytes for the witnesses.\<close>

definition tiny_cache :: ext4_bcache where
  "tiny_cache = \<lparr> bc_cnt = 2, bc_itemsize = 4, bc_lru_ctr = 0, bc_ref_blocks = 0, bc_max_ref_blocks = 0,
     bc_dont_shake = False, bc_lba_root = [], bc_lru_root = [], bc_dirty_list = [],
     bc_malloc = (\<lambda>n. Some [0, 0, 0, 0]), bc_mallocs = 0, bc_events = [] \<rparr>"

definition tiny_dev :: "u8 list \<Rightarrow> hostfile ext4_blockdev" where
  "tiny_dev img =
     \<lparr> bd_dev = \<lparr> hf_image = Some img, hf_open = True, hf_pos = 0, hf_limit = 0 \<rparr>,
       bd_ph_bsize = 4, bd_ph_bcnt = 2, bd_ph_bbuf = [0, 0, 0, 0], bd_ph_refctr = 1, bd_bread_ctr = 0,
       bd_bwrite_ctr = 0, bd_part_offset = 0, bd_part_size = 8, bd_bc = tiny_cache,
       bd_lg_bsize = 4, bd_lg_bcnt = 2, bd_cache_write_back = 0 \<rparr>"

lemma tiny_ready: "length img = 8 \<Longrightarrow> file_ready (tiny_dev img)"
  by (simp add: file_ready_def dev_geom_def tiny_dev_def hf_content_def, rule exI [of _ 2], simp)

lemma tiny_content: "hf_content (bd_dev (tiny_dev img)) = img"
  by (simp add: tiny_dev_def hf_content_def)

theorem readbytes_exact_witness:
  "\<exists>bd'. ext4_block_readbytes file_dev_iface 3 [0, 0, 0] 3 (tiny_dev [1, 2, 3, 4, 5, 6, 7, 8]) = (Inr [4, 5, 6], bd')"
  using readbytes_exact [of "tiny_dev [1, 2, 3, 4, 5, 6, 7, 8]" 3 3 "[0, 0, 0]"]
  by (auto simp: tiny_ready tiny_content) (auto simp: tiny_dev_def)

theorem writebytes_exact_witness:
  "\<exists>bd'. ext4_block_writebytes file_dev_iface 3 [9, 9, 9] 3 (tiny_dev [1, 2, 3, 4, 5, 6, 7, 8]) = (Inr (), bd') \<and>
     hf_content (bd_dev bd') = [1, 2, 3, 9, 9, 9, 7, 8]"
  using writebytes_exact [of "tiny_dev [1, 2, 3, 4, 5, 6, 7, 8]" 3 3 "[9, 9, 9]"]
  by (auto simp: tiny_ready tiny_content) (auto simp: tiny_dev_def)

end
