(* ===== verification/CacheInv.thy ===== *)
theory CacheInv
  imports FileDev
begin

text \<open>
  The invariant of the block cache and its preservation by every operation of the cache:
  the three containers (LBA tree, LRU tree, dirty list) agree with the buffers' own
  fields. The lemmas speak of the cache through \<open>ext4_buf_lookup\<close>, the map from addresses to buffers.
\<close>

section \<open>Lookups after an update\<close>

lemma lookup_cong: "bc_lba_root bc' = bc_lba_root bc \<Longrightarrow> ext4_buf_lookup bc' = ext4_buf_lookup bc"
  by (simp add: ext4_buf_lookup_def fun_eq_iff)

lemma lookup_lba: "ext4_buf_lookup bc l = Some b \<Longrightarrow> buf_lba b = l"
  by (auto simp: ext4_buf_lookup_def find_Some_iff)

lemma lookup_None: "ext4_buf_lookup bc l = None \<longleftrightarrow> l \<notin> buf_lba ` set (bc_lba_root bc)"
  by (auto simp: ext4_buf_lookup_def find_None_iff)

lemma lookup_mem:
  "sorted_wrt (<) (map buf_lba (bc_lba_root bc)) \<Longrightarrow>
   ext4_buf_lookup bc l = Some b \<longleftrightarrow> b \<in> set (bc_lba_root bc) \<and> buf_lba b = l"
proof -
  assume "sorted_wrt (<) (map buf_lba (bc_lba_root bc))"
  then have "distinct (map buf_lba (bc_lba_root bc))" by (simp add: strict_sorted_iff)
  then have inj: "inj_on buf_lba (set (bc_lba_root bc))" by (simp add: distinct_map)
  show ?thesis
  proof
    assume "ext4_buf_lookup bc l = Some b"
    then show "b \<in> set (bc_lba_root bc) \<and> buf_lba b = l"
      by (auto simp: ext4_buf_lookup_def find_Some_iff)
  next
    assume b: "b \<in> set (bc_lba_root bc) \<and> buf_lba b = l"
    then obtain c where c: "ext4_buf_lookup bc l = Some c"
      using lookup_None [of bc l] by fastforce
    then have "c \<in> set (bc_lba_root bc) \<and> buf_lba c = l"
      by (auto simp: ext4_buf_lookup_def find_Some_iff)
    with b inj have "c = b" by (auto dest: inj_onD)
    with c show "ext4_buf_lookup bc l = Some b" by simp
  qed
qed

lemma find_map_if:
  "(\<And>b. buf_lba (f b) = buf_lba b) \<Longrightarrow>
   find (\<lambda>b. buf_lba b = l') (map (\<lambda>b. if buf_lba b = l then f b else b) bs) =
     map_option (\<lambda>b. if buf_lba b = l then f b else b) (find (\<lambda>b. buf_lba b = l') bs)"
  by (induction bs) auto

lemma lookup_update [simp]:
  assumes "\<And>b. buf_lba (f b) = buf_lba b"
  shows "ext4_buf_lookup (buf_update l f bc) l' =
    (if l' = l then map_option f (ext4_buf_lookup bc l) else ext4_buf_lookup bc l')"
proof -
  have "map_option (\<lambda>b. if buf_lba b = l then f b else b) (ext4_buf_lookup bc l') =
      (if l' = l then map_option f (ext4_buf_lookup bc l) else ext4_buf_lookup bc l')"
    by (cases "ext4_buf_lookup bc l'") (auto dest: lookup_lba)
  then show ?thesis
    using find_map_if [OF assms, of l' l "bc_lba_root bc"]
    by (simp add: ext4_buf_lookup_def buf_update_def)
qed

lemma lookup_filter:
  "ext4_buf_lookup (bc\<lparr> bc_lba_root := filter (\<lambda>x. buf_lba x \<noteq> l) (bc_lba_root bc) \<rparr>) l' =
     (if l' = l then None else ext4_buf_lookup bc l')"
proof -
  have f: "find (\<lambda>b. buf_lba b = l') (filter (\<lambda>x. buf_lba x \<noteq> l) bs) =
      (if l' = l then None else find (\<lambda>b. buf_lba b = l') bs)" for bs
    by (induction bs) auto
  have "bc_lba_root (bc\<lparr> bc_lba_root := filter (\<lambda>x. buf_lba x \<noteq> l) (bc_lba_root bc) \<rparr>) =
      filter (\<lambda>x. buf_lba x \<noteq> l) (bc_lba_root bc)" by simp
  then show ?thesis unfolding ext4_buf_lookup_def by (simp only: f)
qed

lemma update_fields [simp]:
  "bc_dirty_list (buf_update l f bc) = bc_dirty_list bc" "bc_lru_root (buf_update l f bc) = bc_lru_root bc"
  "bc_lru_ctr (buf_update l f bc) = bc_lru_ctr bc" "bc_ref_blocks (buf_update l f bc) = bc_ref_blocks bc"
  "bc_itemsize (buf_update l f bc) = bc_itemsize bc" "bc_cnt (buf_update l f bc) = bc_cnt bc"
  "bc_malloc (buf_update l f bc) = bc_malloc bc" "bc_mallocs (buf_update l f bc) = bc_mallocs bc"
  "bc_dont_shake (buf_update l f bc) = bc_dont_shake bc"
  "length (bc_lba_root (buf_update l f bc)) = length (bc_lba_root bc)"
  by (simp_all add: buf_update_def)

lemma update_lbas [simp]:
  "(\<And>b. buf_lba (f b) = buf_lba b) \<Longrightarrow>
   map buf_lba (bc_lba_root (buf_update l f bc)) = map buf_lba (bc_lba_root bc)"
  by (simp add: buf_update_def)

text \<open>Insertion into an ordered tree.\<close>

lemma set_rb_insert_fresh:
  assumes "\<And>y. y \<in> set ys \<Longrightarrow> cmp x y \<noteq> 0"
  shows "set (rb_insert cmp x ys) = insert x (set ys)" and "length (rb_insert cmp x ys) = Suc (length ys)"
  using assms by (induction ys) auto

lemma rb_insert_sorted:
  assumes "sorted_wrt (<) (map f ys)" and "f x \<notin> f ` set ys"
    and "\<And>x y. (cmp x y < 0) = (f x < f y)" and "\<And>x y. (cmp x y = 0) = (f x = f y)"
  shows "sorted_wrt (<) (map f (rb_insert cmp x ys) :: 'k::linorder list)"
  using assms(1,2)
proof (induction ys)
  case Nil
  then show ?case by simp
next
  case (Cons y ys)
  have "set (rb_insert cmp x ys) = insert x (set ys)"
    using Cons.prems(2) assms(4) by (intro set_rb_insert_fresh(1)) (auto simp: image_iff)
  moreover have "f x < f y \<or> f y < f x" using Cons.prems(2) by auto
  ultimately show ?case
    using Cons assms(3) [of x y] assms(4) [of x y] by (auto dest: order.strict_trans)
qed

lemma find_rb_insert:
  assumes "\<And>y. y \<in> set ys \<Longrightarrow> cmp x y \<noteq> 0" and "P x \<Longrightarrow> \<forall>y \<in> set ys. \<not> P y"
  shows "find P (rb_insert cmp x ys) = (if P x then Some x else find P ys)"
  using assms by (induction ys) auto

lemma lba_compare:
  "(ext4_bcache_lba_compare x y < 0) = (buf_lba x < buf_lba y)"
  "(ext4_bcache_lba_compare x y = 0) = (buf_lba x = buf_lba y)"
  by (auto simp: ext4_bcache_lba_compare_def)

lemma lru_compare:
  "(ext4_bcache_lru_compare x y < 0) = (fst x < fst y)"
  "(ext4_bcache_lru_compare x y = 0) = (fst x = fst y)"
  by (auto simp: ext4_bcache_lru_compare_def)

section \<open>The invariant\<close>

definition bc_wf :: "ext4_bcache \<Rightarrow> bool" where
  "bc_wf bc \<longleftrightarrow>
     sorted_wrt (<) (map buf_lba (bc_lba_root bc)) \<and>
     unat (bc_ref_blocks bc) = length (bc_lba_root bc) \<and>
     distinct (bc_dirty_list bc) \<and>
     (\<forall>l. l \<in> set (bc_dirty_list bc) \<longleftrightarrow>
        (\<exists>b. ext4_buf_lookup bc l = Some b \<and> buf_on_dirty_list b)) \<and>
     (\<forall>l b. ext4_buf_lookup bc l = Some b \<and> buf_on_dirty_list b \<longrightarrow> {BC_DIRTY, BC_UPTODATE} \<subseteq> buf_flags b) \<and>
     sorted_wrt (<) (map fst (bc_lru_root bc)) \<and>
     (\<forall>i l. (i, l) \<in> set (bc_lru_root bc) \<longleftrightarrow>
        (\<exists>b. ext4_buf_lookup bc l = Some b \<and> buf_lru_id b = i \<and> buf_refctr b = 0)) \<and>
     (\<forall>l b. ext4_buf_lookup bc l = Some b \<longrightarrow> buf_lru_id b \<le> bc_lru_ctr bc) \<and>
     (\<forall>l l' b b'. ext4_buf_lookup bc l = Some b \<and> ext4_buf_lookup bc l' = Some b' \<and>
        buf_lru_id b = buf_lru_id b' \<longrightarrow> l = l') \<and>
     (\<forall>l b. ext4_buf_lookup bc l = Some b \<longrightarrow> length (buf_data b) = unat (bc_itemsize bc))"

lemma bc_wf_cong:
  assumes "bc_lba_root bc' = bc_lba_root bc" and "bc_lru_root bc' = bc_lru_root bc"
    and "bc_ref_blocks bc' = bc_ref_blocks bc" and "bc_lru_ctr bc' = bc_lru_ctr bc"
    and "bc_dirty_list bc' = bc_dirty_list bc" and "bc_itemsize bc' = bc_itemsize bc"
  shows "bc_wf bc' = bc_wf bc"
  unfolding bc_wf_def lookup_cong [OF assms(1)] assms ..

lemma bc_wfD:
  assumes "bc_wf bc"
  shows "sorted_wrt (<) (map buf_lba (bc_lba_root bc))"
    and "unat (bc_ref_blocks bc) = length (bc_lba_root bc)"
    and "distinct (bc_dirty_list bc)"
    and "l \<in> set (bc_dirty_list bc) \<longleftrightarrow> (\<exists>b. ext4_buf_lookup bc l = Some b \<and> buf_on_dirty_list b)"
    and "ext4_buf_lookup bc l = Some b \<Longrightarrow> buf_on_dirty_list b \<Longrightarrow> {BC_DIRTY, BC_UPTODATE} \<subseteq> buf_flags b"
    and "sorted_wrt (<) (map fst (bc_lru_root bc))"
    and "(i, l) \<in> set (bc_lru_root bc) \<longleftrightarrow>
           (\<exists>b. ext4_buf_lookup bc l = Some b \<and> buf_lru_id b = i \<and> buf_refctr b = 0)"
    and "ext4_buf_lookup bc l = Some b \<Longrightarrow> buf_lru_id b \<le> bc_lru_ctr bc"
    and "ext4_buf_lookup bc l = Some b \<Longrightarrow> ext4_buf_lookup bc l' = Some b' \<Longrightarrow>
           buf_lru_id b = buf_lru_id b' \<Longrightarrow> l = l'"
    and "ext4_buf_lookup bc l = Some b \<Longrightarrow> length (buf_data b) = unat (bc_itemsize bc)"
  using assms unfolding bc_wf_def by blast+

text \<open>An update of one buffer that leaves its links alone.\<close>

lemma bc_wf_update:
  assumes wf: "bc_wf bc" and lba: "\<And>b. buf_lba (f b) = buf_lba b"
    and f: "\<And>b. ext4_buf_lookup bc l = Some b \<Longrightarrow>
      buf_on_dirty_list (f b) = buf_on_dirty_list b \<and> buf_lru_id (f b) = buf_lru_id b \<and>
      (buf_refctr (f b) = 0 \<longleftrightarrow> buf_refctr b = 0) \<and> length (buf_data (f b)) = length (buf_data b) \<and>
      (buf_on_dirty_list b \<longrightarrow> {BC_DIRTY, BC_UPTODATE} \<subseteq> buf_flags (f b))"
  shows "bc_wf (buf_update l f bc)"
  unfolding bc_wf_def
proof (intro conjI, goal_cases)
  case 4
  show ?case
  proof
    fix l'
    show "l' \<in> set (bc_dirty_list (buf_update l f bc)) \<longleftrightarrow>
        (\<exists>b. ext4_buf_lookup (buf_update l f bc) l' = Some b \<and> buf_on_dirty_list b)"
      using bc_wfD(4) [OF wf, of l'] f by (auto simp: lba)
  qed
next
  case 7
  show ?case
  proof (intro allI)
    fix i l'
    show "(i, l') \<in> set (bc_lru_root (buf_update l f bc)) \<longleftrightarrow>
        (\<exists>b. ext4_buf_lookup (buf_update l f bc) l' = Some b \<and> buf_lru_id b = i \<and> buf_refctr b = 0)"
      using bc_wfD(7) [OF wf, of i l'] f by (auto simp: lba)
  qed
next
  case 9
  have id: "\<exists>c. ext4_buf_lookup bc l1 = Some c \<and> buf_lru_id b1 = buf_lru_id c"
    if "ext4_buf_lookup (buf_update l f bc) l1 = Some b1" for l1 b1
    using that f by (auto simp: lba split: if_splits)
  then show ?case using bc_wfD(9) [OF wf] by metis
qed (use wf f in \<open>auto simp: lba bc_wfD split: if_splits dest: bc_wfD(5,8,10)\<close>)

text \<open>
  Every operation changes one buffer, at address \<open>k\<close>: \<open>ob\<close> is the buffer found there afterwards. This
  lemma reduces the invariant to conditions on that buffer and its membership in the lists.
\<close>

lemma bc_wf_change:
  assumes wf: "bc_wf bc"
    and root: "sorted_wrt (<) (map buf_lba (bc_lba_root bc'))"
    and refs: "unat (bc_ref_blocks bc') = length (bc_lba_root bc')"
    and look: "\<And>l. ext4_buf_lookup bc' l = (if l = k then ob else ext4_buf_lookup bc l)"
    and dist: "distinct (bc_dirty_list bc')"
    and dirty: "\<And>l. l \<in> set (bc_dirty_list bc') \<longleftrightarrow>
      (if l = k then (\<exists>b. ob = Some b \<and> buf_on_dirty_list b) else l \<in> set (bc_dirty_list bc))"
    and lru: "sorted_wrt (<) (map fst (bc_lru_root bc'))"
    and nodes: "\<And>i l. (i, l) \<in> set (bc_lru_root bc') \<longleftrightarrow>
      (if l = k then (\<exists>b. ob = Some b \<and> buf_lru_id b = i \<and> buf_refctr b = 0)
       else (i, l) \<in> set (bc_lru_root bc))"
    and ctr: "bc_lru_ctr bc \<le> bc_lru_ctr bc'" and item: "bc_itemsize bc' = bc_itemsize bc"
    and flags: "\<And>b. ob = Some b \<Longrightarrow> buf_on_dirty_list b \<Longrightarrow> {BC_DIRTY, BC_UPTODATE} \<subseteq> buf_flags b"
    and id: "\<And>b. ob = Some b \<Longrightarrow> buf_lru_id b \<le> bc_lru_ctr bc' \<and>
      (bc_lru_ctr bc < buf_lru_id b \<or>
       (\<exists>b0. ext4_buf_lookup bc k = Some b0 \<and> buf_lru_id b0 = buf_lru_id b))"
    and data: "\<And>b. ob = Some b \<Longrightarrow> length (buf_data b) = unat (bc_itemsize bc)"
  shows "bc_wf bc'"
  unfolding bc_wf_def
proof (intro conjI, goal_cases)
  case 4
  show ?case using dirty bc_wfD(4) [OF wf] by (auto simp: look)
next
  case 5
  show ?case using flags bc_wfD(5) [OF wf] by (auto simp: look split: if_splits)
next
  case 7
  show ?case using nodes bc_wfD(7) [OF wf] by (auto simp: look)
next
  case 8
  show ?case using id bc_wfD(8) [OF wf] ctr by (auto simp: look split: if_splits intro: order_trans)
next
  case 9
  have old: "l = l'" if "ext4_buf_lookup bc l = Some b" "ext4_buf_lookup bc l' = Some b'"
    "buf_lru_id b = buf_lru_id b'" for l l' b b' using that by (rule bc_wfD(9) [OF wf])
  have new: False if o: "ob = Some b" and l: "l \<noteq> k" "ext4_buf_lookup bc l = Some c"
    and e: "buf_lru_id b = buf_lru_id c" for b c l
  proof -
    have "buf_lru_id c \<le> bc_lru_ctr bc" using l bc_wfD(8) [OF wf] by blast
    then have "\<not> bc_lru_ctr bc < buf_lru_id b" using e by simp
    then obtain b0 where "ext4_buf_lookup bc k = Some b0" "buf_lru_id b0 = buf_lru_id b"
      using id [OF o] by blast
    with e l old show False by metis
  qed
  show ?case
  proof (intro allI impI, elim conjE)
    fix l l' b b'
    assume a: "ext4_buf_lookup bc' l = Some b" "ext4_buf_lookup bc' l' = Some b'" "buf_lru_id b = buf_lru_id b'"
    show "l = l'"
    proof (cases "l = k")
      case True
      then show ?thesis using new [of b l' b'] a by (cases "l' = k") (simp_all add: look)
    next
      case False
      then show ?thesis using new [of b' l b] old [of l b l' b'] a by (cases "l' = k") (simp_all add: look)
    qed
  qed
next
  case 10
  show ?case using data bc_wfD(10) [OF wf] by (auto simp: look item split: if_splits)
qed (use root refs dist lru in auto)

section \<open>Preservation\<close>

lemma lookup_fields [simp]:
  "ext4_buf_lookup (bc\<lparr> bc_dirty_list := d \<rparr>) = ext4_buf_lookup bc"
  "ext4_buf_lookup (bc\<lparr> bc_lru_root := r \<rparr>) = ext4_buf_lookup bc"
  "ext4_buf_lookup (bc\<lparr> bc_lru_ctr := c \<rparr>) = ext4_buf_lookup bc"
  "ext4_buf_lookup (bc\<lparr> bc_ref_blocks := n \<rparr>) = ext4_buf_lookup bc"
  "ext4_buf_lookup (bc\<lparr> bc_dont_shake := s \<rparr>) = ext4_buf_lookup bc"
  "ext4_buf_lookup (bc\<lparr> bc_mallocs := m \<rparr>) = ext4_buf_lookup bc"
  "ext4_buf_lookup (bc\<lparr> bc_events := e, bc_dont_shake := s \<rparr>) = ext4_buf_lookup bc"
  by (rule lookup_cong, simp)+

lemma lookup_remove_dirty:
  assumes "ext4_buf_lookup bc l = Some b"
  shows "ext4_buf_lookup (ext4_bcache_remove_dirty_node b bc) l' =
    (if l' = l then Some (b\<lparr> buf_on_dirty_list := False \<rparr>) else ext4_buf_lookup bc l')"
  using assms lookup_lba [OF assms]
  by (cases "buf_on_dirty_list b") (auto simp: ext4_bcache_remove_dirty_node_def)

lemma remove_dirty_fields [simp]:
  "bc_lru_root (ext4_bcache_remove_dirty_node b bc) = bc_lru_root bc"
  "bc_lru_ctr (ext4_bcache_remove_dirty_node b bc) = bc_lru_ctr bc"
  "bc_ref_blocks (ext4_bcache_remove_dirty_node b bc) = bc_ref_blocks bc"
  "bc_itemsize (ext4_bcache_remove_dirty_node b bc) = bc_itemsize bc"
  "bc_cnt (ext4_bcache_remove_dirty_node b bc) = bc_cnt bc"
  "bc_dont_shake (ext4_bcache_remove_dirty_node b bc) = bc_dont_shake bc"
  "map buf_lba (bc_lba_root (ext4_bcache_remove_dirty_node b bc)) = map buf_lba (bc_lba_root bc)"
  "length (bc_lba_root (ext4_bcache_remove_dirty_node b bc)) = length (bc_lba_root bc)"
  "bc_dirty_list (ext4_bcache_remove_dirty_node b bc) =
     (if buf_on_dirty_list b then remove1 (buf_lba b) (bc_dirty_list bc) else bc_dirty_list bc)"
  by (simp_all add: ext4_bcache_remove_dirty_node_def buf_update_def)

lemma wf_remove_dirty:
  assumes wf: "bc_wf bc" and l: "ext4_buf_lookup bc l = Some b"
  shows "bc_wf (ext4_bcache_remove_dirty_node b bc)"
proof (rule bc_wf_change [OF wf, where k = l and ob = "Some (b\<lparr> buf_on_dirty_list := False \<rparr>)"], goal_cases)
  case (5 l')
  then show ?case using bc_wfD(3,4) [OF wf] lookup_lba [OF l] l by auto
next
  case (7 i l')
  then show ?case using bc_wfD(7) [OF wf, of i l] l by auto
qed (use l bc_wfD [OF wf] lookup_remove_dirty [OF l] in auto)

lemma wf_insert_dirty:
  assumes wf: "bc_wf bc" and l: "ext4_buf_lookup bc l = Some b"
    and f: "{BC_DIRTY, BC_UPTODATE} \<subseteq> buf_flags b"
  shows "bc_wf (ext4_bcache_insert_dirty_node b bc)"
proof (cases "buf_on_dirty_list b")
  case True
  then show ?thesis using wf by (simp add: ext4_bcache_insert_dirty_node_def)
next
  case False
  have lb: "buf_lba b = l" by (rule lookup_lba [OF l])
  have nd: "l \<notin> set (bc_dirty_list bc)" using False l bc_wfD(4) [OF wf, of l] by auto
  have look: "ext4_buf_lookup (ext4_bcache_insert_dirty_node b bc) l' =
      (if l' = l then Some (b\<lparr> buf_on_dirty_list := True \<rparr>) else ext4_buf_lookup bc l')" for l'
    using False l lb by (simp add: ext4_bcache_insert_dirty_node_def)
  show ?thesis
  proof (rule bc_wf_change [OF wf, where k = l and ob = "Some (b\<lparr> buf_on_dirty_list := True \<rparr>)"], goal_cases)
    case (7 i l')
    then show ?case
      using bc_wfD(7) [OF wf, of i l] l False by (auto simp: ext4_bcache_insert_dirty_node_def)
  qed (use l f nd bc_wfD [OF wf] False lb look in \<open>auto simp: ext4_bcache_insert_dirty_node_def\<close>)
qed

lemma lru_remove_fields [simp]:
  "bc_lba_root (lru_remove l bc) = bc_lba_root bc" "bc_dirty_list (lru_remove l bc) = bc_dirty_list bc"
  "bc_lru_ctr (lru_remove l bc) = bc_lru_ctr bc" "bc_ref_blocks (lru_remove l bc) = bc_ref_blocks bc"
  "bc_itemsize (lru_remove l bc) = bc_itemsize bc" "bc_cnt (lru_remove l bc) = bc_cnt bc"
  "bc_malloc (lru_remove l bc) = bc_malloc bc" "bc_mallocs (lru_remove l bc) = bc_mallocs bc"
  "bc_dont_shake (lru_remove l bc) = bc_dont_shake bc"
  "bc_lru_root (lru_remove l bc) = filter (\<lambda>n. snd n \<noteq> l) (bc_lru_root bc)"
  "ext4_buf_lookup (lru_remove l bc) = ext4_buf_lookup bc"
  by (simp_all add: lru_remove_def)

lemma unat_max32: "unat (- 1 :: u32) = 2 ^ 32 - 1"
  by (simp add: unsigned_minus_1_eq_mask mask_eq_exp_minus_1)

lemma unat_inc32: "(x :: u32) < - 1 \<Longrightarrow> unat (x + 1) = unat x + 1"
proof -
  assume "x < - 1"
  then have "unat x < unat (- 1 :: u32)" by (rule unat_mono)
  then have "unat x < 2 ^ LENGTH(32) - 1" by (simp add: unat_max32)
  then show ?thesis by (rule unat_inc)
qed

lemma less_inc32: "(x :: u32) < - 1 \<Longrightarrow> x < x + 1"
  by (simp add: word_less_nat_alt [of x "x + 1"] unat_inc32)

lemma sorted_wrt_map_filter: "sorted_wrt r (map f xs) \<Longrightarrow> sorted_wrt r (map f (filter P xs))"
  by (induction xs) auto

text \<open>What a reference taken on a cached buffer changes.\<close>

definition buf_get :: "u32 \<Rightarrow> ext4_buf \<Rightarrow> ext4_buf" where
  "buf_get ctr b =
     (if buf_refctr b = 0
      then b\<lparr> buf_lru_id := ctr, buf_refctr := 1, buf_on_dirty_list := False \<rparr>
      else b\<lparr> buf_refctr := buf_refctr b + 1 \<rparr>)"

lemma find_get_Some:
  assumes wf: "bc_wf bc" and l: "ext4_buf_lookup bc l = Some b"
  shows "fst (ext4_bcache_find_get l bc) = Some \<lparr> b_lb_id = l, b_buf = Some l \<rparr>"
    and "ext4_buf_lookup (snd (ext4_bcache_find_get l bc)) l' =
      (if l' = l then Some (buf_get (bc_lru_ctr bc + 1) b) else ext4_buf_lookup bc l')"
proof -
  have d: "buf_on_dirty_list b \<Longrightarrow> BC_DIRTY \<in> buf_flags b" using bc_wfD(5) [OF wf l] by auto
  have lb: "buf_lba b = l" by (rule lookup_lba [OF l])
  show "fst (ext4_bcache_find_get l bc) = Some \<lparr> b_lb_id = l, b_buf = Some l \<rparr>"
    using l by (simp add: ext4_bcache_find_get_def)
  show "ext4_buf_lookup (snd (ext4_bcache_find_get l bc)) l' =
      (if l' = l then Some (buf_get (bc_lru_ctr bc + 1) b) else ext4_buf_lookup bc l')"
    using l lb d
    by (cases "BC_DIRTY \<in> buf_flags b"; cases "buf_refctr b = 0"; cases "buf_on_dirty_list b")
       (simp_all add: ext4_bcache_find_get_def Let_def ext4_bcache_inc_ref_def buf_get_def
          ext4_bcache_test_flag_def ext4_bcache_remove_dirty_node_def)
qed

lemma find_get_None:
  "ext4_buf_lookup bc l = None \<Longrightarrow> ext4_bcache_find_get l bc = (None, bc)"
  by (simp add: ext4_bcache_find_get_def)

lemma find_get_fields:
  assumes l: "ext4_buf_lookup bc l = Some b"
  defines "bc' \<equiv> snd (ext4_bcache_find_get l bc)"
  shows "map buf_lba (bc_lba_root bc') = map buf_lba (bc_lba_root bc)"
    and "bc_ref_blocks bc' = bc_ref_blocks bc" and "bc_itemsize bc' = bc_itemsize bc"
    and "bc_cnt bc' = bc_cnt bc" and "bc_malloc bc' = bc_malloc bc" and "bc_dont_shake bc' = bc_dont_shake bc"
    and "bc_lru_ctr bc' = (if buf_refctr b = 0 then bc_lru_ctr bc + 1 else bc_lru_ctr bc)"
    and "bc_lru_root bc' = (if buf_refctr b = 0 then filter (\<lambda>n. snd n \<noteq> l) (bc_lru_root bc) else bc_lru_root bc)"
    and "bc_dirty_list bc' =
      (if buf_refctr b = 0 \<and> BC_DIRTY \<in> buf_flags b \<and> buf_on_dirty_list b then remove1 l (bc_dirty_list bc)
       else bc_dirty_list bc)"
  unfolding bc'_def using l lookup_lba [OF l]
  by (simp_all add: ext4_bcache_find_get_def Let_def ext4_bcache_inc_ref_def ext4_bcache_test_flag_def
        ext4_bcache_remove_dirty_node_def)

lemma wf_find_get:
  assumes wf: "bc_wf bc" and l: "ext4_buf_lookup bc l = Some b" and w: "bc_lru_ctr bc < - 1"
    and r: "buf_refctr b < - 1"
  shows "bc_wf (snd (ext4_bcache_find_get l bc))"
proof -
  have inc: "bc_lru_ctr bc < bc_lru_ctr bc + 1" using w by (rule less_inc32)
  have r1: "buf_refctr b + 1 \<noteq> 0" using unat_inc32 [OF r] by auto
  have len: "length (bc_lba_root (snd (ext4_bcache_find_get l bc))) = length (bc_lba_root bc)"
    using arg_cong [OF find_get_fields(1) [OF l], of length] by simp
  have g: "buf_on_dirty_list (buf_get c b) \<longleftrightarrow> buf_on_dirty_list b \<and> buf_refctr b \<noteq> 0"
    "buf_refctr (buf_get c b) \<noteq> 0" "buf_flags (buf_get c b) = buf_flags b" "buf_data (buf_get c b) = buf_data b"
    "buf_lru_id (buf_get c b) = (if buf_refctr b = 0 then c else buf_lru_id b)" for c
    using r1 by (auto simp: buf_get_def)
  note f = find_get_fields [OF l]
  show ?thesis
  proof (rule bc_wf_change [OF wf, where k = l and ob = "Some (buf_get (bc_lru_ctr bc + 1) b)"], goal_cases)
    case (5 l')
    then show ?case
      using bc_wfD(3) [OF wf] bc_wfD(4) [OF wf, of l] bc_wfD(5) [OF wf l] l by (auto simp: f g)
  next
    case (7 i l')
    then show ?case using bc_wfD(7) [OF wf, of i l] l by (auto simp: f g)
  next
    case 3
    then show ?case by (rule find_get_Some(2) [OF wf l])
  next
    case 6
    then show ?case using bc_wfD(6) [OF wf] by (simp add: f sorted_wrt_map_filter)
  qed (use l bc_wfD [OF wf] inc in \<open>auto simp: f g len intro: order.strict_implies_order\<close>)
qed

text \<open>A fresh buffer.\<close>

definition mem_ok :: "ext4_bcache \<Rightarrow> bool" where
  "mem_ok bc \<longleftrightarrow> (\<forall>n. \<exists>d. bc_malloc bc n = Some d \<and> length d = unat (bc_itemsize bc))"

definition fresh_buf :: "ext4_bcache \<Rightarrow> u64 \<Rightarrow> ext4_buf" where
  "fresh_buf bc l =
     \<lparr> buf_flags = {}, buf_lba = l, buf_data = the (bc_malloc bc (bc_mallocs bc)),
       buf_lru_id = bc_lru_ctr bc + 1, buf_refctr = 1, buf_read_refctr = 0, buf_on_dirty_list = False,
       buf_end_write = None \<rparr>"

lemma alloc_new:
  assumes l: "ext4_buf_lookup bc l = None" and m: "mem_ok bc"
  defines "bc' \<equiv> snd (ext4_bcache_alloc l bc)"
  shows "fst (ext4_bcache_alloc l bc) = Inr (\<lparr> b_lb_id = l, b_buf = Some l \<rparr>, True)"
    and "bc_lba_root bc' = rb_insert ext4_bcache_lba_compare (fresh_buf bc l) (bc_lba_root bc)"
    and "bc_lru_root bc' = bc_lru_root bc" and "bc_dirty_list bc' = bc_dirty_list bc"
    and "bc_lru_ctr bc' = bc_lru_ctr bc + 1" and "bc_ref_blocks bc' = bc_ref_blocks bc + 1"
    and "bc_itemsize bc' = bc_itemsize bc" and "bc_cnt bc' = bc_cnt bc" and "bc_malloc bc' = bc_malloc bc"
    and "bc_dont_shake bc' = bc_dont_shake bc"
    and "ext4_buf_lookup bc' l' = (if l' = l then Some (fresh_buf bc l) else ext4_buf_lookup bc l')"
proof -
  from m obtain d d' where d: "bc_malloc bc (bc_mallocs bc) = Some d" "bc_malloc bc (Suc (bc_mallocs bc)) = Some d'"
    by (auto simp: mem_ok_def) metis
  have b: "fresh_buf bc l = (ext4_bcache_inc_ref \<lparr> buf_flags = {}, buf_lba = l, buf_data = d, buf_lru_id = 0,
      buf_refctr = 0, buf_read_refctr = 0, buf_on_dirty_list = False, buf_end_write = None \<rparr>)
      \<lparr> buf_lru_id := bc_lru_ctr bc + 1 \<rparr>"
    by (simp add: fresh_buf_def ext4_bcache_inc_ref_def d)
  note defs = ext4_bcache_alloc_def find_get_None [OF l] ext4_buf_alloc_def d Let_def
  show "fst (ext4_bcache_alloc l bc) = Inr (\<lparr> b_lb_id = l, b_buf = Some l \<rparr>, True)"
    and root: "bc_lba_root bc' = rb_insert ext4_bcache_lba_compare (fresh_buf bc l) (bc_lba_root bc)"
    and "bc_lru_root bc' = bc_lru_root bc" and "bc_dirty_list bc' = bc_dirty_list bc"
    and "bc_lru_ctr bc' = bc_lru_ctr bc + 1" and "bc_ref_blocks bc' = bc_ref_blocks bc + 1"
    and "bc_itemsize bc' = bc_itemsize bc" and "bc_cnt bc' = bc_cnt bc" and "bc_malloc bc' = bc_malloc bc"
    and "bc_dont_shake bc' = bc_dont_shake bc"
    unfolding bc'_def b by (simp_all add: defs)
  have "\<forall>y \<in> set (bc_lba_root bc). buf_lba y \<noteq> l" using l by (auto simp: lookup_None)
  then show "ext4_buf_lookup bc' l' = (if l' = l then Some (fresh_buf bc l) else ext4_buf_lookup bc l')"
    unfolding ext4_buf_lookup_def root
    by (subst find_rb_insert) (auto simp: lba_compare fresh_buf_def find_None_iff)
qed

lemma wf_alloc_new:
  assumes wf: "bc_wf bc" and l: "ext4_buf_lookup bc l = None" and m: "mem_ok bc"
    and w: "bc_lru_ctr bc < - 1" "bc_ref_blocks bc < - 1"
  shows "bc_wf (snd (ext4_bcache_alloc l bc))"
proof -
  note a = alloc_new [OF l m]
  have inc: "bc_lru_ctr bc < bc_lru_ctr bc + 1" using w(1) by (rule less_inc32)
  have nl: "l \<notin> buf_lba ` set (bc_lba_root bc)" using l by (simp add: lookup_None)
  have nd: "l \<notin> set (bc_dirty_list bc)" using bc_wfD(4) [OF wf] l by auto
  have nn: "(i, l) \<notin> set (bc_lru_root bc)" for i using bc_wfD(7) [OF wf] l by auto
  have len: "length (the (bc_malloc bc (bc_mallocs bc))) = unat (bc_itemsize bc)"
    using m by (metis mem_ok_def option.sel)
  have rl: "length (rb_insert ext4_bcache_lba_compare (fresh_buf bc l) (bc_lba_root bc)) = Suc (length (bc_lba_root bc))"
    using nl by (intro set_rb_insert_fresh(2)) (auto simp: lba_compare fresh_buf_def)
  show ?thesis
  proof (rule bc_wf_change [OF wf, where k = l and ob = "Some (fresh_buf bc l)"], goal_cases)
    case 1
    show ?case unfolding a
      using bc_wfD(1) [OF wf] nl by (intro rb_insert_sorted) (auto simp: lba_compare fresh_buf_def)
  next
    case 2
    show ?case using bc_wfD(2) [OF wf] unat_inc32 [OF w(2)] by (simp add: a rl)
  next
    case 3
    then show ?case by (rule a(11))
  next
    case (7 i l')
    show ?case using nn by (auto simp: a fresh_buf_def)
  qed (use bc_wfD [OF wf] nd inc len in \<open>auto simp: a fresh_buf_def\<close>)
qed

text \<open>The other outcome of an allocation is the buffer already there.\<close>

lemma alloc_old:
  assumes "ext4_buf_lookup bc l = Some b"
  shows "ext4_bcache_alloc l bc =
    (Inr (\<lparr> b_lb_id = l, b_buf = Some l \<rparr>, False), snd (ext4_bcache_find_get l bc))"
  using assms by (simp add: ext4_bcache_alloc_def ext4_bcache_find_get_def Let_def)

text \<open>Dropping a buffer.\<close>

lemma length_filter_key:
  "distinct (map f bs) \<Longrightarrow> b \<in> set bs \<Longrightarrow> f b = k \<Longrightarrow> Suc (length (filter (\<lambda>x. f x \<noteq> k) bs)) = length bs"
proof (induction bs)
  case (Cons c bs)
  show ?case
  proof (cases "c = b")
    case True
    have "filter (\<lambda>x. f x \<noteq> k) bs = bs" using True Cons.prems by (intro filter_True ballI) (simp, metis imageI)
    with True Cons.prems show ?thesis by simp
  next
    case False
    with Cons show ?thesis by auto
  qed
qed simp

lemma drop_buf:
  assumes wf: "bc_wf bc" and l: "ext4_buf_lookup bc l = Some b"
  defines "bc' \<equiv> ext4_bcache_drop_buf b bc"
  shows "ext4_buf_lookup bc' l' = (if l' = l then None else ext4_buf_lookup bc l')"
    and "bc_lba_root bc' = filter (\<lambda>x. buf_lba x \<noteq> l) (bc_lba_root bc)"
    and "bc_lru_root bc' = filter (\<lambda>n. snd n \<noteq> l) (bc_lru_root bc)"
    and "bc_dirty_list bc' = (if buf_on_dirty_list b then remove1 l (bc_dirty_list bc) else bc_dirty_list bc)"
    and "bc_lru_ctr bc' = bc_lru_ctr bc" and "bc_ref_blocks bc' = bc_ref_blocks bc - 1"
    and "bc_itemsize bc' = bc_itemsize bc" and "bc_cnt bc' = bc_cnt bc" and "bc_malloc bc' = bc_malloc bc"
    and "bc_dont_shake bc' = bc_dont_shake bc"
proof -
  have lb: "buf_lba b = l" by (rule lookup_lba [OF l])
  have d: "buf_on_dirty_list b \<Longrightarrow> BC_DIRTY \<in> buf_flags b" using bc_wfD(5) [OF wf l] by auto
  have keep: "map (\<lambda>b. if buf_lba b = l then f b else b) (filter (\<lambda>x. buf_lba x \<noteq> l) bs) =
      filter (\<lambda>x. buf_lba x \<noteq> l) bs" for f and bs :: "ext4_buf list" by (induction bs) auto
  have nl: "filter (\<lambda>n. snd n \<noteq> l) (bc_lru_root bc) = bc_lru_root bc" if "buf_refctr b \<noteq> 0"
    using bc_wfD(7) [OF wf, of _ l] l that by (intro filter_True) auto
  note defs = bc'_def ext4_bcache_drop_buf_def Let_def lb ext4_bcache_test_flag_def
    ext4_bcache_remove_dirty_node_def buf_update_def
  show root: "bc_lba_root bc' = filter (\<lambda>x. buf_lba x \<noteq> l) (bc_lba_root bc)" using keep by (simp add: defs)
  show "bc_lru_root bc' = filter (\<lambda>n. snd n \<noteq> l) (bc_lru_root bc)" using nl by (simp add: defs)
  show "bc_dirty_list bc' = (if buf_on_dirty_list b then remove1 l (bc_dirty_list bc) else bc_dirty_list bc)"
    using d by (auto simp: defs)
  show "bc_lru_ctr bc' = bc_lru_ctr bc" and "bc_ref_blocks bc' = bc_ref_blocks bc - 1"
    and "bc_itemsize bc' = bc_itemsize bc" and "bc_cnt bc' = bc_cnt bc" and "bc_malloc bc' = bc_malloc bc"
    and "bc_dont_shake bc' = bc_dont_shake bc" by (simp_all add: defs)
  show "ext4_buf_lookup bc' l' = (if l' = l then None else ext4_buf_lookup bc l')"
    using lookup_filter [of l bc l'] root by (simp add: ext4_buf_lookup_def)
qed

lemma wf_drop_buf:
  assumes wf: "bc_wf bc" and l: "ext4_buf_lookup bc l = Some b"
  shows "bc_wf (ext4_bcache_drop_buf b bc)"
    and "length (bc_lba_root (ext4_bcache_drop_buf b bc)) < length (bc_lba_root bc)"
proof -
  note f = drop_buf [OF wf l]
  have "distinct (map buf_lba (bc_lba_root bc))" using bc_wfD(1) [OF wf] by (simp add: strict_sorted_iff)
  moreover have "b \<in> set (bc_lba_root bc)" "buf_lba b = l"
    using l lookup_mem [OF bc_wfD(1) [OF wf]] by auto
  ultimately have len: "Suc (length (filter (\<lambda>x. buf_lba x \<noteq> l) (bc_lba_root bc))) = length (bc_lba_root bc)"
    by (rule length_filter_key)
  then show "length (bc_lba_root (ext4_bcache_drop_buf b bc)) < length (bc_lba_root bc)" by (simp add: f)
  have refs: "unat (bc_ref_blocks bc - 1) = unat (bc_ref_blocks bc) - 1"
    using len bc_wfD(2) [OF wf] by (intro unat_dec) (auto simp: word_unat_eq_iff)
  show "bc_wf (ext4_bcache_drop_buf b bc)"
  proof (rule bc_wf_change [OF wf, where k = l and ob = None], goal_cases)
    case (3 l')
    then show ?case by (rule f(1))
  next
    case (5 l')
    show ?case using bc_wfD(3) [OF wf] bc_wfD(4) [OF wf, of l] l by (auto simp: f)
  qed (use bc_wfD [OF wf] len refs in \<open>auto simp: f sorted_wrt_map_filter\<close>)
qed

end
