(* ===== verification/CacheSpec.thy ===== *)
theory CacheSpec
  imports CacheInv
begin

text \<open>
  The block cache as a client sees it: an array of blocks, \<open>blk_view\<close>. A cached block that is up to date
  is the buffer's bytes, any other block is the device's. Flushing and evicting never change the view,
  reading a block returns it, and after a flush the device holds it. The laws are proved inside the
  locale \<open>block_device\<close>, for every driver that meets the contract.
\<close>

section \<open>The view and its invariant\<close>

definition cache_geom :: "'d ext4_blockdev \<Rightarrow> nat \<Rightarrow> bool" where
  "cache_geom bd n \<longleftrightarrow>
     dev_geom bd n \<and> bd_lg_bsize bd \<noteq> 0 \<and> unat (bd_ph_bsize bd) dvd unat (bd_lg_bsize bd) \<and>
     unat (bd_lg_bcnt bd) * unat (bd_lg_bsize bd) \<le> unat (bd_part_size bd) \<and>
     bc_itemsize (bd_bc bd) = bd_lg_bsize bd"

definition blk_pos :: "'d ext4_blockdev \<Rightarrow> u64 \<Rightarrow> nat" where
  "blk_pos bd l = unat (bd_part_offset bd) + unat l * unat (bd_lg_bsize bd)"

definition blk_disk :: "('d \<Rightarrow> u8 list) \<Rightarrow> 'd ext4_blockdev \<Rightarrow> u64 \<Rightarrow> u8 list" where
  "blk_disk content bd l = slice (content (bd_dev bd)) (blk_pos bd l) (unat (bd_lg_bsize bd))"

definition blk_view :: "('d \<Rightarrow> u8 list) \<Rightarrow> 'd ext4_blockdev \<Rightarrow> u64 \<Rightarrow> u8 list" where
  "blk_view content bd l =
     (case ext4_buf_lookup (bd_bc bd) l of
        Some b \<Rightarrow> if BC_UPTODATE \<in> buf_flags b then buf_data b else blk_disk content bd l
      | None \<Rightarrow> blk_disk content bd l)"

text \<open>
  Clean up-to-date buffers nobody holds agree with the device; only up-to-date buffers are dirty.
  \<open>dirty_queued K\<close>: a dirty buffer nobody holds is on the dirty list, except those in \<open>K\<close>. \<open>synced P\<close>: clean
  up-to-date buffers agree with the device, except those in \<open>P\<close>, which a holder has edited
  without marking them dirty yet. \<open>clean_on D\<close>: no buffer of a block in \<open>D\<close> is dirty.
\<close>

definition buf_coh :: "('d \<Rightarrow> u8 list) \<Rightarrow> 'd ext4_blockdev \<Rightarrow> u64 \<Rightarrow> ext4_buf \<Rightarrow> bool" where
  "buf_coh content bd l b \<longleftrightarrow>
     l < bd_lg_bcnt bd \<and> (BC_DIRTY \<in> buf_flags b \<longrightarrow> BC_UPTODATE \<in> buf_flags b) \<and>
     (buf_refctr b = 0 \<and> BC_UPTODATE \<in> buf_flags b \<and> BC_DIRTY \<notin> buf_flags b \<longrightarrow>
        buf_data b = blk_disk content bd l)"

definition cache_coh :: "('d \<Rightarrow> u8 list) \<Rightarrow> 'd ext4_blockdev \<Rightarrow> bool" where
  "cache_coh content bd \<longleftrightarrow>
     bc_wf (bd_bc bd) \<and> mem_ok (bd_bc bd) \<and> cache_geom bd (length (content (bd_dev bd))) \<and>
     (\<forall>l b. ext4_buf_lookup (bd_bc bd) l = Some b \<longrightarrow> buf_coh content bd l b)"

definition dirty_queued :: "u64 set \<Rightarrow> 'd ext4_blockdev \<Rightarrow> bool" where
  "dirty_queued K bd \<longleftrightarrow>
     (\<forall>l b. l \<notin> K \<and> ext4_buf_lookup (bd_bc bd) l = Some b \<and> buf_refctr b = 0 \<and> BC_DIRTY \<in> buf_flags b \<longrightarrow>
        buf_on_dirty_list b)"

definition synced :: "('d \<Rightarrow> u8 list) \<Rightarrow> u64 set \<Rightarrow> 'd ext4_blockdev \<Rightarrow> bool" where
  "synced content P bd \<longleftrightarrow>
     (\<forall>l b. l \<notin> P \<and> ext4_buf_lookup (bd_bc bd) l = Some b \<and> BC_UPTODATE \<in> buf_flags b \<and> BC_DIRTY \<notin> buf_flags b \<longrightarrow>
        buf_data b = blk_disk content bd l)"

definition clean_on :: "u64 set \<Rightarrow> 'd ext4_blockdev \<Rightarrow> bool" where
  "clean_on D bd \<longleftrightarrow> (\<forall>l b. l \<in> D \<and> ext4_buf_lookup (bd_bc bd) l = Some b \<longrightarrow> BC_DIRTY \<notin> buf_flags b)"

text \<open>What no block operation changes.\<close>

definition bd_frame :: "'d ext4_blockdev \<Rightarrow> 'd ext4_blockdev \<Rightarrow> bool" where
  "bd_frame bd bd' \<longleftrightarrow>
     bd_ph_bsize bd' = bd_ph_bsize bd \<and> bd_ph_bbuf bd' = bd_ph_bbuf bd \<and> bd_ph_refctr bd' = bd_ph_refctr bd \<and>
     bd_part_offset bd' = bd_part_offset bd \<and> bd_part_size bd' = bd_part_size bd \<and>
     bd_lg_bsize bd' = bd_lg_bsize bd \<and> bd_lg_bcnt bd' = bd_lg_bcnt bd \<and>
     bd_cache_write_back bd' = bd_cache_write_back bd \<and>
     bc_itemsize (bd_bc bd') = bc_itemsize (bd_bc bd) \<and> bc_malloc (bd_bc bd') = bc_malloc (bd_bc bd) \<and>
     bc_cnt (bd_bc bd') = bc_cnt (bd_bc bd)"

definition view_kept :: "('d \<Rightarrow> u8 list) \<Rightarrow> 'd ext4_blockdev \<Rightarrow> 'd ext4_blockdev \<Rightarrow> bool" where
  "view_kept content bd bd' \<longleftrightarrow>
     cache_coh content bd' \<and> bd_frame bd bd' \<and> length (content (bd_dev bd')) = length (content (bd_dev bd)) \<and>
     (\<forall>P. synced content P bd \<longrightarrow> synced content P bd') \<and> (\<forall>D. clean_on D bd \<longrightarrow> clean_on D bd') \<and>
     (\<forall>l < bd_lg_bcnt bd. blk_view content bd' l = blk_view content bd l)"

lemma bd_frame_refl [simp]: "bd_frame bd bd"
  by (simp add: bd_frame_def)

lemma bd_frame_trans: "bd_frame a b \<Longrightarrow> bd_frame b c \<Longrightarrow> bd_frame a c"
  by (simp add: bd_frame_def)

lemma view_kept_refl: "cache_coh content bd \<Longrightarrow> view_kept content bd bd"
  by (simp add: view_kept_def)

lemma view_kept_trans: "view_kept content a b \<Longrightarrow> view_kept content b c \<Longrightarrow> view_kept content a c"
  by (auto simp: view_kept_def bd_frame_def)

lemma cache_geom_frame: "bd_frame bd bd' \<Longrightarrow> cache_geom bd' n = cache_geom bd n"
  by (simp add: cache_geom_def bd_frame_def dev_geom_def)

lemma blk_pos_frame: "bd_frame bd bd' \<Longrightarrow> blk_pos bd' = blk_pos bd"
  by (simp add: fun_eq_iff blk_pos_def bd_frame_def)

lemma mem_ok_frame: "bd_frame bd bd' \<Longrightarrow> mem_ok (bd_bc bd') = mem_ok (bd_bc bd)"
  by (simp add: mem_ok_def bd_frame_def)

lemma blk_disk_frame:
  "bd_frame bd bd' \<Longrightarrow> content (bd_dev bd') = content (bd_dev bd) \<Longrightarrow>
   blk_disk content bd' = blk_disk content bd"
  by (simp add: fun_eq_iff blk_disk_def blk_pos_frame) (simp add: bd_frame_def)

text \<open>A change of one buffer while the device stays: the coherence of the new buffer is all that is asked.\<close>

lemma cache_coh_change:
  assumes c: "cache_coh content bd" and f: "bd_frame bd bd'"
    and d: "content (bd_dev bd') = content (bd_dev bd)" and wf: "bc_wf (bd_bc bd')"
    and look: "\<And>l. ext4_buf_lookup (bd_bc bd') l = (if l = k then ob else ext4_buf_lookup (bd_bc bd) l)"
    and coh: "\<And>b. ob = Some b \<Longrightarrow> buf_coh content bd k b"
  shows "cache_coh content bd'"
proof -
  have "buf_coh content bd' l b = buf_coh content bd l b" for l b
    using f by (simp add: buf_coh_def blk_disk_frame [OF f d]) (simp add: bd_frame_def)
  with assms show ?thesis
    by (auto simp: cache_coh_def cache_geom_frame [OF f] mem_ok_frame [OF f] split: if_splits)
qed

lemma view_kept_change:
  assumes c: "cache_coh content bd" and f: "bd_frame bd bd'"
    and d: "content (bd_dev bd') = content (bd_dev bd)" and wf: "bc_wf (bd_bc bd')"
    and look: "\<And>l. ext4_buf_lookup (bd_bc bd') l = (if l = k then ob else ext4_buf_lookup (bd_bc bd) l)"
    and coh: "\<And>b. ob = Some b \<Longrightarrow> buf_coh content bd k b"
    and v: "(case ob of Some b \<Rightarrow> if BC_UPTODATE \<in> buf_flags b then buf_data b else blk_disk content bd k
             | None \<Rightarrow> blk_disk content bd k) = blk_view content bd k"
    and nd: "\<And>b b0. ob = Some b \<Longrightarrow> ext4_buf_lookup (bd_bc bd) k = Some b0 \<Longrightarrow> BC_DIRTY \<in> buf_flags b0 \<Longrightarrow>
      BC_DIRTY \<in> buf_flags b"
    and cl: "\<And>b. ob = Some b \<Longrightarrow> BC_DIRTY \<in> buf_flags b \<Longrightarrow>
      \<exists>b0. ext4_buf_lookup (bd_bc bd) k = Some b0 \<and> BC_DIRTY \<in> buf_flags b0"
  shows "view_kept content bd bd'"
proof -
  have "clean_on D bd'" if "clean_on D bd" for D
    unfolding clean_on_def
  proof (intro allI impI notI, elim conjE)
    fix l b assume b: "l \<in> D" "ext4_buf_lookup (bd_bc bd') l = Some b" "BC_DIRTY \<in> buf_flags b"
    then show False using that cl [of b] look [of l] by (cases "l = k") (auto simp: clean_on_def)
  qed
  moreover
  have "synced content P bd'" if s: "synced content P bd" for P
    unfolding synced_def blk_disk_frame [OF f d]
  proof (intro allI impI, elim conjE)
    fix l b
    assume b: "l \<notin> P" "ext4_buf_lookup (bd_bc bd') l = Some b" "BC_UPTODATE \<in> buf_flags b" "BC_DIRTY \<notin> buf_flags b"
    show "buf_data b = blk_disk content bd l"
    proof (cases "l = k")
      case True
      with b look have ob: "ob = Some b" by simp
      have "buf_data b = blk_view content bd k" using v b(3) by (simp add: ob)
      also have "\<dots> = blk_disk content bd k"
        using s b(1,4) True nd [OF ob] by (auto simp: blk_view_def synced_def split: option.split)
      finally show ?thesis using True by simp
    next
      case False
      with b look s show ?thesis by (simp add: synced_def)
    qed
  qed
  moreover
  have "blk_view content bd' l = blk_view content bd l" for l
  proof (cases "l = k")
    case True
    show ?thesis using v unfolding True blk_view_def [of content bd'] blk_disk_frame [OF f d] look by simp
  next
    case False
    then show ?thesis unfolding blk_view_def blk_disk_frame [OF f d] look by simp
  qed
  ultimately show ?thesis using cache_coh_change [OF c f d wf look coh] f d by (simp add: view_kept_def)
qed

lemma cache_cohD:
  assumes "cache_coh content bd"
  shows "bc_wf (bd_bc bd)" "mem_ok (bd_bc bd)" "cache_geom bd (length (content (bd_dev bd)))"
    "ext4_buf_lookup (bd_bc bd) l = Some b \<Longrightarrow> buf_coh content bd l b"
  using assms by (auto simp: cache_coh_def)

section \<open>Block transfers\<close>

lemma blk_in_range:
  assumes g: "cache_geom bd n" and l: "l < bd_lg_bcnt bd"
  shows "blk_pos bd l + unat (bd_lg_bsize bd) \<le> n"
    and "unat (bd_ph_bsize bd) * unat (blk_pba bd l) = blk_pos bd l"
    and "unat (bd_ph_bsize bd) * unat (blk_pb_cnt bd) = unat (bd_lg_bsize bd)"
proof -
  let ?b = "unat (bd_ph_bsize bd)" and ?s = "unat (bd_lg_bsize bd)"
  have dg: "dev_geom bd n" and dvd: "?b dvd ?s" "?b dvd unat (bd_part_offset bd)"
    using g by (auto simp: cache_geom_def dev_geom_def)
  have "unat l + 1 \<le> unat (bd_lg_bcnt bd)" using l by (simp add: word_less_nat_alt)
  then have "(unat l + 1) * ?s \<le> unat (bd_lg_bcnt bd) * ?s" by (rule mult_le_mono1)
  also have "\<dots> \<le> unat (bd_part_size bd)" using g by (simp add: cache_geom_def)
  finally have e: "unat l * ?s + ?s \<le> unat (bd_part_size bd)" by (simp add: algebra_simps)
  with dg show r: "blk_pos bd l + ?s \<le> n" by (simp add: blk_pos_def dev_geom_def)
  have lt: "blk_pos bd l < 2 ^ 63" using r dg by (simp add: dev_geom_def)
  have "unat (l * ucast (bd_lg_bsize bd)) = unat l * ?s"
    using lt by (subst unat_mult_le) (simp_all add: unat_ucast_up blk_pos_def)
  then have "unat (l * ucast (bd_lg_bsize bd) + bd_part_offset bd) = blk_pos bd l"
    using lt by (subst unat_add_le) (simp_all add: blk_pos_def)
  then have "unat (blk_pba bd l) = blk_pos bd l div ?b"
    unfolding blk_pba_def by (simp only: unat_div unat_ucast_up)
  moreover have "?b dvd blk_pos bd l" using dvd by (simp add: blk_pos_def)
  ultimately show "?b * unat (blk_pba bd l) = blk_pos bd l" by simp
  show "?b * unat (blk_pb_cnt bd) = ?s" using dvd(1) by (simp add: blk_pb_cnt_def unat_div)
qed

lemma blk_disjoint:
  assumes "l \<noteq> l'"
  shows "blk_pos bd l + unat (bd_lg_bsize bd) \<le> blk_pos bd l' \<or>
    blk_pos bd l' + unat (bd_lg_bsize bd) \<le> blk_pos bd l"
proof -
  have s: "unat i * n + n \<le> unat j * n" if "unat i < unat j" for i j :: u64 and n
  proof -
    have "(unat i + 1) * n \<le> unat j * n" using that by (intro mult_le_mono1) simp
    then show ?thesis by (simp add: algebra_simps)
  qed
  have "unat l < unat l' \<or> unat l' < unat l" using assms by (auto simp: word_unat_eq_iff)
  with s show ?thesis by (auto simp: blk_pos_def)
qed

lemma blk_disk_splice:
  assumes g: "cache_geom bd (length (content (bd_dev bd)))" and f: "bd_frame bd bd'"
    and c: "content (bd_dev bd') = splice (content (bd_dev bd)) (blk_pos bd k) data"
    and n: "length data = unat (bd_lg_bsize bd)" and k: "k < bd_lg_bcnt bd" and l: "l < bd_lg_bcnt bd"
  shows "blk_disk content bd' l = (if l = k then data else blk_disk content bd l)"
proof -
  note rk = blk_in_range [OF g k] and rl = blk_in_range [OF g l]
  have p: "blk_pos bd' = blk_pos bd" and s: "bd_lg_bsize bd' = bd_lg_bsize bd"
    using f by (simp_all add: blk_pos_frame) (simp add: bd_frame_def)
  show ?thesis
  proof (cases "l = k")
    case True
    have "slice (splice (content (bd_dev bd)) (blk_pos bd k) data) (blk_pos bd k) (length data) = data"
      using rk(1) n by (intro slice_splice_same) simp
    with True show ?thesis by (simp add: blk_disk_def p s c n)
  next
    case False
    from blk_disjoint [OF this, of bd]
    have "slice (splice (content (bd_dev bd)) (blk_pos bd k) data) (blk_pos bd l) (unat (bd_lg_bsize bd)) =
        slice (content (bd_dev bd)) (blk_pos bd l) (unat (bd_lg_bsize bd))"
    proof
      assume "blk_pos bd l + unat (bd_lg_bsize bd) \<le> blk_pos bd k"
      then show ?thesis using rk(1) n by (intro slice_splice_before) simp_all
    next
      assume "blk_pos bd k + unat (bd_lg_bsize bd) \<le> blk_pos bd l"
      then show ?thesis using rl(1) n by (intro slice_splice_after) simp_all
    qed
    with False show ?thesis by (simp add: blk_disk_def p s c)
  qed
qed

lemma bd_same_frame: "bd_same bd bd' \<Longrightarrow> bd_frame bd bd'"
  by (simp add: bd_frame_def bd_same_fields)

lemma cache_geom_num:
  assumes "cache_geom bd n"
  shows "0 < unat (bd_lg_bsize bd)" "n < 2 ^ 63" "unat (bd_lg_bsize bd) < 2 ^ 32"
  using assms unat_lt32 [of "bd_lg_bsize bd"]
  by (auto simp: cache_geom_def dev_geom_def word_unat_eq_iff)

lemma end_write_fields:
  "bc_lba_root (end_write b r bc) = bc_lba_root bc"
  "bc_lru_root (end_write b r bc) = bc_lru_root bc" "bc_ref_blocks (end_write b r bc) = bc_ref_blocks bc"
  "bc_lru_ctr (end_write b r bc) = bc_lru_ctr bc" "bc_dirty_list (end_write b r bc) = bc_dirty_list bc"
  "bc_itemsize (end_write b r bc) = bc_itemsize bc" "bc_malloc (end_write b r bc) = bc_malloc bc"
  "bc_cnt (end_write b r bc) = bc_cnt bc" "ext4_buf_lookup (end_write b r bc) = ext4_buf_lookup bc"
  "bc_wf (end_write b r bc) = bc_wf bc"
proof -
  show root: "bc_lba_root (end_write b r bc) = bc_lba_root bc"
    and f: "bc_lru_root (end_write b r bc) = bc_lru_root bc" "bc_ref_blocks (end_write b r bc) = bc_ref_blocks bc"
      "bc_lru_ctr (end_write b r bc) = bc_lru_ctr bc" "bc_dirty_list (end_write b r bc) = bc_dirty_list bc"
      "bc_itemsize (end_write b r bc) = bc_itemsize bc"
    and "bc_malloc (end_write b r bc) = bc_malloc bc" "bc_cnt (end_write b r bc) = bc_cnt bc"
    by (cases "buf_end_write b"; simp add: end_write_def)+
  show "ext4_buf_lookup (end_write b r bc) = ext4_buf_lookup bc" using root by (rule lookup_cong)
  show "bc_wf (end_write b r bc) = bc_wf bc" using root f by (intro bc_wf_cong)
qed

context block_device begin

lemma set_direct_ok:
  assumes g: "cache_geom bd (length (content (bd_dev bd)))" and l: "l < bd_lg_bcnt bd"
    and n: "length data = unat (bd_lg_bsize bd)"
  shows "\<exists>bd'. bd_same bd bd' \<and>
    content (bd_dev bd') = splice (content (bd_dev bd)) (blk_pos bd l) data \<and>
    ext4_blocks_set_direct io data l 1 bd = (Inr (), bd')"
proof -
  note r = blk_in_range [OF g l] and q = cache_geom_num [OF g]
  from bdif_bwrite_ok [of bd "blk_pb_cnt bd" "blk_pba bd l" data] r q n
  show ?thesis by (simp add: ext4_blocks_set_direct_def distrib_left)
qed

lemma get_direct_ok:
  assumes g: "cache_geom bd (length (content (bd_dev bd)))" and l: "l < bd_lg_bcnt bd"
    and n: "length buf = unat (bd_lg_bsize bd)"
  shows "\<exists>bd'. bd_same bd bd' \<and> content (bd_dev bd') = content (bd_dev bd) \<and>
    ext4_blocks_get_direct io buf l 1 bd = (Inr (), blk_disk content bd l, bd')"
proof -
  note r = blk_in_range [OF g l] and q = cache_geom_num [OF g]
  from bdif_bread_ok [of bd "blk_pb_cnt bd" "blk_pba bd l" buf] r q n
  show ?thesis by (simp add: ext4_blocks_get_direct_def distrib_left blk_disk_def)
qed

text \<open>Writing a dirty buffer out.\<close>

lemma flush_buf_ok:
  assumes c: "cache_coh content bd" and l: "ext4_buf_lookup (bd_bc bd) l = Some b" and d: "BC_DIRTY \<in> buf_flags b"
  shows "\<exists>bd'. ext4_block_flush_buf io l bd = (Inr (), bd') \<and> view_kept content bd bd' \<and>
    (\<forall>l'. ext4_buf_lookup (bd_bc bd') l' =
      (if l' = l then Some (b\<lparr> buf_on_dirty_list := False, buf_flags := buf_flags b - {BC_DIRTY} \<rparr>)
       else ext4_buf_lookup (bd_bc bd) l')) \<and>
    bc_lru_root (bd_bc bd') = bc_lru_root (bd_bc bd) \<and> bc_ref_blocks (bd_bc bd') = bc_ref_blocks (bd_bc bd) \<and>
    bc_lru_ctr (bd_bc bd') = bc_lru_ctr (bd_bc bd) \<and>
    bc_dirty_list (bd_bc bd') = remove1 l (bc_dirty_list (bd_bc bd))"
proof -
  note wf = cache_cohD(1) [OF c] and g = cache_cohD(3) [OF c] and coh = cache_cohD(4) [OF c l]
  have lb: "buf_lba b = l" by (rule lookup_lba [OF l])
  have up: "BC_UPTODATE \<in> buf_flags b" and lr: "l < bd_lg_bcnt bd" using coh d by (auto simp: buf_coh_def)
  have n: "length (buf_data b) = unat (bd_lg_bsize bd)" using bc_wfD(10) [OF wf l] g by (simp add: cache_geom_def)
  from set_direct_ok [OF g lr n] obtain bd1 where
    1: "bd_same bd bd1" "content (bd_dev bd1) = splice (content (bd_dev bd)) (blk_pos bd l) (buf_data b)"
      "ext4_blocks_set_direct io (buf_data b) l 1 bd = (Inr (), bd1)" by blast
  let ?f = "\<lambda>bc. buf_update l (ext4_bcache_clear_flag BC_DIRTY) (ext4_bcache_remove_dirty_node b bc)"
  let ?bd2 = "bc_apply (\<lambda>bc. end_write b 0 (?f bc)) bd1"
  note ew = end_write_fields
  have bc1: "bd_bc bd1 = bd_bc bd" using bd_same_fields(6) [OF 1(1)] .
  let ?b = "b\<lparr> buf_on_dirty_list := False, buf_flags := buf_flags b - {BC_DIRTY} \<rparr>"
  have look: "ext4_buf_lookup (bd_bc ?bd2) l' = (if l' = l then Some ?b else ext4_buf_lookup (bd_bc bd) l')" for l'
    by (simp add: bc_apply_def ew bc1 lookup_remove_dirty [OF l] ext4_bcache_clear_flag_def)
  have "bc_wf (?f (bd_bc bd))"
    by (rule bc_wf_update [OF wf_remove_dirty [OF wf l]])
       (auto simp: ext4_bcache_clear_flag_def lookup_remove_dirty [OF l])
  then have wf2: "bc_wf (bd_bc ?bd2)" by (simp add: bc_apply_def ew bc1)
  have fr: "bd_frame bd ?bd2"
    using bd_same_frame [OF 1(1)]
    by (simp add: bd_frame_def bc_apply_def ew bc1) (simp add: ext4_bcache_remove_dirty_node_def)
  have c2: "content (bd_dev ?bd2) = splice (content (bd_dev bd)) (blk_pos bd l) (buf_data b)"
    using 1(2) by (simp add: bc_apply_def)
  note disk = blk_disk_splice [OF g fr c2 n lr]
  have len: "length (content (bd_dev ?bd2)) = length (content (bd_dev bd))"
    using blk_in_range(1) [OF g lr] n by (simp add: c2)
  have cnt: "bd_lg_bcnt ?bd2 = bd_lg_bcnt bd" using fr by (simp add: bd_frame_def)
  have "buf_coh content ?bd2 l' x" if x: "ext4_buf_lookup (bd_bc ?bd2) l' = Some x" for l' x
  proof (cases "l' = l")
    case True
    with x look have "x = ?b" by simp
    with True disk [OF lr] lr up show ?thesis unfolding buf_coh_def cnt by simp
  next
    case False
    with x look have "buf_coh content bd l' x" using cache_cohD(4) [OF c, of l' x] by simp
    with False disk [of l'] show ?thesis unfolding buf_coh_def cnt by simp
  qed
  then have "cache_coh content ?bd2"
    using wf2 g cache_cohD(2) [OF c]
    unfolding cache_coh_def len cache_geom_frame [OF fr] mem_ok_frame [OF fr] by blast
  moreover have "blk_view content ?bd2 l' = blk_view content bd l'" if "l' < bd_lg_bcnt bd" for l'
    using disk [OF that] l up unfolding blk_view_def look by (cases "l' = l") (simp_all split: option.split)
  moreover have "synced content P ?bd2" if s: "synced content P bd" for P
    unfolding synced_def
  proof (intro allI impI, elim conjE)
    fix l' x
    assume x: "l' \<notin> P" "ext4_buf_lookup (bd_bc ?bd2) l' = Some x" "BC_UPTODATE \<in> buf_flags x" "BC_DIRTY \<notin> buf_flags x"
    show "buf_data x = blk_disk content ?bd2 l'"
    proof (cases "l' = l")
      case True
      with x(2) look have "x = ?b" by simp
      with True disk [OF lr] show ?thesis by simp
    next
      case False
      with x look have "ext4_buf_lookup (bd_bc bd) l' = Some x" by simp
      with x s False disk [of l'] cache_cohD(4) [OF c, of l' x] show ?thesis by (simp add: synced_def buf_coh_def)
    qed
  qed
  moreover have "clean_on D ?bd2" if "clean_on D bd" for D
    using that unfolding clean_on_def look by auto
  ultimately have "view_kept content bd ?bd2" using fr len by (simp add: view_kept_def)
  moreover have "ext4_block_flush_buf io l bd = (Inr (), ?bd2)"
    using l d up lb 1(3) by (simp add: ext4_block_flush_buf_def ext4_bcache_test_flag_def)
  moreover have "bc_dirty_list (bd_bc ?bd2) = remove1 l (bc_dirty_list (bd_bc bd))"
    using bc_wfD(4) [OF wf, of l] l by (auto simp: bc_apply_def ew bc1 lb remove1_idem)
  ultimately show ?thesis using look
    by (intro exI [of _ ?bd2]) (simp add: bc_apply_def ew bc1)
qed

end

section \<open>Eviction\<close>

lemma bc_apply_sel [simp]:
  "bd_bc (bc_apply f bd) = f (bd_bc bd)" "bd_dev (bc_apply f bd) = bd_dev bd"
  "bd_lg_bcnt (bc_apply f bd) = bd_lg_bcnt bd" "bd_ph_refctr (bc_apply f bd) = bd_ph_refctr bd"
  "bd_cache_write_back (bc_apply f bd) = bd_cache_write_back bd"
  by (simp_all add: bc_apply_def)

lemma bd_frame_apply:
  "bc_itemsize (f (bd_bc bd)) = bc_itemsize (bd_bc bd) \<Longrightarrow> bc_malloc (f (bd_bc bd)) = bc_malloc (bd_bc bd) \<Longrightarrow>
   bc_cnt (f (bd_bc bd)) = bc_cnt (bd_bc bd) \<Longrightarrow> bd_frame bd (bc_apply f bd)"
  by (simp add: bd_frame_def bc_apply_def)

lemma dirty_queued_change:
  assumes "dirty_queued K bd" and "\<And>l. ext4_buf_lookup (bd_bc bd') l = (if l = k then ob else ext4_buf_lookup (bd_bc bd) l)"
    and "\<And>b. ob = Some b \<Longrightarrow> buf_refctr b = 0 \<Longrightarrow> BC_DIRTY \<in> buf_flags b \<Longrightarrow> buf_on_dirty_list b"
  shows "dirty_queued K bd'"
  using assms unfolding dirty_queued_def by (metis option.inject)

lemma drop_clean_ok:
  assumes c: "cache_coh content bd" and l: "ext4_buf_lookup (bd_bc bd) l = Some b" and d: "BC_DIRTY \<notin> buf_flags b"
    and r: "buf_refctr b = 0"
  shows "view_kept content bd (bc_apply (ext4_bcache_drop_buf b) bd)"
proof (rule view_kept_change [OF c, where k = l and ob = None], goal_cases)
  note wf = cache_cohD(1) [OF c]
  note f = drop_buf [OF wf l]
  case 1
  show ?case by (rule bd_frame_apply) (simp_all add: f)
  case 3
  show ?case using wf_drop_buf(1) [OF wf l] by simp
  case (4 l')
  show ?case by (simp add: f)
  case 6
  show ?case using cache_cohD(4) [OF c l] l d r by (simp add: blk_view_def buf_coh_def)
qed simp_all

lemma lru_head:
  assumes wf: "bc_wf bc" and h: "ext4_buf_lowest_lru bc = Some l"
  shows "\<exists>b ns. ext4_buf_lookup bc l = Some b \<and> buf_refctr b = 0 \<and>
    bc_lru_root bc = (buf_lru_id b, l) # ns \<and> length (filter (\<lambda>n. snd n \<noteq> l) (bc_lru_root bc)) < length (bc_lru_root bc)"
proof -
  from h obtain i ns where n: "bc_lru_root bc = (i, l) # ns"
    by (auto simp: ext4_buf_lowest_lru_def split: list.splits)
  then have "(i, l) \<in> set (bc_lru_root bc)" by simp
  then obtain b where "ext4_buf_lookup bc l = Some b" "buf_lru_id b = i" "buf_refctr b = 0"
    using bc_wfD(7) [OF wf] by blast
  with n show ?thesis by (auto simp: le_imp_less_Suc)
qed

text \<open>The number of holders of a block.\<close>

definition blk_refs :: "'d ext4_blockdev \<Rightarrow> u64 \<Rightarrow> nat" where
  "blk_refs bd l = (case ext4_buf_lookup (bd_bc bd) l of None \<Rightarrow> 0 | Some b \<Rightarrow> unat (buf_refctr b))"

definition shake_post :: "('d \<Rightarrow> u8 list) \<Rightarrow> 'd ext4_blockdev \<Rightarrow> 'd ext4_blockdev \<Rightarrow> bool" where
  "shake_post content bd bd' \<longleftrightarrow>
     view_kept content bd bd' \<and> (\<forall>K. dirty_queued K bd \<longrightarrow> dirty_queued K bd') \<and>
     (\<forall>l b. ext4_buf_lookup (bd_bc bd) l = Some b \<and> buf_refctr b \<noteq> 0 \<longrightarrow>
        ext4_buf_lookup (bd_bc bd') l = Some b) \<and>
     (\<forall>l. blk_refs bd' l = blk_refs bd l) \<and>
     bc_lru_ctr (bd_bc bd') = bc_lru_ctr (bd_bc bd) \<and> bc_ref_blocks (bd_bc bd') \<le> bc_ref_blocks (bd_bc bd)"

lemma shake_post_refl: "cache_coh content bd \<Longrightarrow> shake_post content bd bd"
  by (simp add: shake_post_def view_kept_refl)

lemma shake_post_trans: "shake_post content a b \<Longrightarrow> shake_post content b c \<Longrightarrow> shake_post content a c"
  unfolding shake_post_def by (intro conjI) (blast intro: view_kept_trans, blast, blast, simp, simp, auto)

lemma shake_drop:
  assumes c: "cache_coh content bd" and l: "ext4_buf_lookup (bd_bc bd) l = Some b"
    and d: "BC_DIRTY \<notin> buf_flags b" and r: "buf_refctr b = 0"
  shows "shake_post content bd (bc_apply (ext4_bcache_drop_buf b) bd)"
proof -
  note wf = cache_cohD(1) [OF c]
  note f = drop_buf [OF wf l] and w = wf_drop_buf [OF wf l]
  have "dirty_queued K (bc_apply (ext4_bcache_drop_buf b) bd)" if "dirty_queued K bd" for K
    using that by (rule dirty_queued_change [where k = l and ob = None]) (simp_all add: f)
  moreover have "bc_ref_blocks (ext4_bcache_drop_buf b (bd_bc bd)) \<le> bc_ref_blocks (bd_bc bd)"
    using w bc_wfD(2) [OF wf] bc_wfD(2) [OF w(1)] by (simp add: word_le_nat_alt)
  ultimately show ?thesis using drop_clean_ok [OF c l d r] l r by (auto simp: shake_post_def blk_refs_def f)
qed

context block_device begin

lemma shake_flush:
  assumes c: "cache_coh content bd" and l: "ext4_buf_lookup (bd_bc bd) l = Some b" and d: "BC_DIRTY \<in> buf_flags b"
    and r: "buf_refctr b = 0"
  shows "\<exists>bd' b'. ext4_block_flush_buf io l bd = (Inr (), bd') \<and> shake_post content bd bd' \<and>
    ext4_buf_lookup (bd_bc bd') l = Some b' \<and> BC_DIRTY \<notin> buf_flags b' \<and> buf_refctr b' = 0 \<and>
    bc_lru_root (bd_bc bd') = bc_lru_root (bd_bc bd)"
proof -
  let ?b = "b\<lparr> buf_on_dirty_list := False, buf_flags := buf_flags b - {BC_DIRTY} \<rparr>"
  from flush_buf_ok [OF c l d] obtain bd1 where
    1: "ext4_block_flush_buf io l bd = (Inr (), bd1)" "view_kept content bd bd1"
      "\<And>l'. ext4_buf_lookup (bd_bc bd1) l' = (if l' = l then Some ?b else ext4_buf_lookup (bd_bc bd) l')"
      "bc_lru_root (bd_bc bd1) = bc_lru_root (bd_bc bd)" "bc_ref_blocks (bd_bc bd1) = bc_ref_blocks (bd_bc bd)"
      "bc_lru_ctr (bd_bc bd1) = bc_lru_ctr (bd_bc bd)"
    by blast
  have "dirty_queued K bd1" if "dirty_queued K bd" for K
    using that 1(3) by (rule dirty_queued_change) auto
  with 1 r l show ?thesis by (intro exI [of _ bd1] exI [of _ ?b]) (auto simp: shake_post_def blk_refs_def)
qed

lemma shake_loop_ok:
  assumes "cache_coh content bd" and "length (bc_lru_root (bd_bc bd)) \<le> fuel"
  shows "\<exists>bd'. cache_shake_loop fuel io bd = (Inr (), bd') \<and> shake_post content bd bd' \<and>
    (\<not> ext4_bcache_is_full (bd_bc bd') \<or> bc_lru_root (bd_bc bd') = [])"
  using assms
proof (induction fuel arbitrary: bd)
  case 0
  then show ?case
    by (intro exI [of _ bd]) (simp add: cache_shake_loop.simps ext4_buf_lowest_lru_def shake_post_refl)
next
  case (Suc fuel)
  note c = Suc.prems(1) and wf = cache_cohD(1) [OF Suc.prems(1)]
  show ?case
  proof (cases "ext4_buf_lowest_lru (bd_bc bd) = None \<or> \<not> ext4_bcache_is_full (bd_bc bd)")
    case True
    then have "cache_shake_loop (Suc fuel) io bd = (Inr (), bd)"
      by (auto simp: cache_shake_loop.simps split: option.split)
    moreover have "bc_lru_root (bd_bc bd) = []" if "ext4_buf_lowest_lru (bd_bc bd) = None"
      using that by (simp add: ext4_buf_lowest_lru_def split: list.splits)
    ultimately show ?thesis using True c by (auto simp: shake_post_refl)
  next
    case False
    then obtain l where h: "ext4_buf_lowest_lru (bd_bc bd) = Some l" and full: "ext4_bcache_is_full (bd_bc bd)"
      by auto
    from lru_head [OF wf h] obtain b where
      b: "ext4_buf_lookup (bd_bc bd) l = Some b" "buf_refctr b = 0"
        "length (filter (\<lambda>n. snd n \<noteq> l) (bc_lru_root (bd_bc bd))) < length (bc_lru_root (bd_bc bd))" by blast
    obtain bd1 b1 where
      1: "(if BC_DIRTY \<in> buf_flags b then ext4_block_flush_buf io l bd else (Inr (), bd)) = (Inr (), bd1)"
        "shake_post content bd bd1" "ext4_buf_lookup (bd_bc bd1) l = Some b1" "BC_DIRTY \<notin> buf_flags b1"
        "buf_refctr b1 = 0" "bc_lru_root (bd_bc bd1) = bc_lru_root (bd_bc bd)"
      using shake_flush [OF c b(1) _ b(2)] shake_post_refl [OF c] b
      by (cases "BC_DIRTY \<in> buf_flags b") auto
    have c1: "cache_coh content bd1" using 1(2) by (simp add: shake_post_def view_kept_def)
    let ?bd2 = "bc_apply (ext4_bcache_drop_buf b1) bd1"
    have 2: "shake_post content bd1 ?bd2" by (rule shake_drop [OF c1 1(3,4,5)])
    have c2: "cache_coh content ?bd2" using 2 by (simp add: shake_post_def view_kept_def)
    have "length (bc_lru_root (bd_bc ?bd2)) \<le> fuel"
      using b(3) Suc.prems(2) by (simp add: drop_buf [OF cache_cohD(1) [OF c1] 1(3)] 1(6))
    from Suc.IH [OF c2 this] obtain bd3 where
      3: "cache_shake_loop fuel io ?bd2 = (Inr (), bd3)" "shake_post content ?bd2 bd3"
        "\<not> ext4_bcache_is_full (bd_bc bd3) \<or> bc_lru_root (bd_bc bd3) = []" by blast
    have "cache_shake_loop (Suc fuel) io bd = (Inr (), bd3)"
      using h full b(1) 1(1,3) 3(1)
      by (subst cache_shake_loop.simps) (simp add: ext4_bcache_test_flag_def)
    moreover have "shake_post content bd bd3" using 1(2) 2 3(2) by (blast intro: shake_post_trans)
    ultimately show ?thesis using 3(3) by blast
  qed
qed

end

text \<open>The marker that guards against nested eviction changes nothing else.\<close>

lemma shake_post_mark:
  assumes c: "cache_coh content bd"
  shows "shake_post content bd (bc_apply (\<lambda>bc. bc\<lparr> bc_dont_shake := x \<rparr>) bd)" (is "shake_post content bd ?bd")
proof -
  have f: "bd_frame bd ?bd" by (rule bd_frame_apply) simp_all
  have w: "bc_wf (bd_bc ?bd)" using cache_cohD(1) [OF c] by (simp add: bc_wf_cong [of "bc\<lparr> bc_dont_shake := x \<rparr>" bc for bc x])
  have "view_kept content bd ?bd"
    by (rule view_kept_change [OF c f _ w, where k = 0 and ob = "ext4_buf_lookup (bd_bc bd) 0"])
       (use cache_cohD(4) [OF c] in \<open>simp_all add: blk_view_def\<close>)
  then show ?thesis by (simp add: shake_post_def dirty_queued_def blk_refs_def)
qed

text \<open>Taking a reference.\<close>

definition cache_room :: "'d ext4_blockdev \<Rightarrow> u64 \<Rightarrow> bool" where
  "cache_room bd l \<longleftrightarrow>
     bc_lru_ctr (bd_bc bd) < - 1 \<and> bc_ref_blocks (bd_bc bd) < - 1 \<and> blk_refs bd l < 2 ^ 32 - 1"

definition get_post :: "('d \<Rightarrow> u8 list) \<Rightarrow> u64 \<Rightarrow> 'd ext4_blockdev \<Rightarrow> 'd ext4_blockdev \<Rightarrow> bool" where
  "get_post content l bd bd' \<longleftrightarrow>
     view_kept content bd bd' \<and> (\<forall>K. dirty_queued K bd \<longrightarrow> dirty_queued K bd') \<and>
     (\<forall>l' b. l' \<noteq> l \<and> ext4_buf_lookup (bd_bc bd) l' = Some b \<and> buf_refctr b \<noteq> 0 \<longrightarrow>
        ext4_buf_lookup (bd_bc bd') l' = Some b) \<and>
     (\<forall>l'. blk_refs bd' l' = blk_refs bd l' + (if l' = l then 1 else 0)) \<and>
     unat (bc_lru_ctr (bd_bc bd')) \<le> unat (bc_lru_ctr (bd_bc bd)) + 1 \<and>
     unat (bc_ref_blocks (bd_bc bd')) \<le> unat (bc_ref_blocks (bd_bc bd)) + 1"

lemma shake_get_trans: "shake_post content a b \<Longrightarrow> get_post content l b c \<Longrightarrow> get_post content l a c"
  unfolding shake_post_def get_post_def word_le_nat_alt
  by (intro conjI) (blast intro: view_kept_trans, blast, blast, simp, simp, linarith)

lemma alloc_ok:
  assumes c: "cache_coh content bd" and l: "l < bd_lg_bcnt bd" and room: "cache_room bd l"
  shows "\<exists>new. fst (ext4_bcache_alloc l (bd_bc bd)) = Inr (\<lparr> b_lb_id = l, b_buf = Some l \<rparr>, new)"
    and "get_post content l bd (bc_apply (\<lambda>bc. snd (ext4_bcache_alloc l bc)) bd)"
proof -
  let ?bd = "bc_apply (\<lambda>bc. snd (ext4_bcache_alloc l bc)) bd"
  note wf = cache_cohD(1) [OF c] and m = cache_cohD(2) [OF c]
  have r: "bc_lru_ctr (bd_bc bd) < - 1" "bc_ref_blocks (bd_bc bd) < - 1" using room by (simp_all add: cache_room_def)
  show "\<exists>new. fst (ext4_bcache_alloc l (bd_bc bd)) = Inr (\<lparr> b_lb_id = l, b_buf = Some l \<rparr>, new)"
    using alloc_new(1) [OF _ m] alloc_old by (cases "ext4_buf_lookup (bd_bc bd) l") auto
  show "get_post content l bd ?bd"
  proof (cases "ext4_buf_lookup (bd_bc bd) l")
    case None
    note a = alloc_new [OF None m]
    have f: "bd_frame bd ?bd" by (rule bd_frame_apply) (simp_all add: a)
    have w: "bc_wf (bd_bc ?bd)" using wf_alloc_new [OF wf None m r] by simp
    have look: "ext4_buf_lookup (bd_bc ?bd) l' =
        (if l' = l then Some (fresh_buf (bd_bc bd) l) else ext4_buf_lookup (bd_bc bd) l')" for l'
      using a(11) by simp
    have "view_kept content bd ?bd"
      by (rule view_kept_change [OF c f _ w look]) (use l None in \<open>simp_all add: buf_coh_def fresh_buf_def blk_view_def\<close>)
    moreover have "dirty_queued K ?bd" if "dirty_queued K bd" for K
      using that look by (rule dirty_queued_change) (simp add: fresh_buf_def)
    ultimately show ?thesis unfolding get_post_def blk_refs_def look
      using None unat_inc32 [OF r(1)] unat_inc32 [OF r(2)] by (simp add: fresh_buf_def a)
  next
    case (Some b)
    have rb: "unat (buf_refctr b) < 2 ^ 32 - 1" using room Some by (simp add: cache_room_def blk_refs_def)
    then have rb': "buf_refctr b < - 1" by (simp add: word_less_nat_alt unat_max32)
    have bd: "bd_bc ?bd = snd (ext4_bcache_find_get l (bd_bc bd))" by (simp add: alloc_old [OF Some])
    have f: "bd_frame bd ?bd"
      by (rule bd_frame_apply) (simp_all add: alloc_old [OF Some] find_get_fields [OF Some])
    have w: "bc_wf (bd_bc ?bd)" unfolding bd by (rule wf_find_get [OF wf Some r(1) rb'])
    let ?b = "buf_get (bc_lru_ctr (bd_bc bd) + 1) b"
    have look: "ext4_buf_lookup (bd_bc ?bd) l' = (if l' = l then Some ?b else ext4_buf_lookup (bd_bc bd) l')" for l'
      unfolding bd by (rule find_get_Some(2) [OF wf Some])
    have g: "buf_flags ?b = buf_flags b" "buf_data ?b = buf_data b" "unat (buf_refctr ?b) = unat (buf_refctr b) + 1"
      using unat_inc32 [OF rb'] by (simp_all add: buf_get_def)
    then have gr: "buf_refctr ?b \<noteq> 0" by auto
    have "view_kept content bd ?bd"
      by (rule view_kept_change [OF c f _ w look])
         (use cache_cohD(4) [OF c Some] Some gr in \<open>auto simp: buf_coh_def g blk_view_def\<close>)
    moreover have "dirty_queued K ?bd" if "dirty_queued K bd" for K
      using that look by (rule dirty_queued_change) (use g in auto)
    moreover have "unat (bc_lru_ctr (bd_bc ?bd)) \<le> unat (bc_lru_ctr (bd_bc bd)) + 1"
      "bc_ref_blocks (bd_bc ?bd) = bc_ref_blocks (bd_bc bd)"
      using unat_inc32 [OF r(1)] by (simp_all add: bd find_get_fields [OF Some] del: bc_apply_sel)
    ultimately show ?thesis unfolding get_post_def blk_refs_def look using Some by (simp add: g del: bc_apply_sel)
  qed
qed

context block_device begin

lemma cache_shake_ok:
  assumes c: "cache_coh content bd"
  shows "\<exists>bd'. ext4_block_cache_shake io bd = (Inr (), bd') \<and> shake_post content bd bd' \<and>
    (bc_dont_shake (bd_bc bd) \<or> \<not> ext4_bcache_is_full (bd_bc bd') \<or> bc_lru_root (bd_bc bd') = [])"
proof (cases "bc_dont_shake (bd_bc bd)")
  case True
  then show ?thesis using shake_post_refl [OF c] by (simp add: ext4_block_cache_shake_def)
next
  case False
  let ?mark = "\<lambda>x bd. bc_apply (\<lambda>bc. bc\<lparr> bc_dont_shake := x \<rparr>) bd"
  note 1 = shake_post_mark [OF c, of True]
  then have c1: "cache_coh content (?mark True bd)" by (simp add: shake_post_def view_kept_def)
  from shake_loop_ok [OF c1 order_refl] obtain bd2 where
    2: "cache_shake_loop (length (bc_lru_root (bd_bc (?mark True bd)))) io (?mark True bd) = (Inr (), bd2)"
      "shake_post content (?mark True bd) bd2" "\<not> ext4_bcache_is_full (bd_bc bd2) \<or> bc_lru_root (bd_bc bd2) = []"
    by blast
  have "cache_coh content bd2" using 2(2) by (simp add: shake_post_def view_kept_def)
  then have "shake_post content bd2 (?mark False bd2)" by (rule shake_post_mark)
  then have "shake_post content bd (?mark False bd2)" using 1 2(2) by (blast intro: shake_post_trans)
  moreover have "ext4_block_cache_shake io bd = (Inr (), ?mark False bd2)"
    using False 2(1) by (simp add: ext4_block_cache_shake_def Let_def)
  moreover have "ext4_bcache_is_full (bd_bc (?mark False bd2)) = ext4_bcache_is_full (bd_bc bd2)"
    by (simp add: ext4_bcache_is_full_def)
  ultimately show ?thesis using 2(3) by auto
qed

lemma get_noread_ok:
  assumes c: "cache_coh content bd" and l: "l < bd_lg_bcnt bd" and room: "cache_room bd l"
  shows "\<exists>bd'. ext4_block_get_noread io l bd = (Inr \<lparr> b_lb_id = l, b_buf = Some l \<rparr>, bd') \<and> get_post content l bd bd'"
proof -
  have rc: "bd_ph_refctr bd \<noteq> 0" using cache_cohD(3) [OF c] by (simp add: cache_geom_def dev_geom_def)
  from cache_shake_ok [OF c] obtain bd1 where
    1: "ext4_block_cache_shake io bd = (Inr (), bd1)" "shake_post content bd bd1" by blast
  have c1: "cache_coh content bd1" and f1: "bd_frame bd bd1" using 1(2) by (simp_all add: shake_post_def view_kept_def)
  have "cache_room bd1 l" using room 1(2) by (auto simp: cache_room_def shake_post_def)
  moreover have "l < bd_lg_bcnt bd1" using l f1 by (simp add: bd_frame_def)
  ultimately obtain new where
    2: "fst (ext4_bcache_alloc l (bd_bc bd1)) = Inr (\<lparr> b_lb_id = l, b_buf = Some l \<rparr>, new)"
      "get_post content l bd1 (bc_apply (\<lambda>bc. snd (ext4_bcache_alloc l bc)) bd1)"
    using alloc_ok [OF c1] by blast
  have "ext4_block_get_noread io l bd =
      (Inr \<lparr> b_lb_id = l, b_buf = Some l \<rparr>, bc_apply (\<lambda>bc. snd (ext4_bcache_alloc l bc)) bd1)"
    using rc l 1(1) 2(1)
    by (cases "ext4_bcache_alloc l (bd_bc bd1)") (simp add: ext4_block_get_noread_def bc_apply_def)
  with shake_get_trans [OF 1(2) 2(2)] show ?thesis by blast
qed

end

section \<open>Reading a block\<close>

text \<open>Filling a held buffer from the device.\<close>

lemma fill_ok:
  assumes c: "cache_coh content bd" and l: "ext4_buf_lookup (bd_bc bd) l = Some b"
    and u: "BC_UPTODATE \<notin> buf_flags b"
  defines "bd' \<equiv> bc_apply (buf_update l (ext4_bcache_set_flag BC_UPTODATE))
                   (bc_apply (buf_update l (\<lambda>x. x\<lparr> buf_data := blk_disk content bd l \<rparr>)) bd)"
  shows "view_kept content bd bd'" and "dirty_queued K bd \<Longrightarrow> dirty_queued K bd'"
    and "ext4_buf_lookup (bd_bc bd') l' = (if l' = l
       then Some (b\<lparr> buf_data := blk_disk content bd l, buf_flags := insert BC_UPTODATE (buf_flags b) \<rparr>)
       else ext4_buf_lookup (bd_bc bd) l')"
proof -
  note wf = cache_cohD(1) [OF c] and coh = cache_cohD(4) [OF c l]
  let ?b = "b\<lparr> buf_data := blk_disk content bd l, buf_flags := insert BC_UPTODATE (buf_flags b) \<rparr>"
  have lr: "l < bd_lg_bcnt bd" and d: "BC_DIRTY \<notin> buf_flags b" using coh u by (auto simp: buf_coh_def)
  have len: "length (blk_disk content bd l) = length (buf_data b)"
    using blk_in_range(1) [OF cache_cohD(3) [OF c] lr] bc_wfD(10) [OF wf l] cache_cohD(3) [OF c]
    by (simp add: blk_disk_def cache_geom_def)
  show look: "ext4_buf_lookup (bd_bc bd') l' = (if l' = l then Some ?b else ext4_buf_lookup (bd_bc bd) l')" for l'
    using l by (simp add: bd'_def ext4_bcache_set_flag_def)
  have nd: "\<not> buf_on_dirty_list b" using bc_wfD(5) [OF wf l] d by auto
  have "bc_wf (buf_update l (\<lambda>x. x\<lparr> buf_data := blk_disk content bd l \<rparr>) (bd_bc bd))"
    by (rule bc_wf_update [OF wf]) (use l len nd in simp_all)
  then have w: "bc_wf (bd_bc bd')"
    unfolding bd'_def bc_apply_sel
    by (rule bc_wf_update) (use l nd in \<open>auto simp: ext4_bcache_set_flag_def\<close>)
  show "view_kept content bd bd'"
    by (rule view_kept_change [OF c _ _ w look])
       (use lr d l u in \<open>simp_all add: bd'_def bd_frame_def bc_apply_def buf_coh_def blk_view_def\<close>)
  show "dirty_queued K bd \<Longrightarrow> dirty_queued K bd'" by (rule dirty_queued_change [OF _ look]) (use d in auto)
qed

context block_device begin

lemma get_ok:
  assumes c: "cache_coh content bd" and l: "l < bd_lg_bcnt bd" and room: "cache_room bd l"
  shows "\<exists>bd' b. ext4_block_get io l bd = (Inr \<lparr> b_lb_id = l, b_buf = Some l \<rparr>, bd') \<and> get_post content l bd bd' \<and>
    ext4_buf_lookup (bd_bc bd') l = Some b \<and> BC_UPTODATE \<in> buf_flags b \<and> buf_data b = blk_view content bd l"
proof -
  from get_noread_ok [OF assms] obtain bd1 where
    1: "ext4_block_get_noread io l bd = (Inr \<lparr> b_lb_id = l, b_buf = Some l \<rparr>, bd1)" "get_post content l bd bd1"
    by blast
  have v1: "view_kept content bd bd1" using 1(2) by (simp add: get_post_def)
  have c1: "cache_coh content bd1" and f1: "bd_frame bd bd1" using v1 by (simp_all add: view_kept_def)
  have l1: "l < bd_lg_bcnt bd1" using l f1 by (simp add: bd_frame_def)
  have "blk_refs bd1 l = blk_refs bd l + 1" using 1(2) by (simp add: get_post_def)
  then obtain b where b: "ext4_buf_lookup (bd_bc bd1) l = Some b"
    by (cases "ext4_buf_lookup (bd_bc bd1) l") (simp_all add: blk_refs_def [of bd1])
  have bv: "blk_view content bd1 l = blk_view content bd l" using v1 l by (simp add: view_kept_def)
  show ?thesis
  proof (cases "BC_UPTODATE \<in> buf_flags b")
    case True
    then have "buf_data b = blk_view content bd l" using b bv by (simp add: blk_view_def [of _ bd1])
    with True 1 b show ?thesis by (simp add: ext4_block_get_def ext4_bcache_test_flag_def)
  next
    case False
    note g = cache_cohD(3) [OF c1]
    have "length (buf_data b) = unat (bd_lg_bsize bd1)"
      using bc_wfD(10) [OF cache_cohD(1) [OF c1] b] g by (simp add: cache_geom_def)
    from get_direct_ok [OF g l1 this] obtain bd2 where
      2: "bd_same bd1 bd2" "content (bd_dev bd2) = content (bd_dev bd1)"
        "ext4_blocks_get_direct io (buf_data b) l 1 bd1 = (Inr (), blk_disk content bd1 l, bd2)" by blast
    note f2 = bd_same_frame [OF 2(1)]
    have bc2: "bd_bc bd2 = bd_bc bd1" by (rule bd_same_fields(6) [OF 2(1)])
    have d2: "blk_disk content bd2 = blk_disk content bd1" by (rule blk_disk_frame [OF f2 2(2)])
    have 3: "view_kept content bd1 bd2"
      by (rule view_kept_change [OF c1 f2 2(2), where k = l and ob = "Some b"])
         (use b cache_cohD(1) [OF c1] cache_cohD(4) [OF c1 b] in \<open>simp_all add: bc2 blk_view_def\<close>)
    then have c2: "cache_coh content bd2" by (simp add: view_kept_def)
    have b2: "ext4_buf_lookup (bd_bc bd2) l = Some b" using b by (simp add: bc2)
    note 4 = fill_ok [OF c2 b2 False, unfolded d2]
    let ?bd3 = "bc_apply (buf_update l (ext4_bcache_set_flag BC_UPTODATE))
                   (bc_apply (buf_update l (\<lambda>x. x\<lparr> buf_data := blk_disk content bd1 l \<rparr>)) bd2)"
    let ?b = "b\<lparr> buf_data := blk_disk content bd1 l, buf_flags := insert BC_UPTODATE (buf_flags b) \<rparr>"
    have "ext4_block_get io l bd = (Inr \<lparr> b_lb_id = l, b_buf = Some l \<rparr>, ?bd3)"
      using 1(1) b False 2(3) by (simp add: ext4_block_get_def ext4_bcache_test_flag_def)
    moreover have "view_kept content bd ?bd3" using v1 3 4(1) by (blast intro: view_kept_trans)
    moreover have "dirty_queued K ?bd3" if "dirty_queued K bd" for K
    proof -
      have "dirty_queued K bd1" using that 1(2) by (simp add: get_post_def)
      then have "dirty_queued K bd2" unfolding dirty_queued_def bc2 .
      then show ?thesis by (rule 4(2))
    qed
    moreover have "blk_refs ?bd3 l' = blk_refs bd1 l'" for l'
      using b unfolding blk_refs_def 4(3) bc2 by simp
    moreover have "ext4_buf_lookup (bd_bc ?bd3) l' = ext4_buf_lookup (bd_bc bd1) l'" if "l' \<noteq> l" for l'
      using that unfolding 4(3) bc2 by simp
    moreover have "bc_lru_ctr (bd_bc ?bd3) = bc_lru_ctr (bd_bc bd1)" "bc_ref_blocks (bd_bc ?bd3) = bc_ref_blocks (bd_bc bd1)"
      by (simp_all add: bc2)
    ultimately have gp: "get_post content l bd ?bd3" using 1(2) unfolding get_post_def by simp
    have "blk_disk content bd1 l = blk_view content bd l" using b False bv by (simp add: blk_view_def [of _ bd1])
    moreover have "ext4_buf_lookup (bd_bc ?bd3) l = Some ?b" unfolding 4(3) by simp
    ultimately show ?thesis
      using \<open>ext4_block_get io l bd = _\<close> gp by (intro exI [of _ ?bd3] exI [of _ ?b]) simp
  qed
qed

end

section \<open>Writing and releasing a block\<close>

text \<open>
  A holder replaces the bytes of a buffer, and marks it dirty (\<open>ext4_trans_set_block_dirty\<close> with no
  transaction open).
\<close>

definition blk_edit :: "u64 \<Rightarrow> u8 list \<Rightarrow> 'd ext4_blockdev \<Rightarrow> 'd ext4_blockdev" where
  "blk_edit l data bd = bc_apply (buf_update l (\<lambda>b. b\<lparr> buf_data := data \<rparr>)) bd"

definition ext4_trans_set_block_dirty :: "u64 \<Rightarrow> 'd ext4_blockdev \<Rightarrow> 'd ext4_blockdev" where
  "ext4_trans_set_block_dirty l bd = bc_apply (buf_update l ext4_bcache_set_dirty) bd"

definition edit_post :: "('d \<Rightarrow> u8 list) \<Rightarrow> u64 \<Rightarrow> 'd ext4_blockdev \<Rightarrow> 'd ext4_blockdev \<Rightarrow> bool" where
  "edit_post content l bd bd' \<longleftrightarrow>
     cache_coh content bd' \<and> bd_frame bd bd' \<and> content (bd_dev bd') = content (bd_dev bd) \<and>
     (\<forall>K. dirty_queued K bd \<longrightarrow> dirty_queued K bd') \<and> (\<forall>l'. blk_refs bd' l' = blk_refs bd l') \<and>
     bc_lru_ctr (bd_bc bd') = bc_lru_ctr (bd_bc bd) \<and> bc_ref_blocks (bd_bc bd') = bc_ref_blocks (bd_bc bd)"

lemma held_lookup: "blk_refs bd l \<noteq> 0 \<Longrightarrow> \<exists>b. ext4_buf_lookup (bd_bc bd) l = Some b \<and> buf_refctr b \<noteq> 0"
  by (auto simp: blk_refs_def word_unat_eq_iff split: option.splits)

lemma edit_ok:
  assumes c: "cache_coh content bd" and b: "ext4_buf_lookup (bd_bc bd) l = Some b" and r: "buf_refctr b \<noteq> 0"
    and n: "length data = length (buf_data b)"
  defines "bd' \<equiv> blk_edit l data bd"
  shows "edit_post content l bd bd'"
    and "ext4_buf_lookup (bd_bc bd') l' = (if l' = l then Some (b\<lparr> buf_data := data \<rparr>) else ext4_buf_lookup (bd_bc bd) l')"
    and "synced content P bd \<Longrightarrow> synced content (insert l P) bd'"
    and "blk_view content bd' l' = (if l' = l \<and> BC_UPTODATE \<in> buf_flags b then data else blk_view content bd l')"
proof -
  note wf = cache_cohD(1) [OF c]
  have look: "ext4_buf_lookup (bd_bc bd') l' =
      (if l' = l then Some (b\<lparr> buf_data := data \<rparr>) else ext4_buf_lookup (bd_bc bd) l')" for l'
    using b by (simp add: bd'_def blk_edit_def)
  then show "ext4_buf_lookup (bd_bc bd') l' =
      (if l' = l then Some (b\<lparr> buf_data := data \<rparr>) else ext4_buf_lookup (bd_bc bd) l')" .
  have w: "bc_wf (bd_bc bd')" unfolding bd'_def blk_edit_def bc_apply_sel
    by (rule bc_wf_update [OF wf]) (use b n bc_wfD(5) [OF wf b] in simp_all)
  have f: "bd_frame bd bd'" by (simp add: bd'_def blk_edit_def bd_frame_def bc_apply_def)
  have d: "content (bd_dev bd') = content (bd_dev bd)" by (simp add: bd'_def blk_edit_def)
  have "cache_coh content bd'"
    by (rule cache_coh_change [OF c f d w look]) (use r cache_cohD(4) [OF c b] in \<open>auto simp: buf_coh_def\<close>)
  moreover have "dirty_queued K bd'" if "dirty_queued K bd" for K
    using that look by (rule dirty_queued_change) (use r in auto)
  moreover have "blk_refs bd' l' = blk_refs bd l'" for l' unfolding blk_refs_def look using b by simp
  ultimately show "edit_post content l bd bd'" using f d
    by (simp add: edit_post_def bd'_def blk_edit_def)
  show "synced content P bd \<Longrightarrow> synced content (insert l P) bd'"
    unfolding synced_def look blk_disk_frame [OF f d] by simp
  show "blk_view content bd' l' = (if l' = l \<and> BC_UPTODATE \<in> buf_flags b then data else blk_view content bd l')"
    unfolding blk_view_def look blk_disk_frame [OF f d] using b by simp
qed

lemma dirty_ok:
  assumes c: "cache_coh content bd" and b: "ext4_buf_lookup (bd_bc bd) l = Some b" and r: "buf_refctr b \<noteq> 0"
  defines "bd' \<equiv> ext4_trans_set_block_dirty l bd"
  shows "edit_post content l bd bd'"
    and "ext4_buf_lookup (bd_bc bd') l' = (if l' = l
      then Some (b\<lparr> buf_flags := insert BC_DIRTY (insert BC_UPTODATE (buf_flags b)) \<rparr>)
      else ext4_buf_lookup (bd_bc bd) l')"
    and "synced content P bd \<Longrightarrow> synced content (P - {l}) bd'"
    and "blk_view content bd' l' = (if l' = l then buf_data b else blk_view content bd l')"
proof -
  note wf = cache_cohD(1) [OF c]
  let ?b = "b\<lparr> buf_flags := insert BC_DIRTY (insert BC_UPTODATE (buf_flags b)) \<rparr>"
  have look: "ext4_buf_lookup (bd_bc bd') l' = (if l' = l then Some ?b else ext4_buf_lookup (bd_bc bd) l')" for l'
    using b by (simp add: bd'_def ext4_trans_set_block_dirty_def ext4_bcache_set_dirty_def ext4_bcache_set_flag_def)
  then show "ext4_buf_lookup (bd_bc bd') l' = (if l' = l then Some ?b else ext4_buf_lookup (bd_bc bd) l')" .
  have w: "bc_wf (bd_bc bd')" unfolding bd'_def ext4_trans_set_block_dirty_def bc_apply_sel
    by (rule bc_wf_update [OF wf]) (auto simp: ext4_bcache_set_dirty_def ext4_bcache_set_flag_def)
  have f: "bd_frame bd bd'" by (simp add: bd'_def ext4_trans_set_block_dirty_def bd_frame_def bc_apply_def)
  have d: "content (bd_dev bd') = content (bd_dev bd)" by (simp add: bd'_def ext4_trans_set_block_dirty_def)
  have "cache_coh content bd'"
    by (rule cache_coh_change [OF c f d w look]) (use cache_cohD(4) [OF c b] in \<open>auto simp: buf_coh_def\<close>)
  moreover have "dirty_queued K bd'" if "dirty_queued K bd" for K
    using that look by (rule dirty_queued_change) (use r in auto)
  moreover have "blk_refs bd' l' = blk_refs bd l'" for l' unfolding blk_refs_def look using b by simp
  ultimately show "edit_post content l bd bd'" using f d
    by (simp add: edit_post_def bd'_def ext4_trans_set_block_dirty_def)
  show "synced content P bd \<Longrightarrow> synced content (P - {l}) bd'"
    unfolding synced_def look blk_disk_frame [OF f d] by simp
  show "blk_view content bd' l' = (if l' = l then buf_data b else blk_view content bd l')"
    unfolding blk_view_def look blk_disk_frame [OF f d] by simp
qed

text \<open>The last holder gives the buffer back: its node enters the LRU tree.\<close>

lemma wf_last_ref:
  assumes wf: "bc_wf bc" and l: "ext4_buf_lookup bc l = Some b" and r: "buf_refctr b = 1"
  defines "bc' \<equiv> lru_insert (ext4_bcache_dec_ref b) (buf_update l ext4_bcache_dec_ref bc)"
  shows "bc_wf bc'"
    and "ext4_buf_lookup bc' l' = (if l' = l then Some (b\<lparr> buf_refctr := 0 \<rparr>) else ext4_buf_lookup bc l')"
proof -
  have lb: "buf_lba b = l" by (rule lookup_lba [OF l])
  have b: "ext4_bcache_dec_ref b = b\<lparr> buf_refctr := 0 \<rparr>" using r by (simp add: ext4_bcache_dec_ref_def)
  have root: "bc_lru_root bc' = rb_insert ext4_bcache_lru_compare (buf_lru_id b, l) (bc_lru_root bc)"
    by (simp add: bc'_def lru_insert_def b lb)
  have lba: "bc_lba_root bc' = bc_lba_root (buf_update l ext4_bcache_dec_ref bc)"
    by (simp add: bc'_def lru_insert_def)
  show look: "ext4_buf_lookup bc' l' = (if l' = l then Some (b\<lparr> buf_refctr := 0 \<rparr>) else ext4_buf_lookup bc l')" for l'
    unfolding lookup_cong [OF lba] using l b by (simp add: ext4_bcache_dec_ref_def [of "_ :: ext4_buf"])
  have fresh: "fst n \<noteq> buf_lru_id b" if n: "n \<in> set (bc_lru_root bc)" for n
  proof
    assume e: "fst n = buf_lru_id b"
    from n obtain c where c: "ext4_buf_lookup bc (snd n) = Some c" "buf_lru_id c = fst n" "buf_refctr c = 0"
      using bc_wfD(7) [OF wf, of "fst n" "snd n"] by auto
    then have "snd n = l" using e l bc_wfD(9) [OF wf] by metis
    with c l r show False by simp
  qed
  have set: "set (bc_lru_root bc') = insert (buf_lru_id b, l) (set (bc_lru_root bc))"
    unfolding root using fresh by (intro set_rb_insert_fresh(1)) (simp add: lru_compare, metis fst_conv)
  have nn: "(i, l) \<notin> set (bc_lru_root bc)" for i using bc_wfD(7) [OF wf, of i l] l r by auto
  note fields = bc'_def lru_insert_def
  show "bc_wf bc'"
  proof (rule bc_wf_change [OF wf, where k = l and ob = "Some (b\<lparr> buf_refctr := 0 \<rparr>)"], goal_cases)
    case 6
    show ?case unfolding root
      by (intro rb_insert_sorted) (use bc_wfD(6) [OF wf] in simp, use fresh in \<open>metis imageE fst_conv\<close>, simp_all add: lru_compare)
  next
    case (3 l')
    show ?case by (rule look)
  next
    case (7 i l')
    show ?case using nn by (auto simp: set)
  qed (use l bc_wfD [OF wf] in \<open>auto simp: fields ext4_bcache_dec_ref_def\<close>)
qed

context block_device begin

text \<open>A buffer ready to go is queued or written; either way it is not dirty off the list.\<close>

lemma release_dirty_ok:
  assumes c: "cache_coh content bd" and l: "ext4_buf_lookup (bd_bc bd) l = Some b"
  defines "bd' \<equiv> snd (bcache_release_dirty io l bd)"
  shows "bcache_release_dirty io l bd = (Inr (), bd') \<and> view_kept content bd bd' \<and> bc_lru_ctr (bd_bc bd') = bc_lru_ctr (bd_bc bd) \<and>
    bc_ref_blocks (bd_bc bd') = bc_ref_blocks (bd_bc bd) \<and> (\<exists>b'.
    (\<forall>l'. ext4_buf_lookup (bd_bc bd') l' = (if l' = l then Some b' else ext4_buf_lookup (bd_bc bd) l')) \<and>
    buf_refctr b' = buf_refctr b \<and> (BC_DIRTY \<in> buf_flags b' \<longrightarrow> buf_on_dirty_list b' \<and> BC_TMP \<notin> buf_flags b') \<and>
    (BC_UPTODATE \<in> buf_flags b' \<longleftrightarrow> BC_UPTODATE \<in> buf_flags b))"
proof (cases "BC_DIRTY \<in> buf_flags b")
  case False
  then have r: "bcache_release_dirty io l bd = (Inr (), bd)" using l by (simp add: bcache_release_dirty_def ext4_bcache_test_flag_def)
  then have "bd' = bd" by (simp add: bd'_def)
  with False c l r show ?thesis by (simp add: view_kept_refl)
next
  case True
  note wf = cache_cohD(1) [OF c] and coh = cache_cohD(4) [OF c l]
  have up: "BC_UPTODATE \<in> buf_flags b" using coh True by (simp add: buf_coh_def)
  have lb: "buf_lba b = l" by (rule lookup_lba [OF l])
  show ?thesis
  proof (cases "bd_cache_write_back bd \<noteq> 0 \<and> BC_FLUSH \<notin> buf_flags b \<and> BC_TMP \<notin> buf_flags b")
    case q: True
    then have r: "bcache_release_dirty io l bd = (Inr (), bc_apply (ext4_bcache_insert_dirty_node b) bd)"
      using l True up by (simp add: bcache_release_dirty_def ext4_bcache_test_flag_def)
    then have bd': "bd' = bc_apply (ext4_bcache_insert_dirty_node b) bd" by (simp add: bd'_def)
    let ?b = "b\<lparr> buf_on_dirty_list := True \<rparr>"
    have look: "ext4_buf_lookup (bd_bc bd') l' = (if l' = l then Some ?b else ext4_buf_lookup (bd_bc bd) l')" for l'
      using l lb by (cases "buf_on_dirty_list b") (auto simp: bd' ext4_bcache_insert_dirty_node_def)
    have w: "bc_wf (bd_bc bd')" using wf_insert_dirty [OF wf l] True up by (simp add: bd')
    have f: "bd_frame bd bd'"
      unfolding bd' by (rule bd_frame_apply) (simp_all add: ext4_bcache_insert_dirty_node_def)
    have "view_kept content bd bd'"
      by (rule view_kept_change [OF c f _ w look]) (use l coh in \<open>auto simp: bd' buf_coh_def blk_view_def\<close>)
    moreover have "bc_lru_ctr (bd_bc bd') = bc_lru_ctr (bd_bc bd)" "bc_ref_blocks (bd_bc bd') = bc_ref_blocks (bd_bc bd)"
      by (simp_all add: bd' ext4_bcache_insert_dirty_node_def)
    ultimately show ?thesis using look True up q r bd' by (intro conjI exI [of _ ?b]) simp_all
  next
    case nq: False
    from flush_buf_ok [OF c l True] obtain bd1 where
      1: "ext4_block_flush_buf io l bd = (Inr (), bd1)" "view_kept content bd bd1"
        "\<And>l'. ext4_buf_lookup (bd_bc bd1) l' =
          (if l' = l then Some (b\<lparr> buf_on_dirty_list := False, buf_flags := buf_flags b - {BC_DIRTY} \<rparr>)
           else ext4_buf_lookup (bd_bc bd) l')"
        "bc_ref_blocks (bd_bc bd1) = bc_ref_blocks (bd_bc bd)" "bc_lru_ctr (bd_bc bd1) = bc_lru_ctr (bd_bc bd)" by blast
    have r: "bcache_release_dirty io l bd = (Inr (), bc_apply (buf_update l (ext4_bcache_clear_flag BC_FLUSH)) bd1)"
      using l True up nq 1(1) by (auto simp: bcache_release_dirty_def ext4_bcache_test_flag_def)
    then have bd': "bd' = bc_apply (buf_update l (ext4_bcache_clear_flag BC_FLUSH)) bd1" by (simp add: bd'_def)
    have c1: "cache_coh content bd1" using 1(2) by (simp add: view_kept_def)
    let ?b1 = "b\<lparr> buf_on_dirty_list := False, buf_flags := buf_flags b - {BC_DIRTY} \<rparr>"
    let ?b = "b\<lparr> buf_on_dirty_list := False, buf_flags := buf_flags b - {BC_DIRTY} - {BC_FLUSH} \<rparr>"
    have l1: "ext4_buf_lookup (bd_bc bd1) l = Some ?b1" by (simp add: 1(3))
    have look: "ext4_buf_lookup (bd_bc bd') l' = (if l' = l then Some ?b else ext4_buf_lookup (bd_bc bd1) l')" for l'
      by (simp add: bd' 1(3) ext4_bcache_clear_flag_def)
    have w: "bc_wf (bd_bc bd')" unfolding bd' bc_apply_sel
      by (rule bc_wf_update [OF cache_cohD(1) [OF c1]]) (auto simp: ext4_bcache_clear_flag_def l1)
    have f: "bd_frame bd1 bd'" by (simp add: bd' bd_frame_def bc_apply_def)
    have "view_kept content bd1 bd'"
      by (rule view_kept_change [OF c1 f _ w look])
         (use l1 up cache_cohD(4) [OF c1 l1] in \<open>auto simp: bd' buf_coh_def blk_view_def\<close>)
    then have "view_kept content bd bd'" using 1(2) by (blast intro: view_kept_trans)
    moreover have "bc_lru_ctr (bd_bc bd') = bc_lru_ctr (bd_bc bd)" "bc_ref_blocks (bd_bc bd') = bc_ref_blocks (bd_bc bd)"
      by (simp_all add: bd' 1(4,5))
    ultimately show ?thesis using look 1(3) up r bd' by (intro conjI exI [of _ ?b]) simp_all
  qed
qed

end

definition set_post :: "('d \<Rightarrow> u8 list) \<Rightarrow> u64 \<Rightarrow> 'd ext4_blockdev \<Rightarrow> 'd ext4_blockdev \<Rightarrow> bool" where
  "set_post content l bd bd' \<longleftrightarrow>
     view_kept content bd bd' \<and> dirty_queued {} bd' \<and>
     (\<forall>l' b. l' \<noteq> l \<and> ext4_buf_lookup (bd_bc bd) l' = Some b \<and> buf_refctr b \<noteq> 0 \<longrightarrow>
        ext4_buf_lookup (bd_bc bd') l' = Some b) \<and>
     (\<forall>b b'. ext4_buf_lookup (bd_bc bd) l = Some b \<and> ext4_buf_lookup (bd_bc bd') l = Some b' \<longrightarrow>
        (BC_UPTODATE \<in> buf_flags b' \<longleftrightarrow> BC_UPTODATE \<in> buf_flags b)) \<and>
     (\<forall>l'. blk_refs bd' l' = (if l' = l then blk_refs bd l - 1 else blk_refs bd l')) \<and>
     bc_lru_ctr (bd_bc bd') = bc_lru_ctr (bd_bc bd) \<and> bc_ref_blocks (bd_bc bd') \<le> bc_ref_blocks (bd_bc bd)"

lemma dec_ref_ok:
  assumes c: "cache_coh content bd" and l: "ext4_buf_lookup (bd_bc bd) l = Some b"
    and r: "buf_refctr b \<noteq> 0" "buf_refctr b \<noteq> 1"
  defines "bd' \<equiv> bc_apply (buf_update l ext4_bcache_dec_ref) bd"
  shows "view_kept content bd bd'"
    and "ext4_buf_lookup (bd_bc bd') l' = (if l' = l then Some (ext4_bcache_dec_ref b) else ext4_buf_lookup (bd_bc bd) l')"
proof -
  have lk: "ext4_buf_lookup (bd_bc bd') l' =
      (if l' = l then Some (ext4_bcache_dec_ref b) else ext4_buf_lookup (bd_bc bd) l')" for l'
    using l by (simp add: bd'_def ext4_bcache_dec_ref_def [of "_ :: ext4_buf"])
  then show "ext4_buf_lookup (bd_bc bd') l' =
      (if l' = l then Some (ext4_bcache_dec_ref b) else ext4_buf_lookup (bd_bc bd) l')" .
  have w: "bc_wf (bd_bc bd')" unfolding bd'_def bc_apply_sel
    by (rule bc_wf_update [OF cache_cohD(1) [OF c]])
       (use l r bc_wfD(5) [OF cache_cohD(1) [OF c] l] in \<open>auto simp: ext4_bcache_dec_ref_def\<close>)
  show "view_kept content bd bd'"
    by (rule view_kept_change [OF c _ _ w lk])
       (use l r cache_cohD(4) [OF c l] in
         \<open>auto simp: bd'_def bd_frame_def bc_apply_def buf_coh_def blk_view_def ext4_bcache_dec_ref_def\<close>)
qed

lemma last_ref_ok:
  assumes c: "cache_coh content bd" and l: "ext4_buf_lookup (bd_bc bd) l = Some b" and r: "buf_refctr b = 1"
    and sy: "BC_UPTODATE \<in> buf_flags b \<and> BC_DIRTY \<notin> buf_flags b \<longrightarrow> buf_data b = blk_disk content bd l"
  defines "bd' \<equiv> bc_apply (lru_insert (ext4_bcache_dec_ref b)) (bc_apply (buf_update l ext4_bcache_dec_ref) bd)"
  shows "view_kept content bd bd'"
    and "ext4_buf_lookup (bd_bc bd') l' = (if l' = l then Some (b\<lparr> buf_refctr := 0 \<rparr>) else ext4_buf_lookup (bd_bc bd) l')"
proof -
  note w = wf_last_ref [OF cache_cohD(1) [OF c] l r]
  have lk: "ext4_buf_lookup (bd_bc bd') l' =
      (if l' = l then Some (b\<lparr> buf_refctr := 0 \<rparr>) else ext4_buf_lookup (bd_bc bd) l')" for l'
    using w(2) by (simp add: bd'_def)
  then show "ext4_buf_lookup (bd_bc bd') l' =
      (if l' = l then Some (b\<lparr> buf_refctr := 0 \<rparr>) else ext4_buf_lookup (bd_bc bd) l')" .
  show "view_kept content bd bd'"
    by (rule view_kept_change [OF c _ _ _ lk])
       (use w(1) l cache_cohD(4) [OF c l] sy in
         \<open>auto simp: bd'_def bd_frame_def bc_apply_def buf_coh_def blk_view_def lru_insert_def\<close>)
qed

context block_device begin

lemma free_ok:
  assumes c: "cache_coh content bd" and q: "dirty_queued {} bd" and l: "blk_refs bd l \<noteq> 0" and l0: "l \<noteq> 0"
    and sy: "\<And>b. ext4_buf_lookup (bd_bc bd) l = Some b \<Longrightarrow> BC_UPTODATE \<in> buf_flags b \<Longrightarrow> BC_DIRTY \<notin> buf_flags b \<Longrightarrow>
      buf_data b = blk_disk content bd l"
  shows "\<exists>bd'. ext4_bcache_free io \<lparr> b_lb_id = l, b_buf = Some l \<rparr> bd = (Inr (), bd') \<and> set_post content l bd bd'"
proof -
  obtain b where b: "ext4_buf_lookup (bd_bc bd) l = Some b" and r: "buf_refctr b \<noteq> 0"
    using l by (auto simp: blk_refs_def word_unat_eq_iff split: option.splits)
  have qd: "dirty_queued {} bd'" if "dirty_queued {l} bd'"
    "\<And>x. ext4_buf_lookup (bd_bc bd') l = Some x \<Longrightarrow> buf_refctr x = 0 \<Longrightarrow> BC_DIRTY \<in> buf_flags x \<Longrightarrow> buf_on_dirty_list x"
    for bd' :: "'d ext4_blockdev" using that by (force simp: dirty_queued_def)
  have qk: "dirty_queued {l} bd'" if "\<And>l'. l' \<noteq> l \<Longrightarrow> ext4_buf_lookup (bd_bc bd') l' = ext4_buf_lookup (bd_bc bd) l'"
    for bd' :: "'d ext4_blockdev" using q that unfolding dirty_queued_def by (metis empty_iff insertI1)
  have dec: "unat (buf_refctr (ext4_bcache_dec_ref b)) = unat (buf_refctr b) - 1"
    using r by (simp add: ext4_bcache_dec_ref_def unat_dec)
  let ?dec = "bc_apply (buf_update l ext4_bcache_dec_ref) bd"
  show ?thesis
  proof (cases "buf_refctr b = 1")
    case False
    note d = dec_ref_ok [OF c b r False]
    have c1: "cache_coh content ?dec" using d(1) by (simp add: view_kept_def)
    have r1: "buf_refctr (ext4_bcache_dec_ref b) \<noteq> 0"
      using False by (simp add: ext4_bcache_dec_ref_def)
    let ?b = "ext4_bcache_dec_ref b"
    have fd: "buf_flags ?b = buf_flags b" by (simp add: ext4_bcache_dec_ref_def)
    let ?rel = "if buf_refctr ?b = buf_read_refctr ?b then bcache_release_dirty io l ?dec else (Inr (), ?dec)"
    define bd2 where "bd2 = snd ?rel"
    have "?rel = (Inr (), bd2) \<and> view_kept content ?dec bd2 \<and> bc_lru_ctr (bd_bc bd2) = bc_lru_ctr (bd_bc bd) \<and>
        bc_ref_blocks (bd_bc bd2) = bc_ref_blocks (bd_bc bd) \<and> (\<exists>b'.
        (\<forall>l'. ext4_buf_lookup (bd_bc bd2) l' = (if l' = l then Some b' else ext4_buf_lookup (bd_bc ?dec) l')) \<and>
        buf_refctr b' = buf_refctr ?b \<and> (BC_UPTODATE \<in> buf_flags b' \<longleftrightarrow> BC_UPTODATE \<in> buf_flags b))"
    proof (cases "buf_refctr ?b = buf_read_refctr ?b")
      case True
      have "ext4_buf_lookup (bd_bc ?dec) l = Some ?b" by (simp only: d(2) refl if_True)
      from release_dirty_ok [OF c1 this] obtain b' where
        "bcache_release_dirty io l ?dec = (Inr (), bd2)"
        "view_kept content ?dec bd2" "bc_lru_ctr (bd_bc bd2) = bc_lru_ctr (bd_bc ?dec)"
        "bc_ref_blocks (bd_bc bd2) = bc_ref_blocks (bd_bc ?dec)" "buf_refctr b' = buf_refctr ?b" "BC_UPTODATE \<in> buf_flags b' \<longleftrightarrow> BC_UPTODATE \<in> buf_flags ?b"
        "\<And>l'. ext4_buf_lookup (bd_bc bd2) l' = (if l' = l then Some b' else ext4_buf_lookup (bd_bc ?dec) l')"
        using True unfolding bd2_def by auto
      then show ?thesis using True by (intro conjI exI [of _ b']) (simp_all add: fd)
    next
      case False
      then have "bd2 = ?dec" by (simp add: bd2_def)
      then show ?thesis using False c1 d(2) by (intro conjI exI [of _ ?b]) (simp_all add: view_kept_refl fd)
    qed
    then obtain b' where rel: "?rel = (Inr (), bd2)" and 2: "view_kept content ?dec bd2" "buf_refctr b' = buf_refctr ?b"
      "BC_UPTODATE \<in> buf_flags b' \<longleftrightarrow> BC_UPTODATE \<in> buf_flags b"
      "\<And>l'. ext4_buf_lookup (bd_bc bd2) l' = (if l' = l then Some b' else ext4_buf_lookup (bd_bc ?dec) l')"
      "bc_lru_ctr (bd_bc bd2) = bc_lru_ctr (bd_bc bd)" "bc_ref_blocks (bd_bc bd2) = bc_ref_blocks (bd_bc bd)" by blast
    have look: "ext4_buf_lookup (bd_bc bd2) l' = (if l' = l then Some b' else ext4_buf_lookup (bd_bc bd) l')" for l'
      by (simp only: 2(4) d(2) if_cancel) simp
    have "dirty_queued {} bd2" by (rule qd [OF qk]) (use look r1 2(2) in auto)
    moreover have "blk_refs bd2 l' = (if l' = l then blk_refs bd l - 1 else blk_refs bd l')" for l'
      unfolding blk_refs_def look using b 2(2) dec by simp
    ultimately have "set_post content l bd bd2"
      using view_kept_trans [OF d(1) 2(1)] look b 2(3,5,6) unfolding set_post_def by simp
    moreover have "ext4_bcache_free io \<lparr> b_lb_id = l, b_buf = Some l \<rparr> bd = (Inr (), bd2)"
      using l0 b r r1 rel by (simp add: ext4_bcache_free_def Let_def)
    ultimately show ?thesis by blast
  next
    case True
    let ?bd1 = "bc_apply (lru_insert (ext4_bcache_dec_ref b)) ?dec"
    have "BC_UPTODATE \<in> buf_flags b \<and> BC_DIRTY \<notin> buf_flags b \<longrightarrow> buf_data b = blk_disk content bd l"
      using sy [OF b] by blast
    note d = last_ref_ok [OF c b True this]
    have c1: "cache_coh content ?bd1" using d(1) by (simp add: view_kept_def)
    have b1: "ext4_buf_lookup (bd_bc ?bd1) l = Some (b\<lparr> buf_refctr := 0 \<rparr>)" using d(2) by simp
    define bd2 where "bd2 = snd (bcache_release_dirty io l ?bd1)"
    from release_dirty_ok [OF c1 b1] obtain b2 where rel: "bcache_release_dirty io l ?bd1 = (Inr (), bd2)" and 2: "view_kept content ?bd1 bd2"
      "\<And>l'. ext4_buf_lookup (bd_bc bd2) l' = (if l' = l then Some b2 else ext4_buf_lookup (bd_bc ?bd1) l')"
      "buf_refctr b2 = 0" "BC_DIRTY \<in> buf_flags b2 \<longrightarrow> buf_on_dirty_list b2 \<and> BC_TMP \<notin> buf_flags b2"
      "BC_UPTODATE \<in> buf_flags b2 \<longleftrightarrow> BC_UPTODATE \<in> buf_flags b"
      "bc_lru_ctr (bd_bc bd2) = bc_lru_ctr (bd_bc bd)" "bc_ref_blocks (bd_bc bd2) = bc_ref_blocks (bd_bc bd)"
      unfolding bd2_def by (auto simp: lru_insert_def)
    have c2: "cache_coh content bd2" using 2(1) by (simp add: view_kept_def)
    have look: "ext4_buf_lookup (bd_bc bd2) l' = (if l' = l then Some b2 else ext4_buf_lookup (bd_bc bd) l')" for l'
      by (simp only: 2(2) d(2)) simp
    have b2: "ext4_buf_lookup (bd_bc bd2) l = Some b2" by (simp add: look)
    define drop where "drop \<longleftrightarrow> BC_UPTODATE \<notin> buf_flags b2 \<or> BC_TMP \<in> buf_flags b2"
    define bd3 where "bd3 = (if drop then bc_apply (ext4_bcache_drop_buf b2) bd2 else bd2)"
    have clean: "BC_DIRTY \<notin> buf_flags b2" if drop
      using that 2(4) cache_cohD(4) [OF c2 b2] by (auto simp: drop_def buf_coh_def)
    have v3: "view_kept content bd2 bd3"
      using drop_clean_ok [OF c2 b2 clean 2(3)] c2 by (simp add: bd3_def view_kept_refl)
    have look3: "ext4_buf_lookup (bd_bc bd3) l' =
        (if l' = l then if drop then None else Some b2 else ext4_buf_lookup (bd_bc bd) l')" for l'
      using drop_buf(1) [OF cache_cohD(1) [OF c2] b2] look by (simp add: bd3_def)
    have "dirty_queued {} bd3" by (rule qd [OF qk]) (use look3 2(4) in \<open>auto split: if_splits\<close>)
    moreover have "blk_refs bd3 l' = (if l' = l then blk_refs bd l - 1 else blk_refs bd l')" for l'
      unfolding blk_refs_def look3 using b 2(3) True by simp
    moreover have "bc_lru_ctr (bd_bc bd3) = bc_lru_ctr (bd_bc bd)"
      using drop_buf(5) [OF cache_cohD(1) [OF c2] b2] 2(6) by (simp add: bd3_def)
    moreover have "bc_ref_blocks (bd_bc bd3) \<le> bc_ref_blocks (bd_bc bd)"
    proof (cases drop)
      case True
      have "cache_coh content bd3" using v3 by (simp add: view_kept_def)
      from bc_wfD(2) [OF cache_cohD(1) [OF this]] bc_wfD(2) [OF cache_cohD(1) [OF c2]]
        wf_drop_buf(2) [OF cache_cohD(1) [OF c2] b2] True
      have "bc_ref_blocks (bd_bc bd3) \<le> bc_ref_blocks (bd_bc bd2)" by (simp add: word_le_nat_alt bd3_def)
      then show ?thesis by (simp add: 2(7))
    qed (simp add: bd3_def 2(7))
    ultimately have "set_post content l bd bd3"
      using view_kept_trans [OF view_kept_trans [OF d(1) 2(1)] v3] look3 b 2(5) unfolding set_post_def by simp
    moreover have "ext4_bcache_free io \<lparr> b_lb_id = l, b_buf = Some l \<rparr> bd = (Inr (), bd3)"
      using l0 b r True b2 rel
      by (simp add: ext4_bcache_free_def Let_def bd3_def drop_def ext4_bcache_test_flag_def
            ext4_bcache_dec_ref_def)
    ultimately show ?thesis by blast
  qed
qed

lemma set_ok:
  assumes c: "cache_coh content bd" and q: "dirty_queued {} bd" and l: "blk_refs bd l \<noteq> 0" and l0: "l \<noteq> 0"
    and sy: "\<And>b. ext4_buf_lookup (bd_bc bd) l = Some b \<Longrightarrow> BC_UPTODATE \<in> buf_flags b \<Longrightarrow> BC_DIRTY \<notin> buf_flags b \<Longrightarrow>
      buf_data b = blk_disk content bd l"
  shows "\<exists>bd'. ext4_block_set io \<lparr> b_lb_id = l, b_buf = Some l \<rparr> bd = (Inr (), bd') \<and> set_post content l bd bd'"
  using free_ok [OF assms] cache_cohD(3) [OF c]
  by (simp add: ext4_block_set_def cache_geom_def dev_geom_def)

end

section \<open>Flushing\<close>

definition flush_post :: "('d \<Rightarrow> u8 list) \<Rightarrow> 'd ext4_blockdev \<Rightarrow> 'd ext4_blockdev \<Rightarrow> bool" where
  "flush_post content bd bd' \<longleftrightarrow>
     view_kept content bd bd' \<and> (\<forall>K. dirty_queued K bd \<longrightarrow> dirty_queued K bd') \<and>
     (\<forall>l. blk_refs bd' l = blk_refs bd l) \<and>
     (\<forall>l. map_option (\<lambda>b. (buf_data b, BC_UPTODATE \<in> buf_flags b)) (ext4_buf_lookup (bd_bc bd') l) =
          map_option (\<lambda>b. (buf_data b, BC_UPTODATE \<in> buf_flags b)) (ext4_buf_lookup (bd_bc bd) l))"

lemma flush_post_trans: "flush_post content a b \<Longrightarrow> flush_post content b c \<Longrightarrow> flush_post content a c"
  unfolding flush_post_def by (intro conjI) (blast intro: view_kept_trans, blast, simp, simp)

text \<open>With the dirty list empty, the device holds every block nobody holds.\<close>

lemma flushed_on_disk:
  assumes c: "cache_coh content bd" and q: "dirty_queued {} bd" and e: "bc_dirty_list (bd_bc bd) = []"
    and r: "blk_refs bd l = 0"
  shows "blk_disk content bd l = blk_view content bd l"
proof (cases "ext4_buf_lookup (bd_bc bd) l")
  case (Some b)
  have "\<not> buf_on_dirty_list b" using bc_wfD(4) [OF cache_cohD(1) [OF c], of l] Some e by auto
  moreover have r0: "buf_refctr b = 0" using r Some by (simp add: blk_refs_def word_unat_eq_iff)
  ultimately have "BC_DIRTY \<notin> buf_flags b" using q Some by (auto simp: dirty_queued_def)
  with Some cache_cohD(4) [OF c Some] r0 show ?thesis by (simp add: blk_view_def buf_coh_def)
qed (simp add: blk_view_def)

context block_device begin

lemma flush_loop_ok:
  assumes "cache_coh content bd" and "length (bc_dirty_list (bd_bc bd)) \<le> fuel"
  shows "\<exists>bd'. cache_flush_loop fuel io bd = (Inr (), bd') \<and> flush_post content bd bd' \<and>
    bc_dirty_list (bd_bc bd') = []"
  using assms
proof (induction fuel arbitrary: bd)
  case 0
  then show ?case by (intro exI [of _ bd]) (simp add: cache_flush_loop.simps flush_post_def view_kept_refl)
next
  case (Suc fuel)
  note c = Suc.prems(1) and wf = cache_cohD(1) [OF Suc.prems(1)]
  show ?case
  proof (cases "bc_dirty_list (bd_bc bd)")
    case Nil
    then show ?thesis using c
      by (intro exI [of _ bd]) (simp add: cache_flush_loop.simps flush_post_def view_kept_refl)
  next
    case (Cons l ls)
    then have "l \<in> set (bc_dirty_list (bd_bc bd))" by simp
    then obtain b where b: "ext4_buf_lookup (bd_bc bd) l = Some b" "buf_on_dirty_list b"
      using bc_wfD(4) [OF wf] by blast
    then have d: "BC_DIRTY \<in> buf_flags b" using bc_wfD(5) [OF wf] by blast
    let ?b = "b\<lparr> buf_on_dirty_list := False, buf_flags := buf_flags b - {BC_DIRTY} \<rparr>"
    from flush_buf_ok [OF c b(1) d] obtain bd1 where
      1: "ext4_block_flush_buf io l bd = (Inr (), bd1)" "view_kept content bd bd1"
        "\<And>l'. ext4_buf_lookup (bd_bc bd1) l' = (if l' = l then Some ?b else ext4_buf_lookup (bd_bc bd) l')"
        "bc_dirty_list (bd_bc bd1) = remove1 l (bc_dirty_list (bd_bc bd))" by blast
    have "dirty_queued K bd1" if "dirty_queued K bd" for K
      using that 1(3) by (rule dirty_queued_change) auto
    moreover have "blk_refs bd1 l' = blk_refs bd l'" for l' unfolding blk_refs_def 1(3) using b by simp
    ultimately have p1: "flush_post content bd bd1" using 1(2,3) b(1) by (simp add: flush_post_def)
    have "cache_coh content bd1" using 1(2) by (simp add: view_kept_def)
    moreover have "length (bc_dirty_list (bd_bc bd1)) \<le> fuel" using 1(4) Cons Suc.prems(2) by simp
    ultimately obtain bd2 where 2: "cache_flush_loop fuel io bd1 = (Inr (), bd2)" "flush_post content bd1 bd2"
      "bc_dirty_list (bd_bc bd2) = []" using Suc.IH by blast
    have "cache_flush_loop (Suc fuel) io bd = (Inr (), bd2)"
      using Cons 1(1) 2(1) by (subst cache_flush_loop.simps) simp
    with 2 flush_post_trans [OF p1 2(2)] show ?thesis by blast
  qed
qed

lemma cache_flush_ok:
  assumes "cache_coh content bd"
  shows "\<exists>bd'. ext4_block_cache_flush io bd = (Inr (), bd') \<and> flush_post content bd bd' \<and>
    bc_dirty_list (bd_bc bd') = []"
  unfolding ext4_block_cache_flush_def by (rule flush_loop_ok [OF assms order_refl])

end

section \<open>Histories of block operations\<close>

datatype blk_action = BGet u64 | BEdit u64 "u8 list" | BDirty u64 | BSet u64 | BFlush

text \<open>
  What a client can do with a device: get a block, overwrite the bytes of a block it holds, mark a block it
  holds dirty, give a block back, flush. A call that fails is no step.
\<close>

inductive blk_step :: "'d ext4_blockdev_iface \<Rightarrow> 'd ext4_blockdev \<Rightarrow> blk_action \<Rightarrow> 'd ext4_blockdev \<Rightarrow> bool"
  for io where
  get: "ext4_block_get io l bd = (Inr b, bd') \<Longrightarrow> l < bd_lg_bcnt bd \<Longrightarrow> cache_room bd l \<Longrightarrow>
        blk_step io bd (BGet l) bd'"
| edit: "blk_refs bd l \<noteq> 0 \<Longrightarrow> length data = unat (bd_lg_bsize bd) \<Longrightarrow>
        blk_step io bd (BEdit l data) (blk_edit l data bd)"
| dirty: "blk_refs bd l \<noteq> 0 \<Longrightarrow> blk_step io bd (BDirty l) (ext4_trans_set_block_dirty l bd)"
| set: "ext4_block_set io \<lparr> b_lb_id = l, b_buf = Some l \<rparr> bd = (Inr (), bd') \<Longrightarrow> l \<noteq> 0 \<Longrightarrow> blk_refs bd l \<noteq> 0 \<Longrightarrow>
        blk_step io bd (BSet l) bd'"
| flush: "ext4_block_cache_flush io bd = (Inr (), bd') \<Longrightarrow> blk_step io bd BFlush bd'"

inductive_cases blk_stepE [elim]:
  "blk_step io bd (BGet l) bd'" "blk_step io bd (BEdit l data) bd'" "blk_step io bd (BDirty l) bd'"
  "blk_step io bd (BSet l) bd'" "blk_step io bd BFlush bd'"

text \<open>
  The specification: an array of blocks, a count of holders for each, and the blocks edited but not
  marked dirty yet, which must not be given back.
\<close>

fun arr_step :: "blk_action \<Rightarrow> (u64 \<Rightarrow> u8 list) \<Rightarrow> u64 \<Rightarrow> u8 list" where
  "arr_step (BEdit l data) m = m(l := data)"
| "arr_step _ m = m"

fun refs_step :: "blk_action \<Rightarrow> (u64 \<Rightarrow> nat) \<Rightarrow> u64 \<Rightarrow> nat" where
  "refs_step (BGet l) r = r(l := r l + 1)"
| "refs_step (BSet l) r = r(l := r l - 1)"
| "refs_step _ r = r"

fun pend_step :: "blk_action \<Rightarrow> u64 set \<Rightarrow> u64 set" where
  "pend_step (BEdit l data) P = insert l P"
| "pend_step (BDirty l) P = P - {l}"
| "pend_step _ P = P"

fun pend_ok :: "blk_action \<Rightarrow> u64 set \<Rightarrow> bool" where
  "pend_ok (BSet l) P \<longleftrightarrow> l \<notin> P"
| "pend_ok _ P \<longleftrightarrow> True"

text \<open>A history of steps, each allowed by the pending edits.\<close>

inductive blk_run ::
    "'d ext4_blockdev_iface \<Rightarrow> u64 set \<Rightarrow> 'd ext4_blockdev \<Rightarrow> blk_action list \<Rightarrow> 'd ext4_blockdev \<Rightarrow> bool"
  for io where
  nil: "blk_run io P bd [] bd"
| more: "blk_step io bd a bd1 \<Longrightarrow> pend_ok a P \<Longrightarrow> blk_run io (pend_step a P) bd1 acts bd2 \<Longrightarrow>
         blk_run io P bd (a # acts) bd2"

definition blk_inv :: "('d \<Rightarrow> u8 list) \<Rightarrow> u64 set \<Rightarrow> 'd ext4_blockdev \<Rightarrow> bool" where
  "blk_inv content P bd \<longleftrightarrow> cache_coh content bd \<and> dirty_queued {} bd \<and> synced content P bd"

definition held_uptodate :: "'d ext4_blockdev \<Rightarrow> bool" where
  "held_uptodate bd \<longleftrightarrow>
     (\<forall>l b. ext4_buf_lookup (bd_bc bd) l = Some b \<and> buf_refctr b \<noteq> 0 \<longrightarrow> BC_UPTODATE \<in> buf_flags b)"

definition blk_ready :: "('d \<Rightarrow> u8 list) \<Rightarrow> u64 set \<Rightarrow> 'd ext4_blockdev \<Rightarrow> bool" where
  "blk_ready content P bd \<longleftrightarrow> blk_inv content P bd \<and> held_uptodate bd"

lemma blk_readyD:
  assumes "blk_ready content P bd"
  shows "cache_coh content bd" "dirty_queued {} bd" "synced content P bd" "held_uptodate bd"
  using assms by (simp_all add: blk_ready_def blk_inv_def)

text \<open>Blocks whose holders stay the same keep their buffers.\<close>

lemma held_uptodate_frame:
  assumes h: "held_uptodate bd"
    and o: "\<And>l' b. l' \<noteq> l \<Longrightarrow> ext4_buf_lookup (bd_bc bd) l' = Some b \<Longrightarrow> buf_refctr b \<noteq> 0 \<Longrightarrow>
      ext4_buf_lookup (bd_bc bd') l' = Some b"
    and r: "\<And>l'. l' \<noteq> l \<Longrightarrow> blk_refs bd' l' = blk_refs bd l'"
    and k: "\<And>b. ext4_buf_lookup (bd_bc bd') l = Some b \<Longrightarrow> buf_refctr b \<noteq> 0 \<Longrightarrow> BC_UPTODATE \<in> buf_flags b"
  shows "held_uptodate bd'"
  unfolding held_uptodate_def
proof (intro allI impI, elim conjE)
  fix l' b
  assume b: "ext4_buf_lookup (bd_bc bd') l' = Some b" "buf_refctr b \<noteq> 0"
  show "BC_UPTODATE \<in> buf_flags b"
  proof (cases "l' = l")
    case True
    with b k show ?thesis by simp
  next
    case False
    then have "blk_refs bd l' = blk_refs bd' l'" using r by simp
    also have "\<dots> \<noteq> 0" using b by (simp add: blk_refs_def word_unat_eq_iff)
    finally obtain c where c: "ext4_buf_lookup (bd_bc bd) l' = Some c" "buf_refctr c \<noteq> 0"
      using held_lookup by blast
    with o [OF False] b have "c = b" by auto
    with c h show ?thesis by (auto simp: held_uptodate_def)
  qed
qed

context block_device begin

lemma step_refines:
  assumes s: "blk_step io bd a bd'" and r: "blk_ready content P bd" and p: "pend_ok a P"
  shows "blk_ready content (pend_step a P) bd'" and "bd_frame bd bd'"
    and "l < bd_lg_bcnt bd \<Longrightarrow> blk_view content bd' l = arr_step a (blk_view content bd) l"
    and "blk_refs bd' l = refs_step a (blk_refs bd) l"
proof -
  note c = blk_readyD(1) [OF r] and q = blk_readyD(2) [OF r] and y = blk_readyD(3) [OF r]
    and h = blk_readyD(4) [OF r]
  have "blk_ready content (pend_step a P) bd' \<and> bd_frame bd bd' \<and>
    (\<forall>l < bd_lg_bcnt bd. blk_view content bd' l = arr_step a (blk_view content bd) l) \<and>
    (\<forall>l. blk_refs bd' l = refs_step a (blk_refs bd) l)"
    using s
  proof cases
    case (get l b)
    from get_ok [OF c get(3,4)] get(2) obtain x where
      x: "get_post content l bd bd'" "ext4_buf_lookup (bd_bc bd') l = Some x" "BC_UPTODATE \<in> buf_flags x" by auto
    have "held_uptodate bd'"
      by (rule held_uptodate_frame [OF h, of l]) (use x in \<open>auto simp: get_post_def\<close>)
    with x(1) q y get(1) show ?thesis by (auto simp: blk_ready_def blk_inv_def get_post_def view_kept_def)
  next
    case (edit l data)
    obtain b where b: "ext4_buf_lookup (bd_bc bd) l = Some b" "buf_refctr b \<noteq> 0" using held_lookup [OF edit(3)] by blast
    have u: "BC_UPTODATE \<in> buf_flags b" using h b by (auto simp: held_uptodate_def)
    have n: "length data = length (buf_data b)"
      using bc_wfD(10) [OF cache_cohD(1) [OF c] b(1)] edit(4) cache_cohD(3) [OF c] by (simp add: cache_geom_def)
    note e = edit_ok [OF c b n]
    have "held_uptodate (blk_edit l data bd)"
      using h u by (auto simp: held_uptodate_def e(2) split: if_splits)
    with e(1,4) e(3) [OF y] q u edit(1,2) show ?thesis by (auto simp: blk_ready_def blk_inv_def edit_post_def)
  next
    case (dirty l)
    obtain b where b: "ext4_buf_lookup (bd_bc bd) l = Some b" "buf_refctr b \<noteq> 0" using held_lookup [OF dirty(3)] by blast
    have u: "BC_UPTODATE \<in> buf_flags b" using h b by (auto simp: held_uptodate_def)
    note e = dirty_ok [OF c b]
    have v: "blk_view content bd l = buf_data b" using b u by (simp add: blk_view_def)
    have "held_uptodate (ext4_trans_set_block_dirty l bd)"
      using h u by (auto simp: held_uptodate_def e(2) split: if_splits)
    with e(1,4) e(3) [OF y] q v dirty(1,2) show ?thesis by (auto simp: blk_ready_def blk_inv_def edit_post_def)
  next
    case (set l)
    have lp: "l \<notin> P" using p set(1) by simp
    from set_ok [OF c q set(4,3)] y lp set(2) have sp: "set_post content l bd bd'" by (auto simp: synced_def)
    have u: "BC_UPTODATE \<in> buf_flags x" if "ext4_buf_lookup (bd_bc bd') l = Some x" for x
      using sp that held_lookup [OF set(4)] h unfolding set_post_def held_uptodate_def by blast
    have "held_uptodate bd'"
      by (rule held_uptodate_frame [OF h, of l]) (use sp u in \<open>auto simp: set_post_def\<close>)
    with sp y set(1) show ?thesis by (auto simp: blk_ready_def blk_inv_def set_post_def view_kept_def)
  next
    case flush
    from cache_flush_ok [OF c] flush(2) have fp: "flush_post content bd bd'" by auto
    have "held_uptodate bd'" unfolding held_uptodate_def
    proof (intro allI impI, elim conjE)
      fix l b
      assume b: "ext4_buf_lookup (bd_bc bd') l = Some b" "buf_refctr b \<noteq> 0"
      have "blk_refs bd l = blk_refs bd' l" using fp by (simp add: flush_post_def)
      also have "\<dots> \<noteq> 0" using b by (simp add: blk_refs_def word_unat_eq_iff)
      finally have "blk_refs bd l \<noteq> 0" .
      then obtain c where "ext4_buf_lookup (bd_bc bd) l = Some c" "buf_refctr c \<noteq> 0" using held_lookup by blast
      with h have "ext4_buf_lookup (bd_bc bd) l = Some c" "BC_UPTODATE \<in> buf_flags c" by (auto simp: held_uptodate_def)
      moreover have "map_option (\<lambda>b. (buf_data b, BC_UPTODATE \<in> buf_flags b)) (ext4_buf_lookup (bd_bc bd') l) =
          map_option (\<lambda>b. (buf_data b, BC_UPTODATE \<in> buf_flags b)) (ext4_buf_lookup (bd_bc bd) l)"
        using fp by (simp add: flush_post_def)
      ultimately show "BC_UPTODATE \<in> buf_flags b" using b(1) by simp
    qed
    with fp q y flush(1) show ?thesis by (auto simp: blk_ready_def blk_inv_def flush_post_def view_kept_def)
  qed
  then show "blk_ready content (pend_step a P) bd'" and "bd_frame bd bd'"
    and "l < bd_lg_bcnt bd \<Longrightarrow> blk_view content bd' l = arr_step a (blk_view content bd) l"
    and "blk_refs bd' l = refs_step a (blk_refs bd) l" by blast+
qed

lemma run_refines:
  assumes "blk_run io P bd acts bd'" and "blk_ready content P bd"
  shows "blk_ready content (fold pend_step acts P) bd' \<and> bd_frame bd bd' \<and>
    (\<forall>l < bd_lg_bcnt bd. blk_view content bd' l = fold arr_step acts (blk_view content bd) l) \<and>
    (\<forall>l. blk_refs bd' l = fold refs_step acts (blk_refs bd) l)"
  using assms
proof (induction rule: blk_run.induct)
  case (more bd a bd1 P acts bd2)
  note s = step_refines [OF more.hyps(1) more.prems more.hyps(2)]
  have arr: "fold arr_step acts m l = fold arr_step acts m' l"
    if "\<And>l. l < bd_lg_bcnt bd \<Longrightarrow> m l = m' l" "l < bd_lg_bcnt bd" for acts m m' l
    using that
  proof (induction acts arbitrary: m m')
    case (Cons a acts)
    show ?case unfolding fold_Cons comp_apply
      by (rule Cons.IH [OF _ Cons.prems(2)]) (use Cons.prems(1) in \<open>cases a; simp\<close>)
  qed simp
  have "blk_refs bd1 = refs_step a (blk_refs bd)" using s(4) by (simp add: fun_eq_iff)
  with more.IH [OF s(1)] s(2,3) arr [of "blk_view content bd1" "arr_step a (blk_view content bd)"] show ?case
    by (auto simp: bd_frame_def)
qed simp

end

text \<open>No call is stuck: what the client may ask for, it gets.\<close>

fun blk_enabled :: "'d ext4_blockdev \<Rightarrow> blk_action \<Rightarrow> bool" where
  "blk_enabled bd (BGet l) \<longleftrightarrow> l < bd_lg_bcnt bd \<and> cache_room bd l"
| "blk_enabled bd (BEdit l data) \<longleftrightarrow> blk_refs bd l \<noteq> 0 \<and> length data = unat (bd_lg_bsize bd)"
| "blk_enabled bd (BDirty l) \<longleftrightarrow> blk_refs bd l \<noteq> 0"
| "blk_enabled bd (BSet l) \<longleftrightarrow> l \<noteq> 0 \<and> blk_refs bd l \<noteq> 0"
| "blk_enabled bd BFlush \<longleftrightarrow> True"

context block_device begin

lemma step_enabled:
  assumes r: "blk_ready content P bd" and e: "blk_enabled bd a" and p: "pend_ok a P"
  shows "\<exists>bd'. blk_step io bd a bd'"
proof -
  note c = blk_readyD(1) [OF r] and q = blk_readyD(2) [OF r] and y = blk_readyD(3) [OF r]
  show ?thesis
  proof (cases a)
    case (BGet l)
    with e get_ok [OF c, of l] show ?thesis by (auto intro: blk_step.get)
  next
    case (BEdit l data)
    with e show ?thesis by (auto intro: blk_step.edit)
  next
    case (BDirty l)
    with e show ?thesis by (auto intro: blk_step.dirty)
  next
    case (BSet l)
    with p y have "\<And>b. ext4_buf_lookup (bd_bc bd) l = Some b \<Longrightarrow> BC_UPTODATE \<in> buf_flags b \<Longrightarrow>
      BC_DIRTY \<notin> buf_flags b \<Longrightarrow> buf_data b = blk_disk content bd l" by (auto simp: synced_def)
    with BSet e set_ok [OF c q, of l] show ?thesis by (auto intro: blk_step.set)
  next
    case BFlush
    with cache_flush_ok [OF c] show ?thesis by (auto intro: blk_step.flush)
  qed
qed

end

section \<open>Properties\<close>

text \<open>
  C2: the block cache implements an array of blocks. For every history of calls on the image file (get a
  block, overwrite the bytes of a held block, mark it dirty, release it unless an edit of it is not
  marked, flush), from a coherent state, with evictions wherever the cache is full: each block reads as in a
  plain array that only the edits change, the holder counts are those of the gets and releases, and the
  state is coherent again.
\<close>

theorem cache_refines_array:
  assumes "blk_ready hf_content P bd" and "blk_run file_dev_iface P bd acts bd'"
  shows "blk_ready hf_content (fold pend_step acts P) bd' \<and>
    (\<forall>l < bd_lg_bcnt bd. blk_view hf_content bd' l = fold arr_step acts (blk_view hf_content bd) l) \<and>
    (\<forall>l. blk_refs bd' l = fold refs_step acts (blk_refs bd) l)"
  using file_dev.run_refines [OF assms(2,1)] by blast

text \<open>
  C18: no block operation is stuck. In a coherent state every enabled call returns successfully: a get of an
  existing block while counters have room, the release of a held block (other than block 0), a flush; the
  eviction and flush loops inside them end.
\<close>

theorem block_ops_progress:
  assumes "blk_ready hf_content P bd" and "blk_enabled bd a" and "pend_ok a P"
  shows "\<exists>bd'. blk_step file_dev_iface bd a bd' \<and> blk_ready hf_content (pend_step a P) bd'"
  using file_dev.step_enabled [OF assms] file_dev.step_refines(1) [OF _ assms(1,3)] by blast

text \<open>
  C14: \<open>ext4_block_get\<close> returns the block. In a coherent state with room, it succeeds, the buffer of the
  handle is up to date and holds exactly the block's bytes (cached or read from the image), the
  block has one holder more, and no other block changes or loses a held buffer.
\<close>

theorem block_get_exact:
  assumes "blk_ready hf_content P bd" and "l < bd_lg_bcnt bd" and "cache_room bd l"
  shows "\<exists>bd' b. ext4_block_get file_dev_iface l bd = (Inr \<lparr> b_lb_id = l, b_buf = Some l \<rparr>, bd') \<and>
    ext4_buf_lookup (bd_bc bd') l = Some b \<and> BC_UPTODATE \<in> buf_flags b \<and>
    buf_data b = blk_view hf_content bd l \<and> blk_refs bd' l = blk_refs bd l + 1 \<and>
    (\<forall>l' < bd_lg_bcnt bd. blk_view hf_content bd' l' = blk_view hf_content bd l') \<and>
    (\<forall>l' b. l' \<noteq> l \<and> ext4_buf_lookup (bd_bc bd) l' = Some b \<and> buf_refctr b \<noteq> 0 \<longrightarrow>
       ext4_buf_lookup (bd_bc bd') l' = Some b)"
proof -
  have "cache_coh hf_content bd" using assms(1) by (rule blk_readyD)
  from file_dev.get_ok [OF this assms(2,3)] obtain bd' b where
    1: "ext4_block_get file_dev_iface l bd = (Inr \<lparr> b_lb_id = l, b_buf = Some l \<rparr>, bd')"
      "get_post hf_content l bd bd'" "ext4_buf_lookup (bd_bc bd') l = Some b" "BC_UPTODATE \<in> buf_flags b"
      "buf_data b = blk_view hf_content bd l" by blast
  then show ?thesis
    by (intro exI [of _ bd'] exI [of _ b]) (simp add: get_post_def view_kept_def)
qed

text \<open>
  C11: a flush is durable. \<open>ext4_block_cache_flush\<close> succeeds, empties the dirty list, changes no block
  as seen through the cache, and afterwards the image file itself holds every block that nobody holds.
\<close>

theorem cache_flush_durable:
  assumes "blk_ready hf_content P bd"
  shows "\<exists>bd'. ext4_block_cache_flush file_dev_iface bd = (Inr (), bd') \<and> bc_dirty_list (bd_bc bd') = [] \<and>
    (\<forall>l < bd_lg_bcnt bd. blk_view hf_content bd' l = blk_view hf_content bd l) \<and>
    (\<forall>l < bd_lg_bcnt bd. blk_refs bd l = 0 \<longrightarrow> blk_disk hf_content bd' l = blk_view hf_content bd l)"
proof -
  have c: "cache_coh hf_content bd" and q: "dirty_queued {} bd" using blk_readyD [OF assms] by simp_all
  from file_dev.cache_flush_ok [OF c] obtain bd' where
    1: "ext4_block_cache_flush file_dev_iface bd = (Inr (), bd')" "flush_post hf_content bd bd'"
      "bc_dirty_list (bd_bc bd') = []" by blast
  have "cache_coh hf_content bd'" "dirty_queued {} bd'"
    using 1(2) q by (simp_all add: flush_post_def view_kept_def)
  from flushed_on_disk [OF this 1(3)] 1 show ?thesis
    by (intro exI [of _ bd']) (simp add: flush_post_def view_kept_def)
qed

text \<open>
  C21: eviction ends, spares every held buffer and loses nothing. \<open>ext4_block_cache_shake\<close> returns
  successfully; unless it was entered from within itself, afterwards the cache has a free
  slot or every buffer is held; held buffers are exactly as before and every block reads as before.
\<close>

theorem cache_shake_safe:
  assumes "blk_ready hf_content P bd"
  shows "\<exists>bd'. ext4_block_cache_shake file_dev_iface bd = (Inr (), bd') \<and>
    (bc_dont_shake (bd_bc bd) \<or> \<not> ext4_bcache_is_full (bd_bc bd') \<or> bc_lru_root (bd_bc bd') = []) \<and>
    (\<forall>l b. ext4_buf_lookup (bd_bc bd) l = Some b \<and> buf_refctr b \<noteq> 0 \<longrightarrow>
       ext4_buf_lookup (bd_bc bd') l = Some b) \<and>
    (\<forall>l < bd_lg_bcnt bd. blk_view hf_content bd' l = blk_view hf_content bd l)"
proof -
  have c: "cache_coh hf_content bd" using assms by (rule blk_readyD)
  from file_dev.cache_shake_ok [OF c] show ?thesis unfolding shake_post_def view_kept_def by blast
qed

text \<open>
  a range invalidation starts at a cached block or does nothing. \<open>ext4_bcache_invalidate_lba\<close> leaves the
  cache as it is when the first block of the range is not cached, whatever else of the range is.
\<close>

theorem invalidate_lba_needs_first:
  assumes "ext4_buf_lookup bc from = None"
  shows "ext4_bcache_invalidate_lba from cnt bc = bc"
  using assms by (simp add: ext4_bcache_invalidate_lba_def)

text \<open>
  C40: a failed write on release is not reported. When the last holder releases a dirty buffer in write-through
  mode and the driver rejects the write, \<open>ext4_block_set\<close> returns success, and the buffer stays dirty without being
  queued: where nothing else is queued, the flush that comes next returns success too and writes nothing. Only a
  later release, an eviction or a flush of this very block would write it again.
\<close>

theorem release_loses_write_error:
  assumes "bd_ph_refctr bd \<noteq> 0" and "l \<noteq> 0" and "bd_cache_write_back bd = 0"
    and "ext4_buf_lookup (bd_bc bd) l = Some b" and "buf_refctr b = 1"
    and "{BC_DIRTY, BC_UPTODATE} \<subseteq> buf_flags b" and "BC_TMP \<notin> buf_flags b"
    and "\<not> buf_on_dirty_list b" and "buf_end_write b = None"
    and "\<And>bd1. bd_dev bd1 = bd_dev bd \<Longrightarrow> ext4_blocks_set_direct io (buf_data b) l 1 bd1 =
      (Inl e, bd1\<lparr> bd_bwrite_ctr := bd_bwrite_ctr bd1 + 1 \<rparr>)"
    and "\<not> fatal e"
  shows "\<exists>bd' b'. ext4_block_set io \<lparr> b_lb_id = l, b_buf = Some l \<rparr> bd = (Inr (), bd') \<and>
    ext4_buf_lookup (bd_bc bd') l = Some b' \<and> BC_DIRTY \<in> buf_flags b' \<and> \<not> buf_on_dirty_list b' \<and>
    bc_dirty_list (bd_bc bd') = bc_dirty_list (bd_bc bd) \<and> bd_dev bd' = bd_dev bd \<and>
    (bc_dirty_list (bd_bc bd) = [] \<longrightarrow> ext4_block_cache_flush io bd' = (Inr (), bd'))"
proof -
  let ?b = "b\<lparr> buf_refctr := 0, buf_flags := buf_flags b - {BC_FLUSH} \<rparr>"
  let ?bd1 = "bc_apply (lru_insert (ext4_bcache_dec_ref b)) (bc_apply (buf_update l ext4_bcache_dec_ref) bd)"
  let ?bd1' = "?bd1\<lparr> bd_bwrite_ctr := bd_bwrite_ctr bd + 1 \<rparr>"
  let ?bd2 = "bc_apply (buf_update l (ext4_bcache_clear_flag BC_FLUSH)) ?bd1'"
  have lb: "buf_lba b = l" by (rule lookup_lba [OF assms(4)])
  have li: "ext4_buf_lookup (lru_insert x bc) = ext4_buf_lookup bc" for x bc
    by (rule lookup_cong) (simp add: lru_insert_def)
  have l1: "ext4_buf_lookup (bd_bc ?bd1) l = Some (b\<lparr> buf_refctr := 0 \<rparr>)"
    using assms(4,5) by (simp add: li ext4_bcache_dec_ref_def)
  have l2: "ext4_buf_lookup (bd_bc ?bd2) l = Some ?b"
    using l1 by (simp add: ext4_bcache_clear_flag_def)
  have ew: "end_write (b\<lparr> buf_refctr := 0 \<rparr>) r = (\<lambda>bc. bc)" for r
    using assms(9) by (simp add: fun_eq_iff end_write_def)
  have "ext4_blocks_set_direct io (buf_data b) l 1 ?bd1 = (Inl e, ?bd1')"
    using assms(10) [of ?bd1] by (simp add: bc_apply_def)
  then have "ext4_block_flush_buf io l ?bd1 = (Inl e, bc_apply (\<lambda>bc. bc) ?bd1')"
    using assms(6) l1 lb by (simp add: ext4_block_flush_buf_def ext4_bcache_test_flag_def ew)
  then have "bcache_release_dirty io l ?bd1 = (Inr (), ?bd2)"
    using assms(3,6,7,11) l1 by (simp add: bcache_release_dirty_def ext4_bcache_test_flag_def) (simp add: bc_apply_def)
  then have "ext4_block_set io \<lparr> b_lb_id = l, b_buf = Some l \<rparr> bd = (Inr (), ?bd2)"
    using assms(1,2,4-7) l2
    by (simp add: ext4_block_set_def ext4_bcache_free_def Let_def ext4_bcache_test_flag_def)
       (simp add: ext4_bcache_dec_ref_def)
  moreover have q: "bc_dirty_list (bd_bc ?bd2) = bc_dirty_list (bd_bc bd)" by (simp add: lru_insert_def)
  then have "bc_dirty_list (bd_bc bd) = [] \<longrightarrow> ext4_block_cache_flush io ?bd2 = (Inr (), ?bd2)"
    by (simp add: ext4_block_cache_flush_def cache_flush_loop.simps)
  ultimately show ?thesis
    using l2 assms(6,8) q by (intro exI [of _ ?bd2] exI [of _ ?b]) auto
qed

section \<open>Witnesses\<close>

definition tiny_wb :: "u8 list \<Rightarrow> hostfile ext4_blockdev" where
  "tiny_wb img = (tiny_dev img)\<lparr> bd_cache_write_back := 1 \<rparr>"

lemma tiny_blk_ready: "length img = 8 \<Longrightarrow> blk_ready hf_content {} (tiny_wb img)"
proof -
  assume n: "length img = 8"
  have "bc_wf tiny_cache" by (simp add: bc_wf_def tiny_cache_def ext4_buf_lookup_def)
  moreover have "mem_ok tiny_cache" by (simp add: mem_ok_def tiny_cache_def)
  moreover have "dev_geom (tiny_dev img) 8" using tiny_ready [OF n] n by (simp add: file_ready_def tiny_content)
  then have "dev_geom (tiny_wb img) 8" by (simp add: dev_geom_def tiny_wb_def)
  ultimately show ?thesis using n
    by (simp add: blk_ready_def blk_inv_def held_uptodate_def synced_def cache_coh_def dirty_queued_def tiny_wb_def tiny_dev_def hf_content_def
          cache_geom_def ext4_buf_lookup_def tiny_cache_def)
qed

lemma tiny_facts:
  "cache_room (tiny_wb img) l" "blk_refs (tiny_wb img) l = 0" "bd_lg_bcnt (tiny_wb img) = 2"
  "bd_lg_bsize (tiny_wb img) = 4" "bc_dont_shake (bd_bc (tiny_wb img)) = False"
  "blk_view hf_content (tiny_wb [1, 2, 3, 4, 5, 6, 7, 8]) 0 = [1, 2, 3, 4]"
  "blk_view hf_content (tiny_wb [1, 2, 3, 4, 5, 6, 7, 8]) 1 = [5, 6, 7, 8]"
  by (simp_all add: word_less_nat_alt unat_max32 cache_room_def blk_refs_def tiny_wb_def tiny_dev_def tiny_cache_def ext4_buf_lookup_def
        blk_view_def blk_disk_def blk_pos_def hf_content_def slice_def)

lemma tiny_run:
  assumes r: "blk_ready hf_content {} (tiny_wb img)"
  shows "\<exists>bd. blk_run file_dev_iface {} (tiny_wb img) [BGet 1, BEdit 1 [9, 9, 9, 9], BDirty 1, BSet 1] bd"
proof -
  have "blk_enabled (tiny_wb img) (BGet 1)" by (simp add: tiny_facts)
  from file_dev.step_enabled [OF r this] obtain bd1 where 1: "blk_step file_dev_iface (tiny_wb img) (BGet 1) bd1" by auto
  note s1 = file_dev.step_refines [OF 1 r, simplified]
  have r1: "blk_refs bd1 1 = 1" by (simp add: s1(4) tiny_facts)
  then have "blk_enabled bd1 (BEdit 1 [9, 9, 9, 9])" using s1(2) by (simp add: bd_frame_def tiny_facts)
  from file_dev.step_enabled [OF s1(1) this] obtain bd2 where
    2: "blk_step file_dev_iface bd1 (BEdit 1 [9, 9, 9, 9]) bd2" by auto
  note s2 = file_dev.step_refines [OF 2 s1(1), simplified]
  have r2: "blk_refs bd2 1 = 1" using r1 by (simp add: s2(4))
  then have "blk_enabled bd2 (BDirty 1)" by simp
  from file_dev.step_enabled [OF s2(1) this] obtain bd3 where 3: "blk_step file_dev_iface bd2 (BDirty 1) bd3" by auto
  note s3 = file_dev.step_refines [OF 3 s2(1), simplified]
  have "blk_enabled bd3 (BSet 1)" using r2 by (simp add: s3(4))
  from file_dev.step_enabled [OF s3(1) this] obtain bd4 where 4: "blk_step file_dev_iface bd3 (BSet 1) bd4" by auto
  have "blk_run file_dev_iface {} bd3 [BSet 1] bd4" by (rule blk_run.more [OF 4 _ blk_run.nil]) simp
  then have "blk_run file_dev_iface {1} bd2 [BDirty 1, BSet 1] bd4" by (intro blk_run.more [OF 3]) simp_all
  then have "blk_run file_dev_iface {} bd1 [BEdit 1 [9, 9, 9, 9], BDirty 1, BSet 1] bd4"
    by (intro blk_run.more [OF 2]) simp_all
  then have "blk_run file_dev_iface {} (tiny_wb img) [BGet 1, BEdit 1 [9, 9, 9, 9], BDirty 1, BSet 1] bd4"
    by (intro blk_run.more [OF 1]) simp_all
  then show ?thesis ..
qed

theorem cache_refines_array_witness:
  "\<exists>bd'. blk_run file_dev_iface {} (tiny_wb [1, 2, 3, 4, 5, 6, 7, 8]) [BGet 1, BEdit 1 [9, 9, 9, 9], BDirty 1, BSet 1] bd' \<and>
     blk_view hf_content bd' 0 = [1, 2, 3, 4] \<and> blk_view hf_content bd' 1 = [9, 9, 9, 9]"
proof -
  have r: "blk_ready hf_content {} (tiny_wb [1, 2, 3, 4, 5, 6, 7, 8])" by (simp add: tiny_blk_ready)
  obtain bd' where b: "blk_run file_dev_iface {} (tiny_wb [1, 2, 3, 4, 5, 6, 7, 8])
      [BGet 1, BEdit 1 [9, 9, 9, 9], BDirty 1, BSet 1] bd'" using tiny_run [OF r] ..
  from cache_refines_array [OF r b] b show ?thesis by (intro exI [of _ bd']) (simp add: tiny_facts)
qed

theorem block_ops_progress_witness:
  "\<exists>bd'. blk_step file_dev_iface (tiny_wb [1, 2, 3, 4, 5, 6, 7, 8]) (BGet 1) bd'"
  using block_ops_progress [of "{}" "tiny_wb [1, 2, 3, 4, 5, 6, 7, 8]" "BGet 1"] by (auto simp: tiny_blk_ready tiny_facts)

theorem block_get_exact_witness:
  "\<exists>bd' b. ext4_block_get file_dev_iface 1 (tiny_wb [1, 2, 3, 4, 5, 6, 7, 8]) =
     (Inr \<lparr> b_lb_id = 1, b_buf = Some 1 \<rparr>, bd') \<and> ext4_buf_lookup (bd_bc bd') 1 = Some b \<and> buf_data b = [5, 6, 7, 8]"
  using block_get_exact [of "{}" "tiny_wb [1, 2, 3, 4, 5, 6, 7, 8]" 1] by (auto simp: tiny_blk_ready tiny_facts)

theorem cache_flush_durable_witness:
  "\<exists>bd bd'. blk_run file_dev_iface {} (tiny_wb [1, 2, 3, 4, 5, 6, 7, 8]) [BGet 1, BEdit 1 [9, 9, 9, 9], BDirty 1, BSet 1] bd \<and>
     ext4_block_cache_flush file_dev_iface bd = (Inr (), bd') \<and> blk_disk hf_content bd' 1 = [9, 9, 9, 9]"
proof -
  have r: "blk_ready hf_content {} (tiny_wb [1, 2, 3, 4, 5, 6, 7, 8])" by (simp add: tiny_blk_ready)
  obtain bd where b: "blk_run file_dev_iface {} (tiny_wb [1, 2, 3, 4, 5, 6, 7, 8])
      [BGet 1, BEdit 1 [9, 9, 9, 9], BDirty 1, BSet 1] bd" using tiny_run [OF r] ..
  note s = file_dev.run_refines [OF b r]
  have "bd_lg_bcnt bd = 2" using s by (simp add: bd_frame_def tiny_facts)
  with cache_flush_durable [of _ bd] b s show ?thesis by (fastforce simp: tiny_facts)
qed

theorem cache_shake_safe_witness:
  "\<exists>bd'. ext4_block_cache_shake file_dev_iface (tiny_wb [1, 2, 3, 4, 5, 6, 7, 8]) = (Inr (), bd') \<and>
     blk_view hf_content bd' 1 = [5, 6, 7, 8]"
  using cache_shake_safe [of "{}" "tiny_wb [1, 2, 3, 4, 5, 6, 7, 8]"] by (auto simp: tiny_blk_ready tiny_facts)

text \<open>A cache with one dirty buffer at block 6, on a device whose file was closed.\<close>

definition dirty_buf6 :: ext4_buf where
  "dirty_buf6 = \<lparr> buf_flags = {BC_DIRTY, BC_UPTODATE}, buf_lba = 6, buf_data = [7, 7, 7, 7], buf_lru_id = 1,
     buf_refctr = 1, buf_read_refctr = 0, buf_on_dirty_list = False, buf_end_write = None \<rparr>"

definition closed_dev6 :: "hostfile ext4_blockdev" where
  "closed_dev6 = (tiny_dev [1, 2, 3, 4, 5, 6, 7, 8])
     \<lparr> bd_dev := \<lparr> hf_image = Some [1, 2, 3, 4, 5, 6, 7, 8], hf_open = False, hf_pos = 0, hf_limit = 0 \<rparr>,
       bd_bc := tiny_cache\<lparr> bc_lru_ctr := 1, bc_ref_blocks := 1, bc_lba_root := [dirty_buf6] \<rparr> \<rparr>"

lemma closed_lookup:
  "ext4_buf_lookup (bd_bc closed_dev6) 6 = Some dirty_buf6" "ext4_buf_lookup (bd_bc closed_dev6) 5 = None"
  by (simp_all add: closed_dev6_def ext4_buf_lookup_def dirty_buf6_def)

theorem invalidate_lba_needs_first_witness:
  "ext4_bcache_invalidate_lba 5 2 (bd_bc closed_dev6) = bd_bc closed_dev6 \<and>
   ext4_buf_lookup (bd_bc closed_dev6) 6 = Some dirty_buf6"
  using invalidate_lba_needs_first [OF closed_lookup(2)] closed_lookup(1) by simp

theorem release_loses_write_error_witness:
  "\<exists>bd' b'. ext4_block_set file_dev_iface \<lparr> b_lb_id = 6, b_buf = Some 6 \<rparr> closed_dev6 = (Inr (), bd') \<and>
     ext4_buf_lookup (bd_bc bd') 6 = Some b' \<and> BC_DIRTY \<in> buf_flags b' \<and> bc_dirty_list (bd_bc bd') = [] \<and>
     ext4_block_cache_flush file_dev_iface bd' = (Inr (), bd')"
proof -
  have "ext4_blocks_set_direct file_dev_iface data l 1 bd1 =
      (Inl (EDEV (errno_code EIO)), bd1\<lparr> bd_bwrite_ctr := bd_bwrite_ctr bd1 + 1 \<rparr>)"
    if "bd_dev bd1 = bd_dev closed_dev6" for data l bd1
    using that by (simp add: ext4_blocks_set_direct_def ext4_bdif_bwrite_def ext4_bdif_lock_def ext4_bdif_unlock_def
        bdif_call_lock_def file_dev_iface_def file_dev_bwrite_def fseeko_set_def closed_dev6_def rc_res_def)
  from release_loses_write_error [OF _ _ _ closed_lookup(1) _ _ _ _ _ this] show ?thesis
    by (simp add: dirty_buf6_def closed_dev6_def tiny_dev_def tiny_cache_def fatal_def) blast
qed

end
