(* ===== verification/Bitmap.thy ===== *)
theory Bitmap
  imports Prelude
begin

text \<open>
  The bitmap routines of \<^verbatim>\<open>include/ext4_bitmap.h\<close> and \<^verbatim>\<open>src/ext4_bitmap.c\<close>: single-bit
  set, clear and test, \<open>ext4_bmap_bits_free\<close> (clear a range) and \<open>ext4_bmap_bit_find_clr\<close> (search
  for a clear bit), on a byte buffer addressed by a pointer offset. The build option
  \<^verbatim>\<open>CONFIG_UNALIGNED_ACCESS\<close>, which adds 32-bit and 16-bit wide inner loops, is the
  boolean argument \<open>ua\<close>. The lemmas relate both routines to the bit-level view \<open>bmap_bit\<close>.
\<close>

section \<open>Single bits\<close>

text \<open>
  \<open>(bm, p)\<close> is the C pointer \<^verbatim>\<open>bmap\<close>: a buffer and an offset in it, since the loops below advance
  the pointer.
\<close>

definition bmap_bit_set_at :: "u8 list \<Rightarrow> nat \<Rightarrow> u32 \<Rightarrow> u8 list res" where
  "bmap_bit_set_at bm p b =
     (case rd8 bm (p + unat (drop_bit 3 b)) of
        Inl e \<Rightarrow> Inl e
      | Inr v \<Rightarrow> wr8 bm (p + unat (drop_bit 3 b)) (v OR push_bit (unat (b AND 7)) 1))"

definition bmap_bit_clr_at :: "u8 list \<Rightarrow> nat \<Rightarrow> u32 \<Rightarrow> u8 list res" where
  "bmap_bit_clr_at bm p b =
     (case rd8 bm (p + unat (drop_bit 3 b)) of
        Inl e \<Rightarrow> Inl e
      | Inr v \<Rightarrow> wr8 bm (p + unat (drop_bit 3 b)) (v AND NOT (push_bit (unat (b AND 7)) 1)))"

definition bmap_is_bit_set_at :: "u8 list \<Rightarrow> nat \<Rightarrow> u32 \<Rightarrow> bool res" where
  "bmap_is_bit_set_at bm p b =
     (case rd8 bm (p + unat (drop_bit 3 b)) of
        Inl e \<Rightarrow> Inl e
      | Inr v \<Rightarrow> Inr (v AND push_bit (unat (b AND 7)) 1 \<noteq> 0))"

definition bmap_is_bit_clr_at :: "u8 list \<Rightarrow> nat \<Rightarrow> u32 \<Rightarrow> bool res" where
  "bmap_is_bit_clr_at bm p b =
     (case bmap_is_bit_set_at bm p b of Inl e \<Rightarrow> Inl e | Inr v \<Rightarrow> Inr (\<not> v))"

definition ext4_bmap_bit_set :: "u8 list \<Rightarrow> u32 \<Rightarrow> u8 list res" where
  "ext4_bmap_bit_set bm b = bmap_bit_set_at bm 0 b"

definition ext4_bmap_bit_clr :: "u8 list \<Rightarrow> u32 \<Rightarrow> u8 list res" where
  "ext4_bmap_bit_clr bm b = bmap_bit_clr_at bm 0 b"

definition ext4_bmap_is_bit_set :: "u8 list \<Rightarrow> u32 \<Rightarrow> bool res" where
  "ext4_bmap_is_bit_set bm b = bmap_is_bit_set_at bm 0 b"

definition ext4_bmap_is_bit_clr :: "u8 list \<Rightarrow> u32 \<Rightarrow> bool res" where
  "ext4_bmap_is_bit_clr bm b = bmap_is_bit_clr_at bm 0 b"

section \<open>Clearing a range of bits\<close>

text \<open>The first loop: bit by bit up to a byte boundary; \<open>Inl\<close> is the early return.\<close>

function bits_free_head ::
    "u8 list \<Rightarrow> u32 \<Rightarrow> u32 \<Rightarrow> (u8 list + u8 list \<times> u32 \<times> u32) res" where
  "bits_free_head bm i bcnt =
     (if i AND 7 = 0 then Inr (Inr (bm, i, bcnt))
      else if bcnt = 0 then Inr (Inl bm)
      else (case ext4_bmap_bit_clr bm i of
              Inl e \<Rightarrow> Inl e
            | Inr bm' \<Rightarrow> bits_free_head bm' (i + 1) (bcnt - 1)))"
  by pat_completeness auto
termination
  by (relation "measure (\<lambda>(bm, i, bcnt). unat bcnt)") (auto simp: unat_dec_less)

text \<open>
  The middle loops clear \<open>w\<close> bytes at a time while at least \<open>8 * w\<close> bits are left: \<open>w = 4\<close> and
  \<open>w = 2\<close> under \<^verbatim>\<open>CONFIG_UNALIGNED_ACCESS\<close>, then \<open>w = 1\<close>.
\<close>

function bits_free_chunks ::
    "nat \<Rightarrow> u8 list \<Rightarrow> nat \<Rightarrow> u32 \<Rightarrow> (u8 list \<times> nat \<times> u32) res" where
  "bits_free_chunks w bm p bcnt =
     (if 0 < w \<and> 8 * w \<le> unat bcnt \<and> 8 * w < 2 ^ 32
      then (case wr_range bm p (replicate w 0) of
              Inl e \<Rightarrow> Inl e
            | Inr bm' \<Rightarrow> bits_free_chunks w bm' (p + w) (bcnt - of_nat (8 * w)))
      else Inr (bm, p, bcnt))"
  by pat_completeness auto
termination
proof (relation "measure (\<lambda>(w, bm, p, bcnt). unat bcnt)", goal_cases)
  case 1
  then show ?case by simp
next
  case (2 w bm p bcnt bm')
  then have "unat (of_nat (8 * w) :: u32) = 8 * w"
    by (simp add: unat_of_nat del: of_nat_mult)
  with 2 show ?case by (simp add: unat_minus_le del: of_nat_mult)
qed

text \<open>The last loop: the remaining bits, \<open>i\<close> counting from 0 at the advanced pointer.\<close>

function bits_free_tail :: "u8 list \<Rightarrow> nat \<Rightarrow> u32 \<Rightarrow> u32 \<Rightarrow> u8 list res" where
  "bits_free_tail bm p i bcnt =
     (if i < bcnt
      then (case bmap_bit_clr_at bm p i of
              Inl e \<Rightarrow> Inl e
            | Inr bm' \<Rightarrow> bits_free_tail bm' p (i + 1) bcnt)
      else Inr bm)"
  by pat_completeness auto
termination
proof (relation "measure (\<lambda>(bm, p, i, bcnt). unat bcnt - unat i)", goal_cases)
  case 1
  then show ?case by simp
next
  case (2 bm p i bcnt bm')
  then have "unat i < unat bcnt" by (simp add: word_less_nat_alt)
  moreover have "unat bcnt < 2 ^ 32" using unsigned_less [of bcnt] by simp
  ultimately have "unat (i + 1) = unat i + 1" by (intro unat_inc) simp
  with \<open>unat i < unat bcnt\<close> show ?case by simp
qed

definition bits_free_wide :: "bool \<Rightarrow> u8 list \<Rightarrow> nat \<Rightarrow> u32 \<Rightarrow> (u8 list \<times> nat \<times> u32) res" where
  "bits_free_wide ua bm p bcnt =
     (if ua
      then (case bits_free_chunks 4 bm p bcnt of
              Inl e \<Rightarrow> Inl e
            | Inr (bm', p', bcnt') \<Rightarrow> bits_free_chunks 2 bm' p' bcnt')
      else Inr (bm, p, bcnt))"

definition ext4_bmap_bits_free :: "bool \<Rightarrow> u8 list \<Rightarrow> u32 \<Rightarrow> u32 \<Rightarrow> u8 list res" where
  "ext4_bmap_bits_free ua bm sbit bcnt =
     (case bits_free_head bm sbit bcnt of
        Inl e \<Rightarrow> Inl e
      | Inr (Inl bm1) \<Rightarrow> Inr bm1
      | Inr (Inr (bm1, i, bcnt1)) \<Rightarrow>
          (case bits_free_wide ua bm1 (unat (drop_bit 3 i)) bcnt1 of
             Inl e \<Rightarrow> Inl e
           | Inr (bm2, p2, bcnt2) \<Rightarrow>
               (case bits_free_chunks 1 bm2 p2 bcnt2 of
                  Inl e \<Rightarrow> Inl e
                | Inr (bm3, p3, bcnt3) \<Rightarrow> bits_free_tail bm3 p3 0 bcnt3)))"

declare bits_free_head.simps [simp del]
declare bits_free_chunks.simps [simp del]
declare bits_free_tail.simps [simp del]

section \<open>Searching for a clear bit\<close>

text \<open>
  The head loop of \<open>ext4_bmap_bit_find_clr\<close>, bit by bit up to a byte boundary. On a hit it stores
  \<open>sbit\<close>, the start of the search, and not the index \<open>i\<close> of the bit it tested.
\<close>

function find_clr_head ::
    "u8 list \<Rightarrow> u32 \<Rightarrow> u32 \<Rightarrow> u32 \<Rightarrow> (u32 + u32 \<times> u32) res" where
  "find_clr_head bm sbit i bcnt =
     (if i AND 7 = 0 then Inr (Inr (i, bcnt))
      else if bcnt = 0 then Inl ENOSPC
      else (case ext4_bmap_is_bit_clr bm i of
              Inl e \<Rightarrow> Inl e
            | Inr c \<Rightarrow> if c then Inr (Inl sbit) else find_clr_head bm sbit (i + 1) (bcnt - 1)))"
  by pat_completeness auto
termination
  by (relation "measure (\<lambda>(bm, sbit, i, bcnt). unat bcnt)") (auto simp: unat_dec_less)

text \<open>
  The wide loops skip \<open>w\<close> bytes of ones at a time; \<open>True\<close> is the jump to \<^verbatim>\<open>finish_it\<close>
  on a word that has a clear bit.
\<close>

function find_clr_skip ::
    "nat \<Rightarrow> u8 list \<Rightarrow> nat \<Rightarrow> u32 \<Rightarrow> u32 \<Rightarrow> (bool \<times> nat \<times> u32 \<times> u32) res" where
  "find_clr_skip w bm p sbit bcnt =
     (if 0 < w \<and> 8 * w \<le> unat bcnt \<and> 8 * w < 2 ^ 32
      then (case rd_range bm p w of
              Inl e \<Rightarrow> Inl e
            | Inr bs \<Rightarrow>
                if bs \<noteq> replicate w 0xFF then Inr (True, p, sbit, bcnt)
                else find_clr_skip w bm (p + w) (sbit + of_nat (8 * w)) (bcnt - of_nat (8 * w)))
      else Inr (False, p, sbit, bcnt))"
  by pat_completeness auto
termination
proof (relation "measure (\<lambda>(w, bm, p, sbit, bcnt). unat bcnt)", goal_cases)
  case 1
  then show ?case by simp
next
  case (2 w bm p sbit bcnt)
  then have "unat (of_nat (8 * w) :: u32) = 8 * w"
    by (simp add: unat_of_nat del: of_nat_mult)
  with 2 show ?case by (simp add: unat_minus_le del: of_nat_mult)
qed

definition find_clr_wide ::
    "bool \<Rightarrow> u8 list \<Rightarrow> nat \<Rightarrow> u32 \<Rightarrow> u32 \<Rightarrow> (nat \<times> u32 \<times> u32) res" where
  "find_clr_wide ua bm p sbit bcnt =
     (if ua
      then (case find_clr_skip 4 bm p sbit bcnt of
              Inl e \<Rightarrow> Inl e
            | Inr (hit, p1, sbit1, bcnt1) \<Rightarrow>
                if hit then Inr (p1, sbit1, bcnt1)
                else (case find_clr_skip 2 bm p1 sbit1 bcnt1 of
                        Inl e \<Rightarrow> Inl e
                      | Inr (hit2, p2, sbit2, bcnt2) \<Rightarrow> Inr (p2, sbit2, bcnt2)))
      else Inr (p, sbit, bcnt))"

text \<open>\<^verbatim>\<open>for (i = ...; i < n; ++i) if (bit i is clear) ...\<close>: the first hit, if any.\<close>

function find_clr_scan :: "u8 list \<Rightarrow> nat \<Rightarrow> u32 \<Rightarrow> u32 \<Rightarrow> u32 option res" where
  "find_clr_scan bm p i n =
     (if i < n
      then (case bmap_is_bit_clr_at bm p i of
              Inl e \<Rightarrow> Inl e
            | Inr c \<Rightarrow> if c then Inr (Some i) else find_clr_scan bm p (i + 1) n)
      else Inr None)"
  by pat_completeness auto
termination
proof (relation "measure (\<lambda>(bm, p, i, n). unat n - unat i)", goal_cases)
  case 1
  then show ?case by simp
next
  case (2 bm p i n)
  then have "unat i < unat n" by (simp add: word_less_nat_alt)
  moreover have "unat n < 2 ^ 32" using unsigned_less [of n] by simp
  ultimately have "unat (i + 1) = unat i + 1" by (intro unat_inc) simp
  with \<open>unat i < unat n\<close> show ?case by simp
qed

text \<open>The byte loop and, after it, the last partial byte.\<close>

function find_clr_bytes :: "u8 list \<Rightarrow> nat \<Rightarrow> u32 \<Rightarrow> u32 \<Rightarrow> u32 res" where
  "find_clr_bytes bm p sbit bcnt =
     (if 8 \<le> unat bcnt
      then (case rd8 bm p of
              Inl e \<Rightarrow> Inl e
            | Inr v \<Rightarrow>
                (case (if v \<noteq> 0xFF then find_clr_scan bm p 0 8 else Inr None) of
                   Inl e \<Rightarrow> Inl e
                 | Inr (Some i) \<Rightarrow> Inr (sbit + i)
                 | Inr None \<Rightarrow> find_clr_bytes bm (p + 1) (sbit + 8) (bcnt - 8)))
      else (case find_clr_scan bm p 0 bcnt of
              Inl e \<Rightarrow> Inl e
            | Inr (Some i) \<Rightarrow> Inr (sbit + i)
            | Inr None \<Rightarrow> Inl ENOSPC))"
  by pat_completeness auto
termination
  by (relation "measure (\<lambda>(bm, p, sbit, bcnt). unat bcnt)") (auto simp: unat_minus_le)

definition ext4_bmap_bit_find_clr :: "bool \<Rightarrow> u8 list \<Rightarrow> u32 \<Rightarrow> u32 \<Rightarrow> u32 res" where
  "ext4_bmap_bit_find_clr ua bm sbit ebit =
     (case find_clr_head bm sbit sbit (ebit - sbit) of
        Inl e \<Rightarrow> Inl e
      | Inr (Inl b) \<Rightarrow> Inr b
      | Inr (Inr (i, bcnt)) \<Rightarrow>
          (case find_clr_wide ua bm (unat (drop_bit 3 i)) i bcnt of
             Inl e \<Rightarrow> Inl e
           | Inr (p, sbit', bcnt') \<Rightarrow> find_clr_bytes bm p sbit' bcnt'))"

declare find_clr_head.simps [simp del]
declare find_clr_skip.simps [simp del]
declare find_clr_scan.simps [simp del]
declare find_clr_bytes.simps [simp del]

section \<open>The bit-level view\<close>

text \<open>Bit \<open>i\<close> of a bitmap: bit \<open>i mod 8\<close> of byte \<open>i div 8\<close>.\<close>

definition bmap_bit :: "u8 list \<Rightarrow> nat \<Rightarrow> bool" where
  "bmap_bit bm i = bit (bm ! (i div 8)) (i mod 8)"

definition bmap_set :: "u8 list \<Rightarrow> nat \<Rightarrow> u8 list" where
  "bmap_set bm i = bm[i div 8 := bm ! (i div 8) OR push_bit (i mod 8) 1]"

definition bmap_clr :: "u8 list \<Rightarrow> nat \<Rightarrow> u8 list" where
  "bmap_clr bm i = bm[i div 8 := bm ! (i div 8) AND NOT (push_bit (i mod 8) 1)]"

lemma length_bmap_set [bmap_simps, simp]: "length (bmap_set bm i) = length bm"
  by (simp add: bmap_set_def)

lemma length_bmap_clr [bmap_simps, simp]: "length (bmap_clr bm i) = length bm"
  by (simp add: bmap_clr_def)

lemma div_mod_8_eq_iff: "i div 8 = j div 8 \<and> i mod 8 = j mod 8 \<longleftrightarrow> i = (j :: nat)"
  by (metis div_mult_mod_eq)

lemma bmap_bit_set [bmap_simps]:
  assumes "i < 8 * length bm"
  shows "bmap_bit (bmap_set bm i) j = (bmap_bit bm j \<or> j = i)"
proof -
  have "i div 8 < length bm" using assms by simp
  moreover have "j mod 8 < 8" by simp
  ultimately show ?thesis
    using div_mod_8_eq_iff [of j i]
    by (auto simp: bmap_bit_def bmap_set_def nth_list_update bit_simps)
qed

lemma bmap_bit_clr [bmap_simps]:
  assumes "i < 8 * length bm"
  shows "bmap_bit (bmap_clr bm i) j = (bmap_bit bm j \<and> j \<noteq> i)"
proof -
  have "i div 8 < length bm" using assms by simp
  moreover have "j mod 8 < 8" by simp
  ultimately show ?thesis
    using div_mod_8_eq_iff [of j i]
    by (auto simp: bmap_bit_def bmap_clr_def nth_list_update bit_simps)
qed

lemma bmap_bit_clr_at_eq:
  "bmap_bit_clr_at bm p b =
     (if 8 * p + unat b < 8 * length bm then Inr (bmap_clr bm (8 * p + unat b)) else Inl UNDEF)"
  by (auto simp: bmap_bit_clr_at_def rd8_def wr8_def bmap_clr_def unat_and_7 unat_shr_3)

lemma bmap_bit_set_at_eq:
  "bmap_bit_set_at bm p b =
     (if 8 * p + unat b < 8 * length bm then Inr (bmap_set bm (8 * p + unat b)) else Inl UNDEF)"
  by (auto simp: bmap_bit_set_at_def rd8_def wr8_def bmap_set_def unat_and_7 unat_shr_3)

lemma and_single_bit: "(v AND 2 ^ n \<noteq> 0) = bit (v :: u8) n" if "n < 8"
proof -
  have "bit (v AND 2 ^ n) k = (bit v n \<and> k = n)" for k
    using that by (auto simp: bit_simps)
  then show ?thesis
    by (metis bit_0_eq bot_apply bot_bool_def bit_eq_iff)
qed

lemma bmap_is_bit_set_at_eq:
  "bmap_is_bit_set_at bm p b =
     (if 8 * p + unat b < 8 * length bm then Inr (bmap_bit bm (8 * p + unat b)) else Inl UNDEF)"
  by (auto simp: bmap_is_bit_set_at_def rd8_def bmap_bit_def unat_and_7 unat_shr_3 and_single_bit)

lemma bmap_is_bit_clr_at_eq:
  "bmap_is_bit_clr_at bm p b =
     (if 8 * p + unat b < 8 * length bm then Inr (\<not> bmap_bit bm (8 * p + unat b)) else Inl UNDEF)"
  by (simp add: bmap_is_bit_clr_at_def bmap_is_bit_set_at_eq)

lemma bmap_ops_eq [bmap_simps]:
  "ext4_bmap_bit_clr bm b =
     (if unat b < 8 * length bm then Inr (bmap_clr bm (unat b)) else Inl UNDEF)"
  "ext4_bmap_bit_set bm b =
     (if unat b < 8 * length bm then Inr (bmap_set bm (unat b)) else Inl UNDEF)"
  "ext4_bmap_is_bit_set bm b =
     (if unat b < 8 * length bm then Inr (bmap_bit bm (unat b)) else Inl UNDEF)"
  "ext4_bmap_is_bit_clr bm b =
     (if unat b < 8 * length bm then Inr (\<not> bmap_bit bm (unat b)) else Inl UNDEF)"
  by (simp_all add: ext4_bmap_bit_clr_def ext4_bmap_bit_set_def ext4_bmap_is_bit_set_def
        ext4_bmap_is_bit_clr_def bmap_bit_clr_at_eq bmap_bit_set_at_eq bmap_is_bit_set_at_eq
        bmap_is_bit_clr_at_eq)

section \<open>Correctness of the range clear\<close>

text \<open>\<open>cleared bm lo hi bm'\<close>: \<open>bm'\<close> is \<open>bm\<close> with exactly the bits of \<open>[lo, hi)\<close> cleared.\<close>

definition cleared :: "u8 list \<Rightarrow> nat \<Rightarrow> nat \<Rightarrow> u8 list \<Rightarrow> bool" where
  "cleared bm lo hi bm' \<longleftrightarrow> length bm' = length bm \<and>
     (\<forall>i < 8 * length bm. bmap_bit bm' i = (bmap_bit bm i \<and> \<not> (lo \<le> i \<and> i < hi)))"

lemma cleared_refl: "hi \<le> lo \<Longrightarrow> cleared bm lo hi bm"
  by (auto simp: cleared_def)

lemma cleared_trans:
  "cleared bm lo mid bm1 \<Longrightarrow> cleared bm1 mid hi bm2 \<Longrightarrow> lo \<le> mid \<Longrightarrow> mid \<le> hi \<Longrightarrow>
   cleared bm lo hi bm2"
  by (auto simp: cleared_def)

lemma cleared_step:
  "i < 8 * length bm \<Longrightarrow> cleared (bmap_clr bm i) (i + 1) hi bm' \<Longrightarrow> i < hi \<Longrightarrow> cleared bm i hi bm'"
  by (auto simp: cleared_def bmap_simps)

lemma bits_free_head_correct:
  assumes "unat i + unat bcnt \<le> 8 * length bm" and "8 * length bm < 2 ^ 32"
  shows "\<exists>bm'. cleared bm (unat i) (min (unat i + unat bcnt) (8 * ((unat i + 7) div 8))) bm' \<and>
     (if unat i + unat bcnt < 8 * ((unat i + 7) div 8)
      then bits_free_head bm i bcnt = Inr (Inl bm')
      else \<exists>i' bcnt'. bits_free_head bm i bcnt = Inr (Inr (bm', i', bcnt')) \<and>
             unat i' = 8 * ((unat i + 7) div 8) \<and> unat i' + unat bcnt' = unat i + unat bcnt)"
  using assms
proof (induction bm i bcnt rule: bits_free_head.induct)
  case (1 bm i bcnt)
  show ?case
  proof (cases "unat i mod 8 = 0")
    case True
    then have "8 * ((unat i + 7) div 8) = unat i" by presburger
    with True show ?thesis
      by (auto simp: bits_free_head.simps [of bm i bcnt] and_7_eq_0_iff intro!: exI [of _ bm] cleared_refl)
  next
    case unal: False
    then have up: "8 * ((unat i + 1 + 7) div 8) = 8 * ((unat i + 7) div 8)"
      and ilt: "unat i < 8 * ((unat i + 7) div 8)" by presburger+
    show ?thesis
    proof (cases "bcnt = 0")
      case True
      with unal ilt show ?thesis
        by (auto simp: bits_free_head.simps [of bm i 0] and_7_eq_0_iff intro!: exI [of _ bm] cleared_refl)
    next
      case False
      have dec: "unat (bcnt - 1) = unat bcnt - 1" and pos: "0 < unat bcnt"
        using False by (simp_all add: unat_dec unat_gt_0)
      have inr: "unat i < 8 * length bm" using "1.prems" pos by linarith
      have inc: "unat (i + 1) = unat i + 1" using inr "1.prems" by (intro unat_inc) simp
      have step: "bits_free_head bm i bcnt = bits_free_head (bmap_clr bm (unat i)) (i + 1) (bcnt - 1)"
        using unal False inr by (simp add: bits_free_head.simps [of bm i bcnt] and_7_eq_0_iff bmap_simps)
      have ne: "i AND 7 \<noteq> 0" using unal by (simp add: and_7_eq_0_iff)
      have clr: "ext4_bmap_bit_clr bm i = Inr (bmap_clr bm (unat i))"
        using inr by (simp add: bmap_simps)
      have un: "unat (i + 1) + unat (bcnt - 1) = unat i + unat bcnt"
        using pos by (simp add: inc dec)
      from "1.IH" [OF ne False clr, unfolded un, unfolded inc up] obtain bm' where IH:
        "cleared (bmap_clr bm (unat i)) (unat i + 1)
           (min (unat i + unat bcnt) (8 * ((unat i + 7) div 8))) bm'"
        "(if unat i + unat bcnt < 8 * ((unat i + 7) div 8)
          then bits_free_head (bmap_clr bm (unat i)) (i + 1) (bcnt - 1) = Inr (Inl bm')
          else \<exists>i' bcnt'. bits_free_head (bmap_clr bm (unat i)) (i + 1) (bcnt - 1) =
             Inr (Inr (bm', i', bcnt')) \<and>
             unat i' = 8 * ((unat i + 7) div 8) \<and> unat i' + unat bcnt' = unat i + unat bcnt)"
        using "1.prems" by auto
      have "cleared bm (unat i) (min (unat i + unat bcnt) (8 * ((unat i + 7) div 8))) bm'"
        by (rule cleared_step [OF inr IH(1)]) (use pos ilt in simp)
      with IH(2) step show ?thesis by auto
    qed
  qed
qed

lemma cleared_zero_bytes:
  assumes "p + w \<le> length bm"
  shows "cleared bm (8 * p) (8 * (p + w)) (take p bm @ replicate w 0 @ drop (p + w) bm)"
proof -
  have "(take p bm @ replicate w 0 @ drop (p + w) bm) ! j =
        (if p \<le> j \<and> j < p + w then 0 else bm ! j)" if "j < length bm" for j
    using assms that by (auto simp: nth_append)
  moreover have "8 * p \<le> i \<and> i < 8 * (p + w) \<longleftrightarrow> p \<le> i div 8 \<and> i div 8 < p + w" for i
    by auto
  ultimately show ?thesis
    using assms by (auto simp: cleared_def bmap_bit_def)
qed

lemma bits_free_chunks_correct:
  assumes "8 * p + unat bcnt \<le> 8 * length bm" and "0 < w" and "w < 8"
  shows "\<exists>bm' p' bcnt'. bits_free_chunks w bm p bcnt = Inr (bm', p', bcnt') \<and>
     cleared bm (8 * p) (8 * p') bm' \<and> p \<le> p' \<and> unat bcnt' < 8 * w \<and>
     8 * p' + unat bcnt' = 8 * p + unat bcnt"
  using assms
proof (induction w bm p bcnt rule: bits_free_chunks.induct)
  case (1 w bm p bcnt)
  have small: "8 * w < 2 ^ 32" using "1.prems" by simp
  show ?case
  proof (cases "8 * w \<le> unat bcnt")
    case False
    then show ?thesis
      by (auto simp: bits_free_chunks.simps [of w bm p bcnt] intro: cleared_refl)
  next
    case True
    let ?bm = "take p bm @ replicate w 0 @ drop (p + w) bm"
    have fits: "p + w \<le> length bm" using True "1.prems" by linarith
    have wr: "wr_range bm p (replicate w 0) = Inr ?bm" using fits by (simp add: wr_range_def)
    have "unat (of_nat (8 * w) :: u32) = 8 * w"
      using small by (simp add: unat_of_nat del: of_nat_mult)
    then have dec: "unat (bcnt - of_nat (8 * w)) = unat bcnt - 8 * w"
      using True by (simp add: unat_minus_le del: of_nat_mult)
    have guard: "0 < w \<and> 8 * w \<le> unat bcnt \<and> 8 * w < 2 ^ 32" using True small "1.prems" by simp
    then have step: "bits_free_chunks w bm p bcnt = bits_free_chunks w ?bm (p + w) (bcnt - of_nat (8 * w))"
      by (simp add: bits_free_chunks.simps [of w bm p bcnt] wr del: of_nat_mult)
    from "1.IH" [OF guard wr, unfolded dec] obtain bm' p' bcnt' where IH:
      "bits_free_chunks w ?bm (p + w) (bcnt - of_nat (8 * w)) = Inr (bm', p', bcnt')"
      "cleared ?bm (8 * (p + w)) (8 * p') bm'" "p + w \<le> p'" "unat bcnt' < 8 * w"
      "8 * p' + unat bcnt' = 8 * (p + w) + (unat bcnt - 8 * w)"
      using "1.prems" True fits by auto
    have "cleared bm (8 * p) (8 * p') bm'"
      by (rule cleared_trans [OF cleared_zero_bytes [OF fits] IH(2)]) (use IH(3) in simp_all)
    with IH step True show ?thesis by auto
  qed
qed

lemma bits_free_tail_correct:
  assumes "8 * p + unat bcnt \<le> 8 * length bm" and "unat i \<le> unat bcnt"
  shows "\<exists>bm'. bits_free_tail bm p i bcnt = Inr bm' \<and>
     cleared bm (8 * p + unat i) (8 * p + unat bcnt) bm'"
  using assms
proof (induction bm p i bcnt rule: bits_free_tail.induct)
  case (1 bm p i bcnt)
  show ?case
  proof (cases "i < bcnt")
    case False
    with "1.prems" show ?thesis
      by (auto simp: bits_free_tail.simps [of bm p i bcnt] word_less_nat_alt intro: cleared_refl)
  next
    case True
    then have lt: "unat i < unat bcnt" by (simp add: word_less_nat_alt)
    have "unat bcnt < 2 ^ 32" using unsigned_less [of bcnt] by simp
    with lt have inc: "unat (i + 1) = unat i + 1" by (intro unat_inc) simp
    let ?bm = "bmap_clr bm (8 * p + unat i)"
    have inr: "8 * p + unat i < 8 * length bm" using lt "1.prems" by linarith
    then have clr: "bmap_bit_clr_at bm p i = Inr ?bm" by (simp add: bmap_bit_clr_at_eq)
    with True have step: "bits_free_tail bm p i bcnt = bits_free_tail ?bm p (i + 1) bcnt"
      by (simp add: bits_free_tail.simps [of bm p i bcnt])
    from "1.IH" [OF True clr, unfolded inc] obtain bm' where IH:
      "bits_free_tail ?bm p (i + 1) bcnt = Inr bm'"
      "cleared ?bm (8 * p + (unat i + 1)) (8 * p + unat bcnt) bm'"
      using "1.prems" lt by auto
    have "cleared bm (8 * p + unat i) (8 * p + unat bcnt) bm'"
      by (rule cleared_step [OF inr]) (use IH(2) lt in \<open>simp_all add: add.assoc\<close>)
    with IH(1) step show ?thesis by auto
  qed
qed

lemma bits_free_wide_correct:
  assumes "8 * p + unat bcnt \<le> 8 * length bm"
  shows "\<exists>bm' p' bcnt'. bits_free_wide ua bm p bcnt = Inr (bm', p', bcnt') \<and>
     cleared bm (8 * p) (8 * p') bm' \<and> p \<le> p' \<and> 8 * p' + unat bcnt' = 8 * p + unat bcnt"
proof (cases ua)
  case False
  then show ?thesis by (auto simp: bits_free_wide_def intro: cleared_refl)
next
  case True
  obtain bm1 p1 b1 where c1: "bits_free_chunks 4 bm p bcnt = Inr (bm1, p1, b1)"
    "cleared bm (8 * p) (8 * p1) bm1" "p \<le> p1" "8 * p1 + unat b1 = 8 * p + unat bcnt"
    using bits_free_chunks_correct [OF assms, of 4] by auto
  have len1: "length bm1 = length bm" using c1(2) by (simp add: cleared_def)
  obtain bm2 p2 b2 where c2: "bits_free_chunks 2 bm1 p1 b1 = Inr (bm2, p2, b2)"
    "cleared bm1 (8 * p1) (8 * p2) bm2" "p1 \<le> p2" "8 * p2 + unat b2 = 8 * p1 + unat b1"
    using bits_free_chunks_correct [of p1 b1 bm1 2] assms c1(4) len1 by auto
  have "cleared bm (8 * p) (8 * p2) bm2"
    by (rule cleared_trans [OF c1(2) c2(2)]) (use c1(3) c2(3) in simp_all)
  with True c1 c2 show ?thesis by (auto simp: bits_free_wide_def)
qed

lemma bits_free_correct:
  assumes "unat sbit + unat bcnt \<le> 8 * length bm" and "8 * length bm < 2 ^ 32"
  shows "\<exists>bm'. ext4_bmap_bits_free ua bm sbit bcnt = Inr bm' \<and>
     cleared bm (unat sbit) (unat sbit + unat bcnt) bm'"
proof -
  let ?up = "8 * ((unat sbit + 7) div 8)"
  obtain bm1 where h: "cleared bm (unat sbit) (min (unat sbit + unat bcnt) ?up) bm1"
    "(if unat sbit + unat bcnt < ?up then bits_free_head bm sbit bcnt = Inr (Inl bm1)
      else \<exists>i b. bits_free_head bm sbit bcnt = Inr (Inr (bm1, i, b)) \<and> unat i = ?up \<and>
             unat i + unat b = unat sbit + unat bcnt)"
    using bits_free_head_correct [OF assms] by blast
  show ?thesis
  proof (cases "unat sbit + unat bcnt < ?up")
    case True
    with h show ?thesis by (auto simp: ext4_bmap_bits_free_def)
  next
    case False
    with h obtain i b where h2: "bits_free_head bm sbit bcnt = Inr (Inr (bm1, i, b))"
      "unat i = ?up" "unat i + unat b = unat sbit + unat bcnt" by auto
    define p where "p = unat (drop_bit 3 i)"
    have p: "8 * p = ?up" using h2(2) by (simp add: p_def unat_shr_3)
    have len1: "length bm1 = length bm" using h(1) by (simp add: cleared_def)
    have fit: "8 * p + unat b \<le> 8 * length bm1" using h2 p len1 assms by simp
    obtain bm2 p2 b2 where w: "bits_free_wide ua bm1 p b = Inr (bm2, p2, b2)"
      "cleared bm1 (8 * p) (8 * p2) bm2" "p \<le> p2" "8 * p2 + unat b2 = 8 * p + unat b"
      using bits_free_wide_correct [OF fit] by blast
    have len2: "length bm2 = length bm1" using w(2) by (simp add: cleared_def)
    obtain bm3 p3 b3 where c: "bits_free_chunks 1 bm2 p2 b2 = Inr (bm3, p3, b3)"
      "cleared bm2 (8 * p2) (8 * p3) bm3" "p2 \<le> p3" "8 * p3 + unat b3 = 8 * p2 + unat b2"
      using bits_free_chunks_correct [of p2 b2 bm2 1] fit w(4) len2 by auto
    have len3: "length bm3 = length bm2" using c(2) by (simp add: cleared_def)
    obtain bm4 where t: "bits_free_tail bm3 p3 0 b3 = Inr bm4"
      "cleared bm3 (8 * p3) (8 * p3 + unat b3) bm4"
      using bits_free_tail_correct [of p3 b3 bm3 0] fit w(4) c(4) len2 len3 by auto
    have eq: "ext4_bmap_bits_free ua bm sbit bcnt = Inr bm4"
      using h2(1) w(1) c(1) t(1) by (simp add: ext4_bmap_bits_free_def p_def)
    have "cleared bm (unat sbit) (8 * p2) bm2"
      by (rule cleared_trans [OF _ w(2)]) (use h(1) False p w(3) in auto)
    then have "cleared bm (unat sbit) (8 * p3) bm3"
      by (rule cleared_trans [OF _ c(2)]) (use False p w(3) c(3) in auto)
    then have "cleared bm (unat sbit) (8 * p3 + unat b3) bm4"
      by (rule cleared_trans [OF _ t(2)]) (use False p w(3) c(3) in auto)
    moreover have "8 * p3 + unat b3 = unat sbit + unat bcnt"
      using c(4) w(4) h2 p by simp
    ultimately show ?thesis using eq by auto
  qed
qed

section \<open>Correctness of the search\<close>

text \<open>The abstract search: the least clear bit of \<open>[lo, hi)\<close>.\<close>

definition first_clr :: "u8 list \<Rightarrow> nat \<Rightarrow> nat \<Rightarrow> nat option" where
  "first_clr bm lo hi = List.find (\<lambda>i. \<not> bmap_bit bm i) [lo..<hi]"

definition clr_result :: "nat option \<Rightarrow> u32 res" where
  "clr_result r = (case r of None \<Rightarrow> Inl ENOSPC | Some i \<Rightarrow> Inr (of_nat i))"

lemma first_clr_empty: "hi \<le> lo \<Longrightarrow> first_clr bm lo hi = None"
  by (simp add: first_clr_def)

lemma first_clr_step:
  "lo < hi \<Longrightarrow>
   first_clr bm lo hi = (if bmap_bit bm lo then first_clr bm (Suc lo) hi else Some lo)"
  by (simp add: first_clr_def upt_conv_Cons)

lemma first_clr_skip:
  assumes "lo \<le> mid" and "mid \<le> hi" and "\<And>i. lo \<le> i \<Longrightarrow> i < mid \<Longrightarrow> bmap_bit bm i"
  shows "first_clr bm lo hi = first_clr bm mid hi"
  using assms
proof (induction "mid - lo" arbitrary: lo)
  case 0
  then show ?case by simp
next
  case (Suc n)
  then have "first_clr bm (Suc lo) hi = first_clr bm mid hi" by simp
  with Suc show ?case by (simp add: first_clr_step)
qed

lemma first_clr_Some:
  "first_clr bm lo hi = Some i \<longleftrightarrow>
     lo \<le> i \<and> i < hi \<and> \<not> bmap_bit bm i \<and> (\<forall>j. lo \<le> j \<and> j < i \<longrightarrow> bmap_bit bm j)"
  (is "?l = ?r")
proof
  assume ?l
  then obtain k where k: "k < hi - lo" "i = lo + k" "\<not> bmap_bit bm i"
    "\<forall>j < k. bmap_bit bm ([lo..<hi] ! j)"
    by (auto simp: first_clr_def find_Some_iff)
  then have "bmap_bit bm j" if "lo \<le> j" "j < i" for j
    using that k(4) [rule_format, of "j - lo"] by simp
  with k show ?r by simp
next
  assume r: ?r
  then have "first_clr bm lo hi = first_clr bm i hi" by (intro first_clr_skip) auto
  with r show ?l by (simp add: first_clr_step)
qed

lemma first_clr_None: "first_clr bm lo hi = None \<longleftrightarrow> (\<forall>i. lo \<le> i \<and> i < hi \<longrightarrow> bmap_bit bm i)"
  by (auto simp: first_clr_def find_None_iff)

lemma find_clr_scan_correct:
  assumes "8 * p + unat n \<le> 8 * length bm" and "unat i \<le> unat n"
  shows "find_clr_scan bm p i n =
     Inr (map_option (\<lambda>k. of_nat (k - 8 * p)) (first_clr bm (8 * p + unat i) (8 * p + unat n)))"
  using assms
proof (induction bm p i n rule: find_clr_scan.induct)
  case (1 bm p i n)
  show ?case
  proof (cases "i < n")
    case False
    with "1.prems" show ?thesis
      by (simp add: find_clr_scan.simps [of bm p i n] word_less_nat_alt first_clr_empty)
  next
    case True
    then have lt: "unat i < unat n" by (simp add: word_less_nat_alt)
    have "unat n < 2 ^ 32" using unsigned_less [of n] by simp
    with lt have inc: "unat (i + 1) = unat i + 1" by (intro unat_inc) simp
    have c: "bmap_is_bit_clr_at bm p i = Inr (\<not> bmap_bit bm (8 * p + unat i))"
      using lt "1.prems" by (simp add: bmap_is_bit_clr_at_eq)
    show ?thesis
    proof (cases "bmap_bit bm (8 * p + unat i)")
      case False
      with True lt c show ?thesis
        by (simp add: find_clr_scan.simps [of bm p i n] first_clr_step)
    next
      case set: True
      have "find_clr_scan bm p (i + 1) n = Inr (map_option (\<lambda>k. of_nat (k - 8 * p))
          (first_clr bm (8 * p + (unat i + 1)) (8 * p + unat n)))"
        using "1.IH" [OF True c, unfolded inc] "1.prems" lt set by simp
      with True lt c set show ?thesis
        by (simp add: find_clr_scan.simps [of bm p i n]
              first_clr_step [of "8 * p + unat i" "8 * p + unat n"])
    qed
  qed
qed

lemma bmap_bit_ones: "bm ! (i div 8) = 0xFF \<Longrightarrow> bmap_bit bm i"
proof -
  have "bit (0xFF :: u8) k" if "k < 8" for k
  proof -
    have "(0xFF :: u8) = mask 8" by (simp add: mask_eq_exp_minus_1)
    with that show ?thesis by (simp only: bit_mask_iff) simp
  qed
  then show "bm ! (i div 8) = 0xFF \<Longrightarrow> bmap_bit bm i" by (simp add: bmap_bit_def)
qed

lemma find_clr_bytes_correct:
  assumes "8 * p + unat bcnt \<le> 8 * length bm" and "8 * length bm < 2 ^ 32" and "unat sbit = 8 * p"
  shows "find_clr_bytes bm p sbit bcnt = clr_result (first_clr bm (8 * p) (8 * p + unat bcnt))"
  using assms
proof (induction bm p sbit bcnt rule: find_clr_bytes.induct)
  case (1 bm p sbit bcnt)
  have of_nat_sbit: "sbit = of_nat (8 * p)" 
    using "1.prems"(3) by (metis of_nat_unat ucast_id)
  then have add: "sbit + (of_nat k - 8 * of_nat p) = of_nat k" for k by simp
  show ?case
  proof (cases "8 \<le> unat bcnt")
    case False
    have scan: "find_clr_scan bm p 0 bcnt = Inr (map_option (\<lambda>k. of_nat (k - 8 * p))
        (first_clr bm (8 * p) (8 * p + unat bcnt)))"
      using find_clr_scan_correct [of p bcnt bm 0] "1.prems" by simp
    show ?thesis
    proof (cases "first_clr bm (8 * p) (8 * p + unat bcnt)")
      case None
      with False scan show ?thesis
        by (simp add: find_clr_bytes.simps [of bm p sbit bcnt] clr_result_def)
    next
      case (Some k)
      then have "8 * p \<le> k" by (simp add: first_clr_Some)
      with False scan Some show ?thesis
        by (simp add: find_clr_bytes.simps [of bm p sbit bcnt] clr_result_def add)
    qed
  next
    case True
    have pin: "p < length bm" using True "1.prems" by linarith
    have rd: "rd8 bm p = Inr (bm ! p)" using pin by (simp add: rd8_def)
    have scan: "find_clr_scan bm p 0 8 = Inr (map_option (\<lambda>k. of_nat (k - 8 * p))
        (first_clr bm (8 * p) (8 * p + 8)))"
      using find_clr_scan_correct [of p 8 bm 0] pin by simp
    have ones: "bm ! p = 0xFF \<Longrightarrow> first_clr bm (8 * p) (8 * p + 8) = None"
      by (auto simp: first_clr_None intro!: bmap_bit_ones) (metis add_less_cancel_left div_nat_eqI mult.commute mult_Suc_right add.commute)
    have sc: "(if bm ! p \<noteq> 0xFF then find_clr_scan bm p 0 8 else Inr None) =
        Inr (map_option (\<lambda>k. of_nat (k - 8 * p)) (first_clr bm (8 * p) (8 * p + 8)))"
      using scan ones by simp
    show ?thesis
    proof (cases "first_clr bm (8 * p) (8 * p + 8)")
      case (Some k)
      then have k: "8 * p \<le> k" "first_clr bm (8 * p) (8 * p + unat bcnt) = Some k"
        using True by (auto simp: first_clr_Some)
      with True rd sc Some show ?thesis
        by (simp add: find_clr_bytes.simps [of bm p sbit bcnt] clr_result_def add)
    next
      case None
      then have eq: "first_clr bm (8 * p) (8 * p + unat bcnt) =
          first_clr bm (8 * (p + 1)) (8 * (p + 1) + (unat bcnt - 8))"
        using True
        by (subst first_clr_skip [where mid = "8 * p + 8"]) (auto simp: first_clr_None add.commute)
      have "unat (bcnt - 8) = unat bcnt - 8" using True by (simp add: unat_minus_le)
      moreover have "unat (sbit + 8) = 8 * (p + 1)"
        using pin "1.prems" by (subst unat_add_le) auto
      moreover have "find_clr_bytes bm p sbit bcnt = find_clr_bytes bm (p + 1) (sbit + 8) (bcnt - 8)"
        using True rd sc None by (simp add: find_clr_bytes.simps [of bm p sbit bcnt])
      ultimately show ?thesis
        using "1.IH" [OF True rd sc] None "1.prems" True eq by simp
    qed
  qed
qed

lemma find_clr_skip_correct:
  assumes "8 * p + unat bcnt \<le> 8 * length bm" and "8 * length bm < 2 ^ 32" and "unat sbit = 8 * p"
    and "0 < w" and "w < 8"
  shows "\<exists>hit p' sbit' bcnt'. find_clr_skip w bm p sbit bcnt = Inr (hit, p', sbit', bcnt') \<and>
     8 * p' + unat bcnt' = 8 * p + unat bcnt \<and> unat sbit' = 8 * p' \<and>
     first_clr bm (8 * p) (8 * p + unat bcnt) = first_clr bm (8 * p') (8 * p' + unat bcnt')"
  using assms
proof (induction w bm p sbit bcnt rule: find_clr_skip.induct)
  case (1 w bm p sbit bcnt)
  show ?case
  proof (cases "8 * w \<le> unat bcnt")
    case False
    with "1.prems" show ?thesis by (auto simp: find_clr_skip.simps [of w bm p sbit bcnt])
  next
    case True
    have guard: "0 < w \<and> 8 * w \<le> unat bcnt \<and> 8 * w < 2 ^ 32" using True "1.prems" by simp
    have fits: "p + w \<le> length bm" using True "1.prems" by linarith
    have rd: "rd_range bm p w = Inr (take w (drop p bm))" using fits by (simp add: rd_range_def)
    show ?thesis
    proof (cases "take w (drop p bm) = replicate w 0xFF")
      case False
      with guard rd "1.prems" show ?thesis by (auto simp: find_clr_skip.simps [of w bm p sbit bcnt])
    next
      case ones: True
      have byte: "bm ! j = 0xFF" if "p \<le> j" "j < p + w" for j
        using arg_cong [OF ones, of "\<lambda>xs. xs ! (j - p)"] that fits by simp
      have set: "bmap_bit bm i" if "8 * p \<le> i" "i < 8 * (p + w)" for i
        by (rule bmap_bit_ones, rule byte) (use that in auto)
      have w32: "unat (of_nat (8 * w) :: u32) = 8 * w"
        using guard by (simp add: unat_of_nat del: of_nat_mult)
      have b': "unat (bcnt - of_nat (8 * w)) = unat bcnt - 8 * w"
        using True w32 by (simp add: unat_minus_le del: of_nat_mult)
      have s': "unat (sbit + of_nat (8 * w)) = 8 * (p + w)"
        using fits "1.prems" w32 by (subst unat_add_le) (auto simp del: of_nat_mult)
      have eq: "first_clr bm (8 * p) (8 * p + unat bcnt) =
          first_clr bm (8 * (p + w)) (8 * (p + w) + (unat bcnt - 8 * w))"
        using True set by (subst first_clr_skip [where mid = "8 * (p + w)"]) auto
      have step: "find_clr_skip w bm p sbit bcnt =
          find_clr_skip w bm (p + w) (sbit + of_nat (8 * w)) (bcnt - of_nat (8 * w))"
        using guard rd ones by (simp add: find_clr_skip.simps [of w bm p sbit bcnt] del: of_nat_mult)
      have "\<not> take w (drop p bm) \<noteq> replicate w 0xFF" using ones by simp
      from "1.IH" [OF guard rd this, unfolded b' s'] show ?thesis
        unfolding step eq using "1.prems" True fits by auto
    qed
  qed
qed

lemma find_clr_wide_correct:
  assumes "8 * p + unat bcnt \<le> 8 * length bm" and "8 * length bm < 2 ^ 32" and "unat sbit = 8 * p"
  shows "\<exists>p' sbit' bcnt'. find_clr_wide ua bm p sbit bcnt = Inr (p', sbit', bcnt') \<and>
     8 * p' + unat bcnt' = 8 * p + unat bcnt \<and> unat sbit' = 8 * p' \<and>
     first_clr bm (8 * p) (8 * p + unat bcnt) = first_clr bm (8 * p') (8 * p' + unat bcnt')"
proof (cases ua)
  case False
  with assms show ?thesis by (auto simp: find_clr_wide_def)
next
  case True
  obtain hit p1 s1 b1 where c1: "find_clr_skip 4 bm p sbit bcnt = Inr (hit, p1, s1, b1)"
    "8 * p1 + unat b1 = 8 * p + unat bcnt" "unat s1 = 8 * p1"
    "first_clr bm (8 * p) (8 * p + unat bcnt) = first_clr bm (8 * p1) (8 * p1 + unat b1)"
    using find_clr_skip_correct [OF assms, of 4] by auto
  obtain hit2 p2 s2 b2 where c2: "find_clr_skip 2 bm p1 s1 b1 = Inr (hit2, p2, s2, b2)"
    "8 * p2 + unat b2 = 8 * p1 + unat b1" "unat s2 = 8 * p2"
    "first_clr bm (8 * p1) (8 * p1 + unat b1) = first_clr bm (8 * p2) (8 * p2 + unat b2)"
    using find_clr_skip_correct [of p1 b1 bm s1 2] assms c1 by auto
  from True c1 c2 show ?thesis by (cases hit) (auto simp: find_clr_wide_def)
qed

text \<open>
  The head loop: a hit answers \<open>sbit\<close>, whatever the bit that was found clear; otherwise all bits up
  to the byte boundary are set.
\<close>

lemma find_clr_head_correct:
  assumes "unat i + unat bcnt \<le> 8 * length bm" and "8 * length bm < 2 ^ 32"
  shows "(case first_clr bm (unat i) (min (unat i + unat bcnt) (8 * ((unat i + 7) div 8))) of
       Some _ \<Rightarrow> find_clr_head bm sbit i bcnt = Inr (Inl sbit)
     | None \<Rightarrow>
        if unat i + unat bcnt < 8 * ((unat i + 7) div 8)
        then find_clr_head bm sbit i bcnt = Inl ENOSPC
        else \<exists>i' bcnt'. find_clr_head bm sbit i bcnt = Inr (Inr (i', bcnt')) \<and>
               unat i' = 8 * ((unat i + 7) div 8) \<and> unat i' + unat bcnt' = unat i + unat bcnt)"
  using assms
proof (induction bm sbit i bcnt rule: find_clr_head.induct)
  case (1 bm sbit i bcnt)
  show ?case
  proof (cases "unat i mod 8 = 0")
    case True
    then have "8 * ((unat i + 7) div 8) = unat i" by presburger
    with True show ?thesis
      by (simp add: find_clr_head.simps [of bm sbit i bcnt] and_7_eq_0_iff first_clr_empty)
  next
    case unal: False
    then have up: "8 * ((unat i + 1 + 7) div 8) = 8 * ((unat i + 7) div 8)"
      and ilt: "unat i < 8 * ((unat i + 7) div 8)" by presburger+
    have ne: "i AND 7 \<noteq> 0" using unal by (simp add: and_7_eq_0_iff)
    show ?thesis
    proof (cases "bcnt = 0")
      case True
      with ne ilt show ?thesis
        by (simp add: find_clr_head.simps [of bm sbit i 0] first_clr_empty)
    next
      case False
      have dec: "unat (bcnt - 1) = unat bcnt - 1" and pos: "0 < unat bcnt"
        using False by (simp_all add: unat_dec unat_gt_0)
      have inr: "unat i < 8 * length bm" using "1.prems" pos by linarith
      have inc: "unat (i + 1) = unat i + 1" using inr "1.prems" by (intro unat_inc) simp
      have un: "unat (i + 1) + unat (bcnt - 1) = unat i + unat bcnt"
        using pos by (simp add: inc dec)
      have c: "ext4_bmap_is_bit_clr bm i = Inr (\<not> bmap_bit bm (unat i))"
        using inr by (simp add: bmap_simps)
      have lt: "unat i < min (unat i + unat bcnt) (8 * ((unat i + 7) div 8))" using pos ilt by simp
      show ?thesis
      proof (cases "bmap_bit bm (unat i)")
        case clear: False
        with ne False c lt show ?thesis
          by (simp add: find_clr_head.simps [of bm sbit i bcnt] first_clr_step)
      next
        case set: True
        then have step: "find_clr_head bm sbit i bcnt = find_clr_head bm sbit (i + 1) (bcnt - 1)"
          using ne False c by (simp add: find_clr_head.simps [of bm sbit i bcnt])
        have "\<not> \<not> bmap_bit bm (unat i)" using set by simp
        from "1.IH" [OF ne False c this, unfolded un, unfolded inc up] "1.prems" set lt
        show ?thesis unfolding step by (simp add: first_clr_step)
      qed
    qed
  qed
qed

text \<open>The complete behaviour of the search, the early answer of the head loop included.\<close>

lemma find_clr_complete:
  assumes "unat sbit \<le> unat ebit" and "unat ebit \<le> 8 * length bm" and "8 * length bm < 2 ^ 32"
  shows "ext4_bmap_bit_find_clr ua bm sbit ebit =
     (if first_clr bm (unat sbit) (min (unat ebit) (8 * ((unat sbit + 7) div 8))) \<noteq> None
      then Inr sbit
      else clr_result (first_clr bm (unat sbit) (unat ebit)))"
proof -
  let ?up = "8 * ((unat sbit + 7) div 8)"
  have sum: "unat sbit + unat (ebit - sbit) = unat ebit" using assms by (simp add: unat_minus_le)
  have up: "unat sbit \<le> ?up" by presburger
  note head = find_clr_head_correct [of sbit "ebit - sbit" bm sbit, unfolded sum, OF assms(2,3)]
  show ?thesis
  proof (cases "first_clr bm (unat sbit) (min (unat ebit) ?up)")
    case (Some k)
    with head show ?thesis by (simp add: ext4_bmap_bit_find_clr_def)
  next
    case None
    then have set: "\<And>i. unat sbit \<le> i \<Longrightarrow> i < min (unat ebit) ?up \<Longrightarrow> bmap_bit bm i"
      by (simp add: first_clr_None)
    show ?thesis
    proof (cases "unat ebit < ?up")
      case True
      then have "first_clr bm (unat sbit) (unat ebit) = None"
        using set by (auto simp: first_clr_None)
      with True None head show ?thesis by (simp add: ext4_bmap_bit_find_clr_def clr_result_def)
    next
      case False
      with None head obtain i b where h: "find_clr_head bm sbit sbit (ebit - sbit) = Inr (Inr (i, b))"
        "unat i = ?up" "unat i + unat b = unat ebit" by auto
      define p where "p = unat (drop_bit 3 i)"
      have p: "8 * p = ?up" using h(2) by (simp add: p_def unat_shr_3)
      have eq: "first_clr bm (unat sbit) (unat ebit) = first_clr bm (8 * p) (8 * p + unat b)"
        using h p False up set by (subst first_clr_skip [where mid = "?up"]) auto
      obtain p' s' b' where w: "find_clr_wide ua bm p i b = Inr (p', s', b')"
        "8 * p' + unat b' = 8 * p + unat b" "unat s' = 8 * p'"
        "first_clr bm (8 * p) (8 * p + unat b) = first_clr bm (8 * p') (8 * p' + unat b')"
        using find_clr_wide_correct [of p b bm i ua] h p assms by auto
      have "find_clr_bytes bm p' s' b' = clr_result (first_clr bm (8 * p') (8 * p' + unat b'))"
        using find_clr_bytes_correct [of p' b' bm s'] w h p assms by simp
      with h(1) w(1) None eq w(4) show ?thesis
        by (simp add: ext4_bmap_bit_find_clr_def p_def)
    qed
  qed
qed

lemma cleared_unique:
  assumes "cleared bm lo hi x" and "cleared bm lo hi y"
  shows "x = y"
proof (rule nth_equalityI)
  show "length x = length y" using assms by (simp add: cleared_def)
next
  fix k assume k: "k < length x"
  have "bit (x ! k) j = bit (y ! k) j" if "j < 8" for j
  proof -
    have "8 * k + j < 8 * length bm" using k that assms by (simp add: cleared_def)
    then have "bmap_bit x (8 * k + j) = bmap_bit y (8 * k + j)"
      using assms by (simp add: cleared_def)
    with that show ?thesis by (simp add: bmap_bit_def)
  qed
  then show "x ! k = y ! k" by (intro bit_word_eqI) simp
qed

section \<open>Properties\<close>

text \<open>
  C26: freeing a range clears exactly the bits of the range. For every bitmap and every range inside
  it, \<open>ext4_bmap_bits_free\<close> stays inside the buffer, and afterwards a bit is set exactly when it was
  set before and lies outside \<open>[sbit, sbit + bcnt)\<close>, for every alignment of the start and the count.
\<close>

theorem bits_free_clears_exactly_range:
  assumes "unat sbit + unat bcnt \<le> 8 * length bm" and "8 * length bm < 2 ^ 32"
  shows "\<exists>bm'. ext4_bmap_bits_free ua bm sbit bcnt = Inr bm' \<and> length bm' = length bm \<and>
     (\<forall>i. i < 8 * length bm \<longrightarrow>
        bmap_bit bm' i = (bmap_bit bm i \<and> \<not> (unat sbit \<le> i \<and> i < unat sbit + unat bcnt)))"
  using bits_free_correct [OF assms, of ua] by (auto simp: cleared_def)

theorem bits_free_clears_exactly_range_witness:
  "\<exists>bm'. ext4_bmap_bits_free True (replicate 8 0xFF) 3 50 = Inr bm' \<and> length bm' = 8 \<and>
     bmap_bit bm' 2 \<and> \<not> bmap_bit bm' 3 \<and> \<not> bmap_bit bm' 52 \<and> bmap_bit bm' 53"
proof -
  have ones: "bmap_bit (replicate 8 0xFF) i" if "i < 64" for i
    by (rule bmap_bit_ones) (use that in simp)
  have "unat (3 :: u32) + unat (50 :: u32) \<le> 8 * length (replicate 8 (0xFF :: u8))"
    and "8 * length (replicate 8 (0xFF :: u8)) < 2 ^ 32" by simp_all
  from bits_free_clears_exactly_range [OF this, of True] obtain bm' where
    "ext4_bmap_bits_free True (replicate 8 0xFF) 3 50 = Inr bm'" "length bm' = 8"
    "\<forall>i. i < 64 \<longrightarrow> bmap_bit bm' i = (bmap_bit (replicate 8 0xFF) i \<and> \<not> (3 \<le> i \<and> i < 53))"
    by auto
  with ones show ?thesis by (intro exI [of _ bm']) simp
qed

text \<open>
  C29: the search finds the first free bit. When the start of the search is a byte boundary, is itself
  free, or is followed only by used bits up to the next byte boundary (as at every call in the
  allocators), \<open>ext4_bmap_bit_find_clr\<close> returns the least clear bit of \<open>[sbit, ebit)\<close>, and
  \<open>ENOSPC\<close> exactly when there is none.
\<close>

theorem find_clr_returns_first_free:
  assumes "unat sbit \<le> unat ebit" and "unat ebit \<le> 8 * length bm" and "8 * length bm < 2 ^ 32"
    and "bmap_bit bm (unat sbit) \<longrightarrow>
         (\<forall>i. unat sbit \<le> i \<and> i < unat ebit \<and> i < 8 * ((unat sbit + 7) div 8) \<longrightarrow> bmap_bit bm i)"
  shows "case ext4_bmap_bit_find_clr ua bm sbit ebit of
       Inr b \<Rightarrow> sbit \<le> b \<and> b < ebit \<and> \<not> bmap_bit bm (unat b) \<and>
                (\<forall>j. unat sbit \<le> j \<and> j < unat b \<longrightarrow> bmap_bit bm j)
     | Inl e \<Rightarrow> e = ENOSPC \<and> (\<forall>j. unat sbit \<le> j \<and> j < unat ebit \<longrightarrow> bmap_bit bm j)"
proof -
  let ?m = "min (unat ebit) (8 * ((unat sbit + 7) div 8))"
  have eq: "ext4_bmap_bit_find_clr ua bm sbit ebit = clr_result (first_clr bm (unat sbit) (unat ebit))"
  proof (cases "first_clr bm (unat sbit) ?m")
    case None
    then show ?thesis using find_clr_complete [OF assms(1-3)] by simp
  next
    case (Some k)
    then have "\<not> bmap_bit bm (unat sbit)" using assms(4) by (auto simp: first_clr_Some)
    moreover have "unat sbit < unat ebit" using Some by (auto simp: first_clr_Some)
    ultimately have "first_clr bm (unat sbit) (unat ebit) = Some (unat sbit)"
      by (simp add: first_clr_step)
    with Some show ?thesis using find_clr_complete [OF assms(1-3)] by (simp add: clr_result_def)
  qed
  show ?thesis
  proof (cases "first_clr bm (unat sbit) (unat ebit)")
    case None
    with eq show ?thesis by (simp add: clr_result_def first_clr_None)
  next
    case (Some k)
    then have k: "unat sbit \<le> k" "k < unat ebit" "\<not> bmap_bit bm k"
      "\<forall>j. unat sbit \<le> j \<and> j < k \<longrightarrow> bmap_bit bm j" by (auto simp: first_clr_Some)
    have "unat (of_nat k :: u32) = k" using k(2) by (metis le_unat_uoi less_imp_le)
    with k eq Some show ?thesis by (simp add: clr_result_def word_le_nat_alt word_less_nat_alt)
  qed
qed

theorem find_clr_returns_first_free_witness:
  "case ext4_bmap_bit_find_clr False [0xFF, 0xF7] 8 16 of
       Inr b \<Rightarrow> 8 \<le> b \<and> b < 16 \<and> \<not> bmap_bit [0xFF, 0xF7] (unat b) \<and>
                (\<forall>j. 8 \<le> j \<and> j < unat b \<longrightarrow> bmap_bit [0xFF, 0xF7] j)
     | Inl e \<Rightarrow> e = ENOSPC \<and> (\<forall>j. 8 \<le> j \<and> j < 16 \<longrightarrow> bmap_bit [0xFF, 0xF7] j)"
proof -
  have n: "unat (8 :: u32) = 8" "unat (16 :: u32) = 16" by simp_all
  have h: "bmap_bit [0xFF, 0xF7] 8 \<longrightarrow>
      (\<forall>i. 8 \<le> i \<and> i < 16 \<and> i < 8 * ((8 + 7) div 8) \<longrightarrow> bmap_bit [0xFF, 0xF7] i)" by auto
  show ?thesis
    by (rule find_clr_returns_first_free [of 8 16 "[0xFF, 0xF7]" False, unfolded n, OF _ _ _ h]) simp_all
qed

text \<open>
  The search can answer with a used bit. If the start bit is not on a byte boundary and is used,
  and some later bit before that boundary is free, \<open>ext4_bmap_bit_find_clr\<close> succeeds and
  returns the start bit itself, which is in use: the head loop stores \<open>sbit\<close> instead of the index
  it tested.
\<close>

theorem find_clr_unaligned_returns_used_bit:
  assumes "unat ebit \<le> 8 * length bm" and "8 * length bm < 2 ^ 32"
    and "bmap_bit bm (unat sbit)"
    and "unat sbit < k" and "k < unat ebit" and "k < 8 * ((unat sbit + 7) div 8)"
    and "\<not> bmap_bit bm k"
  shows "ext4_bmap_bit_find_clr ua bm sbit ebit = Inr sbit \<and>
     ext4_bmap_is_bit_set bm sbit = Inr True"
proof -
  have "first_clr bm (unat sbit) (min (unat ebit) (8 * ((unat sbit + 7) div 8))) \<noteq> None"
    using assms by (auto simp: first_clr_None intro!: exI [of _ k])
  with assms show ?thesis
    by (subst find_clr_complete) (auto simp: bmap_simps)
qed

theorem find_clr_unaligned_returns_used_bit_witness:
  "ext4_bmap_bit_find_clr False [0xBF] 5 8 = Inr 5 \<and> ext4_bmap_is_bit_set [0xBF] 5 = Inr True"
proof -
  have b: "bmap_bit [0xBF] 5" "\<not> bmap_bit [0xBF] 6" by (simp_all add: bmap_bit_def)
  show ?thesis
    by (rule find_clr_unaligned_returns_used_bit [of 8 "[0xBF]" 5 6]) (use b in simp_all)
qed

text \<open>
  The wide-access build computes the same. Under \<^verbatim>\<open>CONFIG_UNALIGNED_ACCESS\<close> both routines use
  32-bit and 16-bit wide inner loops; on every range inside the bitmap their results are those of
  the byte-wise build.
\<close>

theorem bitmap_unaligned_access_equiv:
  assumes "unat sbit + unat bcnt \<le> 8 * length bm" and "unat sbit \<le> unat ebit"
    and "unat ebit \<le> 8 * length bm" and "8 * length bm < 2 ^ 32"
  shows "ext4_bmap_bits_free True bm sbit bcnt = ext4_bmap_bits_free False bm sbit bcnt \<and>
     ext4_bmap_bit_find_clr True bm sbit ebit = ext4_bmap_bit_find_clr False bm sbit ebit"
proof -
  have "ext4_bmap_bits_free True bm sbit bcnt = ext4_bmap_bits_free False bm sbit bcnt"
    using bits_free_correct [OF assms(1,4), of True] bits_free_correct [OF assms(1,4), of False]
    by (auto dest: cleared_unique)
  moreover have "ext4_bmap_bit_find_clr True bm sbit ebit = ext4_bmap_bit_find_clr False bm sbit ebit"
    using assms by (simp add: find_clr_complete)
  ultimately show ?thesis by simp
qed

theorem bitmap_unaligned_access_equiv_witness:
  "ext4_bmap_bits_free True (replicate 16 0xFF) 5 100 = ext4_bmap_bits_free False (replicate 16 0xFF) 5 100 \<and>
   ext4_bmap_bit_find_clr True (replicate 16 0xFF) 5 128 = ext4_bmap_bit_find_clr False (replicate 16 0xFF) 5 128"
  by (rule bitmap_unaligned_access_equiv) simp_all

end
