(* ===== verification/Checksum.thy ===== *)
theory Checksum
  imports Prelude
begin

text \<open>
  The table-driven checksums: \<^verbatim>\<open>ext4_crc32\<close> and \<^verbatim>\<open>ext4_crc32c\<close> of \<^verbatim>\<open>src/ext4_crc32.c\<close> and
  \<^verbatim>\<open>ext4_bg_crc16\<close> of \<^verbatim>\<open>src/ext4_block_group.c\<close>, with the source's tables. The lemmas relate
  them to the bit-serial division by the generator polynomial, and derive what a checksum guards
  against: every burst of changed bytes no longer than the checksum itself is detected.
\<close>

section \<open>The tables\<close>

definition crc32_tab :: "u32 list" where
  "crc32_tab = [
    0x00000000, 0x77073096, 0xee0e612c, 0x990951ba, 0x076dc419, 0x706af48f,
    0xe963a535, 0x9e6495a3, 0x0edb8832, 0x79dcb8a4, 0xe0d5e91e, 0x97d2d988,
    0x09b64c2b, 0x7eb17cbd, 0xe7b82d07, 0x90bf1d91, 0x1db71064, 0x6ab020f2,
    0xf3b97148, 0x84be41de, 0x1adad47d, 0x6ddde4eb, 0xf4d4b551, 0x83d385c7,
    0x136c9856, 0x646ba8c0, 0xfd62f97a, 0x8a65c9ec, 0x14015c4f, 0x63066cd9,
    0xfa0f3d63, 0x8d080df5, 0x3b6e20c8, 0x4c69105e, 0xd56041e4, 0xa2677172,
    0x3c03e4d1, 0x4b04d447, 0xd20d85fd, 0xa50ab56b, 0x35b5a8fa, 0x42b2986c,
    0xdbbbc9d6, 0xacbcf940, 0x32d86ce3, 0x45df5c75, 0xdcd60dcf, 0xabd13d59,
    0x26d930ac, 0x51de003a, 0xc8d75180, 0xbfd06116, 0x21b4f4b5, 0x56b3c423,
    0xcfba9599, 0xb8bda50f, 0x2802b89e, 0x5f058808, 0xc60cd9b2, 0xb10be924,
    0x2f6f7c87, 0x58684c11, 0xc1611dab, 0xb6662d3d, 0x76dc4190, 0x01db7106,
    0x98d220bc, 0xefd5102a, 0x71b18589, 0x06b6b51f, 0x9fbfe4a5, 0xe8b8d433,
    0x7807c9a2, 0x0f00f934, 0x9609a88e, 0xe10e9818, 0x7f6a0dbb, 0x086d3d2d,
    0x91646c97, 0xe6635c01, 0x6b6b51f4, 0x1c6c6162, 0x856530d8, 0xf262004e,
    0x6c0695ed, 0x1b01a57b, 0x8208f4c1, 0xf50fc457, 0x65b0d9c6, 0x12b7e950,
    0x8bbeb8ea, 0xfcb9887c, 0x62dd1ddf, 0x15da2d49, 0x8cd37cf3, 0xfbd44c65,
    0x4db26158, 0x3ab551ce, 0xa3bc0074, 0xd4bb30e2, 0x4adfa541, 0x3dd895d7,
    0xa4d1c46d, 0xd3d6f4fb, 0x4369e96a, 0x346ed9fc, 0xad678846, 0xda60b8d0,
    0x44042d73, 0x33031de5, 0xaa0a4c5f, 0xdd0d7cc9, 0x5005713c, 0x270241aa,
    0xbe0b1010, 0xc90c2086, 0x5768b525, 0x206f85b3, 0xb966d409, 0xce61e49f,
    0x5edef90e, 0x29d9c998, 0xb0d09822, 0xc7d7a8b4, 0x59b33d17, 0x2eb40d81,
    0xb7bd5c3b, 0xc0ba6cad, 0xedb88320, 0x9abfb3b6, 0x03b6e20c, 0x74b1d29a,
    0xead54739, 0x9dd277af, 0x04db2615, 0x73dc1683, 0xe3630b12, 0x94643b84,
    0x0d6d6a3e, 0x7a6a5aa8, 0xe40ecf0b, 0x9309ff9d, 0x0a00ae27, 0x7d079eb1,
    0xf00f9344, 0x8708a3d2, 0x1e01f268, 0x6906c2fe, 0xf762575d, 0x806567cb,
    0x196c3671, 0x6e6b06e7, 0xfed41b76, 0x89d32be0, 0x10da7a5a, 0x67dd4acc,
    0xf9b9df6f, 0x8ebeeff9, 0x17b7be43, 0x60b08ed5, 0xd6d6a3e8, 0xa1d1937e,
    0x38d8c2c4, 0x4fdff252, 0xd1bb67f1, 0xa6bc5767, 0x3fb506dd, 0x48b2364b,
    0xd80d2bda, 0xaf0a1b4c, 0x36034af6, 0x41047a60, 0xdf60efc3, 0xa867df55,
    0x316e8eef, 0x4669be79, 0xcb61b38c, 0xbc66831a, 0x256fd2a0, 0x5268e236,
    0xcc0c7795, 0xbb0b4703, 0x220216b9, 0x5505262f, 0xc5ba3bbe, 0xb2bd0b28,
    0x2bb45a92, 0x5cb36a04, 0xc2d7ffa7, 0xb5d0cf31, 0x2cd99e8b, 0x5bdeae1d,
    0x9b64c2b0, 0xec63f226, 0x756aa39c, 0x026d930a, 0x9c0906a9, 0xeb0e363f,
    0x72076785, 0x05005713, 0x95bf4a82, 0xe2b87a14, 0x7bb12bae, 0x0cb61b38,
    0x92d28e9b, 0xe5d5be0d, 0x7cdcefb7, 0x0bdbdf21, 0x86d3d2d4, 0xf1d4e242,
    0x68ddb3f8, 0x1fda836e, 0x81be16cd, 0xf6b9265b, 0x6fb077e1, 0x18b74777,
    0x88085ae6, 0xff0f6a70, 0x66063bca, 0x11010b5c, 0x8f659eff, 0xf862ae69,
    0x616bffd3, 0x166ccf45, 0xa00ae278, 0xd70dd2ee, 0x4e048354, 0x3903b3c2,
    0xa7672661, 0xd06016f7, 0x4969474d, 0x3e6e77db, 0xaed16a4a, 0xd9d65adc,
    0x40df0b66, 0x37d83bf0, 0xa9bcae53, 0xdebb9ec5, 0x47b2cf7f, 0x30b5ffe9,
    0xbdbdf21c, 0xcabac28a, 0x53b39330, 0x24b4a3a6, 0xbad03605, 0xcdd70693,
    0x54de5729, 0x23d967bf, 0xb3667a2e, 0xc4614ab8, 0x5d681b02, 0x2a6f2b94,
    0xb40bbe37, 0xc30c8ea1, 0x5a05df1b, 0x2d02ef8d]"

definition crc32c_tab :: "u32 list" where
  "crc32c_tab = [
    0x00000000, 0xF26B8303, 0xE13B70F7, 0x1350F3F4, 0xC79A971F, 0x35F1141C,
    0x26A1E7E8, 0xD4CA64EB, 0x8AD958CF, 0x78B2DBCC, 0x6BE22838, 0x9989AB3B,
    0x4D43CFD0, 0xBF284CD3, 0xAC78BF27, 0x5E133C24, 0x105EC76F, 0xE235446C,
    0xF165B798, 0x030E349B, 0xD7C45070, 0x25AFD373, 0x36FF2087, 0xC494A384,
    0x9A879FA0, 0x68EC1CA3, 0x7BBCEF57, 0x89D76C54, 0x5D1D08BF, 0xAF768BBC,
    0xBC267848, 0x4E4DFB4B, 0x20BD8EDE, 0xD2D60DDD, 0xC186FE29, 0x33ED7D2A,
    0xE72719C1, 0x154C9AC2, 0x061C6936, 0xF477EA35, 0xAA64D611, 0x580F5512,
    0x4B5FA6E6, 0xB93425E5, 0x6DFE410E, 0x9F95C20D, 0x8CC531F9, 0x7EAEB2FA,
    0x30E349B1, 0xC288CAB2, 0xD1D83946, 0x23B3BA45, 0xF779DEAE, 0x05125DAD,
    0x1642AE59, 0xE4292D5A, 0xBA3A117E, 0x4851927D, 0x5B016189, 0xA96AE28A,
    0x7DA08661, 0x8FCB0562, 0x9C9BF696, 0x6EF07595, 0x417B1DBC, 0xB3109EBF,
    0xA0406D4B, 0x522BEE48, 0x86E18AA3, 0x748A09A0, 0x67DAFA54, 0x95B17957,
    0xCBA24573, 0x39C9C670, 0x2A993584, 0xD8F2B687, 0x0C38D26C, 0xFE53516F,
    0xED03A29B, 0x1F682198, 0x5125DAD3, 0xA34E59D0, 0xB01EAA24, 0x42752927,
    0x96BF4DCC, 0x64D4CECF, 0x77843D3B, 0x85EFBE38, 0xDBFC821C, 0x2997011F,
    0x3AC7F2EB, 0xC8AC71E8, 0x1C661503, 0xEE0D9600, 0xFD5D65F4, 0x0F36E6F7,
    0x61C69362, 0x93AD1061, 0x80FDE395, 0x72966096, 0xA65C047D, 0x5437877E,
    0x4767748A, 0xB50CF789, 0xEB1FCBAD, 0x197448AE, 0x0A24BB5A, 0xF84F3859,
    0x2C855CB2, 0xDEEEDFB1, 0xCDBE2C45, 0x3FD5AF46, 0x7198540D, 0x83F3D70E,
    0x90A324FA, 0x62C8A7F9, 0xB602C312, 0x44694011, 0x5739B3E5, 0xA55230E6,
    0xFB410CC2, 0x092A8FC1, 0x1A7A7C35, 0xE811FF36, 0x3CDB9BDD, 0xCEB018DE,
    0xDDE0EB2A, 0x2F8B6829, 0x82F63B78, 0x709DB87B, 0x63CD4B8F, 0x91A6C88C,
    0x456CAC67, 0xB7072F64, 0xA457DC90, 0x563C5F93, 0x082F63B7, 0xFA44E0B4,
    0xE9141340, 0x1B7F9043, 0xCFB5F4A8, 0x3DDE77AB, 0x2E8E845F, 0xDCE5075C,
    0x92A8FC17, 0x60C37F14, 0x73938CE0, 0x81F80FE3, 0x55326B08, 0xA759E80B,
    0xB4091BFF, 0x466298FC, 0x1871A4D8, 0xEA1A27DB, 0xF94AD42F, 0x0B21572C,
    0xDFEB33C7, 0x2D80B0C4, 0x3ED04330, 0xCCBBC033, 0xA24BB5A6, 0x502036A5,
    0x4370C551, 0xB11B4652, 0x65D122B9, 0x97BAA1BA, 0x84EA524E, 0x7681D14D,
    0x2892ED69, 0xDAF96E6A, 0xC9A99D9E, 0x3BC21E9D, 0xEF087A76, 0x1D63F975,
    0x0E330A81, 0xFC588982, 0xB21572C9, 0x407EF1CA, 0x532E023E, 0xA145813D,
    0x758FE5D6, 0x87E466D5, 0x94B49521, 0x66DF1622, 0x38CC2A06, 0xCAA7A905,
    0xD9F75AF1, 0x2B9CD9F2, 0xFF56BD19, 0x0D3D3E1A, 0x1E6DCDEE, 0xEC064EED,
    0xC38D26C4, 0x31E6A5C7, 0x22B65633, 0xD0DDD530, 0x0417B1DB, 0xF67C32D8,
    0xE52CC12C, 0x1747422F, 0x49547E0B, 0xBB3FFD08, 0xA86F0EFC, 0x5A048DFF,
    0x8ECEE914, 0x7CA56A17, 0x6FF599E3, 0x9D9E1AE0, 0xD3D3E1AB, 0x21B862A8,
    0x32E8915C, 0xC083125F, 0x144976B4, 0xE622F5B7, 0xF5720643, 0x07198540,
    0x590AB964, 0xAB613A67, 0xB831C993, 0x4A5A4A90, 0x9E902E7B, 0x6CFBAD78,
    0x7FAB5E8C, 0x8DC0DD8F, 0xE330A81A, 0x115B2B19, 0x020BD8ED, 0xF0605BEE,
    0x24AA3F05, 0xD6C1BC06, 0xC5914FF2, 0x37FACCF1, 0x69E9F0D5, 0x9B8273D6,
    0x88D28022, 0x7AB90321, 0xAE7367CA, 0x5C18E4C9, 0x4F48173D, 0xBD23943E,
    0xF36E6F75, 0x0105EC76, 0x12551F82, 0xE03E9C81, 0x34F4F86A, 0xC69F7B69,
    0xD5CF889D, 0x27A40B9E, 0x79B737BA, 0x8BDCB4B9, 0x988C474D, 0x6AE7C44E,
    0xBE2DA0A5, 0x4C4623A6, 0x5F16D052, 0xAD7D5351]"

definition crc16_tab :: "u16 list" where
  "crc16_tab = [
    0x0000, 0xC0C1, 0xC181, 0x0140, 0xC301, 0x03C0, 0x0280, 0xC241, 0xC601,
    0x06C0, 0x0780, 0xC741, 0x0500, 0xC5C1, 0xC481, 0x0440, 0xCC01, 0x0CC0,
    0x0D80, 0xCD41, 0x0F00, 0xCFC1, 0xCE81, 0x0E40, 0x0A00, 0xCAC1, 0xCB81,
    0x0B40, 0xC901, 0x09C0, 0x0880, 0xC841, 0xD801, 0x18C0, 0x1980, 0xD941,
    0x1B00, 0xDBC1, 0xDA81, 0x1A40, 0x1E00, 0xDEC1, 0xDF81, 0x1F40, 0xDD01,
    0x1DC0, 0x1C80, 0xDC41, 0x1400, 0xD4C1, 0xD581, 0x1540, 0xD701, 0x17C0,
    0x1680, 0xD641, 0xD201, 0x12C0, 0x1380, 0xD341, 0x1100, 0xD1C1, 0xD081,
    0x1040, 0xF001, 0x30C0, 0x3180, 0xF141, 0x3300, 0xF3C1, 0xF281, 0x3240,
    0x3600, 0xF6C1, 0xF781, 0x3740, 0xF501, 0x35C0, 0x3480, 0xF441, 0x3C00,
    0xFCC1, 0xFD81, 0x3D40, 0xFF01, 0x3FC0, 0x3E80, 0xFE41, 0xFA01, 0x3AC0,
    0x3B80, 0xFB41, 0x3900, 0xF9C1, 0xF881, 0x3840, 0x2800, 0xE8C1, 0xE981,
    0x2940, 0xEB01, 0x2BC0, 0x2A80, 0xEA41, 0xEE01, 0x2EC0, 0x2F80, 0xEF41,
    0x2D00, 0xEDC1, 0xEC81, 0x2C40, 0xE401, 0x24C0, 0x2580, 0xE541, 0x2700,
    0xE7C1, 0xE681, 0x2640, 0x2200, 0xE2C1, 0xE381, 0x2340, 0xE101, 0x21C0,
    0x2080, 0xE041, 0xA001, 0x60C0, 0x6180, 0xA141, 0x6300, 0xA3C1, 0xA281,
    0x6240, 0x6600, 0xA6C1, 0xA781, 0x6740, 0xA501, 0x65C0, 0x6480, 0xA441,
    0x6C00, 0xACC1, 0xAD81, 0x6D40, 0xAF01, 0x6FC0, 0x6E80, 0xAE41, 0xAA01,
    0x6AC0, 0x6B80, 0xAB41, 0x6900, 0xA9C1, 0xA881, 0x6840, 0x7800, 0xB8C1,
    0xB981, 0x7940, 0xBB01, 0x7BC0, 0x7A80, 0xBA41, 0xBE01, 0x7EC0, 0x7F80,
    0xBF41, 0x7D00, 0xBDC1, 0xBC81, 0x7C40, 0xB401, 0x74C0, 0x7580, 0xB541,
    0x7700, 0xB7C1, 0xB681, 0x7640, 0x7200, 0xB2C1, 0xB381, 0x7340, 0xB101,
    0x71C0, 0x7080, 0xB041, 0x5000, 0x90C1, 0x9181, 0x5140, 0x9301, 0x53C0,
    0x5280, 0x9241, 0x9601, 0x56C0, 0x5780, 0x9741, 0x5500, 0x95C1, 0x9481,
    0x5440, 0x9C01, 0x5CC0, 0x5D80, 0x9D41, 0x5F00, 0x9FC1, 0x9E81, 0x5E40,
    0x5A00, 0x9AC1, 0x9B81, 0x5B40, 0x9901, 0x59C0, 0x5880, 0x9841, 0x8801,
    0x48C0, 0x4980, 0x8941, 0x4B00, 0x8BC1, 0x8A81, 0x4A40, 0x4E00, 0x8EC1,
    0x8F81, 0x4F40, 0x8D01, 0x4DC0, 0x4C80, 0x8C41, 0x4400, 0x84C1, 0x8581,
    0x4540, 0x8701, 0x47C0, 0x4680, 0x8641, 0x8201, 0x42C0, 0x4380, 0x8341,
    0x4100, 0x81C1, 0x8081, 0x4040]"

section \<open>The checksum loops\<close>

text \<open>
  \<open>crc32\<close> is the loop of the source: \<^verbatim>\<open>crc = tab[(crc ^ *p++) & 0xFF] ^ (crc >> 8)\<close> for each of the
  \<^verbatim>\<open>size\<close> bytes of the buffer.
\<close>

fun crc32 :: "u32 \<Rightarrow> u8 list \<Rightarrow> u32 list \<Rightarrow> u32" where
  "crc32 crc [] tab = crc"
| "crc32 crc (b # bs) tab =
     crc32 (tab ! unat ((crc XOR ucast b) AND 0xFF) XOR drop_bit 8 crc) bs tab"

definition ext4_crc32 :: "u32 \<Rightarrow> u8 list \<Rightarrow> u32" where
  "ext4_crc32 crc buf = crc32 crc buf crc32_tab"

definition ext4_crc32c :: "u32 \<Rightarrow> u8 list \<Rightarrow> u32" where
  "ext4_crc32c crc buf = crc32 crc buf crc32c_tab"

fun ext4_bg_crc16 :: "u16 \<Rightarrow> u8 list \<Rightarrow> u16" where
  "ext4_bg_crc16 crc [] = crc"
| "ext4_bg_crc16 crc (b # bs) =
     ext4_bg_crc16
       ((drop_bit 8 crc AND 0xFF) XOR crc16_tab ! unat ((crc XOR ucast b) AND 0xFF)) bs"

definition EXT4_CRC32_INIT :: u32 where
  "EXT4_CRC32_INIT = 0xFFFFFFFF"

section \<open>Bit-serial division by the generator\<close>

text \<open>
  One step of the reflected shift register: shift right, and subtract the (reversed) generator when
  the bit shifted out is one. The generators are \<^verbatim>\<open>0x04C11DB7\<close>, \<^verbatim>\<open>0x1EDC6F41\<close> and \<^verbatim>\<open>0x8005\<close>, written
  with their bits reversed.
\<close>

definition crc_bit_step :: "'a::len word \<Rightarrow> 'a word \<Rightarrow> 'a word" where
  "crc_bit_step poly c = (if bit c 0 then drop_bit 1 c XOR poly else drop_bit 1 c)"

fun crc_serial :: "'a::len word \<Rightarrow> 'a word \<Rightarrow> u8 list \<Rightarrow> 'a word" where
  "crc_serial poly c [] = c"
| "crc_serial poly c (b # bs) = crc_serial poly ((crc_bit_step poly ^^ 8) (c XOR ucast b)) bs"

definition poly_crc32 :: u32 where "poly_crc32 = 0xEDB88320"
definition poly_crc32c :: u32 where "poly_crc32c = 0x82F63B78"
definition poly_crc16 :: u16 where "poly_crc16 = 0xA001"

text \<open>The register is linear over exclusive or.\<close>

lemma crc_bit_step_xor:
  "crc_bit_step poly (x XOR y) = crc_bit_step poly x XOR crc_bit_step poly y"
  by (simp add: crc_bit_step_def bit_xor_iff drop_bit_xor xor.assoc xor.left_commute xor.commute)

lemma crc_steps_xor:
  "(crc_bit_step poly ^^ n) (x XOR y) = (crc_bit_step poly ^^ n) x XOR (crc_bit_step poly ^^ n) y"
  by (induction n) (simp_all add: crc_bit_step_xor)

lemma crc_bit_step_0 [simp]: "crc_bit_step poly 0 = 0"
  by (simp add: crc_bit_step_def)

lemma crc_steps_0 [simp]: "(crc_bit_step poly ^^ n) 0 = 0"
  by (induction n) simp_all

text \<open>A value whose low \<open>n\<close> bits are zero is only shifted.\<close>

lemma crc_steps_shift:
  "(\<And>k. k < n \<Longrightarrow> \<not> bit x k) \<Longrightarrow> (crc_bit_step poly ^^ n) x = drop_bit n x"
proof (induction n)
  case 0
  then show ?case by simp
next
  case (Suc n)
  then have "\<not> bit (drop_bit n x) 0" by (simp add: bit_simps)
  with Suc show ?case by (simp add: crc_bit_step_def)
qed

lemma crc_bit_step_eq_0:
  fixes poly :: "'a::len word"
  assumes "bit poly (LENGTH('a) - 1)"
  shows "crc_bit_step poly c = 0 \<longleftrightarrow> c = 0"
proof
  assume z: "crc_bit_step poly c = 0"
  show "c = 0"
  proof (cases "bit c 0")
    case True
    with z have "drop_bit 1 c = poly"
      by (simp add: crc_bit_step_def) (metis xor_self_eq xor.assoc xor.right_neutral xor.commute)
    moreover have "\<not> bit (drop_bit 1 c) (LENGTH('a) - 1)"
      by (auto simp: bit_simps dest: bit_imp_le_length)
    ultimately show ?thesis using assms by simp
  next
    case False
    with z have "drop_bit 1 c = 0" by (simp add: crc_bit_step_def)
    then have "bit c (Suc k) = False" for k
      by (metis bit_0_eq bit_drop_bit_eq bot_apply bot_bool_def comp_apply plus_1_eq_Suc)
    with False show ?thesis
      by (metis bit_eqI bit_0_eq bot_apply bot_bool_def not0_implies_Suc)
  qed
next
  assume "c = 0"
  then show "crc_bit_step poly c = 0" by simp
qed

lemma crc_steps_eq_0:
  fixes poly :: "'a::len word"
  assumes "bit poly (LENGTH('a) - 1)"
  shows "(crc_bit_step poly ^^ n) c = 0 \<longleftrightarrow> c = 0"
  by (induction n) (simp_all add: crc_bit_step_eq_0 [OF assms])

lemma crc_steps_inj:
  fixes poly :: "'a::len word"
  assumes "bit poly (LENGTH('a) - 1)" and "(crc_bit_step poly ^^ n) x = (crc_bit_step poly ^^ n) y"
  shows "x = y"
proof -
  have "(crc_bit_step poly ^^ n) (x XOR y) = 0" using assms(2) by (simp add: crc_steps_xor)
  then have "x XOR y = 0" using crc_steps_eq_0 [OF assms(1)] by blast
  then show ?thesis by (metis xor.assoc xor.right_neutral xor_self_eq xor.left_neutral)
qed

section \<open>The tables hold the register after eight steps\<close>

text \<open>
  By linearity a table is spanned by its entries at the powers of two: each of the eight
  entries doubles the table.
\<close>

fun crc_span :: "'a::len word list \<Rightarrow> 'a word list" where
  "crc_span [] = [0]"
| "crc_span (b # bs) = crc_span bs @ map (\<lambda>x. b XOR x) (crc_span bs)"

lemma length_crc_span: "length (crc_span bs) = 2 ^ length bs"
  by (induction bs) simp_all

lemma crc_span_nth:
  assumes "\<And>k. k < length bs \<Longrightarrow> bs ! k = (crc_bit_step poly ^^ 8) (of_nat (2 ^ (length bs - 1 - k)))"
    and "i < 2 ^ length bs" and "length bs \<le> LENGTH('a)"
  shows "crc_span bs ! i = (crc_bit_step (poly :: 'a::len word) ^^ 8) (of_nat i)"
  using assms
proof (induction bs arbitrary: i)
  case Nil
  then show ?case by simp
next
  case (Cons b bs)
  have IH: "crc_span bs ! j = (crc_bit_step poly ^^ 8) (of_nat j)" if "j < 2 ^ length bs" for j
  proof (rule Cons.IH [OF _ that])
    fix k assume "k < length bs"
    then show "bs ! k = (crc_bit_step poly ^^ 8) (of_nat (2 ^ (length bs - 1 - k)))"
      using Cons.prems(1) [of "Suc k"] by simp
  qed (use Cons.prems in simp)
  have b: "b = (crc_bit_step poly ^^ 8) (of_nat (2 ^ length bs))" using Cons.prems(1) [of 0] by simp
  show ?case
  proof (cases "i < 2 ^ length bs")
    case True
    then show ?thesis by (simp add: nth_append length_crc_span IH)
  next
    case False
    define j where "j = i - 2 ^ length bs"
    have j: "i = 2 ^ length bs + j" "j < 2 ^ length bs" using False Cons.prems(2) by (auto simp: j_def)
    have "(of_nat (2 ^ length bs) :: 'a word) XOR of_nat j = of_nat i"
    proof (rule bit_word_eqI)
      fix n assume n: "n < LENGTH('a)"
      have "bit (2 ^ length bs + j) n = (n = length bs \<or> bit j n)"
      proof -
        have nb: "\<not> bit j m" if "length bs \<le> m" for m
        proof -
          have "j < 2 ^ m" using j(2) that by (meson less_le_trans one_le_numeral power_increasing)
          then show ?thesis by (simp add: bit_iff_odd)
        qed
        have "(2 ^ length bs :: nat) + j = 2 ^ length bs OR j"
          by (rule disjunctive_add) (use nb in \<open>auto simp: bit_simps\<close>)
        then show ?thesis by (auto simp: bit_simps)
      qed
      moreover have "\<not> bit j (length bs)" using j(2) by (simp add: bit_iff_odd)
      ultimately show "bit ((of_nat (2 ^ length bs) :: 'a word) XOR of_nat j) n = bit (of_nat i :: 'a word) n"
        using n j(1) by (auto simp: bit_simps simp del: of_nat_add)
    qed
    then have "(crc_bit_step poly ^^ 8) (of_nat i) = b XOR (crc_bit_step poly ^^ 8) (of_nat j)"
      using b by (metis crc_steps_xor)
    with j show ?thesis by (simp add: nth_append length_crc_span IH)
  qed
qed

lemma crc32_tab_span:
  "crc32_tab = crc_span [0xEDB88320, 0x76DC4190, 0x3B6E20C8, 0x1DB71064,
     0x0EDB8832, 0x076DC419, 0xEE0E612C, 0x77073096]"
  by (simp add: crc32_tab_def)

lemma crc32c_tab_span:
  "crc32c_tab = crc_span [0x82F63B78, 0x417B1DBC, 0x20BD8EDE, 0x105EC76F,
     0x8AD958CF, 0xC79A971F, 0xE13B70F7, 0xF26B8303]"
  by (simp add: crc32c_tab_def)

lemma crc16_tab_span:
  "crc16_tab = crc_span [0xA001, 0xF001, 0xD801, 0xCC01, 0xC601, 0xC301, 0xC181, 0xC0C1]"
  by (simp add: crc16_tab_def)

lemma funpow_8: "(f ^^ 8) x = f (f (f (f (f (f (f (f x)))))))"
  by (simp add: numeral_eq_Suc)

lemma all_lt_8: "(\<forall>k. k < (8 :: nat) \<longrightarrow> P k) \<longleftrightarrow> P 0 \<and> P 1 \<and> P 2 \<and> P 3 \<and> P 4 \<and> P 5 \<and> P 6 \<and> P 7"
  by (auto simp: All_less_Suc eval_nat_numeral)

lemma crc_span_nth_8:
  fixes poly :: "'a::len word"
  assumes "\<forall>k. k < 8 \<longrightarrow> bs ! k = (crc_bit_step poly ^^ 8) (of_nat (2 ^ (7 - k)))"
    and "length bs = 8" and "i < 256" and "8 \<le> LENGTH('a)"
  shows "crc_span bs ! i = (crc_bit_step poly ^^ 8) (of_nat i)"
  by (rule crc_span_nth) (use assms in simp_all)

lemma crc32_tab_nth:
  assumes "i < 256"
  shows "crc32_tab ! i = (crc_bit_step poly_crc32 ^^ 8) (of_nat i)"
proof -
  let ?bs = "[0xEDB88320, 0x76DC4190, 0x3B6E20C8, 0x1DB71064,
     0x0EDB8832, 0x076DC419, 0xEE0E612C, 0x77073096] :: u32 list"
  have "\<forall>k. k < 8 \<longrightarrow> ?bs ! k = (crc_bit_step poly_crc32 ^^ 8) (of_nat (2 ^ (7 - k)))"
    unfolding all_lt_8 by (simp add: funpow_8 crc_bit_step_def poly_crc32_def)
  then show ?thesis
    unfolding crc32_tab_span using assms by (intro crc_span_nth_8) simp_all
qed

lemma crc32c_tab_nth:
  assumes "i < 256"
  shows "crc32c_tab ! i = (crc_bit_step poly_crc32c ^^ 8) (of_nat i)"
proof -
  let ?bs = "[0x82F63B78, 0x417B1DBC, 0x20BD8EDE, 0x105EC76F,
     0x8AD958CF, 0xC79A971F, 0xE13B70F7, 0xF26B8303] :: u32 list"
  have "\<forall>k. k < 8 \<longrightarrow> ?bs ! k = (crc_bit_step poly_crc32c ^^ 8) (of_nat (2 ^ (7 - k)))"
    unfolding all_lt_8 by (simp add: funpow_8 crc_bit_step_def poly_crc32c_def)
  then show ?thesis
    unfolding crc32c_tab_span using assms by (intro crc_span_nth_8) simp_all
qed

lemma crc16_tab_nth:
  assumes "i < 256"
  shows "crc16_tab ! i = (crc_bit_step poly_crc16 ^^ 8) (of_nat i)"
proof -
  let ?bs = "[0xA001, 0xF001, 0xD801, 0xCC01, 0xC601, 0xC301, 0xC181, 0xC0C1] :: u16 list"
  have "\<forall>k. k < 8 \<longrightarrow> ?bs ! k = (crc_bit_step poly_crc16 ^^ 8) (of_nat (2 ^ (7 - k)))"
    unfolding all_lt_8 by (simp add: funpow_8 crc_bit_step_def poly_crc16_def)
  then show ?thesis
    unfolding crc16_tab_span using assms by (intro crc_span_nth_8) simp_all
qed

section \<open>The loops compute the bit-serial checksum\<close>

text \<open>The identity behind the table method: eight steps act on the low byte and shift the rest.\<close>

lemma crc_steps_8_split:
  fixes c :: "'a::len word"
  assumes "8 \<le> LENGTH('a)"
  shows "(crc_bit_step poly ^^ 8) c = (crc_bit_step poly ^^ 8) (c AND 0xFF) XOR drop_bit 8 c"
proof -
  have m: "(0xFF :: 'a word) = mask 8" by (simp add: mask_eq_exp_minus_1)
  define hi where "hi = c AND NOT 0xFF"
  have "c = (c AND 0xFF) XOR hi"
    by (rule bit_word_eqI) (auto simp: hi_def bit_simps)
  moreover have "(crc_bit_step poly ^^ 8) hi = drop_bit 8 hi"
    by (rule crc_steps_shift) (auto simp: hi_def m bit_simps)
  moreover have "drop_bit 8 hi = drop_bit 8 c"
    by (rule bit_word_eqI) (auto simp: hi_def m bit_simps dest: bit_imp_le_length)
  ultimately show ?thesis by (metis crc_steps_xor)
qed

lemma drop_bit_ucast8: "drop_bit 8 (ucast (b :: u8) :: 'a::len word) = 0"
  by (rule bit_word_eqI) (auto simp: bit_simps dest: bit_imp_le_length)

lemma crc_table_step:
  fixes c :: "'a::len word"
  assumes "8 \<le> LENGTH('a)" and "\<And>i. i < 256 \<Longrightarrow> tab ! i = (crc_bit_step poly ^^ 8) (of_nat i)"
  shows "tab ! unat ((c XOR ucast (b :: u8)) AND 0xFF) XOR drop_bit 8 c =
     (crc_bit_step poly ^^ 8) (c XOR ucast b)"
proof -
  let ?i = "(c XOR ucast b) AND 0xFF"
  have m: "(0xFF :: 'a word) = mask 8" by (simp add: mask_eq_exp_minus_1)
  have "unat ?i < 256"
  proof -
    have "?i = take_bit 8 (c XOR ucast b)" by (simp only: m take_bit_eq_mask)
    then have "unat ?i = take_bit 8 (unat (c XOR ucast b))" by (simp only: unsigned_take_bit_eq)
    also have "\<dots> < 2 ^ 8" by (rule take_bit_nat_less_exp)
    finally show ?thesis by simp
  qed
  then have "tab ! unat ?i = (crc_bit_step poly ^^ 8) ?i" using assms(2) by simp
  then show ?thesis
    using crc_steps_8_split [OF assms(1), of poly "c XOR ucast b"]
    by (simp add: drop_bit_ucast8)
qed

lemma crc32_serial:
  "(\<And>i. i < 256 \<Longrightarrow> tab ! i = (crc_bit_step poly ^^ 8) (of_nat i)) \<Longrightarrow>
   crc32 c buf tab = crc_serial poly c buf"
  by (induction c buf tab rule: crc32.induct) (simp_all add: crc_table_step)

lemma crc16_serial: "ext4_bg_crc16 c buf = crc_serial poly_crc16 c buf"
proof (induction c buf rule: ext4_bg_crc16.induct)
  case (1 crc)
  then show ?case by simp
next
  case (2 crc b bs)
  have "drop_bit 8 crc AND 0xFF = drop_bit 8 crc"
  proof (rule bit_word_eqI)
    fix n assume "n < LENGTH(16)"
    moreover have "bit (0xFF :: u16) n = (n < 8)" if "n < 16" for n
    proof -
      have "(0xFF :: u16) = mask 8" by (simp add: mask_eq_exp_minus_1)
      with that show ?thesis by (simp only: bit_mask_iff) simp
    qed
    ultimately show "bit (drop_bit 8 crc AND 0xFF) n = bit (drop_bit 8 crc) n"
      by (auto simp: bit_simps dest: bit_imp_le_length)
  qed
  with 2 show ?case
    using crc_table_step [of crc16_tab poly_crc16 crc b] crc16_tab_nth
    by (simp add: xor.commute)
qed

lemmas crc_serial_eqs =
  ext4_crc32_def ext4_crc32c_def crc32_serial [OF crc32_tab_nth] crc32_serial [OF crc32c_tab_nth]
  crc16_serial

section \<open>Error detection\<close>

text \<open>The bytes of a short burst as one word, first byte lowest.\<close>

fun crc_word :: "u8 list \<Rightarrow> 'a::len word" where
  "crc_word [] = 0"
| "crc_word (b # bs) = ucast b XOR push_bit 8 (crc_word bs)"

lemma crc_word_bound: "bit (crc_word bs :: 'a::len word) n \<Longrightarrow> n < 8 * length bs"
proof (induction bs arbitrary: n)
  case Nil
  then show ?case by simp
next
  case (Cons b bs)
  show ?case
  proof (cases "n < 8")
    case False
    then have "\<not> bit (ucast b :: 'a word) n" by (auto simp: bit_simps dest: bit_imp_le_length)
    with Cons.prems False have "bit (crc_word bs :: 'a word) (n - 8)" by (auto simp: bit_simps)
    from Cons.IH [OF this] False show ?thesis by simp
  qed simp
qed

lemma crc_serial_word:
  fixes c :: "'a::len word"
  assumes "8 * length bs \<le> LENGTH('a)"
  shows "crc_serial poly c bs = (crc_bit_step poly ^^ (8 * length bs)) (c XOR crc_word bs)"
  using assms
proof (induction bs arbitrary: c)
  case Nil
  then show ?case by simp
next
  case (Cons b bs)
  let ?S = "crc_bit_step poly ^^ 8"
  let ?w = "crc_word bs :: 'a word"
  have "?S (push_bit 8 ?w) = drop_bit 8 (push_bit 8 ?w)"
    by (rule crc_steps_shift) (simp add: bit_simps)
  also have "\<dots> = ?w"
  proof (rule bit_word_eqI)
    fix n assume "n < LENGTH('a)"
    show "bit (drop_bit 8 (push_bit 8 ?w)) n = bit ?w n"
      using crc_word_bound [of bs n, where ?'a = 'a] Cons.prems by (auto simp: bit_simps)
  qed
  finally have w: "?S (push_bit 8 ?w) = ?w" .
  have "crc_serial poly c (b # bs) = (crc_bit_step poly ^^ (8 * length bs)) (?S (c XOR ucast b) XOR ?w)"
    using Cons by simp
  also have "?S (c XOR ucast b) XOR ?w = ?S (c XOR crc_word (b # bs))"
    by (simp add: crc_steps_xor w xor.assoc)
  also have "(crc_bit_step poly ^^ (8 * length bs)) (?S (c XOR crc_word (b # bs))) =
      (crc_bit_step poly ^^ (8 * length (b # bs))) (c XOR crc_word (b # bs))"
    by (simp add: funpow_add add.commute [of 8])
  finally show ?case .
qed

lemma crc_word_inj:
  assumes "length xs = length ys" and "8 * length xs \<le> LENGTH('a::len)"
    and "(crc_word xs :: 'a word) = crc_word ys"
  shows "xs = ys"
  using assms
proof (induction xs ys rule: list_induct2)
  case Nil
  then show ?case by simp
next
  case (Cons x xs y ys)
  have w: "(ucast x XOR push_bit 8 (crc_word xs)) = (ucast y XOR push_bit 8 (crc_word ys) :: 'a word)"
    using Cons.prems by simp
  have "bit x n = bit y n" if "n < 8" for n
    using arg_cong [OF w, of "\<lambda>v. bit v n"] that Cons.prems by (simp add: bit_simps)
  then have xy: "x = y" by (intro bit_word_eqI) simp
  have "(crc_word xs :: 'a word) = crc_word ys"
  proof (rule bit_word_eqI)
    fix n assume "n < LENGTH('a)"
    show "bit (crc_word xs :: 'a word) n = bit (crc_word ys :: 'a word) n"
    proof (cases "8 + n < LENGTH('a)")
      case True
      have "bit (push_bit 8 (crc_word xs) :: 'a word) (8 + n) =
          bit (push_bit 8 (crc_word ys) :: 'a word) (8 + n)"
        using arg_cong [OF w, of "\<lambda>v. bit v (8 + n)"] by (simp only: bit_xor_iff xy) blast
      with True show ?thesis by (simp add: bit_push_bit_iff)
    next
      case False
      then have "8 * length xs \<le> n" "8 * length ys \<le> n"
        using Cons.prems(1) Cons.hyps by simp_all
      then show ?thesis
        using crc_word_bound [of xs n, where ?'a = 'a] crc_word_bound [of ys n, where ?'a = 'a]
        by linarith
    qed
  qed
  with Cons xy show ?case by simp
qed

lemma crc_serial_append: "crc_serial poly c (xs @ ys) = crc_serial poly (crc_serial poly c xs) ys"
  by (induction xs arbitrary: c) simp_all

lemma crc_serial_inj:
  fixes c d :: "'a::len word"
  assumes "bit poly (LENGTH('a) - 1)" and "crc_serial poly c bs = crc_serial poly d bs"
  shows "c = d"
  using assms(2)
proof (induction bs arbitrary: c d)
  case Nil
  then show ?case by simp
next
  case (Cons b bs)
  then have "(crc_bit_step poly ^^ 8) (c XOR ucast b) = (crc_bit_step poly ^^ 8) (d XOR ucast b)"
    by simp
  from crc_steps_inj [OF assms(1) this] show ?case
    by (metis xor.assoc xor.right_neutral xor_self_eq)
qed

text \<open>
  Two messages of the same length that differ only inside a window no wider than the register have
  different checksums.
\<close>

lemma crc_serial_burst:
  fixes c :: "'a::len word"
  assumes "bit poly (LENGTH('a) - 1)" and "length xs = length ys" and "8 * length xs \<le> LENGTH('a)"
    and "xs \<noteq> ys"
  shows "crc_serial poly c (pre @ xs @ post) \<noteq> crc_serial poly c (pre @ ys @ post)"
proof
  let ?c = "crc_serial poly c pre"
  assume "crc_serial poly c (pre @ xs @ post) = crc_serial poly c (pre @ ys @ post)"
  then have "crc_serial poly ?c xs = crc_serial poly ?c ys"
    by (auto simp: crc_serial_append intro: crc_serial_inj [OF assms(1)])
  then have "?c XOR crc_word xs = ?c XOR crc_word ys"
    using assms by (auto simp: crc_serial_word intro: crc_steps_inj [OF assms(1)])
  then have "(crc_word xs :: 'a word) = crc_word ys"
    by (metis xor.assoc xor.left_neutral xor_self_eq)
  with assms crc_word_inj show False by blast
qed

lemma poly_top_bits:
  "bit poly_crc32 (LENGTH(32) - 1)" "bit poly_crc32c (LENGTH(32) - 1)"
  "bit poly_crc16 (LENGTH(16) - 1)"
  by (simp_all add: poly_crc32_def poly_crc32c_def poly_crc16_def)

text \<open>Checksumming in pieces, as the code does with the volume id, the block group number and
  the data.\<close>

lemma ext4_crc32c_append: "ext4_crc32c c (xs @ ys) = ext4_crc32c (ext4_crc32c c xs) ys"
  by (simp add: crc_serial_eqs crc_serial_append)

lemma ext4_bg_crc16_append: "ext4_bg_crc16 c (xs @ ys) = ext4_bg_crc16 (ext4_bg_crc16 c xs) ys"
  by (simp add: crc_serial_eqs crc_serial_append)

section \<open>Properties\<close>

text \<open>
  C13: the table-driven loops compute the cyclic redundancy checks they name. For every start value
  and every buffer, \<open>ext4_crc32\<close>, \<open>ext4_crc32c\<close> and \<open>ext4_bg_crc16\<close> (with all 256
  entries of each of the source's tables) equal the bit-serial division by the reversed generators
  \<^verbatim>\<open>0xEDB88320\<close>, \<^verbatim>\<open>0x82F63B78\<close> (Castagnoli) and \<^verbatim>\<open>0xA001\<close>.
\<close>

theorem checksums_are_bit_serial_crc:
  "ext4_crc32 c buf = crc_serial 0xEDB88320 c buf \<and>
   ext4_crc32c c buf = crc_serial 0x82F63B78 c buf \<and>
   ext4_bg_crc16 d buf = crc_serial 0xA001 d buf"
  by (simp add: crc_serial_eqs poly_crc32_def poly_crc32c_def poly_crc16_def)

text \<open>
  C31: a checksum detects every short burst. If two buffers of equal length differ only inside a
  window of at most four bytes, their \<open>ext4_crc32c\<close> values differ; for \<open>ext4_bg_crc16\<close> the
  window is two bytes.
\<close>

theorem checksums_detect_bursts:
  assumes "length xs = length ys" and "xs \<noteq> ys"
  shows "(length xs \<le> 4 \<longrightarrow>
            ext4_crc32c c (pre @ xs @ post) \<noteq> ext4_crc32c c (pre @ ys @ post)) \<and>
         (length xs \<le> 2 \<longrightarrow>
            ext4_bg_crc16 d (pre @ xs @ post) \<noteq> ext4_bg_crc16 d (pre @ ys @ post))"
  using assms crc_serial_burst [OF poly_top_bits(2), of xs ys]
    crc_serial_burst [OF poly_top_bits(3), of xs ys]
  by (simp add: crc_serial_eqs)

theorem checksums_detect_bursts_witness:
  "ext4_crc32c EXT4_CRC32_INIT ([1, 2] @ [3, 4, 5, 6] @ [7]) \<noteq>
     ext4_crc32c EXT4_CRC32_INIT ([1, 2] @ [3, 4, 5, 7] @ [7]) \<and>
   ext4_bg_crc16 0 ([9] @ [0, 1] @ []) \<noteq> ext4_bg_crc16 0 ([9] @ [1, 0] @ [])"
  using checksums_detect_bursts [of "[3, 4, 5, 6]" "[3, 4, 5, 7]" EXT4_CRC32_INIT "[1, 2]" "[7]" 0]
    checksums_detect_bursts [of "[0, 1]" "[1, 0]" 0 "[9]" "[]" 0]
  by simp

end
