(* ===== verification/Hash.thy ===== *)
theory Hash
  imports Prelude
begin

text \<open>
  The directory hash of \<^verbatim>\<open>src/ext4_hash.c\<close>: half MD4, TEA and the legacy hash, the packing of a
  name into 32-bit words, and \<open>ext2_htree_hash\<close>, which selects one of them and normalises the
  result. All arithmetic is on 32-bit words, as in the source. The properties: the packing equals a
  closed reference form and writes every word the mixers read, the result of
  \<open>ext2_htree_hash\<close> on every branch, and the agreement of the signed and unsigned
  variants on ASCII names.
\<close>

section \<open>Half MD4\<close>

definition F :: "u32 \<Rightarrow> u32 \<Rightarrow> u32 \<Rightarrow> u32" where
  "F x y z = (x AND y) OR (NOT x AND z)"

definition G :: "u32 \<Rightarrow> u32 \<Rightarrow> u32 \<Rightarrow> u32" where
  "G x y z = (x AND y) OR (x AND z) OR (y AND z)"

definition H :: "u32 \<Rightarrow> u32 \<Rightarrow> u32 \<Rightarrow> u32" where
  "H x y z = x XOR y XOR z"

definition ROTATE_LEFT :: "u32 \<Rightarrow> nat \<Rightarrow> u32" where
  "ROTATE_LEFT x n = push_bit n x OR drop_bit (32 - n) x"

text \<open>The round macros assign to their first argument; here they return its new value.\<close>

definition FF :: "u32 \<Rightarrow> u32 \<Rightarrow> u32 \<Rightarrow> u32 \<Rightarrow> u32 \<Rightarrow> nat \<Rightarrow> u32" where
  "FF a b c d x s = ROTATE_LEFT (a + (F b c d + x)) s"

definition GG :: "u32 \<Rightarrow> u32 \<Rightarrow> u32 \<Rightarrow> u32 \<Rightarrow> u32 \<Rightarrow> nat \<Rightarrow> u32" where
  "GG a b c d x s = ROTATE_LEFT (a + (G b c d + x + 0x5A827999)) s"

definition HH :: "u32 \<Rightarrow> u32 \<Rightarrow> u32 \<Rightarrow> u32 \<Rightarrow> u32 \<Rightarrow> nat \<Rightarrow> u32" where
  "HH a b c d x s = ROTATE_LEFT (a + (H b c d + x + 0x6ED9EBA1)) s"

definition ext2_half_md4 :: "u32 list \<Rightarrow> u32 list \<Rightarrow> u32 list" where
  "ext2_half_md4 hash data =
    (let a = hash ! 0; b = hash ! 1; c = hash ! 2; d = hash ! 3;
         a = FF a b c d (data ! 0) 3;
         d = FF d a b c (data ! 1) 7;
         c = FF c d a b (data ! 2) 11;
         b = FF b c d a (data ! 3) 19;
         a = FF a b c d (data ! 4) 3;
         d = FF d a b c (data ! 5) 7;
         c = FF c d a b (data ! 6) 11;
         b = FF b c d a (data ! 7) 19;
         a = GG a b c d (data ! 1) 3;
         d = GG d a b c (data ! 3) 5;
         c = GG c d a b (data ! 5) 9;
         b = GG b c d a (data ! 7) 13;
         a = GG a b c d (data ! 0) 3;
         d = GG d a b c (data ! 2) 5;
         c = GG c d a b (data ! 4) 9;
         b = GG b c d a (data ! 6) 13;
         a = HH a b c d (data ! 3) 3;
         d = HH d a b c (data ! 7) 9;
         c = HH c d a b (data ! 2) 11;
         b = HH b c d a (data ! 6) 15;
         a = HH a b c d (data ! 1) 3;
         d = HH d a b c (data ! 5) 9;
         c = HH c d a b (data ! 0) 11;
         b = HH b c d a (data ! 4) 15
     in [hash ! 0 + a, hash ! 1 + b, hash ! 2 + c, hash ! 3 + d])"

section \<open>TEA\<close>

text \<open>One pass of the \<^verbatim>\<open>while (n-- > 0)\<close> loop per element of \<open>n\<close>; \<open>i\<close> counts from 1.\<close>

fun tea_rounds :: "nat \<Rightarrow> u32 \<Rightarrow> u32 list \<Rightarrow> u32 \<Rightarrow> u32 \<Rightarrow> u32 \<times> u32" where
  "tea_rounds 0 i data x y = (x, y)"
| "tea_rounds (Suc n) i data x y =
     (let sum = i * 0x9E3779B9;
          x = x + ((push_bit 4 y + data ! 0) XOR (y + sum) XOR (drop_bit 5 y + data ! 1));
          y = y + ((push_bit 4 x + data ! 2) XOR (x + sum) XOR (drop_bit 5 x + data ! 3))
      in tea_rounds n (i + 1) data x y)"

definition ext2_tea :: "u32 list \<Rightarrow> u32 list \<Rightarrow> u32 list" where
  "ext2_tea hash data =
     (case tea_rounds 16 1 data (hash ! 0) (hash ! 1) of
        (x, y) \<Rightarrow> hash[0 := hash ! 0 + x, 1 := hash ! 1 + y])"

section \<open>The legacy hash\<close>

text \<open>A name byte as the C code widens it: zero- or sign-extended.\<close>

definition name_byte :: "bool \<Rightarrow> u8 \<Rightarrow> u32" where
  "name_byte unsigned_char b = (if unsigned_char then ucast b else scast b)"

fun legacy_loop :: "bool \<Rightarrow> u8 list \<Rightarrow> u32 \<Rightarrow> u32 \<Rightarrow> u32 \<times> u32" where
  "legacy_loop uc [] h1 h2 = (h1, h2)"
| "legacy_loop uc (b # bs) h1 h2 =
     (let h0 = h2 + (h1 XOR (name_byte uc b * 0x6D22F5));
          h0 = (if h0 AND 0x80000000 \<noteq> 0 then h0 - 0x7FFFFFFF else h0)
      in legacy_loop uc bs h0 h1)"

definition ext2_legacy_hash :: "u8 list \<Rightarrow> nat \<Rightarrow> bool \<Rightarrow> u32" where
  "ext2_legacy_hash name len uc =
     push_bit 1 (fst (legacy_loop uc (take len name) 0x12A3FE2D 0x37ABE8F9))"

section \<open>Packing a name into words\<close>

definition hash_padding :: "u32 \<Rightarrow> u32" where
  "hash_padding slen = slen OR push_bit 8 slen OR push_bit 16 slen OR push_bit 24 slen"

text \<open>
  The byte loop. \<open>i\<close> is the loop counter, \<open>bs\<close> the bytes left, \<open>dst\<close> the words written so far;
  the result holds the last \<open>buf_val\<close>, the remaining \<open>dlen\<close> and the words.
\<close>

fun prep_bytes ::
    "bool \<Rightarrow> u32 \<Rightarrow> u8 list \<Rightarrow> nat \<Rightarrow> u32 \<Rightarrow> int \<Rightarrow> u32 list \<Rightarrow> u32 \<times> int \<times> u32 list" where
  "prep_bytes uc padding [] i buf_val dlen dst = (buf_val, dlen, dst)"
| "prep_bytes uc padding (b # bs) i buf_val dlen dst =
     (let buf_val = (if i mod 4 = 0 then padding else buf_val);
          buf_val = push_bit 8 buf_val + name_byte uc b
      in if i mod 4 = 3
         then prep_bytes uc padding bs (i + 1) padding (dlen - 4) (dst @ [buf_val])
         else prep_bytes uc padding bs (i + 1) buf_val dlen dst)"

text \<open>The last loop, which fills the rest with the padding word.\<close>

function prep_pad :: "u32 \<Rightarrow> int \<Rightarrow> u32 list \<Rightarrow> u32 list" where
  "prep_pad padding dlen dst =
     (if 0 \<le> dlen then prep_pad padding (dlen - 4) (dst @ [padding]) else dst)"
  by pat_completeness auto
termination
  by (relation "measure (\<lambda>(padding, dlen, dst). nat (dlen + 4))") auto

definition ext2_prep_hashbuf :: "u8 list \<Rightarrow> u32 \<Rightarrow> int \<Rightarrow> bool \<Rightarrow> u32 list" where
  "ext2_prep_hashbuf src slen dlen uc =
     (let padding = hash_padding slen;
          len = (if slen > word_of_int dlen then dlen else int (unat slen))
      in case prep_bytes uc padding (take (nat len) src) 0 padding dlen [] of
           (buf_val, dlen1, dst) \<Rightarrow>
             let dlen2 = dlen1 - 4;
                 dst2 = (if 0 \<le> dlen2 then dst @ [buf_val] else dst)
             in prep_pad padding (dlen2 - 4) dst2)"

declare prep_pad.simps [simp del]

section \<open>The hash of a directory entry name\<close>

definition EXT2_HTREE_LEGACY :: int where "EXT2_HTREE_LEGACY = 0"
definition EXT2_HTREE_HALF_MD4 :: int where "EXT2_HTREE_HALF_MD4 = 1"
definition EXT2_HTREE_TEA :: int where "EXT2_HTREE_TEA = 2"
definition EXT2_HTREE_LEGACY_UNSIGNED :: int where "EXT2_HTREE_LEGACY_UNSIGNED = 3"
definition EXT2_HTREE_HALF_MD4_UNSIGNED :: int where "EXT2_HTREE_HALF_MD4_UNSIGNED = 4"
definition EXT2_HTREE_TEA_UNSIGNED :: int where "EXT2_HTREE_TEA_UNSIGNED = 5"
definition EXT2_HTREE_EOF :: u32 where "EXT2_HTREE_EOF = 0x7FFFFFFF"

lemmas htree_version_defs =
  EXT2_HTREE_LEGACY_def EXT2_HTREE_HALF_MD4_def EXT2_HTREE_TEA_def
  EXT2_HTREE_LEGACY_UNSIGNED_def EXT2_HTREE_HALF_MD4_UNSIGNED_def EXT2_HTREE_TEA_UNSIGNED_def

text \<open>
  The two \<^verbatim>\<open>while (len > 0)\<close> loops, over the remaining bytes of the name; \<open>mix\<close> is the block
  transformation and \<open>blk\<close> its block size (16 for TEA, 32 for half MD4).
\<close>

function htree_blocks ::
    "(u32 list \<Rightarrow> u32 list \<Rightarrow> u32 list) \<Rightarrow> int \<Rightarrow> bool \<Rightarrow> u8 list \<Rightarrow> int \<Rightarrow> u32 list \<Rightarrow> u32 list" where
  "htree_blocks mix blk uc name len hash =
     (if 0 < len \<and> 0 < blk
      then htree_blocks mix blk uc (drop (nat blk) name) (len - blk)
             (mix hash (ext2_prep_hashbuf name (word_of_int len) blk uc))
      else hash)"
  by pat_completeness auto
termination
  by (relation "measure (\<lambda>(mix, blk, uc, name, len, hash). nat len)") auto

declare htree_blocks.simps [simp del]

text \<open>
  \<open>htree_switch\<close> is the switch on the version: the raw major and minor hash, or \<open>None\<close> for the jump
  to \<^verbatim>\<open>error\<close>.
\<close>

definition htree_switch :: "u8 list \<Rightarrow> int \<Rightarrow> u32 list \<Rightarrow> int \<Rightarrow> (u32 \<times> u32) option" where
  "htree_switch name len hash hash_version =
     (if hash_version = EXT2_HTREE_TEA_UNSIGNED \<or> hash_version = EXT2_HTREE_TEA then
        let h = htree_blocks ext2_tea 16 (hash_version = EXT2_HTREE_TEA_UNSIGNED) name len hash
        in Some (h ! 0, h ! 1)
      else if hash_version = EXT2_HTREE_LEGACY_UNSIGNED \<or> hash_version = EXT2_HTREE_LEGACY then
        Some (ext2_legacy_hash name (nat len) (hash_version = EXT2_HTREE_LEGACY_UNSIGNED), 0)
      else if hash_version = EXT2_HTREE_HALF_MD4_UNSIGNED \<or> hash_version = EXT2_HTREE_HALF_MD4 then
        let h = htree_blocks ext2_half_md4 32 (hash_version = EXT2_HTREE_HALF_MD4_UNSIGNED) name len hash
        in Some (h ! 1, h ! 2)
      else None)"

definition htree_fix_major :: "u32 \<Rightarrow> u32" where
  "htree_fix_major major =
     (let major = major AND NOT 1
      in if major = push_bit 1 EXT2_HTREE_EOF then push_bit 1 (EXT2_HTREE_EOF - 1) else major)"

definition htree_seed :: "u32 list option \<Rightarrow> u32 list" where
  "htree_seed hash_seed =
     (case hash_seed of None \<Rightarrow> [0x67452301, 0xEFCDAB89, 0x98BADCFE, 0x10325476]
      | Some s \<Rightarrow> take 4 s)"

text \<open>
  \<open>name\<close> is \<open>None\<close> for a null pointer and else the memory at the pointer; \<open>has_major\<close> and \<open>has_minor\<close>
  say whether the output pointers are set. The result is the return code and the values stored
  through the two pointers. Reading past the end of the memory at \<open>name\<close>, or of a seed shorter than
  four words, is \<open>UNDEF\<close>.
\<close>

definition ext2_htree_hash ::
    "u8 list option \<Rightarrow> int \<Rightarrow> u32 list option \<Rightarrow> int \<Rightarrow> bool \<Rightarrow> bool \<Rightarrow>
     (int \<times> u32 option \<times> u32 option) res" where
  "ext2_htree_hash name len hash_seed hash_version has_major has_minor =
     (let error = Inr (errno_code ENOTSUP, Some 0, if has_minor then Some 0 else None)
      in case name of
           None \<Rightarrow> Inr (- 1, None, None)
         | Some nm \<Rightarrow>
             if \<not> has_major then Inr (- 1, None, None)
             else if len < 1 \<or> 255 < len then error
             else if length (htree_seed hash_seed) < 4 then Inl UNDEF
             else (case htree_switch nm len (htree_seed hash_seed) hash_version of
                     None \<Rightarrow> error
                   | Some (major, minor) \<Rightarrow>
                       if int (length nm) < len then Inl UNDEF
                       else Inr (0, Some (htree_fix_major major),
                                 if has_minor then Some minor else None)))"

section \<open>The packing in closed form\<close>

text \<open>A word of the packing: the padding shifted left by the bytes it receives, most significant first.\<close>

definition prep_word :: "bool \<Rightarrow> u32 \<Rightarrow> u8 list \<Rightarrow> u32" where
  "prep_word uc padding bs = foldl (\<lambda>v b. push_bit 8 v + name_byte uc b) padding bs"

lemma prep_pad_replicate: "prep_pad p (4 * int n - 4) dst = dst @ replicate n p"
proof (induction n arbitrary: dst)
  case 0
  then show ?case by (simp add: prep_pad.simps)
next
  case (Suc n)
  have "prep_pad p (4 * int (Suc n) - 4) dst = prep_pad p (4 * int n - 4) (dst @ [p])"
    by (subst prep_pad.simps) simp
  with Suc show ?case by simp
qed

lemma prep_bytes_group:
  assumes "i mod 4 = 0"
  shows "prep_bytes uc p (b0 # b1 # b2 # b3 # bs) i v d dst =
    prep_bytes uc p bs (Suc (Suc (Suc (Suc i)))) p (d - 4) (dst @ [prep_word uc p [b0, b1, b2, b3]])"
proof -
  from assms obtain q where "i = 4 * q" by (auto simp: mod_eq_0_iff_dvd elim: dvdE)
  then have "Suc i mod 4 = 1" "Suc (Suc i) mod 4 = 2" "(3 + i) mod 4 = 3" by presburger+
  then show ?thesis using assms by (simp add: prep_word_def Let_def)
qed

lemma prep_bytes_short:
  assumes "i mod 4 = 0" and "length bs < 4"
  shows "prep_bytes uc p bs i p d dst = (prep_word uc p bs, d, dst)"
proof -
  from assms(1) obtain q where "i = 4 * q" by (auto simp: mod_eq_0_iff_dvd elim: dvdE)
  then have m: "Suc i mod 4 = 1" "Suc (Suc i) mod 4 = 2" by presburger+
  consider "bs = []" | a where "bs = [a]" | a b where "bs = [a, b]" | a b c where "bs = [a, b, c]"
    using assms(2) by (auto simp: less_Suc_eq length_Suc_conv numeral_eq_Suc)
  then show ?thesis by cases (use m assms in \<open>simp_all add: prep_word_def Let_def\<close>)
qed

lemma prep_bytes_correct:
  assumes "i mod 4 = 0" and "length bs \<le> 4 * n"
    and "prep_bytes uc p bs i p (4 * int n) dst = (bv, d, dst')"
  shows "prep_pad p (d - 8) (if 0 \<le> d - 4 then dst' @ [bv] else dst') =
    dst @ map (\<lambda>k. prep_word uc p (take 4 (drop (4 * k) bs))) [0..<n]"
  using assms
proof (induction n arbitrary: bs i dst)
  case 0
  then show ?case by (auto simp: prep_pad.simps)
next
  case (Suc n)
  have upt_split: "map f [0..<Suc n] = f 0 # map (\<lambda>k. f (Suc k)) [0..<n]" for f :: "nat \<Rightarrow> u32"
    by (simp add: map_upt_Suc del: upt_Suc)
  show ?case
  proof (cases "length bs < 4")
    case True
    then have eq: "bv = prep_word uc p bs" "d = 4 * int (Suc n)" "dst' = dst"
      using Suc.prems by (simp_all add: prep_bytes_short)
    have "map (\<lambda>k. prep_word uc p (take 4 (drop (4 * Suc k) bs))) [0..<n] = replicate n p"
      using True by (auto simp: map_replicate_const prep_word_def)
    moreover have "d - 8 = 4 * int n - 4" using eq by simp
    ultimately show ?thesis using True eq by (simp add: prep_pad_replicate upt_split del: upt_Suc)
  next
    case False
    then have "Suc (Suc (Suc (Suc 0))) \<le> length bs" by simp
    then obtain b0 b1 b2 b3 bs' where bs: "bs = b0 # b1 # b2 # b3 # bs'"
      by (auto simp: Suc_le_length_iff)
    have "Suc (Suc (Suc (Suc i))) mod 4 = 0" using Suc.prems(1) by presburger
    moreover have "length bs' \<le> 4 * n" using Suc.prems(2) by (simp add: bs)
    moreover have "prep_bytes uc p bs' (Suc (Suc (Suc (Suc i)))) p (4 * int n)
        (dst @ [prep_word uc p [b0, b1, b2, b3]]) = (bv, d, dst')"
      using Suc.prems(3) [unfolded bs prep_bytes_group [OF Suc.prems(1)]] by simp
    ultimately have "prep_pad p (d - 8) (if 0 \<le> d - 4 then dst' @ [bv] else dst') =
        (dst @ [prep_word uc p [b0, b1, b2, b3]]) @
        map (\<lambda>k. prep_word uc p (take 4 (drop (4 * k) bs'))) [0..<n]"
      by (rule Suc.IH)
    moreover have "drop (4 * Suc k) bs = drop (4 * k) bs'" for k
    proof -
      have "drop (4 * Suc k) bs = drop (4 * k) (drop 4 bs)" by (simp add: add.commute)
      then show ?thesis by (simp add: bs)
    qed
    moreover have "take 4 bs = [b0, b1, b2, b3]" by (simp add: bs)
    ultimately show ?thesis by (simp only: upt_split) simp
  qed
qed

lemma prep_hashbuf_eq:
  assumes "unat slen \<le> length src" and "4 * n < 2 ^ 31"
  shows "ext2_prep_hashbuf src slen (4 * int n) uc =
    map (\<lambda>k. prep_word uc (hash_padding slen)
               (take 4 (drop (4 * k) (take (min (unat slen) (4 * n)) src)))) [0..<n]"
proof -
  let ?len = "if slen > word_of_int (4 * int n) then 4 * int n else int (unat slen)"
  have "unat (word_of_int (4 * int n) :: u32) = 4 * n"
  proof -
    have "word_of_int (4 * int n) = (of_nat (4 * n) :: u32)" by simp
    also have "unat (of_nat (4 * n) :: u32) = 4 * n"
      using assms(2) by (simp add: unat_of_nat del: of_nat_mult)
    finally show ?thesis .
  qed
  then have len: "nat ?len = min (unat slen) (4 * n)"
    by (simp only: word_less_nat_alt) auto
  obtain bv d dst where pb: "prep_bytes uc (hash_padding slen) (take (nat ?len) src) 0
      (hash_padding slen) (4 * int n) [] = (bv, d, dst)"
    by (metis prod_cases3)
  have "length (take (nat ?len) src) \<le> 4 * n" using len by simp
  note prep_bytes_correct [OF _ this pb, unfolded len, simplified]
  moreover have "ext2_prep_hashbuf src slen (4 * int n) uc =
      prep_pad (hash_padding slen) (d - 8) (if 0 \<le> d - 4 then dst @ [bv] else dst)"
    unfolding ext2_prep_hashbuf_def Let_def pb by simp
  ultimately show ?thesis by simp
qed

section \<open>Signed and unsigned names\<close>

lemma name_byte_ascii: "b < 0x80 \<Longrightarrow> name_byte False b = name_byte True b"
proof -
  assume "b < 0x80"
  then have "unat b div 2 ^ 7 = 0" by (simp add: word_less_nat_alt)
  then have "\<not> bit (unat b) 7" by (simp only: bit_iff_odd) simp
  then have "\<not> bit b 7" by (simp add: bit_simps)
  have lt7: "n < 7" if "bit b n" for n
  proof -
    have "n < 8" using bit_imp_le_length [OF that] by simp
    moreover have "n \<noteq> 7" using that \<open>\<not> bit b 7\<close> by auto
    ultimately show ?thesis by simp
  qed
  then have "scast b = (ucast b :: u32)"
    by (intro bit_word_eqI) (auto simp: bit_simps min_def dest: lt7)
  then show ?thesis by (simp add: name_byte_def)
qed

lemma legacy_loop_ascii:
  "\<forall>b\<in>set bs. b < 0x80 \<Longrightarrow> legacy_loop False bs h1 h2 = legacy_loop True bs h1 h2"
  by (induction bs arbitrary: h1 h2) (simp_all add: name_byte_ascii Let_def)

lemma prep_bytes_ascii:
  "\<forall>b\<in>set bs. b < 0x80 \<Longrightarrow> prep_bytes False p bs i v d dst = prep_bytes True p bs i v d dst"
  by (induction bs arbitrary: i v d dst) (simp_all add: name_byte_ascii Let_def)

lemma prep_hashbuf_ascii:
  assumes "\<forall>b\<in>set src. b < 0x80"
  shows "ext2_prep_hashbuf src slen dlen False = ext2_prep_hashbuf src slen dlen True"
proof -
  have "\<forall>b\<in>set (take n src). b < 0x80" for n using assms by (meson in_set_takeD)
  from prep_bytes_ascii [OF this] show ?thesis by (simp only: ext2_prep_hashbuf_def)
qed

lemma htree_blocks_ascii:
  "\<forall>b\<in>set name. b < 0x80 \<Longrightarrow>
   htree_blocks mix blk False name len hash = htree_blocks mix blk True name len hash"
proof (induction "nat len" arbitrary: name len hash rule: less_induct)
  case less
  show ?case
  proof (cases "0 < len \<and> 0 < blk")
    case True
    have "\<forall>b\<in>set (drop (nat blk) name). b < 0x80" using less.prems by (meson in_set_dropD)
    with True less.hyps [of "len - blk"] show ?thesis
      by (subst (1 2) htree_blocks.simps) (simp add: prep_hashbuf_ascii [OF less.prems])
  next
    case False
    then show ?thesis by (subst (1 2) htree_blocks.simps) (simp only: if_False)
  qed
qed

lemma htree_switch_ascii:
  assumes "\<forall>b\<in>set name. b < 0x80" and "v \<in> {0, 1, 2}"
  shows "htree_switch name len hash v = htree_switch name len hash (v + 3)"
proof -
  have "\<forall>b\<in>set (take n name). b < 0x80" for n using assms(1) by (meson in_set_takeD)
  from legacy_loop_ascii [OF this] show ?thesis
    using assms(2) htree_blocks_ascii [OF assms(1)]
    by (auto simp: htree_switch_def htree_version_defs ext2_legacy_hash_def)
qed

section \<open>The normalised major hash\<close>

lemma htree_fix_major_range:
  "even (unat (htree_fix_major m)) \<and> unat (htree_fix_major m) < 2 * unat EXT2_HTREE_EOF"
proof -
  define x where "x = m AND NOT 1"
  have "\<not> bit x 0" by (simp add: x_def bit_simps)
  then have "\<not> bit (unat x) 0" by (simp only: bit_unsigned_iff) simp
  then have ev: "even (unat x)" by (simp only: bit_0 not_not)
  have "unat x < 2 ^ 32" using unsigned_less [of x] by simp
  moreover have "unat x \<noteq> 2 ^ 32 - 2" if "x \<noteq> 0xFFFFFFFE"
  proof
    assume "unat x = 2 ^ 32 - 2"
    then have "unat x = unat (0xFFFFFFFE :: u32)" by simp
    with that show False by (simp only: word_unat_eq_iff)
  qed
  moreover have "unat x \<noteq> 2 ^ 32 - 1" using ev by auto
  moreover have "htree_fix_major m = (if x = 0xFFFFFFFE then 0xFFFFFFFC else x)"
    by (simp add: htree_fix_major_def EXT2_HTREE_EOF_def x_def Let_def)
  ultimately show ?thesis using ev by (auto simp: EXT2_HTREE_EOF_def)
qed

lemma htree_switch_None:
  "htree_switch name len hash v = None \<longleftrightarrow> \<not> (0 \<le> v \<and> v \<le> 5)"
  by (auto simp: htree_switch_def htree_version_defs Let_def)

section \<open>Properties\<close>

text \<open>
  the packing of a name equals its closed form. For a word-aligned buffer size,
  \<open>ext2_prep_hashbuf\<close> writes exactly \<^verbatim>\<open>dlen / 4\<close> words (so the mixers never read a stale word of
  \<^verbatim>\<open>data\<close>); word \<open>k\<close> packs bytes \<open>4k .. 4k+3\<close> of the name, most significant first, over the padding
  word made of the name's length, and the words past the name are the padding itself.
\<close>

theorem prep_hashbuf_packs:
  assumes "unat slen \<le> length src" and "4 * n < 2 ^ 31"
  shows "ext2_prep_hashbuf src slen (4 * int n) uc =
    map (\<lambda>k. prep_word uc (hash_padding slen)
               (take 4 (drop (4 * k) (take (min (unat slen) (4 * n)) src)))) [0..<n] \<and>
    length (ext2_prep_hashbuf src slen (4 * int n) uc) = n"
  by (simp add: prep_hashbuf_eq [OF assms])

theorem prep_hashbuf_packs_witness:
  "ext2_prep_hashbuf [0x61, 0x62, 0x63, 0x64, 0xE9] 5 16 False =
     [0x61626364, 0x050504E9, 0x05050505, 0x05050505]"
  using prep_hashbuf_packs [of 5 "[0x61, 0x62, 0x63, 0x64, 0xE9]" 4 False]
  by (simp add: prep_word_def hash_padding_def name_byte_def upt_rec)

text \<open>
  The result of the directory hash on every branch. With a name at least as long as the length
  given and a full seed, \<open>ext2_htree_hash\<close> never reads out of bounds; it succeeds exactly for lengths
  1 to 255 and the six known versions and otherwise returns \<open>ENOTSUP\<close> with a zero hash; and the
  major hash it stores is always even and below \<open>EXT2_HTREE_EOF << 1\<close>, the end marker.
\<close>

theorem htree_hash_result:
  assumes "len \<le> int (length nm)" and "4 \<le> length (htree_seed seed)"
  shows "\<exists>rc major minor. ext2_htree_hash (Some nm) len seed v True mn = Inr (rc, Some major, minor) \<and>
    (rc = 0 \<longleftrightarrow> 1 \<le> len \<and> len \<le> 255 \<and> 0 \<le> v \<and> v \<le> 5) \<and>
    (rc \<noteq> 0 \<longrightarrow> rc = errno_code ENOTSUP \<and> major = 0) \<and>
    even (unat major) \<and> unat major < 2 * unat EXT2_HTREE_EOF"
proof (cases "len < 1 \<or> 255 < len \<or> htree_switch nm len (htree_seed seed) v = None")
  case True
  then have "ext2_htree_hash (Some nm) len seed v True mn =
      Inr (errno_code ENOTSUP, Some 0, if mn then Some 0 else None)"
    using assms by (auto simp: ext2_htree_hash_def Let_def)
  then show ?thesis using True by (auto simp: htree_switch_None EXT2_HTREE_EOF_def)
next
  case False
  then obtain ma mi where sw: "htree_switch nm len (htree_seed seed) v = Some (ma, mi)" by auto
  then have "ext2_htree_hash (Some nm) len seed v True mn =
      Inr (0, Some (htree_fix_major ma), if mn then Some mi else None)"
    using False assms by (simp add: ext2_htree_hash_def Let_def)
  moreover have "0 \<le> v \<and> v \<le> 5"
    using sw htree_switch_None [of nm len "htree_seed seed" v] by simp
  ultimately show ?thesis using False htree_fix_major_range [of ma] by auto
qed

theorem htree_hash_result_witness:
  "\<exists>rc major minor. ext2_htree_hash (Some [0x61, 0x62]) 2 None 1 True True = Inr (rc, Some major, minor) \<and>
     rc = 0 \<and> even (unat major) \<and> unat major < 2 * unat EXT2_HTREE_EOF"
  using htree_hash_result [of 2 "[0x61, 0x62]" None 1 True] by (auto simp: htree_seed_def)

text \<open>
  the signed and unsigned variants agree on ASCII names. When every byte of the name is below
  \<^verbatim>\<open>0x80\<close>, each of the three hash functions gives the same result in its signed and its
  unsigned version, so a directory of ASCII names does not depend on the
  \<^verbatim>\<open>SIGNED_HASH\<close>/\<^verbatim>\<open>UNSIGNED_HASH\<close> superblock flags.
\<close>

theorem htree_hash_signedness_ascii:
  assumes "\<forall>b\<in>set nm. b < 0x80" and "v \<in> {0, 1, 2}"
  shows "ext2_htree_hash (Some nm) len seed v mj mn = ext2_htree_hash (Some nm) len seed (v + 3) mj mn"
  using htree_switch_ascii [OF assms] by (simp only: ext2_htree_hash_def option.case)

theorem htree_hash_signedness_ascii_witness:
  "ext2_htree_hash (Some [0x61, 0x7F]) 2 None 2 True True =
   ext2_htree_hash (Some [0x61, 0x7F]) 2 None 5 True True"
  using htree_hash_signedness_ascii [of "[0x61, 0x7F]" 2 2 None True True] by simp

end
