(* ===== verification/SuperLayout.thy ===== *)
theory SuperLayout
  imports Prelude
begin

text \<open>
  The superblock \<^verbatim>\<open>struct ext4_sblock\<close> of \<^verbatim>\<open>include/ext4_types.h\<close>, field by field and at the
  source's widths, and its packed 1024-byte little-endian image: what \<open>ext4_sb_write\<close> hands to the
  device, what \<open>ext4_sb_read\<close> fills and what the superblock checksum runs over. A field of the source
  is the record field with the prefix \<open>sb_\<close>; an array field is a list, whose fixed length \<open>sb_shape\<close>
  states. The lemmas show that image and record determine each other.
\<close>

record ext4_sblock =
  sb_inodes_count :: u32
  sb_blocks_count_lo :: u32
  sb_reserved_blocks_count_lo :: u32
  sb_free_blocks_count_lo :: u32
  sb_free_inodes_count :: u32
  sb_first_data_block :: u32
  sb_log_block_size :: u32
  sb_log_cluster_size :: u32
  sb_blocks_per_group :: u32
  sb_frags_per_group :: u32
  sb_inodes_per_group :: u32
  sb_mount_time :: u32
  sb_write_time :: u32
  sb_mount_count :: u16
  sb_max_mount_count :: u16
  sb_magic :: u16
  sb_state :: u16
  sb_errors :: u16
  sb_minor_rev_level :: u16
  sb_last_check_time :: u32
  sb_check_interval :: u32
  sb_creator_os :: u32
  sb_rev_level :: u32
  sb_def_resuid :: u16
  sb_def_resgid :: u16
  sb_first_inode :: u32
  sb_inode_size :: u16
  sb_block_group_index :: u16
  sb_features_compatible :: u32
  sb_features_incompatible :: u32
  sb_features_read_only :: u32
  sb_uuid :: "u8 list"
  sb_volume_name :: "u8 list"
  sb_last_mounted :: "u8 list"
  sb_algorithm_usage_bitmap :: u32
  sb_prealloc_blocks :: u8
  sb_prealloc_dir_blocks :: u8
  sb_reserved_gdt_blocks :: u16
  sb_journal_uuid :: "u8 list"
  sb_journal_inode_number :: u32
  sb_journal_dev :: u32
  sb_last_orphan :: u32
  sb_hash_seed :: "u32 list"
  sb_default_hash_version :: u8
  sb_journal_backup_type :: u8
  sb_desc_size :: u16
  sb_default_mount_opts :: u32
  sb_first_meta_bg :: u32
  sb_mkfs_time :: u32
  sb_journal_blocks :: "u32 list"
  sb_blocks_count_hi :: u32
  sb_reserved_blocks_count_hi :: u32
  sb_free_blocks_count_hi :: u32
  sb_min_extra_isize :: u16
  sb_want_extra_isize :: u16
  sb_flags :: u32
  sb_raid_stride :: u16
  sb_mmp_interval :: u16
  sb_mmp_block :: u64
  sb_raid_stripe_width :: u32
  sb_log_groups_per_flex :: u8
  sb_checksum_type :: u8
  sb_reserved_pad :: u16
  sb_kbytes_written :: u64
  sb_snapshot_inum :: u32
  sb_snapshot_id :: u32
  sb_snapshot_r_blocks_count :: u64
  sb_snapshot_list :: u32
  sb_error_count :: u32
  sb_first_error_time :: u32
  sb_first_error_ino :: u32
  sb_first_error_block :: u64
  sb_first_error_func :: "u8 list"
  sb_first_error_line :: u32
  sb_last_error_time :: u32
  sb_last_error_ino :: u32
  sb_last_error_line :: u32
  sb_last_error_block :: u64
  sb_last_error_func :: "u8 list"
  sb_mount_opts :: "u8 list"
  sb_usr_quota_inum :: u32
  sb_grp_quota_inum :: u32
  sb_overhead_clusters :: u32
  sb_backup_bgs :: "u32 list"
  sb_encrypt_algos :: "u8 list"
  sb_encrypt_pw_salt :: "u8 list"
  sb_lpf_ino :: u32
  sb_padding :: "u32 list"
  sb_checksum :: u32

definition sb_bytes :: "ext4_sblock \<Rightarrow> u8 list" where
  "sb_bytes s =
     enc32 (sb_inodes_count s) @
     enc32 (sb_blocks_count_lo s) @
     enc32 (sb_reserved_blocks_count_lo s) @
     enc32 (sb_free_blocks_count_lo s) @
     enc32 (sb_free_inodes_count s) @
     enc32 (sb_first_data_block s) @
     enc32 (sb_log_block_size s) @
     enc32 (sb_log_cluster_size s) @
     enc32 (sb_blocks_per_group s) @
     enc32 (sb_frags_per_group s) @
     enc32 (sb_inodes_per_group s) @
     enc32 (sb_mount_time s) @
     enc32 (sb_write_time s) @
     enc16 (sb_mount_count s) @
     enc16 (sb_max_mount_count s) @
     enc16 (sb_magic s) @
     enc16 (sb_state s) @
     enc16 (sb_errors s) @
     enc16 (sb_minor_rev_level s) @
     enc32 (sb_last_check_time s) @
     enc32 (sb_check_interval s) @
     enc32 (sb_creator_os s) @
     enc32 (sb_rev_level s) @
     enc16 (sb_def_resuid s) @
     enc16 (sb_def_resgid s) @
     enc32 (sb_first_inode s) @
     enc16 (sb_inode_size s) @
     enc16 (sb_block_group_index s) @
     enc32 (sb_features_compatible s) @
     enc32 (sb_features_incompatible s) @
     enc32 (sb_features_read_only s) @
     sb_uuid s @
     sb_volume_name s @
     sb_last_mounted s @
     enc32 (sb_algorithm_usage_bitmap s) @
     [sb_prealloc_blocks s] @
     [sb_prealloc_dir_blocks s] @
     enc16 (sb_reserved_gdt_blocks s) @
     sb_journal_uuid s @
     enc32 (sb_journal_inode_number s) @
     enc32 (sb_journal_dev s) @
     enc32 (sb_last_orphan s) @
     enc32s (sb_hash_seed s) @
     [sb_default_hash_version s] @
     [sb_journal_backup_type s] @
     enc16 (sb_desc_size s) @
     enc32 (sb_default_mount_opts s) @
     enc32 (sb_first_meta_bg s) @
     enc32 (sb_mkfs_time s) @
     enc32s (sb_journal_blocks s) @
     enc32 (sb_blocks_count_hi s) @
     enc32 (sb_reserved_blocks_count_hi s) @
     enc32 (sb_free_blocks_count_hi s) @
     enc16 (sb_min_extra_isize s) @
     enc16 (sb_want_extra_isize s) @
     enc32 (sb_flags s) @
     enc16 (sb_raid_stride s) @
     enc16 (sb_mmp_interval s) @
     enc64 (sb_mmp_block s) @
     enc32 (sb_raid_stripe_width s) @
     [sb_log_groups_per_flex s] @
     [sb_checksum_type s] @
     enc16 (sb_reserved_pad s) @
     enc64 (sb_kbytes_written s) @
     enc32 (sb_snapshot_inum s) @
     enc32 (sb_snapshot_id s) @
     enc64 (sb_snapshot_r_blocks_count s) @
     enc32 (sb_snapshot_list s) @
     enc32 (sb_error_count s) @
     enc32 (sb_first_error_time s) @
     enc32 (sb_first_error_ino s) @
     enc64 (sb_first_error_block s) @
     sb_first_error_func s @
     enc32 (sb_first_error_line s) @
     enc32 (sb_last_error_time s) @
     enc32 (sb_last_error_ino s) @
     enc32 (sb_last_error_line s) @
     enc64 (sb_last_error_block s) @
     sb_last_error_func s @
     sb_mount_opts s @
     enc32 (sb_usr_quota_inum s) @
     enc32 (sb_grp_quota_inum s) @
     enc32 (sb_overhead_clusters s) @
     enc32s (sb_backup_bgs s) @
     sb_encrypt_algos s @
     sb_encrypt_pw_salt s @
     enc32 (sb_lpf_ino s) @
     enc32s (sb_padding s) @
     enc32 (sb_checksum s)"

definition sb_of_bytes :: "u8 list \<Rightarrow> ext4_sblock" where
  "sb_of_bytes bs =
    (case get32 bs of (v0, bs) \<Rightarrow>
    (case get32 bs of (v1, bs) \<Rightarrow>
    (case get32 bs of (v2, bs) \<Rightarrow>
    (case get32 bs of (v3, bs) \<Rightarrow>
    (case get32 bs of (v4, bs) \<Rightarrow>
    (case get32 bs of (v5, bs) \<Rightarrow>
    (case get32 bs of (v6, bs) \<Rightarrow>
    (case get32 bs of (v7, bs) \<Rightarrow>
    (case get32 bs of (v8, bs) \<Rightarrow>
    (case get32 bs of (v9, bs) \<Rightarrow>
    (case get32 bs of (v10, bs) \<Rightarrow>
    (case get32 bs of (v11, bs) \<Rightarrow>
    (case get32 bs of (v12, bs) \<Rightarrow>
    (case get16 bs of (v13, bs) \<Rightarrow>
    (case get16 bs of (v14, bs) \<Rightarrow>
    (case get16 bs of (v15, bs) \<Rightarrow>
    (case get16 bs of (v16, bs) \<Rightarrow>
    (case get16 bs of (v17, bs) \<Rightarrow>
    (case get16 bs of (v18, bs) \<Rightarrow>
    (case get32 bs of (v19, bs) \<Rightarrow>
    (case get32 bs of (v20, bs) \<Rightarrow>
    (case get32 bs of (v21, bs) \<Rightarrow>
    (case get32 bs of (v22, bs) \<Rightarrow>
    (case get16 bs of (v23, bs) \<Rightarrow>
    (case get16 bs of (v24, bs) \<Rightarrow>
    (case get32 bs of (v25, bs) \<Rightarrow>
    (case get16 bs of (v26, bs) \<Rightarrow>
    (case get16 bs of (v27, bs) \<Rightarrow>
    (case get32 bs of (v28, bs) \<Rightarrow>
    (case get32 bs of (v29, bs) \<Rightarrow>
    (case get32 bs of (v30, bs) \<Rightarrow>
    (case get_bytes 16 bs of (v31, bs) \<Rightarrow>
    (case get_bytes 16 bs of (v32, bs) \<Rightarrow>
    (case get_bytes 64 bs of (v33, bs) \<Rightarrow>
    (case get32 bs of (v34, bs) \<Rightarrow>
    (case get8 bs of (v35, bs) \<Rightarrow>
    (case get8 bs of (v36, bs) \<Rightarrow>
    (case get16 bs of (v37, bs) \<Rightarrow>
    (case get_bytes 16 bs of (v38, bs) \<Rightarrow>
    (case get32 bs of (v39, bs) \<Rightarrow>
    (case get32 bs of (v40, bs) \<Rightarrow>
    (case get32 bs of (v41, bs) \<Rightarrow>
    (case get32s 4 bs of (v42, bs) \<Rightarrow>
    (case get8 bs of (v43, bs) \<Rightarrow>
    (case get8 bs of (v44, bs) \<Rightarrow>
    (case get16 bs of (v45, bs) \<Rightarrow>
    (case get32 bs of (v46, bs) \<Rightarrow>
    (case get32 bs of (v47, bs) \<Rightarrow>
    (case get32 bs of (v48, bs) \<Rightarrow>
    (case get32s 17 bs of (v49, bs) \<Rightarrow>
    (case get32 bs of (v50, bs) \<Rightarrow>
    (case get32 bs of (v51, bs) \<Rightarrow>
    (case get32 bs of (v52, bs) \<Rightarrow>
    (case get16 bs of (v53, bs) \<Rightarrow>
    (case get16 bs of (v54, bs) \<Rightarrow>
    (case get32 bs of (v55, bs) \<Rightarrow>
    (case get16 bs of (v56, bs) \<Rightarrow>
    (case get16 bs of (v57, bs) \<Rightarrow>
    (case get64 bs of (v58, bs) \<Rightarrow>
    (case get32 bs of (v59, bs) \<Rightarrow>
    (case get8 bs of (v60, bs) \<Rightarrow>
    (case get8 bs of (v61, bs) \<Rightarrow>
    (case get16 bs of (v62, bs) \<Rightarrow>
    (case get64 bs of (v63, bs) \<Rightarrow>
    (case get32 bs of (v64, bs) \<Rightarrow>
    (case get32 bs of (v65, bs) \<Rightarrow>
    (case get64 bs of (v66, bs) \<Rightarrow>
    (case get32 bs of (v67, bs) \<Rightarrow>
    (case get32 bs of (v68, bs) \<Rightarrow>
    (case get32 bs of (v69, bs) \<Rightarrow>
    (case get32 bs of (v70, bs) \<Rightarrow>
    (case get64 bs of (v71, bs) \<Rightarrow>
    (case get_bytes 32 bs of (v72, bs) \<Rightarrow>
    (case get32 bs of (v73, bs) \<Rightarrow>
    (case get32 bs of (v74, bs) \<Rightarrow>
    (case get32 bs of (v75, bs) \<Rightarrow>
    (case get32 bs of (v76, bs) \<Rightarrow>
    (case get64 bs of (v77, bs) \<Rightarrow>
    (case get_bytes 32 bs of (v78, bs) \<Rightarrow>
    (case get_bytes 64 bs of (v79, bs) \<Rightarrow>
    (case get32 bs of (v80, bs) \<Rightarrow>
    (case get32 bs of (v81, bs) \<Rightarrow>
    (case get32 bs of (v82, bs) \<Rightarrow>
    (case get32s 2 bs of (v83, bs) \<Rightarrow>
    (case get_bytes 4 bs of (v84, bs) \<Rightarrow>
    (case get_bytes 16 bs of (v85, bs) \<Rightarrow>
    (case get32 bs of (v86, bs) \<Rightarrow>
    (case get32s 100 bs of (v87, bs) \<Rightarrow>
    (case get32 bs of (v88, bs) \<Rightarrow>
    \<lparr> sb_inodes_count = v0,
      sb_blocks_count_lo = v1,
      sb_reserved_blocks_count_lo = v2,
      sb_free_blocks_count_lo = v3,
      sb_free_inodes_count = v4,
      sb_first_data_block = v5,
      sb_log_block_size = v6,
      sb_log_cluster_size = v7,
      sb_blocks_per_group = v8,
      sb_frags_per_group = v9,
      sb_inodes_per_group = v10,
      sb_mount_time = v11,
      sb_write_time = v12,
      sb_mount_count = v13,
      sb_max_mount_count = v14,
      sb_magic = v15,
      sb_state = v16,
      sb_errors = v17,
      sb_minor_rev_level = v18,
      sb_last_check_time = v19,
      sb_check_interval = v20,
      sb_creator_os = v21,
      sb_rev_level = v22,
      sb_def_resuid = v23,
      sb_def_resgid = v24,
      sb_first_inode = v25,
      sb_inode_size = v26,
      sb_block_group_index = v27,
      sb_features_compatible = v28,
      sb_features_incompatible = v29,
      sb_features_read_only = v30,
      sb_uuid = v31,
      sb_volume_name = v32,
      sb_last_mounted = v33,
      sb_algorithm_usage_bitmap = v34,
      sb_prealloc_blocks = v35,
      sb_prealloc_dir_blocks = v36,
      sb_reserved_gdt_blocks = v37,
      sb_journal_uuid = v38,
      sb_journal_inode_number = v39,
      sb_journal_dev = v40,
      sb_last_orphan = v41,
      sb_hash_seed = v42,
      sb_default_hash_version = v43,
      sb_journal_backup_type = v44,
      sb_desc_size = v45,
      sb_default_mount_opts = v46,
      sb_first_meta_bg = v47,
      sb_mkfs_time = v48,
      sb_journal_blocks = v49,
      sb_blocks_count_hi = v50,
      sb_reserved_blocks_count_hi = v51,
      sb_free_blocks_count_hi = v52,
      sb_min_extra_isize = v53,
      sb_want_extra_isize = v54,
      sb_flags = v55,
      sb_raid_stride = v56,
      sb_mmp_interval = v57,
      sb_mmp_block = v58,
      sb_raid_stripe_width = v59,
      sb_log_groups_per_flex = v60,
      sb_checksum_type = v61,
      sb_reserved_pad = v62,
      sb_kbytes_written = v63,
      sb_snapshot_inum = v64,
      sb_snapshot_id = v65,
      sb_snapshot_r_blocks_count = v66,
      sb_snapshot_list = v67,
      sb_error_count = v68,
      sb_first_error_time = v69,
      sb_first_error_ino = v70,
      sb_first_error_block = v71,
      sb_first_error_func = v72,
      sb_first_error_line = v73,
      sb_last_error_time = v74,
      sb_last_error_ino = v75,
      sb_last_error_line = v76,
      sb_last_error_block = v77,
      sb_last_error_func = v78,
      sb_mount_opts = v79,
      sb_usr_quota_inum = v80,
      sb_grp_quota_inum = v81,
      sb_overhead_clusters = v82,
      sb_backup_bgs = v83,
      sb_encrypt_algos = v84,
      sb_encrypt_pw_salt = v85,
      sb_lpf_ino = v86,
      sb_padding = v87,
      sb_checksum = v88 \<rparr>)))))))))))))))))))))))))))))))))))))))))))))))))))))))))))))))))))))))))))))))))))))))))"

definition sb_shape :: "ext4_sblock \<Rightarrow> bool" where
  "sb_shape s \<longleftrightarrow>
     length (sb_uuid s) = 16 \<and>
     length (sb_volume_name s) = 16 \<and>
     length (sb_last_mounted s) = 64 \<and>
     length (sb_journal_uuid s) = 16 \<and>
     length (sb_hash_seed s) = 4 \<and>
     length (sb_journal_blocks s) = 17 \<and>
     length (sb_first_error_func s) = 32 \<and>
     length (sb_last_error_func s) = 32 \<and>
     length (sb_mount_opts s) = 64 \<and>
     length (sb_backup_bgs s) = 2 \<and>
     length (sb_encrypt_algos s) = 4 \<and>
     length (sb_encrypt_pw_salt s) = 16 \<and>
     length (sb_padding s) = 100"

lemma length_sb_bytes: "sb_shape s \<Longrightarrow> length (sb_bytes s) = 1024"
  by (simp add: sb_bytes_def sb_shape_def)

lemma sb_of_bytes_sb_bytes: "sb_shape s \<Longrightarrow> sb_of_bytes (sb_bytes s) = s"
  by (simp add: sb_bytes_def sb_of_bytes_def sb_shape_def)

lemma sb_shape_of_bytes: "length bs = 1024 \<Longrightarrow> sb_shape (sb_of_bytes bs)"
  by (simp add: sb_of_bytes_def sb_shape_def get_field_defs)

lemma sb_bytes_sb_of_bytes: "length bs = 1024 \<Longrightarrow> sb_bytes (sb_of_bytes bs) = bs"
  by (simp add: sb_of_bytes_def sb_bytes_def get_field_defs,
    simp add: enc_le_dec enc_le_dec_all enc32s_dec32s,
    simp add: take_drop_join hd_drop_join)

end
