(* ===== verification/Super.thy ===== *)
theory Super
  imports SuperLayout Checksum
begin

text \<open>
  The superblock operations: the accessors of \<^verbatim>\<open>include/ext4_super.h\<close> and the functions of
  \<^verbatim>\<open>src/ext4_super.c\<close> other than the device transfer (theory \<open>Fs\<close>). A little-endian
  host is modelled, where \<^verbatim>\<open>to_le32\<close> and its kin are the identity. Shifts and products are on the
  source's word types. A shift by the width or more, and a division by zero, are undefined
  in C; HOL makes both zero, and every property excludes them by the conditions
  \<open>ext4_sb_check\<close> enforces or by a hypothesis of its own.
\<close>

section \<open>Constants\<close>

definition EXT4_CHECKSUM_CRC32C :: u8 where "EXT4_CHECKSUM_CRC32C = 1"
definition EXT4_SUPERBLOCK_MAGIC :: u16 where "EXT4_SUPERBLOCK_MAGIC = 0xEF53"
definition EXT4_SUPERBLOCK_SIZE :: nat where "EXT4_SUPERBLOCK_SIZE = 1024"
definition EXT4_SUPERBLOCK_OFFSET :: u64 where "EXT4_SUPERBLOCK_OFFSET = 1024"
definition EXT4_SUPERBLOCK_FLAGS_SIGNED_HASH :: u32 where "EXT4_SUPERBLOCK_FLAGS_SIGNED_HASH = 0x0001"
definition EXT4_SUPERBLOCK_FLAGS_UNSIGNED_HASH :: u32 where "EXT4_SUPERBLOCK_FLAGS_UNSIGNED_HASH = 0x0002"
definition EXT4_SUPERBLOCK_FLAGS_TEST_FILESYS :: u32 where "EXT4_SUPERBLOCK_FLAGS_TEST_FILESYS = 0x0004"
definition EXT4_SUPERBLOCK_STATE_VALID_FS :: u16 where "EXT4_SUPERBLOCK_STATE_VALID_FS = 0x0001"
definition EXT4_SUPERBLOCK_STATE_ERROR_FS :: u16 where "EXT4_SUPERBLOCK_STATE_ERROR_FS = 0x0002"
definition EXT4_SUPERBLOCK_STATE_ORPHAN_FS :: u16 where "EXT4_SUPERBLOCK_STATE_ORPHAN_FS = 0x0004"
definition EXT4_FCOM_DIR_PREALLOC :: u32 where "EXT4_FCOM_DIR_PREALLOC = 0x0001"
definition EXT4_FCOM_IMAGIC_INODES :: u32 where "EXT4_FCOM_IMAGIC_INODES = 0x0002"
definition EXT4_FCOM_HAS_JOURNAL :: u32 where "EXT4_FCOM_HAS_JOURNAL = 0x0004"
definition EXT4_FCOM_EXT_ATTR :: u32 where "EXT4_FCOM_EXT_ATTR = 0x0008"
definition EXT4_FCOM_RESIZE_INODE :: u32 where "EXT4_FCOM_RESIZE_INODE = 0x0010"
definition EXT4_FCOM_DIR_INDEX :: u32 where "EXT4_FCOM_DIR_INDEX = 0x0020"
definition EXT4_FRO_COM_SPARSE_SUPER :: u32 where "EXT4_FRO_COM_SPARSE_SUPER = 0x0001"
definition EXT4_FRO_COM_LARGE_FILE :: u32 where "EXT4_FRO_COM_LARGE_FILE = 0x0002"
definition EXT4_FRO_COM_BTREE_DIR :: u32 where "EXT4_FRO_COM_BTREE_DIR = 0x0004"
definition EXT4_FRO_COM_HUGE_FILE :: u32 where "EXT4_FRO_COM_HUGE_FILE = 0x0008"
definition EXT4_FRO_COM_GDT_CSUM :: u32 where "EXT4_FRO_COM_GDT_CSUM = 0x0010"
definition EXT4_FRO_COM_DIR_NLINK :: u32 where "EXT4_FRO_COM_DIR_NLINK = 0x0020"
definition EXT4_FRO_COM_EXTRA_ISIZE :: u32 where "EXT4_FRO_COM_EXTRA_ISIZE = 0x0040"
definition EXT4_FRO_COM_QUOTA :: u32 where "EXT4_FRO_COM_QUOTA = 0x0100"
definition EXT4_FRO_COM_BIGALLOC :: u32 where "EXT4_FRO_COM_BIGALLOC = 0x0200"
definition EXT4_FRO_COM_METADATA_CSUM :: u32 where "EXT4_FRO_COM_METADATA_CSUM = 0x0400"
definition EXT4_FINCOM_COMPRESSION :: u32 where "EXT4_FINCOM_COMPRESSION = 0x0001"
definition EXT4_FINCOM_FILETYPE :: u32 where "EXT4_FINCOM_FILETYPE = 0x0002"
definition EXT4_FINCOM_RECOVER :: u32 where "EXT4_FINCOM_RECOVER = 0x0004"
definition EXT4_FINCOM_JOURNAL_DEV :: u32 where "EXT4_FINCOM_JOURNAL_DEV = 0x0008"
definition EXT4_FINCOM_META_BG :: u32 where "EXT4_FINCOM_META_BG = 0x0010"
definition EXT4_FINCOM_EXTENTS :: u32 where "EXT4_FINCOM_EXTENTS = 0x0040"
definition EXT4_FINCOM_64BIT :: u32 where "EXT4_FINCOM_64BIT = 0x0080"
definition EXT4_FINCOM_MMP :: u32 where "EXT4_FINCOM_MMP = 0x0100"
definition EXT4_FINCOM_FLEX_BG :: u32 where "EXT4_FINCOM_FLEX_BG = 0x0200"
definition EXT4_FINCOM_EA_INODE :: u32 where "EXT4_FINCOM_EA_INODE = 0x0400"
definition EXT4_FINCOM_DIRDATA :: u32 where "EXT4_FINCOM_DIRDATA = 0x1000"
definition EXT4_FINCOM_BG_USE_META_CSUM :: u32 where "EXT4_FINCOM_BG_USE_META_CSUM = 0x2000"
definition EXT4_FINCOM_LARGEDIR :: u32 where "EXT4_FINCOM_LARGEDIR = 0x4000"
definition EXT4_FINCOM_INLINE_DATA :: u32 where "EXT4_FINCOM_INLINE_DATA = 0x8000"
definition EXT4_MIN_BLOCK_GROUP_DESCRIPTOR_SIZE :: u16 where "EXT4_MIN_BLOCK_GROUP_DESCRIPTOR_SIZE = 32"
definition EXT4_MAX_BLOCK_GROUP_DESCRIPTOR_SIZE :: u16 where "EXT4_MAX_BLOCK_GROUP_DESCRIPTOR_SIZE = 64"
definition EXT4_MIN_BLOCK_SIZE :: u32 where "EXT4_MIN_BLOCK_SIZE = 1024"
definition EXT4_MAX_BLOCK_SIZE :: u32 where "EXT4_MAX_BLOCK_SIZE = 65536"

lemmas ext4_feature_consts [ext4_consts] =
  EXT4_CHECKSUM_CRC32C_def
  EXT4_SUPERBLOCK_MAGIC_def
  EXT4_SUPERBLOCK_SIZE_def
  EXT4_SUPERBLOCK_OFFSET_def
  EXT4_SUPERBLOCK_FLAGS_SIGNED_HASH_def
  EXT4_SUPERBLOCK_FLAGS_UNSIGNED_HASH_def
  EXT4_SUPERBLOCK_FLAGS_TEST_FILESYS_def
  EXT4_SUPERBLOCK_STATE_VALID_FS_def
  EXT4_SUPERBLOCK_STATE_ERROR_FS_def
  EXT4_SUPERBLOCK_STATE_ORPHAN_FS_def
  EXT4_FCOM_DIR_PREALLOC_def
  EXT4_FCOM_IMAGIC_INODES_def
  EXT4_FCOM_HAS_JOURNAL_def
  EXT4_FCOM_EXT_ATTR_def
  EXT4_FCOM_RESIZE_INODE_def
  EXT4_FCOM_DIR_INDEX_def
  EXT4_FRO_COM_SPARSE_SUPER_def
  EXT4_FRO_COM_LARGE_FILE_def
  EXT4_FRO_COM_BTREE_DIR_def
  EXT4_FRO_COM_HUGE_FILE_def
  EXT4_FRO_COM_GDT_CSUM_def
  EXT4_FRO_COM_DIR_NLINK_def
  EXT4_FRO_COM_EXTRA_ISIZE_def
  EXT4_FRO_COM_QUOTA_def
  EXT4_FRO_COM_BIGALLOC_def
  EXT4_FRO_COM_METADATA_CSUM_def
  EXT4_FINCOM_COMPRESSION_def
  EXT4_FINCOM_FILETYPE_def
  EXT4_FINCOM_RECOVER_def
  EXT4_FINCOM_JOURNAL_DEV_def
  EXT4_FINCOM_META_BG_def
  EXT4_FINCOM_EXTENTS_def
  EXT4_FINCOM_64BIT_def
  EXT4_FINCOM_MMP_def
  EXT4_FINCOM_FLEX_BG_def
  EXT4_FINCOM_EA_INODE_def
  EXT4_FINCOM_DIRDATA_def
  EXT4_FINCOM_BG_USE_META_CSUM_def
  EXT4_FINCOM_LARGEDIR_def
  EXT4_FINCOM_INLINE_DATA_def
  EXT4_MIN_BLOCK_GROUP_DESCRIPTOR_SIZE_def
  EXT4_MAX_BLOCK_GROUP_DESCRIPTOR_SIZE_def
  EXT4_MIN_BLOCK_SIZE_def
  EXT4_MAX_BLOCK_SIZE_def

section \<open>Accessors\<close>

definition ext4_sb_get_blocks_cnt :: "ext4_sblock \<Rightarrow> u64" where
  "ext4_sb_get_blocks_cnt s =
     push_bit 32 (ucast (sb_blocks_count_hi s)) OR ucast (sb_blocks_count_lo s)"

definition ext4_sb_set_blocks_cnt :: "ext4_sblock \<Rightarrow> u64 \<Rightarrow> ext4_sblock" where
  "ext4_sb_set_blocks_cnt s cnt =
     s\<lparr> sb_blocks_count_lo := ucast (drop_bit 32 (push_bit 32 cnt)),
        sb_blocks_count_hi := ucast (drop_bit 32 cnt) \<rparr>"

definition ext4_sb_get_free_blocks_cnt :: "ext4_sblock \<Rightarrow> u64" where
  "ext4_sb_get_free_blocks_cnt s =
     push_bit 32 (ucast (sb_free_blocks_count_hi s)) OR ucast (sb_free_blocks_count_lo s)"

definition ext4_sb_set_free_blocks_cnt :: "ext4_sblock \<Rightarrow> u64 \<Rightarrow> ext4_sblock" where
  "ext4_sb_set_free_blocks_cnt s cnt =
     s\<lparr> sb_free_blocks_count_lo := ucast (drop_bit 32 (push_bit 32 cnt)),
        sb_free_blocks_count_hi := ucast (drop_bit 32 cnt) \<rparr>"

definition ext4_sb_get_block_size :: "ext4_sblock \<Rightarrow> u32" where
  "ext4_sb_get_block_size s = push_bit (unat (sb_log_block_size s)) 1024"

definition ext4_sb_get_desc_size :: "ext4_sblock \<Rightarrow> u16" where
  "ext4_sb_get_desc_size s =
     (let size = sb_desc_size s
      in if size < EXT4_MIN_BLOCK_GROUP_DESCRIPTOR_SIZE
         then EXT4_MIN_BLOCK_GROUP_DESCRIPTOR_SIZE else size)"

definition ext4_sb_check_flag :: "ext4_sblock \<Rightarrow> u32 \<Rightarrow> bool" where
  "ext4_sb_check_flag s v \<longleftrightarrow> sb_flags s AND v \<noteq> 0"

definition ext4_sb_feature_com :: "ext4_sblock \<Rightarrow> u32 \<Rightarrow> bool" where
  "ext4_sb_feature_com s v \<longleftrightarrow> sb_features_compatible s AND v \<noteq> 0"

definition ext4_sb_feature_incom :: "ext4_sblock \<Rightarrow> u32 \<Rightarrow> bool" where
  "ext4_sb_feature_incom s v \<longleftrightarrow> sb_features_incompatible s AND v \<noteq> 0"

definition ext4_sb_feature_ro_com :: "ext4_sblock \<Rightarrow> u32 \<Rightarrow> bool" where
  "ext4_sb_feature_ro_com s v \<longleftrightarrow> sb_features_read_only s AND v \<noteq> 0"

definition ext4_sb_bg_to_flex :: "ext4_sblock \<Rightarrow> u32 \<Rightarrow> u32" where
  "ext4_sb_bg_to_flex s block_group = drop_bit (unat (sb_log_groups_per_flex s)) block_group"

definition ext4_sb_flex_bg_size :: "ext4_sblock \<Rightarrow> u32" where
  "ext4_sb_flex_bg_size s = push_bit (unat (sb_log_groups_per_flex s)) 1"

definition ext4_sb_first_meta_bg :: "ext4_sblock \<Rightarrow> u32" where
  "ext4_sb_first_meta_bg s = sb_first_meta_bg s"

section \<open>Block groups\<close>

definition ext4_block_group_cnt :: "ext4_sblock \<Rightarrow> u32" where
  "ext4_block_group_cnt s =
     (let blocks_count = ext4_sb_get_blocks_cnt s;
          blocks_per_group = ucast (sb_blocks_per_group s);
          block_groups_count = ucast (blocks_count div blocks_per_group)
      in if blocks_count mod blocks_per_group \<noteq> 0 then block_groups_count + 1
         else block_groups_count)"

definition ext4_blocks_in_group_cnt :: "ext4_sblock \<Rightarrow> u32 \<Rightarrow> u32" where
  "ext4_blocks_in_group_cnt s bgid =
     (let block_group_count = ext4_block_group_cnt s;
          blocks_per_group = sb_blocks_per_group s;
          total_blocks = ext4_sb_get_blocks_cnt s
      in if bgid < block_group_count - 1 then blocks_per_group
         else ucast (total_blocks - ucast ((block_group_count - 1) * blocks_per_group)))"

definition ext4_inodes_in_group_cnt :: "ext4_sblock \<Rightarrow> u32 \<Rightarrow> u32" where
  "ext4_inodes_in_group_cnt s bgid =
     (let block_group_count = ext4_block_group_cnt s;
          inodes_per_group = sb_inodes_per_group s;
          total_inodes = sb_inodes_count s
      in if bgid < block_group_count - 1 then inodes_per_group
         else total_inodes - (block_group_count - 1) * inodes_per_group)"

section \<open>Checksum and validation\<close>

text \<open>The checksum field is the last of the 1024 bytes: its offset is 1020.\<close>

definition ext4_sb_csum :: "ext4_sblock \<Rightarrow> u32" where
  "ext4_sb_csum s = ext4_crc32c EXT4_CRC32_INIT (take 1020 (sb_bytes s))"

definition ext4_sb_verify_csum :: "ext4_sblock \<Rightarrow> bool" where
  "ext4_sb_verify_csum s \<longleftrightarrow>
     (if \<not> ext4_sb_feature_ro_com s EXT4_FRO_COM_METADATA_CSUM then True
      else if sb_checksum_type s \<noteq> EXT4_CHECKSUM_CRC32C then False
      else sb_checksum s = ext4_sb_csum s)"

definition ext4_sb_set_csum :: "ext4_sblock \<Rightarrow> ext4_sblock" where
  "ext4_sb_set_csum s =
     (if \<not> ext4_sb_feature_ro_com s EXT4_FRO_COM_METADATA_CSUM then s
      else s\<lparr> sb_checksum := ext4_sb_csum s \<rparr>)"

definition ext4_sb_check :: "ext4_sblock \<Rightarrow> bool" where
  "ext4_sb_check s \<longleftrightarrow>
     (if sb_magic s \<noteq> EXT4_SUPERBLOCK_MAGIC then False
      else if sb_inodes_count s = 0 then False
      else if ext4_sb_get_blocks_cnt s = 0 then False
      else if sb_blocks_per_group s = 0 then False
      else if sb_inodes_per_group s = 0 then False
      else if sb_inode_size s < 128 then False
      else if sb_first_inode s < 11 then False
      else if ext4_sb_get_desc_size s < EXT4_MIN_BLOCK_GROUP_DESCRIPTOR_SIZE then False
      else if ext4_sb_get_desc_size s > EXT4_MAX_BLOCK_GROUP_DESCRIPTOR_SIZE then False
      else if \<not> ext4_sb_verify_csum s then False
      else True)"

section \<open>Backup superblocks and descriptor blocks\<close>

text \<open>
  The \<^verbatim>\<open>while (1)\<close> loop of \<open>is_power_of\<close> as a partial function: \<open>None\<close> would mean that it does not
  return (as for \<open>b = 1\<close>).
\<close>

partial_function (option) is_power_of :: "u32 \<Rightarrow> u32 \<Rightarrow> bool option" where
  "is_power_of a b =
     (if a < b then Some False
      else if a = b then Some True
      else if a mod b \<noteq> 0 then Some False
      else is_power_of (a div b) b)"

definition ext4_sb_sparse :: "u32 \<Rightarrow> bool" where
  "ext4_sb_sparse grp =
     (if grp \<le> 1 then True
      else if grp AND 1 = 0 then False
      else is_power_of grp 7 = Some True \<or> is_power_of grp 5 = Some True \<or>
           is_power_of grp 3 = Some True)"

definition ext4_sb_is_super_in_bg :: "ext4_sblock \<Rightarrow> u32 \<Rightarrow> bool" where
  "ext4_sb_is_super_in_bg s grp =
     (if ext4_sb_feature_ro_com s EXT4_FRO_COM_SPARSE_SUPER \<and> \<not> ext4_sb_sparse grp
      then False else True)"

definition sb_dsc_per_block :: "ext4_sblock \<Rightarrow> u32" where
  "sb_dsc_per_block s = ext4_sb_get_block_size s div ucast (ext4_sb_get_desc_size s)"

definition ext4_bg_num_gdb_meta :: "ext4_sblock \<Rightarrow> u32 \<Rightarrow> u32" where
  "ext4_bg_num_gdb_meta s grp =
     (let dsc_per_block = sb_dsc_per_block s;
          metagroup = grp div dsc_per_block;
          first = metagroup * dsc_per_block;
          last = first + dsc_per_block - 1
      in if grp = first \<or> grp = first + 1 \<or> grp = last then 1 else 0)"

definition ext4_bg_num_gdb_nometa :: "ext4_sblock \<Rightarrow> u32 \<Rightarrow> u32" where
  "ext4_bg_num_gdb_nometa s grp =
     (if \<not> ext4_sb_is_super_in_bg s grp then 0
      else
        let dsc_per_block = sb_dsc_per_block s;
            db_count = (ext4_block_group_cnt s + dsc_per_block - 1) div dsc_per_block
        in if ext4_sb_feature_incom s EXT4_FINCOM_META_BG then ext4_sb_first_meta_bg s
           else db_count)"

definition ext4_bg_num_gdb :: "ext4_sblock \<Rightarrow> u32 \<Rightarrow> u32" where
  "ext4_bg_num_gdb s grp =
     (let dsc_per_block = sb_dsc_per_block s;
          first_meta_bg = ext4_sb_first_meta_bg s;
          metagroup = grp div dsc_per_block
      in if \<not> ext4_sb_feature_incom s EXT4_FINCOM_META_BG \<or> metagroup < first_meta_bg
         then ext4_bg_num_gdb_nometa s grp
         else ext4_bg_num_gdb_meta s grp)"

text \<open>The count of metadata blocks the second half of \<open>ext4_num_base_meta_clusters\<close> converts.\<close>

definition num_base_meta_blocks :: "ext4_sblock \<Rightarrow> u32 \<Rightarrow> u32" where
  "num_base_meta_blocks s block_group =
     (let num = (if ext4_sb_is_super_in_bg s block_group then 1 else 0);
          dsc_per_block = sb_dsc_per_block s
      in if \<not> ext4_sb_feature_incom s EXT4_FINCOM_META_BG \<or>
            block_group < ext4_sb_first_meta_bg s * dsc_per_block
         then (if num \<noteq> 0
               then num + ext4_bg_num_gdb s block_group + ucast (sb_reserved_gdt_blocks s)
               else num)
         else num + ext4_bg_num_gdb s block_group)"

definition ext4_num_base_meta_clusters :: "ext4_sblock \<Rightarrow> u32 \<Rightarrow> u32" where
  "ext4_num_base_meta_clusters s block_group =
     (let num = num_base_meta_blocks s block_group;
          clustersize = push_bit (unat (sb_log_cluster_size s)) 1024;
          cluster_ratio = clustersize div ext4_sb_get_block_size s
      in drop_bit (unat (sb_log_cluster_size s)) (num + cluster_ratio - 1))"

section \<open>Split 64-bit counters\<close>

lemma split64:
  "push_bit 32 (ucast (ucast (drop_bit 32 c) :: u32)) OR ucast (ucast (drop_bit 32 (push_bit 32 c)) :: u32) = (c :: u64)"
  by (rule bit_word_eqI) (auto simp: bit_simps)

section \<open>Group sizes\<close>

text \<open>The number of groups as a natural number: the quotient, rounded up.\<close>

definition group_count :: "nat \<Rightarrow> nat \<Rightarrow> nat" where
  "group_count n b = (n + b - 1) div b"

lemma group_count_eq:
  assumes "0 < b"
  shows "group_count n b = (if n mod b = 0 then n div b else n div b + 1)"
proof -
  have n: "n = b * (n div b) + n mod b" by simp
  show ?thesis
  proof (cases "n mod b = 0")
    case True
    then have "n + b - 1 = (b - 1) + b * (n div b)" using n assms by linarith
    then have "group_count n b = (b - 1) div b + n div b"
      using assms unfolding group_count_def by (simp only: div_mult_self2)
    with True assms show ?thesis by simp
  next
    case False
    have "n + b - 1 = (n mod b - 1) + b * (n div b + 1)"
      using n assms False by (simp add: distrib_left)
    then have "group_count n b = (n mod b - 1) div b + (n div b + 1)"
      using assms unfolding group_count_def by (simp only: div_mult_self2)
    moreover have "n mod b - 1 < b" using assms by (meson less_imp_diff_less mod_less_divisor)
    ultimately show ?thesis using False by simp
  qed
qed

lemma ext4_block_group_cnt_eq:
  assumes "sb_blocks_per_group s \<noteq> 0"
    and "group_count (unat (ext4_sb_get_blocks_cnt s)) (unat (sb_blocks_per_group s)) < 2 ^ 32"
  shows "unat (ext4_block_group_cnt s) =
    group_count (unat (ext4_sb_get_blocks_cnt s)) (unat (sb_blocks_per_group s))"
proof -
  let ?n = "ext4_sb_get_blocks_cnt s" and ?b = "ucast (sb_blocks_per_group s) :: u64"
  have b: "unat ?b = unat (sb_blocks_per_group s)" by (rule unat_ucast_up)
  have pos: "0 < unat (sb_blocks_per_group s)" using assms(1) by (simp add: unat_gt_0)
  have m: "?n mod ?b = 0 \<longleftrightarrow> unat ?n mod unat ?b = 0"
    by (simp add: word_unat_eq_iff unat_mod)
  have q: "unat (ucast (?n div ?b) :: u32) = unat ?n div unat ?b"
    if "unat ?n div unat ?b < 2 ^ 32"
    using that by (subst unat_ucast_small) (simp_all add: unat_div)
  show ?thesis
  proof (cases "unat ?n mod unat ?b = 0")
    case True
    with assms(2) pos b m q show ?thesis
      by (simp add: ext4_block_group_cnt_def Let_def group_count_eq)
  next
    case False
    then have "unat ?n div unat ?b + 1 < 2 ^ 32" using assms(2) pos b by (simp add: group_count_eq)
    with False pos b m q show ?thesis
      by (simp add: ext4_block_group_cnt_def Let_def group_count_eq unat_inc)
  qed
qed

lemma group_count_bounds:
  assumes "0 < b" "0 < n"
  shows "0 < group_count n b" "(group_count n b - 1) * b < n" "n \<le> group_count n b * b"
proof -
  define q r where "q = n div b" and "r = n mod b"
  have n: "n = q * b + r" and r: "r < b" using assms by (simp_all add: q_def r_def)
  have g: "group_count n b = (if r = 0 then q else Suc q)"
    using assms by (simp add: group_count_eq q_def r_def)
  have "r = 0 \<Longrightarrow> \<exists>q'. q = Suc q'" using n assms by (cases q) auto
  then show "0 < group_count n b" "(group_count n b - 1) * b < n" "n \<le> group_count n b * b"
    using n r g by auto
qed

text \<open>The last group's size: the 32-bit product may wrap, the final truncation undoes it.\<close>

lemma last_group_size:
  assumes "unat (c * b) \<le> unat n" and "unat c * unat b \<le> unat (n :: u64)"
    and "unat n - unat c * unat b < 2 ^ 32"
  shows "unat (ucast (n - ucast (c * b :: u32)) :: u32) = unat n - unat c * unat b"
proof -
  let ?P = "unat c * unat b"
  have "unat (n - ucast (c * b)) = unat n - ?P mod 2 ^ 32"
    using assms(1) by (subst unat_minus_le) (simp_all add: unat_ucast_up unat_word_ariths)
  also have "\<dots> = (unat n - ?P) + 2 ^ 32 * (?P div 2 ^ 32)"
  proof -
    have "?P = ?P mod 2 ^ 32 + 2 ^ 32 * (?P div 2 ^ 32)" by simp
    with assms(2) show ?thesis by linarith
  qed
  finally have "unat (n - ucast (c * b)) mod 2 ^ 32 = unat n - ?P"
    using assms(3) by (simp only: mod_mult_self2 mod_less)
  then show ?thesis by (simp add: unsigned_ucast_eq take_bit_eq_mod)
qed

lemma blocks_in_group_eq:
  assumes "sb_blocks_per_group s \<noteq> 0" and "ext4_sb_get_blocks_cnt s \<noteq> 0"
    and "group_count (unat (ext4_sb_get_blocks_cnt s)) (unat (sb_blocks_per_group s)) < 2 ^ 32"
  shows "unat (ext4_blocks_in_group_cnt s g) =
    (if unat g < unat (ext4_block_group_cnt s) - 1 then unat (sb_blocks_per_group s)
     else unat (ext4_sb_get_blocks_cnt s) -
          (unat (ext4_block_group_cnt s) - 1) * unat (sb_blocks_per_group s))"
proof -
  let ?n = "ext4_sb_get_blocks_cnt s" and ?b = "sb_blocks_per_group s" and ?c = "ext4_block_group_cnt s"
  have c: "unat ?c = group_count (unat ?n) (unat ?b)" by (rule ext4_block_group_cnt_eq [OF assms(1,3)])
  have pos: "0 < unat ?b" "0 < unat ?n" using assms(1,2) by (simp_all add: unat_gt_0)
  note gc = group_count_bounds [OF pos, folded c]
  have "?c \<noteq> 0" using gc(1) by auto
  then have c1: "unat (?c - 1) = unat ?c - 1" by (rule unat_dec)
  have le: "unat (?c - 1) * unat ?b \<le> unat ?n" using gc(2) c1 by simp
  have "unat ?n - unat (?c - 1) * unat ?b \<le> unat ?b"
    using gc(1,3) c1 by (cases "unat ?c") simp_all
  then have "unat ?n - unat (?c - 1) * unat ?b < 2 ^ 32" using unat_lt32 [of ?b] by linarith
  moreover have "unat ((?c - 1) * ?b) \<le> unat ?n"
  proof -
    have "unat ((?c - 1) * ?b) \<le> unat (?c - 1) * unat ?b" by (simp add: unat_word_ariths)
    from this le show ?thesis by (rule order_trans)
  qed
  ultimately have "unat (ucast (?n - ucast ((?c - 1) * ?b)) :: u32) = unat ?n - unat (?c - 1) * unat ?b"
    using le by (intro last_group_size)
  with c1 show ?thesis by (simp only: ext4_blocks_in_group_cnt_def Let_def word_less_nat_alt split: if_split) simp
qed

section \<open>Powers\<close>

lemma is_power_of_correct:
  assumes "2 \<le> unat b" and "a \<noteq> 0"
  shows "is_power_of a b = Some (\<exists>k. unat a = unat b ^ Suc k)"
  using assms(2)
proof (induction "unat a" arbitrary: a rule: less_induct)
  case less
  consider "unat a < unat b" | "a = b" | "unat b < unat a" "unat a mod unat b \<noteq> 0"
    | "unat b < unat a" "unat a mod unat b = 0"
    by (metis linorder_neqE_nat word_unat_eq_iff)
  then show ?case
  proof cases
    case 1
    have "unat b * 1 \<le> unat b * unat b ^ k" for k using assms(1) by (intro mult_le_mono2) simp
    with 1 have "\<not> (\<exists>k. unat a = unat b ^ Suc k)" by (metis mult_1_right not_le power_Suc)
    with 1 show ?thesis by (subst is_power_of.simps) (simp add: word_less_nat_alt)
  next
    case 2
    then have "unat a = unat b ^ Suc 0" by simp
    then have "\<exists>k. unat a = unat b ^ Suc k" by blast
    with 2 show ?thesis by (subst is_power_of.simps) simp
  next
    case 3
    then have "a mod b \<noteq> 0" by (simp add: word_unat_eq_iff unat_mod)
    moreover have "\<not> (\<exists>k. unat a = unat b ^ Suc k)" using 3 by auto
    ultimately show ?thesis using 3
      by (subst is_power_of.simps) (auto simp: word_less_nat_alt)
  next
    case 4
    then have "a mod b = 0" by (simp add: word_unat_eq_iff unat_mod)
    then have step: "is_power_of a b = is_power_of (a div b) b" using 4
      by (subst is_power_of.simps) (auto simp: word_less_nat_alt)
    have q: "unat (a div b) * unat b = unat a" using 4 by (auto simp: unat_div)
    have "unat a \<noteq> 0" using less.prems by (simp add: word_unat_eq_iff)
    then have "unat (a div b) \<noteq> 0" using q by (metis mult_zero_left)
    then have "a div b \<noteq> 0" by auto
    moreover have "unat (a div b) < unat a"
      using q assms(1) 4 by (simp add: unat_div)
    ultimately have IH: "is_power_of (a div b) b = Some (\<exists>k. unat (a div b) = unat b ^ Suc k)"
      by (intro less.hyps) simp_all
    have "(\<exists>k. unat (a div b) = unat b ^ Suc k) \<longleftrightarrow> (\<exists>k. unat a = unat b ^ Suc k)"
    proof
      assume "\<exists>k. unat (a div b) = unat b ^ Suc k"
      then show "\<exists>k. unat a = unat b ^ Suc k" using q by (metis power_Suc2)
    next
      assume "\<exists>k. unat a = unat b ^ Suc k"
      then obtain k where k: "unat a = unat b ^ Suc k" by blast
      with 4 obtain j where "k = Suc j" by (cases k) auto
      with k q assms(1) have "unat (a div b) = unat b ^ Suc j"
        by (metis mult_cancel2 not_numeral_le_zero power_Suc2)
      then show "\<exists>k. unat (a div b) = unat b ^ Suc k" by blast
    qed
    with step IH show ?thesis by simp
  qed
qed

lemma ext4_sb_sparse_eq:
  "ext4_sb_sparse g \<longleftrightarrow>
     unat g = 0 \<or> (\<exists>k. unat g = 3 ^ k \<or> unat g = 5 ^ k \<or> unat g = 7 ^ k)"
proof (cases "unat g \<le> 1")
  case True
  then have "unat g = 0 \<or> unat g = 3 ^ 0" by auto
  then have "unat g = 0 \<or> (\<exists>k. unat g = 3 ^ k \<or> unat g = 5 ^ k \<or> unat g = 7 ^ k)" by blast
  with True show ?thesis by (simp add: ext4_sb_sparse_def word_le_nat_alt)
next
  case False
  then have nz: "g \<noteq> 0" by auto
  have pw: "is_power_of g (numeral m) = Some True \<longleftrightarrow> (\<exists>k. unat g = unat (numeral m :: u32) ^ k)"
    if "2 \<le> unat (numeral m :: u32)" for m
  proof -
    have "(\<exists>k. unat g = unat (numeral m :: u32) ^ Suc k) \<longleftrightarrow> (\<exists>k. unat g = unat (numeral m :: u32) ^ k)"
      using False by (metis One_nat_def le_refl not0_implies_Suc power_0)
    with is_power_of_correct [OF that nz] show ?thesis by simp
  qed
  have odd: "g AND 1 = 0 \<longleftrightarrow> even (unat g)"
    by (simp add: and_one_eq word_unat_eq_iff unat_mod even_iff_mod_2_eq_zero)
  show ?thesis
  proof (cases "even (unat g)")
    case True
    then have "\<not> (\<exists>k. unat g = 3 ^ k \<or> unat g = 5 ^ k \<or> unat g = 7 ^ k)" by auto
    with True False odd show ?thesis by (simp add: ext4_sb_sparse_def word_le_nat_alt)
  next
    case f: False
    with False odd pw [of "Num.Bit1 Num.One"] pw [of "Num.Bit1 (Num.Bit0 Num.One)"]
      pw [of "Num.Bit1 (Num.Bit1 Num.One)"]
    show ?thesis by (auto simp: ext4_sb_sparse_def word_le_nat_alt)
  qed
qed

section \<open>The checksum on the image\<close>

lemma sb_csum_of_bytes:
  "length bs = 1024 \<Longrightarrow> ext4_sb_csum (sb_of_bytes bs) = ext4_crc32c EXT4_CRC32_INIT (take 1020 bs)"
  by (simp add: ext4_sb_csum_def sb_bytes_sb_of_bytes)

lemma sb_bytes_checksum:
  "sb_shape s \<Longrightarrow> sb_bytes (s\<lparr> sb_checksum := c \<rparr>) = take 1020 (sb_bytes s) @ enc32 c"
  by (simp add: sb_bytes_def sb_shape_def)

lemma sb_shape_checksum: "sb_shape (s\<lparr> sb_checksum := c \<rparr>) = sb_shape s"
  by (simp add: sb_shape_def)

lemma ext4_sb_csum_checksum: "sb_shape s \<Longrightarrow> ext4_sb_csum (s\<lparr> sb_checksum := c \<rparr>) = ext4_sb_csum s"
  by (simp add: ext4_sb_csum_def sb_bytes_checksum length_sb_bytes)

lemma sb_checksum_of_bytes: "length bs = 1024 \<Longrightarrow> sb_checksum (sb_of_bytes bs) = le_dec (drop 1020 bs)"
  by (simp add: sb_of_bytes_def get_field_defs)

lemma verify_after_set:
  assumes "sb_shape s" and "sb_checksum_type s = EXT4_CHECKSUM_CRC32C"
  shows "ext4_sb_verify_csum (ext4_sb_set_csum s)"
  using assms
  by (simp add: ext4_sb_verify_csum_def ext4_sb_set_csum_def ext4_sb_feature_ro_com_def
      ext4_sb_csum_checksum)

section \<open>Properties\<close>

text \<open>A small superblock for the witnesses: three groups of 8 blocks, the last with 4.\<close>

definition sb_sample :: ext4_sblock where
  "sb_sample = (sb_of_bytes (replicate 1024 0))
     \<lparr> sb_magic := 0xEF53, sb_inodes_count := 48, sb_blocks_count_lo := 20, sb_blocks_count_hi := 0,
       sb_blocks_per_group := 8, sb_inodes_per_group := 16, sb_inode_size := 128,
       sb_first_inode := 11, sb_desc_size := 32, sb_first_data_block := 0, sb_log_block_size := 0,
       sb_log_cluster_size := 0, sb_features_read_only := 0, sb_features_incompatible := 0,
       sb_reserved_gdt_blocks := 0 \<rparr>"

text \<open>
  The block counters are split without loss. Writing a 64-bit block count or free block count
  into its two 32-bit halves and reading it back returns it, for every value, and each setter
  leaves the other counter alone.
\<close>

theorem sb_counters_roundtrip:
  "ext4_sb_get_blocks_cnt (ext4_sb_set_blocks_cnt s c) = c \<and>
   ext4_sb_get_free_blocks_cnt (ext4_sb_set_free_blocks_cnt s c) = c \<and>
   ext4_sb_get_blocks_cnt (ext4_sb_set_free_blocks_cnt s c) = ext4_sb_get_blocks_cnt s \<and>
   ext4_sb_get_free_blocks_cnt (ext4_sb_set_blocks_cnt s c) = ext4_sb_get_free_blocks_cnt s"
  by (simp add: ext4_sb_get_blocks_cnt_def ext4_sb_set_blocks_cnt_def split64
      ext4_sb_get_free_blocks_cnt_def ext4_sb_set_free_blocks_cnt_def)

text \<open>
  C17: the block groups partition the volume. For a superblock that \<open>ext4_sb_check\<close> accepts and whose
  group count fits 32 bits, the sizes \<open>ext4_blocks_in_group_cnt\<close> of the
  \<open>ext4_block_group_cnt\<close> groups add up to the block count, and every group has between one and
  \<open>blocks_per_group\<close> blocks, also for volumes beyond \<open>2 ^ 32\<close> blocks, where the 32-bit product in the
  code wraps.
\<close>

theorem groups_partition_blocks:
  assumes "ext4_sb_check s"
    and "(unat (ext4_sb_get_blocks_cnt s) + unat (sb_blocks_per_group s) - 1) div
           unat (sb_blocks_per_group s) < 2 ^ 32"
  shows "(\<Sum>g < unat (ext4_block_group_cnt s). unat (ext4_blocks_in_group_cnt s (of_nat g))) =
      unat (ext4_sb_get_blocks_cnt s) \<and>
    (\<forall>g < unat (ext4_block_group_cnt s).
       0 < unat (ext4_blocks_in_group_cnt s (of_nat g)) \<and>
       unat (ext4_blocks_in_group_cnt s (of_nat g)) \<le> unat (sb_blocks_per_group s))"
proof -
  let ?n = "ext4_sb_get_blocks_cnt s" and ?b = "unat (sb_blocks_per_group s)"
  let ?c = "unat (ext4_block_group_cnt s)" and ?f = "\<lambda>g. unat (ext4_blocks_in_group_cnt s (of_nat g))"
  have nz: "sb_blocks_per_group s \<noteq> 0" "?n \<noteq> 0"
    using assms(1) by (auto simp: ext4_sb_check_def split: if_splits)
  note gc = assms(2) [folded group_count_def]
  have c: "?c = group_count (unat ?n) ?b" by (rule ext4_block_group_cnt_eq [OF nz(1) gc])
  have pos: "0 < ?b" "0 < unat ?n" using nz by (simp_all add: unat_gt_0)
  note gb = group_count_bounds [OF pos, folded c]
  have "unat (of_nat g :: u32) = g" if "g < ?c" for g
    using that unat_lt32 [of "ext4_block_group_cnt s"] by (simp add: unat_of_nat)
  then have f: "?f g = (if g < ?c - 1 then ?b else unat ?n - (?c - 1) * ?b)" if "g < ?c" for g
    using that by (simp add: blocks_in_group_eq [OF nz gc])
  have "(\<Sum>g<?c. ?f g) = (\<Sum>g<?c. if g < ?c - 1 then ?b else unat ?n - (?c - 1) * ?b)"
    by (rule sum.cong) (simp_all add: f)
  also have "\<dots> = (?c - 1) * ?b + (unat ?n - (?c - 1) * ?b)"
    using gb(1) by (cases ?c) simp_all
  finally have "(\<Sum>g<?c. ?f g) = unat ?n" using gb(2) by simp
  moreover have "0 < ?f g \<and> ?f g \<le> ?b" if "g < ?c" for g
    using that gb pos by (cases ?c) (auto simp: f)
  ultimately show ?thesis by blast
qed

theorem groups_partition_blocks_witness:
  "ext4_sb_check sb_sample \<and> unat (ext4_block_group_cnt sb_sample) = 3 \<and>
   (\<Sum>g < 3. unat (ext4_blocks_in_group_cnt sb_sample (of_nat g))) = 20 \<and>
   unat (ext4_blocks_in_group_cnt sb_sample 2) = 4"
proof -
  have chk: "ext4_sb_check sb_sample"
    by (simp add: sb_sample_def ext4_sb_check_def ext4_sb_get_blocks_cnt_def
        ext4_sb_get_desc_size_def ext4_sb_verify_csum_def ext4_sb_feature_ro_com_def ext4_consts)
  have n: "ext4_sb_get_blocks_cnt sb_sample = 20" "sb_blocks_per_group sb_sample = 8"
    by (simp_all add: sb_sample_def ext4_sb_get_blocks_cnt_def)
  then have "ext4_block_group_cnt sb_sample = 3" "ext4_blocks_in_group_cnt sb_sample 2 = 4"
    by (simp_all add: ext4_block_group_cnt_def ext4_blocks_in_group_cnt_def Let_def)
  with chk n groups_partition_blocks [OF chk] show ?thesis by simp
qed

text \<open>
  Backup superblocks sit at 0 and the powers of 3, 5 and 7. \<open>ext4_sb_sparse\<close> terminates for
  every group number, and holds exactly for group 0 and for the groups that are a power of 3, 5 or 7
  (1 included).
\<close>

theorem sb_sparse_powers:
  "(ext4_sb_sparse g \<longleftrightarrow>
      unat g = 0 \<or> (\<exists>k. unat g = 3 ^ k \<or> unat g = 5 ^ k \<or> unat g = 7 ^ k)) \<and>
   (g = 0 \<or> (is_power_of g 3 \<noteq> None \<and> is_power_of g 5 \<noteq> None \<and> is_power_of g 7 \<noteq> None))"
  using is_power_of_correct [of 3 g] is_power_of_correct [of 5 g] is_power_of_correct [of 7 g]
  by (auto simp: ext4_sb_sparse_eq)

text \<open>
  C20: the superblock checksum is set consistently and protects the superblock. After
  \<open>ext4_sb_set_csum\<close> the checksum verifies; and an image that differs from the written one inside a
  window of at most four of the 1020 checksummed bytes is accepted by \<open>ext4_sb_verify_csum\<close> only when it announces metadata
  checksums no more: then the checksum is not looked at.
\<close>

theorem sb_csum_detects_corruption:
  assumes "sb_shape s" and "sb_checksum_type s = EXT4_CHECKSUM_CRC32C"
    and "ext4_sb_feature_ro_com s EXT4_FRO_COM_METADATA_CSUM"
    and "sb_bytes (ext4_sb_set_csum s) = pre @ xs @ post"
    and "length ys = length xs" and "length xs \<le> 4" and "ys \<noteq> xs" and "4 \<le> length post"
  shows "ext4_sb_verify_csum (ext4_sb_set_csum s) \<and>
    (ext4_sb_verify_csum (sb_of_bytes (pre @ ys @ post)) \<longleftrightarrow>
       \<not> ext4_sb_feature_ro_com (sb_of_bytes (pre @ ys @ post)) EXT4_FRO_COM_METADATA_CSUM)"
proof
  show "ext4_sb_verify_csum (ext4_sb_set_csum s)" by (rule verify_after_set [OF assms(1,2)])
  let ?w = "pre @ xs @ post" and ?bs = "pre @ ys @ post"
  have set: "ext4_sb_set_csum s = s\<lparr> sb_checksum := ext4_sb_csum s \<rparr>"
    using assms(3) by (simp add: ext4_sb_set_csum_def)
  have w: "?w = take 1020 (sb_bytes s) @ enc32 (ext4_sb_csum s)"
    using assms(4) by (simp add: set sb_bytes_checksum [OF assms(1)])
  have "length ?w = 1024" unfolding w using length_sb_bytes [OF assms(1)] by simp
  then have len: "length ?bs = 1024" using assms(5) by simp
  obtain post' where p: "post = post' @ enc32 (ext4_sb_csum s)" "take 1020 (sb_bytes s) = pre @ xs @ post'"
  proof -
    have "drop 1020 ?w = enc32 (ext4_sb_csum s)" "take 1020 ?w = take 1020 (sb_bytes s)"
      using w length_sb_bytes [OF assms(1)] by simp_all
    moreover have "length pre + length xs \<le> 1020" using assms(8) \<open>length ?w = 1024\<close> by simp
    ultimately show thesis
      using that [of "take (1020 - (length pre + length xs)) post"]
        append_take_drop_id [of "1020 - (length pre + length xs)" post] by simp
  qed
  show "ext4_sb_verify_csum (sb_of_bytes ?bs) \<longleftrightarrow> \<not> ext4_sb_feature_ro_com (sb_of_bytes ?bs) EXT4_FRO_COM_METADATA_CSUM"
  proof (rule iffI; rule ccontr)
    assume "\<not> ext4_sb_feature_ro_com (sb_of_bytes ?bs) EXT4_FRO_COM_METADATA_CSUM" "\<not> ext4_sb_verify_csum (sb_of_bytes ?bs)"
    then show False by (simp add: ext4_sb_verify_csum_def)
  next
    assume f: "\<not> \<not> ext4_sb_feature_ro_com (sb_of_bytes ?bs) EXT4_FRO_COM_METADATA_CSUM" and "ext4_sb_verify_csum (sb_of_bytes ?bs)"
    then have "sb_checksum (sb_of_bytes ?bs) = ext4_sb_csum (sb_of_bytes ?bs)"
      by (simp add: ext4_sb_verify_csum_def split: if_splits)
    then have "ext4_sb_csum s = ext4_crc32c EXT4_CRC32_INIT (pre @ ys @ post')"
      using len p assms(5)
      by (simp add: sb_csum_of_bytes sb_checksum_of_bytes)
    moreover have "ext4_sb_csum s = ext4_crc32c EXT4_CRC32_INIT (pre @ xs @ post')"
      by (simp add: ext4_sb_csum_def p(2))
    ultimately show False
      using crc_serial_burst [OF poly_top_bits(2), of xs ys] assms(5-7)
      by (simp add: crc_serial_eqs)
  qed
qed

text \<open>An image with metadata checksums on: byte 101 holds the feature bit, byte 373 the checksum type.\<close>

definition csum_image :: "u8 list" where
  "csum_image = 0 # replicate 100 0 @ 4 # replicate 271 0 @ 1 # replicate 650 0"

theorem sb_csum_detects_corruption_witness:
  "ext4_sb_verify_csum (ext4_sb_set_csum (sb_of_bytes csum_image)) \<and>
   \<not> ext4_sb_verify_csum (sb_of_bytes ([] @ [1] @ tl (sb_bytes (ext4_sb_set_csum (sb_of_bytes csum_image)))))"
proof -
  let ?s = "sb_of_bytes csum_image"
  have len: "length csum_image = 1024" by (simp add: csum_image_def)
  have shape: "sb_shape ?s" by (rule sb_shape_of_bytes [OF len])
  have ft: "ext4_sb_feature_ro_com (sb_of_bytes bs) EXT4_FRO_COM_METADATA_CSUM"
    if "take 4 (drop 100 bs) = [0, 4, 0, 0]" for bs
    using that by (simp add: ext4_sb_feature_ro_com_def ext4_consts sb_of_bytes_def get_field_defs)
  have c100: "take 4 (drop 100 csum_image) = [0, 4, 0, 0]"
    by (simp add: csum_image_def numeral_eq_Suc)
  have type: "sb_checksum_type ?s = EXT4_CHECKSUM_CRC32C"
    by (simp add: ext4_consts sb_of_bytes_def get_field_defs csum_image_def)
  let ?w = "sb_bytes (ext4_sb_set_csum ?s)"
  have w: "?w = take 1020 csum_image @ enc32 (ext4_sb_csum ?s)"
    using ft [OF c100]
    by (simp add: ext4_sb_set_csum_def sb_bytes_checksum [OF shape] sb_bytes_sb_of_bytes [OF len])
  have hd: "?w = [] @ [0] @ tl ?w"
    unfolding w by (simp add: csum_image_def)
  have len_tl: "4 \<le> length (tl ?w)" unfolding w using len by simp
  have "take 4 (drop 100 ([] @ [1] @ tl ?w)) = take 4 (drop 100 ?w)"
    by (subst (2) hd) simp
  also have "\<dots> = [0, 4, 0, 0]" unfolding w using len c100 by (simp add: drop_take)
  finally have ft2: "ext4_sb_feature_ro_com (sb_of_bytes ([] @ [1] @ tl ?w)) EXT4_FRO_COM_METADATA_CSUM"
    by (rule ft)
  show ?thesis
    using sb_csum_detects_corruption [OF shape type ft [OF c100] hd _ _ _ len_tl, of "[1]"] ft2 by simp
qed

text \<open>
  The group count ignores the first data block. On a volume of 1 KiB blocks the groups start at
  \<open>first_data_block\<close>; when \<open>k\<close> full groups starting there hold exactly the rest of the volume,
  \<open>ext4_block_group_cnt\<close> nevertheless counts \<open>k + 1\<close> groups, and \<open>ext4_blocks_in_group_cnt\<close> gives
  group \<open>k\<close> blocks although it would start at the end of the volume.
\<close>

theorem group_count_ignores_first_data_block:
  assumes "ext4_sb_check s" and "0 < sb_first_data_block s"
    and "sb_first_data_block s < sb_blocks_per_group s"
    and "unat (ext4_sb_get_blocks_cnt s) =
           unat (sb_first_data_block s) + k * unat (sb_blocks_per_group s)"
    and "k + 1 < 2 ^ 32"
  shows "unat (ext4_block_group_cnt s) = k + 1 \<and>
    unat (ext4_blocks_in_group_cnt s (of_nat k)) = unat (sb_first_data_block s) \<and>
    ext4_blocks_in_group_cnt s (of_nat k) \<noteq> 0"
proof -
  have nz: "sb_blocks_per_group s \<noteq> 0" "ext4_sb_get_blocks_cnt s \<noteq> 0"
    using assms(1) by (auto simp: ext4_sb_check_def split: if_splits)
  have lt: "unat (sb_first_data_block s) < unat (sb_blocks_per_group s)" "0 < unat (sb_first_data_block s)"
    using assms(2,3) by (simp_all add: word_less_nat_alt)
  have g: "group_count (unat (ext4_sb_get_blocks_cnt s)) (unat (sb_blocks_per_group s)) = k + 1"
    using lt by (simp add: group_count_eq assms(4) less_trans)
  then have c: "unat (ext4_block_group_cnt s) = k + 1"
    using ext4_block_group_cnt_eq [OF nz(1)] assms(5) by simp
  have "unat (of_nat k :: u32) = k" using assms(5) by (simp add: unat_of_nat)
  moreover have "group_count (unat (ext4_sb_get_blocks_cnt s)) (unat (sb_blocks_per_group s)) < 2 ^ 32"
    unfolding g by (rule assms(5))
  ultimately have "unat (ext4_blocks_in_group_cnt s (of_nat k)) = unat (sb_first_data_block s)"
    using blocks_in_group_eq [OF nz, of "of_nat k"] c assms(4) by simp
  with c lt show ?thesis by (auto simp: word_unat_eq_iff)
qed

theorem group_count_ignores_first_data_block_witness:
  "unat (ext4_block_group_cnt (sb_sample\<lparr> sb_first_data_block := 4 \<rparr>)) = 3 \<and>
   unat (ext4_blocks_in_group_cnt (sb_sample\<lparr> sb_first_data_block := 4 \<rparr>) 2) = 4"
proof -
  let ?s = "sb_sample\<lparr> sb_first_data_block := 4 \<rparr>"
  have "ext4_sb_check ?s"
    by (simp add: sb_sample_def ext4_sb_check_def ext4_sb_get_blocks_cnt_def
        ext4_sb_get_desc_size_def ext4_sb_verify_csum_def ext4_sb_feature_ro_com_def ext4_consts)
  moreover have "0 < sb_first_data_block ?s" "sb_first_data_block ?s < sb_blocks_per_group ?s"
    "unat (ext4_sb_get_blocks_cnt ?s) =
       unat (sb_first_data_block ?s) + 2 * unat (sb_blocks_per_group ?s)"
    by (simp_all add: sb_sample_def ext4_sb_get_blocks_cnt_def)
  ultimately show ?thesis
    using group_count_ignores_first_data_block [of ?s 2] by simp
qed

text \<open>
  The metadata cluster count divides by the block size. Without bigalloc, where a cluster is a
  block (\<open>log_cluster_size = log_block_size\<close>), the number of base metadata clusters should be the number
  of base metadata blocks; \<open>ext4_num_base_meta_clusters\<close> returns that number divided by
  \<open>2 ^ log_block_size\<close>, so it is right for 1 KiB blocks only.
\<close>

theorem base_meta_clusters_scaled:
  assumes "sb_log_cluster_size s = sb_log_block_size s" and "unat (sb_log_block_size s) \<le> 20"
  shows "unat (ext4_num_base_meta_clusters s g) =
    unat (num_base_meta_blocks s g) div 2 ^ unat (sb_log_block_size s)"
proof -
  have "unat (push_bit n 1024 :: u32) \<noteq> 0" if "n \<le> 20" for n
  proof -
    have "bit (push_bit n 1024 :: u32) (n + 10)"
      using that by (simp add: bit_simps)
    then have "(push_bit n 1024 :: u32) \<noteq> 0" by auto
    then show ?thesis by (simp add: word_unat_eq_iff)
  qed
  then have "ext4_sb_get_block_size s div ext4_sb_get_block_size s = 1"
    using assms(2) by (simp add: ext4_sb_get_block_size_def word_unat_eq_iff unat_div)
  then show ?thesis
    by (simp add: ext4_num_base_meta_clusters_def ext4_sb_get_block_size_def assms(1) Let_def
        unat_drop_bit_eq) (simp add: drop_bit_eq_div)
qed

theorem base_meta_clusters_scaled_witness:
  "num_base_meta_blocks (sb_sample\<lparr> sb_log_block_size := 2, sb_log_cluster_size := 2 \<rparr>) 0 = 2 \<and>
   ext4_num_base_meta_clusters (sb_sample\<lparr> sb_log_block_size := 2, sb_log_cluster_size := 2 \<rparr>) 0 = 0"
proof -
  let ?s = "sb_sample\<lparr> sb_log_block_size := 2, sb_log_cluster_size := 2 \<rparr>"
  have n: "num_base_meta_blocks ?s 0 = 2"
    by (simp add: sb_sample_def num_base_meta_blocks_def ext4_sb_is_super_in_bg_def
        ext4_sb_feature_ro_com_def ext4_sb_feature_incom_def ext4_bg_num_gdb_def
        ext4_bg_num_gdb_nometa_def sb_dsc_per_block_def ext4_sb_get_block_size_def
        ext4_sb_get_desc_size_def ext4_block_group_cnt_def ext4_sb_get_blocks_cnt_def ext4_consts)
  have "unat (ext4_num_base_meta_clusters ?s 0) = 2 div 2 ^ 2"
    using base_meta_clusters_scaled [of ?s 0] n by (simp add: sb_sample_def)
  then have "unat (ext4_num_base_meta_clusters ?s 0) = 0" by simp
  with n show ?thesis by (simp only: unat_eq_zero)
qed

text \<open>
  The 1024-byte image and the superblock record determine each other. Decoding the image of a
  superblock gives it back, and every 1024-byte block is the image of the superblock it decodes to:
  no field is lost, truncated or aliased between \<open>ext4_sb_write\<close> and \<open>ext4_sb_read\<close>.
\<close>

theorem superblock_image_bijection:
  assumes "sb_shape s" and "length bs = 1024"
  shows "length (sb_bytes s) = 1024 \<and> sb_of_bytes (sb_bytes s) = s \<and>
    sb_shape (sb_of_bytes bs) \<and> sb_bytes (sb_of_bytes bs) = bs"
  using assms by (simp add: length_sb_bytes sb_of_bytes_sb_bytes sb_shape_of_bytes sb_bytes_sb_of_bytes)

theorem superblock_image_bijection_witness:
  "sb_of_bytes (sb_bytes sb_sample) = sb_sample \<and> sb_bytes (sb_of_bytes csum_image) = csum_image"
proof -
  have "sb_shape sb_sample"
    using sb_shape_of_bytes [of "replicate 1024 0"] by (simp add: sb_sample_def sb_shape_def)
  moreover have "length csum_image = 1024" by (simp add: csum_image_def)
  ultimately show ?thesis using superblock_image_bijection by blast
qed

end
