(* ===== verification/BlockGroup.thy ===== *)
theory BlockGroup
  imports Super
begin

text \<open>
  The block group descriptor \<^verbatim>\<open>struct ext4_bgroup\<close> (\<^verbatim>\<open>include/ext4_types.h\<close>) with its packed
  64-byte image, the accessors of \<^verbatim>\<open>include/ext4_block_group.h\<close>, and the descriptor checksum of
  \<^verbatim>\<open>src/ext4_fs.c\<close>. On volumes with 32-byte descriptors only the first half of the struct exists;
  the accessors leave the second half alone then.
\<close>

record ext4_bgroup =
  bg_block_bitmap_lo :: u32
  bg_inode_bitmap_lo :: u32
  bg_inode_table_first_block_lo :: u32
  bg_free_blocks_count_lo :: u16
  bg_free_inodes_count_lo :: u16
  bg_used_dirs_count_lo :: u16
  bg_flags :: u16
  bg_exclude_bitmap_lo :: u32
  bg_block_bitmap_csum_lo :: u16
  bg_inode_bitmap_csum_lo :: u16
  bg_itable_unused_lo :: u16
  bg_checksum :: u16
  bg_block_bitmap_hi :: u32
  bg_inode_bitmap_hi :: u32
  bg_inode_table_first_block_hi :: u32
  bg_free_blocks_count_hi :: u16
  bg_free_inodes_count_hi :: u16
  bg_used_dirs_count_hi :: u16
  bg_itable_unused_hi :: u16
  bg_exclude_bitmap_hi :: u32
  bg_block_bitmap_csum_hi :: u16
  bg_inode_bitmap_csum_hi :: u16
  bg_reserved :: u32

definition bg_bytes :: "ext4_bgroup \<Rightarrow> u8 list" where
  "bg_bytes g =
     enc32 (bg_block_bitmap_lo g) @
     enc32 (bg_inode_bitmap_lo g) @
     enc32 (bg_inode_table_first_block_lo g) @
     enc16 (bg_free_blocks_count_lo g) @
     enc16 (bg_free_inodes_count_lo g) @
     enc16 (bg_used_dirs_count_lo g) @
     enc16 (bg_flags g) @
     enc32 (bg_exclude_bitmap_lo g) @
     enc16 (bg_block_bitmap_csum_lo g) @
     enc16 (bg_inode_bitmap_csum_lo g) @
     enc16 (bg_itable_unused_lo g) @
     enc16 (bg_checksum g) @
     enc32 (bg_block_bitmap_hi g) @
     enc32 (bg_inode_bitmap_hi g) @
     enc32 (bg_inode_table_first_block_hi g) @
     enc16 (bg_free_blocks_count_hi g) @
     enc16 (bg_free_inodes_count_hi g) @
     enc16 (bg_used_dirs_count_hi g) @
     enc16 (bg_itable_unused_hi g) @
     enc32 (bg_exclude_bitmap_hi g) @
     enc16 (bg_block_bitmap_csum_hi g) @
     enc16 (bg_inode_bitmap_csum_hi g) @
     enc32 (bg_reserved g)"

definition bg_of_bytes :: "u8 list \<Rightarrow> ext4_bgroup" where
  "bg_of_bytes bs =
    (case get32 bs of (v0, bs) \<Rightarrow>
    (case get32 bs of (v1, bs) \<Rightarrow>
    (case get32 bs of (v2, bs) \<Rightarrow>
    (case get16 bs of (v3, bs) \<Rightarrow>
    (case get16 bs of (v4, bs) \<Rightarrow>
    (case get16 bs of (v5, bs) \<Rightarrow>
    (case get16 bs of (v6, bs) \<Rightarrow>
    (case get32 bs of (v7, bs) \<Rightarrow>
    (case get16 bs of (v8, bs) \<Rightarrow>
    (case get16 bs of (v9, bs) \<Rightarrow>
    (case get16 bs of (v10, bs) \<Rightarrow>
    (case get16 bs of (v11, bs) \<Rightarrow>
    (case get32 bs of (v12, bs) \<Rightarrow>
    (case get32 bs of (v13, bs) \<Rightarrow>
    (case get32 bs of (v14, bs) \<Rightarrow>
    (case get16 bs of (v15, bs) \<Rightarrow>
    (case get16 bs of (v16, bs) \<Rightarrow>
    (case get16 bs of (v17, bs) \<Rightarrow>
    (case get16 bs of (v18, bs) \<Rightarrow>
    (case get32 bs of (v19, bs) \<Rightarrow>
    (case get16 bs of (v20, bs) \<Rightarrow>
    (case get16 bs of (v21, bs) \<Rightarrow>
    (case get32 bs of (v22, bs) \<Rightarrow>
    \<lparr> bg_block_bitmap_lo = v0,
      bg_inode_bitmap_lo = v1,
      bg_inode_table_first_block_lo = v2,
      bg_free_blocks_count_lo = v3,
      bg_free_inodes_count_lo = v4,
      bg_used_dirs_count_lo = v5,
      bg_flags = v6,
      bg_exclude_bitmap_lo = v7,
      bg_block_bitmap_csum_lo = v8,
      bg_inode_bitmap_csum_lo = v9,
      bg_itable_unused_lo = v10,
      bg_checksum = v11,
      bg_block_bitmap_hi = v12,
      bg_inode_bitmap_hi = v13,
      bg_inode_table_first_block_hi = v14,
      bg_free_blocks_count_hi = v15,
      bg_free_inodes_count_hi = v16,
      bg_used_dirs_count_hi = v17,
      bg_itable_unused_hi = v18,
      bg_exclude_bitmap_hi = v19,
      bg_block_bitmap_csum_hi = v20,
      bg_inode_bitmap_csum_hi = v21,
      bg_reserved = v22 \<rparr>)))))))))))))))))))))))"

section \<open>Accessors\<close>

definition ext4_bg_get_block_bitmap :: "ext4_bgroup \<Rightarrow> ext4_sblock \<Rightarrow> u64" where
  "ext4_bg_get_block_bitmap bg s =
     (let v = ucast (bg_block_bitmap_lo bg)
      in if ext4_sb_get_desc_size s > EXT4_MIN_BLOCK_GROUP_DESCRIPTOR_SIZE
         then v OR push_bit 32 (ucast (bg_block_bitmap_hi bg)) else v)"

definition ext4_bg_set_block_bitmap :: "ext4_bgroup \<Rightarrow> ext4_sblock \<Rightarrow> u64 \<Rightarrow> ext4_bgroup" where
  "ext4_bg_set_block_bitmap bg s v =
     (let bg = bg\<lparr> bg_block_bitmap_lo := ucast v \<rparr>
      in if ext4_sb_get_desc_size s > EXT4_MIN_BLOCK_GROUP_DESCRIPTOR_SIZE
         then bg\<lparr> bg_block_bitmap_hi := ucast (drop_bit 32 v) \<rparr> else bg)"

definition ext4_bg_get_inode_bitmap :: "ext4_bgroup \<Rightarrow> ext4_sblock \<Rightarrow> u64" where
  "ext4_bg_get_inode_bitmap bg s =
     (let v = ucast (bg_inode_bitmap_lo bg)
      in if ext4_sb_get_desc_size s > EXT4_MIN_BLOCK_GROUP_DESCRIPTOR_SIZE
         then v OR push_bit 32 (ucast (bg_inode_bitmap_hi bg)) else v)"

definition ext4_bg_set_inode_bitmap :: "ext4_bgroup \<Rightarrow> ext4_sblock \<Rightarrow> u64 \<Rightarrow> ext4_bgroup" where
  "ext4_bg_set_inode_bitmap bg s v =
     (let bg = bg\<lparr> bg_inode_bitmap_lo := ucast v \<rparr>
      in if ext4_sb_get_desc_size s > EXT4_MIN_BLOCK_GROUP_DESCRIPTOR_SIZE
         then bg\<lparr> bg_inode_bitmap_hi := ucast (drop_bit 32 v) \<rparr> else bg)"

definition ext4_bg_get_inode_table_first_block :: "ext4_bgroup \<Rightarrow> ext4_sblock \<Rightarrow> u64" where
  "ext4_bg_get_inode_table_first_block bg s =
     (let v = ucast (bg_inode_table_first_block_lo bg)
      in if ext4_sb_get_desc_size s > EXT4_MIN_BLOCK_GROUP_DESCRIPTOR_SIZE
         then v OR push_bit 32 (ucast (bg_inode_table_first_block_hi bg)) else v)"

definition ext4_bg_set_inode_table_first_block :: "ext4_bgroup \<Rightarrow> ext4_sblock \<Rightarrow> u64 \<Rightarrow> ext4_bgroup" where
  "ext4_bg_set_inode_table_first_block bg s v =
     (let bg = bg\<lparr> bg_inode_table_first_block_lo := ucast v \<rparr>
      in if ext4_sb_get_desc_size s > EXT4_MIN_BLOCK_GROUP_DESCRIPTOR_SIZE
         then bg\<lparr> bg_inode_table_first_block_hi := ucast (drop_bit 32 v) \<rparr> else bg)"

definition ext4_bg_get_free_blocks_count :: "ext4_bgroup \<Rightarrow> ext4_sblock \<Rightarrow> u32" where
  "ext4_bg_get_free_blocks_count bg s =
     (let v = ucast (bg_free_blocks_count_lo bg)
      in if ext4_sb_get_desc_size s > EXT4_MIN_BLOCK_GROUP_DESCRIPTOR_SIZE
         then v OR push_bit 16 (ucast (bg_free_blocks_count_hi bg)) else v)"

definition ext4_bg_set_free_blocks_count :: "ext4_bgroup \<Rightarrow> ext4_sblock \<Rightarrow> u32 \<Rightarrow> ext4_bgroup" where
  "ext4_bg_set_free_blocks_count bg s v =
     (let bg = bg\<lparr> bg_free_blocks_count_lo := ucast (drop_bit 16 (push_bit 16 v)) \<rparr>
      in if ext4_sb_get_desc_size s > EXT4_MIN_BLOCK_GROUP_DESCRIPTOR_SIZE
         then bg\<lparr> bg_free_blocks_count_hi := ucast (drop_bit 16 v) \<rparr> else bg)"

definition ext4_bg_get_free_inodes_count :: "ext4_bgroup \<Rightarrow> ext4_sblock \<Rightarrow> u32" where
  "ext4_bg_get_free_inodes_count bg s =
     (let v = ucast (bg_free_inodes_count_lo bg)
      in if ext4_sb_get_desc_size s > EXT4_MIN_BLOCK_GROUP_DESCRIPTOR_SIZE
         then v OR push_bit 16 (ucast (bg_free_inodes_count_hi bg)) else v)"

definition ext4_bg_set_free_inodes_count :: "ext4_bgroup \<Rightarrow> ext4_sblock \<Rightarrow> u32 \<Rightarrow> ext4_bgroup" where
  "ext4_bg_set_free_inodes_count bg s v =
     (let bg = bg\<lparr> bg_free_inodes_count_lo := ucast (drop_bit 16 (push_bit 16 v)) \<rparr>
      in if ext4_sb_get_desc_size s > EXT4_MIN_BLOCK_GROUP_DESCRIPTOR_SIZE
         then bg\<lparr> bg_free_inodes_count_hi := ucast (drop_bit 16 v) \<rparr> else bg)"

definition ext4_bg_get_used_dirs_count :: "ext4_bgroup \<Rightarrow> ext4_sblock \<Rightarrow> u32" where
  "ext4_bg_get_used_dirs_count bg s =
     (let v = ucast (bg_used_dirs_count_lo bg)
      in if ext4_sb_get_desc_size s > EXT4_MIN_BLOCK_GROUP_DESCRIPTOR_SIZE
         then v OR push_bit 16 (ucast (bg_used_dirs_count_hi bg)) else v)"

definition ext4_bg_set_used_dirs_count :: "ext4_bgroup \<Rightarrow> ext4_sblock \<Rightarrow> u32 \<Rightarrow> ext4_bgroup" where
  "ext4_bg_set_used_dirs_count bg s v =
     (let bg = bg\<lparr> bg_used_dirs_count_lo := ucast (drop_bit 16 (push_bit 16 v)) \<rparr>
      in if ext4_sb_get_desc_size s > EXT4_MIN_BLOCK_GROUP_DESCRIPTOR_SIZE
         then bg\<lparr> bg_used_dirs_count_hi := ucast (drop_bit 16 v) \<rparr> else bg)"

definition ext4_bg_get_itable_unused :: "ext4_bgroup \<Rightarrow> ext4_sblock \<Rightarrow> u32" where
  "ext4_bg_get_itable_unused bg s =
     (let v = ucast (bg_itable_unused_lo bg)
      in if ext4_sb_get_desc_size s > EXT4_MIN_BLOCK_GROUP_DESCRIPTOR_SIZE
         then v OR push_bit 16 (ucast (bg_itable_unused_hi bg)) else v)"

definition ext4_bg_set_itable_unused :: "ext4_bgroup \<Rightarrow> ext4_sblock \<Rightarrow> u32 \<Rightarrow> ext4_bgroup" where
  "ext4_bg_set_itable_unused bg s v =
     (let bg = bg\<lparr> bg_itable_unused_lo := ucast (drop_bit 16 (push_bit 16 v)) \<rparr>
      in if ext4_sb_get_desc_size s > EXT4_MIN_BLOCK_GROUP_DESCRIPTOR_SIZE
         then bg\<lparr> bg_itable_unused_hi := ucast (drop_bit 16 v) \<rparr> else bg)"

definition ext4_bg_set_checksum :: "ext4_bgroup \<Rightarrow> u16 \<Rightarrow> ext4_bgroup" where
  "ext4_bg_set_checksum bg crc = bg\<lparr> bg_checksum := crc \<rparr>"

definition ext4_bg_has_flag :: "ext4_bgroup \<Rightarrow> u32 \<Rightarrow> bool" where
  "ext4_bg_has_flag bg f \<longleftrightarrow> ucast (bg_flags bg) AND f \<noteq> 0"

definition ext4_bg_set_flag :: "ext4_bgroup \<Rightarrow> u32 \<Rightarrow> ext4_bgroup" where
  "ext4_bg_set_flag bg f = bg\<lparr> bg_flags := ucast (ucast (bg_flags bg) OR f) \<rparr>"

definition ext4_bg_clear_flag :: "ext4_bgroup \<Rightarrow> u32 \<Rightarrow> ext4_bgroup" where
  "ext4_bg_clear_flag bg f = bg\<lparr> bg_flags := ucast (ucast (bg_flags bg) AND NOT f) \<rparr>"

definition EXT4_BLOCK_GROUP_INODE_UNINIT :: u32 where "EXT4_BLOCK_GROUP_INODE_UNINIT = 0x0001"
definition EXT4_BLOCK_GROUP_BLOCK_UNINIT :: u32 where "EXT4_BLOCK_GROUP_BLOCK_UNINIT = 0x0002"
definition EXT4_BLOCK_GROUP_ITABLE_ZEROED :: u32 where "EXT4_BLOCK_GROUP_ITABLE_ZEROED = 0x0004"

lemmas bg_flag_consts [ext4_consts] =
  EXT4_BLOCK_GROUP_INODE_UNINIT_def EXT4_BLOCK_GROUP_BLOCK_UNINIT_def EXT4_BLOCK_GROUP_ITABLE_ZEROED_def

section \<open>Descriptor checksum\<close>

text \<open>The checksum field is at offset 30 of the struct, right before the 64-bit half.\<close>

definition ext4_fs_bg_checksum :: "ext4_sblock \<Rightarrow> u32 \<Rightarrow> ext4_bgroup \<Rightarrow> u16" where
  "ext4_fs_bg_checksum sb bgid bg =
     (if ext4_sb_feature_ro_com sb EXT4_FRO_COM_METADATA_CSUM then
        let bg0 = bg\<lparr> bg_checksum := 0 \<rparr>;
            c = ext4_crc32c EXT4_CRC32_INIT (sb_uuid sb);
            c = ext4_crc32c c (enc32 bgid);
            c = ext4_crc32c c (take (unat (ext4_sb_get_desc_size sb)) (bg_bytes bg0))
        in ucast (c AND 0xFFFF)
      else if ext4_sb_feature_ro_com sb EXT4_FRO_COM_GDT_CSUM then
        let offset = 30;
            crc = ext4_bg_crc16 0xFFFF (sb_uuid sb);
            crc = ext4_bg_crc16 crc (enc32 bgid);
            crc = ext4_bg_crc16 crc (take offset (bg_bytes bg));
            offset = offset + 2;
            desc_size = unat (ext4_sb_get_desc_size sb)
        in if ext4_sb_feature_incom sb EXT4_FINCOM_64BIT \<and> offset < desc_size
           then ext4_bg_crc16 crc (take (desc_size - offset) (drop offset (bg_bytes bg)))
           else crc
      else 0)"

definition ext4_fs_verify_bg_csum :: "ext4_sblock \<Rightarrow> u32 \<Rightarrow> ext4_bgroup \<Rightarrow> bool" where
  "ext4_fs_verify_bg_csum sb bgid bg \<longleftrightarrow>
     (if \<not> ext4_sb_feature_ro_com sb EXT4_FRO_COM_METADATA_CSUM then True
      else ext4_fs_bg_checksum sb bgid bg = bg_checksum bg)"

section \<open>Lemmas\<close>

lemma length_bg_bytes [simp]: "length (bg_bytes g) = 64"
  by (simp add: bg_bytes_def)

lemma bg_of_bytes_bg_bytes [simp]: "bg_of_bytes (bg_bytes g) = g"
  by (simp add: bg_bytes_def bg_of_bytes_def)

lemma bg_bytes_bg_of_bytes: "length bs = 64 \<Longrightarrow> bg_bytes (bg_of_bytes bs) = bs"
  by (simp add: bg_of_bytes_def bg_bytes_def get_field_defs,
    simp add: enc_le_dec enc_le_dec_all,
    simp add: take_drop_join)

lemma bg_bytes_checksum:
  "take 30 (bg_bytes (g\<lparr> bg_checksum := c \<rparr>)) = take 30 (bg_bytes g)"
  "drop 32 (bg_bytes (g\<lparr> bg_checksum := c \<rparr>)) = drop 32 (bg_bytes g)"
  by (simp_all add: bg_bytes_def)

lemma bg_checksum_ignores_field:
  "ext4_fs_bg_checksum sb bgid (g\<lparr> bg_checksum := c \<rparr>) = ext4_fs_bg_checksum sb bgid g"
  by (simp add: ext4_fs_bg_checksum_def bg_bytes_checksum Let_def)

lemma split32_lo: "take_bit 16 c OR push_bit 16 (ucast (ucast (drop_bit 16 c) :: u16)) = (c :: u32)"
  by (rule bit_word_eqI) (auto simp: bit_simps)

lemma split32:
  "ucast (ucast (drop_bit 16 (push_bit 16 c)) :: u16) OR push_bit 16 (ucast (ucast (drop_bit 16 c) :: u16)) = (c :: u32)"
  by (rule bit_word_eqI) (auto simp: bit_simps)

lemma low16: "ucast (ucast (drop_bit 16 (push_bit 16 c)) :: u16) = take_bit 16 (c :: u32)"
  by (rule bit_word_eqI) (auto simp: bit_simps)

lemma split64_lo: "take_bit 32 c OR push_bit 32 (take_bit 32 (drop_bit 32 c)) = (c :: u64)"
  by (rule bit_word_eqI) (auto simp: bit_simps)

lemma split64_uc: "ucast (ucast c :: u32) OR push_bit 32 (ucast (ucast (drop_bit 32 c) :: u32)) = (c :: u64)"
  by (rule bit_word_eqI) (auto simp: bit_simps)

lemma low32: "ucast (ucast c :: u32) = take_bit 32 (c :: u64)"
  by (rule bit_word_eqI) (auto simp: bit_simps)

lemma bit_word_eq_zero: "(w :: u32) = 0 \<longleftrightarrow> (\<forall>n < 32. \<not> bit w n)"
  by (auto intro!: bit_word_eqI)

lemma bg_flags_bits:
  "ext4_bg_has_flag g f \<longleftrightarrow> (\<exists>n < 16. bit (bg_flags g) n \<and> bit f n)"
proof -
  have "ucast (bg_flags g) AND f \<noteq> 0 \<longleftrightarrow> (\<exists>n < 32. bit (ucast (bg_flags g) AND f) n)"
    by (auto simp: bit_word_eq_zero)
  also have "\<dots> \<longleftrightarrow> (\<exists>n < 16. bit (bg_flags g) n \<and> bit f n)"
  proof -
    have "n < 32 \<and> bit (ucast (bg_flags g) AND f) n \<longleftrightarrow> n < 16 \<and> bit (bg_flags g) n \<and> bit f n" for n
      using bit_imp_le_length [of "bg_flags g" n] by (auto simp: bit_simps)
    then show ?thesis by metis
  qed
  finally show ?thesis by (simp add: ext4_bg_has_flag_def)
qed

lemma bg_set_clear_bits:
  "n < 16 \<Longrightarrow> bit (bg_flags (ext4_bg_set_flag g f)) n = (bit (bg_flags g) n \<or> bit f n)"
  "n < 16 \<Longrightarrow> bit (bg_flags (ext4_bg_clear_flag g f)) n = (bit (bg_flags g) n \<and> \<not> bit f n)"
  by (auto simp: ext4_bg_set_flag_def ext4_bg_clear_flag_def bit_simps)

lemma bg_clear_flag_has: "ext4_bg_has_flag (ext4_bg_clear_flag g f) h \<longleftrightarrow> ext4_bg_has_flag g (h AND NOT f)"
  by (auto simp: bg_flags_bits bg_set_clear_bits bit_simps)

lemma bg_set_flag_has: "ext4_bg_has_flag (ext4_bg_set_flag g f) h \<longleftrightarrow> ext4_bg_has_flag g h \<or> (f AND h) AND 0xFFFF \<noteq> 0"
proof -
  have m: "(0xFFFF :: u32) = mask 16" by (simp add: mask_eq_exp_minus_1)
  have "(f AND h) AND 0xFFFF \<noteq> 0 \<longleftrightarrow> (\<exists>n < 32. bit ((f AND h) AND mask 16) n)"
    unfolding m by (auto simp: bit_word_eq_zero)
  also have "\<dots> \<longleftrightarrow> (\<exists>n < 16. bit f n \<and> bit h n)"
  proof -
    have "n < 32 \<and> bit ((f AND h) AND mask 16) n \<longleftrightarrow> n < 16 \<and> bit f n \<and> bit h n" for n
      by (simp only: bit_and_iff bit_mask_iff) auto
    then show ?thesis by metis
  qed
  finally show ?thesis by (auto simp: bg_flags_bits bg_set_clear_bits)
qed

section \<open>Properties\<close>

text \<open>
  descriptor counters and addresses survive their split. With 64-byte descriptors every value
  written through a setter of the descriptor is read back whole; with 32-byte descriptors the
  low half is kept: the low 32 bits of a block address, the low 16 bits of a count.
\<close>

theorem bg_accessors_roundtrip:
  "ext4_bg_get_block_bitmap (ext4_bg_set_block_bitmap bg s a) s =
     (if ext4_sb_get_desc_size s > 32 then a else take_bit 32 a) \<and>
   ext4_bg_get_inode_bitmap (ext4_bg_set_inode_bitmap bg s a) s =
     (if ext4_sb_get_desc_size s > 32 then a else take_bit 32 a) \<and>
   ext4_bg_get_inode_table_first_block (ext4_bg_set_inode_table_first_block bg s a) s =
     (if ext4_sb_get_desc_size s > 32 then a else take_bit 32 a) \<and>
   ext4_bg_get_free_blocks_count (ext4_bg_set_free_blocks_count bg s c) s =
     (if ext4_sb_get_desc_size s > 32 then c else take_bit 16 c) \<and>
   ext4_bg_get_free_inodes_count (ext4_bg_set_free_inodes_count bg s c) s =
     (if ext4_sb_get_desc_size s > 32 then c else take_bit 16 c) \<and>
   ext4_bg_get_used_dirs_count (ext4_bg_set_used_dirs_count bg s c) s =
     (if ext4_sb_get_desc_size s > 32 then c else take_bit 16 c) \<and>
   ext4_bg_get_itable_unused (ext4_bg_set_itable_unused bg s c) s =
     (if ext4_sb_get_desc_size s > 32 then c else take_bit 16 c)"
  by (simp add: ext4_bg_get_block_bitmap_def ext4_bg_set_block_bitmap_def
      ext4_bg_get_inode_bitmap_def ext4_bg_set_inode_bitmap_def
      ext4_bg_get_inode_table_first_block_def ext4_bg_set_inode_table_first_block_def
      ext4_bg_get_free_blocks_count_def ext4_bg_set_free_blocks_count_def
      ext4_bg_get_free_inodes_count_def ext4_bg_set_free_inodes_count_def
      ext4_bg_get_used_dirs_count_def ext4_bg_set_used_dirs_count_def
      ext4_bg_get_itable_unused_def ext4_bg_set_itable_unused_def
      split64_lo split32_lo low16 low32 Let_def EXT4_MIN_BLOCK_GROUP_DESCRIPTOR_SIZE_def)

text \<open>
  A stored descriptor verifies. The descriptor checksum does not depend on the checksum field, so
  storing \<open>ext4_fs_bg_checksum\<close> in it, as \<open>ext4_fs_put_block_group_ref\<close> does, makes
  \<open>ext4_fs_verify_bg_csum\<close> accept the descriptor under every feature combination, and the descriptor
  image loses nothing.
\<close>

theorem bg_checksum_verifies:
  "ext4_fs_verify_bg_csum sb bgid (ext4_bg_set_checksum bg (ext4_fs_bg_checksum sb bgid bg)) \<and>
   ext4_fs_bg_checksum sb bgid (ext4_bg_set_checksum bg c) = ext4_fs_bg_checksum sb bgid bg \<and>
   bg_of_bytes (bg_bytes bg) = bg"
  by (simp add: ext4_fs_verify_bg_csum_def ext4_bg_set_checksum_def bg_checksum_ignores_field)

end
