(* ===== verification/Inode.thy ===== *)
theory Inode
  imports BlockGroup
begin

text \<open>
  The inode \<^verbatim>\<open>struct ext4_inode\<close> (\<^verbatim>\<open>include/ext4_types.h\<close>), the accessors of \<^verbatim>\<open>src/ext4_inode.c\<close>
  and the inode checksum of \<^verbatim>\<open>src/ext4_fs.c\<close>. The union \<^verbatim>\<open>osd2\<close> is represented by its \<^verbatim>\<open>linux2\<close>
  member; the only other view the code uses, \<^verbatim>\<open>hurd2.mode_high\<close>, is the same two bytes as
  \<^verbatim>\<open>linux2.file_acl_high\<close>. The fields from \<^verbatim>\<open>extra_isize\<close> on belong to the inode only
  when the inode size is above 128; the bytes of a larger inode past the struct are passed separately.
\<close>

record ext4_inode =
  in_mode :: u16
  in_uid :: u16
  in_size_lo :: u32
  in_access_time :: u32
  in_change_inode_time :: u32
  in_modification_time :: u32
  in_deletion_time :: u32
  in_gid :: u16
  in_links_count :: u16
  in_blocks_count_lo :: u32
  in_flags :: u32
  in_unused_osd1 :: u32
  in_blocks :: "u32 list"
  in_generation :: u32
  in_file_acl_lo :: u32
  in_size_hi :: u32
  in_obso_faddr :: u32
  in_blocks_high :: u16
  in_file_acl_high :: u16
  in_uid_high :: u16
  in_gid_high :: u16
  in_checksum_lo :: u16
  in_reserved2 :: u16
  in_extra_isize :: u16
  in_checksum_hi :: u16
  in_ctime_extra :: u32
  in_mtime_extra :: u32
  in_atime_extra :: u32
  in_crtime :: u32
  in_crtime_extra :: u32
  in_version_hi :: u32

definition inode_bytes :: "ext4_inode \<Rightarrow> u8 list" where
  "inode_bytes i =
     enc16 (in_mode i) @
     enc16 (in_uid i) @
     enc32 (in_size_lo i) @
     enc32 (in_access_time i) @
     enc32 (in_change_inode_time i) @
     enc32 (in_modification_time i) @
     enc32 (in_deletion_time i) @
     enc16 (in_gid i) @
     enc16 (in_links_count i) @
     enc32 (in_blocks_count_lo i) @
     enc32 (in_flags i) @
     enc32 (in_unused_osd1 i) @
     enc32s (in_blocks i) @
     enc32 (in_generation i) @
     enc32 (in_file_acl_lo i) @
     enc32 (in_size_hi i) @
     enc32 (in_obso_faddr i) @
     enc16 (in_blocks_high i) @
     enc16 (in_file_acl_high i) @
     enc16 (in_uid_high i) @
     enc16 (in_gid_high i) @
     enc16 (in_checksum_lo i) @
     enc16 (in_reserved2 i) @
     enc16 (in_extra_isize i) @
     enc16 (in_checksum_hi i) @
     enc32 (in_ctime_extra i) @
     enc32 (in_mtime_extra i) @
     enc32 (in_atime_extra i) @
     enc32 (in_crtime i) @
     enc32 (in_crtime_extra i) @
     enc32 (in_version_hi i)"

definition inode_of_bytes :: "u8 list \<Rightarrow> ext4_inode" where
  "inode_of_bytes bs =
    (case get16 bs of (v0, bs) \<Rightarrow>
    (case get16 bs of (v1, bs) \<Rightarrow>
    (case get32 bs of (v2, bs) \<Rightarrow>
    (case get32 bs of (v3, bs) \<Rightarrow>
    (case get32 bs of (v4, bs) \<Rightarrow>
    (case get32 bs of (v5, bs) \<Rightarrow>
    (case get32 bs of (v6, bs) \<Rightarrow>
    (case get16 bs of (v7, bs) \<Rightarrow>
    (case get16 bs of (v8, bs) \<Rightarrow>
    (case get32 bs of (v9, bs) \<Rightarrow>
    (case get32 bs of (v10, bs) \<Rightarrow>
    (case get32 bs of (v11, bs) \<Rightarrow>
    (case get32s 15 bs of (v12, bs) \<Rightarrow>
    (case get32 bs of (v13, bs) \<Rightarrow>
    (case get32 bs of (v14, bs) \<Rightarrow>
    (case get32 bs of (v15, bs) \<Rightarrow>
    (case get32 bs of (v16, bs) \<Rightarrow>
    (case get16 bs of (v17, bs) \<Rightarrow>
    (case get16 bs of (v18, bs) \<Rightarrow>
    (case get16 bs of (v19, bs) \<Rightarrow>
    (case get16 bs of (v20, bs) \<Rightarrow>
    (case get16 bs of (v21, bs) \<Rightarrow>
    (case get16 bs of (v22, bs) \<Rightarrow>
    (case get16 bs of (v23, bs) \<Rightarrow>
    (case get16 bs of (v24, bs) \<Rightarrow>
    (case get32 bs of (v25, bs) \<Rightarrow>
    (case get32 bs of (v26, bs) \<Rightarrow>
    (case get32 bs of (v27, bs) \<Rightarrow>
    (case get32 bs of (v28, bs) \<Rightarrow>
    (case get32 bs of (v29, bs) \<Rightarrow>
    (case get32 bs of (v30, bs) \<Rightarrow>
    \<lparr> in_mode = v0,
      in_uid = v1,
      in_size_lo = v2,
      in_access_time = v3,
      in_change_inode_time = v4,
      in_modification_time = v5,
      in_deletion_time = v6,
      in_gid = v7,
      in_links_count = v8,
      in_blocks_count_lo = v9,
      in_flags = v10,
      in_unused_osd1 = v11,
      in_blocks = v12,
      in_generation = v13,
      in_file_acl_lo = v14,
      in_size_hi = v15,
      in_obso_faddr = v16,
      in_blocks_high = v17,
      in_file_acl_high = v18,
      in_uid_high = v19,
      in_gid_high = v20,
      in_checksum_lo = v21,
      in_reserved2 = v22,
      in_extra_isize = v23,
      in_checksum_hi = v24,
      in_ctime_extra = v25,
      in_mtime_extra = v26,
      in_atime_extra = v27,
      in_crtime = v28,
      in_crtime_extra = v29,
      in_version_hi = v30 \<rparr>)))))))))))))))))))))))))))))))"

section \<open>Constants\<close>

definition EXT4_INODE_MODE_FIFO :: u32 where "EXT4_INODE_MODE_FIFO = 0x1000"
definition EXT4_INODE_MODE_CHARDEV :: u32 where "EXT4_INODE_MODE_CHARDEV = 0x2000"
definition EXT4_INODE_MODE_DIRECTORY :: u32 where "EXT4_INODE_MODE_DIRECTORY = 0x4000"
definition EXT4_INODE_MODE_BLOCKDEV :: u32 where "EXT4_INODE_MODE_BLOCKDEV = 0x6000"
definition EXT4_INODE_MODE_FILE :: u32 where "EXT4_INODE_MODE_FILE = 0x8000"
definition EXT4_INODE_MODE_SOFTLINK :: u32 where "EXT4_INODE_MODE_SOFTLINK = 0xA000"
definition EXT4_INODE_MODE_SOCKET :: u32 where "EXT4_INODE_MODE_SOCKET = 0xC000"
definition EXT4_INODE_MODE_TYPE_MASK :: u32 where "EXT4_INODE_MODE_TYPE_MASK = 0xF000"
definition EXT4_INODE_FLAG_SECRM :: u32 where "EXT4_INODE_FLAG_SECRM = 0x00000001"
definition EXT4_INODE_FLAG_UNRM :: u32 where "EXT4_INODE_FLAG_UNRM = 0x00000002"
definition EXT4_INODE_FLAG_COMPR :: u32 where "EXT4_INODE_FLAG_COMPR = 0x00000004"
definition EXT4_INODE_FLAG_SYNC :: u32 where "EXT4_INODE_FLAG_SYNC = 0x00000008"
definition EXT4_INODE_FLAG_IMMUTABLE :: u32 where "EXT4_INODE_FLAG_IMMUTABLE = 0x00000010"
definition EXT4_INODE_FLAG_APPEND :: u32 where "EXT4_INODE_FLAG_APPEND = 0x00000020"
definition EXT4_INODE_FLAG_NODUMP :: u32 where "EXT4_INODE_FLAG_NODUMP = 0x00000040"
definition EXT4_INODE_FLAG_NOATIME :: u32 where "EXT4_INODE_FLAG_NOATIME = 0x00000080"
definition EXT4_INODE_FLAG_DIRTY :: u32 where "EXT4_INODE_FLAG_DIRTY = 0x00000100"
definition EXT4_INODE_FLAG_COMPRBLK :: u32 where "EXT4_INODE_FLAG_COMPRBLK = 0x00000200"
definition EXT4_INODE_FLAG_NOCOMPR :: u32 where "EXT4_INODE_FLAG_NOCOMPR = 0x00000400"
definition EXT4_INODE_FLAG_ECOMPR :: u32 where "EXT4_INODE_FLAG_ECOMPR = 0x00000800"
definition EXT4_INODE_FLAG_INDEX :: u32 where "EXT4_INODE_FLAG_INDEX = 0x00001000"
definition EXT4_INODE_FLAG_IMAGIC :: u32 where "EXT4_INODE_FLAG_IMAGIC = 0x00002000"
definition EXT4_INODE_FLAG_JOURNAL_DATA :: u32 where "EXT4_INODE_FLAG_JOURNAL_DATA = 0x00004000"
definition EXT4_INODE_FLAG_NOTAIL :: u32 where "EXT4_INODE_FLAG_NOTAIL = 0x00008000"
definition EXT4_INODE_FLAG_DIRSYNC :: u32 where "EXT4_INODE_FLAG_DIRSYNC = 0x00010000"
definition EXT4_INODE_FLAG_TOPDIR :: u32 where "EXT4_INODE_FLAG_TOPDIR = 0x00020000"
definition EXT4_INODE_FLAG_HUGE_FILE :: u32 where "EXT4_INODE_FLAG_HUGE_FILE = 0x00040000"
definition EXT4_INODE_FLAG_EXTENTS :: u32 where "EXT4_INODE_FLAG_EXTENTS = 0x00080000"
definition EXT4_INODE_FLAG_EA_INODE :: u32 where "EXT4_INODE_FLAG_EA_INODE = 0x00200000"
definition EXT4_INODE_FLAG_EOFBLOCKS :: u32 where "EXT4_INODE_FLAG_EOFBLOCKS = 0x00400000"
definition EXT4_INODE_FLAG_RESERVED :: u32 where "EXT4_INODE_FLAG_RESERVED = 0x80000000"
definition EXT4_INODE_ROOT_INDEX :: u32 where "EXT4_INODE_ROOT_INDEX = 2"

lemmas inode_consts [ext4_consts] =
  EXT4_INODE_MODE_FIFO_def
  EXT4_INODE_MODE_CHARDEV_def
  EXT4_INODE_MODE_DIRECTORY_def
  EXT4_INODE_MODE_BLOCKDEV_def
  EXT4_INODE_MODE_FILE_def
  EXT4_INODE_MODE_SOFTLINK_def
  EXT4_INODE_MODE_SOCKET_def
  EXT4_INODE_MODE_TYPE_MASK_def
  EXT4_INODE_FLAG_SECRM_def
  EXT4_INODE_FLAG_UNRM_def
  EXT4_INODE_FLAG_COMPR_def
  EXT4_INODE_FLAG_SYNC_def
  EXT4_INODE_FLAG_IMMUTABLE_def
  EXT4_INODE_FLAG_APPEND_def
  EXT4_INODE_FLAG_NODUMP_def
  EXT4_INODE_FLAG_NOATIME_def
  EXT4_INODE_FLAG_DIRTY_def
  EXT4_INODE_FLAG_COMPRBLK_def
  EXT4_INODE_FLAG_NOCOMPR_def
  EXT4_INODE_FLAG_ECOMPR_def
  EXT4_INODE_FLAG_INDEX_def
  EXT4_INODE_FLAG_IMAGIC_def
  EXT4_INODE_FLAG_JOURNAL_DATA_def
  EXT4_INODE_FLAG_NOTAIL_def
  EXT4_INODE_FLAG_DIRSYNC_def
  EXT4_INODE_FLAG_TOPDIR_def
  EXT4_INODE_FLAG_HUGE_FILE_def
  EXT4_INODE_FLAG_EXTENTS_def
  EXT4_INODE_FLAG_EA_INODE_def
  EXT4_INODE_FLAG_EOFBLOCKS_def
  EXT4_INODE_FLAG_RESERVED_def
  EXT4_INODE_ROOT_INDEX_def

definition EXT4_GOOD_OLD_INODE_SIZE :: u16 where "EXT4_GOOD_OLD_INODE_SIZE = 128"
definition EXT4_SUPERBLOCK_OS_LINUX :: u32 where "EXT4_SUPERBLOCK_OS_LINUX = 0"
definition EXT4_SUPERBLOCK_OS_HURD :: u32 where "EXT4_SUPERBLOCK_OS_HURD = 1"
definition EXT4_INODE_INDIRECT_BLOCK :: nat where "EXT4_INODE_INDIRECT_BLOCK = 12"

lemmas inode_consts2 [ext4_consts] =
  EXT4_GOOD_OLD_INODE_SIZE_def EXT4_SUPERBLOCK_OS_LINUX_def EXT4_SUPERBLOCK_OS_HURD_def
  EXT4_INODE_INDIRECT_BLOCK_def

section \<open>Accessors\<close>

text \<open>The \<^verbatim>\<open>do ... while (size > 256)\<close> loop, from the values before an iteration.\<close>

function block_bits_loop :: "u32 \<Rightarrow> u32 \<Rightarrow> u32" where
  "block_bits_loop bits sz =
     (let bits = bits + 1; sz' = drop_bit 1 sz
      in if sz' > 256 then block_bits_loop bits sz' else bits)"
  by pat_completeness auto
termination
proof (relation "measure (\<lambda>(bits, sz). unat sz)", goal_cases)
  case 1
  then show ?case by simp
next
  case (2 bits sz x xa)
  then have "256 < unat sz div 2"
    by (simp add: word_less_nat_alt unat_drop_bit_eq) (simp add: drop_bit_eq_div)
  with 2 show ?case by (simp add: unat_drop_bit_eq) (simp add: drop_bit_eq_div)
qed

declare block_bits_loop.simps [simp del]

definition ext4_inode_block_bits_count :: "u32 \<Rightarrow> u32" where
  "ext4_inode_block_bits_count block_size = block_bits_loop 8 block_size"

definition ext4_inode_get_mode :: "ext4_sblock \<Rightarrow> ext4_inode \<Rightarrow> u32" where
  "ext4_inode_get_mode sb i =
     (let v = ucast (in_mode i)
      in if sb_creator_os sb = EXT4_SUPERBLOCK_OS_HURD
         then v OR push_bit 16 (ucast (in_file_acl_high i)) else v)"

definition ext4_inode_set_mode :: "ext4_sblock \<Rightarrow> ext4_inode \<Rightarrow> u32 \<Rightarrow> ext4_inode" where
  "ext4_inode_set_mode sb i mode =
     (let i = i\<lparr> in_mode := ucast (drop_bit 16 (push_bit 16 mode)) \<rparr>
      in if sb_creator_os sb = EXT4_SUPERBLOCK_OS_HURD
         then i\<lparr> in_file_acl_high := ucast (drop_bit 16 mode) \<rparr> else i)"

definition ext4_inode_get_uid :: "ext4_inode \<Rightarrow> u32" where
  "ext4_inode_get_uid i = ucast (in_uid i)"

definition ext4_inode_set_uid :: "ext4_inode \<Rightarrow> u32 \<Rightarrow> ext4_inode" where
  "ext4_inode_set_uid i uid = i\<lparr> in_uid := ucast uid \<rparr>"

definition ext4_inode_get_gid :: "ext4_inode \<Rightarrow> u32" where
  "ext4_inode_get_gid i = ucast (in_gid i)"

definition ext4_inode_set_gid :: "ext4_inode \<Rightarrow> u32 \<Rightarrow> ext4_inode" where
  "ext4_inode_set_gid i gid = i\<lparr> in_gid := ucast gid \<rparr>"

definition ext4_inode_type :: "ext4_sblock \<Rightarrow> ext4_inode \<Rightarrow> u32" where
  "ext4_inode_type sb i = ext4_inode_get_mode sb i AND EXT4_INODE_MODE_TYPE_MASK"

definition ext4_inode_is_type :: "ext4_sblock \<Rightarrow> ext4_inode \<Rightarrow> u32 \<Rightarrow> bool" where
  "ext4_inode_is_type sb i type \<longleftrightarrow> ext4_inode_type sb i = type"

definition ext4_inode_get_size :: "ext4_sblock \<Rightarrow> ext4_inode \<Rightarrow> u64" where
  "ext4_inode_get_size sb i =
     (let v = ucast (in_size_lo i)
      in if sb_rev_level sb > 0 \<and> ext4_inode_is_type sb i EXT4_INODE_MODE_FILE
         then v OR push_bit 32 (ucast (in_size_hi i)) else v)"

definition ext4_inode_set_size :: "ext4_inode \<Rightarrow> u64 \<Rightarrow> ext4_inode" where
  "ext4_inode_set_size i sz =
     i\<lparr> in_size_lo := ucast (drop_bit 32 (push_bit 32 sz)), in_size_hi := ucast (drop_bit 32 sz) \<rparr>"

definition ext4_inode_get_csum :: "ext4_sblock \<Rightarrow> ext4_inode \<Rightarrow> u32" where
  "ext4_inode_get_csum sb i =
     (let v = ucast (in_checksum_lo i)
      in if sb_inode_size sb > EXT4_GOOD_OLD_INODE_SIZE
         then v OR push_bit 16 (ucast (in_checksum_hi i)) else v)"

definition ext4_inode_set_csum :: "ext4_sblock \<Rightarrow> ext4_inode \<Rightarrow> u32 \<Rightarrow> ext4_inode" where
  "ext4_inode_set_csum sb i checksum =
     (let i = i\<lparr> in_checksum_lo := ucast (drop_bit 16 (push_bit 16 checksum)) \<rparr>
      in if sb_inode_size sb > EXT4_GOOD_OLD_INODE_SIZE
         then i\<lparr> in_checksum_hi := ucast (drop_bit 16 checksum) \<rparr> else i)"

definition ext4_inode_get_access_time :: "ext4_inode \<Rightarrow> u32" where
  "ext4_inode_get_access_time i = in_access_time i"

definition ext4_inode_set_access_time :: "ext4_inode \<Rightarrow> u32 \<Rightarrow> ext4_inode" where
  "ext4_inode_set_access_time i time = i\<lparr> in_access_time := time \<rparr>"

definition ext4_inode_get_change_inode_time :: "ext4_inode \<Rightarrow> u32" where
  "ext4_inode_get_change_inode_time i = in_change_inode_time i"

definition ext4_inode_set_change_inode_time :: "ext4_inode \<Rightarrow> u32 \<Rightarrow> ext4_inode" where
  "ext4_inode_set_change_inode_time i time = i\<lparr> in_change_inode_time := time \<rparr>"

definition ext4_inode_get_modif_time :: "ext4_inode \<Rightarrow> u32" where
  "ext4_inode_get_modif_time i = in_modification_time i"

definition ext4_inode_set_modif_time :: "ext4_inode \<Rightarrow> u32 \<Rightarrow> ext4_inode" where
  "ext4_inode_set_modif_time i time = i\<lparr> in_modification_time := time \<rparr>"

definition ext4_inode_get_del_time :: "ext4_inode \<Rightarrow> u32" where
  "ext4_inode_get_del_time i = in_deletion_time i"

definition ext4_inode_set_del_time :: "ext4_inode \<Rightarrow> u32 \<Rightarrow> ext4_inode" where
  "ext4_inode_set_del_time i time = i\<lparr> in_deletion_time := time \<rparr>"

definition ext4_inode_get_links_cnt :: "ext4_inode \<Rightarrow> u16" where
  "ext4_inode_get_links_cnt i = in_links_count i"

definition ext4_inode_set_links_cnt :: "ext4_inode \<Rightarrow> u16 \<Rightarrow> ext4_inode" where
  "ext4_inode_set_links_cnt i cnt = i\<lparr> in_links_count := cnt \<rparr>"

definition ext4_inode_get_flags :: "ext4_inode \<Rightarrow> u32" where
  "ext4_inode_get_flags i = in_flags i"

definition ext4_inode_set_flags :: "ext4_inode \<Rightarrow> u32 \<Rightarrow> ext4_inode" where
  "ext4_inode_set_flags i flags = i\<lparr> in_flags := flags \<rparr>"

definition ext4_inode_has_flag :: "ext4_inode \<Rightarrow> u32 \<Rightarrow> bool" where
  "ext4_inode_has_flag i f \<longleftrightarrow> ext4_inode_get_flags i AND f \<noteq> 0"

definition ext4_inode_clear_flag :: "ext4_inode \<Rightarrow> u32 \<Rightarrow> ext4_inode" where
  "ext4_inode_clear_flag i f = ext4_inode_set_flags i (ext4_inode_get_flags i AND NOT f)"

definition ext4_inode_set_flag :: "ext4_inode \<Rightarrow> u32 \<Rightarrow> ext4_inode" where
  "ext4_inode_set_flag i f = ext4_inode_set_flags i (ext4_inode_get_flags i OR f)"

text \<open>The block counter, in 512-byte units or, under the \<^verbatim>\<open>HUGE_FILE\<close> inode flag, in blocks.\<close>

definition ext4_inode_get_blocks_count :: "ext4_sblock \<Rightarrow> ext4_inode \<Rightarrow> u64" where
  "ext4_inode_get_blocks_count sb i =
     (let cnt = ucast (in_blocks_count_lo i)
      in if ext4_sb_feature_ro_com sb EXT4_FRO_COM_HUGE_FILE then
           let cnt = cnt OR push_bit 32 (ucast (in_blocks_high i))
           in if ext4_inode_has_flag i EXT4_INODE_FLAG_HUGE_FILE then
                let b = ext4_inode_block_bits_count (ext4_sb_get_block_size sb)
                in push_bit (unat (b - 9)) cnt
              else cnt
         else cnt)"

definition ext4_inode_set_blocks_count :: "ext4_sblock \<Rightarrow> ext4_inode \<Rightarrow> u64 \<Rightarrow> ext4_inode res" where
  "ext4_inode_set_blocks_count sb i cnt =
     (if cnt \<le> drop_bit 32 (NOT 0) then
        Inr (ext4_inode_clear_flag
               (i\<lparr> in_blocks_count_lo := ucast cnt, in_blocks_high := 0 \<rparr>) EXT4_INODE_FLAG_HUGE_FILE)
      else if \<not> ext4_sb_feature_ro_com sb EXT4_FRO_COM_HUGE_FILE then Inl EINVAL
      else if cnt \<le> drop_bit 16 (NOT 0) then
        Inr (ext4_inode_clear_flag
               (i\<lparr> in_blocks_count_lo := ucast cnt, in_blocks_high := ucast (drop_bit 32 cnt) \<rparr>)
               EXT4_INODE_FLAG_HUGE_FILE)
      else
        let block_bits = ext4_inode_block_bits_count (ext4_sb_get_block_size sb);
            i = ext4_inode_set_flag i EXT4_INODE_FLAG_HUGE_FILE;
            cnt = drop_bit (unat (block_bits - 9)) cnt
        in Inr (i\<lparr> in_blocks_count_lo := ucast cnt, in_blocks_high := ucast (drop_bit 32 cnt) \<rparr>))"

definition ext4_inode_get_generation :: "ext4_inode \<Rightarrow> u32" where
  "ext4_inode_get_generation i = in_generation i"

definition ext4_inode_set_generation :: "ext4_inode \<Rightarrow> u32 \<Rightarrow> ext4_inode" where
  "ext4_inode_set_generation i gen = i\<lparr> in_generation := gen \<rparr>"

definition ext4_inode_get_extra_isize :: "ext4_sblock \<Rightarrow> ext4_inode \<Rightarrow> u16" where
  "ext4_inode_get_extra_isize sb i =
     (if sb_inode_size sb > EXT4_GOOD_OLD_INODE_SIZE then in_extra_isize i else 0)"

definition ext4_inode_set_extra_isize :: "ext4_sblock \<Rightarrow> ext4_inode \<Rightarrow> u16 \<Rightarrow> ext4_inode" where
  "ext4_inode_set_extra_isize sb i sz =
     (if sb_inode_size sb > EXT4_GOOD_OLD_INODE_SIZE then i\<lparr> in_extra_isize := sz \<rparr> else i)"

definition ext4_inode_get_file_acl :: "ext4_inode \<Rightarrow> ext4_sblock \<Rightarrow> u64" where
  "ext4_inode_get_file_acl i sb =
     (let v = ucast (in_file_acl_lo i)
      in if sb_creator_os sb = EXT4_SUPERBLOCK_OS_LINUX
         then v OR ucast (push_bit 16 (ucast (in_file_acl_high i) :: u32)) else v)"

definition ext4_inode_set_file_acl :: "ext4_inode \<Rightarrow> ext4_sblock \<Rightarrow> u64 \<Rightarrow> ext4_inode" where
  "ext4_inode_set_file_acl i sb acl =
     (let i = i\<lparr> in_file_acl_lo := ucast (drop_bit 32 (push_bit 32 acl)) \<rparr>
      in if sb_creator_os sb = EXT4_SUPERBLOCK_OS_LINUX
         then i\<lparr> in_file_acl_high := ucast (drop_bit 32 acl) \<rparr> else i)"

text \<open>The block array has 15 entries; an index past it is \<open>UNDEF\<close>.\<close>

definition ext4_inode_get_direct_block :: "ext4_inode \<Rightarrow> nat \<Rightarrow> u32 res" where
  "ext4_inode_get_direct_block i idx =
     (if idx < length (in_blocks i) then Inr (in_blocks i ! idx) else Inl UNDEF)"

definition ext4_inode_set_direct_block :: "ext4_inode \<Rightarrow> nat \<Rightarrow> u32 \<Rightarrow> ext4_inode res" where
  "ext4_inode_set_direct_block i idx b =
     (if idx < length (in_blocks i) then Inr (i\<lparr> in_blocks := (in_blocks i)[idx := b] \<rparr>) else Inl UNDEF)"

definition ext4_inode_get_indirect_block :: "ext4_inode \<Rightarrow> nat \<Rightarrow> u32 res" where
  "ext4_inode_get_indirect_block i idx = ext4_inode_get_direct_block i (idx + EXT4_INODE_INDIRECT_BLOCK)"

definition ext4_inode_set_indirect_block :: "ext4_inode \<Rightarrow> nat \<Rightarrow> u32 \<Rightarrow> ext4_inode res" where
  "ext4_inode_set_indirect_block i idx b =
     ext4_inode_set_direct_block i (idx + EXT4_INODE_INDIRECT_BLOCK) b"

definition ext4_inode_get_dev :: "ext4_inode \<Rightarrow> u32 res" where
  "ext4_inode_get_dev i =
     rbind (ext4_inode_get_direct_block i 0) (\<lambda>dev_0.
     rbind (ext4_inode_get_direct_block i 1) (\<lambda>dev_1.
     Inr (if dev_0 \<noteq> 0 then dev_0 else dev_1)))"

definition ext4_inode_set_dev :: "ext4_inode \<Rightarrow> u32 \<Rightarrow> ext4_inode res" where
  "ext4_inode_set_dev i dev =
     (if dev AND NOT 0xFFFF \<noteq> 0 then ext4_inode_set_direct_block i 1 dev
      else ext4_inode_set_direct_block i 0 dev)"

definition ext4_inode_can_truncate :: "ext4_sblock \<Rightarrow> ext4_inode \<Rightarrow> bool" where
  "ext4_inode_can_truncate sb i =
     (if ext4_inode_has_flag i EXT4_INODE_FLAG_APPEND \<or>
         ext4_inode_has_flag i EXT4_INODE_FLAG_IMMUTABLE then False
      else if ext4_inode_is_type sb i EXT4_INODE_MODE_FILE \<or>
         ext4_inode_is_type sb i EXT4_INODE_MODE_DIRECTORY \<or>
         ext4_inode_is_type sb i EXT4_INODE_MODE_SOFTLINK then True
      else False)"

section \<open>Inode checksum\<close>

text \<open>\<open>rest\<close> is the part of the on-disk inode past the struct.\<close>

definition ext4_fs_inode_checksum :: "ext4_sblock \<Rightarrow> u32 \<Rightarrow> ext4_inode \<Rightarrow> u8 list \<Rightarrow> u32" where
  "ext4_fs_inode_checksum sb index i rest =
     (if ext4_sb_feature_ro_com sb EXT4_FRO_COM_METADATA_CSUM then
        let i0 = ext4_inode_set_csum sb i 0;
            c = ext4_crc32c EXT4_CRC32_INIT (sb_uuid sb);
            c = ext4_crc32c c (enc32 index);
            c = ext4_crc32c c (enc32 (ext4_inode_get_generation i));
            c = ext4_crc32c c (take (unat (sb_inode_size sb)) (inode_bytes i0 @ rest))
        in if sb_inode_size sb = EXT4_GOOD_OLD_INODE_SIZE then c AND 0xFFFF else c
      else 0)"

definition ext4_fs_set_inode_checksum :: "ext4_sblock \<Rightarrow> u32 \<Rightarrow> ext4_inode \<Rightarrow> u8 list \<Rightarrow> ext4_inode" where
  "ext4_fs_set_inode_checksum sb index i rest =
     (if \<not> ext4_sb_feature_ro_com sb EXT4_FRO_COM_METADATA_CSUM then i
      else ext4_inode_set_csum sb i (ext4_fs_inode_checksum sb index i rest))"

definition ext4_fs_verify_inode_csum :: "ext4_sblock \<Rightarrow> u32 \<Rightarrow> ext4_inode \<Rightarrow> u8 list \<Rightarrow> bool" where
  "ext4_fs_verify_inode_csum sb index i rest =
     (if \<not> ext4_sb_feature_ro_com sb EXT4_FRO_COM_METADATA_CSUM then True
      else ext4_inode_get_csum sb i = ext4_fs_inode_checksum sb index i rest)"

section \<open>Lemmas\<close>

lemma length_inode_bytes: "length (in_blocks i) = 15 \<Longrightarrow> length (inode_bytes i) = 156"
  by (simp add: inode_bytes_def)

lemma inode_of_bytes_inode_bytes: "length (in_blocks i) = 15 \<Longrightarrow> inode_of_bytes (inode_bytes i) = i"
  by (simp add: inode_bytes_def inode_of_bytes_def)

lemma inode_bytes_inode_of_bytes:
  "length bs = 156 \<Longrightarrow> inode_bytes (inode_of_bytes bs) = bs \<and> length (in_blocks (inode_of_bytes bs)) = 15"
  by (rule conjI, simp add: inode_of_bytes_def inode_bytes_def get_field_defs,
    simp add: enc_le_dec enc_le_dec_all enc32s_dec32s,
    simp add: take_drop_join,
    simp add: inode_of_bytes_def get_field_defs)

lemma inode_set_csum_idem: "ext4_inode_set_csum sb (ext4_inode_set_csum sb i c) d = ext4_inode_set_csum sb i d"
  by (simp add: ext4_inode_set_csum_def Let_def)

lemma inode_get_set_csum:
  "ext4_inode_get_csum sb (ext4_inode_set_csum sb i c) =
     (if sb_inode_size sb > EXT4_GOOD_OLD_INODE_SIZE then c else take_bit 16 c)"
  by (simp add: ext4_inode_get_csum_def ext4_inode_set_csum_def Let_def split32_lo low16)

lemma inode_checksum_ignores_field:
  "ext4_fs_inode_checksum sb index (ext4_inode_set_csum sb i c) rest = ext4_fs_inode_checksum sb index i rest"
proof -
  have "in_generation (ext4_inode_set_csum sb i c) = in_generation i"
    by (simp add: ext4_inode_set_csum_def Let_def)
  then show ?thesis
    by (simp only: ext4_fs_inode_checksum_def inode_set_csum_idem ext4_inode_get_generation_def)
qed

lemma and_ffff: "(c :: u32) AND 0xFFFF = take_bit 16 c"
  by (simp add: take_bit_eq_mask mask_eq_exp_minus_1)

lemma block_bits_loop_pow: "k \<le> 20 \<Longrightarrow> block_bits_loop b (2 ^ (k + 9)) = b + of_nat (k + 1)"
proof (induction k arbitrary: b)
  case 0
  have "drop_bit 1 (512 :: u32) = 256" by simp
  then show ?case by (subst block_bits_loop.simps) (simp add: Let_def)
next
  case (Suc k)
  have h: "drop_bit 1 (2 ^ (Suc k + 9) :: u32) = 2 ^ (k + 9)"
    by (rule bit_word_eqI) (use Suc.prems in \<open>auto simp: bit_simps\<close>)
  have "(2 :: nat) ^ 8 < 2 ^ (k + 9)" by (rule power_strict_increasing) simp_all
  then have "256 < unat (2 ^ (k + 9) :: u32)" using Suc.prems by (simp add: unat_pow2)
  then have "256 < (2 ^ (k + 9) :: u32)" by (simp add: word_less_nat_alt)
  then have "block_bits_loop b (2 ^ (Suc k + 9)) = block_bits_loop (b + 1) (2 ^ (k + 9))"
    by (subst block_bits_loop.simps) (simp only: Let_def h if_True)
  then show ?case using Suc by (simp add: add_ac)
qed

lemma block_bits_count:
  assumes "l \<le> 6" and "sb_log_block_size sb = of_nat l"
  shows "unat (ext4_inode_block_bits_count (ext4_sb_get_block_size sb) - 9) = l + 1"
proof -
  have "unat (sb_log_block_size sb) = l" using assms by (simp add: unat_of_nat)
  then have "ext4_sb_get_block_size sb = 2 ^ ((l + 1) + 9)"
    using assms(1) by (simp add: ext4_sb_get_block_size_def push_bit_eq_mult power_add)
  then have "ext4_inode_block_bits_count (ext4_sb_get_block_size sb) = 8 + of_nat (l + 2)"
    using block_bits_loop_pow [of "l + 1" 8] assms(1)
    by (simp add: ext4_inode_block_bits_count_def)
  then have "ext4_inode_block_bits_count (ext4_sb_get_block_size sb) - 9 = of_nat (l + 1)" by simp
  then show ?thesis using assms(1) by (simp add: unat_of_nat del: of_nat_add of_nat_Suc)
qed

lemma join48: "ucast (ucast c :: u32) OR push_bit 32 (ucast (ucast (drop_bit 32 c) :: u16)) = take_bit 48 (c :: u64)"
  by (rule bit_word_eqI) (auto simp: bit_simps)

lemma take48: "unat c < 2 ^ 48 \<Longrightarrow> take_bit 48 (c :: u64) = c"
  by (metis take_bit_nat_eq_self unsigned_take_bit_eq word_unat_eq_iff)

lemma take32: "unat c < 2 ^ 32 \<Longrightarrow> take_bit 32 (c :: u64) = c"
  by (metis take_bit_nat_eq_self unsigned_take_bit_eq word_unat_eq_iff)

lemma inode_flag_set_clear:
  "\<not> ext4_inode_has_flag (ext4_inode_clear_flag i f) f"
  "f \<noteq> 0 \<Longrightarrow> ext4_inode_has_flag (ext4_inode_set_flag i f) f"
proof -
  have "(w AND NOT f) AND f = 0" for w :: u32 by (simp add: and.assoc)
  then show "\<not> ext4_inode_has_flag (ext4_inode_clear_flag i f) f"
    by (simp add: ext4_inode_has_flag_def ext4_inode_clear_flag_def ext4_inode_get_flags_def
        ext4_inode_set_flags_def)
  have "(w OR f) AND f = f" for w :: u32 by (rule bit_word_eqI) (auto simp: bit_simps)
  then show "f \<noteq> 0 \<Longrightarrow> ext4_inode_has_flag (ext4_inode_set_flag i f) f"
    by (simp add: ext4_inode_has_flag_def ext4_inode_set_flag_def ext4_inode_get_flags_def
        ext4_inode_set_flags_def)
qed

text \<open>A count in whole blocks keeps the low 48 bits of their number.\<close>

lemma whole_blocks48:
  assumes "k < 64"
  shows "unat (push_bit k (take_bit 48 (drop_bit k (c :: u64)))) = unat c div 2 ^ k mod 2 ^ 48 * 2 ^ k"
proof -
  let ?q = "unat c div 2 ^ k"
  have d: "unat (drop_bit k c) = ?q" by (simp only: unat_drop_bit_eq) (simp only: drop_bit_eq_div)
  have t: "unat (take_bit 48 (drop_bit k c)) = ?q mod 2 ^ 48"
    by (simp only: unsigned_take_bit_eq d) (simp only: take_bit_eq_mod)
  have "?q mod 2 ^ 48 * 2 ^ k \<le> ?q * 2 ^ k" by simp
  also have "\<dots> \<le> unat c" by simp
  also have "\<dots> < 2 ^ LENGTH(64)" using unsigned_less [of c] by simp
  finally have lt: "?q mod 2 ^ 48 * 2 ^ k < 2 ^ LENGTH(64)" .
  have p: "unat (2 ^ k :: u64) = 2 ^ k" by (rule unat_pow2) (use assms in simp)
  show ?thesis unfolding push_bit_eq_mult by (subst unat_mult_le) (simp_all only: t p lt)
qed

lemma huge_blocks_count:
  assumes k: "unat (ext4_inode_block_bits_count (ext4_sb_get_block_size sb) - 9) = k"
    and f: "ext4_sb_feature_ro_com sb EXT4_FRO_COM_HUGE_FILE"
  shows "ext4_inode_get_blocks_count sb ((ext4_inode_set_flag i EXT4_INODE_FLAG_HUGE_FILE)\<lparr>
      in_blocks_count_lo := ucast w, in_blocks_high := ucast (drop_bit 32 w) \<rparr>) = push_bit k (take_bit 48 w)"
proof -
  have "ext4_inode_has_flag (ext4_inode_set_flag i EXT4_INODE_FLAG_HUGE_FILE\<lparr> in_blocks_count_lo := x, in_blocks_high := y \<rparr>)
      EXT4_INODE_FLAG_HUGE_FILE" for x y
    using inode_flag_set_clear(2) [of EXT4_INODE_FLAG_HUGE_FILE i]
    by (simp add: ext4_consts ext4_inode_has_flag_def ext4_inode_get_flags_def)
  then show ?thesis unfolding join48 [symmetric] using f by (simp add: ext4_inode_get_blocks_count_def k Let_def)
qed

section \<open>Properties\<close>

text \<open>
  C32: the block counter of an inode. For block sizes from 1 KiB to 64 KiB and every 64-bit count,
  \<open>ext4_inode_set_blocks_count\<close> either fails with \<open>EINVAL\<close>, exactly when the count needs more than 32 bits and the
  volume has no \<^verbatim>\<open>HUGE_FILE\<close> feature, or stores a count that reads back exactly below \<open>2 ^ 48\<close> and above as the low 48 bits
  of the number of whole blocks: from \<open>2 ^ 48\<close> blocks on the count is truncated and no error is returned.
\<close>

theorem inode_blocks_count_roundtrip:
  assumes "l \<le> 6" and "sb_log_block_size sb = of_nat l"
  shows "case ext4_inode_set_blocks_count sb i cnt of
      Inl e \<Rightarrow> e = EINVAL \<and> 2 ^ 32 \<le> unat cnt \<and> \<not> ext4_sb_feature_ro_com sb EXT4_FRO_COM_HUGE_FILE
    | Inr i' \<Rightarrow> (unat cnt < 2 ^ 32 \<or> ext4_sb_feature_ro_com sb EXT4_FRO_COM_HUGE_FILE) \<and>
        unat (ext4_inode_get_blocks_count sb i') =
          (if unat cnt < 2 ^ 48 then unat cnt else unat cnt div 2 ^ (l + 1) mod 2 ^ 48 * 2 ^ (l + 1))"
proof -
  note b = block_bits_count [OF assms(1,2)]
  have max: "cnt \<le> drop_bit 32 (NOT 0) \<longleftrightarrow> unat cnt < 2 ^ 32" "cnt \<le> drop_bit 16 (NOT 0) \<longleftrightarrow> unat cnt < 2 ^ 48"
    by (auto simp: word_le_nat_alt mask_eq_exp_minus_1)
  have flag: "ext4_inode_has_flag (ext4_inode_clear_flag j EXT4_INODE_FLAG_HUGE_FILE) EXT4_INODE_FLAG_HUGE_FILE = False"
    for j by (simp add: inode_flag_set_clear)
  have cf: "in_blocks_count_lo (ext4_inode_clear_flag j f) = in_blocks_count_lo j"
    "in_blocks_high (ext4_inode_clear_flag j f) = in_blocks_high j" for j f
    by (simp_all add: ext4_inode_clear_flag_def ext4_inode_set_flags_def)
  consider "unat cnt < 2 ^ 32" | "2 ^ 32 \<le> unat cnt" "\<not> ext4_sb_feature_ro_com sb EXT4_FRO_COM_HUGE_FILE"
    | "2 ^ 32 \<le> unat cnt" "unat cnt < 2 ^ 48" "ext4_sb_feature_ro_com sb EXT4_FRO_COM_HUGE_FILE"
    | "2 ^ 48 \<le> unat cnt" "ext4_sb_feature_ro_com sb EXT4_FRO_COM_HUGE_FILE"
    by (meson not_le)
  then show ?thesis
  proof cases
    case 1
    then have "unat cnt < 2 ^ 48" by simp
    moreover have "ucast (ucast cnt :: u32) = cnt" using 1 by (simp only: low32 take32)
    ultimately show ?thesis using 1
      by (simp only: ext4_inode_set_blocks_count_def max if_True sum.case ext4_inode_get_blocks_count_def
          flag cf) (simp add: low32 take32)
  next
    case 2
    then show ?thesis by (simp add: ext4_inode_set_blocks_count_def max del: bit.compl_zero)
  next
    case 3
    then show ?thesis
      by (simp add: ext4_inode_set_blocks_count_def max ext4_inode_get_blocks_count_def
          flag cf join48 take48 Let_def del: bit.compl_zero)
  next
    case 4
    have set: "ext4_inode_set_blocks_count sb i cnt =
        Inr ((ext4_inode_set_flag i EXT4_INODE_FLAG_HUGE_FILE)\<lparr>
          in_blocks_count_lo := ucast (drop_bit (l + 1) cnt),
          in_blocks_high := ucast (drop_bit 32 (drop_bit (l + 1) cnt)) \<rparr>)"
      using 4 by (simp only: ext4_inode_set_blocks_count_def max b Let_def) simp
    have sz: "unat (push_bit (l + 1) (take_bit 48 (drop_bit (l + 1) cnt))) = unat cnt div 2 ^ (l + 1) mod 2 ^ 48 * 2 ^ (l + 1)"
      by (rule whole_blocks48) (use assms(1) in simp)
    show ?thesis using 4 unfolding set sum.case huge_blocks_count [OF b 4(2)] sz by simp
  qed
qed

definition inode_zero :: ext4_inode where
  "inode_zero = inode_of_bytes (replicate 156 0)"

theorem inode_blocks_count_roundtrip_witness:
  "(\<exists>i'. ext4_inode_set_blocks_count (sb_sample\<lparr> sb_features_read_only := 8 \<rparr>) inode_zero 0x1000000000003 = Inr i' \<and>
     unat (ext4_inode_get_blocks_count (sb_sample\<lparr> sb_features_read_only := 8 \<rparr>) i') = 0x1000000000002) \<and>
   (\<exists>i'. ext4_inode_set_blocks_count (sb_sample\<lparr> sb_features_read_only := 8 \<rparr>) inode_zero (2 ^ 49) = Inr i' \<and>
     unat (ext4_inode_get_blocks_count (sb_sample\<lparr> sb_features_read_only := 8 \<rparr>) i') = 0)"
proof -
  let ?sb = "sb_sample\<lparr> sb_features_read_only := 8 \<rparr>"
  have "sb_log_block_size ?sb = of_nat 0" by (simp add: sb_sample_def)
  moreover have "ext4_sb_feature_ro_com ?sb EXT4_FRO_COM_HUGE_FILE"
    by (simp add: ext4_sb_feature_ro_com_def ext4_consts)
  ultimately show ?thesis
    using inode_blocks_count_roundtrip [of 0 ?sb "0x1000000000003" inode_zero]
      inode_blocks_count_roundtrip [of 0 ?sb "2 ^ 49" inode_zero]
    by (auto split: sum.splits)
qed

text \<open>
  The checksum of an inode is set consistently. The inode checksum does not depend on the
  checksum fields, and for every inode size from 128 bytes on the checksum that
  \<open>ext4_fs_set_inode_checksum\<close> stores verifies, whether the inode has room for 16 or for 32 bits of it.
\<close>

theorem inode_csum_verifies:
  assumes "128 \<le> sb_inode_size sb"
  shows "ext4_fs_verify_inode_csum sb index (ext4_fs_set_inode_checksum sb index i rest) rest \<and>
    ext4_fs_inode_checksum sb index (ext4_inode_set_csum sb i c) rest = ext4_fs_inode_checksum sb index i rest"
proof -
  let ?c = "ext4_fs_inode_checksum sb index i rest"
  have "take_bit 16 ?c = ?c" if "sb_inode_size sb = 128"
    using that by (simp add: ext4_fs_inode_checksum_def EXT4_GOOD_OLD_INODE_SIZE_def and_ffff Let_def)
  moreover have "sb_inode_size sb = 128 \<or> sb_inode_size sb > 128" using assms by auto
  ultimately show ?thesis
    by (auto simp: ext4_fs_verify_inode_csum_def ext4_fs_set_inode_checksum_def
        inode_checksum_ignores_field inode_get_set_csum EXT4_GOOD_OLD_INODE_SIZE_def)
qed

theorem inode_csum_verifies_witness:
  "ext4_fs_verify_inode_csum (sb_of_bytes csum_image\<lparr> sb_inode_size := 256 \<rparr>) 11
     (ext4_fs_set_inode_checksum (sb_of_bytes csum_image\<lparr> sb_inode_size := 256 \<rparr>) 11 inode_zero
       (replicate 100 0)) (replicate 100 0)"
  using inode_csum_verifies [of "sb_of_bytes csum_image\<lparr> sb_inode_size := 256 \<rparr>"] by simp

text \<open>
  The size of an inode. A 64-bit size written with \<open>ext4_inode_set_size\<close> reads back whole for a
  regular file on a revision 1 volume, and as its low 32 bits for any other inode.
\<close>

theorem inode_size_roundtrip:
  "ext4_inode_get_size sb (ext4_inode_set_size i n) =
     (if sb_rev_level sb > 0 \<and> ext4_inode_is_type sb i EXT4_INODE_MODE_FILE then n else take_bit 32 n)"
proof -
  have "ext4_inode_is_type sb (ext4_inode_set_size i n) t = ext4_inode_is_type sb i t" for t
    by (simp add: ext4_inode_is_type_def ext4_inode_type_def ext4_inode_get_mode_def
        ext4_inode_set_size_def Let_def)
  moreover have "ucast (ucast (drop_bit 32 (push_bit 32 n)) :: u32) = take_bit 32 n"
    "take_bit 32 n OR push_bit 32 (ucast (ucast (drop_bit 32 n) :: u32)) = n"
    by (rule bit_word_eqI, auto simp: bit_simps)+
  ultimately show ?thesis
    by (simp add: ext4_inode_get_size_def Let_def) (simp add: ext4_inode_set_size_def)
qed

text \<open>
  The extended attribute block number loses its high part. On a Linux volume
  \<open>ext4_inode_set_file_acl\<close> stores bits 32 to 47 of the block number in \<^verbatim>\<open>file_acl_high\<close>, and
  \<open>ext4_inode_get_file_acl\<close> puts them back at bit 16: a block number reads back as itself exactly
  when it fits 32 bits.
\<close>

theorem file_acl_high_misplaced:
  assumes "sb_creator_os sb = EXT4_SUPERBLOCK_OS_LINUX" and "unat acl < 2 ^ 48"
  shows "ext4_inode_get_file_acl (ext4_inode_set_file_acl i sb acl) sb =
      take_bit 32 acl OR push_bit 16 (drop_bit 32 acl) \<and>
    (ext4_inode_get_file_acl (ext4_inode_set_file_acl i sb acl) sb = acl \<longleftrightarrow> unat acl < 2 ^ 32)"
proof -
  have t48: "take_bit 48 acl = acl" by (rule take48 [OF assms(2)])
  have b48: "bit acl n \<Longrightarrow> n < 48" for n
    using t48 by (metis bit_take_bit_iff)
  have lo: "ucast (ucast (drop_bit 32 (push_bit 32 acl)) :: u32) = take_bit 32 acl"
    by (rule bit_word_eqI) (auto simp: bit_simps)
  have hi: "ucast (push_bit 16 (ucast (ucast (drop_bit 32 acl) :: u16) :: u32)) = push_bit 16 (drop_bit 32 acl)"
    by (rule bit_word_eqI) (auto simp: bit_simps dest: b48)
  have eq: "ext4_inode_get_file_acl (ext4_inode_set_file_acl i sb acl) sb =
      take_bit 32 acl OR push_bit 16 (drop_bit 32 acl)"
    using assms(1) lo hi by (simp add: ext4_inode_get_file_acl_def ext4_inode_set_file_acl_def Let_def)
  have "take_bit 32 acl OR push_bit 16 (drop_bit 32 acl) = acl \<longleftrightarrow> unat acl < 2 ^ 32"
  proof
    assume e: "take_bit 32 acl OR push_bit 16 (drop_bit 32 acl) = acl"
    have "take_bit 32 (take_bit 32 acl OR push_bit 16 (drop_bit 32 acl)) =
        take_bit 32 acl OR push_bit 16 (drop_bit 32 acl)"
      by (rule bit_word_eqI) (auto simp: bit_simps dest: b48)
    then have "take_bit 32 acl = acl" using e by simp
    then have "unat acl = take_bit 32 (unat acl)" by (metis unsigned_take_bit_eq)
    then show "unat acl < 2 ^ 32" by (metis take_bit_nat_less_exp)
  next
    assume "unat acl < 2 ^ 32"
    then have t: "take_bit 32 acl = acl" by (rule take32)
    then have "drop_bit 32 acl = 0" by (metis drop_bit_take_bit diff_self_eq_0 take_bit_0)
    with t show "take_bit 32 acl OR push_bit 16 (drop_bit 32 acl) = acl" by simp
  qed
  with eq show ?thesis by simp
qed

theorem file_acl_high_misplaced_witness:
  "ext4_inode_get_file_acl (ext4_inode_set_file_acl inode_zero (sb_sample\<lparr> sb_creator_os := 0 \<rparr>) 0x100000005)
     (sb_sample\<lparr> sb_creator_os := 0 \<rparr>) = 0x10005"
  using file_acl_high_misplaced
    [where sb = "sb_sample\<lparr> sb_creator_os := 0 \<rparr>" and acl = "0x100000005" and i = inode_zero]
  by (simp add: ext4_consts)

text \<open>
  Owner ids are cut to 16 bits. Although \<open>ext4_inode_set_uid\<close> and \<open>ext4_inode_set_gid\<close> take
  32-bit ids, only their low halves are stored: the high halves of the format are never
  written or read.
\<close>

theorem inode_ids_truncated:
  "ext4_inode_get_uid (ext4_inode_set_uid i u) = take_bit 16 u \<and>
   ext4_inode_get_gid (ext4_inode_set_gid i g) = take_bit 16 g \<and>
   in_uid_high (ext4_inode_set_uid i u) = in_uid_high i \<and>
   in_gid_high (ext4_inode_set_gid i g) = in_gid_high i"
proof -
  have "ucast (ucast w :: u16) = take_bit 16 (w :: u32)" for w
    by (rule bit_word_eqI) (auto simp: bit_simps)
  then show ?thesis
    by (simp add: ext4_inode_get_uid_def ext4_inode_set_uid_def ext4_inode_get_gid_def
        ext4_inode_set_gid_def)
qed

end
