(* ===== verification/Fs.thy ===== *)
theory Fs
  imports CacheSpec Bitmap BlockGroup Inode
begin

text \<open>
  The file system instance and its references to block groups and inodes: \<^verbatim>\<open>include/ext4_fs.h\<close> and the
  first half of \<^verbatim>\<open>src/ext4_fs.c\<close> (mount and unmount, feature check, address arithmetic,
  initialization of group bitmaps, block group references, inode references).

  \<open>ext4_fs\<close> is the C struct without its journal members: no journal is open. A reference points into the
  buffer of its block: reading or writing through it reads or writes that buffer's bytes. The
  struct behind the pointer is decoded from and encoded to the bytes that belong to the item (32 or 64
  bytes of a group descriptor, at most \<open>inode_size\<close> bytes of an inode).
\<close>

section \<open>State\<close>

record 'd ext4_fs =
  fs_read_only :: bool
  fs_bdev :: "'d ext4_blockdev"
  fs_sb :: ext4_sblock
  fs_inode_block_limits :: "u64 list"
  fs_inode_blocks_per_level :: "u64 list"
  fs_last_inode_bg_id :: u32

record ext4_block_group_ref =
  bgr_block :: ext4_block
  bgr_off :: nat
  bgr_index :: u32
  bgr_dirty :: bool

record ext4_inode_ref =
  ir_block :: ext4_block
  ir_off :: nat
  ir_index :: u32
  ir_dirty :: bool

definition CONFIG_UNALIGNED_ACCESS :: bool where "CONFIG_UNALIGNED_ACCESS = False"

text \<open>An operation of the block device, on the device of the instance.\<close>

definition fs_dev :: "('d ext4_blockdev \<Rightarrow> 'a \<times> 'd ext4_blockdev) \<Rightarrow> 'd ext4_fs \<Rightarrow> 'a \<times> 'd ext4_fs" where
  "fs_dev f fs = (case f (fs_bdev fs) of (r, bd) \<Rightarrow> (r, fs\<lparr> fs_bdev := bd \<rparr>))"

definition fs_block_get :: "'d ext4_blockdev_iface \<Rightarrow> u64 \<Rightarrow> 'd ext4_fs \<Rightarrow> ext4_block res \<times> 'd ext4_fs" where
  "fs_block_get io l = fs_dev (ext4_block_get io l)"

definition fs_block_get_noread ::
    "'d ext4_blockdev_iface \<Rightarrow> u64 \<Rightarrow> 'd ext4_fs \<Rightarrow> ext4_block res \<times> 'd ext4_fs" where
  "fs_block_get_noread io l = fs_dev (ext4_block_get_noread io l)"

definition fs_block_set :: "'d ext4_blockdev_iface \<Rightarrow> ext4_block \<Rightarrow> 'd ext4_fs \<Rightarrow> unit res \<times> 'd ext4_fs" where
  "fs_block_set io b = fs_dev (ext4_block_set io b)"

text \<open>The bytes a block handle points to, and stores through the pointer.\<close>

definition fs_data :: "ext4_block \<Rightarrow> 'd ext4_fs \<Rightarrow> u8 list res" where
  "fs_data b fs =
     (case b_buf b of
        None \<Rightarrow> Inl UNDEF
      | Some l \<Rightarrow>
          (case ext4_buf_lookup (bd_bc (fs_bdev fs)) l of
             None \<Rightarrow> Inl UNDEF
           | Some x \<Rightarrow> Inr (buf_data x)))"

definition fs_store :: "ext4_block \<Rightarrow> u8 list res \<Rightarrow> 'd ext4_fs \<Rightarrow> unit res \<times> 'd ext4_fs" where
  "fs_store b data fs =
     (case (data, b_buf b) of
        (Inl e, _) \<Rightarrow> (Inl e, fs)
      | (Inr _, None) \<Rightarrow> (Inl UNDEF, fs)
      | (Inr d, Some l) \<Rightarrow> (Inr (), fs\<lparr> fs_bdev := blk_edit l d (fs_bdev fs) \<rparr>))"

definition fs_set_dirty :: "ext4_block \<Rightarrow> 'd ext4_fs \<Rightarrow> unit res \<times> 'd ext4_fs" where
  "fs_set_dirty b fs =
     (case b_buf b of
        None \<Rightarrow> (Inl UNDEF, fs)
      | Some l \<Rightarrow> (Inr (), fs\<lparr> fs_bdev := ext4_trans_set_block_dirty l (fs_bdev fs) \<rparr>))"

text \<open>\<open>sread\<close>: a value computed from the state.\<close>

definition sread :: "('s \<Rightarrow> 'a res) \<Rightarrow> 's \<Rightarrow> 'a res \<times> 's" where
  "sread f s = (f s, s)"

section \<open>Superblock transfer, mount and unmount\<close>

definition ext4_sb_read :: "'d ext4_blockdev_iface \<Rightarrow> 'd ext4_blockdev \<Rightarrow> ext4_sblock res \<times> 'd ext4_blockdev" where
  "ext4_sb_read io bd =
     sbind (ext4_block_readbytes io EXT4_SUPERBLOCK_OFFSET (replicate EXT4_SUPERBLOCK_SIZE 0)
              (of_nat EXT4_SUPERBLOCK_SIZE) bd)
       (\<lambda>bytes bd'. (Inr (sb_of_bytes bytes), bd'))"

text \<open>The checksum is stored into the caller's superblock, which is returned.\<close>

definition ext4_sb_write ::
    "'d ext4_blockdev_iface \<Rightarrow> ext4_sblock \<Rightarrow> 'd ext4_blockdev \<Rightarrow> unit res \<times> ext4_sblock \<times> 'd ext4_blockdev" where
  "ext4_sb_write io s bd =
     (let s = ext4_sb_set_csum s
      in case ext4_block_writebytes io EXT4_SUPERBLOCK_OFFSET (sb_bytes s) (of_nat EXT4_SUPERBLOCK_SIZE) bd of
           (r, bd') \<Rightarrow> (r, s, bd'))"

definition EXT4_SUPPORTED_FINCOM :: u32 where
  "EXT4_SUPPORTED_FINCOM =
     EXT4_FINCOM_FILETYPE OR EXT4_FINCOM_META_BG OR EXT4_FINCOM_EXTENTS OR EXT4_FINCOM_FLEX_BG OR
     EXT4_FINCOM_64BIT"

definition EXT4_SUPPORTED_FRO_COM :: u32 where
  "EXT4_SUPPORTED_FRO_COM =
     EXT4_FRO_COM_SPARSE_SUPER OR EXT4_FRO_COM_METADATA_CSUM OR EXT4_FRO_COM_LARGE_FILE OR
     EXT4_FRO_COM_GDT_CSUM OR EXT4_FRO_COM_DIR_NLINK OR EXT4_FRO_COM_EXTRA_ISIZE OR
     EXT4_FRO_COM_HUGE_FILE"

definition EXT_FINCOM_IGNORED :: u32 where
  "EXT_FINCOM_IGNORED = EXT4_FINCOM_RECOVER OR EXT4_FINCOM_MMP"

definition CONFIG_SUPPORTED_FINCOM :: u32 where
  "CONFIG_SUPPORTED_FINCOM = EXT4_SUPPORTED_FINCOM OR EXT_FINCOM_IGNORED"

definition CONFIG_SUPPORTED_FRO_COM :: u32 where
  "CONFIG_SUPPORTED_FRO_COM = EXT4_SUPPORTED_FRO_COM"

text \<open>The result is the new value of the flag \<^verbatim>\<open>*read_only\<close>; the debug listings are left out.\<close>

definition ext4_fs_check_features :: "ext4_sblock \<Rightarrow> bool res" where
  "ext4_fs_check_features sb =
     (if sb_rev_level sb = 0 then Inr False
      else if sb_features_incompatible sb AND NOT CONFIG_SUPPORTED_FINCOM \<noteq> 0 then Inl ENOTSUP
      else if sb_features_read_only sb AND NOT CONFIG_SUPPORTED_FRO_COM \<noteq> 0 then Inr True
      else Inr False)"

definition EXT4_INODE_DIRECT_BLOCK_COUNT :: u32 where "EXT4_INODE_DIRECT_BLOCK_COUNT = 12"

text \<open>The four limits and the four block counts per level of indirection.\<close>

definition fs_block_limits :: "u32 \<Rightarrow> u64 list \<times> u64 list" where
  "fs_block_limits bsize =
     (let blocks_id = ucast (bsize div 4) :: u64;
          per0 = 1; per1 = per0 * blocks_id; per2 = per1 * blocks_id; per3 = per2 * blocks_id;
          lim0 = ucast EXT4_INODE_DIRECT_BLOCK_COUNT; lim1 = lim0 + per1; lim2 = lim1 + per2; lim3 = lim2 + per3
      in ([lim0, lim1, lim2, lim3], [per0, per1, per2, per3]))"

definition ext4_fs_init ::
    "'d ext4_blockdev_iface \<Rightarrow> bool \<Rightarrow> 'd ext4_blockdev \<Rightarrow> 'd ext4_fs res \<times> 'd ext4_blockdev" where
  "ext4_fs_init io read_only bd =
     sbind (ext4_sb_read io bd) (\<lambda>sb bd.
       if \<not> ext4_sb_check sb then (Inl ENOTSUP, bd)
       else
         let bsize = ext4_sb_get_block_size sb
         in if bsize > EXT4_MAX_BLOCK_SIZE then (Inl ENXIO, bd)
            else
              (case ext4_fs_check_features sb of
                 Inl e \<Rightarrow> (Inl e, bd)
               | Inr ro \<Rightarrow>
                   let ro = (if ro then ro else read_only);
                       (limits, per_level) = fs_block_limits bsize;
                       mk = (\<lambda>sb bd. \<lparr> fs_read_only = ro, fs_bdev = bd, fs_sb = sb,
                               fs_inode_block_limits = limits, fs_inode_blocks_per_level = per_level,
                               fs_last_inode_bg_id = 0 \<rparr>)
                   in if ro then (Inr (mk sb bd), bd)
                      else
                        let sb = sb\<lparr> sb_state := EXT4_SUPERBLOCK_STATE_ERROR_FS \<rparr>
                        in (case ext4_sb_write io sb bd of
                              (Inl e, _, bd) \<Rightarrow> (Inl e, bd)
                            | (Inr _, sb, bd) \<Rightarrow>
                                (Inr (mk (sb\<lparr> sb_mount_count := sb_mount_count sb + 1 \<rparr>) bd), bd))))"

definition ext4_fs_fini :: "'d ext4_blockdev_iface \<Rightarrow> 'd ext4_fs \<Rightarrow> unit res \<times> 'd ext4_fs" where
  "ext4_fs_fini io fs =
     (let sb = (fs_sb fs)\<lparr> sb_state := EXT4_SUPERBLOCK_STATE_VALID_FS \<rparr>
      in if fs_read_only fs then (Inr (), fs\<lparr> fs_sb := sb \<rparr>)
         else case ext4_sb_write io sb (fs_bdev fs) of
                (r, sb, bd) \<Rightarrow> (r, fs\<lparr> fs_sb := sb, fs_bdev := bd \<rparr>))"

section \<open>Addresses\<close>

definition ext4_balloc_get_bgid_of_block :: "ext4_sblock \<Rightarrow> u64 \<Rightarrow> u32" where
  "ext4_balloc_get_bgid_of_block s baddr =
     (let baddr = (if sb_first_data_block s \<noteq> 0 \<and> baddr \<noteq> 0 then baddr - 1 else baddr)
      in ucast (baddr div ucast (sb_blocks_per_group s)))"

text \<open>The product is computed in 32 bits before it is added.\<close>

definition ext4_balloc_get_block_of_bgid :: "ext4_sblock \<Rightarrow> u32 \<Rightarrow> u64" where
  "ext4_balloc_get_block_of_bgid s bgid =
     (if sb_first_data_block s \<noteq> 0 then 1 else 0) + ucast (bgid * sb_blocks_per_group s)"

definition ext4_fs_addr_to_idx_bg :: "ext4_sblock \<Rightarrow> u64 \<Rightarrow> u32" where
  "ext4_fs_addr_to_idx_bg s baddr =
     (let baddr = (if sb_first_data_block s \<noteq> 0 \<and> baddr \<noteq> 0 then baddr - 1 else baddr)
      in ucast (baddr mod ucast (sb_blocks_per_group s)))"

definition ext4_fs_bg_idx_to_addr :: "ext4_sblock \<Rightarrow> u32 \<Rightarrow> u32 \<Rightarrow> u64" where
  "ext4_fs_bg_idx_to_addr s index bgid =
     (let index = (if sb_first_data_block s \<noteq> 0 then index + 1 else index)
      in ucast (sb_blocks_per_group s * bgid + index))"

definition ext4_fs_first_bg_block_no :: "ext4_sblock \<Rightarrow> u32 \<Rightarrow> u64" where
  "ext4_fs_first_bg_block_no s bgid =
     ucast bgid * ucast (sb_blocks_per_group s) + ucast (sb_first_data_block s)"

definition ext4_block_in_group :: "ext4_sblock \<Rightarrow> u64 \<Rightarrow> u32 \<Rightarrow> bool" where
  "ext4_block_in_group s baddr bgid \<longleftrightarrow> ext4_balloc_get_bgid_of_block s baddr = bgid"

definition ext4_fs_get_descriptor_block :: "ext4_sblock \<Rightarrow> u32 \<Rightarrow> u32 \<Rightarrow> u64" where
  "ext4_fs_get_descriptor_block s bgid dsc_per_block =
     (let dsc_id = bgid div dsc_per_block;
          first_meta_bg = ext4_sb_first_meta_bg s;
          meta_bg = ext4_sb_feature_incom s EXT4_FINCOM_META_BG
      in if \<not> meta_bg \<or> dsc_id < first_meta_bg then ucast (sb_first_data_block s + dsc_id + 1)
         else (if ext4_sb_is_super_in_bg s bgid then 1 else 0) + ext4_fs_first_bg_block_no s bgid)"

section \<open>Block group references\<close>

text \<open>The struct behind a reference, and a store of the whole struct.\<close>

definition bg_width :: "ext4_sblock \<Rightarrow> nat" where
  "bg_width sb = (if ext4_sb_get_desc_size sb = EXT4_MIN_BLOCK_GROUP_DESCRIPTOR_SIZE then 32 else 64)"

definition bg_at :: "ext4_sblock \<Rightarrow> u8 list \<Rightarrow> nat \<Rightarrow> ext4_bgroup res" where
  "bg_at sb data off =
     rbind (rd_range data off (bg_width sb)) (\<lambda>bs.
     Inr (bg_of_bytes (bs @ replicate (64 - bg_width sb) 0)))"

definition bg_put :: "ext4_sblock \<Rightarrow> u8 list \<Rightarrow> nat \<Rightarrow> ext4_bgroup \<Rightarrow> u8 list res" where
  "bg_put sb data off bg = wr_range data off (take (bg_width sb) (bg_bytes bg))"

definition bgr_load :: "ext4_block_group_ref \<Rightarrow> 'd ext4_fs \<Rightarrow> ext4_bgroup res" where
  "bgr_load ref fs = rbind (fs_data (bgr_block ref) fs) (\<lambda>data. bg_at (fs_sb fs) data (bgr_off ref))"

definition bgr_store ::
    "ext4_block_group_ref \<Rightarrow> ext4_bgroup \<Rightarrow> 'd ext4_fs \<Rightarrow> unit res \<times> 'd ext4_fs" where
  "bgr_store ref bg fs =
     fs_store (bgr_block ref)
       (rbind (fs_data (bgr_block ref) fs) (\<lambda>data. bg_put (fs_sb fs) data (bgr_off ref) bg)) fs"

definition bgr_modify ::
    "ext4_block_group_ref \<Rightarrow> (ext4_bgroup \<Rightarrow> ext4_bgroup) \<Rightarrow> 'd ext4_fs \<Rightarrow> unit res \<times> 'd ext4_fs" where
  "bgr_modify ref f fs = sbind (sread (bgr_load ref) fs) (\<lambda>bg fs. bgr_store ref (f bg) fs)"

text \<open>
  Setting the bits from \<open>i\<close> up to the next multiple of 8 one at a time, and the whole bytes after it at
  once.
\<close>

fun bmap_set_count :: "nat \<Rightarrow> u32 \<Rightarrow> u8 list \<Rightarrow> u8 list res" where
  "bmap_set_count 0 i bm = Inr bm"
| "bmap_set_count (Suc n) i bm = rbind (ext4_bmap_bit_set bm i) (bmap_set_count n (i + 1))"

definition bmap_fill_end :: "u32 \<Rightarrow> u32 \<Rightarrow> u8 list \<Rightarrow> u8 list res" where
  "bmap_fill_end start_bit end_bit bm =
     (let i = max start_bit ((start_bit + 7) AND NOT 7)
      in rbind (bmap_set_count (unat i - unat start_bit) start_bit bm) (\<lambda>bm.
         if i < end_bit
         then wr_range bm (unat (drop_bit 3 i)) (replicate (unat (drop_bit 3 (end_bit - i))) 0xFF)
         else Inr bm))"

text \<open>The bounds are signed here; a negative start is compared as a huge index, whose bit is out of range.\<close>

definition ext4_fs_mark_bitmap_end :: "u32 \<Rightarrow> u32 \<Rightarrow> u8 list \<Rightarrow> u8 list res" where
  "ext4_fs_mark_bitmap_end start_bit end_bit bm =
     (if sint start_bit \<ge> sint end_bit then Inr bm
      else if sint start_bit < 0 then Inl UNDEF
      else bmap_fill_end start_bit end_bit bm)"

text \<open>The bitmap checksum is part of the group descriptor.\<close>

definition ext4_balloc_bitmap_csum :: "ext4_sblock \<Rightarrow> u8 list \<Rightarrow> u32" where
  "ext4_balloc_bitmap_csum sb bitmap =
     (if ext4_sb_feature_ro_com sb EXT4_FRO_COM_METADATA_CSUM then
        let c = ext4_crc32c EXT4_CRC32_INIT (sb_uuid sb)
        in ext4_crc32c c (take (unat (sb_blocks_per_group sb div 8)) bitmap)
      else 0)"

definition ext4_balloc_set_bitmap_csum :: "ext4_sblock \<Rightarrow> ext4_bgroup \<Rightarrow> u8 list \<Rightarrow> ext4_bgroup" where
  "ext4_balloc_set_bitmap_csum sb bg bitmap =
     (let c = ext4_balloc_bitmap_csum sb bitmap
      in if \<not> ext4_sb_feature_ro_com sb EXT4_FRO_COM_METADATA_CSUM then bg
         else
           let bg = bg\<lparr> bg_block_bitmap_csum_lo := ucast (c AND 0xFFFF) \<rparr>
           in if ext4_sb_get_desc_size sb = EXT4_MAX_BLOCK_GROUP_DESCRIPTOR_SIZE
              then bg\<lparr> bg_block_bitmap_csum_hi := ucast (drop_bit 16 c) \<rparr> else bg)"

definition ext4_balloc_verify_bitmap_csum :: "ext4_sblock \<Rightarrow> ext4_bgroup \<Rightarrow> u8 list \<Rightarrow> bool" where
  "ext4_balloc_verify_bitmap_csum sb bg bitmap \<longleftrightarrow>
     (let c = ext4_balloc_bitmap_csum sb bitmap
      in if \<not> ext4_sb_feature_ro_com sb EXT4_FRO_COM_METADATA_CSUM then True
         else bg_block_bitmap_csum_lo bg = ucast (c AND 0xFFFF) \<and>
              (ext4_sb_get_desc_size sb = EXT4_MAX_BLOCK_GROUP_DESCRIPTOR_SIZE \<longrightarrow>
               bg_block_bitmap_csum_hi bg = ucast (drop_bit 16 c)))"

definition ext4_ialloc_bitmap_csum :: "ext4_sblock \<Rightarrow> u8 list \<Rightarrow> u32" where
  "ext4_ialloc_bitmap_csum sb bitmap =
     (if ext4_sb_feature_ro_com sb EXT4_FRO_COM_METADATA_CSUM then
        let c = ext4_crc32c EXT4_CRC32_INIT (sb_uuid sb)
        in ext4_crc32c c (take (unat ((sb_inodes_per_group sb + 7) div 8)) bitmap)
      else 0)"

definition ext4_ialloc_set_bitmap_csum :: "ext4_sblock \<Rightarrow> ext4_bgroup \<Rightarrow> u8 list \<Rightarrow> ext4_bgroup" where
  "ext4_ialloc_set_bitmap_csum sb bg bitmap =
     (let c = ext4_ialloc_bitmap_csum sb bitmap
      in if \<not> ext4_sb_feature_ro_com sb EXT4_FRO_COM_METADATA_CSUM then bg
         else
           let bg = bg\<lparr> bg_inode_bitmap_csum_lo := ucast (c AND 0xFFFF) \<rparr>
           in if ext4_sb_get_desc_size sb = EXT4_MAX_BLOCK_GROUP_DESCRIPTOR_SIZE
              then bg\<lparr> bg_inode_bitmap_csum_hi := ucast (drop_bit 16 c) \<rparr> else bg)"

definition ext4_ialloc_verify_bitmap_csum :: "ext4_sblock \<Rightarrow> ext4_bgroup \<Rightarrow> u8 list \<Rightarrow> bool" where
  "ext4_ialloc_verify_bitmap_csum sb bg bitmap \<longleftrightarrow>
     (let c = ext4_ialloc_bitmap_csum sb bitmap
      in if \<not> ext4_sb_feature_ro_com sb EXT4_FRO_COM_METADATA_CSUM then True
         else bg_inode_bitmap_csum_lo bg = ucast (c AND 0xFFFF) \<and>
              (ext4_sb_get_desc_size sb = EXT4_MAX_BLOCK_GROUP_DESCRIPTOR_SIZE \<longrightarrow>
               bg_inode_bitmap_csum_hi bg = ucast (drop_bit 16 c)))"

text \<open>The marks of \<open>ext4_fs_init_block_bitmap\<close>: metadata at the front, bitmaps, inode table, end.\<close>

fun mark_inode_table ::
    "nat \<Rightarrow> ext4_sblock \<Rightarrow> u32 \<Rightarrow> u64 \<Rightarrow> u64 \<Rightarrow> u8 list \<Rightarrow> u8 list res" where
  "mark_inode_table 0 sb bgid first_bg i bm = Inr bm"
| "mark_inode_table (Suc n) sb bgid first_bg i bm =
     rbind (if \<not> ext4_sb_feature_incom sb EXT4_FINCOM_FLEX_BG \<or> ext4_block_in_group sb i bgid
            then ext4_bmap_bit_set bm (ucast (i - first_bg)) else Inr bm)
       (mark_inode_table n sb bgid first_bg (i + 1))"

definition init_block_bitmap_front :: "ext4_sblock \<Rightarrow> u32 \<Rightarrow> u32" where
  "init_block_bitmap_front sb bgid =
     (let dsc_per_block = ext4_sb_get_block_size sb div ucast (ext4_sb_get_desc_size sb);
          meta_bg = ext4_sb_feature_incom sb EXT4_FINCOM_META_BG;
          bit_max = (if ext4_sb_is_super_in_bg sb bgid then 1 else 0);
          count = ext4_sb_first_meta_bg sb * dsc_per_block
      in if \<not> meta_bg \<or> bgid < count then
           (if bit_max \<noteq> 0
            then bit_max + ext4_bg_num_gdb sb bgid + ucast (sb_reserved_gdt_blocks sb) else bit_max)
         else bit_max + ext4_bg_num_gdb sb bgid)"

definition init_group_blocks :: "ext4_sblock \<Rightarrow> u32 \<Rightarrow> u32" where
  "init_group_blocks sb bgid =
     (if bgid = ext4_block_group_cnt sb - 1
      then ucast (ext4_sb_get_blocks_cnt sb - ucast (sb_first_data_block sb) -
                  ucast (sb_blocks_per_group sb * (ext4_block_group_cnt sb - 1)))
      else sb_blocks_per_group sb)"

definition init_block_bitmap_image :: "ext4_sblock \<Rightarrow> ext4_bgroup \<Rightarrow> u32 \<Rightarrow> u8 list \<Rightarrow> u8 list res" where
  "init_block_bitmap_image sb bg bgid bm =
     (let block_size = ext4_sb_get_block_size sb;
          bmp_blk = ext4_bg_get_block_bitmap bg sb;
          bmp_inode = ext4_bg_get_inode_bitmap bg sb;
          inode_table = ext4_bg_get_inode_table_first_block bg sb;
          first_bg = ext4_balloc_get_block_of_bgid sb bgid;
          flex_bg = ext4_sb_feature_incom sb EXT4_FINCOM_FLEX_BG;
          inode_table_bcnt = sb_inodes_per_group sb * ucast (sb_inode_size sb) div block_size
      in rbind (wr_range bm 0 (replicate (unat block_size) 0)) (\<lambda>bm.
         rbind (bmap_set_count (unat (init_block_bitmap_front sb bgid)) 0 bm) (\<lambda>bm.
         rbind (if \<not> flex_bg \<or> ext4_block_in_group sb bmp_blk bgid
                then ext4_bmap_bit_set bm (ucast (bmp_blk - first_bg)) else Inr bm) (\<lambda>bm.
         rbind (if \<not> flex_bg \<or> ext4_block_in_group sb bmp_inode bgid
                then ext4_bmap_bit_set bm (ucast (bmp_inode - first_bg)) else Inr bm) (\<lambda>bm.
         rbind (mark_inode_table
                  (if inode_table \<le> inode_table + ucast inode_table_bcnt then unat inode_table_bcnt else 0)
                  sb bgid first_bg inode_table bm) (\<lambda>bm.
         ext4_fs_mark_bitmap_end (init_group_blocks sb bgid) (block_size * 8) bm))))))"

definition ext4_fs_init_block_bitmap ::
    "'d ext4_blockdev_iface \<Rightarrow> ext4_block_group_ref \<Rightarrow> 'd ext4_fs \<Rightarrow> ext4_block_group_ref res \<times> 'd ext4_fs" where
  "ext4_fs_init_block_bitmap io ref fs =
     (let sb = fs_sb fs
      in sbind (sread (bgr_load ref) fs) (\<lambda>bg fs.
         sbind (fs_block_get_noread io (ext4_bg_get_block_bitmap bg sb) fs) (\<lambda>b fs.
         sbind (sread (\<lambda>fs. rbind (fs_data b fs) (init_block_bitmap_image sb bg (bgr_index ref))) fs) (\<lambda>bm fs.
         sbind (fs_store b (Inr bm) fs) (\<lambda>_ fs.
         sbind (fs_set_dirty b fs) (\<lambda>_ fs.
         sbind (bgr_modify ref (\<lambda>bg. ext4_balloc_set_bitmap_csum sb bg bm) fs) (\<lambda>_ fs.
         sbind (fs_block_set io b fs) (\<lambda>_ fs.
         (Inr (ref\<lparr> bgr_dirty := True \<rparr>), fs)))))))))"

definition init_inode_bitmap_image :: "ext4_sblock \<Rightarrow> u8 list \<Rightarrow> u8 list res" where
  "init_inode_bitmap_image sb bm =
     (let block_size = ext4_sb_get_block_size sb; n = sb_inodes_per_group sb
      in rbind (wr_range bm 0 (replicate (unat ((n + 7) div 8)) 0)) (\<lambda>bm.
         bmap_fill_end n (block_size * 8) bm))"

definition ext4_fs_init_inode_bitmap ::
    "'d ext4_blockdev_iface \<Rightarrow> ext4_block_group_ref \<Rightarrow> 'd ext4_fs \<Rightarrow> ext4_block_group_ref res \<times> 'd ext4_fs" where
  "ext4_fs_init_inode_bitmap io ref fs =
     (let sb = fs_sb fs
      in sbind (sread (bgr_load ref) fs) (\<lambda>bg fs.
         sbind (fs_block_get_noread io (ext4_bg_get_inode_bitmap bg sb) fs) (\<lambda>b fs.
         sbind (sread (\<lambda>fs. rbind (fs_data b fs) (init_inode_bitmap_image sb)) fs) (\<lambda>bm fs.
         sbind (fs_store b (Inr bm) fs) (\<lambda>_ fs.
         sbind (fs_set_dirty b fs) (\<lambda>_ fs.
         sbind (bgr_modify ref (\<lambda>bg. ext4_ialloc_set_bitmap_csum sb bg bm) fs) (\<lambda>_ fs.
         sbind (fs_block_set io b fs) (\<lambda>_ fs.
         (Inr (ref\<lparr> bgr_dirty := True \<rparr>), fs)))))))))"

fun init_table_blocks ::
    "nat \<Rightarrow> 'd ext4_blockdev_iface \<Rightarrow> u64 \<Rightarrow> 'd ext4_fs \<Rightarrow> unit res \<times> 'd ext4_fs" where
  "init_table_blocks 0 io fblock fs = (Inr (), fs)"
| "init_table_blocks (Suc n) io fblock fs =
     sbind (fs_block_get_noread io fblock fs) (\<lambda>b fs.
     sbind (fs_store b (rbind (fs_data b fs) (\<lambda>d.
              wr_range d 0 (replicate (unat (ext4_sb_get_block_size (fs_sb fs))) 0))) fs) (\<lambda>_ fs.
     sbind (fs_set_dirty b fs) (\<lambda>_ fs.
     sbind (fs_block_set io b fs) (\<lambda>_ fs.
     init_table_blocks n io (fblock + 1) fs))))"

definition ext4_fs_init_inode_table ::
    "'d ext4_blockdev_iface \<Rightarrow> ext4_block_group_ref \<Rightarrow> 'd ext4_fs \<Rightarrow> unit res \<times> 'd ext4_fs" where
  "ext4_fs_init_inode_table io ref fs =
     (let sb = fs_sb fs;
          inodes_per_block = ext4_sb_get_block_size sb div ucast (sb_inode_size sb);
          inodes_in_group = ext4_inodes_in_group_cnt sb (bgr_index ref);
          table_blocks = inodes_in_group div inodes_per_block;
          table_blocks = (if inodes_in_group mod inodes_per_block \<noteq> 0 then table_blocks + 1 else table_blocks)
      in sbind (sread (bgr_load ref) fs) (\<lambda>bg fs.
         let first_block = ext4_bg_get_inode_table_first_block bg sb;
             last_block = first_block + ucast table_blocks - 1
         in init_table_blocks
              (if first_block \<le> last_block then unat (last_block - first_block) + 1 else 0) io first_block fs))"

text \<open>
  Releasing the descriptor block on an error ignores the code of the release. A failed descriptor
  checksum is only reported on the debug channel.
\<close>

definition bgr_drop ::
    "'d ext4_blockdev_iface \<Rightarrow> ext4_block_group_ref \<Rightarrow> 'a res \<times> 'd ext4_fs \<Rightarrow> 'a res \<times> 'd ext4_fs" where
  "bgr_drop io ref m =
     scatch m (\<lambda>e fs. sbind (sforget (fs_block_set io (bgr_block ref) fs)) (\<lambda>_ fs. (Inl e, fs)))"

definition bgr_init_block_part ::
    "'d ext4_blockdev_iface \<Rightarrow> ext4_block_group_ref \<Rightarrow> 'd ext4_fs \<Rightarrow> ext4_block_group_ref res \<times> 'd ext4_fs" where
  "bgr_init_block_part io ref fs =
     sbind (sread (bgr_load ref) fs) (\<lambda>bg fs.
       if \<not> ext4_bg_has_flag bg EXT4_BLOCK_GROUP_BLOCK_UNINIT then (Inr ref, fs)
       else
         sbind (bgr_drop io ref (ext4_fs_init_block_bitmap io ref fs)) (\<lambda>ref fs.
         sbind (bgr_modify ref (\<lambda>bg. ext4_bg_clear_flag bg EXT4_BLOCK_GROUP_BLOCK_UNINIT) fs) (\<lambda>_ fs.
         (Inr (ref\<lparr> bgr_dirty := True \<rparr>), fs))))"

definition bgr_init_table_part ::
    "'d ext4_blockdev_iface \<Rightarrow> ext4_block_group_ref \<Rightarrow> 'd ext4_fs \<Rightarrow> unit res \<times> 'd ext4_fs" where
  "bgr_init_table_part io ref fs =
     sbind (sread (bgr_load ref) fs) (\<lambda>bg fs.
       if ext4_bg_has_flag bg EXT4_BLOCK_GROUP_ITABLE_ZEROED then (Inr (), fs)
       else
         sbind (bgr_drop io ref (ext4_fs_init_inode_table io ref fs)) (\<lambda>_ fs.
         bgr_modify ref (\<lambda>bg. ext4_bg_set_flag bg EXT4_BLOCK_GROUP_ITABLE_ZEROED) fs))"

definition bgr_init_inode_part ::
    "'d ext4_blockdev_iface \<Rightarrow> ext4_block_group_ref \<Rightarrow> 'd ext4_fs \<Rightarrow> ext4_block_group_ref res \<times> 'd ext4_fs" where
  "bgr_init_inode_part io ref fs =
     sbind (sread (bgr_load ref) fs) (\<lambda>bg fs.
       if \<not> ext4_bg_has_flag bg EXT4_BLOCK_GROUP_INODE_UNINIT then (Inr ref, fs)
       else
         sbind (bgr_drop io ref (ext4_fs_init_inode_bitmap io ref fs)) (\<lambda>ref fs.
         sbind (bgr_modify ref (\<lambda>bg. ext4_bg_clear_flag bg EXT4_BLOCK_GROUP_INODE_UNINIT) fs) (\<lambda>_ fs.
         sbind (bgr_init_table_part io ref fs) (\<lambda>_ fs.
         (Inr (ref\<lparr> bgr_dirty := True \<rparr>), fs)))))"

definition ext4_fs_get_block_group_ref ::
    "'d ext4_blockdev_iface \<Rightarrow> u32 \<Rightarrow> 'd ext4_fs \<Rightarrow> ext4_block_group_ref res \<times> 'd ext4_fs" where
  "ext4_fs_get_block_group_ref io bgid fs =
     (let sb = fs_sb fs;
          dsc_cnt = ext4_sb_get_block_size sb div ucast (ext4_sb_get_desc_size sb);
          block_id = ext4_fs_get_descriptor_block sb bgid dsc_cnt;
          offset = (bgid mod dsc_cnt) * ucast (ext4_sb_get_desc_size sb)
      in sbind (fs_block_get io block_id fs) (\<lambda>b fs.
           let ref = \<lparr> bgr_block = b, bgr_off = unat offset, bgr_index = bgid, bgr_dirty = False \<rparr>
           in sbind (bgr_init_block_part io ref fs) (\<lambda>ref fs.
              bgr_init_inode_part io ref fs)))"

definition ext4_fs_put_block_group_ref ::
    "'d ext4_blockdev_iface \<Rightarrow> ext4_block_group_ref \<Rightarrow> 'd ext4_fs \<Rightarrow> unit res \<times> 'd ext4_fs" where
  "ext4_fs_put_block_group_ref io ref fs =
     (if bgr_dirty ref then
        sbind (bgr_modify ref
                 (\<lambda>bg. ext4_bg_set_checksum bg (ext4_fs_bg_checksum (fs_sb fs) (bgr_index ref) bg)) fs) (\<lambda>_ fs.
        sbind (fs_set_dirty (bgr_block ref) fs) (\<lambda>_ fs.
        fs_block_set io (bgr_block ref) fs))
      else fs_block_set io (bgr_block ref) fs)"

text \<open>Error exits that put the group reference back ignore the code of that.\<close>

definition bgr_fail ::
    "'d ext4_blockdev_iface \<Rightarrow> ext4_block_group_ref \<Rightarrow> ext4_err \<Rightarrow> 'd ext4_fs \<Rightarrow> 'a res \<times> 'd ext4_fs" where
  "bgr_fail io ref e fs =
     (if fatal e then (Inl e, fs) else sbind (sforget (ext4_fs_put_block_group_ref io ref fs)) (\<lambda>_ fs. (Inl e, fs)))"

definition bgr_guard ::
    "'d ext4_blockdev_iface \<Rightarrow> ext4_block_group_ref \<Rightarrow> 'a res \<times> 'd ext4_fs \<Rightarrow>
     ('a \<Rightarrow> 'd ext4_fs \<Rightarrow> 'b res \<times> 'd ext4_fs) \<Rightarrow> 'b res \<times> 'd ext4_fs" where
  "bgr_guard io ref m f =
     (case m of (Inl e, fs) \<Rightarrow> bgr_fail io ref e fs | (Inr v, fs) \<Rightarrow> f v fs)"

lemma bgr_guard_simps [simp]:
  "bgr_guard io ref (Inl e, fs) f = bgr_fail io ref e fs" "bgr_guard io ref (Inr v, fs) f = f v fs"
  by (simp_all add: bgr_guard_def)

section \<open>Inode references\<close>

definition inode_width :: "ext4_sblock \<Rightarrow> nat" where
  "inode_width sb = min 156 (unat (sb_inode_size sb))"

definition inode_at :: "ext4_sblock \<Rightarrow> u8 list \<Rightarrow> nat \<Rightarrow> ext4_inode res" where
  "inode_at sb data off =
     rbind (rd_range data off (inode_width sb)) (\<lambda>bs.
     Inr (inode_of_bytes (bs @ replicate (156 - inode_width sb) 0)))"

definition inode_put :: "ext4_sblock \<Rightarrow> u8 list \<Rightarrow> nat \<Rightarrow> ext4_inode \<Rightarrow> u8 list res" where
  "inode_put sb data off i = wr_range data off (take (inode_width sb) (inode_bytes i))"

text \<open>The bytes of the on-disk inode past the struct, for the checksum.\<close>

definition inode_rest :: "ext4_sblock \<Rightarrow> u8 list \<Rightarrow> nat \<Rightarrow> u8 list res" where
  "inode_rest sb data off = rd_range data (off + inode_width sb) (unat (sb_inode_size sb) - inode_width sb)"

definition ir_load :: "ext4_inode_ref \<Rightarrow> 'd ext4_fs \<Rightarrow> ext4_inode res" where
  "ir_load ref fs = rbind (fs_data (ir_block ref) fs) (\<lambda>data. inode_at (fs_sb fs) data (ir_off ref))"

definition ir_store :: "ext4_inode_ref \<Rightarrow> ext4_inode \<Rightarrow> 'd ext4_fs \<Rightarrow> unit res \<times> 'd ext4_fs" where
  "ir_store ref i fs =
     fs_store (ir_block ref) (rbind (fs_data (ir_block ref) fs) (\<lambda>data. inode_put (fs_sb fs) data (ir_off ref) i)) fs"

definition fs_get_inode_ref ::
    "'d ext4_blockdev_iface \<Rightarrow> u32 \<Rightarrow> 'd ext4_fs \<Rightarrow> ext4_inode_ref res \<times> 'd ext4_fs" where
  "fs_get_inode_ref io index fs =
     (let sb = fs_sb fs;
          index0 = index - 1;
          block_group = index0 div sb_inodes_per_group sb;
          offset_in_group = index0 mod sb_inodes_per_group sb
      in sbind (ext4_fs_get_block_group_ref io block_group fs) (\<lambda>bg_ref fs.
         sbind (sread (bgr_load bg_ref) fs) (\<lambda>bg fs.
         let inode_table_start = ext4_bg_get_inode_table_first_block bg sb
         in sbind (ext4_fs_put_block_group_ref io bg_ref fs) (\<lambda>_ fs.
            let block_size = ext4_sb_get_block_size sb;
                byte_offset_in_group = offset_in_group * ucast (sb_inode_size sb);
                block_id = inode_table_start + ucast (byte_offset_in_group div block_size)
            in sbind (fs_block_get io block_id fs) (\<lambda>b fs.
               (Inr \<lparr> ir_block = b, ir_off = unat (byte_offset_in_group mod block_size),
                  ir_index = index0 + 1, ir_dirty = False \<rparr>, fs))))))"

text \<open>The checksum verification of an initialized inode only reports on the debug channel.\<close>

definition ext4_fs_get_inode_ref ::
    "'d ext4_blockdev_iface \<Rightarrow> u32 \<Rightarrow> 'd ext4_fs \<Rightarrow> ext4_inode_ref res \<times> 'd ext4_fs" where
  "ext4_fs_get_inode_ref io index fs = fs_get_inode_ref io index fs"

definition ext4_fs_put_inode_ref ::
    "'d ext4_blockdev_iface \<Rightarrow> ext4_inode_ref \<Rightarrow> 'd ext4_fs \<Rightarrow> unit res \<times> 'd ext4_fs" where
  "ext4_fs_put_inode_ref io ref fs =
     (if ir_dirty ref then
        sbind (sread (ir_load ref) fs) (\<lambda>i fs.
        sbind (sread (\<lambda>fs. rbind (fs_data (ir_block ref) fs) (\<lambda>data. inode_rest (fs_sb fs) data (ir_off ref))) fs)
          (\<lambda>rest fs.
        sbind (ir_store ref (ext4_fs_set_inode_checksum (fs_sb fs) (ir_index ref) i rest) fs) (\<lambda>_ fs.
        sbind (fs_set_dirty (ir_block ref) fs) (\<lambda>_ fs.
        fs_block_set io (ir_block ref) fs))))
      else fs_block_set io (ir_block ref) fs)"

end
