(* ===== verification/Ialloc.thy ===== *)
theory Ialloc
  imports Fs
begin

text \<open>
  The inode allocator, \<^verbatim>\<open>src/ext4_ialloc.c\<close>: number and index conversions, freeing an inode, and the
  search for a free inode over the block groups. A group whose counter promises an inode its
  bitmap does not have is tried again for ever, so the loop takes \<open>fuel\<close> and answers \<open>EHANG\<close> when it runs out.
\<close>

section \<open>Numbers\<close>

definition ext4_ialloc_inode_to_bgidx :: "ext4_sblock \<Rightarrow> u32 \<Rightarrow> u32" where
  "ext4_ialloc_inode_to_bgidx sb inode = (inode - 1) mod sb_inodes_per_group sb"

definition ext4_ialloc_bgidx_to_inode :: "ext4_sblock \<Rightarrow> u32 \<Rightarrow> u32 \<Rightarrow> u32" where
  "ext4_ialloc_bgidx_to_inode sb index bgid = bgid * sb_inodes_per_group sb + (index + 1)"

definition ext4_ialloc_get_bgid_of_inode :: "ext4_sblock \<Rightarrow> u32 \<Rightarrow> u32" where
  "ext4_ialloc_get_bgid_of_inode sb inode = (inode - 1) div sb_inodes_per_group sb"

section \<open>Freeing\<close>

definition ialloc_release :: "ext4_sblock \<Rightarrow> bool \<Rightarrow> ext4_bgroup \<Rightarrow> ext4_bgroup" where
  "ialloc_release sb is_dir bg =
     (let bg = (if is_dir
                then ext4_bg_set_used_dirs_count bg sb (ext4_bg_get_used_dirs_count bg sb - 1) else bg)
      in ext4_bg_set_free_inodes_count bg sb (ext4_bg_get_free_inodes_count bg sb + 1))"

text \<open>When the bitmap cannot be read the group reference is not put back.\<close>

definition ext4_ialloc_free_inode ::
    "'d ext4_blockdev_iface \<Rightarrow> u32 \<Rightarrow> bool \<Rightarrow> 'd ext4_fs \<Rightarrow> unit res \<times> 'd ext4_fs" where
  "ext4_ialloc_free_inode io index is_dir fs =
     (let sb = fs_sb fs
      in sbind (ext4_fs_get_block_group_ref io (ext4_ialloc_get_bgid_of_inode sb index) fs) (\<lambda>ref fs.
         sbind (sread (bgr_load ref) fs) (\<lambda>bg fs.
         sbind (fs_block_get io (ext4_bg_get_inode_bitmap bg sb) fs) (\<lambda>b fs.
         sbind (sread (\<lambda>fs. rbind (fs_data b fs)
                  (\<lambda>d. ext4_bmap_bit_clr d (ext4_ialloc_inode_to_bgidx sb index))) fs) (\<lambda>bm fs.
         sbind (fs_store b (Inr bm) fs) (\<lambda>_ fs.
         sbind (bgr_modify ref (\<lambda>bg. ext4_ialloc_set_bitmap_csum sb bg bm) fs) (\<lambda>_ fs.
         sbind (fs_set_dirty b fs) (\<lambda>_ fs.
         bgr_guard io ref (fs_block_set io b fs) (\<lambda>_ fs.
         sbind (bgr_modify ref (ialloc_release sb is_dir) fs) (\<lambda>_ fs.
         sbind (ext4_fs_put_block_group_ref io (ref\<lparr> bgr_dirty := True \<rparr>) fs) (\<lambda>_ fs.
         (Inr (), fs\<lparr> fs_sb := (fs_sb fs)
            \<lparr> sb_free_inodes_count := sb_free_inodes_count (fs_sb fs) + 1 \<rparr> \<rparr>))))))))))))"

section \<open>Allocating\<close>

datatype ialloc_outcome = IFound u32 | IFull | INoFree

text \<open>
  The counters after inode \<open>idx\<close> of the group is taken: one free inode less, a directory more if it is
  one, and the unused tail of the inode table shortened when the inode lies in it.
\<close>

definition ialloc_take ::
    "ext4_sblock \<Rightarrow> u32 \<Rightarrow> bool \<Rightarrow> u32 \<Rightarrow> u32 \<Rightarrow> u32 \<Rightarrow> ext4_bgroup \<Rightarrow> ext4_bgroup" where
  "ialloc_take sb inodes_in_bg is_dir free_inodes used_dirs idx bg =
     (let bg = ext4_bg_set_free_inodes_count bg sb (free_inodes - 1);
          bg = (if is_dir then ext4_bg_set_used_dirs_count bg sb (used_dirs + 1) else bg);
          unused = ext4_bg_get_itable_unused bg sb;
          free = inodes_in_bg - unused
      in if idx \<ge> free then ext4_bg_set_itable_unused bg sb (inodes_in_bg - (idx + 1)) else bg)"

text \<open>
  One block group. The code of \<^verbatim>\<open>ext4_block_set\<close> after a bit is taken, and of putting back the
  reference of a group without free inodes, is not looked at.
\<close>

definition ialloc_group ::
    "'d ext4_blockdev_iface \<Rightarrow> bool \<Rightarrow> u32 \<Rightarrow> 'd ext4_fs \<Rightarrow> ialloc_outcome res \<times> 'd ext4_fs" where
  "ialloc_group io is_dir bgid fs =
     (let sb = fs_sb fs
      in sbind (ext4_fs_get_block_group_ref io bgid fs) (\<lambda>ref fs.
         sbind (sread (bgr_load ref) fs) (\<lambda>bg fs.
         let free_inodes = ext4_bg_get_free_inodes_count bg sb;
             used_dirs = ext4_bg_get_used_dirs_count bg sb
         in if free_inodes > 0 then
           bgr_guard io ref (fs_block_get io (ext4_bg_get_inode_bitmap bg sb) fs) (\<lambda>b fs.
           sbind (sread (fs_data b) fs) (\<lambda>d fs.
           let inodes_in_bg = ext4_inodes_in_group_cnt sb bgid
           in case ext4_bmap_bit_find_clr CONFIG_UNALIGNED_ACCESS d 0 inodes_in_bg of
                Inl e \<Rightarrow>
                  if e = ENOSPC then
                    bgr_guard io ref (fs_block_set io b fs) (\<lambda>_ fs.
                    sbind (ext4_fs_put_block_group_ref io ref fs) (\<lambda>_ fs. (Inr IFull, fs)))
                  else (Inl e, fs)
              | Inr idx \<Rightarrow>
                  sbind (ext4_bmap_bit_set d idx, fs) (\<lambda>bm fs.
                  sbind (fs_store b (Inr bm) fs) (\<lambda>_ fs.
                  sbind (bgr_modify ref (\<lambda>bg. ext4_ialloc_set_bitmap_csum sb bg bm) fs) (\<lambda>_ fs.
                  sbind (fs_set_dirty b fs) (\<lambda>_ fs.
                  sbind (sforget (fs_block_set io b fs)) (\<lambda>_ fs.
                  sbind (bgr_modify ref (ialloc_take sb inodes_in_bg is_dir free_inodes used_dirs idx) fs) (\<lambda>_ fs.
                  sbind (ext4_fs_put_block_group_ref io (ref\<lparr> bgr_dirty := True \<rparr>) fs) (\<lambda>_ fs.
                  (Inr (IFound idx), fs))))))))))
         else sbind (sforget (ext4_fs_put_block_group_ref io ref fs)) (\<lambda>_ fs. (Inr INoFree, fs)))))"

fun ialloc_loop ::
    "nat \<Rightarrow> 'd ext4_blockdev_iface \<Rightarrow> bool \<Rightarrow> u32 \<Rightarrow> u32 \<Rightarrow> bool \<Rightarrow> 'd ext4_fs \<Rightarrow> (u32 \<times> u32) res \<times> 'd ext4_fs" where
  "ialloc_loop fuel io is_dir bgid bg_count rewind fs =
     (if \<not> bgid \<le> bg_count then (Inl ENOSPC, fs)
      else case fuel of
        0 \<Rightarrow> (Inl EHANG, fs)
      | Suc fuel' \<Rightarrow>
          if bgid = bg_count then
            if rewind then (Inl ENOSPC, fs)
            else ialloc_loop fuel' io is_dir 0 (fs_last_inode_bg_id fs) True fs
          else
            sbind (ialloc_group io is_dir bgid fs) (\<lambda>r fs.
              case r of
                IFound idx \<Rightarrow> (Inr (bgid, idx), fs)
              | IFull \<Rightarrow> ialloc_loop fuel' io is_dir bgid bg_count rewind fs
              | INoFree \<Rightarrow> ialloc_loop fuel' io is_dir (bgid + 1) bg_count rewind fs))"

declare ialloc_loop.simps [simp del]

definition ext4_ialloc_alloc_inode ::
    "nat \<Rightarrow> 'd ext4_blockdev_iface \<Rightarrow> bool \<Rightarrow> 'd ext4_fs \<Rightarrow> u32 res \<times> 'd ext4_fs" where
  "ext4_ialloc_alloc_inode fuel io is_dir fs =
     (let sb_free_inodes = sb_free_inodes_count (fs_sb fs)
      in sbind (ialloc_loop fuel io is_dir (fs_last_inode_bg_id fs) (ext4_block_group_cnt (fs_sb fs)) False fs)
           (\<lambda>(bgid, idx) fs.
             (Inr (ext4_ialloc_bgidx_to_inode (fs_sb fs) idx bgid),
              fs\<lparr> fs_sb := (fs_sb fs)\<lparr> sb_free_inodes_count := sb_free_inodes - 1 \<rparr>,
                  fs_last_inode_bg_id := bgid \<rparr>)))"

end
