(* ===== verification/Balloc.thy ===== *)
theory Balloc
  imports Fs
begin

text \<open>
  The block allocator, \<^verbatim>\<open>src/ext4_balloc.c\<close>: freeing one block or a range, allocating near a goal, and
  claiming a given block. Each keeps four records in step: the bitmap of the block's group, the
  group's count of free blocks, the superblock's count and the inode's count of 512-byte units.
  The operations work on the instance and on the caller's inode reference, whose \<^verbatim>\<open>dirty\<close> flag
  they set. The checksum tests of bitmaps only report on the debug channel; without a journal
  revoking a block does nothing and succeeds.
\<close>

section \<open>Accounting\<close>

type_synonym 'd istate = "'d ext4_fs \<times> ext4_inode_ref"

definition on_fs :: "('d ext4_fs \<Rightarrow> 'a res \<times> 'd ext4_fs) \<Rightarrow> 'd istate \<Rightarrow> 'a res \<times> 'd istate" where
  "on_fs m s = (case m (fst s) of (r, fs) \<Rightarrow> (r, fs, snd s))"

definition EXT4_INODE_BLOCK_SIZE :: u32 where "EXT4_INODE_BLOCK_SIZE = 512"

text \<open>A block count the inode cannot hold is not stored, and the code of that is not looked at.\<close>

definition inode_add_blocks :: "ext4_sblock \<Rightarrow> u64 \<Rightarrow> ext4_inode \<Rightarrow> ext4_inode" where
  "inode_add_blocks sb n i =
     (case ext4_inode_set_blocks_count sb i (ext4_inode_get_blocks_count sb i + n) of
        Inl _ \<Rightarrow> i | Inr i' \<Rightarrow> i')"

definition fs_add_free_blocks :: "u64 \<Rightarrow> 'd ext4_fs \<Rightarrow> 'd ext4_fs" where
  "fs_add_free_blocks n fs =
     fs\<lparr> fs_sb := ext4_sb_set_free_blocks_cnt (fs_sb fs) (ext4_sb_get_free_blocks_cnt (fs_sb fs) + n) \<rparr>"

definition bg_add_free_blocks :: "ext4_sblock \<Rightarrow> u32 \<Rightarrow> ext4_bgroup \<Rightarrow> ext4_bgroup" where
  "bg_add_free_blocks sb n bg = ext4_bg_set_free_blocks_count bg sb (ext4_bg_get_free_blocks_count bg sb + n)"

definition ir_modify :: "(ext4_inode \<Rightarrow> ext4_inode) \<Rightarrow> 'd istate \<Rightarrow> unit res \<times> 'd istate" where
  "ir_modify f s =
     sbind (on_fs (\<lambda>fs. sbind (sread (ir_load (snd s)) fs) (\<lambda>i fs. ir_store (snd s) (f i) fs)) s) (\<lambda>_ s.
     (Inr (), fst s, (snd s)\<lparr> ir_dirty := True \<rparr>))"

text \<open>After \<open>cnt\<close> bits are cleared, and after one is set.\<close>

definition balloc_credit ::
    "ext4_block_group_ref \<Rightarrow> u32 \<Rightarrow> 'd istate \<Rightarrow> unit res \<times> 'd istate" where
  "balloc_credit ref cnt s =
     (let sb = fs_sb (fst s);
          units = cnt * (ext4_sb_get_block_size sb div EXT4_INODE_BLOCK_SIZE);
          s = (fs_add_free_blocks (ucast cnt) (fst s), snd s)
      in sbind (ir_modify (inode_add_blocks sb (- ucast units)) s) (\<lambda>_ s.
         on_fs (bgr_modify ref (bg_add_free_blocks sb cnt)) s))"

definition balloc_debit :: "ext4_block_group_ref \<Rightarrow> 'd istate \<Rightarrow> unit res \<times> 'd istate" where
  "balloc_debit ref s =
     (let sb = fs_sb (fst s);
          units = ext4_sb_get_block_size sb div EXT4_INODE_BLOCK_SIZE;
          s = (fs_add_free_blocks (- 1) (fst s), snd s)
      in sbind (ir_modify (inode_add_blocks sb (ucast units)) s) (\<lambda>_ s.
         on_fs (bgr_modify ref (bg_add_free_blocks sb (- 1))) s))"

text \<open>Storing a changed bitmap with its checksum and releasing its block.\<close>

definition balloc_save_bitmap ::
    "'d ext4_blockdev_iface \<Rightarrow> ext4_block_group_ref \<Rightarrow> ext4_block \<Rightarrow> u8 list \<Rightarrow> 'd ext4_fs \<Rightarrow> unit res \<times> 'd ext4_fs" where
  "balloc_save_bitmap io ref b bm fs =
     sbind (fs_store b (Inr bm) fs) (\<lambda>_ fs.
     sbind (bgr_modify ref (\<lambda>bg. ext4_balloc_set_bitmap_csum (fs_sb fs) bg bm) fs) (\<lambda>_ fs.
     sbind (fs_set_dirty b fs) (\<lambda>_ fs.
     bgr_guard io ref (fs_block_set io b fs) (\<lambda>_ fs. (Inr (), fs)))))"

definition balloc_bitmap_block ::
    "'d ext4_blockdev_iface \<Rightarrow> ext4_block_group_ref \<Rightarrow> 'd ext4_fs \<Rightarrow> ext4_block res \<times> 'd ext4_fs" where
  "balloc_bitmap_block io ref fs =
     sbind (sread (bgr_load ref) fs) (\<lambda>bg fs.
     bgr_guard io ref (fs_block_get io (ext4_bg_get_block_bitmap bg (fs_sb fs)) fs) (\<lambda>b fs. (Inr b, fs)))"

definition fs_invalidate_lba :: "u64 \<Rightarrow> u32 \<Rightarrow> 'd ext4_fs \<Rightarrow> 'd ext4_fs" where
  "fs_invalidate_lba from cnt fs =
     fs\<lparr> fs_bdev := bc_apply (ext4_bcache_invalidate_lba from cnt) (fs_bdev fs) \<rparr>"

section \<open>Freeing\<close>

definition ext4_balloc_free_block ::
    "'d ext4_blockdev_iface \<Rightarrow> u64 \<Rightarrow> 'd istate \<Rightarrow> unit res \<times> 'd istate" where
  "ext4_balloc_free_block io baddr s =
     (let sb = fs_sb (fst s);
          bg_id = ext4_balloc_get_bgid_of_block sb baddr;
          index_in_group = ext4_fs_addr_to_idx_bg sb baddr
      in sbind (on_fs (ext4_fs_get_block_group_ref io bg_id) s) (\<lambda>ref s.
         sbind (on_fs (balloc_bitmap_block io ref) s) (\<lambda>b s.
         sbind (on_fs (sread (\<lambda>fs. rbind (fs_data b fs) (\<lambda>d. ext4_bmap_bit_clr d index_in_group))) s) (\<lambda>bm s.
         sbind (on_fs (balloc_save_bitmap io ref b bm) s) (\<lambda>_ s.
         sbind (balloc_credit ref 1 s) (\<lambda>_ s.
         on_fs (\<lambda>fs. ext4_fs_put_block_group_ref io (ref\<lparr> bgr_dirty := True \<rparr>) (fs_invalidate_lba baddr 1 fs)) s))))))"

text \<open>
  One group of a range, at \<open>first\<close> with \<open>count\<close> blocks to go: the bits from the index of \<open>first\<close> to the
  end of the bitmap block, or \<open>count\<close> of them. The result is what remains, with the
  code of putting back the reference.
\<close>

definition free_blocks_group ::
    "'d ext4_blockdev_iface \<Rightarrow> u32 \<Rightarrow> u64 \<Rightarrow> u32 \<Rightarrow> 'd istate \<Rightarrow> (u64 \<times> u32 \<times> unit res) res \<times> 'd istate" where
  "free_blocks_group io bgid first cnt s =
     (let sb = fs_sb (fst s);
          idx = ext4_fs_addr_to_idx_bg sb first;
          free_cnt = ext4_sb_get_block_size sb * 8 - idx;
          free_cnt = (if cnt > free_cnt then free_cnt else cnt)
      in sbind (on_fs (ext4_fs_get_block_group_ref io bgid) s) (\<lambda>ref s.
         sbind (on_fs (balloc_bitmap_block io ref) s) (\<lambda>b s.
         sbind (on_fs (sread (\<lambda>fs. rbind (fs_data b fs)
                  (\<lambda>d. ext4_bmap_bits_free CONFIG_UNALIGNED_ACCESS d idx free_cnt))) s) (\<lambda>bm s.
         sbind (on_fs (balloc_save_bitmap io ref b bm) s) (\<lambda>_ s.
         sbind (balloc_credit ref free_cnt s) (\<lambda>_ s.
         case on_fs (ext4_fs_put_block_group_ref io (ref\<lparr> bgr_dirty := True \<rparr>)) s of
           (r, s) \<Rightarrow> (Inr (first + ucast free_cnt, cnt - free_cnt, r), s)))))))"

text \<open>The result is the count left and the code of the last put; a failed put ends the loop.\<close>

fun free_blocks_loop ::
    "nat \<Rightarrow> 'd ext4_blockdev_iface \<Rightarrow> u32 \<Rightarrow> u64 \<Rightarrow> u32 \<Rightarrow> 'd istate \<Rightarrow>
     (u32 \<times> unit res) res \<times> 'd istate" where
  "free_blocks_loop 0 io bgid first cnt s = (Inr (cnt, Inr ()), s)"
| "free_blocks_loop (Suc n) io bgid first cnt s =
     sbind (free_blocks_group io bgid first cnt s) (\<lambda>(first, cnt, rc) s.
       if rc \<noteq> Inr () \<or> n = 0 then (Inr (cnt, rc), s) else free_blocks_loop n io (bgid + 1) first cnt s)"

text \<open>
  The loop runs from the group of the first block to the group of the last. After it the code of the
  last put is overwritten by the (always successful) revocation of each block.
\<close>

definition ext4_balloc_free_blocks ::
    "'d ext4_blockdev_iface \<Rightarrow> u64 \<Rightarrow> u32 \<Rightarrow> 'd istate \<Rightarrow> unit res \<times> 'd istate" where
  "ext4_balloc_free_blocks io first cnt s =
     (let sb = fs_sb (fst s);
          bg_first = ext4_balloc_get_bgid_of_block sb first;
          bg_last = ext4_balloc_get_bgid_of_block sb (first + ucast cnt - 1);
          groups = (if bg_first \<le> bg_last then unat bg_last - unat bg_first + 1 else 0)
      in sbind (free_blocks_loop groups io bg_first first cnt s) (\<lambda>(left, rc) s.
           let s = (fs_invalidate_lba first cnt (fst s), snd s)
           in (if left \<noteq> 0 then Inl EASSERT else if cnt \<noteq> 0 then Inr () else rc, s)))"

section \<open>Allocating\<close>

text \<open>The bits after \<open>i\<close> one at a time.\<close>

fun balloc_near :: "nat \<Rightarrow> u8 list \<Rightarrow> u32 \<Rightarrow> u32 option res" where
  "balloc_near 0 d i = Inr None"
| "balloc_near (Suc n) d i =
     rbind (ext4_bmap_is_bit_clr d i) (\<lambda>clr. if clr then Inr (Some i) else balloc_near n d (i + 1))"

definition balloc_find :: "u8 list \<Rightarrow> u32 \<Rightarrow> u32 \<Rightarrow> u32 option res" where
  "balloc_find d idx blk_in_bg =
     (case ext4_bmap_bit_find_clr CONFIG_UNALIGNED_ACCESS d idx blk_in_bg of
        Inr i \<Rightarrow> Inr (Some i)
      | Inl e \<Rightarrow> if e = ENOSPC then Inr None else Inl e)"

text \<open>The search in the group of the goal: the goal, the rest of its 64-bit stretch, the rest of the group.\<close>

definition balloc_goal_search :: "u8 list \<Rightarrow> u32 \<Rightarrow> u32 \<Rightarrow> u32 option res" where
  "balloc_goal_search d idx blk_in_bg =
     rbind (ext4_bmap_is_bit_clr d idx) (\<lambda>clr.
       if clr then Inr (Some idx)
       else
         let end_idx = (idx + 63) AND NOT 63;
             end_idx = (if end_idx > blk_in_bg then blk_in_bg else end_idx)
         in rbind (balloc_near (unat end_idx - (unat idx + 1)) d (idx + 1)) (\<lambda>r.
              case r of Some i \<Rightarrow> Inr (Some i) | None \<Rightarrow> balloc_find d idx blk_in_bg))"

text \<open>
  One group: search its bitmap; a found bit is set and the bitmap saved, else its block is released. The
  reference stays held.
\<close>

definition balloc_group ::
    "'d ext4_blockdev_iface \<Rightarrow> ext4_block_group_ref \<Rightarrow> (u8 list \<Rightarrow> u32 option res) \<Rightarrow> 'd ext4_fs \<Rightarrow>
     u32 option res \<times> 'd ext4_fs" where
  "balloc_group io ref search fs =
     sbind (balloc_bitmap_block io ref fs) (\<lambda>b fs.
     sbind (sread (fs_data b) fs) (\<lambda>d fs.
     sbind (search d, fs) (\<lambda>r fs.
       case r of
         Some i \<Rightarrow>
           sbind (ext4_bmap_bit_set d i, fs) (\<lambda>bm fs.
           sbind (balloc_save_bitmap io ref b bm fs) (\<lambda>_ fs. (Inr (Some i), fs)))
       | None \<Rightarrow> bgr_guard io ref (fs_block_set io b fs) (\<lambda>_ fs. (Inr None, fs)))))"

definition balloc_idx_from :: "ext4_sblock \<Rightarrow> u32 \<Rightarrow> u32 \<Rightarrow> u32" where
  "balloc_idx_from sb bgid idx =
     (let first_in_bg_index = ext4_fs_addr_to_idx_bg sb (ext4_balloc_get_block_of_bgid sb bgid)
      in if idx < first_in_bg_index then first_in_bg_index else idx)"

text \<open>The other groups in turn; the result is a held reference and the address taken, or nothing.\<close>

fun balloc_other_groups ::
    "nat \<Rightarrow> 'd ext4_blockdev_iface \<Rightarrow> u32 \<Rightarrow> 'd ext4_fs \<Rightarrow> (ext4_block_group_ref \<times> u64) option res \<times> 'd ext4_fs" where
  "balloc_other_groups 0 io bgid fs = (Inr None, fs)"
| "balloc_other_groups (Suc n) io bgid fs =
     (let sb = fs_sb fs
      in sbind (ext4_fs_get_block_group_ref io bgid fs) (\<lambda>ref fs.
         sbind (sread (bgr_load ref) fs) (\<lambda>bg fs.
         sbind (if ext4_bg_get_free_blocks_count bg sb = 0 then (Inr None, fs)
                else
                  let first = ext4_balloc_get_block_of_bgid sb bgid;
                      idx = balloc_idx_from sb bgid (ext4_fs_addr_to_idx_bg sb first)
                  in balloc_group io ref (\<lambda>d. balloc_find d idx (ext4_blocks_in_group_cnt sb bgid)) fs) (\<lambda>r fs.
           case r of
             Some i \<Rightarrow> (Inr (Some (ref, ext4_fs_bg_idx_to_addr sb i bgid)), fs)
           | None \<Rightarrow>
               sbind (ext4_fs_put_block_group_ref io ref fs) (\<lambda>_ fs.
               balloc_other_groups n io ((bgid + 1) mod ext4_block_group_cnt sb) fs)))))"

definition balloc_search ::
    "'d ext4_blockdev_iface \<Rightarrow> u64 \<Rightarrow> 'd ext4_fs \<Rightarrow> (ext4_block_group_ref \<times> u64) option res \<times> 'd ext4_fs" where
  "balloc_search io goal fs =
     (let sb = fs_sb fs;
          bg_id = ext4_balloc_get_bgid_of_block sb goal;
          idx_in_bg = ext4_fs_addr_to_idx_bg sb goal
      in sbind (ext4_fs_get_block_group_ref io bg_id fs) (\<lambda>ref fs.
         sbind (sread (bgr_load ref) fs) (\<lambda>bg fs.
         sbind (if ext4_bg_get_free_blocks_count bg sb = 0 then (Inr None, fs)
                else balloc_group io ref
                       (\<lambda>d. balloc_goal_search d (balloc_idx_from sb bg_id idx_in_bg)
                              (ext4_blocks_in_group_cnt sb bg_id)) fs) (\<lambda>r fs.
           case r of
             Some i \<Rightarrow> (Inr (Some (ref, ext4_fs_bg_idx_to_addr sb i bg_id)), fs)
           | None \<Rightarrow>
               sbind (ext4_fs_put_block_group_ref io ref fs) (\<lambda>_ fs.
               let n = ext4_block_group_cnt sb
               in balloc_other_groups (unat n) io ((bg_id + 1) mod n) fs)))))"

text \<open>
  Where a block is found, \<open>*fblock\<close> is set whatever the code of putting back the group is: the two are the result
  of \<open>balloc_alloc_out\<close>. A caller that looks at the code alone sees \<open>ext4_balloc_alloc_block\<close>.
\<close>

definition balloc_alloc_out ::
    "'d ext4_blockdev_iface \<Rightarrow> u64 \<Rightarrow> 'd istate \<Rightarrow> (u64 \<times> unit res) res \<times> 'd istate" where
  "balloc_alloc_out io goal s =
     sbind (on_fs (balloc_search io goal) s) (\<lambda>r s.
       case r of
         None \<Rightarrow> (Inl ENOSPC, s)
       | Some (ref, alloc) \<Rightarrow>
           sbind (balloc_debit ref s) (\<lambda>_ s.
           case on_fs (ext4_fs_put_block_group_ref io (ref\<lparr> bgr_dirty := True \<rparr>)) s of
             (r, s) \<Rightarrow> (Inr (alloc, r), s)))"

definition ext4_balloc_alloc_block ::
    "'d ext4_blockdev_iface \<Rightarrow> u64 \<Rightarrow> 'd istate \<Rightarrow> u64 res \<times> 'd istate" where
  "ext4_balloc_alloc_block io goal s =
     sbind (balloc_alloc_out io goal s) (\<lambda>(alloc, r) s. sbind (r, s) (\<lambda>_ s. (Inr alloc, s)))"

text \<open>The result says whether the block was free.\<close>

definition ext4_balloc_try_alloc_block ::
    "'d ext4_blockdev_iface \<Rightarrow> u64 \<Rightarrow> 'd istate \<Rightarrow> bool res \<times> 'd istate" where
  "ext4_balloc_try_alloc_block io baddr s =
     (let sb = fs_sb (fst s);
          block_group = ext4_balloc_get_bgid_of_block sb baddr;
          index_in_group = ext4_fs_addr_to_idx_bg sb baddr
      in sbind (on_fs (ext4_fs_get_block_group_ref io block_group) s) (\<lambda>ref s.
         sbind (on_fs (balloc_group io ref (\<lambda>d. rbind (ext4_bmap_is_bit_clr d index_in_group)
                  (\<lambda>clr. Inr (if clr then Some index_in_group else None)))) s) (\<lambda>r s.
           if r \<noteq> None then
             sbind (balloc_debit ref s) (\<lambda>_ s.
             sbind (on_fs (ext4_fs_put_block_group_ref io (ref\<lparr> bgr_dirty := True \<rparr>)) s) (\<lambda>_ s.
             (Inr True, s)))
           else
             sbind (on_fs (ext4_fs_put_block_group_ref io ref) s) (\<lambda>_ s. (Inr False, s)))))"

end
