(* ===== verification/BlockStore.thy ===== *)
theory BlockStore
  imports Fs
begin

text \<open>
  What the file system layers rely on from the block layer, as the locale \<open>block_store\<close>: an array of
  blocks with holder counts, read and changed through \<^verbatim>\<open>ext4_block_get\<close>, the pointer of a held
  buffer, \<^verbatim>\<open>ext4_trans_set_block_dirty\<close> and \<^verbatim>\<open>ext4_block_set\<close>. Every device that meets
  \<open>block_device\<close> gives a block store (the \<open>sublocale\<close> below). On top of it the rules by which an
  operation of \<^verbatim>\<open>ext4_fs.c\<close> is followed step by step.
\<close>

section \<open>The interface\<close>

text \<open>
  The blocks, the holders of each, the blocks edited and not marked dirty yet, the number of gets the
  32-bit counters of the cache still allow, and the geometry.
\<close>

record store =
  st_view :: "u64 \<Rightarrow> u8 list"
  st_refs :: "u64 \<Rightarrow> nat"
  st_pend :: "u64 set"
  st_room :: nat
  st_cnt :: u64
  st_bsize :: nat

definition st_get :: "u64 \<Rightarrow> store \<Rightarrow> store" where
  "st_get l s = s\<lparr> st_refs := (st_refs s)(l := st_refs s l + 1), st_room := st_room s - 1 \<rparr>"

definition st_edit :: "u64 \<Rightarrow> u8 list \<Rightarrow> store \<Rightarrow> store" where
  "st_edit l d s = s\<lparr> st_view := (st_view s)(l := d), st_pend := insert l (st_pend s) \<rparr>"

definition st_dirty :: "u64 \<Rightarrow> store \<Rightarrow> store" where
  "st_dirty l s = s\<lparr> st_pend := st_pend s - {l} \<rparr>"

definition st_set :: "u64 \<Rightarrow> store \<Rightarrow> store" where
  "st_set l s = s\<lparr> st_refs := (st_refs s)(l := st_refs s l - 1) \<rparr>"

named_theorems store_simps \<open>the fields of a block store after each operation\<close>

lemma st_simps [store_simps]:
  "st_view (st_get l s) = st_view s" "st_refs (st_get l s) k = (if k = l then st_refs s l + 1 else st_refs s k)"
  "st_pend (st_get l s) = st_pend s" "st_room (st_get l s) = st_room s - 1"
  "st_view (st_edit l d s) k = (if k = l then d else st_view s k)" "st_refs (st_edit l d s) = st_refs s"
  "st_pend (st_edit l d s) = insert l (st_pend s)" "st_room (st_edit l d s) = st_room s"
  "st_view (st_dirty l s) = st_view s" "st_refs (st_dirty l s) = st_refs s"
  "st_pend (st_dirty l s) = st_pend s - {l}" "st_room (st_dirty l s) = st_room s"
  "st_view (st_set l s) = st_view s" "st_refs (st_set l s) k = (if k = l then st_refs s l - 1 else st_refs s k)"
  "st_pend (st_set l s) = st_pend s" "st_room (st_set l s) = st_room s"
  "st_cnt (st_get l s) = st_cnt s" "st_cnt (st_edit l d s) = st_cnt s" "st_cnt (st_dirty l s) = st_cnt s"
  "st_cnt (st_set l s) = st_cnt s" "st_bsize (st_get l s) = st_bsize s" "st_bsize (st_edit l d s) = st_bsize s"
  "st_bsize (st_dirty l s) = st_bsize s" "st_bsize (st_set l s) = st_bsize s"
  by (simp_all add: st_get_def st_edit_def st_dirty_def st_set_def)

text \<open>Reading: what a client that changes nothing relies on.\<close>

locale block_reader =
  fixes io :: "'d ext4_blockdev_iface" and rep :: "'d ext4_blockdev \<Rightarrow> store \<Rightarrow> bool"
  assumes store_get:
    "\<lbrakk> rep bd s; l < st_cnt s; st_room s \<noteq> 0 \<rbrakk> \<Longrightarrow>
     \<exists>bd'. ext4_block_get io l bd = (Inr \<lparr> b_lb_id = l, b_buf = Some l \<rparr>, bd') \<and> rep bd' (st_get l s)"
  and store_data:
    "\<lbrakk> rep bd s; st_refs s l \<noteq> 0 \<rbrakk> \<Longrightarrow>
     \<exists>b. ext4_buf_lookup (bd_bc bd) l = Some b \<and> buf_data b = st_view s l"
  and store_held: "\<lbrakk> rep bd s; st_refs s l \<noteq> 0 \<rbrakk> \<Longrightarrow> l < st_cnt s"
  and store_length: "\<lbrakk> rep bd s; l < st_cnt s \<rbrakk> \<Longrightarrow> length (st_view s l) = st_bsize s"
  and store_set:
    "\<lbrakk> rep bd s; st_refs s l \<noteq> 0; l \<noteq> 0; l \<notin> st_pend s \<rbrakk> \<Longrightarrow>
     \<exists>bd'. ext4_block_set io \<lparr> b_lb_id = l, b_buf = Some l \<rparr> bd = (Inr (), bd') \<and> rep bd' (st_set l s)"

locale block_store = block_reader io rep
  for io :: "'d ext4_blockdev_iface" and rep :: "'d ext4_blockdev \<Rightarrow> store \<Rightarrow> bool" +
  assumes store_edit:
    "\<lbrakk> rep bd s; st_refs s l \<noteq> 0; length d = st_bsize s \<rbrakk> \<Longrightarrow> rep (blk_edit l d bd) (st_edit l d s)"
  and store_dirty:
    "\<lbrakk> rep bd s; st_refs s l \<noteq> 0 \<rbrakk> \<Longrightarrow> rep (ext4_trans_set_block_dirty l bd) (st_dirty l s)"
  and store_invalidate:
    "\<lbrakk> rep bd s; unat from + unat cnt < 2 ^ 64; cnt \<noteq> 0;
       \<And>k. from \<le> k \<Longrightarrow> unat k < unat from + unat cnt \<Longrightarrow> st_refs s k = 0 \<rbrakk> \<Longrightarrow>
     \<exists>v. (\<forall>k. \<not> (from \<le> k \<and> unat k < unat from + unat cnt) \<longrightarrow> v k = st_view s k) \<and>
       rep (bc_apply (ext4_bcache_invalidate_lba from cnt) bd) (s\<lparr> st_view := v \<rparr>)"

section \<open>Every block device gives a block store\<close>

definition store_abs :: "('d \<Rightarrow> u8 list) \<Rightarrow> 'd ext4_blockdev \<Rightarrow> store \<Rightarrow> bool" where
  "store_abs content bd s \<longleftrightarrow>
     blk_ready content (st_pend s) bd \<and> bd_lg_bcnt bd = st_cnt s \<and> unat (bd_lg_bsize bd) = st_bsize s \<and>
     (\<forall>l < st_cnt s. blk_view content bd l = st_view s l) \<and> (\<forall>l. blk_refs bd l = st_refs s l) \<and>
     unat (bc_lru_ctr (bd_bc bd)) + st_room s < 2 ^ 32 \<and> unat (bc_ref_blocks (bd_bc bd)) + st_room s < 2 ^ 32 \<and>
     (\<forall>l. st_refs s l + st_room s < 2 ^ 32)"

lemma store_abs_blk_view:
  assumes "cache_coh content bd" and "l < bd_lg_bcnt bd"
  shows "length (blk_view content bd l) = unat (bd_lg_bsize bd)"
proof (cases "ext4_buf_lookup (bd_bc bd) l")
  case None
  with blk_in_range(1) [OF cache_cohD(3) [OF assms(1)] assms(2)] show ?thesis
    by (simp add: blk_view_def blk_disk_def)
next
  case (Some b)
  have "length (buf_data b) = unat (bd_lg_bsize bd)"
    using bc_wfD(10) [OF cache_cohD(1) [OF assms(1)] Some] cache_cohD(3) [OF assms(1)] by (simp add: cache_geom_def)
  with Some blk_in_range(1) [OF cache_cohD(3) [OF assms(1)] assms(2)] show ?thesis
    by (simp add: blk_view_def blk_disk_def)
qed

lemma store_abs_room:
  assumes "store_abs content bd s" and "st_room s \<noteq> 0"
  shows "cache_room bd l"
  using assms
  by (auto simp: store_abs_def cache_room_def word_less_nat_alt unat_max32 dest: spec [where x = l])

text \<open>Invalidating an unheld buffer drops its bytes, so the block reads as on the device again.\<close>

definition drop_post :: "('d \<Rightarrow> u8 list) \<Rightarrow> u64 set \<Rightarrow> 'd ext4_blockdev \<Rightarrow> 'd ext4_blockdev \<Rightarrow> bool" where
  "drop_post content L bd bd' \<longleftrightarrow>
     cache_coh content bd' \<and> bd_frame bd bd' \<and> content (bd_dev bd') = content (bd_dev bd) \<and>
     (\<forall>K. dirty_queued K bd \<longrightarrow> dirty_queued K bd') \<and> (\<forall>P. synced content P bd \<longrightarrow> synced content P bd') \<and>
     (\<forall>l. blk_refs bd' l = blk_refs bd l) \<and>
     (\<forall>l. l \<notin> L \<longrightarrow> ext4_buf_lookup (bd_bc bd') l = ext4_buf_lookup (bd_bc bd) l) \<and>
     (\<forall>l b. ext4_buf_lookup (bd_bc bd') l = Some b \<and> buf_refctr b \<noteq> 0 \<longrightarrow> ext4_buf_lookup (bd_bc bd) l = Some b) \<and>
     bc_lru_ctr (bd_bc bd') = bc_lru_ctr (bd_bc bd) \<and> bc_ref_blocks (bd_bc bd') = bc_ref_blocks (bd_bc bd)"

lemma drop_postD:
  assumes "drop_post content L bd bd'"
  shows "cache_coh content bd'" "bd_frame bd bd'" "content (bd_dev bd') = content (bd_dev bd)"
    "dirty_queued K bd \<Longrightarrow> dirty_queued K bd'" "synced content P bd \<Longrightarrow> synced content P bd'"
    "blk_refs bd' l = blk_refs bd l" "l \<notin> L \<Longrightarrow> ext4_buf_lookup (bd_bc bd') l = ext4_buf_lookup (bd_bc bd) l"
    "ext4_buf_lookup (bd_bc bd') l = Some b \<Longrightarrow> buf_refctr b \<noteq> 0 \<Longrightarrow> ext4_buf_lookup (bd_bc bd) l = Some b"
    "bc_lru_ctr (bd_bc bd') = bc_lru_ctr (bd_bc bd)" "bc_ref_blocks (bd_bc bd') = bc_ref_blocks (bd_bc bd)"
  using assms unfolding drop_post_def by blast+

lemma drop_post_trans:
  assumes a: "drop_post content L x y" and b: "drop_post content M y z"
  shows "drop_post content (L \<union> M) x z"
  unfolding drop_post_def
proof (intro conjI allI impI)
  show "bd_frame x z" using drop_postD(2) [OF a] drop_postD(2) [OF b] by (rule bd_frame_trans)
  show "cache_coh content z" by (rule drop_postD(1) [OF b])
  fix l assume "l \<notin> L \<union> M"
  then show "ext4_buf_lookup (bd_bc z) l = ext4_buf_lookup (bd_bc x) l"
    using drop_postD(7) [OF a] drop_postD(7) [OF b] by simp
next
  fix l c assume "ext4_buf_lookup (bd_bc z) l = Some c \<and> buf_refctr c \<noteq> 0"
  then show "ext4_buf_lookup (bd_bc x) l = Some c" by (intro drop_postD(8) [OF a] drop_postD(8) [OF b]) simp_all
qed (simp_all add: drop_postD(3-6,9,10) [OF a] drop_postD(3-6,9,10) [OF b])

lemma drop_post_mono: "drop_post content L a b \<Longrightarrow> L \<subseteq> M \<Longrightarrow> drop_post content M a b"
  unfolding drop_post_def by blast

lemma invalidate_buf_ok:
  assumes c: "cache_coh content bd" and l: "ext4_buf_lookup (bd_bc bd) l = Some b" and r: "buf_refctr b = 0"
  shows "drop_post content {l} bd (bc_apply (ext4_bcache_invalidate_buf b) bd)"
proof -
  note wf = cache_cohD(1) [OF c] and lb = lookup_lba [OF l]
  let ?clr = "b\<lparr> buf_end_write := None \<rparr>"
  let ?bcl = "buf_update l (\<lambda>x. x\<lparr> buf_end_write := None \<rparr>) (bd_bc bd)"
  define bc1 where "bc1 = (if BC_DIRTY \<in> buf_flags b then ext4_bcache_remove_dirty_node b ?bcl else ?bcl)"
  let ?b = "b\<lparr> buf_end_write := None, buf_on_dirty_list := False, buf_flags := buf_flags b - {BC_UPTODATE} - {BC_DIRTY} \<rparr>"
  let ?bd' = "bc_apply (ext4_bcache_invalidate_buf b) bd"
  have bc': "bd_bc ?bd' = buf_update l ext4_bcache_clear_dirty bc1"
    by (simp add: ext4_bcache_invalidate_buf_def lb ext4_bcache_test_flag_def bc1_def)
  have wf0: "bc_wf ?bcl" by (rule bc_wf_update [OF wf]) (use bc_wfD(5) [OF wf l] l in auto)
  have l0: "ext4_buf_lookup ?bcl k = (if k = l then Some ?clr else ext4_buf_lookup (bd_bc bd) k)" for k
    using l by simp
  have same: "ext4_bcache_remove_dirty_node b = ext4_bcache_remove_dirty_node ?clr"
    by (simp add: fun_eq_iff ext4_bcache_remove_dirty_node_def)
  have on: "buf_on_dirty_list b \<Longrightarrow> BC_DIRTY \<in> buf_flags b" using bc_wfD(5) [OF wf l] by simp
  have l1: "ext4_buf_lookup bc1 k =
      (if k = l then Some (?clr\<lparr> buf_on_dirty_list := False \<rparr>) else ext4_buf_lookup (bd_bc bd) k)" for k
  proof (cases "BC_DIRTY \<in> buf_flags b")
    case True
    with lookup_remove_dirty [of ?bcl l ?clr] l0 show ?thesis unfolding same bc1_def by simp
  next
    case False
    then have "?clr\<lparr> buf_on_dirty_list := False \<rparr> = ?clr" using on by (cases b) auto
    with False l0 show ?thesis by (simp add: bc1_def)
  qed
  have wf1: "bc_wf bc1" using wf_remove_dirty [of ?bcl l ?clr] wf0 l0 unfolding same bc1_def by simp
  have look: "ext4_buf_lookup (bd_bc ?bd') k = (if k = l then Some ?b else ext4_buf_lookup (bd_bc bd) k)" for k
    unfolding bc' by (simp add: l1 ext4_bcache_clear_dirty_def ext4_bcache_clear_flag_def)
  have wf': "bc_wf (bd_bc ?bd')" unfolding bc'
    by (rule bc_wf_update [OF wf1])
       (use l1 [of l] in \<open>auto simp: ext4_bcache_clear_dirty_def ext4_bcache_clear_flag_def\<close>)
  have fr: "bd_frame bd ?bd'"
    by (rule bd_frame_apply)
       (simp_all add: ext4_bcache_invalidate_buf_def ext4_bcache_remove_dirty_node_def Let_def)
  have dev: "content (bd_dev ?bd') = content (bd_dev bd)" by simp
  have "cache_coh content ?bd'"
    by (rule cache_coh_change [OF c fr dev wf' look]) (use cache_cohD(4) [OF c l] in \<open>auto simp: buf_coh_def\<close>)
  moreover have "dirty_queued K ?bd'" if "dirty_queued K bd" for K
    using that look by (rule dirty_queued_change) auto
  moreover have "synced content P ?bd'" if "synced content P bd" for P
    using that unfolding synced_def look blk_disk_frame [OF fr dev] by auto
  moreover have "blk_refs ?bd' k = blk_refs bd k" for k unfolding blk_refs_def look using l by simp
  moreover have "bc_lru_ctr (bd_bc ?bd') = bc_lru_ctr (bd_bc bd)" "bc_ref_blocks (bd_bc ?bd') = bc_ref_blocks (bd_bc bd)"
    by (simp_all add: ext4_bcache_invalidate_buf_def Let_def)
  ultimately show ?thesis using fr dev r look unfolding drop_post_def by auto
qed

lemma invalidate_bufs_ok:
  assumes "cache_coh content bd" and "distinct (map buf_lba bs)"
    and "\<And>b. b \<in> set bs \<Longrightarrow> ext4_buf_lookup (bd_bc bd) (buf_lba b) = Some b \<and> buf_refctr b = 0"
  shows "drop_post content (buf_lba ` set bs) bd (bc_apply (fold ext4_bcache_invalidate_buf bs) bd)"
  using assms
proof (induction bs arbitrary: bd)
  case Nil
  then show ?case by (simp add: drop_post_def bc_apply_def)
next
  case (Cons b bs)
  let ?bd1 = "bc_apply (ext4_bcache_invalidate_buf b) bd"
  have 1: "drop_post content {buf_lba b} bd ?bd1" using Cons.prems by (intro invalidate_buf_ok) auto
  note c = drop_postD(1) [OF 1]
  have "ext4_buf_lookup (bd_bc ?bd1) (buf_lba x) = Some x \<and> buf_refctr x = 0" if x: "x \<in> set bs" for x
  proof -
    have "buf_lba x \<in> buf_lba ` set bs" using x by simp
    with Cons.prems(2) have "buf_lba x \<noteq> buf_lba b" by auto
    then have "ext4_buf_lookup (bd_bc ?bd1) (buf_lba x) = ext4_buf_lookup (bd_bc bd) (buf_lba x)"
      by (intro drop_postD(7) [OF 1]) simp
    with Cons.prems(3) [of x] x show ?thesis by simp
  qed
  from Cons.IH [OF c _ this] Cons.prems(2)
  have "drop_post content (buf_lba ` set bs) ?bd1 (bc_apply (fold ext4_bcache_invalidate_buf bs) ?bd1)" by simp
  from drop_post_trans [OF 1 this] show ?case by (simp add: bc_apply_def)
qed

lemma invalidate_lba_ok:
  assumes c: "cache_coh content bd" and e: "unat from + unat cnt < 2 ^ 64" "cnt \<noteq> 0"
    and r: "\<And>k. from \<le> k \<Longrightarrow> unat k < unat from + unat cnt \<Longrightarrow> blk_refs bd k = 0"
  shows "drop_post content {k. from \<le> k \<and> unat k < unat from + unat cnt} bd
    (bc_apply (ext4_bcache_invalidate_lba from cnt) bd)"
proof (cases "ext4_buf_lookup (bd_bc bd) from")
  case None
  with c show ?thesis by (simp add: ext4_bcache_invalidate_lba_def drop_post_def bc_apply_def)
next
  case (Some b0)
  note wf = cache_cohD(1) [OF c] and srt = bc_wfD(1) [OF cache_cohD(1) [OF c]]
  let ?root = "bc_lba_root (bd_bc bd)" and ?stop = "from + ucast cnt - 1 :: u64"
  let ?d = "dropWhile (\<lambda>b. buf_lba b \<noteq> from) ?root"
  let ?bs = "takeWhile (\<lambda>b. \<not> buf_lba b > ?stop) ?d"
  have "unat (from + ucast cnt) = unat from + unat cnt"
    using e(1) by (subst unat_add_le) (simp_all add: unat_ucast_up)
  moreover have "from + ucast cnt \<noteq> (0 :: u64)"
    using calculation e(2) by (metis add_is_0 unat_eq_zero)
  ultimately have en: "unat ?stop = unat from + unat cnt - 1" by (simp add: unat_dec)
  have cnt: "unat cnt \<noteq> 0" using e(2) by (simp add: unat_eq_zero)
  have dpre: "\<exists>ys. ?root = ys @ ?d" by (metis takeWhile_dropWhile_id)
  then obtain ys where ys: "?root = ys @ ?d" ..
  have sd: "sorted_wrt (<) (map buf_lba ?d)" using srt by (subst (asm) ys) (simp add: sorted_wrt_append)
  have ne: "?d \<noteq> []" using Some by (auto simp: dropWhile_eq_Nil_conv ext4_buf_lookup_def find_Some_iff)
  then have hd: "buf_lba (hd ?d) = from" using hd_dropWhile [of "\<lambda>b. buf_lba b \<noteq> from" ?root] by simp
  have ge: "from \<le> buf_lba b" if "b \<in> set ?d" for b
  proof -
    obtain x xs where d: "?d = x # xs" using ne by (cases ?d) auto
    show ?thesis using that sd hd unfolding d by (auto intro: less_imp_le)
  qed
  have inb: "b \<in> set ?d \<and> buf_lba b \<le> ?stop" if "b \<in> set ?bs" for b
    using set_takeWhileD [OF that] by (simp add: not_less)
  have rng: "from \<le> buf_lba b \<and> unat (buf_lba b) < unat from + unat cnt" if "b \<in> set ?bs" for b
    using inb [OF that] ge en cnt by (auto simp: word_le_nat_alt)
  have root: "b \<in> set ?root" if "b \<in> set ?bs" for b using inb [OF that] by (metis set_dropWhileD)
  have look: "ext4_buf_lookup (bd_bc bd) (buf_lba b) = Some b" if "b \<in> set ?bs" for b
    using lookup_mem [OF srt, of "buf_lba b" b] root [OF that] by simp
  have ref: "buf_refctr b = 0" if "b \<in> set ?bs" for b
    using r [of "buf_lba b"] rng [OF that] look [OF that] by (simp add: blk_refs_def word_unat_eq_iff)
  have "distinct (map buf_lba ?d)" using sd by (simp add: strict_sorted_iff)
  then have "distinct (map buf_lba ?bs)"
    by (metis distinct_append map_append takeWhile_dropWhile_id)
  from invalidate_bufs_ok [OF c this] look ref
  have "drop_post content (buf_lba ` set ?bs) bd (bc_apply (fold ext4_bcache_invalidate_buf ?bs) bd)" by blast
  moreover have "buf_lba ` set ?bs \<subseteq> {k. from \<le> k \<and> unat k < unat from + unat cnt}" using rng by auto
  moreover have "bc_apply (ext4_bcache_invalidate_lba from cnt) bd = bc_apply (fold ext4_bcache_invalidate_buf ?bs) bd"
    by (simp add: ext4_bcache_invalidate_lba_def Some bc_apply_def Let_def)
  ultimately show ?thesis by (metis (no_types, lifting) drop_post_mono)
qed

lemma drop_post_held_uptodate: "drop_post content L bd bd' \<Longrightarrow> held_uptodate bd \<Longrightarrow> held_uptodate bd'"
  unfolding held_uptodate_def using drop_postD(8) by blast

context block_device begin

lemma store_abs_step:
  assumes a: "store_abs content bd s" and st: "blk_step io bd act bd'" and p: "pend_ok act (st_pend s)"
    and pe: "st_pend s' = pend_step act (st_pend s)" and cnt: "st_cnt s' = st_cnt s" "st_bsize s' = st_bsize s"
    and v: "\<And>l. l < st_cnt s \<Longrightarrow> st_view s' l = arr_step act (st_view s) l"
    and r: "\<And>l. st_refs s' l = refs_step act (st_refs s) l"
    and room: "unat (bc_lru_ctr (bd_bc bd')) + st_room s' < 2 ^ 32" "unat (bc_ref_blocks (bd_bc bd')) + st_room s' < 2 ^ 32"
      "\<And>l. st_refs s' l + st_room s' < 2 ^ 32"
  shows "store_abs content bd' s'"
proof -
  have rd: "blk_ready content (st_pend s) bd" using a by (simp add: store_abs_def)
  note f = step_refines [OF st rd p]
  have "blk_view content bd' l = st_view s' l" if l: "l < st_cnt s" for l
  proof -
    have "blk_view content bd' l = arr_step act (blk_view content bd) l"
      using f(3) a l by (simp add: store_abs_def)
    also have "\<dots> = arr_step act (st_view s) l" using a l by (cases act) (auto simp: store_abs_def)
    finally show ?thesis using v l by simp
  qed
  moreover have "blk_refs bd = st_refs s" using a by (simp add: store_abs_def fun_eq_iff)
  ultimately show ?thesis
    using a f room r pe cnt unfolding store_abs_def by (simp add: bd_frame_def)
qed

lemma store_abs_get:
  assumes a: "store_abs content bd s" and l: "l < st_cnt s" and n: "st_room s \<noteq> 0"
  shows "\<exists>bd'. ext4_block_get io l bd = (Inr \<lparr> b_lb_id = l, b_buf = Some l \<rparr>, bd') \<and> store_abs content bd' (st_get l s)"
proof -
  note room = store_abs_room [OF a n, of l]
  have c: "cache_coh content bd" and l': "l < bd_lg_bcnt bd" using a l by (auto simp: store_abs_def dest: blk_readyD)
  from get_ok [OF c l' room] obtain bd' where
    1: "ext4_block_get io l bd = (Inr \<lparr> b_lb_id = l, b_buf = Some l \<rparr>, bd')" "get_post content l bd bd'" by blast
  have rk: "st_refs s k + st_room s < 2 ^ 32" for k using a by (simp add: store_abs_def)
  have q: "unat (bc_lru_ctr (bd_bc bd)) + st_room s < 2 ^ 32" "unat (bc_ref_blocks (bd_bc bd)) + st_room s < 2 ^ 32"
    using a by (simp_all add: store_abs_def)
  have g: "unat (bc_lru_ctr (bd_bc bd')) \<le> unat (bc_lru_ctr (bd_bc bd)) + 1"
    "unat (bc_ref_blocks (bd_bc bd')) \<le> unat (bc_ref_blocks (bd_bc bd)) + 1"
    using 1(2) by (simp_all add: get_post_def)
  have bound: "unat (bc_lru_ctr (bd_bc bd')) + (st_room s - 1) < 2 ^ 32"
    "unat (bc_ref_blocks (bd_bc bd')) + (st_room s - 1) < 2 ^ 32"
    "(if k = l then st_refs s l + 1 else st_refs s k) + (st_room s - 1) < 2 ^ 32" for k
    using q g n rk [of k] rk [of l] by auto
  have "store_abs content bd' (st_get l s)"
    by (rule store_abs_step [OF a blk_step.get [OF 1(1) l' room]])
       (use bound in \<open>auto simp: store_simps\<close>)
  with 1(1) show ?thesis by blast
qed

lemma store_abs_set:
  assumes a: "store_abs content bd s" and r: "st_refs s l \<noteq> 0" and l: "l \<noteq> 0" "l \<notin> st_pend s"
  shows "\<exists>bd'. ext4_block_set io \<lparr> b_lb_id = l, b_buf = Some l \<rparr> bd = (Inr (), bd') \<and> store_abs content bd' (st_set l s)"
proof -
  have rd: "blk_ready content (st_pend s) bd" and r': "blk_refs bd l \<noteq> 0" using a r by (simp_all add: store_abs_def)
  note c = blk_readyD [OF rd]
  from set_ok [OF c(1,2) r' l(1)] c(3) l(2) obtain bd' where
    1: "ext4_block_set io \<lparr> b_lb_id = l, b_buf = Some l \<rparr> bd = (Inr (), bd')" "set_post content l bd bd'"
    by (auto simp: synced_def)
  have b: "unat (bc_ref_blocks (bd_bc bd')) \<le> unat (bc_ref_blocks (bd_bc bd))"
    using 1(2) by (simp add: set_post_def word_le_nat_alt)
  have rk: "st_refs s k + st_room s < 2 ^ 32" for k using a by (simp add: store_abs_def)
  have q: "unat (bc_lru_ctr (bd_bc bd)) + st_room s < 2 ^ 32" "unat (bc_ref_blocks (bd_bc bd)) + st_room s < 2 ^ 32"
    using a by (simp_all add: store_abs_def)
  have g: "bc_lru_ctr (bd_bc bd') = bc_lru_ctr (bd_bc bd)" using 1(2) by (simp add: set_post_def)
  have bound: "unat (bc_lru_ctr (bd_bc bd')) + st_room s < 2 ^ 32" "unat (bc_ref_blocks (bd_bc bd')) + st_room s < 2 ^ 32"
    "(if k = l then st_refs s l - 1 else st_refs s k) + st_room s < 2 ^ 32" for k
    using q b g rk [of k] rk [of l] by auto
  have "store_abs content bd' (st_set l s)"
    by (rule store_abs_step [OF a blk_step.set [OF 1(1) l(1) r']])
       (use bound l(2) in \<open>auto simp: store_simps\<close>)
  with 1(1) show ?thesis by blast
qed

lemma store_abs_edit:
  assumes a: "store_abs content bd s" and r: "st_refs s l \<noteq> 0" and n: "length d = st_bsize s"
  shows "store_abs content (blk_edit l d bd) (st_edit l d s)"
proof (rule store_abs_step [OF a blk_step.edit])
  show "blk_refs bd l \<noteq> 0" "length d = unat (bd_lg_bsize bd)" using a r n by (simp_all add: store_abs_def)
qed (use a in \<open>auto simp: store_simps store_abs_def blk_edit_def\<close>)

lemma store_abs_dirty:
  assumes a: "store_abs content bd s" and r: "st_refs s l \<noteq> 0"
  shows "store_abs content (ext4_trans_set_block_dirty l bd) (st_dirty l s)"
proof (rule store_abs_step [OF a blk_step.dirty])
  show "blk_refs bd l \<noteq> 0" using a r by (simp add: store_abs_def)
qed (use a in \<open>auto simp: store_simps store_abs_def ext4_trans_set_block_dirty_def\<close>)

end

lemma store_abs_invalidate:
  assumes a: "store_abs content bd s" and e: "unat from + unat cnt < 2 ^ 64" "cnt \<noteq> 0"
    and r: "\<And>k. from \<le> k \<Longrightarrow> unat k < unat from + unat cnt \<Longrightarrow> st_refs s k = 0"
  shows "\<exists>v. (\<forall>k. \<not> (from \<le> k \<and> unat k < unat from + unat cnt) \<longrightarrow> v k = st_view s k) \<and>
    store_abs content (bc_apply (ext4_bcache_invalidate_lba from cnt) bd) (s\<lparr> st_view := v \<rparr>)"
proof -
  have rd: "blk_ready content (st_pend s) bd" using a by (simp add: store_abs_def)
  let ?bd' = "bc_apply (ext4_bcache_invalidate_lba from cnt) bd"
  let ?L = "{k. from \<le> k \<and> unat k < unat from + unat cnt}"
  have "drop_post content ?L bd ?bd'"
    by (rule invalidate_lba_ok [OF blk_readyD(1) [OF rd] e]) (use a r in \<open>simp add: store_abs_def\<close>)
  note p = drop_postD [OF this]
  let ?v = "\<lambda>k. if k \<in> ?L then blk_view content ?bd' k else st_view s k"
  have view: "blk_view content ?bd' k = blk_view content bd k" if "k \<notin> ?L" for k
    unfolding blk_view_def p(7) [OF that] blk_disk_frame [OF p(2,3)] ..
  have "blk_view content ?bd' k = ?v k" if "k < st_cnt s" for k
    using view a that by (simp add: store_abs_def)
  moreover have "blk_ready content (st_pend s) ?bd'"
    using blk_readyD [OF rd] p drop_post_held_uptodate [OF \<open>drop_post content ?L bd ?bd'\<close>]
    unfolding blk_ready_def blk_inv_def by blast
  moreover have "bd_lg_bcnt ?bd' = bd_lg_bcnt bd" "bd_lg_bsize ?bd' = bd_lg_bsize bd"
    using p(2) by (simp_all add: bd_frame_def)
  ultimately have "store_abs content ?bd' (s\<lparr> st_view := ?v \<rparr>)"
    using a p(6,9,10) unfolding store_abs_def by simp
  then show ?thesis by (intro exI [of _ ?v]) simp
qed

sublocale block_device < store: block_store io "store_abs content"
proof
  fix bd s l d
  assume a: "store_abs content bd s"
  note rd = blk_readyD [where content = content and P = "st_pend s" and bd = bd]
  have ready: "blk_ready content (st_pend s) bd" using a by (simp add: store_abs_def)
  have held: "\<exists>b. ext4_buf_lookup (bd_bc bd) l = Some b \<and> buf_refctr b \<noteq> 0" if "st_refs s l \<noteq> 0"
    by (rule held_lookup) (use a that in \<open>simp add: store_abs_def\<close>)
  show held_lt: "l < st_cnt s" if "st_refs s l \<noteq> 0"
    using held [OF that] cache_cohD(4) [OF rd(1) [OF ready], of l] a by (auto simp: store_abs_def buf_coh_def)
  show "\<exists>b. ext4_buf_lookup (bd_bc bd) l = Some b \<and> buf_data b = st_view s l" if n: "st_refs s l \<noteq> 0"
  proof -
    obtain b where b: "ext4_buf_lookup (bd_bc bd) l = Some b" "buf_refctr b \<noteq> 0" using held [OF n] by blast
    then have "BC_UPTODATE \<in> buf_flags b" using rd(4) [OF ready] by (auto simp: held_uptodate_def)
    then have "blk_view content bd l = buf_data b" using b by (simp add: blk_view_def)
    with b held_lt [OF n] a show ?thesis by (auto simp: store_abs_def)
  qed
  show "length (st_view s l) = st_bsize s" if "l < st_cnt s"
    using store_abs_blk_view [OF rd(1) [OF ready], of l] a that by (simp add: store_abs_def)
qed (use store_abs_get store_abs_edit store_abs_dirty store_abs_set store_abs_invalidate in blast)+

end
