(* ===== verification/FsRules.thy ===== *)
theory FsRules
  imports BlockStore
begin

text \<open>
  The rules by which the operations on a file system instance are followed: \<open>succeeds m Q\<close> says that the
  operation \<open>m\<close> returns without an error and its value and state meet \<open>Q\<close>; simplification splits a
  sequence into its steps, and each step on a block, a group descriptor or an inode has a rule inside
  \<open>block_store\<close>. A group descriptor or inode is the struct its bytes decode to.
\<close>

section \<open>Following an operation\<close>

definition succeeds :: "'a res \<times> 's \<Rightarrow> ('a \<Rightarrow> 's \<Rightarrow> bool) \<Rightarrow> bool" where
  "succeeds m Q \<longleftrightarrow> (\<exists>v s. m = (Inr v, s) \<and> Q v s)"

lemma succeeds_simps [simp]:
  "succeeds (Inr v, s) Q = Q v s" "succeeds (Inl e, s) Q = False"
  "succeeds (sbind m f) Q = succeeds m (\<lambda>v s. succeeds (f v s) Q)"
proof -
  obtain r t where "m = (r, t)" by fastforce
  then show "succeeds (sbind m f) Q = succeeds m (\<lambda>v s. succeeds (f v s) Q)"
    by (cases r) (auto simp: succeeds_def)
qed (simp_all add: succeeds_def)

lemma succeeds_guard [simp]:
  "succeeds (bgr_guard io ref m f) Q = succeeds m (\<lambda>v s. succeeds (f v s) Q)"
proof -
  obtain r t where "m = (r, t)" by fastforce
  then show ?thesis by (cases r) (auto simp: succeeds_def bgr_fail_def sbind_def split: sum.splits prod.splits)
qed

lemma succeeds_sforget: "succeeds m (\<lambda>_. Q ()) \<Longrightarrow> succeeds (sforget m) Q"
  by (auto simp: succeeds_def)

lemma succeeds_sread: "f s = Inr v \<Longrightarrow> succeeds (sread f s) Q = Q v s"
  by (simp add: sread_def)

lemma succeeds_mono: "succeeds m P \<Longrightarrow> (\<And>v s. P v s \<Longrightarrow> Q v s) \<Longrightarrow> succeeds m Q"
  by (auto simp: succeeds_def)

abbreviation blk :: "u64 \<Rightarrow> ext4_block" where "blk l \<equiv> \<lparr> b_lb_id = l, b_buf = Some l \<rparr>"

text \<open>The instance \<open>fs\<close> is \<open>fs0\<close> with a device whose blocks are the store \<open>s\<close>.\<close>

definition fs_at :: "('d ext4_blockdev \<Rightarrow> store \<Rightarrow> bool) \<Rightarrow> 'd ext4_fs \<Rightarrow> store \<Rightarrow> 'd ext4_fs \<Rightarrow> bool" where
  "fs_at rep fs0 s fs \<longleftrightarrow> (\<exists>bd. fs = fs0\<lparr> fs_bdev := bd \<rparr> \<and> rep bd s)"

lemma fs_at_fields:
  assumes "fs_at rep fs0 s fs"
  shows "fs_sb fs = fs_sb fs0" "fs_last_inode_bg_id fs = fs_last_inode_bg_id fs0" "fs_read_only fs = fs_read_only fs0"
    "fs_inode_block_limits fs = fs_inode_block_limits fs0"
    "fs_inode_blocks_per_level fs = fs_inode_blocks_per_level fs0"
  using assms by (auto simp: fs_at_def)

lemma fs_at_self: "rep (fs_bdev fs) s \<Longrightarrow> fs_at rep fs s fs"
  by (auto simp: fs_at_def intro!: exI [of _ "fs_bdev fs"])

lemma fs_at_sb: "fs_at rep fs0 s fs \<Longrightarrow> fs_at rep (fs0\<lparr> fs_sb := sb \<rparr>) s (fs\<lparr> fs_sb := sb \<rparr>)"
proof -
  assume "fs_at rep fs0 s fs"
  then obtain bd where "fs = fs0\<lparr> fs_bdev := bd \<rparr>" and b: "rep bd s" by (auto simp: fs_at_def)
  then have "fs\<lparr> fs_sb := sb \<rparr> = fs0\<lparr> fs_sb := sb, fs_bdev := bd \<rparr>" by simp
  with b show ?thesis unfolding fs_at_def by blast
qed

context block_reader begin

lemma fs_get_rule:
  assumes a: "fs_at rep fs0 s fs" and "l < st_cnt s" and "st_room s \<noteq> 0"
    and Q: "\<And>fs'. fs_at rep fs0 (st_get l s) fs' \<Longrightarrow> Q (blk l) fs'"
  shows "succeeds (fs_block_get io l fs) Q"
proof -
  obtain bd where f: "fs = fs0\<lparr> fs_bdev := bd \<rparr>" and b: "rep bd s" using a by (auto simp: fs_at_def)
  from store_get [OF b assms(2,3)] obtain bd' where
    "ext4_block_get io l bd = (Inr (blk l), bd')" "rep bd' (st_get l s)" by blast
  then show ?thesis using Q [of "fs0\<lparr> fs_bdev := bd' \<rparr>"]
    by (auto simp: fs_block_get_def fs_dev_def f fs_at_def)
qed

lemma fs_set_rule:
  assumes a: "fs_at rep fs0 s fs" and "st_refs s l \<noteq> 0" "l \<noteq> 0" "l \<notin> st_pend s"
    and Q: "\<And>fs'. fs_at rep fs0 (st_set l s) fs' \<Longrightarrow> Q () fs'"
  shows "succeeds (fs_block_set io (blk l) fs) Q"
proof -
  obtain bd where f: "fs = fs0\<lparr> fs_bdev := bd \<rparr>" and b: "rep bd s" using a by (auto simp: fs_at_def)
  from store_set [OF b assms(2-4)] obtain bd' where
    "ext4_block_set io (blk l) bd = (Inr (), bd')" "rep bd' (st_set l s)" by blast
  then show ?thesis using Q [of "fs0\<lparr> fs_bdev := bd' \<rparr>"]
    by (auto simp: fs_block_set_def fs_dev_def f fs_at_def)
qed

lemma fs_data_eq: "fs_at rep fs0 s fs \<Longrightarrow> st_refs s l \<noteq> 0 \<Longrightarrow> fs_data (blk l) fs = Inr (st_view s l)"
proof -
  assume "fs_at rep fs0 s fs" and r: "st_refs s l \<noteq> 0"
  then obtain bd where f: "fs = fs0\<lparr> fs_bdev := bd \<rparr>" and b: "rep bd s" by (auto simp: fs_at_def)
  from store_data [OF b r] show ?thesis by (auto simp: fs_data_def f)
qed

lemma held_length: "fs_at rep fs0 s fs \<Longrightarrow> st_refs s l \<noteq> 0 \<Longrightarrow> length (st_view s l) = st_bsize s"
  using store_length store_held by (auto simp: fs_at_def)

end

context block_store begin

lemma fs_store_rule:
  assumes a: "fs_at rep fs0 s fs" and "st_refs s l \<noteq> 0" and "length d = st_bsize s"
    and Q: "\<And>fs'. fs_at rep fs0 (st_edit l d s) fs' \<Longrightarrow> Q () fs'"
  shows "succeeds (fs_store (blk l) (Inr d) fs) Q"
proof -
  obtain bd where f: "fs = fs0\<lparr> fs_bdev := bd \<rparr>" and b: "rep bd s" using a by (auto simp: fs_at_def)
  from store_edit [OF b assms(2,3)] Q [of "fs0\<lparr> fs_bdev := blk_edit l d bd \<rparr>"]
  show ?thesis by (auto simp: fs_store_def f fs_at_def)
qed

lemma fs_dirty_rule:
  assumes a: "fs_at rep fs0 s fs" and "st_refs s l \<noteq> 0"
    and Q: "\<And>fs'. fs_at rep fs0 (st_dirty l s) fs' \<Longrightarrow> Q () fs'"
  shows "succeeds (fs_set_dirty (blk l) fs) Q"
proof -
  obtain bd where f: "fs = fs0\<lparr> fs_bdev := bd \<rparr>" and b: "rep bd s" using a by (auto simp: fs_at_def)
  from store_dirty [OF b assms(2)] Q [of "fs0\<lparr> fs_bdev := ext4_trans_set_block_dirty l bd \<rparr>"]
  show ?thesis by (auto simp: fs_set_dirty_def f fs_at_def)
qed

end

section \<open>Structs in blocks\<close>

text \<open>\<open>patch d off bs\<close> is \<open>d\<close> with the bytes \<open>bs\<close> from \<open>off\<close> on.\<close>

definition patch :: "u8 list \<Rightarrow> nat \<Rightarrow> u8 list \<Rightarrow> u8 list" where
  "patch d off bs = take off d @ bs @ drop (off + length bs) d"

lemma wr_range_patch: "off + length bs \<le> length d \<Longrightarrow> wr_range d off bs = Inr (patch d off bs)"
  by (simp add: wr_range_def patch_def)

lemma length_patch [simp]: "off + length bs \<le> length d \<Longrightarrow> length (patch d off bs) = length d"
  by (simp add: patch_def)

lemma patch_patch: "length bs = length cs \<Longrightarrow> off + length bs \<le> length d \<Longrightarrow> patch (patch d off bs) off cs = patch d off cs"
  by (simp add: patch_def)

lemma rd_patch: "off + length bs \<le> length d \<Longrightarrow> n = length bs \<Longrightarrow> rd_range (patch d off bs) off n = Inr bs"
  by (simp add: rd_range_def patch_def)

lemma rd_patch_other:
  assumes "off + length bs \<le> length d" and "p + n \<le> off \<or> off + length bs \<le> p"
  shows "rd_range (patch d off bs) p n = rd_range d p n"
proof (cases "p + n \<le> off")
  case True
  with assms(1) have "take n (drop p (take off d)) = take n (drop p d)"
    by (simp add: drop_take min_absorb1 min_absorb2)
  moreover have "length (take off d) \<ge> p + n" using True assms(1) by simp
  ultimately show ?thesis using assms(1) True by (simp add: rd_range_def patch_def)
next
  case False
  with assms(2) have o: "off + length bs \<le> p" by blast
  then have "drop p (patch d off bs) = drop p d" using assms(1)
    by (simp add: patch_def min_absorb2)
  with assms(1) show ?thesis by (simp add: rd_range_def)
qed

subsection \<open>Group descriptors\<close>

text \<open>With 32-byte descriptors the second half of the struct does not exist; it decodes to zeros.\<close>

definition bg_narrow :: "ext4_sblock \<Rightarrow> ext4_bgroup \<Rightarrow> bool" where
  "bg_narrow sb bg \<longleftrightarrow> bg_of_bytes (take (bg_width sb) (bg_bytes bg) @ replicate (64 - bg_width sb) 0) = bg"

definition desc_block :: "ext4_sblock \<Rightarrow> u32 \<Rightarrow> u64" where
  "desc_block sb bgid =
     ext4_fs_get_descriptor_block sb bgid (ext4_sb_get_block_size sb div ucast (ext4_sb_get_desc_size sb))"

definition desc_off :: "ext4_sblock \<Rightarrow> u32 \<Rightarrow> nat" where
  "desc_off sb bgid =
     unat ((bgid mod (ext4_sb_get_block_size sb div ucast (ext4_sb_get_desc_size sb))) * ucast (ext4_sb_get_desc_size sb))"

definition group_at :: "ext4_sblock \<Rightarrow> u32 \<Rightarrow> (u64 \<Rightarrow> u8 list) \<Rightarrow> ext4_bgroup res" where
  "group_at sb bgid V = bg_at sb (V (desc_block sb bgid)) (desc_off sb bgid)"

definition desc_patch :: "ext4_sblock \<Rightarrow> u32 \<Rightarrow> ext4_bgroup \<Rightarrow> u8 list \<Rightarrow> u8 list" where
  "desc_patch sb bgid bg d = patch d (desc_off sb bgid) (take (bg_width sb) (bg_bytes bg))"

definition grp_ref :: "ext4_sblock \<Rightarrow> u32 \<Rightarrow> bool \<Rightarrow> ext4_block_group_ref" where
  "grp_ref sb bgid d =
     \<lparr> bgr_block = blk (desc_block sb bgid), bgr_off = desc_off sb bgid, bgr_index = bgid, bgr_dirty = d \<rparr>"

lemma grp_ref_simps [simp]:
  "bgr_block (grp_ref sb bgid d) = blk (desc_block sb bgid)" "bgr_off (grp_ref sb bgid d) = desc_off sb bgid"
  "bgr_index (grp_ref sb bgid d) = bgid" "bgr_dirty (grp_ref sb bgid d) = d"
  "(grp_ref sb bgid d)\<lparr> bgr_dirty := e \<rparr> = grp_ref sb bgid e"
  by (simp_all add: grp_ref_def)

lemma bg_width_le: "bg_width sb \<le> 64" by (simp add: bg_width_def)

lemma min_bg_width [simp]: "min 64 (bg_width sb) = bg_width sb"
  using bg_width_le by (simp add: min_absorb2)

lemma group_at_fits: "group_at sb bgid V = Inr bg \<Longrightarrow> desc_off sb bgid + bg_width sb \<le> length (V (desc_block sb bgid))"
  by (auto simp: group_at_def bg_at_def rbind_Inr_iff rd_range_def split: if_splits)

lemma group_at_narrow: "group_at sb bgid V = Inr bg \<Longrightarrow> bg_narrow sb bg"
proof -
  assume "group_at sb bgid V = Inr bg"
  let ?bs = "take (bg_width sb) (drop (desc_off sb bgid) (V (desc_block sb bgid)))"
  from \<open>group_at sb bgid V = Inr bg\<close>
  have bs: "length ?bs = bg_width sb" and bg: "bg = bg_of_bytes (?bs @ replicate (64 - bg_width sb) 0)"
    by (auto simp: group_at_def bg_at_def rbind_Inr_iff rd_range_def split: if_splits)
  have "length (?bs @ replicate (64 - bg_width sb) 0) = 64"
    unfolding length_append bs using bg_width_le [of sb] by simp
  then have "bg_bytes bg = ?bs @ replicate (64 - bg_width sb) 0" unfolding bg by (rule bg_bytes_bg_of_bytes)
  then have "take (bg_width sb) (bg_bytes bg) = ?bs" using bs by (metis append_eq_conv_conj)
  then show ?thesis unfolding bg_narrow_def using bg by metis
qed

lemma group_at_patch:
  assumes "desc_off sb bgid + bg_width sb \<le> length d" and "bg_narrow sb bg" and "V (desc_block sb bgid) = desc_patch sb bgid bg d"
  shows "group_at sb bgid V = Inr bg"
  using assms by (simp add: group_at_def bg_at_def desc_patch_def rd_patch bg_narrow_def)

lemma bg_put_patch:
  "desc_off sb bgid + bg_width sb \<le> length d \<Longrightarrow> bg_put sb d (desc_off sb bgid) bg = Inr (desc_patch sb bgid bg d)"
  by (simp add: bg_put_def desc_patch_def wr_range_patch)

lemma desc_patch_patch [simp]:
  "desc_off sb bgid + bg_width sb \<le> length d \<Longrightarrow> desc_patch sb bgid bg (desc_patch sb bgid bg' d) = desc_patch sb bgid bg d"
  by (simp add: desc_patch_def patch_patch)

lemma length_desc_patch [simp]:
  "desc_off sb bgid + bg_width sb \<le> length d \<Longrightarrow> length (desc_patch sb bgid bg d) = length d"
  by (simp add: desc_patch_def)

lemma bg_narrow_iff:
  "bg_narrow sb bg \<longleftrightarrow> (ext4_sb_get_desc_size sb = EXT4_MIN_BLOCK_GROUP_DESCRIPTOR_SIZE \<longrightarrow>
     bg_block_bitmap_hi bg = 0 \<and> bg_inode_bitmap_hi bg = 0 \<and> bg_inode_table_first_block_hi bg = 0 \<and>
     bg_free_blocks_count_hi bg = 0 \<and> bg_free_inodes_count_hi bg = 0 \<and> bg_used_dirs_count_hi bg = 0 \<and>
     bg_itable_unused_hi bg = 0 \<and> bg_exclude_bitmap_hi bg = 0 \<and> bg_block_bitmap_csum_hi bg = 0 \<and>
     bg_inode_bitmap_csum_hi bg = 0 \<and> bg_reserved bg = 0)"
proof (cases "ext4_sb_get_desc_size sb = EXT4_MIN_BLOCK_GROUP_DESCRIPTOR_SIZE")
  case False
  then show ?thesis by (simp add: bg_narrow_def bg_width_def)
next
  case True
  have z: "replicate 32 (0 :: u8) = enc32 0 @ enc32 0 @ enc32 0 @ enc16 0 @ enc16 0 @ enc16 0 @ enc16 0 @
      enc32 0 @ enc16 0 @ enc16 0 @ enc32 0"
    by (simp add: enc32_def enc16_def numeral_eq_Suc)
  have "bg_of_bytes (take 32 (bg_bytes bg) @ replicate 32 0) = bg\<lparr> bg_block_bitmap_hi := 0, bg_inode_bitmap_hi := 0,
      bg_inode_table_first_block_hi := 0, bg_free_blocks_count_hi := 0, bg_free_inodes_count_hi := 0,
      bg_used_dirs_count_hi := 0, bg_itable_unused_hi := 0, bg_exclude_bitmap_hi := 0, bg_block_bitmap_csum_hi := 0,
      bg_inode_bitmap_csum_hi := 0, bg_reserved := 0 \<rparr>"
    unfolding z bg_bytes_def by (cases bg) (simp add: bg_of_bytes_def)
  with True show ?thesis unfolding bg_narrow_def bg_width_def by (cases bg) auto
qed

text \<open>The setters of the allocators keep the shape, the flags and each other's fields.\<close>

named_theorems bg_simps \<open>the fields of a group descriptor after a setter\<close>

lemma narrow_setters [bg_simps]:
  assumes "bg_narrow sb bg"
  shows "bg_narrow sb (ext4_bg_set_free_blocks_count bg sb n)" "bg_narrow sb (ext4_bg_set_free_inodes_count bg sb n)"
    "bg_narrow sb (ext4_bg_set_used_dirs_count bg sb n)" "bg_narrow sb (ext4_bg_set_itable_unused bg sb n)"
    "bg_narrow sb (ext4_bg_set_checksum bg c)" "bg_narrow sb (ext4_balloc_set_bitmap_csum sb bg bm)"
    "bg_narrow sb (ext4_ialloc_set_bitmap_csum sb bg bm)"
  using assms
  by (simp_all add: bg_narrow_iff ext4_bg_set_free_blocks_count_def ext4_bg_set_free_inodes_count_def
      ext4_bg_set_used_dirs_count_def ext4_bg_set_itable_unused_def ext4_bg_set_checksum_def
      ext4_balloc_set_bitmap_csum_def ext4_ialloc_set_bitmap_csum_def Let_def
      EXT4_MIN_BLOCK_GROUP_DESCRIPTOR_SIZE_def EXT4_MAX_BLOCK_GROUP_DESCRIPTOR_SIZE_def)

lemmas bg_access_defs =
  ext4_bg_get_block_bitmap_def ext4_bg_get_inode_bitmap_def ext4_bg_get_inode_table_first_block_def
  ext4_bg_get_free_blocks_count_def ext4_bg_get_free_inodes_count_def
  ext4_bg_get_used_dirs_count_def ext4_bg_get_itable_unused_def ext4_bg_has_flag_def Let_def

lemma keep_free_blocks_count [bg_simps]:
  "ext4_bg_get_block_bitmap (ext4_bg_set_free_blocks_count bg sb n) sb = ext4_bg_get_block_bitmap bg sb"
  "ext4_bg_get_inode_bitmap (ext4_bg_set_free_blocks_count bg sb n) sb = ext4_bg_get_inode_bitmap bg sb"
  "ext4_bg_get_inode_table_first_block (ext4_bg_set_free_blocks_count bg sb n) sb = ext4_bg_get_inode_table_first_block bg sb"
  "ext4_bg_get_free_inodes_count (ext4_bg_set_free_blocks_count bg sb n) sb = ext4_bg_get_free_inodes_count bg sb"
  "ext4_bg_get_used_dirs_count (ext4_bg_set_free_blocks_count bg sb n) sb = ext4_bg_get_used_dirs_count bg sb"
  "ext4_bg_get_itable_unused (ext4_bg_set_free_blocks_count bg sb n) sb = ext4_bg_get_itable_unused bg sb"
  "ext4_bg_has_flag (ext4_bg_set_free_blocks_count bg sb n) f = ext4_bg_has_flag bg f"
  by (simp_all add: bg_access_defs ext4_bg_set_free_blocks_count_def)

lemma keep_free_inodes_count [bg_simps]:
  "ext4_bg_get_block_bitmap (ext4_bg_set_free_inodes_count bg sb n) sb = ext4_bg_get_block_bitmap bg sb"
  "ext4_bg_get_inode_bitmap (ext4_bg_set_free_inodes_count bg sb n) sb = ext4_bg_get_inode_bitmap bg sb"
  "ext4_bg_get_inode_table_first_block (ext4_bg_set_free_inodes_count bg sb n) sb = ext4_bg_get_inode_table_first_block bg sb"
  "ext4_bg_get_free_blocks_count (ext4_bg_set_free_inodes_count bg sb n) sb = ext4_bg_get_free_blocks_count bg sb"
  "ext4_bg_get_used_dirs_count (ext4_bg_set_free_inodes_count bg sb n) sb = ext4_bg_get_used_dirs_count bg sb"
  "ext4_bg_get_itable_unused (ext4_bg_set_free_inodes_count bg sb n) sb = ext4_bg_get_itable_unused bg sb"
  "ext4_bg_has_flag (ext4_bg_set_free_inodes_count bg sb n) f = ext4_bg_has_flag bg f"
  by (simp_all add: bg_access_defs ext4_bg_set_free_inodes_count_def)

lemma keep_used_dirs_count [bg_simps]:
  "ext4_bg_get_block_bitmap (ext4_bg_set_used_dirs_count bg sb n) sb = ext4_bg_get_block_bitmap bg sb"
  "ext4_bg_get_inode_bitmap (ext4_bg_set_used_dirs_count bg sb n) sb = ext4_bg_get_inode_bitmap bg sb"
  "ext4_bg_get_inode_table_first_block (ext4_bg_set_used_dirs_count bg sb n) sb = ext4_bg_get_inode_table_first_block bg sb"
  "ext4_bg_get_free_blocks_count (ext4_bg_set_used_dirs_count bg sb n) sb = ext4_bg_get_free_blocks_count bg sb"
  "ext4_bg_get_free_inodes_count (ext4_bg_set_used_dirs_count bg sb n) sb = ext4_bg_get_free_inodes_count bg sb"
  "ext4_bg_get_itable_unused (ext4_bg_set_used_dirs_count bg sb n) sb = ext4_bg_get_itable_unused bg sb"
  "ext4_bg_has_flag (ext4_bg_set_used_dirs_count bg sb n) f = ext4_bg_has_flag bg f"
  by (simp_all add: bg_access_defs ext4_bg_set_used_dirs_count_def)

lemma keep_itable_unused [bg_simps]:
  "ext4_bg_get_block_bitmap (ext4_bg_set_itable_unused bg sb n) sb = ext4_bg_get_block_bitmap bg sb"
  "ext4_bg_get_inode_bitmap (ext4_bg_set_itable_unused bg sb n) sb = ext4_bg_get_inode_bitmap bg sb"
  "ext4_bg_get_inode_table_first_block (ext4_bg_set_itable_unused bg sb n) sb = ext4_bg_get_inode_table_first_block bg sb"
  "ext4_bg_get_free_blocks_count (ext4_bg_set_itable_unused bg sb n) sb = ext4_bg_get_free_blocks_count bg sb"
  "ext4_bg_get_free_inodes_count (ext4_bg_set_itable_unused bg sb n) sb = ext4_bg_get_free_inodes_count bg sb"
  "ext4_bg_get_used_dirs_count (ext4_bg_set_itable_unused bg sb n) sb = ext4_bg_get_used_dirs_count bg sb"
  "ext4_bg_has_flag (ext4_bg_set_itable_unused bg sb n) f = ext4_bg_has_flag bg f"
  by (simp_all add: bg_access_defs ext4_bg_set_itable_unused_def)

lemma keep_checksum [bg_simps]:
  "ext4_bg_get_block_bitmap (ext4_bg_set_checksum bg c) sb = ext4_bg_get_block_bitmap bg sb"
  "ext4_bg_get_inode_bitmap (ext4_bg_set_checksum bg c) sb = ext4_bg_get_inode_bitmap bg sb"
  "ext4_bg_get_inode_table_first_block (ext4_bg_set_checksum bg c) sb = ext4_bg_get_inode_table_first_block bg sb"
  "ext4_bg_get_free_blocks_count (ext4_bg_set_checksum bg c) sb = ext4_bg_get_free_blocks_count bg sb"
  "ext4_bg_get_free_inodes_count (ext4_bg_set_checksum bg c) sb = ext4_bg_get_free_inodes_count bg sb"
  "ext4_bg_get_used_dirs_count (ext4_bg_set_checksum bg c) sb = ext4_bg_get_used_dirs_count bg sb"
  "ext4_bg_get_itable_unused (ext4_bg_set_checksum bg c) sb = ext4_bg_get_itable_unused bg sb"
  "ext4_bg_has_flag (ext4_bg_set_checksum bg c) f = ext4_bg_has_flag bg f"
  by (simp_all add: bg_access_defs ext4_bg_set_checksum_def)

lemma keep_balloc_csum [bg_simps]:
  "ext4_bg_get_block_bitmap (ext4_balloc_set_bitmap_csum sb bg bm) sb = ext4_bg_get_block_bitmap bg sb"
  "ext4_bg_get_inode_bitmap (ext4_balloc_set_bitmap_csum sb bg bm) sb = ext4_bg_get_inode_bitmap bg sb"
  "ext4_bg_get_inode_table_first_block (ext4_balloc_set_bitmap_csum sb bg bm) sb = ext4_bg_get_inode_table_first_block bg sb"
  "ext4_bg_get_free_blocks_count (ext4_balloc_set_bitmap_csum sb bg bm) sb = ext4_bg_get_free_blocks_count bg sb"
  "ext4_bg_get_free_inodes_count (ext4_balloc_set_bitmap_csum sb bg bm) sb = ext4_bg_get_free_inodes_count bg sb"
  "ext4_bg_get_used_dirs_count (ext4_balloc_set_bitmap_csum sb bg bm) sb = ext4_bg_get_used_dirs_count bg sb"
  "ext4_bg_get_itable_unused (ext4_balloc_set_bitmap_csum sb bg bm) sb = ext4_bg_get_itable_unused bg sb"
  "ext4_bg_has_flag (ext4_balloc_set_bitmap_csum sb bg bm) f = ext4_bg_has_flag bg f"
  by (simp_all add: bg_access_defs ext4_balloc_set_bitmap_csum_def)

lemma keep_ialloc_csum [bg_simps]:
  "ext4_bg_get_block_bitmap (ext4_ialloc_set_bitmap_csum sb bg bm) sb = ext4_bg_get_block_bitmap bg sb"
  "ext4_bg_get_inode_bitmap (ext4_ialloc_set_bitmap_csum sb bg bm) sb = ext4_bg_get_inode_bitmap bg sb"
  "ext4_bg_get_inode_table_first_block (ext4_ialloc_set_bitmap_csum sb bg bm) sb = ext4_bg_get_inode_table_first_block bg sb"
  "ext4_bg_get_free_blocks_count (ext4_ialloc_set_bitmap_csum sb bg bm) sb = ext4_bg_get_free_blocks_count bg sb"
  "ext4_bg_get_free_inodes_count (ext4_ialloc_set_bitmap_csum sb bg bm) sb = ext4_bg_get_free_inodes_count bg sb"
  "ext4_bg_get_used_dirs_count (ext4_ialloc_set_bitmap_csum sb bg bm) sb = ext4_bg_get_used_dirs_count bg sb"
  "ext4_bg_get_itable_unused (ext4_ialloc_set_bitmap_csum sb bg bm) sb = ext4_bg_get_itable_unused bg sb"
  "ext4_bg_has_flag (ext4_ialloc_set_bitmap_csum sb bg bm) f = ext4_bg_has_flag bg f"
  by (simp_all add: bg_access_defs ext4_ialloc_set_bitmap_csum_def)

lemma get_set_counts [bg_simps]:
  "ext4_bg_get_free_blocks_count (ext4_bg_set_free_blocks_count bg sb n) sb = (if ext4_sb_get_desc_size sb > 32 then n else take_bit 16 n)"
  "ext4_bg_get_free_inodes_count (ext4_bg_set_free_inodes_count bg sb n) sb = (if ext4_sb_get_desc_size sb > 32 then n else take_bit 16 n)"
  "ext4_bg_get_used_dirs_count (ext4_bg_set_used_dirs_count bg sb n) sb = (if ext4_sb_get_desc_size sb > 32 then n else take_bit 16 n)"
  "ext4_bg_get_itable_unused (ext4_bg_set_itable_unused bg sb n) sb = (if ext4_sb_get_desc_size sb > 32 then n else take_bit 16 n)"
  by (simp_all add: bg_access_defs ext4_bg_set_free_blocks_count_def ext4_bg_set_free_inodes_count_def
      ext4_bg_set_used_dirs_count_def ext4_bg_set_itable_unused_def split32_lo low16
      EXT4_MIN_BLOCK_GROUP_DESCRIPTOR_SIZE_def)

text \<open>The geometry does not depend on the counters of free blocks and inodes.\<close>

lemma free_counts_geometry [store_simps]:
  fixes sb n m
  defines "sb1 \<equiv> ext4_sb_set_free_blocks_cnt sb n" and "sb2 \<equiv> sb\<lparr> sb_free_inodes_count := m \<rparr>"
  shows "ext4_sb_get_block_size sb1 = ext4_sb_get_block_size sb" "ext4_sb_get_block_size sb2 = ext4_sb_get_block_size sb"
    "bg_width sb1 = bg_width sb" "bg_width sb2 = bg_width sb" "inode_width sb1 = inode_width sb" "inode_width sb2 = inode_width sb"
    "desc_block sb1 bgid = desc_block sb bgid" "desc_block sb2 bgid = desc_block sb bgid"
    "desc_off sb1 bgid = desc_off sb bgid" "desc_off sb2 bgid = desc_off sb bgid"
    "ext4_fs_bg_checksum sb1 bgid bg = ext4_fs_bg_checksum sb bgid bg" "ext4_fs_bg_checksum sb2 bgid bg = ext4_fs_bg_checksum sb bgid bg"
    "ext4_inode_set_blocks_count sb1 i c = ext4_inode_set_blocks_count sb i c"
    "ext4_inode_get_blocks_count sb1 i = ext4_inode_get_blocks_count sb i"
  by (simp_all add: sb1_def sb2_def ext4_sb_set_free_blocks_cnt_def ext4_sb_get_block_size_def bg_width_def inode_width_def
      desc_block_def desc_off_def ext4_fs_get_descriptor_block_def ext4_sb_first_meta_bg_def ext4_fs_first_bg_block_no_def
      ext4_sb_feature_incom_def ext4_sb_is_super_in_bg_def ext4_sb_feature_ro_com_def ext4_fs_bg_checksum_def
      ext4_sb_get_desc_size_def ext4_inode_set_blocks_count_def ext4_inode_get_blocks_count_def Let_def)

text \<open>A group whose bitmaps exist on the device.\<close>

definition group_ready :: "ext4_sblock \<Rightarrow> (u64 \<Rightarrow> u8 list) \<Rightarrow> u32 \<Rightarrow> ext4_bgroup \<Rightarrow> bool" where
  "group_ready sb V bgid bg \<longleftrightarrow>
     group_at sb bgid V = Inr bg \<and> desc_block sb bgid \<noteq> 0 \<and>
     \<not> ext4_bg_has_flag bg EXT4_BLOCK_GROUP_BLOCK_UNINIT \<and> \<not> ext4_bg_has_flag bg EXT4_BLOCK_GROUP_INODE_UNINIT"

text \<open>A descriptor with its checksum, as it is put back.\<close>

definition bg_sealed :: "ext4_sblock \<Rightarrow> u32 \<Rightarrow> ext4_bgroup \<Rightarrow> ext4_bgroup" where
  "bg_sealed sb bgid bg = ext4_bg_set_checksum bg (ext4_fs_bg_checksum sb bgid bg)"

lemma bg_sealed_verifies: "ext4_fs_verify_bg_csum sb bgid (bg_sealed sb bgid bg)"
  by (simp add: bg_sealed_def ext4_fs_verify_bg_csum_def ext4_bg_set_checksum_def bg_checksum_ignores_field)

lemma inode_decoded_blocks: "length (in_blocks (inode_of_bytes bs)) = 15"
  by (simp add: inode_of_bytes_def split_beta get32s_eq)

context block_reader begin

lemma bgr_load_eq:
  assumes "fs_at rep fs0 s fs" and "st_refs s (desc_block sb bgid) \<noteq> 0" and "group_at sb bgid (st_view s) = Inr bg"
    and "bg_width (fs_sb fs0) = bg_width sb"
  shows "bgr_load (grp_ref sb bgid d) fs = Inr bg"
proof -
  have w: "bg_width (fs_sb fs) = bg_width sb" using fs_at_fields(1) [OF assms(1)] assms(4) by simp
  have "bg_at (fs_sb fs) = bg_at sb" unfolding fun_eq_iff bg_at_def w by simp
  with assms(3) show ?thesis by (simp add: bgr_load_def fs_data_eq [OF assms(1,2)] group_at_def)
qed

lemma get_group_rule:
  assumes a: "fs_at rep fs0 s fs" and g: "group_ready sb (st_view s) bgid bg" and sb: "fs_sb fs0 = sb"
    and l: "desc_block sb bgid < st_cnt s" "st_room s \<noteq> 0"
    and Q: "\<And>fs'. fs_at rep fs0 (st_get (desc_block sb bgid) s) fs' \<Longrightarrow> Q (grp_ref sb bgid False) fs'"
  shows "succeeds (ext4_fs_get_block_group_ref io bgid fs) Q"
proof -
  have q: "succeeds (bgr_init_block_part io (grp_ref sb bgid False) fs')
        (\<lambda>ref fs. succeeds (bgr_init_inode_part io ref fs) Q)"
    if f: "fs_at rep fs0 (st_get (desc_block sb bgid) s) fs'" for fs'
  proof -
    have ld: "bgr_load (grp_ref sb bgid False) fs' = Inr bg"
      by (rule bgr_load_eq [OF f]) (use g sb in \<open>simp_all add: store_simps group_ready_def\<close>)
    show ?thesis using g Q [OF f]
      by (simp add: bgr_init_block_part_def bgr_init_inode_part_def succeeds_sread [where f = "bgr_load _", OF ld] group_ready_def)
  qed
  have sbf: "fs_sb fs = sb" using fs_at_fields(1) [OF a] sb by simp
  show ?thesis
    unfolding ext4_fs_get_block_group_ref_def sbf Let_def desc_block_def [symmetric] succeeds_simps
    by (rule fs_get_rule [OF a l]) (use q in \<open>simp add: grp_ref_def desc_off_def\<close>)
qed

end

context block_store begin

lemma bgr_modify_rule:
  assumes a: "fs_at rep fs0 s fs" and r: "st_refs s (desc_block sb bgid) \<noteq> 0" and g: "group_at sb bgid (st_view s) = Inr bg"
    and w: "bg_width (fs_sb fs0) = bg_width sb"
    and Q: "\<And>fs'. fs_at rep fs0 (st_edit (desc_block sb bgid)
        (desc_patch sb bgid (f bg) (st_view s (desc_block sb bgid))) s) fs' \<Longrightarrow> Q () fs'"
  shows "succeeds (bgr_modify (grp_ref sb bgid d) f fs) Q"
proof -
  note fit = group_at_fits [OF g]
  have wf: "bg_width (fs_sb fs) = bg_width sb" using fs_at_fields(1) [OF a] w by simp
  have "bg_put (fs_sb fs) = bg_put sb" unfolding fun_eq_iff bg_put_def wf by simp
  then show ?thesis
    unfolding bgr_modify_def succeeds_simps succeeds_sread [where f = "bgr_load _", OF bgr_load_eq [OF a r g w]] bgr_store_def
    by (simp add: fs_data_eq [OF a r] bg_put_patch [OF fit])
       (rule fs_store_rule [OF a r], use held_length [OF a r] fit Q in simp_all)
qed

text \<open>Giving a changed reference back writes the sealed descriptor.\<close>

lemma put_group_rule:
  assumes a: "fs_at rep fs0 s fs" and r: "st_refs s (desc_block sb bgid) \<noteq> 0" and g: "group_at sb bgid (st_view s) = Inr bg"
    and w: "bg_width (fs_sb fs0) = bg_width sb" and c: "ext4_fs_bg_checksum (fs_sb fs0) = ext4_fs_bg_checksum sb"
    and z: "desc_block sb bgid \<noteq> 0"
    and Q: "\<And>fs'. fs_at rep fs0 (st_set (desc_block sb bgid) (st_dirty (desc_block sb bgid) (st_edit (desc_block sb bgid)
        (desc_patch sb bgid (bg_sealed sb bgid bg) (st_view s (desc_block sb bgid))) s))) fs' \<Longrightarrow> Q () fs'"
  shows "succeeds (ext4_fs_put_block_group_ref io (grp_ref sb bgid True) fs) Q"
proof -
  have cf: "ext4_fs_bg_checksum (fs_sb fs) = ext4_fs_bg_checksum sb" using fs_at_fields(1) [OF a] c by simp
  show ?thesis
    unfolding ext4_fs_put_block_group_ref_def
    by (simp add: cf) (rule bgr_modify_rule [OF a r g w], unfold bg_sealed_def [symmetric],
      rule fs_dirty_rule, assumption, use r in \<open>simp add: store_simps\<close>,
      rule fs_set_rule, assumption, use r z Q in \<open>simp_all add: store_simps\<close>)
qed

end

context block_reader begin

lemma put_group_clean_rule:
  assumes "fs_at rep fs0 s fs" and "st_refs s (desc_block sb bgid) \<noteq> 0" and "desc_block sb bgid \<noteq> 0"
    and "desc_block sb bgid \<notin> st_pend s"
    and "\<And>fs'. fs_at rep fs0 (st_set (desc_block sb bgid) s) fs' \<Longrightarrow> Q () fs'"
  shows "succeeds (ext4_fs_put_block_group_ref io (grp_ref sb bgid False) fs) Q"
  unfolding ext4_fs_put_block_group_ref_def by simp (rule fs_set_rule [OF assms(1-4)], rule assms(5))

end

end
