(* ===== verification/BallocSpec.thy ===== *)
theory BallocSpec
  imports Balloc FsRules
begin

text \<open>
  What the block allocator does, over any block store: an allocation takes a block that was free, sets
  its bit and moves one block of the three counters; freeing does the opposite; nothing else changes. The
  lemmas are proved inside \<open>block_store\<close>; the properties are their instances on the image file.
\<close>

section \<open>Steps\<close>

lemma succeeds_on_fs [simp]:
  "succeeds (on_fs m s) Q = succeeds (m (fst s)) (\<lambda>v fs. Q v (fs, snd s))"
proof -
  obtain r t where "m (fst s) = (r, t)" by fastforce
  then show ?thesis by (auto simp: on_fs_def succeeds_def)
qed

definition inode_patch :: "ext4_sblock \<Rightarrow> nat \<Rightarrow> ext4_inode \<Rightarrow> u8 list \<Rightarrow> u8 list" where
  "inode_patch sb off i d = patch d off (take (inode_width sb) (inode_bytes i))"

lemma inode_at_fits: "inode_at sb d off = Inr i \<Longrightarrow> off + inode_width sb \<le> length d \<and> length (in_blocks i) = 15"
  by (auto simp: inode_at_def rbind_Inr_iff rd_range_def inode_decoded_blocks split: if_splits)

lemma inode_put_patch:
  assumes "off + inode_width sb \<le> length d" and "length (in_blocks i) = 15"
  shows "inode_put sb d off i = Inr (inode_patch sb off i d)" and "length (inode_patch sb off i d) = length d"
  using assms by (simp_all add: inode_put_def inode_patch_def wr_range_patch length_inode_bytes inode_width_def)

lemma inode_add_blocks_blocks [simp]: "in_blocks (inode_add_blocks sb n i) = in_blocks i"
  by (auto simp: inode_add_blocks_def ext4_inode_set_blocks_count_def ext4_inode_set_flag_def ext4_inode_clear_flag_def ext4_inode_set_flags_def
      Let_def split: sum.splits if_splits)

context block_store begin

lemma ir_modify_rule:
  assumes a: "fs_at rep fs0 s fs" and b: "ir_block ir = blk li" and r: "st_refs s li \<noteq> 0"
    and i: "inode_at (fs_sb fs0) (st_view s li) (ir_off ir) = Inr i" and n: "length (in_blocks (f i)) = 15"
    and Q: "\<And>fs'. fs_at rep fs0 (st_edit li (inode_patch (fs_sb fs0) (ir_off ir) (f i) (st_view s li)) s) fs' \<Longrightarrow>
      Q () (fs', ir\<lparr> ir_dirty := True \<rparr>)"
  shows "succeeds (ir_modify f (fs, ir)) Q"
proof -
  have sb: "fs_sb fs = fs_sb fs0" by (rule fs_at_fields [OF a])
  have ld: "ir_load ir fs = Inr i" using i by (simp add: ir_load_def b fs_data_eq [OF a r] sb)
  note fit = inode_at_fits [OF i]
  show ?thesis
    by (simp add: ir_modify_def succeeds_sread [where f = "ir_load _", OF ld] ir_store_def b fs_data_eq [OF a r] sb inode_put_patch fit n)
       (rule fs_store_rule [OF a r], use held_length [OF a r] fit n Q in \<open>simp_all add: inode_put_patch\<close>)
qed

end

text \<open>The bitmap of a group is read, changed, and given back; the descriptor holds its new checksum.\<close>

definition bitmap_saved :: "ext4_sblock \<Rightarrow> u32 \<Rightarrow> ext4_bgroup \<Rightarrow> u8 list \<Rightarrow> store \<Rightarrow> store" where
  "bitmap_saved sb bgid bg bm s =
     s\<lparr> st_view := (st_view s)(ext4_bg_get_block_bitmap bg sb := bm,
          desc_block sb bgid := desc_patch sb bgid (ext4_balloc_set_bitmap_csum sb bg bm) (st_view s (desc_block sb bgid))),
        st_pend := insert (desc_block sb bgid) (st_pend s), st_room := st_room s - 1 \<rparr>"

text \<open>A group the allocator can work on: its two blocks are on the device, distinct, and neither is block 0.\<close>

definition balloc_group_ok :: "ext4_sblock \<Rightarrow> u32 \<Rightarrow> ext4_bgroup \<Rightarrow> store \<Rightarrow> bool" where
  "balloc_group_ok sb bgid bg s \<longleftrightarrow>
     group_ready sb (st_view s) bgid bg \<and> desc_block sb bgid < st_cnt s \<and>
     (let lb = ext4_bg_get_block_bitmap bg sb
      in lb < st_cnt s \<and> lb \<noteq> 0 \<and> lb \<noteq> desc_block sb bgid \<and> lb \<notin> st_pend s)"

context block_store begin

lemma balloc_bitmap_block_rule:
  assumes a: "fs_at rep fs0 s fs" and sb: "fs_sb fs0 = sb" and g: "balloc_group_ok sb bgid bg s"
    and r: "st_refs s (desc_block sb bgid) \<noteq> 0" and room: "st_room s \<noteq> 0"
    and Q: "\<And>fs'. fs_at rep fs0 (st_get (ext4_bg_get_block_bitmap bg sb) s) fs' \<Longrightarrow>
      Q (blk (ext4_bg_get_block_bitmap bg sb)) fs'"
  shows "succeeds (balloc_bitmap_block io (grp_ref sb bgid d) fs) Q"
proof -
  have ld: "bgr_load (grp_ref sb bgid d) fs = Inr bg"
    by (rule bgr_load_eq [OF a r]) (use g sb in \<open>simp_all add: balloc_group_ok_def group_ready_def\<close>)
  have sbf: "fs_sb fs = sb" using fs_at_fields(1) [OF a] sb by simp
  show ?thesis
    by (simp add: balloc_bitmap_block_def succeeds_sread [where f = "bgr_load _", OF ld] sbf)
       (rule fs_get_rule [OF a], use g room Q in \<open>simp_all add: balloc_group_ok_def Let_def\<close>)
qed

text \<open>Storing the changed bitmap, after the bitmap block was got.\<close>

lemma balloc_save_bitmap_rule:
  assumes a: "fs_at rep fs0 (st_get (ext4_bg_get_block_bitmap bg sb) s) fs" and sb: "fs_sb fs0 = sb"
    and g: "balloc_group_ok sb bgid bg s" and r: "st_refs s (desc_block sb bgid) \<noteq> 0"
    and n: "length bm = st_bsize s"
    and Q: "\<And>fs'. fs_at rep fs0 (bitmap_saved sb bgid bg bm s) fs' \<Longrightarrow> Q () fs'"
  shows "succeeds (balloc_save_bitmap io (grp_ref sb bgid d) (blk (ext4_bg_get_block_bitmap bg sb)) bm fs) Q"
proof -
  let ?ld = "desc_block sb bgid" and ?lb = "ext4_bg_get_block_bitmap bg sb"
  have ne: "?lb \<noteq> ?ld" "?ld \<noteq> ?lb" "?lb \<noteq> 0" "?lb \<notin> st_pend s" and ga: "group_at sb bgid (st_view s) = Inr bg"
    using g by (auto simp: balloc_group_ok_def group_ready_def Let_def)
  have sbf: "fs_sb fs = sb" using fs_at_fields(1) [OF a] sb by simp
  have pe: "insert ?ld (insert ?lb (st_pend s)) - {?lb} = insert ?ld (st_pend s)" using ne by auto
  have net: "st_set ?lb (st_dirty ?lb (st_edit ?ld (desc_patch sb bgid (ext4_balloc_set_bitmap_csum sb bg bm) (st_view s ?ld))
      (st_edit ?lb bm (st_get ?lb s)))) = bitmap_saved sb bgid bg bm s"
    using ne(1,2) by (simp add: st_set_def st_dirty_def st_edit_def st_get_def bitmap_saved_def fun_upd_twist pe)
  show ?thesis
    unfolding balloc_save_bitmap_def sbf succeeds_simps succeeds_guard
    apply (rule fs_store_rule [OF a])
      apply (simp add: store_simps)
     apply (simp add: store_simps n)
    apply (frule fs_at_fields(1), simp only: sb)
    apply (rule bgr_modify_rule [where bg = bg])
        apply assumption
       apply (use r in \<open>simp add: store_simps\<close>)
      apply (use ga ne in \<open>simp add: group_at_def store_simps\<close>)
     apply (simp add: sb)
    apply (rule fs_dirty_rule)
      apply assumption
     apply (simp add: store_simps)
    apply (rule fs_set_rule)
        apply assumption
    using ne Q net by (simp_all add: store_simps)
qed

text \<open>Searching one group.\<close>

lemma balloc_group_found:
  assumes a: "fs_at rep fs0 s fs" and sb: "fs_sb fs0 = sb" and g: "balloc_group_ok sb bgid bg s"
    and r: "st_refs s (desc_block sb bgid) \<noteq> 0" and room: "st_room s \<noteq> 0"
    and f: "search (st_view s (ext4_bg_get_block_bitmap bg sb)) = Inr (Some i)" and i: "unat i < 8 * st_bsize s"
    and Q: "\<And>fs'. fs_at rep fs0 (bitmap_saved sb bgid bg
        (bmap_set (st_view s (ext4_bg_get_block_bitmap bg sb)) (unat i)) s) fs' \<Longrightarrow> Q (Some i) fs'"
  shows "succeeds (balloc_group io (grp_ref sb bgid d) search fs) Q"
proof -
  let ?lb = "ext4_bg_get_block_bitmap bg sb"
  have q: "succeeds (sread (fs_data (blk ?lb)) fs') (\<lambda>d' fs. succeeds (sbind (search d', fs) (\<lambda>r fs.
       case r of
         Some i \<Rightarrow>
           sbind (ext4_bmap_bit_set d' i, fs) (\<lambda>bm fs.
           sbind (balloc_save_bitmap io (grp_ref sb bgid d) (blk ?lb) bm fs) (\<lambda>_ fs. (Inr (Some i), fs)))
       | None \<Rightarrow> bgr_guard io (grp_ref sb bgid d) (fs_block_set io (blk ?lb) fs) (\<lambda>_ fs. (Inr None, fs)))) Q)"
    if f': "fs_at rep fs0 (st_get ?lb s) fs'" for fs'
  proof -
    have dt: "fs_data (blk ?lb) fs' = Inr (st_view s ?lb)" using fs_data_eq [OF f', of ?lb] by (simp add: store_simps)
    have n: "length (st_view s ?lb) = st_bsize s" using held_length [OF f', of ?lb] by (simp add: store_simps)
    then have st: "ext4_bmap_bit_set (st_view s ?lb) i = Inr (bmap_set (st_view s ?lb) (unat i))"
      using i by (simp add: bmap_ops_eq)
    show ?thesis
      by (simp add: succeeds_sread [where f = "fs_data _", OF dt] f st)
         (rule balloc_save_bitmap_rule [OF f' sb g r], use n Q in simp_all)
  qed
  show ?thesis
    unfolding balloc_group_def succeeds_simps
    by (rule balloc_bitmap_block_rule [OF a sb g r room]) (use q in simp)
qed

lemma balloc_group_none:
  assumes a: "fs_at rep fs0 s fs" and sb: "fs_sb fs0 = sb" and g: "balloc_group_ok sb bgid bg s"
    and r: "st_refs s (desc_block sb bgid) \<noteq> 0" and room: "st_room s \<noteq> 0"
    and f: "search (st_view s (ext4_bg_get_block_bitmap bg sb)) = Inr None"
    and Q: "\<And>fs'. fs_at rep fs0 (s\<lparr> st_room := st_room s - 1 \<rparr>) fs' \<Longrightarrow> Q None fs'"
  shows "succeeds (balloc_group io (grp_ref sb bgid d) search fs) Q"
proof -
  let ?lb = "ext4_bg_get_block_bitmap bg sb"
  have net: "st_set ?lb (st_get ?lb s) = s\<lparr> st_room := st_room s - 1 \<rparr>" by (simp add: st_set_def st_get_def)
  have ne: "?lb \<noteq> 0" "?lb \<notin> st_pend s" using g by (auto simp: balloc_group_ok_def Let_def)
  have q: "succeeds (fs_block_set io (blk ?lb) fs') (\<lambda>_. Q None)"
    if f': "fs_at rep fs0 (st_get ?lb s) fs'" for fs'
    by (rule fs_set_rule [OF f']) (use ne Q net in \<open>simp_all add: store_simps\<close>)
  have dt: "fs_data (blk ?lb) fs' = Inr (st_view s ?lb)" if "fs_at rep fs0 (st_get ?lb s) fs'" for fs'
    using fs_data_eq [OF that, of ?lb] by (simp add: store_simps)
  show ?thesis
    unfolding balloc_group_def succeeds_simps
    by (rule balloc_bitmap_block_rule [OF a sb g r room]) (simp add: succeeds_sread [where f = "fs_data _", OF dt] f q)
qed

end

text \<open>The state after the counters followed: one block taken in the superblock, the inode, the group.\<close>

definition sb_add_free :: "u64 \<Rightarrow> ext4_sblock \<Rightarrow> ext4_sblock" where
  "sb_add_free n sb = ext4_sb_set_free_blocks_cnt sb (ext4_sb_get_free_blocks_cnt sb + n)"

definition counted ::
    "ext4_sblock \<Rightarrow> u32 \<Rightarrow> ext4_bgroup \<Rightarrow> u32 \<Rightarrow> u64 \<Rightarrow> ext4_inode_ref \<Rightarrow> u64 \<Rightarrow> ext4_inode \<Rightarrow> store \<Rightarrow> store" where
  "counted sb bgid bg n u ir li i s =
     st_edit (desc_block sb bgid) (desc_patch sb bgid (bg_add_free_blocks sb n bg) (st_view s (desc_block sb bgid)))
       (st_edit li (inode_patch sb (ir_off ir) (inode_add_blocks sb u i) (st_view s li)) s)"

context block_store begin

lemma balloc_count_rule:
  assumes a: "fs_at rep fs0 s fs" and sb: "fs_sb fs0 = sb" and r: "st_refs s (desc_block sb bgid) \<noteq> 0"
    and ga: "group_at sb bgid (st_view s) = Inr bg"
    and b: "ir_block ir = blk li" and ri: "st_refs s li \<noteq> 0" and li: "li \<noteq> desc_block sb bgid"
    and i: "inode_at sb (st_view s li) (ir_off ir) = Inr i"
    and Q: "\<And>fs'. fs_at rep (fs0\<lparr> fs_sb := sb_add_free m sb \<rparr>) (counted sb bgid bg n u ir li i s) fs' \<Longrightarrow>
      Q () (fs', ir\<lparr> ir_dirty := True \<rparr>)"
  shows "succeeds (ir_modify (inode_add_blocks sb u) (fs_add_free_blocks m fs, ir))
    (\<lambda>_ s. succeeds (bgr_modify (grp_ref sb bgid d) (bg_add_free_blocks sb n) (fst s)) (\<lambda>v fs. Q v (fs, snd s)))"
proof -
  have sbf: "fs_sb fs = sb" using fs_at_fields(1) [OF a] sb by simp
  have a': "fs_at rep (fs0\<lparr> fs_sb := sb_add_free m sb \<rparr>) s (fs_add_free_blocks m fs)"
    using fs_at_sb [OF a, of "sb_add_free m sb"] by (simp add: fs_add_free_blocks_def sb_add_free_def sbf)
  have w: "inode_width (sb_add_free m sb) = inode_width sb" "bg_width (sb_add_free m sb) = bg_width sb"
    by (simp_all add: sb_add_free_def store_simps)
  have ia: "inode_at (sb_add_free m sb) = inode_at sb" unfolding fun_eq_iff inode_at_def w by simp
  have ip: "inode_patch (sb_add_free m sb) = inode_patch sb" unfolding fun_eq_iff inode_patch_def w by simp
  have q: "succeeds (bgr_modify (grp_ref sb bgid d) (bg_add_free_blocks sb n) fs') (\<lambda>v fs. Q v (fs, ir\<lparr> ir_dirty := True \<rparr>))"
    if f': "fs_at rep (fs0\<lparr> fs_sb := sb_add_free m sb \<rparr>)
      (st_edit li (inode_patch sb (ir_off ir) (inode_add_blocks sb u i) (st_view s li)) s) fs'" for fs'
    by (rule bgr_modify_rule [OF f', where bg = bg])
       (use r ga w li Q in \<open>simp_all add: store_simps group_at_def counted_def\<close>)
  have n: "length (in_blocks (inode_add_blocks sb u i)) = 15"
    unfolding inode_add_blocks_blocks using inode_at_fits [OF i] by blast
  show ?thesis
    by (rule ir_modify_rule [OF a' b ri, where i = i]) (use i n q in \<open>simp_all add: ia ip\<close>)
qed

end

text \<open>
  The net effect of an operation that changes the bitmap of a group to \<open>bm\<close> and moves blocks between
  the counters: \<open>n\<close> to the group's count and \<open>u\<close> units to the inode's.
\<close>

definition moved ::
    "ext4_sblock \<Rightarrow> u32 \<Rightarrow> ext4_bgroup \<Rightarrow> u8 list \<Rightarrow> u32 \<Rightarrow> u64 \<Rightarrow> ext4_inode_ref \<Rightarrow> u64 \<Rightarrow> ext4_inode \<Rightarrow> store \<Rightarrow> store" where
  "moved sb bgid bg bm n u ir li i s =
     s\<lparr> st_view := (st_view s)(
          ext4_bg_get_block_bitmap bg sb := bm,
          li := inode_patch sb (ir_off ir) (inode_add_blocks sb u i) (st_view s li),
          desc_block sb bgid :=
            desc_patch sb bgid (bg_sealed sb bgid (bg_add_free_blocks sb n (ext4_balloc_set_bitmap_csum sb bg bm)))
              (st_view s (desc_block sb bgid))),
        st_pend := insert li (st_pend s), st_room := st_room s - 2 \<rparr>"

lemma bg_add_free_narrow [bg_simps]: "bg_narrow sb bg \<Longrightarrow> bg_narrow sb (bg_add_free_blocks sb n bg)"
  by (simp add: bg_add_free_blocks_def bg_simps)

text \<open>The inode of the caller is on the device, apart from the two blocks of the group.\<close>

definition balloc_inode_ok ::
    "ext4_sblock \<Rightarrow> u32 \<Rightarrow> ext4_bgroup \<Rightarrow> ext4_inode_ref \<Rightarrow> u64 \<Rightarrow> ext4_inode \<Rightarrow> store \<Rightarrow> bool" where
  "balloc_inode_ok sb bgid bg ir li i s \<longleftrightarrow>
     ir_block ir = blk li \<and> st_refs s li \<noteq> 0 \<and> inode_at sb (st_view s li) (ir_off ir) = Inr i \<and>
     li \<noteq> desc_block sb bgid \<and> li \<noteq> ext4_bg_get_block_bitmap bg sb"

lemma bitmap_saved_group:
  assumes "balloc_group_ok sb bgid bg s"
  shows "group_at sb bgid (st_view (bitmap_saved sb bgid bg bm (st_get l s))) = Inr (ext4_balloc_set_bitmap_csum sb bg bm)"
proof (rule group_at_patch)
  have g: "group_at sb bgid (st_view s) = Inr bg" using assms by (simp add: balloc_group_ok_def group_ready_def)
  show "desc_off sb bgid + bg_width sb \<le> length (st_view s (desc_block sb bgid))" by (rule group_at_fits [OF g])
  show "bg_narrow sb (ext4_balloc_set_bitmap_csum sb bg bm)" using group_at_narrow [OF g] by (simp add: bg_simps)
qed (simp add: bitmap_saved_def store_simps)

lemma counted_group:
  assumes g: "group_at sb bgid (st_view s) = Inr bg"
  shows "group_at sb bgid (st_view (counted sb bgid bg n u ir li i s)) = Inr (bg_add_free_blocks sb n bg)"
proof (rule group_at_patch)
  show "desc_off sb bgid + bg_width sb \<le> length (st_view s (desc_block sb bgid))" by (rule group_at_fits [OF g])
  show "bg_narrow sb (bg_add_free_blocks sb n bg)" using group_at_narrow [OF g] by (simp add: bg_simps)
qed (simp add: counted_def store_simps)

lemma moved_net:
  assumes g: "balloc_group_ok sb bgid bg s" and i: "balloc_inode_ok sb bgid bg ir li i s" and p: "desc_block sb bgid \<notin> st_pend s"
  shows "st_set (desc_block sb bgid) (st_dirty (desc_block sb bgid) (st_edit (desc_block sb bgid)
     (desc_patch sb bgid (bg_sealed sb bgid (bg_add_free_blocks sb n (ext4_balloc_set_bitmap_csum sb bg bm)))
       (st_view (counted sb bgid (ext4_balloc_set_bitmap_csum sb bg bm) n u ir li i
          (bitmap_saved sb bgid bg bm (st_get (desc_block sb bgid) s))) (desc_block sb bgid)))
     (counted sb bgid (ext4_balloc_set_bitmap_csum sb bg bm) n u ir li i
        (bitmap_saved sb bgid bg bm (st_get (desc_block sb bgid) s))))) =
   moved sb bgid bg bm n u ir li i s"
proof -
  let ?ld = "desc_block sb bgid" and ?lb = "ext4_bg_get_block_bitmap bg sb"
  have ne: "li \<noteq> ?ld" "li \<noteq> ?lb" "?lb \<noteq> ?ld" using g i by (auto simp: balloc_group_ok_def balloc_inode_ok_def Let_def)
  have pe: "insert ?ld (insert li (insert ?ld (st_pend s))) - {?ld} = insert li (st_pend s)" using ne p by auto
  have "desc_off sb bgid + bg_width sb \<le> length (st_view s ?ld)"
    using g by (intro group_at_fits [where bg = bg]) (simp add: balloc_group_ok_def group_ready_def)
  then show ?thesis using ne
    by (simp add: st_set_def st_dirty_def st_edit_def st_get_def counted_def bitmap_saved_def moved_def pe fun_upd_twist)
qed

context block_store begin

text \<open>The end of every operation: the counters, then the group reference.\<close>

lemma balloc_finish_rule:
  assumes a: "fs_at rep fs0 (bitmap_saved sb bgid bg bm (st_get (desc_block sb bgid) s)) fs" and sb: "fs_sb fs0 = sb"
    and g: "balloc_group_ok sb bgid bg s" and i: "balloc_inode_ok sb bgid bg ir li i s" and p: "desc_block sb bgid \<notin> st_pend s"
    and Q: "\<And>fs'. fs_at rep (fs0\<lparr> fs_sb := sb_add_free m sb \<rparr>) (moved sb bgid bg bm n u ir li i s) fs' \<Longrightarrow>
      Q () (fs', ir\<lparr> ir_dirty := True \<rparr>)"
  shows "succeeds (ir_modify (inode_add_blocks sb u) (fs_add_free_blocks m fs, ir))
    (\<lambda>_ s. succeeds (bgr_modify (grp_ref sb bgid d) (bg_add_free_blocks sb n) (fst s))
      (\<lambda>_ fs. succeeds (ext4_fs_put_block_group_ref io (grp_ref sb bgid True) fs) (\<lambda>v fs. Q v (fs, snd s))))"
proof -
  let ?s1 = "bitmap_saved sb bgid bg bm (st_get (desc_block sb bgid) s)"
  have ne: "li \<noteq> desc_block sb bgid" "desc_block sb bgid \<noteq> 0" "li \<noteq> ext4_bg_get_block_bitmap bg sb"
    using i g by (auto simp: balloc_inode_ok_def balloc_group_ok_def group_ready_def)
  have w: "bg_width (sb_add_free m sb) = bg_width sb"
    "ext4_fs_bg_checksum (sb_add_free m sb) = ext4_fs_bg_checksum sb" by (simp_all add: sb_add_free_def store_simps fun_eq_iff)
  have rf: "st_refs ?s1 (desc_block sb bgid) \<noteq> 0" by (simp add: bitmap_saved_def store_simps)
  have ri: "st_refs ?s1 li \<noteq> 0" "st_view ?s1 li = st_view s li" "ir_block ir = blk li"
    using i ne by (simp_all add: bitmap_saved_def store_simps balloc_inode_ok_def)
  have ii: "inode_at sb (st_view ?s1 li) (ir_off ir) = Inr i" using i ri(2) by (simp add: balloc_inode_ok_def)
  note ga = bitmap_saved_group [OF g, of bm "desc_block sb bgid"]
  have q: "succeeds (ext4_fs_put_block_group_ref io (grp_ref sb bgid True) fs') (\<lambda>v fs. Q v (fs, ir\<lparr> ir_dirty := True \<rparr>))"
    if f': "fs_at rep (fs0\<lparr> fs_sb := sb_add_free m sb \<rparr>)
      (counted sb bgid (ext4_balloc_set_bitmap_csum sb bg bm) n u ir li i ?s1) fs'" for fs'
  proof (rule put_group_rule [OF f'])
    show "st_refs (counted sb bgid (ext4_balloc_set_bitmap_csum sb bg bm) n u ir li i ?s1) (desc_block sb bgid) \<noteq> 0"
      using rf by (simp add: counted_def store_simps)
    show "group_at sb bgid (st_view (counted sb bgid (ext4_balloc_set_bitmap_csum sb bg bm) n u ir li i ?s1)) =
      Inr (bg_add_free_blocks sb n (ext4_balloc_set_bitmap_csum sb bg bm))" by (rule counted_group [OF ga])
  qed (use w ne(2) Q in \<open>simp_all add: moved_net [OF g i p]\<close>)
  show ?thesis
    by (rule succeeds_mono [OF balloc_count_rule [OF a sb rf ga ri(3) ri(1) ne(1) ii,
        where Q = "\<lambda>v s. succeeds (ext4_fs_put_block_group_ref io (grp_ref sb bgid True) (fst s)) (\<lambda>v fs. Q v (fs, snd s))"]])
       (use q in simp_all)
qed

end

section \<open>Claiming a given block\<close>

definition block_bitmap :: "ext4_sblock \<Rightarrow> ext4_bgroup \<Rightarrow> store \<Rightarrow> u8 list" where
  "block_bitmap sb bg s = st_view s (ext4_bg_get_block_bitmap bg sb)"

definition balloc_units :: "ext4_sblock \<Rightarrow> u32" where
  "balloc_units sb = ext4_sb_get_block_size sb div EXT4_INODE_BLOCK_SIZE"

lemma group_ok_get:
  "balloc_group_ok sb bgid bg s \<Longrightarrow> balloc_group_ok sb bgid bg (st_get l s)"
  by (simp add: balloc_group_ok_def group_ready_def store_simps group_at_def)

text \<open>The state after block \<open>i\<close> of the group is taken.\<close>

definition taken ::
    "ext4_sblock \<Rightarrow> u32 \<Rightarrow> ext4_bgroup \<Rightarrow> u32 \<Rightarrow> ext4_inode_ref \<Rightarrow> u64 \<Rightarrow> ext4_inode \<Rightarrow> store \<Rightarrow> store" where
  "taken sb bgid bg idx ir li i s =
     moved sb bgid bg (bmap_set (block_bitmap sb bg s) (unat idx)) (- 1) (ucast (balloc_units sb)) ir li i s"

context block_store begin

lemma debit_put_rule:
  assumes a: "fs_at rep fs0 (bitmap_saved sb bgid bg bm (st_get (desc_block sb bgid) s)) fs" and sb: "fs_sb fs0 = sb"
    and g: "balloc_group_ok sb bgid bg s" and i: "balloc_inode_ok sb bgid bg ir li i s" and p: "desc_block sb bgid \<notin> st_pend s"
    and Q: "\<And>fs'. fs_at rep (fs0\<lparr> fs_sb := sb_add_free (- 1) sb \<rparr>)
        (moved sb bgid bg bm (- 1) (ucast (balloc_units sb)) ir li i s) fs' \<Longrightarrow> Q () (fs', ir\<lparr> ir_dirty := True \<rparr>)"
  shows "succeeds (balloc_debit (grp_ref sb bgid d) (fs, ir)) (\<lambda>_ s.
    succeeds (ext4_fs_put_block_group_ref io (grp_ref sb bgid True) (fst s)) (\<lambda>v fs. Q v (fs, snd s)))"
proof -
  have sbf: "fs_sb fs = sb" using fs_at_fields(1) [OF a] sb by simp
  show ?thesis
    using balloc_finish_rule [OF a sb g i p, where m = "- 1" and n = "- 1" and u = "ucast (balloc_units sb)" and d = d and Q = Q] Q
    by (simp add: balloc_debit_def sbf Let_def balloc_units_def)
qed

lemma try_alloc_rule:
  assumes a: "fs_at rep fs0 s fs" and sb: "fs_sb fs0 = sb" and bgid: "bgid = ext4_balloc_get_bgid_of_block sb baddr"
    and g: "balloc_group_ok sb bgid bg s" and i: "balloc_inode_ok sb bgid bg ir li i s" and p: "desc_block sb bgid \<notin> st_pend s"
    and room: "2 \<le> st_room s" and idx: "idx = ext4_fs_addr_to_idx_bg sb baddr" "unat idx < 8 * st_bsize s"
    and taken: "\<And>fs'. \<not> bmap_bit (block_bitmap sb bg s) (unat idx) \<Longrightarrow>
        fs_at rep (fs0\<lparr> fs_sb := sb_add_free (- 1) sb \<rparr>) (taken sb bgid bg idx ir li i s) fs' \<Longrightarrow>
        Q True (fs', ir\<lparr> ir_dirty := True \<rparr>)"
    and used: "\<And>fs'. bmap_bit (block_bitmap sb bg s) (unat idx) \<Longrightarrow>
        fs_at rep fs0 (s\<lparr> st_room := st_room s - 2 \<rparr>) fs' \<Longrightarrow> Q False (fs', ir)"
  shows "succeeds (ext4_balloc_try_alloc_block io baddr (fs, ir)) Q"
proof -
  let ?ld = "desc_block sb bgid" and ?s1 = "st_get (desc_block sb bgid) s"
  let ?srch = "\<lambda>d. rbind (ext4_bmap_is_bit_clr d idx) (\<lambda>clr. Inr (if clr then Some idx else None))"
  have sbf: "fs_sb fs = sb" using fs_at_fields(1) [OF a] sb by simp
  have gr: "group_ready sb (st_view s) bgid bg" "?ld < st_cnt s" using g by (simp_all add: balloc_group_ok_def)
  note g1 = group_ok_get [OF g, of ?ld]
  have r1: "st_refs ?s1 ?ld \<noteq> 0" "st_room ?s1 \<noteq> 0" using room by (simp_all add: store_simps)
  have n: "length (block_bitmap sb bg s) = st_bsize s"
    using a g store_length by (auto simp: fs_at_def balloc_group_ok_def Let_def block_bitmap_def)
  then have sr: "?srch (block_bitmap sb bg s) = Inr (if bmap_bit (block_bitmap sb bg s) (unat idx) then None else Some idx)"
    using idx(2) by (simp add: bmap_ops_eq)
  have q: "succeeds (balloc_group io (grp_ref sb bgid False) ?srch fs') (\<lambda>r fs. succeeds
       (if r \<noteq> None then
             sbind (balloc_debit (grp_ref sb bgid False) (fs, ir)) (\<lambda>_ s.
             sbind (on_fs (ext4_fs_put_block_group_ref io (grp_ref sb bgid True)) s) (\<lambda>_ s.
             (Inr True, s)))
           else
             sbind (on_fs (ext4_fs_put_block_group_ref io (grp_ref sb bgid False)) (fs, ir)) (\<lambda>_ s. (Inr False, s))) Q)"
    if f': "fs_at rep fs0 ?s1 fs'" for fs'
  proof (cases "bmap_bit (block_bitmap sb bg s) (unat idx)")
    case True
    have net: "st_set ?ld (?s1\<lparr> st_room := st_room ?s1 - 1 \<rparr>) = s\<lparr> st_room := st_room s - 2 \<rparr>"
      by (simp add: st_set_def st_get_def)
    show ?thesis
    proof (rule balloc_group_none [OF f' sb g1 r1])
      show "?srch (st_view ?s1 (ext4_bg_get_block_bitmap bg sb)) = Inr None"
        using sr True by (simp add: block_bitmap_def store_simps)
      fix fs'' assume f'': "fs_at rep fs0 (?s1\<lparr> st_room := st_room ?s1 - 1 \<rparr>) fs''"
      have "succeeds (ext4_fs_put_block_group_ref io (grp_ref sb bgid False) fs'') (\<lambda>_ fs. Q False (fs, ir))"
      proof (rule put_group_clean_rule [OF f''])
        show "fs_at rep fs0 (st_set ?ld (?s1\<lparr> st_room := st_room ?s1 - 1 \<rparr>)) fs \<Longrightarrow> Q False (fs, ir)" for fs
          unfolding net by (rule used [OF True])
      qed (use r1 p gr in \<open>simp_all add: store_simps group_ready_def\<close>)
      then show "succeeds (if None \<noteq> None then
             sbind (balloc_debit (grp_ref sb bgid False) (fs'', ir)) (\<lambda>_ s.
             sbind (on_fs (ext4_fs_put_block_group_ref io (grp_ref sb bgid True)) s) (\<lambda>_ s.
             (Inr True, s)))
           else
             sbind (on_fs (ext4_fs_put_block_group_ref io (grp_ref sb bgid False)) (fs'', ir)) (\<lambda>_ s. (Inr False, s))) Q"
        by simp
    qed
  next
    case False
    let ?bm = "bmap_set (block_bitmap sb bg s) (unat idx)"
    have v: "st_view ?s1 (ext4_bg_get_block_bitmap bg sb) = block_bitmap sb bg s" by (simp add: block_bitmap_def store_simps)
    show ?thesis
    proof (rule balloc_group_found [OF f' sb g1 r1, where i = idx])
      show "?srch (st_view ?s1 (ext4_bg_get_block_bitmap bg sb)) = Inr (Some idx)"
        using sr False by (simp add: v)
      show "unat idx < 8 * st_bsize ?s1" using idx(2) by (simp add: store_simps)
      fix fs'' assume f'': "fs_at rep fs0 (bitmap_saved sb bgid bg
        (bmap_set (st_view ?s1 (ext4_bg_get_block_bitmap bg sb)) (unat idx)) ?s1) fs''"
      have "succeeds (balloc_debit (grp_ref sb bgid False) (fs'', ir)) (\<lambda>_ s.
        succeeds (ext4_fs_put_block_group_ref io (grp_ref sb bgid True) (fst s)) (\<lambda>v fs. Q True (fs, snd s)))"
        by (rule debit_put_rule [OF f''[unfolded v] sb g i p]) (use taken [OF False] in \<open>simp add: taken_def\<close>)
      then show "succeeds (if Some idx \<noteq> None then
             sbind (balloc_debit (grp_ref sb bgid False) (fs'', ir)) (\<lambda>_ s.
             sbind (on_fs (ext4_fs_put_block_group_ref io (grp_ref sb bgid True)) s) (\<lambda>_ s.
             (Inr True, s)))
           else
             sbind (on_fs (ext4_fs_put_block_group_ref io (grp_ref sb bgid False)) (fs'', ir)) (\<lambda>_ s. (Inr False, s))) Q"
        by simp
    qed
  qed
  show ?thesis
    unfolding ext4_balloc_try_alloc_block_def succeeds_simps succeeds_on_fs fst_conv snd_conv sbf Let_def
      bgid [symmetric] idx(1) [symmetric]
    by (rule get_group_rule [OF a gr(1) sb gr(2)], use room in simp, drule q,
        simp only: succeeds_on_fs fst_conv snd_conv grp_ref_simps)
qed

end

section \<open>Freeing a block\<close>

text \<open>The state after block \<open>i\<close> of the group is given back, before its cached bytes are dropped.\<close>

definition given_back ::
    "ext4_sblock \<Rightarrow> u32 \<Rightarrow> ext4_bgroup \<Rightarrow> u32 \<Rightarrow> ext4_inode_ref \<Rightarrow> u64 \<Rightarrow> ext4_inode \<Rightarrow> store \<Rightarrow> store" where
  "given_back sb bgid bg idx ir li i s =
     moved sb bgid bg (bmap_clr (block_bitmap sb bg s) (unat idx)) 1 (- ucast (balloc_units sb)) ir li i s"

lemma moved_net_view:
  fixes sb bgid bg bm n u ir li i s
  defines "s3 \<equiv> counted sb bgid (ext4_balloc_set_bitmap_csum sb bg bm) n u ir li i
                 (bitmap_saved sb bgid bg bm (st_get (desc_block sb bgid) s))"
  assumes g: "balloc_group_ok sb bgid bg s" and i: "balloc_inode_ok sb bgid bg ir li i s"
    and p: "desc_block sb bgid \<notin> st_pend s" and v: "\<And>k. k \<notin> K \<Longrightarrow> v k = st_view s3 k"
    and K: "desc_block sb bgid \<notin> K"
  shows "\<exists>v'. (\<forall>k. k \<notin> K \<longrightarrow> v' k = st_view (moved sb bgid bg bm n u ir li i s) k) \<and>
    st_set (desc_block sb bgid) (st_dirty (desc_block sb bgid) (st_edit (desc_block sb bgid)
       (desc_patch sb bgid (bg_sealed sb bgid (bg_add_free_blocks sb n (ext4_balloc_set_bitmap_csum sb bg bm)))
         (st_view (s3\<lparr> st_view := v \<rparr>) (desc_block sb bgid))) (s3\<lparr> st_view := v \<rparr>))) =
    (moved sb bgid bg bm n u ir li i s)\<lparr> st_view := v' \<rparr>"
proof -
  let ?ld = "desc_block sb bgid"
  let ?d = "desc_patch sb bgid (bg_sealed sb bgid (bg_add_free_blocks sb n (ext4_balloc_set_bitmap_csum sb bg bm)))"
  have vl: "v ?ld = st_view s3 ?ld" using v K by blast
  have net: "st_set ?ld (st_dirty ?ld (st_edit ?ld (?d (st_view s3 ?ld)) s3)) = moved sb bgid bg bm n u ir li i s"
    using moved_net [OF g i p] by (simp add: s3_def)
  have "st_set ?ld (st_dirty ?ld (st_edit ?ld (?d (st_view s3 ?ld)) (s3\<lparr> st_view := v \<rparr>))) =
      (st_set ?ld (st_dirty ?ld (st_edit ?ld (?d (st_view s3 ?ld)) s3)))\<lparr> st_view := v(?ld := ?d (st_view s3 ?ld)) \<rparr>"
    by (simp add: st_set_def st_dirty_def st_edit_def)
  moreover have "(v(?ld := ?d (st_view s3 ?ld))) k = st_view (moved sb bgid bg bm n u ir li i s) k" if "k \<notin> K" for k
    unfolding net [symmetric] using v [OF that] by (simp add: store_simps)
  ultimately show ?thesis unfolding net by (intro exI [of _ "v(?ld := ?d (st_view s3 ?ld))"]) (simp add: vl)
qed

context block_store begin

lemma fs_invalidate_rule:
  assumes a: "fs_at rep fs0 s fs" and e: "unat from + unat cnt < 2 ^ 64" "cnt \<noteq> 0"
    and r: "\<And>k. from \<le> k \<Longrightarrow> unat k < unat from + unat cnt \<Longrightarrow> st_refs s k = 0"
  shows "\<exists>v. (\<forall>k. k \<notin> {k. from \<le> k \<and> unat k < unat from + unat cnt} \<longrightarrow> v k = st_view s k) \<and>
    fs_at rep fs0 (s\<lparr> st_view := v \<rparr>) (fs_invalidate_lba from cnt fs)"
proof -
  obtain bd where f: "fs = fs0\<lparr> fs_bdev := bd \<rparr>" and b: "rep bd s" using a by (auto simp: fs_at_def)
  from store_invalidate [OF b e r] show ?thesis by (auto simp: fs_at_def f fs_invalidate_lba_def)
qed

lemma free_block_rule:
  assumes a: "fs_at rep fs0 s fs" and sb: "fs_sb fs0 = sb" and bgid: "bgid = ext4_balloc_get_bgid_of_block sb baddr"
    and g: "balloc_group_ok sb bgid bg s" and i: "balloc_inode_ok sb bgid bg ir li i s" and p: "desc_block sb bgid \<notin> st_pend s"
    and room: "2 \<le> st_room s" and idx: "idx = ext4_fs_addr_to_idx_bg sb baddr" "unat idx < 8 * st_bsize s"
    and bad: "baddr < st_cnt s" "st_refs s baddr = 0" "baddr \<noteq> desc_block sb bgid"
    and Q: "\<And>v fs'. (\<And>k. k \<noteq> baddr \<Longrightarrow> v k = st_view (given_back sb bgid bg idx ir li i s) k) \<Longrightarrow>
        fs_at rep (fs0\<lparr> fs_sb := sb_add_free 1 sb \<rparr>) ((given_back sb bgid bg idx ir li i s)\<lparr> st_view := v \<rparr>) fs' \<Longrightarrow>
        Q () (fs', ir\<lparr> ir_dirty := True \<rparr>)"
  shows "succeeds (ext4_balloc_free_block io baddr (fs, ir)) Q"
proof -
  let ?ld = "desc_block sb bgid" and ?lb = "ext4_bg_get_block_bitmap bg sb" and ?s1 = "st_get (desc_block sb bgid) s"
  let ?bm = "bmap_clr (block_bitmap sb bg s) (unat idx)"
  let ?s2 = "bitmap_saved sb bgid bg ?bm ?s1"
  let ?bg1 = "ext4_balloc_set_bitmap_csum sb bg ?bm" and ?u = "- ucast (balloc_units sb) :: u64"
  let ?s3 = "counted sb bgid ?bg1 1 ?u ir li i ?s2" and ?fs1 = "fs0\<lparr> fs_sb := sb_add_free 1 sb \<rparr>"
  have gr: "group_ready sb (st_view s) bgid bg" "?ld < st_cnt s" "?ld \<noteq> 0" and lb: "?lb < st_cnt s"
    using g by (simp_all add: balloc_group_ok_def group_ready_def Let_def)
  have w: "bg_width (sb_add_free 1 sb) = bg_width sb" "ext4_fs_bg_checksum (sb_add_free 1 sb) = ext4_fs_bg_checksum sb"
    by (simp_all add: sb_add_free_def store_simps fun_eq_iff)
  note g1 = group_ok_get [OF g, of ?ld]
  have r1: "st_refs ?s1 ?ld \<noteq> 0" "st_room ?s1 \<noteq> 0" "st_refs ?s2 ?ld \<noteq> 0" "st_refs ?s3 ?ld \<noteq> 0"
    using room by (simp_all add: store_simps bitmap_saved_def counted_def)
  have n: "length (block_bitmap sb bg s) = st_bsize s" using a store_length lb by (auto simp: fs_at_def block_bitmap_def)
  then have clr: "ext4_bmap_bit_clr (block_bitmap sb bg s) idx = Inr ?bm" using idx(2) by (simp add: bmap_ops_eq)
  note ga2 = bitmap_saved_group [OF g, of ?bm ?ld] and ga3 = counted_group [OF bitmap_saved_group [OF g, of ?bm ?ld]]
  have en: "unat baddr + unat (1 :: u32) < 2 ^ 64"
  proof -
    have "unat baddr < unat (st_cnt s)" using bad(1) by (simp add: word_less_nat_alt)
    with unat_lt64 [of "st_cnt s"] show ?thesis by simp
  qed
  have rng: "{k. baddr \<le> k \<and> unat k < unat baddr + unat (1 :: u32)} = {baddr}"
    by (auto simp: word_le_nat_alt word_unat_eq_iff)
  have put: "succeeds (ext4_fs_put_block_group_ref io (grp_ref sb bgid True) (fs_invalidate_lba baddr 1 fs'))
      (\<lambda>v fs. Q v (fs, ir\<lparr> ir_dirty := True \<rparr>))" if f': "fs_at rep ?fs1 ?s3 fs'" for fs'
  proof -
    have rf: "st_refs ?s3 k = 0" if "baddr \<le> k" "unat k < unat baddr + unat (1 :: u32)" for k
    proof -
      have "k = baddr" using that rng by blast
      then show ?thesis using bad by (simp add: counted_def bitmap_saved_def store_simps)
    qed
    obtain v where v: "\<forall>k. k \<notin> {baddr} \<longrightarrow> v k = st_view ?s3 k"
      and fv: "fs_at rep ?fs1 (?s3\<lparr> st_view := v \<rparr>) (fs_invalidate_lba baddr 1 fs')"
      using fs_invalidate_rule [OF f' en _ rf] unfolding rng by auto
    have gv: "group_at sb bgid v = Inr (bg_add_free_blocks sb 1 ?bg1)"
      using ga3 v bad(3) by (simp add: group_at_def)
    have "?ld \<notin> {baddr}" using bad(3) by simp
    from moved_net_view [OF g i p, where bm = ?bm and n = 1 and u = ?u, OF v [rule_format] this] obtain v' where
      v': "\<forall>k. k \<notin> {baddr} \<longrightarrow> v' k = st_view (given_back sb bgid bg idx ir li i s) k"
        "st_set ?ld (st_dirty ?ld (st_edit ?ld (desc_patch sb bgid (bg_sealed sb bgid (bg_add_free_blocks sb 1 ?bg1))
          (st_view (?s3\<lparr> st_view := v \<rparr>) ?ld)) (?s3\<lparr> st_view := v \<rparr>))) =
        (given_back sb bgid bg idx ir li i s)\<lparr> st_view := v' \<rparr>"
      unfolding given_back_def by blast
    show ?thesis
    proof (rule put_group_rule [OF fv])
      show "st_refs (?s3\<lparr> st_view := v \<rparr>) ?ld \<noteq> 0" using r1(4) by simp
      show "group_at sb bgid (st_view (?s3\<lparr> st_view := v \<rparr>)) = Inr (bg_add_free_blocks sb 1 ?bg1)" using gv by simp
      fix fs
      assume "fs_at rep ?fs1 (st_set ?ld (st_dirty ?ld (st_edit ?ld (desc_patch sb bgid (bg_sealed sb bgid
          (bg_add_free_blocks sb 1 ?bg1)) (st_view (?s3\<lparr> st_view := v \<rparr>) ?ld)) (?s3\<lparr> st_view := v \<rparr>)))) fs"
      then show "Q () (fs, ir\<lparr> ir_dirty := True \<rparr>)" unfolding v'(2) by (intro Q) (use v'(1) in auto)
    qed (use w gr in simp_all)
  qed
  have credit: "succeeds (balloc_credit (grp_ref sb bgid False) 1 (fs', ir)) (\<lambda>_ s.
      succeeds (ext4_fs_put_block_group_ref io (grp_ref sb bgid True) (fs_invalidate_lba baddr 1 (fst s)))
        (\<lambda>v fs. Q v (fs, snd s)))" if f': "fs_at rep fs0 ?s2 fs'" for fs'
  proof -
    have sbf: "fs_sb fs' = sb" using fs_at_fields(1) [OF f'] sb by simp
    have io: "ir_block ir = blk li" "st_refs ?s2 li \<noteq> 0" "li \<noteq> ?ld" "inode_at sb (st_view ?s2 li) (ir_off ir) = Inr i"
      using i by (simp_all add: balloc_inode_ok_def bitmap_saved_def store_simps)
    show ?thesis
      using balloc_count_rule [OF f' sb r1(3) ga2 io(1,2,3,4), where m = 1 and n = 1 and u = ?u and d = False and
          Q = "\<lambda>_ s. succeeds (ext4_fs_put_block_group_ref io (grp_ref sb bgid True) (fs_invalidate_lba baddr 1 (fst s)))
            (\<lambda>v fs. Q v (fs, snd s))"] put
      by (simp add: balloc_credit_def sbf Let_def balloc_units_def)
  qed
  have body: "succeeds (balloc_bitmap_block io (grp_ref sb bgid False) fs') (\<lambda>b fs.
      succeeds (sread (\<lambda>fs. rbind (fs_data b fs) (\<lambda>d. ext4_bmap_bit_clr d idx)) fs) (\<lambda>bm fs.
      succeeds (balloc_save_bitmap io (grp_ref sb bgid False) b bm fs) (\<lambda>_ fs.
      succeeds (balloc_credit (grp_ref sb bgid False) 1 (fs, ir)) (\<lambda>_ s.
      succeeds (ext4_fs_put_block_group_ref io (grp_ref sb bgid True) (fs_invalidate_lba baddr 1 (fst s)))
        (\<lambda>v fs. Q v (fs, snd s))))))" if f': "fs_at rep fs0 ?s1 fs'" for fs'
  proof (rule balloc_bitmap_block_rule [OF f' sb g1 r1(1,2)])
    fix fs'' assume f'': "fs_at rep fs0 (st_get ?lb ?s1) fs''"
    have "fs_data (blk ?lb) fs'' = Inr (block_bitmap sb bg s)"
      using fs_data_eq [OF f'', of ?lb] by (simp add: store_simps block_bitmap_def)
    then have sr: "sread (\<lambda>fs. rbind (fs_data (blk ?lb) fs) (\<lambda>d. ext4_bmap_bit_clr d idx)) fs'' = (Inr ?bm, fs'')"
      by (simp add: sread_def clr)
    show "succeeds (sread (\<lambda>fs. rbind (fs_data (blk ?lb) fs) (\<lambda>d. ext4_bmap_bit_clr d idx)) fs'') (\<lambda>bm fs.
      succeeds (balloc_save_bitmap io (grp_ref sb bgid False) (blk ?lb) bm fs) (\<lambda>_ fs.
      succeeds (balloc_credit (grp_ref sb bgid False) 1 (fs, ir)) (\<lambda>_ s.
      succeeds (ext4_fs_put_block_group_ref io (grp_ref sb bgid True) (fs_invalidate_lba baddr 1 (fst s)))
        (\<lambda>v fs. Q v (fs, snd s)))))"
      unfolding sr succeeds_simps
      by (rule balloc_save_bitmap_rule [OF f'' sb g1 r1(1)]) (use n credit in \<open>simp_all add: store_simps\<close>)
  qed
  have sbf: "fs_sb fs = sb" using fs_at_fields(1) [OF a] sb by simp
  show ?thesis
    unfolding ext4_balloc_free_block_def succeeds_simps succeeds_on_fs fst_conv snd_conv sbf Let_def
      bgid [symmetric] idx(1) [symmetric]
    by (rule get_group_rule [OF a gr(1) sb gr(2)], use room in simp, drule body,
        simp only: succeeds_on_fs fst_conv snd_conv grp_ref_simps)
qed

end

end
