(* ===== verification/BallocAlloc.thy ===== *)
theory BallocAlloc
  imports BallocSpec
begin

text \<open>
  The block allocator's search, \<^verbatim>\<open>ext4_balloc_alloc_block\<close>: the search inside a bitmap finds the least
  clear bit from the goal on (the early answer of \<^verbatim>\<open>ext4_bmap_bit_find_clr\<close> never shows, because the
  stretch before it was searched bit by bit), and the search over the groups takes a free block
  whenever a group has one.
\<close>

section \<open>Inside a bitmap\<close>

abbreviation found :: "nat option \<Rightarrow> u32 option res" where "found r \<equiv> Inr (map_option of_nat r)"

lemma balloc_near_first:
  assumes "unat i + k \<le> 8 * length d" and "8 * length d < 2 ^ 32"
  shows "balloc_near k d i = found (first_clr d (unat i) (unat i + k))"
  using assms
proof (induction k arbitrary: i)
  case 0
  then show ?case by (simp add: first_clr_empty)
next
  case (Suc k)
  then have inc: "unat (i + 1) = unat i + 1" by (intro unat_inc) simp
  have "ext4_bmap_is_bit_clr d i = Inr (\<not> bmap_bit d (unat i))" using Suc.prems by (simp add: bmap_ops_eq)
  moreover have "balloc_near k d (i + 1) = found (first_clr d (unat i + 1) (unat i + 1 + k))"
    using Suc.IH [of "i + 1"] Suc.prems by (simp add: inc)
  ultimately show ?case by (simp add: first_clr_step)
qed

lemma balloc_find_first:
  assumes "unat idx \<le> unat n" and "unat n \<le> 8 * length d" and "8 * length d < 2 ^ 32"
    and set: "\<And>i. unat idx \<le> i \<Longrightarrow> i < unat n \<Longrightarrow> i < 8 * ((unat idx + 7) div 8) \<Longrightarrow> bmap_bit d i"
  shows "balloc_find d idx n = found (first_clr d (unat idx) (unat n))"
proof -
  have "first_clr d (unat idx) (min (unat n) (8 * ((unat idx + 7) div 8))) = None" using set by (simp add: first_clr_None)
  then show ?thesis
    by (simp add: balloc_find_def find_clr_complete [OF assms(1-3)] clr_result_def split: option.split)
qed

lemma unat_round64:
  assumes "unat x + 63 < 2 ^ 32"
  shows "unat ((x + 63) AND NOT 63 :: u32) = 64 * ((unat x + 63) div 64)"
proof -
  let ?y = "x + 63"
  have y: "unat ?y = unat x + 63" using assms by (subst unat_add_le) simp_all
  have m: "(63 :: u32) = mask 6" by (simp add: mask_eq_exp_minus_1)
  have "y AND NOT (mask 6) = push_bit 6 (drop_bit 6 y)" for y :: u32
    by (rule bit_word_eqI) (auto simp: bit_simps not_less)
  then have "?y AND NOT 63 = push_bit 6 (drop_bit 6 ?y)" unfolding m [symmetric] .
  also have "\<dots> = drop_bit 6 ?y * 64" by (simp add: push_bit_eq_mult)
  also have "unat \<dots> = unat (drop_bit 6 ?y) * 64"
  proof -
    have "unat (drop_bit 6 ?y) * 64 \<le> unat ?y" by (simp add: unat_drop_bit_eq drop_bit_eq_div unat_div)
    then have "unat (drop_bit 6 ?y) * unat (64 :: u32) < 2 ^ 32" using unat_lt32 [of ?y] by simp
    then show ?thesis by (subst unat_mult_le) simp_all
  qed
  finally show ?thesis by (simp add: unat_drop_bit_eq drop_bit_eq_div unat_div y mult.commute)
qed

lemma round64_ge:
  fixes x :: nat
  shows "x \<le> 64 * ((x + 63) div 64)" and "8 * ((x + 7) div 8) \<le> 64 * ((x + 63) div 64)"
proof -
  let ?q = "(x + 63) div 64"
  have "64 * ?q + (x + 63) mod 64 = x + 63" by (rule mult_div_mod_eq)
  moreover have "(x + 63) mod 64 < 64" by simp
  ultimately show 1: "x \<le> 64 * ?q" by linarith
  have "(x + 7) div 8 \<le> (64 * ?q + 7) div 8" using 1 by (intro div_le_mono) simp
  also have "(64 * ?q + 7) div 8 = 8 * ?q" by simp
  finally show "8 * ((x + 7) div 8) \<le> 64 * ?q" by simp
qed

lemma first_clr_prefix:
  assumes "lo \<le> e" and "e \<le> hi" and "first_clr d lo e = Some k"
  shows "first_clr d lo hi = Some k"
  using assms by (auto simp: first_clr_Some)

lemma balloc_goal_search_first:
  assumes "idx < n" and "unat n \<le> 8 * length d" and "8 * length d \<le> 2 ^ 31"
  shows "balloc_goal_search d idx n = found (first_clr d (unat idx) (unat n))"
proof -
  have lt: "unat idx < unat n" using assms(1) by (simp add: word_less_nat_alt)
  have clr: "ext4_bmap_is_bit_clr d idx = Inr (\<not> bmap_bit d (unat idx))" using lt assms(2) by (simp add: bmap_ops_eq)
  show ?thesis
  proof (cases "bmap_bit d (unat idx)")
    case False
    with clr lt show ?thesis by (simp add: balloc_goal_search_def first_clr_step)
  next
    case True
    let ?e = "64 * ((unat idx + 63) div 64)"
    let ?ew = "(idx + 63) AND NOT 63" and ?m = "min (unat n) ?e"
    let ?stop = "if ?ew > n then n else ?ew"
    have ew: "unat ?ew = ?e" using lt assms(2,3) by (intro unat_round64) simp
    have en: "unat ?stop = ?m" 
    proof -
      have "unat ?stop = (if unat n < unat ?ew then unat n else unat ?ew)" by (simp only: word_less_nat_alt if_distrib [of unat])
      then show ?thesis unfolding ew by auto
    qed
    have ge: "unat idx \<le> ?e" "8 * ((unat idx + 7) div 8) \<le> ?e" by (rule round64_ge)+
    have inc: "unat (idx + 1) = unat idx + 1" using lt assms(2,3) by (intro unat_inc) simp
    have near: "balloc_near (?m - (unat idx + 1)) d (idx + 1) = found (first_clr d (unat idx + 1) (unat idx + 1 + (?m - (unat idx + 1))))"
      using lt assms(2,3) by (subst balloc_near_first) (simp_all add: inc)
    have step: "first_clr d (unat idx) hi = first_clr d (unat idx + 1) hi" if "unat idx < hi" for hi
      using that True by (simp add: first_clr_step)
    have body: "balloc_goal_search d idx n = rbind (balloc_near (?m - (unat idx + 1)) d (idx + 1))
        (\<lambda>r. case r of Some i \<Rightarrow> Inr (Some i) | None \<Rightarrow> balloc_find d idx n)"
      using True by (simp only: balloc_goal_search_def clr rbind_simps Let_def en not_True_eq_False if_False)
    show ?thesis
    proof (cases "first_clr d (unat idx + 1) (unat idx + 1 + (?m - (unat idx + 1)))")
      case (Some k)
      then have "first_clr d (unat idx + 1) (unat n) = Some k"
        by (rule first_clr_prefix [rotated 2]) (use lt Some in \<open>auto simp: first_clr_Some\<close>)
      with body near Some step [OF lt] show ?thesis by simp
    next
      case None
      have "bmap_bit d i" if "unat idx \<le> i" "i < unat n" "i < 8 * ((unat idx + 7) div 8)" for i
        using that True None ge(2) by (cases "i = unat idx") (auto simp: first_clr_None)
      then have "balloc_find d idx n = found (first_clr d (unat idx) (unat n))"
        using lt assms by (intro balloc_find_first) auto
      with body near None show ?thesis by simp
    qed
  qed
qed

section \<open>Addresses\<close>

text \<open>A volume whose groups end below \<open>2 ^ 32\<close>: the 32-bit products of the address arithmetic do not wrap.\<close>

definition small_volume :: "ext4_sblock \<Rightarrow> bool" where
  "small_volume sb \<longleftrightarrow>
     sb_blocks_per_group sb \<noteq> 0 \<and> unat (ext4_block_group_cnt sb) * unat (sb_blocks_per_group sb) < 2 ^ 32"

lemma group_start_less:
  assumes v: "small_volume sb" and b: "bgid < ext4_block_group_cnt sb" and i: "i \<le> unat (sb_blocks_per_group sb)"
  shows "unat bgid * unat (sb_blocks_per_group sb) + i < 2 ^ 32"
proof -
  have "unat bgid + 1 \<le> unat (ext4_block_group_cnt sb)" using b by (simp add: word_less_nat_alt)
  then have "(unat bgid + 1) * unat (sb_blocks_per_group sb) \<le> unat (ext4_block_group_cnt sb) * unat (sb_blocks_per_group sb)"
    by (rule mult_le_mono1)
  with v i show ?thesis by (simp add: small_volume_def)
qed

text \<open>The group and the index of an address below the first block's offset.\<close>

lemma addr_split:
  assumes v: "small_volume sb" and b: "bgid < ext4_block_group_cnt sb" and i: "i < unat (sb_blocks_per_group sb)"
    and a: "unat a = unat bgid * unat (sb_blocks_per_group sb) + i + (if sb_first_data_block sb \<noteq> 0 then 1 else 0)"
  shows "ext4_balloc_get_bgid_of_block sb a = bgid" and "unat (ext4_fs_addr_to_idx_bg sb a) = i"
proof -
  let ?p = "sb_blocks_per_group sb" and ?c = "if sb_first_data_block sb \<noteq> 0 \<and> a \<noteq> 0 then a - 1 else a"
  have p: "0 < unat ?p" using v by (simp add: small_volume_def unat_gt_0)
  have c: "unat ?c = unat bgid * unat ?p + i" using a by (auto simp: unat_dec)
  have lt: "unat bgid * unat ?p + i < 2 ^ 32" using i by (intro group_start_less [OF v b]) simp
  have "unat (?c div ucast ?p) = unat bgid" using i p by (simp add: unat_div unat_ucast_up c div_mult_self3)
  then have "unat (ucast (?c div ucast ?p) :: u32) = unat bgid"
    by (subst unat_ucast_small) (use unat_lt32 [of bgid] in simp_all)
  then show "ext4_balloc_get_bgid_of_block sb a = bgid"
    unfolding ext4_balloc_get_bgid_of_block_def Let_def by (simp only: word_unat_eq_iff)
  have "unat (?c mod ucast ?p) = i" using i p by (simp add: unat_mod unat_ucast_up c)
  then show "unat (ext4_fs_addr_to_idx_bg sb a) = i"
    unfolding ext4_fs_addr_to_idx_bg_def Let_def
    by (subst unat_ucast_small) (use lt in simp_all)
qed

lemma idx_to_addr:
  assumes v: "small_volume sb" and b: "bgid < ext4_block_group_cnt sb" and i: "unat i < unat (sb_blocks_per_group sb)"
  shows "unat (ext4_fs_bg_idx_to_addr sb i bgid) =
    unat bgid * unat (sb_blocks_per_group sb) + unat i + (if sb_first_data_block sb \<noteq> 0 then 1 else 0)"
proof -
  let ?p = "sb_blocks_per_group sb" and ?o = "if sb_first_data_block sb \<noteq> 0 then 1 else 0 :: nat"
  let ?i = "if sb_first_data_block sb \<noteq> 0 then i + 1 else i"
  have lt: "unat bgid * unat ?p + (unat i + ?o) < 2 ^ 32" using i by (intro group_start_less [OF v b]) simp
  have ii: "unat ?i = unat i + ?o" using lt by (auto simp: unat_inc)
  have "unat (?p * bgid) = unat bgid * unat ?p" using lt by (subst unat_mult_le) (simp_all add: mult.commute)
  then have "unat (?p * bgid + ?i) = unat bgid * unat ?p + (unat i + ?o)"
    using lt ii by (subst unat_add_le) simp_all
  then show ?thesis by (simp only: ext4_fs_bg_idx_to_addr_def Let_def unat_ucast_up add.assoc)
qed

lemma idx_addr_roundtrip:
  assumes "small_volume sb" and "bgid < ext4_block_group_cnt sb" and "unat i < unat (sb_blocks_per_group sb)"
  shows "ext4_balloc_get_bgid_of_block sb (ext4_fs_bg_idx_to_addr sb i bgid) = bgid"
    and "ext4_fs_addr_to_idx_bg sb (ext4_fs_bg_idx_to_addr sb i bgid) = i"
  using addr_split [OF assms idx_to_addr [OF assms]] by (simp_all add: word_unat_eq_iff)

lemma group_first_index:
  assumes "small_volume sb" and "bgid < ext4_block_group_cnt sb"
  shows "ext4_fs_addr_to_idx_bg sb (ext4_balloc_get_block_of_bgid sb bgid) = 0"
proof -
  let ?p = "sb_blocks_per_group sb" and ?o = "if sb_first_data_block sb \<noteq> 0 then 1 else 0 :: u64"
  have p: "0 < unat ?p" using assms(1) by (simp add: small_volume_def unat_gt_0)
  have lt: "unat bgid * unat ?p + 0 < 2 ^ 32" by (intro group_start_less [OF assms]) simp
  have m: "unat (bgid * ?p) = unat bgid * unat ?p" using lt by (subst unat_mult_le) simp_all
  have "unat ?o \<le> 1" by simp
  then have "unat (?o + ucast (bgid * ?p)) = unat ?o + unat bgid * unat ?p"
    using lt by (subst unat_add_le) (simp_all add: unat_ucast_up m)
  then have "unat (ext4_balloc_get_block_of_bgid sb bgid) =
      unat bgid * unat ?p + 0 + (if sb_first_data_block sb \<noteq> 0 then 1 else 0)"
    by (auto simp: ext4_balloc_get_block_of_bgid_def)
  from addr_split(2) [OF assms p this] show ?thesis by (simp add: word_unat_eq_iff)
qed

section \<open>Over the groups\<close>

definition next_group :: "ext4_sblock \<Rightarrow> u32 \<Rightarrow> u32" where
  "next_group sb b = (b + 1) mod ext4_block_group_cnt sb"

lemma unat_next_group:
  assumes "b < ext4_block_group_cnt sb"
  shows "unat ((next_group sb ^^ j) b) = (unat b + j) mod unat (ext4_block_group_cnt sb)"
proof (induction j)
  case 0
  then show ?case using assms by (simp add: word_less_nat_alt)
next
  case (Suc j)
  let ?n = "ext4_block_group_cnt sb" and ?x = "(next_group sb ^^ j) b"
  have "0 < unat ?n" using assms by (simp add: word_less_nat_alt)
  then have "unat ?x < unat ?n" unfolding Suc.IH by simp
  then have "unat (?x + 1) = unat ?x + 1" using unat_lt32 [of ?n] by (intro unat_inc) simp
  then have "unat (next_group sb ?x) = (unat ?x + 1) mod unat ?n" by (simp add: next_group_def unat_mod)
  also have "\<dots> = (unat b + Suc j) mod unat ?n" unfolding Suc.IH by (simp add: mod_Suc_eq)
  finally show ?case by simp
qed

lemma next_group_less: "b < ext4_block_group_cnt sb \<Longrightarrow> (next_group sb ^^ j) b < ext4_block_group_cnt sb"
  by (simp add: word_less_nat_alt unat_next_group)

text \<open>The groups visited in one round are all groups.\<close>

lemma next_group_covers:
  assumes b: "b < ext4_block_group_cnt sb" and g: "g < ext4_block_group_cnt sb"
  shows "\<exists>j < unat (ext4_block_group_cnt sb). (next_group sb ^^ j) b = g"
proof -
  let ?n = "unat (ext4_block_group_cnt sb)"
  have lt: "unat b < ?n" "unat g < ?n" using b g by (simp_all add: word_less_nat_alt)
  let ?j = "(unat g + (?n - unat b)) mod ?n"
  have "unat ((next_group sb ^^ ?j) b) = (unat b + (unat g + (?n - unat b))) mod ?n"
    unfolding unat_next_group [OF b] by (rule mod_add_right_eq)
  also have "\<dots> = (unat g + ?n) mod ?n" using lt by (intro arg_cong [where f = "\<lambda>x. x mod ?n"]) linarith
  also have "\<dots> = unat g" using lt by simp
  finally have "(next_group sb ^^ ?j) b = g" by (simp add: word_unat_eq_iff)
  moreover have "?j < ?n" using lt by simp
  ultimately show ?thesis by blast
qed

text \<open>All groups can be worked on, and a bitmap block holds the bits of a group.\<close>

definition balloc_ready :: "ext4_sblock \<Rightarrow> store \<Rightarrow> bool" where
  "balloc_ready sb s \<longleftrightarrow>
     small_volume sb \<and> unat (sb_blocks_per_group sb) \<le> 8 * st_bsize s \<and> 8 * st_bsize s \<le> 2 ^ 31 \<and>
     (\<forall>g < ext4_block_group_cnt sb. ext4_blocks_in_group_cnt sb g \<le> sb_blocks_per_group sb \<and>
        desc_block sb g \<notin> st_pend s \<and> (\<exists>bg. balloc_group_ok sb g bg s))"

definition exhausted :: "ext4_sblock \<Rightarrow> u32 \<Rightarrow> ext4_bgroup \<Rightarrow> store \<Rightarrow> bool" where
  "exhausted sb g bg s \<longleftrightarrow>
     ext4_bg_get_free_blocks_count bg sb = 0 \<or>
     (\<forall>i < unat (ext4_blocks_in_group_cnt sb g). bmap_bit (block_bitmap sb bg s) i)"

lemma room_simps [simp]:
  "balloc_group_ok sb g bg (s\<lparr> st_room := k \<rparr>) = balloc_group_ok sb g bg s"
  "block_bitmap sb bg (s\<lparr> st_room := k \<rparr>) = block_bitmap sb bg s"
  "balloc_inode_ok sb g bg ir li i (s\<lparr> st_room := k \<rparr>) = balloc_inode_ok sb g bg ir li i s"
  by (simp_all add: balloc_group_ok_def block_bitmap_def balloc_inode_ok_def)

lemma balloc_group_ok_unique: "balloc_group_ok sb g bg s \<Longrightarrow> balloc_group_ok sb g bg' s \<Longrightarrow> bg' = bg"
  by (simp add: balloc_group_ok_def group_ready_def)

context block_store begin

text \<open>
  One group: with free blocks by its count, it is searched from \<open>idx\<close> by \<open>search\<close>. Either a block is
  taken and the reference held, or the reference is given back.
\<close>

lemma search_group_rule:
  assumes a: "fs_at rep fs0 (s\<lparr> st_room := k \<rparr>) fs" and sb: "fs_sb fs0 = sb" and g: "balloc_group_ok sb bgid bg s"
    and p: "desc_block sb bgid \<notin> st_pend s" and k: "2 \<le> k" and n: "unat n \<le> 8 * st_bsize s"
    and srch: "search (block_bitmap sb bg s) = found (first_clr (block_bitmap sb bg s) (unat idx) (unat n))"
    and Found: "\<And>i fs'. unat idx \<le> unat i \<Longrightarrow> i < n \<Longrightarrow> \<not> bmap_bit (block_bitmap sb bg s) (unat i) \<Longrightarrow>
        fs_at rep fs0 (bitmap_saved sb bgid bg (bmap_set (block_bitmap sb bg s) (unat i))
          (st_get (desc_block sb bgid) (s\<lparr> st_room := k \<rparr>))) fs' \<Longrightarrow> succeeds (f (grp_ref sb bgid False) (Some i) fs') Q"
    and None: "\<And>k' fs'. k - 2 \<le> k' \<Longrightarrow>
        ext4_bg_get_free_blocks_count bg sb = 0 \<or> (\<forall>i. unat idx \<le> i \<and> i < unat n \<longrightarrow> bmap_bit (block_bitmap sb bg s) i) \<Longrightarrow>
        fs_at rep fs0 (st_get (desc_block sb bgid) (s\<lparr> st_room := k' + 1 \<rparr>)) fs' \<Longrightarrow>
        succeeds (f (grp_ref sb bgid False) None fs') Q"
  shows "succeeds (ext4_fs_get_block_group_ref io bgid fs) (\<lambda>ref fs. succeeds (sread (bgr_load ref) fs) (\<lambda>bg fs.
      succeeds (if ext4_bg_get_free_blocks_count bg sb = 0 then (Inr None, fs) else balloc_group io ref search fs)
        (\<lambda>r fs. succeeds (f ref r fs) Q)))"
proof -
  let ?s = "s\<lparr> st_room := k \<rparr>" and ?ld = "desc_block sb bgid" and ?lb = "ext4_bg_get_block_bitmap bg sb"
  let ?s1 = "st_get ?ld ?s" and ?bm = "block_bitmap sb bg s"
  have gk: "balloc_group_ok sb bgid bg ?s" using g by simp
  have gr: "group_ready sb (st_view ?s) bgid bg" "?ld < st_cnt ?s" using gk by (simp_all add: balloc_group_ok_def)
  note g1 = group_ok_get [OF gk, of ?ld]
  have r1: "st_refs ?s1 ?ld \<noteq> 0" "st_room ?s1 \<noteq> 0" using k by (simp_all add: store_simps)
  have v: "st_view ?s1 ?lb = ?bm" by (simp add: block_bitmap_def store_simps)
  have q: "succeeds (sread (bgr_load (grp_ref sb bgid False)) fs') (\<lambda>bg fs.
      succeeds (if ext4_bg_get_free_blocks_count bg sb = 0 then (Inr None, fs)
                else balloc_group io (grp_ref sb bgid False) search fs)
        (\<lambda>r fs. succeeds (f (grp_ref sb bgid False) r fs) Q))" if f': "fs_at rep fs0 ?s1 fs'" for fs'
  proof -
    have ld: "bgr_load (grp_ref sb bgid False) fs' = Inr bg"
      by (rule bgr_load_eq [OF f' r1(1)]) (use gr sb in \<open>simp_all add: store_simps group_ready_def\<close>)
    show ?thesis
    proof (cases "ext4_bg_get_free_blocks_count bg sb = 0")
      case True
      have "?s1 = st_get ?ld (s\<lparr> st_room := (k - 1) + 1 \<rparr>)" using k by simp
      then have "succeeds (f (grp_ref sb bgid False) None fs') Q" using f' True by (intro None [of "k - 1"]) auto
      with True show ?thesis by (simp add: succeeds_sread [where f = "bgr_load _", OF ld])
    next
      case False
      have "succeeds (balloc_group io (grp_ref sb bgid False) search fs') (\<lambda>r fs. succeeds (f (grp_ref sb bgid False) r fs) Q)"
      proof (cases "first_clr ?bm (unat idx) (unat n)")
        case None': None
        then have all: "\<forall>i. unat idx \<le> i \<and> i < unat n \<longrightarrow> bmap_bit ?bm i" by (simp add: first_clr_None)
        have e: "?s1\<lparr> st_room := st_room ?s1 - 1 \<rparr> = st_get ?ld (s\<lparr> st_room := (k - 2) + 1 \<rparr>)"
          using k by (simp add: st_get_def)
        show ?thesis
          by (rule balloc_group_none [OF f' sb g1 r1], use srch None' in \<open>simp add: v\<close>, unfold e)
             (rule None [of "k - 2"], simp, use all in blast, assumption)
      next
        case (Some j)
        then have j: "unat idx \<le> j" "j < unat n" "\<not> bmap_bit ?bm j" by (simp_all add: first_clr_Some)
        have u: "unat (of_nat j :: u32) = j" using j(2) by (metis le_unat_uoi less_imp_le)
        show ?thesis
        proof (rule balloc_group_found [OF f' sb g1 r1, where i = "of_nat j"])
          show "search (st_view ?s1 ?lb) = Inr (Some (of_nat j))" using srch Some by (simp add: v)
          show "unat (of_nat j :: u32) < 8 * st_bsize ?s1" using j(2) n by (simp add: u store_simps)
          fix fs'' assume "fs_at rep fs0 (bitmap_saved sb bgid bg
            (bmap_set (st_view ?s1 ?lb) (unat (of_nat j :: u32))) ?s1) fs''"
          then show "succeeds (f (grp_ref sb bgid False) (Some (of_nat j)) fs'') Q"
            using j by (intro Found) (simp_all add: v u word_less_nat_alt)
        qed
      qed
      with False show ?thesis by (simp add: succeeds_sread [where f = "bgr_load _", OF ld])
    qed
  qed
  show ?thesis by (rule get_group_rule [OF a gr(1) sb gr(2)]) (use k q in simp_all)
qed

end

lemma first_index_from:
  assumes "small_volume sb" and "bgid < ext4_block_group_cnt sb"
  shows "balloc_idx_from sb bgid idx = idx"
  using group_first_index [OF assms] by (simp add: balloc_idx_from_def)

text \<open>The allocator as a sequence of its steps, each ending it when it fails.\<close>

lemma alloc_block_eq:
  "ext4_balloc_alloc_block io goal s =
     sbind (on_fs (balloc_search io goal) s) (\<lambda>r s.
       case r of
         None \<Rightarrow> (Inl ENOSPC, s)
       | Some (ref, alloc) \<Rightarrow>
           sbind (balloc_debit ref s) (\<lambda>_ s.
           sbind (on_fs (ext4_fs_put_block_group_ref io (ref\<lparr> bgr_dirty := True \<rparr>)) s) (\<lambda>_ s.
           (Inr alloc, s))))"
  by (simp add: ext4_balloc_alloc_block_def balloc_alloc_out_def sbind_def split: prod.split sum.split option.split)

context block_store begin

lemma bitmap_length:
  assumes "fs_at rep fs0 (s\<lparr> st_room := k \<rparr>) fs" and "balloc_group_ok sb g bg s"
  shows "length (block_bitmap sb bg s) = st_bsize s"
proof -
  obtain bd where "rep bd (s\<lparr> st_room := k \<rparr>)" using assms(1) by (auto simp: fs_at_def)
  from store_length [OF this, of "ext4_bg_get_block_bitmap bg sb"] assms(2) show ?thesis
    by (simp add: balloc_group_ok_def Let_def block_bitmap_def)
qed

text \<open>A round over \<open>n\<close> groups.\<close>

lemma other_groups_rule:
  assumes a: "fs_at rep fs0 (s\<lparr> st_room := k \<rparr>) fs" and sb: "fs_sb fs0 = sb" and rdy: "balloc_ready sb s"
    and b: "bgid < ext4_block_group_cnt sb" and k: "2 * n \<le> k"
    and Found: "\<And>g bg i k' fs'. k - 2 * n \<le> k' \<Longrightarrow> g < ext4_block_group_cnt sb \<Longrightarrow> balloc_group_ok sb g bg s \<Longrightarrow>
        i < ext4_blocks_in_group_cnt sb g \<Longrightarrow> \<not> bmap_bit (block_bitmap sb bg s) (unat i) \<Longrightarrow>
        fs_at rep fs0 (bitmap_saved sb g bg (bmap_set (block_bitmap sb bg s) (unat i))
          (st_get (desc_block sb g) (s\<lparr> st_room := k' \<rparr>))) fs' \<Longrightarrow>
        Q (Some (grp_ref sb g False, ext4_fs_bg_idx_to_addr sb i g)) fs'"
    and None: "\<And>k' fs'. k - 2 * n \<le> k' \<Longrightarrow>
        (\<And>j bg. j < n \<Longrightarrow> balloc_group_ok sb ((next_group sb ^^ j) bgid) bg s \<Longrightarrow>
           exhausted sb ((next_group sb ^^ j) bgid) bg s) \<Longrightarrow>
        fs_at rep fs0 (s\<lparr> st_room := k' \<rparr>) fs' \<Longrightarrow> Q None fs'"
  shows "succeeds (balloc_other_groups n io bgid fs) Q"
  using a b k Found None
proof (induction n arbitrary: bgid fs k)
  case 0
  show ?case using "0.prems"(5) [OF _ _ "0.prems"(1)] by simp
next
  case (Suc n)
  note f0 = Suc.prems(1) and blt = Suc.prems(2) and Found = Suc.prems(4) and None = Suc.prems(5)
  have vol: "small_volume sb" "8 * st_bsize s \<le> 2 ^ 31" "unat (sb_blocks_per_group sb) \<le> 8 * st_bsize s"
    using rdy by (simp_all add: balloc_ready_def)
  obtain bg where g: "balloc_group_ok sb bgid bg s" using rdy blt by (auto simp: balloc_ready_def)
  have p: "desc_block sb bgid \<notin> st_pend s" and nle: "ext4_blocks_in_group_cnt sb bgid \<le> sb_blocks_per_group sb"
    using rdy blt by (auto simp: balloc_ready_def)
  let ?n = "ext4_blocks_in_group_cnt sb bgid" and ?bm = "block_bitmap sb bg s" and ?ld = "desc_block sb bgid"
  have n8: "unat ?n \<le> 8 * st_bsize s" using nle vol(3) by (simp add: word_le_nat_alt)
  have len: "length ?bm = st_bsize s"
    by (rule bitmap_length [OF f0 g])
  have sbf: "fs_sb fs = sb" using fs_at_fields(1) [OF f0] sb by simp
  have srch: "balloc_find ?bm 0 ?n = found (first_clr ?bm (unat (0 :: u32)) (unat ?n))"
    using n8 len vol(2) by (intro balloc_find_first) simp_all
  have ld0: "?ld \<noteq> 0" using g by (simp add: balloc_group_ok_def group_ready_def)
  define cont where "cont = (\<lambda>ref r fs. case r of
       Some i \<Rightarrow> (Inr (Some (ref, ext4_fs_bg_idx_to_addr sb i bgid)), fs)
     | None \<Rightarrow> sbind (ext4_fs_put_block_group_ref io ref fs)
                 (\<lambda>_ fs. balloc_other_groups n io ((bgid + 1) mod ext4_block_group_cnt sb) fs))"
  have loop: "balloc_other_groups (Suc n) io bgid fs =
      sbind (ext4_fs_get_block_group_ref io bgid fs) (\<lambda>ref fs. sbind (sread (bgr_load ref) fs) (\<lambda>bg fs.
      sbind (if ext4_bg_get_free_blocks_count bg sb = 0 then (Inr None, fs)
             else balloc_group io ref (\<lambda>d. balloc_find d 0 ?n) fs) (cont ref)))"
    by (simp add: sbf Let_def first_index_from [OF vol(1) blt] group_first_index [OF vol(1) blt] cont_def cong: if_cong)
  have cover: "exhausted sb bgid bg s" if "ext4_bg_get_free_blocks_count bg sb = 0 \<or>
      (\<forall>i. unat (0 :: u32) \<le> i \<and> i < unat ?n \<longrightarrow> bmap_bit ?bm i)" using that by (simp add: exhausted_def)
  have k2: "2 \<le> k" using Suc.prems(3) by simp
  show ?case
    unfolding loop succeeds_simps
  proof (rule search_group_rule [OF f0 sb g p k2 n8, where f = cont and idx = 0 and search = "\<lambda>d. balloc_find d 0 ?n"])
    show "balloc_find ?bm 0 ?n = found (first_clr ?bm (unat (0 :: u32)) (unat ?n))" by (rule srch)
    fix i fs'
    assume "i < ?n" "\<not> bmap_bit ?bm (unat i)"
      "fs_at rep fs0 (bitmap_saved sb bgid bg (bmap_set ?bm (unat i)) (st_get ?ld (s\<lparr> st_room := k \<rparr>))) fs'"
    from Found [OF _ blt g this] show "succeeds (cont (grp_ref sb bgid False) (Some i) fs') Q" by (simp add: cont_def)
  next
    fix k' fs'
    assume 3: "k - 2 \<le> k'" "ext4_bg_get_free_blocks_count bg sb = 0 \<or>
        (\<forall>i. unat (0 :: u32) \<le> i \<and> i < unat ?n \<longrightarrow> bmap_bit ?bm i)"
      "fs_at rep fs0 (st_get ?ld (s\<lparr> st_room := k' + 1 \<rparr>)) fs'"
    let ?s = "s\<lparr> st_room := k' + 1 \<rparr>"
    have net: "st_set ?ld (st_get ?ld ?s) = s\<lparr> st_room := k' \<rparr>" by (simp add: st_set_def st_get_def)
    have ex: "exhausted sb bgid bg s" by (rule cover [OF 3(2)])
    have rest: "succeeds (balloc_other_groups n io (next_group sb bgid) fs'') Q"
      if f'': "fs_at rep fs0 (s\<lparr> st_room := k' \<rparr>) fs''" for fs''
    proof (rule Suc.IH [OF f''])
      show "next_group sb bgid < ext4_block_group_cnt sb" using next_group_less [OF blt, of 1] by simp
      show "2 * n \<le> k'" using 3(1) Suc.prems(3) by simp
    next
      fix g bg i k'' fs3
      assume "k' - 2 * n \<le> k''"
      then have "k - 2 * Suc n \<le> k''" using 3(1) by simp
      note Found [OF this]
      moreover assume "g < ext4_block_group_cnt sb" "balloc_group_ok sb g bg s" "i < ext4_blocks_in_group_cnt sb g"
        "\<not> bmap_bit (block_bitmap sb bg s) (unat i)"
        "fs_at rep fs0 (bitmap_saved sb g bg (bmap_set (block_bitmap sb bg s) (unat i))
          (st_get (desc_block sb g) (s\<lparr> st_room := k'' \<rparr>))) fs3"
      ultimately show "Q (Some (grp_ref sb g False, ext4_fs_bg_idx_to_addr sb i g)) fs3" by blast
    next
      fix k'' fs3
      assume k'': "k' - 2 * n \<le> k''" and f3: "fs_at rep fs0 (s\<lparr> st_room := k'' \<rparr>) fs3"
        and ex': "\<And>j bg. j < n \<Longrightarrow> balloc_group_ok sb ((next_group sb ^^ j) (next_group sb bgid)) bg s \<Longrightarrow>
          exhausted sb ((next_group sb ^^ j) (next_group sb bgid)) bg s"
      show "Q None fs3"
      proof (rule None [OF _ _ f3])
        show "k - 2 * Suc n \<le> k''" using k'' 3(1) by simp
        fix j bg' assume "j < Suc n" and g': "balloc_group_ok sb ((next_group sb ^^ j) bgid) bg' s"
        then show "exhausted sb ((next_group sb ^^ j) bgid) bg' s"
          using ex ex' [of "j - 1"] balloc_group_ok_unique [OF g]
          by (cases j) (auto simp: funpow_swap1)
      qed
    qed
    have "succeeds (ext4_fs_put_block_group_ref io (grp_ref sb bgid False) fs')
        (\<lambda>_. \<lambda>fs. succeeds (balloc_other_groups n io (next_group sb bgid) fs) Q)"
    proof (rule put_group_clean_rule [OF 3(3)])
      show "fs_at rep fs0 (st_set ?ld (st_get ?ld ?s)) fs'' \<Longrightarrow>
          succeeds (balloc_other_groups n io (next_group sb bgid) fs'') Q" for fs''
        unfolding net by (rule rest)
    qed (use ld0 p in \<open>simp_all add: store_simps\<close>)
    then show "succeeds (cont (grp_ref sb bgid False) None fs') Q" by (simp add: cont_def next_group_def)
  qed
qed

lemma balloc_search_rule:
  assumes a: "fs_at rep fs0 s fs" and sb: "fs_sb fs0 = sb" and rdy: "balloc_ready sb s"
    and b: "ext4_balloc_get_bgid_of_block sb goal < ext4_block_group_cnt sb"
    and idx: "ext4_fs_addr_to_idx_bg sb goal < ext4_blocks_in_group_cnt sb (ext4_balloc_get_bgid_of_block sb goal)"
    and room: "2 + 2 * unat (ext4_block_group_cnt sb) \<le> st_room s"
    and Found: "\<And>g bg i k' fs'. st_room s \<le> k' + 2 + 2 * unat (ext4_block_group_cnt sb) \<Longrightarrow>
        g < ext4_block_group_cnt sb \<Longrightarrow> balloc_group_ok sb g bg s \<Longrightarrow>
        i < ext4_blocks_in_group_cnt sb g \<Longrightarrow> \<not> bmap_bit (block_bitmap sb bg s) (unat i) \<Longrightarrow>
        fs_at rep fs0 (bitmap_saved sb g bg (bmap_set (block_bitmap sb bg s) (unat i))
          (st_get (desc_block sb g) (s\<lparr> st_room := k' \<rparr>))) fs' \<Longrightarrow>
        Q (Some (grp_ref sb g False, ext4_fs_bg_idx_to_addr sb i g)) fs'"
    and None: "\<And>k' fs'. st_room s \<le> k' + 2 + 2 * unat (ext4_block_group_cnt sb) \<Longrightarrow> (\<And>g bg. g < ext4_block_group_cnt sb \<Longrightarrow> balloc_group_ok sb g bg s \<Longrightarrow> exhausted sb g bg s) \<Longrightarrow>
        fs_at rep fs0 (s\<lparr> st_room := k' \<rparr>) fs' \<Longrightarrow> Q None fs'"
  shows "succeeds (balloc_search io goal fs) Q"
proof -
  let ?b = "ext4_balloc_get_bgid_of_block sb goal" and ?i = "ext4_fs_addr_to_idx_bg sb goal"
  let ?n = "ext4_blocks_in_group_cnt sb ?b" and ?ld = "desc_block sb ?b" and ?k = "st_room s"
  have a': "fs_at rep fs0 (s\<lparr> st_room := ?k \<rparr>) fs" using a by simp
  have vol: "small_volume sb" "8 * st_bsize s \<le> 2 ^ 31" "unat (sb_blocks_per_group sb) \<le> 8 * st_bsize s"
    using rdy by (simp_all add: balloc_ready_def)
  obtain bg where g: "balloc_group_ok sb ?b bg s" using rdy b by (auto simp: balloc_ready_def)
  have p: "?ld \<notin> st_pend s" and nle: "?n \<le> sb_blocks_per_group sb" using rdy b by (auto simp: balloc_ready_def)
  have n8: "unat ?n \<le> 8 * st_bsize s" using nle vol(3) by (simp add: word_le_nat_alt)
  let ?bm = "block_bitmap sb bg s"
  have len: "length ?bm = st_bsize s" by (rule bitmap_length [OF a' g])
  have sbf: "fs_sb fs = sb" using fs_at_fields(1) [OF a] sb by simp
  have srch: "balloc_goal_search ?bm ?i ?n = found (first_clr ?bm (unat ?i) (unat ?n))"
    using n8 len vol(2) idx by (intro balloc_goal_search_first) simp_all
  have ld0: "?ld \<noteq> 0" using g by (simp add: balloc_group_ok_def group_ready_def)
  define cont where "cont = (\<lambda>ref r fs. case r of
       Some i \<Rightarrow> (Inr (Some (ref, ext4_fs_bg_idx_to_addr sb i ?b)), fs)
     | None \<Rightarrow> sbind (ext4_fs_put_block_group_ref io ref fs)
                 (\<lambda>_ fs. balloc_other_groups (unat (ext4_block_group_cnt sb)) io (next_group sb ?b) fs))"
  have loop: "balloc_search io goal fs =
      sbind (ext4_fs_get_block_group_ref io ?b fs) (\<lambda>ref fs. sbind (sread (bgr_load ref) fs) (\<lambda>bg fs.
      sbind (if ext4_bg_get_free_blocks_count bg sb = 0 then (Inr None, fs)
             else balloc_group io ref (\<lambda>d. balloc_goal_search d ?i ?n) fs) (cont ref)))"
    unfolding balloc_search_def sbf Let_def first_index_from [OF vol(1) b] cont_def next_group_def ..
  have k2: "2 \<le> ?k" using room by simp
  show ?thesis
    unfolding loop succeeds_simps
  proof (rule search_group_rule [OF a' sb g p k2 n8, where f = cont and idx = ?i and search = "\<lambda>d. balloc_goal_search d ?i ?n"])
    show "balloc_goal_search ?bm ?i ?n = found (first_clr ?bm (unat ?i) (unat ?n))" by (rule srch)
    fix i fs'
    assume "i < ?n" "\<not> bmap_bit ?bm (unat i)"
      "fs_at rep fs0 (bitmap_saved sb ?b bg (bmap_set ?bm (unat i)) (st_get ?ld (s\<lparr> st_room := ?k \<rparr>))) fs'"
    from Found [OF _ b g this] show "succeeds (cont (grp_ref sb ?b False) (Some i) fs') Q" by (simp add: cont_def)
  next
    fix k' fs'
    assume k': "?k - 2 \<le> k'" and f': "fs_at rep fs0 (st_get ?ld (s\<lparr> st_room := k' + 1 \<rparr>)) fs'"
    let ?s = "s\<lparr> st_room := k' + 1 \<rparr>"
    have net: "st_set ?ld (st_get ?ld ?s) = s\<lparr> st_room := k' \<rparr>" by (simp add: st_set_def st_get_def)
    have nb: "next_group sb ?b < ext4_block_group_cnt sb" using next_group_less [OF b, of 1] by simp
    have rest: "succeeds (balloc_other_groups (unat (ext4_block_group_cnt sb)) io (next_group sb ?b) fs'') Q"
      if f'': "fs_at rep fs0 (s\<lparr> st_room := k' \<rparr>) fs''" for fs''
    proof (rule other_groups_rule [OF f'' sb rdy nb])
      show "2 * unat (ext4_block_group_cnt sb) \<le> k'" using k' room by simp
    next
      fix g bg i k'' fs3
      assume "k' - 2 * unat (ext4_block_group_cnt sb) \<le> k''"
      then have "?k \<le> k'' + 2 + 2 * unat (ext4_block_group_cnt sb)" using k' by simp
      note Found [OF this]
      moreover assume "g < ext4_block_group_cnt sb" "balloc_group_ok sb g bg s" "i < ext4_blocks_in_group_cnt sb g"
        "\<not> bmap_bit (block_bitmap sb bg s) (unat i)"
        "fs_at rep fs0 (bitmap_saved sb g bg (bmap_set (block_bitmap sb bg s) (unat i))
          (st_get (desc_block sb g) (s\<lparr> st_room := k'' \<rparr>))) fs3"
      ultimately show "Q (Some (grp_ref sb g False, ext4_fs_bg_idx_to_addr sb i g)) fs3" by blast
    next
      fix k'' fs3
      assume kk: "k' - 2 * unat (ext4_block_group_cnt sb) \<le> k''" and f3: "fs_at rep fs0 (s\<lparr> st_room := k'' \<rparr>) fs3"
        and ex: "\<And>j bg. j < unat (ext4_block_group_cnt sb) \<Longrightarrow>
          balloc_group_ok sb ((next_group sb ^^ j) (next_group sb ?b)) bg s \<Longrightarrow>
          exhausted sb ((next_group sb ^^ j) (next_group sb ?b)) bg s"
      have "exhausted sb g bg s" if "g < ext4_block_group_cnt sb" "balloc_group_ok sb g bg s" for g bg
        using next_group_covers [OF nb that(1)] ex that(2) by blast
      moreover have "?k \<le> k'' + 2 + 2 * unat (ext4_block_group_cnt sb)" using kk k' by simp
      ultimately show "Q None fs3" using f3 None by blast
    qed
    have "succeeds (ext4_fs_put_block_group_ref io (grp_ref sb ?b False) fs')
        (\<lambda>_. \<lambda>fs. succeeds (balloc_other_groups (unat (ext4_block_group_cnt sb)) io (next_group sb ?b) fs) Q)"
    proof (rule put_group_clean_rule [OF f'])
      show "fs_at rep fs0 (st_set ?ld (st_get ?ld ?s)) fs'' \<Longrightarrow>
          succeeds (balloc_other_groups (unat (ext4_block_group_cnt sb)) io (next_group sb ?b) fs'') Q" for fs''
        unfolding net by (rule rest)
    qed (use ld0 p in \<open>simp_all add: store_simps\<close>)
    then show "succeeds (cont (grp_ref sb ?b False) None fs') Q" by (simp add: cont_def)
  qed
qed

text \<open>
  The allocator as a whole: a block that was free is taken, or no group has one that both its count and
  its bitmap show.
\<close>

lemma alloc_block_ok:
  assumes a: "fs_at rep fs0 s fs" and sb: "fs_sb fs0 = sb" and rdy: "balloc_ready sb s"
    and b: "ext4_balloc_get_bgid_of_block sb goal < ext4_block_group_cnt sb"
    and idx: "ext4_fs_addr_to_idx_bg sb goal < ext4_blocks_in_group_cnt sb (ext4_balloc_get_bgid_of_block sb goal)"
    and room: "2 + 2 * unat (ext4_block_group_cnt sb) \<le> st_room s"
    and ino: "\<And>g bg. g < ext4_block_group_cnt sb \<Longrightarrow> balloc_group_ok sb g bg s \<Longrightarrow> balloc_inode_ok sb g bg ir li i s"
  shows "\<exists>r fs' ir'. ext4_balloc_alloc_block io goal (fs, ir) = (r, fs', ir') \<and>
    (case r of
       Inr addr \<Rightarrow> \<exists>g bg n k. g < ext4_block_group_cnt sb \<and> balloc_group_ok sb g bg s \<and> n < ext4_blocks_in_group_cnt sb g \<and>
         \<not> bmap_bit (block_bitmap sb bg s) (unat n) \<and> addr = ext4_fs_bg_idx_to_addr sb n g \<and>
         ir' = ir\<lparr> ir_dirty := True \<rparr> \<and> st_room s \<le> k + 2 + 2 * unat (ext4_block_group_cnt sb) \<and>
         fs_at rep (fs0\<lparr> fs_sb := sb_add_free (- 1) sb \<rparr>) (taken sb g bg n ir li i (s\<lparr> st_room := k \<rparr>)) fs'
     | Inl e \<Rightarrow> e = ENOSPC \<and> ir' = ir \<and>
         (\<exists>k. st_room s \<le> k + 2 + 2 * unat (ext4_block_group_cnt sb) \<and> fs_at rep fs0 (s\<lparr> st_room := k \<rparr>) fs') \<and>
         (\<forall>g bg. g < ext4_block_group_cnt sb \<and> balloc_group_ok sb g bg s \<longrightarrow> exhausted sb g bg s))"
    (is "\<exists>r fs' ir'. _ = (r, fs', ir') \<and> ?P r fs' ir'")
proof -
  let ?cont = "\<lambda>r s. case r of
         None \<Rightarrow> (Inl ENOSPC, s)
       | Some (ref, alloc) \<Rightarrow>
           sbind (balloc_debit ref s) (\<lambda>_ s.
           sbind (on_fs (ext4_fs_put_block_group_ref io (ref\<lparr> bgr_dirty := True \<rparr>)) s) (\<lambda>_ s.
           (Inr alloc, s)))"
  have "succeeds (balloc_search io goal fs) (\<lambda>r fs1. \<exists>v fs' ir'. ?cont r (fs1, ir) = (v, fs', ir') \<and> ?P v fs' ir')"
  proof (rule balloc_search_rule [OF a sb rdy b idx room])
    fix g bg n k fs1
    assume kr: "st_room s \<le> k + 2 + 2 * unat (ext4_block_group_cnt sb)"
      and g: "g < ext4_block_group_cnt sb" "balloc_group_ok sb g bg s" "n < ext4_blocks_in_group_cnt sb g"
        "\<not> bmap_bit (block_bitmap sb bg s) (unat n)"
      and f: "fs_at rep fs0 (bitmap_saved sb g bg (bmap_set (block_bitmap sb bg s) (unat n))
          (st_get (desc_block sb g) (s\<lparr> st_room := k \<rparr>))) fs1"
    let ?s = "s\<lparr> st_room := k \<rparr>"
    have gk: "balloc_group_ok sb g bg ?s" and ik: "balloc_inode_ok sb g bg ir li i ?s" and pk: "desc_block sb g \<notin> st_pend ?s"
      using g ino rdy by (simp_all add: balloc_ready_def)
    have "succeeds (balloc_debit (grp_ref sb g False) (fs1, ir)) (\<lambda>_ s. succeeds
        (ext4_fs_put_block_group_ref io (grp_ref sb g True) (fst s)) (\<lambda>_ fs'.
          snd s = ir\<lparr> ir_dirty := True \<rparr> \<and> fs_at rep (fs0\<lparr> fs_sb := sb_add_free (- 1) sb \<rparr>) (taken sb g bg n ir li i ?s) fs'))"
      by (rule debit_put_rule [OF f sb gk ik pk, where Q = "\<lambda>_ s. snd s = ir\<lparr> ir_dirty := True \<rparr> \<and>
            fs_at rep (fs0\<lparr> fs_sb := sb_add_free (- 1) sb \<rparr>) (taken sb g bg n ir li i ?s) (fst s)", simplified])
         (simp add: taken_def)
    then have "succeeds (?cont (Some (grp_ref sb g False, ext4_fs_bg_idx_to_addr sb n g)) (fs1, ir)) (\<lambda>v s.
        v = ext4_fs_bg_idx_to_addr sb n g \<and> snd s = ir\<lparr> ir_dirty := True \<rparr> \<and>
        fs_at rep (fs0\<lparr> fs_sb := sb_add_free (- 1) sb \<rparr>) (taken sb g bg n ir li i ?s) (fst s))" by simp
    then obtain v st where c0: "?cont (Some (grp_ref sb g False, ext4_fs_bg_idx_to_addr sb n g)) (fs1, ir) = (Inr v, st)"
        and v: "v = ext4_fs_bg_idx_to_addr sb n g" and st: "snd st = ir\<lparr> ir_dirty := True \<rparr>"
        and f': "fs_at rep (fs0\<lparr> fs_sb := sb_add_free (- 1) sb \<rparr>) (taken sb g bg n ir li i ?s) (fst st)"
      unfolding succeeds_def by blast
    obtain fs' where fs': "st = (fs', ir\<lparr> ir_dirty := True \<rparr>)" using st by (cases st) simp
    note c = c0 [unfolded v fs'] and f' = f' [unfolded fs' fst_conv]
    have "?P (Inr (ext4_fs_bg_idx_to_addr sb n g)) fs' (ir\<lparr> ir_dirty := True \<rparr>)" using g f' kr by auto
    with c show "\<exists>v fs' ir'. ?cont (Some (grp_ref sb g False, ext4_fs_bg_idx_to_addr sb n g)) (fs1, ir) = (v, fs', ir') \<and> ?P v fs' ir'"
      by blast
  next
    fix k fs1
    assume "st_room s \<le> k + 2 + 2 * unat (ext4_block_group_cnt sb)"
      and "\<And>g bg. g < ext4_block_group_cnt sb \<Longrightarrow> balloc_group_ok sb g bg s \<Longrightarrow> exhausted sb g bg s"
      and "fs_at rep fs0 (s\<lparr> st_room := k \<rparr>) fs1"
    then show "\<exists>v fs' ir'. ?cont None (fs1, ir) = (v, fs', ir') \<and> ?P v fs' ir'" by auto
  qed
  then obtain r fs1 v fs' ir' where "balloc_search io goal fs = (Inr r, fs1)" "?cont r (fs1, ir) = (v, fs', ir')" "?P v fs' ir'"
    unfolding succeeds_def by blast
  then show ?thesis by (intro exI [of _ v] exI [of _ fs'] exI [of _ ir']) (simp add: alloc_block_eq on_fs_def)
qed

end

end
