(* ===== verification/BallocVolume.thy ===== *)
theory BallocVolume
  imports BallocAlloc
begin

text \<open>
  The accounting invariant of a volume: every group's count of free blocks is the number of clear bits of
  its bitmap, and the superblock's count is their sum. Allocating and freeing a block keep it, and
  while it holds an allocation fails only when no block is free. The properties are stated on the
  image file; the witness is a volume of eight 1 KiB blocks.
\<close>

section \<open>The invariant\<close>

definition free_bits :: "ext4_sblock \<Rightarrow> u32 \<Rightarrow> u8 list \<Rightarrow> nat" where
  "free_bits sb g bm = card {i. i < unat (ext4_blocks_in_group_cnt sb g) \<and> \<not> bmap_bit bm i}"

text \<open>The metadata blocks and the inode's block \<open>li\<close> are distinct, and descriptors do not overlap.\<close>

definition layout_apart :: "ext4_sblock \<Rightarrow> u64 \<Rightarrow> store \<Rightarrow> bool" where
  "layout_apart sb li s \<longleftrightarrow>
     (\<forall>g h bg bh. g < ext4_block_group_cnt sb \<and> h < ext4_block_group_cnt sb \<and>
        group_at sb g (st_view s) = Inr bg \<and> group_at sb h (st_view s) = Inr bh \<longrightarrow>
        ext4_bg_get_block_bitmap bg sb \<noteq> desc_block sb h \<and> ext4_bg_get_block_bitmap bg sb \<noteq> li \<and> desc_block sb h \<noteq> li \<and>
        (g \<noteq> h \<longrightarrow> ext4_bg_get_block_bitmap bg sb \<noteq> ext4_bg_get_block_bitmap bh sb \<and>
           (desc_block sb g = desc_block sb h \<longrightarrow>
              desc_off sb g + bg_width sb \<le> desc_off sb h \<or> desc_off sb h + bg_width sb \<le> desc_off sb g)))"

definition group_counted :: "ext4_sblock \<Rightarrow> u32 \<Rightarrow> store \<Rightarrow> bool" where
  "group_counted sb g s \<longleftrightarrow>
     (\<exists>bg. balloc_group_ok sb g bg s \<and>
        unat (ext4_bg_get_free_blocks_count bg sb) = free_bits sb g (block_bitmap sb bg s))"

definition free_of :: "ext4_sblock \<Rightarrow> u32 \<Rightarrow> store \<Rightarrow> nat" where
  "free_of sb g s =
     (case group_at sb g (st_view s) of Inl _ \<Rightarrow> 0 | Inr bg \<Rightarrow> unat (ext4_bg_get_free_blocks_count bg sb))"

definition volume_ok :: "ext4_sblock \<Rightarrow> u64 \<Rightarrow> store \<Rightarrow> bool" where
  "volume_ok sb li s \<longleftrightarrow>
     balloc_ready sb s \<and> layout_apart sb li s \<and>
     (ext4_sb_get_desc_size sb > 32 \<or> unat (sb_blocks_per_group sb) < 2 ^ 16) \<and>
     (\<forall>g < ext4_block_group_cnt sb. group_counted sb g s) \<and>
     unat (ext4_sb_get_free_blocks_cnt sb) = (\<Sum>g | g < ext4_block_group_cnt sb. free_of sb g s)"

section \<open>Counting bits\<close>

lemma free_bits_set:
  assumes "n < ext4_blocks_in_group_cnt sb g" and "\<not> bmap_bit bm (unat n)" and "unat n < 8 * length bm"
  shows "free_bits sb g bm = free_bits sb g (bmap_set bm (unat n)) + 1"
proof -
  let ?S = "{i. i < unat (ext4_blocks_in_group_cnt sb g) \<and> \<not> bmap_bit bm i}"
  have "{i. i < unat (ext4_blocks_in_group_cnt sb g) \<and> \<not> bmap_bit (bmap_set bm (unat n)) i} = ?S - {unat n}"
    unfolding bmap_bit_set [OF assms(3)] by blast
  moreover have "unat n \<in> ?S" using assms(1,2) by (simp add: word_less_nat_alt)
  moreover have "finite ?S" by simp
  ultimately show ?thesis unfolding free_bits_def using card_Suc_Diff1 [of ?S "unat n"] by simp
qed

lemma free_bits_clr:
  assumes "n < ext4_blocks_in_group_cnt sb g" and "bmap_bit bm (unat n)" and "unat n < 8 * length bm"
  shows "free_bits sb g (bmap_clr bm (unat n)) = free_bits sb g bm + 1"
proof -
  let ?S = "{i. i < unat (ext4_blocks_in_group_cnt sb g) \<and> \<not> bmap_bit bm i}"
  have "{i. i < unat (ext4_blocks_in_group_cnt sb g) \<and> \<not> bmap_bit (bmap_clr bm (unat n)) i} = insert (unat n) ?S"
    unfolding bmap_bit_clr [OF assms(3)] using assms(1) by (auto simp: word_less_nat_alt)
  moreover have "unat n \<notin> ?S" "finite ?S" using assms(2) by simp_all
  ultimately show ?thesis by (simp add: free_bits_def)
qed

lemma free_bits_le: "free_bits sb g bm \<le> unat (ext4_blocks_in_group_cnt sb g)"
proof -
  have "free_bits sb g bm \<le> card {i. i < unat (ext4_blocks_in_group_cnt sb g)}"
    unfolding free_bits_def by (intro card_mono) auto
  then show ?thesis by simp
qed

section \<open>The state after an operation\<close>

lemma add_free_geometry [store_simps]:
  fixes n sb
  defines "sb' \<equiv> sb_add_free n sb"
  shows "ext4_block_group_cnt sb' = ext4_block_group_cnt sb" "ext4_blocks_in_group_cnt sb' g = ext4_blocks_in_group_cnt sb g"
    "sb_blocks_per_group sb' = sb_blocks_per_group sb" "small_volume sb' = small_volume sb"
    "ext4_sb_get_desc_size sb' = ext4_sb_get_desc_size sb" "bg_width sb' = bg_width sb"
    "desc_block sb' g = desc_block sb g" "desc_off sb' g = desc_off sb g" "group_at sb' g V = group_at sb g V"
    "ext4_bg_get_block_bitmap bg sb' = ext4_bg_get_block_bitmap bg sb"
    "ext4_bg_get_free_blocks_count bg sb' = ext4_bg_get_free_blocks_count bg sb"
    "balloc_group_ok sb' g bg s = balloc_group_ok sb g bg s" "block_bitmap sb' bg s = block_bitmap sb bg s"
    "free_bits sb' g bm = free_bits sb g bm"
proof -
  have w: "bg_width sb' = bg_width sb" by (simp add: sb'_def sb_add_free_def store_simps)
  have d: "ext4_sb_get_desc_size sb' = ext4_sb_get_desc_size sb"
    by (simp add: sb'_def sb_add_free_def ext4_sb_set_free_blocks_cnt_def ext4_sb_get_desc_size_def)
  have c: "ext4_block_group_cnt sb' = ext4_block_group_cnt sb" "sb_blocks_per_group sb' = sb_blocks_per_group sb"
    and b: "ext4_blocks_in_group_cnt sb' g = ext4_blocks_in_group_cnt sb g" for g
    by (simp_all add: sb'_def sb_add_free_def ext4_sb_set_free_blocks_cnt_def ext4_block_group_cnt_def
        ext4_sb_get_blocks_cnt_def ext4_blocks_in_group_cnt_def Let_def)
  have l: "desc_block sb' g = desc_block sb g" "desc_off sb' g = desc_off sb g" for g
    by (simp_all add: sb'_def sb_add_free_def store_simps)
  have at: "group_at sb' g V = group_at sb g V" for g V by (simp add: group_at_def bg_at_def l w)
  have bb: "ext4_bg_get_block_bitmap bg sb' = ext4_bg_get_block_bitmap bg sb"
    "ext4_bg_get_free_blocks_count bg sb' = ext4_bg_get_free_blocks_count bg sb" for bg
    by (simp_all add: ext4_bg_get_block_bitmap_def ext4_bg_get_free_blocks_count_def d)
  show "ext4_block_group_cnt sb' = ext4_block_group_cnt sb" "ext4_blocks_in_group_cnt sb' g = ext4_blocks_in_group_cnt sb g"
    "sb_blocks_per_group sb' = sb_blocks_per_group sb" "small_volume sb' = small_volume sb"
    "ext4_sb_get_desc_size sb' = ext4_sb_get_desc_size sb" "bg_width sb' = bg_width sb"
    "desc_block sb' g = desc_block sb g" "desc_off sb' g = desc_off sb g" "group_at sb' g V = group_at sb g V"
    "ext4_bg_get_block_bitmap bg sb' = ext4_bg_get_block_bitmap bg sb"
    "ext4_bg_get_free_blocks_count bg sb' = ext4_bg_get_free_blocks_count bg sb"
    "balloc_group_ok sb' g bg s = balloc_group_ok sb g bg s" "block_bitmap sb' bg s = block_bitmap sb bg s"
    "free_bits sb' g bm = free_bits sb g bm"
    by (simp_all add: w d c b l at bb small_volume_def balloc_group_ok_def group_ready_def block_bitmap_def free_bits_def)
qed

lemma sb_add_free_count: "ext4_sb_get_free_blocks_cnt (sb_add_free n sb) = ext4_sb_get_free_blocks_cnt sb + n"
proof -
  have "ext4_sb_get_free_blocks_cnt (ext4_sb_set_free_blocks_cnt sb c) = c" for c
    by (rule bit_word_eqI) (auto simp: ext4_sb_get_free_blocks_cnt_def ext4_sb_set_free_blocks_cnt_def bit_simps)
  then show ?thesis by (simp add: sb_add_free_def)
qed

lemma volume_geometry:
  "balloc_ready (sb_add_free m sb) s = balloc_ready sb s" "layout_apart (sb_add_free m sb) li s = layout_apart sb li s"
  "group_counted (sb_add_free m sb) g s = group_counted sb g s" "free_of (sb_add_free m sb) g s = free_of sb g s"
  unfolding balloc_ready_def layout_apart_def group_counted_def free_of_def add_free_geometry by (rule refl)+

text \<open>The group worked on: its new descriptor and bitmap.\<close>

definition bg_moved :: "ext4_sblock \<Rightarrow> u32 \<Rightarrow> ext4_bgroup \<Rightarrow> u8 list \<Rightarrow> u32 \<Rightarrow> ext4_bgroup" where
  "bg_moved sb g bg bm n = bg_sealed sb g (bg_add_free_blocks sb n (ext4_balloc_set_bitmap_csum sb bg bm))"

lemma bg_moved_simps [bg_simps]:
  "ext4_bg_get_block_bitmap (bg_moved sb g bg bm n) sb = ext4_bg_get_block_bitmap bg sb"
  "ext4_bg_has_flag (bg_moved sb g bg bm n) f = ext4_bg_has_flag bg f"
  "ext4_bg_get_free_blocks_count (bg_moved sb g bg bm n) sb =
     (if ext4_sb_get_desc_size sb > 32 then ext4_bg_get_free_blocks_count bg sb + n
      else take_bit 16 (ext4_bg_get_free_blocks_count bg sb + n))"
  by (simp_all add: bg_moved_def bg_sealed_def bg_add_free_blocks_def bg_simps)

lemma bg_moved_narrow [bg_simps]: "bg_narrow sb bg \<Longrightarrow> bg_narrow sb (bg_moved sb g bg bm n)"
  by (simp add: bg_moved_def bg_sealed_def bg_simps)

text \<open>Both checksums of the group verify afterwards.\<close>

lemma bg_moved_verifies:
  "ext4_fs_verify_bg_csum sb g (bg_moved sb g bg bm n)" "ext4_balloc_verify_bitmap_csum sb (bg_moved sb g bg bm n) bm"
proof -
  show "ext4_fs_verify_bg_csum sb g (bg_moved sb g bg bm n)" by (simp add: bg_moved_def bg_sealed_verifies)
  show "ext4_balloc_verify_bitmap_csum sb (bg_moved sb g bg bm n) bm"
    by (simp add: ext4_balloc_verify_bitmap_csum_def bg_moved_def bg_sealed_def ext4_bg_set_checksum_def
        bg_add_free_blocks_def ext4_bg_set_free_blocks_count_def ext4_balloc_set_bitmap_csum_def Let_def)
qed

lemma moved_fields [store_simps]:
  "st_refs (moved sb g bg bm n u ir li i s) = st_refs s" "st_pend (moved sb g bg bm n u ir li i s) = insert li (st_pend s)"
  "st_cnt (moved sb g bg bm n u ir li i s) = st_cnt s" "st_bsize (moved sb g bg bm n u ir li i s) = st_bsize s"
  "st_room (moved sb g bg bm n u ir li i s) = st_room s - 2"
  by (simp_all add: moved_def)

lemma moved_view:
  "st_view (moved sb g bg bm n u ir li i s) l =
     (if l = desc_block sb g then desc_patch sb g (bg_moved sb g bg bm n) (st_view s l)
      else if l = li then inode_patch sb (ir_off ir) (inode_add_blocks sb u i) (st_view s l)
      else if l = ext4_bg_get_block_bitmap bg sb then bm else st_view s l)"
  by (simp add: moved_def bg_moved_def)

lemma moved_group_self:
  assumes "group_at sb g (st_view s) = Inr bg"
  shows "group_at sb g (st_view (moved sb g bg bm n u ir li i s)) = Inr (bg_moved sb g bg bm n)"
  by (rule group_at_patch [OF group_at_fits [OF assms]])
     (use group_at_narrow [OF assms] in \<open>simp_all add: moved_view bg_simps\<close>)

lemma moved_group_other:
  assumes ap: "layout_apart sb li s" and g: "g < ext4_block_group_cnt sb" "group_at sb g (st_view s) = Inr bg"
    and h: "h < ext4_block_group_cnt sb" "group_at sb h (st_view s) = Inr bh" and ne: "h \<noteq> g"
  shows "group_at sb h (st_view (moved sb g bg bm n u ir li i s)) = group_at sb h (st_view s)"
proof -
  have q: "ext4_bg_get_block_bitmap bg sb \<noteq> desc_block sb h" "desc_block sb h \<noteq> li"
    "desc_block sb g = desc_block sb h \<Longrightarrow>
      desc_off sb g + bg_width sb \<le> desc_off sb h \<or> desc_off sb h + bg_width sb \<le> desc_off sb g"
    using ap g h ne unfolding layout_apart_def by blast+
  show ?thesis
  proof (cases "desc_block sb h = desc_block sb g")
    case True
    let ?d = "st_view s (desc_block sb h)"
    have fit: "desc_off sb g + bg_width sb \<le> length ?d" using group_at_fits [OF g(2)] True by simp
    have "rd_range (desc_patch sb g (bg_moved sb g bg bm n) ?d) (desc_off sb h) (bg_width sb) = rd_range ?d (desc_off sb h) (bg_width sb)"
      unfolding desc_patch_def by (rule rd_patch_other) (use fit q(3) True in auto)
    then show ?thesis using True by (simp add: group_at_def bg_at_def moved_view)
  next
    case False
    with q show ?thesis by (simp add: group_at_def moved_view)
  qed
qed

lemma bitmap_kept:
  assumes ap: "layout_apart sb li s" and g: "g < ext4_block_group_cnt sb" "group_at sb g (st_view s) = Inr bg"
    and h: "h < ext4_block_group_cnt sb" "group_at sb h (st_view s) = Inr bh" and ne: "h \<noteq> g"
  shows "block_bitmap sb bh (moved sb g bg bm n u ir li i s) = block_bitmap sb bh s"
proof -
  have "ext4_bg_get_block_bitmap bh sb \<noteq> desc_block sb g" "ext4_bg_get_block_bitmap bh sb \<noteq> li"
    "ext4_bg_get_block_bitmap bh sb \<noteq> ext4_bg_get_block_bitmap bg sb"
    using ap g h ne unfolding layout_apart_def by blast+
  then show ?thesis by (simp add: block_bitmap_def moved_view)
qed

lemma bitmap_changed:
  assumes ap: "layout_apart sb li s" and g: "g < ext4_block_group_cnt sb" "group_at sb g (st_view s) = Inr bg"
  shows "block_bitmap sb (bg_moved sb g bg bm n) (moved sb g bg bm n u ir li i s) = bm"
proof -
  have "ext4_bg_get_block_bitmap bg sb \<noteq> desc_block sb g" "ext4_bg_get_block_bitmap bg sb \<noteq> li"
    using ap g unfolding layout_apart_def by blast+
  then show ?thesis by (simp add: block_bitmap_def moved_view bg_simps)
qed

text \<open>An operation on one group keeps the invariant, given the new count of that group.\<close>

lemma moved_volume_ok:
  assumes v: "volume_ok sb li s" and g: "g < ext4_block_group_cnt sb" and go: "balloc_group_ok sb g bg s"
    and c: "unat (ext4_bg_get_free_blocks_count (bg_moved sb g bg bm n) sb) = free_bits sb g bm"
    and d: "unat (ext4_sb_get_free_blocks_cnt sb + m) + unat (ext4_bg_get_free_blocks_count bg sb) =
      unat (ext4_sb_get_free_blocks_cnt sb) + free_bits sb g bm"
  shows "volume_ok (sb_add_free m sb) li (moved sb g bg bm n u ir li i s)"
proof -
  let ?s = "moved sb g bg bm n u ir li i s" and ?N = "ext4_block_group_cnt sb" and ?bg = "bg_moved sb g bg bm n"
  have rdy: "balloc_ready sb s" and ap: "layout_apart sb li s" and gc: "\<forall>g < ?N. group_counted sb g s"
    and sum: "unat (ext4_sb_get_free_blocks_cnt sb) = (\<Sum>h | h < ?N. free_of sb h s)"
    using v by (simp_all add: volume_ok_def)
  have ga: "group_at sb g (st_view s) = Inr bg" using go by (simp add: balloc_group_ok_def group_ready_def)
  note self = moved_group_self [OF ga, of bm n u ir li i]
  have at: "\<exists>bh. group_at sb h (st_view s) = Inr bh" if "h < ?N" for h
    using rdy that unfolding balloc_ready_def balloc_group_ok_def group_ready_def by blast
  have other: "group_at sb h (st_view ?s) = Inr bh \<and> block_bitmap sb bh ?s = block_bitmap sb bh s"
    if "h < ?N" "h \<noteq> g" "group_at sb h (st_view s) = Inr bh" for h bh
    using moved_group_other [OF ap g ga that(1,3,2)] bitmap_kept [OF ap g ga that(1,3,2)] that(3) by simp
  have lb: "ext4_bg_get_block_bitmap bh sb \<noteq> li" "desc_block sb h \<noteq> li"
    if "h < ?N" "group_at sb h (st_view s) = Inr bh" for h bh
    using ap that unfolding layout_apart_def by blast+
  have ok: "balloc_group_ok sb h (if h = g then ?bg else bh) ?s"
    if h: "h < ?N" "balloc_group_ok sb h bh s" for h bh
  proof (cases "h = g")
    case True
    with go self lb [OF g ga] show ?thesis by (simp add: balloc_group_ok_def group_ready_def bg_simps store_simps)
  next
    case False
    have hh: "group_at sb h (st_view s) = Inr bh" using h by (simp add: balloc_group_ok_def group_ready_def)
    with False h other [OF h(1) False hh] lb [OF h(1) hh] show ?thesis
      by (simp add: balloc_group_ok_def group_ready_def store_simps)
  qed
  have "balloc_ready sb ?s"
    unfolding balloc_ready_def
  proof (intro conjI allI impI)
    fix h assume h: "h < ?N"
    then obtain bh where bh: "balloc_group_ok sb h bh s" using rdy by (auto simp: balloc_ready_def)
    then have "group_at sb h (st_view s) = Inr bh" by (simp add: balloc_group_ok_def group_ready_def)
    from lb(2) [OF h this] show "desc_block sb h \<notin> st_pend ?s" using rdy h by (simp add: balloc_ready_def store_simps)
    show "\<exists>bg. balloc_group_ok sb h bg ?s" using ok [OF h bh] by blast
  qed (use rdy in \<open>simp_all add: balloc_ready_def store_simps\<close>)
  moreover have bgat: "\<exists>bh. group_at sb h (st_view s) = Inr bh \<and> ext4_bg_get_block_bitmap bh' sb = ext4_bg_get_block_bitmap bh sb"
    if a: "h < ?N" "group_at sb h (st_view ?s) = Inr bh'" for h bh'
  proof (cases "h = g")
    case True
    with a self ga show ?thesis by (auto simp: bg_simps)
  next
    case False
    obtain bh where "group_at sb h (st_view s) = Inr bh" using at [OF a(1)] by blast
    with other [OF a(1) False this] a(2) show ?thesis by auto
  qed
  have "layout_apart sb li ?s"
    unfolding layout_apart_def
  proof (intro allI impI, elim conjE)
    fix h k bh' bk'
    assume a: "h < ?N" "k < ?N" "group_at sb h (st_view ?s) = Inr bh'" "group_at sb k (st_view ?s) = Inr bk'"
    from bgat [OF a(1,3)] bgat [OF a(2,4)] obtain bh bk where
      b: "group_at sb h (st_view s) = Inr bh" "group_at sb k (st_view s) = Inr bk"
        "ext4_bg_get_block_bitmap bh' sb = ext4_bg_get_block_bitmap bh sb"
        "ext4_bg_get_block_bitmap bk' sb = ext4_bg_get_block_bitmap bk sb" by blast
    show "ext4_bg_get_block_bitmap bh' sb \<noteq> desc_block sb k \<and> ext4_bg_get_block_bitmap bh' sb \<noteq> li \<and> desc_block sb k \<noteq> li \<and>
        (h \<noteq> k \<longrightarrow> ext4_bg_get_block_bitmap bh' sb \<noteq> ext4_bg_get_block_bitmap bk' sb \<and>
           (desc_block sb h = desc_block sb k \<longrightarrow>
              desc_off sb h + bg_width sb \<le> desc_off sb k \<or> desc_off sb k + bg_width sb \<le> desc_off sb h))"
      unfolding b(3,4) using ap a(1,2) b(1,2) unfolding layout_apart_def by blast
  qed
  moreover have "group_counted sb h ?s" if h: "h < ?N" for h
  proof (cases "h = g")
    case True
    have "block_bitmap sb ?bg ?s = bm" by (rule bitmap_changed [OF ap g ga])
    with True ok [OF g go] c show ?thesis by (auto simp: group_counted_def)
  next
    case False
    obtain bh where bh: "balloc_group_ok sb h bh s"
        "unat (ext4_bg_get_free_blocks_count bh sb) = free_bits sb h (block_bitmap sb bh s)"
      using gc h by (auto simp: group_counted_def)
    then have "group_at sb h (st_view s) = Inr bh" by (simp add: balloc_group_ok_def group_ready_def)
    with other [OF h False this] ok [OF h bh(1)] False bh(2) show ?thesis by (auto simp: group_counted_def)
  qed
  moreover have "unat (ext4_sb_get_free_blocks_cnt sb + m) = (\<Sum>h | h < ?N. free_of sb h ?s)"
  proof -
    have fin: "finite {h. h < ?N}" and mem: "g \<in> {h. h < ?N}" using g by simp_all
    have rest: "(\<Sum>h \<in> {h. h < ?N} - {g}. free_of sb h ?s) = (\<Sum>h \<in> {h. h < ?N} - {g}. free_of sb h s)"
    proof (rule sum.cong [OF refl])
      fix h assume h: "h \<in> {h. h < ?N} - {g}"
      then obtain bh where "group_at sb h (st_view s) = Inr bh" using at by blast
      with other [OF _ _ this] h show "free_of sb h ?s = free_of sb h s" by (simp add: free_of_def)
    qed
    have "(\<Sum>h | h < ?N. free_of sb h ?s) = free_of sb g ?s + (\<Sum>h \<in> {h. h < ?N} - {g}. free_of sb h s)"
      unfolding sum.remove [OF fin mem] rest ..
    moreover have "(\<Sum>h | h < ?N. free_of sb h s) = free_of sb g s + (\<Sum>h \<in> {h. h < ?N} - {g}. free_of sb h s)"
      by (rule sum.remove [OF fin mem])
    moreover have "free_of sb g ?s = free_bits sb g bm" "free_of sb g s = unat (ext4_bg_get_free_blocks_count bg sb)"
      using self ga c by (simp_all add: free_of_def)
    ultimately show ?thesis using sum d by linarith
  qed
  ultimately show ?thesis
    using v
    by (simp add: volume_ok_def sb_add_free_count volume_geometry add_free_geometry)
qed

lemma volume_group:
  assumes v: "volume_ok sb li s" and g: "g < ext4_block_group_cnt sb" and go: "balloc_group_ok sb g bg s"
  shows "unat (ext4_bg_get_free_blocks_count bg sb) = free_bits sb g (block_bitmap sb bg s)"
    and "free_of sb g s = unat (ext4_bg_get_free_blocks_count bg sb)"
    and "unat (ext4_bg_get_free_blocks_count bg sb) \<le> unat (ext4_sb_get_free_blocks_cnt sb)"
    and "free_bits sb g bm \<le> unat (sb_blocks_per_group sb)"
proof -
  have ga: "group_at sb g (st_view s) = Inr bg" using go by (simp add: balloc_group_ok_def group_ready_def)
  show fo: "free_of sb g s = unat (ext4_bg_get_free_blocks_count bg sb)" using ga by (simp add: free_of_def)
  have "group_counted sb g s" using v g by (simp add: volume_ok_def)
  then show "unat (ext4_bg_get_free_blocks_count bg sb) = free_bits sb g (block_bitmap sb bg s)"
    using balloc_group_ok_unique [OF go] by (auto simp: group_counted_def)
  have "free_of sb g s \<le> (\<Sum>h | h < ext4_block_group_cnt sb. free_of sb h s)"
    by (rule member_le_sum) (use g in simp_all)
  with v fo show "unat (ext4_bg_get_free_blocks_count bg sb) \<le> unat (ext4_sb_get_free_blocks_cnt sb)"
    by (simp add: volume_ok_def)
  have "ext4_blocks_in_group_cnt sb g \<le> sb_blocks_per_group sb" using v g by (simp add: volume_ok_def balloc_ready_def)
  with free_bits_le [of sb g bm] show "free_bits sb g bm \<le> unat (sb_blocks_per_group sb)" by (simp add: word_le_nat_alt)
qed

lemma volume_free_bound:
  assumes v: "volume_ok sb li s"
  shows "unat (ext4_sb_get_free_blocks_cnt sb) < 2 ^ 32"
proof -
  let ?N = "ext4_block_group_cnt sb" and ?p = "unat (sb_blocks_per_group sb)"
  have "free_of sb h s \<le> ?p" if "h \<in> {h. h < ?N}" for h
  proof -
    obtain bh where bh: "balloc_group_ok sb h bh s"
      using v \<open>h \<in> _\<close> by (auto simp: volume_ok_def group_counted_def)
    with volume_group [OF v _ bh] \<open>h \<in> _\<close> show ?thesis by simp
  qed
  then have "(\<Sum>h | h < ?N. free_of sb h s) \<le> card {h. h < ?N} * ?p"
    using sum_bounded_above [of "{h. h < ?N}" "\<lambda>h. free_of sb h s" ?p] by simp
  also have "card {h. h < ?N} \<le> unat ?N"
  proof -
    have "{h. h < ?N} \<subseteq> of_nat ` {..<unat ?N}"
    proof
      fix h assume "h \<in> {h. h < ?N}"
      then have "h = of_nat (unat h)" "unat h \<in> {..<unat ?N}" by (simp_all add: word_less_nat_alt)
      then show "h \<in> of_nat ` {..<unat ?N}" by (rule image_eqI)
    qed
    from surj_card_le [OF _ this] show ?thesis by simp
  qed
  then have "card {h. h < ?N} * ?p \<le> unat ?N * ?p" by (rule mult_le_mono1)
  finally show ?thesis using v by (simp add: volume_ok_def balloc_ready_def small_volume_def)
qed

text \<open>Taking a free block, and giving back a used one.\<close>

lemma taken_volume_ok:
  assumes v: "volume_ok sb li s" and g: "g < ext4_block_group_cnt sb" and go: "balloc_group_ok sb g bg s"
    and n: "n < ext4_blocks_in_group_cnt sb g" and b: "\<not> bmap_bit (block_bitmap sb bg s) (unat n)"
    and len: "length (block_bitmap sb bg s) = st_bsize s"
  shows "volume_ok (sb_add_free (- 1) sb) li (taken sb g bg n ir li i s)"
proof -
  let ?bm = "block_bitmap sb bg s" and ?c = "ext4_bg_get_free_blocks_count bg sb" and ?F = "ext4_sb_get_free_blocks_cnt sb"
  let ?bm' = "bmap_set ?bm (unat n)"
  note q = volume_group [OF v g go]
  have "unat n < unat (sb_blocks_per_group sb)"
    using n v g by (auto simp: volume_ok_def balloc_ready_def word_less_nat_alt word_le_nat_alt intro: less_le_trans)
  then have "unat n < 8 * length ?bm" using v len by (simp add: volume_ok_def balloc_ready_def)
  from free_bits_set [OF n b this] have f: "free_bits sb g ?bm = free_bits sb g ?bm' + 1" .
  have "?c \<noteq> 0" using q(1) f by auto
  then have c: "unat (?c - 1) = free_bits sb g ?bm'" using q(1) f by (simp add: unat_dec)
  have "?F \<noteq> 0" using q(1,3) f by auto
  then have F: "unat (?F - 1) = unat ?F - 1" "0 < unat ?F" by (simp_all add: unat_dec unat_gt_0)
  have "take_bit 16 (?c - 1) = ?c - 1" if "unat (sb_blocks_per_group sb) < 2 ^ 16"
  proof -
    have "unat (?c - 1) < 2 ^ 16" using c q(4) [of ?bm'] that by simp
    then show ?thesis by (simp add: take_bit_eq_mod word_unat_eq_iff unat_mod)
  qed
  then have cnt: "unat (ext4_bg_get_free_blocks_count (bg_moved sb g bg ?bm' (- 1)) sb) = free_bits sb g ?bm'"
    using v c by (auto simp: bg_simps volume_ok_def)
  show ?thesis
    unfolding taken_def by (rule moved_volume_ok [OF v g go cnt]) (use F f q(1) in simp)
qed

lemma given_back_volume_ok:
  assumes v: "volume_ok sb li s" and g: "g < ext4_block_group_cnt sb" and go: "balloc_group_ok sb g bg s"
    and n: "n < ext4_blocks_in_group_cnt sb g" and b: "bmap_bit (block_bitmap sb bg s) (unat n)"
    and len: "length (block_bitmap sb bg s) = st_bsize s"
  shows "volume_ok (sb_add_free 1 sb) li (given_back sb g bg n ir li i s)"
proof -
  let ?bm = "block_bitmap sb bg s" and ?c = "ext4_bg_get_free_blocks_count bg sb" and ?F = "ext4_sb_get_free_blocks_cnt sb"
  let ?bm' = "bmap_clr ?bm (unat n)"
  note q = volume_group [OF v g go]
  have "unat n < unat (sb_blocks_per_group sb)"
    using n v g by (auto simp: volume_ok_def balloc_ready_def word_less_nat_alt word_le_nat_alt intro: less_le_trans)
  then have "unat n < 8 * length ?bm" using v len by (simp add: volume_ok_def balloc_ready_def)
  from free_bits_clr [OF n b this] have f: "free_bits sb g ?bm' = free_bits sb g ?bm + 1" .
  have "unat ?c + 1 \<le> unat (sb_blocks_per_group sb)" using q(1) q(4) [of ?bm'] f by simp
  then have "unat ?c < 2 ^ 32 - 1" using unat_lt32 [of "sb_blocks_per_group sb"] by simp
  then have c: "unat (?c + 1) = free_bits sb g ?bm'" using q(1) f by (simp add: unat_inc)
  have F: "unat (?F + 1) = unat ?F + 1" using volume_free_bound [OF v] by (intro unat_inc) simp
  have "take_bit 16 (?c + 1) = ?c + 1" if "unat (sb_blocks_per_group sb) < 2 ^ 16"
  proof -
    have "unat (?c + 1) < 2 ^ 16" using c q(4) [of ?bm'] that by simp
    then show ?thesis by (simp add: take_bit_eq_mod word_unat_eq_iff unat_mod)
  qed
  then have cnt: "unat (ext4_bg_get_free_blocks_count (bg_moved sb g bg ?bm' 1) sb) = free_bits sb g ?bm'"
    using v c by (auto simp: bg_simps volume_ok_def)
  show ?thesis
    unfolding given_back_def by (rule moved_volume_ok [OF v g go cnt]) (use F f q(1) in simp)
qed

text \<open>While the invariant holds, no group is exhausted as long as the superblock counts a free block.\<close>

lemma volume_not_exhausted:
  assumes v: "volume_ok sb li s" and ex: "\<And>g bg. g < ext4_block_group_cnt sb \<Longrightarrow> balloc_group_ok sb g bg s \<Longrightarrow> exhausted sb g bg s"
  shows "ext4_sb_get_free_blocks_cnt sb = 0"
proof -
  have "free_of sb g s = 0" if g: "g \<in> {g. g < ext4_block_group_cnt sb}" for g
  proof -
    have g': "g < ext4_block_group_cnt sb" using g by simp
    obtain bg where bg: "balloc_group_ok sb g bg s" using v g' by (auto simp: volume_ok_def group_counted_def)
    note q = volume_group [OF v g' bg]
    have "unat (ext4_bg_get_free_blocks_count bg sb) = 0"
      using ex [OF g' bg] q(1) by (auto simp: exhausted_def free_bits_def)
    with q(2) show ?thesis by simp
  qed
  with v show ?thesis by (simp add: volume_ok_def word_unat_eq_iff)
qed

lemma volume_room [simp]: "volume_ok sb li (s\<lparr> st_room := k \<rparr>) = volume_ok sb li s"
proof -
  have c: "group_counted sb g (s\<lparr> st_room := k \<rparr>) = group_counted sb g s" "free_of sb g (s\<lparr> st_room := k \<rparr>) = free_of sb g s"
    for g by (simp_all add: group_counted_def free_of_def)
  show ?thesis unfolding volume_ok_def c by (simp add: balloc_ready_def layout_apart_def)
qed

text \<open>A block that is no metadata of the allocator may hold anything.\<close>

definition data_block :: "ext4_sblock \<Rightarrow> u64 \<Rightarrow> store \<Rightarrow> bool" where
  "data_block sb l s \<longleftrightarrow>
     (\<forall>g bg. g < ext4_block_group_cnt sb \<and> group_at sb g (st_view s) = Inr bg \<longrightarrow>
        l \<noteq> desc_block sb g \<and> l \<noteq> ext4_bg_get_block_bitmap bg sb)"

lemma view_volume_ok:
  assumes v: "volume_ok sb li s" and d: "data_block sb l s" and w: "\<And>k. k \<noteq> l \<Longrightarrow> w k = st_view s k"
  shows "volume_ok sb li (s\<lparr> st_view := w \<rparr>)"
proof -
  let ?N = "ext4_block_group_cnt sb" and ?s = "s\<lparr> st_view := w \<rparr>"
  have ok: "\<exists>bg. balloc_group_ok sb g bg s" if "g < ?N" for g using v that by (auto simp: volume_ok_def balloc_ready_def)
  have at: "group_at sb g w = group_at sb g (st_view s)" if g: "g < ?N" for g
  proof -
    obtain bg where "group_at sb g (st_view s) = Inr bg" using ok [OF g] by (auto simp: balloc_group_ok_def group_ready_def)
    with d g have "desc_block sb g \<noteq> l" unfolding data_block_def by blast
    then show ?thesis by (simp add: group_at_def w)
  qed
  have bm: "block_bitmap sb bg ?s = block_bitmap sb bg s" if "g < ?N" "group_at sb g (st_view s) = Inr bg" for g bg
  proof -
    have "ext4_bg_get_block_bitmap bg sb \<noteq> l" using d that unfolding data_block_def by blast
    then show ?thesis by (simp add: block_bitmap_def w)
  qed
  have go: "balloc_group_ok sb g bg ?s = balloc_group_ok sb g bg s" if "g < ?N" for g bg
    using at [OF that] by (simp add: balloc_group_ok_def group_ready_def)
  have "group_counted sb g ?s" if g: "g < ?N" for g
  proof -
    obtain bg where bg: "balloc_group_ok sb g bg s"
        "unat (ext4_bg_get_free_blocks_count bg sb) = free_bits sb g (block_bitmap sb bg s)"
      using v g by (auto simp: volume_ok_def group_counted_def)
    then have "group_at sb g (st_view s) = Inr bg" by (simp add: balloc_group_ok_def group_ready_def)
    from bm [OF g this] bg go [OF g] show ?thesis by (auto simp: group_counted_def)
  qed
  moreover have "balloc_ready sb ?s" using v go by (auto simp: volume_ok_def balloc_ready_def)
  moreover have "layout_apart sb li ?s"
    unfolding layout_apart_def
  proof (intro allI impI, elim conjE)
    fix g h bg bh
    assume a: "g < ?N" "h < ?N" "group_at sb g (st_view ?s) = Inr bg" "group_at sb h (st_view ?s) = Inr bh"
    have b: "group_at sb g (st_view s) = Inr bg" "group_at sb h (st_view s) = Inr bh"
      using a(3,4) at [OF a(1)] at [OF a(2)] by simp_all
    have ap: "layout_apart sb li s" using v by (simp add: volume_ok_def)
    show "ext4_bg_get_block_bitmap bg sb \<noteq> desc_block sb h \<and> ext4_bg_get_block_bitmap bg sb \<noteq> li \<and> desc_block sb h \<noteq> li \<and>
        (g \<noteq> h \<longrightarrow> ext4_bg_get_block_bitmap bg sb \<noteq> ext4_bg_get_block_bitmap bh sb \<and>
           (desc_block sb g = desc_block sb h \<longrightarrow>
              desc_off sb g + bg_width sb \<le> desc_off sb h \<or> desc_off sb h + bg_width sb \<le> desc_off sb g))"
      using ap a(1,2) b unfolding layout_apart_def by blast
  qed
  moreover have "(\<Sum>g | g < ?N. free_of sb g ?s) = (\<Sum>g | g < ?N. free_of sb g s)"
    by (rule sum.cong) (simp_all add: free_of_def at)
  ultimately show ?thesis using v by (simp add: volume_ok_def)
qed

text \<open>The caller's inode is held, at block \<open>li\<close>.\<close>

definition inode_held :: "ext4_sblock \<Rightarrow> ext4_inode_ref \<Rightarrow> u64 \<Rightarrow> ext4_inode \<Rightarrow> store \<Rightarrow> bool" where
  "inode_held sb ir li i s \<longleftrightarrow>
     ir_block ir = blk li \<and> st_refs s li \<noteq> 0 \<and> inode_at sb (st_view s li) (ir_off ir) = Inr i"

lemma inode_held_ok:
  assumes "volume_ok sb li s" and "inode_held sb ir li i s" and "g < ext4_block_group_cnt sb" and "balloc_group_ok sb g bg s"
  shows "balloc_inode_ok sb g bg ir li i s"
proof -
  have "group_at sb g (st_view s) = Inr bg" using assms(4) by (simp add: balloc_group_ok_def group_ready_def)
  then have "ext4_bg_get_block_bitmap bg sb \<noteq> li \<and> desc_block sb g \<noteq> li"
    using assms(1,3) unfolding volume_ok_def layout_apart_def by blast
  then show ?thesis using assms(2) by (auto simp: balloc_inode_ok_def inode_held_def)
qed

end
