(* ===== verification/VolumeSpec.thy ===== *)
theory VolumeSpec
  imports BallocVolume
begin

text \<open>
  The contract of the block allocator on the image file: a volume is its set of free addresses. Allocating
  removes one address from it, freeing and claiming remove or add the given one, the free
  count of the superblock is always its size, and no other block of the volume changes.
\<close>

section \<open>The free addresses\<close>

definition bit_free :: "ext4_sblock \<Rightarrow> store \<Rightarrow> u32 \<Rightarrow> u32 \<Rightarrow> bool" where
  "bit_free sb s g n \<longleftrightarrow>
     n < ext4_blocks_in_group_cnt sb g \<and>
     (\<exists>bg. group_at sb g (st_view s) = Inr bg \<and> \<not> bmap_bit (block_bitmap sb bg s) (unat n))"

definition volume_addrs :: "ext4_sblock \<Rightarrow> u64 set" where
  "volume_addrs sb =
     {a. \<exists>g n. g < ext4_block_group_cnt sb \<and> n < ext4_blocks_in_group_cnt sb g \<and> a = ext4_fs_bg_idx_to_addr sb n g}"

definition free_set :: "ext4_sblock \<Rightarrow> store \<Rightarrow> u64 set" where
  "free_set sb s = {a. \<exists>g n. g < ext4_block_group_cnt sb \<and> bit_free sb s g n \<and> a = ext4_fs_bg_idx_to_addr sb n g}"

lemma unat_inj: "unat m = unat n \<Longrightarrow> m = n" by (simp add: word_unat_eq_iff)

lemma volume_idx:
  assumes "balloc_ready sb s" and "g < ext4_block_group_cnt sb" and "n < ext4_blocks_in_group_cnt sb g"
  shows "unat n < unat (sb_blocks_per_group sb)"
  using assms by (auto simp: balloc_ready_def word_less_nat_alt word_le_nat_alt intro: less_le_trans)

lemma addr_inj:
  assumes v: "balloc_ready sb s" and a: "g < ext4_block_group_cnt sb" "n < ext4_blocks_in_group_cnt sb g"
    and b: "h < ext4_block_group_cnt sb" "m < ext4_blocks_in_group_cnt sb h"
  shows "ext4_fs_bg_idx_to_addr sb n g = ext4_fs_bg_idx_to_addr sb m h \<longleftrightarrow> g = h \<and> n = m"
proof -
  have "small_volume sb" using v by (simp add: balloc_ready_def)
  from idx_addr_roundtrip [OF this a(1) volume_idx [OF v a]] idx_addr_roundtrip [OF this b(1) volume_idx [OF v b]]
  show ?thesis by metis
qed

text \<open>The bits after an operation on group \<open>g\<close> that leaves it the bitmap \<open>bm\<close>.\<close>

lemma moved_bit_free:
  assumes v: "volume_ok sb li s" and g: "g < ext4_block_group_cnt sb" and go: "balloc_group_ok sb g bg s"
    and h: "h < ext4_block_group_cnt sb"
  shows "bit_free sb (moved sb g bg bm c u ir li i s) h n \<longleftrightarrow>
    (if h = g then n < ext4_blocks_in_group_cnt sb g \<and> \<not> bmap_bit bm (unat n) else bit_free sb s h n)"
proof -
  have ap: "layout_apart sb li s" and rdy: "balloc_ready sb s" using v by (simp_all add: volume_ok_def)
  have ga: "group_at sb g (st_view s) = Inr bg" using go by (simp add: balloc_group_ok_def group_ready_def)
  obtain bh where bh: "group_at sb h (st_view s) = Inr bh"
    using rdy h by (auto simp: balloc_ready_def balloc_group_ok_def group_ready_def)
  show ?thesis
  proof (cases "h = g")
    case True
    then show ?thesis by (simp add: bit_free_def moved_group_self [OF ga] bitmap_changed [OF ap g ga])
  next
    case False
    then show ?thesis
      by (simp add: bit_free_def moved_group_other [OF ap g ga h bh] bitmap_kept [OF ap g ga h bh] bh)
  qed
qed

lemma free_set_taken:
  assumes v: "volume_ok sb li s" and g: "g < ext4_block_group_cnt sb" and go: "balloc_group_ok sb g bg s"
    and n: "n < ext4_blocks_in_group_cnt sb g" and len: "length (block_bitmap sb bg s) = st_bsize s"
  shows "free_set sb (taken sb g bg n ir li i s) = free_set sb s - {ext4_fs_bg_idx_to_addr sb n g}"
proof -
  have rdy: "balloc_ready sb s" using v by (simp add: volume_ok_def)
  have "unat n < 8 * length (block_bitmap sb bg s)"
    using volume_idx [OF rdy g n] rdy len by (simp add: balloc_ready_def)
  note bit = bmap_bit_set [OF this]
  have ga: "group_at sb g (st_view s) = Inr bg" using go by (simp add: balloc_group_ok_def group_ready_def)
  have "bit_free sb (taken sb g bg n ir li i s) h m \<longleftrightarrow> bit_free sb s h m \<and> \<not> (h = g \<and> m = n)"
    if h: "h < ext4_block_group_cnt sb" for h m
    unfolding taken_def moved_bit_free [OF v g go h] bit
    by (cases "h = g") (auto simp: bit_free_def ga dest: unat_inj)
  note bits = this
  have inj: "ext4_fs_bg_idx_to_addr sb m h = ext4_fs_bg_idx_to_addr sb n g \<longleftrightarrow> h = g \<and> m = n"
    if "h < ext4_block_group_cnt sb" "bit_free sb s h m" for h m
    using addr_inj [OF rdy that(1) _ g n, of m] that(2) by (simp add: bit_free_def)
  show ?thesis
  proof (intro subset_antisym subsetI)
    fix a assume "a \<in> free_set sb (taken sb g bg n ir li i s)"
    then obtain h m where h: "h < ext4_block_group_cnt sb" "a = ext4_fs_bg_idx_to_addr sb m h"
        and f: "bit_free sb (taken sb g bg n ir li i s) h m" by (auto simp: free_set_def)
    from bits [OF h(1)] f have f': "bit_free sb s h m" "\<not> (h = g \<and> m = n)" by simp_all
    with inj [OF h(1) f'(1)] h show "a \<in> free_set sb s - {ext4_fs_bg_idx_to_addr sb n g}"
      by (auto simp: free_set_def)
  next
    fix a assume "a \<in> free_set sb s - {ext4_fs_bg_idx_to_addr sb n g}"
    then obtain h m where h: "h < ext4_block_group_cnt sb" "a = ext4_fs_bg_idx_to_addr sb m h"
        and f: "bit_free sb s h m" "\<not> (h = g \<and> m = n)" by (auto simp: free_set_def)
    from bits [OF h(1)] f have "bit_free sb (taken sb g bg n ir li i s) h m" by simp
    with h show "a \<in> free_set sb (taken sb g bg n ir li i s)" by (auto simp: free_set_def)
  qed
qed

lemma free_set_given_back:
  assumes v: "volume_ok sb li s" and g: "g < ext4_block_group_cnt sb" and go: "balloc_group_ok sb g bg s"
    and n: "n < ext4_blocks_in_group_cnt sb g" and len: "length (block_bitmap sb bg s) = st_bsize s"
  shows "free_set sb (given_back sb g bg n ir li i s) = insert (ext4_fs_bg_idx_to_addr sb n g) (free_set sb s)"
proof -
  have rdy: "balloc_ready sb s" using v by (simp add: volume_ok_def)
  have "unat n < 8 * length (block_bitmap sb bg s)"
    using volume_idx [OF rdy g n] rdy len by (simp add: balloc_ready_def)
  note bit = bmap_bit_clr [OF this]
  have ga: "group_at sb g (st_view s) = Inr bg" using go by (simp add: balloc_group_ok_def group_ready_def)
  have "bit_free sb (given_back sb g bg n ir li i s) h m \<longleftrightarrow> bit_free sb s h m \<or> (h = g \<and> m = n)"
    if h: "h < ext4_block_group_cnt sb" for h m
    unfolding given_back_def moved_bit_free [OF v g go h] bit
    using n by (cases "h = g") (auto simp: bit_free_def ga dest: unat_inj)
  note bits = this
  show ?thesis
  proof (intro subset_antisym subsetI)
    fix a assume "a \<in> free_set sb (given_back sb g bg n ir li i s)"
    then obtain h m where "h < ext4_block_group_cnt sb" "a = ext4_fs_bg_idx_to_addr sb m h"
        "bit_free sb (given_back sb g bg n ir li i s) h m" by (auto simp: free_set_def)
    with bits show "a \<in> insert (ext4_fs_bg_idx_to_addr sb n g) (free_set sb s)" by (auto simp: free_set_def)
  next
    fix a assume "a \<in> insert (ext4_fs_bg_idx_to_addr sb n g) (free_set sb s)"
    then consider "a = ext4_fs_bg_idx_to_addr sb n g" | "a \<in> free_set sb s" by blast
    then show "a \<in> free_set sb (given_back sb g bg n ir li i s)"
    proof cases
      case 1
      from bits [OF g, of n] have "bit_free sb (given_back sb g bg n ir li i s) g n" by simp
      with 1 g show ?thesis unfolding free_set_def by blast
    next
      case 2
      then obtain h m where "h < ext4_block_group_cnt sb" "a = ext4_fs_bg_idx_to_addr sb m h" "bit_free sb s h m"
        by (auto simp: free_set_def)
      with bits show ?thesis by (auto simp: free_set_def)
    qed
  qed
qed

text \<open>The free count is the number of free addresses.\<close>

lemma free_bits_card:
  assumes "group_at sb g (st_view s) = Inr bg"
  shows "card {n. bit_free sb s g n} = free_bits sb g (block_bitmap sb bg s)"
proof -
  let ?A = "{n. bit_free sb s g n}"
  let ?B = "{i. i < unat (ext4_blocks_in_group_cnt sb g) \<and> \<not> bmap_bit (block_bitmap sb bg s) i}"
  have "unat ` ?A = ?B"
  proof (intro subset_antisym subsetI)
    fix i assume i: "i \<in> ?B"
    then have "unat (of_nat i :: u32) = i" by (metis le_unat_uoi less_imp_le mem_Collect_eq)
    moreover from this i assms have "of_nat i \<in> ?A" by (simp add: bit_free_def word_less_nat_alt)
    ultimately show "i \<in> unat ` ?A" by (metis image_eqI)
  qed (use assms in \<open>auto simp: bit_free_def word_less_nat_alt\<close>)
  moreover have "inj_on unat ?A" by (simp add: inj_on_def word_unat_eq_iff)
  ultimately show ?thesis unfolding free_bits_def by (metis card_image)
qed

lemma free_set_card:
  assumes v: "volume_ok sb li s"
  shows "card (free_set sb s) = unat (ext4_sb_get_free_blocks_cnt sb)"
proof -
  have rdy: "balloc_ready sb s" using v by (simp add: volume_ok_def)
  let ?G = "{g. g < ext4_block_group_cnt sb}" and ?F = "\<lambda>g. {n. bit_free sb s g n}"
  have "free_set sb s = (\<lambda>(g, n). ext4_fs_bg_idx_to_addr sb n g) ` Sigma ?G ?F"
    by (auto simp: free_set_def)
  moreover have "inj_on (\<lambda>(g, n). ext4_fs_bg_idx_to_addr sb n g) (Sigma ?G ?F)"
    using addr_inj [OF rdy] by (auto simp: inj_on_def bit_free_def)
  ultimately have "card (free_set sb s) = card (Sigma ?G ?F)" by (simp add: card_image)
  also have "\<dots> = (\<Sum>g \<in> ?G. card (?F g))" by (rule card_SigmaI) simp_all
  also have "\<dots> = (\<Sum>g \<in> ?G. free_of sb g s)"
  proof (rule sum.cong [OF refl])
    fix g assume "g \<in> ?G"
    then have g: "g < ext4_block_group_cnt sb" by simp
    then obtain bg where bg: "balloc_group_ok sb g bg s" using rdy by (auto simp: balloc_ready_def)
    then have "group_at sb g (st_view s) = Inr bg" by (simp add: balloc_group_ok_def group_ready_def)
    from free_bits_card [OF this] volume_group(1,2) [OF v g bg] show "card (?F g) = free_of sb g s" by simp
  qed
  finally show ?thesis using v by (simp add: volume_ok_def)
qed

end
