(* ===== verification/IallocSpec.thy ===== *)
theory IallocSpec
  imports Ialloc VolumeSpec
begin

text \<open>
  What the inode allocator does, over any block store: the inodes of a volume are a set of free numbers. An allocation
  takes one number out of it, freeing puts one back; the three counters follow, and nothing but one bitmap and
  one descriptor is written.
\<close>

section \<open>Steps\<close>

definition inode_bitmap :: "ext4_sblock \<Rightarrow> ext4_bgroup \<Rightarrow> store \<Rightarrow> u8 list" where
  "inode_bitmap sb bg s = st_view s (ext4_bg_get_inode_bitmap bg sb)"

definition ialloc_group_ok :: "ext4_sblock \<Rightarrow> u32 \<Rightarrow> ext4_bgroup \<Rightarrow> store \<Rightarrow> bool" where
  "ialloc_group_ok sb g bg s \<longleftrightarrow>
     group_ready sb (st_view s) g bg \<and> desc_block sb g < st_cnt s \<and> desc_block sb g \<notin> st_pend s \<and>
     (let lb = ext4_bg_get_inode_bitmap bg sb
      in lb < st_cnt s \<and> lb \<noteq> 0 \<and> lb \<noteq> desc_block sb g \<and> lb \<notin> st_pend s)"

lemma ialloc_group_at: "ialloc_group_ok sb g bg s \<Longrightarrow> group_at sb g (st_view s) = Inr bg"
  by (simp add: ialloc_group_ok_def group_ready_def)

lemma ialloc_group_room [simp]: "ialloc_group_ok sb g bg (s\<lparr> st_room := k \<rparr>) = ialloc_group_ok sb g bg s"
  by (simp add: ialloc_group_ok_def)

text \<open>A change of the counters of a descriptor.\<close>

definition counts_only :: "ext4_sblock \<Rightarrow> (ext4_bgroup \<Rightarrow> ext4_bgroup) \<Rightarrow> bool" where
  "counts_only sb f \<longleftrightarrow>
     (\<forall>bg. (bg_narrow sb bg \<longrightarrow> bg_narrow sb (f bg)) \<and> ext4_bg_get_inode_bitmap (f bg) sb = ext4_bg_get_inode_bitmap bg sb \<and>
        (\<forall>k. ext4_bg_has_flag (f bg) k = ext4_bg_has_flag bg k))"

lemma counts_only_take: "counts_only sb (ialloc_take sb n is_dir fi ud idx)"
  by (simp add: counts_only_def ialloc_take_def bg_simps Let_def)

lemma counts_only_release: "counts_only sb (ialloc_release sb is_dir)"
  by (simp add: counts_only_def ialloc_release_def bg_simps Let_def)

text \<open>The descriptor and the store after the bitmap of a group became \<open>bm\<close> and its counters changed by \<open>f\<close>.\<close>

definition bg_renewed :: "ext4_sblock \<Rightarrow> u32 \<Rightarrow> ext4_bgroup \<Rightarrow> u8 list \<Rightarrow> (ext4_bgroup \<Rightarrow> ext4_bgroup) \<Rightarrow> ext4_bgroup" where
  "bg_renewed sb g bg bm f = bg_sealed sb g (f (ext4_ialloc_set_bitmap_csum sb bg bm))"

definition renewed :: "ext4_sblock \<Rightarrow> u32 \<Rightarrow> ext4_bgroup \<Rightarrow> u8 list \<Rightarrow> (ext4_bgroup \<Rightarrow> ext4_bgroup) \<Rightarrow> store \<Rightarrow> store" where
  "renewed sb g bg bm f s =
     s\<lparr> st_view := (st_view s)(ext4_bg_get_inode_bitmap bg sb := bm,
          desc_block sb g := desc_patch sb g (bg_renewed sb g bg bm f) (st_view s (desc_block sb g))),
        st_room := st_room s - 2 \<rparr>"

lemma renewed_fields [store_simps]:
  "st_refs (renewed sb g bg bm f s) = st_refs s" "st_pend (renewed sb g bg bm f s) = st_pend s"
  "st_cnt (renewed sb g bg bm f s) = st_cnt s" "st_bsize (renewed sb g bg bm f s) = st_bsize s"
  "st_room (renewed sb g bg bm f s) = st_room s - 2"
  "st_view (renewed sb g bg bm f s) l =
     (if l = desc_block sb g then desc_patch sb g (bg_renewed sb g bg bm f) (st_view s l)
      else if l = ext4_bg_get_inode_bitmap bg sb then bm else st_view s l)"
  by (simp_all add: renewed_def)

lemma bg_renewed_simps:
  assumes "counts_only sb f"
  shows "ext4_bg_get_inode_bitmap (bg_renewed sb g bg bm f) sb = ext4_bg_get_inode_bitmap bg sb"
    "ext4_bg_has_flag (bg_renewed sb g bg bm f) k = ext4_bg_has_flag bg k"
    "bg_narrow sb bg \<Longrightarrow> bg_narrow sb (bg_renewed sb g bg bm f)"
    "ext4_bg_get_free_inodes_count (bg_renewed sb g bg bm f) sb =
       ext4_bg_get_free_inodes_count (f (ext4_ialloc_set_bitmap_csum sb bg bm)) sb"
  using assms by (simp_all add: bg_renewed_def bg_sealed_def bg_simps counts_only_def)

context block_store begin

lemma ialloc_save_rule:
  assumes a: "fs_at rep fs0 (st_get (ext4_bg_get_inode_bitmap bg sb) (st_get (desc_block sb g) s)) fs"
    and sb: "fs_sb fs0 = sb" and g: "ialloc_group_ok sb g bg s"
    and f: "counts_only sb f" and n: "length bm = st_bsize s"
    and Q: "\<And>fs'. fs_at rep fs0 (renewed sb g bg bm f s) fs' \<Longrightarrow> Q () fs'"
  shows "succeeds (fs_store (blk (ext4_bg_get_inode_bitmap bg sb)) (Inr bm) fs) (\<lambda>_ fs.
    succeeds (bgr_modify (grp_ref sb g d) (\<lambda>bg. ext4_ialloc_set_bitmap_csum sb bg bm) fs) (\<lambda>_ fs.
    succeeds (fs_set_dirty (blk (ext4_bg_get_inode_bitmap bg sb)) fs) (\<lambda>_ fs.
    succeeds (fs_block_set io (blk (ext4_bg_get_inode_bitmap bg sb)) fs) (\<lambda>_ fs.
    succeeds (bgr_modify (grp_ref sb g d) f fs) (\<lambda>_ fs. succeeds (ext4_fs_put_block_group_ref io (grp_ref sb g True) fs) Q)))))"
proof -
  let ?lb = "ext4_bg_get_inode_bitmap bg sb" and ?ld = "desc_block sb g"
  have ga: "group_at sb g (st_view s) = Inr bg" by (rule ialloc_group_at [OF g])
  have ne: "?lb \<noteq> ?ld" "?ld \<noteq> ?lb" "?lb \<noteq> 0" "?ld \<noteq> 0" "?lb \<notin> st_pend s" "?ld \<notin> st_pend s"
    using g by (auto simp: ialloc_group_ok_def group_ready_def Let_def)
  note fit = group_at_fits [OF ga]
  have nb: "bg_narrow sb bg" by (rule group_at_narrow [OF ga])
  let ?c = "ext4_ialloc_set_bitmap_csum sb bg bm"
  let ?s1 = "st_get ?lb (st_get ?ld s)"
  let ?s2 = "st_edit ?lb bm ?s1"
  let ?s3 = "st_edit ?ld (desc_patch sb g ?c (st_view ?s2 ?ld)) ?s2"
  let ?s4 = "st_set ?lb (st_dirty ?lb ?s3)"
  let ?s5 = "st_edit ?ld (desc_patch sb g (f ?c) (st_view ?s4 ?ld)) ?s4"
  let ?s6 = "st_set ?ld (st_dirty ?ld (st_edit ?ld (desc_patch sb g (bg_sealed sb g (f ?c)) (st_view ?s5 ?ld)) ?s5))"
  have g2: "group_at sb g (st_view ?s2) = Inr bg" using ga ne by (simp add: group_at_def store_simps)
  have g4: "group_at sb g (st_view ?s4) = Inr ?c"
    by (rule group_at_patch [where d = "st_view s ?ld"]) (use fit nb ne in \<open>simp_all add: store_simps bg_simps\<close>)
  have nf: "bg_narrow sb (f ?c)" using f nb by (simp add: counts_only_def bg_simps)
  have g5: "group_at sb g (st_view ?s5) = Inr (f ?c)"
    by (rule group_at_patch [OF group_at_fits [OF g4] nf]) (simp add: store_simps(5))
  have pe: "insert ?ld (insert ?ld (insert ?lb (st_pend s)) - {?lb}) - {?ld} = st_pend s" using ne by auto
  have net: "?s6 = renewed sb g bg bm f s"
    using ne fit by (simp add: st_set_def st_dirty_def st_edit_def st_get_def renewed_def bg_renewed_def fun_upd_twist pe)
  have r: "st_refs ?s2 ?ld \<noteq> 0" "st_refs ?s4 ?ld \<noteq> 0" "st_refs ?s5 ?ld \<noteq> 0" using ne by (simp_all add: store_simps)
  have put: "succeeds (ext4_fs_put_block_group_ref io (grp_ref sb g True) fs') Q" if f': "fs_at rep fs0 ?s5 fs'" for fs'
    by (rule put_group_rule [OF f' r(3) g5]) (use sb ne Q net in simp_all)
  have mod: "succeeds (bgr_modify (grp_ref sb g d) f fs') (\<lambda>_ fs. succeeds (ext4_fs_put_block_group_ref io (grp_ref sb g True) fs) Q)"
    if f': "fs_at rep fs0 ?s4 fs'" for fs'
    by (rule bgr_modify_rule [OF f' r(2) g4]) (use sb put in simp_all)
  show ?thesis
    apply (rule fs_store_rule [OF a])
      apply (simp add: store_simps)
     apply (simp add: store_simps n)
    apply (rule bgr_modify_rule [OF _ r(1) g2])
      apply assumption
     apply (simp add: sb)
    apply (rule fs_dirty_rule)
      apply assumption
     apply (simp add: store_simps)
    apply (rule fs_set_rule)
        apply assumption
       apply (simp add: store_simps)
      apply (rule ne(3))
     apply (simp add: store_simps)
    apply (erule mod)
    done
qed

end

section \<open>One group\<close>

lemma find_clr_start:
  assumes "unat n \<le> 8 * length bm" and "8 * length bm < 2 ^ 32"
  shows "ext4_bmap_bit_find_clr ua bm 0 n = clr_result (first_clr bm 0 (unat n))"
proof -
  have "first_clr bm 0 0 = None" by (simp add: first_clr_None)
  then show ?thesis using find_clr_complete [of 0 n bm ua] assms by simp
qed

text \<open>The store after inode \<open>idx\<close> of the group is taken.\<close>

definition itaken :: "ext4_sblock \<Rightarrow> u32 \<Rightarrow> ext4_bgroup \<Rightarrow> bool \<Rightarrow> u32 \<Rightarrow> store \<Rightarrow> store" where
  "itaken sb g bg is_dir idx s =
     renewed sb g bg (bmap_set (inode_bitmap sb bg s) (unat idx))
       (ialloc_take sb (ext4_inodes_in_group_cnt sb g) is_dir (ext4_bg_get_free_inodes_count bg sb)
          (ext4_bg_get_used_dirs_count bg sb) idx) s"

definition ireturned :: "ext4_sblock \<Rightarrow> u32 \<Rightarrow> ext4_bgroup \<Rightarrow> bool \<Rightarrow> u32 \<Rightarrow> store \<Rightarrow> store" where
  "ireturned sb g bg is_dir idx s =
     renewed sb g bg (bmap_clr (inode_bitmap sb bg s) (unat idx)) (ialloc_release sb is_dir) s"

context block_store begin

lemma inode_bitmap_length:
  "fs_at rep fs0 s fs \<Longrightarrow> ialloc_group_ok sb g bg s \<Longrightarrow> length (inode_bitmap sb bg s) = st_bsize s"
  using store_length by (auto simp: fs_at_def ialloc_group_ok_def Let_def inode_bitmap_def)

lemma bgr_load_got:
  assumes f': "fs_at rep fs0 (st_get (desc_block sb g) s) fs'" and g: "ialloc_group_ok sb g bg s" and sb: "fs_sb fs0 = sb"
  shows "bgr_load (grp_ref sb g d) fs' = Inr bg"
  by (rule bgr_load_eq [OF f']) (use ialloc_group_at [OF g] sb in \<open>simp_all add: store_simps group_at_def\<close>)

lemma ialloc_group_empty:
  assumes a: "fs_at rep fs0 s fs" and sb: "fs_sb fs0 = sb" and g: "ialloc_group_ok sb g bg s" and room: "st_room s \<noteq> 0"
    and z: "ext4_bg_get_free_inodes_count bg sb = 0"
    and Q: "\<And>fs'. fs_at rep fs0 (s\<lparr> st_room := st_room s - 1 \<rparr>) fs' \<Longrightarrow> Q INoFree fs'"
  shows "succeeds (ialloc_group io is_dir g fs) Q"
proof -
  let ?ld = "desc_block sb g"
  have gr: "group_ready sb (st_view s) g bg" "?ld < st_cnt s" "?ld \<noteq> 0" "?ld \<notin> st_pend s"
    using g by (simp_all add: ialloc_group_ok_def group_ready_def)
  have net: "st_set ?ld (st_get ?ld s) = s\<lparr> st_room := st_room s - 1 \<rparr>" by (simp add: st_set_def st_get_def)
  have sbf: "fs_sb fs = sb" using fs_at_fields(1) [OF a] sb by simp
  have put: "succeeds (sforget (ext4_fs_put_block_group_ref io (grp_ref sb g False) fs')) (\<lambda>_. Q INoFree)"
    if f': "fs_at rep fs0 (st_get ?ld s) fs'" for fs'
    by (rule succeeds_sforget, rule put_group_clean_rule [OF f']) (use gr Q net in \<open>simp_all add: store_simps\<close>)
  show ?thesis
    unfolding ialloc_group_def sbf Let_def succeeds_simps
    apply (rule get_group_rule [OF a gr(1) sb gr(2) room])
    apply (subst succeeds_sread [where f = "bgr_load _"], rule bgr_load_got [OF _ g sb], assumption)
    apply (simp only: z less_irrefl if_False succeeds_simps put)
    done
qed

lemma ialloc_group_found:
  assumes a: "fs_at rep fs0 s fs" and sb: "fs_sb fs0 = sb" and g: "ialloc_group_ok sb g bg s" and room: "2 \<le> st_room s"
    and z: "ext4_bg_get_free_inodes_count bg sb \<noteq> 0"
    and len: "unat (ext4_inodes_in_group_cnt sb g) \<le> 8 * st_bsize s" "8 * st_bsize s < 2 ^ 32"
    and k: "first_clr (inode_bitmap sb bg s) 0 (unat (ext4_inodes_in_group_cnt sb g)) = Some k"
    and Q: "\<And>fs'. fs_at rep fs0 (itaken sb g bg is_dir (of_nat k) s) fs' \<Longrightarrow> Q (IFound (of_nat k)) fs'"
  shows "succeeds (ialloc_group io is_dir g fs) Q"
proof -
  let ?ld = "desc_block sb g" and ?lb = "ext4_bg_get_inode_bitmap bg sb" and ?bm = "inode_bitmap sb bg s"
  let ?n = "ext4_inodes_in_group_cnt sb g"
  let ?f = "ialloc_take sb ?n is_dir (ext4_bg_get_free_inodes_count bg sb) (ext4_bg_get_used_dirs_count bg sb) (of_nat k)"
  have gr: "group_ready sb (st_view s) g bg" "?ld < st_cnt s" "st_room s \<noteq> 0" and lb: "?lb < st_cnt s"
    using g room by (simp_all add: ialloc_group_ok_def Let_def)
  have n: "length ?bm = st_bsize s" by (rule inode_bitmap_length [OF a g])
  have kn: "k < unat ?n" using k by (auto simp: first_clr_Some)
  then have ku: "unat (of_nat k :: u32) = k" by (metis le_unat_uoi less_imp_le)
  have fc: "ext4_bmap_bit_find_clr ua ?bm 0 ?n = Inr (of_nat k)" for ua
    using find_clr_start [of ?n ?bm ua] n len k by (simp add: clr_result_def)
  have st: "ext4_bmap_bit_set ?bm (of_nat k) = Inr (bmap_set ?bm k)" using n len kn by (simp add: bmap_ops_eq ku)
  have zp: "(0 < ext4_bg_get_free_inodes_count bg sb) = True" using z by (simp add: word_neq_0_conv)
  have sbf: "fs_sb fs = sb" using fs_at_fields(1) [OF a] sb by simp
  have dt: "fs_data (blk ?lb) fs' = Inr ?bm" if "fs_at rep fs0 (st_get ?lb (st_get ?ld s)) fs'" for fs'
    using fs_data_eq [OF that, of ?lb] by (simp add: store_simps inode_bitmap_def)
  have tail: "succeeds (fs_store (blk ?lb) (Inr (bmap_set ?bm k)) fs') (\<lambda>_ fs.
      succeeds (bgr_modify (grp_ref sb g False) (\<lambda>bg. ext4_ialloc_set_bitmap_csum sb bg (bmap_set ?bm k)) fs) (\<lambda>_ fs.
      succeeds (fs_set_dirty (blk ?lb) fs) (\<lambda>_ fs. succeeds (sforget (fs_block_set io (blk ?lb) fs)) (\<lambda>_ fs.
      succeeds (bgr_modify (grp_ref sb g False) ?f fs) (\<lambda>_ fs.
      succeeds (ext4_fs_put_block_group_ref io (grp_ref sb g True) fs) (\<lambda>_ fs. Q (IFound (of_nat k)) fs))))))"
    if f': "fs_at rep fs0 (st_get ?lb (st_get ?ld s)) fs'" for fs'
  proof -
    have "succeeds (fs_store (blk ?lb) (Inr (bmap_set ?bm k)) fs') (\<lambda>_ fs.
      succeeds (bgr_modify (grp_ref sb g False) (\<lambda>bg. ext4_ialloc_set_bitmap_csum sb bg (bmap_set ?bm k)) fs) (\<lambda>_ fs.
      succeeds (fs_set_dirty (blk ?lb) fs) (\<lambda>_ fs. succeeds (fs_block_set io (blk ?lb) fs) (\<lambda>_ fs.
      succeeds (bgr_modify (grp_ref sb g False) ?f fs) (\<lambda>_ fs.
      succeeds (ext4_fs_put_block_group_ref io (grp_ref sb g True) fs) (\<lambda>_ fs. Q (IFound (of_nat k)) fs))))))"
      by (rule ialloc_save_rule [OF f' sb g counts_only_take]) (use n Q in \<open>simp_all add: itaken_def ku\<close>)
    then show ?thesis by (elim succeeds_mono) (simp add: succeeds_sforget)
  qed
  show ?thesis
    unfolding ialloc_group_def sbf Let_def succeeds_simps
    apply (rule get_group_rule [OF a gr(1) sb gr(2,3)])
    apply (subst succeeds_sread [where f = "bgr_load _"], rule bgr_load_got [OF _ g sb], assumption)
    apply (simp only: zp if_True succeeds_guard succeeds_simps)
    apply (rule fs_get_rule, assumption, use lb in \<open>simp add: store_simps\<close>, use room in \<open>simp add: store_simps\<close>)
    apply (subst succeeds_sread [where f = "fs_data _"], rule dt, assumption)
    apply (simp only: fc sum.case st succeeds_simps grp_ref_simps tail)
    done
qed

end

section \<open>The volume\<close>

definition free_ibits :: "ext4_sblock \<Rightarrow> u32 \<Rightarrow> u8 list \<Rightarrow> nat" where
  "free_ibits sb g bm = card {i. i < unat (ext4_inodes_in_group_cnt sb g) \<and> \<not> bmap_bit bm i}"

text \<open>The blocks of the allocator are distinct, and descriptors do not overlap.\<close>

definition inodes_apart :: "ext4_sblock \<Rightarrow> store \<Rightarrow> bool" where
  "inodes_apart sb s \<longleftrightarrow>
     (\<forall>g h bg bh. g < ext4_block_group_cnt sb \<and> h < ext4_block_group_cnt sb \<and>
        group_at sb g (st_view s) = Inr bg \<and> group_at sb h (st_view s) = Inr bh \<longrightarrow>
        ext4_bg_get_inode_bitmap bg sb \<noteq> desc_block sb h \<and>
        (g \<noteq> h \<longrightarrow> ext4_bg_get_inode_bitmap bg sb \<noteq> ext4_bg_get_inode_bitmap bh sb \<and>
           (desc_block sb g = desc_block sb h \<longrightarrow>
              desc_off sb g + bg_width sb \<le> desc_off sb h \<or> desc_off sb h + bg_width sb \<le> desc_off sb g)))"

definition igroup_counted :: "ext4_sblock \<Rightarrow> u32 \<Rightarrow> store \<Rightarrow> bool" where
  "igroup_counted sb g s \<longleftrightarrow>
     (\<exists>bg. ialloc_group_ok sb g bg s \<and> unat (ext4_bg_get_free_inodes_count bg sb) = free_ibits sb g (inode_bitmap sb bg s))"

definition ifree_of :: "ext4_sblock \<Rightarrow> u32 \<Rightarrow> store \<Rightarrow> nat" where
  "ifree_of sb g s = (case group_at sb g (st_view s) of Inl _ \<Rightarrow> 0 | Inr bg \<Rightarrow> unat (ext4_bg_get_free_inodes_count bg sb))"

definition inodes_fit :: "ext4_sblock \<Rightarrow> nat \<Rightarrow> bool" where
  "inodes_fit sb bsize \<longleftrightarrow>
     (ext4_sb_get_desc_size sb > 32 \<or> unat (sb_inodes_per_group sb) < 2 ^ 16) \<and>
     unat (sb_inodes_per_group sb) \<le> 8 * bsize \<and> 8 * bsize < 2 ^ 32 \<and>
     unat (ext4_block_group_cnt sb) * unat (sb_inodes_per_group sb) < 2 ^ 32 \<and>
     (\<forall>g < ext4_block_group_cnt sb. ext4_inodes_in_group_cnt sb g \<le> sb_inodes_per_group sb)"

definition inodes_ok :: "ext4_sblock \<Rightarrow> store \<Rightarrow> bool" where
  "inodes_ok sb s \<longleftrightarrow>
     inodes_fit sb (st_bsize s) \<and> inodes_apart sb s \<and> (\<forall>g < ext4_block_group_cnt sb. igroup_counted sb g s) \<and>
     unat (sb_free_inodes_count sb) = (\<Sum>g | g < ext4_block_group_cnt sb. ifree_of sb g s)"

definition inode_free :: "ext4_sblock \<Rightarrow> store \<Rightarrow> u32 \<Rightarrow> u32 \<Rightarrow> bool" where
  "inode_free sb s g n \<longleftrightarrow>
     n < ext4_inodes_in_group_cnt sb g \<and>
     (\<exists>bg. group_at sb g (st_view s) = Inr bg \<and> \<not> bmap_bit (inode_bitmap sb bg s) (unat n))"

definition inode_numbers :: "ext4_sblock \<Rightarrow> u32 set" where
  "inode_numbers sb =
     {i. \<exists>g n. g < ext4_block_group_cnt sb \<and> n < ext4_inodes_in_group_cnt sb g \<and> i = ext4_ialloc_bgidx_to_inode sb n g}"

definition free_inodes :: "ext4_sblock \<Rightarrow> store \<Rightarrow> u32 set" where
  "free_inodes sb s = {i. \<exists>g n. g < ext4_block_group_cnt sb \<and> inode_free sb s g n \<and> i = ext4_ialloc_bgidx_to_inode sb n g}"

lemma inodes_ok_room [simp]:
  "inodes_ok sb (s\<lparr> st_room := k \<rparr>) = inodes_ok sb s" "free_inodes sb (s\<lparr> st_room := k \<rparr>) = free_inodes sb s"
  "inode_bitmap sb bg (s\<lparr> st_room := k \<rparr>) = inode_bitmap sb bg s"
proof -
  show b: "inode_bitmap sb bg (s\<lparr> st_room := k \<rparr>) = inode_bitmap sb bg s" for bg by (simp add: inode_bitmap_def)
  show "inodes_ok sb (s\<lparr> st_room := k \<rparr>) = inodes_ok sb s"
    by (simp add: inodes_ok_def inodes_apart_def igroup_counted_def ifree_of_def b)
  show "free_inodes sb (s\<lparr> st_room := k \<rparr>) = free_inodes sb s" by (simp add: free_inodes_def inode_free_def b)
qed

text \<open>Numbers.\<close>

lemma inode_number_val:
  assumes f: "inodes_fit sb b" and g: "g < ext4_block_group_cnt sb" and n: "n < ext4_inodes_in_group_cnt sb g"
  shows "unat n < unat (sb_inodes_per_group sb)"
    and "unat (ext4_ialloc_bgidx_to_inode sb n g) = unat g * unat (sb_inodes_per_group sb) + unat n + 1"
    and "unat g * unat (sb_inodes_per_group sb) + unat n + 1 < 2 ^ 32"
proof -
  let ?p = "unat (sb_inodes_per_group sb)"
  have "ext4_inodes_in_group_cnt sb g \<le> sb_inodes_per_group sb" using f g by (simp add: inodes_fit_def)
  with n show np: "unat n < ?p" by (simp add: word_less_nat_alt word_le_nat_alt)
  have "(unat g + 1) * ?p \<le> unat (ext4_block_group_cnt sb) * ?p"
    using g by (intro mult_le_mono1) (simp add: word_less_nat_alt)
  also have "\<dots> < 2 ^ 32" using f by (simp add: inodes_fit_def)
  finally have t: "unat g * ?p + ?p < 2 ^ 32" by simp
  with np show b: "unat g * ?p + unat n + 1 < 2 ^ 32" by linarith
  have "unat (g * sb_inodes_per_group sb) = unat g * ?p" using t by (simp add: unat_word_ariths)
  moreover have "unat (n + 1) = unat n + 1" using b by (subst unat_add_le) simp_all
  ultimately show "unat (ext4_ialloc_bgidx_to_inode sb n g) = unat g * ?p + unat n + 1"
    unfolding ext4_ialloc_bgidx_to_inode_def using b by (subst unat_add_le) simp_all
qed

lemma inode_number_back:
  assumes f: "inodes_fit sb b" and g: "g < ext4_block_group_cnt sb" and n: "n < ext4_inodes_in_group_cnt sb g"
  shows "ext4_ialloc_get_bgid_of_inode sb (ext4_ialloc_bgidx_to_inode sb n g) = g"
    and "ext4_ialloc_inode_to_bgidx sb (ext4_ialloc_bgidx_to_inode sb n g) = n"
proof -
  let ?p = "unat (sb_inodes_per_group sb)" and ?i = "ext4_ialloc_bgidx_to_inode sb n g"
  note v = inode_number_val [OF assms]
  have "unat (?i - 1) = unat g * ?p + unat n" using v(2) by (simp add: unat_minus_le)
  moreover have "(unat g * ?p + unat n) div ?p = unat g" "(unat g * ?p + unat n) mod ?p = unat n" using v(1) by simp_all
  ultimately show "ext4_ialloc_get_bgid_of_inode sb ?i = g" "ext4_ialloc_inode_to_bgidx sb ?i = n"
    unfolding ext4_ialloc_get_bgid_of_inode_def ext4_ialloc_inode_to_bgidx_def
    by (simp_all only: word_unat_eq_iff unat_div unat_mod)
qed

lemma inode_number_inj:
  assumes f: "inodes_fit sb b" and a: "g < ext4_block_group_cnt sb" "n < ext4_inodes_in_group_cnt sb g"
    and c: "h < ext4_block_group_cnt sb" "m < ext4_inodes_in_group_cnt sb h"
  shows "ext4_ialloc_bgidx_to_inode sb n g = ext4_ialloc_bgidx_to_inode sb m h \<longleftrightarrow> g = h \<and> n = m"
  using inode_number_back [OF f a] inode_number_back [OF f c] by metis

lemma free_inodes_iff:
  assumes f: "inodes_fit sb b" and g: "g < ext4_block_group_cnt sb" and n: "n < ext4_inodes_in_group_cnt sb g"
  shows "ext4_ialloc_bgidx_to_inode sb n g \<in> free_inodes sb s \<longleftrightarrow> inode_free sb s g n"
proof
  assume "ext4_ialloc_bgidx_to_inode sb n g \<in> free_inodes sb s"
  then obtain h m where h: "h < ext4_block_group_cnt sb" "inode_free sb s h m"
    "ext4_ialloc_bgidx_to_inode sb n g = ext4_ialloc_bgidx_to_inode sb m h" by (auto simp: free_inodes_def)
  have "m < ext4_inodes_in_group_cnt sb h" using h(2) by (simp add: inode_free_def)
  from inode_number_inj [OF f g n h(1) this] h(2,3) show "inode_free sb s g n" by simp
qed (use g in \<open>auto simp: free_inodes_def\<close>)

lemma free_inodes_sub: "free_inodes sb s \<subseteq> inode_numbers sb"
  by (auto simp: free_inodes_def inode_numbers_def inode_free_def)

section \<open>After an operation on one group\<close>

lemma inode_count_geometry [store_simps]:
  fixes sb m
  defines "sb' \<equiv> sb\<lparr> sb_free_inodes_count := m \<rparr>"
  shows "ext4_block_group_cnt sb' = ext4_block_group_cnt sb" "ext4_inodes_in_group_cnt sb' g = ext4_inodes_in_group_cnt sb g"
    "ext4_sb_get_desc_size sb' = ext4_sb_get_desc_size sb" "group_at sb' g V = group_at sb g V"
    "ext4_bg_get_inode_bitmap bg sb' = ext4_bg_get_inode_bitmap bg sb"
    "ext4_bg_get_free_inodes_count bg sb' = ext4_bg_get_free_inodes_count bg sb"
    "ialloc_group_ok sb' g bg s = ialloc_group_ok sb g bg s" "inode_bitmap sb' bg s = inode_bitmap sb bg s"
    "free_ibits sb' g bm = free_ibits sb g bm" "inodes_fit sb' b = inodes_fit sb b"
    "inodes_apart sb' s = inodes_apart sb s" "igroup_counted sb' g s = igroup_counted sb g s" "ifree_of sb' g s = ifree_of sb g s"
    "free_inodes sb' s = free_inodes sb s" "inode_numbers sb' = inode_numbers sb"
proof -
  note w = free_counts_geometry(4,8,10) [where sb = sb and m = m, folded sb'_def]
  have c: "ext4_block_group_cnt sb' = ext4_block_group_cnt sb" "sb_inodes_per_group sb' = sb_inodes_per_group sb"
    "ext4_sb_get_desc_size sb' = ext4_sb_get_desc_size sb"
    and i: "ext4_inodes_in_group_cnt sb' g = ext4_inodes_in_group_cnt sb g" for g
    by (simp_all add: sb'_def ext4_block_group_cnt_def ext4_sb_get_blocks_cnt_def ext4_inodes_in_group_cnt_def
        ext4_sb_get_desc_size_def Let_def)
  have at: "group_at sb' g V = group_at sb g V" for g V by (simp add: group_at_def bg_at_def w)
  have bb: "ext4_bg_get_inode_bitmap bg sb' = ext4_bg_get_inode_bitmap bg sb"
    "ext4_bg_get_free_inodes_count bg sb' = ext4_bg_get_free_inodes_count bg sb" for bg
    by (simp_all add: ext4_bg_get_inode_bitmap_def ext4_bg_get_free_inodes_count_def c)
  have ok: "ialloc_group_ok sb' g bg s = ialloc_group_ok sb g bg s" for g bg s
    by (simp add: ialloc_group_ok_def group_ready_def at bb w)
  have bm: "inode_bitmap sb' bg s = inode_bitmap sb bg s" "free_ibits sb' g d = free_ibits sb g d" for bg s g d
    by (simp_all add: inode_bitmap_def free_ibits_def bb i)
  have nr: "ext4_ialloc_bgidx_to_inode sb' n g = ext4_ialloc_bgidx_to_inode sb n g" for n g
    by (simp add: ext4_ialloc_bgidx_to_inode_def c)
  show "ext4_block_group_cnt sb' = ext4_block_group_cnt sb" "ext4_inodes_in_group_cnt sb' g = ext4_inodes_in_group_cnt sb g"
    "ext4_sb_get_desc_size sb' = ext4_sb_get_desc_size sb" "group_at sb' g V = group_at sb g V"
    "ext4_bg_get_inode_bitmap bg sb' = ext4_bg_get_inode_bitmap bg sb"
    "ext4_bg_get_free_inodes_count bg sb' = ext4_bg_get_free_inodes_count bg sb"
    "ialloc_group_ok sb' g bg s = ialloc_group_ok sb g bg s" "inode_bitmap sb' bg s = inode_bitmap sb bg s"
    "free_ibits sb' g bm = free_ibits sb g bm" "inodes_fit sb' b = inodes_fit sb b"
    "inodes_apart sb' s = inodes_apart sb s" "igroup_counted sb' g s = igroup_counted sb g s" "ifree_of sb' g s = ifree_of sb g s"
    "free_inodes sb' s = free_inodes sb s" "inode_numbers sb' = inode_numbers sb"
    by (simp_all add: w c i at bb ok bm nr inodes_fit_def inodes_apart_def igroup_counted_def ifree_of_def
        free_inodes_def inode_free_def inode_numbers_def cong: sum.case_cong)
qed

lemma renewed_group_self:
  assumes ga: "group_at sb g (st_view s) = Inr bg" and f: "counts_only sb f"
  shows "group_at sb g (st_view (renewed sb g bg bm f s)) = Inr (bg_renewed sb g bg bm f)"
  by (rule group_at_patch [OF group_at_fits [OF ga] bg_renewed_simps(3) [OF f group_at_narrow [OF ga]]]) (simp add: store_simps)

lemma renewed_other:
  assumes ap: "inodes_apart sb s" and g: "g < ext4_block_group_cnt sb" "group_at sb g (st_view s) = Inr bg"
    and h: "h < ext4_block_group_cnt sb" "group_at sb h (st_view s) = Inr bh" and ne: "h \<noteq> g"
  shows "group_at sb h (st_view (renewed sb g bg bm f s)) = Inr bh"
    and "inode_bitmap sb bh (renewed sb g bg bm f s) = inode_bitmap sb bh s"
proof -
  have q: "ext4_bg_get_inode_bitmap bg sb \<noteq> desc_block sb h" "ext4_bg_get_inode_bitmap bh sb \<noteq> desc_block sb g"
    "ext4_bg_get_inode_bitmap bh sb \<noteq> ext4_bg_get_inode_bitmap bg sb"
    "desc_block sb g = desc_block sb h \<Longrightarrow>
      desc_off sb g + bg_width sb \<le> desc_off sb h \<or> desc_off sb h + bg_width sb \<le> desc_off sb g"
    using ap g h ne unfolding inodes_apart_def by blast+
  show "inode_bitmap sb bh (renewed sb g bg bm f s) = inode_bitmap sb bh s" using q(2,3) by (simp add: inode_bitmap_def store_simps)
  have "group_at sb h (st_view (renewed sb g bg bm f s)) = group_at sb h (st_view s)"
  proof (cases "desc_block sb h = desc_block sb g")
    case True
    let ?d = "st_view s (desc_block sb h)"
    have fit: "desc_off sb g + bg_width sb \<le> length ?d" using group_at_fits [OF g(2)] True by simp
    have "rd_range (desc_patch sb g (bg_renewed sb g bg bm f) ?d) (desc_off sb h) (bg_width sb) = rd_range ?d (desc_off sb h) (bg_width sb)"
      unfolding desc_patch_def by (rule rd_patch_other) (use fit q(4) True in auto)
    then show ?thesis using True by (simp add: group_at_def bg_at_def store_simps)
  next
    case False
    with q show ?thesis by (simp add: group_at_def store_simps)
  qed
  with h(2) show "group_at sb h (st_view (renewed sb g bg bm f s)) = Inr bh" by simp
qed

lemma renewed_bitmap:
  assumes ap: "inodes_apart sb s" and g: "g < ext4_block_group_cnt sb" "group_at sb g (st_view s) = Inr bg" and f: "counts_only sb f"
  shows "inode_bitmap sb (bg_renewed sb g bg bm f) (renewed sb g bg bm f s) = bm"
proof -
  have "ext4_bg_get_inode_bitmap bg sb \<noteq> desc_block sb g" using ap g unfolding inodes_apart_def by blast
  then show ?thesis by (simp add: inode_bitmap_def store_simps bg_renewed_simps [OF f])
qed

lemma inodes_group:
  assumes v: "inodes_ok sb s" and g: "g < ext4_block_group_cnt sb"
  obtains bg where "ialloc_group_ok sb g bg s" "group_at sb g (st_view s) = Inr bg"
    "unat (ext4_bg_get_free_inodes_count bg sb) = free_ibits sb g (inode_bitmap sb bg s)"
    "ifree_of sb g s = unat (ext4_bg_get_free_inodes_count bg sb)"
proof -
  obtain bg where "ialloc_group_ok sb g bg s" "unat (ext4_bg_get_free_inodes_count bg sb) = free_ibits sb g (inode_bitmap sb bg s)"
    using v g by (auto simp: inodes_ok_def igroup_counted_def)
  with that [of bg] ialloc_group_at show ?thesis by (simp add: ifree_of_def)
qed

lemma renewed_group_ok:
  assumes v: "inodes_ok sb s" and g: "g < ext4_block_group_cnt sb" "ialloc_group_ok sb g bg s" and f: "counts_only sb f"
    and h: "h < ext4_block_group_cnt sb" "ialloc_group_ok sb h bh s"
  shows "ialloc_group_ok sb h (if h = g then bg_renewed sb g bg bm f else bh) (renewed sb g bg bm f s)"
proof (cases "h = g")
  case True
  with renewed_group_self [OF ialloc_group_at [OF g(2)] f, of bm] g(2) show ?thesis
    by (simp add: ialloc_group_ok_def group_ready_def bg_renewed_simps [OF f] store_simps)
next
  case False
  have "inodes_apart sb s" using v by (simp add: inodes_ok_def)
  from renewed_other(1) [OF this g(1) ialloc_group_at [OF g(2)] h(1) ialloc_group_at [OF h(2)] False] h(2) False show ?thesis
    by (simp add: ialloc_group_ok_def group_ready_def store_simps)
qed

lemma renewed_apart:
  assumes v: "inodes_ok sb s" and g: "g < ext4_block_group_cnt sb" "ialloc_group_ok sb g bg s" and f: "counts_only sb f"
  shows "inodes_apart sb (renewed sb g bg bm f s)"
proof -
  have ap: "inodes_apart sb s" using v by (simp add: inodes_ok_def)
  have same: "\<exists>bh. group_at sb h (st_view s) = Inr bh \<and> ext4_bg_get_inode_bitmap bh' sb = ext4_bg_get_inode_bitmap bh sb"
    if h: "h < ext4_block_group_cnt sb" "group_at sb h (st_view (renewed sb g bg bm f s)) = Inr bh'" for h bh'
  proof (cases "h = g")
    case True
    with h(2) renewed_group_self [OF ialloc_group_at [OF g(2)] f, of bm] ialloc_group_at [OF g(2)] show ?thesis
      by (auto simp: bg_renewed_simps [OF f])
  next
    case False
    obtain bh where "group_at sb h (st_view s) = Inr bh" using inodes_group [OF v h(1)] by blast
    with renewed_other(1) [OF ap g(1) ialloc_group_at [OF g(2)] h(1) this False, of bm f] h(2) show ?thesis by auto
  qed
  show ?thesis
    unfolding inodes_apart_def
  proof (intro allI impI, elim conjE)
    fix h k bh' bk'
    assume a: "h < ext4_block_group_cnt sb" "k < ext4_block_group_cnt sb"
      "group_at sb h (st_view (renewed sb g bg bm f s)) = Inr bh'" "group_at sb k (st_view (renewed sb g bg bm f s)) = Inr bk'"
    from same [OF a(1,3)] same [OF a(2,4)] obtain bh bk where
      b: "group_at sb h (st_view s) = Inr bh" "group_at sb k (st_view s) = Inr bk"
        "ext4_bg_get_inode_bitmap bh' sb = ext4_bg_get_inode_bitmap bh sb"
        "ext4_bg_get_inode_bitmap bk' sb = ext4_bg_get_inode_bitmap bk sb" by blast
    show "ext4_bg_get_inode_bitmap bh' sb \<noteq> desc_block sb k \<and>
        (h \<noteq> k \<longrightarrow> ext4_bg_get_inode_bitmap bh' sb \<noteq> ext4_bg_get_inode_bitmap bk' sb \<and>
           (desc_block sb h = desc_block sb k \<longrightarrow>
              desc_off sb h + bg_width sb \<le> desc_off sb k \<or> desc_off sb k + bg_width sb \<le> desc_off sb h))"
      unfolding b(3,4) using ap a(1,2) b(1,2) unfolding inodes_apart_def by blast
  qed
qed

lemma renewed_inodes_ok:
  assumes v: "inodes_ok sb s" and g: "g < ext4_block_group_cnt sb" "ialloc_group_ok sb g bg s" and f: "counts_only sb f"
    and c: "unat (ext4_bg_get_free_inodes_count (bg_renewed sb g bg bm f) sb) = free_ibits sb g bm"
    and d: "unat F + unat (ext4_bg_get_free_inodes_count bg sb) = unat (sb_free_inodes_count sb) + free_ibits sb g bm"
  shows "inodes_ok (sb\<lparr> sb_free_inodes_count := F \<rparr>) (renewed sb g bg bm f s)"
proof -
  let ?s = "renewed sb g bg bm f s" and ?N = "ext4_block_group_cnt sb"
  have ap: "inodes_apart sb s" using v by (simp add: inodes_ok_def)
  have ga: "group_at sb g (st_view s) = Inr bg" by (rule ialloc_group_at [OF g(2)])
  note self = renewed_group_self [OF ga f, of bm]
  have "igroup_counted sb h ?s" if h: "h < ?N" for h
  proof -
    obtain bh where bh: "ialloc_group_ok sb h bh s" "group_at sb h (st_view s) = Inr bh"
        "unat (ext4_bg_get_free_inodes_count bh sb) = free_ibits sb h (inode_bitmap sb bh s)"
      using inodes_group [OF v h] by metis
    note ok = renewed_group_ok [OF v g f h bh(1), of bm]
    show ?thesis
    proof (cases "h = g")
      case True
      with ok c renewed_bitmap [OF ap g(1) ga f, of bm] show ?thesis by (auto simp: igroup_counted_def)
    next
      case False
      with ok bh(3) renewed_other(2) [OF ap g(1) ga h bh(2) False, of bm f] show ?thesis by (auto simp: igroup_counted_def)
    qed
  qed
  moreover have "unat F = (\<Sum>h | h < ?N. ifree_of sb h ?s)"
  proof -
    have fin: "finite {h. h < ?N}" and mem: "g \<in> {h. h < ?N}" using g by simp_all
    have rest: "(\<Sum>h \<in> {h. h < ?N} - {g}. ifree_of sb h ?s) = (\<Sum>h \<in> {h. h < ?N} - {g}. ifree_of sb h s)"
    proof (rule sum.cong [OF refl])
      fix h assume h: "h \<in> {h. h < ?N} - {g}"
      then obtain bh where bh: "group_at sb h (st_view s) = Inr bh" using inodes_group [OF v, of h] by blast
      have "h < ?N" "h \<noteq> g" using h by simp_all
      from renewed_other(1) [OF ap g(1) ga this(1) bh this(2), of bm f] bh show "ifree_of sb h ?s = ifree_of sb h s"
        by (simp add: ifree_of_def)
    qed
    have "(\<Sum>h | h < ?N. ifree_of sb h ?s) = ifree_of sb g ?s + (\<Sum>h \<in> {h. h < ?N} - {g}. ifree_of sb h s)"
      unfolding sum.remove [OF fin mem] rest ..
    moreover have "(\<Sum>h | h < ?N. ifree_of sb h s) = ifree_of sb g s + (\<Sum>h \<in> {h. h < ?N} - {g}. ifree_of sb h s)"
      by (rule sum.remove [OF fin mem])
    moreover have "ifree_of sb g ?s = free_ibits sb g bm" "ifree_of sb g s = unat (ext4_bg_get_free_inodes_count bg sb)"
      using self ga c by (simp_all add: ifree_of_def)
    moreover have "unat (sb_free_inodes_count sb) = (\<Sum>h | h < ?N. ifree_of sb h s)" using v by (simp add: inodes_ok_def)
    ultimately show ?thesis using d by linarith
  qed
  ultimately show ?thesis
    using v renewed_apart [OF v g f, of bm] by (simp add: inodes_ok_def store_simps)
qed

text \<open>One number changes sides.\<close>

lemma renewed_free_inodes:
  assumes v: "inodes_ok sb s" and g: "g < ext4_block_group_cnt sb" "ialloc_group_ok sb g bg s" and f: "counts_only sb f"
    and n: "n < ext4_inodes_in_group_cnt sb g"
    and b: "\<And>m. bmap_bit bm m \<longleftrightarrow> (if m = unat n then B else bmap_bit (inode_bitmap sb bg s) m)"
  shows "free_inodes sb (renewed sb g bg bm f s) =
    (if B then free_inodes sb s - {ext4_ialloc_bgidx_to_inode sb n g} else insert (ext4_ialloc_bgidx_to_inode sb n g) (free_inodes sb s))"
proof -
  have ap: "inodes_apart sb s" and fit: "inodes_fit sb (st_bsize s)" using v by (simp_all add: inodes_ok_def)
  have ga: "group_at sb g (st_view s) = Inr bg" by (rule ialloc_group_at [OF g(2)])
  have bits: "inode_free sb (renewed sb g bg bm f s) h m \<longleftrightarrow> (if h = g \<and> m = n then \<not> B else inode_free sb s h m)"
    if h: "h < ext4_block_group_cnt sb" for h m
  proof (cases "h = g")
    case True
    then show ?thesis using n b [of "unat m"]
      by (auto simp: inode_free_def renewed_group_self [OF ga f] renewed_bitmap [OF ap g(1) ga f] ga dest: unat_inj)
  next
    case False
    obtain bh where bh: "group_at sb h (st_view s) = Inr bh" using inodes_group [OF v h] by blast
    from renewed_other [OF ap g(1) ga h bh False, of bm f] False bh show ?thesis by (simp add: inode_free_def)
  qed
  have mem: "i \<in> free_inodes sb (renewed sb g bg bm f s) \<longleftrightarrow>
      (if i = ext4_ialloc_bgidx_to_inode sb n g then \<not> B else i \<in> free_inodes sb s)" for i
  proof (cases "i = ext4_ialloc_bgidx_to_inode sb n g")
    case True
    then show ?thesis unfolding True using free_inodes_iff [OF fit g(1) n, of "renewed sb g bg bm f s"] bits [OF g(1), of n] by simp
  next
    case False
    then have "\<not> (h = g \<and> m = n)" if "i = ext4_ialloc_bgidx_to_inode sb m h" for h m using that by blast
    with False bits show ?thesis unfolding free_inodes_def by (auto simp del: not_less) metis+
  qed
  show ?thesis by (cases B) (auto simp: mem split: if_splits)
qed

lemma free_ibits_step:
  assumes n: "n < ext4_inodes_in_group_cnt sb g" and l: "unat n < 8 * length bm"
  shows "\<not> bmap_bit bm (unat n) \<Longrightarrow> free_ibits sb g bm = free_ibits sb g (bmap_set bm (unat n)) + 1"
    and "bmap_bit bm (unat n) \<Longrightarrow> free_ibits sb g (bmap_clr bm (unat n)) = free_ibits sb g bm + 1"
proof -
  let ?S = "{i. i < unat (ext4_inodes_in_group_cnt sb g) \<and> \<not> bmap_bit bm i}"
  have fin: "finite ?S" by simp
  {
    assume "\<not> bmap_bit bm (unat n)"
    then have "unat n \<in> ?S" using n by (simp add: word_less_nat_alt)
    moreover have "{i. i < unat (ext4_inodes_in_group_cnt sb g) \<and> \<not> bmap_bit (bmap_set bm (unat n)) i} = ?S - {unat n}"
      unfolding bmap_bit_set [OF l] by blast
    ultimately show "free_ibits sb g bm = free_ibits sb g (bmap_set bm (unat n)) + 1"
      unfolding free_ibits_def using card_Suc_Diff1 [OF fin] by simp
  next
    assume "bmap_bit bm (unat n)"
    then have "unat n \<notin> ?S" by simp
    moreover have "{i. i < unat (ext4_inodes_in_group_cnt sb g) \<and> \<not> bmap_bit (bmap_clr bm (unat n)) i} = insert (unat n) ?S"
      unfolding bmap_bit_clr [OF l] using n by (auto simp: word_less_nat_alt)
    ultimately show "free_ibits sb g (bmap_clr bm (unat n)) = free_ibits sb g bm + 1" by (simp add: free_ibits_def)
  }
qed

lemma inodes_group_bounds:
  assumes v: "inodes_ok sb s" and g: "g < ext4_block_group_cnt sb" "ialloc_group_ok sb g bg s"
  shows "unat (ext4_bg_get_free_inodes_count bg sb) = free_ibits sb g (inode_bitmap sb bg s)"
    and "unat (ext4_bg_get_free_inodes_count bg sb) \<le> unat (sb_free_inodes_count sb)"
    and "free_ibits sb g bm \<le> unat (sb_inodes_per_group sb)"
proof -
  obtain bh where bh: "group_at sb g (st_view s) = Inr bh"
      "unat (ext4_bg_get_free_inodes_count bh sb) = free_ibits sb g (inode_bitmap sb bh s)"
      "ifree_of sb g s = unat (ext4_bg_get_free_inodes_count bh sb)"
    using inodes_group [OF v g(1)] by metis
  have "bh = bg" using bh(1) ialloc_group_at [OF g(2)] by simp
  with bh show "unat (ext4_bg_get_free_inodes_count bg sb) = free_ibits sb g (inode_bitmap sb bg s)" by simp
  have "ifree_of sb g s \<le> (\<Sum>h | h < ext4_block_group_cnt sb. ifree_of sb h s)" by (rule member_le_sum) (use g in simp_all)
  with v bh(3) \<open>bh = bg\<close> show "unat (ext4_bg_get_free_inodes_count bg sb) \<le> unat (sb_free_inodes_count sb)"
    by (simp add: inodes_ok_def)
  have "free_ibits sb g bm \<le> card {i. i < unat (ext4_inodes_in_group_cnt sb g)}"
    unfolding free_ibits_def by (intro card_mono) auto
  moreover have "ext4_inodes_in_group_cnt sb g \<le> sb_inodes_per_group sb" using v g by (simp add: inodes_ok_def inodes_fit_def)
  ultimately show "free_ibits sb g bm \<le> unat (sb_inodes_per_group sb)" by (simp add: word_le_nat_alt)
qed

lemma inodes_count_room:
  assumes v: "inodes_ok sb s" and g: "g < ext4_block_group_cnt sb" "ialloc_group_ok sb g bg s"
    and c: "unat (ext4_bg_get_free_inodes_count bg sb) + 1 \<le> unat (sb_inodes_per_group sb)"
  shows "unat (sb_free_inodes_count sb) + 1 < 2 ^ 32"
proof -
  let ?N = "ext4_block_group_cnt sb" and ?p = "unat (sb_inodes_per_group sb)"
  let ?S = "{h. h < ?N}" and ?u = "\<lambda>h. ifree_of sb h s + (if h = g then 1 else 0)"
  have "?u h \<le> ?p" if h: "h \<in> ?S" for h
  proof -
    obtain bh where bh: "ialloc_group_ok sb h bh s" "ifree_of sb h s = unat (ext4_bg_get_free_inodes_count bh sb)"
      using inodes_group [OF v, of h] h by (metis mem_Collect_eq)
    have "h = g \<longrightarrow> bh = bg" using ialloc_group_at [OF bh(1)] ialloc_group_at [OF g(2)] by auto
    with bh(2) c inodes_group_bounds(1,3) [OF v _ bh(1)] h show ?thesis by auto
  qed
  then have "sum ?u ?S \<le> card ?S * ?p" using sum_bounded_above [of ?S ?u ?p] by simp
  moreover have "sum ?u ?S = unat (sb_free_inodes_count sb) + 1"
    using v g(1) by (simp add: inodes_ok_def sum.distrib)
  moreover have "card ?S \<le> unat ?N"
  proof -
    have "?S \<subseteq> of_nat ` {..<unat ?N}"
    proof
      fix h assume "h \<in> ?S"
      then have "h = of_nat (unat h)" "unat h \<in> {..<unat ?N}" by (simp_all add: word_less_nat_alt)
      then show "h \<in> of_nat ` {..<unat ?N}" by (rule image_eqI)
    qed
    from surj_card_le [OF _ this] show ?thesis by simp
  qed
  then have "card ?S * ?p \<le> unat ?N * ?p" by (rule mult_le_mono1)
  moreover have "unat ?N * ?p < 2 ^ 32" using v by (simp add: inodes_ok_def inodes_fit_def)
  ultimately show ?thesis by linarith
qed

lemma small_count:
  fixes c :: u32
  assumes "inodes_fit sb b" and "unat c \<le> unat (sb_inodes_per_group sb)"
  shows "(if ext4_sb_get_desc_size sb > 32 then c else take_bit 16 c) = c"
proof -
  have "take_bit 16 c = c" if "\<not> ext4_sb_get_desc_size sb > 32"
  proof -
    have "unat c < 2 ^ 16" using assms that by (auto simp: inodes_fit_def)
    then have "unat (take_bit 16 c) = unat c" by (simp add: unsigned_take_bit_eq take_bit_nat_eq_self)
    then show ?thesis by (rule unat_inj)
  qed
  then show ?thesis by simp
qed

lemma itaken_ok:
  assumes v: "inodes_ok sb s" and g: "g < ext4_block_group_cnt sb" "ialloc_group_ok sb g bg s"
    and n: "n < ext4_inodes_in_group_cnt sb g" and b: "\<not> bmap_bit (inode_bitmap sb bg s) (unat n)"
    and len: "length (inode_bitmap sb bg s) = st_bsize s"
  shows "inodes_ok (sb\<lparr> sb_free_inodes_count := sb_free_inodes_count sb - 1 \<rparr>) (itaken sb g bg is_dir n s)"
    and "free_inodes sb (itaken sb g bg is_dir n s) = free_inodes sb s - {ext4_ialloc_bgidx_to_inode sb n g}"
proof -
  let ?bm = "inode_bitmap sb bg s" and ?c = "ext4_bg_get_free_inodes_count bg sb" and ?F = "sb_free_inodes_count sb"
  let ?f = "ialloc_take sb (ext4_inodes_in_group_cnt sb g) is_dir ?c (ext4_bg_get_used_dirs_count bg sb) n"
  have fit: "inodes_fit sb (st_bsize s)" using v by (simp add: inodes_ok_def)
  note q = inodes_group_bounds [OF v g]
  have l: "unat n < 8 * length ?bm" using inode_number_val(1) [OF fit g(1) n] fit len by (simp add: inodes_fit_def)
  note st = free_ibits_step(1) [OF n l b]
  have "?c \<noteq> 0" "?F \<noteq> 0" using q(1,2) st by auto
  then have dec: "unat (?c - 1) = unat ?c - 1" "unat (?F - 1) = unat ?F - 1" by (simp_all add: unat_dec)
  have "ext4_bg_get_free_inodes_count (bg_renewed sb g bg (bmap_set ?bm (unat n)) ?f) sb = ?c - 1"
    using small_count [OF fit, of "?c - 1"] dec(1) q(1) q(3) [of ?bm]
    by (simp add: bg_renewed_simps [OF counts_only_take] ialloc_take_def bg_simps Let_def)
  then have "unat (ext4_bg_get_free_inodes_count (bg_renewed sb g bg (bmap_set ?bm (unat n)) ?f) sb) = free_ibits sb g (bmap_set ?bm (unat n))"
    using dec(1) q(1) st by simp
  from renewed_inodes_ok [OF v g counts_only_take this, of "?F - 1"]
  show "inodes_ok (sb\<lparr> sb_free_inodes_count := ?F - 1 \<rparr>) (itaken sb g bg is_dir n s)"
    unfolding itaken_def using dec(2) q(1,2) st by simp
  have bits: "bmap_bit (bmap_set ?bm (unat n)) m \<longleftrightarrow> (if m = unat n then True else bmap_bit ?bm m)" for m
    unfolding bmap_bit_set [OF l] by auto
  show "free_inodes sb (itaken sb g bg is_dir n s) = free_inodes sb s - {ext4_ialloc_bgidx_to_inode sb n g}"
    unfolding itaken_def using renewed_free_inodes [OF v g counts_only_take n bits] by simp
qed

lemma ireturned_ok:
  assumes v: "inodes_ok sb s" and g: "g < ext4_block_group_cnt sb" "ialloc_group_ok sb g bg s"
    and n: "n < ext4_inodes_in_group_cnt sb g" and b: "bmap_bit (inode_bitmap sb bg s) (unat n)"
    and len: "length (inode_bitmap sb bg s) = st_bsize s"
  shows "inodes_ok (sb\<lparr> sb_free_inodes_count := sb_free_inodes_count sb + 1 \<rparr>) (ireturned sb g bg is_dir n s)"
    and "free_inodes sb (ireturned sb g bg is_dir n s) = insert (ext4_ialloc_bgidx_to_inode sb n g) (free_inodes sb s)"
proof -
  let ?bm = "inode_bitmap sb bg s" and ?c = "ext4_bg_get_free_inodes_count bg sb" and ?F = "sb_free_inodes_count sb"
  have fit: "inodes_fit sb (st_bsize s)" using v by (simp add: inodes_ok_def)
  note q = inodes_group_bounds [OF v g]
  have l: "unat n < 8 * length ?bm" using inode_number_val(1) [OF fit g(1) n] fit len by (simp add: inodes_fit_def)
  note st = free_ibits_step(2) [OF n l b]
  have "unat ?c + 1 \<le> unat (sb_inodes_per_group sb)" using q(1) q(3) [of "bmap_clr ?bm (unat n)"] st by simp
  note cp = this
  have "unat (sb_inodes_per_group sb) < 2 ^ LENGTH(32)" by (rule unsigned_less)
  with cp have ci: "unat (?c + 1) = unat ?c + 1" by (subst unat_add_le) simp_all
  have sc: "(if ext4_sb_get_desc_size sb > 32 then ?c + 1 else take_bit 16 (?c + 1)) = ?c + 1"
    by (intro small_count [OF fit]) (use cp ci in simp)
  have Fi: "unat (?F + 1) = unat ?F + 1" using inodes_count_room [OF v g cp] by (subst unat_add_le) simp_all
  have "ext4_bg_get_free_inodes_count (bg_renewed sb g bg (bmap_clr ?bm (unat n)) (ialloc_release sb is_dir)) sb = ?c + 1"
    using sc by (cases "ext4_sb_get_desc_size sb > 32")
      (simp_all add: bg_renewed_simps [OF counts_only_release] ialloc_release_def bg_simps Let_def)
  then have "unat (ext4_bg_get_free_inodes_count (bg_renewed sb g bg (bmap_clr ?bm (unat n)) (ialloc_release sb is_dir)) sb) =
      free_ibits sb g (bmap_clr ?bm (unat n))" using ci q(1) st by simp
  from renewed_inodes_ok [OF v g counts_only_release this, of "?F + 1"]
  show "inodes_ok (sb\<lparr> sb_free_inodes_count := ?F + 1 \<rparr>) (ireturned sb g bg is_dir n s)"
    unfolding ireturned_def using Fi q(1) st by simp
  have bits: "bmap_bit (bmap_clr ?bm (unat n)) m \<longleftrightarrow> (if m = unat n then False else bmap_bit ?bm m)" for m
    unfolding bmap_bit_clr [OF l] by auto
  show "free_inodes sb (ireturned sb g bg is_dir n s) = insert (ext4_ialloc_bgidx_to_inode sb n g) (free_inodes sb s)"
    unfolding ireturned_def using renewed_free_inodes [OF v g counts_only_release n bits] by simp
qed

section \<open>The search over the groups\<close>

definition group_empty :: "ext4_sblock \<Rightarrow> store \<Rightarrow> u32 \<Rightarrow> bool" where
  "group_empty sb s g \<longleftrightarrow> (\<forall>n. \<not> inode_free sb s g n)"

definition ialloc_found ::
    "('d ext4_blockdev \<Rightarrow> store \<Rightarrow> bool) \<Rightarrow> 'd ext4_fs \<Rightarrow> bool \<Rightarrow> store \<Rightarrow> u32 \<Rightarrow> u32 \<Rightarrow> 'd ext4_fs \<Rightarrow> bool" where
  "ialloc_found rep fs0 is_dir s g n fs \<longleftrightarrow>
     (\<exists>bg k. g < ext4_block_group_cnt (fs_sb fs0) \<and> ialloc_group_ok (fs_sb fs0) g bg s \<and>
        n < ext4_inodes_in_group_cnt (fs_sb fs0) g \<and> \<not> bmap_bit (inode_bitmap (fs_sb fs0) bg s) (unat n) \<and>
        st_room s \<le> k + unat (ext4_block_group_cnt (fs_sb fs0)) \<and>
        fs_at rep fs0 (itaken (fs_sb fs0) g bg is_dir n (s\<lparr> st_room := k \<rparr>)) fs)"

lemma free_ibits_none: "free_ibits sb g bm = 0 \<longleftrightarrow> first_clr bm 0 (unat (ext4_inodes_in_group_cnt sb g)) = None"
  by (auto simp: free_ibits_def first_clr_None)

lemma fs_at_room: "fs_at rep fs0 s fs \<Longrightarrow> fs_at rep fs0 (s\<lparr> st_room := st_room s \<rparr>) fs" by simp

lemma ialloc_loop_last: "ialloc_loop (Suc fuel) io is_dir n n True fs = (Inl ENOSPC, fs)"
  "ialloc_loop (Suc fuel) io is_dir n n False fs = ialloc_loop fuel io is_dir 0 (fs_last_inode_bg_id fs) True fs"
  by (subst ialloc_loop.simps, simp)+

context block_store begin

lemma ialloc_group_step:
  assumes a: "fs_at rep fs0 (s\<lparr> st_room := k \<rparr>) fs" and sb: "fs_sb fs0 = sb" and v: "inodes_ok sb s"
    and g: "g < ext4_block_group_cnt sb" and room: "2 \<le> k" "st_room s \<le> k + unat (ext4_block_group_cnt sb)"
  shows "\<exists>r fs'. ialloc_group io is_dir g fs = (Inr r, fs') \<and>
    (case r of IFound n \<Rightarrow> ialloc_found rep fs0 is_dir s g n fs' | IFull \<Rightarrow> False
     | INoFree \<Rightarrow> group_empty sb s g \<and> fs_at rep fs0 (s\<lparr> st_room := k - 1 \<rparr>) fs')"
proof -
  let ?s = "s\<lparr> st_room := k \<rparr>"
  obtain bg where go: "ialloc_group_ok sb g bg s" and ga: "group_at sb g (st_view s) = Inr bg"
      and c: "unat (ext4_bg_get_free_inodes_count bg sb) = free_ibits sb g (inode_bitmap sb bg s)"
    using inodes_group [OF v g] by blast
  have gk: "ialloc_group_ok sb g bg ?s" using go by simp
  have fit: "inodes_fit sb (st_bsize s)" using v by (simp add: inodes_ok_def)
  let ?n = "ext4_inodes_in_group_cnt sb g"
  have le: "unat ?n \<le> 8 * st_bsize ?s" "8 * st_bsize ?s < 2 ^ 32"
    using fit g by (auto simp: inodes_fit_def word_le_nat_alt intro: le_trans)
  have "succeeds (ialloc_group io is_dir g fs) (\<lambda>r fs'. case r of IFound n \<Rightarrow> ialloc_found rep fs0 is_dir s g n fs' | IFull \<Rightarrow> False
     | INoFree \<Rightarrow> group_empty sb s g \<and> fs_at rep fs0 (s\<lparr> st_room := k - 1 \<rparr>) fs')"
  proof (cases "first_clr (inode_bitmap sb bg s) 0 (unat ?n)")
    case None
    then have fc: "free_ibits sb g (inode_bitmap sb bg s) = 0" by (simp add: free_ibits_none)
    then have z: "ext4_bg_get_free_inodes_count bg sb = 0" using c by (simp add: unat_eq_zero)
    have "group_empty sb s g" using None ga by (auto simp: group_empty_def inode_free_def first_clr_None word_less_nat_alt)
    with room show ?thesis by (intro ialloc_group_empty [OF a sb gk _ z]) simp_all
  next
    case (Some i)
    then have "free_ibits sb g (inode_bitmap sb bg s) \<noteq> 0" by (simp add: free_ibits_none)
    then have z: "ext4_bg_get_free_inodes_count bg sb \<noteq> 0" using c by auto
    have i: "i < unat ?n" "\<not> bmap_bit (inode_bitmap sb bg s) i" using Some by (auto simp: first_clr_Some)
    then have iu: "unat (of_nat i :: u32) = i" by (metis le_unat_uoi less_imp_le)
    then have il: "(of_nat i :: u32) < ?n" using i(1) by (simp add: word_less_nat_alt)
    have k: "first_clr (inode_bitmap sb bg ?s) 0 (unat ?n) = Some i" using Some by simp
    show ?thesis
    proof (rule ialloc_group_found [OF a sb gk _ z le k])
      fix fs' assume f': "fs_at rep fs0 (itaken sb g bg is_dir (of_nat i) ?s) fs'"
      have "ialloc_found rep fs0 is_dir s g (of_nat i) fs'"
        unfolding ialloc_found_def sb using g go il i(2) iu room(2) f' by (intro exI [of _ bg] exI [of _ k]) simp
      then show "case IFound (of_nat i) of IFound n \<Rightarrow> ialloc_found rep fs0 is_dir s g n fs' | IFull \<Rightarrow> False
         | INoFree \<Rightarrow> group_empty sb s g \<and> fs_at rep fs0 (s\<lparr> st_room := k - 1 \<rparr>) fs'" by simp
    qed (use room in simp)
  qed
  then show ?thesis unfolding succeeds_def by blast
qed

text \<open>One pass over the groups from \<open>bgid\<close> up to \<open>stop\<close>.\<close>

lemma ialloc_pass:
  assumes sb: "fs_sb fs0 = sb" and v: "inodes_ok sb s" and stop: "stop \<le> ext4_block_group_cnt sb"
  shows "fs_at rep fs0 (s\<lparr> st_room := k \<rparr>) fs \<Longrightarrow> bgid \<le> stop \<Longrightarrow> m = unat stop - unat bgid \<Longrightarrow> m + 1 \<le> k \<Longrightarrow>
    st_room s + m \<le> k + unat (ext4_block_group_cnt sb) \<Longrightarrow>
    (\<exists>g n fs'. ialloc_loop (m + fuel) io is_dir bgid stop rw fs = (Inr (g, n), fs') \<and> ialloc_found rep fs0 is_dir s g n fs') \<or>
    (\<exists>fs'. ialloc_loop (m + fuel) io is_dir bgid stop rw fs = ialloc_loop fuel io is_dir stop stop rw fs' \<and>
       fs_at rep fs0 (s\<lparr> st_room := k - m \<rparr>) fs' \<and> (\<forall>g. bgid \<le> g \<and> g < stop \<longrightarrow> group_empty sb s g))"
proof (induction m arbitrary: bgid fs k)
  case 0
  then have "bgid = stop" by (simp add: word_le_nat_alt word_unat_eq_iff)
  then show ?case using 0(1) by auto
next
  case (Suc m)
  have lt: "bgid < stop" "bgid \<noteq> stop" using Suc.prems(3) by (auto simp: word_less_nat_alt)
  have gN: "bgid < ext4_block_group_cnt sb" using lt(1) stop by (rule less_le_trans)
  have nx: "unat (bgid + 1) = unat bgid + 1" 
  proof -
    have "unat stop < 2 ^ LENGTH(32)" by (rule unsigned_less)
    with lt(1) show ?thesis by (subst unat_add_le) (simp_all add: word_less_nat_alt)
  qed
  have le: "bgid + 1 \<le> stop" using nx lt(1) by (simp add: word_le_nat_alt word_less_nat_alt)
  have "2 \<le> k" "st_room s \<le> k + unat (ext4_block_group_cnt sb)" using Suc.prems(4,5) by linarith+
  from ialloc_group_step [OF Suc.prems(1) sb v gN this] obtain r fs1 where
    r: "ialloc_group io is_dir bgid fs = (Inr r, fs1)"
    "case r of IFound n \<Rightarrow> ialloc_found rep fs0 is_dir s bgid n fs1 | IFull \<Rightarrow> False
     | INoFree \<Rightarrow> group_empty sb s bgid \<and> fs_at rep fs0 (s\<lparr> st_room := k - 1 \<rparr>) fs1"
    by blast
  have step: "ialloc_loop (Suc m + fuel) io is_dir bgid stop rw fs =
      (case r of IFound idx \<Rightarrow> (Inr (bgid, idx), fs1)
       | IFull \<Rightarrow> ialloc_loop (m + fuel) io is_dir bgid stop rw fs1
       | INoFree \<Rightarrow> ialloc_loop (m + fuel) io is_dir (bgid + 1) stop rw fs1)"
    using lt by (subst ialloc_loop.simps) (simp add: r(1) less_imp_le)
  show ?case
  proof (cases r)
    case (IFound n)
    with r(2) step show ?thesis by (intro disjI1 exI [of _ bgid] exI [of _ n] exI [of _ fs1]) simp
  next
    case IFull
    with r(2) show ?thesis by simp
  next
    case INoFree
    with r(2) have e: "group_empty sb s bgid" and f: "fs_at rep fs0 (s\<lparr> st_room := k - 1 \<rparr>) fs1" by simp_all
    have st: "ialloc_loop (Suc m + fuel) io is_dir bgid stop rw fs = ialloc_loop (m + fuel) io is_dir (bgid + 1) stop rw fs1"
      using step INoFree by simp
    have "m = unat stop - unat (bgid + 1)" "m + 1 \<le> k - 1" "st_room s + m \<le> k - 1 + unat (ext4_block_group_cnt sb)"
      using Suc.prems(3-5) nx by linarith+
    from Suc.IH [OF f le this] show ?thesis unfolding st
    proof (elim disjE exE conjE)
      fix fs' assume "ialloc_loop (m + fuel) io is_dir (bgid + 1) stop rw fs1 = ialloc_loop fuel io is_dir stop stop rw fs'"
        "fs_at rep fs0 (s\<lparr> st_room := k - 1 - m \<rparr>) fs'" "\<forall>g. bgid + 1 \<le> g \<and> g < stop \<longrightarrow> group_empty sb s g"
      moreover have "bgid = g \<or> bgid + 1 \<le> g" if "bgid \<le> g" for g
        using that nx by (auto simp: word_le_nat_alt word_unat_eq_iff)
      ultimately show "(\<exists>g n fs'. ialloc_loop (m + fuel) io is_dir (bgid + 1) stop rw fs1 = (Inr (g, n), fs') \<and> ialloc_found rep fs0 is_dir s g n fs') \<or>
        (\<exists>fs'. ialloc_loop (m + fuel) io is_dir (bgid + 1) stop rw fs1 = ialloc_loop fuel io is_dir stop stop rw fs' \<and>
         fs_at rep fs0 (s\<lparr> st_room := k - Suc m \<rparr>) fs' \<and> (\<forall>g. bgid \<le> g \<and> g < stop \<longrightarrow> group_empty sb s g))"
        using e by (intro disjI2 exI [of _ fs']) auto
    qed blast
  qed
qed

end

section \<open>Allocating and freeing\<close>

definition inodes_in :: "('d ext4_blockdev \<Rightarrow> store \<Rightarrow> bool) \<Rightarrow> 'd ext4_fs \<Rightarrow> store \<Rightarrow> bool" where
  "inodes_in rep fs s \<longleftrightarrow> rep (fs_bdev fs) s \<and> inodes_ok (fs_sb fs) s"

text \<open>The blocks that are neither a descriptor block nor an inode bitmap keep their bytes.\<close>

definition others_kept :: "ext4_sblock \<Rightarrow> store \<Rightarrow> store \<Rightarrow> bool" where
  "others_kept sb s s' \<longleftrightarrow>
     st_refs s' = st_refs s \<and>
     (\<forall>l. (\<forall>g bg. g < ext4_block_group_cnt sb \<and> group_at sb g (st_view s) = Inr bg \<longrightarrow>
          l \<noteq> desc_block sb g \<and> l \<noteq> ext4_bg_get_inode_bitmap bg sb) \<longrightarrow> st_view s' l = st_view s l)"

lemma renewed_kept:
  "g < ext4_block_group_cnt sb \<Longrightarrow> group_at sb g (st_view s) = Inr bg \<Longrightarrow>
   others_kept sb s (renewed sb g bg bm f (s\<lparr> st_room := k \<rparr>))"
  unfolding others_kept_def by (auto simp: store_simps)

lemma empty_free_inodes: "(\<And>g. g < ext4_block_group_cnt sb \<Longrightarrow> group_empty sb s g) \<Longrightarrow> free_inodes sb s = {}"
  by (auto simp: free_inodes_def group_empty_def)

context block_store begin

lemma alloc_inode_ok:
  assumes i: "inodes_in rep fs s" and last: "fs_last_inode_bg_id fs \<le> ext4_block_group_cnt (fs_sb fs)"
    and fuel: "unat (ext4_block_group_cnt (fs_sb fs)) + 2 \<le> fuel" and room: "unat (ext4_block_group_cnt (fs_sb fs)) + 1 \<le> st_room s"
  shows "\<exists>r fs' s'. ext4_ialloc_alloc_inode fuel io is_dir fs = (r, fs') \<and> inodes_in rep fs' s' \<and> others_kept (fs_sb fs) s s' \<and>
    (case r of
       Inr n \<Rightarrow> n \<in> free_inodes (fs_sb fs) s \<and> free_inodes (fs_sb fs') s' = free_inodes (fs_sb fs) s - {n}
     | Inl e \<Rightarrow> e = ENOSPC \<and> free_inodes (fs_sb fs) s = {} \<and> fs_sb fs' = fs_sb fs \<and> st_view s' = st_view s)"
proof -
  let ?sb = "fs_sb fs" and ?N = "ext4_block_group_cnt (fs_sb fs)" and ?l = "fs_last_inode_bg_id fs"
  let ?m1 = "unat ?N - unat ?l" and ?m2 = "unat ?l"
  have rp: "rep (fs_bdev fs) s" and v: "inodes_ok ?sb s" using i by (simp_all add: inodes_in_def)
  have fit: "inodes_fit ?sb (st_bsize s)" using v by (simp add: inodes_ok_def)
  have ll: "unat ?l \<le> unat ?N" using last by (simp add: word_le_nat_alt)
  obtain x where "fuel = unat ?N + 2 + x" using fuel le_Suc_ex by blast
  then have x: "fuel = ?m1 + (1 + (?m2 + (1 + x)))" using ll by linarith
  note a0 = fs_at_room [OF fs_at_self [of rep fs s, OF rp]]
  let ?run = "ialloc_loop fuel io is_dir ?l ?N False fs"
  have "(\<exists>g n fs'. ?run = (Inr (g, n), fs') \<and> ialloc_found rep fs is_dir s g n fs') \<or>
    (\<exists>fs' k. ?run = (Inl ENOSPC, fs') \<and> fs_at rep fs (s\<lparr> st_room := k \<rparr>) fs' \<and> (\<forall>g < ?N. group_empty ?sb s g))"
  proof -
    have "?m1 + 1 \<le> st_room s" "st_room s + ?m1 \<le> st_room s + unat ?N" using room by linarith+
    from ialloc_pass [OF refl v order_refl a0 last refl this, of "1 + (?m2 + (1 + x))" is_dir False]
    show ?thesis unfolding x [symmetric]
    proof (elim disjE exE conjE)
      fix fs1 assume e1: "?run = ialloc_loop (1 + (?m2 + (1 + x))) io is_dir ?N ?N False fs1"
        and f1: "fs_at rep fs (s\<lparr> st_room := st_room s - ?m1 \<rparr>) fs1"
        and g1: "\<forall>g. ?l \<le> g \<and> g < ?N \<longrightarrow> group_empty ?sb s g"
      have e2: "?run = ialloc_loop (?m2 + (1 + x)) io is_dir 0 ?l True fs1"
        using e1 fs_at_fields(2) [OF f1] ialloc_loop_last(2) [of "?m2 + (1 + x)" io is_dir ?N fs1] by simp
      have "?m2 + 1 \<le> st_room s - ?m1" "st_room s + ?m2 \<le> st_room s - ?m1 + unat ?N" using room ll by linarith+
      note room2 = this
      have "0 \<le> ?l" "?m2 = unat ?l - unat (0 :: u32)" by simp_all
      from ialloc_pass [OF refl v last f1 this room2, of "1 + x" is_dir True]
      show ?thesis unfolding e2
      proof (elim disjE exE conjE)
        fix fs2 assume e3: "ialloc_loop (?m2 + (1 + x)) io is_dir 0 ?l True fs1 = ialloc_loop (1 + x) io is_dir ?l ?l True fs2"
          and f2: "fs_at rep fs (s\<lparr> st_room := st_room s - ?m1 - ?m2 \<rparr>) fs2"
          and g2: "\<forall>g. 0 \<le> g \<and> g < ?l \<longrightarrow> group_empty ?sb s g"
        have "group_empty ?sb s g" if "g < ?N" for g using g1 g2 that by (cases "g < ?l") simp_all
        with e3 f2 show "(\<exists>g n fs'. ialloc_loop (?m2 + (1 + x)) io is_dir 0 ?l True fs1 = (Inr (g, n), fs') \<and> ialloc_found rep fs is_dir s g n fs') \<or>
          (\<exists>fs' k. ialloc_loop (?m2 + (1 + x)) io is_dir 0 ?l True fs1 = (Inl ENOSPC, fs') \<and> fs_at rep fs (s\<lparr> st_room := k \<rparr>) fs' \<and>
             (\<forall>g < ?N. group_empty ?sb s g))"
          using ialloc_loop_last(1) [of x io is_dir ?l fs2] by auto
      qed blast+
    qed blast
  qed
  then show ?thesis
  proof (elim disjE exE conjE)
    fix g n fs1 assume run: "?run = (Inr (g, n), fs1)" and "ialloc_found rep fs is_dir s g n fs1"
    then obtain bg k where g: "g < ?N" and go: "ialloc_group_ok ?sb g bg s" and n: "n < ext4_inodes_in_group_cnt ?sb g"
        "\<not> bmap_bit (inode_bitmap ?sb bg s) (unat n)" and f: "fs_at rep fs (itaken ?sb g bg is_dir n (s\<lparr> st_room := k \<rparr>)) fs1"
      by (auto simp: ialloc_found_def)
    let ?s = "s\<lparr> st_room := k \<rparr>"
    let ?s' = "itaken ?sb g bg is_dir n ?s" and ?sb' = "?sb\<lparr> sb_free_inodes_count := sb_free_inodes_count ?sb - 1 \<rparr>"
    let ?fs' = "fs1\<lparr> fs_sb := ?sb', fs_last_inode_bg_id := g \<rparr>"
    have sb1: "fs_sb fs1 = ?sb" using fs_at_fields(1) [OF f] .
    have out: "ext4_ialloc_alloc_inode fuel io is_dir fs = (Inr (ext4_ialloc_bgidx_to_inode ?sb n g), ?fs')"
      by (simp add: ext4_ialloc_alloc_inode_def run sb1)
    have len: "length (inode_bitmap ?sb bg ?s) = st_bsize ?s" using inode_bitmap_length [OF a0 [simplified] go] by simp
    have vk: "inodes_ok ?sb ?s" "ialloc_group_ok ?sb g bg ?s" "\<not> bmap_bit (inode_bitmap ?sb bg ?s) (unat n)"
      using v go n(2) by simp_all
    note tk = itaken_ok [OF vk(1) g vk(2) n(1) vk(3) len, of is_dir]
    have "inodes_in rep ?fs' ?s'" using f tk(1) by (auto simp: inodes_in_def fs_at_def)
    moreover have "others_kept ?sb s ?s'" unfolding itaken_def by (rule renewed_kept [OF g ialloc_group_at [OF go]])
    moreover have "ext4_ialloc_bgidx_to_inode ?sb n g \<in> free_inodes ?sb s"
      using free_inodes_iff [OF fit g n(1)] n ialloc_group_at [OF go] by (auto simp: inode_free_def)
    moreover have "free_inodes (fs_sb ?fs') ?s' = free_inodes ?sb s - {ext4_ialloc_bgidx_to_inode ?sb n g}"
      using tk(2) by (simp add: store_simps)
    ultimately show ?thesis using out
      by (intro exI [of _ "Inr (ext4_ialloc_bgidx_to_inode ?sb n g)"] exI [of _ ?fs'] exI [of _ ?s']) simp
  next
    fix fs1 k assume run: "?run = (Inl ENOSPC, fs1)" and f: "fs_at rep fs (s\<lparr> st_room := k \<rparr>) fs1"
      and e: "\<forall>g < ?N. group_empty ?sb s g"
    have "ext4_ialloc_alloc_inode fuel io is_dir fs = (Inl ENOSPC, fs1)" by (simp add: ext4_ialloc_alloc_inode_def run)
    moreover have "inodes_in rep fs1 (s\<lparr> st_room := k \<rparr>)" using f v fs_at_fields(1) [OF f] by (auto simp: inodes_in_def fs_at_def)
    moreover have "free_inodes ?sb s = {}" by (rule empty_free_inodes) (use e in blast)
    ultimately show ?thesis using fs_at_fields(1) [OF f]
      by (intro exI [of _ "Inl ENOSPC"] exI [of _ fs1] exI [of _ "s\<lparr> st_room := k \<rparr>"]) (simp add: others_kept_def)
  qed
qed

lemma free_inode_ok:
  assumes i: "inodes_in rep fs s" and n: "n \<in> inode_numbers (fs_sb fs)" "n \<notin> free_inodes (fs_sb fs) s" and room: "2 \<le> st_room s"
  shows "\<exists>fs' s'. ext4_ialloc_free_inode io n is_dir fs = (Inr (), fs') \<and> inodes_in rep fs' s' \<and> others_kept (fs_sb fs) s s' \<and>
    free_inodes (fs_sb fs') s' = insert n (free_inodes (fs_sb fs) s)"
proof -
  let ?sb = "fs_sb fs"
  have rp: "rep (fs_bdev fs) s" and v: "inodes_ok ?sb s" using i by (simp_all add: inodes_in_def)
  have fit: "inodes_fit ?sb (st_bsize s)" using v by (simp add: inodes_ok_def)
  obtain g m where g: "g < ext4_block_group_cnt ?sb" and m: "m < ext4_inodes_in_group_cnt ?sb g"
    and nn: "n = ext4_ialloc_bgidx_to_inode ?sb m g" using n(1) by (auto simp: inode_numbers_def)
  note bk = inode_number_back [OF fit g m, folded nn]
  obtain bg where go: "ialloc_group_ok ?sb g bg s" and ga: "group_at ?sb g (st_view s) = Inr bg" using inodes_group [OF v g] by blast
  have used: "bmap_bit (inode_bitmap ?sb bg s) (unat m)"
    using n(2) free_inodes_iff [OF fit g m] ga m unfolding nn by (auto simp: inode_free_def)
  let ?ld = "desc_block ?sb g" and ?lb = "ext4_bg_get_inode_bitmap bg ?sb" and ?bm = "inode_bitmap ?sb bg s"
  let ?s' = "ireturned ?sb g bg is_dir m s" and ?sb' = "?sb\<lparr> sb_free_inodes_count := sb_free_inodes_count ?sb + 1 \<rparr>"
  have a: "fs_at rep fs s fs" using fs_at_self [of rep fs s, OF rp] .
  have len: "length ?bm = st_bsize s" by (rule inode_bitmap_length [OF a go])
  have "unat m < 8 * length ?bm" using inode_number_val(1) [OF fit g m] fit len by (simp add: inodes_fit_def)
  then have clr: "ext4_bmap_bit_clr ?bm m = Inr (bmap_clr ?bm (unat m))" by (simp add: bmap_ops_eq)
  have gr: "group_ready ?sb (st_view s) g bg" "?ld < st_cnt s" "st_room s \<noteq> 0" and lb: "?lb < st_cnt s"
    using go room by (simp_all add: ialloc_group_ok_def Let_def)
  have dt: "fs_data (blk ?lb) fs' = Inr ?bm" if "fs_at rep fs (st_get ?lb (st_get ?ld s)) fs'" for fs'
    using fs_data_eq [OF that, of ?lb] by (simp add: store_simps inode_bitmap_def)
  let ?Q = "\<lambda>_ fs'. \<exists>fs1. fs_at rep fs ?s' fs1 \<and> fs' = fs1\<lparr> fs_sb := ?sb' \<rparr>"
  have tail: "succeeds (fs_store (blk ?lb) (Inr (bmap_clr ?bm (unat m))) fs') (\<lambda>_ fs.
      succeeds (bgr_modify (grp_ref ?sb g False) (\<lambda>bg. ext4_ialloc_set_bitmap_csum ?sb bg (bmap_clr ?bm (unat m))) fs) (\<lambda>_ fs.
      succeeds (fs_set_dirty (blk ?lb) fs) (\<lambda>_ fs. succeeds (fs_block_set io (blk ?lb) fs) (\<lambda>_ fs.
      succeeds (bgr_modify (grp_ref ?sb g False) (ialloc_release ?sb is_dir) fs) (\<lambda>_ fs.
      succeeds (ext4_fs_put_block_group_ref io (grp_ref ?sb g True) fs) (\<lambda>_ fs.
        ?Q () (fs\<lparr> fs_sb := (fs_sb fs)\<lparr> sb_free_inodes_count := sb_free_inodes_count (fs_sb fs) + 1 \<rparr> \<rparr>)))))))"
    if f': "fs_at rep fs (st_get ?lb (st_get ?ld s)) fs'" for fs'
  proof (rule ialloc_save_rule [OF f' refl go counts_only_release])
    show "length (bmap_clr ?bm (unat m)) = st_bsize s" using len by simp
    fix fs1 assume "fs_at rep fs (renewed ?sb g bg (bmap_clr ?bm (unat m)) (ialloc_release ?sb is_dir) s) fs1"
    then show "?Q () (fs1\<lparr> fs_sb := (fs_sb fs1)\<lparr> sb_free_inodes_count := sb_free_inodes_count (fs_sb fs1) + 1 \<rparr> \<rparr>)"
      using fs_at_fields(1) by (intro exI [of _ fs1]) (fastforce simp: ireturned_def)
  qed
  have "succeeds (ext4_ialloc_free_inode io n is_dir fs) ?Q"
    unfolding ext4_ialloc_free_inode_def Let_def bk succeeds_simps
    apply (rule get_group_rule [OF a gr(1) refl gr(2,3)])
    apply (subst succeeds_sread [where f = "bgr_load _"], rule bgr_load_got [OF _ go refl], assumption)
    apply (unfold succeeds_guard succeeds_simps)
    apply (rule fs_get_rule, assumption, use lb in \<open>simp add: store_simps\<close>, use room in \<open>simp add: store_simps\<close>)
    apply (subst succeeds_sread [where v = "bmap_clr ?bm (unat m)"], simp add: dt clr)
    apply (simp only: grp_ref_simps succeeds_simps)
    apply (erule tail)
    done
  then obtain fs' fs1 where run: "ext4_ialloc_free_inode io n is_dir fs = (Inr (), fs')"
    and f: "fs_at rep fs ?s' fs1" "fs' = fs1\<lparr> fs_sb := ?sb' \<rparr>" by (auto simp: succeeds_def)
  note rt = ireturned_ok [OF v g go m used len, of is_dir]
  have "inodes_in rep fs' ?s'" using f rt(1) by (auto simp: inodes_in_def fs_at_def)
  moreover have "others_kept ?sb s ?s'"
    using renewed_kept [OF g ga, where k = "st_room s"] by (simp add: ireturned_def)
  moreover have "free_inodes (fs_sb fs') ?s' = insert n (free_inodes ?sb s)" using rt(2) f(2) nn by (simp add: store_simps)
  ultimately show ?thesis using run by blast
qed

end

section \<open>A group whose counter is wrong\<close>

context block_store begin

lemma ialloc_group_full:
  assumes a: "fs_at rep fs0 s fs" and sb: "fs_sb fs0 = sb" and g: "ialloc_group_ok sb g bg s" and room: "2 \<le> st_room s"
    and z: "ext4_bg_get_free_inodes_count bg sb \<noteq> 0"
    and len: "unat (ext4_inodes_in_group_cnt sb g) \<le> 8 * st_bsize s" "8 * st_bsize s < 2 ^ 32"
    and k: "first_clr (inode_bitmap sb bg s) 0 (unat (ext4_inodes_in_group_cnt sb g)) = None"
    and Q: "\<And>fs'. fs_at rep fs0 (s\<lparr> st_room := st_room s - 2 \<rparr>) fs' \<Longrightarrow> Q IFull fs'"
  shows "succeeds (ialloc_group io is_dir g fs) Q"
proof -
  let ?ld = "desc_block sb g" and ?lb = "ext4_bg_get_inode_bitmap bg sb" and ?bm = "inode_bitmap sb bg s"
  let ?n = "ext4_inodes_in_group_cnt sb g"
  have gr: "group_ready sb (st_view s) g bg" "?ld < st_cnt s" "st_room s \<noteq> 0" "?ld \<noteq> 0" "?ld \<notin> st_pend s"
    and lb: "?lb < st_cnt s" "?lb \<noteq> 0" "?lb \<noteq> ?ld" "?lb \<notin> st_pend s"
    using g room by (simp_all add: ialloc_group_ok_def group_ready_def Let_def)
  have n: "length ?bm = st_bsize s" by (rule inode_bitmap_length [OF a g])
  have fc: "ext4_bmap_bit_find_clr ua ?bm 0 ?n = Inl ENOSPC" for ua
    using find_clr_start [of ?n ?bm ua] n len k by (simp add: clr_result_def)
  have zp: "(0 < ext4_bg_get_free_inodes_count bg sb) = True" using z by (simp add: word_neq_0_conv)
  have sbf: "fs_sb fs = sb" using fs_at_fields(1) [OF a] sb by simp
  have dt: "fs_data (blk ?lb) fs' = Inr ?bm" if "fs_at rep fs0 (st_get ?lb (st_get ?ld s)) fs'" for fs'
    using fs_data_eq [OF that, of ?lb] by (simp add: store_simps inode_bitmap_def)
  have net: "st_set ?ld (st_set ?lb (st_get ?lb (st_get ?ld s))) = s\<lparr> st_room := st_room s - 2 \<rparr>"
    using lb(3) by (simp add: st_set_def st_get_def)
  have put: "succeeds (ext4_fs_put_block_group_ref io (grp_ref sb g False) fs') (\<lambda>_. Q IFull)"
    if f': "fs_at rep fs0 (st_set ?lb (st_get ?lb (st_get ?ld s))) fs'" for fs'
    by (rule put_group_clean_rule [OF f']) (use gr lb(3) Q net in \<open>simp_all add: store_simps\<close>)
  have rel: "succeeds (fs_block_set io (blk ?lb) fs')
      (\<lambda>_ fs. succeeds (ext4_fs_put_block_group_ref io (grp_ref sb g False) fs) (\<lambda>_. Q IFull))"
    if f': "fs_at rep fs0 (st_get ?lb (st_get ?ld s)) fs'" for fs'
    by (rule fs_set_rule [OF f']) (use lb put in \<open>simp_all add: store_simps\<close>)
  show ?thesis
    unfolding ialloc_group_def sbf Let_def succeeds_simps
    apply (rule get_group_rule [OF a gr(1) sb gr(2,3)])
    apply (subst succeeds_sread [where f = "bgr_load _"], rule bgr_load_got [OF _ g sb], assumption)
    apply (simp only: zp if_True succeeds_guard succeeds_simps)
    apply (rule fs_get_rule, assumption, use lb in \<open>simp add: store_simps\<close>, use room in \<open>simp add: store_simps\<close>)
    apply (subst succeeds_sread [where f = "fs_data _"], rule dt, assumption)
    apply (simp only: fc sum.case refl if_True succeeds_guard succeeds_simps rel)
    done
qed

lemma ialloc_spins:
  assumes sb: "fs_sb fs0 = sb" and g: "g < ext4_block_group_cnt sb" "ialloc_group_ok sb g bg s"
    and z: "ext4_bg_get_free_inodes_count bg sb \<noteq> 0"
    and len: "unat (ext4_inodes_in_group_cnt sb g) \<le> 8 * st_bsize s" "8 * st_bsize s < 2 ^ 32"
    and full: "first_clr (inode_bitmap sb bg s) 0 (unat (ext4_inodes_in_group_cnt sb g)) = None"
  shows "fs_at rep fs0 (s\<lparr> st_room := k \<rparr>) fs \<Longrightarrow> 2 * fuel \<le> k \<Longrightarrow>
    \<exists>fs'. ialloc_loop fuel io is_dir g (ext4_block_group_cnt sb) rw fs = (Inl EHANG, fs')"
proof (induction fuel arbitrary: k fs)
  case 0
  then show ?case using g by (subst ialloc_loop.simps) (simp add: less_imp_le)
next
  case (Suc fuel)
  have "2 \<le> k" "2 * fuel \<le> k - 2" using Suc.prems(2) by simp_all
  then have "succeeds (ialloc_group io is_dir g fs) (\<lambda>r fs'. r = IFull \<and> fs_at rep fs0 (s\<lparr> st_room := k - 2 \<rparr>) fs')"
    by (intro ialloc_group_full [OF Suc.prems(1) sb, where bg = bg]) (use g z len full in simp_all)
  then obtain fs1 where r: "ialloc_group io is_dir g fs = (Inr IFull, fs1)" "fs_at rep fs0 (s\<lparr> st_room := k - 2 \<rparr>) fs1"
    by (auto simp: succeeds_def)
  from Suc.IH [OF r(2) \<open>2 * fuel \<le> k - 2\<close>] r(1) g show ?case
    by (subst ialloc_loop.simps) (auto simp: less_imp_le)
qed

lemma alloc_inode_spin:
  assumes rp: "rep (fs_bdev fs) s" and g: "g = fs_last_inode_bg_id fs" "g < ext4_block_group_cnt (fs_sb fs)" "ialloc_group_ok (fs_sb fs) g bg s"
    and z: "ext4_bg_get_free_inodes_count bg (fs_sb fs) \<noteq> 0"
    and len: "unat (ext4_inodes_in_group_cnt (fs_sb fs) g) \<le> 8 * st_bsize s" "8 * st_bsize s < 2 ^ 32"
    and full: "\<forall>i < unat (ext4_inodes_in_group_cnt (fs_sb fs) g). bmap_bit (inode_bitmap (fs_sb fs) bg s) i"
    and room: "2 * fuel \<le> st_room s"
  shows "\<exists>fs'. ext4_ialloc_alloc_inode fuel io is_dir fs = (Inl EHANG, fs')"
proof -
  have "first_clr (inode_bitmap (fs_sb fs) bg s) 0 (unat (ext4_inodes_in_group_cnt (fs_sb fs) g)) = None"
    using full by (simp add: first_clr_None)
  from ialloc_spins [OF refl g(2,3) z len this fs_at_room [OF fs_at_self [of rep fs s, OF rp]] room, of is_dir False]
  show ?thesis by (auto simp: ext4_ialloc_alloc_inode_def g(1))
qed

end

end
