(* ===== verification/VolumeOps.thy ===== *)
theory VolumeOps
  imports VolumeSpec
begin

text \<open>
  The operations of the block allocator against the set of free addresses, over any block store, and
  their instances on the image file. The witnesses run on a volume of eight 1 KiB blocks.
\<close>

section \<open>The inode's bytes\<close>

lemma inode_at_patch:
  assumes i: "inode_at sb d off = Inr i" and w: "128 \<le> unat (sb_inode_size sb)"
    and n: "length (in_blocks i') = 15" and t: "drop 128 (inode_bytes i') = drop 128 (inode_bytes i)"
  shows "inode_at sb (inode_patch sb off i' d) off = Inr i'"
proof -
  let ?w = "inode_width sb" and ?bs = "take (inode_width sb) (drop off d)"
  have w': "128 \<le> ?w" "?w \<le> 156" using w by (simp_all add: inode_width_def)
  have bs: "length ?bs = ?w" and i: "i = inode_of_bytes (?bs @ replicate (156 - ?w) 0)"
    using i by (auto simp: inode_at_def rbind_Inr_iff rd_range_def split: if_splits)
  have "inode_bytes i = ?bs @ replicate (156 - ?w) 0"
    unfolding i using inode_bytes_inode_of_bytes [of "?bs @ replicate (156 - ?w) 0"] bs w' by simp
  then have "drop ?w (inode_bytes i) = replicate (156 - ?w) 0" using bs by simp
  moreover have "drop ?w (inode_bytes i') = drop ?w (inode_bytes i)"
    using t w' by (metis drop_drop le_add_diff_inverse2)
  ultimately have "take ?w (inode_bytes i') @ replicate (156 - ?w) 0 = inode_bytes i'"
    by (metis append_take_drop_id)
  moreover have "length (take ?w (inode_bytes i')) = ?w" using w' length_inode_bytes [OF n] by simp
  moreover have "off + ?w \<le> length d" using inode_at_fits assms(1) by blast
  ultimately show ?thesis
    using inode_of_bytes_inode_bytes [OF n] by (simp add: inode_at_def inode_patch_def rd_patch)
qed

lemma inode_add_blocks_tail: "drop 128 (inode_bytes (inode_add_blocks sb n i)) = drop 128 (inode_bytes i)"
  if "length (in_blocks i) = 15"
proof -
  have "drop 128 (inode_bytes i) = enc16 (in_extra_isize i) @ enc16 (in_checksum_hi i) @ enc32 (in_ctime_extra i) @
     enc32 (in_mtime_extra i) @ enc32 (in_atime_extra i) @ enc32 (in_crtime i) @ enc32 (in_crtime_extra i) @
     enc32 (in_version_hi i)" if "length (in_blocks i) = 15" for i
    using that by (simp add: inode_bytes_def)
  from this [OF that] this [of "inode_add_blocks sb n i"] that show ?thesis
    by (auto simp: inode_add_blocks_def ext4_inode_set_blocks_count_def ext4_inode_set_flag_def ext4_inode_clear_flag_def
        ext4_inode_set_flags_def Let_def split: sum.splits if_splits)
qed

section \<open>Over any block store\<close>

definition volume_in ::
    "('d ext4_blockdev \<Rightarrow> store \<Rightarrow> bool) \<Rightarrow> 'd ext4_fs \<Rightarrow> ext4_inode_ref \<Rightarrow> u64 \<Rightarrow> ext4_inode \<Rightarrow> store \<Rightarrow> bool" where
  "volume_in rep fs ir li i s \<longleftrightarrow>
     rep (fs_bdev fs) s \<and> volume_ok (fs_sb fs) li s \<and> inode_held (fs_sb fs) ir li i s \<and>
     128 \<le> unat (sb_inode_size (fs_sb fs))"

text \<open>What an operation leaves: everything but the metadata of the allocator, the inode's block and \<open>K\<close>.\<close>

definition data_kept :: "ext4_sblock \<Rightarrow> u64 \<Rightarrow> u64 set \<Rightarrow> store \<Rightarrow> store \<Rightarrow> bool" where
  "data_kept sb li K s s' \<longleftrightarrow> (\<forall>l. data_block sb l s \<and> l \<noteq> li \<and> l \<notin> K \<longrightarrow> st_view s' l = st_view s l)"

text \<open>What an operation leaves of the store besides the bytes.\<close>

definition volume_frame :: "ext4_sblock \<Rightarrow> u64 \<Rightarrow> store \<Rightarrow> store \<Rightarrow> bool" where
  "volume_frame sb li s s' \<longleftrightarrow>
     st_refs s' = st_refs s \<and> st_pend s' = insert li (st_pend s) \<and> st_cnt s' = st_cnt s \<and> st_bsize s' = st_bsize s \<and>
     st_room s \<le> st_room s' + 2 \<and> (\<forall>l. data_block sb l s \<longrightarrow> data_block sb l s')"

lemma moved_data_kept:
  assumes g: "g < ext4_block_group_cnt sb" and go: "balloc_group_ok sb g bg s"
  shows "data_kept sb li K s (moved sb g bg bm c u ir li i s)"
proof -
  have "group_at sb g (st_view s) = Inr bg" using go by (simp add: balloc_group_ok_def group_ready_def)
  with g show ?thesis unfolding data_kept_def data_block_def moved_view by auto
qed

lemma moved_inode_held:
  assumes v: "volume_ok sb li s" and h: "inode_held sb ir li i s" and g: "g < ext4_block_group_cnt sb"
    and go: "balloc_group_ok sb g bg s" and w: "128 \<le> unat (sb_inode_size sb)"
  shows "inode_held (sb_add_free m sb) (ir\<lparr> ir_dirty := True \<rparr>) li (inode_add_blocks sb u i) (moved sb g bg bm c u ir li i s)"
proof -
  have "li \<noteq> desc_block sb g"
    using inode_held_ok [OF v h g go] by (simp add: balloc_inode_ok_def)
  then have e: "st_view (moved sb g bg bm c u ir li i s) li = inode_patch sb (ir_off ir) (inode_add_blocks sb u i) (st_view s li)"
    by (simp add: moved_view)
  have ia: "inode_at sb (st_view s li) (ir_off ir) = Inr i" using h by (simp add: inode_held_def)
  then have n: "length (in_blocks i) = 15" using inode_at_fits by blast
  have "inode_at sb (st_view (moved sb g bg bm c u ir li i s) li) (ir_off ir) = Inr (inode_add_blocks sb u i)"
    unfolding e by (rule inode_at_patch [OF ia w]) (simp_all add: n inode_add_blocks_tail)
  moreover have "inode_at (sb_add_free m sb) = inode_at sb"
    by (simp add: fun_eq_iff inode_at_def inode_width_def sb_add_free_def ext4_sb_set_free_blocks_cnt_def)
  ultimately show ?thesis using h by (simp add: inode_held_def moved_fields)
qed

lemma volume_addr:
  assumes v: "volume_ok sb li s" and a: "a \<in> volume_addrs sb"
  shows "ext4_balloc_get_bgid_of_block sb a < ext4_block_group_cnt sb"
    and "ext4_fs_addr_to_idx_bg sb a < ext4_blocks_in_group_cnt sb (ext4_balloc_get_bgid_of_block sb a)"
    and "ext4_fs_bg_idx_to_addr sb (ext4_fs_addr_to_idx_bg sb a) (ext4_balloc_get_bgid_of_block sb a) = a"
proof -
  have rdy: "balloc_ready sb s" using v by (simp add: volume_ok_def)
  then have sv: "small_volume sb" by (simp add: balloc_ready_def)
  obtain g n where g: "g < ext4_block_group_cnt sb" and n: "n < ext4_blocks_in_group_cnt sb g"
      and e: "a = ext4_fs_bg_idx_to_addr sb n g" using a by (auto simp: volume_addrs_def)
  note r = idx_addr_roundtrip [OF sv g volume_idx [OF rdy g n], folded e]
  show "ext4_balloc_get_bgid_of_block sb a < ext4_block_group_cnt sb"
    "ext4_fs_addr_to_idx_bg sb a < ext4_blocks_in_group_cnt sb (ext4_balloc_get_bgid_of_block sb a)"
    "ext4_fs_bg_idx_to_addr sb (ext4_fs_addr_to_idx_bg sb a) (ext4_balloc_get_bgid_of_block sb a) = a"
    using g n unfolding r by (simp_all add: e)
qed

lemma free_set_addr:
  assumes v: "volume_ok sb li s" and a: "a \<in> volume_addrs sb"
    and go: "balloc_group_ok sb (ext4_balloc_get_bgid_of_block sb a) bg s"
  shows "a \<in> free_set sb s \<longleftrightarrow> \<not> bmap_bit (block_bitmap sb bg s) (unat (ext4_fs_addr_to_idx_bg sb a))"
proof -
  let ?g = "ext4_balloc_get_bgid_of_block sb a" and ?n = "ext4_fs_addr_to_idx_bg sb a"
  note va = volume_addr [OF v a]
  have rdy: "balloc_ready sb s" using v by (simp add: volume_ok_def)
  have ga: "group_at sb ?g (st_view s) = Inr bg" using go by (simp add: balloc_group_ok_def group_ready_def)
  have "a \<in> free_set sb s \<longleftrightarrow> bit_free sb s ?g ?n"
  proof
    assume "a \<in> free_set sb s"
    then obtain h m where h: "h < ext4_block_group_cnt sb" "bit_free sb s h m" "a = ext4_fs_bg_idx_to_addr sb m h"
      by (auto simp: free_set_def)
    have "m < ext4_blocks_in_group_cnt sb h" using h(2) by (simp add: bit_free_def)
    from addr_inj [OF rdy h(1) this va(1,2)] have "h = ?g \<and> m = ?n" unfolding va(3) h(3) [symmetric] by simp
    with h(2) show "bit_free sb s ?g ?n" by simp
  next
    assume "bit_free sb s ?g ?n"
    with va have "?g < ext4_block_group_cnt sb \<and> bit_free sb s ?g ?n \<and> a = ext4_fs_bg_idx_to_addr sb ?n ?g" by simp
    then show "a \<in> free_set sb s" unfolding free_set_def by blast
  qed
  with va(2) ga show ?thesis by (simp add: bit_free_def)
qed

lemma free_set_sub: "free_set sb s \<subseteq> volume_addrs sb"
  by (auto simp: free_set_def volume_addrs_def bit_free_def)

lemma free_set_geometry [simp]:
  "free_set (sb_add_free m sb) s = free_set sb s" "volume_addrs (sb_add_free m sb) = volume_addrs sb"
proof -
  have "ext4_fs_bg_idx_to_addr (sb_add_free m sb) n g = ext4_fs_bg_idx_to_addr sb n g" for n g
    by (simp add: ext4_fs_bg_idx_to_addr_def sb_add_free_def ext4_sb_set_free_blocks_cnt_def)
  then show "free_set (sb_add_free m sb) s = free_set sb s" "volume_addrs (sb_add_free m sb) = volume_addrs sb"
    by (simp_all add: free_set_def volume_addrs_def bit_free_def add_free_geometry)
qed

lemma free_set_room [simp]: "free_set sb (s\<lparr> st_room := k \<rparr>) = free_set sb s"
  by (simp add: free_set_def bit_free_def)

lemma data_block_moved:
  assumes v: "volume_ok sb li s" and g: "g < ext4_block_group_cnt sb" and go: "balloc_group_ok sb g bg s"
    and d: "data_block sb l s"
  shows "data_block sb l (moved sb g bg bm c u ir li i s)"
  unfolding data_block_def
proof (intro allI impI, elim conjE)
  fix h bh' assume h: "h < ext4_block_group_cnt sb" and b: "group_at sb h (st_view (moved sb g bg bm c u ir li i s)) = Inr bh'"
  have ap: "layout_apart sb li s" and rdy: "balloc_ready sb s" using v by (simp_all add: volume_ok_def)
  have ga: "group_at sb g (st_view s) = Inr bg" using go by (simp add: balloc_group_ok_def group_ready_def)
  obtain bh where bh: "group_at sb h (st_view s) = Inr bh"
    using rdy h by (auto simp: balloc_ready_def balloc_group_ok_def group_ready_def)
  have "ext4_bg_get_block_bitmap bh' sb = ext4_bg_get_block_bitmap bh sb"
    using b bh moved_group_other [OF ap g ga h bh] moved_group_self [OF ga, of bm c u ir li i] ga
    by (cases "h = g") (auto simp: bg_simps)
  moreover have "l \<noteq> desc_block sb h \<and> l \<noteq> ext4_bg_get_block_bitmap bh sb" using d h bh unfolding data_block_def by blast
  ultimately show "l \<noteq> desc_block sb h \<and> l \<noteq> ext4_bg_get_block_bitmap bh' sb" by simp
qed

lemma view_free_set:
  assumes v: "volume_ok sb li s" and d: "data_block sb l s" and w: "\<And>k. k \<noteq> l \<Longrightarrow> w k = st_view s k"
  shows "free_set sb (s\<lparr> st_view := w \<rparr>) = free_set sb s"
proof -
  have "bit_free sb (s\<lparr> st_view := w \<rparr>) g n = bit_free sb s g n" if g: "g < ext4_block_group_cnt sb" for g n
  proof -
    obtain bg where bg: "group_at sb g (st_view s) = Inr bg"
      using v g by (auto simp: volume_ok_def balloc_ready_def balloc_group_ok_def group_ready_def)
    then have "desc_block sb g \<noteq> l \<and> ext4_bg_get_block_bitmap bg sb \<noteq> l" using d g unfolding data_block_def by blast
    then show ?thesis using bg by (simp add: bit_free_def group_at_def block_bitmap_def w)
  qed
  then show ?thesis unfolding free_set_def by blast
qed

text \<open>What a sequence of operations needs of each of them: nothing is held, and no block becomes metadata.\<close>

definition geom_same :: "ext4_sblock \<Rightarrow> ext4_sblock \<Rightarrow> bool" where
  "geom_same sb sb' \<longleftrightarrow>
     volume_addrs sb' = volume_addrs sb \<and> ext4_block_group_cnt sb' = ext4_block_group_cnt sb \<and> data_block sb' = data_block sb"

definition ops_frame :: "ext4_sblock \<Rightarrow> ext4_sblock \<Rightarrow> nat \<Rightarrow> store \<Rightarrow> store \<Rightarrow> bool" where
  "ops_frame sb sb' c s s' \<longleftrightarrow>
     geom_same sb sb' \<and> st_refs s' = st_refs s \<and> st_cnt s' = st_cnt s \<and> st_room s \<le> st_room s' + c \<and>
     (\<forall>l. data_block sb l s \<longrightarrow> data_block sb l s')"

lemma geom_same_add_free [simp]: "geom_same sb (sb_add_free m sb)"
  by (simp add: geom_same_def data_block_def add_free_geometry fun_eq_iff)

lemma geom_same_refl [simp]: "geom_same sb sb"
  by (simp add: geom_same_def)

lemma ops_frame_room: "st_room s \<le> k + c \<Longrightarrow> ops_frame sb sb c s (s\<lparr> st_room := k \<rparr>)"
  by (simp add: ops_frame_def data_block_def)

lemma ops_frame_taken:
  assumes v: "volume_ok sb li s" and g: "g < ext4_block_group_cnt sb" and go: "balloc_group_ok sb g bg s"
    and k: "st_room s \<le> k + c"
  shows "ops_frame sb (sb_add_free (- 1) sb) (c + 2) s (taken sb g bg n ir li i (s\<lparr> st_room := k \<rparr>))"
proof -
  have "volume_ok sb li (s\<lparr> st_room := k \<rparr>)" "balloc_group_ok sb g bg (s\<lparr> st_room := k \<rparr>)" using v go by simp_all
  note mv = data_block_moved [OF this(1) g this(2)]
  have "data_block sb l (taken sb g bg n ir li i (s\<lparr> st_room := k \<rparr>))" if "data_block sb l s" for l
    unfolding taken_def by (rule mv) (use that in \<open>simp add: data_block_def\<close>)
  then show ?thesis using k unfolding ops_frame_def by (simp add: taken_def moved_fields)
qed

lemma volume_frame_ops: "volume_frame sb li s s' \<Longrightarrow> ops_frame sb (sb_add_free m sb) 2 s s'"
  by (simp add: volume_frame_def ops_frame_def)

text \<open>
  A history of the allocator: allocations near a goal, claims of an address, and frees of one of the blocks the
  history holds, the \<open>k\<close>-th of the list. The result is what it holds at the end; an allocation that finds
  nothing leaves that as it is.
\<close>

datatype vop = VAlloc u64 | VClaim u64 | VFree nat

fun vol_run :: "'d ext4_blockdev_iface \<Rightarrow> vop list \<Rightarrow> u64 list \<Rightarrow> 'd istate \<Rightarrow> u64 list res \<times> 'd istate" where
  "vol_run io [] T s = (Inr T, s)"
| "vol_run io (VAlloc goal # ops) T s =
     (case ext4_balloc_alloc_block io goal s of
        (Inl e, s) \<Rightarrow> if e = ENOSPC then vol_run io ops T s else (Inl e, s)
      | (Inr a, s) \<Rightarrow> vol_run io ops (a # T) s)"
| "vol_run io (VClaim a # ops) T s =
     sbind (ext4_balloc_try_alloc_block io a s) (\<lambda>free s. vol_run io ops (if free then a # T else T) s)"
| "vol_run io (VFree k # ops) T s =
     (if k < length T
      then sbind (ext4_balloc_free_block io (T ! k) s) (\<lambda>_ s. vol_run io ops (take k T @ drop (Suc k) T) s)
      else vol_run io ops T s)"

fun vop_in :: "u64 set \<Rightarrow> vop \<Rightarrow> bool" where
  "vop_in A (VAlloc goal) \<longleftrightarrow> goal \<in> A"
| "vop_in A (VClaim a) \<longleftrightarrow> a \<in> A"
| "vop_in A (VFree k) \<longleftrightarrow> True"

text \<open>Blocks of \<open>A\<close> are data blocks of the volume that nobody holds.\<close>

definition loose :: "ext4_sblock \<Rightarrow> store \<Rightarrow> u64 set \<Rightarrow> bool" where
  "loose sb s A \<longleftrightarrow> (\<forall>a \<in> A. data_block sb a s \<and> a < st_cnt s \<and> st_refs s a = 0)"

lemma loose_frame: "ops_frame sb sb' c s s' \<Longrightarrow> loose sb s A \<Longrightarrow> loose sb' s' A"
  by (simp add: loose_def ops_frame_def geom_same_def)

text \<open>The blocks a history holds and the free ones are the same together, and never overlap.\<close>

definition shares :: "u64 list \<Rightarrow> u64 set \<Rightarrow> u64 set \<Rightarrow> bool" where
  "shares T F A \<longleftrightarrow> distinct T \<and> set T \<inter> F = {} \<and> set T \<union> F = A"

lemma shares_take: "shares T F A \<Longrightarrow> a \<in> F \<Longrightarrow> shares (a # T) (F - {a}) A"
  by (auto simp: shares_def)

lemma shares_give:
  assumes "shares T F A" and "k < length T"
  shows "shares (take k T @ drop (Suc k) T) (insert (T ! k) F) A" "T ! k \<in> A" "T ! k \<notin> F"
proof -
  have T: "T = take k T @ T ! k # drop (Suc k) T" using assms(2) by (rule id_take_nth_drop)
  have "set T = insert (T ! k) (set (take k T @ drop (Suc k) T))" by (subst T) auto
  moreover have "distinct (take k T @ T ! k # drop (Suc k) T)" using assms(1) T by (simp add: shares_def)
  ultimately show "shares (take k T @ drop (Suc k) T) (insert (T ! k) F) A" "T ! k \<in> A" "T ! k \<notin> F"
    using assms(1) by (auto simp: shares_def)
qed

context block_store begin

lemma alloc_volume_frame:
  assumes v: "volume_in rep fs ir li i s" and goal: "goal \<in> volume_addrs (fs_sb fs)"
    and room: "2 + 2 * unat (ext4_block_group_cnt (fs_sb fs)) \<le> st_room s"
  shows "\<exists>r fs' ir' i' s'. ext4_balloc_alloc_block io goal (fs, ir) = (r, fs', ir') \<and>
    volume_in rep fs' ir' li i' s' \<and> data_kept (fs_sb fs) li {} s s' \<and>
    (case r of
       Inr a \<Rightarrow> a \<in> free_set (fs_sb fs) s \<and> free_set (fs_sb fs') s' = free_set (fs_sb fs) s - {a} \<and>
         ir' = ir\<lparr> ir_dirty := True \<rparr> \<and> i' = inode_add_blocks (fs_sb fs) (ucast (balloc_units (fs_sb fs))) i
     | Inl e \<Rightarrow> e = ENOSPC \<and> free_set (fs_sb fs) s = {} \<and> fs_sb fs' = fs_sb fs \<and> st_view s' = st_view s \<and> ir' = ir \<and> i' = i) \<and>
    ops_frame (fs_sb fs) (fs_sb fs') (4 + 2 * unat (ext4_block_group_cnt (fs_sb fs))) s s'"
proof -
  let ?sb = "fs_sb fs" and ?c = "2 + 2 * unat (ext4_block_group_cnt (fs_sb fs))"
  have st: "rep (fs_bdev fs) s" and ok: "volume_ok ?sb li s" and held: "inode_held ?sb ir li i s"
    and w: "128 \<le> unat (sb_inode_size ?sb)" using v by (simp_all add: volume_in_def)
  have rdy: "balloc_ready ?sb s" using ok by (simp add: volume_ok_def)
  note va = volume_addr [OF ok goal]
  have "\<exists>r fs' ir'. ext4_balloc_alloc_block io goal (fs, ir) = (r, fs', ir') \<and>
    (case r of
       Inr addr \<Rightarrow> \<exists>g bg n k. g < ext4_block_group_cnt ?sb \<and> balloc_group_ok ?sb g bg s \<and> n < ext4_blocks_in_group_cnt ?sb g \<and>
         \<not> bmap_bit (block_bitmap ?sb bg s) (unat n) \<and> addr = ext4_fs_bg_idx_to_addr ?sb n g \<and>
         ir' = ir\<lparr> ir_dirty := True \<rparr> \<and> st_room s \<le> k + 2 + 2 * unat (ext4_block_group_cnt ?sb) \<and>
         fs_at rep (fs\<lparr> fs_sb := sb_add_free (- 1) ?sb \<rparr>) (taken ?sb g bg n ir li i (s\<lparr> st_room := k \<rparr>)) fs'
     | Inl e \<Rightarrow> e = ENOSPC \<and> ir' = ir \<and>
         (\<exists>k. st_room s \<le> k + 2 + 2 * unat (ext4_block_group_cnt ?sb) \<and> fs_at rep fs (s\<lparr> st_room := k \<rparr>) fs') \<and>
         (\<forall>g bg. g < ext4_block_group_cnt ?sb \<and> balloc_group_ok ?sb g bg s \<longrightarrow> exhausted ?sb g bg s))"
    by (rule alloc_block_ok [OF fs_at_self [of rep fs s, OF st] refl rdy va(1,2) room]) (rule inode_held_ok [OF ok held])
  then obtain r fs' ir' where run: "ext4_balloc_alloc_block io goal (fs, ir) = (r, fs', ir')"
    and res: "case r of
       Inr addr \<Rightarrow> \<exists>g bg n k. g < ext4_block_group_cnt ?sb \<and> balloc_group_ok ?sb g bg s \<and> n < ext4_blocks_in_group_cnt ?sb g \<and>
         \<not> bmap_bit (block_bitmap ?sb bg s) (unat n) \<and> addr = ext4_fs_bg_idx_to_addr ?sb n g \<and>
         ir' = ir\<lparr> ir_dirty := True \<rparr> \<and> st_room s \<le> k + 2 + 2 * unat (ext4_block_group_cnt ?sb) \<and>
         fs_at rep (fs\<lparr> fs_sb := sb_add_free (- 1) ?sb \<rparr>) (taken ?sb g bg n ir li i (s\<lparr> st_room := k \<rparr>)) fs'
     | Inl e \<Rightarrow> e = ENOSPC \<and> ir' = ir \<and>
         (\<exists>k. st_room s \<le> k + 2 + 2 * unat (ext4_block_group_cnt ?sb) \<and> fs_at rep fs (s\<lparr> st_room := k \<rparr>) fs') \<and>
         (\<forall>g bg. g < ext4_block_group_cnt ?sb \<and> balloc_group_ok ?sb g bg s \<longrightarrow> exhausted ?sb g bg s)" by blast
  show ?thesis
  proof (cases r)
    case (Inl e)
    with res obtain k where e: "e = ENOSPC" "ir' = ir" and k: "st_room s \<le> k + 2 + 2 * unat (ext4_block_group_cnt ?sb)" and f: "fs_at rep fs (s\<lparr> st_room := k \<rparr>) fs'"
      and ex: "\<And>g bg. g < ext4_block_group_cnt ?sb \<Longrightarrow> balloc_group_ok ?sb g bg s \<Longrightarrow> exhausted ?sb g bg s" by auto
    then have kr: "st_room s \<le> k + (4 + 2 * unat (ext4_block_group_cnt ?sb))" by linarith
    have "card (free_set ?sb s) = 0" using free_set_card [OF ok] volume_not_exhausted [OF ok ex] by simp
    then have "free_set ?sb s = {}" by simp
    moreover have "volume_in rep fs' ir li i (s\<lparr> st_room := k \<rparr>)"
      using f ok held w fs_at_fields(1) [OF f] by (auto simp: volume_in_def fs_at_def inode_held_def)
    ultimately show ?thesis
      using run Inl e fs_at_fields(1) [OF f] ops_frame_room [OF kr, of ?sb]
      by (intro exI [of _ r] exI [of _ fs'] exI [of _ ir'] exI [of _ i] exI [of _ "s\<lparr> st_room := k \<rparr>"])
         (simp add: data_kept_def)
  next
    case (Inr a)
    with res obtain g bg n k where g: "g < ext4_block_group_cnt ?sb" and go: "balloc_group_ok ?sb g bg s"
      and n: "n < ext4_blocks_in_group_cnt ?sb g" "\<not> bmap_bit (block_bitmap ?sb bg s) (unat n)"
      and a: "a = ext4_fs_bg_idx_to_addr ?sb n g" and ir': "ir' = ir\<lparr> ir_dirty := True \<rparr>" and kr: "st_room s \<le> k + ?c"
      and f: "fs_at rep (fs\<lparr> fs_sb := sb_add_free (- 1) ?sb \<rparr>) (taken ?sb g bg n ir li i (s\<lparr> st_room := k \<rparr>)) fs'" by auto
    let ?s = "s\<lparr> st_room := k \<rparr>" and ?i = "inode_add_blocks ?sb (ucast (balloc_units ?sb)) i"
    let ?s' = "taken ?sb g bg n ir li i ?s"
    have okk: "volume_ok ?sb li ?s" and gok: "balloc_group_ok ?sb g bg ?s" and hk: "inode_held ?sb ir li i ?s"
      using ok go held by (simp_all add: inode_held_def)
    have "fs_at rep fs (s\<lparr> st_room := st_room s \<rparr>) fs" using fs_at_self [of rep fs s, OF st] by simp
    from bitmap_length [OF this go] have len: "length (block_bitmap ?sb bg ?s) = st_bsize ?s" by simp
    have sb': "fs_sb fs' = sb_add_free (- 1) ?sb" using fs_at_fields(1) [OF f] by simp
    have w': "sb_inode_size (sb_add_free (- 1) ?sb) = sb_inode_size ?sb"
      by (simp add: sb_add_free_def ext4_sb_set_free_blocks_cnt_def)
    have nb: "\<not> bmap_bit (block_bitmap ?sb bg ?s) (unat n)" using n(2) by simp
    have "volume_ok (fs_sb fs') li ?s'" unfolding sb' by (rule taken_volume_ok [OF okk g gok n(1) nb len])
    moreover have "inode_held (fs_sb fs') ir' li ?i ?s'"
      unfolding sb' ir' taken_def by (rule moved_inode_held [OF okk hk g gok w])
    moreover have "rep (fs_bdev fs') ?s'" using f by (auto simp: fs_at_def)
    ultimately have "volume_in rep fs' ir' li ?i ?s'" using w by (simp add: volume_in_def sb' w')
    moreover have "data_kept ?sb li {} s ?s'"
      using moved_data_kept [OF g gok, of li "{}" _ "- 1"] unfolding taken_def data_kept_def data_block_def by simp
    moreover have "free_set (fs_sb fs') ?s' = free_set ?sb s - {a}"
      using free_set_taken [OF okk g gok n(1) len] by (simp add: sb' a)
    moreover have "a \<in> free_set ?sb s"
    proof -
      have "group_at ?sb g (st_view s) = Inr bg" using go by (simp add: balloc_group_ok_def group_ready_def)
      then have "bit_free ?sb s g n" using n by (simp add: bit_free_def)
      with a g show ?thesis by (auto simp: free_set_def)
    qed
    moreover have "ops_frame ?sb (fs_sb fs') (4 + 2 * unat (ext4_block_group_cnt ?sb)) s ?s'"
    proof -
      have "?c + 2 = 4 + 2 * unat (ext4_block_group_cnt ?sb)" by simp
      then show ?thesis using ops_frame_taken [OF ok g go kr] by (simp only: sb')
    qed
    ultimately show ?thesis
      using run Inr ir' by (intro exI [of _ r] exI [of _ fs'] exI [of _ ir'] exI [of _ ?i] exI [of _ ?s']) simp
  qed
qed

lemma alloc_volume:
  assumes "volume_in rep fs ir li i s" and "goal \<in> volume_addrs (fs_sb fs)"
    and "2 + 2 * unat (ext4_block_group_cnt (fs_sb fs)) \<le> st_room s"
  shows "\<exists>r fs' ir' i' s'. ext4_balloc_alloc_block io goal (fs, ir) = (r, fs', ir') \<and>
    volume_in rep fs' ir' li i' s' \<and> data_kept (fs_sb fs) li {} s s' \<and>
    (case r of
       Inr a \<Rightarrow> a \<in> free_set (fs_sb fs) s \<and> free_set (fs_sb fs') s' = free_set (fs_sb fs) s - {a} \<and>
         ir' = ir\<lparr> ir_dirty := True \<rparr> \<and> i' = inode_add_blocks (fs_sb fs) (ucast (balloc_units (fs_sb fs))) i
     | Inl e \<Rightarrow> e = ENOSPC \<and> free_set (fs_sb fs) s = {} \<and> fs_sb fs' = fs_sb fs \<and> st_view s' = st_view s \<and> ir' = ir \<and> i' = i)"
  using alloc_volume_frame [OF assms] by blast

end

context block_store begin

lemma volume_start:
  assumes v: "volume_in rep fs ir li i s" and a: "a \<in> volume_addrs (fs_sb fs)"
  obtains bg where "balloc_group_ok (fs_sb fs) (ext4_balloc_get_bgid_of_block (fs_sb fs) a) bg s"
    "balloc_inode_ok (fs_sb fs) (ext4_balloc_get_bgid_of_block (fs_sb fs) a) bg ir li i s"
    "desc_block (fs_sb fs) (ext4_balloc_get_bgid_of_block (fs_sb fs) a) \<notin> st_pend s"
    "unat (ext4_fs_addr_to_idx_bg (fs_sb fs) a) < 8 * st_bsize s" "length (block_bitmap (fs_sb fs) bg s) = st_bsize s"
proof -
  let ?sb = "fs_sb fs" let ?g = "ext4_balloc_get_bgid_of_block ?sb a"
  have st: "rep (fs_bdev fs) s" and ok: "volume_ok ?sb li s" and held: "inode_held ?sb ir li i s"
    using v by (simp_all add: volume_in_def)
  have rdy: "balloc_ready ?sb s" using ok by (simp add: volume_ok_def)
  note va = volume_addr [OF ok a]
  obtain bg where bg: "balloc_group_ok ?sb ?g bg s" using rdy va(1) by (auto simp: balloc_ready_def)
  have "fs_at rep fs (s\<lparr> st_room := st_room s \<rparr>) fs" using fs_at_self [of rep fs s, OF st] by simp
  note len = bitmap_length [OF this bg]
  have "unat (ext4_fs_addr_to_idx_bg ?sb a) < 8 * st_bsize s"
    using volume_idx [OF rdy va(1,2)] rdy by (simp add: balloc_ready_def)
  moreover have "desc_block ?sb ?g \<notin> st_pend s" using rdy va(1) by (simp add: balloc_ready_def)
  ultimately show thesis using that [OF bg inode_held_ok [OF ok held va(1) bg]] len by blast
qed

lemma try_alloc_volume_frame:
  assumes v: "volume_in rep fs ir li i s" and a: "a \<in> volume_addrs (fs_sb fs)" and room: "2 \<le> st_room s"
  shows "\<exists>fs' ir' i' s'. ext4_balloc_try_alloc_block io a (fs, ir) = (Inr (a \<in> free_set (fs_sb fs) s), fs', ir') \<and>
    volume_in rep fs' ir' li i' s' \<and> data_kept (fs_sb fs) li {} s s' \<and>
    free_set (fs_sb fs') s' = free_set (fs_sb fs) s - {a} \<and>
    (a \<notin> free_set (fs_sb fs) s \<longrightarrow> fs_sb fs' = fs_sb fs \<and> st_view s' = st_view s \<and> ir' = ir \<and> i' = i) \<and>
    ops_frame (fs_sb fs) (fs_sb fs') 2 s s'"
proof -
  let ?sb = "fs_sb fs" let ?g = "ext4_balloc_get_bgid_of_block ?sb a" and ?n = "ext4_fs_addr_to_idx_bg ?sb a"
  obtain bg where go: "balloc_group_ok ?sb ?g bg s" and gi: "balloc_inode_ok ?sb ?g bg ir li i s"
    and gp: "desc_block ?sb ?g \<notin> st_pend s" and idx: "unat ?n < 8 * st_bsize s" and len: "length (block_bitmap ?sb bg s) = st_bsize s"
    by (rule volume_start [OF v a])
  have st: "rep (fs_bdev fs) s" and ok: "volume_ok ?sb li s" and held: "inode_held ?sb ir li i s"
    and w: "128 \<le> unat (sb_inode_size ?sb)" using v by (simp_all add: volume_in_def)
  note va = volume_addr [OF ok a] and fr = free_set_addr [OF ok a go]
  let ?i = "inode_add_blocks ?sb (ucast (balloc_units ?sb)) i" and ?s' = "taken ?sb ?g bg ?n ir li i s"
  have w': "sb_inode_size (sb_add_free (- 1) ?sb) = sb_inode_size ?sb"
    by (simp add: sb_add_free_def ext4_sb_set_free_blocks_cnt_def)
  have "succeeds (ext4_balloc_try_alloc_block io a (fs, ir)) (\<lambda>r s2. r = (a \<in> free_set ?sb s) \<and>
     (\<exists>i' s'. volume_in rep (fst s2) (snd s2) li i' s' \<and> data_kept ?sb li {} s s' \<and>
       free_set (fs_sb (fst s2)) s' = free_set ?sb s - {a} \<and>
       (a \<notin> free_set ?sb s \<longrightarrow> fs_sb (fst s2) = ?sb \<and> st_view s' = st_view s \<and> snd s2 = ir \<and> i' = i) \<and>
       ops_frame ?sb (fs_sb (fst s2)) 2 s s'))"
  proof (rule try_alloc_rule [OF fs_at_self [of rep fs s, OF st] refl refl go gi gp room refl idx])
    fix fs' assume b: "\<not> bmap_bit (block_bitmap ?sb bg s) (unat ?n)"
      and f: "fs_at rep (fs\<lparr> fs_sb := sb_add_free (- 1) ?sb \<rparr>) ?s' fs'"
    have sb': "fs_sb fs' = sb_add_free (- 1) ?sb" using fs_at_fields(1) [OF f] by simp
    have "volume_ok (fs_sb fs') li ?s'" unfolding sb' by (rule taken_volume_ok [OF ok va(1) go va(2) b len])
    moreover have "inode_held (fs_sb fs') (ir\<lparr> ir_dirty := True \<rparr>) li ?i ?s'"
      unfolding sb' taken_def by (rule moved_inode_held [OF ok held va(1) go w])
    moreover have "rep (fs_bdev fs') ?s'" using f by (auto simp: fs_at_def)
    ultimately have "volume_in rep fs' (ir\<lparr> ir_dirty := True \<rparr>) li ?i ?s'" using w by (simp add: volume_in_def sb' w')
    moreover have "data_kept ?sb li {} s ?s'" unfolding taken_def by (rule moved_data_kept [OF va(1) go])
    moreover have "free_set (fs_sb fs') ?s' = free_set ?sb s - {a}"
      using free_set_taken [OF ok va(1) go va(2) len] va(3) by (simp add: sb')
    moreover have "a \<in> free_set ?sb s" using b fr by simp
    moreover have "ops_frame ?sb (fs_sb fs') 2 s ?s'"
      using ops_frame_taken [OF ok va(1) go, of "st_room s" 0] by (simp only: sb') (simp add: numeral_2_eq_2)
    ultimately show "True = (a \<in> free_set ?sb s) \<and>
       (\<exists>i' s'. volume_in rep (fst (fs', ir\<lparr> ir_dirty := True \<rparr>)) (snd (fs', ir\<lparr> ir_dirty := True \<rparr>)) li i' s' \<and> data_kept ?sb li {} s s' \<and>
       free_set (fs_sb (fst (fs', ir\<lparr> ir_dirty := True \<rparr>))) s' = free_set ?sb s - {a} \<and>
       (a \<notin> free_set ?sb s \<longrightarrow> fs_sb (fst (fs', ir\<lparr> ir_dirty := True \<rparr>)) = ?sb \<and> st_view s' = st_view s \<and>
          snd (fs', ir\<lparr> ir_dirty := True \<rparr>) = ir \<and> i' = i) \<and> ops_frame ?sb (fs_sb (fst (fs', ir\<lparr> ir_dirty := True \<rparr>))) 2 s s')" by auto
  next
    fix fs' assume b: "bmap_bit (block_bitmap ?sb bg s) (unat ?n)" and f: "fs_at rep fs (s\<lparr> st_room := st_room s - 2 \<rparr>) fs'"
    have "volume_in rep fs' ir li i (s\<lparr> st_room := st_room s - 2 \<rparr>)"
      using f ok held w fs_at_fields(1) [OF f] by (auto simp: volume_in_def fs_at_def inode_held_def)
    moreover have "a \<notin> free_set ?sb s" using b fr by simp
    ultimately show "False = (a \<in> free_set ?sb s) \<and>
       (\<exists>i' s'. volume_in rep (fst (fs', ir)) (snd (fs', ir)) li i' s' \<and> data_kept ?sb li {} s s' \<and>
       free_set (fs_sb (fst (fs', ir))) s' = free_set ?sb s - {a} \<and>
       (a \<notin> free_set ?sb s \<longrightarrow> fs_sb (fst (fs', ir)) = ?sb \<and> st_view s' = st_view s \<and> snd (fs', ir) = ir \<and> i' = i) \<and>
       ops_frame ?sb (fs_sb (fst (fs', ir))) 2 s s')"
      using fs_at_fields(1) [OF f] room
      by (auto simp: data_kept_def ops_frame_room intro!: exI [of _ i] exI [of _ "s\<lparr> st_room := st_room s - 2 \<rparr>"])
  qed
  then show ?thesis unfolding succeeds_def by force
qed

lemma try_alloc_volume:
  assumes "volume_in rep fs ir li i s" and "a \<in> volume_addrs (fs_sb fs)" and "2 \<le> st_room s"
  shows "\<exists>fs' ir' i' s'. ext4_balloc_try_alloc_block io a (fs, ir) = (Inr (a \<in> free_set (fs_sb fs) s), fs', ir') \<and>
    volume_in rep fs' ir' li i' s' \<and> data_kept (fs_sb fs) li {} s s' \<and>
    free_set (fs_sb fs') s' = free_set (fs_sb fs) s - {a} \<and>
    (a \<notin> free_set (fs_sb fs) s \<longrightarrow> fs_sb fs' = fs_sb fs \<and> st_view s' = st_view s \<and> ir' = ir \<and> i' = i)"
  using try_alloc_volume_frame [OF assms] by blast

lemma free_volume_frame:
  assumes v: "volume_in rep fs ir li i s" and a: "a \<in> volume_addrs (fs_sb fs)" "a \<notin> free_set (fs_sb fs) s"
    and d: "data_block (fs_sb fs) a s" "a < st_cnt s" "st_refs s a = 0" and room: "2 \<le> st_room s"
  shows "\<exists>fs' i' s'. ext4_balloc_free_block io a (fs, ir) = (Inr (), fs', ir\<lparr> ir_dirty := True \<rparr>) \<and>
    volume_in rep fs' (ir\<lparr> ir_dirty := True \<rparr>) li i' s' \<and> data_kept (fs_sb fs) li {a} s s' \<and>
    free_set (fs_sb fs') s' = insert a (free_set (fs_sb fs) s) \<and>
    i' = inode_add_blocks (fs_sb fs) (- ucast (balloc_units (fs_sb fs))) i \<and> volume_frame (fs_sb fs) li s s' \<and>
    fs_at rep (fs\<lparr> fs_sb := sb_add_free 1 (fs_sb fs) \<rparr>) s' fs'"
proof -
  let ?sb = "fs_sb fs" let ?g = "ext4_balloc_get_bgid_of_block ?sb a" and ?n = "ext4_fs_addr_to_idx_bg ?sb a"
  obtain bg where go: "balloc_group_ok ?sb ?g bg s" and gi: "balloc_inode_ok ?sb ?g bg ir li i s"
    and gp: "desc_block ?sb ?g \<notin> st_pend s" and idx: "unat ?n < 8 * st_bsize s" and len: "length (block_bitmap ?sb bg s) = st_bsize s"
    by (rule volume_start [OF v a(1)])
  have st: "rep (fs_bdev fs) s" and ok: "volume_ok ?sb li s" and held: "inode_held ?sb ir li i s"
    and w: "128 \<le> unat (sb_inode_size ?sb)" using v by (simp_all add: volume_in_def)
  note va = volume_addr [OF ok a(1)] and fr = free_set_addr [OF ok a(1) go]
  have ga: "group_at ?sb ?g (st_view s) = Inr bg" using go by (simp add: balloc_group_ok_def group_ready_def)
  have ne: "a \<noteq> desc_block ?sb ?g" using d(1) va(1) ga unfolding data_block_def by blast
  have nli: "a \<noteq> li" using held d(3) by (auto simp: inode_held_def)
  let ?i = "inode_add_blocks ?sb (- ucast (balloc_units ?sb)) i" and ?s1 = "given_back ?sb ?g bg ?n ir li i s"
  have w': "sb_inode_size (sb_add_free 1 ?sb) = sb_inode_size ?sb"
    by (simp add: sb_add_free_def ext4_sb_set_free_blocks_cnt_def)
  have b: "bmap_bit (block_bitmap ?sb bg s) (unat ?n)" using a(2) fr by simp
  have "succeeds (ext4_balloc_free_block io a (fs, ir)) (\<lambda>_ s2. snd s2 = ir\<lparr> ir_dirty := True \<rparr> \<and>
     (\<exists>s'. volume_in rep (fst s2) (snd s2) li ?i s' \<and> data_kept ?sb li {a} s s' \<and>
       free_set (fs_sb (fst s2)) s' = insert a (free_set ?sb s) \<and> volume_frame ?sb li s s' \<and>
       fs_at rep (fs\<lparr> fs_sb := sb_add_free 1 ?sb \<rparr>) s' (fst s2)))"
  proof (rule free_block_rule [OF fs_at_self [of rep fs s, OF st] refl refl go gi gp room refl idx d(2,3) ne])
    fix u fs' assume u: "\<And>k. k \<noteq> a \<Longrightarrow> u k = st_view ?s1 k"
      and f: "fs_at rep (fs\<lparr> fs_sb := sb_add_free 1 ?sb \<rparr>) (?s1\<lparr> st_view := u \<rparr>) fs'"
    let ?s' = "?s1\<lparr> st_view := u \<rparr>"
    have sb': "fs_sb fs' = sb_add_free 1 ?sb" using fs_at_fields(1) [OF f] by simp
    have ok1: "volume_ok (sb_add_free 1 ?sb) li ?s1" by (rule given_back_volume_ok [OF ok va(1) go va(2) b len])
    have "data_block ?sb a ?s1" unfolding given_back_def by (rule data_block_moved [OF ok va(1) go d(1)])
    then have db: "data_block (sb_add_free 1 ?sb) a ?s1" by (simp add: data_block_def add_free_geometry)
    have "volume_ok (fs_sb fs') li ?s'" unfolding sb' by (rule view_volume_ok [OF ok1 db u])
    moreover have "inode_held (fs_sb fs') (ir\<lparr> ir_dirty := True \<rparr>) li ?i ?s'"
      using moved_inode_held [OF ok held va(1) go w, of 1 "- ucast (balloc_units ?sb)" "bmap_clr (block_bitmap ?sb bg s) (unat ?n)" 1]
        u [OF nli [symmetric]] by (simp add: sb' given_back_def inode_held_def)
    moreover have "rep (fs_bdev fs') ?s'" using f by (auto simp: fs_at_def)
    ultimately have "volume_in rep fs' (ir\<lparr> ir_dirty := True \<rparr>) li ?i ?s'" using w by (simp add: volume_in_def sb' w')
    moreover have "data_kept ?sb li {a} s ?s'"
    proof -
      have "data_kept ?sb li {a} s ?s1" unfolding given_back_def by (rule moved_data_kept [OF va(1) go])
      then show ?thesis using u unfolding data_kept_def by simp
    qed
    moreover have "free_set (fs_sb fs') ?s' = insert a (free_set ?sb s)"
      using view_free_set [OF ok1 db u] free_set_given_back [OF ok va(1) go va(2) len] va(3) by (simp add: sb')
    moreover have "volume_frame ?sb li s ?s'"
      unfolding volume_frame_def
    proof (intro conjI allI impI)
      fix l assume "data_block ?sb l s"
      then have d1: "data_block ?sb l ?s1" unfolding given_back_def by (rule data_block_moved [OF ok va(1) go])
      have "group_at ?sb h (st_view ?s') = group_at ?sb h (st_view ?s1)" if "h < ext4_block_group_cnt ?sb" for h
      proof -
        have "balloc_ready (sb_add_free 1 ?sb) ?s1" using ok1 by (simp only: volume_ok_def)
        moreover have "h < ext4_block_group_cnt (sb_add_free 1 ?sb)" using that by (simp add: add_free_geometry)
        ultimately obtain bh where "balloc_group_ok (sb_add_free 1 ?sb) h bh ?s1" unfolding balloc_ready_def by blast
        then have "group_at ?sb h (st_view ?s1) = Inr bh" by (simp add: balloc_group_ok_def group_ready_def add_free_geometry)
        then have "desc_block ?sb h \<noteq> a"
          using that data_block_moved [OF ok va(1) go d(1)] unfolding data_block_def given_back_def by blast
        then show ?thesis using u by (simp add: group_at_def)
      qed
      then show "data_block ?sb l ?s'" using d1 unfolding data_block_def by metis
    qed (simp_all add: given_back_def moved_fields)
    ultimately show "snd (fs', ir\<lparr> ir_dirty := True \<rparr>) = ir\<lparr> ir_dirty := True \<rparr> \<and>
     (\<exists>s'. volume_in rep (fst (fs', ir\<lparr> ir_dirty := True \<rparr>)) (snd (fs', ir\<lparr> ir_dirty := True \<rparr>)) li ?i s' \<and> data_kept ?sb li {a} s s' \<and>
       free_set (fs_sb (fst (fs', ir\<lparr> ir_dirty := True \<rparr>))) s' = insert a (free_set ?sb s) \<and> volume_frame ?sb li s s' \<and>
       fs_at rep (fs\<lparr> fs_sb := sb_add_free 1 ?sb \<rparr>) s' (fst (fs', ir\<lparr> ir_dirty := True \<rparr>)))" using f by auto
  qed
  then show ?thesis unfolding succeeds_def by force
qed

lemma free_volume:
  assumes v: "volume_in rep fs ir li i s" and a: "a \<in> volume_addrs (fs_sb fs)" "a \<notin> free_set (fs_sb fs) s"
    and d: "data_block (fs_sb fs) a s" "a < st_cnt s" "st_refs s a = 0" and room: "2 \<le> st_room s"
  shows "\<exists>fs' i' s'. ext4_balloc_free_block io a (fs, ir) = (Inr (), fs', ir\<lparr> ir_dirty := True \<rparr>) \<and>
    volume_in rep fs' (ir\<lparr> ir_dirty := True \<rparr>) li i' s' \<and> data_kept (fs_sb fs) li {a} s s' \<and>
    free_set (fs_sb fs') s' = insert a (free_set (fs_sb fs) s) \<and>
    i' = inode_add_blocks (fs_sb fs) (- ucast (balloc_units (fs_sb fs))) i"
  using free_volume_frame [OF assms] by blast

lemma vol_run_ok:
  assumes "volume_in rep fs ir li i s" and "\<forall>op \<in> set ops. vop_in (volume_addrs (fs_sb fs)) op"
    and "(4 + 2 * unat (ext4_block_group_cnt (fs_sb fs))) * length ops \<le> st_room s"
    and "shares T (free_set (fs_sb fs) s) A" and "loose (fs_sb fs) s A" and "A \<subseteq> volume_addrs (fs_sb fs)"
  shows "\<exists>T' fs' ir' i' s'. vol_run io ops T (fs, ir) = (Inr T', fs', ir') \<and> volume_in rep fs' ir' li i' s' \<and>
    shares T' (free_set (fs_sb fs') s') A"
  using assms
proof (induction ops arbitrary: T fs ir i s)
  case Nil
  then show ?case by auto
next
  case (Cons op ops)
  let ?sb = "fs_sb fs" let ?c = "4 + 2 * unat (ext4_block_group_cnt ?sb)"
  have room: "?c \<le> st_room s" "?c * length ops \<le> st_room s - ?c" using Cons.prems(3) by simp_all
  have step: "\<exists>T'' fs'' ir'' i'' s''. vol_run io ops T' (fs', ir') = (Inr T'', fs'', ir'') \<and> volume_in rep fs'' ir'' li i'' s'' \<and>
      shares T'' (free_set (fs_sb fs'') s'') A"
    if v: "volume_in rep fs' ir' li i' s'" and fr: "ops_frame ?sb (fs_sb fs') c s s'" and c: "c \<le> ?c"
      and sh: "shares T' (free_set (fs_sb fs') s') A" for T' fs' ir' i' s' c
  proof (rule Cons.IH [OF v _ _ sh loose_frame [OF fr Cons.prems(5)]])
    have g: "volume_addrs (fs_sb fs') = volume_addrs ?sb" "ext4_block_group_cnt (fs_sb fs') = ext4_block_group_cnt ?sb"
      and r: "st_room s \<le> st_room s' + c" using fr by (simp_all add: ops_frame_def geom_same_def)
    show "\<forall>op \<in> set ops. vop_in (volume_addrs (fs_sb fs')) op" "A \<subseteq> volume_addrs (fs_sb fs')"
      using Cons.prems(2,6) by (simp_all add: g)
    show "(4 + 2 * unat (ext4_block_group_cnt (fs_sb fs'))) * length ops \<le> st_room s'"
      using r c room unfolding g by linarith
  qed
  show ?case
  proof (cases op)
    case (VAlloc goal)
    have "goal \<in> volume_addrs ?sb" using Cons.prems(2) VAlloc by simp
    from alloc_volume_frame [OF Cons.prems(1) this] room(1) obtain r fs' ir' i' s' where
      1: "ext4_balloc_alloc_block io goal (fs, ir) = (r, fs', ir')" "volume_in rep fs' ir' li i' s'"
        "ops_frame ?sb (fs_sb fs') ?c s s'"
      and r: "case r of
         Inr a \<Rightarrow> a \<in> free_set ?sb s \<and> free_set (fs_sb fs') s' = free_set ?sb s - {a} \<and> ir' = ir\<lparr> ir_dirty := True \<rparr> \<and>
           i' = inode_add_blocks ?sb (ucast (balloc_units ?sb)) i
       | Inl e \<Rightarrow> e = ENOSPC \<and> free_set ?sb s = {} \<and> fs_sb fs' = ?sb \<and> st_view s' = st_view s \<and> ir' = ir \<and> i' = i" by auto
    show ?thesis
    proof (cases r)
      case (Inl e)
      then have e: "e = ENOSPC" and "free_set (fs_sb fs') s' = free_set ?sb s" using r by (auto simp: free_set_def bit_free_def block_bitmap_def)
      then have "shares T (free_set (fs_sb fs') s') A" using Cons.prems(4) by simp
      from step [OF 1(2,3) order_refl this] show ?thesis using VAlloc Inl e 1(1) by simp
    next
      case (Inr a)
      then have "shares (a # T) (free_set (fs_sb fs') s') A" using r shares_take [OF Cons.prems(4)] by simp
      from step [OF 1(2,3) order_refl this] show ?thesis using VAlloc Inr 1(1) by simp
    qed
  next
    case (VClaim a)
    have a: "a \<in> volume_addrs ?sb" "2 \<le> st_room s" using Cons.prems(2) VClaim room(1) by simp_all
    from try_alloc_volume_frame [OF Cons.prems(1) a] obtain fs' ir' i' s' where
      1: "ext4_balloc_try_alloc_block io a (fs, ir) = (Inr (a \<in> free_set ?sb s), fs', ir')" "volume_in rep fs' ir' li i' s'"
        "ops_frame ?sb (fs_sb fs') 2 s s'" "free_set (fs_sb fs') s' = free_set ?sb s - {a}" by blast
    have "shares (if a \<in> free_set ?sb s then a # T else T) (free_set (fs_sb fs') s') A"
      using Cons.prems(4) shares_take [OF Cons.prems(4)] by (simp add: 1(4))
    from step [OF 1(2,3) _ this] show ?thesis using VClaim 1(1) by simp
  next
    case (VFree k)
    show ?thesis
    proof (cases "k < length T")
      case True
      note sh = shares_give [OF Cons.prems(4) True]
      have a: "T ! k \<in> volume_addrs ?sb" "data_block ?sb (T ! k) s" "T ! k < st_cnt s" "st_refs s (T ! k) = 0" "2 \<le> st_room s"
        using sh(2) Cons.prems(5,6) room(1) by (auto simp: loose_def)
      from free_volume_frame [OF Cons.prems(1) a(1) sh(3) a(2-5)] obtain fs' i' s' where
        1: "ext4_balloc_free_block io (T ! k) (fs, ir) = (Inr (), fs', ir\<lparr> ir_dirty := True \<rparr>)"
          "volume_in rep fs' (ir\<lparr> ir_dirty := True \<rparr>) li i' s'" "volume_frame ?sb li s s'"
          "free_set (fs_sb fs') s' = insert (T ! k) (free_set ?sb s)" "fs_at rep (fs\<lparr> fs_sb := sb_add_free 1 ?sb \<rparr>) s' fs'" by blast
      have "fs_sb fs' = sb_add_free 1 ?sb" using fs_at_fields(1) [OF 1(5)] by simp
      then have "ops_frame ?sb (fs_sb fs') 2 s s'" using volume_frame_ops [OF 1(3)] by simp
      from step [OF 1(2) this _ sh(1) [folded 1(4)]] show ?thesis using VFree True 1(1) by simp
    next
      case False
      have "ops_frame ?sb ?sb 0 s s" by (simp add: ops_frame_def)
      from step [OF Cons.prems(1) this _ Cons.prems(4)] show ?thesis using VFree False by simp
    qed
  qed
qed

end

end
