(* ===== verification/VolumeFile.thy ===== *)
theory VolumeFile
  imports VolumeOps
begin

text \<open>
  The block allocator on the image file of the Linux driver: its properties, and a volume of eight 1 KiB
  blocks they are applied to. Block 1 of that volume is its superblock, 2 the descriptors, 3 the
  block bitmap, 5 the inode table; the address 6 is free and 7 is in use.
\<close>

section \<open>A small volume\<close>

definition vol_sb :: ext4_sblock where
  "vol_sb = sb_sample\<lparr> sb_blocks_count_lo := 8, sb_blocks_per_group := 8192, sb_first_data_block := 1,
     sb_free_blocks_count_lo := 1, sb_free_blocks_count_hi := 0 \<rparr>"

definition vol_bg :: ext4_bgroup where
  "vol_bg = (bg_of_bytes (replicate 64 0))\<lparr> bg_block_bitmap_lo := 3, bg_free_blocks_count_lo := 1,
     bg_block_bitmap_hi := 0, bg_free_blocks_count_hi := 0, bg_flags := 0 \<rparr>"

definition vol_desc :: "u8 list" where "vol_desc = take 32 (bg_bytes vol_bg) @ replicate 992 0"
definition vol_bitmap :: "u8 list" where "vol_bitmap = 0xDF # replicate 1023 0"

definition vol_image :: "u8 list" where
  "vol_image = replicate 2048 0 @ vol_desc @ vol_bitmap @ replicate 4096 0"

definition vol_cache :: ext4_bcache where
  "vol_cache = tiny_cache\<lparr> bc_cnt := 8, bc_itemsize := 1024, bc_malloc := (\<lambda>n. Some (replicate 1024 0)) \<rparr>"

text \<open>A device of eight blocks with the given contents, and its store.\<close>

definition small_dev :: "u8 list \<Rightarrow> hostfile ext4_blockdev" where
  "small_dev img = (tiny_dev img)\<lparr> bd_ph_bsize := 512, bd_ph_bcnt := 16, bd_ph_bbuf := replicate 512 0, bd_part_size := 8192,
     bd_bc := vol_cache, bd_lg_bsize := 1024, bd_lg_bcnt := 8, bd_cache_write_back := 1 \<rparr>"

definition small_store :: "u8 list \<Rightarrow> store" where
  "small_store img = \<lparr> st_view = (\<lambda>l. slice img (unat l * 1024) 1024), st_refs = (\<lambda>_. 0), st_pend = {}, st_room = 100,
     st_cnt = 8, st_bsize = 1024 \<rparr>"

lemma small_ready: "length img = 8192 \<Longrightarrow> blk_ready hf_content {} (small_dev img)"
proof -
  assume l: "length img = 8192"
  have c: "hf_content (bd_dev (small_dev img)) = img" by (simp add: small_dev_def tiny_dev_def hf_content_def)
  have "bc_wf vol_cache" by (simp add: bc_wf_def vol_cache_def tiny_cache_def ext4_buf_lookup_def)
  moreover have "mem_ok vol_cache" by (simp add: mem_ok_def vol_cache_def)
  moreover have "\<exists>k < 32. (512 :: nat) = 2 ^ k" by (rule exI [of _ 9]) simp
  then have "dev_geom (small_dev img) 8192" by (simp add: dev_geom_def small_dev_def tiny_dev_def)
  ultimately show ?thesis
    using c l
    by (simp add: blk_ready_def blk_inv_def held_uptodate_def synced_def cache_coh_def dirty_queued_def small_dev_def tiny_dev_def
          cache_geom_def ext4_buf_lookup_def vol_cache_def tiny_cache_def hf_content_def)
qed

lemma small_store_abs: "length img = 8192 \<Longrightarrow> store_abs hf_content (small_dev img) (small_store img)"
proof -
  assume "length img = 8192"
  moreover have "blk_view hf_content (small_dev img) l = slice img (unat l * 1024) 1024" for l
    by (simp add: blk_view_def blk_disk_def blk_pos_def small_dev_def tiny_dev_def vol_cache_def tiny_cache_def ext4_buf_lookup_def
        hf_content_def)
  then have "blk_view hf_content (small_dev img) = (\<lambda>l. slice img (unat l * 1024) 1024)" by (rule ext)
  ultimately show ?thesis
    using small_ready [of img]
    by (simp add: store_abs_def small_store_def blk_refs_def small_dev_def tiny_dev_def vol_cache_def tiny_cache_def ext4_buf_lookup_def)
qed

definition vol_store :: store where "vol_store = small_store vol_image"

lemma vol_lengths [simp]: "length vol_desc = 1024" "length vol_bitmap = 1024" "length vol_image = 8192"
  by (simp_all add: vol_desc_def vol_bitmap_def vol_image_def)

lemma vol_store_abs: "store_abs hf_content (small_dev vol_image) vol_store"
  unfolding vol_store_def by (rule small_store_abs) simp

lemma vol_view: "st_view vol_store 2 = vol_desc" "st_view vol_store 3 = vol_bitmap"
  by (simp_all add: vol_store_def small_store_def slice_def vol_image_def)

lemma vol_geometry:
  "ext4_block_group_cnt vol_sb = 1" "ext4_blocks_in_group_cnt vol_sb 0 = 8" "sb_blocks_per_group vol_sb = 8192"
  "desc_block vol_sb 0 = 2" "desc_off vol_sb 0 = 0" "bg_width vol_sb = 32" "ext4_sb_get_desc_size vol_sb = 32"
  "ext4_sb_get_free_blocks_cnt vol_sb = 1" "sb_inode_size vol_sb = 128"
proof -
  have b: "ext4_sb_get_blocks_cnt vol_sb = 8"
    by (simp add: ext4_sb_get_blocks_cnt_def vol_sb_def sb_sample_def)
  show c: "ext4_block_group_cnt vol_sb = 1"
    by (simp add: ext4_block_group_cnt_def b Let_def) (simp add: vol_sb_def)
  show "ext4_blocks_in_group_cnt vol_sb 0 = 8" by (simp add: ext4_blocks_in_group_cnt_def b c)
  show "sb_blocks_per_group vol_sb = 8192" by (simp add: vol_sb_def)
  show d: "ext4_sb_get_desc_size vol_sb = 32"
    by (simp add: ext4_sb_get_desc_size_def vol_sb_def sb_sample_def ext4_consts)
  have z: "ext4_sb_get_block_size vol_sb = 1024" by (simp add: ext4_sb_get_block_size_def vol_sb_def sb_sample_def)
  have m: "\<not> ext4_sb_feature_incom vol_sb f" for f by (simp add: ext4_sb_feature_incom_def vol_sb_def sb_sample_def)
  show "desc_block vol_sb 0 = 2" by (simp add: desc_block_def z d ext4_fs_get_descriptor_block_def m) (simp add: vol_sb_def)
  show "desc_off vol_sb 0 = 0" by (simp add: desc_off_def)
  show "bg_width vol_sb = 32" by (simp add: bg_width_def d ext4_consts)
  show "ext4_sb_get_free_blocks_cnt vol_sb = 1"
    by (simp add: ext4_sb_get_free_blocks_cnt_def vol_sb_def)
  show "sb_inode_size vol_sb = 128" by (simp add: vol_sb_def sb_sample_def)
qed

lemma le_dec_zeros: "le_dec (replicate n 0) = 0" by (induction n) simp_all

lemma vol_group: "group_at vol_sb 0 (st_view vol_store) = Inr vol_bg"
proof -
  have "bg_narrow vol_sb vol_bg"
    unfolding bg_narrow_iff by (simp add: vol_bg_def bg_of_bytes_def get_field_defs le_dec_zeros)
  then show ?thesis
    by (simp add: group_at_def bg_at_def vol_geometry vol_view vol_desc_def rd_range_def bg_narrow_def)
qed

lemma vol_fields:
  "ext4_bg_get_block_bitmap vol_bg vol_sb = 3" "ext4_bg_get_free_blocks_count vol_bg vol_sb = 1"
  "\<not> ext4_bg_has_flag vol_bg f"
  by (simp_all add: ext4_bg_get_block_bitmap_def ext4_bg_get_free_blocks_count_def ext4_bg_has_flag_def vol_geometry)
     (simp_all add: vol_bg_def)

lemma vol_bit: "i < 8 \<Longrightarrow> bmap_bit vol_bitmap i \<longleftrightarrow> i \<noteq> 5"
proof -
  assume "i < 8"
  then consider "i = 0" | "i = 1" | "i = 2" | "i = 3" | "i = 4" | "i = 5" | "i = 6" | "i = 7" by linarith
  then show ?thesis by cases (simp_all add: bmap_bit_def vol_bitmap_def bit_iff_odd)
qed

lemma vol_group_only: "(g < ext4_block_group_cnt vol_sb) = (g = 0)"
  by (simp add: vol_geometry word_less_nat_alt word_unat_eq_iff)

lemma vol_ok: "volume_ok vol_sb 5 vol_store"
proof -
  have sv: "small_volume vol_sb" by (simp add: small_volume_def vol_geometry)
  have g: "balloc_group_ok vol_sb 0 vol_bg vol_store"
    by (simp add: balloc_group_ok_def group_ready_def vol_group vol_geometry vol_fields) (simp add: vol_store_def small_store_def)
  have rdy: "balloc_ready vol_sb vol_store"
    using sv g by (auto simp: balloc_ready_def vol_group_only vol_geometry) (simp_all add: vol_store_def small_store_def)
  have ap: "layout_apart vol_sb 5 vol_store"
    by (auto simp: layout_apart_def vol_group_only vol_group vol_geometry vol_fields)
  have "{i. i < (8 :: nat) \<and> \<not> bmap_bit vol_bitmap i} = {5}" by (auto simp: vol_bit)
  then have fb: "free_bits vol_sb 0 vol_bitmap = 1" by (simp add: free_bits_def vol_geometry)
  have bb: "block_bitmap vol_sb vol_bg vol_store = vol_bitmap" by (simp add: block_bitmap_def vol_fields vol_view)
  have "group_counted vol_sb 0 vol_store" using g by (auto simp: group_counted_def bb fb vol_fields)
  moreover have "free_of vol_sb 0 vol_store = 1" by (simp add: free_of_def vol_group vol_fields)
  moreover have "{g. g < ext4_block_group_cnt vol_sb} = {0}" by (simp add: vol_group_only)
  ultimately show ?thesis using rdy ap by (simp add: volume_ok_def vol_geometry vol_group_only)
qed

lemma vol_free_set: "free_set vol_sb vol_store = {6}" and vol_used: "7 \<in> volume_addrs vol_sb"
proof -
  have bb: "block_bitmap vol_sb vol_bg vol_store = vol_bitmap" by (simp add: block_bitmap_def vol_fields vol_view)
  have ad: "ext4_fs_bg_idx_to_addr vol_sb n 0 = ucast (n + 1)" for n
    by (simp add: ext4_fs_bg_idx_to_addr_def) (simp add: vol_sb_def)
  have bf: "bit_free vol_sb vol_store 0 n \<longleftrightarrow> n = 5" for n
    using vol_bit [of "unat n"]
    by (auto simp: bit_free_def vol_geometry vol_group bb word_less_nat_alt word_unat_eq_iff)
  show "free_set vol_sb vol_store = {6}" by (auto simp: free_set_def vol_group_only bf ad)
  have "(6 :: u32) < 8" by (simp add: word_less_nat_alt)
  then show "7 \<in> volume_addrs vol_sb"
    unfolding volume_addrs_def by (auto simp: vol_group_only vol_geometry ad intro!: exI [of _ 6])
qed

section \<open>The properties\<close>

abbreviation volume_on :: "hostfile ext4_fs \<Rightarrow> ext4_inode_ref \<Rightarrow> u64 \<Rightarrow> ext4_inode \<Rightarrow> store \<Rightarrow> bool" where
  "volume_on \<equiv> volume_in (store_abs hf_content)"

text \<open>
  C6: allocating a block is exact. On a volume whose counters agree with its bitmaps, and for any goal
  inside it, \<open>ext4_balloc_alloc_block\<close> either takes one address out of the set of free addresses, or
  returns \<open>ENOSPC\<close>, which happens only when that set is empty, and then changes nothing. The
  counters agree with the bitmaps again afterwards, the inode is charged for the block, and no block but
  the bitmap, the descriptor and the inode's is written.
\<close>

theorem alloc_block_exact:
  assumes "volume_on fs ir li i s" and "goal \<in> volume_addrs (fs_sb fs)"
    and "2 + 2 * unat (ext4_block_group_cnt (fs_sb fs)) \<le> st_room s"
  shows "\<exists>r fs' ir' i' s'. ext4_balloc_alloc_block file_dev_iface goal (fs, ir) = (r, fs', ir') \<and>
    volume_on fs' ir' li i' s' \<and> data_kept (fs_sb fs) li {} s s' \<and>
    (case r of
       Inr a \<Rightarrow> a \<in> free_set (fs_sb fs) s \<and> free_set (fs_sb fs') s' = free_set (fs_sb fs) s - {a} \<and>
         ir' = ir\<lparr> ir_dirty := True \<rparr> \<and> i' = inode_add_blocks (fs_sb fs) (ucast (balloc_units (fs_sb fs))) i
     | Inl e \<Rightarrow> e = ENOSPC \<and> free_set (fs_sb fs) s = {} \<and> fs_sb fs' = fs_sb fs \<and> st_view s' = st_view s \<and> ir' = ir \<and> i' = i)"
  by (rule file_dev.store.alloc_volume [OF assms])

text \<open>
  C7: freeing a block is exact. Freeing an address in use, whose block nobody holds, succeeds and adds that
  address, and no other, to the free set; counters and bitmaps agree again, the inode is
  credited, and no other data block is written.
\<close>

theorem free_block_exact:
  assumes "volume_on fs ir li i s" and "a \<in> volume_addrs (fs_sb fs)" and "a \<notin> free_set (fs_sb fs) s"
    and "data_block (fs_sb fs) a s" and "a < st_cnt s" and "st_refs s a = 0" and "2 \<le> st_room s"
  shows "\<exists>fs' i' s'. ext4_balloc_free_block file_dev_iface a (fs, ir) = (Inr (), fs', ir\<lparr> ir_dirty := True \<rparr>) \<and>
    volume_on fs' (ir\<lparr> ir_dirty := True \<rparr>) li i' s' \<and> data_kept (fs_sb fs) li {a} s s' \<and>
    free_set (fs_sb fs') s' = insert a (free_set (fs_sb fs) s) \<and>
    i' = inode_add_blocks (fs_sb fs) (- ucast (balloc_units (fs_sb fs))) i"
  by (rule file_dev.store.free_volume [OF assms])

text \<open>
  C12: claiming a given block is exact. \<open>ext4_balloc_try_alloc_block\<close> never fails on such a volume, tells
  whether the address was free, takes it if it was, and changes nothing if it was not.
\<close>

theorem try_alloc_block_exact:
  assumes "volume_on fs ir li i s" and "a \<in> volume_addrs (fs_sb fs)" and "2 \<le> st_room s"
  shows "\<exists>fs' ir' i' s'. ext4_balloc_try_alloc_block file_dev_iface a (fs, ir) = (Inr (a \<in> free_set (fs_sb fs) s), fs', ir') \<and>
    volume_on fs' ir' li i' s' \<and> data_kept (fs_sb fs) li {} s s' \<and>
    free_set (fs_sb fs') s' = free_set (fs_sb fs) s - {a} \<and>
    (a \<notin> free_set (fs_sb fs) s \<longrightarrow> fs_sb fs' = fs_sb fs \<and> st_view s' = st_view s \<and> ir' = ir \<and> i' = i)"
  by (rule file_dev.store.try_alloc_volume [OF assms])


text \<open>
  Inside the group of its goal the allocator takes the first free block from the goal on: the early
  answer of \<open>ext4_bmap_bit_find_clr\<close> for an unaligned start never shows, because the stretch up to the
  next multiple of 64 was searched bit by bit before.
\<close>

theorem goal_search_first_free:
  assumes "idx < n" and "unat n \<le> 8 * length d" and "8 * length d \<le> 2 ^ 31"
  shows "balloc_goal_search d idx n = Inr (map_option of_nat (first_clr d (unat idx) (unat n)))"
  by (rule balloc_goal_search_first [OF assms])

section \<open>Witnesses\<close>

definition vol_fs :: "hostfile ext4_blockdev \<Rightarrow> hostfile ext4_fs" where
  "vol_fs bd = \<lparr> fs_read_only = False, fs_bdev = bd, fs_sb = vol_sb, fs_inode_block_limits = [0, 0, 0, 0],
     fs_inode_blocks_per_level = [0, 0, 0, 0], fs_last_inode_bg_id = 0 \<rparr>"

definition vol_ref :: ext4_inode_ref where
  "vol_ref = \<lparr> ir_block = blk 5, ir_off = 0, ir_index = 11, ir_dirty = False \<rparr>"

lemma vol_start: "\<exists>bd i. volume_on (vol_fs bd) vol_ref 5 i (st_get 5 vol_store)"
proof -
  have "5 < st_cnt vol_store" "st_room vol_store \<noteq> 0" by (simp_all add: vol_store_def small_store_def word_less_nat_alt)
  from file_dev.store.store_get [OF vol_store_abs this] obtain bd where
    bd: "store_abs hf_content bd (st_get 5 vol_store)" by blast
  have g: "balloc_group_ok sb g bg (st_get 5 s) = balloc_group_ok sb g bg s" for sb g bg s
    by (simp add: balloc_group_ok_def group_ready_def store_simps)
  have "group_counted sb h (st_get 5 s) = group_counted sb h s" "free_of sb h (st_get 5 s) = free_of sb h s" for sb h s
    by (simp_all add: group_counted_def free_of_def g block_bitmap_def store_simps)
  moreover have "balloc_ready sb (st_get 5 s) = balloc_ready sb s" "layout_apart sb 5 (st_get 5 s) = layout_apart sb 5 s" for sb s
    unfolding balloc_ready_def layout_apart_def g st_simps by (rule refl)+
  ultimately have ok: "volume_ok vol_sb 5 (st_get 5 vol_store)" using vol_ok by (simp add: volume_ok_def)
  have "length (st_view vol_store 5) = 1024"
  proof -
    have "5 < st_cnt vol_store" by (simp add: vol_store_def small_store_def word_less_nat_alt)
    from file_dev.store.store_length [OF vol_store_abs this] show ?thesis by (simp add: vol_store_def small_store_def)
  qed
  then obtain i where "inode_at vol_sb (st_view vol_store 5) 0 = Inr i"
    by (simp add: inode_at_def rd_range_def inode_width_def vol_geometry)
  then have "inode_held vol_sb vol_ref 5 i (st_get 5 vol_store)" by (simp add: inode_held_def vol_ref_def store_simps)
  with bd ok show ?thesis
    by (intro exI [of _ bd] exI [of _ i]) (simp add: volume_in_def vol_fs_def vol_geometry)
qed

lemma vol_started: "free_set vol_sb (st_get 5 vol_store) = {6}"
proof -
  have "bit_free sb (st_get 5 s) g n = bit_free sb s g n" for sb s g n
    by (simp add: bit_free_def block_bitmap_def store_simps)
  then have "free_set vol_sb (st_get 5 vol_store) = free_set vol_sb vol_store" by (simp add: free_set_def)
  then show ?thesis by (simp add: vol_free_set)
qed

lemma vol_addr: "6 \<in> volume_addrs vol_sb"
  using free_set_sub [of vol_sb vol_store] vol_free_set by blast

theorem alloc_block_exact_witness:
  "\<exists>bd r fs' ir' s'. ext4_balloc_alloc_block file_dev_iface 6 (vol_fs bd, vol_ref) = (r, fs', ir') \<and> r = Inr 6 \<and>
     free_set (fs_sb fs') s' = {}"
proof -
  obtain bd i where v: "volume_on (vol_fs bd) vol_ref 5 i (st_get 5 vol_store)" using vol_start by blast
  have sb: "fs_sb (vol_fs bd) = vol_sb" by (simp add: vol_fs_def)
  have room: "2 + 2 * unat (ext4_block_group_cnt vol_sb) \<le> st_room (st_get 5 vol_store)"
    by (simp add: vol_geometry vol_store_def small_store_def store_simps)
  from alloc_block_exact [OF v, unfolded sb, OF vol_addr room] obtain r fs' ir' i' s' where
    r: "ext4_balloc_alloc_block file_dev_iface 6 (vol_fs bd, vol_ref) = (r, fs', ir')"
    "case r of Inr a \<Rightarrow> a \<in> free_set vol_sb (st_get 5 vol_store) \<and>
        free_set (fs_sb fs') s' = free_set vol_sb (st_get 5 vol_store) - {a} \<and>
         ir' = vol_ref\<lparr> ir_dirty := True \<rparr> \<and> i' = inode_add_blocks vol_sb (ucast (balloc_units vol_sb)) i
     | Inl e \<Rightarrow> e = ENOSPC \<and> free_set vol_sb (st_get 5 vol_store) = {} \<and> fs_sb fs' = vol_sb \<and>
        st_view s' = st_view (st_get 5 vol_store) \<and> ir' = vol_ref \<and> i' = i" by blast
  from r(2) have "r = Inr 6 \<and> free_set (fs_sb fs') s' = {}" unfolding vol_started by (cases r) auto
  with r(1) show ?thesis by blast
qed

theorem free_block_exact_witness:
  "\<exists>bd fs' s'. ext4_balloc_free_block file_dev_iface 7 (vol_fs bd, vol_ref) = (Inr (), fs', vol_ref\<lparr> ir_dirty := True \<rparr>) \<and>
     free_set (fs_sb fs') s' = {6, 7}"
proof -
  obtain bd i where v: "volume_on (vol_fs bd) vol_ref 5 i (st_get 5 vol_store)" using vol_start by blast
  have sb: "fs_sb (vol_fs bd) = vol_sb" by (simp add: vol_fs_def)
  have "7 \<notin> free_set vol_sb (st_get 5 vol_store)" by (simp add: vol_started)
  moreover have "data_block vol_sb 7 (st_get 5 vol_store)"
    by (auto simp: data_block_def vol_group_only vol_group vol_geometry vol_fields store_simps)
  moreover have "7 < st_cnt (st_get 5 vol_store)" "st_refs (st_get 5 vol_store) 7 = 0" "2 \<le> st_room (st_get 5 vol_store)"
    by (simp_all add: vol_store_def small_store_def store_simps word_less_nat_alt)
  ultimately show ?thesis
    using free_block_exact [OF v, unfolded sb, OF vol_used] unfolding vol_started by blast
qed

theorem try_alloc_block_exact_witness:
  "\<exists>bd fs' ir'. ext4_balloc_try_alloc_block file_dev_iface 7 (vol_fs bd, vol_ref) = (Inr False, fs', ir')"
proof -
  obtain bd i where v: "volume_on (vol_fs bd) vol_ref 5 i (st_get 5 vol_store)" using vol_start by blast
  have sb: "fs_sb (vol_fs bd) = vol_sb" by (simp add: vol_fs_def)
  have "2 \<le> st_room (st_get 5 vol_store)" by (simp add: vol_store_def small_store_def store_simps)
  from try_alloc_block_exact [OF v, unfolded sb, OF vol_used this] show ?thesis unfolding vol_started by simp blast
qed


theorem goal_search_first_free_witness: "balloc_goal_search [0xFF, 0xFB] 3 16 = Inr (Some 10)"
proof -
  have n: "(3 :: u32) < 16" by (simp add: word_less_nat_alt)
  have "first_clr [0xFF, 0xFB] 3 16 = Some 10" by code_simp
  with goal_search_first_free [of 3 16 "[0xFF, 0xFB]", OF n] show ?thesis by simp
qed

end
