(* ===== verification/IallocFile.thy ===== *)
theory IallocFile
  imports IallocSpec VolumeFile
begin

text \<open>
  The inode allocator on the image file of the Linux driver: its properties, and a volume of eight blocks with
  sixteen inodes of which number 13 is free.
\<close>

section \<open>The properties\<close>

abbreviation inodes_on :: "hostfile ext4_fs \<Rightarrow> store \<Rightarrow> bool" where
  "inodes_on \<equiv> inodes_in (store_abs hf_content)"

text \<open>
  C8: allocating an inode is exact. On a volume whose inode counters agree with its bitmaps, wherever the search
  starts, \<open>ext4_ialloc_alloc_inode\<close> takes one number out of the set of free inodes, or returns \<open>ENOSPC\<close>, which
  happens only when that set is empty. The counters agree again afterwards, only descriptors and inode bitmaps
  are written, and the search ends: two more turns than there are groups are enough.
\<close>

theorem alloc_inode_exact:
  assumes "inodes_on fs s" and "fs_last_inode_bg_id fs \<le> ext4_block_group_cnt (fs_sb fs)"
    and "unat (ext4_block_group_cnt (fs_sb fs)) + 2 \<le> fuel" and "unat (ext4_block_group_cnt (fs_sb fs)) + 1 \<le> st_room s"
  shows "\<exists>r fs' s'. ext4_ialloc_alloc_inode fuel file_dev_iface is_dir fs = (r, fs') \<and> inodes_on fs' s' \<and>
    others_kept (fs_sb fs) s s' \<and>
    (case r of
       Inr n \<Rightarrow> n \<in> free_inodes (fs_sb fs) s \<and> free_inodes (fs_sb fs') s' = free_inodes (fs_sb fs) s - {n}
     | Inl e \<Rightarrow> e = ENOSPC \<and> free_inodes (fs_sb fs) s = {} \<and> fs_sb fs' = fs_sb fs \<and> st_view s' = st_view s)"
  by (rule file_dev.store.alloc_inode_ok [OF assms])

text \<open>
  C9: freeing an inode is exact. On such a volume \<open>ext4_ialloc_free_inode\<close> of a number in use succeeds and adds that number,
  and no other, to the set of free inodes; counters and bitmaps agree again and nothing else is written.
\<close>

theorem free_inode_exact:
  assumes "inodes_on fs s" and "n \<in> inode_numbers (fs_sb fs)" and "n \<notin> free_inodes (fs_sb fs) s" and "2 \<le> st_room s"
  shows "\<exists>fs' s'. ext4_ialloc_free_inode file_dev_iface n is_dir fs = (Inr (), fs') \<and> inodes_on fs' s' \<and>
    others_kept (fs_sb fs) s s' \<and> free_inodes (fs_sb fs') s' = insert n (free_inodes (fs_sb fs) s)"
  by (rule file_dev.store.free_inode_ok [OF assms])

text \<open>
  C33: a wrong counter holds the search up. When the group the search starts in promises a free inode its bitmap does
  not have, \<open>ext4_ialloc_alloc_inode\<close> tries that group again and again and comes to no answer, for as many turns as
  the 32-bit counter of uses of the cache leaves room for at two blocks a turn; \<open>EHANG\<close> is the answer of the model when the
  turns it was given are used up.
\<close>

theorem alloc_inode_spins:
  assumes "store_abs hf_content (fs_bdev fs) s" and "g = fs_last_inode_bg_id fs" and "g < ext4_block_group_cnt (fs_sb fs)"
    and "ialloc_group_ok (fs_sb fs) g bg s" and "ext4_bg_get_free_inodes_count bg (fs_sb fs) \<noteq> 0"
    and "unat (ext4_inodes_in_group_cnt (fs_sb fs) g) \<le> 8 * st_bsize s" and "8 * st_bsize s < 2 ^ 32"
    and "\<forall>i < unat (ext4_inodes_in_group_cnt (fs_sb fs) g). bmap_bit (inode_bitmap (fs_sb fs) bg s) i"
    and "2 * fuel \<le> st_room s"
  shows "\<exists>fs'. ext4_ialloc_alloc_inode fuel file_dev_iface is_dir fs = (Inl EHANG, fs')"
  by (rule file_dev.store.alloc_inode_spin [OF assms])

section \<open>Witnesses\<close>

definition ino_sb :: ext4_sblock where
  "ino_sb = vol_sb\<lparr> sb_inodes_count := 16, sb_inodes_per_group := 16, sb_free_inodes_count := 1 \<rparr>"

definition ino_bg :: ext4_bgroup where
  "ino_bg = vol_bg\<lparr> bg_inode_bitmap_lo := 4, bg_inode_bitmap_hi := 0, bg_free_inodes_count_lo := 1, bg_free_inodes_count_hi := 0 \<rparr>"

definition ino_desc :: "u8 list" where "ino_desc = take 32 (bg_bytes ino_bg) @ replicate 992 0"

definition ino_image :: "u8 \<Rightarrow> u8 list" where
  "ino_image b = replicate 2048 0 @ ino_desc @ vol_bitmap @ (0xFF # b # replicate 1022 0) @ replicate 3072 0"

definition ino_store :: "u8 \<Rightarrow> store" where "ino_store b = small_store (ino_image b)"

definition ino_fs :: "u8 \<Rightarrow> hostfile ext4_fs" where
  "ino_fs b = (vol_fs (small_dev (ino_image b)))\<lparr> fs_sb := ino_sb \<rparr>"

lemma ino_lengths [simp]: "length ino_desc = 1024" "length (ino_image b) = 8192"
  by (simp_all add: ino_desc_def ino_image_def)

lemma ino_store_abs: "store_abs hf_content (fs_bdev (ino_fs b)) (ino_store b)"
  using small_store_abs [of "ino_image b"] by (simp add: ino_store_def ino_fs_def vol_fs_def)

lemma ino_view: "st_view (ino_store b) 2 = ino_desc" "st_view (ino_store b) 4 = 0xFF # b # replicate 1022 0"
  by (simp_all add: ino_store_def small_store_def slice_def ino_image_def)

lemma ino_geometry:
  "ext4_block_group_cnt ino_sb = 1" "ext4_inodes_in_group_cnt ino_sb 0 = 16" "sb_inodes_per_group ino_sb = 16"
  "desc_block ino_sb 0 = 2" "desc_off ino_sb 0 = 0" "bg_width ino_sb = 32" "ext4_sb_get_desc_size ino_sb = 32"
  "sb_free_inodes_count ino_sb = 1"
proof -
  let ?s = "vol_sb\<lparr> sb_inodes_count := 16, sb_inodes_per_group := 16 \<rparr>"
  have e: "ino_sb = ?s\<lparr> sb_free_inodes_count := 1 \<rparr>" by (simp add: ino_sb_def)
  have b: "ext4_sb_get_blocks_cnt ino_sb = 8" by (simp add: ino_sb_def vol_sb_def sb_sample_def ext4_sb_get_blocks_cnt_def)
  show c: "ext4_block_group_cnt ino_sb = 1"
    by (simp add: ext4_block_group_cnt_def b Let_def) (simp add: ino_sb_def vol_sb_def)
  show "ext4_inodes_in_group_cnt ino_sb 0 = 16" by (simp add: ext4_inodes_in_group_cnt_def c Let_def) (simp add: ino_sb_def)
  show "sb_inodes_per_group ino_sb = 16" "sb_free_inodes_count ino_sb = 1" by (simp_all add: ino_sb_def)
  show d: "ext4_sb_get_desc_size ino_sb = 32"
    by (simp add: ext4_sb_get_desc_size_def ino_sb_def vol_sb_def sb_sample_def ext4_consts)
  have z: "ext4_sb_get_block_size ino_sb = 1024" by (simp add: ext4_sb_get_block_size_def ino_sb_def vol_sb_def sb_sample_def)
  have m: "\<not> ext4_sb_feature_incom ino_sb f" for f by (simp add: ext4_sb_feature_incom_def ino_sb_def vol_sb_def sb_sample_def)
  show "desc_block ino_sb 0 = 2"
    by (simp add: desc_block_def z d ext4_fs_get_descriptor_block_def m) (simp add: ino_sb_def vol_sb_def)
  show "desc_off ino_sb 0 = 0" by (simp add: desc_off_def)
  show "bg_width ino_sb = 32" by (simp add: bg_width_def d ext4_consts)
qed

lemma ino_group: "group_at ino_sb 0 (st_view (ino_store b)) = Inr ino_bg"
proof -
  have "bg_narrow ino_sb ino_bg"
    unfolding bg_narrow_iff by (simp add: ino_bg_def vol_bg_def bg_of_bytes_def get_field_defs le_dec_zeros)
  then show ?thesis
    by (simp add: group_at_def bg_at_def ino_geometry ino_view ino_desc_def rd_range_def bg_narrow_def)
qed

lemma ino_fields:
  "ext4_bg_get_inode_bitmap ino_bg ino_sb = 4" "ext4_bg_get_free_inodes_count ino_bg ino_sb = 1" "\<not> ext4_bg_has_flag ino_bg f"
  by (simp_all add: ext4_bg_get_inode_bitmap_def ext4_bg_get_free_inodes_count_def ext4_bg_has_flag_def ino_geometry)
     (simp_all add: ino_bg_def vol_bg_def)

lemma ino_group_only: "(g < ext4_block_group_cnt ino_sb) = (g = 0)"
  by (simp add: ino_geometry word_less_nat_alt word_unat_eq_iff)

lemma ino_group_ok: "ialloc_group_ok ino_sb 0 ino_bg (ino_store b)"
  by (simp add: ialloc_group_ok_def group_ready_def ino_group ino_geometry ino_fields) (simp add: ino_store_def small_store_def)

lemma ino_bm: "inode_bitmap ino_sb ino_bg (ino_store b) = 0xFF # b # replicate 1022 0"
  by (simp add: inode_bitmap_def ino_fields ino_view)

lemma below16: "i < 16 \<Longrightarrow> i \<in> {0, 1, 2, 3, 4, 5, 6, 7, 8, 9, 10, 11, 12, 13, 14, 15}" for i :: nat
  by (simp add: numeral_eq_Suc less_Suc_eq)

lemma ino_bits: "i < 16 \<Longrightarrow> bmap_bit (0xFF # 0xEF # replicate 1022 0) i \<longleftrightarrow> i \<noteq> 12"
  "i < 16 \<Longrightarrow> bmap_bit (0xFF # 0xFF # replicate 1022 0) i"
  by (drule below16, elim insertE, simp_all add: bmap_bit_def bit_iff_odd)+

lemma ino_ok: "inodes_ok ino_sb (ino_store 0xEF)"
proof -
  have st: "st_bsize (ino_store 0xEF) = 1024" by (simp add: ino_store_def small_store_def)
  have fit: "inodes_fit ino_sb 1024" by (simp add: inodes_fit_def ino_geometry ino_group_only)
  have ap: "inodes_apart ino_sb (ino_store 0xEF)"
    by (auto simp: inodes_apart_def ino_group_only ino_group ino_geometry ino_fields)
  have "{i. i < (16 :: nat) \<and> \<not> bmap_bit (0xFF # 0xEF # replicate 1022 0) i} = {12}" by (auto simp: ino_bits(1))
  then have "free_ibits ino_sb 0 (inode_bitmap ino_sb ino_bg (ino_store 0xEF)) = 1" by (simp add: free_ibits_def ino_geometry ino_bm)
  then have "igroup_counted ino_sb 0 (ino_store 0xEF)" using ino_group_ok
    by (auto simp: igroup_counted_def ino_fields intro!: exI [of _ ino_bg])
  moreover have "ifree_of ino_sb 0 (ino_store 0xEF) = 1" by (simp add: ifree_of_def ino_group ino_fields)
  moreover have "{g. g < ext4_block_group_cnt ino_sb} = {0}" by (simp add: ino_group_only)
  ultimately show ?thesis using fit ap by (simp add: inodes_ok_def st ino_geometry ino_group_only)
qed

lemma ino_start: "inodes_on (ino_fs 0xEF) (ino_store 0xEF)"
  using ino_store_abs ino_ok by (simp add: inodes_in_def ino_fs_def)

lemma ino_number: "ext4_ialloc_bgidx_to_inode ino_sb n 0 = n + 1" by (simp add: ext4_ialloc_bgidx_to_inode_def)

lemma ino_free: "free_inodes ino_sb (ino_store 0xEF) = {13}"
proof -
  have "inode_free ino_sb (ino_store 0xEF) 0 n \<longleftrightarrow> n = 12" for n
    using ino_bits(1) [of "unat n"] by (auto simp: inode_free_def ino_geometry ino_group ino_bm word_less_nat_alt word_unat_eq_iff)
  then show ?thesis by (auto simp: free_inodes_def ino_group_only ino_number)
qed

theorem alloc_inode_exact_witness:
  "\<exists>fs' s'. ext4_ialloc_alloc_inode 3 file_dev_iface True (ino_fs 0xEF) = (Inr 13, fs') \<and> free_inodes (fs_sb fs') s' = {}"
proof -
  have f: "fs_sb (ino_fs 0xEF) = ino_sb" "fs_last_inode_bg_id (ino_fs 0xEF) = 0" by (simp_all add: ino_fs_def vol_fs_def)
  have "st_room (ino_store 0xEF) = 100" by (simp add: ino_store_def small_store_def)
  then obtain r fs' s' where
    r: "ext4_ialloc_alloc_inode 3 file_dev_iface True (ino_fs 0xEF) = (r, fs')"
    "case r of
       Inr n \<Rightarrow> n \<in> {13 :: u32} \<and> free_inodes (fs_sb fs') s' = {13} - {n}
     | Inl e \<Rightarrow> e = ENOSPC \<and> {13 :: u32} = {} \<and> fs_sb fs' = ino_sb \<and> st_view s' = st_view (ino_store 0xEF)"
    using alloc_inode_exact [OF ino_start, unfolded f ino_free ino_geometry, of 3 True] by auto
  then have "r = Inr 13 \<and> free_inodes (fs_sb fs') s' = {}" by (cases r) auto
  with r(1) show ?thesis by blast
qed

theorem free_inode_exact_witness:
  "\<exists>fs' s'. ext4_ialloc_free_inode file_dev_iface 12 True (ino_fs 0xEF) = (Inr (), fs') \<and> free_inodes (fs_sb fs') s' = {12, 13}"
proof -
  have f: "fs_sb (ino_fs 0xEF) = ino_sb" by (simp add: ino_fs_def)
  have "st_room (ino_store 0xEF) = 100" by (simp add: ino_store_def small_store_def)
  moreover have "(11 :: u32) < 16" by (simp add: word_less_nat_alt)
  then have "12 \<in> inode_numbers ino_sb"
    by (auto simp: inode_numbers_def ino_group_only ino_number ino_geometry intro!: exI [of _ 11])
  ultimately show ?thesis
    using free_inode_exact [OF ino_start, unfolded f ino_free, of 12 True] by auto
qed

theorem alloc_inode_spins_witness:
  "\<exists>fs'. ext4_ialloc_alloc_inode 50 file_dev_iface False (ino_fs 0xFF) = (Inl EHANG, fs')"
proof -
  have f: "fs_sb (ino_fs 0xFF) = ino_sb" "fs_last_inode_bg_id (ino_fs 0xFF) = 0" by (simp_all add: ino_fs_def vol_fs_def)
  have st: "st_bsize (ino_store 0xFF) = 1024" "st_room (ino_store 0xFF) = 100" by (simp_all add: ino_store_def small_store_def)
  show ?thesis
    by (rule alloc_inode_spins [OF ino_store_abs, where g = 0 and bg = ino_bg])
       (use ino_group_ok ino_bits(2) in \<open>simp_all add: f ino_geometry ino_fields ino_bm st\<close>)
qed

end
