(* ===== verification/DirBlock.thy ===== *)
theory DirBlock
  imports Checksum Inode
begin

text \<open>
  The records of one directory block: the accessors of \<^verbatim>\<open>include/ext4_dir.h\<close> and the operations of
  \<^verbatim>\<open>src/ext4_dir.c\<close> that work inside a block. A block is its bytes, a pointer to a record the
  offset of the record in the block. A read or write through such a pointer outside the block is \<open>UNDEF\<close>.
\<close>

section \<open>Record fields\<close>

definition EXT4_DE_UNKNOWN :: u8 where "EXT4_DE_UNKNOWN = 0"
definition EXT4_DE_REG_FILE :: u8 where "EXT4_DE_REG_FILE = 1"
definition EXT4_DE_DIR :: u8 where "EXT4_DE_DIR = 2"
definition EXT4_DE_CHRDEV :: u8 where "EXT4_DE_CHRDEV = 3"
definition EXT4_DE_BLKDEV :: u8 where "EXT4_DE_BLKDEV = 4"
definition EXT4_DE_FIFO :: u8 where "EXT4_DE_FIFO = 5"
definition EXT4_DE_SOCK :: u8 where "EXT4_DE_SOCK = 6"
definition EXT4_DE_SYMLINK :: u8 where "EXT4_DE_SYMLINK = 7"
definition EXT4_DIRENTRY_DIR_CSUM :: u8 where "EXT4_DIRENTRY_DIR_CSUM = 0xDE"

lemmas dir_consts [ext4_consts] =
  EXT4_DE_UNKNOWN_def EXT4_DE_REG_FILE_def EXT4_DE_DIR_def EXT4_DE_CHRDEV_def EXT4_DE_BLKDEV_def EXT4_DE_FIFO_def
  EXT4_DE_SOCK_def EXT4_DE_SYMLINK_def EXT4_DIRENTRY_DIR_CSUM_def

text \<open>Volumes before revision 0.5 keep a longer name length where later ones keep the type.\<close>

definition dir_old_rev :: "ext4_sblock \<Rightarrow> bool" where
  "dir_old_rev sb \<longleftrightarrow> sb_rev_level sb = 0 \<and> sb_minor_rev_level sb < 5"

definition ext4_dir_en_get_inode :: "u8 list \<Rightarrow> nat \<Rightarrow> u32 res" where
  "ext4_dir_en_get_inode d p = rbind (rd_range d p 4) (\<lambda>bs. Inr (le_dec bs))"

definition ext4_dir_en_set_inode :: "u8 list \<Rightarrow> nat \<Rightarrow> u32 \<Rightarrow> u8 list res" where
  "ext4_dir_en_set_inode d p inode = wr_range d p (enc32 inode)"

definition ext4_dir_en_get_entry_len :: "u8 list \<Rightarrow> nat \<Rightarrow> u16 res" where
  "ext4_dir_en_get_entry_len d p = rbind (rd_range d (p + 4) 2) (\<lambda>bs. Inr (le_dec bs))"

definition ext4_dir_en_set_entry_len :: "u8 list \<Rightarrow> nat \<Rightarrow> u16 \<Rightarrow> u8 list res" where
  "ext4_dir_en_set_entry_len d p l = wr_range d (p + 4) (enc16 l)"

definition ext4_dir_en_get_name_len :: "ext4_sblock \<Rightarrow> u8 list \<Rightarrow> nat \<Rightarrow> u16 res" where
  "ext4_dir_en_get_name_len sb d p =
     rbind (rd8 d (p + 6)) (\<lambda>v.
     if dir_old_rev sb then rbind (rd8 d (p + 7)) (\<lambda>h. Inr (ucast v OR push_bit 8 (ucast h)))
     else Inr (ucast v))"

definition ext4_dir_en_set_name_len :: "ext4_sblock \<Rightarrow> u8 list \<Rightarrow> nat \<Rightarrow> u16 \<Rightarrow> u8 list res" where
  "ext4_dir_en_set_name_len sb d p len =
     rbind (wr8 d (p + 6) (ucast len)) (\<lambda>d.
     if dir_old_rev sb then wr8 d (p + 7) (ucast (drop_bit 8 len)) else Inr d)"

definition ext4_dir_en_get_inode_type :: "ext4_sblock \<Rightarrow> u8 list \<Rightarrow> nat \<Rightarrow> u8 res" where
  "ext4_dir_en_get_inode_type sb d p =
     (if \<not> dir_old_rev sb then rd8 d (p + 7) else Inr EXT4_DE_UNKNOWN)"

definition ext4_dir_en_set_inode_type :: "ext4_sblock \<Rightarrow> u8 list \<Rightarrow> nat \<Rightarrow> u8 \<Rightarrow> u8 list res" where
  "ext4_dir_en_set_inode_type sb d p t =
     (if \<not> dir_old_rev sb then wr8 d (p + 7) t else Inr d)"

section \<open>The checksum of a block\<close>

definition EXT4_DIRENT_TAIL_SIZE :: nat where "EXT4_DIRENT_TAIL_SIZE = 12"

text \<open>The place of the checksum record, when the block ends in one.\<close>

definition ext4_dir_get_tail :: "ext4_sblock \<Rightarrow> u8 list \<Rightarrow> nat option res" where
  "ext4_dir_get_tail sb d =
     (let t = unat (ext4_sb_get_block_size sb) - EXT4_DIRENT_TAIL_SIZE
      in rbind (ext4_dir_en_get_inode d t) (\<lambda>z1.
         rbind (ext4_dir_en_get_entry_len d t) (\<lambda>l.
         rbind (rd8 d (t + 6)) (\<lambda>z2.
         rbind (rd8 d (t + 7)) (\<lambda>ft.
         Inr (if z1 \<noteq> 0 \<or> z2 \<noteq> 0 \<or> l \<noteq> 12 \<or> ft \<noteq> EXT4_DIRENTRY_DIR_CSUM then None else Some t))))))"

definition ext4_dir_csum :: "ext4_sblock \<Rightarrow> u32 \<Rightarrow> ext4_inode \<Rightarrow> u8 list \<Rightarrow> u32" where
  "ext4_dir_csum sb index inode dirent =
     ext4_crc32c (ext4_crc32c (ext4_crc32c (ext4_crc32c EXT4_CRC32_INIT (sb_uuid sb)) (enc32 index))
       (enc32 (ext4_inode_get_generation inode))) dirent"

definition ext4_dir_csum_verify :: "ext4_sblock \<Rightarrow> u32 \<Rightarrow> ext4_inode \<Rightarrow> u8 list \<Rightarrow> bool res" where
  "ext4_dir_csum_verify sb index inode d =
     (if ext4_sb_feature_ro_com sb EXT4_FRO_COM_METADATA_CSUM then
        rbind (ext4_dir_get_tail sb d) (\<lambda>t. case t of
          None \<Rightarrow> Inr False
        | Some t \<Rightarrow> rbind (rd_range d (t + 8) 4) (\<lambda>c. Inr (le_dec c = ext4_dir_csum sb index inode (take t d))))
      else Inr True)"

definition ext4_dir_init_entry_tail :: "u8 list" where
  "ext4_dir_init_entry_tail = enc32 0 @ enc16 12 @ [0, EXT4_DIRENTRY_DIR_CSUM] @ enc32 0"

definition ext4_dir_set_csum :: "ext4_sblock \<Rightarrow> u32 \<Rightarrow> ext4_inode \<Rightarrow> u8 list \<Rightarrow> u8 list res" where
  "ext4_dir_set_csum sb index inode d =
     (if ext4_sb_feature_ro_com sb EXT4_FRO_COM_METADATA_CSUM then
        rbind (ext4_dir_get_tail sb d) (\<lambda>t. case t of
          None \<Rightarrow> Inr d
        | Some t \<Rightarrow> wr_range d (t + 8) (enc32 (ext4_dir_csum sb index inode (take t d))))
      else Inr d)"

section \<open>Writing a record\<close>

definition dir_entry_type :: "u32 \<Rightarrow> u8" where
  "dir_entry_type t =
     (if t = EXT4_INODE_MODE_DIRECTORY then EXT4_DE_DIR
      else if t = EXT4_INODE_MODE_FILE then EXT4_DE_REG_FILE
      else if t = EXT4_INODE_MODE_SOFTLINK then EXT4_DE_SYMLINK
      else if t = EXT4_INODE_MODE_CHARDEV then EXT4_DE_CHRDEV
      else if t = EXT4_INODE_MODE_BLOCKDEV then EXT4_DE_BLKDEV
      else if t = EXT4_INODE_MODE_FIFO then EXT4_DE_FIFO
      else if t = EXT4_INODE_MODE_SOCKET then EXT4_DE_SOCK
      else EXT4_DE_UNKNOWN)"

text \<open>The child is given by its number and the type bits of its mode.\<close>

definition ext4_dir_write_entry ::
    "ext4_sblock \<Rightarrow> u8 list \<Rightarrow> nat \<Rightarrow> u16 \<Rightarrow> u32 \<Rightarrow> u32 \<Rightarrow> u8 list \<Rightarrow> u8 list res" where
  "ext4_dir_write_entry sb d p entry_len child ctype name =
     (if \<not> ucast entry_len \<le> ext4_sb_get_block_size sb then Inl EASSERT
      else
        rbind (ext4_dir_en_set_inode_type sb d p (dir_entry_type ctype)) (\<lambda>d.
        rbind (ext4_dir_en_set_inode d p child) (\<lambda>d.
        rbind (ext4_dir_en_set_entry_len d p entry_len) (\<lambda>d.
        rbind (ext4_dir_en_set_name_len sb d p (of_nat (length name))) (\<lambda>d.
        wr_range d (p + 8) name)))))"

section \<open>Search, insertion and removal in a block\<close>

text \<open>\<open>lim\<close> is the size of the block.\<close>

definition dir_name_is :: "ext4_sblock \<Rightarrow> u8 list \<Rightarrow> u8 list \<Rightarrow> nat \<Rightarrow> bool res" where
  "dir_name_is sb d name p =
     rbind (ext4_dir_en_get_inode d p) (\<lambda>inode.
     if inode = 0 then Inr False
     else rbind (ext4_dir_en_get_name_len sb d p) (\<lambda>el.
          if unat el = length name then rbind (rd_range d (p + 8) (length name)) (\<lambda>bs. Inr (bs = name))
          else Inr False))"

function dir_find_loop :: "ext4_sblock \<Rightarrow> u8 list \<Rightarrow> u8 list \<Rightarrow> nat \<Rightarrow> nat \<Rightarrow> nat res" where
  "dir_find_loop sb d name lim p =
     (if \<not> p < lim \<or> p + length name > lim then Inl ENOENT
      else case dir_name_is sb d name p of
             Inl e \<Rightarrow> Inl e
           | Inr hit \<Rightarrow>
               if hit then Inr p
               else (case ext4_dir_en_get_entry_len d p of
                       Inl e \<Rightarrow> Inl e
                     | Inr l \<Rightarrow> if l = 0 then Inl EINVAL else dir_find_loop sb d name lim (p + unat l)))"
  by pat_completeness auto
termination by (relation "measure (\<lambda>(sb, d, name, lim, p). lim - p)") (auto simp: word_unat_eq_iff)

declare dir_find_loop.simps [simp del]

definition ext4_dir_find_in_block :: "u8 list \<Rightarrow> ext4_sblock \<Rightarrow> u8 list \<Rightarrow> nat res" where
  "ext4_dir_find_in_block d sb name = dir_find_loop sb d name (unat (ext4_sb_get_block_size sb)) 0"

text \<open>The length a record with a name of \<open>len\<close> bytes needs, in 16 bits.\<close>

definition dir_required_len :: "u32 \<Rightarrow> u16" where
  "dir_required_len len =
     (let l = ucast (8 + len) in if l mod 4 \<noteq> 0 then l + (4 - l mod 4) else l)"

definition dir_used_len :: "u16 \<Rightarrow> u16" where
  "dir_used_len used = (let sz = 8 + used in if used mod 4 \<noteq> 0 then sz + (4 - used mod 4) else sz)"

text \<open>
  The walk of an insertion. It stops at an unused record that is large enough, or splits a used one
  with room behind its name; a record of length 0 keeps the walk where it is for ever.
\<close>

function dir_insert_loop ::
    "ext4_sblock \<Rightarrow> u8 list \<Rightarrow> u32 \<Rightarrow> u32 \<Rightarrow> u8 list \<Rightarrow> nat \<Rightarrow> nat \<Rightarrow> u8 list res" where
  "dir_insert_loop sb d child ctype name lim p =
     (if \<not> p < lim then Inl ENOSPC
      else case ext4_dir_en_get_inode d p of Inl e \<Rightarrow> Inl e | Inr inode \<Rightarrow>
        case ext4_dir_en_get_entry_len d p of Inl e \<Rightarrow> Inl e | Inr rec_len \<Rightarrow>
        case ext4_dir_en_get_inode_type sb d p of Inl e \<Rightarrow> Inl e | Inr itype \<Rightarrow>
        let required_len = dir_required_len (of_nat (length name))
        in if inode = 0 \<and> itype \<noteq> EXT4_DIRENTRY_DIR_CSUM \<and> rec_len \<ge> required_len then
             ext4_dir_write_entry sb d p rec_len child ctype name
           else case (if inode \<noteq> 0 then rbind (ext4_dir_en_get_name_len sb d p) (\<lambda>l. Inr (Some l)) else Inr None) of
                  Inl e \<Rightarrow> Inl e
                | Inr used \<Rightarrow>
                    (case used of
                       Some used_len \<Rightarrow>
                         let sz = dir_used_len used_len; free_space = rec_len - sz
                         in if free_space \<ge> required_len then
                              rbind (ext4_dir_en_set_entry_len d p sz) (\<lambda>d.
                              ext4_dir_write_entry sb d (p + unat sz) free_space child ctype name)
                            else if rec_len = 0 then Inl EHANG
                            else dir_insert_loop sb d child ctype name lim (p + unat rec_len)
                     | None \<Rightarrow>
                         if rec_len = 0 then Inl EHANG
                         else dir_insert_loop sb d child ctype name lim (p + unat rec_len)))"
  by pat_completeness auto
termination by (relation "measure (\<lambda>(sb, d, child, ctype, name, lim, p). lim - p)") (auto simp: word_unat_eq_iff)

declare dir_insert_loop.simps [simp del]

definition dir_insert_in_block ::
    "ext4_sblock \<Rightarrow> u32 \<Rightarrow> ext4_inode \<Rightarrow> u8 list \<Rightarrow> u32 \<Rightarrow> u32 \<Rightarrow> u8 list \<Rightarrow> u8 list res" where
  "dir_insert_in_block sb index inode d child ctype name =
     rbind (dir_insert_loop sb d child ctype name (unat (ext4_sb_get_block_size sb)) 0) (\<lambda>d.
     ext4_dir_set_csum sb index inode d)"

text \<open>The direct predecessor of the record at \<open>pos\<close>, from the record at \<open>offset\<close> on.\<close>

function dir_pred_loop :: "u8 list \<Rightarrow> nat \<Rightarrow> nat \<Rightarrow> (nat \<times> u16) res" where
  "dir_pred_loop d pos offset =
     (case ext4_dir_en_get_entry_len d offset of
        Inl e \<Rightarrow> Inl e
      | Inr de_len \<Rightarrow>
          if offset + unat de_len < pos then
            if de_len = 0 then Inl EHANG else dir_pred_loop d pos (offset + unat de_len)
          else Inr (offset, de_len))"
  by pat_completeness auto
termination by (relation "measure (\<lambda>(d, pos, offset). pos - offset)") (auto simp: word_unat_eq_iff)

declare dir_pred_loop.simps [simp del]

definition dir_remove_in_block :: "ext4_sblock \<Rightarrow> u32 \<Rightarrow> ext4_inode \<Rightarrow> u8 list \<Rightarrow> nat \<Rightarrow> u8 list res" where
  "dir_remove_in_block sb index inode d pos =
     rbind (ext4_dir_en_set_inode d pos 0) (\<lambda>d.
     rbind (if pos = 0 then Inr d
            else rbind (dir_pred_loop d pos 0) (\<lambda>(offset, de_len).
                 if unat de_len + offset \<noteq> pos then Inl EASSERT
                 else rbind (ext4_dir_en_get_entry_len d pos) (\<lambda>del_len.
                      ext4_dir_en_set_entry_len d offset (de_len + del_len)))) (\<lambda>d.
     ext4_dir_set_csum sb index inode d))"

end
