(* ===== verification/DirSpec.thy ===== *)
theory DirSpec
  imports DirBlock FsRules
begin

text \<open>
  A directory block as the list of its records. \<open>dir_path\<close> says that the bytes from one offset to another
  are a chain of records; search, insertion and removal inside a block are then functions on that
  list, and each keeps the chain.
\<close>

section \<open>The chain of records\<close>

record dirent =
  de_ino :: u32
  de_len :: u16
  de_type :: u8
  de_name :: "u8 list"

text \<open>An unused record has no name. A used one has its name inside it.\<close>

definition dirent_at :: "ext4_sblock \<Rightarrow> u8 list \<Rightarrow> nat \<Rightarrow> dirent \<Rightarrow> bool" where
  "dirent_at sb d p e \<longleftrightarrow>
     p + unat (de_len e) \<le> length d \<and> 8 + length (de_name e) \<le> unat (de_len e) \<and> 4 dvd unat (de_len e) \<and>
     ext4_dir_en_get_inode d p = Inr (de_ino e) \<and> ext4_dir_en_get_entry_len d p = Inr (de_len e) \<and>
     ext4_dir_en_get_inode_type sb d p = Inr (de_type e) \<and>
     (if de_ino e = 0 then de_name e = []
      else ext4_dir_en_get_name_len sb d p = Inr (of_nat (length (de_name e))) \<and>
           rd_range d (p + 8) (length (de_name e)) = Inr (de_name e))"

fun dir_path :: "ext4_sblock \<Rightarrow> u8 list \<Rightarrow> nat \<Rightarrow> dirent list \<Rightarrow> nat \<Rightarrow> bool" where
  "dir_path sb d p [] q \<longleftrightarrow> p = q"
| "dir_path sb d p (e # es) q \<longleftrightarrow> dirent_at sb d p e \<and> dir_path sb d (p + unat (de_len e)) es q"

lemma dir_path_append:
  "dir_path sb d p (xs @ ys) q \<longleftrightarrow> (\<exists>m. dir_path sb d p xs m \<and> dir_path sb d m ys q)"
  by (induction xs arbitrary: p) auto

lemma dirent_len: "dirent_at sb d p e \<Longrightarrow> 8 \<le> unat (de_len e) \<and> de_len e \<noteq> 0"
  by (auto simp: dirent_at_def)

lemma dir_path_le: "dir_path sb d p es q \<Longrightarrow> p \<le> q"
  by (induction es arbitrary: p) (auto dest: add_leD1)

lemma dir_path_end: "dir_path sb d p es q \<Longrightarrow> p \<le> length d \<Longrightarrow> q \<le> length d"
  by (induction es arbitrary: p) (auto simp: dirent_at_def)

lemma dir_path_less: "dir_path sb d p (e # es) q \<Longrightarrow> p + 8 \<le> q"
  using dir_path_le [of sb d "p + unat (de_len e)" es q] dirent_len [of sb d p e] by auto

text \<open>A chain depends on its own bytes only.\<close>

definition agree :: "u8 list \<Rightarrow> u8 list \<Rightarrow> nat \<Rightarrow> nat \<Rightarrow> bool" where
  "agree d d' a b \<longleftrightarrow> length d' = length d \<and> (\<forall>i. a \<le> i \<and> i < b \<longrightarrow> d' ! i = d ! i)"

lemma agree_rd8: "agree d d' a b \<Longrightarrow> a \<le> i \<Longrightarrow> i < b \<Longrightarrow> rd8 d' i = rd8 d i"
  by (simp add: agree_def rd8_def)

lemma agree_rd_range:
  assumes "agree d d' a b" and "a \<le> p" and "p + n \<le> b"
  shows "rd_range d' p n = rd_range d p n"
proof -
  have "take n (drop p d') = take n (drop p d)" if "p + n \<le> length d"
    by (rule nth_equalityI) (use assms that in \<open>auto simp: agree_def\<close>)
  then show ?thesis using assms(1) by (simp add: agree_def rd_range_def)
qed

lemma agree_sub: "agree d d' a b \<Longrightarrow> a \<le> a' \<Longrightarrow> b' \<le> b \<Longrightarrow> agree d d' a' b'"
  by (simp add: agree_def)

lemma agree_fields:
  assumes "agree d d' p (p + 8)"
  shows "ext4_dir_en_get_inode d' p = ext4_dir_en_get_inode d p"
    "ext4_dir_en_get_entry_len d' p = ext4_dir_en_get_entry_len d p"
    "ext4_dir_en_get_inode_type sb d' p = ext4_dir_en_get_inode_type sb d p"
    "ext4_dir_en_get_name_len sb d' p = ext4_dir_en_get_name_len sb d p"
proof -
  note r = agree_rd_range [OF assms] and b = agree_rd8 [OF assms]
  show "ext4_dir_en_get_inode d' p = ext4_dir_en_get_inode d p"
    using r [of p 4] by (simp add: ext4_dir_en_get_inode_def)
  show "ext4_dir_en_get_entry_len d' p = ext4_dir_en_get_entry_len d p"
    using r [of "p + 4" 2] by (simp add: ext4_dir_en_get_entry_len_def)
  show "ext4_dir_en_get_inode_type sb d' p = ext4_dir_en_get_inode_type sb d p"
    using b [of "p + 7"] by (simp add: ext4_dir_en_get_inode_type_def)
  show "ext4_dir_en_get_name_len sb d' p = ext4_dir_en_get_name_len sb d p"
    using b [of "p + 6"] b [of "p + 7"] by (simp add: ext4_dir_en_get_name_len_def cong: if_cong)
qed

lemma agree_dirent:
  assumes "agree d d' p (p + 8 + length (de_name e))"
  shows "dirent_at sb d' p e = dirent_at sb d p e"
proof -
  have "agree d d' p (p + 8)" using assms by (rule agree_sub) simp_all
  note f = agree_fields [OF this]
  have "rd_range d' (p + 8) (length (de_name e)) = rd_range d (p + 8) (length (de_name e))"
    using assms by (rule agree_rd_range) simp_all
  moreover have "length d' = length d" using assms by (simp add: agree_def)
  ultimately show ?thesis by (simp add: dirent_at_def f)
qed

lemma agree_path:
  "agree d d' p q \<Longrightarrow> dir_path sb d p es q \<Longrightarrow> dir_path sb d' p es q"
proof (induction es arbitrary: p)
  case (Cons e es)
  then have e: "dirent_at sb d p e" and es: "dir_path sb d (p + unat (de_len e)) es q" by simp_all
  have n: "8 + length (de_name e) \<le> unat (de_len e)" using e by (simp add: dirent_at_def)
  have "p + unat (de_len e) \<le> q" by (rule dir_path_le [OF es])
  then have "agree d d' p (p + 8 + length (de_name e))" using Cons.prems(1) n by (auto intro: agree_sub)
  from agree_dirent [OF this] e have "dirent_at sb d' p e" by simp
  moreover have "dir_path sb d' (p + unat (de_len e)) es q"
    by (rule Cons.IH [OF agree_sub [OF Cons.prems(1)] es]) simp_all
  ultimately show ?case by simp
qed simp

section \<open>Search\<close>

definition de_is :: "u8 list \<Rightarrow> dirent \<Rightarrow> bool" where
  "de_is name e \<longleftrightarrow> de_ino e \<noteq> 0 \<and> de_name e = name"

fun de_find :: "u8 list \<Rightarrow> nat \<Rightarrow> dirent list \<Rightarrow> nat option" where
  "de_find name p [] = None"
| "de_find name p (e # es) = (if de_is name e then Some p else de_find name (p + unat (de_len e)) es)"

lemma de_find_None: "de_find name p es = None \<longleftrightarrow> (\<forall>e \<in> set es. \<not> de_is name e)"
  by (induction es arbitrary: p) auto

lemma of_nat_len16: "n < 2 ^ 16 \<Longrightarrow> unat (of_nat n :: u16) = n"
  by (simp add: unat_of_nat)

lemma unat_lt16: "unat (w :: u16) < 2 ^ 16"
  using unsigned_less [of w] by simp

lemma dir_name_is_eq:
  assumes "dirent_at sb d p e"
  shows "dir_name_is sb d name p = Inr (de_is name e)"
proof -
  have "length (de_name e) < 2 ^ 16"
    using assms unat_lt16 [of "de_len e"] by (simp add: dirent_at_def)
  then show ?thesis using assms
    by (auto simp: dir_name_is_def dirent_at_def de_is_def of_nat_len16)
qed

lemma dir_path_name_fits: "dir_path sb d p es q \<Longrightarrow> e \<in> set es \<Longrightarrow> de_is name e \<Longrightarrow> p + length name \<le> q"
proof (induction es arbitrary: p)
  case (Cons a es)
  show ?case
  proof (cases "e = a")
    case True
    then have "8 + length name \<le> unat (de_len a)" using Cons.prems by (simp add: dirent_at_def de_is_def)
    moreover have "p + unat (de_len a) \<le> q" using Cons.prems(1) dir_path_le by auto
    ultimately show ?thesis by simp
  next
    case False
    then have "p + unat (de_len a) + length name \<le> q" using Cons by simp
    then show ?thesis by simp
  qed
qed simp

lemma dir_find_loop_eq:
  "dir_path sb d p es lim \<Longrightarrow>
   dir_find_loop sb d name lim p = (case de_find name p es of None \<Rightarrow> Inl ENOENT | Some q \<Rightarrow> Inr q)"
proof (induction es arbitrary: p)
  case Nil
  then show ?case by (simp add: dir_find_loop.simps)
next
  case (Cons e es)
  have e: "dirent_at sb d p e" and es: "dir_path sb d (p + unat (de_len e)) es lim" using Cons.prems by simp_all
  have lt: "p < lim" using dir_path_less [OF Cons.prems] by simp
  have l: "ext4_dir_en_get_entry_len d p = Inr (de_len e)" "de_len e \<noteq> 0"
    using e dirent_len [OF e] by (auto simp: dirent_at_def)
  show ?case
  proof (cases "p + length name > lim")
    case True
    then have "de_find name p (e # es) = None"
      unfolding de_find_None using dir_path_name_fits [OF Cons.prems] by fastforce
    with True show ?thesis by (simp add: dir_find_loop.simps [of sb d name lim p])
  next
    case False
    with lt show ?thesis
      by (simp add: dir_find_loop.simps [of sb d name lim p] dir_name_is_eq [OF e] l Cons.IH [OF es])
  qed
qed

section \<open>Insertion\<close>

text \<open>The bytes a record with a name of \<open>n\<close> bytes takes: a header of 8 and the name, in multiples of 4.\<close>

definition de_size :: "nat \<Rightarrow> nat" where "de_size n = 4 * ((n + 11) div 4)"

lemma de_size_bounds: "n + 8 \<le> de_size n" "de_size n < n + 12" "4 dvd de_size n"
  by (simp_all add: de_size_def)

lemma de_size_le: "8 + n \<le> m \<Longrightarrow> 4 dvd m \<Longrightarrow> de_size n \<le> m"
  by (auto simp: de_size_def dvd_def)

lemma round4: "(if n mod 4 \<noteq> 0 then 8 + n + (4 - n mod 4) else 8 + n) = de_size n"
  unfolding de_size_def by presburger

lemma unat_add16: "unat x + unat y < 2 ^ 16 \<Longrightarrow> unat (x + y) = unat x + unat (y :: u16)"
  by (simp add: unat_word_ariths)

lemma unat_round4:
  fixes l :: u16
  assumes "8 + unat l + 4 < 2 ^ 16"
  shows "unat (if l mod 4 \<noteq> 0 then 8 + l + (4 - l mod 4) else 8 + l) = de_size (unat l)"
proof -
  have m: "unat (l mod 4) = unat l mod 4" by (simp add: unat_mod)
  have 8: "unat (8 + l) = 8 + unat l" using assms by (subst unat_add16) simp_all
  have "unat (8 + l + (4 - l mod 4)) = 8 + unat l + (4 - unat l mod 4)"
  proof -
    have "l mod 4 \<le> 4" by (simp add: word_le_nat_alt m less_imp_le)
    then have "unat (4 - l mod 4) = 4 - unat l mod 4" by (simp add: unat_sub m)
    then show ?thesis using assms by (subst unat_add16) (simp_all add: 8)
  qed
  note 12 = this
  have z: "l mod 4 = 0 \<longleftrightarrow> unat l mod 4 = 0" using m by (simp add: word_unat_eq_iff)
  show ?thesis
  proof (cases "l mod 4 = 0")
    case True
    then show ?thesis using 8 z round4 [of "unat l"] by simp
  next
    case False
    then have "unat (if l mod 4 \<noteq> 0 then 8 + l + (4 - l mod 4) else 8 + l) = 8 + unat l + (4 - unat l mod 4)"
      using 12 by (simp only: if_True simp_thms)
    also have "\<dots> = de_size (unat l)" using False z round4 [of "unat l"] by (simp only: if_True simp_thms)
    finally show ?thesis .
  qed
qed

lemma unat_used_len:
  assumes "8 + n \<le> unat len" and "4 dvd unat (len :: u16)"
  shows "unat (dir_used_len (of_nat n)) = de_size n"
proof -
  have "unat len \<le> 65532" using assms(2) unat_lt16 [of len] by (auto simp: dvd_def)
  then have "8 + n + 4 \<le> 65536" using assms(1) by simp
  have n: "unat (of_nat n :: u16) = n" using assms(1) unat_lt16 [of len] by (intro of_nat_len16) simp
  show ?thesis
  proof (cases "8 + n + 4 < 2 ^ 16")
    case True
    then show ?thesis using unat_round4 [of "of_nat n"] by (simp add: dir_used_len_def Let_def n)
  next
    case False
    then have n': "n = 65524" using \<open>8 + n + 4 \<le> 65536\<close> by simp
    show ?thesis unfolding n' by (simp add: dir_used_len_def de_size_def)
  qed
qed

lemma unat_required_len:
  assumes "n < 65000"
  shows "unat (dir_required_len (of_nat n)) = de_size n"
proof -
  let ?l = "of_nat n :: u16"
  have n: "unat ?l = n" using assms by (intro of_nat_len16) simp
  have l: "ucast (8 + of_nat n :: u32) = 8 + ?l"
    by (simp add: word_unat_eq_iff unat_of_nat unat_word_ariths unsigned_ucast_eq take_bit_eq_mod mod_mod_cancel mod_simps)
  have "(8 + ?l) mod 4 = ?l mod 4"
  proof -
    have "unat (8 + ?l) = 8 + n" using assms n by (subst unat_add16) simp_all
    then have "unat ((8 + ?l) mod 4) = unat (?l mod 4)" by (simp add: unat_mod n) presburger
    then show ?thesis by (simp add: word_unat_eq_iff)
  qed
  note m = this
  have "8 + unat ?l + 4 < 2 ^ 16" using assms n by simp
  from unat_round4 [OF this] show ?thesis unfolding dir_required_len_def Let_def l m n .
qed

text \<open>A written record.\<close>

definition dir_hdr :: "ext4_sblock \<Rightarrow> u32 \<Rightarrow> u16 \<Rightarrow> u8 \<Rightarrow> nat \<Rightarrow> u8 list" where
  "dir_hdr sb child len t n =
     enc32 child @ enc16 len @ [of_nat n, if dir_old_rev sb then of_nat (n div 256) else t]"

lemma length_dir_hdr [simp]: "length (dir_hdr sb child len t n) = 8"
  by (simp add: dir_hdr_def)

lemma length8E:
  assumes "length xs = 8"
  obtains a b c d e f g h where "xs = [a, b, c, d, e, f, g, h]"
  using assms that by (auto simp: eval_nat_numeral length_Suc_conv)

lemma write_entry_patch:
  assumes p: "p + unat len \<le> length d" and n: "8 + length name \<le> unat len" and b: "unat len \<le> unat (ext4_sb_get_block_size sb)"
    and l: "length name < 256"
  shows "ext4_dir_write_entry sb d p len child ct name =
    Inr (patch d p (dir_hdr sb child len (dir_entry_type ct) (length name) @ name))"
proof -
  let ?L = "length name"
  define A where "A = take p d"
  define H where "H = take 8 (drop p d)"
  define N where "N = take ?L (drop (p + 8) d)"
  define C where "C = drop ?L (drop (p + 8) d)"
  have la: "length A = p" "length H = 8" "length N = ?L" using p n by (simp_all add: A_def H_def N_def)
  have "N @ C = drop 8 (drop p d)" unfolding N_def C_def append_take_drop_id by (simp add: add.commute)
  then have "H @ N @ C = drop p d" unfolding H_def by (simp only: append_take_drop_id)
  then have "d = A @ H @ N @ C" by (simp add: A_def)
  moreover obtain h0 h1 h2 h3 h4 h5 h6 h7 where "H = [h0, h1, h2, h3, h4, h5, h6, h7]" by (rule length8E [OF la(2)])
  ultimately have d: "d = A @ [h0, h1, h2, h3, h4, h5, h6, h7] @ N @ C" by simp
  have "drop (8 + ?L) ([h0, h1, h2, h3, h4, h5, h6, h7] @ N @ C) = drop ?L (drop 8 ([h0, h1, h2, h3, h4, h5, h6, h7] @ N @ C))"
    by (simp only: drop_drop add.commute)
  then have dr: "drop (8 + ?L) (h0 # h1 # h2 # h3 # h4 # h5 # h6 # h7 # N @ C) = C" using la(3) by simp
  have as: "ucast len \<le> ext4_sb_get_block_size sb" using b unat_lt16 [of len] by (simp add: word_le_nat_alt unsigned_ucast_eq take_bit_eq_mod)
  have hi: "ucast (drop_bit 8 (of_nat ?L :: u16)) = (of_nat (?L div 256) :: u8)"
    using l by (simp add: word_unat_eq_iff unat_of_nat unat_drop_bit_eq drop_bit_eq_div unsigned_ucast_eq take_bit_eq_mod unat_div)
  have lo: "ucast (of_nat ?L :: u16) = (of_nat ?L :: u8)"
    by (simp add: word_unat_eq_iff unat_of_nat unsigned_ucast_eq take_bit_eq_mod mod_mod_cancel)
  show ?thesis
    unfolding ext4_dir_write_entry_def ext4_dir_en_set_inode_type_def ext4_dir_en_set_inode_def
      ext4_dir_en_set_entry_len_def ext4_dir_en_set_name_len_def d
    using as la by (simp add: wr8_def wr_range_def patch_def dir_hdr_def list_update_append hi lo dr)
qed

lemma rd_patch_part:
  assumes "p + length bs \<le> length d" and "k + n \<le> length bs"
  shows "rd_range (patch d p bs) (p + k) n = Inr (take n (drop k bs))"
  using assms by (simp add: rd_range_def patch_def)

lemma rd8_patch:
  assumes "p + length bs \<le> length d" and "k < length bs"
  shows "rd8 (patch d p bs) (p + k) = Inr (bs ! k)"
  using assms by (simp add: rd8_def patch_def nth_append)

lemma agree_patch:
  "p + length bs \<le> length d \<Longrightarrow> b \<le> p \<or> p + length bs \<le> a \<Longrightarrow> agree d (patch d p bs) a b"
  by (auto simp: agree_def patch_def nth_append)

lemma patch_dirent:
  assumes p: "p + unat len \<le> length d" and n: "8 + length name \<le> unat len" "4 dvd unat len" and l: "length name < 256"
    and c: "child \<noteq> 0"
  shows "dirent_at sb (patch d p (dir_hdr sb child len t (length name) @ name)) p
    \<lparr> de_ino = child, de_len = len, de_type = (if dir_old_rev sb then EXT4_DE_UNKNOWN else t), de_name = name \<rparr>"
proof -
  let ?bs = "dir_hdr sb child len t (length name) @ name" let ?d = "patch d p ?bs"
  have fit: "p + length ?bs \<le> length d" using p n(1) by simp
  note r = rd_patch_part [OF fit] and b = rd8_patch [OF fit]
  have i: "ext4_dir_en_get_inode ?d p = Inr child"
    using r [of 0 4] by (simp add: ext4_dir_en_get_inode_def dir_hdr_def)
  have e: "ext4_dir_en_get_entry_len ?d p = Inr len"
    using r [of 4 2] by (simp add: ext4_dir_en_get_entry_len_def dir_hdr_def)
  have b6: "rd8 ?d (p + 6) = Inr (of_nat (length name))" using b [of 6] by (simp add: dir_hdr_def nth_append)
  have b7: "rd8 ?d (p + 7) = Inr (if dir_old_rev sb then of_nat (length name div 256) else t)"
    using b [of 7] by (simp add: dir_hdr_def nth_append)
  have lo: "(ucast (of_nat (length name) :: u8) :: u16) = of_nat (length name)"
    using l by (simp add: word_unat_eq_iff unat_of_nat unsigned_ucast_eq take_bit_eq_mod)
  have nl: "ext4_dir_en_get_name_len sb ?d p = Inr (of_nat (length name))"
    using b6 b7 l by (simp add: ext4_dir_en_get_name_len_def lo)
  have nm: "rd_range ?d (p + 8) (length name) = Inr name" using r [of 8 "length name"] by simp
  have "length ?d = length d" using fit by simp
  then show ?thesis using p n c i e nl nm b7 by (simp add: dirent_at_def ext4_dir_en_get_inode_type_def)
qed

text \<open>First fit: an unused record large enough, or the tail of a used one.\<close>

definition de_room :: "nat \<Rightarrow> dirent \<Rightarrow> bool" where
  "de_room n e \<longleftrightarrow>
     (if de_ino e = 0 then de_type e \<noteq> EXT4_DIRENTRY_DIR_CSUM \<and> de_size n \<le> unat (de_len e)
      else de_size (length (de_name e)) + de_size n \<le> unat (de_len e))"

definition de_split :: "u32 \<Rightarrow> u8 \<Rightarrow> u8 list \<Rightarrow> dirent \<Rightarrow> dirent list" where
  "de_split child t name e =
     (if de_ino e = 0 then [\<lparr> de_ino = child, de_len = de_len e, de_type = t, de_name = name \<rparr>]
      else let sz = dir_used_len (of_nat (length (de_name e)))
           in [e\<lparr> de_len := sz \<rparr>, \<lparr> de_ino = child, de_len = de_len e - sz, de_type = t, de_name = name \<rparr>])"

fun de_insert :: "u32 \<Rightarrow> u8 \<Rightarrow> u8 list \<Rightarrow> dirent list \<Rightarrow> dirent list option" where
  "de_insert child t name [] = None"
| "de_insert child t name (e # es) =
     (if de_room (length name) e then Some (de_split child t name e @ es)
      else map_option (Cons e) (de_insert child t name es))"

definition de_stored_type :: "ext4_sblock \<Rightarrow> u32 \<Rightarrow> u8" where
  "de_stored_type sb ct = (if dir_old_rev sb then EXT4_DE_UNKNOWN else dir_entry_type ct)"

lemma insert_hit:
  assumes e: "dirent_at sb d p e" and n: "0 < length name" "length name < 256" and c: "child \<noteq> 0"
    and b: "length d \<le> unat (ext4_sb_get_block_size sb)" and p: "p < lim" and r: "de_room (length name) e"
  shows "\<exists>d'. dir_insert_loop sb d child ct name lim p = Inr d' \<and> length d' = length d \<and>
    agree d d' 0 p \<and> agree d d' (p + unat (de_len e)) (length d) \<and>
    dir_path sb d' p (de_split child (de_stored_type sb ct) name e) (p + unat (de_len e))"
proof -
  let ?n = "length name" and ?l = "de_len e" and ?t = "dir_entry_type ct"
  have f: "p + unat ?l \<le> length d" "8 + length (de_name e) \<le> unat ?l" "4 dvd unat ?l"
      "ext4_dir_en_get_inode d p = Inr (de_ino e)" "ext4_dir_en_get_entry_len d p = Inr ?l"
      "ext4_dir_en_get_inode_type sb d p = Inr (de_type e)"
    using e by (simp_all add: dirent_at_def)
  have req: "unat (dir_required_len (of_nat ?n)) = de_size ?n" using n by (intro unat_required_len) simp
  note sz = de_size_bounds [of ?n]
  show ?thesis
  proof (cases "de_ino e = 0")
    case True
    then have le: "de_size ?n \<le> unat ?l" "dir_required_len (of_nat ?n) \<le> ?l" "de_type e \<noteq> EXT4_DIRENTRY_DIR_CSUM"
      using r req by (simp_all add: de_room_def word_le_nat_alt)
    let ?d = "patch d p (dir_hdr sb child ?l ?t ?n @ name)"
    have fit: "p + length (dir_hdr sb child ?l ?t ?n @ name) \<le> p + unat ?l" using le(1) sz(1) by simp
    have "dir_insert_loop sb d child ct name lim p = Inr ?d"
      unfolding dir_insert_loop.simps [of sb d child ct name lim p] using p f True le
        write_entry_patch [of p ?l d name sb child ct] sz n b by simp
    moreover have "dirent_at sb ?d p \<lparr> de_ino = child, de_len = ?l, de_type = de_stored_type sb ct, de_name = name \<rparr>"
      unfolding de_stored_type_def by (rule patch_dirent) (use f le sz n c in simp_all)
    moreover have "agree d ?d 0 p" "agree d ?d (p + unat ?l) (length d)"
      using fit f(1) by (auto intro: agree_patch)
    moreover have "length ?d = length d" using fit f(1) by simp
    ultimately show ?thesis using True by (auto simp: de_split_def)
  next
    case False
    let ?m = "length (de_name e)" let ?s = "dir_used_len (of_nat ?m)"
    have us: "unat ?s = de_size ?m" by (rule unat_used_len [OF f(2,3)])
    have rm: "de_size ?m + de_size ?n \<le> unat ?l" using r False by (simp add: de_room_def)
    then have "?s \<le> ?l" by (simp add: word_le_nat_alt us)
    then have ul: "unat (?l - ?s) = unat ?l - de_size ?m" by (simp add: unat_sub us)
    have rm': "de_size ?n \<le> unat ?l - de_size ?m" using rm by simp
    have nl: "ext4_dir_en_get_name_len sb d p = Inr (of_nat ?m)"
        "rd_range d (p + 8) ?m = Inr (de_name e)" using e False by (simp_all add: dirent_at_def)
    note sm = de_size_bounds [of ?m]
    let ?d1 = "patch d (p + 4) (enc16 ?s)" let ?q = "p + unat ?s"
    let ?d = "patch ?d1 ?q (dir_hdr sb child (?l - ?s) ?t ?n @ name)"
    have l1: "length ?d1 = length d" using f(1) sm rm by simp
    have fit: "?q + length (dir_hdr sb child (?l - ?s) ?t ?n @ name) \<le> p + unat ?l" using rm sz(1) us by simp
    have "?s + (?l - ?s) = ?l" by simp
    have "dir_insert_loop sb d child ct name lim p =
        rbind (ext4_dir_en_set_entry_len d p ?s) (\<lambda>d. ext4_dir_write_entry sb d ?q (?l - ?s) child ct name)"
      unfolding dir_insert_loop.simps [of sb d child ct name lim p] using p f False nl req rm' us ul
      by (simp add: Let_def word_le_nat_alt)
    also have "ext4_dir_en_set_entry_len d p ?s = Inr ?d1"
      unfolding ext4_dir_en_set_entry_len_def using f(1) sm rm by (intro wr_range_patch) simp
    also have "rbind (Inr ?d1) (\<lambda>d. ext4_dir_write_entry sb d ?q (?l - ?s) child ct name) = Inr ?d"
      unfolding rbind_simps
      by (rule write_entry_patch) (use f(1) rm sz n b us ul l1 in simp_all)
    finally have run: "dir_insert_loop sb d child ct name lim p = Inr ?d" .
    have q4: "4 dvd unat (?l - ?s)" unfolding ul using f(3) sm(3) by (rule dvd_diff_nat)
    have new: "dirent_at sb ?d ?q \<lparr> de_ino = child, de_len = ?l - ?s, de_type = de_stored_type sb ct, de_name = name \<rparr>"
      unfolding de_stored_type_def by (rule patch_dirent) (use f(1) rm sz n c us ul l1 q4 in simp_all)
    have ag1: "agree d ?d1 0 (p + 4)" "agree d ?d1 (p + 6) (length d)"
      using f(1) sm rm by (auto intro: agree_patch)
    have ag2: "agree ?d1 ?d 0 ?q" "agree ?d1 ?d (p + unat ?l) (length d)"
      using fit f(1) l1 by (auto intro: agree_patch)
    have ag: "agree d ?d 0 p" "agree d ?d (p + unat ?l) (length d)" "length ?d = length d"
      using ag1 ag2 l1 sm us rm by (auto simp: agree_def)
    have "dirent_at sb ?d1 p (e\<lparr> de_len := ?s \<rparr>)"
    proof -
      have r4: "rd_range ?d1 (p + 4) 2 = Inr (enc16 ?s)" using f(1) sm rm by (intro rd_patch) simp_all
      have r0: "rd_range ?d1 p 4 = rd_range d p 4" using f(1) sm rm by (intro rd_patch_other) simp_all
      have r8: "rd_range ?d1 (p + 8) ?m = rd_range d (p + 8) ?m" using f(1) sm rm by (intro rd_patch_other) simp_all
      have b: "rd8 ?d1 (p + 6) = rd8 d (p + 6)" "rd8 ?d1 (p + 7) = rd8 d (p + 7)"
        using ag1(2) f(1) sm rm by (auto intro!: agree_rd8)
      have "ext4_dir_en_get_inode ?d1 p = ext4_dir_en_get_inode d p"
        "ext4_dir_en_get_entry_len ?d1 p = Inr ?s"
        "ext4_dir_en_get_inode_type sb ?d1 p = ext4_dir_en_get_inode_type sb d p"
        "ext4_dir_en_get_name_len sb ?d1 p = ext4_dir_en_get_name_len sb d p"
        by (simp_all add: ext4_dir_en_get_inode_def ext4_dir_en_get_entry_len_def ext4_dir_en_get_inode_type_def
            ext4_dir_en_get_name_len_def r0 r4 b cong: if_cong)
      then show ?thesis using f(1,4,6) False nl sm rm us r8 l1 by (simp add: dirent_at_def)
    qed
    then have "dirent_at sb ?d p (e\<lparr> de_len := ?s \<rparr>)"
      by (subst agree_dirent [OF agree_sub [OF ag2(1)]]) (use us sm in simp_all)
    with new have "dir_path sb ?d p (de_split child (de_stored_type sb ct) name e) (p + unat ?l)"
      using False us ul rm by (simp add: de_split_def Let_def)
    with run ag show ?thesis by blast
  qed
qed

lemma dir_insert_loop_eq:
  assumes "dir_path sb d p es lim" and "lim = length d" and n: "0 < length name" "length name < 256" and c: "child \<noteq> 0"
    and b: "length d \<le> unat (ext4_sb_get_block_size sb)"
  shows "case de_insert child (de_stored_type sb ct) name es of
      None \<Rightarrow> dir_insert_loop sb d child ct name lim p = Inl ENOSPC
    | Some es' \<Rightarrow> \<exists>d'. dir_insert_loop sb d child ct name lim p = Inr d' \<and> length d' = length d \<and> agree d d' 0 p \<and>
        dir_path sb d' p es' lim \<and>
        (\<forall>xs t. es = xs @ [t] \<and> \<not> de_room (length name) t \<longrightarrow> agree d d' (lim - unat (de_len t)) lim)"
  using assms(1)
proof (induction es arbitrary: p)
  case Nil
  then show ?case by (simp add: dir_insert_loop.simps)
next
  case (Cons e es)
  let ?t = "de_stored_type sb ct" and ?n = "length name"
  have e: "dirent_at sb d p e" and es: "dir_path sb d (p + unat (de_len e)) es lim" using Cons.prems by simp_all
  have lt: "p < lim" using dir_path_less [OF Cons.prems] by simp
  show ?case
  proof (cases "de_room ?n e")
    case True
    from insert_hit [OF e n c b lt True] obtain d' where
      d': "dir_insert_loop sb d child ct name lim p = Inr d'" "length d' = length d" "agree d d' 0 p"
        "agree d d' (p + unat (de_len e)) (length d)"
        "dir_path sb d' p (de_split child ?t name e) (p + unat (de_len e))" by blast
    have "dir_path sb d' (p + unat (de_len e)) es lim"
      by (rule agree_path [OF _ es]) (use d'(4) assms(2) in simp)
    with d'(5) have path: "dir_path sb d' p (de_split child ?t name e @ es) lim" by (auto simp: dir_path_append)
    have "agree d d' (lim - unat (de_len t)) lim" if t: "e # es = xs @ [t]" "\<not> de_room ?n t" for xs t
    proof -
      obtain ys where ys: "es = ys @ [t]" using t True by (cases xs) auto
      then obtain m where m: "dir_path sb d (p + unat (de_len e)) ys m" "dir_path sb d m [t] lim"
        using es by (auto simp: dir_path_append)
      then have "p + unat (de_len e) \<le> lim - unat (de_len t)" using dir_path_le [OF m(1)] by auto
      then show ?thesis using d'(4) assms(2) by (auto intro: agree_sub)
    qed
    with True d'(1,2,3) path show ?thesis by simp
  next
    case False
    have l: "ext4_dir_en_get_entry_len d p = Inr (de_len e)" "de_len e \<noteq> 0" "ext4_dir_en_get_inode d p = Inr (de_ino e)"
        "ext4_dir_en_get_inode_type sb d p = Inr (de_type e)"
        "8 + length (de_name e) \<le> unat (de_len e)" "4 dvd unat (de_len e)"
      using e dirent_len [OF e] by (auto simp: dirent_at_def)
    have req: "unat (dir_required_len (of_nat ?n)) = de_size ?n" using n by (intro unat_required_len) simp
    have step: "dir_insert_loop sb d child ct name lim p = dir_insert_loop sb d child ct name lim (p + unat (de_len e))"
    proof (cases "de_ino e = 0")
      case True
      then show ?thesis using False lt l req
        by (auto simp: dir_insert_loop.simps [of sb d child ct name lim p] Let_def de_room_def word_le_nat_alt)
    next
      case ino: False
      let ?m = "length (de_name e)" let ?s = "dir_used_len (of_nat ?m)"
      have us: "unat ?s = de_size ?m" by (rule unat_used_len [OF l(5,6)])
      have "?s \<le> de_len e" using de_size_le [OF l(5,6)] by (simp add: word_le_nat_alt us)
      then have "unat (de_len e - ?s) = unat (de_len e) - de_size ?m" by (simp add: unat_sub us)
      moreover have "ext4_dir_en_get_name_len sb d p = Inr (of_nat ?m)" using e ino by (simp add: dirent_at_def)
      moreover have "\<not> de_size ?n \<le> unat (de_len e) - de_size ?m"
        using False ino de_size_bounds(1) [of ?n] by (simp add: de_room_def)
      ultimately show ?thesis using ino lt l req
        by (simp add: dir_insert_loop.simps [of sb d child ct name lim p] Let_def de_room_def word_le_nat_alt)
    qed
    have ih: "case de_insert child ?t name es of
      None \<Rightarrow> dir_insert_loop sb d child ct name lim p = Inl ENOSPC
    | Some es' \<Rightarrow> \<exists>d'. dir_insert_loop sb d child ct name lim p = Inr d' \<and> length d' = length d \<and>
        agree d d' 0 (p + unat (de_len e)) \<and> dir_path sb d' (p + unat (de_len e)) es' lim \<and>
        (\<forall>xs t. es = xs @ [t] \<and> \<not> de_room ?n t \<longrightarrow> agree d d' (lim - unat (de_len t)) lim)"
      unfolding step by (rule Cons.IH [OF es])
    show ?thesis
    proof (cases "de_insert child ?t name es")
      case None
      with ih False show ?thesis by simp
    next
      case (Some es')
      with ih obtain d' where d': "dir_insert_loop sb d child ct name lim p = Inr d'" "length d' = length d"
        "agree d d' 0 (p + unat (de_len e))" "dir_path sb d' (p + unat (de_len e)) es' lim"
        "\<And>xs t. es = xs @ [t] \<Longrightarrow> \<not> de_room ?n t \<Longrightarrow> agree d d' (lim - unat (de_len t)) lim" by auto
      have "dirent_at sb d' p e"
        by (subst agree_dirent [OF agree_sub [OF d'(3)]]) (use e l(5) in simp_all)
      moreover have "agree d d' (lim - unat (de_len t)) lim" if t: "e # es = xs @ [t]" "\<not> de_room ?n t" for xs t
      proof (cases xs)
        case Nil
        with t have "es = []" by simp
        then show ?thesis using Some by simp
      next
        case (Cons x ys)
        with t have "es = ys @ [t]" by simp
        then show ?thesis using d'(5) t(2) by blast
      qed
      moreover have "agree d d' 0 p" using d'(3) by (rule agree_sub) simp_all
      ultimately show ?thesis using Some False d'(1,2,4) by simp
    qed
  qed
qed

section \<open>Removal\<close>

lemma dir_pred_loop_eq:
  "dir_path sb d p (xs @ [f]) pos \<Longrightarrow>
   \<exists>m. dir_path sb d p xs m \<and> dir_pred_loop d pos p = Inr (m, de_len f) \<and> m + unat (de_len f) = pos"
proof (induction xs arbitrary: p)
  case Nil
  then show ?case by (simp add: dir_pred_loop.simps [of d pos p] dirent_at_def)
next
  case (Cons e es)
  have e: "dirent_at sb d p e" and es: "dir_path sb d (p + unat (de_len e)) (es @ [f]) pos" using Cons.prems by simp_all
  have "p + unat (de_len e) < pos"
    using es dir_path_less by (cases "es @ [f]") fastforce+
  moreover have "ext4_dir_en_get_entry_len d p = Inr (de_len e)" "de_len e \<noteq> 0"
    using e dirent_len [OF e] by (auto simp: dirent_at_def)
  ultimately have "dir_pred_loop d pos p = dir_pred_loop d pos (p + unat (de_len e))"
    by (simp add: dir_pred_loop.simps [of d pos p])
  with Cons.IH [OF es] e show ?case by auto
qed

text \<open>The records after the one at \<open>es ! length xs\<close> is removed: it joins its predecessor, or stays unused.\<close>

fun de_remove :: "dirent list \<Rightarrow> dirent \<Rightarrow> dirent list" where
  "de_remove [] e = [e\<lparr> de_ino := 0, de_name := [] \<rparr>]"
| "de_remove (f # xs) e =
     (if xs = [] then [f\<lparr> de_len := de_len f + de_len e \<rparr>] else f # de_remove xs e)"

lemma de_remove_snoc [simp]: "de_remove (xs @ [f]) e = xs @ [f\<lparr> de_len := de_len f + de_len e \<rparr>]"
  by (induction xs) auto

definition dir_unlink :: "u8 list \<Rightarrow> nat \<Rightarrow> u8 list res" where
  "dir_unlink d pos =
     rbind (ext4_dir_en_set_inode d pos 0) (\<lambda>d.
     if pos = 0 then Inr d
     else rbind (dir_pred_loop d pos 0) (\<lambda>(offset, de_len).
          if unat de_len + offset \<noteq> pos then Inl EASSERT
          else rbind (ext4_dir_en_get_entry_len d pos) (\<lambda>del_len.
               ext4_dir_en_set_entry_len d offset (de_len + del_len))))"

lemma dir_remove_unlink:
  "dir_remove_in_block sb index inode d pos = rbind (dir_unlink d pos) (ext4_dir_set_csum sb index inode)"
proof (cases "ext4_dir_en_set_inode d pos 0")
  case (Inr d1)
  then show ?thesis by (simp add: dir_remove_in_block_def dir_unlink_def fun_eq_iff cong: if_cong)
qed (simp add: dir_remove_in_block_def dir_unlink_def)

text \<open>A field of a record rewritten in place.\<close>

lemma patch_len:
  assumes e: "dirent_at sb d p e" and l: "unat (de_len e) \<le> unat l" "4 dvd unat l" "p + unat l \<le> length d"
  shows "dirent_at sb (patch d (p + 4) (enc16 l)) p (e\<lparr> de_len := l \<rparr>)"
proof -
  let ?d = "patch d (p + 4) (enc16 l)" and ?m = "length (de_name e)"
  have f: "p + unat (de_len e) \<le> length d" "8 + ?m \<le> unat (de_len e)" using e by (simp_all add: dirent_at_def)
  have fit: "p + 4 + length (enc16 l) \<le> length d" using f by simp
  have ag: "agree d ?d 0 (p + 4)" "agree d ?d (p + 6) (length d)" using fit by (auto intro: agree_patch)
  have r4: "rd_range ?d (p + 4) 2 = Inr (enc16 l)" using fit by (intro rd_patch) simp_all
  have r0: "rd_range ?d p 4 = rd_range d p 4" by (rule agree_rd_range [OF ag(1)]) simp_all
  have r8: "rd_range ?d (p + 8) ?m = rd_range d (p + 8) ?m" by (rule agree_rd_range [OF ag(2)]) (use f in simp_all)
  have b: "rd8 ?d (p + 6) = rd8 d (p + 6)" "rd8 ?d (p + 7) = rd8 d (p + 7)"
    using ag(2) f by (auto intro!: agree_rd8)
  have "length ?d = length d" using fit by simp
  moreover have "ext4_dir_en_get_inode ?d p = ext4_dir_en_get_inode d p" "ext4_dir_en_get_entry_len ?d p = Inr l"
    "ext4_dir_en_get_inode_type sb ?d p = ext4_dir_en_get_inode_type sb d p"
    "ext4_dir_en_get_name_len sb ?d p = ext4_dir_en_get_name_len sb d p"
    by (simp_all add: ext4_dir_en_get_inode_def ext4_dir_en_get_entry_len_def ext4_dir_en_get_inode_type_def
        ext4_dir_en_get_name_len_def r0 r4 b cong: if_cong)
  ultimately show ?thesis using e l r8 by (simp add: dirent_at_def)
qed

lemma patch_unused:
  assumes e: "dirent_at sb d p e"
  shows "dirent_at sb (patch d p (enc32 0)) p (e\<lparr> de_ino := 0, de_name := [] \<rparr>)"
proof -
  let ?d = "patch d p (enc32 0)"
  have f: "p + unat (de_len e) \<le> length d" "8 + length (de_name e) \<le> unat (de_len e)"
    using e by (simp_all add: dirent_at_def)
  have fit: "p + length (enc32 0) \<le> length d" using f by simp
  have ag: "agree d ?d (p + 4) (length d)" using fit by (intro agree_patch) simp_all
  have r4: "rd_range ?d (p + 4) 2 = rd_range d (p + 4) 2" by (rule agree_rd_range [OF ag]) (use f in simp_all)
  have r0: "rd_range ?d p 4 = Inr (enc32 0)" using fit by (intro rd_patch) simp_all
  have b: "rd8 ?d (p + 7) = rd8 d (p + 7)" using ag f by (auto intro!: agree_rd8)
  have "ext4_dir_en_get_inode ?d p = Inr 0" "ext4_dir_en_get_entry_len ?d p = ext4_dir_en_get_entry_len d p"
    "ext4_dir_en_get_inode_type sb ?d p = ext4_dir_en_get_inode_type sb d p" "length ?d = length d"
    using fit by (simp_all add: ext4_dir_en_get_inode_def ext4_dir_en_get_entry_len_def ext4_dir_en_get_inode_type_def r0 r4 b cong: if_cong)
  then show ?thesis using e by (simp add: dirent_at_def)
qed

lemma dir_unlink_eq:
  assumes path: "dir_path sb d 0 (xs @ e # ys) (length d)" and n: "length d < 2 ^ 16"
    and pos: "dir_path sb d 0 xs pos"
  shows "\<exists>d'. dir_unlink d pos = Inr d' \<and> length d' = length d \<and> dir_path sb d' 0 (de_remove xs e @ ys) (length d) \<and>
    agree d d' (pos + unat (de_len e)) (length d)"
proof -
  have det: "dir_path sb d p zs a \<Longrightarrow> dir_path sb d p zs b \<Longrightarrow> a = b" for p zs a b
    by (induction zs arbitrary: p) auto
  obtain m where m: "dir_path sb d 0 xs m" "dir_path sb d m (e # ys) (length d)" using path by (auto simp: dir_path_append)
  then have mp: "m = pos" using det pos by blast
  have e: "dirent_at sb d pos e" and ys: "dir_path sb d (pos + unat (de_len e)) ys (length d)" using m(2) mp by simp_all
  have f: "pos + unat (de_len e) \<le> length d" "8 \<le> unat (de_len e)" "4 dvd unat (de_len e)"
    using e by (auto simp: dirent_at_def)
  let ?d1 = "patch d pos (enc32 0)"
  have fit: "pos + length (enc32 0) \<le> length d" using f by simp
  have set: "ext4_dir_en_set_inode d pos 0 = Inr ?d1"
    using wr_range_patch [OF fit] by (simp add: ext4_dir_en_set_inode_def)
  have l1: "length ?d1 = length d" using fit by simp
  have ag1: "agree d ?d1 0 pos" "agree d ?d1 (pos + 4) (length d)" using fit by (auto intro: agree_patch)
  have xs1: "dir_path sb ?d1 0 xs pos" by (rule agree_path [OF ag1(1) pos])
  have ys1: "dir_path sb ?d1 (pos + unat (de_len e)) ys (length d)"
    by (rule agree_path [OF agree_sub [OF ag1(2)] ys]) (use f in simp_all)
  have e1: "dirent_at sb ?d1 pos (e\<lparr> de_ino := 0, de_name := [] \<rparr>)" by (rule patch_unused [OF e])
  show ?thesis
  proof (cases xs rule: rev_cases)
    case Nil
    then have p0: "pos = 0" using pos by simp
    have "dir_unlink d pos = Inr ?d1" unfolding dir_unlink_def set by (simp add: p0)
    moreover have "dir_path sb ?d1 0 (de_remove xs e @ ys) (length d)" using Nil e1 ys1 p0 by simp
    moreover have "agree d ?d1 (pos + unat (de_len e)) (length d)" using ag1(2) by (rule agree_sub) (use f in simp_all)
    ultimately show ?thesis using l1 by blast
  next
    case (snoc zs g)
    obtain k where k: "dir_path sb ?d1 0 zs k" "dir_pred_loop ?d1 pos 0 = Inr (k, de_len g)" "k + unat (de_len g) = pos"
      using dir_pred_loop_eq [of sb ?d1 0 zs g pos] xs1 snoc by blast
    then have g: "dirent_at sb ?d1 k g"
      using xs1 snoc det [of 0 zs] by (auto simp: dir_path_append)
    have p0: "pos \<noteq> 0" using k(3) dirent_len [OF g] by auto
    let ?l = "de_len g + de_len e" let ?d2 = "patch ?d1 (k + 4) (enc16 ?l)"
    have ul: "unat ?l = unat (de_len g) + unat (de_len e)" using f(1) k(3) n by (subst unat_add16) simp_all
    have del: "ext4_dir_en_get_entry_len ?d1 pos = Inr (de_len e)" using e1 by (simp add: dirent_at_def)
    have g8: "8 \<le> unat (de_len g)" "4 dvd unat (de_len g)" using g by (auto simp: dirent_at_def)
    have fit2: "k + 4 + length (enc16 ?l) \<le> length ?d1" using k(3) f g8 l1 by simp
    have "dir_unlink d pos = Inr ?d2"
      using p0 k(2,3) del wr_range_patch [OF fit2]
      by (simp add: dir_unlink_def set ext4_dir_en_set_entry_len_def add.commute)
    moreover have "dirent_at sb ?d2 k (g\<lparr> de_len := ?l \<rparr>)"
      by (rule patch_len [OF g]) (use ul k(3) f g8 l1 in simp_all)
    moreover have ag2: "agree ?d1 ?d2 0 (k + 4)" "agree ?d1 ?d2 (k + 6) (length ?d1)" using fit2 by (auto intro: agree_patch)
    moreover have "dir_path sb ?d2 0 zs k" by (rule agree_path [OF agree_sub [OF ag2(1)] k(1)]) simp_all
    moreover have "dir_path sb ?d2 (pos + unat (de_len e)) ys (length d)"
      by (rule agree_path [OF agree_sub [OF ag2(2)] ys1]) (use k(3) g8 f l1 in simp_all)
    moreover have "k + unat ?l = pos + unat (de_len e)" using k(3) ul by simp
    ultimately have "dir_unlink d pos = Inr ?d2" "dir_path sb ?d2 0 (de_remove xs e @ ys) (length d)"
      using snoc by (auto simp: dir_path_append)
    moreover have "length ?d2 = length d" using fit2 l1 by simp
    moreover have "agree d ?d2 (pos + unat (de_len e)) (length d)"
      using ag1(2) ag2(2) l1 k(3) g8 f by (auto simp: agree_def)
    ultimately show ?thesis by blast
  qed
qed

section \<open>Blocks of a directory\<close>

text \<open>With metadata checksums a block ends in an unused record of 12 bytes that holds the checksum.\<close>

definition dir_block_ok :: "ext4_sblock \<Rightarrow> u8 list \<Rightarrow> dirent list \<Rightarrow> bool" where
  "dir_block_ok sb d es \<longleftrightarrow>
     length d = unat (ext4_sb_get_block_size sb) \<and> length d < 2 ^ 16 \<and> dir_path sb d 0 es (length d) \<and>
     (ext4_sb_feature_ro_com sb EXT4_FRO_COM_METADATA_CSUM \<longrightarrow>
        \<not> dir_old_rev sb \<and> 12 < length d \<and> rd8 d (length d - 6) = Inr 0 \<and>
        (\<exists>xs t. es = xs @ [t] \<and> de_ino t = 0 \<and> de_len t = 12 \<and> de_type t = EXT4_DIRENTRY_DIR_CSUM))"

lemma tail_found:
  assumes "length d = unat (ext4_sb_get_block_size sb)" and "dir_path sb d 0 (xs @ [t]) (length d)" and "\<not> dir_old_rev sb"
    and "rd8 d (length d - 6) = Inr 0" and "de_ino t = 0" and "de_len t = 12" and "de_type t = EXT4_DIRENTRY_DIR_CSUM"
  shows "ext4_dir_get_tail sb d = Inr (Some (length d - 12))" and "dirent_at sb d (length d - 12) t" and "12 \<le> length d"
    and "dir_path sb d 0 xs (length d - 12)"
proof -
  obtain m where m: "dir_path sb d 0 xs m" "dirent_at sb d m t" "m + 12 = length d"
    using assms(2,6) by (auto simp: dir_path_append)
  then have e: "m = length d - 12" "m + 6 = length d - 6" by simp_all
  show "dirent_at sb d (length d - 12) t" "dir_path sb d 0 xs (length d - 12)" using m(1,2) e(1) by simp_all
  show "12 \<le> length d" using m(3) by simp
  show "ext4_dir_get_tail sb d = Inr (Some (length d - 12))"
    using m(2) assms(3-7) unfolding ext4_dir_get_tail_def Let_def EXT4_DIRENT_TAIL_SIZE_def assms(1) [symmetric] e(1) [symmetric] e(2) [symmetric]
    by (simp add: dirent_at_def ext4_dir_en_get_inode_type_def)
qed

text \<open>Setting the checksum keeps the records, and the block verifies.\<close>

lemma set_csum_ok:
  assumes ok: "dir_block_ok sb d es"
  shows "\<exists>d'. ext4_dir_set_csum sb index inode d = Inr d' \<and> dir_block_ok sb d' es \<and> ext4_dir_csum_verify sb index inode d' = Inr True"
proof (cases "ext4_sb_feature_ro_com sb EXT4_FRO_COM_METADATA_CSUM")
  case False
  with ok show ?thesis by (simp add: ext4_dir_set_csum_def ext4_dir_csum_verify_def)
next
  case True
  with ok obtain xs t where
    o: "length d = unat (ext4_sb_get_block_size sb)" "length d < 2 ^ 16" "dir_path sb d 0 es (length d)" "\<not> dir_old_rev sb"
      "12 < length d" "rd8 d (length d - 6) = Inr 0" and es: "es = xs @ [t]" "de_ino t = 0" "de_len t = 12" "de_type t = EXT4_DIRENTRY_DIR_CSUM"
    by (auto simp: dir_block_ok_def)
  note tl = tail_found [OF o(1) o(3)[unfolded es(1)] o(4,6) es(2-4)]
  let ?t = "length d - 12" let ?c = "ext4_dir_csum sb index inode (take ?t d)"
  let ?d = "patch d (?t + 8) (enc32 ?c)"
  have fit: "?t + 8 + length (enc32 ?c) \<le> length d" using o(5) by simp
  have l: "length ?d = length d" using fit by simp
  have set: "ext4_dir_set_csum sb index inode d = Inr ?d"
    using True tl(1) wr_range_patch [OF fit] by (simp add: ext4_dir_set_csum_def)
  have ag: "agree d ?d 0 (?t + 8)" using fit by (intro agree_patch) simp_all
  have "dir_path sb ?d 0 xs ?t" by (rule agree_path [OF agree_sub [OF ag] tl(4)]) simp_all
  moreover have "de_name t = []" using tl(2) es(2) by (simp add: dirent_at_def)
  then have "dirent_at sb ?d ?t t" using tl(2) by (subst agree_dirent [OF agree_sub [OF ag]]) simp_all
  ultimately have path: "dir_path sb ?d 0 es (length ?d)" using es o(5) l by (auto simp: dir_path_append)
  have z: "rd8 ?d (length d - 6) = Inr 0" using agree_rd8 [OF ag, of "length d - 6"] o(5,6) by simp
  have ok': "dir_block_ok sb ?d es" using o es path z l by (auto simp: dir_block_ok_def)
  have "ext4_dir_get_tail sb ?d = Inr (Some (length ?d - 12))"
    using tail_found(1) [of ?d sb xs t] o(1,4) path es z l by simp
  moreover have "take ?t ?d = take ?t d" using o(5) by (simp add: patch_def)
  moreover have "rd_range ?d (?t + 8) 4 = Inr (enc32 ?c)" using fit by (intro rd_patch) simp_all
  ultimately have "ext4_dir_csum_verify sb index inode ?d = Inr True" using True l by (simp add: ext4_dir_csum_verify_def)
  with set ok' show ?thesis by blast
qed

section \<open>What the operations do to the names\<close>

text \<open>The names of a block, with the inode and the type each refers to.\<close>

definition de_entries :: "dirent list \<Rightarrow> (u8 list \<times> u32 \<times> u8) list" where
  "de_entries es = map (\<lambda>e. (de_name e, de_ino e, de_type e)) (filter (\<lambda>e. de_ino e \<noteq> 0) es)"

lemma de_entries_simps [simp]:
  "de_entries [] = []" "de_entries (xs @ ys) = de_entries xs @ de_entries ys"
  "de_entries (e # es) = (if de_ino e = 0 then de_entries es else (de_name e, de_ino e, de_type e) # de_entries es)"
  by (simp_all add: de_entries_def)

lemma de_insert_entries:
  "de_insert child t name es = Some es' \<Longrightarrow> child \<noteq> 0 \<Longrightarrow>
   \<exists>xs ys. de_entries es = xs @ ys \<and> de_entries es' = xs @ (name, child, t) # ys"
proof (induction es arbitrary: es')
  case (Cons e es)
  show ?case
  proof (cases "de_room (length name) e")
    case True
    then have es': "es' = de_split child t name e @ es" using Cons.prems(1) by simp
    show ?thesis
    proof (cases "de_ino e = 0")
      case True
      then show ?thesis using Cons.prems(2) es' by (intro exI [of _ "[]"] exI [of _ "de_entries es"]) (simp add: de_split_def)
    next
      case False
      then show ?thesis using Cons.prems(2) es'
        by (intro exI [of _ "de_entries [e]"] exI [of _ "de_entries es"]) (simp add: de_split_def Let_def)
    qed
  next
    case False
    then obtain fs where fs: "de_insert child t name es = Some fs" "es' = e # fs" using Cons.prems(1) by auto
    from Cons.IH [OF fs(1) Cons.prems(2)] obtain xs ys where
      "de_entries es = xs @ ys" "de_entries fs = xs @ (name, child, t) # ys" by blast
    then show ?thesis using fs(2) by (intro exI [of _ "de_entries [e] @ xs"] exI [of _ ys]) simp
  qed
qed simp

lemma de_insert_last:
  "de_insert child t name (xs @ [e]) = Some es' \<Longrightarrow> \<not> de_room (length name) e \<Longrightarrow> \<exists>zs. es' = zs @ [e]"
proof (induction xs arbitrary: es')
  case (Cons a xs)
  show ?case
  proof (cases "de_room (length name) a")
    case True
    then have "es' = (de_split child t name a @ xs) @ [e]" using Cons.prems(1) by simp
    then show ?thesis by blast
  next
    case False
    then obtain fs where fs: "de_insert child t name (xs @ [e]) = Some fs" "es' = a # fs" using Cons.prems(1) by auto
    from Cons.IH [OF fs(1) Cons.prems(2)] obtain zs where "fs = zs @ [e]" by blast
    then have "es' = (a # zs) @ [e]" using fs(2) by simp
    then show ?thesis by blast
  qed
qed simp

lemma insert_ok:
  assumes ok: "dir_block_ok sb d es" and n: "0 < length name" "length name < 256" and c: "child \<noteq> 0"
  shows "case de_insert child (de_stored_type sb ct) name es of
      None \<Rightarrow> dir_insert_in_block sb index inode d child ct name = Inl ENOSPC
    | Some es' \<Rightarrow> \<exists>d'. dir_insert_in_block sb index inode d child ct name = Inr d' \<and> dir_block_ok sb d' es' \<and>
        ext4_dir_csum_verify sb index inode d' = Inr True"
proof -
  have o: "length d = unat (ext4_sb_get_block_size sb)" "length d < 2 ^ 16" "dir_path sb d 0 es (length d)"
    using ok unfolding dir_block_ok_def by blast+
  let ?ins = "de_insert child (de_stored_type sb ct) name es"
  have b: "length d \<le> unat (ext4_sb_get_block_size sb)" using o(1) by simp
  note loop = dir_insert_loop_eq [OF o(3) refl n c b, of ct]
  show ?thesis
  proof (cases ?ins)
    case None
    then show ?thesis using loop by (simp add: dir_insert_in_block_def o(1))
  next
    case (Some es')
    with loop obtain d1 where d1: "dir_insert_loop sb d child ct name (length d) 0 = Inr d1"
      "length d1 = length d" "dir_path sb d1 0 es' (length d)"
      "\<And>xs t. es = xs @ [t] \<Longrightarrow> \<not> de_room (length name) t \<Longrightarrow> agree d d1 (length d - unat (de_len t)) (length d)"
      by auto
    have "dir_block_ok sb d1 es'"
      unfolding dir_block_ok_def
    proof (intro conjI impI)
      assume "ext4_sb_feature_ro_com sb EXT4_FRO_COM_METADATA_CSUM"
      with ok obtain xs t where q: "\<not> dir_old_rev sb" "12 < length d" "rd8 d (length d - 6) = Inr 0" "es = xs @ [t]" "de_ino t = 0"
        "de_len t = 12" "de_type t = EXT4_DIRENTRY_DIR_CSUM" by (auto simp: dir_block_ok_def)
      have r: "\<not> de_room (length name) t" using q(5,7) by (simp add: de_room_def)
      from de_insert_last [OF Some[unfolded q(4)] r] obtain zs where "es' = zs @ [t]" by blast
      moreover have "rd8 d1 (length d - 6) = rd8 d (length d - 6)"
        by (rule agree_rd8 [OF d1(4) [OF q(4) r]]) (use q(2,6) in simp_all)
      ultimately show "\<not> dir_old_rev sb" "12 < length d1" "rd8 d1 (length d1 - 6) = Inr 0"
        "\<exists>xs t. es' = xs @ [t] \<and> de_ino t = 0 \<and> de_len t = 12 \<and> de_type t = EXT4_DIRENTRY_DIR_CSUM"
        using q d1(2) by auto
    qed (use d1 o in simp_all)
    from set_csum_ok [OF this, of index inode] show ?thesis using Some d1(1) by (auto simp: dir_insert_in_block_def o(1))
  qed
qed

lemma remove_ok:
  assumes ok: "dir_block_ok sb d (xs @ e # ys)" and pos: "dir_path sb d 0 xs pos" and u: "de_ino e \<noteq> 0"
  shows "\<exists>d'. dir_remove_in_block sb index inode d pos = Inr d' \<and> dir_block_ok sb d' (de_remove xs e @ ys) \<and>
    ext4_dir_csum_verify sb index inode d' = Inr True"
proof -
  have o: "length d = unat (ext4_sb_get_block_size sb)" "length d < 2 ^ 16" "dir_path sb d 0 (xs @ e # ys) (length d)"
    using ok unfolding dir_block_ok_def by blast+
  from dir_unlink_eq [OF o(3,2) pos] obtain d1 where d1: "dir_unlink d pos = Inr d1" "length d1 = length d"
    "dir_path sb d1 0 (de_remove xs e @ ys) (length d)" "agree d d1 (pos + unat (de_len e)) (length d)" by blast
  have "dir_block_ok sb d1 (de_remove xs e @ ys)"
    unfolding dir_block_ok_def
  proof (intro conjI impI)
    assume "ext4_sb_feature_ro_com sb EXT4_FRO_COM_METADATA_CSUM"
    with ok obtain zs t where q: "\<not> dir_old_rev sb" "12 < length d" "rd8 d (length d - 6) = Inr 0" "xs @ e # ys = zs @ [t]" "de_ino t = 0"
      "de_len t = 12" "de_type t = EXT4_DIRENTRY_DIR_CSUM" by (auto simp: dir_block_ok_def)
    obtain ws where ws: "ys = ws @ [t]" using q(4,5) u by (cases ys rule: rev_cases) auto
    have det: "dir_path sb d p vs a \<Longrightarrow> dir_path sb d p vs b \<Longrightarrow> a = b" for p vs a b
      by (induction vs arbitrary: p) auto
    obtain m k where "dir_path sb d 0 xs m" "dir_path sb d (m + unat (de_len e)) ws k" "k + 12 = length d"
      using o(3) ws q(6) by (auto simp: dir_path_append)
    then have "pos + unat (de_len e) \<le> length d - 12" using det [OF pos] dir_path_le by fastforce
    then have "rd8 d1 (length d - 6) = rd8 d (length d - 6)" by (intro agree_rd8 [OF d1(4)]) (use q(2) in simp_all)
    then show "\<not> dir_old_rev sb" "12 < length d1" "rd8 d1 (length d1 - 6) = Inr 0"
      "\<exists>vs v. de_remove xs e @ ys = vs @ [v] \<and> de_ino v = 0 \<and> de_len v = 12 \<and> de_type v = EXT4_DIRENTRY_DIR_CSUM"
      using q d1(2) ws by auto
  qed (use d1 o in simp_all)
  from set_csum_ok [OF this, of index inode] show ?thesis using d1(1) by (auto simp: dir_remove_unlink)
qed

lemma de_remove_entries: "de_ino e \<noteq> 0 \<Longrightarrow> de_entries (de_remove xs e) = de_entries xs"
  by (cases xs rule: rev_cases) simp_all

lemma de_find_Some:
  "de_find name p es = Some q \<Longrightarrow> dir_path sb d p es lim \<Longrightarrow>
   \<exists>xs e ys. es = xs @ e # ys \<and> de_is name e \<and> dir_path sb d p xs q \<and> (\<forall>x \<in> set xs. \<not> de_is name x)"
proof (induction es arbitrary: p)
  case (Cons e es)
  show ?case
  proof (cases "de_is name e")
    case True
    then show ?thesis using Cons.prems by (intro exI [of _ "[]"] exI [of _ e] exI [of _ es]) simp
  next
    case False
    then have "de_find name (p + unat (de_len e)) es = Some q" "dir_path sb d (p + unat (de_len e)) es lim"
      using Cons.prems by simp_all
    from Cons.IH [OF this] obtain xs f ys where "es = xs @ f # ys" "de_is name f" "dir_path sb d (p + unat (de_len e)) xs q"
      "\<forall>x \<in> set xs. \<not> de_is name x" by blast
    then show ?thesis using False Cons.prems(2) by (intro exI [of _ "e # xs"] exI [of _ f] exI [of _ ys]) simp
  qed
qed simp

end
