(* ===== verification/DirProps.thy ===== *)
theory DirProps
  imports DirSpec
begin

text \<open>
  What a directory block promises its users: search finds exactly the names of the block, insertion adds
  one name or reports that there is no room, removal takes one name away, and each leaves a block whose
  checksum verifies. Read as a map from names to inode numbers, a block is updated at one name.
\<close>

section \<open>A block as a map\<close>

definition de_map :: "dirent list \<Rightarrow> u8 list \<Rightarrow> u32 option" where
  "de_map es = map_of (map (\<lambda>(n, i, t). (n, i)) (de_entries es))"

lemma de_map_None: "de_map es n = None \<longleftrightarrow> n \<notin> fst ` set (de_entries es)"
  by (force simp: de_map_def map_of_eq_None_iff)

text \<open>The inode number behind a name, as the callers of the search read it.\<close>

definition dir_ino_of :: "ext4_sblock \<Rightarrow> u8 list \<Rightarrow> u8 list \<Rightarrow> u32 res" where
  "dir_ino_of sb d name = rbind (ext4_dir_find_in_block d sb name) (ext4_dir_en_get_inode d)"

lemma de_find_map:
  "dir_path sb d p es lim \<Longrightarrow>
   (case de_find name p es of None \<Rightarrow> de_map es name = None
    | Some q \<Rightarrow> \<exists>i. de_map es name = Some i \<and> ext4_dir_en_get_inode d q = Inr i)"
proof (induction es arbitrary: p)
  case (Cons e es)
  then have e: "dirent_at sb d p e" and es: "dir_path sb d (p + unat (de_len e)) es lim" by simp_all
  show ?case
  proof (cases "de_is name e")
    case True
    then show ?thesis using e by (simp add: de_map_def de_is_def dirent_at_def)
  next
    case False
    then have m: "de_map (e # es) name = de_map es name" by (auto simp: de_map_def de_is_def)
    from Cons.IH [OF es] show ?thesis unfolding m using False by simp
  qed
qed (simp add: de_map_def)

lemma find_eq:
  assumes "dir_block_ok sb d es"
  shows "ext4_dir_find_in_block d sb name = (case de_find name 0 es of None \<Rightarrow> Inl ENOENT | Some q \<Rightarrow> Inr q)"
proof -
  have "dir_path sb d 0 es (unat (ext4_sb_get_block_size sb))"
    using assms unfolding dir_block_ok_def by (elim conjE) simp
  then show ?thesis unfolding ext4_dir_find_in_block_def by (rule dir_find_loop_eq)
qed

lemma ino_of_eq:
  assumes "dir_block_ok sb d es"
  shows "dir_ino_of sb d name = (case de_map es name of None \<Rightarrow> Inl ENOENT | Some i \<Rightarrow> Inr i)"
proof -
  have "dir_path sb d 0 es (length d)" using assms unfolding dir_block_ok_def by (elim conjE)
  from de_find_map [OF this, of name] show ?thesis
    by (auto simp: dir_ino_of_def find_eq [OF assms] split: option.splits)
qed

lemma de_insert_iff: "de_insert child t name es = None \<longleftrightarrow> (\<forall>e \<in> set es. \<not> de_room (length name) e)"
  by (induction es) auto

lemma insert_entries:
  assumes ok: "dir_block_ok sb d es" and n: "0 < length name" "length name < 256" and c: "child \<noteq> 0"
    and r: "\<exists>e \<in> set es. de_room (length name) e"
  shows "\<exists>d' es' xs ys. dir_insert_in_block sb index inode d child ct name = Inr d' \<and> dir_block_ok sb d' es' \<and>
    ext4_dir_csum_verify sb index inode d' = Inr True \<and>
    de_entries es = xs @ ys \<and> de_entries es' = xs @ (name, child, de_stored_type sb ct) # ys"
proof -
  obtain es' where s: "de_insert child (de_stored_type sb ct) name es = Some es'"
    using r by (metis de_insert_iff not_None_eq)
  from insert_ok [OF ok n c, where ct = ct and index = index and inode = inode] obtain d' where
    "dir_insert_in_block sb index inode d child ct name = Inr d'" "dir_block_ok sb d' es'"
    "ext4_dir_csum_verify sb index inode d' = Inr True" using s by auto
  with de_insert_entries [OF s c] show ?thesis by blast
qed

lemma remove_entries:
  assumes ok: "dir_block_ok sb d es" and f: "ext4_dir_find_in_block d sb name = Inr pos"
  shows "\<exists>d' es' xs ys i t. dir_remove_in_block sb index inode d pos = Inr d' \<and> dir_block_ok sb d' es' \<and>
    ext4_dir_csum_verify sb index inode d' = Inr True \<and>
    de_entries es = xs @ (name, i, t) # ys \<and> name \<notin> fst ` set xs \<and> de_entries es' = xs @ ys"
proof -
  have p: "dir_path sb d 0 es (length d)" using ok unfolding dir_block_ok_def by (elim conjE)
  have "de_find name 0 es = Some pos" using f find_eq [OF ok] by (auto split: option.splits)
  from de_find_Some [OF this p] obtain xs e ys where s: "es = xs @ e # ys" "de_is name e" "dir_path sb d 0 xs pos"
    "\<forall>x \<in> set xs. \<not> de_is name x" by blast
  have u: "de_ino e \<noteq> 0" "de_name e = name" using s(2) by (simp_all add: de_is_def)
  from remove_ok [OF ok[unfolded s(1)] s(3) u(1)] obtain d' where
    d': "dir_remove_in_block sb index inode d pos = Inr d'" "dir_block_ok sb d' (de_remove xs e @ ys)"
    "ext4_dir_csum_verify sb index inode d' = Inr True" by blast
  have "name \<notin> fst ` set (de_entries xs)" using s(4) by (auto simp: de_entries_def de_is_def)
  moreover have "de_entries es = de_entries xs @ (name, de_ino e, de_type e) # de_entries ys" using s(1) u by simp
  moreover have "de_entries (de_remove xs e @ ys) = de_entries xs @ de_entries ys" using de_remove_entries [OF u(1)] by simp
  ultimately show ?thesis using d' by blast
qed

section \<open>A sample block\<close>

text \<open>A block of 1 KiB with its two dot records, one file name and the checksum record.\<close>

definition dir_sb :: ext4_sblock where
  "dir_sb = sb_sample\<lparr> sb_features_read_only := 0x400, sb_rev_level := 1 \<rparr>"

definition dir_sample :: "u8 list" where
  "dir_sample = [11, 0, 0, 0, 12, 0, 1, 2, 0x2E, 0, 0, 0] @ [2, 0, 0, 0, 12, 0, 2, 2, 0x2E, 0x2E, 0, 0] @
     [13, 0, 0, 0, 0xDC, 3, 1, 1, 0x61] @ replicate 979 0 @ [0, 0, 0, 0, 12, 0, 0, 0xDE, 0, 0, 0, 0]"

definition dir_sample_recs :: "dirent list" where
  "dir_sample_recs =
     [\<lparr> de_ino = 11, de_len = 12, de_type = 2, de_name = [0x2E] \<rparr>,
      \<lparr> de_ino = 2, de_len = 12, de_type = 2, de_name = [0x2E, 0x2E] \<rparr>,
      \<lparr> de_ino = 13, de_len = 988, de_type = 1, de_name = [0x61] \<rparr>,
      \<lparr> de_ino = 0, de_len = 12, de_type = 0xDE, de_name = [] \<rparr>]"

lemma dir_sb_facts: "ext4_sb_get_block_size dir_sb = 1024" "dir_old_rev dir_sb \<longleftrightarrow> False"
  "ext4_sb_feature_ro_com dir_sb EXT4_FRO_COM_METADATA_CSUM"
  by (simp_all add: dir_sb_def sb_sample_def ext4_sb_get_block_size_def dir_old_rev_def ext4_sb_feature_ro_com_def
      EXT4_FRO_COM_METADATA_CSUM_def)


lemma dir_sample_ok: "dir_block_ok dir_sb dir_sample dir_sample_recs"
proof -
  have l: "length dir_sample = 1024" by (simp add: dir_sample_def)
  let ?L = "length dir_sample"
  have r: "rd_range dir_sample 0 4 = Inr [11, 0, 0, 0]" "rd_range dir_sample 4 2 = Inr [12, 0]" "rd_range dir_sample 8 1 = Inr [0x2E]"
    "rd_range dir_sample 12 4 = Inr [2, 0, 0, 0]" "rd_range dir_sample 16 2 = Inr [12, 0]" "rd_range dir_sample 20 2 = Inr [0x2E, 0x2E]"
    "rd_range dir_sample 24 4 = Inr [13, 0, 0, 0]" "rd_range dir_sample 28 2 = Inr [0xDC, 3]" "rd_range dir_sample 32 1 = Inr [0x61]"
    "rd_range dir_sample 1012 4 = Inr [0, 0, 0, 0]" "rd_range dir_sample 1016 2 = Inr [12, 0]"
    by (simp_all add: rd_range_def l) (simp_all add: dir_sample_def eval_nat_numeral)
  have b: "rd8 dir_sample 6 = Inr 1" "rd8 dir_sample 7 = Inr 2" "rd8 dir_sample 18 = Inr 2" "rd8 dir_sample 19 = Inr 2"
    "rd8 dir_sample 30 = Inr 1" "rd8 dir_sample 31 = Inr 1" "rd8 dir_sample 1018 = Inr 0" "rd8 dir_sample 1019 = Inr 0xDE"
    by (simp_all add: rd8_def l) (simp_all add: dir_sample_def nth_append)
  show ?thesis
    using l r b r(6) [unfolded numeral_2_eq_2]
    by (simp add: dir_block_ok_def dir_sb_facts dir_sample_recs_def dirent_at_def ext4_dir_en_get_inode_def
        ext4_dir_en_get_entry_len_def ext4_dir_en_get_inode_type_def ext4_dir_en_get_name_len_def EXT4_DIRENTRY_DIR_CSUM_def)
qed

section \<open>Properties\<close>

text \<open>
  C30: search in a directory block is complete and exact. On a well-formed block \<open>ext4_dir_find_in_block\<close> returns
  the place of the first used record with the name, and \<open>ENOENT\<close> when no used record has it; its early exit
  near the end of the block loses no name, and it never reads outside the block.
\<close>

theorem dir_find_exact:
  assumes "dir_block_ok sb d es"
  shows "ext4_dir_find_in_block d sb name = (case de_find name 0 es of None \<Rightarrow> Inl ENOENT | Some q \<Rightarrow> Inr q)"
  using assms by (rule find_eq)

theorem dir_find_exact_witness:
  "ext4_dir_find_in_block dir_sample dir_sb [0x61] = Inr 24 \<and> ext4_dir_find_in_block dir_sample dir_sb [0x62] = Inl ENOENT"
  using dir_find_exact [OF dir_sample_ok, of "[0x61]"] dir_find_exact [OF dir_sample_ok, of "[0x62]"]
  by (simp add: dir_sample_recs_def de_is_def)

text \<open>
  C24: insertion into a directory block is exact. When a record has room for the name (unused and large enough, or
  used with enough bytes behind its own name) insertion succeeds; the block is again a chain of records,
  its names are the old ones in their order with the new one added once, with its inode number and
  the type of its mode, and the block's checksum verifies. Otherwise the result is \<open>ENOSPC\<close>.
\<close>

theorem dir_insert_exact:
  assumes "dir_block_ok sb d es" and "0 < length name" and "length name < 256" and "child \<noteq> 0"
  shows "if \<exists>e \<in> set es. de_room (length name) e then
      \<exists>d' es' xs ys. dir_insert_in_block sb index inode d child ct name = Inr d' \<and> dir_block_ok sb d' es' \<and>
        ext4_dir_csum_verify sb index inode d' = Inr True \<and>
        de_entries es = xs @ ys \<and> de_entries es' = xs @ (name, child, de_stored_type sb ct) # ys
    else dir_insert_in_block sb index inode d child ct name = Inl ENOSPC"
proof (cases "\<exists>e \<in> set es. de_room (length name) e")
  case True
  with insert_entries [OF assms True, where index = index and inode = inode and ct = ct] show ?thesis by (simp only: if_True)
next
  case False
  then have "de_insert child (de_stored_type sb ct) name es = None" by (simp add: de_insert_iff)
  with insert_ok [OF assms, where ct = ct and index = index and inode = inode] False show ?thesis by simp
qed

theorem dir_insert_exact_witness:
  "\<exists>d'. dir_insert_in_block dir_sb 2 inode_zero dir_sample 14 EXT4_INODE_MODE_FILE [0x62] = Inr d' \<and>
     ext4_dir_csum_verify dir_sb 2 inode_zero d' = Inr True"
proof -
  have "\<exists>e \<in> set dir_sample_recs. de_room 1 e" by (simp add: dir_sample_recs_def de_room_def de_size_def)
  with dir_insert_exact [OF dir_sample_ok, where name = "[0x62]" and child = 14 and ct = EXT4_INODE_MODE_FILE and index = 2
      and inode = inode_zero] show ?thesis by auto
qed

text \<open>
  C25: removal from a directory block is exact. Removing the record the search found takes away that
  name and nothing else, although the inode number is cleared and the space goes to the record before it: the
  other names stay, in their order, the block is again a chain of records and its checksum verifies. The
  predecessor search ends and its assertion holds.
\<close>

theorem dir_remove_exact:
  assumes "dir_block_ok sb d es" and "ext4_dir_find_in_block d sb name = Inr pos"
  shows "\<exists>d' es' xs ys i t. dir_remove_in_block sb index inode d pos = Inr d' \<and> dir_block_ok sb d' es' \<and>
    ext4_dir_csum_verify sb index inode d' = Inr True \<and>
    de_entries es = xs @ (name, i, t) # ys \<and> name \<notin> fst ` set xs \<and> de_entries es' = xs @ ys"
  by (rule remove_entries [OF assms])

theorem dir_remove_exact_witness:
  "\<exists>d'. dir_remove_in_block dir_sb 2 inode_zero dir_sample 24 = Inr d' \<and> ext4_dir_csum_verify dir_sb 2 inode_zero d' = Inr True"
proof -
  have "ext4_dir_find_in_block dir_sample dir_sb [0x61] = Inr 24"
    unfolding find_eq [OF dir_sample_ok] by (simp add: dir_sample_recs_def de_is_def)
  from dir_remove_exact [OF dir_sample_ok this, where index = 2 and inode = inode_zero] show ?thesis by blast
qed

text \<open>
  C27: a directory block is a map from names to inode numbers. After an insertion of a name the
  block does not hold, search followed by reading the inode number gives the child for that name and the
  old answer for every other name, including \<open>ENOENT\<close>.
\<close>

theorem dir_insert_lookup:
  assumes "dir_block_ok sb d es" and "0 < length name" and "length name < 256" and "child \<noteq> 0"
    and "dir_ino_of sb d name = Inl ENOENT" and "\<exists>e \<in> set es. de_room (length name) e"
  shows "\<exists>d'. dir_insert_in_block sb index inode d child ct name = Inr d' \<and>
    (\<forall>n. dir_ino_of sb d' n = (if n = name then Inr child else dir_ino_of sb d n))"
proof -
  from insert_entries [OF assms(1-4,6), where index = index and inode = inode and ct = ct] obtain d' es' xs ys where
    d': "dir_insert_in_block sb index inode d child ct name = Inr d'" "dir_block_ok sb d' es'"
    and e: "de_entries es = xs @ ys" "de_entries es' = xs @ (name, child, de_stored_type sb ct) # ys" by blast
  have "de_map es name = None" using assms(5) ino_of_eq [OF assms(1)] by (auto split: option.splits)
  then have "de_map es' n = (if n = name then Some child else de_map es n)" for n
    using e by (auto simp: de_map_def map_add_def split: option.splits)
  then show ?thesis using d'(1) by (auto simp: ino_of_eq [OF d'(2)] ino_of_eq [OF assms(1)])
qed

theorem dir_insert_lookup_witness:
  "\<exists>d'. dir_insert_in_block dir_sb 2 inode_zero dir_sample 14 EXT4_INODE_MODE_FILE [0x62] = Inr d' \<and>
     dir_ino_of dir_sb d' [0x62] = Inr 14 \<and> dir_ino_of dir_sb d' [0x61] = Inr 13"
proof -
  have "\<exists>e \<in> set dir_sample_recs. de_room 1 e" by (simp add: dir_sample_recs_def de_room_def de_size_def)
  moreover have "dir_ino_of dir_sb dir_sample [0x62] = Inl ENOENT" "dir_ino_of dir_sb dir_sample [0x61] = Inr 13"
    unfolding ino_of_eq [OF dir_sample_ok] by (simp_all add: dir_sample_recs_def de_map_def)
  ultimately show ?thesis
    using dir_insert_lookup [OF dir_sample_ok, where name = "[0x62]" and child = 14 and ct = EXT4_INODE_MODE_FILE and index = 2
      and inode = inode_zero] by auto
qed

text \<open>
  C28: removal undoes insertion. In a block whose names are distinct, after removing the record found for a name
  the search for it gives \<open>ENOENT\<close>, and the answer for every other name is the old one.
\<close>

theorem dir_remove_lookup:
  assumes "dir_block_ok sb d es" and "distinct (map fst (de_entries es))" and "ext4_dir_find_in_block d sb name = Inr pos"
  shows "\<exists>d'. dir_remove_in_block sb index inode d pos = Inr d' \<and>
    (\<forall>n. dir_ino_of sb d' n = (if n = name then Inl ENOENT else dir_ino_of sb d n))"
proof -
  from remove_entries [OF assms(1,3), where index = index and inode = inode] obtain d' es' xs ys i t where
    d': "dir_remove_in_block sb index inode d pos = Inr d'" "dir_block_ok sb d' es'"
    and e: "de_entries es = xs @ (name, i, t) # ys" "de_entries es' = xs @ ys" by blast
  have "name \<notin> fst ` set xs" "name \<notin> fst ` set ys" using assms(2) unfolding e(1) by auto
  then have "de_map es' name = None" by (simp add: de_map_None e(2) image_Un)
  moreover have "n \<noteq> name \<Longrightarrow> de_map es' n = de_map es n" for n
    using e by (simp add: de_map_def map_add_def split: option.splits)
  ultimately show ?thesis using d'(1) by (auto simp: ino_of_eq [OF d'(2)] ino_of_eq [OF assms(1)])
qed

theorem dir_remove_lookup_witness:
  "\<exists>d'. dir_remove_in_block dir_sb 2 inode_zero dir_sample 24 = Inr d' \<and>
     dir_ino_of dir_sb d' [0x61] = Inl ENOENT \<and> dir_ino_of dir_sb d' [0x2E] = Inr 11"
proof -
  have "ext4_dir_find_in_block dir_sample dir_sb [0x61] = Inr 24"
    unfolding find_eq [OF dir_sample_ok] by (simp add: dir_sample_recs_def de_is_def)
  moreover have "dir_ino_of dir_sb dir_sample [0x2E] = Inr 11"
    unfolding ino_of_eq [OF dir_sample_ok] by (simp add: dir_sample_recs_def de_map_def)
  moreover have "distinct (map fst (de_entries dir_sample_recs))" by (simp add: dir_sample_recs_def)
  ultimately show ?thesis
    using dir_remove_lookup [OF dir_sample_ok, where name = "[0x61]" and pos = 24 and index = 2 and inode = inode_zero] by auto
qed

end
