(* ===== verification/Extent.thy ===== *)
theory Extent
  imports Balloc
begin

text \<open>
  Extent trees, first part of \<^verbatim>\<open>src/ext4_extent.c\<close>: the on-disk header, extent and index records, the nodes of
  the tree and the lookup path. A node is its bytes: the 60 bytes of \<^verbatim>\<open>blocks\<close> in the inode for the root, the
  bytes of a block for the others. A pointer to a record is the position of the record in its node. A
  read or write outside the node is \<open>UNDEF\<close>.
\<close>

section \<open>Records\<close>

record ext4_extent =
  ee_first_block :: u32
  ee_block_count :: u16
  ee_start_hi :: u16
  ee_start_lo :: u32

record ext4_extent_index =
  ei_first_block :: u32
  ei_leaf_lo :: u32
  ei_leaf_hi :: u16
  ei_padding :: u16

record ext4_extent_header =
  eh_magic :: u16
  eh_entries_count :: u16
  eh_max_entries_count :: u16
  eh_depth :: u16
  eh_generation :: u32

definition ee_bytes :: "ext4_extent \<Rightarrow> u8 list" where
  "ee_bytes e = enc32 (ee_first_block e) @ enc16 (ee_block_count e) @ enc16 (ee_start_hi e) @ enc32 (ee_start_lo e)"

definition ee_of_bytes :: "u8 list \<Rightarrow> ext4_extent" where
  "ee_of_bytes bs =
     (case get32 bs of (a, bs) \<Rightarrow> case get16 bs of (b, bs) \<Rightarrow> case get16 bs of (c, bs) \<Rightarrow> case get32 bs of (d, bs) \<Rightarrow>
      \<lparr> ee_first_block = a, ee_block_count = b, ee_start_hi = c, ee_start_lo = d \<rparr>)"

definition ei_bytes :: "ext4_extent_index \<Rightarrow> u8 list" where
  "ei_bytes x = enc32 (ei_first_block x) @ enc32 (ei_leaf_lo x) @ enc16 (ei_leaf_hi x) @ enc16 (ei_padding x)"

definition ei_of_bytes :: "u8 list \<Rightarrow> ext4_extent_index" where
  "ei_of_bytes bs =
     (case get32 bs of (a, bs) \<Rightarrow> case get32 bs of (b, bs) \<Rightarrow> case get16 bs of (c, bs) \<Rightarrow> case get16 bs of (d, bs) \<Rightarrow>
      \<lparr> ei_first_block = a, ei_leaf_lo = b, ei_leaf_hi = c, ei_padding = d \<rparr>)"

definition eh_bytes :: "ext4_extent_header \<Rightarrow> u8 list" where
  "eh_bytes h = enc16 (eh_magic h) @ enc16 (eh_entries_count h) @ enc16 (eh_max_entries_count h) @
     enc16 (eh_depth h) @ enc32 (eh_generation h)"

definition eh_of_bytes :: "u8 list \<Rightarrow> ext4_extent_header" where
  "eh_of_bytes bs =
     (case get16 bs of (a, bs) \<Rightarrow> case get16 bs of (b, bs) \<Rightarrow> case get16 bs of (c, bs) \<Rightarrow> case get16 bs of (d, bs) \<Rightarrow>
      case get32 bs of (e, bs) \<Rightarrow>
      \<lparr> eh_magic = a, eh_entries_count = b, eh_max_entries_count = c, eh_depth = d, eh_generation = e \<rparr>)"

lemma length_ext_bytes [simp]: "length (ee_bytes e) = 12" "length (ei_bytes x) = 12" "length (eh_bytes h) = 12"
  by (simp_all add: ee_bytes_def ei_bytes_def eh_bytes_def)

lemma ext_of_bytes [simp]: "ee_of_bytes (ee_bytes e) = e" "ei_of_bytes (ei_bytes x) = x" "eh_of_bytes (eh_bytes h) = h"
  by (simp_all add: ee_bytes_def ee_of_bytes_def ei_bytes_def ei_of_bytes_def eh_bytes_def eh_of_bytes_def)

section \<open>Fields\<close>

definition EXT4_EXTENT_MAGIC :: u16 where "EXT4_EXTENT_MAGIC = 0xF30A"
definition EXT_INIT_MAX_LEN :: nat where "EXT_INIT_MAX_LEN = 32768"
definition EXT_UNWRITTEN_MAX_LEN :: nat where "EXT_UNWRITTEN_MAX_LEN = EXT_INIT_MAX_LEN - 1"
definition EXT_MAX_BLOCKS :: u32 where "EXT_MAX_BLOCKS = - 1"
definition EXT4_EXT_MARK_UNWRIT1 :: u32 where "EXT4_EXT_MARK_UNWRIT1 = 2"
definition EXT4_EXT_MARK_UNWRIT2 :: u32 where "EXT4_EXT_MARK_UNWRIT2 = 4"
definition EXT4_EXT_NO_COMBINE :: u32 where "EXT4_EXT_NO_COMBINE = 0x20"

lemmas extent_consts [ext4_consts] =
  EXT4_EXTENT_MAGIC_def EXT_INIT_MAX_LEN_def EXT_UNWRITTEN_MAX_LEN_def EXT_MAX_BLOCKS_def EXT4_EXT_MARK_UNWRIT1_def
  EXT4_EXT_MARK_UNWRIT2_def EXT4_EXT_NO_COMBINE_def

text \<open>The bit test of \<^verbatim>\<open>IN_RANGE\<close>, in 32 bits.\<close>

definition IN_RANGE :: "u32 \<Rightarrow> u32 \<Rightarrow> u32 \<Rightarrow> bool" where
  "IN_RANGE b first len \<longleftrightarrow> b \<ge> first \<and> b \<le> first + len - 1"

definition ext4_ext_get_actual_len :: "ext4_extent \<Rightarrow> u16" where
  "ext4_ext_get_actual_len e =
     (if unat (ee_block_count e) \<le> EXT_INIT_MAX_LEN then ee_block_count e else ee_block_count e - of_nat EXT_INIT_MAX_LEN)"

definition ext4_ext_mark_initialized :: "ext4_extent \<Rightarrow> ext4_extent" where
  "ext4_ext_mark_initialized e = e\<lparr> ee_block_count := ext4_ext_get_actual_len e \<rparr>"

definition ext4_ext_mark_unwritten :: "ext4_extent \<Rightarrow> ext4_extent" where
  "ext4_ext_mark_unwritten e = e\<lparr> ee_block_count := ee_block_count e OR of_nat EXT_INIT_MAX_LEN \<rparr>"

definition ext4_ext_is_unwritten :: "ext4_extent \<Rightarrow> bool" where
  "ext4_ext_is_unwritten e \<longleftrightarrow> unat (ee_block_count e) > EXT_INIT_MAX_LEN"

definition ext4_ext_pblock :: "ext4_extent \<Rightarrow> u64" where
  "ext4_ext_pblock e = ucast (ee_start_lo e) OR push_bit 1 (push_bit 31 (ucast (ee_start_hi e)))"

definition ext4_idx_pblock :: "ext4_extent_index \<Rightarrow> u64" where
  "ext4_idx_pblock x = ucast (ei_leaf_lo x) OR push_bit 1 (push_bit 31 (ucast (ei_leaf_hi x)))"

definition ext4_ext_store_pblock :: "ext4_extent \<Rightarrow> u64 \<Rightarrow> ext4_extent" where
  "ext4_ext_store_pblock e pb = e\<lparr> ee_start_lo := ucast (pb AND 0xFFFFFFFF), ee_start_hi := ucast (drop_bit 32 pb) AND 0xFFFF \<rparr>"

definition ext4_idx_store_pblock :: "ext4_extent_index \<Rightarrow> u64 \<Rightarrow> ext4_extent_index" where
  "ext4_idx_store_pblock x pb = x\<lparr> ei_leaf_lo := ucast (pb AND 0xFFFFFFFF), ei_leaf_hi := ucast (drop_bit 32 pb) AND 0xFFFF \<rparr>"

section \<open>Nodes\<close>

definition ext_hdr :: "u8 list \<Rightarrow> ext4_extent_header res" where
  "ext_hdr d = rbind (rd_range d 0 12) (\<lambda>bs. Inr (eh_of_bytes bs))"

definition ext_set_hdr :: "u8 list \<Rightarrow> ext4_extent_header \<Rightarrow> u8 list res" where
  "ext_set_hdr d h = wr_range d 0 (eh_bytes h)"

definition ext_at :: "u8 list \<Rightarrow> nat \<Rightarrow> ext4_extent res" where
  "ext_at d i = rbind (rd_range d (12 + 12 * i) 12) (\<lambda>bs. Inr (ee_of_bytes bs))"

definition ext_put :: "u8 list \<Rightarrow> nat \<Rightarrow> ext4_extent \<Rightarrow> u8 list res" where
  "ext_put d i e = wr_range d (12 + 12 * i) (ee_bytes e)"

definition idx_at :: "u8 list \<Rightarrow> nat \<Rightarrow> ext4_extent_index res" where
  "idx_at d i = rbind (rd_range d (12 + 12 * i) 12) (\<lambda>bs. Inr (ei_of_bytes bs))"

definition idx_put :: "u8 list \<Rightarrow> nat \<Rightarrow> ext4_extent_index \<Rightarrow> u8 list res" where
  "idx_put d i x = wr_range d (12 + 12 * i) (ei_bytes x)"

text \<open>\<^verbatim>\<open>memmove\<close> of \<open>n\<close> records from position \<open>j\<close> to position \<open>i\<close>.\<close>

definition ext_move :: "u8 list \<Rightarrow> nat \<Rightarrow> nat \<Rightarrow> nat \<Rightarrow> u8 list res" where
  "ext_move d i j n = rbind (rd_range d (12 + 12 * j) (12 * n)) (\<lambda>bs. wr_range d (12 + 12 * i) bs)"

text \<open>The number of entries as an integer, for \<^verbatim>\<open>EXT_LAST_EXTENT\<close>; adding to the count wraps at 16 bits.\<close>

definition ext_entries :: "u8 list \<Rightarrow> nat res" where
  "ext_entries d = rbind (ext_hdr d) (\<lambda>h. Inr (unat (eh_entries_count h)))"

definition ext_max :: "u8 list \<Rightarrow> nat res" where
  "ext_max d = rbind (ext_hdr d) (\<lambda>h. Inr (unat (eh_max_entries_count h)))"

definition ext_add_entries :: "u8 list \<Rightarrow> u16 \<Rightarrow> u8 list res" where
  "ext_add_entries d n = rbind (ext_hdr d) (\<lambda>h. ext_set_hdr d (h\<lparr> eh_entries_count := eh_entries_count h + n \<rparr>))"

definition EXT4_EXTENT_TAIL_OFFSET :: "ext4_extent_header \<Rightarrow> nat" where
  "EXT4_EXTENT_TAIL_OFFSET h = 12 + 12 * unat (eh_max_entries_count h)"

definition ext4_ext_block_csum :: "ext4_sblock \<Rightarrow> u32 \<Rightarrow> ext4_inode \<Rightarrow> u8 list \<Rightarrow> u32 res" where
  "ext4_ext_block_csum sb index inode d =
     (if ext4_sb_feature_ro_com sb EXT4_FRO_COM_METADATA_CSUM then
        rbind (ext_hdr d) (\<lambda>h. rbind (rd_range d 0 (EXT4_EXTENT_TAIL_OFFSET h)) (\<lambda>bs.
        Inr (ext4_crc32c (ext4_crc32c (ext4_crc32c (ext4_crc32c EXT4_CRC32_INIT (sb_uuid sb)) (enc32 index))
               (enc32 (ext4_inode_get_generation inode))) bs)))
      else Inr 0)"

definition ext4_extent_block_csum_set :: "ext4_sblock \<Rightarrow> u32 \<Rightarrow> ext4_inode \<Rightarrow> u8 list \<Rightarrow> u8 list res" where
  "ext4_extent_block_csum_set sb index inode d =
     rbind (ext_hdr d) (\<lambda>h. rbind (ext4_ext_block_csum sb index inode d) (\<lambda>c.
     wr_range d (EXT4_EXTENT_TAIL_OFFSET h) (enc32 c)))"

text \<open>A checksum that does not match is only reported on the debug channel.\<close>

definition ext4_ext_check :: "ext4_sblock \<Rightarrow> u32 \<Rightarrow> ext4_inode \<Rightarrow> u8 list \<Rightarrow> u16 \<Rightarrow> unit res" where
  "ext4_ext_check sb index inode d depth =
     rbind (ext_hdr d) (\<lambda>h.
       if eh_magic h \<noteq> EXT4_EXTENT_MAGIC then Inl EIO
       else if eh_depth h \<noteq> depth then Inl EIO
       else if eh_max_entries_count h = 0 then Inl EIO
       else if eh_entries_count h > eh_max_entries_count h then Inl EIO
       else if ext4_sb_feature_ro_com sb EXT4_FRO_COM_METADATA_CSUM then
         rbind (rd_range d (EXT4_EXTENT_TAIL_OFFSET h) 4) (\<lambda>_.
         rbind (ext4_ext_block_csum sb index inode d) (\<lambda>_. Inr ()))
       else Inr ())"

text \<open>
  The binary search, over the first blocks \<open>key i\<close> of the records from \<open>l\<close> to \<open>r\<close>; the result is one past the
  last record that does not lie behind \<open>block\<close>.
\<close>

function ext_bsearch :: "(nat \<Rightarrow> u32 res) \<Rightarrow> u32 \<Rightarrow> nat \<Rightarrow> nat \<Rightarrow> nat res" where
  "ext_bsearch key block l r =
     (if \<not> l \<le> r then Inr l
      else
        let m = l + (r - l) div 2
        in case key m of
             Inl e \<Rightarrow> Inl e
           | Inr k \<Rightarrow> if block < k then (if m = 0 then Inl UNDEF else ext_bsearch key block l (m - 1))
                      else ext_bsearch key block (m + 1) r)"
  by pat_completeness auto
termination by (relation "measure (\<lambda>(key, block, l, r). r + 1 - l)") auto

declare ext_bsearch.simps [simp del]

definition ext_key :: "u8 list \<Rightarrow> nat \<Rightarrow> u32 res" where
  "ext_key d i = rbind (ext_at d i) (\<lambda>e. Inr (ee_first_block e))"

definition idx_key :: "u8 list \<Rightarrow> nat \<Rightarrow> u32 res" where
  "idx_key d i = rbind (idx_at d i) (\<lambda>x. Inr (ei_first_block x))"

definition ext4_ext_binsearch_idx :: "u8 list \<Rightarrow> u32 \<Rightarrow> nat res" where
  "ext4_ext_binsearch_idx d block =
     rbind (ext_entries d) (\<lambda>n. rbind (ext_bsearch (idx_key d) block 1 (n - 1)) (\<lambda>l. Inr (l - 1)))"

definition ext4_ext_binsearch :: "u8 list \<Rightarrow> u32 \<Rightarrow> nat option res" where
  "ext4_ext_binsearch d block =
     rbind (ext_entries d) (\<lambda>n.
       if n = 0 then Inr None
       else rbind (ext_bsearch (ext_key d) block 1 (n - 1)) (\<lambda>l. Inr (Some (l - 1))))"

end
