(* ===== verification/ExtentPath.thy ===== *)
theory ExtentPath
  imports Extent
begin

text \<open>
  Extent trees, second part of \<^verbatim>\<open>src/ext4_extent.c\<close>: the lookup path and the operations that read the tree.
  The state is the instance, the caller's inode reference and the array of path elements (\<^verbatim>\<open>NULL\<close> is
  the empty array); an element holds its block handle as the C struct does, so that a block released
  twice is an assertion failure of the model as it is of the code. The memory for the array is taken
  to be always there.
\<close>

section \<open>State\<close>

text \<open>Where a node's bytes are.\<close>

datatype ext_loc = InInode | InBlock ext4_block

definition EXT4_BLOCK_ZERO :: ext4_block where "EXT4_BLOCK_ZERO = \<lparr> b_lb_id = 0, b_buf = None \<rparr>"

record ext4_extent_path =
  ep_p_block :: u64
  ep_block :: ext4_block
  ep_depth :: nat
  ep_maxdepth :: nat
  ep_header :: "ext_loc option"
  ep_index :: "nat option"
  ep_extent :: "nat option"

definition path_zero :: ext4_extent_path where
  "path_zero = \<lparr> ep_p_block = 0, ep_block = EXT4_BLOCK_ZERO, ep_depth = 0, ep_maxdepth = 0, ep_header = None,
     ep_index = None, ep_extent = None \<rparr>"

type_synonym 'd estate = "'d istate \<times> ext4_extent_path list"

definition on_is :: "('d istate \<Rightarrow> 'a res \<times> 'd istate) \<Rightarrow> 'd estate \<Rightarrow> 'a res \<times> 'd estate" where
  "on_is m s = (case m (fst s) of (r, t) \<Rightarrow> (r, t, snd s))"

text \<open>The bytes of a node, and a store of all of them.\<close>

definition node_data :: "ext_loc option \<Rightarrow> 'd istate \<Rightarrow> u8 list res" where
  "node_data l s =
     (case l of
        None \<Rightarrow> Inl UNDEF
      | Some InInode \<Rightarrow> rbind (ir_load (snd s) (fst s)) (\<lambda>i. Inr (enc32s (in_blocks i)))
      | Some (InBlock b) \<Rightarrow> fs_data b (fst s))"

definition node_store :: "ext_loc option \<Rightarrow> u8 list \<Rightarrow> 'd istate \<Rightarrow> unit res \<times> 'd istate" where
  "node_store l d s =
     (case l of
        None \<Rightarrow> (Inl UNDEF, s)
      | Some InInode \<Rightarrow>
          on_fs (\<lambda>fs. sbind (sread (ir_load (snd s)) fs) (\<lambda>i fs.
                      ir_store (snd s) (i\<lparr> in_blocks := fst (get32s 15 d) \<rparr>) fs)) s
      | Some (InBlock b) \<Rightarrow> on_fs (fs_store b (Inr d)) s)"

definition node_modify :: "ext_loc option \<Rightarrow> (u8 list \<Rightarrow> u8 list res) \<Rightarrow> 'd istate \<Rightarrow> unit res \<times> 'd istate" where
  "node_modify l f s = sbind (sread (\<lambda>s. rbind (node_data l s) f) s) (node_store l)"

text \<open>The inode behind the reference, and the depth of its tree.\<close>

definition is_inode :: "'d istate \<Rightarrow> ext4_inode res" where "is_inode s = ir_load (snd s) (fst s)"

definition ext_depth :: "'d istate \<Rightarrow> nat res" where
  "ext_depth s = rbind (node_data (Some InInode) s) (\<lambda>d. rbind (ext_hdr d) (\<lambda>h. Inr (unat (eh_depth h))))"

text \<open>The path element at a position, and a store to it.\<close>

definition path_get :: "nat \<Rightarrow> 'd estate \<Rightarrow> ext4_extent_path res" where
  "path_get k s = (if k < length (snd s) then Inr (snd s ! k) else Inl UNDEF)"

definition path_upd :: "nat \<Rightarrow> (ext4_extent_path \<Rightarrow> ext4_extent_path) \<Rightarrow> 'd estate \<Rightarrow> unit res \<times> 'd estate" where
  "path_upd k f s =
     (if k < length (snd s) then (Inr (), fst s, (snd s)[k := f (snd s ! k)]) else (Inl UNDEF, s))"

definition path_node :: "nat \<Rightarrow> 'd estate \<Rightarrow> u8 list res" where
  "path_node k s = rbind (path_get k s) (\<lambda>p. node_data (ep_header p) (fst s))"

section \<open>Capacities\<close>

definition ext4_ext_space_block :: "ext4_sblock \<Rightarrow> u16" where
  "ext4_ext_space_block sb = ucast ((ext4_sb_get_block_size sb - 12) div 12)"

definition ext4_ext_space_block_idx :: "ext4_sblock \<Rightarrow> u16" where
  "ext4_ext_space_block_idx sb = ucast ((ext4_sb_get_block_size sb - 12) div 12)"

definition ext4_ext_space_root :: u16 where "ext4_ext_space_root = (60 - 12) div 12"
definition ext4_ext_space_root_idx :: u16 where "ext4_ext_space_root_idx = (60 - 12) div 12"

definition ext4_ext_max_entries :: "nat \<Rightarrow> 'd istate \<Rightarrow> u16 res" where
  "ext4_ext_max_entries depth s =
     rbind (ext_depth s) (\<lambda>dp.
       let sb = fs_sb (fst s)
       in Inr (if depth = dp then (if depth = 0 then ext4_ext_space_root else ext4_ext_space_root_idx)
               else if depth = 0 then ext4_ext_space_block sb else ext4_ext_space_block_idx sb))"

definition ext4_extent_tree_init :: "'d istate \<Rightarrow> unit res \<times> 'd istate" where
  "ext4_extent_tree_init s =
     sbind (node_modify (Some InInode) (\<lambda>d. rbind (ext_hdr d) (\<lambda>h.
              ext_set_hdr d (h\<lparr> eh_depth := 0, eh_entries_count := 0, eh_generation := 0, eh_magic := EXT4_EXTENT_MAGIC,
                eh_max_entries_count := (15 * 4 - 12) div 12 \<rparr>))) s) (\<lambda>_ s.
     (Inr (), fst s, (snd s)\<lparr> ir_dirty := True \<rparr>))"

section \<open>Blocks of the tree\<close>

text \<open>
  \<open>ext4_block_get\<close> into an existing handle: the early failures leave it as it is, the later ones store the
  block number, and a failed read clears that.
\<close>

definition get_handle :: "'d ext4_blockdev_iface \<Rightarrow> u64 \<Rightarrow> ext4_block \<Rightarrow> 'd ext4_fs \<Rightarrow> ext4_block" where
  "get_handle io pblk bh fs =
     (if bd_ph_refctr (fs_bdev fs) = 0 \<or> \<not> pblk < bd_lg_bcnt (fs_bdev fs) then bh
      else case fst (fs_block_get_noread io pblk fs) of
             Inl _ \<Rightarrow> bh\<lparr> b_lb_id := pblk \<rparr>
           | Inr b \<Rightarrow> b\<lparr> b_lb_id := 0 \<rparr>)"

definition read_extent_tree_block ::
    "'d ext4_blockdev_iface \<Rightarrow> u64 \<Rightarrow> nat \<Rightarrow> ext4_block \<Rightarrow> 'd istate \<Rightarrow> ext4_block res \<times> 'd istate" where
  "read_extent_tree_block io pblk depth bh s =
     (let errout = (\<lambda>bh e s. if b_lb_id bh \<noteq> 0
                then sbind (sforget (on_fs (fs_block_set io bh) s)) (\<lambda>_ s. (Inl e, s)) else (Inl e, s))
      in case on_fs (fs_block_get io pblk) s of
           (Inl e, s') \<Rightarrow> if fatal e then (Inl e, s') else errout (get_handle io pblk bh (fst s)) e s'
         | (Inr b, s') \<Rightarrow>
             scatch (sbind (sread is_inode s') (\<lambda>i s.
                     sbind (sread (\<lambda>s. rbind (fs_data b (fst s)) (\<lambda>d.
                       ext4_ext_check (fs_sb (fst s)) (ir_index (snd s)) i d (of_nat depth))) s) (\<lambda>_ s. (Inr b, s))))
               (errout b))"

text \<open>Changes to a node in a block mark the block, changes to the root the inode reference.\<close>

definition ext4_ext_dirty :: "nat \<Rightarrow> 'd estate \<Rightarrow> unit res \<times> 'd estate" where
  "ext4_ext_dirty k s =
     sbind (sread (path_get k) s) (\<lambda>p s.
       if b_lb_id (ep_block p) \<noteq> 0 then on_is (on_fs (fs_set_dirty (ep_block p))) s
       else (Inr (), (fst (fst s), (snd (fst s))\<lparr> ir_dirty := True \<rparr>), snd s))"

definition buf_is_dirty :: "ext4_block \<Rightarrow> 'd ext4_fs \<Rightarrow> bool res" where
  "buf_is_dirty b fs =
     (case b_buf b of
        None \<Rightarrow> Inl UNDEF
      | Some l \<Rightarrow>
          (case ext4_buf_lookup (bd_bc (fs_bdev fs)) l of
             None \<Rightarrow> Inl UNDEF
           | Some x \<Rightarrow> Inr (ext4_bcache_test_flag BC_DIRTY x)))"

text \<open>
  Releasing one element: the checksum of a dirty block is set first. A released handle has block number 0.
\<close>

definition drop_ref :: "'d ext4_blockdev_iface \<Rightarrow> ext4_extent_path \<Rightarrow> 'd istate \<Rightarrow> ext4_extent_path res \<times> 'd istate" where
  "drop_ref io p s =
     (if b_lb_id (ep_block p) = 0 then (Inr p, s)
      else
        sbind (sread (\<lambda>s. buf_is_dirty (ep_block p) (fst s)) s) (\<lambda>dirty s.
        sbind (if dirty then
                 sbind (sread is_inode s) (\<lambda>i s.
                 node_modify (ep_header p) (ext4_extent_block_csum_set (fs_sb (fst s)) (ir_index (snd s)) i) s)
               else (Inr (), s)) (\<lambda>_ s.
        case on_fs (fs_block_set io (ep_block p)) s of
          (Inl e, s) \<Rightarrow> if fatal e then (Inl e, s) else (Inr p, s)
        | (Inr _, s) \<Rightarrow> (Inr (p\<lparr> ep_block := (ep_block p)\<lparr> b_lb_id := 0 \<rparr> \<rparr>), s))))"

fun drop_refs_from :: "nat \<Rightarrow> 'd ext4_blockdev_iface \<Rightarrow> nat \<Rightarrow> 'd estate \<Rightarrow> unit res \<times> 'd estate" where
  "drop_refs_from 0 io k s = (Inr (), s)"
| "drop_refs_from (Suc n) io k s =
     sbind (sread (path_get k) s) (\<lambda>p s.
     sbind (on_is (drop_ref io p) s) (\<lambda>p s.
     sbind (path_upd k (\<lambda>_. p) s) (\<lambda>_ s.
     drop_refs_from n io (k + 1) s)))"

definition ext4_ext_drop_refs :: "'d ext4_blockdev_iface \<Rightarrow> nat \<Rightarrow> bool \<Rightarrow> 'd estate \<Rightarrow> unit res \<times> 'd estate" where
  "ext4_ext_drop_refs io k keep_other s =
     (if snd s = [] then (Inr (), s)
      else sbind (sread (path_get k) s) (\<lambda>p s. drop_refs_from ((if keep_other then 0 else ep_depth p) + 1) io k s))"

section \<open>Lookup\<close>

text \<open>The walk from level \<open>i\<close> down to the leaf, at path position \<open>ppos\<close>; \<open>bh\<close> is the local handle of the C code.\<close>

fun find_walk ::
    "nat \<Rightarrow> 'd ext4_blockdev_iface \<Rightarrow> u32 \<Rightarrow> nat \<Rightarrow> nat \<Rightarrow> ext4_block \<Rightarrow> 'd estate \<Rightarrow> nat res \<times> 'd estate" where
  "find_walk 0 io block depth ppos bh s = (Inr ppos, s)"
| "find_walk (Suc i) io block depth ppos bh s =
     sbind (sread (\<lambda>s. rbind (path_node ppos s) (\<lambda>d. rbind (ext4_ext_binsearch_idx d block) (\<lambda>x.
              rbind (idx_at d x) (\<lambda>e. Inr (x, ext4_idx_pblock e))))) s) (\<lambda>(x, pblk) s.
     sbind (path_upd ppos (\<lambda>p. p\<lparr> ep_index := Some x, ep_p_block := pblk, ep_depth := Suc i, ep_extent := None \<rparr>) s) (\<lambda>_ s.
     sbind (sread (path_get (ppos + 1)) s) (\<lambda>p s.
       if b_lb_id (ep_block p) = 0 \<or> b_lb_id (ep_block p) \<noteq> pblk then
         sbind (on_is (read_extent_tree_block io pblk i bh) s) (\<lambda>bh s.
           if ppos + 1 > depth then
             sbind (sforget (on_is (on_fs (fs_block_set io bh)) s)) (\<lambda>_ s. (Inl EIO, s))
           else
             sbind (path_upd (ppos + 1) (\<lambda>p. p\<lparr> ep_block := bh, ep_header := Some (InBlock bh) \<rparr>) s) (\<lambda>_ s.
             find_walk i io block depth (ppos + 1) bh s))
       else find_walk i io block depth (ppos + 1) bh s)))"

text \<open>An existing path is released and used again unless it is too short.\<close>

definition find_start :: "'d ext4_blockdev_iface \<Rightarrow> nat \<Rightarrow> 'd estate \<Rightarrow> unit res \<times> 'd estate" where
  "find_start io depth s =
     sbind (if snd s = [] then (Inr (), s)
            else sbind (ext4_ext_drop_refs io 0 False s) (\<lambda>_ s.
                 sbind (sread (path_get 0) s) (\<lambda>p s. (Inr (), fst s, if depth > ep_maxdepth p then [] else snd s)))) (\<lambda>_ s.
     (Inr (), fst s,
      if snd s = [] then (replicate (depth + 2) path_zero)[0 := path_zero\<lparr> ep_maxdepth := depth + 1 \<rparr>] else snd s))"

definition ext4_find_extent :: "'d ext4_blockdev_iface \<Rightarrow> u32 \<Rightarrow> 'd estate \<Rightarrow> unit res \<times> 'd estate" where
  "ext4_find_extent io block s =
     sbind (sread (\<lambda>s. ext_depth (fst s)) s) (\<lambda>depth s.
     sbind (find_start io depth s) (\<lambda>_ s.
     sbind (path_upd 0 (\<lambda>p. p\<lparr> ep_header := Some InInode, ep_block := EXT4_BLOCK_ZERO \<rparr>) s) (\<lambda>_ s.
     scatch
       (sbind (find_walk depth io block depth 0 EXT4_BLOCK_ZERO s) (\<lambda>ppos s.
        sbind (sread (\<lambda>s. rbind (path_node ppos s) (\<lambda>d. rbind (ext4_ext_binsearch d block) (\<lambda>x.
                 case x of None \<Rightarrow> Inr (None, None)
                 | Some i \<Rightarrow> rbind (ext_at d i) (\<lambda>e. Inr (Some i, Some (ext4_ext_pblock e)))))) s) (\<lambda>(x, pb) s.
        path_upd ppos (\<lambda>p. p\<lparr> ep_depth := 0, ep_extent := x, ep_index := None,
          ep_p_block := (case pb of None \<Rightarrow> ep_p_block p | Some b \<Rightarrow> b) \<rparr>) s)))
       (\<lambda>e s. sbind (ext4_ext_drop_refs io 0 False s) (\<lambda>_ s. (Inl e, fst s, []))))))"

end
