(* ===== verification/ExtentTree.thy ===== *)
theory ExtentTree
  imports ExtentPath
begin

text \<open>
  Extent trees, third part of \<^verbatim>\<open>src/ext4_extent.c\<close>: inserting an extent (with splitting and growing of the tree),
  removing a range, converting unwritten extents, and \<open>ext4_extent_get_blocks\<close> on top of them.
\<close>

section \<open>Blocks for the tree\<close>

definition ext4_fs_inode_to_goal_block :: "'d istate \<Rightarrow> u64" where
  "ext4_fs_inode_to_goal_block s = ucast ((ir_index (snd s) - 1) div sb_inodes_per_group (fs_sb (fst s)))"

definition ext4_ext_find_goal :: "u32 \<Rightarrow> 'd estate \<Rightarrow> u64 res" where
  "ext4_ext_find_goal block s =
     (if snd s = [] then Inr (ext4_fs_inode_to_goal_block (fst s))
      else rbind (path_get 0 s) (\<lambda>p0. rbind (path_get (ep_depth p0) s) (\<lambda>p.
        case ep_extent p of
          Some i \<Rightarrow>
            rbind (path_node (ep_depth p0) s) (\<lambda>d. rbind (ext_at d i) (\<lambda>e.
              let ext_block = ee_first_block e
              in Inr (if block > ext_block then ext4_ext_pblock e + ucast (block - ext_block)
                      else ext4_ext_pblock e - ucast (ext_block - block))))
        | None \<Rightarrow>
            Inr (if b_lb_id (ep_block p) \<noteq> 0 then b_lb_id (ep_block p) else ext4_fs_inode_to_goal_block (fst s)))))"

text \<open>The block, 0 for none, and the code; a block can come with a code that is not \<^verbatim>\<open>EOK\<close>.\<close>

definition ext4_new_meta_blocks ::
    "'d ext4_blockdev_iface \<Rightarrow> u64 \<Rightarrow> 'd istate \<Rightarrow> (u64 \<times> unit res) res \<times> 'd istate" where
  "ext4_new_meta_blocks io goal s =
     sbind (scatch (balloc_alloc_out io goal s) (\<lambda>e s. (Inr (0, Inl e), s))) (\<lambda>(block, r) s.
       case r of
         Inl e \<Rightarrow> if fatal e then (Inl e, s) else (Inr (block, r), s)
       | Inr _ \<Rightarrow> (Inr (block, r), s))"

definition ext4_ext_free_blocks :: "'d ext4_blockdev_iface \<Rightarrow> u64 \<Rightarrow> u32 \<Rightarrow> 'd istate \<Rightarrow> unit res \<times> 'd istate" where
  "ext4_ext_free_blocks io block cnt s = sforget (ext4_balloc_free_blocks io block cnt s)"

definition ext4_ext_new_meta_block ::
    "'d ext4_blockdev_iface \<Rightarrow> ext4_extent \<Rightarrow> 'd estate \<Rightarrow> (u64 \<times> unit res) res \<times> 'd estate" where
  "ext4_ext_new_meta_block io ex s =
     sbind (sread (ext4_ext_find_goal (ee_first_block ex)) s) (\<lambda>goal s. on_is (ext4_new_meta_blocks io goal) s)"

section \<open>Inserting into a node\<close>

text \<open>A store through the \<^verbatim>\<open>index\<close> pointer of a path element.\<close>

definition idx_set_first :: "nat \<Rightarrow> u32 \<Rightarrow> 'd estate \<Rightarrow> unit res \<times> 'd estate" where
  "idx_set_first k v s =
     sbind (sread (path_get k) s) (\<lambda>p s.
       case ep_index p of
         None \<Rightarrow> (Inl UNDEF, s)
       | Some x \<Rightarrow> on_is (node_modify (ep_header p) (\<lambda>d. rbind (idx_at d x) (\<lambda>e. idx_put d x (e\<lparr> ei_first_block := v \<rparr>)))) s)"

fun correct_up :: "nat \<Rightarrow> u32 \<Rightarrow> 'd estate \<Rightarrow> unit res \<times> 'd estate" where
  "correct_up 0 border s = (Inr (), s)"
| "correct_up (Suc k) border s =
     sbind (sread (path_get (k + 1)) s) (\<lambda>p s.
       if ep_index p \<noteq> Some 0 then (Inr (), s)
       else
         sbind (idx_set_first k border s) (\<lambda>_ s.
         sbind (ext4_ext_dirty k s) (\<lambda>_ s. correct_up k border s)))"

definition ext4_ext_correct_indexes :: "'d estate \<Rightarrow> unit res \<times> 'd estate" where
  "ext4_ext_correct_indexes s =
     sbind (sread (\<lambda>s. ext_depth (fst s)) s) (\<lambda>depth s.
     sbind (sread (path_get depth) s) (\<lambda>p s.
       case ep_extent p of
         None \<Rightarrow> (Inl EIO, s)
       | Some i \<Rightarrow>
           if ep_header p = None then (Inl EIO, s)
           else if depth = 0 \<or> i \<noteq> 0 then (Inr (), s)
           else
             sbind (sread (\<lambda>s. rbind (path_node depth s) (\<lambda>d. ext_key d i)) s) (\<lambda>border s.
             sbind (idx_set_first (depth - 1) border s) (\<lambda>_ s.
             sbind (ext4_ext_dirty (depth - 1) s) (\<lambda>_ s. correct_up (depth - 1) border s)))))"

definition ext_can_join :: "ext4_extent \<Rightarrow> ext4_extent \<Rightarrow> bool" where
  "ext_can_join ex1 ex2 \<longleftrightarrow>
     unat (ext4_ext_get_actual_len ex1) + unat (ext4_ext_get_actual_len ex2) \<le>
       (if ext4_ext_is_unwritten ex1 then EXT_UNWRITTEN_MAX_LEN else EXT_INIT_MAX_LEN)"

definition ext4_ext_can_prepend :: "ext4_extent \<Rightarrow> ext4_extent \<Rightarrow> bool" where
  "ext4_ext_can_prepend ex1 ex2 \<longleftrightarrow>
     ext4_ext_pblock ex2 + ucast (ext4_ext_get_actual_len ex2) = ext4_ext_pblock ex1 \<and> ext_can_join ex1 ex2 \<and>
     ee_first_block ex2 + ucast (ext4_ext_get_actual_len ex2) = ee_first_block ex1"

definition ext4_ext_can_append :: "ext4_extent \<Rightarrow> ext4_extent \<Rightarrow> bool" where
  "ext4_ext_can_append ex1 ex2 \<longleftrightarrow>
     ext4_ext_pblock ex1 + ucast (ext4_ext_get_actual_len ex1) = ext4_ext_pblock ex2 \<and> ext_can_join ex1 ex2 \<and>
     ee_first_block ex1 + ucast (ext4_ext_get_actual_len ex1) = ee_first_block ex2"

text \<open>The two ways of joining: the count grows, and for a prepended extent the first logical block moves.\<close>

definition ext_joined :: "ext4_extent \<Rightarrow> ext4_extent \<Rightarrow> ext4_extent" where
  "ext_joined cur new =
     (let e = cur\<lparr> ee_block_count := ext4_ext_get_actual_len cur + ext4_ext_get_actual_len new \<rparr>
      in if ext4_ext_is_unwritten cur then ext4_ext_mark_unwritten e else e)"

text \<open>
  What happens to the bytes of the leaf; \<open>cur\<close> is the extent pointer of the path. A record is joined to another or
  put in a place of its own, or the leaf is full; on an inconsistency (\<open>LeafBad\<close>) the bytes may have moved already.
\<close>

datatype leaf_step = LeafJoin "u8 list" nat | LeafPut "u8 list" nat | LeafFull | LeafBad "u8 list"

definition leaf_make_room :: "u8 list \<Rightarrow> nat \<Rightarrow> ext4_extent \<Rightarrow> leaf_step res" where
  "leaf_make_room d ex new =
     rbind (ext_hdr d) (\<lambda>h.
       let entries = unat (eh_entries_count h); max = unat (eh_max_entries_count h)
       in if ex > entries then Inl EASSERT
          else rbind (if ex < entries then ext_move d (ex + 1) ex (entries - ex) else Inr d) (\<lambda>d.
               if ex \<ge> max then Inr (LeafBad d)
               else rbind (ext_at d ex) (\<lambda>old.
                    rbind (ext_put d ex (ext4_ext_store_pblock
                             (old\<lparr> ee_first_block := ee_first_block new, ee_block_count := ee_block_count new \<rparr>)
                             (ext4_ext_pblock new))) (\<lambda>d.
                    rbind (ext_add_entries d 1) (\<lambda>d.
                    rbind (ext_entries d) (\<lambda>n. Inr (if ex \<ge> n then LeafBad d else LeafPut d ex)))))))"

definition leaf_insert :: "u8 list \<Rightarrow> nat option \<Rightarrow> ext4_extent \<Rightarrow> u32 \<Rightarrow> leaf_step res" where
  "leaf_insert d cur new flags =
     rbind (case cur of None \<Rightarrow> Inr None | Some i \<Rightarrow> rbind (ext_at d i) (\<lambda>e. Inr (Some (i, e)))) (\<lambda>c.
     rbind (ext_hdr d) (\<lambda>h.
       let full = eh_entries_count h = eh_max_entries_count h
       in case c of
            None \<Rightarrow> if full then Inr LeafFull else leaf_make_room d 0 new
          | Some (i, e) \<Rightarrow>
              if ee_first_block new = ee_first_block e then Inr (LeafBad d)
              else if flags AND EXT4_EXT_NO_COMBINE = 0 \<and> ext4_ext_can_append e new then
                rbind (ext_put d i (ext_joined e new)) (\<lambda>d. Inr (LeafJoin d i))
              else if flags AND EXT4_EXT_NO_COMBINE = 0 \<and> ext4_ext_can_prepend e new then
                rbind (ext_put d i (ext_joined (e\<lparr> ee_first_block := ee_first_block new \<rparr>) new)) (\<lambda>d. Inr (LeafJoin d i))
              else if full then Inr LeafFull
              else leaf_make_room d (if ee_first_block new > ee_first_block e then i + 1 else i) new))"

text \<open>The result says whether the leaf has to be split first (the code returns \<^verbatim>\<open>EIO\<close> with a flag then).\<close>

definition ext4_ext_insert_leaf :: "nat \<Rightarrow> ext4_extent \<Rightarrow> u32 \<Rightarrow> 'd estate \<Rightarrow> bool res \<times> 'd estate" where
  "ext4_ext_insert_leaf at new flags s =
     (let fin = (\<lambda>ex s. sbind (ext4_ext_dirty at s) (\<lambda>_ s.
            sbind (sread (\<lambda>s. rbind (path_node at s) (\<lambda>d. ext_at d ex)) s) (\<lambda>e s.
            sbind (path_upd at (\<lambda>p. p\<lparr> ep_extent := Some ex, ep_p_block := ext4_ext_pblock e \<rparr>) s) (\<lambda>_ s.
            (Inr False, s)))))
      in sbind (sread (path_get at) s) (\<lambda>p s.
         sbind (sread (\<lambda>s. rbind (path_node at s) (\<lambda>d. leaf_insert d (ep_extent p) new flags)) s) (\<lambda>r s.
         case r of
           LeafFull \<Rightarrow> (Inr True, s)
         | LeafBad d \<Rightarrow> sbind (on_is (node_store (ep_header p) d) s) (\<lambda>_ s. (Inl EIO, s))
         | LeafJoin d ex \<Rightarrow> sbind (on_is (node_store (ep_header p) d) s) (\<lambda>_ s. fin ex s)
         | LeafPut d ex \<Rightarrow>
             sbind (on_is (node_store (ep_header p) d) s) (\<lambda>_ s.
             sbind (path_upd at (\<lambda>p. if ep_extent p = None then p\<lparr> ep_extent := Some 0 \<rparr> else p) s) (\<lambda>_ s.
             sbind (ext4_ext_correct_indexes s) (\<lambda>_ s. fin ex s))))))"

section \<open>Inserting an index\<close>

text \<open>As for a leaf; the position of the new record is the result.\<close>

datatype idx_step = IdxPut "u8 list" nat | IdxBad "u8 list"

definition idx_insert :: "u8 list \<Rightarrow> nat option \<Rightarrow> u32 \<Rightarrow> u64 \<Rightarrow> idx_step res" where
  "idx_insert d cur insert_index insert_block =
     rbind (case cur of None \<Rightarrow> Inr None | Some i \<Rightarrow> rbind (idx_key d i) (\<lambda>k. Inr (Some (i, k)))) (\<lambda>c.
     rbind (ext_hdr d) (\<lambda>h.
       let entries = unat (eh_entries_count h); max = unat (eh_max_entries_count h);
           ix = (case c of None \<Rightarrow> 0 | Some (i, k) \<Rightarrow> if insert_index > k then i + 1 else i)
       in if (case c of None \<Rightarrow> False | Some (i, k) \<Rightarrow> insert_index = k) then Inr (IdxBad d)
          else if entries = max then Inr (IdxBad d)
          else if ix \<ge> max then Inr (IdxBad d)
          else if ix > entries then Inl EASSERT
          else rbind (if ix < entries then ext_move d (ix + 1) ix (entries - ix) else Inr d) (\<lambda>d.
               rbind (idx_at d ix) (\<lambda>old.
               rbind (idx_put d ix (ext4_idx_store_pblock (old\<lparr> ei_first_block := insert_index \<rparr>) insert_block)) (\<lambda>d.
               rbind (ext_add_entries d 1) (\<lambda>d.
               rbind (ext_entries d) (\<lambda>n. Inr (if ix \<ge> n then IdxBad d else IdxPut d ix))))))))"

definition ext4_ext_insert_index :: "nat \<Rightarrow> u32 \<Rightarrow> u64 \<Rightarrow> bool \<Rightarrow> 'd estate \<Rightarrow> unit res \<times> 'd estate" where
  "ext4_ext_insert_index at insert_index insert_block set_to_ix s =
     sbind (sread (path_get at) s) (\<lambda>p s.
     sbind (sread (\<lambda>s. rbind (path_node at s) (\<lambda>d. idx_insert d (ep_index p) insert_index insert_block)) s) (\<lambda>r s.
     case r of
       IdxBad d \<Rightarrow> sbind (on_is (node_store (ep_header p) d) s) (\<lambda>_ s. (Inl EIO, s))
     | IdxPut d ix \<Rightarrow>
         sbind (on_is (node_store (ep_header p) d) s) (\<lambda>_ s.
         sbind (path_upd at (\<lambda>p. if ep_index p = None then p\<lparr> ep_index := Some 0 \<rparr> else p) s) (\<lambda>_ s.
         sbind (ext4_ext_dirty at s) (\<lambda>_ s.
         if set_to_ix then
           sbind (sread (\<lambda>s. rbind (path_node at s) (\<lambda>d. idx_at d ix)) s) (\<lambda>e s.
           path_upd at (\<lambda>p. p\<lparr> ep_index := Some ix, ep_p_block := ext4_idx_pblock e \<rparr>) s)
         else (Inr (), s))))))"

section \<open>Splitting a path\<close>

text \<open>The new nodes are collected in a second array, \<^verbatim>\<open>npath\<close>.\<close>

type_synonym 'd sstate = "'d estate \<times> ext4_extent_path list"

definition on_es :: "('d estate \<Rightarrow> 'a res \<times> 'd estate) \<Rightarrow> 'd sstate \<Rightarrow> 'a res \<times> 'd sstate" where
  "on_es m s = (case m (fst s) of (r, t) \<Rightarrow> (r, t, snd s))"

definition npath_get :: "nat \<Rightarrow> 'd sstate \<Rightarrow> ext4_extent_path res" where
  "npath_get k s = (if k < length (snd s) then Inr (snd s ! k) else Inl UNDEF)"

definition npath_put :: "nat \<Rightarrow> ext4_extent_path \<Rightarrow> 'd sstate \<Rightarrow> unit res \<times> 'd sstate" where
  "npath_put k p s = (if k < length (snd s) then (Inr (), fst s, (snd s)[k := p]) else (Inl UNDEF, s))"

definition ext4_ext_init_header :: "nat \<Rightarrow> ext_loc \<Rightarrow> 'd istate \<Rightarrow> unit res \<times> 'd istate" where
  "ext4_ext_init_header depth loc s =
     sbind (sread (ext4_ext_max_entries depth) s) (\<lambda>m s.
     node_modify (Some loc) (\<lambda>d. rbind (ext_hdr d) (\<lambda>h.
       ext_set_hdr d (h\<lparr> eh_entries_count := 0, eh_max_entries_count := m, eh_magic := EXT4_EXTENT_MAGIC,
         eh_depth := of_nat depth \<rparr>))) s)"

text \<open>
  Moving the records behind position \<open>i\<close> of a full node into a new node, from its position \<open>to\<close> on. The
  number moved is counted from the capacity of the node.
\<close>

definition split_move :: "nat \<Rightarrow> nat \<Rightarrow> ext_loc \<Rightarrow> nat \<Rightarrow> 'd estate \<Rightarrow> nat res \<times> 'd estate" where
  "split_move k i loc to s =
     sbind (sread (\<lambda>s. rbind (path_node k s) ext_max) s) (\<lambda>mx s.
       if i \<ge> mx then (Inl UNDEF, s)
       else
         let m = mx - 1 - i
         in if m = 0 then (Inr 0, s)
            else
              sbind (sread (path_get k) s) (\<lambda>p s.
              sbind (sread (\<lambda>s. rbind (path_node k s) (\<lambda>d. rd_range d (12 + 12 * (i + 1)) (12 * m))) s) (\<lambda>bs s.
              sbind (on_is (node_modify (Some loc) (\<lambda>d. rbind (wr_range d (12 + 12 * to) bs) (\<lambda>d.
                       ext_add_entries d (of_nat m)))) s) (\<lambda>_ s.
              sbind (on_is (node_modify (ep_header p) (\<lambda>d. ext_add_entries d (- of_nat m))) s) (\<lambda>_ s.
              sbind (ext4_ext_dirty k s) (\<lambda>_ s. (Inr m, s)))))))"

text \<open>One level: the leaf, or an index node whose first record points to the node split before.\<close>

definition split_level ::
    "nat \<Rightarrow> nat \<Rightarrow> nat \<Rightarrow> u32 \<Rightarrow> ext4_block \<Rightarrow> 'd sstate \<Rightarrow> unit res \<times> 'd sstate" where
  "split_level depth i na insert_index bh s =
     (let loc = InBlock bh
      in sbind (sread (\<lambda>s. path_get i (fst s)) s) (\<lambda>p s.
         if i = depth then
           (case ep_extent p of
              None \<Rightarrow> (Inl UNDEF, s)
            | Some e \<Rightarrow>
                sbind (on_es (on_is (ext4_ext_init_header 0 loc)) s) (\<lambda>_ s.
                sbind (on_es (split_move i e loc 0) s) (\<lambda>m s.
                sbind (sread (\<lambda>s. rbind (node_data (Some loc) (fst (fst s))) (\<lambda>d. ext_at d 0)) s) (\<lambda>x s.
                sbind (npath_put na \<lparr> ep_p_block = (if m = 0 then 0 else ext4_ext_pblock x), ep_block = bh, ep_depth = 0,
                         ep_maxdepth = 0, ep_header = Some loc, ep_index = None,
                         ep_extent = (if m = 0 then None else Some 0) \<rparr> s) (\<lambda>_ s.
                on_es (on_is (on_fs (fs_set_dirty bh))) s)))))
         else
           (case ep_index p of
              None \<Rightarrow> (Inl UNDEF, s)
            | Some e \<Rightarrow>
                sbind (on_es (on_is (ext4_ext_init_header (depth - i) loc)) s) (\<lambda>_ s.
                sbind (sread (npath_get (na + 1)) s) (\<lambda>q s.
                sbind (on_es (on_is (node_modify (Some loc) (\<lambda>d. rbind (idx_at d 0) (\<lambda>x.
                         rbind (idx_put d 0 (ext4_idx_store_pblock (x\<lparr> ei_first_block := insert_index \<rparr>) (b_lb_id (ep_block q)))) (\<lambda>d.
                         ext_add_entries d 1))))) s) (\<lambda>_ s.
                sbind (on_es (split_move i e loc 1) s) (\<lambda>_ s.
                sbind (sread (\<lambda>s. rbind (node_data (Some loc) (fst (fst s))) (\<lambda>d. idx_at d 0)) s) (\<lambda>x s.
                sbind (npath_put na \<lparr> ep_p_block = ext4_idx_pblock x, ep_block = bh, ep_depth = depth - i, ep_maxdepth = 0,
                         ep_header = Some loc, ep_index = Some 0, ep_extent = None \<rparr> s) (\<lambda>_ s.
                on_es (on_is (on_fs (fs_set_dirty bh))) s))))))))) "

text \<open>
  The levels from \<open>depth\<close> up to \<open>at\<close>. A block that was allocated and has no handle yet is freed when it came with an
  error, or when its handle cannot be got.
\<close>

fun split_levels ::
    "nat \<Rightarrow> 'd ext4_blockdev_iface \<Rightarrow> nat \<Rightarrow> nat \<Rightarrow> nat \<Rightarrow> ext4_extent \<Rightarrow> u32 \<Rightarrow> 'd sstate \<Rightarrow> unit res \<times> 'd sstate" where
  "split_levels 0 io depth i na new insert_index s = (Inr (), s)"
| "split_levels (Suc n) io depth i na new insert_index s =
     sbind (on_es (ext4_ext_new_meta_block io new) s) (\<lambda>(newblock, r) s.
     sbind (scatch (sbind (r, s) (\<lambda>_ s. on_es (on_is (on_fs (fs_block_get_noread io newblock))) s)) (\<lambda>e s.
              if newblock = 0 then (Inl e, s)
              else sbind (on_es (on_is (ext4_ext_free_blocks io newblock 1)) s) (\<lambda>_ s. (Inl e, s)))) (\<lambda>bh s.
     sbind (split_level depth i na insert_index bh s) (\<lambda>_ s.
     split_levels n io depth (i - 1) (na - 1) new insert_index s)))"

text \<open>On an error the new nodes are given back, from the leaf up.\<close>

fun split_undo :: "nat \<Rightarrow> 'd ext4_blockdev_iface \<Rightarrow> 'd sstate \<Rightarrow> unit res \<times> 'd sstate" where
  "split_undo 0 io s = (Inr (), s)"
| "split_undo (Suc n) io s =
     sbind (sread (npath_get n) s) (\<lambda>p s.
     sbind (if b_lb_id (ep_block p) \<noteq> 0 then
              sbind (sforget (on_es (on_is (on_fs (fs_block_set io (ep_block p)))) s)) (\<lambda>_ s.
              sbind (on_es (on_is (ext4_ext_free_blocks io (b_lb_id (ep_block p)) 1)) s) (\<lambda>_ s.
              npath_put n (p\<lparr> ep_block := EXT4_BLOCK_ZERO \<rparr>) s))
            else (Inr (), s)) (\<lambda>_ s. split_undo n io s))"

definition ext4_ext_split_node ::
    "'d ext4_blockdev_iface \<Rightarrow> nat \<Rightarrow> ext4_extent \<Rightarrow> 'd sstate \<Rightarrow> bool res \<times> 'd sstate" where
  "ext4_ext_split_node io at new s =
     sbind (sread (\<lambda>s. ext_depth (fst (fst s))) s) (\<lambda>depth s.
       if at = 0 then (Inl EASSERT, s)
       else if at > depth then (Inl UNDEF, s)
       else
         sbind (sread (\<lambda>s. rbind (path_get depth (fst s)) (\<lambda>p. rbind (path_node depth (fst s)) (\<lambda>d. rbind (ext_max d) (\<lambda>m.
                  case ep_extent p of
                    None \<Rightarrow> Inl UNDEF
                  | Some e \<Rightarrow> if e + 1 \<noteq> m then ext_key d (e + 1) else Inr (ee_first_block new))))) s) (\<lambda>insert_index s.
         let right = \<not> ee_first_block new < insert_index
         in scatch
              (sbind (split_levels (depth - at + 1) io depth depth (depth - at) new insert_index s) (\<lambda>_ s.
               sbind (sread (npath_get 0) s) (\<lambda>q s.
               sbind (on_es (ext4_ext_insert_index (at - 1) insert_index (b_lb_id (ep_block q)) right) s) (\<lambda>_ s.
               (Inr right, s)))))
              (\<lambda>e s. sbind (split_undo (depth - at + 1) io s) (\<lambda>_ s. (Inl e, s)))))"

section \<open>Growing the tree\<close>

definition grow_new_node :: "'d ext4_blockdev_iface \<Rightarrow> ext4_block \<Rightarrow> 'd istate \<Rightarrow> unit res \<times> 'd istate" where
  "grow_new_node io bh s =
     sbind (sread is_inode s) (\<lambda>i s.
     sbind (sread ext_depth s) (\<lambda>depth s.
       let sb = fs_sb (fst s)
       in node_modify (Some (InBlock bh)) (\<lambda>d. rbind (wr_range d 0 (enc32s (in_blocks i))) (\<lambda>d. rbind (ext_hdr d) (\<lambda>h.
            rbind (ext_set_hdr d (h\<lparr> eh_magic := EXT4_EXTENT_MAGIC, eh_max_entries_count :=
                     (if depth \<noteq> 0 then ext4_ext_space_block_idx sb else ext4_ext_space_block sb) \<rparr>)) (\<lambda>d.
            ext4_extent_block_csum_set sb (ir_index (snd s)) i d)))) s))"

definition grow_root :: "u64 \<Rightarrow> 'd istate \<Rightarrow> unit res \<times> 'd istate" where
  "grow_root newblock s =
     node_modify (Some InInode) (\<lambda>d. rbind (idx_at d 0) (\<lambda>x. rbind (idx_put d 0 (ext4_idx_store_pblock x newblock)) (\<lambda>d.
       rbind (ext_hdr d) (\<lambda>h.
       ext_set_hdr d (h\<lparr> eh_entries_count := 1,
         eh_max_entries_count := (if eh_depth h = 0 then ext4_ext_space_root_idx else eh_max_entries_count h),
         eh_depth := eh_depth h + 1 \<rparr>))))) s"

text \<open>
  The code of the allocator counts only when there is no block; an allocator that hands out block 0 is taken at its word
  and nothing is grown.
\<close>

definition ext4_ext_grow_indepth :: "'d ext4_blockdev_iface \<Rightarrow> 'd istate \<Rightarrow> unit res \<times> 'd istate" where
  "ext4_ext_grow_indepth io s =
     sbind (sread ext_depth s) (\<lambda>depth s.
     sbind (sread (\<lambda>s. if depth \<noteq> 0
              then rbind (node_data (Some InInode) s) (\<lambda>d. rbind (idx_at d 0) (\<lambda>x. Inr (ext4_idx_pblock x)))
              else Inr (ext4_fs_inode_to_goal_block s)) s) (\<lambda>goal s.
     sbind (ext4_new_meta_blocks io goal s) (\<lambda>(newblock, r) s.
       if newblock = 0 then (r, s)
       else
         sbind (scatch (on_fs (fs_block_get_noread io newblock) s) (\<lambda>e s.
                  sbind (ext4_ext_free_blocks io newblock 1 s) (\<lambda>_ s. (Inl e, s)))) (\<lambda>bh s.
         sbind (grow_new_node io bh s) (\<lambda>_ s.
         sbind (grow_root newblock s) (\<lambda>_ s.
         sbind (on_fs (fs_set_dirty bh) s) (\<lambda>_ s.
         sforget (on_fs (fs_block_set io bh) (fst s, (snd s)\<lparr> ir_dirty := True \<rparr>))))))))) "

section \<open>Inserting an extent\<close>

text \<open>The number of levels, from the leaf up, that have no room; \<open>depth + 1\<close> when the root has none.\<close>

fun full_levels :: "nat \<Rightarrow> 'd estate \<Rightarrow> nat res" where
  "full_levels i s =
     rbind (path_node i s) (\<lambda>d. rbind (ext_hdr d) (\<lambda>h.
       if eh_entries_count h < eh_max_entries_count h then Inr 0
       else case i of 0 \<Rightarrow> Inr 1 | Suc j \<Rightarrow> rbind (full_levels j s) (\<lambda>n. Inr (n + 1))))"

declare full_levels.simps [simp del]

text \<open>The path takes over the new nodes, or these are released.\<close>

fun take_over :: "nat \<Rightarrow> 'd ext4_blockdev_iface \<Rightarrow> nat \<Rightarrow> bool \<Rightarrow> 'd sstate \<Rightarrow> unit res \<times> 'd sstate" where
  "take_over 0 io i right s = (Inr (), s)"
| "take_over (Suc level) io i right s =
     sbind (sread (npath_get level) s) (\<lambda>q s.
     sbind (if right then
              sbind (on_es (ext4_ext_drop_refs io (i + level) True) s) (\<lambda>_ s.
              sbind (on_es (path_upd (i + level) (\<lambda>_. q)) s) (\<lambda>_ s. npath_put level path_zero s))
            else
              sbind (on_es (on_is (drop_ref io q)) s) (\<lambda>q s. npath_put level q s)) (\<lambda>_ s.
     take_over level io i right s))"

text \<open>
  Making room: the tree grows when every node of the path is full, and the path is split below the lowest node with
  room. When the lookup after growing fails, the local path of the code points to freed memory.
\<close>

definition insert_make_room ::
    "'d ext4_blockdev_iface \<Rightarrow> ext4_extent \<Rightarrow> 'd estate \<Rightarrow> unit res \<times> 'd estate" where
  "insert_make_room io new s =
     sbind (sread (\<lambda>s. ext_depth (fst s)) s) (\<lambda>depth s.
     sbind (sread (full_levels depth) s) (\<lambda>level s.
     sbind (if level \<le> depth then (Inr (depth, level), s)
            else
              sbind (on_is (ext4_ext_grow_indepth io) s) (\<lambda>_ s.
              case ext4_find_extent io (ee_first_block new) s of
                (Inl e, s) \<Rightarrow> (Inl UNDEF, s)
              | (Inr _, s) \<Rightarrow> (Inr (depth + 1, level - 1), s))) (\<lambda>(depth, level) s.
       if level = 0 then (Inr (), s)
       else
         let i = depth - (level - 1)
         in case sbind (ext4_ext_split_node io i new (s, replicate level path_zero)) (take_over level io i) of
              (r, (s, _)) \<Rightarrow> (r, s))))"

text \<open>
  A leaf that was split has room, so one repetition is enough; the fuel allows more. On an error the path is
  released.
\<close>

fun insert_rounds ::
    "nat \<Rightarrow> 'd ext4_blockdev_iface \<Rightarrow> ext4_extent \<Rightarrow> u32 \<Rightarrow> 'd estate \<Rightarrow> unit res \<times> 'd estate" where
  "insert_rounds 0 io new flags s = (Inl EHANG, s)"
| "insert_rounds (Suc n) io new flags s =
     sbind (sread (\<lambda>s. ext_depth (fst s)) s) (\<lambda>depth s.
     sbind (ext4_ext_insert_leaf depth new flags s) (\<lambda>need_split s.
       if need_split then sbind (insert_make_room io new s) (\<lambda>_ s. insert_rounds n io new flags s)
       else (Inr (), s)))"

definition EXT_INSERT_FUEL :: nat where "EXT_INSERT_FUEL = 16"

definition ext4_ext_insert_extent ::
    "'d ext4_blockdev_iface \<Rightarrow> ext4_extent \<Rightarrow> u32 \<Rightarrow> 'd estate \<Rightarrow> unit res \<times> 'd estate" where
  "ext4_ext_insert_extent io new flags s =
     scatch (insert_rounds EXT_INSERT_FUEL io new flags s)
       (\<lambda>e s. sbind (ext4_ext_drop_refs io 0 False s) (\<lambda>_ s. (Inl e, s)))"

section \<open>Removing a range\<close>

definition ext4_ext_remove_blocks ::
    "'d ext4_blockdev_iface \<Rightarrow> ext4_extent \<Rightarrow> u32 \<Rightarrow> u32 \<Rightarrow> 'd istate \<Rightarrow> unit res \<times> 'd istate" where
  "ext4_ext_remove_blocks io ex from to s =
     ext4_ext_free_blocks io (ext4_ext_pblock ex + ucast (from - ee_first_block ex)) (to - from + 1) s"

fun index_up :: "nat \<Rightarrow> 'd estate \<Rightarrow> unit res \<times> 'd estate" where
  "index_up 0 s = (Inr (), s)"
| "index_up (Suc i) s =
     sbind (sread (path_get (Suc i)) s) (\<lambda>p s.
       if ep_index p \<noteq> Some 0 then (Inr (), s)
       else
         sbind (sread (\<lambda>s. rbind (path_node (Suc i) s) (\<lambda>d. idx_key d 0)) s) (\<lambda>k s.
         sbind (idx_set_first i k s) (\<lambda>_ s.
         sbind (ext4_ext_dirty i s) (\<lambda>_ s. index_up i s))))"

definition ext4_ext_remove_idx :: "'d ext4_blockdev_iface \<Rightarrow> nat \<Rightarrow> 'd estate \<Rightarrow> unit res \<times> 'd estate" where
  "ext4_ext_remove_idx io i s =
     sbind (sread (path_get i) s) (\<lambda>p s.
       case ep_index p of
         None \<Rightarrow> (Inl UNDEF, s)
       | Some x \<Rightarrow>
           sbind (sread (\<lambda>s. rbind (path_node i s) (\<lambda>d. rbind (idx_at d x) (\<lambda>e. Inr (ext4_idx_pblock e)))) s) (\<lambda>leaf s.
           sbind (on_is (node_modify (ep_header p) (\<lambda>d. rbind (ext_entries d) (\<lambda>n.
                    rbind (if x + 1 = n then Inr d
                           else if x + 1 < n then ext_move d x (x + 1) (n - 1 - x) else Inl UNDEF) (\<lambda>d.
                    ext_add_entries d (- 1))))) s) (\<lambda>_ s.
           sbind (ext4_ext_dirty i s) (\<lambda>_ s.
           sbind (on_is (ext4_ext_free_blocks io leaf 1) s) (\<lambda>_ s. index_up i s)))))"

text \<open>
  The walk over the extents of a leaf from position \<open>ex\<close> on: one that begins before \<open>from\<close> keeps its front, one that
  ends behind \<open>to\<close> its back, the others go. \<open>keep\<close> is where the extents behind the range will be moved to, \<open>back\<close>
  the extent that keeps its back, and \<open>n\<close> the new count.
\<close>

definition cut_extent :: "ext4_extent \<Rightarrow> u32 \<Rightarrow> u32 \<Rightarrow> ext4_extent \<times> u32 \<times> u32 \<times> bool \<times> bool" where
  "cut_extent e from to =
     (let start = ee_first_block e; len = ucast (ext4_ext_get_actual_len e);
          front = start < from; back = \<not> front \<and> start + len - 1 > to;
          new_len = (if front then from - start else if back then start + len - 1 - to else 0);
          new_start = (if back then to + 1 else start);
          newblock = (if back then ext4_ext_pblock e + ucast (to + 1 - start) else ext4_ext_pblock e);
          rm_start = (if front then from else start);
          rm_len = (if front then len - (from - start) else len - new_len);
          e1 = e\<lparr> ee_first_block := new_start \<rparr>;
          e2 = ext4_ext_store_pblock (e1\<lparr> ee_block_count := ucast new_len \<rparr>) newblock
      in (if new_len = 0 then e1 else if ext4_ext_is_unwritten e then ext4_ext_mark_unwritten e2 else e2,
          rm_start, rm_start + rm_len - 1, front, back))"

fun remove_extents ::
    "nat \<Rightarrow> 'd ext4_blockdev_iface \<Rightarrow> ext_loc option \<Rightarrow> u32 \<Rightarrow> u32 \<Rightarrow> nat \<Rightarrow> nat \<Rightarrow> nat option \<Rightarrow> u16 \<Rightarrow> 'd istate \<Rightarrow>
     (nat \<times> nat \<times> nat option \<times> u16) res \<times> 'd istate" where
  "remove_extents 0 io loc from to ex keep back n s = (Inr (ex, keep, back, n), s)"
| "remove_extents (Suc k) io loc from to ex keep back n s =
     sbind (sread (\<lambda>s. rbind (node_data loc s) (\<lambda>d. ext_at d ex)) s) (\<lambda>e s.
       if ee_first_block e > to then (Inr (ex, keep, back, n), s)
       else
         case cut_extent e from to of
           (e', a, b, front, bck) \<Rightarrow>
             sbind (ext4_ext_remove_blocks io e a b s) (\<lambda>_ s.
             sbind (node_modify loc (\<lambda>d. ext_put d ex e') s) (\<lambda>_ s.
             remove_extents k io loc from to (ex + 1) (if front then keep + 1 else keep) (if bck then Some ex else back)
               (if front \<or> bck then n else n - 1) s)))"

definition ext4_ext_remove_leaf ::
    "'d ext4_blockdev_iface \<Rightarrow> u32 \<Rightarrow> u32 \<Rightarrow> 'd estate \<Rightarrow> unit res \<times> 'd estate" where
  "ext4_ext_remove_leaf io from to s =
     sbind (sread (\<lambda>s. ext_depth (fst s)) s) (\<lambda>depth s.
     sbind (sread (path_get depth) s) (\<lambda>p s.
     sbind (sread (\<lambda>s. rbind (path_node depth s) ext_entries) s) (\<lambda>entries s.
       case ep_extent p of
         None \<Rightarrow> (Inl UNDEF, s)
       | Some x \<Rightarrow>
           sbind (on_is (remove_extents (entries - x) io (ep_header p) from to x x None (of_nat entries)) s)
             (\<lambda>(ex, keep, back, n) s.
           let ex2 = (case back of None \<Rightarrow> ex | Some b \<Rightarrow> b)
           in sbind (on_is (node_modify (ep_header p) (\<lambda>d.
                       rbind (if ex2 < entries then ext_move d keep ex2 (entries - ex2) else Inr d) (\<lambda>d.
                       rbind (ext_hdr d) (\<lambda>h. ext_set_hdr d (h\<lparr> eh_entries_count := n \<rparr>))))) s) (\<lambda>_ s.
              sbind (sforget (ext4_ext_dirty depth s)) (\<lambda>_ s.
              sbind (if x = 0 \<and> n \<noteq> 0 then ext4_ext_correct_indexes s else (Inr (), s)) (\<lambda>_ s.
              if n = 0 \<and> b_lb_id (ep_block p) \<noteq> 0 then ext4_ext_remove_idx io (depth - 1) s
              else if depth > 0 then path_upd (depth - 1) (\<lambda>q. q\<lparr> ep_index := map_option Suc (ep_index q) \<rparr>) s
              else (Inr (), s))))))))"

definition ext4_ext_more_to_rm :: "nat \<Rightarrow> u32 \<Rightarrow> 'd estate \<Rightarrow> bool res" where
  "ext4_ext_more_to_rm k to s =
     rbind (path_get k s) (\<lambda>p. rbind (path_node k s) (\<lambda>d. rbind (ext_entries d) (\<lambda>n.
       if n = 0 then Inr False
       else case ep_index p of
              None \<Rightarrow> Inl UNDEF
            | Some x \<Rightarrow> if x \<ge> n then Inr False else rbind (idx_key d x) (\<lambda>key. Inr (\<not> key > to)))))"

text \<open>Cutting a hole into one extent: its back becomes an extent of its own. The blocks of the hole are not freed.\<close>

definition remove_hole :: "'d ext4_blockdev_iface \<Rightarrow> nat \<Rightarrow> nat \<Rightarrow> ext4_extent \<Rightarrow> u32 \<Rightarrow> u32 \<Rightarrow> 'd estate \<Rightarrow> unit res \<times> 'd estate" where
  "remove_hole io depth x e from to s =
     (let mark = (if ext4_ext_is_unwritten e then ext4_ext_mark_unwritten else id);
          ee_block = ee_first_block e; len = ucast (ext4_ext_get_actual_len e);
          newblock = ucast (to + 1 - ee_block) + ext4_ext_pblock e;
          cut = mark (e\<lparr> ee_block_count := ucast (from - ee_block) \<rparr>);
          new = mark (ext4_ext_store_pblock \<lparr> ee_first_block = to + 1, ee_block_count = ucast (ee_block + len - 1 - to),
                        ee_start_hi = 0, ee_start_lo = 0 \<rparr> newblock)
      in sbind (sread (path_get depth) s) (\<lambda>p s.
         sbind (on_is (node_modify (ep_header p) (\<lambda>d. ext_put d x cut)) s) (\<lambda>_ s.
         sbind (sforget (ext4_ext_dirty depth s)) (\<lambda>_ s.
         ext4_ext_insert_extent io new 0 s))))"

text \<open>
  The walk over the rest of the tree; \<open>i\<close> is the level plus one, 0 ends it. Codes of the leaf removal are ignored, and a
  failing index removal is remembered in \<open>ret\<close> while the walk goes on. Each step consumes an index record or
  leaves a node, so \<open>2 ^ 33\<close> steps are enough for a tree over 32-bit block numbers.
\<close>

definition EXT_REMOVE_FUEL :: nat where "EXT_REMOVE_FUEL = 2 ^ 33"

definition remove_at_leaf :: "'d ext4_blockdev_iface \<Rightarrow> nat \<Rightarrow> u32 \<Rightarrow> u32 \<Rightarrow> 'd estate \<Rightarrow> unit res \<times> 'd estate" where
  "remove_at_leaf io depth from to s =
     sbind (sread (path_node depth) s) (\<lambda>d s.
     sbind (sread (\<lambda>_. ext_entries d) s) (\<lambda>n s.
       if n = 0 then (Inl EASSERT, s)
       else
         sbind (sread (\<lambda>_. rbind (ext_at d 0) (\<lambda>a. rbind (ext_at d (n - 1)) (\<lambda>b. Inr (a, b)))) s) (\<lambda>(a, b) s.
         let leaf_from = ee_first_block a;
             leaf_to = ee_first_block b + ucast (ext4_ext_get_actual_len b) - 1
         in sbind (sforget (ext4_ext_remove_leaf io (if leaf_from < from then from else leaf_from)
                     (if leaf_to > to then to else leaf_to) s)) (\<lambda>_ s.
            ext4_ext_drop_refs io depth False s))))"

definition remove_descend :: "'d ext4_blockdev_iface \<Rightarrow> nat \<Rightarrow> nat \<Rightarrow> 'd estate \<Rightarrow> unit res \<times> 'd estate" where
  "remove_descend io depth i s =
     sbind (sread (path_get (i + 1)) s) (\<lambda>q s.
     sbind (if b_lb_id (ep_block q) \<noteq> 0 then ext4_ext_drop_refs io (i + 1) False s else (Inr (), s)) (\<lambda>_ s.
     sbind (sread (\<lambda>s. rbind (path_get i s) (\<lambda>p. case ep_index p of None \<Rightarrow> Inl UNDEF
              | Some x \<Rightarrow> rbind (path_node i s) (\<lambda>d. rbind (idx_at d x) (\<lambda>e. Inr (ext4_idx_pblock e))))) s) (\<lambda>pblk s.
     sbind (on_is (read_extent_tree_block io pblk (depth - i - 1) EXT4_BLOCK_ZERO) s) (\<lambda>bh s.
     sbind (path_upd i (\<lambda>p. p\<lparr> ep_p_block := pblk \<rparr>) s) (\<lambda>_ s.
     path_upd (i + 1) (\<lambda>p.
       let p = p\<lparr> ep_block := bh, ep_header := Some (InBlock bh), ep_depth := depth - i - 1 \<rparr>
       in if i + 1 = depth then p\<lparr> ep_extent := Some 0 \<rparr> else p\<lparr> ep_index := Some 0 \<rparr>) s)))))"

definition remove_ascend :: "'d ext4_blockdev_iface \<Rightarrow> nat \<Rightarrow> unit res \<Rightarrow> 'd estate \<Rightarrow> unit res res \<times> 'd estate" where
  "remove_ascend io i ret s =
     (if i = 0 then (Inr ret, s)
      else
        sbind (sread (\<lambda>s. rbind (path_node i s) ext_entries) s) (\<lambda>n s.
        sbind (if n = 0 then
                 (case ext4_ext_remove_idx io (i - 1) s of
                    (Inl e, s) \<Rightarrow> if fatal e then (Inl e, s) else (Inr (Inl e), s)
                  | (Inr _, s) \<Rightarrow> (Inr (Inr ()), s))
               else sbind (path_upd (i - 1) (\<lambda>q. q\<lparr> ep_index := map_option Suc (ep_index q) \<rparr>) s) (\<lambda>_ s. (Inr ret, s))) (\<lambda>ret s.
        sbind (sread (path_get i) s) (\<lambda>p s.
        case on_is (on_fs (fs_block_set io (ep_block p))) s of
          (Inl e, s) \<Rightarrow> if fatal e then (Inl e, s) else (Inr ret, s)
        | (Inr _, s) \<Rightarrow>
            sbind (path_upd i (\<lambda>p. p\<lparr> ep_block := (ep_block p)\<lparr> b_lb_id := 0 \<rparr> \<rparr>) s) (\<lambda>_ s. (Inr ret, s))))))"

fun remove_walk ::
    "nat \<Rightarrow> 'd ext4_blockdev_iface \<Rightarrow> nat \<Rightarrow> u32 \<Rightarrow> u32 \<Rightarrow> nat \<Rightarrow> unit res \<Rightarrow> 'd estate \<Rightarrow> unit res res \<times> 'd estate" where
  "remove_walk n io depth from to 0 ret s = (Inr ret, s)"
| "remove_walk 0 io depth from to (Suc i) ret s = (Inl EHANG, s)"
| "remove_walk (Suc n) io depth from to (Suc i) ret s =
     (if i = depth then
        sbind (remove_at_leaf io depth from to s) (\<lambda>_ s. remove_walk n io depth from to i ret s)
      else
        sbind (sread (ext4_ext_more_to_rm i to) s) (\<lambda>more s.
        if more then sbind (remove_descend io depth i s) (\<lambda>_ s. remove_walk n io depth from to (i + 2) (Inr ()) s)
        else sbind (remove_ascend io i ret s) (\<lambda>ret s. remove_walk n io depth from to i ret s)))"

text \<open>An emptied tree is a root without extents.\<close>

definition remove_finish :: "'d estate \<Rightarrow> unit res \<times> 'd estate" where
  "remove_finish s =
     sbind (sread (\<lambda>s. rbind (path_node 0 s) ext_entries) s) (\<lambda>n s.
       if n \<noteq> 0 then (Inr (), s)
       else
         sbind (on_is (node_modify (Some InInode) (\<lambda>d. rbind (ext_hdr d) (\<lambda>h.
                  ext_set_hdr d (h\<lparr> eh_depth := 0, eh_max_entries_count := ext4_ext_space_root \<rparr>)))) s) (\<lambda>_ s.
         ext4_ext_dirty 0 s))"

definition remove_found :: "'d ext4_blockdev_iface \<Rightarrow> nat \<Rightarrow> u32 \<Rightarrow> u32 \<Rightarrow> 'd estate \<Rightarrow> unit res \<times> 'd estate" where
  "remove_found io depth from to s =
     sbind (sread (path_get depth) s) (\<lambda>p s.
       case ep_extent p of
         None \<Rightarrow> (Inr (), s)
       | Some x \<Rightarrow>
           sbind (sread (\<lambda>s. rbind (path_node depth s) (\<lambda>d. ext_at d x)) s) (\<lambda>e s.
           let first = ee_first_block e; len = ucast (ext4_ext_get_actual_len e)
           in if \<not> IN_RANGE from first len then (Inr (), s)
              else if first < from \<and> to < first + len - 1 then remove_hole io depth x e from to s
              else
                sbind (remove_walk EXT_REMOVE_FUEL io depth from to (depth + 1) (Inr ()) s) (\<lambda>ret s.
                sbind (sread (\<lambda>s. rbind (path_node 0 s) ext_entries) s) (\<lambda>n s.
                if n = 0 then remove_finish s else (ret, s)))))"

text \<open>Whatever happens, the path is released at the end.\<close>

definition path_free :: "'d ext4_blockdev_iface \<Rightarrow> 'a res \<times> 'd estate \<Rightarrow> 'a res \<times> 'd istate" where
  "path_free io m =
     (case m of (r, s) \<Rightarrow>
       if (case r of Inl e \<Rightarrow> fatal e | Inr _ \<Rightarrow> False) then (r, fst s)
       else
         case ext4_ext_drop_refs io 0 False s of
           (Inl e, s) \<Rightarrow> (Inl e, fst s)
         | (Inr _, s) \<Rightarrow> (r, fst s))"

definition ext4_extent_remove_space ::
    "'d ext4_blockdev_iface \<Rightarrow> u32 \<Rightarrow> u32 \<Rightarrow> 'd istate \<Rightarrow> unit res \<times> 'd istate" where
  "ext4_extent_remove_space io from to s =
     path_free io (sbind (sread (\<lambda>s. ext_depth (fst s)) (s, [])) (\<lambda>depth s.
                   sbind (ext4_find_extent io from s) (\<lambda>_ s. remove_found io depth from to s)))"

section \<open>Unwritten extents\<close>

text \<open>
  When the insertion of the second half fails, the length is put back, without the unwritten mark, and the code of the
  insertion is lost. The pointer to the extent is the one from before the insertion.
\<close>

definition ext4_ext_split_extent_at ::
    "'d ext4_blockdev_iface \<Rightarrow> u32 \<Rightarrow> u32 \<Rightarrow> 'd estate \<Rightarrow> unit res \<times> 'd estate" where
  "ext4_ext_split_extent_at io split flags s =
     sbind (sread (\<lambda>s. ext_depth (fst s)) s) (\<lambda>depth s.
     sbind (sread (path_get depth) s) (\<lambda>p s.
       case ep_extent p of
         None \<Rightarrow> (Inl UNDEF, s)
       | Some x \<Rightarrow>
           sbind (sread (\<lambda>s. rbind (path_node depth s) (\<lambda>d. ext_at d x)) s) (\<lambda>e s.
           let ee_block = ee_first_block e; ee_len = ext4_ext_get_actual_len e;
               put = (\<lambda>e s. on_is (node_modify (ep_header p) (\<lambda>d. ext_put d x e)) s)
           in if split = ee_block then
                sbind (put (if flags AND EXT4_EXT_MARK_UNWRIT2 \<noteq> 0 then ext4_ext_mark_unwritten e
                            else ext4_ext_mark_initialized e) s) (\<lambda>_ s.
                ext4_ext_dirty depth s)
              else
                let cut = e\<lparr> ee_block_count := ucast (split - ee_block) \<rparr>;
                    new = ext4_ext_store_pblock \<lparr> ee_first_block = split, ee_block_count = ucast (ucast ee_len - (split - ee_block)),
                            ee_start_hi = 0, ee_start_lo = 0 \<rparr> (ucast (split - ee_block) + ext4_ext_pblock e)
                in sbind (put (if flags AND EXT4_EXT_MARK_UNWRIT1 \<noteq> 0 then ext4_ext_mark_unwritten cut else cut) s) (\<lambda>_ s.
                   sbind (ext4_ext_dirty depth s) (\<lambda>_ s.
                   scatch (ext4_ext_insert_extent io
                             (if flags AND EXT4_EXT_MARK_UNWRIT2 \<noteq> 0 then ext4_ext_mark_unwritten new else new) EXT4_EXT_NO_COMBINE s)
                     (\<lambda>_ s.
                        if snd s = [] then (Inl UNDEF, s)
                        else
                          sbind (on_is (node_modify (ep_header p) (\<lambda>d. rbind (ext_at d x) (\<lambda>e.
                                   ext_put d x (e\<lparr> ee_block_count := ee_len \<rparr>)))) s) (\<lambda>_ s.
                          ext4_ext_dirty depth s)))))))"

definition ext4_ext_convert_to_initialized ::
    "'d ext4_blockdev_iface \<Rightarrow> u32 \<Rightarrow> u32 \<Rightarrow> 'd estate \<Rightarrow> unit res \<times> 'd estate" where
  "ext4_ext_convert_to_initialized io split blocks s =
     sbind (sread (\<lambda>s. ext_depth (fst s)) s) (\<lambda>depth s.
     sbind (sread (\<lambda>s. rbind (path_get depth s) (\<lambda>p. case ep_extent p of None \<Rightarrow> Inl UNDEF
              | Some x \<Rightarrow> rbind (path_node depth s) (\<lambda>d. ext_at d x))) s) (\<lambda>e s.
       if \<not> ee_first_block e \<le> split then (Inl EASSERT, s)
       else if split + blocks = ee_first_block e + ucast (ext4_ext_get_actual_len e) then
         ext4_ext_split_extent_at io split EXT4_EXT_MARK_UNWRIT1 s
       else if ee_first_block e = split then ext4_ext_split_extent_at io (split + blocks) EXT4_EXT_MARK_UNWRIT2 s
       else
         sbind (ext4_ext_split_extent_at io (split + blocks) (EXT4_EXT_MARK_UNWRIT1 OR EXT4_EXT_MARK_UNWRIT2) s) (\<lambda>_ s.
         ext4_ext_split_extent_at io split EXT4_EXT_MARK_UNWRIT1 s)))"

fun ext4_ext_zero_unwritten_range :: "nat \<Rightarrow> 'd ext4_blockdev_iface \<Rightarrow> u64 \<Rightarrow> 'd ext4_fs \<Rightarrow> unit res \<times> 'd ext4_fs" where
  "ext4_ext_zero_unwritten_range 0 io block fs = (Inr (), fs)"
| "ext4_ext_zero_unwritten_range (Suc n) io block fs =
     sbind (fs_block_get_noread io block fs) (\<lambda>b fs.
     sbind (fs_store b (rbind (fs_data b fs) (\<lambda>d.
              wr_range d 0 (replicate (unat (ext4_sb_get_block_size (fs_sb fs))) 0))) fs) (\<lambda>_ fs.
     sbind (fs_set_dirty b fs) (\<lambda>_ fs.
     sbind (fs_block_set io b fs) (\<lambda>_ fs.
     ext4_ext_zero_unwritten_range n io (block + 1) fs))))"

section \<open>Mapping blocks\<close>

text \<open>The first block of the next extent: of the leaf, or of the next index on the way up.\<close>

fun next_up :: "nat \<Rightarrow> 'd estate \<Rightarrow> u32 res" where
  "next_up 0 s = Inr EXT_MAX_BLOCKS"
| "next_up (Suc k) s =
     rbind (path_get k s) (\<lambda>p. rbind (path_node k s) (\<lambda>d. rbind (ext_entries d) (\<lambda>n.
       case ep_index p of
         None \<Rightarrow> Inl UNDEF
       | Some x \<Rightarrow> if x + 1 \<noteq> n then idx_key d (x + 1) else next_up k s)))"

definition ext4_ext_next_allocated_block :: "'d estate \<Rightarrow> u32 res" where
  "ext4_ext_next_allocated_block s =
     rbind (path_get 0 s) (\<lambda>p0.
       let depth = ep_depth p0
       in rbind (path_get depth s) (\<lambda>p.
          if depth = 0 \<and> ep_extent p0 = None then Inr EXT_MAX_BLOCKS
          else
            case ep_extent p of
              None \<Rightarrow> next_up depth s
            | Some x \<Rightarrow> rbind (path_node depth s) (\<lambda>d. rbind (ext_entries d) (\<lambda>n.
                          if x + 1 \<noteq> n then ext_key d (x + 1) else next_up depth s))))"

text \<open>The result is the physical block, 0 for a hole, and the number of blocks; \<open>get_new\<close> is the case of a hole.\<close>

definition get_new :: "'d ext4_blockdev_iface \<Rightarrow> u32 \<Rightarrow> u32 \<Rightarrow> 'd estate \<Rightarrow> (u64 \<times> u32) res \<times> 'd estate" where
  "get_new io iblock max_blocks s =
     sbind (sread ext4_ext_next_allocated_block s) (\<lambda>_ s.
     sbind (sread (ext4_ext_find_goal iblock) s) (\<lambda>goal s.
     sbind (on_is (ext4_new_meta_blocks io goal) s) (\<lambda>(newblock, r) s.
       if newblock = 0 then sbind (r, s) (\<lambda>_ s. (Inr (0, 0), s))
       else
         let allocated = 1;
             new = ext4_ext_store_pblock \<lparr> ee_first_block = iblock, ee_block_count = ucast allocated, ee_start_hi = 0, ee_start_lo = 0 \<rparr> newblock
         in sbind (scatch (ext4_ext_insert_extent io new 0 s) (\<lambda>e s.
                     sbind (on_is (ext4_ext_free_blocks io (ext4_ext_pblock new) (ucast (ee_block_count new))) s) (\<lambda>_ s. (Inl e, s)))) (\<lambda>_ s.
            (Inr (ext4_ext_pblock new, if allocated > max_blocks then max_blocks else allocated), s)))))"

definition get_found ::
    "'d ext4_blockdev_iface \<Rightarrow> u32 \<Rightarrow> u32 \<Rightarrow> bool \<Rightarrow> ext4_extent option \<Rightarrow> 'd estate \<Rightarrow> (u64 \<times> u32) res \<times> 'd estate" where
  "get_found io iblock max_blocks create ex s =
     (case ex of
        Some e \<Rightarrow>
          let ee_block = ee_first_block e; ee_len = ucast (ext4_ext_get_actual_len e);
              allocated = ee_len - (iblock - ee_block);
              newblock = ucast (iblock - ee_block) + ext4_ext_pblock e;
              cnt = (if allocated > max_blocks then max_blocks else allocated)
          in if IN_RANGE iblock ee_block ee_len then
               if \<not> ext4_ext_is_unwritten e then (Inr (newblock, cnt), s)
               else if \<not> create then (Inr (0, cnt), s)
               else
                 sbind (on_is (on_fs (ext4_ext_zero_unwritten_range (unat cnt) io newblock)) s) (\<lambda>_ s.
                 sbind (ext4_ext_convert_to_initialized io iblock cnt s) (\<lambda>_ s. (Inr (newblock, cnt), s)))
             else if \<not> create then (Inr (0, 0), s) else get_new io iblock max_blocks s
      | None \<Rightarrow> if \<not> create then (Inr (0, 0), s) else get_new io iblock max_blocks s)"

definition ext4_extent_get_blocks ::
    "'d ext4_blockdev_iface \<Rightarrow> u32 \<Rightarrow> u32 \<Rightarrow> bool \<Rightarrow> 'd istate \<Rightarrow> (u64 \<times> u32) res \<times> 'd istate" where
  "ext4_extent_get_blocks io iblock max_blocks create s =
     path_free io (sbind (ext4_find_extent io iblock (s, [])) (\<lambda>_ s.
                   sbind (sread (\<lambda>s. ext_depth (fst s)) s) (\<lambda>depth s.
                   sbind (sread (\<lambda>s. rbind (path_get depth s) (\<lambda>p. case ep_extent p of None \<Rightarrow> Inr None
                            | Some x \<Rightarrow> rbind (path_node depth s) (\<lambda>d. rbind (ext_at d x) (\<lambda>e. Inr (Some e))))) s) (\<lambda>ex s.
                   get_found io iblock max_blocks create ex s))))"

end
