(* ===== verification/ExtentSpec.thy ===== *)
theory ExtentSpec
  imports ExtentTree BallocSpec
begin

text \<open>
  An extent tree as the list of its extents. \<open>ext_tree\<close> says that the nodes below one hold ordered extents in the
  range the indexes give them; then the binary searches on the way down lead to the only extent that can
  cover a block, and the lookup is the search in that list.
\<close>

section \<open>Binary search\<close>

lemma ext_bsearch_ok:
  assumes "\<And>i. i < n \<Longrightarrow> key i = Inr (k i)" and "\<And>i j. i < j \<Longrightarrow> j < n \<Longrightarrow> k i < k j"
  shows "1 \<le> l \<Longrightarrow> l \<le> r + 1 \<Longrightarrow> r < n \<Longrightarrow> (\<And>i. 1 \<le> i \<Longrightarrow> i < l \<Longrightarrow> k i \<le> b) \<Longrightarrow> (\<And>i. r < i \<Longrightarrow> i < n \<Longrightarrow> b < k i) \<Longrightarrow>
    \<exists>m. ext_bsearch key b l r = Inr m \<and> 1 \<le> m \<and> m \<le> n \<and> (\<forall>i. 1 \<le> i \<and> i < m \<longrightarrow> k i \<le> b) \<and> (\<forall>i. m \<le> i \<and> i < n \<longrightarrow> b < k i)"
proof (induction "r + 1 - l" arbitrary: l r rule: less_induct)
  case less
  show ?case
  proof (cases "l \<le> r")
    case False
    then have "ext_bsearch key b l r = Inr l" by (simp add: ext_bsearch.simps [of key b l r])
    then show ?thesis using less.prems False by (intro exI [of _ l]) auto
  next
    case True
    let ?m = "l + (r - l) div 2"
    have m: "l \<le> ?m" "?m \<le> r" using True by (simp_all add: div_le_dividend [THEN order_trans])
    then have km: "key ?m = Inr (k ?m)" using less.prems assms(1) by simp
    show ?thesis
    proof (cases "b < k ?m")
      case True
      have "b < k i" if "?m - 1 < i" "i < n" for i
      proof (cases "i = ?m")
        case False
        with that have "?m < i" by simp
        from assms(2) [OF this \<open>i < n\<close>] True show ?thesis by (rule order.strict_trans [rotated])
      qed (use True in simp)
      with less.hyps [of "?m - 1" l] less.prems m \<open>l \<le> r\<close> obtain q where
        "ext_bsearch key b l (?m - 1) = Inr q \<and> 1 \<le> q \<and> q \<le> n \<and> (\<forall>i. 1 \<le> i \<and> i < q \<longrightarrow> k i \<le> b) \<and> (\<forall>i. q \<le> i \<and> i < n \<longrightarrow> b < k i)"
        by fastforce
      then show ?thesis using True km less.prems m \<open>l \<le> r\<close> by (auto simp: ext_bsearch.simps [of key b l r] Let_def)
    next
      case False
      have "k i \<le> b" if "1 \<le> i" "i < ?m + 1" for i
        using that False assms(2) [of i ?m] less.prems m by (cases "i = ?m") (auto intro: order.trans less_imp_le)
      with less.hyps [of r "?m + 1"] less.prems m \<open>l \<le> r\<close> obtain q where
        "ext_bsearch key b (?m + 1) r = Inr q \<and> 1 \<le> q \<and> q \<le> n \<and> (\<forall>i. 1 \<le> i \<and> i < q \<longrightarrow> k i \<le> b) \<and> (\<forall>i. q \<le> i \<and> i < n \<longrightarrow> b < k i)"
        by fastforce
      then show ?thesis using False km less.prems m \<open>l \<le> r\<close> by (auto simp: ext_bsearch.simps [of key b l r] Let_def)
    qed
  qed
qed

lemma ext_bsearch_all:
  assumes "\<And>i. i < n \<Longrightarrow> key i = Inr (k i)" and "\<And>i j. i < j \<Longrightarrow> j < n \<Longrightarrow> k i < k j" and "0 < n"
  shows "\<exists>m. ext_bsearch key b 1 (n - 1) = Inr m \<and> 1 \<le> m \<and> m \<le> n \<and> (\<forall>i. 1 \<le> i \<and> i < m \<longrightarrow> k i \<le> b) \<and>
    (\<forall>i. m \<le> i \<and> i < n \<longrightarrow> b < k i)"
  by (rule ext_bsearch_ok [OF assms(1,2)]) (use assms(3) in auto)

section \<open>Nodes and trees\<close>

definition node_hdr :: "u8 list \<Rightarrow> ext4_extent_header" where "node_hdr d = eh_of_bytes (take 12 d)"
definition node_count :: "u8 list \<Rightarrow> nat" where "node_count d = unat (eh_entries_count (node_hdr d))"
definition ext_nth :: "u8 list \<Rightarrow> nat \<Rightarrow> ext4_extent" where "ext_nth d i = ee_of_bytes (take 12 (drop (12 + 12 * i) d))"
definition idx_nth :: "u8 list \<Rightarrow> nat \<Rightarrow> ext4_extent_index" where "idx_nth d i = ei_of_bytes (take 12 (drop (12 + 12 * i) d))"

definition node_fits :: "u8 list \<Rightarrow> bool" where "node_fits d \<longleftrightarrow> 12 + 12 * node_count d \<le> length d"

lemma node_fitsD: "node_fits d \<Longrightarrow> ext_hdr d = Inr (node_hdr d) \<and> ext_entries d = Inr (node_count d)"
  by (simp add: node_fits_def ext_hdr_def rd_range_def node_hdr_def ext_entries_def node_count_def)

lemma node_at:
  "node_fits d \<Longrightarrow> i < node_count d \<Longrightarrow> ext_at d i = Inr (ext_nth d i) \<and> idx_at d i = Inr (idx_nth d i)"
proof -
  assume "node_fits d" "i < node_count d"
  then have "12 + 12 * i + 12 \<le> length d" by (simp add: node_fits_def)
  then show ?thesis by (simp add: ext_at_def idx_at_def rd_range_def ext_nth_def idx_nth_def)
qed

definition node_extents :: "u8 list \<Rightarrow> ext4_extent list" where "node_extents d = map (ext_nth d) [0..<node_count d]"

definition ext_len :: "ext4_extent \<Rightarrow> nat" where "ext_len e = unat (ext4_ext_get_actual_len e)"
definition ext_first :: "ext4_extent \<Rightarrow> nat" where "ext_first e = unat (ee_first_block e)"

definition ext_covers :: "nat \<Rightarrow> ext4_extent \<Rightarrow> bool" where
  "ext_covers b e \<longleftrightarrow> ext_first e \<le> b \<and> b < ext_first e + ext_len e"

text \<open>Ordered extents between two block numbers.\<close>

fun exts_between :: "nat \<Rightarrow> ext4_extent list \<Rightarrow> nat \<Rightarrow> bool" where
  "exts_between lo [] hi \<longleftrightarrow> lo \<le> hi"
| "exts_between lo (e # es) hi \<longleftrightarrow> lo \<le> ext_first e \<and> 0 < ext_len e \<and> exts_between (ext_first e + ext_len e) es hi"

text \<open>A node in a block has room for its checksum; the root is in the inode.\<close>

definition block_node_ok :: "nat \<Rightarrow> u8 list \<Rightarrow> bool" where
  "block_node_ok k d \<longleftrightarrow>
     eh_magic (node_hdr d) = EXT4_EXTENT_MAGIC \<and> unat (eh_depth (node_hdr d)) = k \<and>
     0 < unat (eh_max_entries_count (node_hdr d)) \<and> node_count d \<le> unat (eh_max_entries_count (node_hdr d)) \<and>
     EXT4_EXTENT_TAIL_OFFSET (node_hdr d) + 4 \<le> length d"

lemma block_node_fits: "block_node_ok k d \<Longrightarrow> node_fits d"
  by (simp add: block_node_ok_def node_fits_def EXT4_EXTENT_TAIL_OFFSET_def)

definition idx_first :: "u8 list \<Rightarrow> nat \<Rightarrow> nat" where "idx_first d i = unat (ei_first_block (idx_nth d i))"
definition idx_child :: "u8 list \<Rightarrow> nat \<Rightarrow> u64" where "idx_child d i = ext4_idx_pblock (idx_nth d i)"

text \<open>
  The tree of height \<open>k\<close> below the node \<open>d\<close>, for the blocks from \<open>lo\<close> to \<open>hi\<close>. The first child may hold blocks before
  its index. \<open>ok\<close> are the block numbers that can be nodes.
\<close>

fun ext_tree :: "(u64 \<Rightarrow> u8 list) \<Rightarrow> u64 set \<Rightarrow> nat \<Rightarrow> u8 list \<Rightarrow> nat \<Rightarrow> nat \<Rightarrow> bool" where
  "ext_tree V ok 0 d lo hi \<longleftrightarrow> node_fits d \<and> exts_between lo (node_extents d) hi"
| "ext_tree V ok (Suc k) d lo hi \<longleftrightarrow>
     node_fits d \<and> 0 < node_count d \<and>
     (\<forall>i < node_count d. idx_child d i \<in> ok \<and> block_node_ok k (V (idx_child d i)) \<and>
        (if i = 0 then lo else idx_first d i) \<le> (if i + 1 < node_count d then idx_first d (i + 1) else hi) \<and>
        idx_first d i < (if i + 1 < node_count d then idx_first d (i + 1) else 2 ^ 32) \<and>
        ext_tree V ok k (V (idx_child d i)) (if i = 0 then lo else idx_first d i)
          (if i + 1 < node_count d then idx_first d (i + 1) else hi))"

fun tree_extents :: "(u64 \<Rightarrow> u8 list) \<Rightarrow> nat \<Rightarrow> u8 list \<Rightarrow> ext4_extent list" where
  "tree_extents V 0 d = node_extents d"
| "tree_extents V (Suc k) d = concat (map (\<lambda>i. tree_extents V k (V (idx_child d i))) [0..<node_count d])"

text \<open>The extent that maps a block.\<close>

definition ext_mapping :: "ext4_extent list \<Rightarrow> nat \<Rightarrow> ext4_extent option" where
  "ext_mapping es b = find (ext_covers b) es"

section \<open>Search on the way down\<close>

lemma exts_between_mem:
  "exts_between lo es hi \<Longrightarrow> e \<in> set es \<Longrightarrow> lo \<le> ext_first e \<and> ext_first e + ext_len e \<le> hi \<and> 0 < ext_len e"
proof (induction es arbitrary: lo)
  case (Cons a es)
  have "exts_between lo es hi \<Longrightarrow> lo \<le> hi" for lo es by (induction es arbitrary: lo) force+
  then show ?case using Cons by fastforce
qed simp

lemma exts_between_nth:
  "exts_between lo es hi \<Longrightarrow> i < j \<Longrightarrow> j < length es \<Longrightarrow> ext_first (es ! i) + ext_len (es ! i) \<le> ext_first (es ! j)"
proof (induction es arbitrary: lo i j)
  case (Cons a es)
  then have es: "exts_between (ext_first a + ext_len a) es hi" by simp
  obtain j' where j: "j = Suc j'" using Cons.prems(2) by (cases j) auto
  show ?case
  proof (cases i)
    case 0
    then show ?thesis using exts_between_mem [OF es, of "es ! j'"] Cons.prems(3) j by simp
  next
    case (Suc i')
    then show ?thesis using Cons.IH [OF es, of i' j'] Cons.prems(2,3) j by simp
  qed
qed simp

lemma tree_extents_between:
  "ext_tree V ok k d lo hi \<Longrightarrow> e \<in> set (tree_extents V k d) \<Longrightarrow> lo \<le> ext_first e \<and> ext_first e + ext_len e \<le> hi \<and> 0 < ext_len e"
proof (induction k arbitrary: d lo hi)
  case 0
  then show ?case using exts_between_mem by auto
next
  case (Suc k)
  let ?n = "node_count d" and ?f = "idx_first d"
  let ?lo = "\<lambda>i. if i = 0 then lo else ?f i" and ?hi = "\<lambda>i. if i + 1 < ?n then ?f (i + 1) else hi"
  have le: "i < ?n \<Longrightarrow> ?lo i \<le> ?hi i" for i using Suc.prems(1) by auto
  have lo: "i < ?n \<Longrightarrow> lo \<le> ?lo i" for i
  proof (induction i)
    case (Suc i)
    then show ?case using le [of i] by (simp split: if_splits)
  qed simp
  have hi: "?hi i \<le> hi" if "i < ?n" for i
    using that
  proof (induction "?n - i" arbitrary: i)
    case (Suc m)
    show ?case
    proof (cases "i + 1 < ?n")
      case True
      with Suc.hyps(1) [of "i + 1"] Suc.hyps(2) have "?hi (i + 1) \<le> hi" by linarith
      moreover have "?f (i + 1) \<le> ?hi (i + 1)" using le [OF True] by simp
      ultimately have "?f (i + 1) \<le> hi" by linarith
      then show ?thesis using True by simp
    qed simp
  qed simp
  from Suc.prems(2) obtain i where i: "i < ?n" "e \<in> set (tree_extents V k (V (idx_child d i)))" by auto
  have "ext_tree V ok k (V (idx_child d i)) (?lo i) (?hi i)" using Suc.prems(1) i(1) by (auto simp del: One_nat_def)
  from Suc.IH [OF this i(2)] lo [OF i(1)] hi [OF i(1)] show ?case by linarith
qed

lemma find_None_all: "find P xs = None \<longleftrightarrow> (\<forall>x \<in> set xs. \<not> P x)"
  by (induction xs) auto

lemma find_concat_one:
  assumes "x < length xss" and "\<And>j e. j < length xss \<Longrightarrow> j \<noteq> x \<Longrightarrow> e \<in> set (xss ! j) \<Longrightarrow> \<not> P e"
  shows "find P (concat xss) = find P (xss ! x)"
  using assms
proof (induction xss arbitrary: x)
  case (Cons xs xss)
  have app: "find P (xs @ ys) = (case find P xs of None \<Rightarrow> find P ys | Some e \<Rightarrow> Some e)" for xs ys
    by (induction xs) auto
  show ?case
  proof (cases x)
    case 0
    have "e \<in> set xs' \<Longrightarrow> xs' \<in> set xss \<Longrightarrow> \<not> P e" for e xs'
      using Cons.prems(2) [of "Suc j" for j] 0 by (auto simp: in_set_conv_nth)
    then have "find P (concat xss) = None" unfolding find_None_all by auto
    then show ?thesis using 0 app by (auto split: option.splits)
  next
    case (Suc y)
    have "find P xs = None" unfolding find_None_all using Cons.prems(2) [of 0] Suc by auto
    moreover have "find P (concat xss) = find P (xss ! y)"
      by (rule Cons.IH) (use Cons.prems(1) Cons.prems(2) [of "Suc j" for j] Suc in auto)
    ultimately show ?thesis using Suc app by simp
  qed
qed simp

text \<open>An index node leads to the child that can map the block.\<close>

lemma idx_search:
  assumes t: "ext_tree V ok (Suc k) d lo hi"
  shows "\<exists>x. ext4_ext_binsearch_idx d b = Inr x \<and> x < node_count d \<and>
    ext_mapping (tree_extents V (Suc k) d) (unat b) = ext_mapping (tree_extents V k (V (idx_child d x))) (unat b)"
proof -
  let ?n = "node_count d" and ?key = "\<lambda>i. ei_first_block (idx_nth d i)"
  have fit: "node_fits d" and n: "0 < ?n" using t by simp_all
  have nx: "i + 1 < ?n \<Longrightarrow> ?key i < ?key (i + 1)" for i
    using t by (auto simp: idx_first_def word_less_nat_alt dest: spec [where x = i])
  have mono: "i < j \<Longrightarrow> j < ?n \<Longrightarrow> ?key i < ?key j" for i j
  proof (induction j)
    case (Suc j)
    then show ?case using nx [of j] by (cases "i = j") auto
  qed simp
  have key: "i < ?n \<Longrightarrow> idx_key d i = Inr (?key i)" for i using node_at [OF fit] by (simp add: idx_key_def)
  from ext_bsearch_all [of ?n "idx_key d" ?key b, OF key mono n] obtain m where
    m: "ext_bsearch (idx_key d) b 1 (?n - 1) = Inr m" "1 \<le> m" "m \<le> ?n" "\<forall>i. 1 \<le> i \<and> i < m \<longrightarrow> ?key i \<le> b"
      "\<forall>i. m \<le> i \<and> i < ?n \<longrightarrow> b < ?key i" by blast
  let ?x = "m - 1" let ?xss = "map (\<lambda>i. tree_extents V k (V (idx_child d i))) [0..<?n]"
  have x: "?x < ?n" using m(2,3) n by linarith
  have "\<not> ext_covers (unat b) e" if j: "j < ?n" "j \<noteq> ?x" "e \<in> set (tree_extents V k (V (idx_child d j)))" for j e
  proof -
    have "ext_tree V ok k (V (idx_child d j)) (if j = 0 then lo else idx_first d j) (if j + 1 < ?n then idx_first d (j + 1) else hi)"
      using t j(1) by (auto simp del: One_nat_def)
    from tree_extents_between [OF this j(3)] have r: "(if j = 0 then lo else idx_first d j) \<le> ext_first e"
      "ext_first e + ext_len e \<le> (if j + 1 < ?n then idx_first d (j + 1) else hi)" by blast+
    show ?thesis
    proof (cases "j < ?x")
      case True
      then have "?key (j + 1) \<le> b" using m(4) by simp
      then show ?thesis using r(2) True x by (simp add: ext_covers_def idx_first_def word_le_nat_alt)
    next
      case False
      then have "m \<le> j" using j(2) m(2) by simp
      then have "b < ?key j" using m(5) j(1) by blast
      then show ?thesis using r(1) \<open>m \<le> j\<close> m(2) by (simp add: ext_covers_def idx_first_def word_less_nat_alt)
    qed
  qed
  then have "find (ext_covers (unat b)) (concat ?xss) = find (ext_covers (unat b)) (?xss ! ?x)"
    using x by (intro find_concat_one) auto
  moreover have "ext4_ext_binsearch_idx d b = Inr ?x"
    using m(1) node_fitsD [OF fit] by (simp add: ext4_ext_binsearch_idx_def)
  ultimately show ?thesis using x by (intro exI [of _ ?x]) (simp add: ext_mapping_def)
qed

text \<open>A leaf leads to the only extent that can cover the block.\<close>

lemma leaf_search:
  assumes t: "ext_tree V ok 0 d lo hi"
  shows "\<exists>x. ext4_ext_binsearch d b = Inr x \<and>
    (case x of None \<Rightarrow> node_count d = 0 \<and> ext_mapping (node_extents d) (unat b) = None
     | Some i \<Rightarrow> i < node_count d \<and>
         ext_mapping (node_extents d) (unat b) = (if ext_covers (unat b) (ext_nth d i) then Some (ext_nth d i) else None))"
proof (cases "node_count d = 0")
  case True
  then show ?thesis using t node_fitsD [of d] by (simp add: ext4_ext_binsearch_def ext_mapping_def node_extents_def)
next
  case False
  let ?n = "node_count d" and ?key = "\<lambda>i. ee_first_block (ext_nth d i)"
  have fit: "node_fits d" and o: "exts_between lo (node_extents d) hi" using t by simp_all
  have len: "i < ?n \<Longrightarrow> 0 < ext_len (ext_nth d i)" for i
    using exts_between_mem [OF o, of "ext_nth d i"] by (simp add: node_extents_def)
  have sep: "i < j \<Longrightarrow> j < ?n \<Longrightarrow> ext_first (ext_nth d i) + ext_len (ext_nth d i) \<le> ext_first (ext_nth d j)" for i j
    using exts_between_nth [OF o, of i j] by (simp add: node_extents_def)
  have mono: "i < j \<Longrightarrow> j < ?n \<Longrightarrow> ?key i < ?key j" for i j
    using sep [of i j] len [of i] by (simp add: word_less_nat_alt ext_first_def)
  have key: "i < ?n \<Longrightarrow> ext_key d i = Inr (?key i)" for i using node_at [OF fit] by (simp add: ext_key_def)
  from ext_bsearch_all [of ?n "ext_key d" ?key b, OF key mono] False obtain m where
    m: "ext_bsearch (ext_key d) b 1 (?n - 1) = Inr m" "1 \<le> m" "m \<le> ?n" "\<forall>i. 1 \<le> i \<and> i < m \<longrightarrow> ?key i \<le> b"
      "\<forall>i. m \<le> i \<and> i < ?n \<longrightarrow> b < ?key i" by blast
  let ?x = "m - 1" let ?e = "ext_nth d ?x"
  have x: "?x < ?n" using m(2,3) False by linarith
  have other: "\<not> ext_covers (unat b) (ext_nth d j)" if j: "j < ?n" "j \<noteq> ?x" for j
  proof (cases "j < ?x")
    case True
    then have "?key ?x \<le> b" using m(4) by simp
    then show ?thesis using sep [OF True x] by (simp add: ext_covers_def ext_first_def word_le_nat_alt)
  next
    case False
    then have "m \<le> j" using j(2) m(2) by simp
    then have "b < ?key j" using m(5) j(1) by blast
    then show ?thesis by (simp add: ext_covers_def ext_first_def word_less_nat_alt)
  qed
  have "find (ext_covers (unat b)) (concat (map (\<lambda>i. [ext_nth d i]) [0..<?n])) =
      find (ext_covers (unat b)) (map (\<lambda>i. [ext_nth d i]) [0..<?n] ! ?x)"
    by (rule find_concat_one) (use x other in auto)
  moreover have "concat (map (\<lambda>i. [ext_nth d i]) [0..<?n]) = node_extents d" by (simp add: node_extents_def)
  ultimately have "ext_mapping (node_extents d) (unat b) = (if ext_covers (unat b) ?e then Some ?e else None)"
    using x by (simp add: ext_mapping_def)
  moreover have "ext4_ext_binsearch d b = Inr (Some ?x)"
    using m(1) node_fitsD [OF fit] False by (simp add: ext4_ext_binsearch_def)
  ultimately show ?thesis using x by (intro exI [of _ "Some ?x"]) simp
qed

end
