(* ===== verification/ExtentLookup.thy ===== *)
theory ExtentLookup
  imports ExtentSpec BallocVolume
begin

text \<open>
  Following the lookup of an extent tree on a block store: the walk holds the blocks of one path, the leaf at its end
  decides, and releasing the path gives back every hold. A dirty node gets its checksum on the way
  out, which changes its last four bytes only.
\<close>

section \<open>Marking a dirty block again\<close>

locale tree_store = block_store io rep
  for io :: "'d ext4_blockdev_iface" and rep :: "'d ext4_blockdev \<Rightarrow> store \<Rightarrow> bool" +
  assumes store_dirty_again:
    "\<lbrakk> rep bd s; st_refs s l \<noteq> 0; ext4_buf_lookup (bd_bc bd) l = Some b; BC_DIRTY \<in> buf_flags b \<rbrakk> \<Longrightarrow>
     ext4_trans_set_block_dirty l (blk_edit l d bd) = blk_edit l d bd"

sublocale block_device < tree: tree_store io "store_abs content"
proof
  fix bd s l b d
  assume a: "store_abs content bd s" and l: "ext4_buf_lookup (bd_bc bd) l = Some b" "BC_DIRTY \<in> buf_flags b"
  have ready: "blk_ready content (st_pend s) bd" using a by (simp add: store_abs_def)
  note c = blk_readyD(1) [OF ready]
  have up: "BC_UPTODATE \<in> buf_flags b" using cache_cohD(4) [OF c l(1)] l(2) by (simp add: buf_coh_def)
  have "x = b" if "x \<in> set (bc_lba_root (bd_bc bd))" "buf_lba x = l" for x
    using lookup_mem [OF bc_wfD(1) [OF cache_cohD(1) [OF c]], of l x] l(1) that by simp
  then have "ext4_bcache_set_dirty (x\<lparr> buf_data := d \<rparr>) = x\<lparr> buf_data := d \<rparr>"
    if "x \<in> set (bc_lba_root (bd_bc bd))" "buf_lba x = l" for x
    using that l(2) up by (cases x) (auto simp: ext4_bcache_set_dirty_def ext4_bcache_set_flag_def insert_absorb)
  then have "map (\<lambda>b. if buf_lba b = l then ext4_bcache_set_dirty b else b)
      (map (\<lambda>b. if buf_lba b = l then b\<lparr> buf_data := d \<rparr> else b) (bc_lba_root (bd_bc bd))) =
      map (\<lambda>b. if buf_lba b = l then b\<lparr> buf_data := d \<rparr> else b) (bc_lba_root (bd_bc bd))"
    by simp
  then show "ext4_trans_set_block_dirty l (blk_edit l d bd) = blk_edit l d bd"
    by (simp add: ext4_trans_set_block_dirty_def blk_edit_def bc_apply_def buf_update_def)
qed

section \<open>Nodes\<close>

definition node_tail :: "u8 list \<Rightarrow> nat" where "node_tail d = EXT4_EXTENT_TAIL_OFFSET (node_hdr d)"

text \<open>The same node, up to its checksum.\<close>

definition tail_eq :: "u8 list \<Rightarrow> u8 list \<Rightarrow> bool" where
  "tail_eq d d' \<longleftrightarrow> d' = d \<or> (\<exists>c. length c = 4 \<and> node_tail d + 4 \<le> length d \<and> d' = patch d (node_tail d) c)"

lemma node_tail_ge: "12 \<le> node_tail d" by (simp add: node_tail_def EXT4_EXTENT_TAIL_OFFSET_def)

lemma tail_eq_hdr: "tail_eq d d' \<Longrightarrow> node_hdr d' = node_hdr d \<and> length d' = length d"
  using node_tail_ge [of d] by (auto simp: tail_eq_def node_hdr_def patch_def min_absorb1)

lemma tail_eq_trans: "tail_eq d d' \<Longrightarrow> tail_eq d' d'' \<Longrightarrow> tail_eq d d''"
proof -
  assume a: "tail_eq d d'" and b: "tail_eq d' d''"
  have t: "node_tail d' = node_tail d" "length d' = length d" using tail_eq_hdr [OF a] by (simp_all add: node_tail_def)
  show ?thesis
  proof (cases "d'' = d' \<or> d' = d")
    case True
    then show ?thesis using a b by auto
  next
    case False
    then obtain c c' where "length c = 4" "d' = patch d (node_tail d) c" "length c' = 4" "node_tail d + 4 \<le> length d"
      "d'' = patch d' (node_tail d) c'" using a b t by (auto simp: tail_eq_def)
    then show ?thesis unfolding tail_eq_def by (intro disjI2 exI [of _ c']) (simp add: patch_patch)
  qed
qed

lemma check_node_ok:
  assumes "block_node_ok k d"
  shows "ext4_ext_check sb index i d (of_nat k) = Inr ()"
    and "\<exists>c. ext4_extent_block_csum_set sb index i d = Inr (patch d (node_tail d) (enc32 c))"
proof -
  let ?h = "node_hdr d"
  have h: "ext_hdr d = Inr ?h" using node_fitsD [OF block_node_fits [OF assms]] by simp
  have f: "EXT4_EXTENT_TAIL_OFFSET ?h + 4 \<le> length d" and k: "unat (eh_depth ?h) = k" using assms by (simp_all add: block_node_ok_def)
  have dep: "of_nat k = eh_depth ?h" using k [symmetric] by simp
  have cs: "\<exists>c. ext4_ext_block_csum sb index i d = Inr c" using h f by (simp add: ext4_ext_block_csum_def rd_range_def)
  then obtain c where c: "ext4_ext_block_csum sb index i d = Inr c" ..
  have "\<not> eh_entries_count ?h > eh_max_entries_count ?h"
    using assms by (simp add: block_node_ok_def node_count_def word_le_nat_alt not_less)
  moreover have "eh_max_entries_count ?h \<noteq> 0" using assms by (auto simp: block_node_ok_def)
  ultimately show "ext4_ext_check sb index i d (of_nat k) = Inr ()"
    using assms h f c dep by (simp add: ext4_ext_check_def block_node_ok_def rd_range_def)
  show "\<exists>c. ext4_extent_block_csum_set sb index i d = Inr (patch d (node_tail d) (enc32 c))"
    using h c f wr_range_patch [of "node_tail d" "enc32 c" d] by (auto simp: ext4_extent_block_csum_set_def node_tail_def)
qed

context block_reader begin

lemma get_eq:
  assumes "fs_at rep fs0 s fs" and "l < st_cnt s" and "st_room s \<noteq> 0"
  shows "\<exists>fs'. fs_block_get io l fs = (Inr (blk l), fs') \<and> fs_at rep fs0 (st_get l s) fs'"
  using fs_get_rule [OF assms, of "\<lambda>v fs'. v = blk l \<and> fs_at rep fs0 (st_get l s) fs'"] by (auto simp: succeeds_def)

lemma set_eq:
  assumes "fs_at rep fs0 s fs" and "st_refs s l \<noteq> 0" "l \<noteq> 0" "l \<notin> st_pend s"
  shows "\<exists>fs'. fs_block_set io (blk l) fs = (Inr (), fs') \<and> fs_at rep fs0 (st_set l s) fs'"
  using fs_set_rule [OF assms, of "\<lambda>v fs'. fs_at rep fs0 (st_set l s) fs'"] by (auto simp: succeeds_def)

lemma inode_eq:
  assumes "fs_at rep fs0 s fs" and "inode_held (fs_sb fs0) ir li i s"
  shows "is_inode (fs, ir) = Inr i" and "node_data (Some InInode) (fs, ir) = Inr (enc32s (in_blocks i))"
  using assms fs_data_eq [OF assms(1), of li] fs_at_fields(1) [OF assms(1)]
  by (simp_all add: is_inode_def node_data_def ir_load_def inode_held_def)

lemma read_node_eq:
  assumes a: "fs_at rep fs0 s fs" and i: "inode_held (fs_sb fs0) ir li i s" and l: "l < st_cnt s" "st_room s \<noteq> 0"
    and n: "block_node_ok k (st_view s l)"
  shows "\<exists>fs'. read_extent_tree_block io l k bh (fs, ir) = (Inr (blk l), fs', ir) \<and> fs_at rep fs0 (st_get l s) fs'"
proof -
  from get_eq [OF a l] obtain fs' where g: "fs_block_get io l fs = (Inr (blk l), fs')" "fs_at rep fs0 (st_get l s) fs'" by blast
  have ih: "inode_held (fs_sb fs0) ir li i (st_get l s)" using i by (simp add: inode_held_def store_simps)
  have d: "fs_data (blk l) fs' = Inr (st_view s l)" using fs_data_eq [OF g(2), of l] by (simp add: store_simps)
  show ?thesis
    using g inode_eq(1) [OF g(2) ih] d check_node_ok(1) [OF n]
    by (simp add: read_extent_tree_block_def on_fs_def sread_def scatch_def)
qed

end

section \<open>The walk\<close>

lemma succeeds_on_is [simp]: "succeeds (on_is m s) Q = succeeds (m (fst s)) (\<lambda>v t. Q v (t, snd s))"
  by (cases "m (fst s)") (auto simp: on_is_def succeeds_def)

lemma succeeds_path_upd: "k < length (snd s) \<Longrightarrow> succeeds (path_upd k f s) Q = Q () (fst s, (snd s)[k := f (snd s ! k)])"
  by (simp add: path_upd_def)

lemma fold_st_get:
  "st_view (fold st_get bs s) = st_view s" "st_pend (fold st_get bs s) = st_pend s" "st_cnt (fold st_get bs s) = st_cnt s"
  "st_bsize (fold st_get bs s) = st_bsize s" "st_room (fold st_get bs s) = st_room s - length bs"
  "st_refs (fold st_get bs s) l = st_refs s l + count_list bs l"
  by (induction bs arbitrary: s) (simp_all add: store_simps)

text \<open>
  The path after a walk from position \<open>p\<close> over the blocks \<open>bs\<close>: the elements before \<open>p\<close> and the node at \<open>p\<close> are as
  they were, the ones behind it hold the blocks.
\<close>

definition walked :: "nat \<Rightarrow> u64 list \<Rightarrow> ext4_extent_path list \<Rightarrow> ext4_extent_path list \<Rightarrow> bool" where
  "walked p bs ps ps' \<longleftrightarrow>
     length ps' = length ps \<and> (\<forall>j < p. ps' ! j = ps ! j) \<and>
     ep_block (ps' ! p) = ep_block (ps ! p) \<and> ep_header (ps' ! p) = ep_header (ps ! p) \<and>
     (bs \<noteq> [] \<longrightarrow> ep_depth (ps' ! p) = length bs) \<and>
     (\<forall>j < length bs. ep_block (ps' ! (p + 1 + j)) = blk (bs ! j) \<and> ep_header (ps' ! (p + 1 + j)) = Some (InBlock (blk (bs ! j))))"

definition tree_nodes :: "store \<Rightarrow> u64 set \<Rightarrow> bool" where
  "tree_nodes s ok \<longleftrightarrow> (\<forall>l \<in> ok. l \<noteq> 0 \<and> l < st_cnt s)"

context tree_store begin

lemma find_walk_rule:
  assumes ok: "tree_nodes s0 ok"
  shows "fs_at rep fs0 s fs \<Longrightarrow> inode_held (fs_sb fs0) ir li i s \<Longrightarrow> st_view s = st_view s0 \<Longrightarrow> st_cnt s = st_cnt s0 \<Longrightarrow>
    path_node p ((fs, ir), ps) = Inr d \<Longrightarrow> ext_tree (st_view s0) ok k d lo hi \<Longrightarrow> p + k < length ps \<Longrightarrow> k \<le> st_room s \<Longrightarrow>
    (\<And>j. p < j \<Longrightarrow> j \<le> p + k \<Longrightarrow> b_lb_id (ep_block (ps ! j)) = 0) \<Longrightarrow>
    \<exists>fs' ps' bs d' lo' hi'. find_walk k io b (p + k) p bh ((fs, ir), ps) = (Inr (p + k), (fs', ir), ps') \<and>
      fs_at rep fs0 (fold st_get bs s) fs' \<and> length bs = k \<and> (\<forall>l \<in> set bs. l \<in> ok \<and> (\<exists>j. block_node_ok j (st_view s0 l))) \<and>
      walked p bs ps ps' \<and> path_node (p + k) ((fs', ir), ps') = Inr d' \<and> ext_tree (st_view s0) ok 0 d' lo' hi' \<and>
      ext_mapping (tree_extents (st_view s0) k d) (unat b) = ext_mapping (node_extents d') (unat b) \<and>
      set (node_extents d') \<subseteq> set (tree_extents (st_view s0) k d)"
proof (induction k arbitrary: p fs s ps d lo hi bh)
  case 0
  then show ?case
    by (intro exI [of _ fs] exI [of _ ps] exI [of _ "[]"] exI [of _ d] exI [of _ lo] exI [of _ hi]) (simp add: walked_def)
next
  case (Suc k)
  let ?V = "st_view s0"
  have fit: "node_fits d" using Suc.prems(6) by simp
  from idx_search [OF Suc.prems(6), of b] obtain x where x: "ext4_ext_binsearch_idx d b = Inr x" "x < node_count d"
    "ext_mapping (tree_extents ?V (Suc k) d) (unat b) = ext_mapping (tree_extents ?V k (?V (idx_child d x))) (unat b)" by blast
  let ?l = "idx_child d x"
  let ?lo = "if x = 0 then lo else idx_first d x" and ?hi = "if x + 1 < node_count d then idx_first d (x + 1) else hi"
  have c: "?l \<in> ok" "block_node_ok k (?V ?l)" "ext_tree ?V ok k (?V ?l) ?lo ?hi"
    using Suc.prems(6) x(2) by (auto simp del: One_nat_def)
  have l: "?l \<noteq> 0" "?l < st_cnt s" using ok c(1) Suc.prems(4) by (auto simp: tree_nodes_def)
  have e: "idx_at d x = Inr (idx_nth d x)" using node_at [OF fit x(2)] by simp
  let ?s = "st_get ?l s"
  let ?p1 = "\<lambda>q. q\<lparr> ep_index := Some x, ep_p_block := ?l, ep_depth := Suc k, ep_extent := None \<rparr>"
  let ?p2 = "\<lambda>q. q\<lparr> ep_block := blk ?l, ep_header := Some (InBlock (blk ?l)) \<rparr>"
  let ?ps = "ps[p := ?p1 (ps ! p)]" let ?qs = "?ps[p + 1 := ?p2 (?ps ! (p + 1))]"
  have len: "p + 1 < length ps" using Suc.prems(7) by simp
  have room: "st_room s \<noteq> 0" using Suc.prems(8) by simp
  from read_node_eq [OF Suc.prems(1,2) l(2) room, of k bh] c(2) Suc.prems(3) obtain fs1 where
    f1: "read_extent_tree_block io ?l k bh (fs, ir) = (Inr (blk ?l), fs1, ir)" "fs_at rep fs0 ?s fs1" by auto
  have ih: "inode_held (fs_sb fs0) ir li i ?s" using Suc.prems(2) by (simp add: inode_held_def store_simps)
  have "fs_data (blk ?l) fs1 = Inr (?V ?l)" using fs_data_eq [OF f1(2), of ?l] Suc.prems(3) by (simp add: store_simps)
  then have nd: "path_node (p + 1) ((fs1, ir), ?qs) = Inr (?V ?l)"
    using len by (simp add: path_node_def path_get_def node_data_def)
  have z: "b_lb_id (ep_block (?qs ! j)) = 0" if "p + 1 < j" "j \<le> p + 1 + k" for j
    using Suc.prems(9) [of j] that by (simp add: nth_list_update)
  have step: "find_walk (Suc k) io b (p + Suc k) p bh ((fs, ir), ps) = find_walk k io b (p + 1 + k) (p + 1) (blk ?l) ((fs1, ir), ?qs)"
    using Suc.prems(5) Suc.prems(9) [of "p + 1"] x(1) e len f1(1)
    by (simp add: sread_def path_upd_def path_get_def on_is_def idx_child_def [symmetric])
  have prem: "st_view ?s = ?V" "st_cnt ?s = st_cnt s0" "p + 1 + k < length ?qs" "k \<le> st_room ?s"
    using Suc.prems(3,4,7,8) by (simp_all add: store_simps)
  from Suc.IH [OF f1(2) ih prem(1,2) nd c(3) prem(3,4) z] obtain fs' ps' bs d' lo' hi' where
    w: "find_walk k io b (p + 1 + k) (p + 1) (blk ?l) ((fs1, ir), ?qs) = (Inr (p + 1 + k), (fs', ir), ps')"
      "fs_at rep fs0 (fold st_get bs ?s) fs'" "length bs = k" "\<forall>l \<in> set bs. l \<in> ok \<and> (\<exists>j. block_node_ok j (?V l))"
      "walked (p + 1) bs ?qs ps'" "path_node (p + 1 + k) ((fs', ir), ps') = Inr d'" "ext_tree ?V ok 0 d' lo' hi'"
      "ext_mapping (tree_extents ?V k (?V ?l)) (unat b) = ext_mapping (node_extents d') (unat b)"
      "set (node_extents d') \<subseteq> set (tree_extents ?V k (?V ?l))" by blast
  have "set (tree_extents ?V k (?V ?l)) \<subseteq> set (tree_extents ?V (Suc k) d)" using x(2) by auto
  then have sub: "set (node_extents d') \<subseteq> set (tree_extents ?V (Suc k) d)" using w(9) by (rule subset_trans [rotated])
  have "walked p (?l # bs) ps ps'"
    unfolding walked_def
  proof (intro conjI allI impI)
    show "length ps' = length ps" using w(5) by (simp add: walked_def)
    fix j assume "j < p"
    then show "ps' ! j = ps ! j" using w(5) by (simp add: walked_def)
  next
    have "ps' ! p = ?qs ! p" using w(5) by (simp add: walked_def)
    then have "ps' ! p = ?p1 (ps ! p)" using len by simp
    then show "ep_block (ps' ! p) = ep_block (ps ! p)" "ep_header (ps' ! p) = ep_header (ps ! p)"
      "ep_depth (ps' ! p) = length (?l # bs)" using w(3) by simp_all
  next
    fix j assume "j < length (?l # bs)"
    then show "ep_block (ps' ! (p + 1 + j)) = blk ((?l # bs) ! j)" "ep_header (ps' ! (p + 1 + j)) = Some (InBlock (blk ((?l # bs) ! j)))"
      using w(5) len by (cases j; simp add: walked_def)+
  qed
  then show ?case
    using w(1-8) c(1,2) x(3) sub unfolding step
    by (intro exI [of _ fs'] exI [of _ ps'] exI [of _ "?l # bs"] exI [of _ d'] exI [of _ lo'] exI [of _ hi']) auto
qed

end

section \<open>Releasing the path\<close>

lemma tail_eq_node:
  assumes t: "tail_eq d d'" and n: "block_node_ok k d"
  shows "block_node_ok k d'"
  using n tail_eq_hdr [OF t] by (simp add: block_node_ok_def node_count_def)

text \<open>Two views of the blocks that differ in checksums of nodes in \<open>L\<close> only.\<close>

definition tails_only :: "u64 set \<Rightarrow> (u64 \<Rightarrow> u8 list) \<Rightarrow> (u64 \<Rightarrow> u8 list) \<Rightarrow> bool" where
  "tails_only L V V' \<longleftrightarrow> (\<forall>l. tail_eq (V l) (V' l) \<and> (l \<notin> L \<longrightarrow> V' l = V l))"

lemma tails_only_refl: "tails_only L V V" by (simp add: tails_only_def tail_eq_def)

lemma tails_only_trans: "tails_only L V V' \<Longrightarrow> tails_only M V' V'' \<Longrightarrow> tails_only (L \<union> M) V V''"
  unfolding tails_only_def
proof (intro allI conjI impI)
  fix l
  assume "\<forall>l. tail_eq (V l) (V' l) \<and> (l \<notin> L \<longrightarrow> V' l = V l)" "\<forall>l. tail_eq (V' l) (V'' l) \<and> (l \<notin> M \<longrightarrow> V'' l = V' l)"
  then have t: "tail_eq (V l) (V' l)" "tail_eq (V' l) (V'' l)" and e: "l \<notin> L \<longrightarrow> V' l = V l" "l \<notin> M \<longrightarrow> V'' l = V' l" by blast+
  show "tail_eq (V l) (V'' l)" by (rule tail_eq_trans [OF t])
  show "V'' l = V l" if "l \<notin> L \<union> M" using that e by simp
qed

definition released :: "ext4_extent_path \<Rightarrow> ext4_extent_path" where
  "released p = p\<lparr> ep_block := (ep_block p)\<lparr> b_lb_id := 0 \<rparr> \<rparr>"

context tree_store begin

lemma drop_ref_ok:
  assumes a: "fs_at rep fs0 s fs" and ih: "inode_held (fs_sb fs0) ir li i s" and r: "st_refs s l \<noteq> 0"
    and l: "l \<noteq> 0" "l \<notin> st_pend s" and n: "block_node_ok k (st_view s l)"
    and p: "ep_block p = blk l" "ep_header p = Some (InBlock (blk l))"
  shows "\<exists>fs' V'. drop_ref io p (fs, ir) = (Inr (released p), fs', ir) \<and> fs_at rep fs0 (st_set l (s\<lparr> st_view := V' \<rparr>)) fs' \<and>
    tails_only {l} (st_view s) V'"
proof -
  let ?V = "st_view s"
  obtain bd where f: "fs = fs0\<lparr> fs_bdev := bd \<rparr>" and b: "rep bd s" using a by (auto simp: fs_at_def)
  from store_data [OF b r] obtain x where x: "ext4_buf_lookup (bd_bc bd) l = Some x" "buf_data x = ?V l" by blast
  have dt: "buf_is_dirty (blk l) fs = Inr (BC_DIRTY \<in> buf_flags x)" by (simp add: buf_is_dirty_def f x ext4_bcache_test_flag_def)
  from check_node_ok(2) [OF n] obtain c where
    c: "ext4_extent_block_csum_set (fs_sb fs) (ir_index ir) i (?V l) = Inr (patch (?V l) (node_tail (?V l)) (enc32 c))" by blast
  let ?d = "patch (?V l) (node_tail (?V l)) (enc32 c)"
  have tl: "node_tail (?V l) + 4 \<le> length (?V l)" using n by (simp add: block_node_ok_def node_tail_def)
  have ld: "length ?d = st_bsize s" using tl held_length [OF a r] by simp
  have te: "tail_eq (?V l) ?d" unfolding tail_eq_def using tl by (intro disjI2 exI [of _ "enc32 c"]) simp
  show ?thesis
  proof (cases "BC_DIRTY \<in> buf_flags x")
    case False
    from set_eq [OF a r l] obtain fs' where "fs_block_set io (blk l) fs = (Inr (), fs')" "fs_at rep fs0 (st_set l s) fs'" by blast
    then show ?thesis using False dt p l(1)
      by (intro exI [of _ fs'] exI [of _ ?V])
         (simp add: drop_ref_def sread_def on_fs_def tails_only_refl released_def)
  next
    case True
    let ?bd = "blk_edit l ?d bd" let ?s = "s\<lparr> st_view := ?V(l := ?d) \<rparr>"
    have "ext4_trans_set_block_dirty l ?bd = ?bd" by (rule store_dirty_again [OF b r x(1) True])
    moreover have "rep (ext4_trans_set_block_dirty l ?bd) (st_dirty l (st_edit l ?d s))"
      by (rule store_dirty [OF store_edit [OF b r ld]]) (simp add: store_simps r)
    moreover have "st_dirty l (st_edit l ?d s) = ?s" using l(2) by (simp add: st_dirty_def st_edit_def)
    ultimately have a': "fs_at rep fs0 ?s (fs\<lparr> fs_bdev := ?bd \<rparr>)" by (auto simp: fs_at_def f)
    have md: "node_modify (ep_header p) (ext4_extent_block_csum_set (fs_sb fs) (ir_index ir) i) (fs, ir) =
        (Inr (), fs\<lparr> fs_bdev := ?bd \<rparr>, ir)"
      by (simp add: node_modify_def sread_def p node_data_def fs_data_eq [OF a r] c node_store_def on_fs_def fs_store_def)
         (simp add: f)
    have "st_refs ?s l \<noteq> 0" "l \<notin> st_pend ?s" using r l by simp_all
    from set_eq [OF a' this(1) l(1) this(2)] obtain fs' where
      g: "fs_block_set io (blk l) (fs\<lparr> fs_bdev := ?bd \<rparr>) = (Inr (), fs')" "fs_at rep fs0 (st_set l ?s) fs'" by blast
    have "tails_only {l} ?V (?V(l := ?d))" using te by (simp add: tails_only_def tail_eq_def)
    moreover have "drop_ref io p (fs, ir) = (Inr (released p), fs', ir)"
      using True dt p(1) l(1) md inode_eq(1) [OF a ih] g(1)
      by (simp only: drop_ref_def sread_def on_fs_def released_def fst_conv snd_conv sbind_simps ext4_block.simps
          prod.case sum.case if_True if_False simp_thms)
    ultimately show ?thesis using g(2) by blast
  qed
qed

text \<open>Releasing the blocks \<open>bs\<close>, held by the elements from position \<open>k\<close> on.\<close>

lemma drop_refs_ok:
  "fs_at rep fs0 s fs \<Longrightarrow> inode_held (fs_sb fs0) ir li i s \<Longrightarrow> li \<notin> set bs \<Longrightarrow>
   (\<And>l. l \<in> set bs \<Longrightarrow> l \<noteq> 0 \<and> l \<notin> st_pend s \<and> (\<exists>k. block_node_ok k (st_view s l))) \<Longrightarrow>
   (\<And>l. st_refs s l = r l + count_list bs l) \<Longrightarrow> k + length bs \<le> length ps \<Longrightarrow>
   (\<And>j. j < length bs \<Longrightarrow> ep_block (ps ! (k + j)) = blk (bs ! j) \<and> ep_header (ps ! (k + j)) = Some (InBlock (blk (bs ! j)))) \<Longrightarrow>
   \<exists>fs' V' ps'. drop_refs_from (length bs) io k ((fs, ir), ps) = (Inr (), (fs', ir), ps') \<and>
     fs_at rep fs0 (s\<lparr> st_refs := r, st_view := V' \<rparr>) fs' \<and> tails_only (set bs) (st_view s) V'"
proof (induction bs arbitrary: k fs s ps)
  case Nil
  then have "st_refs s = r" by auto
  then have "s\<lparr> st_refs := r, st_view := st_view s \<rparr> = s" by simp
  with Nil.prems(1) show ?case
    by (intro exI [of _ fs] exI [of _ "st_view s"] exI [of _ ps]) (simp add: tails_only_refl)
next
  case (Cons l bs)
  let ?p = "ps ! k"
  have pe: "ep_block ?p = blk l" "ep_header ?p = Some (InBlock (blk l))" using Cons.prems(7) [of 0] by simp_all
  have r: "st_refs s l \<noteq> 0" using Cons.prems(5) [of l] by simp
  obtain j where l: "l \<noteq> 0" "l \<notin> st_pend s" "block_node_ok j (st_view s l)" using Cons.prems(4) [of l] by auto
  from drop_ref_ok [OF Cons.prems(1,2) r l pe] obtain fs1 V1 where
    d: "drop_ref io ?p (fs, ir) = (Inr (released ?p), fs1, ir)" "fs_at rep fs0 (st_set l (s\<lparr> st_view := V1 \<rparr>)) fs1"
      "tails_only {l} (st_view s) V1" by blast
  let ?s = "st_set l (s\<lparr> st_view := V1 \<rparr>)" let ?ps = "ps[k := released ?p]"
  have "V1 li = st_view s li" using d(3) Cons.prems(3) by (simp add: tails_only_def)
  then have ih: "inode_held (fs_sb fs0) ir li i ?s"
    using Cons.prems(2,3) by (simp add: inode_held_def store_simps)
  have n: "l' \<noteq> 0 \<and> l' \<notin> st_pend ?s \<and> (\<exists>k. block_node_ok k (st_view ?s l'))" if "l' \<in> set bs" for l'
  proof -
    obtain m where "l' \<noteq> 0" "l' \<notin> st_pend s" "block_node_ok m (st_view s l')" using Cons.prems(4) [of l'] \<open>l' \<in> set bs\<close> by auto
    moreover have "tail_eq (st_view s l') (V1 l')" using d(3) by (simp add: tails_only_def)
    ultimately show ?thesis using tail_eq_node by (auto simp: store_simps)
  qed
  have rf: "st_refs ?s l' = r l' + count_list bs l'" for l'
    using Cons.prems(5) [of l'] by (auto simp: store_simps)
  have pp: "ep_block (?ps ! (k + 1 + j)) = blk (bs ! j) \<and> ep_header (?ps ! (k + 1 + j)) = Some (InBlock (blk (bs ! j)))"
    if "j < length bs" for j
    using Cons.prems(7) [of "Suc j"] that by simp
  from Cons.IH [OF d(2) ih _ n rf, of "k + 1" ?ps] Cons.prems(3,6) pp obtain fs' V' ps' where
    e: "drop_refs_from (length bs) io (k + 1) ((fs1, ir), ?ps) = (Inr (), (fs', ir), ps')"
      "fs_at rep fs0 (?s\<lparr> st_refs := r, st_view := V' \<rparr>) fs'" "tails_only (set bs) (st_view ?s) V'" by auto
  have "?s\<lparr> st_refs := r, st_view := V' \<rparr> = s\<lparr> st_refs := r, st_view := V' \<rparr>" by (simp add: st_set_def)
  moreover have "tails_only (set (l # bs)) (st_view s) V'"
    using tails_only_trans [OF d(3)] e(3) by (simp add: store_simps)
  moreover have "drop_refs_from (length (l # bs)) io k ((fs, ir), ps) = (Inr (), (fs', ir), ps')"
    using e(1) d(1) Cons.prems(6) by (simp add: sread_def path_get_def path_upd_def on_is_def)
  ultimately show ?case using e(2) by auto
qed

end

section \<open>The lookup\<close>

text \<open>What the lookup answers for a block, given the extent that maps it.\<close>

definition ext_answer :: "ext4_extent option \<Rightarrow> u32 \<Rightarrow> u32 \<Rightarrow> u64 \<times> u32" where
  "ext_answer m b n =
     (case m of
        None \<Rightarrow> (0, 0)
      | Some e \<Rightarrow>
          (if ext4_ext_is_unwritten e then 0 else ext4_ext_pblock e + ucast (b - ee_first_block e),
           min (ucast (ext4_ext_get_actual_len e) - (b - ee_first_block e)) n))"

lemma in_range_covers:
  assumes "0 < ext_len e" and "ext_first e + ext_len e \<le> 2 ^ 32"
  shows "IN_RANGE b (ee_first_block e) (ucast (ext4_ext_get_actual_len e)) \<longleftrightarrow> ext_covers (unat b) e"
proof -
  let ?l = "ucast (ext4_ext_get_actual_len e) :: u32"
  have l: "unat ?l = ext_len e" by (simp add: ext_len_def unsigned_ucast_eq take_bit_nat_eq_self unsigned_less [THEN order.strict_trans2])
  then have "?l \<noteq> 0" using assms(1) by auto
  then have "unat (?l - 1) = ext_len e - 1" using l by (simp add: unat_dec)
  then have "unat (ee_first_block e + (?l - 1)) = ext_first e + (ext_len e - 1)"
    using assms by (subst unat_add_le) (simp_all add: ext_first_def)
  then have "unat (ee_first_block e + ?l - 1) = ext_first e + ext_len e - 1" using assms(1) by (simp add: add_diff_eq)
  then show ?thesis using assms(1) by (auto simp: IN_RANGE_def ext_covers_def word_le_nat_alt ext_first_def)
qed

lemma get_found_read:
  assumes "case m of None \<Rightarrow> True | Some e \<Rightarrow> 0 < ext_len e \<and> ext_first e + ext_len e \<le> 2 ^ 32"
  shows "get_found io b n False m s =
    (Inr (ext_answer (case m of None \<Rightarrow> None | Some e \<Rightarrow> if ext_covers (unat b) e then Some e else None) b n), s)"
  using assms in_range_covers [of _ b]
  by (auto simp: get_found_def ext_answer_def Let_def min_def add.commute not_less split: option.splits)

definition inode_root :: "ext4_inode \<Rightarrow> u8 list" where "inode_root i = enc32s (in_blocks i)"
definition inode_depth :: "ext4_inode \<Rightarrow> nat" where "inode_depth i = unat (eh_depth (node_hdr (inode_root i)))"

text \<open>The inode's tree is sound: every block is in the range of one leaf, and nodes are blocks nobody has edited and not marked.\<close>

definition tree_in :: "ext4_sblock \<Rightarrow> ext4_inode_ref \<Rightarrow> u64 \<Rightarrow> ext4_inode \<Rightarrow> u64 set \<Rightarrow> store \<Rightarrow> bool" where
  "tree_in sb ir li i ok s \<longleftrightarrow>
     inode_held sb ir li i s \<and> tree_nodes s ok \<and> li \<notin> ok \<and> ok \<inter> st_pend s = {} \<and>
     ext_tree (st_view s) ok (inode_depth i) (inode_root i) 0 (2 ^ 32)"

context tree_store begin

lemma depth_eq:
  assumes "fs_at rep fs0 s fs" and "inode_held (fs_sb fs0) ir li i s" and "node_fits (inode_root i)"
  shows "ext_depth (fs, ir) = Inr (inode_depth i)"
  using inode_eq(2) [OF assms(1,2)] node_fitsD [OF assms(3)]
  by (simp add: ext_depth_def inode_depth_def inode_root_def)

lemma find_extent_ok:
  assumes a: "fs_at rep fs0 s fs" and t: "tree_in (fs_sb fs0) ir li i ok s" and room: "inode_depth i \<le> st_room s"
  shows "\<exists>fs' ps bs m d x. ext4_find_extent io b ((fs, ir), []) = (Inr (), (fs', ir), ps) \<and>
    fs_at rep fs0 (fold st_get bs s) fs' \<and> length bs = inode_depth i \<and>
    (\<forall>l \<in> set bs. l \<in> ok \<and> (\<exists>j. block_node_ok j (st_view s l))) \<and>
    length ps = inode_depth i + 2 \<and> b_lb_id (ep_block (ps ! 0)) = 0 \<and> ep_depth (ps ! 0) = inode_depth i \<and>
    (\<forall>j < length bs. ep_block (ps ! (1 + j)) = blk (bs ! j) \<and> ep_header (ps ! (1 + j)) = Some (InBlock (blk (bs ! j)))) \<and>
    path_node (inode_depth i) ((fs', ir), ps) = Inr d \<and> ep_extent (ps ! inode_depth i) = x \<and>
    (case x of None \<Rightarrow> m = None | Some j \<Rightarrow> \<exists>e. ext_at d j = Inr e \<and> m = Some e \<and> 0 < ext_len e \<and> ext_first e + ext_len e \<le> 2 ^ 32) \<and>
    ext_mapping (tree_extents (st_view s) (inode_depth i) (inode_root i)) (unat b) =
      (case m of None \<Rightarrow> None | Some e \<Rightarrow> if ext_covers (unat b) e then Some e else None)"
proof -
  let ?k = "inode_depth i" and ?d = "inode_root i"
  have ih: "inode_held (fs_sb fs0) ir li i s" and nd: "tree_nodes s ok" and tr: "ext_tree (st_view s) ok ?k ?d 0 (2 ^ 32)"
    using t by (simp_all add: tree_in_def)
  have fit: "node_fits ?d" using tr by (cases ?k) simp_all
  note dep = depth_eq [OF a ih fit]
  let ?ps = "(replicate (?k + 2) path_zero)[0 := path_zero\<lparr> ep_maxdepth := ?k + 1, ep_header := Some InInode, ep_block := EXT4_BLOCK_ZERO \<rparr>]"
  have pn: "path_node 0 ((fs, ir), ?ps) = Inr ?d"
    using inode_eq(2) [OF a ih] by (simp add: path_node_def path_get_def inode_root_def)
  have z: "b_lb_id (ep_block (?ps ! j)) = 0" if "0 < j" "j \<le> 0 + ?k" for j
    using that by (cases j) (simp_all add: nth_Cons' path_zero_def EXT4_BLOCK_ZERO_def)
  have len: "0 + ?k < length ?ps" by simp
  from find_walk_rule [OF nd a ih refl refl pn tr len room z, of b EXT4_BLOCK_ZERO] obtain fs' ps' bs d' lo' hi' where
    w: "find_walk ?k io b (0 + ?k) 0 EXT4_BLOCK_ZERO ((fs, ir), ?ps) = (Inr (0 + ?k), (fs', ir), ps')"
      "fs_at rep fs0 (fold st_get bs s) fs'" "length bs = ?k" "\<forall>l \<in> set bs. l \<in> ok \<and> (\<exists>j. block_node_ok j (st_view s l))"
      "walked 0 bs ?ps ps'" "path_node (0 + ?k) ((fs', ir), ps') = Inr d'" "ext_tree (st_view s) ok 0 d' lo' hi'"
      "ext_mapping (tree_extents (st_view s) ?k ?d) (unat b) = ext_mapping (node_extents d') (unat b)"
      "set (node_extents d') \<subseteq> set (tree_extents (st_view s) ?k ?d)" by blast
  have lp: "length ps' = ?k + 2" using w(5) by (simp add: walked_def)
  from leaf_search [OF w(7), of b] obtain x where x: "ext4_ext_binsearch d' b = Inr x"
    "case x of None \<Rightarrow> node_count d' = 0 \<and> ext_mapping (node_extents d') (unat b) = None
     | Some j \<Rightarrow> j < node_count d' \<and>
         ext_mapping (node_extents d') (unat b) = (if ext_covers (unat b) (ext_nth d' j) then Some (ext_nth d' j) else None)" by blast
  define m where "m = map_option (ext_nth d') x"
  have fit': "node_fits d'" using w(7) by simp
  have at: "ext_at d' j = Inr (ext_nth d' j)" if "x = Some j" for j using node_at [OF fit'] x(2) that by simp
  define q where "q = (\<lambda>p :: ext4_extent_path. p\<lparr> ep_depth := 0, ep_extent := x, ep_index := None,
      ep_p_block := (case x of None \<Rightarrow> ep_p_block p | Some j \<Rightarrow> ext4_ext_pblock (ext_nth d' j)) \<rparr>)"
  let ?qs = "ps'[?k := q (ps' ! ?k)]"
  have run: "ext4_find_extent io b ((fs, ir), []) = (Inr (), (fs', ir), ?qs)"
    using dep w(1,6) x(1) at lp
    by (auto simp: ext4_find_extent_def sread_def find_start_def path_upd_def scatch_def q_def split: option.splits)
  have qk: "ep_block (?qs ! j) = ep_block (ps' ! j)" "ep_header (?qs ! j) = ep_header (ps' ! j)" for j
    using lp by (cases "j = ?k"; simp add: q_def)+
  have len_e: "0 < ext_len (ext_nth d' j) \<and> ext_first (ext_nth d' j) + ext_len (ext_nth d' j) \<le> 2 ^ 32" if j: "x = Some j" for j
  proof -
    have "j < node_count d'" using x(2) j by simp
    then have "ext_nth d' j \<in> set (tree_extents (st_view s) ?k ?d)" using w(9) by (auto simp: node_extents_def)
    then show ?thesis using tree_extents_between [OF tr] by blast
  qed
  have p0: "b_lb_id (ep_block (ps' ! 0)) = 0 \<and> (?k \<noteq> 0 \<longrightarrow> ep_depth (ps' ! 0) = ?k)"
    using w(3,5) by (auto simp: walked_def EXT4_BLOCK_ZERO_def)
  have q0: "ep_depth (?qs ! 0) = ?k" using p0 lp by (cases "?k = 0") (simp_all add: q_def)
  have blocks: "\<forall>j < length bs. ep_block (?qs ! (1 + j)) = blk (bs ! j) \<and> ep_header (?qs ! (1 + j)) = Some (InBlock (blk (bs ! j)))"
    unfolding qk using w(5) by (simp add: walked_def)
  have pk: "path_node ?k ((fs', ir), ?qs) = Inr d'"
    using w(6) lp qk(2) [of ?k] by (simp add: path_node_def path_get_def)
  have xk: "ep_extent (?qs ! ?k) = x" using lp by (simp add: q_def)
  have mm: "case x of None \<Rightarrow> m = None | Some j \<Rightarrow> \<exists>e. ext_at d' j = Inr e \<and> m = Some e \<and> 0 < ext_len e \<and> ext_first e + ext_len e \<le> 2 ^ 32"
    using at len_e by (auto simp: m_def split: option.splits)
  have mp: "ext_mapping (tree_extents (st_view s) ?k ?d) (unat b) =
      (case m of None \<Rightarrow> None | Some e \<Rightarrow> if ext_covers (unat b) e then Some e else None)"
    using x(2) w(8) by (auto simp: m_def split: option.splits)
  show ?thesis
    by (rule exI [of _ fs'], rule exI [of _ ?qs], rule exI [of _ bs], rule exI [of _ m], rule exI [of _ d'], rule exI [of _ x])
       (use run w(2,3,4) lp p0 qk(1) [of 0] q0 blocks pk xk mm mp in simp)
qed

end

context tree_store begin

lemma drop_path_ok:
  assumes a: "fs_at rep fs0 (fold st_get bs s) fs" and ih: "inode_held (fs_sb fs0) ir li i s" and li: "li \<notin> set bs"
    and n: "\<And>l. l \<in> set bs \<Longrightarrow> l \<noteq> 0 \<and> l \<notin> st_pend s \<and> (\<exists>j. block_node_ok j (st_view s l))"
    and ps: "length bs < length ps" "b_lb_id (ep_block (ps ! 0)) = 0" "ep_depth (ps ! 0) = length bs"
    and e: "\<And>j. j < length bs \<Longrightarrow> ep_block (ps ! (1 + j)) = blk (bs ! j) \<and> ep_header (ps ! (1 + j)) = Some (InBlock (blk (bs ! j)))"
  shows "\<exists>fs' V' ps'. ext4_ext_drop_refs io 0 False ((fs, ir), ps) = (Inr (), (fs', ir), ps') \<and>
    fs_at rep fs0 (s\<lparr> st_view := V', st_room := st_room s - length bs \<rparr>) fs' \<and> tails_only (set bs) (st_view s) V'"
proof -
  let ?s = "fold st_get bs s"
  have ih': "inode_held (fs_sb fs0) ir li i ?s" using ih li by (simp add: inode_held_def fold_st_get)
  have n': "l \<noteq> 0 \<and> l \<notin> st_pend ?s \<and> (\<exists>j. block_node_ok j (st_view ?s l))" if "l \<in> set bs" for l
    using n [OF that] by (simp add: fold_st_get)
  from drop_refs_ok [OF a ih' li n', where k = 1 and ps = ps and r = "st_refs s"] ps(1) e obtain fs' V' ps' where
    d: "drop_refs_from (length bs) io 1 ((fs, ir), ps) = (Inr (), (fs', ir), ps')"
      "fs_at rep fs0 (?s\<lparr> st_refs := st_refs s, st_view := V' \<rparr>) fs'" "tails_only (set bs) (st_view ?s) V'"
    by (auto simp: fold_st_get)
  have "?s\<lparr> st_refs := st_refs s, st_view := V' \<rparr> = s\<lparr> st_view := V', st_room := st_room s - length bs \<rparr>"
    by (rule store.equality) (simp_all add: fold_st_get)
  then have "fs_at rep fs0 (s\<lparr> st_view := V', st_room := st_room s - length bs \<rparr>) fs'" using d(2) by (simp only:)
  moreover have "tails_only (set bs) (st_view s) V'" using d(3) by (simp add: fold_st_get)
  moreover have "ps \<noteq> []" using ps(1) by auto
  then have "ext4_ext_drop_refs io 0 False ((fs, ir), ps) = (Inr (), (fs', ir), ps')"
    using d(1) ps
    by (simp add: ext4_ext_drop_refs_def sread_def path_get_def drop_ref_def on_is_def path_upd_def)
  ultimately show ?thesis by blast
qed

text \<open>What the search leaves in the last element of the path: the only extent that can map the block.\<close>

definition found_for :: "nat \<Rightarrow> u32 \<Rightarrow> ext4_extent option \<Rightarrow> ext4_extent option \<Rightarrow> 'd estate \<Rightarrow> bool" where
  "found_for k b answer m s \<longleftrightarrow>
     k < length (snd s) \<and> ext_depth (fst s) = Inr k \<and>
     (\<exists>d. path_node k s = Inr d \<and>
        (case ep_extent (snd s ! k) of
           None \<Rightarrow> m = None
         | Some j \<Rightarrow> \<exists>e. ext_at d j = Inr e \<and> m = Some e \<and> 0 < ext_len e \<and> ext_first e + ext_len e \<le> 2 ^ 32)) \<and>
     answer = (case m of None \<Rightarrow> None | Some e \<Rightarrow> if ext_covers (unat b) e then Some e else None)"

text \<open>A search, something that only reads at its end, and the release of the path.\<close>

lemma search_and_free:
  assumes a: "fs_at rep fs0 s fs" and t: "tree_in (fs_sb fs0) ir li i ok s" and room: "inode_depth i \<le> st_room s"
    and g: "\<And>fs1 ps m. found_for (inode_depth i) b (ext_mapping (tree_extents (st_view s) (inode_depth i) (inode_root i)) (unat b)) m
              ((fs1, ir), ps) \<Longrightarrow> g ((fs1, ir), ps) = (Inr r, (fs1, ir), ps)"
  shows "\<exists>fs' V'. path_free io (sbind (ext4_find_extent io b ((fs, ir), [])) (\<lambda>_ s. g s)) = (Inr r, fs', ir) \<and>
    fs_at rep fs0 (s\<lparr> st_view := V', st_room := st_room s - inode_depth i \<rparr>) fs' \<and> tails_only ok (st_view s) V'"
proof -
  let ?k = "inode_depth i"
  from find_extent_ok [OF a t room, of b] obtain fs1 ps bs m d x where
    f: "ext4_find_extent io b ((fs, ir), []) = (Inr (), (fs1, ir), ps)" "fs_at rep fs0 (fold st_get bs s) fs1" "length bs = ?k"
      "\<forall>l \<in> set bs. l \<in> ok \<and> (\<exists>j. block_node_ok j (st_view s l))" "length ps = ?k + 2" "b_lb_id (ep_block (ps ! 0)) = 0"
      "ep_depth (ps ! 0) = ?k"
      "\<forall>j < length bs. ep_block (ps ! (1 + j)) = blk (bs ! j) \<and> ep_header (ps ! (1 + j)) = Some (InBlock (blk (bs ! j)))"
      "path_node ?k ((fs1, ir), ps) = Inr d" "ep_extent (ps ! ?k) = x"
      "case x of None \<Rightarrow> m = None | Some j \<Rightarrow> \<exists>e. ext_at d j = Inr e \<and> m = Some e \<and> 0 < ext_len e \<and> ext_first e + ext_len e \<le> 2 ^ 32"
      "ext_mapping (tree_extents (st_view s) ?k (inode_root i)) (unat b) =
        (case m of None \<Rightarrow> None | Some e \<Rightarrow> if ext_covers (unat b) e then Some e else None)" by blast
  have ih: "inode_held (fs_sb fs0) ir li i s" and ok: "tree_nodes s ok" "li \<notin> ok" "ok \<inter> st_pend s = {}"
    and fit: "node_fits (inode_root i)" using t by (auto simp: tree_in_def) (cases ?k, simp_all)
  have li: "li \<notin> set bs" using f(4) ok(2) by blast
  have ih1: "inode_held (fs_sb fs0) ir li i (fold st_get bs s)" using ih by (simp add: inode_held_def fold_st_get)
  have n: "l \<noteq> 0 \<and> l \<notin> st_pend s \<and> (\<exists>j. block_node_ok j (st_view s l))" if "l \<in> set bs" for l
    using that f(4) ok by (auto simp: tree_nodes_def)
  have ps: "length bs < length ps" "ep_depth (ps ! 0) = length bs" using f(3,5,7) by simp_all
  have e: "ep_block (ps ! (1 + j)) = blk (bs ! j) \<and> ep_header (ps ! (1 + j)) = Some (InBlock (blk (bs ! j)))" if "j < length bs" for j
    using f(8) that by blast
  from drop_path_ok [OF f(2) ih li n ps(1) f(6) ps(2) e] obtain fs' V' ps' where
    d: "ext4_ext_drop_refs io 0 False ((fs1, ir), ps) = (Inr (), (fs', ir), ps')"
      "fs_at rep fs0 (s\<lparr> st_view := V', st_room := st_room s - length bs \<rparr>) fs'" "tails_only (set bs) (st_view s) V'" by blast
  have "found_for ?k b (ext_mapping (tree_extents (st_view s) ?k (inode_root i)) (unat b)) m ((fs1, ir), ps)"
    unfolding found_for_def using f(5,9-12) depth_eq [OF f(2) ih1 fit] by simp
  from g [OF this] have "path_free io (sbind (ext4_find_extent io b ((fs, ir), [])) (\<lambda>_ s. g s)) = (Inr r, fs', ir)"
    using f(1) d(1) by (simp add: path_free_def)
  moreover have "tails_only ok (st_view s) V'" using d(3) f(4) by (auto simp: tails_only_def)
  ultimately show ?thesis using d(2) f(3) by auto
qed

text \<open>Looking up a block answers from the extent that maps it, and leaves the holds and the data as they were.\<close>

lemma lookup_ok:
  assumes a: "fs_at rep fs0 s fs" and t: "tree_in (fs_sb fs0) ir li i ok s" and room: "inode_depth i \<le> st_room s"
  shows "\<exists>fs' V'. ext4_extent_get_blocks io b n False (fs, ir) =
      (Inr (ext_answer (ext_mapping (tree_extents (st_view s) (inode_depth i) (inode_root i)) (unat b)) b n), fs', ir) \<and>
    fs_at rep fs0 (s\<lparr> st_view := V', st_room := st_room s - inode_depth i \<rparr>) fs' \<and> tails_only ok (st_view s) V'"
  unfolding ext4_extent_get_blocks_def
proof (rule search_and_free [OF a t room])
  let ?k = "inode_depth i" let ?M = "ext_mapping (tree_extents (st_view s) ?k (inode_root i)) (unat b)"
  fix fs1 ps m assume f: "found_for ?k b ?M m ((fs1, ir), ps)"
  then have dep: "ext_depth (fs1, ir) = Inr ?k" and M: "?M = (case m of None \<Rightarrow> None | Some e \<Rightarrow> if ext_covers (unat b) e then Some e else None)"
    by (simp_all add: found_for_def)
  have rd: "rbind (path_get ?k ((fs1, ir), ps)) (\<lambda>p. case ep_extent p of None \<Rightarrow> Inr None
      | Some x \<Rightarrow> rbind (path_node ?k ((fs1, ir), ps)) (\<lambda>d. rbind (ext_at d x) (\<lambda>e. Inr (Some e)))) = Inr m"
    using f by (auto simp: found_for_def path_get_def split: option.splits)
  have mb: "case m of None \<Rightarrow> True | Some e \<Rightarrow> 0 < ext_len e \<and> ext_first e + ext_len e \<le> 2 ^ 32"
    using f by (auto simp: found_for_def split: option.splits)
  show "sbind (sread (\<lambda>s. ext_depth (fst s)) ((fs1, ir), ps)) (\<lambda>depth s.
      sbind (sread (\<lambda>s. rbind (path_get depth s) (\<lambda>p. case ep_extent p of None \<Rightarrow> Inr None
        | Some x \<Rightarrow> rbind (path_node depth s) (\<lambda>d. rbind (ext_at d x) (\<lambda>e. Inr (Some e))))) s) (\<lambda>ex s.
      get_found io b n False ex s)) = (Inr (ext_answer ?M b n), (fs1, ir), ps)"
    using dep rd get_found_read [OF mb] M by (simp add: sread_def)
qed

text \<open>Removing a range that begins in a hole answers success, and removes nothing, whatever is mapped behind the hole.\<close>

lemma remove_from_hole_ok:
  assumes a: "fs_at rep fs0 s fs" and t: "tree_in (fs_sb fs0) ir li i ok s" and room: "inode_depth i \<le> st_room s"
    and h: "ext_mapping (tree_extents (st_view s) (inode_depth i) (inode_root i)) (unat b) = None"
  shows "\<exists>fs' V'. ext4_extent_remove_space io b to (fs, ir) = (Inr (), fs', ir) \<and>
    fs_at rep fs0 (s\<lparr> st_view := V', st_room := st_room s - inode_depth i \<rparr>) fs' \<and> tails_only ok (st_view s) V'"
proof -
  let ?k = "inode_depth i"
  have ih: "inode_held (fs_sb fs0) ir li i s" and fit: "node_fits (inode_root i)" using t by (auto simp: tree_in_def) (cases ?k, simp_all)
  have dep: "ext_depth (fs, ir) = Inr ?k" by (rule depth_eq [OF a ih fit])
  have "\<exists>fs' V'. path_free io (sbind (ext4_find_extent io b ((fs, ir), [])) (\<lambda>_. remove_found io ?k b to)) = (Inr (), fs', ir) \<and>
    fs_at rep fs0 (s\<lparr> st_view := V', st_room := st_room s - ?k \<rparr>) fs' \<and> tails_only ok (st_view s) V'"
  proof (rule search_and_free [OF a t room])
    fix fs1 ps m assume f: "found_for ?k b (ext_mapping (tree_extents (st_view s) ?k (inode_root i)) (unat b)) m ((fs1, ir), ps)"
    show "remove_found io ?k b to ((fs1, ir), ps) = (Inr (), (fs1, ir), ps)"
    proof (cases "ep_extent (ps ! ?k)")
      case None
      then show ?thesis using f by (simp add: remove_found_def found_for_def sread_def path_get_def)
    next
      case (Some j)
      then obtain d e where e: "path_node ?k ((fs1, ir), ps) = Inr d" "ext_at d j = Inr e" "m = Some e" "0 < ext_len e"
        "ext_first e + ext_len e \<le> 2 ^ 32" using f by (auto simp: found_for_def)
      have "\<not> ext_covers (unat b) e" using f h e(3) by (auto simp: found_for_def split: if_splits)
      then have "\<not> IN_RANGE b (ee_first_block e) (ucast (ext4_ext_get_actual_len e))" using in_range_covers [OF e(4,5)] by simp
      then show ?thesis using Some f e(1,2) by (simp add: remove_found_def found_for_def sread_def path_get_def)
    qed
  qed
  then show ?thesis using dep by (simp add: ext4_extent_remove_space_def sread_def)
qed

end

end
