(* ===== verification/ExtentInsert.thy ===== *)
theory ExtentInsert
  imports ExtentSpec
begin

text \<open>
  What an insertion does to the extents of a leaf, and to the map from logical to physical blocks they stand for.
\<close>

section \<open>Stores into a node\<close>

lemma slice_patch_other:
  "q + length bs \<le> length d \<Longrightarrow> p + n \<le> q \<or> q + length bs \<le> p \<Longrightarrow> p + n \<le> length d \<Longrightarrow>
   take n (drop p (patch d q bs)) = take n (drop p d)"
  using rd_patch_other [of q bs d p n] by (simp add: rd_range_def)

lemma slice_patch_in:
  assumes "q + length bs \<le> length d" and "q \<le> p" and "p + n \<le> q + length bs"
  shows "take n (drop p (patch d q bs)) = take n (drop (p - q) bs)"
proof -
  have "drop p (patch d q bs) = drop (p - q) (bs @ drop (q + length bs) d)"
    using assms(1,2) by (simp add: patch_def)
  moreover have "n \<le> length bs - (p - q)" using assms(2,3) by simp
  ultimately show ?thesis using assms by simp
qed

definition slot :: "nat \<Rightarrow> nat" where "slot i = 12 + 12 * i"

lemma ext_put_eq:
  assumes "slot (i + 1) \<le> length d"
  shows "ext_put d i e = Inr (patch d (slot i) (ee_bytes e))" and "length (patch d (slot i) (ee_bytes e)) = length d"
    and "node_hdr (patch d (slot i) (ee_bytes e)) = node_hdr d"
    and "slot (j + 1) \<le> length d \<Longrightarrow> ext_nth (patch d (slot i) (ee_bytes e)) j = (if j = i then e else ext_nth d j)"
proof -
  have f: "slot i + length (ee_bytes e) \<le> length d" using assms by (simp add: slot_def)
  show "ext_put d i e = Inr (patch d (slot i) (ee_bytes e))" using wr_range_patch [OF f] by (simp add: ext_put_def slot_def)
  show "length (patch d (slot i) (ee_bytes e)) = length d" using f by simp
  show "node_hdr (patch d (slot i) (ee_bytes e)) = node_hdr d"
    using slice_patch_other [OF f, of 0 12] assms by (simp add: node_hdr_def slot_def)
  show "ext_nth (patch d (slot i) (ee_bytes e)) j = (if j = i then e else ext_nth d j)" if j: "slot (j + 1) \<le> length d"
  proof (cases "j = i")
    case True
    then show ?thesis using slice_patch_in [OF f, of "slot i" 12] by (simp add: ext_nth_def slot_def)
  next
    case False
    then have "slot j + 12 \<le> slot i \<or> slot i + length (ee_bytes e) \<le> slot j" by (auto simp: slot_def)
    then show ?thesis using slice_patch_other [OF f, of "slot j" 12] j False by (simp add: ext_nth_def slot_def)
  qed
qed

lemma ext_move_eq:
  assumes "slot (i + n + 1) \<le> length d"
  shows "\<exists>d'. ext_move d (i + 1) i n = Inr d' \<and> length d' = length d \<and> node_hdr d' = node_hdr d \<and>
    (\<forall>j. slot (j + 1) \<le> length d \<longrightarrow> ext_nth d' j = (if i < j \<and> j \<le> i + n then ext_nth d (j - 1) else ext_nth d j))"
proof -
  let ?bs = "take (12 * n) (drop (slot i) d)"
  have l: "length ?bs = 12 * n" using assms by (simp add: slot_def)
  have f: "slot (i + 1) + length ?bs \<le> length d" using assms l by (simp add: slot_def)
  let ?d = "patch d (slot (i + 1)) ?bs"
  have "ext_move d (i + 1) i n = Inr ?d"
    using wr_range_patch [OF f] assms by (simp add: ext_move_def rd_range_def slot_def)
  moreover have "length ?d = length d" using f by simp
  moreover have "node_hdr ?d = node_hdr d"
    using slice_patch_other [OF f, of 0 12] f by (simp add: node_hdr_def slot_def)
  moreover have "ext_nth ?d j = (if i < j \<and> j \<le> i + n then ext_nth d (j - 1) else ext_nth d j)" if j: "slot (j + 1) \<le> length d" for j
  proof (cases "i < j \<and> j \<le> i + n")
    case True
    define k where "k = j - (i + 1)"
    then have k: "j = i + 1 + k" "k < n" using True by linarith+
    have "take 12 (drop (slot j) ?d) = take 12 (drop (slot j - slot (i + 1)) ?bs)"
      by (rule slice_patch_in [OF f]) (use k l in \<open>simp_all add: slot_def\<close>)
    also have "slot j - slot (i + 1) = 12 * k" using k by (simp add: slot_def)
    also have "take 12 (drop (12 * k) ?bs) = take 12 (drop (slot (j - 1)) d)"
      using k by (simp add: drop_take min_def slot_def add.commute add.left_commute)
    finally show ?thesis using True by (simp add: ext_nth_def slot_def)
  next
    case False
    then have "slot j + 12 \<le> slot (i + 1) \<or> slot (i + 1) + length ?bs \<le> slot j" using l by (auto simp: slot_def)
    moreover have "slot j + 12 \<le> length d" using j by (simp add: slot_def)
    ultimately show ?thesis using slice_patch_other [OF f, of "slot j" 12] False by (auto simp: ext_nth_def slot_def)
  qed
  ultimately show ?thesis by blast
qed

lemma ext_add_entries_eq:
  assumes "12 \<le> length d"
  shows "\<exists>d'. ext_add_entries d n = Inr d' \<and> length d' = length d \<and>
    node_hdr d' = (node_hdr d)\<lparr> eh_entries_count := eh_entries_count (node_hdr d) + n \<rparr> \<and>
    (\<forall>j. slot (j + 1) \<le> length d \<longrightarrow> ext_nth d' j = ext_nth d j)"
proof -
  let ?h = "(node_hdr d)\<lparr> eh_entries_count := eh_entries_count (node_hdr d) + n \<rparr>"
  let ?d = "patch d 0 (eh_bytes ?h)"
  have f: "0 + length (eh_bytes ?h) \<le> length d" using assms by simp
  have "ext_add_entries d n = Inr ?d"
    using assms wr_range_patch [OF f] by (simp add: ext_add_entries_def ext_hdr_def rd_range_def ext_set_hdr_def node_hdr_def)
  moreover have "length ?d = length d" using f by simp
  moreover have "take 12 ?d = eh_bytes ?h" by (simp add: patch_def)
  then have "node_hdr ?d = ?h" unfolding node_hdr_def [of ?d] by simp
  moreover have "ext_nth ?d j = ext_nth d j" if "slot (j + 1) \<le> length d" for j
    using slice_patch_other [OF f, of "slot j" 12] that by (simp add: ext_nth_def slot_def)
  ultimately show ?thesis by blast
qed

lemma store_own_pblock:
  "ext4_ext_store_pblock (old\<lparr> ee_first_block := ee_first_block new, ee_block_count := ee_block_count new \<rparr>) (ext4_ext_pblock new) =
   (new :: ext4_extent)"
proof -
  have m32: "(0xFFFFFFFF :: u64) = mask 32" and m16: "(0xFFFF :: u16) = mask 16" by (simp_all add: mask_eq_exp_minus_1)
  have "ucast (ext4_ext_pblock new AND 0xFFFFFFFF) = ee_start_lo new"
    unfolding m32 by (rule bit_word_eqI) (auto simp: ext4_ext_pblock_def bit_simps dest: bit_imp_le_length)
  moreover have "ucast (drop_bit 32 (ext4_ext_pblock new)) AND 0xFFFF = ee_start_hi new"
    unfolding m16 by (rule bit_word_eqI) (auto simp: ext4_ext_pblock_def bit_simps dest: bit_imp_le_length)
  ultimately show ?thesis by (cases new; cases old) (simp add: ext4_ext_store_pblock_def)
qed

section \<open>Making room\<close>

definition leaf_ok :: "u8 list \<Rightarrow> bool" where
  "leaf_ok d \<longleftrightarrow>
     12 + 12 * unat (eh_max_entries_count (node_hdr d)) \<le> length d \<and>
     node_count d \<le> unat (eh_max_entries_count (node_hdr d)) \<and> exts_between 0 (node_extents d) (2 ^ 32 - 1)"

lemma leaf_fits: "leaf_ok d \<Longrightarrow> node_fits d" by (simp add: leaf_ok_def node_fits_def)

lemma leaf_make_room_ok:
  assumes n: "node_count d < unat (eh_max_entries_count (node_hdr d))" and l: "12 + 12 * unat (eh_max_entries_count (node_hdr d)) \<le> length d"
    and x: "x \<le> node_count d"
  shows "\<exists>d'. leaf_make_room d x new = Inr (LeafPut d' x) \<and> length d' = length d \<and>
    eh_max_entries_count (node_hdr d') = eh_max_entries_count (node_hdr d) \<and>
    node_extents d' = take x (node_extents d) @ new # drop x (node_extents d)"
proof -
  let ?n = "node_count d" let ?m = "unat (eh_max_entries_count (node_hdr d))"
  have hdr: "ext_hdr d = Inr (node_hdr d)" using l by (simp add: ext_hdr_def rd_range_def node_hdr_def)
  have big: "slot (?n + 1) \<le> length d" using n l by (simp add: slot_def)
  have "\<exists>d1. (if x < ?n then ext_move d (x + 1) x (?n - x) else Inr d) = Inr d1 \<and> length d1 = length d \<and> node_hdr d1 = node_hdr d \<and>
      (\<forall>j. slot (j + 1) \<le> length d \<longrightarrow> ext_nth d1 j = (if x < j \<and> j \<le> ?n then ext_nth d (j - 1) else ext_nth d j))"
  proof (cases "x < ?n")
    case True
    then have "slot (x + (?n - x) + 1) \<le> length d" using big by simp
    from ext_move_eq [OF this] True show ?thesis by simp
  qed auto
  then obtain d1 where d1: "(if x < ?n then ext_move d (x + 1) x (?n - x) else Inr d) = Inr d1" "length d1 = length d"
    "node_hdr d1 = node_hdr d"
    "\<forall>j. slot (j + 1) \<le> length d \<longrightarrow> ext_nth d1 j = (if x < j \<and> j \<le> ?n then ext_nth d (j - 1) else ext_nth d j)" by blast
  have sx: "slot (x + 1) \<le> length d1" using x big d1(2) by (simp add: slot_def)
  note p = ext_put_eq [OF sx, where e = new]
  let ?d2 = "patch d1 (slot x) (ee_bytes new)"
  have "12 \<le> length ?d2" using p(2) d1(2) l by simp
  from ext_add_entries_eq [OF this, of 1] obtain d3 where d3: "ext_add_entries ?d2 1 = Inr d3" "length d3 = length d"
    "node_hdr d3 = (node_hdr d)\<lparr> eh_entries_count := eh_entries_count (node_hdr d) + 1 \<rparr>"
    "\<forall>j. slot (j + 1) \<le> length d \<longrightarrow> ext_nth d3 j = ext_nth ?d2 j" using p(2,3) d1(2,3) by auto
  have "?m < 2 ^ LENGTH(16)" by (rule unsigned_less)
  then have "?n + 1 < 2 ^ 16" using n by simp
  then have c3: "node_count d3 = ?n + 1" using d3(3) by (simp add: node_count_def unat_word_ariths)
  have old: "ext_at d1 x = Inr (ext_nth d1 x)" using sx by (simp add: ext_at_def rd_range_def ext_nth_def slot_def)
  have e3: "ext_entries d3 = Inr (?n + 1)"
    using node_fitsD [of d3] c3 d3(2) big by (simp add: node_fits_def slot_def)
  have run: "leaf_make_room d x new = Inr (LeafPut d3 x)"
  proof (cases "x < ?n")
    case True
    then have "ext_move d (x + 1) x (?n - x) = Inr d1" using d1(1) by simp
    then show ?thesis using True hdr n old p(1) d3(1) e3
      by (simp add: leaf_make_room_def Let_def node_count_def [symmetric] store_own_pblock not_le)
  next
    case False
    then have "d1 = d" "x = ?n" using d1(1) x by simp_all
    then show ?thesis using hdr n old p(1) d3(1) e3
      by (simp add: leaf_make_room_def Let_def node_count_def [symmetric] store_own_pblock not_le)
  qed
  have nth: "ext_nth d3 j = (if j < x then ext_nth d j else if j = x then new else ext_nth d (j - 1))" if j: "j < ?n + 1" for j
  proof -
    have sj: "slot (j + 1) \<le> length d" using j big by (simp add: slot_def)
    then have "ext_nth d3 j = (if j = x then new else ext_nth d1 j)" using d3(4) p(4) [where j = j] d1(2) by simp
    then show ?thesis using d1(4) sj j by auto
  qed
  have "node_extents d3 = take x (node_extents d) @ new # drop x (node_extents d)"
  proof (rule nth_equalityI)
    show "length (node_extents d3) = length (take x (node_extents d) @ new # drop x (node_extents d))"
      using c3 x by (simp add: node_extents_def)
    fix j assume "j < length (node_extents d3)"
    then have j: "j < ?n + 1" using c3 by (simp add: node_extents_def)
    then show "node_extents d3 ! j = (take x (node_extents d) @ new # drop x (node_extents d)) ! j"
      using nth [OF j] c3 x j by (auto simp: node_extents_def nth_append nth_Cons' simp del: upt_Suc)
  qed
  then show ?thesis using run d3(2,3) by auto
qed

lemma exts_between_append:
  "exts_between lo (xs @ ys) hi \<longleftrightarrow> (\<exists>m. exts_between lo xs m \<and> exts_between m ys hi)"
proof
  show "exts_between lo (xs @ ys) hi \<Longrightarrow> \<exists>m. exts_between lo xs m \<and> exts_between m ys hi"
    by (induction xs arbitrary: lo) auto
  have lower: "exts_between m ys hi \<Longrightarrow> lo \<le> m \<Longrightarrow> exts_between lo ys hi" for m lo by (cases ys) auto
  show "\<exists>m. exts_between lo xs m \<and> exts_between m ys hi \<Longrightarrow> exts_between lo (xs @ ys) hi"
    by (induction xs arbitrary: lo) (auto intro: lower)
qed

lemma exts_between_until:
  "exts_between lo xs m \<Longrightarrow> (\<And>e. e \<in> set xs \<Longrightarrow> ext_first e + ext_len e \<le> p) \<Longrightarrow> lo \<le> p \<Longrightarrow> exts_between lo xs p"
  by (induction xs arbitrary: lo) auto

lemma exts_between_from:
  "exts_between m ys hi \<Longrightarrow> (\<And>e. e \<in> set ys \<Longrightarrow> p \<le> ext_first e) \<Longrightarrow> p \<le> hi \<Longrightarrow> exts_between p ys hi"
  by (cases ys) auto

section \<open>The map of a leaf\<close>

text \<open>Physical block and state of a logical block.\<close>

definition ext_target :: "ext4_extent \<Rightarrow> nat \<Rightarrow> u64 \<times> bool" where
  "ext_target e b = (ext4_ext_pblock e + of_nat (b - ext_first e), ext4_ext_is_unwritten e)"

definition ext_map :: "ext4_extent list \<Rightarrow> nat \<Rightarrow> (u64 \<times> bool) option" where
  "ext_map es b = map_option (\<lambda>e. ext_target e b) (ext_mapping es b)"

lemma ext_mapping_append: "ext_mapping (xs @ ys) b = (case ext_mapping xs b of None \<Rightarrow> ext_mapping ys b | Some e \<Rightarrow> Some e)"
  unfolding ext_mapping_def by (induction xs) auto

lemma ext_map_insert:
  assumes "ext_covers b new \<Longrightarrow> ext_mapping (xs @ ys) b = None"
  shows "ext_map (xs @ new # ys) b = (if ext_covers b new then Some (ext_target new b) else ext_map (xs @ ys) b)"
proof (cases "ext_covers b new")
  case True
  then have "ext_mapping xs b = None" using assms by (simp add: ext_mapping_append split: option.splits)
  moreover have "ext_mapping (new # ys) b = Some new" using True by (simp add: ext_mapping_def)
  ultimately show ?thesis using True by (simp add: ext_map_def ext_mapping_append)
next
  case False
  then have "ext_mapping (new # ys) b = ext_mapping ys b" by (simp add: ext_mapping_def)
  then show ?thesis using False by (simp only: ext_map_def ext_mapping_append if_False)
qed

text \<open>Where the search of a leaf stops for a block.\<close>

lemma leaf_candidate:
  assumes ok: "leaf_ok d" and c: "ext4_ext_binsearch d b = Inr cur"
  shows "case cur of None \<Rightarrow> node_count d = 0
    | Some i \<Rightarrow> i < node_count d \<and> (i = 0 \<or> ee_first_block (ext_nth d i) \<le> b) \<and>
        (\<forall>j. i < j \<and> j < node_count d \<longrightarrow> b < ee_first_block (ext_nth d j))"
proof (cases "node_count d = 0")
  case True
  then show ?thesis using c node_fitsD [OF leaf_fits [OF ok]] by (simp add: ext4_ext_binsearch_def)
next
  case False
  let ?n = "node_count d" and ?key = "\<lambda>i. ee_first_block (ext_nth d i)"
  note fit = leaf_fits [OF ok]
  have o: "exts_between 0 (node_extents d) (2 ^ 32 - 1)" using ok by (simp add: leaf_ok_def)
  have mono: "?key i < ?key j" if "i < j" "j < ?n" for i j
  proof -
    have "0 < ext_len (ext_nth d i)" using exts_between_mem [OF o, of "ext_nth d i"] that by (simp add: node_extents_def)
    moreover have "ext_first (ext_nth d i) + ext_len (ext_nth d i) \<le> ext_first (ext_nth d j)"
      using exts_between_nth [OF o that(1)] that by (simp add: node_extents_def)
    ultimately show ?thesis by (simp add: word_less_nat_alt ext_first_def)
  qed
  have key: "i < ?n \<Longrightarrow> ext_key d i = Inr (?key i)" for i using node_at [OF fit] by (simp add: ext_key_def)
  from ext_bsearch_all [of ?n "ext_key d" ?key b, OF key mono] False obtain m where
    m: "ext_bsearch (ext_key d) b 1 (?n - 1) = Inr m" "1 \<le> m" "m \<le> ?n" "\<forall>i. 1 \<le> i \<and> i < m \<longrightarrow> ?key i \<le> b"
      "\<forall>i. m \<le> i \<and> i < ?n \<longrightarrow> b < ?key i" by blast
  then have "cur = Some (m - 1)" using c node_fitsD [OF fit] False by (simp add: ext4_ext_binsearch_def)
  moreover have "m - 1 = 0 \<or> ?key (m - 1) \<le> b" using m(2,4) by (cases "m - 1 = 0") auto
  moreover have "\<forall>j. m - 1 < j \<and> j < ?n \<longrightarrow> b < ?key j" using m(2,5) by auto
  ultimately show ?thesis using m(2,3) False by simp
qed

section \<open>The insertion\<close>

lemma leaf_key_mono:
  assumes ok: "leaf_ok d" and "i < j" and "j < node_count d"
  shows "ext_first (ext_nth d i) + ext_len (ext_nth d i) \<le> ext_first (ext_nth d j)" and "0 < ext_len (ext_nth d i)"
proof -
  have o: "exts_between 0 (node_extents d) (2 ^ 32 - 1)" using ok by (simp add: leaf_ok_def)
  show "0 < ext_len (ext_nth d i)" using exts_between_mem [OF o, of "ext_nth d i"] assms(2,3) by (simp add: node_extents_def)
  show "ext_first (ext_nth d i) + ext_len (ext_nth d i) \<le> ext_first (ext_nth d j)"
    using exts_between_nth [OF o assms(2)] assms(2,3) by (simp add: node_extents_def)
qed

text \<open>A place with the earlier extents in front of it and the later ones behind it fits an extent that overlaps none.\<close>

definition leaf_place :: "u8 list \<Rightarrow> ext4_extent \<Rightarrow> nat \<Rightarrow> bool" where
  "leaf_place d new x \<longleftrightarrow> x \<le> node_count d \<and> (\<forall>j < x. ext_first (ext_nth d j) < ext_first new) \<and>
     (\<forall>j. x \<le> j \<and> j < node_count d \<longrightarrow> ext_first new < ext_first (ext_nth d j))"

definition unmapped :: "u8 list \<Rightarrow> ext4_extent \<Rightarrow> bool" where
  "unmapped d new \<longleftrightarrow> 0 < ext_len new \<and> ext_first new + ext_len new \<le> 2 ^ 32 - 1 \<and>
     (\<forall>b. ext_covers b new \<longrightarrow> ext_mapping (node_extents d) b = None)"

lemma leaf_place_between:
  assumes ok: "leaf_ok d" and u: "unmapped d new" and p: "leaf_place d new x"
  shows "exts_between 0 (take x (node_extents d)) (ext_first new)"
    and "exts_between (ext_first new + ext_len new) (drop x (node_extents d)) (2 ^ 32 - 1)"
proof -
  let ?es = "node_extents d"
  have o: "exts_between 0 ?es (2 ^ 32 - 1)" using ok by (simp add: leaf_ok_def)
  then have "exts_between 0 (take x ?es @ drop x ?es) (2 ^ 32 - 1)" by simp
  then obtain m where m: "exts_between 0 (take x ?es) m" "exts_between m (drop x ?es) (2 ^ 32 - 1)"
    unfolding exts_between_append by blast
  have none: "\<not> ext_covers b e" if "ext_covers b new" "e \<in> set ?es" for b e
    using u that by (auto simp: unmapped_def ext_mapping_def find_None_iff)
  show "exts_between 0 (take x ?es) (ext_first new)"
  proof (rule exts_between_until [OF m(1)])
    fix e assume e: "e \<in> set (take x ?es)"
    then obtain j where j: "j < x" "j < node_count d" "e = ext_nth d j"
      by (auto simp: in_set_conv_nth node_extents_def)
    then have "ext_first e < ext_first new" using p by (simp add: leaf_place_def)
    moreover have "\<not> ext_covers (ext_first new) e"
      by (rule none) (use u in_set_takeD [OF e] in \<open>simp_all add: ext_covers_def unmapped_def\<close>)
    ultimately show "ext_first e + ext_len e \<le> ext_first new" by (simp add: ext_covers_def)
  qed simp
  show "exts_between (ext_first new + ext_len new) (drop x ?es) (2 ^ 32 - 1)"
  proof (rule exts_between_from [OF m(2)])
    fix e assume e: "e \<in> set (drop x ?es)"
    then obtain k where k: "k < length (drop x ?es)" "e = drop x ?es ! k" by (auto simp: in_set_conv_nth)
    then have "e = ext_nth d (x + k)" "x + k < node_count d" by (simp_all add: node_extents_def)
    then have "ext_first new < ext_first e" using p by (simp add: leaf_place_def)
    moreover have "0 < ext_len e" using exts_between_mem [OF o in_set_dropD [OF e]] by simp
    then have "\<not> ext_covers (ext_first e) new" using none [OF _ in_set_dropD [OF e], of "ext_first e"] by (auto simp: ext_covers_def)
    ultimately show "ext_first new + ext_len new \<le> ext_first e" by (simp add: ext_covers_def)
  qed (use u in \<open>simp add: unmapped_def\<close>)
qed

definition inserted :: "u8 list \<Rightarrow> ext4_extent \<Rightarrow> u8 list \<Rightarrow> bool" where
  "inserted d new d' \<longleftrightarrow> leaf_ok d' \<and> length d' = length d \<and>
     (\<forall>b. ext_map (node_extents d') b = (if ext_covers b new then Some (ext_target new b) else ext_map (node_extents d) b))"

lemma leaf_put_inserted:
  assumes ok: "leaf_ok d" and u: "unmapped d new" and p: "leaf_place d new x"
    and room: "node_count d < unat (eh_max_entries_count (node_hdr d))"
  shows "\<exists>d'. leaf_make_room d x new = Inr (LeafPut d' x) \<and> inserted d new d'"
proof -
  have l: "12 + 12 * unat (eh_max_entries_count (node_hdr d)) \<le> length d" and x: "x \<le> node_count d"
    using ok p by (simp_all add: leaf_ok_def leaf_place_def)
  from leaf_make_room_ok [OF room l x] obtain d' where d': "leaf_make_room d x new = Inr (LeafPut d' x)" "length d' = length d"
    "eh_max_entries_count (node_hdr d') = eh_max_entries_count (node_hdr d)"
    "node_extents d' = take x (node_extents d) @ new # drop x (node_extents d)" by blast
  have "length (node_extents d') = node_count d + 1" using x by (simp add: d'(4)) (simp add: node_extents_def)
  then have c: "node_count d' = node_count d + 1" by (simp add: node_extents_def)
  have b: "exts_between 0 (node_extents d') (2 ^ 32 - 1)"
    unfolding d'(4) exts_between_append using leaf_place_between [OF ok u p] u
    by (intro exI [of _ "ext_first new"]) (simp add: unmapped_def)
  have "leaf_ok d'" using c room l d'(2,3) b by (simp add: leaf_ok_def)
  moreover have "ext_map (node_extents d') k = (if ext_covers k new then Some (ext_target new k) else ext_map (node_extents d) k)" for k
    using ext_map_insert [of k new "take x (node_extents d)" "drop x (node_extents d)"] u by (simp add: d'(4) unmapped_def)
  ultimately show ?thesis using d'(1,2) by (auto simp: inserted_def)
qed

text \<open>The record two extents are joined to.\<close>

lemma ext_count:
  "unat (ee_block_count e) \<le> 32768 \<Longrightarrow> ext_len e = unat (ee_block_count e) \<and> \<not> ext4_ext_is_unwritten e"
  "32768 < unat (ee_block_count e) \<Longrightarrow> ext_len e = unat (ee_block_count e) - 32768 \<and> ext4_ext_is_unwritten e"
proof -
  have "32768 < unat (ee_block_count e) \<Longrightarrow> unat (ee_block_count e - 32768) = unat (ee_block_count e) - 32768"
    using unat_sub [of 32768 "ee_block_count e"] by (simp add: word_le_nat_alt)
  then show "32768 < unat (ee_block_count e) \<Longrightarrow> ext_len e = unat (ee_block_count e) - 32768 \<and> ext4_ext_is_unwritten e"
    by (simp add: ext_len_def ext4_ext_get_actual_len_def ext4_ext_is_unwritten_def EXT_INIT_MAX_LEN_def)
qed (simp add: ext_len_def ext4_ext_get_actual_len_def ext4_ext_is_unwritten_def EXT_INIT_MAX_LEN_def)

lemma ext_joined_ok:
  assumes j: "ext_can_join e new" and l: "0 < ext_len e"
  shows "ext_len (ext_joined e new) = ext_len e + ext_len new" and "ext4_ext_is_unwritten (ext_joined e new) = ext4_ext_is_unwritten e"
    and "ext_first (ext_joined e new) = ext_first e" and "ext4_ext_pblock (ext_joined e new) = ext4_ext_pblock e"
proof -
  let ?s = "ext4_ext_get_actual_len e + ext4_ext_get_actual_len new"
  have le: "ext_len e + ext_len new \<le> 32768" using j
    by (auto simp: ext_can_join_def ext_len_def EXT_INIT_MAX_LEN_def EXT_UNWRITTEN_MAX_LEN_def split: if_splits)
  then have s: "unat ?s = ext_len e + ext_len new" by (simp add: ext_len_def unat_word_ariths)
  have u: "unat (?s OR 32768) = unat ?s + 32768" if "ext4_ext_is_unwritten e"
  proof -
    have b: "unat ?s < 2 ^ 15" using j that s by (simp add: ext_can_join_def ext_len_def EXT_UNWRITTEN_MAX_LEN_def EXT_INIT_MAX_LEN_def)
    have "\<not> bit (unat ?s) 15" using b by (simp add: bit_iff_odd)
    then have nb: "\<not> bit ?s 15" by (simp add: bit_unsigned_iff)
    have "?s AND 2 ^ 15 = 0" using nb by (simp only: and_exp_eq_0_iff_not_bit not_False_eq_True)
    then have "?s OR 32768 = ?s + 32768" by (simp add: disjunctive_add_eq_or)
    then show ?thesis using b by (simp add: unat_word_ariths)
  qed
  have "ext_len (ext_joined e new) = ext_len e + ext_len new \<and> ext4_ext_is_unwritten (ext_joined e new) = ext4_ext_is_unwritten e"
  proof (cases "ext4_ext_is_unwritten e")
    case True
    then have "ee_block_count (ext_joined e new) = ?s OR 32768"
      by (simp add: ext_joined_def Let_def ext4_ext_mark_unwritten_def EXT_INIT_MAX_LEN_def)
    then show ?thesis using ext_count(2) [of "ext_joined e new"] u [OF True] s l True by simp
  next
    case False
    then have "ee_block_count (ext_joined e new) = ?s" by (simp add: ext_joined_def Let_def)
    then show ?thesis using ext_count(1) [of "ext_joined e new"] s le False by simp
  qed
  then show "ext_len (ext_joined e new) = ext_len e + ext_len new"
    "ext4_ext_is_unwritten (ext_joined e new) = ext4_ext_is_unwritten e" by blast+
  show "ext_first (ext_joined e new) = ext_first e" "ext4_ext_pblock (ext_joined e new) = ext4_ext_pblock e"
    by (simp_all add: ext_joined_def Let_def ext_first_def ext4_ext_mark_unwritten_def ext4_ext_pblock_def)
qed

text \<open>Appending to the extent in front of the new one.\<close>

lemma leaf_put_extent:
  assumes "node_fits d" and "i < node_count d"
  shows "\<exists>d'. ext_put d i e = Inr d' \<and> length d' = length d \<and> node_hdr d' = node_hdr d \<and>
    node_extents d' = take i (node_extents d) @ e # drop (i + 1) (node_extents d)"
proof -
  have "slot (i + 1) \<le> length d" using assms by (simp add: node_fits_def slot_def)
  note p = ext_put_eq [OF this, where e = e]
  let ?d = "patch d (slot i) (ee_bytes e)"
  have c: "node_count ?d = node_count d" using p(3) by (simp add: node_count_def)
  have "node_extents ?d = (node_extents d)[i := e]"
  proof (rule nth_equalityI)
    fix j assume "j < length (node_extents ?d)"
    then have j: "j < node_count d" using c by (simp add: node_extents_def)
    then have "slot (j + 1) \<le> length d" using assms(1) by (simp add: node_fits_def slot_def)
    then show "node_extents ?d ! j = (node_extents d)[i := e] ! j" using p(4) [where j = j] j c by (simp add: node_extents_def nth_list_update)
  qed (use c in \<open>simp add: node_extents_def\<close>)
  also have "\<dots> = take i (node_extents d) @ e # drop (i + 1) (node_extents d)"
    using assms(2) by (simp add: upd_conv_take_nth_drop node_extents_def)
  finally show ?thesis using p(1-3) by blast
qed

lemma leaf_append_inserted:
  assumes ok: "leaf_ok d" and u: "unmapped d new" and i: "i < node_count d"
    and a: "ext4_ext_can_append (ext_nth d i) new"
    and later: "\<forall>j. i < j \<and> j < node_count d \<longrightarrow> ext_first new < ext_first (ext_nth d j)"
    and kind: "ext4_ext_is_unwritten (ext_nth d i) = ext4_ext_is_unwritten new"
  shows "\<exists>d'. ext_put d i (ext_joined (ext_nth d i) new) = Inr d' \<and> inserted d new d'"
proof -
  let ?e = "ext_nth d i" let ?J = "ext_joined ?e new"
  let ?xs = "take i (node_extents d)" and ?ys = "drop (i + 1) (node_extents d)"
  have o: "exts_between 0 (node_extents d) (2 ^ 32 - 1)" using ok by (simp add: leaf_ok_def)
  have mem: "?e \<in> set (node_extents d)" using i by (simp add: node_extents_def)
  note e = exts_between_mem [OF o mem]
  have split: "node_extents d = ?xs @ ?e # ?ys" using i id_take_nth_drop [of i "node_extents d"] by (simp add: node_extents_def)
  have "unat (ee_first_block ?e + ucast (ext4_ext_get_actual_len ?e)) = ext_first ?e + ext_len ?e"
  proof -
    have "unat (ext4_ext_get_actual_len ?e) < 2 ^ 32" using e by (simp add: ext_len_def)
    then have "take_bit 32 (unat (ext4_ext_get_actual_len ?e)) = unat (ext4_ext_get_actual_len ?e)"
      by (simp only: take_bit_nat_eq_self_iff)
    then show ?thesis using e by (simp add: unat_word_ariths ext_first_def ext_len_def unsigned_ucast_eq)
  qed
  then have adj: "ext_first new = ext_first ?e + ext_len ?e" using a by (simp add: ext4_ext_can_append_def ext_first_def)
  have "leaf_place d new (i + 1)"
    unfolding leaf_place_def
  proof (intro conjI allI impI)
    show "i + 1 \<le> node_count d" using i by simp
    fix j assume "j < i + 1"
    then consider "j < i" | "j = i" by linarith
    then show "ext_first (ext_nth d j) < ext_first new"
    proof cases
      case 1
      then show ?thesis using leaf_key_mono [OF ok 1 i] adj by linarith
    qed (use adj e in simp)
  next
    fix j assume "i + 1 \<le> j \<and> j < node_count d"
    then show "ext_first new < ext_first (ext_nth d j)" using later by simp
  qed
  note pl = leaf_place_between [OF ok u this]
  have J: "ext_len ?J = ext_len ?e + ext_len new" "ext4_ext_is_unwritten ?J = ext4_ext_is_unwritten ?e" "ext_first ?J = ext_first ?e"
    "ext4_ext_pblock ?J = ext4_ext_pblock ?e"
    using ext_joined_ok [of ?e new] a e by (simp_all add: ext4_ext_can_append_def)
  have cover: "ext_covers b ?J \<longleftrightarrow> ext_covers b ?e \<or> ext_covers b new" for b
    using J adj by (auto simp: ext_covers_def)
  have told: "ext_target ?J b = ext_target ?e b" for b using J by (simp add: ext_target_def)
  have tnew: "ext_target ?J b = ext_target new b" if c: "ext_covers b new" for b
  proof -
    have "b - ext_first ?e = ext_len ?e + (b - ext_first new)" using c adj by (simp add: ext_covers_def)
    moreover have "ext4_ext_pblock new = ext4_ext_pblock ?e + of_nat (ext_len ?e)"
      using a by (simp add: ext4_ext_can_append_def ext_len_def)
    ultimately show ?thesis using J kind by (simp add: ext_target_def)
  qed
  from leaf_put_extent [OF leaf_fits [OF ok] i, where e = ?J] obtain d' where d': "ext_put d i ?J = Inr d'" "length d' = length d"
    "node_hdr d' = node_hdr d" "node_extents d' = ?xs @ ?J # ?ys" by blast
  have "exts_between 0 ?xs (ext_first ?e)"
  proof -
    have "exts_between 0 (?xs @ ?e # ?ys) (2 ^ 32 - 1)" using o split by simp
    then obtain m where "exts_between 0 ?xs m" "m \<le> ext_first ?e" unfolding exts_between_append by auto
    then show ?thesis using exts_between_until [of 0 ?xs m "ext_first ?e"] exts_between_mem by (meson le_trans zero_le)
  qed
  moreover have "exts_between (ext_first ?e) (?J # ?ys) (2 ^ 32 - 1)" using pl(2) J adj e by (simp add: add.assoc)
  ultimately have "exts_between 0 (node_extents d') (2 ^ 32 - 1)" unfolding d'(4) exts_between_append by blast
  then have "leaf_ok d'" using ok d'(2,3) by (simp add: leaf_ok_def node_count_def)
  moreover have "ext_map (node_extents d') b = (if ext_covers b new then Some (ext_target new b) else ext_map (node_extents d) b)" for b
  proof -
    have n: "ext_covers b new \<Longrightarrow> ext_mapping (?xs @ ?e # ?ys) b = None" using u split by (simp add: unmapped_def)
    show ?thesis
    proof (cases "ext_covers b new")
      case True
      then have "ext_mapping ?xs b = None" using n by (simp add: ext_mapping_append split: option.splits)
      moreover have "ext_mapping (?J # ?ys) b = Some ?J" using True cover by (simp add: ext_mapping_def)
      ultimately show ?thesis using True tnew by (simp add: d'(4) ext_map_def ext_mapping_append)
    next
      case False
      have "map_option (\<lambda>e. ext_target e b) (ext_mapping (?J # ?ys) b) = map_option (\<lambda>e. ext_target e b) (ext_mapping (?e # ?ys) b)"
        using False cover told by (simp add: ext_mapping_def)
      then have "ext_map (?xs @ ?J # ?ys) b = ext_map (?xs @ ?e # ?ys) b"
        by (simp only: ext_map_def ext_mapping_append) (auto split: option.splits)
      then show ?thesis using False d'(4) split by simp
    qed
  qed
  ultimately show ?thesis using d'(1,2) by (auto simp: inserted_def)
qed

text \<open>
  The whole insertion. A record that could be put in front of the extent the search found is left out: that join is
  wrong.
\<close>

definition leaf_joins :: "u8 list \<Rightarrow> nat option \<Rightarrow> ext4_extent \<Rightarrow> u32 \<Rightarrow> bool" where
  "leaf_joins d cur new flags \<longleftrightarrow>
     flags AND EXT4_EXT_NO_COMBINE = 0 \<longrightarrow>
       (\<forall>i. cur = Some i \<longrightarrow> \<not> ext4_ext_can_prepend (ext_nth d i) new \<and>
         (ext4_ext_can_append (ext_nth d i) new \<longrightarrow> ext4_ext_is_unwritten (ext_nth d i) = ext4_ext_is_unwritten new))"

lemma leaf_insert_ok:
  assumes ok: "leaf_ok d" and c: "ext4_ext_binsearch d (ee_first_block new) = Inr cur" and u: "unmapped d new"
    and j: "leaf_joins d cur new flags"
  shows "\<exists>r. leaf_insert d cur new flags = Inr r \<and>
    (case r of LeafFull \<Rightarrow> node_count d = unat (eh_max_entries_count (node_hdr d)) | LeafBad d' \<Rightarrow> False
     | LeafJoin d' x \<Rightarrow> inserted d new d' | LeafPut d' x \<Rightarrow> inserted d new d')"
proof -
  let ?h = "node_hdr d" let ?n = "node_count d" let ?m = "unat (eh_max_entries_count ?h)"
  let ?full = "eh_entries_count ?h = eh_max_entries_count ?h"
  have hdr: "ext_hdr d = Inr ?h" using node_fitsD [OF leaf_fits [OF ok]] by simp
  have full: "?full \<longleftrightarrow> ?n = ?m" by (simp add: node_count_def word_unat_eq_iff)
  have room: "\<not> ?full \<Longrightarrow> ?n < ?m" using ok full by (simp add: leaf_ok_def)
  have put: "\<not> ?full \<Longrightarrow> leaf_place d new x \<Longrightarrow>
      \<exists>r. leaf_make_room d x new = Inr r \<and> (case r of LeafFull \<Rightarrow> ?n = ?m | LeafBad d' \<Rightarrow> False
        | LeafJoin d' x \<Rightarrow> inserted d new d' | LeafPut d' x \<Rightarrow> inserted d new d')" (is "_ \<Longrightarrow> _ \<Longrightarrow> ?put x") for x
  proof -
    assume "\<not> ?full" "leaf_place d new x"
    from leaf_put_inserted [OF ok u this(2) room [OF this(1)]] obtain d' where
      "leaf_make_room d x new = Inr (LeafPut d' x)" "inserted d new d'" by blast
    then show "?put x" by (intro exI [of _ "LeafPut d' x"]) simp
  qed
  show ?thesis
  proof (cases cur)
    case None
    then have "?n = 0" using leaf_candidate [OF ok c] by simp
    then have "leaf_place d new 0" by (simp add: leaf_place_def)
    then show ?thesis using put [of 0] None hdr full by (cases ?full) (simp_all add: leaf_insert_def)
  next
    case (Some i)
    let ?e = "ext_nth d i"
    have i: "i < ?n" and before: "i = 0 \<or> ext_first ?e \<le> ext_first new"
      and later: "\<forall>j. i < j \<and> j < ?n \<longrightarrow> ext_first new < ext_first (ext_nth d j)"
      using leaf_candidate [OF ok c] Some by (simp_all add: ext_first_def word_le_nat_alt word_less_nat_alt)
    have at: "ext_at d i = Inr ?e" using node_at [OF leaf_fits [OF ok] i] by simp
    have o: "exts_between 0 (node_extents d) (2 ^ 32 - 1)" using ok by (simp add: leaf_ok_def)
    have mem: "?e \<in> set (node_extents d)" using i by (simp add: node_extents_def)
    note e = exts_between_mem [OF o mem]
    have "\<not> ext_covers (ext_first new) ?e"
      using u mem by (auto simp: unmapped_def ext_mapping_def find_None_iff ext_covers_def)
    then have ne: "ext_first ?e \<noteq> ext_first new" using e by (auto simp: ext_covers_def)
    then have ne': "ee_first_block new \<noteq> ee_first_block ?e" by (auto simp: ext_first_def)
    let ?x = "if ee_first_block new > ee_first_block ?e then i + 1 else i"
    have place: "leaf_place d new ?x"
    proof (cases "ext_first ?e < ext_first new")
      case True
      have "ext_first (ext_nth d j) < ext_first new" if "j < i + 1" for j
      proof (cases "j = i")
        case False
        then have "j < i" using that by simp
        from leaf_key_mono [OF ok this i] True show ?thesis by linarith
      qed (use True in simp)
      then show ?thesis using True later i by (simp add: leaf_place_def ext_first_def word_less_nat_alt)
    next
      case False
      then have "i = 0" "ext_first new < ext_first ?e" using before ne by linarith+
      moreover have "ext_first new < ext_first (ext_nth d j)" if "j < ?n" for j
        using later that calculation by (cases "j = 0") auto
      ultimately show ?thesis by (auto simp: leaf_place_def ext_first_def word_less_nat_alt)
    qed
    show ?thesis
    proof (cases "flags AND EXT4_EXT_NO_COMBINE = 0 \<and> ext4_ext_can_append ?e new")
      case True
      then have "ext4_ext_is_unwritten ?e = ext4_ext_is_unwritten new" using j Some by (simp add: leaf_joins_def)
      from leaf_append_inserted [OF ok u i _ later this] True obtain d' where
        "ext_put d i (ext_joined ?e new) = Inr d'" "inserted d new d'" by blast
      then have "leaf_insert d cur new flags = Inr (LeafJoin d' i)" using True Some at hdr ne' by (simp add: leaf_insert_def)
      then show ?thesis using \<open>inserted d new d'\<close> by simp
    next
      case False
      moreover have "\<not> (flags AND EXT4_EXT_NO_COMBINE = 0 \<and> ext4_ext_can_prepend ?e new)" using j Some by (auto simp: leaf_joins_def)
      ultimately have "leaf_insert d cur new flags = (if ?full then Inr LeafFull else leaf_make_room d ?x new)"
        using Some at hdr ne' by (auto simp: leaf_insert_def)
      then show ?thesis using put [OF _ place] full by (cases ?full) simp_all
    qed
  qed
qed

section \<open>Joining in front\<close>

text \<open>
  The record keeps the physical start of the old extent, so that every block of the joined range is given a place
  that lies too far behind by the length of the new extent.
\<close>

lemma leaf_prepend_shifts:
  assumes ok: "leaf_ok d" and c: "ext4_ext_binsearch d (ee_first_block new) = Inr (Some i)" and l: "0 < ext_len new"
    and p: "ext4_ext_can_prepend (ext_nth d i) new" and a: "\<not> ext4_ext_can_append (ext_nth d i) new"
    and f: "flags AND EXT4_EXT_NO_COMBINE = 0" and low: "ext_first new + ext_len new < 2 ^ 32"
  shows "\<exists>d'. leaf_insert d (Some i) new flags = Inr (LeafJoin d' i) \<and>
    ext_first (ext_nth d' i) = ext_first new \<and> ext4_ext_pblock (ext_nth d' i) = ext4_ext_pblock (ext_nth d i) \<and>
    ext4_ext_pblock (ext_nth d' i) = ext4_ext_pblock new + of_nat (ext_len new)"
proof -
  let ?e = "ext_nth d i"
  let ?e' = "?e\<lparr> ee_first_block := ee_first_block new \<rparr>"
  have i: "i < node_count d" using leaf_candidate [OF ok c] by simp
  have at: "ext_at d i = Inr ?e" using node_at [OF leaf_fits [OF ok] i] by simp
  have hdr: "ext_hdr d = Inr (node_hdr d)" using node_fitsD [OF leaf_fits [OF ok]] by simp
  have "ucast (ext4_ext_get_actual_len new) \<noteq> (0 :: u32)"
  proof -
    have "unat (ucast (ext4_ext_get_actual_len new) :: u32) = ext_len new" 
    proof -
      have "take_bit 32 (unat (ext4_ext_get_actual_len new)) = unat (ext4_ext_get_actual_len new)"
        using low by (simp add: take_bit_nat_eq_self_iff ext_len_def)
      then show ?thesis by (simp add: ext_len_def unsigned_ucast_eq)
    qed
    then show ?thesis using l by auto
  qed
  then have ne: "ee_first_block new \<noteq> ee_first_block ?e" using p by (auto simp: ext4_ext_can_prepend_def)
  have "slot (i + 1) \<le> length d" using i leaf_fits [OF ok] by (simp add: node_fits_def slot_def)
  note put = ext_put_eq [OF this, where e = "ext_joined ?e' new"]
  let ?d = "patch d (slot i) (ee_bytes (ext_joined ?e' new))"
  have "leaf_insert d (Some i) new flags = Inr (LeafJoin ?d i)"
    using at hdr ne a f p put(1) by (simp add: leaf_insert_def)
  moreover have "ext_nth ?d i = ext_joined ?e' new" using put(4) [where j = i] \<open>slot (i + 1) \<le> length d\<close> by simp
  moreover have "ext_first (ext_joined ?e' new) = ext_first new" "ext4_ext_pblock (ext_joined ?e' new) = ext4_ext_pblock ?e"
    by (simp_all add: ext_joined_def Let_def ext_first_def ext4_ext_mark_unwritten_def ext4_ext_pblock_def)
  moreover have "ext4_ext_pblock ?e = ext4_ext_pblock new + of_nat (ext_len new)"
    using p by (simp add: ext4_ext_can_prepend_def ext_len_def)
  ultimately show ?thesis by auto
qed

end
