(* ===== verification/ExtentProps.thy ===== *)
theory ExtentProps
  imports VolumeFile ExtentLookup ExtentInsert
begin

text \<open>
  The properties of the extent tree on the image file of the Linux driver, and a tree of two levels and a leaf they are
  applied to.
\<close>

section \<open>The properties\<close>

text \<open>
  C4: looking up a block is exact. For an inode whose extent tree is sound, \<open>ext4_extent_get_blocks\<close> without
  creation answers from the one extent that maps the block: its physical place and the rest of its length, place 0 for an
  unwritten extent, and nothing for a hole. It ends with the holds it began with, and changes no byte
  of any block, except for the checksum of a tree node that was dirty.
\<close>

theorem extent_lookup_exact:
  assumes "fs_at (store_abs hf_content) fs0 s fs" and "tree_in (fs_sb fs0) ir li i ok s" and "inode_depth i \<le> st_room s"
  shows "\<exists>fs' V'. ext4_extent_get_blocks file_dev_iface b n False (fs, ir) =
      (Inr (ext_answer (ext_mapping (tree_extents (st_view s) (inode_depth i) (inode_root i)) (unat b)) b n), fs', ir) \<and>
    fs_at (store_abs hf_content) fs0 (s\<lparr> st_view := V', st_room := st_room s - inode_depth i \<rparr>) fs' \<and>
    tails_only ok (st_view s) V'"
  by (rule file_dev.tree.lookup_ok [OF assms])

text \<open>
  C19: inserting into a leaf is exact. A new extent over blocks that are not mapped, put in with the position the binary
  search found, becomes part of the leaf: afterwards the leaf is ordered and without overlap again, the
  blocks of the new extent are mapped to its place, and every other block is mapped as before, whether the extent
  was appended to another or got a record of its own. The only other answer is that the leaf is full, and then it is.
  The join in front is left out, and so is the append to an extent of the other state.
\<close>

theorem leaf_insert_exact:
  assumes "leaf_ok d" and "ext4_ext_binsearch d (ee_first_block new) = Inr cur" and "unmapped d new"
    and "leaf_joins d cur new flags"
  shows "\<exists>r. leaf_insert d cur new flags = Inr r \<and>
    (case r of LeafFull \<Rightarrow> node_count d = unat (eh_max_entries_count (node_hdr d)) | LeafBad d' \<Rightarrow> False
     | LeafJoin d' x \<Rightarrow> inserted d new d' | LeafPut d' x \<Rightarrow> inserted d new d')"
  by (rule leaf_insert_ok [OF assms])

text \<open>
  C36: joining a new extent in front of another keeps the physical start of the old one, so that the first block of the
  new extent is mapped behind its own blocks, to the place where the old extent began.
\<close>

theorem leaf_prepend_misplaces:
  assumes "leaf_ok d" and "ext4_ext_binsearch d (ee_first_block new) = Inr (Some i)" and "0 < ext_len new"
    and "ext4_ext_can_prepend (ext_nth d i) new" and "\<not> ext4_ext_can_append (ext_nth d i) new"
    and "flags AND EXT4_EXT_NO_COMBINE = 0" and "ext_first new + ext_len new < 2 ^ 32"
  shows "\<exists>d'. leaf_insert d (Some i) new flags = Inr (LeafJoin d' i) \<and>
    ext_first (ext_nth d' i) = ext_first new \<and> ext4_ext_pblock (ext_nth d' i) = ext4_ext_pblock (ext_nth d i) \<and>
    ext4_ext_pblock (ext_nth d' i) = ext4_ext_pblock new + of_nat (ext_len new)"
  by (rule leaf_prepend_shifts [OF assms])

text \<open>
  C35: removing a range that begins in a hole removes nothing and answers success, even when blocks behind
  the hole are mapped; a sparse file that is truncated inside a hole keeps its blocks.
\<close>

theorem remove_from_hole:
  assumes "fs_at (store_abs hf_content) fs0 s fs" and "tree_in (fs_sb fs0) ir li i ok s" and "inode_depth i \<le> st_room s"
    and "ext_mapping (tree_extents (st_view s) (inode_depth i) (inode_root i)) (unat b) = None"
  shows "\<exists>fs' V'. ext4_extent_remove_space file_dev_iface b to (fs, ir) = (Inr (), fs', ir) \<and>
    fs_at (store_abs hf_content) fs0 (s\<lparr> st_view := V', st_room := st_room s - inode_depth i \<rparr>) fs' \<and>
    tails_only ok (st_view s) V'"
  by (rule file_dev.tree.remove_from_hole_ok [OF assms])

section \<open>A small tree\<close>

text \<open>
  The root of the inode in block 5 has one index record, for a leaf in block 7; the leaf maps the blocks 10 to
  14 to 4096 and the following ones.
\<close>

definition leaf_extent :: ext4_extent where
  "leaf_extent = \<lparr> ee_first_block = 10, ee_block_count = 5, ee_start_hi = 0, ee_start_lo = 4096 \<rparr>"

definition leaf_header :: ext4_extent_header where
  "leaf_header = \<lparr> eh_magic = EXT4_EXTENT_MAGIC, eh_entries_count = 1, eh_max_entries_count = 84, eh_depth = 0, eh_generation = 0 \<rparr>"

definition leaf_sample :: "u8 list" where
  "leaf_sample = eh_bytes leaf_header @ ee_bytes leaf_extent @ replicate 1000 0"

definition tree_words :: "u32 list" where
  "tree_words = [0x0001F30A, 0x00010004, 0, 0, 7, 0, 0, 0, 0, 0, 0, 0, 0, 0, 0]"

definition tree_inode :: ext4_inode where
  "tree_inode = (inode_of_bytes (replicate 156 0))\<lparr> in_blocks := tree_words \<rparr>"

definition tree_image :: "u8 list" where
  "tree_image = replicate 5120 0 @ (take 128 (inode_bytes tree_inode) @ replicate 896 0) @ replicate 1024 0 @ leaf_sample"

lemma leaf_sample_facts:
  "length leaf_sample = 1024" "node_hdr leaf_sample = leaf_header" "node_count leaf_sample = 1" "ext_nth leaf_sample 0 = leaf_extent"
  "node_extents leaf_sample = [leaf_extent]"
proof -
  show "length leaf_sample = 1024" by (simp add: leaf_sample_def)
  show h: "node_hdr leaf_sample = leaf_header" by (simp add: leaf_sample_def node_hdr_def)
  then show c: "node_count leaf_sample = 1" by (simp add: node_count_def leaf_header_def)
  show e: "ext_nth leaf_sample 0 = leaf_extent" by (simp add: leaf_sample_def ext_nth_def)
  show "node_extents leaf_sample = [leaf_extent]" by (simp add: node_extents_def c e)
qed

lemma leaf_extent_facts:
  "ext_first leaf_extent = 10" "ext_len leaf_extent = 5" "ext4_ext_pblock leaf_extent = 4096" "\<not> ext4_ext_is_unwritten leaf_extent"
  "ext4_ext_get_actual_len leaf_extent = 5" "ee_first_block leaf_extent = 10"
  by (simp_all add: leaf_extent_def ext_first_def ext_len_def ext4_ext_get_actual_len_def ext4_ext_pblock_def ext4_ext_is_unwritten_def
      EXT_INIT_MAX_LEN_def)

lemma tree_root_facts:
  "node_hdr (inode_root tree_inode) = \<lparr> eh_magic = EXT4_EXTENT_MAGIC, eh_entries_count = 1, eh_max_entries_count = 4, eh_depth = 1,
     eh_generation = 0 \<rparr>"
  "idx_child (inode_root tree_inode) 0 = 7" "idx_first (inode_root tree_inode) 0 = 0" "length (inode_root tree_inode) = 60"
proof -
  have r: "inode_root tree_inode = [10, 0xF3, 1, 0, 4, 0, 1, 0] @ replicate 8 0 @ [7] @ replicate 43 0"
    unfolding inode_root_def tree_inode_def by (simp add: tree_words_def) code_simp
  show "node_hdr (inode_root tree_inode) = \<lparr> eh_magic = EXT4_EXTENT_MAGIC, eh_entries_count = 1, eh_max_entries_count = 4, eh_depth = 1,
     eh_generation = 0 \<rparr>" unfolding r by code_simp
  show "idx_child (inode_root tree_inode) 0 = 7" unfolding r by code_simp
  show "idx_first (inode_root tree_inode) 0 = 0" unfolding r by code_simp
  show "length (inode_root tree_inode) = 60" unfolding r by simp
qed

lemma tree_inode_bytes: "length (inode_bytes tree_inode) = 156" "drop 128 (inode_bytes tree_inode) = replicate 28 0"
  by code_simp+

lemma tree_store_view:
  "st_view (small_store tree_image) 5 = take 128 (inode_bytes tree_inode) @ replicate 896 0" "st_view (small_store tree_image) 7 = leaf_sample"
  "length tree_image = 8192"
  using tree_inode_bytes(1) leaf_sample_facts(1) by (simp_all add: small_store_def tree_image_def slice_def)

lemma tree_sample_in: "tree_in vol_sb vol_ref 5 tree_inode {7} (st_get 5 (small_store tree_image))"
proof -
  let ?s = "small_store tree_image"
  have "take 128 (inode_bytes tree_inode) @ replicate 28 0 = inode_bytes tree_inode"
    unfolding tree_inode_bytes(2) [symmetric] by (rule append_take_drop_id)
  moreover have "length (in_blocks tree_inode) = 15" by (simp add: tree_inode_def tree_words_def)
  ultimately have "inode_at vol_sb (st_view ?s 5) 0 = Inr tree_inode"
    using tree_inode_bytes(1) inode_of_bytes_inode_bytes [of tree_inode]
    by (simp add: inode_at_def rd_range_def inode_width_def vol_geometry tree_store_view)
  then have h: "inode_held vol_sb vol_ref 5 tree_inode (st_get 5 ?s)" by (simp add: inode_held_def vol_ref_def store_simps)
  have n: "tree_nodes (st_get 5 ?s) {7}" by (simp add: tree_nodes_def store_simps small_store_def word_less_nat_alt)
  have d: "inode_depth tree_inode = 1" by (simp add: inode_depth_def tree_root_facts)
  have c: "node_count (inode_root tree_inode) = 1" by (simp add: node_count_def tree_root_facts)
  have b: "block_node_ok 0 leaf_sample"
    by (simp add: block_node_ok_def leaf_sample_facts leaf_header_def EXT4_EXTENT_TAIL_OFFSET_def)
  have "ext_tree (st_view ?s) {7} 0 leaf_sample 0 (2 ^ 32)"
    using block_node_fits [OF b] by (simp add: leaf_sample_facts leaf_extent_facts)
  then have "ext_tree (st_view ?s) {7} 1 (inode_root tree_inode) 0 (2 ^ 32)"
    using c b by (simp add: node_fits_def tree_root_facts tree_store_view)
  moreover have "st_pend ?s = {}" by (simp add: small_store_def)
  ultimately show ?thesis using h n d unfolding tree_in_def by (simp only: st_simps) auto
qed

lemma tree_sample_at: "\<exists>bd. fs_at (store_abs hf_content) (vol_fs bd) (st_get 5 (small_store tree_image)) (vol_fs bd)"
proof -
  have "5 < st_cnt (small_store tree_image)" "st_room (small_store tree_image) \<noteq> 0" by (simp_all add: small_store_def word_less_nat_alt)
  from file_dev.store.store_get [OF small_store_abs [OF tree_store_view(3)] this] obtain bd where
    "store_abs hf_content bd (st_get 5 (small_store tree_image))" by blast
  then show ?thesis by (intro exI [of _ bd]) (simp add: fs_at_def vol_fs_def)
qed

lemma tree_sample_depth: "inode_depth tree_inode = 1" "inode_depth tree_inode \<le> st_room (st_get 5 (small_store tree_image))"
  by (simp_all add: inode_depth_def tree_root_facts store_simps small_store_def)

lemma tree_sample_extents:
  "tree_extents (st_view (st_get 5 (small_store tree_image))) (inode_depth tree_inode) (inode_root tree_inode) = [leaf_extent]"
proof -
  have c: "node_count (inode_root tree_inode) = 1" by (simp add: node_count_def tree_root_facts)
  show ?thesis
    by (simp add: tree_sample_depth(1) c tree_root_facts tree_store_view leaf_sample_facts store_simps numeral_nat)
qed

section \<open>Witnesses\<close>

theorem extent_lookup_exact_witness:
  "\<exists>bd fs'. ext4_extent_get_blocks file_dev_iface 12 8 False (vol_fs bd, vol_ref) = (Inr (4098, 3), fs', vol_ref)"
proof -
  obtain bd where a: "fs_at (store_abs hf_content) (vol_fs bd) (st_get 5 (small_store tree_image)) (vol_fs bd)"
    using tree_sample_at by blast
  have sb: "fs_sb (vol_fs bd) = vol_sb" by (simp add: vol_fs_def)
  have "ext_answer (ext_mapping [leaf_extent] (unat (12 :: u32))) 12 8 = (4098, 3)"
    by (simp add: ext_mapping_def ext_covers_def ext_answer_def leaf_extent_facts min_def)
  then show ?thesis
    using extent_lookup_exact [OF a, unfolded sb, OF tree_sample_in tree_sample_depth(2), of 12 8]
    unfolding tree_sample_extents by auto
qed

text \<open>Block 3 is in the hole in front of the extent.\<close>

theorem remove_from_hole_witness:
  "\<exists>bd fs'. ext4_extent_remove_space file_dev_iface 3 100 (vol_fs bd, vol_ref) = (Inr (), fs', vol_ref)"
proof -
  obtain bd where a: "fs_at (store_abs hf_content) (vol_fs bd) (st_get 5 (small_store tree_image)) (vol_fs bd)"
    using tree_sample_at by blast
  have sb: "fs_sb (vol_fs bd) = vol_sb" by (simp add: vol_fs_def)
  have "ext_mapping [leaf_extent] (unat (3 :: u32)) = None" by (simp add: ext_mapping_def ext_covers_def leaf_extent_facts)
  then show ?thesis
    using remove_from_hole [OF a, unfolded sb, OF tree_sample_in tree_sample_depth(2), of 3 100]
    unfolding tree_sample_extents by auto
qed

definition next_extent :: ext4_extent where
  "next_extent = \<lparr> ee_first_block = 20, ee_block_count = 2, ee_start_hi = 0, ee_start_lo = 9000 \<rparr>"

definition front_extent :: ext4_extent where
  "front_extent = \<lparr> ee_first_block = 8, ee_block_count = 2, ee_start_hi = 0, ee_start_lo = 4094 \<rparr>"

lemma leaf_sample_ok: "leaf_ok leaf_sample"
  by (simp add: leaf_ok_def leaf_sample_facts leaf_header_def leaf_extent_facts)

lemma leaf_sample_search: "ext4_ext_binsearch leaf_sample b = Inr (Some 0)"
  using node_fitsD [OF leaf_fits [OF leaf_sample_ok]]
  by (simp add: ext4_ext_binsearch_def leaf_sample_facts ext_bsearch.simps)

theorem leaf_insert_exact_witness: "\<exists>r. leaf_insert leaf_sample (Some 0) next_extent 0 = Inr r"
proof -
  note b = leaf_sample_search [of "ee_first_block next_extent"]
  have "ext_len next_extent = 2" "ext_first next_extent = 20"
    by (simp_all add: next_extent_def ext_len_def ext_first_def ext4_ext_get_actual_len_def EXT_INIT_MAX_LEN_def)
  then have u: "unmapped leaf_sample next_extent"
    by (auto simp: unmapped_def leaf_sample_facts ext_mapping_def ext_covers_def leaf_extent_facts)
  have "\<not> ext4_ext_can_prepend leaf_extent next_extent \<and> \<not> ext4_ext_can_append leaf_extent next_extent"
    by (simp add: ext4_ext_can_prepend_def ext4_ext_can_append_def ext_can_join_def leaf_extent_facts)
       (simp add: next_extent_def ext4_ext_pblock_def ext4_ext_get_actual_len_def EXT_INIT_MAX_LEN_def)
  then have "leaf_joins leaf_sample (Some 0) next_extent 0" by (simp add: leaf_joins_def leaf_sample_facts)
  from leaf_insert_exact [OF leaf_sample_ok b u this] show ?thesis by blast
qed

theorem leaf_prepend_misplaces_witness:
  "\<exists>d'. leaf_insert leaf_sample (Some 0) front_extent 0 = Inr (LeafJoin d' 0) \<and>
     ext_first (ext_nth d' 0) = 8 \<and> ext4_ext_pblock (ext_nth d' 0) = 4096"
proof -
  note b = leaf_sample_search [of "ee_first_block front_extent"]
  have f: "ext_len front_extent = 2" "ext_first front_extent = 8"
    by (simp_all add: front_extent_def ext_len_def ext_first_def ext4_ext_get_actual_len_def EXT_INIT_MAX_LEN_def)
  have j: "ext4_ext_can_prepend leaf_extent front_extent" "\<not> ext4_ext_can_append leaf_extent front_extent"
    by (simp_all add: ext4_ext_can_prepend_def ext4_ext_can_append_def ext_can_join_def leaf_extent_facts)
       (simp_all add: front_extent_def ext4_ext_pblock_def ext4_ext_get_actual_len_def EXT_INIT_MAX_LEN_def)
  show ?thesis
    using leaf_prepend_misplaces [OF leaf_sample_ok b, unfolded f leaf_sample_facts leaf_extent_facts, OF _ j, of 0] by auto
qed

end
