(* ===== verification/FsInode.thy ===== *)
theory FsInode
  imports ExtentTree Ialloc DirBlock
begin

text \<open>
  Inodes and their blocks, the second half of \<^verbatim>\<open>src/ext4_fs.c\<close>: creating and destroying an inode,
  the map from logical to physical blocks by direct and indirect pointers or by extents, appending a block,
  truncation, and the link count.
\<close>

section \<open>Stores to the inode\<close>

text \<open>A store to the inode behind the reference that leaves the dirty flag alone, and the flag.\<close>

definition inode_edit :: "(ext4_inode \<Rightarrow> ext4_inode res) \<Rightarrow> 'd istate \<Rightarrow> unit res \<times> 'd istate" where
  "inode_edit f s =
     on_fs (\<lambda>fs. sbind (sread (\<lambda>fs. rbind (ir_load (snd s) fs) f) fs) (\<lambda>i fs. ir_store (snd s) i fs)) s"

definition inode_mark :: "'d istate \<Rightarrow> unit res \<times> 'd istate" where
  "inode_mark s = (Inr (), fst s, (snd s)\<lparr> ir_dirty := True \<rparr>)"

definition inode_uses_extents :: "ext4_sblock \<Rightarrow> ext4_inode \<Rightarrow> bool" where
  "inode_uses_extents sb i \<longleftrightarrow>
     ext4_sb_feature_incom sb EXT4_FINCOM_EXTENTS \<and> ext4_inode_has_flag i EXT4_INODE_FLAG_EXTENTS"

section \<open>Creating an inode\<close>

definition ext4_fs_inode_blocks_init :: "'d istate \<Rightarrow> unit res \<times> 'd istate" where
  "ext4_fs_inode_blocks_init s =
     sbind (sread is_inode s) (\<lambda>i s.
       let sb = fs_sb (fst s); t = ext4_inode_type sb i
       in if t \<noteq> EXT4_INODE_MODE_FILE \<and> t \<noteq> EXT4_INODE_MODE_DIRECTORY then (Inr (), s)
          else
            sbind (if ext4_sb_feature_incom sb EXT4_FINCOM_EXTENTS then
                     sbind (inode_edit (\<lambda>i. Inr (ext4_inode_set_flag i EXT4_INODE_FLAG_EXTENTS)) s) (\<lambda>_ s.
                     ext4_extent_tree_init s)
                   else (Inr (), s)) (\<lambda>_ s. inode_mark s))"

definition ext4_fs_correspond_inode_mode :: "u8 \<Rightarrow> u32" where
  "ext4_fs_correspond_inode_mode filetype =
     (if filetype = EXT4_DE_DIR then EXT4_INODE_MODE_DIRECTORY
      else if filetype = EXT4_DE_REG_FILE then EXT4_INODE_MODE_FILE
      else if filetype = EXT4_DE_SYMLINK then EXT4_INODE_MODE_SOFTLINK
      else if filetype = EXT4_DE_CHRDEV then EXT4_INODE_MODE_CHARDEV
      else if filetype = EXT4_DE_BLKDEV then EXT4_INODE_MODE_BLOCKDEV
      else if filetype = EXT4_DE_FIFO then EXT4_INODE_MODE_FIFO
      else if filetype = EXT4_DE_SOCK then EXT4_INODE_MODE_SOCKET
      else EXT4_INODE_MODE_FILE)"

text \<open>The permissions are \<^verbatim>\<open>0777\<close> for directories and symbolic links and \<^verbatim>\<open>0666\<close> for the rest, in octal.\<close>

definition new_inode_mode :: "u8 \<Rightarrow> u32" where
  "new_inode_mode filetype =
     (if filetype = EXT4_DE_DIR then 0x1FF OR EXT4_INODE_MODE_DIRECTORY
      else if filetype = EXT4_DE_SYMLINK then 0x1FF OR EXT4_INODE_MODE_SOFTLINK
      else 0x1B6 OR ext4_fs_correspond_inode_mode filetype)"

text \<open>The fields set in an inode whose bytes were cleared; the code of the block count is not looked at.\<close>

definition new_inode :: "ext4_sblock \<Rightarrow> u8 \<Rightarrow> ext4_inode \<Rightarrow> ext4_inode" where
  "new_inode sb filetype i =
     (let i = ext4_inode_set_mode sb i (new_inode_mode filetype);
          i = ext4_inode_set_links_cnt i 0;
          i = ext4_inode_set_uid i 0;
          i = ext4_inode_set_gid i 0;
          i = ext4_inode_set_size i 0;
          i = ext4_inode_set_access_time i 0;
          i = ext4_inode_set_change_inode_time i 0;
          i = ext4_inode_set_modif_time i 0;
          i = ext4_inode_set_del_time i 0;
          i = (case ext4_inode_set_blocks_count sb i 0 of Inl _ \<Rightarrow> i | Inr i' \<Rightarrow> i');
          i = ext4_inode_set_flags i 0;
          i = ext4_inode_set_generation i 0;
          i = (if sb_inode_size sb > EXT4_GOOD_OLD_INODE_SIZE
               then ext4_inode_set_extra_isize sb i (sb_want_extra_isize sb) else i)
      in i\<lparr> in_blocks := replicate 15 0 \<rparr>)"

definition ext4_fs_alloc_inode ::
    "nat \<Rightarrow> 'd ext4_blockdev_iface \<Rightarrow> u8 \<Rightarrow> 'd ext4_fs \<Rightarrow> ext4_inode_ref res \<times> 'd ext4_fs" where
  "ext4_fs_alloc_inode fuel io filetype fs =
     (let is_dir = filetype = EXT4_DE_DIR
      in sbind (ext4_ialloc_alloc_inode fuel io is_dir fs) (\<lambda>index fs.
         sbind (scatch (fs_get_inode_ref io index fs) (\<lambda>e fs.
                  sbind (sforget (ext4_ialloc_free_inode io index is_dir fs)) (\<lambda>_ fs. (Inl e, fs)))) (\<lambda>ref fs.
         sbind (fs_store (ir_block ref) (rbind (fs_data (ir_block ref) fs) (\<lambda>d.
                  wr_range d (ir_off ref) (replicate (unat (sb_inode_size (fs_sb fs))) 0))) fs) (\<lambda>_ fs.
         sbind (sread (ir_load ref) fs) (\<lambda>i fs.
         sbind (ir_store ref (new_inode (fs_sb fs) filetype i) fs) (\<lambda>_ fs.
         (Inr (ref\<lparr> ir_dirty := True \<rparr>), fs)))))))"

section \<open>Indirect blocks\<close>

text \<open>The block number at position \<open>k\<close> of a held block, and a store to it.\<close>

definition ind_entry :: "ext4_block \<Rightarrow> u32 \<Rightarrow> 'd ext4_fs \<Rightarrow> u32 res" where
  "ind_entry b k fs = rbind (fs_data b fs) (\<lambda>d. rbind (rd_range d (4 * unat k) 4) (\<lambda>bs. Inr (fst (get32 bs))))"

definition ind_put :: "ext4_block \<Rightarrow> u32 \<Rightarrow> u32 \<Rightarrow> 'd ext4_fs \<Rightarrow> unit res \<times> 'd ext4_fs" where
  "ind_put b k v fs =
     sbind (fs_store b (rbind (fs_data b fs) (\<lambda>d. wr_range d (4 * unat k) (enc32 v))) fs) (\<lambda>_ fs. fs_set_dirty b fs)"

text \<open>A block held while something runs; the code of the release is not looked at.\<close>

definition with_block ::
    "'d ext4_blockdev_iface \<Rightarrow> u64 \<Rightarrow> (ext4_block \<Rightarrow> 'd istate \<Rightarrow> unit res \<times> 'd istate) \<Rightarrow> 'd istate \<Rightarrow> unit res \<times> 'd istate" where
  "with_block io l f s =
     sbind (on_fs (fs_block_get io l) s) (\<lambda>b s.
     sbind (scatch (f b s) (\<lambda>e s. sbind (sforget (on_fs (fs_block_set io b) s)) (\<lambda>_ s. (Inl e, s)))) (\<lambda>_ s.
     sforget (on_fs (fs_block_set io b) s)))"

text \<open>The limits and the block counts of the levels; the arrays have four elements.\<close>

definition ind_limit :: "'d ext4_fs \<Rightarrow> nat \<Rightarrow> u64" where "ind_limit fs l = fs_inode_block_limits fs ! l"
definition ind_count :: "'d ext4_fs \<Rightarrow> nat \<Rightarrow> u64" where "ind_count fs l = fs_inode_blocks_per_level fs ! l"

text \<open>The level of indirection of a logical block.\<close>

definition ind_level :: "'d ext4_fs \<Rightarrow> u32 \<Rightarrow> nat option" where
  "ind_level fs iblock =
     (if ucast iblock < ind_limit fs 1 then Some 1
      else if ucast iblock < ind_limit fs 2 then Some 2
      else if ucast iblock < ind_limit fs 3 then Some 3
      else None)"

text \<open>The position inside its block, and the offset for the level below.\<close>

definition ind_pos :: "'d ext4_fs \<Rightarrow> nat \<Rightarrow> u32 \<Rightarrow> u32" where
  "ind_pos fs l off = ucast (ucast off div ind_count fs l)"

definition ind_next :: "'d ext4_fs \<Rightarrow> nat \<Rightarrow> u32 \<Rightarrow> u32" where
  "ind_next fs l off = ucast (ucast off mod ind_count fs l)"

section \<open>Destroying an inode\<close>

fun free_entries ::
    "nat \<Rightarrow> 'd ext4_blockdev_iface \<Rightarrow> u32 \<Rightarrow> ext4_block \<Rightarrow> 'd istate \<Rightarrow> unit res \<times> 'd istate" where
  "free_entries 0 io k b s = (Inr (), s)"
| "free_entries (Suc n) io k b s =
     sbind (sread (\<lambda>s. ind_entry b k (fst s)) s) (\<lambda>e s.
     sbind (if e = 0 then (Inr (), s) else ext4_balloc_free_block io (ucast e) s) (\<lambda>_ s.
     free_entries n io (k + 1) b s))"

fun free_subtrees ::
    "nat \<Rightarrow> 'd ext4_blockdev_iface \<Rightarrow> nat \<Rightarrow> u32 \<Rightarrow> ext4_block \<Rightarrow> 'd istate \<Rightarrow> unit res \<times> 'd istate" where
  "free_subtrees 0 io count k b s = (Inr (), s)"
| "free_subtrees (Suc n) io count k b s =
     sbind (sread (\<lambda>s. ind_entry b k (fst s)) s) (\<lambda>e s.
     sbind (if e = 0 then (Inr (), s)
            else sbind (with_block io (ucast e) (free_entries count io 0) s) (\<lambda>_ s. ext4_balloc_free_block io (ucast e) s)) (\<lambda>_ s.
     free_subtrees n io count (k + 1) b s))"

text \<open>One of the three trees of pointers; \<open>body\<close> frees what hangs below its first block.\<close>

definition free_indirect ::
    "'d ext4_blockdev_iface \<Rightarrow> nat \<Rightarrow> (u64 \<Rightarrow> 'd istate \<Rightarrow> unit res \<times> 'd istate) \<Rightarrow> 'd istate \<Rightarrow> unit res \<times> 'd istate" where
  "free_indirect io l body s =
     sbind (sread (\<lambda>s. rbind (is_inode s) (\<lambda>i. ext4_inode_get_indirect_block i l)) s) (\<lambda>fblock s.
       if fblock = 0 then (Inr (), s)
       else
         sbind (body (ucast fblock) s) (\<lambda>_ s.
         sbind (ext4_balloc_free_block io (ucast fblock) s) (\<lambda>_ s.
         inode_edit (\<lambda>i. ext4_inode_set_indirect_block i l 0) s)))"

text \<open>The data blocks were released by truncation before.\<close>

definition ext4_fs_free_inode :: "'d ext4_blockdev_iface \<Rightarrow> 'd istate \<Rightarrow> unit res \<times> 'd istate" where
  "ext4_fs_free_inode io s =
     sbind (sread is_inode s) (\<lambda>i s.
     sbind (if inode_uses_extents (fs_sb (fst s)) i then (Inr (), s)
            else
              let count = unat (ext4_sb_get_block_size (fs_sb (fst s)) div 4)
              in sbind (free_indirect io 0 (\<lambda>_ s. (Inr (), s)) s) (\<lambda>_ s.
                 sbind (free_indirect io 1 (\<lambda>l. with_block io l (free_entries count io 0)) s) (\<lambda>_ s.
                 free_indirect io 2 (\<lambda>l. with_block io l (free_subtrees count io count 0)) s))) (\<lambda>_ s.
     sbind (inode_mark s) (\<lambda>_ s.
     sbind (sread is_inode s) (\<lambda>i s.
     let xattr_block = ext4_inode_get_file_acl i (fs_sb (fst s))
     in sbind (if xattr_block = 0 then (Inr (), s)
               else
                 sbind (ext4_balloc_free_block io xattr_block s) (\<lambda>_ s.
                 inode_edit (\<lambda>i. Inr (ext4_inode_set_file_acl i (fs_sb (fst s)) 0)) s)) (\<lambda>_ s.
        sbind (sread is_inode s) (\<lambda>i s.
        on_fs (ext4_ialloc_free_inode io (ir_index (snd s))
                 (ext4_inode_is_type (fs_sb (fst s)) i EXT4_INODE_MODE_DIRECTORY)) s))))))"

end
