(* ===== verification/FsMap.thy ===== *)
theory FsMap
  imports FsInode
begin

text \<open>
  The map from logical to physical blocks of an inode, third part of \<^verbatim>\<open>src/ext4_fs.c\<close>: looking up,
  creating and setting a block, appending one, truncation, and the link count.
\<close>

section \<open>Looking up a block\<close>

text \<open>From the block \<open>cur\<close> at level \<open>l\<close> of indirection down to the data; 0 for a hole.\<close>

fun dblk_walk ::
    "nat \<Rightarrow> 'd ext4_blockdev_iface \<Rightarrow> u64 \<Rightarrow> u32 \<Rightarrow> 'd ext4_fs \<Rightarrow> u64 res \<times> 'd ext4_fs" where
  "dblk_walk 0 io cur off fs = (Inr cur, fs)"
| "dblk_walk (Suc l) io cur off fs =
     sbind (fs_block_get io cur fs) (\<lambda>b fs.
     sbind (sread (ind_entry b (ind_pos fs l off)) fs) (\<lambda>e fs.
     sbind (fs_block_set io b fs) (\<lambda>_ fs.
     if e = 0 then (Inr 0, fs) else dblk_walk l io (ucast e) (ind_next fs l off) fs)))"

definition dblk_indirect ::
    "'d ext4_blockdev_iface \<Rightarrow> u32 \<Rightarrow> 'd istate \<Rightarrow> u64 res \<times> 'd istate" where
  "dblk_indirect io iblock s =
     sbind (sread is_inode s) (\<lambda>i s.
       if iblock < EXT4_INODE_DIRECT_BLOCK_COUNT then
         sbind (sread (\<lambda>_. ext4_inode_get_direct_block i (unat iblock)) s) (\<lambda>b s. (Inr (ucast b), s))
       else
         case ind_level (fst s) iblock of
           None \<Rightarrow> (Inl EIO, s)
         | Some l \<Rightarrow>
             sbind (sread (\<lambda>_. ext4_inode_get_indirect_block i (l - 1)) s) (\<lambda>cur s.
             if cur = 0 then (Inr 0, s)
             else on_fs (\<lambda>fs. dblk_walk l io (ucast cur) (ucast (ucast iblock - ind_limit fs (l - 1))) fs) s))"

definition ext4_fs_get_inode_dblk_idx_internal ::
    "'d ext4_blockdev_iface \<Rightarrow> u32 \<Rightarrow> bool \<Rightarrow> bool \<Rightarrow> 'd istate \<Rightarrow> u64 res \<times> 'd istate" where
  "ext4_fs_get_inode_dblk_idx_internal io iblock extent_create support_unwritten s =
     sbind (sread is_inode s) (\<lambda>i s.
       if ext4_inode_get_size (fs_sb (fst s)) i = 0 then (Inr 0, s)
       else if inode_uses_extents (fs_sb (fst s)) i then
         sbind (ext4_extent_get_blocks io iblock 1 extent_create s) (\<lambda>(fblock, _) s.
         if fblock = 0 \<and> \<not> support_unwritten then (Inl EASSERT, s) else (Inr fblock, s))
       else dblk_indirect io iblock s)"

definition ext4_fs_get_inode_dblk_idx ::
    "'d ext4_blockdev_iface \<Rightarrow> u32 \<Rightarrow> bool \<Rightarrow> 'd istate \<Rightarrow> u64 res \<times> 'd istate" where
  "ext4_fs_get_inode_dblk_idx io iblock support_unwritten s =
     ext4_fs_get_inode_dblk_idx_internal io iblock False support_unwritten s"

definition ext4_fs_init_inode_dblk_idx ::
    "'d ext4_blockdev_iface \<Rightarrow> u32 \<Rightarrow> 'd istate \<Rightarrow> u64 res \<times> 'd istate" where
  "ext4_fs_init_inode_dblk_idx io iblock s = ext4_fs_get_inode_dblk_idx_internal io iblock True True s"

section \<open>Where to allocate\<close>

text \<open>The goal of an empty or sparse file is behind the inode table of the group of the inode.\<close>

definition itab_behind :: "ext4_sblock \<Rightarrow> u32 \<Rightarrow> ext4_bgroup \<Rightarrow> u64" where
  "itab_behind sb block_group bg =
     (let block_size = ext4_sb_get_block_size sb;
          inodes_per_bg = sb_inodes_per_group sb;
          item = ucast (sb_inode_size sb);
          bg_count = ext4_block_group_cnt sb;
          itab_bytes = (if block_group < bg_count - 1 then inodes_per_bg * item
                        else (sb_inodes_count sb - (bg_count - 1) * inodes_per_bg) * item);
          blocks = ucast (itab_bytes div block_size) + (if itab_bytes mod block_size \<noteq> 0 then 1 else 0)
      in ext4_bg_get_inode_table_first_block bg sb + blocks)"

definition ext4_fs_indirect_find_goal :: "'d ext4_blockdev_iface \<Rightarrow> 'd istate \<Rightarrow> u64 res \<times> 'd istate" where
  "ext4_fs_indirect_find_goal io s =
     sbind (sread is_inode s) (\<lambda>i s.
     let sb = fs_sb (fst s);
         inode_size = ext4_inode_get_size sb i;
         block_size = ucast (ext4_sb_get_block_size sb);
         iblock_cnt = ucast (inode_size div block_size) + (if inode_size mod block_size \<noteq> 0 then 1 else 0)
     in sbind (if iblock_cnt > 0 then ext4_fs_get_inode_dblk_idx io (iblock_cnt - 1) False s else (Inr 0, s)) (\<lambda>goal s.
        if goal \<noteq> 0 then (Inr (goal + 1), s)
        else
          let sb = fs_sb (fst s); block_group = (ir_index (snd s) - 1) div sb_inodes_per_group sb
          in sbind (on_fs (ext4_fs_get_block_group_ref io block_group) s) (\<lambda>ref s.
             sbind (sread (\<lambda>s. bgr_load ref (fst s)) s) (\<lambda>bg s.
             sbind (on_fs (ext4_fs_put_block_group_ref io ref) s) (\<lambda>_ s.
             (Inr (itab_behind (fs_sb (fst s)) block_group bg), s))))))"

section \<open>Setting a block\<close>

text \<open>A cleared block for pointers. At the top its number is already in the inode when the handle is got.\<close>

definition ind_clear :: "ext4_block \<Rightarrow> 'd istate \<Rightarrow> unit res \<times> 'd istate" where
  "ind_clear b s =
     sbind (on_fs (\<lambda>fs. fs_store b (rbind (fs_data b fs) (\<lambda>d.
              wr_range d 0 (replicate (unat (ext4_sb_get_block_size (fs_sb fs))) 0))) fs) s) (\<lambda>_ s.
     on_fs (fs_set_dirty b) s)"

definition ind_new_top :: "'d ext4_blockdev_iface \<Rightarrow> nat \<Rightarrow> 'd istate \<Rightarrow> u64 res \<times> 'd istate" where
  "ind_new_top io l s =
     sbind (ext4_fs_indirect_find_goal io s) (\<lambda>goal s.
     sbind (ext4_balloc_alloc_block io goal s) (\<lambda>new_blk s.
     sbind (inode_edit (\<lambda>i. ext4_inode_set_indirect_block i (l - 1) (ucast new_blk)) s) (\<lambda>_ s.
     sbind (inode_mark s) (\<lambda>_ s.
     sbind (scatch (on_fs (fs_block_get_noread io new_blk) s) (\<lambda>e s.
              sbind (sforget (ext4_balloc_free_block io new_blk s)) (\<lambda>_ s. (Inl e, s)))) (\<lambda>nb s.
     sbind (ind_clear nb s) (\<lambda>_ s.
     sbind (on_fs (fs_block_set io nb) s) (\<lambda>_ s. (Inr new_blk, s))))))))"

definition ind_new_below :: "'d ext4_blockdev_iface \<Rightarrow> ext4_block \<Rightarrow> u32 \<Rightarrow> 'd istate \<Rightarrow> u64 res \<times> 'd istate" where
  "ind_new_below io b k s =
     sbind (scatch
              (sbind (ext4_fs_indirect_find_goal io s) (\<lambda>goal s.
               sbind (ext4_balloc_alloc_block io goal s) (\<lambda>new_blk s.
               sbind (on_fs (fs_block_get_noread io new_blk) s) (\<lambda>nb s.
               sbind (ind_clear nb s) (\<lambda>_ s.
               sbind (on_fs (fs_block_set io nb) s) (\<lambda>_ s. (Inr new_blk, s)))))))
              (\<lambda>e s. sbind (sforget (on_fs (fs_block_set io b) s)) (\<lambda>_ s. (Inl e, s)))) (\<lambda>new_blk s.
     sbind (on_fs (ind_put b k (ucast new_blk)) s) (\<lambda>_ s. (Inr new_blk, s)))"

fun set_walk ::
    "nat \<Rightarrow> 'd ext4_blockdev_iface \<Rightarrow> u64 \<Rightarrow> u32 \<Rightarrow> u64 \<Rightarrow> 'd istate \<Rightarrow> unit res \<times> 'd istate" where
  "set_walk 0 io cur off fblock s = (Inr (), s)"
| "set_walk (Suc l) io cur off fblock s =
     sbind (on_fs (fs_block_get io cur) s) (\<lambda>b s.
     let k = ind_pos (fst s) l off
     in sbind (sread (\<lambda>s. ind_entry b k (fst s)) s) (\<lambda>e s.
        sbind (if l > 0 \<and> e = 0 then ind_new_below io b k s else (Inr (ucast e), s)) (\<lambda>cur s.
        sbind (if l = 0 then on_fs (ind_put b k (ucast fblock)) s else (Inr (), s)) (\<lambda>_ s.
        sbind (on_fs (fs_block_set io b) s) (\<lambda>_ s.
        set_walk l io cur (ind_next (fst s) l off) fblock s)))))"

definition ext4_fs_set_inode_data_block_index ::
    "'d ext4_blockdev_iface \<Rightarrow> u32 \<Rightarrow> u64 \<Rightarrow> 'd istate \<Rightarrow> unit res \<times> 'd istate" where
  "ext4_fs_set_inode_data_block_index io iblock fblock s =
     sbind (sread is_inode s) (\<lambda>i s.
       if inode_uses_extents (fs_sb (fst s)) i then (Inl ENOTSUP, s)
       else if iblock < EXT4_INODE_DIRECT_BLOCK_COUNT then
         sbind (inode_edit (\<lambda>i. ext4_inode_set_direct_block i (unat iblock) (ucast fblock)) s) (\<lambda>_ s. inode_mark s)
       else
         case ind_level (fst s) iblock of
           None \<Rightarrow> (Inl EIO, s)
         | Some l \<Rightarrow>
             sbind (sread (\<lambda>_. ext4_inode_get_indirect_block i (l - 1)) s) (\<lambda>cur s.
             sbind (if cur = 0 then ind_new_top io l s else (Inr (ucast cur), s)) (\<lambda>cur s.
             set_walk l io cur (ucast (ucast iblock - ind_limit (fst s) (l - 1))) fblock s)))"

section \<open>Appending a block\<close>

text \<open>The result is the physical and the logical block.\<close>

definition ext4_fs_append_inode_dblk ::
    "'d ext4_blockdev_iface \<Rightarrow> 'd istate \<Rightarrow> (u64 \<times> u32) res \<times> 'd istate" where
  "ext4_fs_append_inode_dblk io s =
     sbind (sread is_inode s) (\<lambda>i s.
     let sb = fs_sb (fst s);
         inode_size = ext4_inode_get_size sb i;
         block_size = ucast (ext4_sb_get_block_size sb)
     in if inode_uses_extents sb i then
          let iblock = ucast ((inode_size + block_size - 1) div block_size)
          in sbind (ext4_extent_get_blocks io iblock 1 True s) (\<lambda>(fblock, _) s.
             if fblock = 0 then (Inl EASSERT, s)
             else
               sbind (inode_edit (\<lambda>i. Inr (ext4_inode_set_size i (inode_size + block_size))) s) (\<lambda>_ s.
               sbind (inode_mark s) (\<lambda>_ s. (Inr (fblock, iblock), s))))
        else
          let inode_size = (if inode_size mod block_size \<noteq> 0
                            then inode_size + (block_size - inode_size mod block_size) else inode_size);
              new_block_idx = ucast (inode_size div block_size)
          in sbind (ext4_fs_indirect_find_goal io s) (\<lambda>goal s.
             sbind (ext4_balloc_alloc_block io goal s) (\<lambda>phys_block s.
             sbind (scatch (ext4_fs_set_inode_data_block_index io new_block_idx phys_block s) (\<lambda>e s.
                      sbind (sforget (ext4_balloc_free_block io phys_block s)) (\<lambda>_ s. (Inl e, s)))) (\<lambda>_ s.
             sbind (inode_edit (\<lambda>i. Inr (ext4_inode_set_size i (inode_size + block_size))) s) (\<lambda>_ s.
             sbind (inode_mark s) (\<lambda>_ s. (Inr (phys_block, new_block_idx), s)))))))"

section \<open>Truncation\<close>

text \<open>The last pointer is cleared while its block is held.\<close>

fun release_walk ::
    "nat \<Rightarrow> 'd ext4_blockdev_iface \<Rightarrow> u64 \<Rightarrow> u32 \<Rightarrow> 'd ext4_fs \<Rightarrow> u64 res \<times> 'd ext4_fs" where
  "release_walk 0 io cur off fs = (Inr cur, fs)"
| "release_walk (Suc l) io cur off fs =
     (if cur = 0 then (Inr 0, fs)
      else
        sbind (fs_block_get io cur fs) (\<lambda>b fs.
        let k = ind_pos fs l off
        in sbind (sread (ind_entry b k) fs) (\<lambda>e fs.
           sbind (if l = 0 then ind_put b k 0 fs else (Inr (), fs)) (\<lambda>_ fs.
           sbind (fs_block_set io b fs) (\<lambda>_ fs.
           release_walk l io (ucast e) (ind_next fs l off) fs)))))"

definition ext4_fs_release_inode_block ::
    "'d ext4_blockdev_iface \<Rightarrow> u32 \<Rightarrow> 'd istate \<Rightarrow> unit res \<times> 'd istate" where
  "ext4_fs_release_inode_block io iblock s =
     sbind (sread is_inode s) (\<lambda>i s.
       if inode_uses_extents (fs_sb (fst s)) i then (Inl EASSERT, s)
       else if iblock < EXT4_INODE_DIRECT_BLOCK_COUNT then
         sbind (sread (\<lambda>_. ext4_inode_get_direct_block i (unat iblock)) s) (\<lambda>fblock s.
         if fblock = 0 then (Inr (), s)
         else
           sbind (inode_edit (\<lambda>i. ext4_inode_set_direct_block i (unat iblock) 0) s) (\<lambda>_ s.
           ext4_balloc_free_block io (ucast fblock) s))
       else
         case ind_level (fst s) iblock of
           None \<Rightarrow> (Inl EIO, s)
         | Some l \<Rightarrow>
             sbind (sread (\<lambda>_. ext4_inode_get_indirect_block i (l - 1)) s) (\<lambda>cur s.
             sbind (on_fs (\<lambda>fs. release_walk l io (ucast cur) (ucast (ucast iblock - ind_limit fs (l - 1))) fs) s) (\<lambda>fblock s.
             if fblock = 0 then (Inr (), s) else ext4_balloc_free_block io fblock s)))"

fun release_range :: "nat \<Rightarrow> 'd ext4_blockdev_iface \<Rightarrow> u32 \<Rightarrow> 'd istate \<Rightarrow> unit res \<times> 'd istate" where
  "release_range 0 io iblock s = (Inr (), s)"
| "release_range (Suc n) io iblock s =
     sbind (ext4_fs_release_inode_block io iblock s) (\<lambda>_ s. release_range n io (iblock + 1) s)"

definition ext4_fs_truncate_inode ::
    "'d ext4_blockdev_iface \<Rightarrow> u64 \<Rightarrow> 'd istate \<Rightarrow> unit res \<times> 'd istate" where
  "ext4_fs_truncate_inode io new_size s =
     sbind (sread is_inode s) (\<lambda>i s.
     let sb = fs_sb (fst s); old_size = ext4_inode_get_size sb i
     in if \<not> ext4_inode_can_truncate sb i then (Inl EINVAL, s)
        else if old_size = new_size then (Inr (), s)
        else if old_size < new_size then (Inl EINVAL, s)
        else if ext4_inode_is_type sb i EXT4_INODE_MODE_SOFTLINK \<and> old_size < 60 \<and> ext4_inode_get_blocks_count sb i = 0 then
          sbind (inode_edit (\<lambda>i.
                   Inr (ext4_inode_set_size
                          (i\<lparr> in_blocks := fst (get32s 15 (take (unat new_size) (enc32s (in_blocks i)) @
                                replicate (60 - unat new_size) 0)) \<rparr>) new_size)) s) (\<lambda>_ s. inode_mark s)
        else if ext4_inode_type sb i \<in> {EXT4_INODE_MODE_CHARDEV, EXT4_INODE_MODE_BLOCKDEV, EXT4_INODE_MODE_SOCKET} then
          sbind (inode_edit (\<lambda>i. rbind (ext4_inode_set_direct_block i 0 0) (\<lambda>i. ext4_inode_set_direct_block i 1 0)) s) (\<lambda>_ s.
          inode_mark s)
        else
          let block_size = ucast (ext4_sb_get_block_size sb);
              new_blocks_cnt = ucast ((new_size + block_size - 1) div block_size) :: u32;
              old_blocks_cnt = ucast ((old_size + block_size - 1) div block_size);
              diff = old_blocks_cnt - new_blocks_cnt
          in sbind (if inode_uses_extents sb i
                    then if diff = 0 then (Inr (), s) else ext4_extent_remove_space io new_blocks_cnt EXT_MAX_BLOCKS s
                    else release_range (unat diff) io new_blocks_cnt s) (\<lambda>_ s.
             sbind (inode_edit (\<lambda>i. Inr (ext4_inode_set_size i new_size)) s) (\<lambda>_ s. inode_mark s)))"

section \<open>The link count\<close>

definition EXT4_LINK_MAX :: u16 where "EXT4_LINK_MAX = 65000"

definition link_is_dx :: "ext4_sblock \<Rightarrow> ext4_inode \<Rightarrow> bool" where
  "link_is_dx sb i \<longleftrightarrow> ext4_sb_feature_com sb EXT4_FCOM_DIR_INDEX \<and> ext4_inode_has_flag i EXT4_INODE_FLAG_INDEX"

definition links_inc :: "ext4_sblock \<Rightarrow> ext4_inode \<Rightarrow> u16 \<times> bool" where
  "links_inc sb i =
     (let link = ext4_inode_get_links_cnt i + 1
      in if link_is_dx sb i \<and> link > 1 \<and> (link \<ge> EXT4_LINK_MAX \<or> link = 2) then (1, True) else (link, False))"

definition ext4_fs_inode_links_count_inc :: "'d istate \<Rightarrow> unit res \<times> 'd istate" where
  "ext4_fs_inode_links_count_inc s =
     sbind (sread is_inode s) (\<lambda>i s.
       case links_inc (fs_sb (fst s)) i of
         (link, many) \<Rightarrow>
           sbind (inode_edit (\<lambda>i. Inr (ext4_inode_set_links_cnt i link)) s) (\<lambda>_ s.
           (Inr (), if many
                    then ((fst s)\<lparr> fs_sb := (fs_sb (fst s))\<lparr> sb_features_read_only :=
                            sb_features_read_only (fs_sb (fst s)) OR EXT4_FRO_COM_DIR_NLINK \<rparr> \<rparr>, snd s)
                    else s)))"

definition links_dec :: "ext4_sblock \<Rightarrow> ext4_inode \<Rightarrow> u16" where
  "links_dec sb i =
     (let links = ext4_inode_get_links_cnt i
      in if \<not> ext4_inode_is_type sb i EXT4_INODE_MODE_DIRECTORY then (if links > 0 then links - 1 else links)
         else if links > 2 then links - 1 else links)"

definition ext4_fs_inode_links_count_dec :: "'d istate \<Rightarrow> unit res \<times> 'd istate" where
  "ext4_fs_inode_links_count_dec s =
     sbind (sread is_inode s) (\<lambda>i s. inode_edit (\<lambda>i. Inr (ext4_inode_set_links_cnt i (links_dec (fs_sb (fst s)) i))) s)"

end
