(* ===== verification/FsMapSpec.thy ===== *)
theory FsMapSpec
  imports FsMap VolumeOps ExtentLookup
begin

text \<open>
  The block map of an inode as a function: twelve direct pointers, three trees of pointer blocks, or an extent tree. The
  lookup of \<open>ext4_fs_get_inode_dblk_idx\<close> is that function, and its positions stay inside the pointer blocks.
\<close>

section \<open>Geometry of the pointer trees\<close>

text \<open>With \<open>n\<close> pointers in a block, the first block behind the trees of \<open>l\<close> levels.\<close>

fun map_base :: "nat \<Rightarrow> nat \<Rightarrow> nat" where
  "map_base n 0 = 12"
| "map_base n (Suc l) = map_base n l + n ^ Suc l"

lemma map_base_values: "map_base n 1 = 12 + n" "map_base n 2 = 12 + n + n * n" "map_base n 3 = 12 + n + n * n + n * n * n"
  by (simp_all add: numeral_2_eq_2 numeral_3_eq_3)

definition map_level :: "nat \<Rightarrow> nat \<Rightarrow> nat option" where
  "map_level n b = (if b < map_base n 1 then Some 1 else if b < map_base n 2 then Some 2 else if b < map_base n 3 then Some 3 else None)"

text \<open>The mounted file system has the limits of its block size.\<close>

definition map_geom :: "'d ext4_fs \<Rightarrow> nat \<Rightarrow> bool" where
  "map_geom fs n \<longleftrightarrow>
     256 \<le> n \<and> n \<le> 16384 \<and> (fs_inode_block_limits fs, fs_inode_blocks_per_level fs) = fs_block_limits (of_nat (4 * n))"

lemma map_geom_fields:
  assumes g: "map_geom fs n" and l: "l \<le> 3"
  shows "unat (ind_count fs l) = n ^ l" and "unat (ind_limit fs l) = map_base n l"
proof -
  let ?p = "of_nat n :: u64"
  have n: "256 \<le> n" "n \<le> 16384" using g by (simp_all add: map_geom_def)
  have "unat (of_nat (4 * n) :: u32) = 4 * n" using n by (simp add: unsigned_of_nat take_bit_nat_eq_self del: of_nat_mult)
  then have "unat (of_nat (4 * n) div 4 :: u32) = n" by (simp add: unat_div del: of_nat_mult)
  then have b: "ucast (of_nat (4 * n) div 4 :: u32) = ?p"
    using n by (simp add: word_unat_eq_iff unsigned_of_nat unsigned_ucast_eq take_bit_nat_eq_self del: of_nat_mult)
  have lim: "fs_inode_block_limits fs = [12, 12 + ?p, 12 + ?p + ?p * ?p, 12 + ?p + ?p * ?p + ?p * ?p * ?p]"
    and per: "fs_inode_blocks_per_level fs = [1, ?p, ?p * ?p, ?p * ?p * ?p]"
    using g by (simp_all add: map_geom_def fs_block_limits_def Let_def b EXT4_INODE_DIRECT_BLOCK_COUNT_def del: of_nat_mult)
  have p1: "unat ?p = n" using n by (simp add: unsigned_of_nat take_bit_nat_eq_self)
  have "n * n \<le> 16384 * 16384" using n by (intro mult_le_mono) simp_all
  then have p2: "unat (?p * ?p) = n * n" "n * n \<le> 2 ^ 28" using p1 by (simp_all add: unat_word_ariths)
  have "n * n * n \<le> 2 ^ 28 * 16384" using n p2(2) by (intro mult_le_mono) simp_all
  then have p3: "unat (?p * ?p * ?p) = n * n * n" "n * n * n \<le> 2 ^ 42" using p1 p2(1) by (simp_all add: unat_word_ariths)
  have c: "l = 0 \<or> l = 1 \<or> l = 2 \<or> l = 3" using l by linarith
  then show "unat (ind_count fs l) = n ^ l"
    using p1 p2(1) p3(1) by (auto simp: ind_count_def per power2_eq_square power3_eq_cube)
  have u1: "unat (12 + ?p) = 12 + n" using p1 n by (simp add: unat_word_ariths)
  have u2: "unat (12 + ?p + ?p * ?p) = 12 + n + n * n" using u1 p2 n by (simp only: unat_word_ariths u1) simp
  have u3: "unat (12 + ?p + ?p * ?p + ?p * ?p * ?p) = 12 + n + n * n + n * n * n"
    using u2 p3 p2(2) n by (simp only: unat_word_ariths u2) simp
  show "unat (ind_limit fs l) = map_base n l"
    using c by (elim disjE) (simp_all add: ind_limit_def lim map_base_values u1 u2 u3)
qed

lemma map_level_bounds:
  assumes "map_level n b = Some l" and "12 \<le> b"
  shows "0 < l" and "l \<le> 3" and "map_base n (l - 1) \<le> b" and "b < map_base n l" and "b - map_base n (l - 1) < n ^ l"
  using assms by (auto simp: map_level_def numeral_2_eq_2 numeral_3_eq_3 split: if_splits)

lemma ind_level_eq: "map_geom fs n \<Longrightarrow> ind_level fs b = map_level n (unat b)"
  using map_geom_fields(2) [of fs n]
  by (simp add: ind_level_def map_level_def word_less_nat_alt unsigned_ucast_eq take_bit_nat_eq_self unsigned_less [THEN order.strict_trans2])

lemma ind_off_eq:
  assumes g: "map_geom fs n" and l: "l \<le> 3" and b: "map_base n l \<le> unat b"
  shows "unat (ucast (ucast (b :: u32) - ind_limit fs l) :: u32) = unat b - map_base n l"
proof -
  have ub: "unat (ucast b :: u64) = unat b"
    by (simp add: unsigned_ucast_eq take_bit_nat_eq_self unsigned_less [THEN order.strict_trans2])
  have "ind_limit fs l \<le> ucast b" using map_geom_fields(2) [OF g l] b ub by (simp add: word_le_nat_alt)
  then have "unat (ucast b - ind_limit fs l) = unat b - map_base n l" using map_geom_fields(2) [OF g l] ub by (simp add: unat_sub)
  moreover have "unat b < 2 ^ 32" using unsigned_less [of b] by simp
  ultimately show ?thesis by (simp add: unsigned_ucast_eq take_bit_nat_eq_self)
qed

lemma ind_pos_eq:
  assumes g: "map_geom fs n" and l: "l \<le> 3"
  shows "unat (ind_pos fs l off) = unat off div n ^ l" and "unat (ind_next fs l off) = unat off mod n ^ l"
proof -
  have u: "unat (ucast off :: u64) = unat off"
    by (simp add: unsigned_ucast_eq take_bit_nat_eq_self unsigned_less [THEN order.strict_trans2])
  have lt: "unat off < 2 ^ 32" using unsigned_less [of off] by simp
  have "unat off div n ^ l \<le> unat off" "unat off mod n ^ l \<le> unat off" by simp_all
  then have "unat off div n ^ l < 2 ^ 32" "unat off mod n ^ l < 2 ^ 32" using lt by linarith+
  moreover have "unat (ucast off div ind_count fs l) = unat off div n ^ l" "unat (ucast off mod ind_count fs l) = unat off mod n ^ l"
    by (simp_all only: unat_div unat_mod u map_geom_fields(1) [OF g l])
  ultimately show "unat (ind_pos fs l off) = unat off div n ^ l" "unat (ind_next fs l off) = unat off mod n ^ l"
    by (simp_all only: ind_pos_def ind_next_def unsigned_ucast_eq take_bit_nat_eq_self len_num1 len_bit0 len_num0 mult_1_right) (simp_all add: take_bit_nat_eq_self)
qed

section \<open>The map\<close>

definition ind_nth :: "u8 list \<Rightarrow> nat \<Rightarrow> u32" where "ind_nth d k = fst (get32 (take 4 (drop (4 * k) d)))"

text \<open>Down one tree; 0 is a hole.\<close>

fun ind_find :: "(u64 \<Rightarrow> u8 list) \<Rightarrow> nat \<Rightarrow> nat \<Rightarrow> u64 \<Rightarrow> nat \<Rightarrow> u64" where
  "ind_find V n 0 cur off = cur"
| "ind_find V n (Suc l) cur off =
     (let e = ind_nth (V cur) (off div n ^ l) in if e = 0 then 0 else ind_find V n l (ucast e) (off mod n ^ l))"

text \<open>The blocks of pointers are among the blocks \<open>ok\<close>.\<close>

fun ind_tree :: "(u64 \<Rightarrow> u8 list) \<Rightarrow> nat \<Rightarrow> u64 set \<Rightarrow> nat \<Rightarrow> u64 \<Rightarrow> bool" where
  "ind_tree V n ok 0 cur \<longleftrightarrow> True"
| "ind_tree V n ok (Suc l) cur \<longleftrightarrow>
     cur \<in> ok \<and> (\<forall>k < n. ind_nth (V cur) k \<noteq> 0 \<longrightarrow> ind_tree V n ok l (ucast (ind_nth (V cur) k)))"

definition pointer_block :: "(u64 \<Rightarrow> u8 list) \<Rightarrow> nat \<Rightarrow> ext4_inode \<Rightarrow> nat \<Rightarrow> u64 res" where
  "pointer_block V n i b =
     (if b < 12 then Inr (ucast (in_blocks i ! b))
      else case map_level n b of
             None \<Rightarrow> Inl EIO
           | Some l \<Rightarrow>
               let top = in_blocks i ! (11 + l)
               in Inr (if top = 0 then 0 else ind_find V n l (ucast top) (b - map_base n (l - 1))))"

definition pointers_in :: "ext4_sblock \<Rightarrow> ext4_inode_ref \<Rightarrow> u64 \<Rightarrow> ext4_inode \<Rightarrow> nat \<Rightarrow> u64 set \<Rightarrow> store \<Rightarrow> bool" where
  "pointers_in sb ir li i n ok s \<longleftrightarrow>
     inode_held sb ir li i s \<and> tree_nodes s ok \<and> ok \<inter> st_pend s = {} \<and> st_bsize s = 4 * n \<and>
     (\<forall>l. 0 < l \<and> l \<le> 3 \<and> in_blocks i ! (11 + l) \<noteq> 0 \<longrightarrow> ind_tree (st_view s) n ok l (ucast (in_blocks i ! (11 + l))))"

context block_reader begin

lemma dblk_walk_ok:
  assumes g: "map_geom fs0 n"
  shows "fs_at rep fs0 s fs \<Longrightarrow> tree_nodes s ok \<Longrightarrow> ok \<inter> st_pend s = {} \<Longrightarrow> st_bsize s = 4 * n \<Longrightarrow> ind_tree (st_view s) n ok l cur \<Longrightarrow>
    unat off < n ^ l \<Longrightarrow> l \<le> 3 \<Longrightarrow> l \<le> st_room s \<Longrightarrow>
    \<exists>fs' r. dblk_walk l io cur off fs = (Inr (ind_find (st_view s) n l cur (unat off)), fs') \<and> r \<le> l \<and>
      fs_at rep fs0 (s\<lparr> st_room := st_room s - r \<rparr>) fs'"
proof (induction l arbitrary: cur off fs s)
  case 0
  then show ?case by (intro exI [of _ fs] exI [of _ 0]) simp
next
  case (Suc l)
  let ?V = "st_view s" let ?k = "unat off div n ^ l" let ?e = "ind_nth (?V cur) ?k"
  have c: "cur \<in> ok" "cur \<noteq> 0" "cur < st_cnt s" "cur \<notin> st_pend s" using Suc.prems(2,3,5) by (auto simp: tree_nodes_def)
  have np: "0 < n ^ l" using g by (simp add: map_geom_def)
  have k: "?k < n" using Suc.prems(6) by (simp add: less_mult_imp_div_less mult.commute)
  have l: "l \<le> 3" "st_room s \<noteq> 0" using Suc.prems(7,8) by simp_all
  from get_eq [OF Suc.prems(1) c(3) l(2)] obtain fs1 where f1: "fs_block_get io cur fs = (Inr (blk cur), fs1)"
    "fs_at rep fs0 (st_get cur s) fs1" by blast
  let ?s = "st_get cur s"
  have r1: "st_refs ?s cur \<noteq> 0" by (simp add: store_simps)
  have g1: "ind_pos fs1 = ind_pos fs0" "ind_next fs1 = ind_next fs0"
    using f1(2) by (auto simp: fs_at_def ind_pos_def ind_next_def ind_count_def fun_eq_iff)
  have d1: "fs_data (blk cur) fs1 = Inr (?V cur)" using fs_data_eq [OF f1(2) r1] by (simp add: store_simps)
  have "length (?V cur) = 4 * n" using held_length [OF f1(2) r1] Suc.prems(4) by (simp add: store_simps)
  then have e1: "ind_entry (blk cur) (ind_pos fs0 l off) fs1 = Inr ?e"
    using d1 k ind_pos_eq(1) [OF g l(1), of off] by (simp add: ind_entry_def rd_range_def ind_nth_def)
  have "cur \<notin> st_pend ?s" using c(4) by (simp add: store_simps)
  from set_eq [OF f1(2) r1 c(2) this] obtain fs2 where f2: "fs_block_set io (blk cur) fs1 = (Inr (), fs2)"
    "fs_at rep fs0 (st_set cur ?s) fs2" by blast
  let ?s2 = "s\<lparr> st_room := st_room s - 1 \<rparr>"
  have s2: "st_set cur ?s = ?s2" by (rule store.equality) (auto simp: st_set_def st_get_def)
  have g2: "ind_next fs2 = ind_next fs0"
    using f2(2) by (auto simp: fs_at_def ind_next_def ind_count_def fun_eq_iff)
  have run: "dblk_walk (Suc l) io cur off fs =
      (if ?e = 0 then (Inr 0, fs2) else dblk_walk l io (ucast ?e) (ind_next fs0 l off) fs2)"
    using f1(1) e1 f2(1) by (simp add: sread_def g1 g2)
  show ?case
  proof (cases "?e = 0")
    case True
    then show ?thesis using run f2(2) unfolding s2
      by (intro exI [of _ fs2] exI [of _ 1]) (simp add: Let_def)
  next
    case False
    have "ind_tree ?V n ok l (ucast ?e)" using Suc.prems(5) k False by simp
    then have "ind_tree (st_view ?s2) n ok l (ucast ?e)" "tree_nodes ?s2 ok" "ok \<inter> st_pend ?s2 = {}" "st_bsize ?s2 = 4 * n" "l \<le> st_room ?s2"
      using Suc.prems(2,3,4,8) by (simp_all add: tree_nodes_def)
    moreover have "unat (ind_next fs0 l off) < n ^ l" using ind_pos_eq(2) [OF g l(1), of off] np by simp
    ultimately obtain fs' r where w: "dblk_walk l io (ucast ?e) (ind_next fs0 l off) fs2 =
        (Inr (ind_find (st_view ?s2) n l (ucast ?e) (unat (ind_next fs0 l off))), fs')" "r \<le> l"
        "fs_at rep fs0 (?s2\<lparr> st_room := st_room ?s2 - r \<rparr>) fs'"
      using Suc.IH [OF f2(2) [unfolded s2], of "ucast ?e" "ind_next fs0 l off"] l(1) by blast
    then show ?thesis using run False ind_pos_eq(2) [OF g l(1), of off]
      by (intro exI [of _ fs'] exI [of _ "Suc r"]) (simp add: Let_def)
  qed
qed

lemma pointer_lookup_ok:
  assumes a: "fs_at rep fs0 s fs" and g: "map_geom fs0 n" and p: "pointers_in (fs_sb fs0) ir li i n ok s" and room: "3 \<le> st_room s"
  shows "\<exists>fs' r. dblk_indirect io b (fs, ir) = (pointer_block (st_view s) n i (unat b), fs', ir) \<and> r \<le> 3 \<and>
    fs_at rep fs0 (s\<lparr> st_room := st_room s - r \<rparr>) fs'"
proof -
  have ih: "inode_held (fs_sb fs0) ir li i s" and ok: "tree_nodes s ok" "ok \<inter> st_pend s = {}" "st_bsize s = 4 * n"
    using p by (simp_all add: pointers_in_def)
  have i: "is_inode (fs, ir) = Inr i" by (rule inode_eq [OF a ih])
  have n15: "length (in_blocks i) = 15" using ih inode_at_fits by (auto simp: inode_held_def)
  have gf: "map_geom fs n" using g a by (auto simp: map_geom_def fs_at_def)
  have here: "\<exists>fs' r. (v, fs, ir) = (v, fs', ir) \<and> r \<le> 3 \<and> fs_at rep fs0 (s\<lparr> st_room := st_room s - r \<rparr>) fs'" for v :: "u64 res"
    using a by (intro exI [of _ fs] exI [of _ 0]) simp
  show ?thesis
  proof (cases "unat b < 12")
    case True
    then have "b < 12" by (simp add: word_less_nat_alt)
    then show ?thesis using i True n15 here
      by (simp add: dblk_indirect_def sread_def EXT4_INODE_DIRECT_BLOCK_COUNT_def ext4_inode_get_direct_block_def pointer_block_def)
  next
    case False
    then have nb: "\<not> b < 12" by (simp add: word_less_nat_alt)
    show ?thesis
    proof (cases "map_level n (unat b)")
      case None
      then show ?thesis using i nb False here ind_level_eq [OF gf, of b]
        by (simp add: dblk_indirect_def sread_def EXT4_INODE_DIRECT_BLOCK_COUNT_def pointer_block_def)
    next
      case (Some l)
      have b12: "12 \<le> unat b" using False by simp
      note lb = map_level_bounds [OF Some b12]
      let ?top = "in_blocks i ! (11 + l)"
      have top: "ext4_inode_get_indirect_block i (l - 1) = Inr ?top"
        using n15 lb(1,2) by (simp add: ext4_inode_get_indirect_block_def ext4_inode_get_direct_block_def EXT4_INODE_INDIRECT_BLOCK_def)
      have run: "dblk_indirect io b (fs, ir) = (if ?top = 0 then (Inr 0, fs, ir)
          else on_fs (\<lambda>fs. dblk_walk l io (ucast ?top) (ucast (ucast b - ind_limit fs (l - 1))) fs) (fs, ir))"
        using i nb Some ind_level_eq [OF gf, of b] top
        by (simp add: dblk_indirect_def sread_def EXT4_INODE_DIRECT_BLOCK_COUNT_def)
      show ?thesis
      proof (cases "?top = 0")
        case True
        then show ?thesis using run here False Some by (simp add: pointer_block_def)
      next
        case False
        have t: "ind_tree (st_view s) n ok l (ucast ?top)" using p lb(1,2) False by (simp add: pointers_in_def)
        let ?off = "ucast (ucast b - ind_limit fs (l - 1)) :: u32"
        have l1: "l - 1 \<le> 3" using lb(2) by simp
        have off: "unat ?off = unat b - map_base n (l - 1)" by (rule ind_off_eq [OF gf l1 lb(3)])
        have "unat ?off < n ^ l" "l \<le> st_room s" using off lb room by simp_all
        from dblk_walk_ok [OF g a ok t this(1) lb(2) this(2)] obtain fs' r where
          "dblk_walk l io (ucast ?top) ?off fs = (Inr (ind_find (st_view s) n l (ucast ?top) (unat ?off)), fs')" "r \<le> l"
          "fs_at rep fs0 (s\<lparr> st_room := st_room s - r \<rparr>) fs'" by blast
        then show ?thesis using run False Some \<open>\<not> unat b < 12\<close> lb(2) off
          by (intro exI [of _ fs'] exI [of _ r]) (simp add: on_fs_def pointer_block_def)
      qed
    qed
  qed
qed

end

end
