(* ===== verification/FsTrees.thy ===== *)
theory FsTrees
  imports FsMapSpec
begin

text \<open>
  Clearing one pointer in the trees of pointer blocks, when every pointer block belongs to one place only: the block it
  stood for becomes a hole and no other block moves.
\<close>

section \<open>Separated trees\<close>

definition ind_kids :: "u8 list \<Rightarrow> nat \<Rightarrow> nat set" where "ind_kids d n = {k. k < n \<and> ind_nth d k \<noteq> 0}"
definition ind_kid :: "u8 list \<Rightarrow> nat \<Rightarrow> u64" where "ind_kid d k = ucast (ind_nth d k)"

fun ind_blocks :: "(u64 \<Rightarrow> u8 list) \<Rightarrow> nat \<Rightarrow> nat \<Rightarrow> u64 \<Rightarrow> u64 set" where
  "ind_blocks V n 0 cur = {}"
| "ind_blocks V n (Suc l) cur = insert cur (\<Union>k \<in> ind_kids (V cur) n. ind_blocks V n l (ind_kid (V cur) k))"

fun ind_sep :: "(u64 \<Rightarrow> u8 list) \<Rightarrow> nat \<Rightarrow> nat \<Rightarrow> u64 \<Rightarrow> bool" where
  "ind_sep V n 0 cur \<longleftrightarrow> True"
| "ind_sep V n (Suc l) cur \<longleftrightarrow>
     (\<forall>k \<in> ind_kids (V cur) n. cur \<notin> ind_blocks V n l (ind_kid (V cur) k) \<and> ind_sep V n l (ind_kid (V cur) k)) \<and>
     (\<forall>k \<in> ind_kids (V cur) n. \<forall>j \<in> ind_kids (V cur) n.
        k \<noteq> j \<longrightarrow> ind_blocks V n l (ind_kid (V cur) k) \<inter> ind_blocks V n l (ind_kid (V cur) j) = {})"

text \<open>A change elsewhere changes nothing.\<close>

lemma ind_frame:
  "(\<And>x. x \<in> ind_blocks V n l cur \<Longrightarrow> V' x = V x) \<Longrightarrow>
   ind_blocks V' n l cur = ind_blocks V n l cur \<and> ind_sep V' n l cur = ind_sep V n l cur \<and>
   (off < n ^ l \<longrightarrow> ind_find V' n l cur off = ind_find V n l cur off)"
proof (induction l arbitrary: cur off)
  case (Suc l)
  have c: "V' cur = V cur" by (rule Suc.prems) simp
  have kid: "ind_blocks V' n l (ind_kid (V cur) k) = ind_blocks V n l (ind_kid (V cur) k)"
      "ind_sep V' n l (ind_kid (V cur) k) = ind_sep V n l (ind_kid (V cur) k)"
      "off' < n ^ l \<Longrightarrow> ind_find V' n l (ind_kid (V cur) k) off' = ind_find V n l (ind_kid (V cur) k) off'"
    if "k \<in> ind_kids (V cur) n" for k off'
    using Suc.IH [of "ind_kid (V cur) k" off'] Suc.prems that by auto
  have b: "ind_blocks V' n (Suc l) cur = ind_blocks V n (Suc l) cur" using kid(1) by (simp add: c)
  have s: "ind_sep V' n (Suc l) cur = ind_sep V n (Suc l) cur" using kid(1,2) by (simp add: c)
  have "ind_find V' n (Suc l) cur off = ind_find V n (Suc l) cur off" if o: "off < n ^ Suc l"
  proof -
    let ?k = "off div n ^ l"
    have "?k < n" using o by (simp add: less_mult_imp_div_less mult.commute)
    moreover have "off mod n ^ l < n ^ l" using o by (cases "n = 0") simp_all
    ultimately show ?thesis using kid(3) [of ?k "off mod n ^ l"] by (auto simp: c Let_def ind_kids_def ind_kid_def)
  qed
  with b s show ?case by blast
qed simp

lemma ind_tree_blocks: "ind_tree V n ok l cur \<longleftrightarrow> ind_blocks V n l cur \<subseteq> ok"
proof (induction l arbitrary: cur)
  case (Suc l)
  show ?case by (auto simp: Suc ind_kids_def ind_kid_def)
qed simp

section \<open>Clearing a pointer\<close>

fun ind_clr :: "(u64 \<Rightarrow> u8 list) \<Rightarrow> nat \<Rightarrow> nat \<Rightarrow> u64 \<Rightarrow> nat \<Rightarrow> u64 \<Rightarrow> u8 list" where
  "ind_clr V n 0 cur off = V"
| "ind_clr V n (Suc l) cur off =
     (if l = 0 then V(cur := patch (V cur) (4 * off) (enc32 0))
      else let k = off div n ^ l
           in if ind_nth (V cur) k = 0 then V else ind_clr V n l (ind_kid (V cur) k) (off mod n ^ l))"

lemma ind_nth_patch:
  assumes "length d = 4 * n" and "k < n" and "j < n"
  shows "ind_nth (patch d (4 * k) (enc32 v)) j = (if j = k then v else ind_nth d j)"
proof (cases "j = k")
  case True
  have "rd_range (patch d (4 * k) (enc32 v)) (4 * k) 4 = Inr (enc32 v)" using assms by (simp add: rd_patch)
  then have "take 4 (drop (4 * k) (patch d (4 * k) (enc32 v))) = enc32 v" by (simp add: rd_range_def split: if_splits)
  then show ?thesis using True by (simp add: ind_nth_def)
next
  case False
  then have "4 * j + 4 \<le> 4 * k \<or> 4 * k + length (enc32 v) \<le> 4 * j" by auto
  from rd_patch_other [OF _ this, of d] assms False show ?thesis by (simp add: rd_range_def ind_nth_def)
qed

text \<open>What clearing does to one tree.\<close>

lemma ind_clr_outside: "x \<notin> ind_blocks V n l cur \<Longrightarrow> off < n ^ l \<Longrightarrow> ind_clr V n l cur off x = V x"
proof (induction l arbitrary: cur off)
  case (Suc l)
  let ?k = "off div n ^ l"
  have k: "?k < n" using Suc.prems(2) by (simp add: less_mult_imp_div_less mult.commute)
  have m: "off mod n ^ l < n ^ l" using Suc.prems(2) by (cases "n = 0") simp_all
  show ?case
  proof (cases "l = 0 \<or> ind_nth (V cur) ?k = 0")
    case False
    then have "x \<notin> ind_blocks V n l (ind_kid (V cur) ?k)" using Suc.prems(1) k by (auto simp: ind_kids_def)
    from Suc.IH [OF this m] False show ?thesis by (simp add: Let_def)
  qed (use Suc.prems(1) in \<open>auto simp: Let_def\<close>)
qed simp

lemma ind_clr_ok:
  "ind_sep V n l cur \<Longrightarrow> (\<And>x. x \<in> ind_blocks V n l cur \<Longrightarrow> length (V x) = 4 * n) \<Longrightarrow> off < n ^ l \<Longrightarrow> 0 < l \<Longrightarrow>
   ind_blocks (ind_clr V n l cur off) n l cur = ind_blocks V n l cur \<and> ind_sep (ind_clr V n l cur off) n l cur \<and>
   (\<forall>x. length (ind_clr V n l cur off x) = length (V x)) \<and>
   (\<forall>o'. o' < n ^ l \<longrightarrow> ind_find (ind_clr V n l cur off) n l cur o' = (if o' = off then 0 else ind_find V n l cur o'))"
proof (induction l arbitrary: cur off)
  case (Suc l)
  let ?k = "off div n ^ l" and ?V = "ind_clr V n (Suc l) cur off"
  have k: "?k < n" using Suc.prems(3) by (simp add: less_mult_imp_div_less mult.commute)
  have np: "0 < n" using k by simp
  have len: "length (V cur) = 4 * n" by (rule Suc.prems(2)) simp
  show ?case
  proof (cases "l = 0")
    case True
    have o: "off < n" using Suc.prems(3) True by simp
    have V: "?V = V(cur := patch (V cur) (4 * off) (enc32 0))" using True by simp
    have nth: "ind_nth (?V cur) j = (if j = off then 0 else ind_nth (V cur) j)" if "j < n" for j
      unfolding V using ind_nth_patch [OF len o that] by simp
    have l1: "\<forall>x. length (?V x) = length (V x)" unfolding V using len o by simp
    show ?thesis using True l1 nth by (auto simp: Let_def)
  next
    case False
    then obtain l' where l': "l = Suc l'" by (cases l) auto
    have m: "off mod n ^ l < n ^ l" using np by simp
    show ?thesis
    proof (cases "ind_nth (V cur) ?k = 0")
      case True
      then have V: "?V = V" using False by (simp add: Let_def)
      have "ind_find V n (Suc l) cur off = 0" using True by (simp add: Let_def)
      then show ?thesis unfolding V using Suc.prems(1) by simp
    next
      case nz: False
      let ?e = "ind_kid (V cur) ?k" and ?m = "off mod n ^ l"
      have kk: "?k \<in> ind_kids (V cur) n" using nz k by (simp add: ind_kids_def)
      have V: "?V = ind_clr V n l ?e ?m" using False nz by (simp add: Let_def)
      have sep: "ind_sep V n l ?e" and own: "cur \<notin> ind_blocks V n l ?e" using Suc.prems(1) kk by auto
      have inb: "x \<in> ind_blocks V n l ?e \<Longrightarrow> length (V x) = 4 * n" for x using Suc.prems(2) kk by auto
      have ih: "ind_blocks ?V n l ?e = ind_blocks V n l ?e" "ind_sep ?V n l ?e" "\<forall>x. length (?V x) = length (V x)"
          "\<And>o'. o' < n ^ l \<Longrightarrow> ind_find ?V n l ?e o' = (if o' = ?m then 0 else ind_find V n l ?e o')"
        unfolding V using Suc.IH [OF sep inb m] l' by blast+
      have cur: "?V cur = V cur" unfolding V by (rule ind_clr_outside [OF own m])
      have other: "ind_blocks ?V n l (ind_kid (V cur) j) = ind_blocks V n l (ind_kid (V cur) j)"
          "ind_sep ?V n l (ind_kid (V cur) j) = ind_sep V n l (ind_kid (V cur) j)"
          "o' < n ^ l \<Longrightarrow> ind_find ?V n l (ind_kid (V cur) j) o' = ind_find V n l (ind_kid (V cur) j) o'"
        if j: "j \<in> ind_kids (V cur) n" "j \<noteq> ?k" for j o'
      proof -
        have "ind_blocks V n l (ind_kid (V cur) j) \<inter> ind_blocks V n l ?e = {}" using Suc.prems(1) j kk by simp
        then have "?V x = V x" if "x \<in> ind_blocks V n l (ind_kid (V cur) j)" for x
          unfolding V using ind_clr_outside [OF _ m] that by blast
        from ind_frame [where V = V and V' = "?V" and n = n and l = l and cur = "ind_kid (V cur) j" and off = o', OF this] show "ind_blocks ?V n l (ind_kid (V cur) j) = ind_blocks V n l (ind_kid (V cur) j)"
          "ind_sep ?V n l (ind_kid (V cur) j) = ind_sep V n l (ind_kid (V cur) j)"
          "o' < n ^ l \<Longrightarrow> ind_find ?V n l (ind_kid (V cur) j) o' = ind_find V n l (ind_kid (V cur) j) o'" by blast+
      qed
      have blocks: "ind_blocks ?V n l (ind_kid (V cur) j) = ind_blocks V n l (ind_kid (V cur) j)" if "j \<in> ind_kids (V cur) n" for j
        using other(1) [OF that] ih(1) by (cases "j = ?k") simp_all
      have seps: "ind_sep ?V n l (ind_kid (V cur) j)" if "j \<in> ind_kids (V cur) n" for j
        using other(2) [OF that] ih(2) Suc.prems(1) that by (cases "j = ?k") simp_all
      have b: "ind_blocks ?V n (Suc l) cur = ind_blocks V n (Suc l) cur"
        unfolding ind_blocks.simps cur using blocks by simp
      have s: "ind_sep ?V n (Suc l) cur"
        unfolding ind_sep.simps cur using blocks seps Suc.prems(1) by simp
      have f: "ind_find ?V n (Suc l) cur o' = (if o' = off then 0 else ind_find V n (Suc l) cur o')" if o': "o' < n ^ Suc l" for o'
      proof -
        let ?j = "o' div n ^ l"
        have j: "?j < n" using o' by (simp add: less_mult_imp_div_less mult.commute)
        have mj: "o' mod n ^ l < n ^ l" using np by simp
        have same: "o' = off \<longleftrightarrow> ?j = ?k \<and> o' mod n ^ l = ?m" by (metis div_mult_mod_eq)
        show ?thesis
        proof (cases "ind_nth (V cur) ?j = 0")
          case True
          then have "o' \<noteq> off" using nz same by auto
          then show ?thesis using True cur by (simp add: Let_def)
        next
          case False
          then have jj: "?j \<in> ind_kids (V cur) n" using j by (simp add: ind_kids_def)
          have "ind_find ?V n (Suc l) cur o' = ind_find ?V n l (ind_kid (V cur) ?j) (o' mod n ^ l)"
            unfolding ind_find.simps cur using False by (simp add: Let_def ind_kid_def)
          moreover have "ind_find V n (Suc l) cur o' = ind_find V n l (ind_kid (V cur) ?j) (o' mod n ^ l)"
            using False by (simp add: Let_def ind_kid_def)
          ultimately show ?thesis
            using other(3) [OF jj _ mj] ih(4) [OF mj] same by (cases "?j = ?k") simp_all
        qed
      qed
      show ?thesis using b s ih(3) f by blast
    qed
  qed
qed simp

section \<open>The walk that clears\<close>

lemma fs_at_ind: "fs_at rep fs0 s fs \<Longrightarrow> ind_pos fs = ind_pos fs0 \<and> ind_next fs = ind_next fs0 \<and> ind_limit fs = ind_limit fs0"
  by (auto simp: fs_at_def ind_pos_def ind_next_def ind_count_def ind_limit_def fun_eq_iff)

context tree_store begin

lemma ind_put_ok:
  assumes a: "fs_at rep fs0 s fs" and r: "st_refs s l \<noteq> 0" and p: "l \<notin> st_pend s" and n: "st_bsize s = 4 * n" and k: "unat k < n"
  shows "\<exists>fs'. ind_put (blk l) k v fs = (Inr (), fs') \<and>
    fs_at rep fs0 (s\<lparr> st_view := (st_view s)(l := patch (st_view s l) (4 * unat k) (enc32 v)) \<rparr>) fs'"
proof -
  let ?d = "patch (st_view s l) (4 * unat k) (enc32 v)"
  have len: "length (st_view s l) = 4 * n" using held_length [OF a r] n by simp
  then have w: "wr_range (st_view s l) (4 * unat k) (enc32 v) = Inr ?d" and ld: "length ?d = st_bsize s"
    using k n by (simp_all add: wr_range_patch)
  have s: "st_dirty l (st_edit l ?d s) = s\<lparr> st_view := (st_view s)(l := ?d) \<rparr>"
    using p by (simp add: st_dirty_def st_edit_def)
  have "succeeds (ind_put (blk l) k v fs) (\<lambda>_ fs'. fs_at rep fs0 (s\<lparr> st_view := (st_view s)(l := ?d) \<rparr>) fs')"
    unfolding ind_put_def fs_data_eq [OF a r] rbind_simps w
  proof (simp, rule fs_store_rule [OF a r ld])
    fix fs' assume f: "fs_at rep fs0 (st_edit l ?d s) fs'"
    have "st_refs (st_edit l ?d s) l \<noteq> 0" using r by (simp add: store_simps)
    then show "succeeds (fs_set_dirty (blk l) fs') (\<lambda>_ fs'. fs_at rep fs0 (s\<lparr> st_view := (st_view s)(l := ?d) \<rparr>) fs')"
      by (rule fs_dirty_rule [OF f]) (simp only: s)
  qed
  then show ?thesis by (auto simp: succeeds_def split: prod.splits sum.splits)
qed

lemma release_walk_ok:
  assumes g: "map_geom fs0 n"
  shows "fs_at rep fs0 s fs \<Longrightarrow> tree_nodes s ok \<Longrightarrow> ok \<inter> st_pend s = {} \<Longrightarrow> st_bsize s = 4 * n \<Longrightarrow> ind_tree (st_view s) n ok l cur \<Longrightarrow>
    unat off < n ^ l \<Longrightarrow> l \<le> 3 \<Longrightarrow> l \<le> st_room s \<Longrightarrow> (l = 0 \<longrightarrow> cur \<noteq> 0) \<Longrightarrow>
    \<exists>fs' r. release_walk l io cur off fs = (Inr (ind_find (st_view s) n l cur (unat off)), fs') \<and> r \<le> l \<and>
      fs_at rep fs0 (s\<lparr> st_view := ind_clr (st_view s) n l cur (unat off), st_room := st_room s - r \<rparr>) fs'"
proof (induction l arbitrary: cur off fs s)
  case 0
  then show ?case by (intro exI [of _ fs] exI [of _ 0]) simp
next
  case (Suc l)
  let ?V = "st_view s" let ?k = "unat off div n ^ l" let ?e = "ind_nth (?V cur) ?k"
  have c: "cur \<in> ok" "cur \<noteq> 0" "cur < st_cnt s" "cur \<notin> st_pend s" using Suc.prems(2,3,5) by (auto simp: tree_nodes_def)
  have np: "0 < n ^ l" using g by (simp add: map_geom_def)
  have k: "?k < n" using Suc.prems(6) by (simp add: less_mult_imp_div_less mult.commute)
  have l: "l \<le> 3" "st_room s \<noteq> 0" using Suc.prems(7,8) by simp_all
  note pos = ind_pos_eq [OF g l(1), of off]
  from get_eq [OF Suc.prems(1) c(3) l(2)] obtain fs1 where f1: "fs_block_get io cur fs = (Inr (blk cur), fs1)"
    "fs_at rep fs0 (st_get cur s) fs1" by blast
  let ?s = "st_get cur s"
  have r1: "st_refs ?s cur \<noteq> 0" by (simp add: store_simps)
  have d1: "fs_data (blk cur) fs1 = Inr (?V cur)" using fs_data_eq [OF f1(2) r1] by (simp add: store_simps)
  have len: "length (?V cur) = 4 * n" using held_length [OF f1(2) r1] Suc.prems(4) by (simp add: store_simps)
  then have e1: "ind_entry (blk cur) (ind_pos fs0 l off) fs1 = Inr ?e"
    using d1 k pos(1) by (simp add: ind_entry_def rd_range_def ind_nth_def)
  have gp: "ind_pos fs = ind_pos fs0" "ind_pos fs1 = ind_pos fs0" using fs_at_ind [OF Suc.prems(1)] fs_at_ind [OF f1(2)] by simp_all
  let ?V1 = "if l = 0 then ?V(cur := patch (?V cur) (4 * ?k) (enc32 0)) else ?V"
  have "\<exists>fs2. (if l = 0 then ind_put (blk cur) (ind_pos fs0 l off) 0 fs1 else (Inr (), fs1)) = (Inr (), fs2) \<and>
      fs_at rep fs0 (?s\<lparr> st_view := ?V1 \<rparr>) fs2"
  proof (cases "l = 0")
    case True
    have "cur \<notin> st_pend ?s" "st_bsize ?s = 4 * n" "unat (ind_pos fs0 l off) < n" using c(4) Suc.prems(4) k pos(1) by (simp_all add: store_simps)
    from ind_put_ok [OF f1(2) r1 this, of 0] show ?thesis using True pos(1) by (simp add: store_simps)
  next
    case False
    then show ?thesis using f1(2) by (simp add: store_simps) (metis (no_types, lifting) st_simps(1) store.surjective store.update_convs(1))
  qed
  then obtain fs2 where f2: "(if l = 0 then ind_put (blk cur) (ind_pos fs0 l off) 0 fs1 else (Inr (), fs1)) = (Inr (), fs2)"
    "fs_at rep fs0 (?s\<lparr> st_view := ?V1 \<rparr>) fs2" by blast
  have "st_refs (?s\<lparr> st_view := ?V1 \<rparr>) cur \<noteq> 0" "cur \<notin> st_pend (?s\<lparr> st_view := ?V1 \<rparr>)" using r1 c(4) by (simp_all add: store_simps)
  from set_eq [OF f2(2) this(1) c(2) this(2)] obtain fs3 where f3: "fs_block_set io (blk cur) fs2 = (Inr (), fs3)"
    "fs_at rep fs0 (st_set cur (?s\<lparr> st_view := ?V1 \<rparr>)) fs3" by blast
  let ?s3 = "s\<lparr> st_view := ?V1, st_room := st_room s - 1 \<rparr>"
  have s3: "st_set cur (?s\<lparr> st_view := ?V1 \<rparr>) = ?s3" by (rule store.equality) (auto simp: st_set_def st_get_def)
  have gn: "ind_next fs3 = ind_next fs0" using fs_at_ind [OF f3(2)] by simp
  have run: "release_walk (Suc l) io cur off fs = release_walk l io (ucast ?e) (ind_next fs0 l off) fs3"
  proof -
    have "release_walk (Suc l) io cur off fs =
        sbind (if l = 0 then ind_put (blk cur) (ind_pos fs0 l off) 0 fs1 else (Inr (), fs1)) (\<lambda>_ fs.
        sbind (fs_block_set io (blk cur) fs) (\<lambda>_ fs. release_walk l io (ucast ?e) (ind_next fs l off) fs))"
      using f1(1) e1 c(2) by (simp add: sread_def gp Let_def del: if_split)
    then show ?thesis unfolding f2(1) using f3(1) by (simp add: gn)
  qed
  show ?case
  proof (cases "?e = 0")
    case True
    have "release_walk l io (ucast ?e) (ind_next fs0 l off) fs3 = (Inr 0, fs3)" using True by (cases l) simp_all
    moreover have "?V1 = ind_clr ?V n (Suc l) cur (unat off)" using True by (auto simp: Let_def)
    ultimately show ?thesis using run f3(2) True unfolding s3
      by (intro exI [of _ fs3] exI [of _ 1]) (simp add: Let_def)
  next
    case False
    show ?thesis
    proof (cases "l = 0")
      case True
      have "release_walk l io (ucast ?e) (ind_next fs0 l off) fs3 = (Inr (ucast ?e), fs3)" using True by simp
      moreover have "ind_find ?V n (Suc l) cur (unat off) = ucast ?e" using True False by (simp add: Let_def)
      moreover have "ind_clr ?V n (Suc l) cur (unat off) = ?V1" using True by simp
      moreover have "fs_at rep fs0 (s\<lparr> st_view := ?V1, st_room := st_room s - 1 \<rparr>) fs3" using f3(2) unfolding s3 .
      ultimately show ?thesis using run True by (intro exI [of _ fs3] exI [of _ 1]) (simp only: simp_thms le_numeral_extra Suc_leI One_nat_def zero_less_Suc)
    next
      case nz: False
      then have s3': "?s3 = s\<lparr> st_room := st_room s - 1 \<rparr>" by simp
      let ?t = "s\<lparr> st_room := st_room s - 1 \<rparr>"
      have "ind_tree ?V n ok l (ucast ?e)" using Suc.prems(5) k False by simp
      then have p: "ind_tree (st_view ?t) n ok l (ucast ?e)" "tree_nodes ?t ok" "ok \<inter> st_pend ?t = {}" "st_bsize ?t = 4 * n" "l \<le> st_room ?t"
        using Suc.prems(2,3,4,8) by (simp_all add: tree_nodes_def)
      have m: "unat (ind_next fs0 l off) < n ^ l" using pos(2) np by simp
      from Suc.IH [OF f3(2) [unfolded s3 s3'] p(2,3,4,1) m l(1) p(5)] nz obtain fs' r where
        w: "release_walk l io (ucast ?e) (ind_next fs0 l off) fs3 =
          (Inr (ind_find (st_view ?t) n l (ucast ?e) (unat (ind_next fs0 l off))), fs')" "r \<le> l"
        "fs_at rep fs0 (?t\<lparr> st_view := ind_clr (st_view ?t) n l (ucast ?e) (unat (ind_next fs0 l off)), st_room := st_room ?t - r \<rparr>) fs'"
        by blast
      then show ?thesis using run False nz pos(2)
        by (intro exI [of _ fs'] exI [of _ "Suc r"]) (simp add: Let_def ind_kid_def)
    qed
  qed
qed

end

end
