(* ===== verification/JbdFormat.thy ===== *)
theory JbdFormat
  imports Checksum
begin

text \<open>
  The on-disk format of the journal: the big-endian accessors of \<^verbatim>\<open>include/ext4_misc.h\<close>, the structures of
  \<^verbatim>\<open>include/ext4_types.h\<close> and, from \<^verbatim>\<open>src/ext4_journal.c\<close>, the checksums, the codec of block tags and the
  walk over the tags of a descriptor block. A block is the list of its bytes, a pointer into it an offset.
\<close>

section \<open>Big-endian fields\<close>

definition reorder16 :: "u16 \<Rightarrow> u16" where
  "reorder16 n = push_bit 8 (n AND 0xff) OR drop_bit 8 (n AND 0xff00)"

definition reorder32 :: "u32 \<Rightarrow> u32" where
  "reorder32 n = push_bit 24 (n AND 0xff) OR push_bit 8 (n AND 0xff00) OR drop_bit 8 (n AND 0xff0000) OR
     drop_bit 24 (n AND 0xff000000)"

definition reorder64 :: "u64 \<Rightarrow> u64" where
  "reorder64 n = push_bit 56 (n AND 0xff) OR push_bit 40 (n AND 0xff00) OR push_bit 24 (n AND 0xff0000) OR
     push_bit 8 (n AND 0xff000000) OR drop_bit 8 (n AND 0xff00000000) OR drop_bit 24 (n AND 0xff0000000000) OR
     drop_bit 40 (n AND 0xff000000000000) OR drop_bit 56 (n AND 0xff00000000000000)"

text \<open>The host is little-endian: the conversions to big-endian reorder the bytes.\<close>

definition to_be16 :: "u16 \<Rightarrow> u16" where "to_be16 n = reorder16 n"
definition to_be32 :: "u32 \<Rightarrow> u32" where "to_be32 n = reorder32 n"
definition to_be64 :: "u64 \<Rightarrow> u64" where "to_be64 n = reorder64 n"

text \<open>Fields at an offset of a block: \<^verbatim>\<open>jbd_get32\<close>, \<^verbatim>\<open>jbd_set32\<close> and their kin, and the raw field.\<close>

definition raw32 :: "u8 list \<Rightarrow> nat \<Rightarrow> u32 res" where
  "raw32 d p = rbind (rd_range d p 4) (\<lambda>bs. Inr (fst (get32 bs)))"

definition jbd_get32 :: "u8 list \<Rightarrow> nat \<Rightarrow> u32 res" where
  "jbd_get32 d p = rbind (raw32 d p) (\<lambda>v. Inr (to_be32 v))"

definition jbd_get16 :: "u8 list \<Rightarrow> nat \<Rightarrow> u16 res" where
  "jbd_get16 d p = rbind (rd_range d p 2) (\<lambda>bs. Inr (to_be16 (fst (get16 bs))))"

definition jbd_set32 :: "u8 list \<Rightarrow> nat \<Rightarrow> u32 \<Rightarrow> u8 list res" where
  "jbd_set32 d p v = wr_range d p (enc32 (to_be32 v))"

definition jbd_set16 :: "u8 list \<Rightarrow> nat \<Rightarrow> u16 \<Rightarrow> u8 list res" where
  "jbd_set16 d p v = wr_range d p (enc16 (to_be16 v))"

section \<open>The journal superblock\<close>

text \<open>The fields hold what \<^verbatim>\<open>jbd_get32\<close> reads from them.\<close>

record jbd_sb =
  js_magic :: u32
  js_blocktype :: u32
  js_header_sequence :: u32
  js_blocksize :: u32
  js_maxlen :: u32
  js_first :: u32
  js_sequence :: u32
  js_start :: u32
  js_error_val :: u32
  js_feature_compat :: u32
  js_feature_incompat :: u32
  js_feature_ro_compat :: u32
  js_uuid :: "u8 list"
  js_nr_users :: u32
  js_dynsuper :: u32
  js_max_transaction :: u32
  js_max_trandata :: u32
  js_checksum_type :: u8
  js_padding2 :: "u8 list"
  js_padding :: "u8 list"
  js_checksum :: u32
  js_users :: "u8 list"

definition UUID_SIZE :: nat where "UUID_SIZE = 16"
definition JBD_MAGIC_NUMBER :: u32 where "JBD_MAGIC_NUMBER = 0xc03b3998"
definition JBD_DESCRIPTOR_BLOCK :: u32 where "JBD_DESCRIPTOR_BLOCK = 1"
definition JBD_COMMIT_BLOCK :: u32 where "JBD_COMMIT_BLOCK = 2"
definition JBD_SUPERBLOCK :: u32 where "JBD_SUPERBLOCK = 3"
definition JBD_SUPERBLOCK_V2 :: u32 where "JBD_SUPERBLOCK_V2 = 4"
definition JBD_REVOKE_BLOCK :: u32 where "JBD_REVOKE_BLOCK = 5"
definition JBD_CRC32_CHKSUM :: u8 where "JBD_CRC32_CHKSUM = 1"
definition JBD_CRC32_CHKSUM_SIZE :: u8 where "JBD_CRC32_CHKSUM_SIZE = 4"
definition JBD_FLAG_ESCAPE :: u32 where "JBD_FLAG_ESCAPE = 1"
definition JBD_FLAG_SAME_UUID :: u32 where "JBD_FLAG_SAME_UUID = 2"
definition JBD_FLAG_LAST_TAG :: u32 where "JBD_FLAG_LAST_TAG = 8"
definition JBD_FEATURE_COMPAT_CHECKSUM :: u32 where "JBD_FEATURE_COMPAT_CHECKSUM = 1"
definition JBD_FEATURE_INCOMPAT_64BIT :: u32 where "JBD_FEATURE_INCOMPAT_64BIT = 2"
definition JBD_FEATURE_INCOMPAT_CSUM_V2 :: u32 where "JBD_FEATURE_INCOMPAT_CSUM_V2 = 8"
definition JBD_FEATURE_INCOMPAT_CSUM_V3 :: u32 where "JBD_FEATURE_INCOMPAT_CSUM_V3 = 16"

lemmas jbd_consts =
  UUID_SIZE_def JBD_MAGIC_NUMBER_def JBD_DESCRIPTOR_BLOCK_def JBD_COMMIT_BLOCK_def JBD_SUPERBLOCK_def
  JBD_SUPERBLOCK_V2_def JBD_REVOKE_BLOCK_def JBD_CRC32_CHKSUM_def JBD_CRC32_CHKSUM_SIZE_def JBD_FLAG_ESCAPE_def
  JBD_FLAG_SAME_UUID_def JBD_FLAG_LAST_TAG_def JBD_FEATURE_COMPAT_CHECKSUM_def JBD_FEATURE_INCOMPAT_64BIT_def
  JBD_FEATURE_INCOMPAT_CSUM_V2_def JBD_FEATURE_INCOMPAT_CSUM_V3_def

definition be32s :: "u32 list \<Rightarrow> u8 list" where "be32s ws = enc32s (map to_be32 ws)"

definition jbd_sb_bytes :: "jbd_sb \<Rightarrow> u8 list" where
  "jbd_sb_bytes s =
     be32s [js_magic s, js_blocktype s, js_header_sequence s, js_blocksize s, js_maxlen s, js_first s, js_sequence s,
       js_start s, js_error_val s, js_feature_compat s, js_feature_incompat s, js_feature_ro_compat s] @
     js_uuid s @ be32s [js_nr_users s, js_dynsuper s, js_max_transaction s, js_max_trandata s] @
     [js_checksum_type s] @ js_padding2 s @ js_padding s @ be32s [js_checksum s] @ js_users s"

definition jbd_sb_of_bytes :: "u8 list \<Rightarrow> jbd_sb" where
  "jbd_sb_of_bytes bs =
     (let w = \<lambda>k. to_be32 (le_dec (take 4 (drop (4 * k) bs)))
      in \<lparr> js_magic = w 0, js_blocktype = w 1, js_header_sequence = w 2, js_blocksize = w 3, js_maxlen = w 4,
           js_first = w 5, js_sequence = w 6, js_start = w 7, js_error_val = w 8, js_feature_compat = w 9,
           js_feature_incompat = w 10, js_feature_ro_compat = w 11, js_uuid = take 16 (drop 48 bs),
           js_nr_users = w 16, js_dynsuper = w 17, js_max_transaction = w 18, js_max_trandata = w 19,
           js_checksum_type = bs ! 80, js_padding2 = take 3 (drop 81 bs), js_padding = take 168 (drop 84 bs),
           js_checksum = w 63, js_users = take 768 (drop 256 bs) \<rparr>)"

text \<open>
  The feature macros compare raw words, so their \<^verbatim>\<open>blocktype\<close> test orders by the reversed bytes; the
  feature word is a parameter.
\<close>

definition jbd_has_feature :: "jbd_sb \<Rightarrow> u32 \<Rightarrow> u32 \<Rightarrow> bool" where
  "jbd_has_feature s word bits \<longleftrightarrow> to_be32 (js_blocktype s) \<ge> to_be32 2 \<and> to_be32 word AND to_be32 bits \<noteq> 0"

definition JBD_HAS_INCOMPAT_FEATURE :: "jbd_sb \<Rightarrow> u32 \<Rightarrow> bool" where
  "JBD_HAS_INCOMPAT_FEATURE s bits = jbd_has_feature s (js_feature_incompat s) bits"

definition jbd_has_csum :: "jbd_sb \<Rightarrow> nat" where
  "jbd_has_csum s =
     (if JBD_HAS_INCOMPAT_FEATURE s JBD_FEATURE_INCOMPAT_CSUM_V2 then 2
      else if JBD_HAS_INCOMPAT_FEATURE s JBD_FEATURE_INCOMPAT_CSUM_V3 then 3
      else 0)"

section \<open>Checksums\<close>

definition jbd_sb_csum :: "jbd_sb \<Rightarrow> u32" where
  "jbd_sb_csum s =
     (if jbd_has_csum s \<noteq> 0 then ext4_crc32c EXT4_CRC32_INIT (jbd_sb_bytes (s\<lparr> js_checksum := 0 \<rparr>)) else 0)"

definition jbd_sb_csum_set :: "jbd_sb \<Rightarrow> jbd_sb" where
  "jbd_sb_csum_set s = (if jbd_has_csum s = 0 then s else s\<lparr> js_checksum := jbd_sb_csum s \<rparr>)"

definition jbd_verify_sb_csum :: "jbd_sb \<Rightarrow> bool" where
  "jbd_verify_sb_csum s \<longleftrightarrow> jbd_has_csum s = 0 \<or> jbd_sb_csum s = js_checksum s"

definition jbd_verify_sb :: "jbd_sb \<Rightarrow> bool" where
  "jbd_verify_sb s \<longleftrightarrow>
     js_magic s = JBD_MAGIC_NUMBER \<and> (js_blocktype s = JBD_SUPERBLOCK \<or> js_blocktype s = JBD_SUPERBLOCK_V2) \<and>
     jbd_verify_sb_csum s"

text \<open>
  The checksum of a descriptor or revoke block runs over the block with its tail of four bytes cleared; that
  of a commit block over the block with the type, the size and the first checksum word cleared. Both put the
  cleared bytes back.
\<close>

definition jbd_crc :: "jbd_sb \<Rightarrow> u8 list \<Rightarrow> u32" where
  "jbd_crc s bs = ext4_crc32c (ext4_crc32c EXT4_CRC32_INIT (js_uuid s)) bs"

definition jbd_tail :: "jbd_sb \<Rightarrow> nat" where "jbd_tail s = unat (js_blocksize s) - 4"

definition jbd_meta_csum :: "jbd_sb \<Rightarrow> u8 list \<Rightarrow> u32 res" where
  "jbd_meta_csum s d =
     (if jbd_has_csum s = 0 then Inr 0
      else rbind (wr_range d (jbd_tail s) (enc32 0)) (\<lambda>d.
           rbind (rd_range d 0 (unat (js_blocksize s))) (\<lambda>bs. Inr (jbd_crc s bs))))"

definition jbd_meta_csum_set :: "jbd_sb \<Rightarrow> u8 list \<Rightarrow> u8 list res" where
  "jbd_meta_csum_set s d =
     (if jbd_has_csum s = 0 then Inr d
      else rbind (jbd_meta_csum s d) (\<lambda>c. wr_range d (jbd_tail s) (enc32 (to_be32 c))))"

definition jbd_verify_meta_csum :: "jbd_sb \<Rightarrow> u8 list \<Rightarrow> bool res" where
  "jbd_verify_meta_csum s d =
     (if jbd_has_csum s = 0 then Inr True
      else rbind (jbd_meta_csum s d) (\<lambda>c. rbind (raw32 d (jbd_tail s)) (\<lambda>t. Inr (c = to_be32 t))))"

definition jbd_commit_csum :: "jbd_sb \<Rightarrow> u8 list \<Rightarrow> u32 res" where
  "jbd_commit_csum s d =
     (if jbd_has_csum s = 0 then Inr 0
      else rbind (wr_range d 12 [0, 0]) (\<lambda>d. rbind (wr_range d 16 (enc32 0)) (\<lambda>d.
           rbind (rd_range d 0 (unat (js_blocksize s))) (\<lambda>bs. Inr (jbd_crc s bs)))))"

definition jbd_commit_csum_set :: "jbd_sb \<Rightarrow> u8 list \<Rightarrow> u8 list res" where
  "jbd_commit_csum_set s d =
     (if jbd_has_csum s = 0 then Inr d
      else rbind (wr_range d 12 [0, 0]) (\<lambda>d. rbind (wr_range d 16 (enc32 0)) (\<lambda>d.
           rbind (jbd_commit_csum s d) (\<lambda>c. wr_range d 16 (enc32 c)))))"

definition jbd_verify_commit_csum :: "jbd_sb \<Rightarrow> u8 list \<Rightarrow> bool res" where
  "jbd_verify_commit_csum s d =
     (if jbd_has_csum s = 0 then Inr True
      else rbind (raw32 d 16) (\<lambda>t. rbind (jbd_commit_csum s d) (\<lambda>c. Inr (t = to_be32 c))))"

text \<open>\<open>data_csum\<close> of a logged block: the running checksum is used only with the old feature.\<close>

definition jbd_block_csum :: "jbd_sb \<Rightarrow> u8 list \<Rightarrow> u32 \<Rightarrow> u32 \<Rightarrow> u32 res" where
  "jbd_block_csum s buf csum seq =
     (if jbd_has_csum s \<noteq> 0 then
        rbind (rd_range buf 0 (unat (js_blocksize s))) (\<lambda>bs.
        Inr (ext4_crc32c (ext4_crc32c (ext4_crc32c EXT4_CRC32_INIT (js_uuid s)) (enc32 seq)) bs))
      else if JBD_HAS_INCOMPAT_FEATURE s JBD_FEATURE_COMPAT_CHECKSUM then
        rbind (rd_range buf 0 (unat (js_blocksize s))) (\<lambda>bs. Inr (ext4_crc32 csum bs))
      else Inr 0)"

section \<open>Block tags\<close>

definition jbd_tag_bytes :: "jbd_sb \<Rightarrow> nat" where
  "jbd_tag_bytes s =
     (if JBD_HAS_INCOMPAT_FEATURE s JBD_FEATURE_INCOMPAT_CSUM_V3 then 16
      else
        let size = 12 + (if JBD_HAS_INCOMPAT_FEATURE s JBD_FEATURE_INCOMPAT_CSUM_V2 then 2 else 0)
        in if JBD_HAS_INCOMPAT_FEATURE s JBD_FEATURE_INCOMPAT_64BIT then size else size - 4)"

text \<open>A tag read has no checksum and, unless \<open>ti_uuid_exist\<close>, no identifier: the code leaves them alone.\<close>

record tag_info =
  ti_tag_bytes :: nat
  ti_block :: u64
  ti_is_escape :: bool
  ti_uuid_exist :: bool
  ti_uuid :: "u8 list"
  ti_last_tag :: bool
  ti_checksum :: u32

text \<open>The position, width and accessors of the flags: version 3 tags have 32 bits of them.\<close>

definition tag_flags :: "jbd_sb \<Rightarrow> u8 list \<Rightarrow> nat \<Rightarrow> u32 res" where
  "tag_flags s d p =
     (if JBD_HAS_INCOMPAT_FEATURE s JBD_FEATURE_INCOMPAT_CSUM_V3 then jbd_get32 d (p + 4)
      else rbind (jbd_get16 d (p + 6)) (\<lambda>f. Inr (ucast f)))"

definition tag_flag_set :: "jbd_sb \<Rightarrow> nat \<Rightarrow> u32 \<Rightarrow> u8 list \<Rightarrow> u8 list res" where
  "tag_flag_set s p flag d =
     (if JBD_HAS_INCOMPAT_FEATURE s JBD_FEATURE_INCOMPAT_CSUM_V3
      then rbind (jbd_get32 d (p + 4)) (\<lambda>f. jbd_set32 d (p + 4) (f OR flag))
      else rbind (jbd_get16 d (p + 6)) (\<lambda>f. jbd_set16 d (p + 6) (f OR ucast flag)))"

definition jbd_extract_block_tag :: "jbd_sb \<Rightarrow> u8 list \<Rightarrow> nat \<Rightarrow> nat \<Rightarrow> int \<Rightarrow> tag_info res" where
  "jbd_extract_block_tag s d p tag_bytes remain =
     (if remain - int tag_bytes < 0 then Inl EINVAL
      else
        rbind (jbd_get32 d p) (\<lambda>lo.
        rbind (if JBD_HAS_INCOMPAT_FEATURE s JBD_FEATURE_INCOMPAT_64BIT then jbd_get32 d (p + 8) else Inr 0) (\<lambda>hi.
        rbind (tag_flags s d p) (\<lambda>f.
        let t = \<lparr> ti_tag_bytes = tag_bytes, ti_block = ucast lo OR push_bit 32 (ucast hi),
                  ti_is_escape = (f AND JBD_FLAG_ESCAPE \<noteq> 0), ti_uuid_exist = False, ti_uuid = [],
                  ti_last_tag = (f AND JBD_FLAG_LAST_TAG \<noteq> 0), ti_checksum = 0 \<rparr>
        in if f AND JBD_FLAG_SAME_UUID \<noteq> 0 then Inr t
           else if remain - int tag_bytes < int UUID_SIZE then Inl EINVAL
           else rbind (rd_range d (p + tag_bytes) UUID_SIZE) (\<lambda>u.
                Inr (t\<lparr> ti_uuid_exist := True, ti_tag_bytes := tag_bytes + UUID_SIZE, ti_uuid := u \<rparr>))))))"

text \<open>The second version stores 16 bits of a checksum: the low half of the reordered word.\<close>

definition jbd_block_tag_csum_set :: "jbd_sb \<Rightarrow> nat \<Rightarrow> u32 \<Rightarrow> u8 list \<Rightarrow> u8 list res" where
  "jbd_block_tag_csum_set s p checksum d =
     (if jbd_has_csum s = 0 then Inr d
      else if jbd_has_csum s = 2 then wr_range d (p + 4) (enc16 (ucast (to_be32 checksum)))
      else wr_range d (p + 12) (enc32 (to_be32 checksum)))"

text \<open>The result is the block and the tag with the bytes it takes.\<close>

definition jbd_write_block_tag :: "jbd_sb \<Rightarrow> u8 list \<Rightarrow> nat \<Rightarrow> int \<Rightarrow> tag_info \<Rightarrow> (u8 list \<times> tag_info) res" where
  "jbd_write_block_tag s d p remain t =
     (let tag_bytes = jbd_tag_bytes s; t = t\<lparr> ti_tag_bytes := tag_bytes \<rparr>
      in if remain - int tag_bytes < 0 then Inl EINVAL
         else
           rbind (wr_range d p (replicate (if JBD_HAS_INCOMPAT_FEATURE s JBD_FEATURE_INCOMPAT_CSUM_V3 then 16 else 12) 0)) (\<lambda>d.
           rbind (jbd_set32 d p (ucast (ti_block t))) (\<lambda>d.
           rbind (if JBD_HAS_INCOMPAT_FEATURE s JBD_FEATURE_INCOMPAT_64BIT
                  then jbd_set32 d (p + 8) (ucast (drop_bit 32 (ti_block t))) else Inr d) (\<lambda>d.
           rbind (if ti_uuid_exist t then
                    if remain - int tag_bytes < int UUID_SIZE then Inl EINVAL
                    else rbind (wr_range d (p + tag_bytes) (ti_uuid t)) (\<lambda>d.
                         Inr (d, t\<lparr> ti_tag_bytes := tag_bytes + UUID_SIZE \<rparr>))
                  else rbind (tag_flag_set s p JBD_FLAG_SAME_UUID d) (\<lambda>d. Inr (d, t))) (\<lambda>(d, t).
           rbind (jbd_block_tag_csum_set s p (ti_checksum t) d) (\<lambda>d.
           rbind (if ti_last_tag t then tag_flag_set s p JBD_FLAG_LAST_TAG d else Inr d) (\<lambda>d.
           rbind (if ti_is_escape t then tag_flag_set s p JBD_FLAG_ESCAPE d else Inr d) (\<lambda>d.
           Inr (d, t)))))))))"

end
