(* ===== verification/JbdRecover.thy ===== *)
theory JbdRecover
  imports JbdFormat FsMap
begin

text \<open>
  Opening the journal and replaying it at mount: \<^verbatim>\<open>src/ext4_journal.c\<close> up to \<open>jbd_recover\<close>. The journal is
  an inode of the file system; \<open>jstate\<close> is the instance, the reference to that inode and the rest of
  \<^verbatim>\<open>struct jbd_fs\<close>. The tree of revoke entries is the map from block addresses to transactions that its
  lookups and insertions see; a failed allocation of an entry would stop the program.
\<close>

section \<open>State\<close>

record jbd_fs =
  jf_sb :: jbd_sb
  jf_dirty :: bool

type_synonym 'd jstate = "'d istate \<times> jbd_fs"

definition on_ji :: "('d istate \<Rightarrow> 'a res \<times> 'd istate) \<Rightarrow> 'd jstate \<Rightarrow> 'a res \<times> 'd jstate" where
  "on_ji m s = (case m (fst s) of (r, t) \<Rightarrow> (r, t, snd s))"

definition on_jfs :: "('d ext4_fs \<Rightarrow> 'a res \<times> 'd ext4_fs) \<Rightarrow> 'd jstate \<Rightarrow> 'a res \<times> 'd jstate" where
  "on_jfs m = on_ji (on_fs m)"

definition js_sb :: "'d jstate \<Rightarrow> jbd_sb" where "js_sb s = jf_sb (snd s)"

record recover_info =
  ri_start_trans_id :: u32
  ri_last_trans_id :: u32
  ri_this_trans_id :: u32
  ri_trans_cnt :: u32
  ri_revoke_root :: "u64 \<rightharpoonup> u32"

section \<open>Blocks of the journal\<close>

definition jbd_inode_bmap :: "'d ext4_blockdev_iface \<Rightarrow> u32 \<Rightarrow> 'd jstate \<Rightarrow> u64 res \<times> 'd jstate" where
  "jbd_inode_bmap io iblock s = on_ji (ext4_fs_get_inode_dblk_idx io iblock False) s"

text \<open>The superblock is block 0 of the journal; the checksum is stored into the caller's copy.\<close>

definition jbd_sb_write :: "'d ext4_blockdev_iface \<Rightarrow> 'd jstate \<Rightarrow> unit res \<times> 'd jstate" where
  "jbd_sb_write io s =
     sbind (jbd_inode_bmap io 0 s) (\<lambda>fblock s.
     let s = (fst s, (snd s)\<lparr> jf_sb := jbd_sb_csum_set (js_sb s) \<rparr>);
         offset = fblock * ucast (ext4_sb_get_block_size (fs_sb (fst (fst s))))
     in on_jfs (fs_dev (ext4_block_writebytes io offset (jbd_sb_bytes (js_sb s)) (of_nat EXT4_SUPERBLOCK_SIZE))) s)"

definition jbd_sb_read :: "'d ext4_blockdev_iface \<Rightarrow> 'd jstate \<Rightarrow> jbd_sb res \<times> 'd jstate" where
  "jbd_sb_read io s =
     sbind (jbd_inode_bmap io 0 s) (\<lambda>fblock s.
     let offset = fblock * ucast (ext4_sb_get_block_size (fs_sb (fst (fst s))))
     in sbind (on_jfs (fs_dev (ext4_block_readbytes io offset (jbd_sb_bytes (js_sb s)) (of_nat EXT4_SUPERBLOCK_SIZE))) s)
          (\<lambda>bs s. (Inr (jbd_sb_of_bytes bs), s)))"

definition jbd_write_sb :: "'d ext4_blockdev_iface \<Rightarrow> 'd jstate \<Rightarrow> unit res \<times> 'd jstate" where
  "jbd_write_sb io s =
     (if jf_dirty (snd s)
      then sbind (jbd_sb_write io s) (\<lambda>_ s. (Inr (), fst s, (snd s)\<lparr> jf_dirty := False \<rparr>))
      else (Inr (), s))"

text \<open>The descriptor of the journal is cleared before it is filled.\<close>

definition jbd_sb_zero :: jbd_sb where "jbd_sb_zero = jbd_sb_of_bytes (replicate 1024 0)"

definition jbd_get_fs :: "'d ext4_blockdev_iface \<Rightarrow> 'd ext4_fs \<Rightarrow> (ext4_inode_ref \<times> jbd_fs) res \<times> 'd ext4_fs" where
  "jbd_get_fs io fs =
     sbind (ext4_fs_get_inode_ref io (sb_journal_inode_number (fs_sb fs)) fs) (\<lambda>ref fs.
       case sbind (jbd_sb_read io ((fs, ref), \<lparr> jf_sb = jbd_sb_zero, jf_dirty = False \<rparr>)) (\<lambda>sb s.
              (if jbd_verify_sb sb then Inr sb else Inl EIO, s)) of
         (Inr sb, s) \<Rightarrow> (Inr (snd (fst s), \<lparr> jf_sb = sb, jf_dirty = False \<rparr>), fst (fst s))
       | (Inl e, s) \<Rightarrow>
           if fatal e then (Inl e, fst (fst s))
           else sbind (sforget (ext4_fs_put_inode_ref io (snd (fst s)) (fst (fst s)))) (\<lambda>_ fs. (Inl e, fs)))"

definition jbd_put_fs :: "'d ext4_blockdev_iface \<Rightarrow> 'd jstate \<Rightarrow> unit res \<times> 'd jstate" where
  "jbd_put_fs io s =
     (let put = \<lambda>s. sforget (on_jfs (ext4_fs_put_inode_ref io (snd (fst s))) s)
      in sbind (scatch (jbd_write_sb io s) (\<lambda>e s. sbind (put s) (\<lambda>_ s. (Inl e, s)))) (\<lambda>_ s. put s))"

definition fs_set_flag :: "bcache_state_bits \<Rightarrow> ext4_block \<Rightarrow> 'd ext4_fs \<Rightarrow> unit res \<times> 'd ext4_fs" where
  "fs_set_flag f b fs =
     (case b_buf b of
        None \<Rightarrow> (Inl UNDEF, fs)
      | Some l \<Rightarrow> (Inr (), fs\<lparr> fs_bdev := bc_apply (buf_update l (ext4_bcache_set_flag f)) (fs_bdev fs) \<rparr>))"

text \<open>A block of the journal is written at once when it is released, and leaves the cache.\<close>

definition jbd_block_get :: "'d ext4_blockdev_iface \<Rightarrow> u32 \<Rightarrow> 'd jstate \<Rightarrow> ext4_block res \<times> 'd jstate" where
  "jbd_block_get io iblock s =
     sbind (jbd_inode_bmap io iblock s) (\<lambda>fblock s.
     sbind (on_jfs (fs_block_get io fblock) s) (\<lambda>b s.
     sbind (on_jfs (fs_set_flag BC_FLUSH b) s) (\<lambda>_ s.
     sbind (on_jfs (fs_set_flag BC_TMP b) s) (\<lambda>_ s. (Inr b, s)))))"

definition jbd_block_get_noread :: "'d ext4_blockdev_iface \<Rightarrow> u32 \<Rightarrow> 'd jstate \<Rightarrow> ext4_block res \<times> 'd jstate" where
  "jbd_block_get_noread io iblock s =
     sbind (jbd_inode_bmap io iblock s) (\<lambda>fblock s.
     sbind (on_jfs (fs_block_get_noread io fblock) s) (\<lambda>b s.
     sbind (on_jfs (fs_set_flag BC_FLUSH b) s) (\<lambda>_ s. (Inr b, s))))"

definition jbd_block_set :: "'d ext4_blockdev_iface \<Rightarrow> ext4_block \<Rightarrow> 'd jstate \<Rightarrow> unit res \<times> 'd jstate" where
  "jbd_block_set io b s = on_jfs (fs_block_set io b) s"

definition jbd_data :: "ext4_block \<Rightarrow> 'd jstate \<Rightarrow> u8 list res" where
  "jbd_data b s = fs_data b (fst (fst s))"

section \<open>Positions in the log\<close>

definition wrap :: "jbd_sb \<Rightarrow> u32 \<Rightarrow> u32" where
  "wrap sb v = (if v \<ge> js_maxlen sb then v - (js_maxlen sb - js_first sb) else v)"

definition trans_id_diff :: "u32 \<Rightarrow> u32 \<Rightarrow> int" where
  "trans_id_diff x y = sint (x - y)"

section \<open>The tags of a descriptor block\<close>

lemma tag_bytes_min: "8 \<le> jbd_tag_bytes sb" "0 < jbd_tag_bytes sb"
  by (simp_all add: jbd_tag_bytes_def Let_def)

lemma extract_size:
  assumes "jbd_extract_block_tag sb d p (jbd_tag_bytes sb) remain = Inr t"
  shows "0 < ti_tag_bytes t" and "int (ti_tag_bytes t) \<le> remain"
  using assms tag_bytes_min(2) [of sb]
  by (auto simp: jbd_extract_block_tag_def rbind_Inr_iff Let_def UUID_SIZE_def split: if_splits)

text \<open>
  The walk hands each tag to a callback over a state, in which the block is read again for every tag: \<open>rd\<close>.
\<close>

function iterate_tags ::
    "jbd_sb \<Rightarrow> ('s \<Rightarrow> u8 list res) \<Rightarrow> (tag_info \<Rightarrow> 's \<Rightarrow> unit res \<times> 's) \<Rightarrow> nat \<Rightarrow> int \<Rightarrow> 's \<Rightarrow> unit res \<times> 's" where
  "iterate_tags sb rd func p sz s =
     (if sz = 0 then (Inr (), s)
      else case rd s of
             Inl e \<Rightarrow> (Inl e, s)
           | Inr d \<Rightarrow>
               (case jbd_extract_block_tag sb d p (jbd_tag_bytes sb) sz of
                  Inl e \<Rightarrow> (if fatal e then Inl e else Inr (), s)
                | Inr t \<Rightarrow>
                    (case func t s of
                       (Inl e, s) \<Rightarrow> (Inl e, s)
                     | (Inr _, s) \<Rightarrow>
                         if ti_last_tag t then (Inr (), s)
                         else iterate_tags sb rd func (p + ti_tag_bytes t) (sz - int (ti_tag_bytes t)) s)))"
  by pat_completeness auto

termination
  by (relation "measure (\<lambda>(sb, rd, func, p, sz, s). nat sz)") (auto dest: extract_size)

declare iterate_tags.simps [simp del]

definition jbd_iterate_block_table ::
    "jbd_sb \<Rightarrow> ('s \<Rightarrow> u8 list res) \<Rightarrow> nat \<Rightarrow> int \<Rightarrow> (tag_info \<Rightarrow> 's \<Rightarrow> unit res \<times> 's) \<Rightarrow> 's \<Rightarrow> unit res \<times> 's" where
  "jbd_iterate_block_table sb rd p sz func s =
     iterate_tags sb rd func p
       (if JBD_HAS_INCOMPAT_FEATURE sb JBD_FEATURE_INCOMPAT_CSUM_V2 \<or> JBD_HAS_INCOMPAT_FEATURE sb JBD_FEATURE_INCOMPAT_CSUM_V3
        then sz - 4 else sz) s"

section \<open>Replaying a block\<close>

text \<open>
  Each tag moves on to the next block of the log. Codes of the calls end the replay of the block, silently.
\<close>

definition replay_wanted :: "(u64 \<rightharpoonup> u32) \<Rightarrow> u32 \<Rightarrow> u64 \<Rightarrow> bool" where
  "replay_wanted revoked tid block =
     (case revoked block of None \<Rightarrow> True | Some t \<Rightarrow> \<not> trans_id_diff tid t \<le> 0)"

definition replay_into_block :: "'d ext4_blockdev_iface \<Rightarrow> tag_info \<Rightarrow> ext4_block \<Rightarrow> 'd jstate \<Rightarrow> unit res \<times> 'd jstate" where
  "replay_into_block io t jb s =
     sbind (scatch (on_jfs (fs_block_get_noread io (ti_block t)) s) (\<lambda>e s.
              sbind (sforget (jbd_block_set io jb s)) (\<lambda>_ s. (Inl e, s)))) (\<lambda>b s.
     sbind (sread (jbd_data jb) s) (\<lambda>src s.
     sbind (on_jfs (\<lambda>fs. fs_store b (rbind (fs_data b fs) (\<lambda>d.
              rbind (rd_range src 0 (unat (js_blocksize (js_sb s)))) (\<lambda>bs. wr_range d 0 bs))) fs) s) (\<lambda>_ s.
     sbind (if ti_is_escape t
            then on_jfs (\<lambda>fs. fs_store b (rbind (fs_data b fs) (\<lambda>d. wr_range d 0 (enc32 (to_be32 JBD_MAGIC_NUMBER)))) fs) s
            else (Inr (), s)) (\<lambda>_ s.
     sbind (on_jfs (fs_set_dirty b) s) (\<lambda>_ s.
     sbind (sforget (on_jfs (fs_block_set io b) s)) (\<lambda>_ s.
     sforget (jbd_block_set io jb s)))))))"

text \<open>
  Block 0 holds the superblock of the file system, 1024 bytes in. The mount count and the state of the mounted
  instance survive; when the write fails, the block of the journal stays held.
\<close>

definition replay_into_sb :: "'d ext4_blockdev_iface \<Rightarrow> ext4_block \<Rightarrow> 'd jstate \<Rightarrow> unit res \<times> 'd jstate" where
  "replay_into_sb io jb s =
     sbind (sread (\<lambda>s. rbind (jbd_data jb s) (\<lambda>d. rd_range d (unat EXT4_SUPERBLOCK_OFFSET) EXT4_SUPERBLOCK_SIZE)) s) (\<lambda>bs s.
     let fs = fst (fst s); sb = (sb_of_bytes bs)\<lparr> sb_state := sb_state (fs_sb fs) \<rparr>
     in case ext4_sb_write io sb (fs_bdev fs) of
          (r, sb', bd) \<Rightarrow>
            let set_sb = \<lambda>sb. (((fst (fst s))\<lparr> fs_bdev := bd, fs_sb := sb \<rparr>, snd (fst s)), snd s)
            in case r of
                 Inl e \<Rightarrow> (Inl e, set_sb sb')
               | Inr _ \<Rightarrow> sforget (jbd_block_set io jb (set_sb (sb'\<lparr> sb_mount_count := sb_mount_count (fs_sb fs) \<rparr>))))"

definition jbd_replay_block_tags ::
    "'d ext4_blockdev_iface \<Rightarrow> recover_info \<Rightarrow> u32 \<Rightarrow> tag_info \<Rightarrow> 'd jstate \<times> u32 \<Rightarrow> unit res \<times> 'd jstate \<times> u32" where
  "jbd_replay_block_tags io info tid t s =
     (let this_block = wrap (js_sb (fst s)) (snd s + 1)
      in if \<not> replay_wanted (ri_revoke_root info) tid (ti_block t) then (Inr (), fst s, this_block)
         else case sforget (sbind (jbd_block_get io this_block (fst s)) (\<lambda>jb s.
                     if ti_block t \<noteq> 0 then replay_into_block io t jb s else replay_into_sb io jb s)) of
                (r, s') \<Rightarrow> (r, s', this_block))"

text \<open>When nothing is replayed the tags only move the position.\<close>

definition jbd_display_block_tags :: "tag_info \<Rightarrow> 'd jstate \<times> u32 \<Rightarrow> unit res \<times> 'd jstate \<times> u32" where
  "jbd_display_block_tags t s = (Inr (), fst s, wrap (js_sb (fst s)) (snd s + 1))"

definition jbd_debug_descriptor_block :: "ext4_block \<Rightarrow> 'd jstate \<times> u32 \<Rightarrow> unit res \<times> 'd jstate \<times> u32" where
  "jbd_debug_descriptor_block b s =
     jbd_iterate_block_table (js_sb (fst s)) (\<lambda>s. jbd_data b (fst s)) 12
       (sint (js_blocksize (js_sb (fst s)) - 12)) jbd_display_block_tags s"

definition jbd_replay_descriptor_block ::
    "'d ext4_blockdev_iface \<Rightarrow> recover_info \<Rightarrow> u32 \<Rightarrow> ext4_block \<Rightarrow> 'd jstate \<times> u32 \<Rightarrow> unit res \<times> 'd jstate \<times> u32" where
  "jbd_replay_descriptor_block io info tid b s =
     jbd_iterate_block_table (js_sb (fst s)) (\<lambda>s. jbd_data b (fst s)) 12
       (sint (js_blocksize (js_sb (fst s)) - 12)) (jbd_replay_block_tags io info tid) s"

section \<open>Revoked blocks\<close>

definition jbd_add_revoke_block_tags :: "recover_info \<Rightarrow> u64 \<Rightarrow> recover_info" where
  "jbd_add_revoke_block_tags info block =
     info\<lparr> ri_revoke_root := (ri_revoke_root info)(block \<mapsto> ri_this_trans_id info) \<rparr>"

definition revoke_record_len :: "jbd_sb \<Rightarrow> nat" where
  "revoke_record_len sb = (if JBD_HAS_INCOMPAT_FEATURE sb JBD_FEATURE_INCOMPAT_64BIT then 8 else 4)"

definition revoke_entry_at :: "jbd_sb \<Rightarrow> u8 list \<Rightarrow> nat \<Rightarrow> u64 res" where
  "revoke_entry_at sb d p =
     (if revoke_record_len sb = 8 then rbind (rd_range d p 8) (\<lambda>bs. Inr (to_be64 (fst (get64 bs))))
      else rbind (raw32 d p) (\<lambda>v. Inr (ucast (to_be32 v))))"

fun revoke_entries :: "nat \<Rightarrow> jbd_sb \<Rightarrow> u8 list \<Rightarrow> nat \<Rightarrow> recover_info \<Rightarrow> recover_info res" where
  "revoke_entries 0 sb d p info = Inr info"
| "revoke_entries (Suc n) sb d p info =
     rbind (revoke_entry_at sb d p) (\<lambda>block.
     revoke_entries n sb d (p + revoke_record_len sb) (jbd_add_revoke_block_tags info block))"

text \<open>The size of the header is a 64-bit number, the count a 32-bit one.\<close>

definition jbd_build_revoke_tree :: "jbd_sb \<Rightarrow> u8 list \<Rightarrow> recover_info \<Rightarrow> recover_info res" where
  "jbd_build_revoke_tree sb d info =
     rbind (jbd_get32 d 12) (\<lambda>count.
     let nr_entries = ucast ((ucast count - 16 :: u64) div of_nat (revoke_record_len sb)) :: u32
     in revoke_entries (unat nr_entries) sb d 16 info)"

section \<open>The log\<close>

datatype jbd_action = ACTION_SCAN | ACTION_REVOKE | ACTION_RECOVER

text \<open>A block of the log that belongs to the current transaction; the result tells whether the log ends here.\<close>

definition log_block ::
    "'d ext4_blockdev_iface \<Rightarrow> jbd_action \<Rightarrow> u32 \<Rightarrow> ext4_block \<Rightarrow> recover_info \<Rightarrow> 'd jstate \<times> u32 \<Rightarrow>
     (u32 \<times> recover_info \<times> bool) res \<times> 'd jstate \<times> u32" where
  "log_block io act tid b info s =
     sbind (sread (\<lambda>s. jbd_data b (fst s)) s) (\<lambda>d s.
     sbind (sread (\<lambda>s. jbd_get32 d 4) s) (\<lambda>blocktype s.
       if blocktype = JBD_DESCRIPTOR_BLOCK then
         sbind (sread (\<lambda>s. jbd_verify_meta_csum (js_sb (fst s)) d) s) (\<lambda>ok s.
           if \<not> ok then (Inr (tid, info, True), s)
           else sbind (if act = ACTION_RECOVER then jbd_replay_descriptor_block io info tid b s
                       else jbd_debug_descriptor_block b s) (\<lambda>_ s. (Inr (tid, info, False), s)))
       else if blocktype = JBD_COMMIT_BLOCK then
         sbind (sread (\<lambda>s. jbd_verify_commit_csum (js_sb (fst s)) d) s) (\<lambda>ok s.
           if \<not> ok then (Inr (tid, info, True), s)
           else (Inr (tid + 1, if act = ACTION_SCAN then info\<lparr> ri_trans_cnt := ri_trans_cnt info + 1 \<rparr> else info, False), s))
       else if blocktype = JBD_REVOKE_BLOCK then
         sbind (sread (\<lambda>s. jbd_verify_meta_csum (js_sb (fst s)) d) s) (\<lambda>ok s.
           if \<not> ok then (Inr (tid, info, True), s)
           else if act = ACTION_REVOKE then
             sbind (sread (\<lambda>s. jbd_build_revoke_tree (js_sb (fst s)) d (info\<lparr> ri_this_trans_id := tid \<rparr>)) s) (\<lambda>info s.
             (Inr (tid, info, False), s))
           else (Inr (tid, info, False), s))
       else (Inr (tid, info, True), s)))"

text \<open>
  The loop over the log; its result is the transaction reached. A log can make it run forever, so the loop has
  fuel.
\<close>

fun log_loop ::
    "nat \<Rightarrow> 'd ext4_blockdev_iface \<Rightarrow> jbd_action \<Rightarrow> u32 \<Rightarrow> u32 \<Rightarrow> u32 \<Rightarrow> recover_info \<Rightarrow> 'd jstate \<Rightarrow>
     (u32 \<times> recover_info) res \<times> 'd jstate" where
  "log_loop 0 io act start tid pos info s = (Inl EHANG, s)"
| "log_loop (Suc fuel) io act start tid pos info s =
     (if act \<noteq> ACTION_SCAN \<and> trans_id_diff tid (ri_last_trans_id info) > 0 then (Inr (tid, info), s)
      else
        sbind (jbd_block_get io pos s) (\<lambda>b s.
        sbind (sread (\<lambda>s. rbind (jbd_data b s) (\<lambda>d. jbd_get32 d 0)) s) (\<lambda>magic s.
        sbind (sread (\<lambda>s. rbind (jbd_data b s) (\<lambda>d. jbd_get32 d 8)) s) (\<lambda>seq s.
          if magic \<noteq> JBD_MAGIC_NUMBER then
            sbind (sforget (jbd_block_set io b s)) (\<lambda>_ s. (Inr (tid, info), s))
          else if seq \<noteq> tid then
            sbind (sforget (jbd_block_set io b s)) (\<lambda>_ s. (if act \<noteq> ACTION_SCAN then Inl EIO else Inr (tid, info), s))
          else
            case log_block io act tid b info (s, pos) of
              (Inl e, s, _) \<Rightarrow> (Inl e, s)
            | (Inr (tid, info, log_end), s, pos) \<Rightarrow>
                sbind (sforget (jbd_block_set io b s)) (\<lambda>_ s.
                let pos = wrap (js_sb s) (pos + 1)
                in if log_end \<or> pos = start then (Inr (tid, info), s)
                   else log_loop fuel io act start tid pos info s)))))"

definition jbd_iterate_log ::
    "nat \<Rightarrow> 'd ext4_blockdev_iface \<Rightarrow> recover_info \<Rightarrow> jbd_action \<Rightarrow> 'd jstate \<Rightarrow> recover_info res \<times> 'd jstate" where
  "jbd_iterate_log fuel io info act s =
     (let start_trans_id = js_sequence (js_sb s); start = js_start (js_sb s);
          info = (if act = ACTION_SCAN then info\<lparr> ri_trans_cnt := 0 \<rparr> else info)
      in if act \<noteq> ACTION_SCAN \<and> ri_trans_cnt info = 0 then (Inr info, s)
         else
           sbind (log_loop fuel io act start start_trans_id start info s) (\<lambda>(tid, info) s.
           (Inr (if act = ACTION_SCAN
                 then info\<lparr> ri_start_trans_id := start_trans_id,
                            ri_last_trans_id := (if trans_id_diff tid start_trans_id > 0 then tid - 1 else tid) \<rparr>
                 else info), s)))"

text \<open>The local \<open>info\<close> starts undefined; the scan sets every member before it is read.\<close>

definition info_start :: recover_info where
  "info_start = \<lparr> ri_start_trans_id = 0, ri_last_trans_id = 0, ri_this_trans_id = 0, ri_trans_cnt = 0,
     ri_revoke_root = Map.empty \<rparr>"

definition jbd_recovered :: "'d ext4_blockdev_iface \<Rightarrow> u32 \<Rightarrow> 'd jstate \<Rightarrow> unit res \<times> 'd jstate" where
  "jbd_recovered io tid s =
     (let fs = fst (fst s);
          sb = (fs_sb fs)\<lparr> sb_features_incompatible := sb_features_incompatible (fs_sb fs) AND NOT EXT4_FINCOM_RECOVER \<rparr>;
          jf = \<lparr> jf_sb = (js_sb s)\<lparr> js_start := 0, js_sequence := tid \<rparr>, jf_dirty = True \<rparr>
      in case ext4_sb_write io sb (fs_bdev fs) of
           (r, sb', bd) \<Rightarrow> (r, ((fs\<lparr> fs_bdev := bd, fs_sb := sb' \<rparr>, snd (fst s)), jf)))"

definition jbd_recover :: "nat \<Rightarrow> 'd ext4_blockdev_iface \<Rightarrow> 'd jstate \<Rightarrow> unit res \<times> 'd jstate" where
  "jbd_recover fuel io s =
     (if js_start (js_sb s) = 0 then (Inr (), s)
      else
        sbind (jbd_iterate_log fuel io info_start ACTION_SCAN s) (\<lambda>info s.
        sbind (jbd_iterate_log fuel io info ACTION_REVOKE s) (\<lambda>info s.
        sbind (jbd_iterate_log fuel io info ACTION_RECOVER s) (\<lambda>info s.
        jbd_recovered io (ri_last_trans_id info) s))))"

end
