(* ===== verification/JbdSpec.thy ===== *)
theory JbdSpec
  imports JbdRecover FsRules
begin

text \<open>
  The format of the journal: the accessors are inverse to each other, what is written as a block tag is read back
  as the same tag, a table of tags is walked tag by tag, and the checksums that are set are the checksums that
  verify, with the exception of the commit block.
\<close>

section \<open>Big-endian accessors\<close>

lemma low_bits:
  "bit (0xff :: 'a::len word) n \<longleftrightarrow> n < 8 \<and> n < LENGTH('a)"
proof -
  have "(0xff :: 'a word) = mask 8" by (simp add: mask_eq_exp_minus_1)
  then show ?thesis by (simp only: bit_mask_iff) auto
qed

lemma byte_mask: "x AND push_bit k (0xff :: 'a::len word) = push_bit k (take_bit 8 (drop_bit k x))"
proof -
  have "(0xff :: 'a word) = mask 8" by (simp add: mask_eq_exp_minus_1)
  then have "x AND push_bit k 0xff = x AND push_bit k (mask 8)" by simp
  also have "\<dots> = push_bit k (take_bit 8 (drop_bit k x))" by (rule bit_word_eqI) (auto simp: bit_simps)
  finally show ?thesis .
qed

lemma reorder16_bytes: "reorder16 n = push_bit 8 (take_bit 8 n) OR take_bit 8 (drop_bit 8 n)"
proof -
  have "(0xff00 :: u16) = push_bit 8 0xff" by simp
  then show ?thesis
    using byte_mask [of n 8] byte_mask [of n 0]
    by (simp add: reorder16_def drop_bit_push_bit) (rule bit_word_eqI, auto simp: bit_simps)
qed

lemma bit_reorder16: "n < 16 \<Longrightarrow> bit (reorder16 w) n \<longleftrightarrow> bit w (8 * (1 - n div 8) + n mod 8)"
proof -
  assume n: "n < 16"
  then consider "n < 8" | "8 \<le> n" "n < 16" by linarith
  then show ?thesis
  proof cases
    case 1
    then show ?thesis using n by (auto simp: reorder16_bytes bit_simps)
  next
    case 2
    then have "n div 8 = 1" "n mod 8 = n - 8" by presburger+
    then show ?thesis using 2 by (auto simp: reorder16_bytes bit_simps)
  qed
qed

lemma reorder32_bytes:
  "reorder32 n = push_bit 24 (take_bit 8 n) OR push_bit 16 (take_bit 8 (drop_bit 8 n)) OR
     push_bit 8 (take_bit 8 (drop_bit 16 n)) OR take_bit 8 (drop_bit 24 n)"
proof -
  have c: "(0xff00 :: u32) = push_bit 8 0xff" "(0xff0000 :: u32) = push_bit 16 0xff" "(0xff000000 :: u32) = push_bit 24 0xff"
    by simp_all
  have 0: "n AND 0xff = take_bit 8 n" using byte_mask [of n 0] by simp
  show ?thesis unfolding reorder32_def c byte_mask 0
    by (rule bit_word_eqI) (auto simp: bit_simps)
qed

lemma bit_reorder32: "n < 32 \<Longrightarrow> bit (reorder32 w) n \<longleftrightarrow> bit w (8 * (3 - n div 8) + n mod 8)"
proof -
  assume n: "n < 32"
  then consider "n < 8" | "8 \<le> n" "n < 16" | "16 \<le> n" "n < 24" | "24 \<le> n" "n < 32" by linarith
  then show ?thesis
  proof cases
    case 1
    then show ?thesis by (auto simp: reorder32_bytes bit_simps)
  next
    case 2
    then have "n div 8 = 1" "n mod 8 = n - 8" by presburger+
    then show ?thesis using 2 by (auto simp: reorder32_bytes bit_simps)
  next
    case 3
    then have "n div 8 = 2" "n mod 8 = n - 16" by presburger+
    then show ?thesis using 3 by (auto simp: reorder32_bytes bit_simps)
  next
    case 4
    then have "n div 8 = 3" "n mod 8 = n - 24" by presburger+
    then show ?thesis using 4 by (auto simp: reorder32_bytes bit_simps)
  qed
qed

lemma to_be32_invol [simp]: "to_be32 (to_be32 w) = w"
proof (rule bit_word_eqI)
  fix n assume "n < LENGTH(32)"
  then have n: "n < 32" by simp
  then have k: "n div 8 \<le> 3" and r: "n mod 8 < 8" by simp_all
  let ?m = "8 * (3 - n div 8) + n mod 8"
  have m: "?m div 8 = 3 - n div 8" "?m mod 8 = n mod 8" using r by simp_all
  have "?m < 32" using k r by linarith
  then have "bit (to_be32 (to_be32 w)) n = bit w (8 * (3 - (3 - n div 8)) + n mod 8)"
    using n by (simp only: to_be32_def bit_reorder32 m)
  also have "8 * (3 - (3 - n div 8)) + n mod 8 = n" using k by simp
  finally show "bit (to_be32 (to_be32 w)) n = bit w n" .
qed

lemma to_be16_invol [simp]: "to_be16 (to_be16 w) = w"
proof (rule bit_word_eqI)
  fix n assume "n < LENGTH(16)"
  then have n: "n < 16" by simp
  then have k: "n div 8 \<le> 1" and r: "n mod 8 < 8" by simp_all
  let ?m = "8 * (1 - n div 8) + n mod 8"
  have m: "?m div 8 = 1 - n div 8" "?m mod 8 = n mod 8" using r by simp_all
  have "?m < 16" using k r by linarith
  then have "bit (to_be16 (to_be16 w)) n = bit w (8 * (1 - (1 - n div 8)) + n mod 8)"
    using n by (simp only: to_be16_def bit_reorder16 m)
  also have "8 * (1 - (1 - n div 8)) + n mod 8 = n" using k by simp
  finally show "bit (to_be16 (to_be16 w)) n = bit w n" .
qed

lemma to_be32_0 [simp]: "to_be32 0 = 0" "to_be16 0 = 0"
  by (simp_all add: to_be32_def reorder32_def to_be16_def reorder16_def)

lemma to_be32_eq_iff: "to_be32 x = to_be32 y \<longleftrightarrow> x = y"
  by (metis to_be32_invol)

section \<open>Fields\<close>

text \<open>\<open>kept d d' a b\<close>: the bytes of \<open>d'\<close> outside of \<open>[a, b)\<close> are those of \<open>d\<close>.\<close>

definition kept :: "u8 list \<Rightarrow> u8 list \<Rightarrow> nat \<Rightarrow> nat \<Rightarrow> bool" where
  "kept d d' a b \<longleftrightarrow>
     length d' = length d \<and> (\<forall>q n. q + n \<le> a \<or> b \<le> q \<longrightarrow> rd_range d' q n = rd_range d q n)"

lemma kept_refl [intro]: "kept d d a b" by (simp add: kept_def)

lemma kept_trans: "kept d d' a b \<Longrightarrow> kept d' d'' a b \<Longrightarrow> kept d d'' a b" by (simp add: kept_def)

lemma kept_mono: "kept d d' a b \<Longrightarrow> a' \<le> a \<Longrightarrow> b \<le> b' \<Longrightarrow> kept d d' a' b'"
  unfolding kept_def by (meson order_trans)

lemma kept_length: "kept d d' a b \<Longrightarrow> length d' = length d" by (simp add: kept_def)

lemma kept_rd: "kept d d' a b \<Longrightarrow> q + n \<le> a \<or> b \<le> q \<Longrightarrow> rd_range d' q n = rd_range d q n" unfolding kept_def by blast

lemma kept_get:
  assumes "kept d d' a b"
  shows "p + 4 \<le> a \<or> b \<le> p \<Longrightarrow> jbd_get32 d' p = jbd_get32 d p"
    and "p + 2 \<le> a \<or> b \<le> p \<Longrightarrow> jbd_get16 d' p = jbd_get16 d p"
  using assms by (simp_all add: jbd_get32_def raw32_def jbd_get16_def kept_rd)

lemma wr_kept:
  assumes "p + length bs \<le> length d"
  shows "\<exists>d'. wr_range d p bs = Inr d' \<and> kept d d' p (p + length bs) \<and> rd_range d' p (length bs) = Inr bs"
  using assms by (auto simp: wr_range_patch kept_def rd_patch rd_patch_other intro!: exI [of _ "patch d p bs"])

lemma set32_ok:
  assumes "p + 4 \<le> length d"
  shows "\<exists>d'. jbd_set32 d p v = Inr d' \<and> kept d d' p (p + 4) \<and> jbd_get32 d' p = Inr v"
  using wr_kept [of p "enc32 (to_be32 v)" d] assms by (auto simp: jbd_set32_def jbd_get32_def raw32_def)

lemma set16_ok:
  assumes "p + 2 \<le> length d"
  shows "\<exists>d'. jbd_set16 d p v = Inr d' \<and> kept d d' p (p + 2) \<and> jbd_get16 d' p = Inr v"
  using wr_kept [of p "enc16 (to_be16 v)" d] assms by (auto simp: jbd_set16_def jbd_get16_def)

lemma rd_part: "rd_range d p n = Inr bs \<Longrightarrow> k + m \<le> n \<Longrightarrow> rd_range d (p + k) m = Inr (take m (drop k bs))"
  by (auto simp: rd_range_def drop_take min_def add.commute split: if_splits)

lemma get32_zeros: "rd_range d p n = Inr (replicate n 0) \<Longrightarrow> k + 4 \<le> n \<Longrightarrow> jbd_get32 d (p + k) = Inr 0"
  using rd_part [of d p n "replicate n 0" k 4]
  by (simp add: jbd_get32_def raw32_def get32_def numeral_nat)

lemma get16_zeros: "rd_range d p n = Inr (replicate n 0) \<Longrightarrow> k + 2 \<le> n \<Longrightarrow> jbd_get16 d (p + k) = Inr 0"
  using rd_part [of d p n "replicate n 0" k 2]
  by (simp add: jbd_get16_def get16_def numeral_nat)

section \<open>One tag\<close>

text \<open>The bytes a tag clears, and the end of the part of it that holds flags and checksum.\<close>

definition tag_width :: "jbd_sb \<Rightarrow> nat" where
  "tag_width s = (if JBD_HAS_INCOMPAT_FEATURE s JBD_FEATURE_INCOMPAT_CSUM_V3 then 16 else 12)"

definition tag_mid :: "jbd_sb \<Rightarrow> nat" where
  "tag_mid s = (if JBD_HAS_INCOMPAT_FEATURE s JBD_FEATURE_INCOMPAT_CSUM_V3 then 16 else 8)"

lemma tag_sizes:
  "tag_mid s \<le> jbd_tag_bytes s" "8 \<le> tag_mid s" "12 \<le> tag_width s" "tag_mid s \<le> tag_width s"
  "JBD_HAS_INCOMPAT_FEATURE s JBD_FEATURE_INCOMPAT_64BIT \<Longrightarrow> 12 \<le> jbd_tag_bytes s"
  by (simp_all add: tag_mid_def tag_width_def jbd_tag_bytes_def Let_def)

text \<open>The fields of a tag: the two halves of its block address and its flags.\<close>

definition tag_holds :: "jbd_sb \<Rightarrow> u8 list \<Rightarrow> nat \<Rightarrow> u32 \<Rightarrow> u32 \<Rightarrow> u32 \<Rightarrow> bool" where
  "tag_holds s d p lo hi f \<longleftrightarrow>
     jbd_get32 d p = Inr lo \<and> (JBD_HAS_INCOMPAT_FEATURE s JBD_FEATURE_INCOMPAT_64BIT \<longrightarrow> jbd_get32 d (p + 8) = Inr hi) \<and>
     tag_flags s d p = Inr f"

lemma tag_holds_kept:
  assumes "tag_holds s d p lo hi f" and "kept d d' a b" and "b \<le> p \<or> p + tag_mid s \<le> a"
    and "JBD_HAS_INCOMPAT_FEATURE s JBD_FEATURE_INCOMPAT_64BIT \<Longrightarrow> b \<le> p \<or> p + 12 \<le> a"
  shows "tag_holds s d' p lo hi f"
proof -
  have m: "8 \<le> tag_mid s" by (rule tag_sizes)
  have "jbd_get32 d' p = jbd_get32 d p" by (rule kept_get(1) [OF assms(2)]) (use assms(3) m in auto)
  moreover have "tag_flags s d' p = tag_flags s d p"
    using kept_get [OF assms(2), of "p + 4"] kept_get [OF assms(2), of "p + 6"] assms(3) m by (auto simp: tag_flags_def)
  moreover have "jbd_get32 d' (p + 8) = jbd_get32 d (p + 8)" if "JBD_HAS_INCOMPAT_FEATURE s JBD_FEATURE_INCOMPAT_64BIT"
    by (rule kept_get(1) [OF assms(2)]) (use assms(4) [OF that] in auto)
  ultimately show ?thesis using assms(1) by (simp add: tag_holds_def)
qed

lemma tag_flag_set_ok:
  assumes h: "tag_holds s d p lo hi f" and l: "p + tag_width s \<le> length d" and f: "flag < 256"
  shows "\<exists>d'. tag_flag_set s p flag d = Inr d' \<and> kept d d' (p + 4) (p + 8) \<and> tag_holds s d' p lo hi (f OR flag)"
proof -
  have other: "jbd_get32 d' p = jbd_get32 d p" "jbd_get32 d' (p + 8) = jbd_get32 d (p + 8)" if "kept d d' (p + 4) (p + 8)" for d'
    using kept_get(1) [OF that] by simp_all
  show ?thesis
  proof (cases "JBD_HAS_INCOMPAT_FEATURE s JBD_FEATURE_INCOMPAT_CSUM_V3")
    case True
    then have "p + 4 + 4 \<le> length d" using l by (simp add: tag_width_def)
    from set32_ok [OF this, of "f OR flag"] obtain d' where
      1: "jbd_set32 d (p + 4) (f OR flag) = Inr d'" "kept d d' (p + 4) (p + 8)" "jbd_get32 d' (p + 4) = Inr (f OR flag)"
      by (auto simp: add.assoc)
    then show ?thesis using h True other [OF 1(2)] by (auto simp: tag_flag_set_def tag_holds_def tag_flags_def)
  next
    case False
    then have l6: "p + 6 + 2 \<le> length d" using l by (simp add: tag_width_def)
    obtain g where g: "jbd_get16 d (p + 6) = Inr g" "f = ucast g"
      using h False by (auto simp: tag_holds_def tag_flags_def rbind_Inr_iff)
    have e: "p + 6 + 2 = p + 8" by simp
    from set16_ok [OF l6, of "g OR ucast flag", unfolded e] obtain d' where
      1: "jbd_set16 d (p + 6) (g OR ucast flag) = Inr d'" "kept d d' (p + 6) (p + 8)" "jbd_get16 d' (p + 6) = Inr (g OR ucast flag)"
      by blast
    have k: "kept d d' (p + 4) (p + 8)" by (rule kept_mono [OF 1(2)]) simp_all
    have "unat flag < 256" using f by (simp add: word_less_nat_alt)
    then have "unat (ucast flag :: u16) = unat flag" by (intro unat_ucast_small) simp
    moreover have "unat (ucast (ucast flag :: u16) :: u32) = unat (ucast flag :: u16)"
      by (rule unat_ucast_small) (rule order.strict_trans2 [OF unsigned_less], simp)
    ultimately have "ucast (ucast flag :: u16) = flag" by (simp only: word_unat_eq_iff)
    then have "ucast (g OR ucast flag) = f OR flag" unfolding g(2)
      by (metis unsigned_or_eq)
    then show ?thesis using h False other [OF k] 1 g k by (auto simp: tag_flag_set_def tag_holds_def tag_flags_def)
  qed
qed

lemma tag_csum_set_ok:
  assumes h: "tag_holds s d p lo hi f" and l: "p + tag_width s \<le> length d"
    and x: "\<not> (JBD_HAS_INCOMPAT_FEATURE s JBD_FEATURE_INCOMPAT_CSUM_V2 \<and> JBD_HAS_INCOMPAT_FEATURE s JBD_FEATURE_INCOMPAT_CSUM_V3)"
  shows "\<exists>d'. jbd_block_tag_csum_set s p c d = Inr d' \<and> kept d d' (p + 4) (p + tag_mid s) \<and> tag_holds s d' p lo hi f"
proof -
  consider "jbd_has_csum s = 0" | "jbd_has_csum s = 2" "\<not> JBD_HAS_INCOMPAT_FEATURE s JBD_FEATURE_INCOMPAT_CSUM_V3"
    | "jbd_has_csum s = 3" "JBD_HAS_INCOMPAT_FEATURE s JBD_FEATURE_INCOMPAT_CSUM_V3"
    using x
    by (cases "JBD_HAS_INCOMPAT_FEATURE s JBD_FEATURE_INCOMPAT_CSUM_V2"; cases "JBD_HAS_INCOMPAT_FEATURE s JBD_FEATURE_INCOMPAT_CSUM_V3")
       (simp_all add: jbd_has_csum_def)
  then show ?thesis
  proof cases
    case 1
    then show ?thesis using h by (auto simp: jbd_block_tag_csum_set_def)
  next
    case 2
    let ?b = "enc16 (ucast (to_be32 c))"
    have "p + 4 + length ?b \<le> length d" using l 2(2) by (simp add: tag_width_def)
    moreover have "p + 4 + length ?b = p + 6" by simp
    ultimately obtain d' where d': "wr_range d (p + 4) ?b = Inr d'" "kept d d' (p + 4) (p + 6)"
      using wr_kept [of "p + 4" ?b d] by metis
    have "jbd_get32 d' p = jbd_get32 d p" "jbd_get32 d' (p + 8) = jbd_get32 d (p + 8)" "jbd_get16 d' (p + 6) = jbd_get16 d (p + 6)"
      using kept_get [OF d'(2)] by simp_all
    moreover have "kept d d' (p + 4) (p + tag_mid s)" by (rule kept_mono [OF d'(2)]) (simp_all add: tag_mid_def)
    ultimately show ?thesis using d' h 2 by (auto simp: jbd_block_tag_csum_set_def tag_holds_def tag_flags_def)
  next
    case 3
    let ?b = "enc32 (to_be32 c)"
    have "p + 12 + length ?b \<le> length d" using l 3(2) by (simp add: tag_width_def)
    moreover have "p + 12 + length ?b = p + 16" by simp
    ultimately obtain d' where d': "wr_range d (p + 12) ?b = Inr d'" "kept d d' (p + 12) (p + 16)"
      using wr_kept [of "p + 12" ?b d] by metis
    have "jbd_get32 d' p = jbd_get32 d p" "jbd_get32 d' (p + 8) = jbd_get32 d (p + 8)" "jbd_get32 d' (p + 4) = jbd_get32 d (p + 4)"
      using kept_get [OF d'(2)] by simp_all
    moreover have "kept d d' (p + 4) (p + tag_mid s)" by (rule kept_mono [OF d'(2)]) (simp_all add: tag_mid_def 3)
    ultimately show ?thesis using d' h 3 by (auto simp: jbd_block_tag_csum_set_def tag_holds_def tag_flags_def)
  qed
qed

lemma tag_fields_ok:
  assumes l: "p + tag_width s \<le> length d"
  shows "\<exists>d1 d2 d3. wr_range d p (replicate (tag_width s) 0) = Inr d1 \<and> jbd_set32 d1 p lo = Inr d2 \<and>
    (if JBD_HAS_INCOMPAT_FEATURE s JBD_FEATURE_INCOMPAT_64BIT then jbd_set32 d2 (p + 8) hi else Inr d2) = Inr d3 \<and>
    kept d d3 p (p + tag_width s) \<and> tag_holds s d3 p lo hi 0"
proof -
  have w: "12 \<le> tag_width s" by (rule tag_sizes)
  obtain d1 where d1: "wr_range d p (replicate (tag_width s) 0) = Inr d1" "kept d d1 p (p + tag_width s)"
      "rd_range d1 p (tag_width s) = Inr (replicate (tag_width s) 0)"
    using wr_kept [of p "replicate (tag_width s) 0" d] l by auto
  have f1: "tag_flags s d1 p = Inr 0"
    using get32_zeros [OF d1(3), of 4] get16_zeros [OF d1(3), of 6] w by (simp add: tag_flags_def)
  have "p + 4 \<le> length d1" using l w kept_length [OF d1(2)] by simp
  from set32_ok [OF this, of lo] obtain d2 where d2: "jbd_set32 d1 p lo = Inr d2" "kept d1 d2 p (p + 4)" "jbd_get32 d2 p = Inr lo"
    by blast
  have "jbd_get32 d2 (p + 4) = jbd_get32 d1 (p + 4)" "jbd_get16 d2 (p + 6) = jbd_get16 d1 (p + 6)"
    using kept_get(1) [OF d2(2), of "p + 4"] kept_get(2) [OF d2(2), of "p + 6"] by simp_all
  then have f2: "tag_flags s d2 p = Inr 0" using f1 by (simp only: tag_flags_def)
  have k2: "kept d d2 p (p + tag_width s)" by (rule kept_trans [OF d1(2) kept_mono [OF d2(2)]]) (use w in simp_all)
  show ?thesis
  proof (cases "JBD_HAS_INCOMPAT_FEATURE s JBD_FEATURE_INCOMPAT_64BIT")
    case True
    have e: "p + 8 + 4 = p + 12" by simp
    have "p + 8 + 4 \<le> length d2" using l w kept_length [OF k2] by simp
    from set32_ok [OF this, of hi, unfolded e] obtain d3 where
      d3: "jbd_set32 d2 (p + 8) hi = Inr d3" "kept d2 d3 (p + 8) (p + 12)" "jbd_get32 d3 (p + 8) = Inr hi"
      by blast
    have "jbd_get32 d3 p = jbd_get32 d2 p" "jbd_get32 d3 (p + 4) = jbd_get32 d2 (p + 4)" "jbd_get16 d3 (p + 6) = jbd_get16 d2 (p + 6)"
      using kept_get(1) [OF d3(2), of p] kept_get(1) [OF d3(2), of "p + 4"] kept_get(2) [OF d3(2), of "p + 6"] by simp_all
    moreover from this have "tag_flags s d3 p = Inr 0" using f2 by (simp only: tag_flags_def)
    ultimately have "tag_holds s d3 p lo hi 0" using d2(3) d3(3) by (simp add: tag_holds_def)
    moreover have "kept d d3 p (p + tag_width s)" by (rule kept_trans [OF k2 kept_mono [OF d3(2)]]) (use w in simp_all)
    ultimately show ?thesis using True d1(1) d2(1) d3(1) by auto
  next
    case False
    then show ?thesis using d1(1) d2(1,3) f2 k2 by (auto simp: tag_holds_def)
  qed
qed

text \<open>The bytes written for a tag, and the tag as it is read back.\<close>

definition tag_room :: "jbd_sb \<Rightarrow> tag_info \<Rightarrow> nat" where
  "tag_room s t = (if ti_uuid_exist t then jbd_tag_bytes s + 16 else jbd_tag_bytes s)"

definition tag_read :: "jbd_sb \<Rightarrow> tag_info \<Rightarrow> tag_info" where
  "tag_read s t = t\<lparr> ti_tag_bytes := tag_room s t, ti_uuid := (if ti_uuid_exist t then ti_uuid t else []), ti_checksum := 0 \<rparr>"

definition tag_ok :: "jbd_sb \<Rightarrow> tag_info \<Rightarrow> bool" where
  "tag_ok s t \<longleftrightarrow>
     (ti_uuid_exist t \<longrightarrow> length (ti_uuid t) = 16) \<and>
     (JBD_HAS_INCOMPAT_FEATURE s JBD_FEATURE_INCOMPAT_64BIT \<or> ti_block t < 2 ^ 32)"

definition tag_bits :: "tag_info \<Rightarrow> u32" where
  "tag_bits t = (if ti_uuid_exist t then 0 else 2) OR (if ti_last_tag t then 8 else 0) OR (if ti_is_escape t then 1 else 0)"

lemma tag_bits_split:
  "tag_bits t AND JBD_FLAG_ESCAPE \<noteq> 0 \<longleftrightarrow> ti_is_escape t" "tag_bits t AND JBD_FLAG_LAST_TAG \<noteq> 0 \<longleftrightarrow> ti_last_tag t"
  "tag_bits t AND JBD_FLAG_SAME_UUID \<noteq> 0 \<longleftrightarrow> \<not> ti_uuid_exist t"
  by (simp_all add: tag_bits_def jbd_consts)

lemma tag_uuid_ok:
  assumes h: "tag_holds s d p lo hi 0" and l: "p + tag_width s \<le> length d" "p + tag_room s t \<le> length d"
    and ok: "tag_ok s t" and r: "int (tag_room s t) \<le> remain"
  shows "\<exists>d'. (if ti_uuid_exist t then
                    if remain - int (jbd_tag_bytes s) < int UUID_SIZE then Inl EINVAL
                    else rbind (wr_range d (p + jbd_tag_bytes s) (ti_uuid t)) (\<lambda>d.
                         Inr (d, t\<lparr> ti_tag_bytes := jbd_tag_bytes s + UUID_SIZE \<rparr>))
                  else rbind (tag_flag_set s p JBD_FLAG_SAME_UUID d) (\<lambda>d. Inr (d, t))) =
      Inr (d', if ti_uuid_exist t then t\<lparr> ti_tag_bytes := jbd_tag_bytes s + UUID_SIZE \<rparr> else t) \<and>
    kept d d' (p + 4) (p + max (tag_width s) (tag_room s t)) \<and> tag_holds s d' p lo hi (if ti_uuid_exist t then 0 else 2) \<and>
    (ti_uuid_exist t \<longrightarrow> rd_range d' (p + jbd_tag_bytes s) UUID_SIZE = Inr (ti_uuid t))"
proof (cases "ti_uuid_exist t")
  case True
  have u: "length (ti_uuid t) = 16" "tag_room s t = jbd_tag_bytes s + 16" using ok True by (simp_all add: tag_ok_def tag_room_def)
  then have "p + jbd_tag_bytes s + length (ti_uuid t) \<le> length d" using l(2) by simp
  from wr_kept [OF this] u obtain d' where d': "wr_range d (p + jbd_tag_bytes s) (ti_uuid t) = Inr d'"
    "kept d d' (p + jbd_tag_bytes s) (p + jbd_tag_bytes s + 16)" "rd_range d' (p + jbd_tag_bytes s) 16 = Inr (ti_uuid t)" by auto
  have "tag_holds s d' p lo hi 0" by (rule tag_holds_kept [OF h d'(2)]) (use tag_sizes [of s] in auto)
  moreover have "kept d d' (p + 4) (p + max (tag_width s) (tag_room s t))"
    by (rule kept_mono [OF d'(2)]) (use u tag_sizes [of s] in auto)
  ultimately show ?thesis using True d' u r by (auto simp: UUID_SIZE_def)
next
  case False
  from tag_flag_set_ok [OF h l(1), of JBD_FLAG_SAME_UUID] obtain d' where
    d': "tag_flag_set s p JBD_FLAG_SAME_UUID d = Inr d'" "kept d d' (p + 4) (p + 8)" "tag_holds s d' p lo hi 2"
    by (auto simp: jbd_consts)
  have "kept d d' (p + 4) (p + max (tag_width s) (tag_room s t))"
    by (rule kept_mono [OF d'(2)]) (use tag_sizes [of s] in auto)
  then show ?thesis using False d' by auto
qed

lemma tag_written:
  assumes x: "\<not> (JBD_HAS_INCOMPAT_FEATURE s JBD_FEATURE_INCOMPAT_CSUM_V2 \<and> JBD_HAS_INCOMPAT_FEATURE s JBD_FEATURE_INCOMPAT_CSUM_V3)"
    and ok: "tag_ok s t" and l: "p + tag_width s \<le> length d" "p + tag_room s t \<le> length d"
    and r: "int (tag_room s t) \<le> remain"
  shows "\<exists>d'. jbd_write_block_tag s d p remain t = Inr (d', t\<lparr> ti_tag_bytes := tag_room s t \<rparr>) \<and>
    kept d d' p (p + max (tag_width s) (tag_room s t)) \<and>
    tag_holds s d' p (ucast (ti_block t)) (ucast (drop_bit 32 (ti_block t))) (tag_bits t) \<and>
    (ti_uuid_exist t \<longrightarrow> rd_range d' (p + jbd_tag_bytes s) UUID_SIZE = Inr (ti_uuid t))"
proof -
  let ?lo = "ucast (ti_block t) :: u32" and ?hi = "ucast (drop_bit 32 (ti_block t)) :: u32"
  let ?t = "t\<lparr> ti_tag_bytes := jbd_tag_bytes s \<rparr>" let ?e = "p + max (tag_width s) (tag_room s t)"
  let ?u = "if ti_uuid_exist t then ?t\<lparr> ti_tag_bytes := jbd_tag_bytes s + UUID_SIZE \<rparr> else ?t"
  obtain d1 d2 d3 where d: "wr_range d p (replicate (tag_width s) 0) = Inr d1" "jbd_set32 d1 p ?lo = Inr d2"
      "(if JBD_HAS_INCOMPAT_FEATURE s JBD_FEATURE_INCOMPAT_64BIT then jbd_set32 d2 (p + 8) ?hi else Inr d2) = Inr d3"
      "kept d d3 p (p + tag_width s)" "tag_holds s d3 p ?lo ?hi 0"
    using tag_fields_ok [OF l(1)] by blast
  have l3: "p + tag_width s \<le> length d3" "p + tag_room s ?t \<le> length d3" "tag_ok s ?t" "int (tag_room s ?t) \<le> remain"
    using l ok r kept_length [OF d(4)] by (simp_all add: tag_room_def tag_ok_def)
  obtain d4 where d4: "(if ti_uuid_exist ?t then
                    if remain - int (jbd_tag_bytes s) < int UUID_SIZE then Inl EINVAL
                    else rbind (wr_range d3 (p + jbd_tag_bytes s) (ti_uuid ?t)) (\<lambda>d.
                         Inr (d, ?t\<lparr> ti_tag_bytes := jbd_tag_bytes s + UUID_SIZE \<rparr>))
                  else rbind (tag_flag_set s p JBD_FLAG_SAME_UUID d3) (\<lambda>d. Inr (d, ?t))) = Inr (d4, ?u)"
      "kept d3 d4 (p + 4) ?e" "tag_holds s d4 p ?lo ?hi (if ti_uuid_exist t then 0 else 2)"
      "ti_uuid_exist t \<longrightarrow> rd_range d4 (p + jbd_tag_bytes s) UUID_SIZE = Inr (ti_uuid t)"
    using tag_uuid_ok [OF d(5) l3(1,2,3,4)] by (auto simp: tag_room_def)
  have l4: "p + tag_width s \<le> length d4" using l3(1) kept_length [OF d4(2)] by simp
  obtain d5 where d5: "jbd_block_tag_csum_set s p (ti_checksum t) d4 = Inr d5" "kept d4 d5 (p + 4) (p + tag_mid s)"
      "tag_holds s d5 p ?lo ?hi (if ti_uuid_exist t then 0 else 2)" using tag_csum_set_ok [OF d4(3) l4 x] by blast
  have l5: "p + tag_width s \<le> length d5" using l4 kept_length [OF d5(2)] by simp
  obtain d6 where d6: "(if ti_last_tag t then tag_flag_set s p JBD_FLAG_LAST_TAG d5 else Inr d5) = Inr d6" "kept d5 d6 (p + 4) (p + 8)"
      "tag_holds s d6 p ?lo ?hi ((if ti_uuid_exist t then 0 else 2) OR (if ti_last_tag t then 8 else 0))"
    using tag_flag_set_ok [OF d5(3) l5, of JBD_FLAG_LAST_TAG] d5(3) by (cases "ti_last_tag t") (auto simp: jbd_consts)
  have l6: "p + tag_width s \<le> length d6" using l5 kept_length [OF d6(2)] by simp
  obtain d7 where d7: "(if ti_is_escape t then tag_flag_set s p JBD_FLAG_ESCAPE d6 else Inr d6) = Inr d7" "kept d6 d7 (p + 4) (p + 8)"
      "tag_holds s d7 p ?lo ?hi (tag_bits t)"
    using tag_flag_set_ok [OF d6(3) l6, of JBD_FLAG_ESCAPE] d6(3)
    by (cases "ti_is_escape t") (auto simp: jbd_consts tag_bits_def or.assoc)
  have m: "8 \<le> tag_mid s" by (rule tag_sizes)
  have k: "kept d4 d7 (p + 4) (p + tag_mid s)"
    by (rule kept_trans [OF d5(2) kept_trans [OF kept_mono [OF d6(2)] kept_mono [OF d7(2)]]]) (use m in simp_all)
  have "kept d d7 p ?e"
    by (rule kept_trans [OF kept_mono [OF d(4)] kept_trans [OF kept_mono [OF d4(2)] kept_mono [OF k]]]) (use tag_sizes [of s] in auto)
  moreover have "rd_range d7 (p + jbd_tag_bytes s) UUID_SIZE = rd_range d4 (p + jbd_tag_bytes s) UUID_SIZE"
    by (rule kept_rd [OF k]) (use tag_sizes [of s] in simp)
  moreover have "jbd_write_block_tag s d p remain t = Inr (d7, ?u)"
    using r d(1-3) d4(1) d5(1) d6(1) d7(1) tag_sizes(1) [of s]
    by (simp add: jbd_write_block_tag_def Let_def tag_width_def tag_room_def split: if_splits)
  moreover have "?u = t\<lparr> ti_tag_bytes := tag_room s t \<rparr>" by (simp add: tag_room_def UUID_SIZE_def)
  ultimately show ?thesis using d4(4) d7(3) by auto
qed

lemma tag_extracted:
  assumes h: "tag_holds s d p (ucast (ti_block t)) (ucast (drop_bit 32 (ti_block t))) (tag_bits t)"
    and u: "ti_uuid_exist t \<Longrightarrow> rd_range d (p + jbd_tag_bytes s) UUID_SIZE = Inr (ti_uuid t)"
    and ok: "tag_ok s t" and r: "int (tag_room s t) \<le> remain"
  shows "jbd_extract_block_tag s d p (jbd_tag_bytes s) remain = Inr (tag_read s t)"
proof -
  have full: "ucast (ucast (ti_block t) :: u32) OR push_bit 32 (ucast (ucast (drop_bit 32 (ti_block t)) :: u32)) = ti_block t"
    by (rule bit_word_eqI) (auto simp: bit_simps)
  have low: "ucast (ucast (ti_block t) :: u32) = ti_block t" if "ti_block t < 2 ^ 32"
  proof -
    have "unat (ti_block t) < 2 ^ 32" using that by (simp add: word_less_nat_alt)
    then show ?thesis by (simp add: word_unat_eq_iff unat_ucast_small unat_ucast_up)
  qed
  note b = tag_bits_split
  show ?thesis
  proof (cases "JBD_HAS_INCOMPAT_FEATURE s JBD_FEATURE_INCOMPAT_64BIT")
    case True
    then show ?thesis using h u r full
      by (cases "ti_uuid_exist t") (simp_all add: jbd_extract_block_tag_def tag_holds_def Let_def b tag_read_def tag_room_def UUID_SIZE_def)
  next
    case False
    then have "ti_block t < 2 ^ 32" using ok by (simp add: tag_ok_def)
    with False show ?thesis using h u r low
      by (cases "ti_uuid_exist t") (simp_all add: jbd_extract_block_tag_def tag_holds_def Let_def b tag_read_def tag_room_def UUID_SIZE_def)
  qed
qed

section \<open>A table of tags\<close>

text \<open>Tags one behind the other, as a transaction lays them out in a descriptor block.\<close>

fun put_tags :: "jbd_sb \<Rightarrow> tag_info list \<Rightarrow> u8 list \<Rightarrow> nat \<Rightarrow> int \<Rightarrow> (u8 list \<times> nat \<times> int) res" where
  "put_tags s [] d p remain = Inr (d, p, remain)"
| "put_tags s (t # ts) d p remain =
     rbind (jbd_write_block_tag s d p remain t) (\<lambda>(d, t).
     put_tags s ts d (p + ti_tag_bytes t) (remain - int (ti_tag_bytes t)))"

definition tags_room :: "jbd_sb \<Rightarrow> tag_info list \<Rightarrow> nat" where
  "tags_room s ts = sum_list (map (tag_room s) ts)"

text \<open>The tags a walk meets.\<close>

function tags_of :: "jbd_sb \<Rightarrow> u8 list \<Rightarrow> nat \<Rightarrow> int \<Rightarrow> tag_info list" where
  "tags_of s d p sz =
     (if sz = 0 then []
      else case jbd_extract_block_tag s d p (jbd_tag_bytes s) sz of
             Inl _ \<Rightarrow> []
           | Inr t \<Rightarrow> t # (if ti_last_tag t then [] else tags_of s d (p + ti_tag_bytes t) (sz - int (ti_tag_bytes t))))"
  by pat_completeness auto

termination
  by (relation "measure (\<lambda>(s, d, p, sz). nat sz)") (auto dest: extract_size)

declare tags_of.simps [simp del]

text \<open>The table ends at a tag that is marked as the last, or where no further tag fits.\<close>

definition tags_end :: "jbd_sb \<Rightarrow> tag_info list \<Rightarrow> int \<Rightarrow> bool" where
  "tags_end s ts remain \<longleftrightarrow>
     (\<forall>t \<in> set (butlast ts). \<not> ti_last_tag t) \<and>
     (remain < int (jbd_tag_bytes s) \<or> ts \<noteq> [] \<and> ti_last_tag (last ts))"

lemma tags_of_short: "remain < int (jbd_tag_bytes s) \<Longrightarrow> tags_of s d p remain = []"
  by (subst tags_of.simps) (simp add: jbd_extract_block_tag_def)

lemma put_tags_ok:
  assumes x: "\<not> (JBD_HAS_INCOMPAT_FEATURE s JBD_FEATURE_INCOMPAT_CSUM_V2 \<and> JBD_HAS_INCOMPAT_FEATURE s JBD_FEATURE_INCOMPAT_CSUM_V3)"
  shows "list_all (tag_ok s) ts \<Longrightarrow> p + tags_room s ts + (tag_width s - jbd_tag_bytes s) \<le> length d \<Longrightarrow>
    int (tags_room s ts) \<le> remain \<Longrightarrow> tags_end s ts (remain - int (tags_room s ts)) \<Longrightarrow>
    \<exists>d'. put_tags s ts d p remain = Inr (d', p + tags_room s ts, remain - int (tags_room s ts)) \<and>
      kept d d' p (length d) \<and> tags_of s d' p remain = map (tag_read s) ts"
proof (induction ts arbitrary: d p remain)
  case Nil
  then show ?case using tags_of_short by (auto simp: tags_room_def tags_end_def)
next
  case (Cons t ts)
  let ?n = "tag_room s t"
  have ok: "tag_ok s t" "list_all (tag_ok s) ts" using Cons.prems(1) by simp_all
  have R: "tags_room s (t # ts) = ?n + tags_room s ts" by (simp add: tags_room_def)
  have n: "jbd_tag_bytes s \<le> ?n" "0 < ?n" using tag_bytes_min(2) [of s] by (simp_all add: tag_room_def)
  have l: "p + tag_width s \<le> length d" "p + ?n \<le> length d" "int ?n \<le> remain"
    using Cons.prems(2,3) R n by linarith+
  obtain d1 where d1: "jbd_write_block_tag s d p remain t = Inr (d1, t\<lparr> ti_tag_bytes := ?n \<rparr>)"
      "kept d d1 p (p + max (tag_width s) ?n)"
      "tag_holds s d1 p (ucast (ti_block t)) (ucast (drop_bit 32 (ti_block t))) (tag_bits t)"
      "ti_uuid_exist t \<longrightarrow> rd_range d1 (p + jbd_tag_bytes s) UUID_SIZE = Inr (ti_uuid t)"
    using tag_written [OF x ok(1) l] by blast
  have len: "length d1 = length d" by (rule kept_length [OF d1(2)])
  have k1: "kept d d1 p (length d)" by (rule kept_mono [OF d1(2)]) (use l in auto)
  have tl: "tags_end s ts (remain - int ?n - int (tags_room s ts)) \<or> ts = [] \<and> ti_last_tag t"
    using Cons.prems(4) R by (cases ts) (auto simp: tags_end_def algebra_simps)
  show ?case
  proof (cases "ts = [] \<and> ti_last_tag t")
    case True
    have "tags_of s d1 p remain = [tag_read s t]"
      using tag_extracted [OF d1(3) _ ok(1) l(3)] d1(4) True l(3) n(2)
      by (subst tags_of.simps) (simp add: tag_read_def)
    then show ?thesis using True d1(1) k1 by (auto simp: tags_room_def)
  next
    case False
    have "p + ?n + tags_room s ts + (tag_width s - jbd_tag_bytes s) \<le> length d1"
      "int (tags_room s ts) \<le> remain - int ?n" using Cons.prems(2,3) R len by linarith+
    moreover have "tags_end s ts (remain - int ?n - int (tags_room s ts))" using tl False by blast
    ultimately obtain d' where d': "put_tags s ts d1 (p + ?n) (remain - int ?n) =
          Inr (d', p + ?n + tags_room s ts, remain - int ?n - int (tags_room s ts))"
        "kept d1 d' (p + ?n) (length d1)" "tags_of s d' (p + ?n) (remain - int ?n) = map (tag_read s) ts"
      using Cons.IH [OF ok(2)] by blast
    have nl: "\<not> ti_last_tag t"
      using Cons.prems(4) False by (cases ts) (auto simp: tags_end_def)
    have h: "tag_holds s d' p (ucast (ti_block t)) (ucast (drop_bit 32 (ti_block t))) (tag_bits t)"
      by (rule tag_holds_kept [OF d1(3) d'(2)]) (use n tag_sizes [of s] in auto)
    have u: "rd_range d' (p + jbd_tag_bytes s) UUID_SIZE = Inr (ti_uuid t)" if "ti_uuid_exist t"
      using kept_rd [OF d'(2), of "p + jbd_tag_bytes s" UUID_SIZE] d1(4) that by (simp add: tag_room_def UUID_SIZE_def)
    have "tags_of s d' p remain = tag_read s t # map (tag_read s) ts"
      using tag_extracted [OF h u ok(1) l(3)] d'(3) nl l(3) n(2)
      by (subst tags_of.simps) (simp add: tag_read_def)
    moreover have "kept d d' p (length d)" by (rule kept_trans [OF k1 kept_mono [OF d'(2)]]) (simp_all add: len)
    ultimately show ?thesis using d1(1) d'(1) R by (auto simp: algebra_simps)
  qed
qed

text \<open>The walk of the code visits these tags, as long as the block reads the same.\<close>

fun tags_fold :: "(tag_info \<Rightarrow> 's \<Rightarrow> unit res \<times> 's) \<Rightarrow> tag_info list \<Rightarrow> 's \<Rightarrow> unit res \<times> 's" where
  "tags_fold func [] st = (Inr (), st)"
| "tags_fold func (t # ts) st = sbind (func t st) (\<lambda>_ st. tags_fold func ts st)"

lemma extract_not_fatal:
  assumes "jbd_extract_block_tag s d p (jbd_tag_bytes s) sz = Inl e" and "int p + sz \<le> int (length d)"
  shows "e = EINVAL"
proof -
  note m = tag_bytes_min(1) [of s] tag_sizes(5) [of s]
  have l: "p + jbd_tag_bytes s \<le> length d" if "\<not> sz - int (jbd_tag_bytes s) < 0" using that assms(2) by linarith
  have v3: "jbd_tag_bytes s = 16" if "JBD_HAS_INCOMPAT_FEATURE s JBD_FEATURE_INCOMPAT_CSUM_V3"
    using that by (simp add: jbd_tag_bytes_def)
  have u: "p + jbd_tag_bytes s + 16 \<le> length d" if "\<not> sz - int (jbd_tag_bytes s) < 16" using that assms(2) by linarith
  have r: "rd_range d q n \<noteq> Inl e" if "q + n \<le> length d" for q n using that by (simp add: rd_range_def)
  have g: "jbd_get32 d q \<noteq> Inl e" if "q + 4 \<le> length d" for q
    using r [of q 4] that by (auto simp: jbd_get32_def raw32_def rbind_Inl_iff)
  have g16: "jbd_get16 d q \<noteq> Inl e" if "q + 2 \<le> length d" for q
    using r [of q 2] that by (auto simp: jbd_get16_def rbind_Inl_iff)
  have a: "\<not> sz - int (jbd_tag_bytes s) < 0 \<Longrightarrow> jbd_get32 d p \<noteq> Inl e" using l m by (intro g) linarith
  have b: "\<not> sz - int (jbd_tag_bytes s) < 0 \<Longrightarrow> JBD_HAS_INCOMPAT_FEATURE s JBD_FEATURE_INCOMPAT_64BIT \<Longrightarrow> jbd_get32 d (p + 8) \<noteq> Inl e"
    using l m by (intro g) linarith
  have c: "\<not> sz - int (jbd_tag_bytes s) < 0 \<Longrightarrow> tag_flags s d p \<noteq> Inl e"
    using l m v3 g [of "p + 4"] g16 [of "p + 6"] by (auto simp: tag_flags_def rbind_Inl_iff)
  show ?thesis
    using assms(1) a b c r [of "p + jbd_tag_bytes s" 16] u
    by (auto simp: jbd_extract_block_tag_def rbind_Inl_iff Let_def UUID_SIZE_def split: if_splits)
qed

lemma iterate_tags_fold:
  assumes "\<And>k t st st'. t \<in> set (tags_of s d p sz) \<Longrightarrow> I (Suc k) st \<Longrightarrow> func t st = (Inr (), st') \<Longrightarrow> I k st'"
    and "\<And>k st. I k st \<Longrightarrow> rd st = Inr d" and "I (length (tags_of s d p sz)) st" and "int p + sz \<le> int (length d)"
  shows "iterate_tags s rd func p sz st = tags_fold func (tags_of s d p sz) st"
  using assms
proof (induction s d p sz arbitrary: st rule: tags_of.induct)
  case (1 s d p sz)
  have rd: "rd st = Inr d" by (rule 1(3) [OF 1(4)])
  show ?case
  proof (cases "sz = 0")
    case True
    then show ?thesis by (subst iterate_tags.simps, subst tags_of.simps) simp
  next
    case nz: False
    show ?thesis
    proof (cases "jbd_extract_block_tag s d p (jbd_tag_bytes s) sz")
      case (Inl e)
      have "e = EINVAL" by (rule extract_not_fatal [OF Inl 1(5)])
      then show ?thesis using nz Inl rd by (subst iterate_tags.simps, subst tags_of.simps) (simp add: fatal_def)
    next
      case (Inr t)
      let ?rest = "if ti_last_tag t then [] else tags_of s d (p + ti_tag_bytes t) (sz - int (ti_tag_bytes t))"
      have T: "tags_of s d p sz = t # ?rest" using nz Inr by (subst tags_of.simps) simp
      obtain r st' where f: "func t st = (r, st')" by (cases "func t st")
      show ?thesis
      proof (cases r)
        case (Inl e)
        then show ?thesis unfolding T using nz Inr f rd by (subst iterate_tags.simps) simp
      next
        case (Inr u)
        then have fr: "func t st = (Inr (), st')" using f by simp
        have "I (Suc (length ?rest)) st" using 1(4) by (simp only: T list.size One_nat_def add_Suc_right add_0_right)
        moreover have "t \<in> set (tags_of s d p sz)" by (simp add: T)
        ultimately have st': "I (length ?rest) st'" using 1(2) fr by blast
        have "iterate_tags s rd func (p + ti_tag_bytes t) (sz - int (ti_tag_bytes t)) st' =
            tags_fold func (tags_of s d (p + ti_tag_bytes t) (sz - int (ti_tag_bytes t))) st'" if "\<not> ti_last_tag t"
        proof (rule 1(1) [OF nz _ that])
          show "jbd_extract_block_tag s d p (jbd_tag_bytes s) sz = Inr t" by fact
          show "I (length (tags_of s d (p + ti_tag_bytes t) (sz - int (ti_tag_bytes t)))) st'" using st' that by simp
          show "int (p + ti_tag_bytes t) + (sz - int (ti_tag_bytes t)) \<le> int (length d)" using 1(5) by simp
          show "rd st1 = Inr d" if "I k st1" for k st1 by (rule 1(3) [OF that])
          fix k u st1 st2
          assume "u \<in> set (tags_of s d (p + ti_tag_bytes t) (sz - int (ti_tag_bytes t)))" "I (Suc k) st1" "func u st1 = (Inr (), st2)"
          then show "I k st2" using 1(2) [of u k st1 st2] that by (simp add: T)
        qed
        then show ?thesis unfolding T using nz \<open>jbd_extract_block_tag s d p (jbd_tag_bytes s) sz = Inr t\<close> fr rd
          by (subst iterate_tags.simps) simp
      qed
    qed
  qed
qed

text \<open>A tag takes at least eight bytes.\<close>

lemma tags_of_length: "0 \<le> sz \<Longrightarrow> 8 * length (tags_of s d p sz) \<le> nat sz"
proof (induction s d p sz rule: tags_of.induct)
  case (1 s d p sz)
  show ?case
  proof (cases "sz = 0 \<or> (\<exists>e. jbd_extract_block_tag s d p (jbd_tag_bytes s) sz = Inl e)")
    case True
    then show ?thesis by (subst tags_of.simps) auto
  next
    case False
    then obtain t where t: "jbd_extract_block_tag s d p (jbd_tag_bytes s) sz = Inr t" and nz: "sz \<noteq> 0"
      by (cases "jbd_extract_block_tag s d p (jbd_tag_bytes s) sz") auto
    have n: "8 \<le> ti_tag_bytes t" "int (ti_tag_bytes t) \<le> sz"
      using extract_size(2) [OF t] t tag_bytes_min(1) [of s]
      by (auto simp: jbd_extract_block_tag_def rbind_Inr_iff Let_def split: if_splits)
    show ?thesis
    proof (cases "ti_last_tag t")
      case True
      then show ?thesis using t nz n by (subst tags_of.simps) simp
    next
      case False
      have "8 * length (tags_of s d (p + ti_tag_bytes t) (sz - int (ti_tag_bytes t))) \<le> nat (sz - int (ti_tag_bytes t))"
        by (rule 1(1) [OF nz t False]) (use n in simp)
      then show ?thesis using t nz n False by (subst tags_of.simps) simp
    qed
  qed
qed

end
