(* ===== verification/JbdStore.thy ===== *)
theory JbdStore
  imports JbdSpec FsTrees
begin

text \<open>
  What the replay of the journal asks of the block layer beyond a block store: flags of a held buffer do not
  change what a block holds, and a block nobody holds can be got without reading and overwritten as a whole. Every
  block device gives such a store. Then the rules for the blocks of a journal that is mapped by pointers.
\<close>

section \<open>The interface\<close>

locale journal_store = tree_store io rep
  for io :: "'d ext4_blockdev_iface" and rep :: "'d ext4_blockdev \<Rightarrow> store \<Rightarrow> bool" +
  assumes store_flag:
    "\<lbrakk> rep bd s; st_refs s l \<noteq> 0; f = BC_FLUSH \<or> f = BC_TMP \<rbrakk> \<Longrightarrow>
     rep (bc_apply (buf_update l (ext4_bcache_set_flag f)) bd) s"
  and store_overwrite:
    "\<lbrakk> rep bd s; l < st_cnt s; st_room s \<noteq> 0; st_refs s l = 0; l \<notin> st_pend s \<rbrakk> \<Longrightarrow>
     \<exists>bd'. ext4_block_get_noread io l bd = (Inr (blk l), bd') \<and>
       (\<exists>b. ext4_buf_lookup (bd_bc bd') l = Some b \<and> length (buf_data b) = st_bsize s) \<and>
       (\<forall>k. st_refs s k \<noteq> 0 \<longrightarrow> ext4_buf_lookup (bd_bc bd') k = ext4_buf_lookup (bd_bc bd) k) \<and>
       (\<forall>d. length d = st_bsize s \<longrightarrow>
          rep (ext4_trans_set_block_dirty l (blk_edit l d bd')) (st_dirty l (st_edit l d (st_get l s))))"

context block_device begin

lemma store_abs_flag:
  assumes a: "store_abs content bd s" and r: "st_refs s l \<noteq> 0" and f: "f = BC_FLUSH \<or> f = BC_TMP"
  shows "store_abs content (bc_apply (buf_update l (ext4_bcache_set_flag f)) bd) s"
proof -
  let ?bd = "bc_apply (buf_update l (ext4_bcache_set_flag f)) bd"
  have rd: "blk_ready content (st_pend s) bd" using a by (simp add: store_abs_def)
  note c = blk_readyD [OF rd]
  have "blk_refs bd l \<noteq> 0" using a r by (simp add: store_abs_def)
  then obtain b where b: "ext4_buf_lookup (bd_bc bd) l = Some b" "buf_refctr b \<noteq> 0" using held_lookup by blast
  let ?b = "b\<lparr> buf_flags := insert f (buf_flags b) \<rparr>"
  have look: "ext4_buf_lookup (bd_bc ?bd) k = (if k = l then Some ?b else ext4_buf_lookup (bd_bc bd) k)" for k
    using b by (simp add: ext4_bcache_set_flag_def)
  have w: "bc_wf (bd_bc ?bd)" unfolding bc_apply_sel
    by (rule bc_wf_update [OF cache_cohD(1) [OF c(1)]])
       (use bc_wfD(5) [OF cache_cohD(1) [OF c(1)] b(1)] b in \<open>auto simp: ext4_bcache_set_flag_def\<close>)
  have fr: "bd_frame bd ?bd" by (simp add: bd_frame_def bc_apply_def)
  have dev: "content (bd_dev ?bd) = content (bd_dev bd)" by simp
  have coh: "cache_coh content ?bd"
    by (rule cache_coh_change [OF c(1) fr dev w look]) (use cache_cohD(4) [OF c(1) b(1)] b(2) f in \<open>auto simp: buf_coh_def\<close>)
  have "dirty_queued {} ?bd" using c(2) look by (rule dirty_queued_change) (use b(2) in auto)
  moreover have "synced content (st_pend s) ?bd"
    using c(3) b f unfolding synced_def look blk_disk_frame [OF fr dev] by auto
  moreover have "held_uptodate ?bd" using c(4) b unfolding held_uptodate_def look by auto
  moreover have "blk_refs ?bd k = blk_refs bd k" for k unfolding blk_refs_def look using b by simp
  moreover have "blk_view content ?bd k = blk_view content bd k" for k
    unfolding blk_view_def look blk_disk_frame [OF fr dev] using b f by auto
  ultimately show ?thesis using a coh fr unfolding store_abs_def blk_ready_def blk_inv_def bd_frame_def by simp
qed

lemma store_abs_overwrite:
  assumes a: "store_abs content bd s" and l: "l < st_cnt s" and n: "st_room s \<noteq> 0" and r: "st_refs s l = 0" "l \<notin> st_pend s"
  shows "\<exists>bd'. ext4_block_get_noread io l bd = (Inr (blk l), bd') \<and>
       (\<exists>b. ext4_buf_lookup (bd_bc bd') l = Some b \<and> length (buf_data b) = st_bsize s) \<and>
       (\<forall>k. st_refs s k \<noteq> 0 \<longrightarrow> ext4_buf_lookup (bd_bc bd') k = ext4_buf_lookup (bd_bc bd) k) \<and>
       (\<forall>d. length d = st_bsize s \<longrightarrow>
          store_abs content (ext4_trans_set_block_dirty l (blk_edit l d bd')) (st_dirty l (st_edit l d (st_get l s))))"
proof -
  have rd: "blk_ready content (st_pend s) bd" using a by (simp add: store_abs_def)
  note c = blk_readyD [OF rd] and room = store_abs_room [OF a n, of l]
  have l': "l < bd_lg_bcnt bd" and sz: "unat (bd_lg_bsize bd) = st_bsize s" using a l by (simp_all add: store_abs_def)
  from get_noread_ok [OF c(1) l' room] obtain bd1 where
    1: "ext4_block_get_noread io l bd = (Inr (blk l), bd1)" "get_post content l bd bd1" by blast
  have c1: "cache_coh content bd1" and f1: "bd_frame bd bd1" and v1: "view_kept content bd bd1"
    using 1(2) by (simp_all add: get_post_def view_kept_def)
  have "blk_refs bd1 l \<noteq> 0" using 1(2) by (simp add: get_post_def)
  then obtain b where b: "ext4_buf_lookup (bd_bc bd1) l = Some b" "buf_refctr b \<noteq> 0" using held_lookup by blast
  have lb: "length (buf_data b) = st_bsize s"
    using bc_wfD(10) [OF cache_cohD(1) [OF c1] b(1)] cache_cohD(3) [OF c1] sz f1 by (simp add: cache_geom_def bd_frame_def)
  have "store_abs content (ext4_trans_set_block_dirty l (blk_edit l d bd1)) (st_dirty l (st_edit l d (st_get l s)))"
    if d: "length d = st_bsize s" for d
  proof -
    let ?bd2 = "blk_edit l d bd1" let ?bd3 = "ext4_trans_set_block_dirty l ?bd2" let ?b2 = "b\<lparr> buf_data := d \<rparr>"
    note e2 = edit_ok [OF c1 b, of d, unfolded d lb, OF refl]
    have c2: "cache_coh content ?bd2" using e2(1) by (simp add: edit_post_def)
    have b2: "ext4_buf_lookup (bd_bc ?bd2) l = Some ?b2" "buf_refctr ?b2 \<noteq> 0" using e2(2) b(2) by simp_all
    note e3 = dirty_ok [OF c2 b2]
    have fr: "bd_frame bd ?bd3"
      using f1 e2(1) e3(1) by (auto simp: edit_post_def intro: bd_frame_trans)
    have "dirty_queued {} ?bd3" using c(2) 1(2) e2(1) e3(1) by (auto simp: edit_post_def get_post_def)
    moreover have "synced content (st_pend s) ?bd3"
    proof -
      have "synced content (st_pend s) bd1" using v1 c(3) by (simp add: view_kept_def)
      from e3(3) [OF e2(3) [OF this]] show ?thesis using r(2) by simp
    qed
    moreover have "held_uptodate ?bd3"
    proof (rule held_uptodate_frame [OF c(4), of l])
      fix k x assume "k \<noteq> l" "ext4_buf_lookup (bd_bc bd) k = Some x" "buf_refctr x \<noteq> 0"
      then show "ext4_buf_lookup (bd_bc ?bd3) k = Some x" using 1(2) by (simp add: e3(2) e2(2) get_post_def)
    next
      fix k assume "k \<noteq> l"
      then show "blk_refs ?bd3 k = blk_refs bd k" using e2(1) e3(1) 1(2) by (simp add: edit_post_def get_post_def)
    next
      fix x assume "ext4_buf_lookup (bd_bc ?bd3) l = Some x"
      then show "BC_UPTODATE \<in> buf_flags x" by (auto simp: e3(2))
    qed
    moreover have "cache_coh content ?bd3" using e3(1) by (simp add: edit_post_def)
    ultimately have ready: "blk_ready content (st_pend s) ?bd3" by (simp add: blk_ready_def blk_inv_def)
    have view: "blk_view content ?bd3 k = (if k = l then d else st_view s k)" if "k < st_cnt s" for k
    proof -
      have "blk_view content bd1 k = blk_view content bd k" using v1 that a by (simp add: view_kept_def store_abs_def)
      then show ?thesis using a that by (simp add: e3(4) e2(4) store_abs_def)
    qed
    have refs: "blk_refs ?bd3 k = (if k = l then st_refs s l + 1 else st_refs s k)" for k
      using e2(1) e3(1) 1(2) a by (simp add: edit_post_def get_post_def store_abs_def)
    have ctr: "unat (bc_lru_ctr (bd_bc ?bd3)) \<le> unat (bc_lru_ctr (bd_bc bd)) + 1"
      "unat (bc_ref_blocks (bd_bc ?bd3)) \<le> unat (bc_ref_blocks (bd_bc bd)) + 1"
      using e2(1) e3(1) 1(2) by (simp_all add: edit_post_def get_post_def)
    have q: "unat (bc_lru_ctr (bd_bc bd)) + st_room s < 2 ^ 32" "unat (bc_ref_blocks (bd_bc bd)) + st_room s < 2 ^ 32"
      "\<And>k. st_refs s k + st_room s < 2 ^ 32" using a by (simp_all add: store_abs_def)
    have "unat (bc_lru_ctr (bd_bc ?bd3)) + (st_room s - 1) < 2 ^ 32" "unat (bc_ref_blocks (bd_bc ?bd3)) + (st_room s - 1) < 2 ^ 32"
      using ctr q(1,2) n by linarith+
    moreover have "(if k = l then st_refs s l + 1 else st_refs s k) + (st_room s - 1) < 2 ^ 32" for k
      using q(3) [of k] q(3) [of l] n by (cases "k = l") auto
    ultimately show ?thesis using ready view refs fr a r(2)
      unfolding store_abs_def by (simp add: store_simps bd_frame_def)
  qed
  moreover have "ext4_buf_lookup (bd_bc bd1) k = ext4_buf_lookup (bd_bc bd) k" if "st_refs s k \<noteq> 0" for k
  proof -
    have "blk_refs bd k \<noteq> 0" using a that by (simp add: store_abs_def)
    then obtain x where "ext4_buf_lookup (bd_bc bd) k = Some x" "buf_refctr x \<noteq> 0" using held_lookup by blast
    moreover have "k \<noteq> l" using that r(1) by auto
    ultimately show ?thesis using 1(2) by (simp add: get_post_def)
  qed
  ultimately show ?thesis using 1(1) b(1) lb by blast
qed

end

sublocale block_device < journal: journal_store io "store_abs content"
  by unfold_locales (use store_abs_flag store_abs_overwrite in blast)+

section \<open>A journal mapped by pointers\<close>

definition jaddr :: "(u64 \<Rightarrow> u8 list) \<Rightarrow> nat \<Rightarrow> ext4_inode \<Rightarrow> u32 \<Rightarrow> u64" where
  "jaddr V n i k = (case pointer_block V n i (unat k) of Inl _ \<Rightarrow> 0 | Inr a \<Rightarrow> a)"

text \<open>
  \<open>ok\<close> are the pointer blocks, \<open>jb\<close> the blocks of the journal. What the replay may write lies outside of them
  and of the block \<open>li\<close> of the inode.
\<close>

definition journal_in ::
    "'d ext4_fs \<Rightarrow> ext4_inode_ref \<Rightarrow> u64 \<Rightarrow> ext4_inode \<Rightarrow> nat \<Rightarrow> u64 set \<Rightarrow> u64 set \<Rightarrow> jbd_sb \<Rightarrow> store \<Rightarrow> bool" where
  "journal_in fs0 ir li i n ok jb sb s \<longleftrightarrow>
     map_geom fs0 n \<and> pointers_in (fs_sb fs0) ir li i n ok s \<and> ext4_inode_get_size (fs_sb fs0) i \<noteq> 0 \<and>
     \<not> inode_uses_extents (fs_sb fs0) i \<and> unat (js_blocksize sb) = st_bsize s \<and>
     (\<forall>k < js_maxlen sb. \<exists>a \<in> jb. pointer_block (st_view s) n i (unat k) = Inr a) \<and>
     (\<forall>a \<in> jb. a \<noteq> 0 \<and> a < st_cnt s \<and> a \<notin> st_pend s)"

definition jprot :: "u64 \<Rightarrow> u64 set \<Rightarrow> u64 set \<Rightarrow> u64 set" where "jprot li ok jb = insert li (ok \<union> jb)"

lemma pointer_block_frame:
  assumes p: "pointers_in sb ir li i n ok s" and v: "\<And>x. x \<in> ok \<Longrightarrow> V' x = st_view s x"
  shows "pointer_block V' n i b = pointer_block (st_view s) n i b"
proof (cases "b < 12 \<or> map_level n b = None")
  case True
  then show ?thesis by (auto simp: pointer_block_def)
next
  case False
  then obtain l where l: "map_level n b = Some l" "12 \<le> b" by auto
  note lb = map_level_bounds [OF l]
  let ?top = "in_blocks i ! (11 + l)"
  have "ind_find V' n l (ucast ?top) (b - map_base n (l - 1)) = ind_find (st_view s) n l (ucast ?top) (b - map_base n (l - 1))"
    if "?top \<noteq> 0"
  proof -
    have "ind_tree (st_view s) n ok l (ucast ?top)" using p lb(1,2) that by (simp add: pointers_in_def)
    then have "ind_blocks (st_view s) n l (ucast ?top) \<subseteq> ok" by (simp add: ind_tree_blocks)
    then have "V' x = st_view s x" if "x \<in> ind_blocks (st_view s) n l (ucast ?top)" for x using that v by blast
    from ind_frame [where V = "st_view s" and V' = V' and off = "b - map_base n (l - 1)", OF this] lb(5) show ?thesis by blast
  qed
  then show ?thesis using False l by (simp add: pointer_block_def Let_def)
qed

lemma pointers_in_frame:
  assumes p: "pointers_in sb ir li i n ok s" and v: "\<And>x. x \<in> insert li ok \<Longrightarrow> st_view s' x = st_view s x"
    and r: "st_refs s' li \<noteq> 0" and k: "st_pend s' = st_pend s" "st_cnt s' = st_cnt s" "st_bsize s' = st_bsize s"
  shows "pointers_in sb ir li i n ok s'"
proof -
  have t: "ind_tree (st_view s') n ok l (ucast (in_blocks i ! (11 + l)))" if "0 < l" "l \<le> 3" "in_blocks i ! (11 + l) \<noteq> 0" for l
  proof -
    have "ind_tree (st_view s) n ok l (ucast (in_blocks i ! (11 + l)))" using p that by (simp add: pointers_in_def)
    then have sub: "ind_blocks (st_view s) n l (ucast (in_blocks i ! (11 + l))) \<subseteq> ok" by (simp add: ind_tree_blocks)
    then have "st_view s' x = st_view s x" if "x \<in> ind_blocks (st_view s) n l (ucast (in_blocks i ! (11 + l)))" for x
      using that v by blast
    from ind_frame [where V = "st_view s" and V' = "st_view s'", OF this] sub show ?thesis by (simp add: ind_tree_blocks)
  qed
  show ?thesis using p v [of li] r k t by (simp add: pointers_in_def inode_held_def tree_nodes_def)
qed

lemma journal_in_frame:
  assumes j: "journal_in fs0 ir li i n ok jb sb s" and v: "\<And>x. x \<in> jprot li ok jb \<Longrightarrow> st_view s' x = st_view s x"
    and r: "st_refs s' li \<noteq> 0" and k: "st_pend s' = st_pend s" "st_cnt s' = st_cnt s" "st_bsize s' = st_bsize s"
  shows "journal_in fs0 ir li i n ok jb sb s'" and "jaddr (st_view s') n i = jaddr (st_view s) n i"
proof -
  have p: "pointers_in (fs_sb fs0) ir li i n ok s" using j by (simp add: journal_in_def)
  have v': "st_view s' x = st_view s x" if "x \<in> ok" for x using v that by (simp add: jprot_def)
  have e: "pointer_block (st_view s') n i b = pointer_block (st_view s) n i b" for b
    by (rule pointer_block_frame [OF p]) (rule v')
  have "pointers_in (fs_sb fs0) ir li i n ok s'" by (rule pointers_in_frame [OF p _ r k]) (use v in \<open>auto simp: jprot_def\<close>)
  then show "journal_in fs0 ir li i n ok jb sb s'" using j k by (simp add: journal_in_def e)
  show "jaddr (st_view s') n i = jaddr (st_view s) n i" by (simp add: fun_eq_iff jaddr_def e)
qed

text \<open>Holding and releasing blocks, and using up room, keeps the journal where it is.\<close>

lemma journal_in_holds:
  assumes j: "journal_in fs0 ir li i n ok jb sb s"
  shows "journal_in fs0 ir li i n ok jb sb (s\<lparr> st_room := r \<rparr>)" and "journal_in fs0 ir li i n ok jb sb (st_get a s)"
    and "st_refs s li + (if a = li then 0 else 1) > 1 \<Longrightarrow> journal_in fs0 ir li i n ok jb sb (st_set a s)"
proof -
  have h: "st_refs s li \<noteq> 0" using j by (simp add: journal_in_def pointers_in_def inode_held_def)
  show "journal_in fs0 ir li i n ok jb sb (s\<lparr> st_room := r \<rparr>)"
    by (rule journal_in_frame(1) [OF j]) (use h in simp_all)
  show "journal_in fs0 ir li i n ok jb sb (st_get a s)"
    by (rule journal_in_frame(1) [OF j]) (use h in \<open>simp_all add: store_simps\<close>)
  show "journal_in fs0 ir li i n ok jb sb (st_set a s)" if "st_refs s li + (if a = li then 0 else 1) > 1"
    by (rule journal_in_frame(1) [OF j]) (use that h in \<open>simp_all add: store_simps split: if_splits\<close>)
qed

context journal_store begin

lemma fs_flag_rule:
  assumes a: "fs_at rep fs0 s fs" and r: "st_refs s l \<noteq> 0" and f: "f = BC_FLUSH \<or> f = BC_TMP"
  shows "\<exists>fs'. fs_set_flag f (blk l) fs = (Inr (), fs') \<and> fs_at rep fs0 s fs'"
proof -
  obtain bd where b: "fs = fs0\<lparr> fs_bdev := bd \<rparr>" "rep bd s" using a by (auto simp: fs_at_def)
  from store_flag [OF b(2) r f] show ?thesis by (auto simp: fs_set_flag_def b(1) fs_at_def)
qed

lemma jbd_bmap_ok:
  assumes a: "fs_at rep fs0 s fs" and j: "journal_in fs0 ir li i n ok jb sb s" and k: "k < js_maxlen sb" and room: "3 \<le> st_room s"
  shows "\<exists>fs' r. jbd_inode_bmap io k ((fs, ir), jf) = (Inr (jaddr (st_view s) n i k), (fs', ir), jf) \<and> r \<le> 3 \<and>
    fs_at rep fs0 (s\<lparr> st_room := st_room s - r \<rparr>) fs'"
proof -
  have p: "pointers_in (fs_sb fs0) ir li i n ok s" and g: "map_geom fs0 n" using j by (simp_all add: journal_in_def)
  then have h: "inode_held (fs_sb fs0) ir li i s" by (simp add: pointers_in_def)
  have i: "is_inode (fs, ir) = Inr i" by (rule inode_eq [OF a h])
  obtain b where b: "pointer_block (st_view s) n i (unat k) = Inr b" using j k by (auto simp: journal_in_def)
  obtain fs' r where d: "dblk_indirect io k (fs, ir) = (Inr b, fs', ir)" "r \<le> 3"
      "fs_at rep fs0 (s\<lparr> st_room := st_room s - r \<rparr>) fs'"
    using pointer_lookup_ok [OF a g p room, of k] b by auto
  have "fs_sb fs = fs_sb fs0" by (rule fs_at_fields [OF a])
  then show ?thesis using j i d b
    by (intro exI [of _ fs'] exI [of _ r]) (simp add: jbd_inode_bmap_def on_ji_def ext4_fs_get_inode_dblk_idx_def ext4_fs_get_inode_dblk_idx_internal_def sread_def
        journal_in_def jaddr_def)
qed

lemma jbd_get_ok:
  assumes a: "fs_at rep fs0 s fs" and j: "journal_in fs0 ir li i n ok jb sb s" and k: "k < js_maxlen sb" and room: "4 \<le> st_room s"
  shows "\<exists>fs' r. jbd_block_get io k ((fs, ir), jf) = (Inr (blk (jaddr (st_view s) n i k)), (fs', ir), jf) \<and> r \<le> 3 \<and>
    fs_at rep fs0 (st_get (jaddr (st_view s) n i k) (s\<lparr> st_room := st_room s - r \<rparr>)) fs' \<and> jaddr (st_view s) n i k \<in> jb"
proof -
  let ?a = "jaddr (st_view s) n i k"
  have ja: "?a \<in> jb" using j k by (auto simp: journal_in_def jaddr_def split: sum.splits)
  then have ac: "?a < st_cnt s" using j by (simp add: journal_in_def)
  have "3 \<le> st_room s" using room by simp
  from jbd_bmap_ok [OF a j k this, of jf] obtain fs1 r where
    1: "jbd_inode_bmap io k ((fs, ir), jf) = (Inr ?a, (fs1, ir), jf)" "r \<le> 3" "fs_at rep fs0 (s\<lparr> st_room := st_room s - r \<rparr>) fs1"
    by blast
  have "st_room s - r \<noteq> 0" using room 1(2) by simp
  with get_eq [OF 1(3), of ?a] ac obtain fs2 where
    2: "fs_block_get io ?a fs1 = (Inr (blk ?a), fs2)" "fs_at rep fs0 (st_get ?a (s\<lparr> st_room := st_room s - r \<rparr>)) fs2" by auto
  have h: "st_refs (st_get ?a (s\<lparr> st_room := st_room s - r \<rparr>)) ?a \<noteq> 0" by (simp add: store_simps)
  from fs_flag_rule [OF 2(2) h, of BC_FLUSH] obtain fs3 where
    3: "fs_set_flag BC_FLUSH (blk ?a) fs2 = (Inr (), fs3)" "fs_at rep fs0 (st_get ?a (s\<lparr> st_room := st_room s - r \<rparr>)) fs3" by blast
  from fs_flag_rule [OF 3(2) h, of BC_TMP] obtain fs4 where
    4: "fs_set_flag BC_TMP (blk ?a) fs3 = (Inr (), fs4)" "fs_at rep fs0 (st_get ?a (s\<lparr> st_room := st_room s - r \<rparr>)) fs4" by blast
  show ?thesis using 1(1,2) 2(1) 3(1) 4 ja
    by (auto simp: jbd_block_get_def on_jfs_def on_ji_def on_fs_def)
qed

lemma jbd_set_ok:
  assumes a: "fs_at rep fs0 s fs" and "st_refs s l \<noteq> 0" "l \<noteq> 0" "l \<notin> st_pend s"
  shows "\<exists>fs'. jbd_block_set io (blk l) ((fs, ir), jf) = (Inr (), (fs', ir), jf) \<and> fs_at rep fs0 (st_set l s) fs'"
  using set_eq [OF assms] by (auto simp: jbd_block_set_def on_jfs_def on_ji_def on_fs_def)

end

section \<open>Replaying one block\<close>

text \<open>The bytes put in place: those of the log, with the magic number back where it was escaped.\<close>

definition jbd_copy :: "tag_info \<Rightarrow> u8 list \<Rightarrow> u8 list" where
  "jbd_copy t d = (if ti_is_escape t then patch d 0 (enc32 (to_be32 JBD_MAGIC_NUMBER)) else d)"

lemma jbd_copy_length: "4 \<le> length d \<Longrightarrow> length (jbd_copy t d) = length d"
  by (simp add: jbd_copy_def)

context journal_store begin

lemma edit_twice: "blk_edit l d' (blk_edit l d bd) = blk_edit l d' bd"
proof -
  have "map (\<lambda>b. if buf_lba b = l then b\<lparr> buf_data := d' \<rparr> else b) (map (\<lambda>b. if buf_lba b = l then b\<lparr> buf_data := d \<rparr> else b) xs) =
      map (\<lambda>b. if buf_lba b = l then b\<lparr> buf_data := d' \<rparr> else b) xs" for xs :: "ext4_buf list"
    by (rule trans [OF map_map]) (rule map_cong [OF refl], simp)
  then show ?thesis by (simp add: blk_edit_def bc_apply_def buf_update_def)
qed

lemma replay_into_block_ok:
  assumes a: "fs_at rep fs0 s fs" and src: "st_refs s src \<noteq> 0" "src \<noteq> 0" "src \<notin> st_pend s"
    and t: "ti_block t \<noteq> 0" "ti_block t < st_cnt s" "st_refs s (ti_block t) = 0" "ti_block t \<notin> st_pend s"
    and b: "unat (js_blocksize (jf_sb jf)) = st_bsize s" "4 \<le> st_bsize s" and room: "st_room s \<noteq> 0"
  shows "\<exists>fs'. replay_into_block io t (blk src) ((fs, ir), jf) = (Inr (), (fs', ir), jf) \<and>
    fs_at rep fs0 (st_set src (s\<lparr> st_view := (st_view s)(ti_block t := jbd_copy t (st_view s src)), st_room := st_room s - 1 \<rparr>)) fs'"
proof -
  let ?l = "ti_block t" let ?d = "st_view s src" let ?D = "jbd_copy t ?d"
  obtain bd where f: "fs = fs0\<lparr> fs_bdev := bd \<rparr>" and rp: "rep bd s" using a by (auto simp: fs_at_def)
  from store_overwrite [OF rp t(2) room t(3,4)] obtain bd1 x where
    1: "ext4_block_get_noread io ?l bd = (Inr (blk ?l), bd1)" "ext4_buf_lookup (bd_bc bd1) ?l = Some x" "length (buf_data x) = st_bsize s"
      "\<And>k. st_refs s k \<noteq> 0 \<Longrightarrow> ext4_buf_lookup (bd_bc bd1) k = ext4_buf_lookup (bd_bc bd) k"
      "\<And>d. length d = st_bsize s \<Longrightarrow> rep (ext4_trans_set_block_dirty ?l (blk_edit ?l d bd1)) (st_dirty ?l (st_edit ?l d (st_get ?l s)))"
    by blast
  let ?fs1 = "fs0\<lparr> fs_bdev := bd1 \<rparr>"
  have len: "length ?d = st_bsize s" by (rule held_length [OF a src(1)])
  obtain y where y: "ext4_buf_lookup (bd_bc bd) src = Some y" "buf_data y = ?d" using store_data [OF rp src(1)] by blast
  have g: "on_jfs (fs_block_get_noread io ?l) ((fs, ir), jf) = (Inr (blk ?l), (?fs1, ir), jf)"
    using 1(1) by (simp add: on_jfs_def on_ji_def on_fs_def fs_block_get_noread_def fs_dev_def f)
  have dj: "jbd_data (blk src) ((?fs1, ir), jf) = Inr ?d"
    using 1(4) [OF src(1)] y by (simp add: jbd_data_def fs_data_def)
  have dx: "fs_data (blk ?l) ?fs1 = Inr (buf_data x)" using 1(2) by (simp add: fs_data_def)
  have full: "rd_range ?d 0 (unat (js_blocksize (jf_sb jf))) = Inr ?d" using len b(1) by (simp add: rd_range_def)
  have wr: "wr_range (buf_data x) 0 ?d = Inr ?d" using 1(3) len by (simp add: wr_range_def)
  let ?fs2 = "fs0\<lparr> fs_bdev := blk_edit ?l ?d bd1 \<rparr>" let ?fs3 = "fs0\<lparr> fs_bdev := blk_edit ?l ?D bd1 \<rparr>"
  have s1: "fs_store (blk ?l) (Inr ?d) ?fs1 = (Inr (), ?fs2)" by (simp add: fs_store_def)
  have l2: "ext4_buf_lookup (bd_bc (blk_edit ?l ?d bd1)) ?l = Some (x\<lparr> buf_data := ?d \<rparr>)"
    using 1(2) by (simp add: blk_edit_def)
  have esc: "(if ti_is_escape t
            then on_jfs (\<lambda>fs. fs_store (blk ?l) (rbind (fs_data (blk ?l) fs) (\<lambda>d. wr_range d 0 (enc32 (to_be32 JBD_MAGIC_NUMBER)))) fs) ((?fs2, ir), jf)
            else (Inr (), ((?fs2, ir), jf))) = (Inr (), ((?fs3, ir), jf))"
  proof (cases "ti_is_escape t")
    case True
    have "wr_range ?d 0 (enc32 (to_be32 JBD_MAGIC_NUMBER)) = Inr ?D"
      using wr_range_patch [of 0 "enc32 (to_be32 JBD_MAGIC_NUMBER)" ?d] b(2) len True by (simp add: jbd_copy_def)
    then show ?thesis using True l2 by (simp add: on_jfs_def on_ji_def on_fs_def fs_data_def fs_store_def edit_twice)
  next
    case False
    then show ?thesis by (simp add: jbd_copy_def)
  qed
  have lD: "length ?D = st_bsize s" using jbd_copy_length [of ?d t] len b(2) by simp
  let ?s = "st_dirty ?l (st_edit ?l ?D (st_get ?l s))"
  have 4: "fs_at rep fs0 ?s (fs0\<lparr> fs_bdev := ext4_trans_set_block_dirty ?l (blk_edit ?l ?D bd1) \<rparr>)"
    using 1(5) [OF lD] by (auto simp: fs_at_def)
  have dirty: "on_jfs (fs_set_dirty (blk ?l)) ((?fs3, ir), jf) =
      (Inr (), ((fs0\<lparr> fs_bdev := ext4_trans_set_block_dirty ?l (blk_edit ?l ?D bd1) \<rparr>, ir), jf))"
    by (simp add: on_jfs_def on_ji_def on_fs_def fs_set_dirty_def)
  have "st_refs ?s ?l \<noteq> 0" "?l \<notin> st_pend ?s" by (simp_all add: store_simps)
  from set_eq [OF 4 this(1) t(1) this(2)] obtain fs5 where
    5: "fs_block_set io (blk ?l) (fs0\<lparr> fs_bdev := ext4_trans_set_block_dirty ?l (blk_edit ?l ?D bd1) \<rparr>) = (Inr (), fs5)"
      "fs_at rep fs0 (st_set ?l ?s) fs5" by blast
  have ne: "src \<noteq> ?l" using src(1) t(3) by auto
  have "st_refs (st_set ?l ?s) src \<noteq> 0" "src \<notin> st_pend (st_set ?l ?s)" using src ne by (simp_all add: store_simps)
  from jbd_set_ok [OF 5(2) this(1) src(2) this(2), of ir jf] obtain fs6 where
    6: "jbd_block_set io (blk src) ((fs5, ir), jf) = (Inr (), (fs6, ir), jf)" "fs_at rep fs0 (st_set src (st_set ?l ?s)) fs6" by blast
  have "st_set ?l ?s = s\<lparr> st_view := (st_view s)(?l := ?D), st_room := st_room s - 1 \<rparr>"
    by (rule store.equality) (use t(3,4) in \<open>auto simp: st_set_def st_get_def st_edit_def st_dirty_def fun_eq_iff\<close>)
  then show ?thesis using g dj dx full wr s1 esc dirty 5(1) 6
    by (simp add: replay_into_block_def scatch_def sread_def js_sb_def sforget_def)
       (simp add: on_jfs_def on_ji_def on_fs_def)
qed

end

end
