(* ===== verification/JbdLog.thy ===== *)
theory JbdLog
  imports JbdStore
begin

text \<open>
  Replay as a function of the log. \<open>J\<close> gives the bytes of each block of the log; \<open>log_run\<close> follows the log the way
  the three passes do and lists the blocks the last pass writes. On a store with a pointer-mapped journal the passes
  of the code are this function, and all they do to the blocks is to put the listed bytes in place.
\<close>

section \<open>The log as a function\<close>

text \<open>The log is a ring of the blocks from \<open>js_first\<close> on.\<close>

definition next_pos :: "jbd_sb \<Rightarrow> u32 \<Rightarrow> u32" where
  "next_pos sb p = (if p + 1 = js_maxlen sb then js_first sb else p + 1)"

lemma wrap_next:
  assumes "js_first sb < js_maxlen sb" and "p < js_maxlen sb"
  shows "wrap sb (p + 1) = next_pos sb p"
  using inc_le [OF assms(2)] by (auto simp: wrap_def next_pos_def)

text \<open>A block is applied unless the same or a later transaction revokes it.\<close>

definition wanted :: "(u64 \<rightharpoonup> u32) \<Rightarrow> u32 \<Rightarrow> u64 \<Rightarrow> bool" where
  "wanted rv tid l = (case rv l of None \<Rightarrow> True | Some t \<Rightarrow> 0 < sint (tid - t))"

lemma replay_wanted_eq: "replay_wanted rv tid l = wanted rv tid l"
  by (simp add: replay_wanted_def wanted_def trans_id_diff_def not_le split: option.splits)

definition table_size :: "jbd_sb \<Rightarrow> int" where
  "table_size sb =
     (if JBD_HAS_INCOMPAT_FEATURE sb JBD_FEATURE_INCOMPAT_CSUM_V2 \<or> JBD_HAS_INCOMPAT_FEATURE sb JBD_FEATURE_INCOMPAT_CSUM_V3
      then sint (js_blocksize sb - 12) - 4 else sint (js_blocksize sb - 12))"

definition block_tags :: "jbd_sb \<Rightarrow> u8 list \<Rightarrow> tag_info list" where
  "block_tags sb d = tags_of sb d 12 (table_size sb)"

type_synonym writes = "(u64 \<times> u8 list) list"

fun replay_tags :: "jbd_sb \<Rightarrow> (u32 \<Rightarrow> u8 list) \<Rightarrow> (u64 \<rightharpoonup> u32) \<Rightarrow> u32 \<Rightarrow> tag_info list \<Rightarrow> u32 \<Rightarrow> writes" where
  "replay_tags sb J rv tid [] pos = []"
| "replay_tags sb J rv tid (t # ts) pos =
     (if wanted rv tid (ti_block t) then [(ti_block t, jbd_copy t (J (next_pos sb pos)))] else []) @
     replay_tags sb J rv tid ts (next_pos sb pos)"

definition put_all :: "writes \<Rightarrow> (u64 \<Rightarrow> u8 list) \<Rightarrow> u64 \<Rightarrow> u8 list" where
  "put_all ws V = foldl (\<lambda>V w. V(fst w := snd w)) V ws"

lemma put_all_simps [simp]:
  "put_all [] V = V" "put_all (w # ws) V = put_all ws (V(fst w := snd w))" "put_all (ws @ us) V = put_all us (put_all ws V)"
  by (simp_all add: put_all_def)

lemma put_all_other: "l \<notin> fst ` set ws \<Longrightarrow> put_all ws V l = V l"
  by (induction ws arbitrary: V) auto

text \<open>What a block does: the transaction and the notes after it, whether the log ends, the position, the writes.\<close>

definition pure_block ::
    "jbd_sb \<Rightarrow> jbd_action \<Rightarrow> (u32 \<Rightarrow> u8 list) \<Rightarrow> u32 \<Rightarrow> recover_info \<Rightarrow> u32 \<Rightarrow>
     (u32 \<times> recover_info \<times> bool \<times> u32 \<times> writes) res" where
  "pure_block sb act J tid info pos =
     (let d = J pos
      in rbind (jbd_get32 d 4) (\<lambda>blocktype.
         if blocktype = JBD_DESCRIPTOR_BLOCK then
           rbind (jbd_verify_meta_csum sb d) (\<lambda>ok.
           if \<not> ok then Inr (tid, info, True, pos, [])
           else Inr (tid, info, False, (next_pos sb ^^ length (block_tags sb d)) pos,
                     if act = ACTION_RECOVER then replay_tags sb J (ri_revoke_root info) tid (block_tags sb d) pos else []))
         else if blocktype = JBD_COMMIT_BLOCK then
           rbind (jbd_verify_commit_csum sb d) (\<lambda>ok.
           if \<not> ok then Inr (tid, info, True, pos, [])
           else Inr (tid + 1, if act = ACTION_SCAN then info\<lparr> ri_trans_cnt := ri_trans_cnt info + 1 \<rparr> else info, False, pos, []))
         else if blocktype = JBD_REVOKE_BLOCK then
           rbind (jbd_verify_meta_csum sb d) (\<lambda>ok.
           if \<not> ok then Inr (tid, info, True, pos, [])
           else if act = ACTION_REVOKE then
             rbind (jbd_build_revoke_tree sb d (info\<lparr> ri_this_trans_id := tid \<rparr>)) (\<lambda>info. Inr (tid, info, False, pos, []))
           else Inr (tid, info, False, pos, []))
         else Inr (tid, info, True, pos, [])))"

fun log_run ::
    "nat \<Rightarrow> jbd_sb \<Rightarrow> jbd_action \<Rightarrow> (u32 \<Rightarrow> u8 list) \<Rightarrow> u32 \<Rightarrow> u32 \<Rightarrow> u32 \<Rightarrow> recover_info \<Rightarrow>
     (u32 \<times> recover_info \<times> writes) res" where
  "log_run 0 sb act J start tid pos info = Inl EHANG"
| "log_run (Suc fuel) sb act J start tid pos info =
     (if act \<noteq> ACTION_SCAN \<and> trans_id_diff tid (ri_last_trans_id info) > 0 then Inr (tid, info, [])
      else
        rbind (jbd_get32 (J pos) 0) (\<lambda>magic.
        rbind (jbd_get32 (J pos) 8) (\<lambda>seq.
          if magic \<noteq> JBD_MAGIC_NUMBER then Inr (tid, info, [])
          else if seq \<noteq> tid then (if act \<noteq> ACTION_SCAN then Inl EIO else Inr (tid, info, []))
          else rbind (pure_block sb act J tid info pos) (\<lambda>(tid, info, log_end, pos, ws).
               if log_end \<or> next_pos sb pos = start then Inr (tid, info, ws)
               else rbind (log_run fuel sb act J start tid (next_pos sb pos) info) (\<lambda>(tid, info, us).
                    Inr (tid, info, ws @ us))))))"

definition log_iterate ::
    "nat \<Rightarrow> jbd_sb \<Rightarrow> (u32 \<Rightarrow> u8 list) \<Rightarrow> recover_info \<Rightarrow> jbd_action \<Rightarrow> (recover_info \<times> writes) res" where
  "log_iterate fuel sb J info act =
     (let start_trans_id = js_sequence sb; start = js_start sb;
          info = (if act = ACTION_SCAN then info\<lparr> ri_trans_cnt := 0 \<rparr> else info)
      in if act \<noteq> ACTION_SCAN \<and> ri_trans_cnt info = 0 then Inr (info, [])
         else
           rbind (log_run fuel sb act J start start_trans_id start info) (\<lambda>(tid, info, ws).
           Inr (if act = ACTION_SCAN
                then info\<lparr> ri_start_trans_id := start_trans_id,
                           ri_last_trans_id := (if trans_id_diff tid start_trans_id > 0 then tid - 1 else tid) \<rparr>
                else info, ws)))"

definition log_replay :: "nat \<Rightarrow> jbd_sb \<Rightarrow> (u32 \<Rightarrow> u8 list) \<Rightarrow> (u32 \<times> writes) res" where
  "log_replay fuel sb J =
     rbind (log_iterate fuel sb J info_start ACTION_SCAN) (\<lambda>(info, _).
     rbind (log_iterate fuel sb J info ACTION_REVOKE) (\<lambda>(info, _).
     rbind (log_iterate fuel sb J info ACTION_RECOVER) (\<lambda>(info, ws).
     Inr (ri_last_trans_id info, ws))))"

section \<open>The passes of the code are that function\<close>

definition jlog :: "(u64 \<Rightarrow> u8 list) \<Rightarrow> nat \<Rightarrow> ext4_inode \<Rightarrow> u32 \<Rightarrow> u8 list" where
  "jlog V n i p = V (jaddr V n i p)"

text \<open>A block the replay may write: not of the journal and held by nobody.\<close>

definition target_ok :: "u64 set \<Rightarrow> store \<Rightarrow> u64 \<Rightarrow> bool" where
  "target_ok P s l \<longleftrightarrow> l \<notin> P \<and> l \<noteq> 0 \<and> l < st_cnt s \<and> st_refs s l = 0 \<and> l \<notin> st_pend s"

text \<open>The store after some writes and gets.\<close>

definition st_out :: "writes \<Rightarrow> nat \<Rightarrow> store \<Rightarrow> store" where
  "st_out ws r s = s\<lparr> st_view := put_all ws (st_view s), st_room := st_room s - r \<rparr>"

lemma st_out_simps [simp]:
  "st_view (st_out ws r s) = put_all ws (st_view s)" "st_room (st_out ws r s) = st_room s - r" "st_refs (st_out ws r s) = st_refs s"
  "st_pend (st_out ws r s) = st_pend s" "st_cnt (st_out ws r s) = st_cnt s" "st_bsize (st_out ws r s) = st_bsize s"
  by (simp_all add: st_out_def)

lemma st_out_0 [simp]: "st_out [] 0 s = s" by (simp add: st_out_def)

lemma st_out_out: "st_out us q (st_out ws r s) = st_out (ws @ us) (r + q) s"
  by (simp add: st_out_def)

lemma next_pos_less:
  assumes "js_first sb < js_maxlen sb" and "p < js_maxlen sb"
  shows "next_pos sb p < js_maxlen sb"
  using assms(1) inc_le [OF assms(2)] by (auto simp: next_pos_def)

lemma iter_pos_less: "js_first sb < js_maxlen sb \<Longrightarrow> p < js_maxlen sb \<Longrightarrow> (next_pos sb ^^ k) p < js_maxlen sb"
  by (induction k) (simp_all add: next_pos_less)

lemma journal_in_out:
  assumes j: "journal_in fs0 ir li i n ok jb sb s" and w: "fst ` set ws \<inter> jprot li ok jb = {}"
  shows "journal_in fs0 ir li i n ok jb sb (st_out ws r s)" and "jlog (st_view (st_out ws r s)) n i p = jlog (st_view s) n i p \<or> \<not> p < js_maxlen sb"
proof -
  have v: "st_view (st_out ws r s) x = st_view s x" if "x \<in> jprot li ok jb" for x
    using put_all_other [of x ws] w that by auto
  have h: "st_refs (st_out ws r s) li \<noteq> 0" using j by (simp add: journal_in_def pointers_in_def inode_held_def)
  note f = journal_in_frame [OF j v h]
  show "journal_in fs0 ir li i n ok jb sb (st_out ws r s)" by (rule f(1)) simp_all
  have a: "jaddr (st_view (st_out ws r s)) n i = jaddr (st_view s) n i" by (rule f(2)) simp_all
  have "jaddr (st_view s) n i p \<in> jb" if "p < js_maxlen sb"
    using j that by (auto simp: journal_in_def jaddr_def split: sum.splits)
  then show "jlog (st_view (st_out ws r s)) n i p = jlog (st_view s) n i p \<or> \<not> p < js_maxlen sb"
    unfolding jlog_def a using v by (auto simp: jprot_def)
qed

lemma replay_tags_cong:
  "(\<And>p. p < js_maxlen sb \<Longrightarrow> J p = J' p) \<Longrightarrow> js_first sb < js_maxlen sb \<Longrightarrow> pos < js_maxlen sb \<Longrightarrow>
   replay_tags sb J rv tid ts pos = replay_tags sb J' rv tid ts pos"
  by (induction ts arbitrary: pos) (simp_all add: next_pos_less)

context journal_store begin

lemma replay_tag_ok:
  assumes a: "fs_at rep fs0 s fs" and j: "journal_in fs0 ir li i n ok jb sb s" and sb: "jf_sb jf = sb"
    and m: "js_first sb < js_maxlen sb" "pos < js_maxlen sb" and b: "4 \<le> st_bsize s" and room: "5 \<le> st_room s"
    and t: "wanted (ri_revoke_root info) tid (ti_block t) \<Longrightarrow> target_ok (jprot li ok jb) s (ti_block t)"
  shows "\<exists>fs' r. jbd_replay_block_tags io info tid t (((fs, ir), jf), pos) = (Inr (), ((fs', ir), jf), next_pos sb pos) \<and> r \<le> 5 \<and>
    fs_at rep fs0 (st_out (replay_tags sb (jlog (st_view s) n i) (ri_revoke_root info) tid [t] pos) r s) fs'"
proof (cases "wanted (ri_revoke_root info) tid (ti_block t)")
  case False
  then show ?thesis using a by (intro exI [of _ fs] exI [of _ 0]) (simp add: jbd_replay_block_tags_def js_sb_def sb replay_wanted_eq wrap_next [OF m])
next
  case True
  let ?p = "next_pos sb pos" let ?a = "jaddr (st_view s) n i ?p"
  have p: "?p < js_maxlen sb" by (rule next_pos_less [OF m])
  have "4 \<le> st_room s" using room by simp
  from jbd_get_ok [OF a j p this, of jf] obtain fs1 r where
    1: "jbd_block_get io ?p ((fs, ir), jf) = (Inr (blk ?a), (fs1, ir), jf)" "r \<le> 3"
      "fs_at rep fs0 (st_get ?a (s\<lparr> st_room := st_room s - r \<rparr>)) fs1" "?a \<in> jb" by blast
  let ?s = "st_get ?a (s\<lparr> st_room := st_room s - r \<rparr>)"
  have T: "target_ok (jprot li ok jb) s (ti_block t)" by (rule t [OF True])
  have ne: "ti_block t \<noteq> ?a" using T 1(4) by (auto simp: target_ok_def jprot_def)
  have ja: "?a \<noteq> 0" "?a \<notin> st_pend s" using j 1(4) by (simp_all add: journal_in_def)
  have bs: "unat (js_blocksize sb) = st_bsize s" using j by (simp add: journal_in_def)
  have "\<exists>fs'. replay_into_block io t (blk ?a) ((fs1, ir), jf) = (Inr (), (fs', ir), jf) \<and>
    fs_at rep fs0 (st_set ?a (?s\<lparr> st_view := (st_view ?s)(ti_block t := jbd_copy t (st_view ?s ?a)), st_room := st_room ?s - 1 \<rparr>)) fs'"
    by (rule replay_into_block_ok [OF 1(3)])
       (use T ne ja bs b room 1(2) sb in \<open>simp_all add: store_simps target_ok_def\<close>)
  then obtain fs' where 2: "replay_into_block io t (blk ?a) ((fs1, ir), jf) = (Inr (), (fs', ir), jf)"
    "fs_at rep fs0 (st_set ?a (?s\<lparr> st_view := (st_view ?s)(ti_block t := jbd_copy t (st_view ?s ?a)), st_room := st_room ?s - 1 \<rparr>)) fs'"
    by blast
  have e: "st_set ?a (?s\<lparr> st_view := (st_view ?s)(ti_block t := jbd_copy t (st_view ?s ?a)), st_room := st_room ?s - 1 \<rparr>) =
      st_out (replay_tags sb (jlog (st_view s) n i) (ri_revoke_root info) tid [t] pos) (r + 2) s"
    by (rule store.equality) (auto simp: st_set_def st_get_def st_out_def True jlog_def put_all_def fun_eq_iff)
  have "jbd_replay_block_tags io info tid t (((fs, ir), jf), pos) = (Inr (), ((fs', ir), jf), ?p)"
    using True T 1(1) 2(1)
    by (simp add: jbd_replay_block_tags_def js_sb_def sb replay_wanted_eq wrap_next [OF m] target_ok_def sforget_def Let_def)
  then show ?thesis using 2(2) 1(2) unfolding e by (intro exI [of _ fs'] exI [of _ "r + 2"]) simp
qed

lemma replay_fold_ok:
  "fs_at rep fs0 s fs \<Longrightarrow> journal_in fs0 ir li i n ok jb sb s \<Longrightarrow> jf_sb jf = sb \<Longrightarrow> js_first sb < js_maxlen sb \<Longrightarrow>
   pos < js_maxlen sb \<Longrightarrow> 4 \<le> st_bsize s \<Longrightarrow> 5 * length ts \<le> st_room s \<Longrightarrow>
   (\<And>t. t \<in> set ts \<Longrightarrow> wanted (ri_revoke_root info) tid (ti_block t) \<Longrightarrow> target_ok (jprot li ok jb) s (ti_block t)) \<Longrightarrow>
   \<exists>fs' r. tags_fold (jbd_replay_block_tags io info tid) ts (((fs, ir), jf), pos) =
       (Inr (), ((fs', ir), jf), (next_pos sb ^^ length ts) pos) \<and> r \<le> 5 * length ts \<and>
     fs_at rep fs0 (st_out (replay_tags sb (jlog (st_view s) n i) (ri_revoke_root info) tid ts pos) r s) fs'"
proof (induction ts arbitrary: fs s pos)
  case Nil
  then show ?case by (intro exI [of _ fs] exI [of _ 0]) simp
next
  case (Cons t ts)
  let ?rv = "ri_revoke_root info" and ?J = "jlog (st_view s) n i"
  have "5 \<le> st_room s" using Cons.prems(7) by simp
  from replay_tag_ok [OF Cons.prems(1-6) this, of info tid t] Cons.prems(8) obtain fs1 r where
    1: "jbd_replay_block_tags io info tid t (((fs, ir), jf), pos) = (Inr (), ((fs1, ir), jf), next_pos sb pos)" "r \<le> 5"
      "fs_at rep fs0 (st_out (replay_tags sb ?J ?rv tid [t] pos) r s) fs1" by auto
  let ?w = "replay_tags sb ?J ?rv tid [t] pos" let ?s = "st_out ?w r s"
  have w: "fst ` set ?w \<inter> jprot li ok jb = {}" using Cons.prems(8) [of t] by (auto simp: target_ok_def)
  note j = journal_in_out [OF Cons.prems(2) w, of r]
  have p: "next_pos sb pos < js_maxlen sb" by (rule next_pos_less [OF Cons.prems(4,5)])
  have room: "5 * length ts \<le> st_room ?s" using Cons.prems(7) 1(2) by simp
  have "target_ok (jprot li ok jb) ?s (ti_block u)" if "u \<in> set ts" "wanted ?rv tid (ti_block u)" for u
    using Cons.prems(8) [of u] that by (simp add: target_ok_def)
  with Cons.IH [OF 1(3) j(1) Cons.prems(3,4) p _ room] Cons.prems(6) obtain fs' q where
    2: "tags_fold (jbd_replay_block_tags io info tid) ts (((fs1, ir), jf), next_pos sb pos) =
       (Inr (), ((fs', ir), jf), (next_pos sb ^^ length ts) (next_pos sb pos))" "q \<le> 5 * length ts"
      "fs_at rep fs0 (st_out (replay_tags sb (jlog (st_view ?s) n i) ?rv tid ts (next_pos sb pos)) q ?s) fs'" by auto
  have "replay_tags sb (jlog (st_view ?s) n i) ?rv tid ts (next_pos sb pos) = replay_tags sb ?J ?rv tid ts (next_pos sb pos)"
    by (rule replay_tags_cong [OF _ Cons.prems(4) p]) (use j(2) in blast)
  with 2(3) have "fs_at rep fs0 (st_out (replay_tags sb ?J ?rv tid (t # ts) pos) (r + q) s) fs'" by (simp add: st_out_out)
  moreover have "(next_pos sb ^^ length ts) (next_pos sb pos) = (next_pos sb ^^ length (t # ts)) pos"
    by (simp add: funpow_swap1)
  ultimately show ?case using 1(1,2) 2(1,2) by (intro exI [of _ fs'] exI [of _ "r + q"]) simp
qed

end

section \<open>A block of the log\<close>

lemma sint_le_uint: "sint (w :: 'a::len word) \<le> uint w"
proof -
  have "signed_take_bit n k \<le> k" if "0 \<le> k" for n :: nat and k :: int
  proof -
    have "signed_take_bit n k \<le> take_bit n k" by (simp add: signed_take_bit_eq_take_bit_minus take_bit_Suc_from_most)
    also have "\<dots> \<le> k" using that by (simp add: take_bit_int_less_eq_self_iff)
    finally show ?thesis .
  qed
  from this [of "uint w"] show ?thesis by (simp add: sint_uint)
qed

lemma table_size_le: "12 \<le> unat (js_blocksize sb) \<Longrightarrow> 12 + table_size sb \<le> int (unat (js_blocksize sb))"
proof -
  assume b: "12 \<le> unat (js_blocksize sb)"
  then have "unat (js_blocksize sb - 12) = unat (js_blocksize sb) - 12"
    using unat_minus_le [of "12 :: u32" "js_blocksize sb"] by simp
  then have "uint (js_blocksize sb - 12) = int (unat (js_blocksize sb)) - 12" using b by (metis uint_nat of_nat_diff of_nat_numeral)
  moreover have "table_size sb \<le> sint (js_blocksize sb - 12)" by (simp add: table_size_def)
  ultimately show ?thesis using sint_le_uint [of "js_blocksize sb - 12"] by linarith
qed

lemma tags_of_neg: "sz < 0 \<Longrightarrow> tags_of s d p sz = []"
  by (subst tags_of.simps) (simp add: jbd_extract_block_tag_def)

lemma block_tags_length:
  assumes "12 \<le> unat (js_blocksize sb)"
  shows "8 * length (block_tags sb d) \<le> unat (js_blocksize sb)"
proof (cases "table_size sb < 0")
  case True
  then show ?thesis by (simp add: block_tags_def tags_of_neg)
next
  case False
  then have "8 * int (length (block_tags sb d)) \<le> table_size sb"
    using tags_of_length [of "table_size sb" sb d 12] by (simp add: block_tags_def)
  then have "int (8 * length (block_tags sb d)) \<le> int (unat (js_blocksize sb))"
    using table_size_le [OF assms] by (simp only: of_nat_mult of_nat_numeral)
  then show ?thesis by (simp only: of_nat_le_iff)
qed

lemma replay_tags_targets:
  "t \<in> set ts \<Longrightarrow> wanted rv tid (ti_block t) \<Longrightarrow> ti_block t \<in> fst ` set (replay_tags sb J rv tid ts pos)"
  by (induction ts arbitrary: pos) auto

lemma display_fold:
  "js_first (js_sb s) < js_maxlen (js_sb s) \<Longrightarrow> pos < js_maxlen (js_sb s) \<Longrightarrow>
   tags_fold jbd_display_block_tags ts (s, pos) = (Inr (), s, (next_pos (js_sb s) ^^ length ts) pos)"
  by (induction ts arbitrary: pos) (simp_all add: jbd_display_block_tags_def wrap_next next_pos_less funpow_swap1)

lemma table_iterates:
  assumes "\<And>k t st st'. t \<in> set (block_tags sb d) \<Longrightarrow> I (Suc k) st \<Longrightarrow> func t st = (Inr (), st') \<Longrightarrow> I k st'"
    and "\<And>k st. I k st \<Longrightarrow> rd st = Inr d" and "I (length (block_tags sb d)) st"
    and "length d = unat (js_blocksize sb)" and "12 \<le> unat (js_blocksize sb)"
  shows "jbd_iterate_block_table sb rd 12 (sint (js_blocksize sb - 12)) func st = tags_fold func (block_tags sb d) st"
proof -
  have "iterate_tags sb rd func 12 (table_size sb) st = tags_fold func (tags_of sb d 12 (table_size sb)) st"
    by (rule iterate_tags_fold [where I = I])
       (use assms table_size_le [OF assms(5)] in \<open>auto simp: block_tags_def\<close>)
  then show ?thesis by (simp add: jbd_iterate_block_table_def table_size_def block_tags_def)
qed

context journal_store begin

lemma jbd_data_eq: "fs_at rep fs0 s fs \<Longrightarrow> st_refs s a \<noteq> 0 \<Longrightarrow> jbd_data (blk a) ((fs, ir), jf) = Inr (st_view s a)"
  using fs_data_eq by (simp add: jbd_data_def)

lemma replay_descriptor_ok:
  assumes a: "fs_at rep fs0 s fs" and j: "journal_in fs0 ir li i n ok jb sb s" and sb: "jf_sb jf = sb"
    and m: "js_first sb < js_maxlen sb" "pos < js_maxlen sb" and b: "12 \<le> st_bsize s" and room: "st_bsize s \<le> st_room s"
    and h: "st_refs s a \<noteq> 0" "a \<in> jb"
    and t: "\<And>t. t \<in> set (block_tags sb (st_view s a)) \<Longrightarrow> wanted (ri_revoke_root info) tid (ti_block t) \<Longrightarrow>
              target_ok (jprot li ok jb) s (ti_block t)"
  shows "\<exists>fs' r. jbd_replay_descriptor_block io info tid (blk a) (((fs, ir), jf), pos) =
      (Inr (), ((fs', ir), jf), (next_pos sb ^^ length (block_tags sb (st_view s a))) pos) \<and> r \<le> st_bsize s \<and>
    fs_at rep fs0 (st_out (replay_tags sb (jlog (st_view s) n i) (ri_revoke_root info) tid (block_tags sb (st_view s a)) pos) r s) fs'"
proof -
  let ?d = "st_view s a" let ?ts = "block_tags sb ?d" let ?P = "jprot li ok jb"
  let ?func = "jbd_replay_block_tags io info tid"
  have bs: "unat (js_blocksize sb) = st_bsize s" using j by (simp add: journal_in_def)
  have len: "length ?d = unat (js_blocksize sb)" using held_length [OF a h(1)] bs by simp
  have n8: "8 * length ?ts \<le> st_bsize s" using block_tags_length [of sb ?d] b bs by simp
  let ?I = "\<lambda>k st. \<exists>fs ws r pos. st = (((fs, ir), jf), pos) \<and> fs_at rep fs0 (st_out ws r s) fs \<and> fst ` set ws \<inter> ?P = {} \<and>
      pos < js_maxlen sb \<and> 5 * k \<le> st_room s - r"
  have "jbd_iterate_block_table sb (\<lambda>s. jbd_data (blk a) (fst s)) 12 (sint (js_blocksize sb - 12)) ?func (((fs, ir), jf), pos) =
      tags_fold ?func ?ts (((fs, ir), jf), pos)"
  proof (rule table_iterates [where I = ?I, OF _ _ _ len])
    fix k t st st' assume u: "t \<in> set ?ts" "?I (Suc k) st" "?func t st = (Inr (), st')"
    then obtain fs1 ws r pos1 where i: "st = (((fs1, ir), jf), pos1)" "fs_at rep fs0 (st_out ws r s) fs1" "fst ` set ws \<inter> ?P = {}"
      "pos1 < js_maxlen sb" "5 * Suc k \<le> st_room s - r" by blast
    note jo = journal_in_out(1) [OF j i(3), of r]
    have "target_ok ?P (st_out ws r s) (ti_block t)" if "wanted (ri_revoke_root info) tid (ti_block t)"
      using t [OF u(1) that] by (simp add: target_ok_def)
    moreover have "5 \<le> st_room (st_out ws r s)" "4 \<le> st_bsize (st_out ws r s)" using i(5) b by simp_all
    ultimately obtain fs2 q where 1: "?func t (((fs1, ir), jf), pos1) = (Inr (), ((fs2, ir), jf), next_pos sb pos1)" "q \<le> 5"
        "fs_at rep fs0 (st_out (replay_tags sb (jlog (st_view (st_out ws r s)) n i) (ri_revoke_root info) tid [t] pos1) q (st_out ws r s)) fs2"
      using replay_tag_ok [OF i(2) jo sb m(1) i(4)] by blast
    let ?w = "replay_tags sb (jlog (st_view (st_out ws r s)) n i) (ri_revoke_root info) tid [t] pos1"
    have "fst ` set ?w \<inter> ?P = {}" using t [OF u(1)] by (auto simp: target_ok_def)
    then have "fst ` set (ws @ ?w) \<inter> ?P = {}" using i(3) by (simp only: set_append image_Un Int_Un_distrib2 Un_empty_right)
    moreover have "next_pos sb pos1 < js_maxlen sb" by (rule next_pos_less [OF m(1) i(4)])
    moreover have "5 * k \<le> st_room s - (r + q)" using i(5) 1(2) by simp
    moreover have "st' = (((fs2, ir), jf), next_pos sb pos1)" using u(3) i(1) 1(1) by simp
    ultimately show "?I k st'" using 1(3) unfolding st_out_out by blast
  next
    fix k st assume "?I k st"
    then obtain fs1 ws r pos1 where i: "st = (((fs1, ir), jf), pos1)" "fs_at rep fs0 (st_out ws r s) fs1" "fst ` set ws \<inter> ?P = {}" by blast
    have "a \<in> ?P" using h(2) by (simp add: jprot_def)
    then have "a \<notin> fst ` set ws" using i(3) by blast
    then have "st_view (st_out ws r s) a = ?d" by (simp add: put_all_other)
    moreover have "st_refs (st_out ws r s) a \<noteq> 0" using h(1) by simp
    ultimately show "jbd_data (blk a) (fst st) = Inr ?d" using jbd_data_eq [OF i(2), of a ir jf] i(1) by simp
  next
    show "?I (length ?ts) (((fs, ir), jf), pos)"
      by (intro exI [of _ fs] exI [of _ "[]"] exI [of _ 0] exI [of _ pos]) (use a m n8 room in simp)
    show "12 \<le> unat (js_blocksize sb)" using b bs by simp
  qed
  moreover have "5 * length ?ts \<le> st_room s" "4 \<le> st_bsize s" using n8 room b by simp_all
  moreover obtain fs' r where "tags_fold ?func ?ts (((fs, ir), jf), pos) = (Inr (), ((fs', ir), jf), (next_pos sb ^^ length ?ts) pos)"
      "r \<le> 5 * length ?ts"
      "fs_at rep fs0 (st_out (replay_tags sb (jlog (st_view s) n i) (ri_revoke_root info) tid ?ts pos) r s) fs'"
    using replay_fold_ok [OF a j sb m] t calculation(2,3) by blast
  ultimately show ?thesis using n8 sb
    by (intro exI [of _ fs'] exI [of _ r]) (simp add: jbd_replay_descriptor_block_def js_sb_def)
qed

lemma debug_descriptor_ok:
  assumes a: "fs_at rep fs0 s fs" and bs: "unat (js_blocksize sb) = st_bsize s" and sb: "jf_sb jf = sb" and b: "12 \<le> st_bsize s"
    and h: "st_refs s a \<noteq> 0" and m: "js_first sb < js_maxlen sb" "pos < js_maxlen sb"
  shows "jbd_debug_descriptor_block (blk a) (((fs, ir), jf), pos) =
      (Inr (), ((fs, ir), jf), (next_pos sb ^^ length (block_tags sb (st_view s a))) pos)"
proof -
  let ?d = "st_view s a"
  have len: "length ?d = unat (js_blocksize sb)" using held_length [OF a h] bs by simp
  have "jbd_iterate_block_table sb (\<lambda>s. jbd_data (blk a) (fst s)) 12 (sint (js_blocksize sb - 12)) jbd_display_block_tags (((fs, ir), jf), pos) =
      tags_fold jbd_display_block_tags (block_tags sb ?d) (((fs, ir), jf), pos)"
    by (rule table_iterates [where I = "\<lambda>k st. fst st = ((fs, ir), jf)", OF _ _ _ len])
       (use jbd_data_eq [OF a h] b bs in \<open>auto simp: jbd_display_block_tags_def\<close>)
  then show ?thesis using sb m by (simp add: jbd_debug_descriptor_block_def js_sb_def display_fold)
qed

lemma log_block_ok:
  assumes a: "fs_at rep fs0 s fs" and j: "journal_in fs0 ir li i n ok jb sb s" and sb: "jf_sb jf = sb"
    and m: "js_first sb < js_maxlen sb" "pos < js_maxlen sb" and b: "12 \<le> st_bsize s" and room: "st_bsize s \<le> st_room s"
    and h: "st_refs s (jaddr (st_view s) n i pos) \<noteq> 0"
    and p: "pure_block sb act (jlog (st_view s) n i) tid info pos = Inr (tid', info', fin, pos', ws)"
    and t: "\<And>l. l \<in> fst ` set ws \<Longrightarrow> target_ok (jprot li ok jb) s l"
  shows "\<exists>fs' r. log_block io act tid (blk (jaddr (st_view s) n i pos)) info (((fs, ir), jf), pos) =
      (Inr (tid', info', fin), ((fs', ir), jf), pos') \<and> r \<le> st_bsize s \<and> fs_at rep fs0 (st_out ws r s) fs'"
proof -
  let ?a = "jaddr (st_view s) n i pos" let ?d = "st_view s ?a"
  have ja: "?a \<in> jb" using j m(2) by (auto simp: journal_in_def jaddr_def split: sum.splits)
  have J: "jlog (st_view s) n i pos = ?d" by (simp add: jlog_def)
  have bs: "unat (js_blocksize sb) = st_bsize s" using j by (simp add: journal_in_def)
  note d = jbd_data_eq [OF a h, of ir jf]
  obtain bt where bt: "jbd_get32 ?d 4 = Inr bt" using p by (auto simp: pure_block_def J Let_def rbind_Inr_iff)
  have here: "\<exists>fs' r. (v, ((fs, ir), jf), q) = (v, ((fs', ir), jf), q) \<and> r \<le> st_bsize s \<and> fs_at rep fs0 (st_out [] r s) fs'" for v q
    using a by (intro exI [of _ fs] exI [of _ 0]) simp
  show ?thesis
  proof (cases "bt = JBD_DESCRIPTOR_BLOCK")
    case True
    obtain v where v: "jbd_verify_meta_csum sb ?d = Inr v" using p bt True by (auto simp: pure_block_def J Let_def rbind_Inr_iff)
    show ?thesis
    proof (cases v)
      case False
      then show ?thesis using p bt True v d here sb
        by (simp add: pure_block_def J Let_def log_block_def sread_def js_sb_def)
    next
      case vt: True
      then have r: "tid' = tid" "info' = info" "fin = False" "pos' = (next_pos sb ^^ length (block_tags sb ?d)) pos"
        "ws = (if act = ACTION_RECOVER then replay_tags sb (jlog (st_view s) n i) (ri_revoke_root info) tid (block_tags sb ?d) pos else [])"
        using p bt True v by (auto simp: pure_block_def J Let_def)
      show ?thesis
      proof (cases "act = ACTION_RECOVER")
        case ar: True
        have "target_ok (jprot li ok jb) s (ti_block t)" if "t \<in> set (block_tags sb ?d)" "wanted (ri_revoke_root info) tid (ti_block t)" for t
          using t [of "ti_block t"] replay_tags_targets [OF that] r(5) ar by simp
        from replay_descriptor_ok [OF a j sb m b room h ja this] obtain fs' q where
          "jbd_replay_descriptor_block io info tid (blk ?a) (((fs, ir), jf), pos) =
             (Inr (), ((fs', ir), jf), (next_pos sb ^^ length (block_tags sb ?d)) pos)" "q \<le> st_bsize s"
          "fs_at rep fs0 (st_out (replay_tags sb (jlog (st_view s) n i) (ri_revoke_root info) tid (block_tags sb ?d) pos) q s) fs'" by blast
        then show ?thesis using bt True v vt d r ar sb
          by (intro exI [of _ fs'] exI [of _ q]) (simp add: log_block_def sread_def js_sb_def)
      next
        case False
        then show ?thesis using bt True v vt d r sb debug_descriptor_ok [OF a bs sb b h m, of ir] here
          by (simp add: log_block_def sread_def js_sb_def)
      qed
    qed
  next
    case nd: False
    show ?thesis
    proof (cases "bt = JBD_COMMIT_BLOCK")
      case True
      obtain v where v: "jbd_verify_commit_csum sb ?d = Inr v" using p bt True nd by (auto simp: pure_block_def J Let_def rbind_Inr_iff)
      then show ?thesis using p bt True nd d here sb
        by (cases v) (auto simp: pure_block_def J Let_def log_block_def sread_def js_sb_def)
    next
      case nc: False
      show ?thesis
      proof (cases "bt = JBD_REVOKE_BLOCK")
        case True
        obtain v where v: "jbd_verify_meta_csum sb ?d = Inr v" using p bt True nd nc by (auto simp: pure_block_def J Let_def rbind_Inr_iff)
        show ?thesis
        proof (cases "v \<and> act = ACTION_REVOKE")
          case True
          then obtain info1 where "jbd_build_revoke_tree sb ?d (info\<lparr> ri_this_trans_id := tid \<rparr>) = Inr info1"
            using p bt \<open>bt = JBD_REVOKE_BLOCK\<close> nd nc v by (auto simp: pure_block_def J Let_def rbind_Inr_iff)
          then show ?thesis using True p bt \<open>bt = JBD_REVOKE_BLOCK\<close> nd nc v d here sb
            by (simp add: pure_block_def J Let_def log_block_def sread_def js_sb_def)
        next
          case False
          then show ?thesis using p bt True nd nc v d here sb
            by (cases v) (auto simp: pure_block_def J Let_def log_block_def sread_def js_sb_def)
        qed
      next
        case False
        then show ?thesis using p bt nd nc d here sb
          by (simp add: pure_block_def J Let_def log_block_def sread_def js_sb_def)
      qed
    qed
  qed
qed

end

section \<open>The loop over the log\<close>

lemma pure_block_cong:
  assumes e: "\<And>p. p < js_maxlen sb \<Longrightarrow> J p = J' p" and m: "js_first sb < js_maxlen sb" "pos < js_maxlen sb"
  shows "pure_block sb act J tid info pos = pure_block sb act J' tid info pos"
proof -
  have "replay_tags sb J rv tid ts pos = replay_tags sb J' rv tid ts pos" for rv tid ts
    by (rule replay_tags_cong [OF _ m]) (rule e)
  then show ?thesis by (simp only: pure_block_def Let_def e [OF m(2)])
qed

lemma pure_block_pos:
  assumes m: "js_first sb < js_maxlen sb" "pos < js_maxlen sb"
    and p: "pure_block sb act J tid info pos = Inr (tid', info', fin, pos', ws)"
  shows "pos' < js_maxlen sb"
  using p iter_pos_less [OF m] m(2) by (auto simp: pure_block_def Let_def rbind_Inr_iff split: if_splits)

lemma log_run_cong:
  assumes e: "\<And>p. p < js_maxlen sb \<Longrightarrow> J p = J' p" and m: "js_first sb < js_maxlen sb"
  shows "pos < js_maxlen sb \<Longrightarrow> log_run fuel sb act J start tid pos info = log_run fuel sb act J' start tid pos info"
proof (induction fuel arbitrary: tid pos info)
  case 0
  show ?case by simp
next
  case (Suc fuel)
  have pc: "pure_block sb act J tid info pos = pure_block sb act J' tid info pos"
    by (rule pure_block_cong [OF _ m Suc.prems]) (rule e)
  define K where "K = (\<lambda>J. \<lambda>(tid, info, log_end, pos, ws).
      if log_end \<or> next_pos sb pos = start then Inr (tid, info, ws)
      else rbind (log_run fuel sb act J start tid (next_pos sb pos) info) (\<lambda>(tid, info, us). Inr (tid, info, ws @ us)))"
  have k: "rbind (pure_block sb act J' tid info pos) (K J) = rbind (pure_block sb act J' tid info pos) (K J')"
  proof (cases "pure_block sb act J' tid info pos")
    case (Inl x)
    then show ?thesis by simp
  next
    case (Inr y)
    obtain tid' info' fin pos' ws where y: "y = (tid', info', fin, pos', ws)" by (cases y) auto
    have "pos' < js_maxlen sb" by (rule pure_block_pos [OF m Suc.prems, of act J' tid info]) (simp add: Inr y)
    then have "next_pos sb pos' < js_maxlen sb" by (rule next_pos_less [OF m])
    from Suc.IH [OF this] show ?thesis by (simp add: Inr y K_def)
  qed
  show ?case unfolding log_run.simps pc e [OF Suc.prems] using k unfolding K_def by (simp only:)
qed

context journal_store begin

lemma log_turn_out:
  "st_set a (st_out ws q (st_get a (s\<lparr> st_room := st_room s - r \<rparr>))) = st_out ws (r + 1 + q) s"
  by (rule store.equality) (auto simp: st_set_def st_get_def st_out_def fun_eq_iff)

lemma log_loop_ok:
  "fs_at rep fs0 s fs \<Longrightarrow> journal_in fs0 ir li i n ok jb sb s \<Longrightarrow> jf_sb jf = sb \<Longrightarrow> js_first sb < js_maxlen sb \<Longrightarrow>
   pos < js_maxlen sb \<Longrightarrow> 12 \<le> st_bsize s \<Longrightarrow> fuel * (4 + st_bsize s) \<le> st_room s \<Longrightarrow>
   log_run fuel sb act (jlog (st_view s) n i) start tid pos info = Inr (tid', info', ws) \<Longrightarrow>
   (\<And>l. l \<in> fst ` set ws \<Longrightarrow> target_ok (jprot li ok jb) s l) \<Longrightarrow>
   \<exists>fs' r. log_loop fuel io act start tid pos info ((fs, ir), jf) = (Inr (tid', info'), (fs', ir), jf) \<and>
     r \<le> fuel * (4 + st_bsize s) \<and> fs_at rep fs0 (st_out ws r s) fs'"
proof (induction fuel arbitrary: fs s tid pos info ws)
  case 0
  then show ?case by simp
next
  case (Suc fuel)
  note a = Suc.prems(1) and j = Suc.prems(2) and sb = Suc.prems(3) and m = Suc.prems(4,5) and b = Suc.prems(6) and run = Suc.prems(8)
    and t = Suc.prems(9)
  let ?J = "jlog (st_view s) n i" let ?a = "jaddr (st_view s) n i pos" let ?d = "st_view s ?a"
  show ?case
  proof (cases "act \<noteq> ACTION_SCAN \<and> trans_id_diff tid (ri_last_trans_id info) > 0")
    case True
    then show ?thesis using run a by (intro exI [of _ fs] exI [of _ 0]) simp
  next
    case go: False
    have room: "4 \<le> st_room s" using Suc.prems(7) by simp
    from jbd_get_ok [OF a j m(2) room, of jf] obtain fs1 r where
      1: "jbd_block_get io pos ((fs, ir), jf) = (Inr (blk ?a), (fs1, ir), jf)" "r \<le> 3"
        "fs_at rep fs0 (st_get ?a (s\<lparr> st_room := st_room s - r \<rparr>)) fs1" "?a \<in> jb" by blast
    let ?s = "st_get ?a (s\<lparr> st_room := st_room s - r \<rparr>)"
    have h: "st_refs ?s ?a \<noteq> 0" and v: "st_view ?s = st_view s" by (simp_all add: store_simps)
    have j1: "journal_in fs0 ir li i n ok jb sb ?s" by (rule journal_in_holds(2) [OF journal_in_holds(1) [OF j]])
    have na: "?a \<noteq> 0" "?a \<notin> st_pend s" using j 1(4) by (auto simp: journal_in_def)
    note d = jbd_data_eq [OF 1(3) h, of ir jf, unfolded v]
    have J: "?J pos = ?d" by (simp add: jlog_def)
    obtain magic where mg: "jbd_get32 ?d 0 = Inr magic" using run go by (auto simp: J rbind_Inr_iff)
    obtain seq where sq: "jbd_get32 ?d 8 = Inr seq" using run go mg by (auto simp: J rbind_Inr_iff)
    have stop: "\<exists>fs'. jbd_block_set io (blk ?a) ((fs1, ir), jf) = (Inr (), (fs', ir), jf) \<and> fs_at rep fs0 (st_out [] (r + 1) s) fs'"
    proof -
      have "?a \<notin> st_pend ?s" using na by (simp add: store_simps)
      from jbd_set_ok [OF 1(3) h na(1) this, of ir jf] show ?thesis using log_turn_out [of ?a "[]" 0 s r] by simp
    qed
    show ?thesis
    proof (cases "magic = JBD_MAGIC_NUMBER \<and> seq = tid")
      case False
      from stop obtain fs' where st: "jbd_block_set io (blk ?a) ((fs1, ir), jf) = (Inr (), (fs', ir), jf)"
        "fs_at rep fs0 (st_out [] (r + 1) s) fs'" by blast
      have "tid' = tid" "info' = info" "ws = []" "magic \<noteq> JBD_MAGIC_NUMBER \<or> act = ACTION_SCAN"
        using run go mg sq False by (auto simp: J split: if_splits)
      then show ?thesis using False go 1(1,2) st d mg sq
        by (intro exI [of _ fs'] exI [of _ "r + 1"]) (auto simp: sread_def sforget_def)
    next
      case True
      obtain tid1 info1 fin pos1 ws1 where pb: "pure_block sb act ?J tid info pos = Inr (tid1, info1, fin, pos1, ws1)"
        using run go mg sq True by (auto simp: J rbind_Inr_iff)
      have sub: "set ws1 \<subseteq> set ws" using run go mg sq True pb by (auto simp: J rbind_Inr_iff split: if_splits)
      have t1: "target_ok (jprot li ok jb) ?s l" if "l \<in> fst ` set ws1" for l
      proof -
        have "l \<in> fst ` set ws" using that sub by blast
        then have "target_ok (jprot li ok jb) s l" by (rule t)
        moreover from this have "l \<noteq> ?a" using 1(4) by (auto simp: target_ok_def jprot_def)
        ultimately show ?thesis by (simp add: target_ok_def store_simps)
      qed
      have bs: "12 \<le> st_bsize ?s" "st_bsize ?s \<le> st_room ?s" using b Suc.prems(7) 1(2) by (simp_all add: store_simps)
      have "\<exists>fs' q. log_block io act tid (blk (jaddr (st_view ?s) n i pos)) info (((fs1, ir), jf), pos) =
          (Inr (tid1, info1, fin), ((fs', ir), jf), pos1) \<and> q \<le> st_bsize ?s \<and> fs_at rep fs0 (st_out ws1 q ?s) fs'"
        by (rule log_block_ok [OF 1(3) j1 sb m bs]) (use h pb t1 in \<open>simp_all add: v\<close>)
      then obtain fs2 q where 2: "log_block io act tid (blk ?a) info (((fs1, ir), jf), pos) = (Inr (tid1, info1, fin), ((fs2, ir), jf), pos1)"
        "q \<le> st_bsize s" "fs_at rep fs0 (st_out ws1 q ?s) fs2" unfolding v by (auto simp: store_simps)
      have "st_refs (st_out ws1 q ?s) ?a \<noteq> 0" "?a \<notin> st_pend (st_out ws1 q ?s)" using na by (simp_all add: store_simps)
      from jbd_set_ok [OF 2(3) this(1) na(1) this(2), of ir jf] obtain fs3 where
        3: "jbd_block_set io (blk ?a) ((fs2, ir), jf) = (Inr (), (fs3, ir), jf)" "fs_at rep fs0 (st_out ws1 (r + 1 + q) s) fs3"
        unfolding log_turn_out by blast
      have body: "log_loop (Suc fuel) io act start tid pos info ((fs, ir), jf) =
          (if fin \<or> next_pos sb pos1 = start then (Inr (tid1, info1), (fs3, ir), jf)
           else log_loop fuel io act start tid1 (next_pos sb pos1) info1 ((fs3, ir), jf))"
        using True go 1(1) d mg sq 2(1) 3(1) sb wrap_next [OF m(1) pure_block_pos [OF m pb]] by (auto simp: sread_def sforget_def js_sb_def)
      have used: "r + 1 + q \<le> 4 + st_bsize s" using 1(2) 2(2) by simp
      show ?thesis
      proof (cases "fin \<or> next_pos sb pos1 = start")
        case True
        then have "tid' = tid1" "info' = info1" "ws = ws1" using run go mg sq pb \<open>magic = _ \<and> _\<close> by (auto simp: J split: if_splits)
        then show ?thesis using True body used 3(2) by (intro exI [of _ fs3] exI [of _ "r + 1 + q"]) simp
      next
        case False
        then obtain us where us: "log_run fuel sb act ?J start tid1 (next_pos sb pos1) info1 = Inr (tid', info', us)" "ws = ws1 @ us"
          using run go mg sq pb \<open>magic = _ \<and> _\<close> by (auto simp: J rbind_Inr_iff split: if_splits)
        have w1: "fst ` set ws1 \<inter> jprot li ok jb = {}" using t us(2) by (auto simp: target_ok_def)
        let ?s3 = "st_out ws1 (r + 1 + q) s"
        note jo = journal_in_out [OF j w1, of "r + 1 + q"]
        have np: "next_pos sb pos1 < js_maxlen sb" by (rule next_pos_less [OF m(1) pure_block_pos [OF m pb]])
        have run': "log_run fuel sb act (jlog (st_view ?s3) n i) start tid1 (next_pos sb pos1) info1 = Inr (tid', info', us)"
          unfolding us(1) [symmetric] by (rule log_run_cong [OF _ m(1) np]) (use jo(2) in blast)
        have t3: "target_ok (jprot li ok jb) ?s3 l" if "l \<in> fst ` set us" for l
          using t [of l] that us(2) by (auto simp: target_ok_def)
        have "12 \<le> st_bsize ?s3" "fuel * (4 + st_bsize ?s3) \<le> st_room ?s3" using b Suc.prems(7) used by simp_all
        from Suc.IH [OF 3(2) jo(1) sb m(1) np this run' t3] obtain fs' p where
          4: "log_loop fuel io act start tid1 (next_pos sb pos1) info1 ((fs3, ir), jf) = (Inr (tid', info'), (fs', ir), jf)"
            "p \<le> fuel * (4 + st_bsize ?s3)" "fs_at rep fs0 (st_out us p ?s3) fs'" by blast
        show ?thesis using False body 4 used us(2)
          by (intro exI [of _ fs'] exI [of _ "r + 1 + q + p"]) (simp add: st_out_out)
      qed
    qed
  qed
qed

end

section \<open>The three passes\<close>

lemma log_run_writes:
  "log_run fuel sb act J start tid pos info = Inr (tid', info', ws) \<Longrightarrow> act \<noteq> ACTION_RECOVER \<Longrightarrow> ws = []"
proof (induction fuel arbitrary: tid pos info ws)
  case 0
  then show ?case by simp
next
  case (Suc fuel)
  have pb: "ws1 = []" if "pure_block sb act J tid info pos = Inr (tid1, info1, fin, pos1, ws1)" for tid1 info1 fin pos1 ws1
    using that Suc.prems(2) by (auto simp: pure_block_def Let_def rbind_Inr_iff split: if_splits)
  show ?case using Suc.prems pb Suc.IH by (auto simp: rbind_Inr_iff split: if_splits)
qed

lemma log_iterate_writes:
  "log_iterate fuel sb J info act = Inr (info', ws) \<Longrightarrow> act \<noteq> ACTION_RECOVER \<Longrightarrow> ws = []"
  using log_run_writes by (fastforce simp: log_iterate_def Let_def rbind_Inr_iff split: if_splits)

context journal_store begin

lemma iterate_log_ok:
  assumes a: "fs_at rep fs0 s fs" and j: "journal_in fs0 ir li i n ok jb sb s" and sb: "jf_sb jf = sb"
    and m: "js_first sb < js_maxlen sb" "js_start sb < js_maxlen sb" and b: "12 \<le> st_bsize s"
    and room: "fuel * (4 + st_bsize s) \<le> st_room s"
    and l: "log_iterate fuel sb (jlog (st_view s) n i) info act = Inr (info', ws)"
    and t: "\<And>l. l \<in> fst ` set ws \<Longrightarrow> target_ok (jprot li ok jb) s l"
  shows "\<exists>fs' r. jbd_iterate_log fuel io info act ((fs, ir), jf) = (Inr info', (fs', ir), jf) \<and>
    r \<le> fuel * (4 + st_bsize s) \<and> fs_at rep fs0 (st_out ws r s) fs'"
proof -
  let ?info = "if act = ACTION_SCAN then info\<lparr> ri_trans_cnt := 0 \<rparr> else info"
  show ?thesis
  proof (cases "act \<noteq> ACTION_SCAN \<and> ri_trans_cnt ?info = 0")
    case True
    then have na: "act \<noteq> ACTION_SCAN" "ri_trans_cnt info = 0" by auto
    then have "info' = info" "ws = []" using l by (auto simp: log_iterate_def)
    then show ?thesis using na a by (intro exI [of _ fs] exI [of _ 0]) (simp add: jbd_iterate_log_def Let_def)
  next
    case False
    let ?fin = "\<lambda>tid info1. if act = ACTION_SCAN
                then info1\<lparr> ri_start_trans_id := js_sequence sb,
                           ri_last_trans_id := (if trans_id_diff tid (js_sequence sb) > 0 then tid - 1 else tid) \<rparr>
                else info1"
    have "rbind (log_run fuel sb act (jlog (st_view s) n i) (js_start sb) (js_sequence sb) (js_start sb) ?info)
        (\<lambda>(tid, info, ws). Inr (?fin tid info, ws)) = Inr (info', ws)"
      using l False unfolding log_iterate_def Let_def by (simp only: if_False)
    then obtain tid info1 where
      r: "log_run fuel sb act (jlog (st_view s) n i) (js_start sb) (js_sequence sb) (js_start sb) ?info = Inr (tid, info1, ws)"
      and i: "info' = ?fin tid info1"
      unfolding rbind_Inr_iff by (elim exE conjE) (auto split: prod.splits)
    from log_loop_ok [OF a j sb m b room r t] obtain fs' q where
      "log_loop fuel io act (js_start sb) (js_sequence sb) (js_start sb) ?info ((fs, ir), jf) = (Inr (tid, info1), (fs', ir), jf)"
      "q \<le> fuel * (4 + st_bsize s)" "fs_at rep fs0 (st_out ws q s) fs'" by blast
    then show ?thesis using False sb i
      by (intro exI [of _ fs'] exI [of _ q]) (simp only: jbd_iterate_log_def Let_def js_sb_def snd_conv if_False sbind_simps prod.case simp_thms)
  qed
qed

lemma recover_ok:
  assumes a: "fs_at rep fs0 s fs" and j: "journal_in fs0 ir li i n ok jb sb s" and sb: "jf_sb jf = sb"
    and m: "js_first sb < js_maxlen sb" "js_start sb < js_maxlen sb" "js_start sb \<noteq> 0" and b: "12 \<le> st_bsize s"
    and room: "3 * (fuel * (4 + st_bsize s)) \<le> st_room s"
    and l: "log_replay fuel sb (jlog (st_view s) n i) = Inr (lst, ws)"
    and t: "\<And>l. l \<in> fst ` set ws \<Longrightarrow> target_ok (jprot li ok jb) s l"
  shows "\<exists>fs' r. jbd_recover fuel io ((fs, ir), jf) = jbd_recovered io lst ((fs', ir), jf) \<and>
    r \<le> 3 * (fuel * (4 + st_bsize s)) \<and> fs_at rep fs0 (st_out ws r s) fs'"
proof -
  let ?J = "jlog (st_view s) n i"
  let ?u = "fuel * (4 + st_bsize s)"
  obtain i1 w1 where l1: "log_iterate fuel sb ?J info_start ACTION_SCAN = Inr (i1, w1)" using l by (auto simp: log_replay_def rbind_Inr_iff)
  then obtain i2 w2 where l2: "log_iterate fuel sb ?J i1 ACTION_REVOKE = Inr (i2, w2)" using l by (auto simp: log_replay_def rbind_Inr_iff)
  with l1 obtain i3 where l3: "log_iterate fuel sb ?J i2 ACTION_RECOVER = Inr (i3, ws)" "lst = ri_last_trans_id i3"
    using l by (auto simp: log_replay_def rbind_Inr_iff)
  have w: "w1 = []" "w2 = []" using log_iterate_writes [OF l1] log_iterate_writes [OF l2] by simp_all
  have u: "?u \<le> st_room s" using room by simp
  obtain fs1 r1 where 1: "jbd_iterate_log fuel io info_start ACTION_SCAN ((fs, ir), jf) = (Inr i1, (fs1, ir), jf)" "r1 \<le> ?u"
      "fs_at rep fs0 (st_out [] r1 s) fs1"
    using iterate_log_ok [OF a j sb m(1,2) b u l1] w by auto
  let ?s1 = "st_out [] r1 s"
  have e1: "journal_in fs0 ir li i n ok jb sb ?s1" by (rule journal_in_out(1) [OF j]) simp
  have u1: "fuel * (4 + st_bsize ?s1) \<le> st_room ?s1" using room 1(2) by simp
  obtain fs2 r2 where 2: "jbd_iterate_log fuel io i1 ACTION_REVOKE ((fs1, ir), jf) = (Inr i2, (fs2, ir), jf)" "r2 \<le> ?u"
      "fs_at rep fs0 (st_out [] (r1 + r2) s) fs2"
    using iterate_log_ok [OF 1(3) e1 sb m(1,2) _ u1, of i1 ACTION_REVOKE i2 w2] l2 w b by (auto simp: st_out_out)
  let ?s2 = "st_out [] (r1 + r2) s"
  have e2: "journal_in fs0 ir li i n ok jb sb ?s2" by (rule journal_in_out(1) [OF j]) simp
  have u2: "fuel * (4 + st_bsize ?s2) \<le> st_room ?s2" using room 1(2) 2(2) by simp
  have t2: "target_ok (jprot li ok jb) ?s2 l" if "l \<in> fst ` set ws" for l using t [OF that] by (simp add: target_ok_def)
  have "12 \<le> st_bsize ?s2" "log_iterate fuel sb (jlog (st_view ?s2) n i) i2 ACTION_RECOVER = Inr (i3, ws)" using b l3 by simp_all
  from iterate_log_ok [OF 2(3) e2 sb m(1,2) this(1) u2 this(2) t2] obtain fs3 r3 where
    3: "jbd_iterate_log fuel io i2 ACTION_RECOVER ((fs2, ir), jf) = (Inr i3, (fs3, ir), jf)" "r3 \<le> ?u"
      "fs_at rep fs0 (st_out ws (r1 + r2 + r3) s) fs3" by (auto simp: st_out_out)
  show ?thesis using 1(1,2) 2(1,2) 3 l3(2) m(3) sb
    by (intro exI [of _ fs3] exI [of _ "r1 + r2 + r3"]) (simp add: jbd_recover_def js_sb_def)
qed

end

end
