(* ===== verification/JbdLaid.thy ===== *)
theory JbdLaid
  imports JbdLog
begin

text \<open>
  What the log means. A log that holds complete transactions, then perhaps the start of another, then a block that is
  not of the log, is replayed by putting in place the tagged blocks of the complete transactions that no
  revoke record of the same or a later transaction names, in the order of the log.
\<close>

section \<open>Blocks of a log\<close>

datatype log_item = LDesc | LRevoke | LCommit

fun revoke_list :: "nat \<Rightarrow> jbd_sb \<Rightarrow> u8 list \<Rightarrow> nat \<Rightarrow> u64 list res" where
  "revoke_list 0 sb d p = Inr []"
| "revoke_list (Suc n) sb d p =
     rbind (revoke_entry_at sb d p) (\<lambda>b. rbind (revoke_list n sb d (p + revoke_record_len sb)) (\<lambda>bs. Inr (b # bs)))"

definition revoke_blocks :: "jbd_sb \<Rightarrow> u8 list \<Rightarrow> u64 list res" where
  "revoke_blocks sb d =
     rbind (jbd_get32 d 12) (\<lambda>count.
     revoke_list (unat (ucast ((ucast count - 16 :: u64) div of_nat (revoke_record_len sb)) :: u32)) sb d 16)"

definition revoke_all :: "u32 \<Rightarrow> u64 list \<Rightarrow> (u64 \<rightharpoonup> u32) \<Rightarrow> (u64 \<rightharpoonup> u32)" where
  "revoke_all tid bs m = (\<lambda>b. if b \<in> set bs then Some tid else m b)"

lemma revoke_entries_list:
  "revoke_list n sb d p = Inr bs \<Longrightarrow>
   revoke_entries n sb d p info = Inr (info\<lparr> ri_revoke_root := revoke_all (ri_this_trans_id info) bs (ri_revoke_root info) \<rparr>)"
proof (induction n arbitrary: p bs info)
  case 0
  then show ?case by (simp add: revoke_all_def)
next
  case (Suc n)
  then obtain b us where "revoke_entry_at sb d p = Inr b" "revoke_list n sb d (p + revoke_record_len sb) = Inr us" "bs = b # us"
    by (auto simp: rbind_Inr_iff)
  with Suc.IH [of "p + revoke_record_len sb" us "jbd_add_revoke_block_tags info b"] show ?case
    by (simp add: jbd_add_revoke_block_tags_def revoke_all_def fun_eq_iff)
qed

lemma build_revoke_blocks:
  "revoke_blocks sb d = Inr bs \<Longrightarrow>
   jbd_build_revoke_tree sb d info = Inr (info\<lparr> ri_revoke_root := revoke_all (ri_this_trans_id info) bs (ri_revoke_root info) \<rparr>)"
  by (auto simp: revoke_blocks_def jbd_build_revoke_tree_def Let_def rbind_Inr_iff intro: revoke_entries_list)

text \<open>The block at a position is one of the transaction, of the given kind, and its checksum is right.\<close>

definition item_at :: "jbd_sb \<Rightarrow> (u32 \<Rightarrow> u8 list) \<Rightarrow> u32 \<Rightarrow> u32 \<Rightarrow> log_item \<Rightarrow> bool" where
  "item_at sb J tid pos it \<longleftrightarrow>
     jbd_get32 (J pos) 0 = Inr JBD_MAGIC_NUMBER \<and> jbd_get32 (J pos) 8 = Inr tid \<and>
     (case it of
        LDesc \<Rightarrow> jbd_get32 (J pos) 4 = Inr JBD_DESCRIPTOR_BLOCK \<and> jbd_verify_meta_csum sb (J pos) = Inr True
      | LRevoke \<Rightarrow> jbd_get32 (J pos) 4 = Inr JBD_REVOKE_BLOCK \<and> jbd_verify_meta_csum sb (J pos) = Inr True \<and>
          (\<exists>bs. revoke_blocks sb (J pos) = Inr bs)
      | LCommit \<Rightarrow> jbd_get32 (J pos) 4 = Inr JBD_COMMIT_BLOCK \<and> jbd_verify_commit_csum sb (J pos) = Inr True)"

definition item_tid :: "log_item \<Rightarrow> u32 \<Rightarrow> u32" where "item_tid it tid = (if it = LCommit then tid + 1 else tid)"

text \<open>The last block an item takes, and the block behind it.\<close>

definition item_end :: "jbd_sb \<Rightarrow> (u32 \<Rightarrow> u8 list) \<Rightarrow> log_item \<Rightarrow> u32 \<Rightarrow> u32" where
  "item_end sb J it pos = (if it = LDesc then (next_pos sb ^^ length (block_tags sb (J pos))) pos else pos)"

definition item_next :: "jbd_sb \<Rightarrow> (u32 \<Rightarrow> u8 list) \<Rightarrow> log_item \<Rightarrow> u32 \<Rightarrow> u32" where
  "item_next sb J it pos = next_pos sb (item_end sb J it pos)"

text \<open>The items lie behind one another and do not come back to the start of the log.\<close>

fun laid :: "jbd_sb \<Rightarrow> (u32 \<Rightarrow> u8 list) \<Rightarrow> u32 \<Rightarrow> u32 \<Rightarrow> u32 \<Rightarrow> log_item list \<Rightarrow> bool" where
  "laid sb J start tid pos [] \<longleftrightarrow> True"
| "laid sb J start tid pos (it # its) \<longleftrightarrow>
     item_at sb J tid pos it \<and> item_next sb J it pos \<noteq> start \<and> laid sb J start (item_tid it tid) (item_next sb J it pos) its"

fun items_next :: "jbd_sb \<Rightarrow> (u32 \<Rightarrow> u8 list) \<Rightarrow> log_item list \<Rightarrow> u32 \<Rightarrow> u32" where
  "items_next sb J [] pos = pos"
| "items_next sb J (it # its) pos = items_next sb J its (item_next sb J it pos)"

definition commits :: "log_item list \<Rightarrow> nat" where "commits its = length [it \<leftarrow> its. it = LCommit]"

lemma commits_simps [simp]: "commits [] = 0" "commits (it # its) = (if it = LCommit then Suc (commits its) else commits its)"
  "commits (its @ us) = commits its + commits us"
  by (simp_all add: commits_def)

text \<open>A block that does not belong to the transaction ends the log.\<close>

definition ends_at :: "(u32 \<Rightarrow> u8 list) \<Rightarrow> u32 \<Rightarrow> u32 \<Rightarrow> bool" where
  "ends_at J tid pos \<longleftrightarrow>
     (\<exists>m q. jbd_get32 (J pos) 0 = Inr m \<and> jbd_get32 (J pos) 8 = Inr q \<and> (m \<noteq> JBD_MAGIC_NUMBER \<or> q \<noteq> tid))"

text \<open>What the items revoke, each block with the last transaction that names it, and what they write.\<close>

fun items_revoke :: "jbd_sb \<Rightarrow> (u32 \<Rightarrow> u8 list) \<Rightarrow> u32 \<Rightarrow> u32 \<Rightarrow> log_item list \<Rightarrow> (u64 \<rightharpoonup> u32) \<Rightarrow> (u64 \<rightharpoonup> u32)" where
  "items_revoke sb J tid pos [] m = m"
| "items_revoke sb J tid pos (it # its) m =
     items_revoke sb J (item_tid it tid) (item_next sb J it pos) its
       (if it = LRevoke then revoke_all tid (case revoke_blocks sb (J pos) of Inl _ \<Rightarrow> [] | Inr bs \<Rightarrow> bs) m else m)"

fun items_write :: "jbd_sb \<Rightarrow> (u32 \<Rightarrow> u8 list) \<Rightarrow> (u64 \<rightharpoonup> u32) \<Rightarrow> u32 \<Rightarrow> u32 \<Rightarrow> log_item list \<Rightarrow> writes" where
  "items_write sb J rv tid pos [] = []"
| "items_write sb J rv tid pos (it # its) =
     (if it = LDesc then replay_tags sb J rv tid (block_tags sb (J pos)) pos else []) @
     items_write sb J rv (item_tid it tid) (item_next sb J it pos) its"

section \<open>The passes over such a log\<close>

lemma item_run:
  assumes "item_at sb J tid pos it"
  shows "\<exists>info'. pure_block sb act J tid info pos =
      Inr (item_tid it tid, info', False, item_end sb J it pos,
           if it = LDesc \<and> act = ACTION_RECOVER then replay_tags sb J (ri_revoke_root info) tid (block_tags sb (J pos)) pos else []) \<and>
    ri_revoke_root info' =
      (if it = LRevoke \<and> act = ACTION_REVOKE
       then revoke_all tid (case revoke_blocks sb (J pos) of Inl _ \<Rightarrow> [] | Inr bs \<Rightarrow> bs) (ri_revoke_root info) else ri_revoke_root info) \<and>
    ri_trans_cnt info' = (if it = LCommit \<and> act = ACTION_SCAN then ri_trans_cnt info + 1 else ri_trans_cnt info) \<and>
    ri_last_trans_id info' = ri_last_trans_id info"
proof (cases it)
  case LDesc
  then show ?thesis using assms by (simp add: item_at_def pure_block_def item_tid_def item_end_def Let_def)
next
  case LRevoke
  then obtain bs where b: "revoke_blocks sb (J pos) = Inr bs" using assms by (auto simp: item_at_def)
  have k: "JBD_REVOKE_BLOCK \<noteq> JBD_DESCRIPTOR_BLOCK" "JBD_REVOKE_BLOCK \<noteq> JBD_COMMIT_BLOCK"
    by (simp_all add: JBD_REVOKE_BLOCK_def JBD_DESCRIPTOR_BLOCK_def JBD_COMMIT_BLOCK_def)
  show ?thesis using assms LRevoke k
    by (simp add: item_at_def pure_block_def item_tid_def item_end_def Let_def build_revoke_blocks [OF b] b)
next
  case LCommit
  have k: "JBD_COMMIT_BLOCK \<noteq> JBD_DESCRIPTOR_BLOCK" by (simp add: JBD_DESCRIPTOR_BLOCK_def JBD_COMMIT_BLOCK_def)
  show ?thesis using assms LCommit k by (simp add: item_at_def pure_block_def item_tid_def item_end_def Let_def)
qed

text \<open>One turn of the loop over an item.\<close>

lemma laid_turn:
  assumes i: "item_at sb J tid pos it" and n: "item_next sb J it pos \<noteq> start"
    and g: "act = ACTION_SCAN \<or> trans_id_diff tid (ri_last_trans_id info) \<le> 0"
    and p: "pure_block sb act J tid info pos = Inr (tid', info', False, item_end sb J it pos, ws)"
  shows "log_run (Suc fuel) sb act J start tid pos info =
    rbind (log_run fuel sb act J start tid' (item_next sb J it pos) info') (\<lambda>(tid, info, us). Inr (tid, info, ws @ us))"
  using assms by (auto simp: item_at_def item_next_def)

lemma scan_laid:
  "laid sb J start tid pos its \<Longrightarrow> ends_at J (tid + of_nat (commits its)) (items_next sb J its pos) \<Longrightarrow> length its < fuel \<Longrightarrow>
   \<exists>info'. log_run fuel sb ACTION_SCAN J start tid pos info = Inr (tid + of_nat (commits its), info', []) \<and>
     ri_revoke_root info' = ri_revoke_root info \<and> ri_trans_cnt info' = ri_trans_cnt info + of_nat (commits its)"
proof (induction its arbitrary: tid pos info fuel)
  case Nil
  then obtain f where "fuel = Suc f" by (cases fuel) auto
  then show ?case using Nil(2) by (auto simp: ends_at_def)
next
  case (Cons it its)
  obtain f where f: "fuel = Suc f" "length its < f" using Cons.prems(3) by (cases fuel) auto
  have l: "item_at sb J tid pos it" "item_next sb J it pos \<noteq> start" "laid sb J start (item_tid it tid) (item_next sb J it pos) its"
    using Cons.prems(1) by simp_all
  from item_run [OF l(1), of ACTION_SCAN info] obtain info1 where
    1: "pure_block sb ACTION_SCAN J tid info pos = Inr (item_tid it tid, info1, False, item_end sb J it pos, [])"
      "ri_revoke_root info1 = ri_revoke_root info" "ri_trans_cnt info1 = (if it = LCommit then ri_trans_cnt info + 1 else ri_trans_cnt info)"
    by auto
  have t: "item_tid it tid + of_nat (commits its) = tid + of_nat (commits (it # its))" by (simp add: item_tid_def)
  have e: "ends_at J (item_tid it tid + of_nat (commits its)) (items_next sb J its (item_next sb J it pos))"
    using Cons.prems(2) unfolding t by simp
  from Cons.IH [OF l(3) e f(2), of info1] obtain info2 where
    2: "log_run f sb ACTION_SCAN J start (item_tid it tid) (item_next sb J it pos) info1 =
          Inr (tid + of_nat (commits (it # its)), info2, [])"
      "ri_revoke_root info2 = ri_revoke_root info1" "ri_trans_cnt info2 = ri_trans_cnt info1 + of_nat (commits its)"
    unfolding t by blast
  have "log_run fuel sb ACTION_SCAN J start tid pos info = Inr (tid + of_nat (commits (it # its)), info2, [])"
    unfolding f(1) laid_turn [OF l(1,2) disjI1 [OF refl] 1(1)] 2(1) by simp
  then show ?case using 1(2,3) 2(2,3) by (intro exI [of _ info2]) simp
qed

lemma diff_small:
  "c < 2 ^ 31 \<Longrightarrow> trans_id_diff (tid + of_nat c) tid = int c" "c < 2 ^ 31 \<Longrightarrow> trans_id_diff tid (tid + of_nat c) = - int c"
proof -
  assume c: "c < 2 ^ 31"
  have "sint (word_of_int k :: u32) = k" if "- (2 ^ 31) \<le> k" "k < 2 ^ 31" for k
    using that by (simp add: sint_sbintrunc' signed_take_bit_int_eq_self)
  from this [of "int c"] this [of "- int c"] c
  have "sint (of_nat c :: u32) = int c" "sint (- of_nat c :: u32) = - int c"
    by (simp_all add: of_nat_less_iff [of c "2 ^ 31", where 'a = int, symmetric])
  then show "trans_id_diff (tid + of_nat c) tid = int c" "trans_id_diff tid (tid + of_nat c) = - int c"
    by (simp_all add: trans_id_diff_def)
qed

text \<open>Complete transactions: the last item is a commit block.\<close>

definition complete :: "log_item list \<Rightarrow> bool" where "complete its \<longleftrightarrow> its = [] \<or> List.last its = LCommit"

lemma complete_tl: "complete (it # its) \<Longrightarrow> complete its" "complete (it # its) \<Longrightarrow> it \<noteq> LCommit \<Longrightarrow> its \<noteq> []"
  by (auto simp: complete_def split: if_splits)

lemma complete_commits: "complete its \<Longrightarrow> its \<noteq> [] \<Longrightarrow> 0 < commits its"
  by (induction its) (auto simp: complete_def split: if_splits)

lemma last_not_passed:
  assumes "complete its" "its \<noteq> []" "commits its < 2 ^ 31" "lst + 1 = tid + of_nat (commits its)"
  shows "trans_id_diff tid lst \<le> 0"
proof -
  obtain k where k: "commits its = Suc k" using complete_commits [OF assms(1,2)] by (cases "commits its") auto
  have "lst = tid + of_nat k" using assms(4) k by simp
  then show ?thesis using diff_small(2) [of k tid] k assms(3) by simp
qed

lemma pass_laid:
  "laid sb J start tid pos its \<Longrightarrow> complete its \<Longrightarrow> commits its < 2 ^ 31 \<Longrightarrow> length its < fuel \<Longrightarrow>
   ri_last_trans_id info + 1 = tid + of_nat (commits its) \<Longrightarrow> act \<noteq> ACTION_SCAN \<Longrightarrow>
   \<exists>info'. log_run fuel sb act J start tid pos info = Inr (tid + of_nat (commits its), info',
       if act = ACTION_RECOVER then items_write sb J (ri_revoke_root info) tid pos its else []) \<and>
     ri_revoke_root info' = (if act = ACTION_REVOKE then items_revoke sb J tid pos its (ri_revoke_root info) else ri_revoke_root info) \<and>
     ri_last_trans_id info' = ri_last_trans_id info \<and> ri_trans_cnt info' = ri_trans_cnt info"
proof (induction its arbitrary: tid pos info fuel)
  case Nil
  then obtain f where "fuel = Suc f" by (cases fuel) auto
  moreover have "tid = ri_last_trans_id info + 1" using Nil by simp
  then have "0 < trans_id_diff tid (ri_last_trans_id info)" using diff_small(1) [of 1 "ri_last_trans_id info"] by simp
  ultimately show ?case using Nil(6) by simp
next
  case (Cons it its)
  obtain f where f: "fuel = Suc f" "length its < f" using Cons.prems(4) by (cases fuel) auto
  have l: "item_at sb J tid pos it" "item_next sb J it pos \<noteq> start" "laid sb J start (item_tid it tid) (item_next sb J it pos) its"
    using Cons.prems(1) by simp_all
  have g: "act = ACTION_SCAN \<or> trans_id_diff tid (ri_last_trans_id info) \<le> 0"
    using last_not_passed [OF Cons.prems(2) _ Cons.prems(3,5)] by simp
  let ?w = "if it = LDesc \<and> act = ACTION_RECOVER then replay_tags sb J (ri_revoke_root info) tid (block_tags sb (J pos)) pos else []"
  let ?rv = "if it = LRevoke \<and> act = ACTION_REVOKE
       then revoke_all tid (case revoke_blocks sb (J pos) of Inl _ \<Rightarrow> [] | Inr bs \<Rightarrow> bs) (ri_revoke_root info) else ri_revoke_root info"
  from item_run [OF l(1), of act info] obtain info1 where
    1: "pure_block sb act J tid info pos = Inr (item_tid it tid, info1, False, item_end sb J it pos, ?w)"
      "ri_revoke_root info1 = ?rv" "ri_trans_cnt info1 = ri_trans_cnt info" "ri_last_trans_id info1 = ri_last_trans_id info"
    using Cons.prems(6) by auto
  have t: "item_tid it tid + of_nat (commits its) = tid + of_nat (commits (it # its))" by (simp add: item_tid_def)
  have c: "commits its < 2 ^ 31" using Cons.prems(3) by (simp split: if_splits)
  have e: "ri_last_trans_id info1 + 1 = item_tid it tid + of_nat (commits its)" using Cons.prems(5) unfolding 1(4) t .
  from Cons.IH [OF l(3) complete_tl(1) [OF Cons.prems(2)] c f(2) e Cons.prems(6)] obtain info2 where
    2: "log_run f sb act J start (item_tid it tid) (item_next sb J it pos) info1 = Inr (tid + of_nat (commits (it # its)), info2,
       if act = ACTION_RECOVER then items_write sb J (ri_revoke_root info1) (item_tid it tid) (item_next sb J it pos) its else [])"
      "ri_revoke_root info2 = (if act = ACTION_REVOKE
         then items_revoke sb J (item_tid it tid) (item_next sb J it pos) its (ri_revoke_root info1) else ri_revoke_root info1)"
      "ri_last_trans_id info2 = ri_last_trans_id info1" "ri_trans_cnt info2 = ri_trans_cnt info1"
    unfolding t by blast
  have r: "log_run fuel sb act J start tid pos info = Inr (tid + of_nat (commits (it # its)), info2, ?w @
       (if act = ACTION_RECOVER then items_write sb J (ri_revoke_root info1) (item_tid it tid) (item_next sb J it pos) its else []))"
    unfolding f(1) laid_turn [OF l(1,2) g 1(1)] 2(1) by simp
  have w: "?w @ (if act = ACTION_RECOVER then items_write sb J (ri_revoke_root info1) (item_tid it tid) (item_next sb J it pos) its else []) =
      (if act = ACTION_RECOVER then items_write sb J (ri_revoke_root info) tid pos (it # its) else [])"
    using 1(2) by (cases act) simp_all
  have v: "ri_revoke_root info2 = (if act = ACTION_REVOKE then items_revoke sb J tid pos (it # its) (ri_revoke_root info) else ri_revoke_root info)"
    using 1(2) 2(2) by (cases act) simp_all
  show ?case using r v 1(3,4) 2(3,4) unfolding w by (intro exI [of _ info2]) simp
qed

section \<open>Replay of such a log\<close>

lemma laid_append: "laid sb J start tid pos (its @ us) \<Longrightarrow> laid sb J start tid pos its"
  by (induction its arbitrary: tid pos) auto

text \<open>
  \<open>its\<close> are the complete transactions, \<open>us\<close> is what was written of the next one.
\<close>

definition log_laid :: "jbd_sb \<Rightarrow> (u32 \<Rightarrow> u8 list) \<Rightarrow> log_item list \<Rightarrow> log_item list \<Rightarrow> bool" where
  "log_laid sb J its us \<longleftrightarrow>
     laid sb J (js_start sb) (js_sequence sb) (js_start sb) (its @ us) \<and> complete its \<and> LCommit \<notin> set us \<and> commits its < 2 ^ 31 \<and>
     ends_at J (js_sequence sb + of_nat (commits its)) (items_next sb J (its @ us) (js_start sb))"

text \<open>The last transaction, and the writes: those of the complete transactions, without what is revoked.\<close>

definition laid_last :: "jbd_sb \<Rightarrow> log_item list \<Rightarrow> u32" where
  "laid_last sb its = (if its = [] then js_sequence sb else js_sequence sb + of_nat (commits its) - 1)"

definition laid_writes :: "jbd_sb \<Rightarrow> (u32 \<Rightarrow> u8 list) \<Rightarrow> log_item list \<Rightarrow> writes" where
  "laid_writes sb J its =
     items_write sb J (items_revoke sb J (js_sequence sb) (js_start sb) its Map.empty) (js_sequence sb) (js_start sb) its"

lemma no_commits: "LCommit \<notin> set us \<Longrightarrow> commits us = 0"
  by (induction us) auto

lemma log_replay_laid:
  assumes "log_laid sb J its us" and "length (its @ us) < fuel"
  shows "log_replay fuel sb J = Inr (laid_last sb its, laid_writes sb J its)"
proof -
  let ?start = "js_start sb" and ?seq = "js_sequence sb" let ?c = "commits its"
  have l: "laid sb J ?start ?seq ?start (its @ us)" "complete its" "LCommit \<notin> set us" "?c < 2 ^ 31"
      "ends_at J (?seq + of_nat ?c) (items_next sb J (its @ us) ?start)" using assms(1) by (simp_all add: log_laid_def)
  have c: "commits (its @ us) = ?c" using no_commits [OF l(3)] by simp
  from scan_laid [OF l(1), unfolded c, OF l(5) assms(2), of "info_start\<lparr> ri_trans_cnt := 0 \<rparr>"] obtain i1 where
    1: "log_run fuel sb ACTION_SCAN J ?start ?seq ?start (info_start\<lparr> ri_trans_cnt := 0 \<rparr>) = Inr (?seq + of_nat ?c, i1, [])"
      "ri_revoke_root i1 = Map.empty" "ri_trans_cnt i1 = of_nat ?c"
    by (auto simp: info_start_def)
  have d: "trans_id_diff (?seq + of_nat ?c) ?seq = int ?c" by (rule diff_small(1) [OF l(4)])
  have z: "its = [] \<longleftrightarrow> ?c = 0" using complete_commits [OF l(2)] by (cases "its = []") simp_all
  have last: "(if trans_id_diff (?seq + of_nat ?c) ?seq > 0 then ?seq + of_nat ?c - 1 else ?seq + of_nat ?c) = laid_last sb its"
    using z by (simp add: laid_last_def d)
  let ?i1 = "i1\<lparr> ri_start_trans_id := ?seq, ri_last_trans_id := laid_last sb its \<rparr>"
  have s1: "log_iterate fuel sb J info_start ACTION_SCAN = Inr (?i1, [])"
    using 1(1) by (simp add: log_iterate_def Let_def last)
  show ?thesis
  proof (cases "its = []")
    case True
    then have "ri_trans_cnt ?i1 = 0" using z 1(3) by simp
    then have "log_iterate fuel sb J ?i1 ACTION_REVOKE = Inr (?i1, [])" "log_iterate fuel sb J ?i1 ACTION_RECOVER = Inr (?i1, [])"
      by (simp_all add: log_iterate_def)
    then show ?thesis using True by (simp add: log_replay_def s1 laid_writes_def)
  next
    case False
    have "0 < ?c" using False z by simp
    have "(of_nat ?c :: u32) \<noteq> 0"
    proof
      assume "(of_nat ?c :: u32) = 0"
      then have "trans_id_diff (?seq + of_nat ?c) ?seq = 0" by (simp add: trans_id_diff_def)
      then show False using d \<open>0 < ?c\<close> by simp
    qed
    then have n: "ri_trans_cnt ?i1 \<noteq> 0" using 1(3) by simp
    have e: "ri_last_trans_id ?i1 + 1 = ?seq + of_nat ?c" using False by (simp add: laid_last_def)
    have f: "length its < fuel" using assms(2) by simp
    note pass = pass_laid [OF laid_append [OF l(1)] l(2,4) f]
    from pass [OF e, of ACTION_REVOKE] 1(2) obtain i2 where
      2: "log_run fuel sb ACTION_REVOKE J ?start ?seq ?start ?i1 = Inr (?seq + of_nat ?c, i2, [])"
        "ri_revoke_root i2 = items_revoke sb J ?seq ?start its Map.empty"
        "ri_last_trans_id i2 = laid_last sb its" "ri_trans_cnt i2 = ri_trans_cnt ?i1" by auto
    have e2: "ri_last_trans_id i2 + 1 = ?seq + of_nat ?c" using e 2(3) by simp
    from pass [OF e2, of ACTION_RECOVER] 2(2,3) obtain i3 where
      3: "log_run fuel sb ACTION_RECOVER J ?start ?seq ?start i2 = Inr (?seq + of_nat ?c, i3, laid_writes sb J its)"
        "ri_last_trans_id i3 = laid_last sb its" by (auto simp: laid_writes_def)
    have "log_iterate fuel sb J ?i1 ACTION_REVOKE = Inr (i2, [])" using n 2(1) by (simp add: log_iterate_def)
    moreover have "log_iterate fuel sb J i2 ACTION_RECOVER = Inr (i3, laid_writes sb J its)"
      using n 2(4) 3(1) by (simp add: log_iterate_def)
    ultimately show ?thesis using 3(2) by (simp add: log_replay_def s1)
  qed
qed

end
