(* ===== verification/JbdProps.thy ===== *)
theory JbdProps
  imports VolumeFile JbdLaid
begin

text \<open>
  The properties of the block map and of the journal on the image file of the Linux driver, and a volume with a
  journal of five blocks they are applied to.
\<close>

section \<open>Blocks of the journal\<close>

text \<open>The tags the code meets when it walks the table of a descriptor block.\<close>

definition collect_tags :: "jbd_sb \<Rightarrow> u8 list \<Rightarrow> unit res \<times> tag_info list" where
  "collect_tags s d = jbd_iterate_block_table s (\<lambda>_. Inr d) 12 (sint (js_blocksize s - 12)) (\<lambda>t ts. (Inr (), ts @ [t])) []"

lemma collect_fold: "tags_fold (\<lambda>t ts. (Inr (), ts @ [t])) us ts = (Inr (), ts @ us)"
  by (induction us arbitrary: ts) simp_all

lemma collect_tags_eq:
  assumes "length d = unat (js_blocksize s)" and "12 \<le> length d"
  shows "collect_tags s d = (Inr (), block_tags s d)"
proof -
  have "collect_tags s d = tags_fold (\<lambda>t ts. (Inr (), ts @ [t])) (block_tags s d) []" unfolding collect_tags_def
    by (rule table_iterates [where I = "\<lambda>_ _. True"]) (use assms in simp_all)
  then show ?thesis by (simp add: collect_fold)
qed

text \<open>
  C23: the table of a descriptor block is read back as it was written. Tags put behind one another from offset 12
  by \<open>jbd_write_block_tag\<close>, in any of the layouts the features select, are met again, with block
  address, flags and identifier, by \<open>jbd_iterate_block_table\<close>, provided they fit and only the last is marked as such.
\<close>

theorem descriptor_roundtrip:
  assumes "\<not> (JBD_HAS_INCOMPAT_FEATURE s JBD_FEATURE_INCOMPAT_CSUM_V2 \<and> JBD_HAS_INCOMPAT_FEATURE s JBD_FEATURE_INCOMPAT_CSUM_V3)"
    and "length d = unat (js_blocksize s)" and "list_all (tag_ok s) ts"
    and "12 + tags_room s ts + (tag_width s - jbd_tag_bytes s) \<le> length d" and "int (tags_room s ts) \<le> table_size s"
    and "tags_end s ts (table_size s - int (tags_room s ts))"
  shows "\<exists>d' remain. put_tags s ts d 12 (table_size s) = Inr (d', 12 + tags_room s ts, remain) \<and>
    collect_tags s d' = (Inr (), map (tag_read s) ts)"
proof -
  from put_tags_ok [OF assms(1,3-6)] obtain d' where
    d: "put_tags s ts d 12 (table_size s) = Inr (d', 12 + tags_room s ts, table_size s - int (tags_room s ts))"
      "kept d d' 12 (length d)" "tags_of s d' 12 (table_size s) = map (tag_read s) ts" by blast
  have "length d' = unat (js_blocksize s)" "12 \<le> length d'" using kept_length [OF d(2)] assms(2,4) by simp_all
  from collect_tags_eq [OF this] d show ?thesis by (simp add: block_tags_def)
qed

text \<open>
  the checksum of a descriptor or revoke block verifies. What \<open>jbd_meta_csum_set\<close> puts into the
  tail is what \<open>jbd_verify_meta_csum\<close> expects there, and no byte before the tail changes.
\<close>

theorem meta_csum_verifies:
  assumes "length d = unat (js_blocksize s)" and "4 \<le> length d"
  shows "\<exists>d'. jbd_meta_csum_set s d = Inr d' \<and> jbd_verify_meta_csum s d' = Inr True \<and> length d' = length d \<and>
    take (length d - 4) d' = take (length d - 4) d"
proof (cases "jbd_has_csum s = 0")
  case True
  then show ?thesis by (simp add: jbd_meta_csum_set_def jbd_verify_meta_csum_def)
next
  case False
  have p: "jbd_tail s + 4 = length d" using assms by (simp add: jbd_tail_def)
  let ?z = "patch d (jbd_tail s) (enc32 0)"
  have c: "jbd_meta_csum s e = Inr (jbd_crc s ?z)" if "e = patch d (jbd_tail s) (enc32 v) \<or> e = d" for e v
  proof -
    have "patch e (jbd_tail s) (enc32 0) = ?z" "length e = length d" using that p by (auto simp: patch_patch)
    then have "wr_range e (jbd_tail s) (enc32 0) = Inr ?z" using p by (simp add: wr_range_patch)
    then show ?thesis using False p assms(1) by (simp add: jbd_meta_csum_def rd_range_def)
  qed
  let ?d = "patch d (jbd_tail s) (enc32 (to_be32 (jbd_crc s ?z)))"
  have "jbd_meta_csum_set s d = Inr ?d" using False c [of d] p by (simp add: jbd_meta_csum_set_def wr_range_patch)
  moreover have "raw32 ?d (jbd_tail s) = Inr (to_be32 (jbd_crc s ?z))" using p by (simp add: raw32_def rd_patch)
  then have "jbd_verify_meta_csum s ?d = Inr True" using c [OF disjI1 [OF refl]] by (simp add: jbd_verify_meta_csum_def)
  moreover have "length ?d = length d" "take (length d - 4) ?d = take (length d - 4) d"
    using p by (simp_all add: patch_def)
  ultimately show ?thesis by blast
qed

text \<open>
  C34: a commit block does not verify. \<open>jbd_commit_csum_set\<close> stores the checksum in the order of the
  processor, \<open>jbd_verify_commit_csum\<close> expects it in that of the log, so on a little-endian machine the check
  passes only for a checksum that reads the same both ways; otherwise the log ends, for the replay, in front of the commit block.
\<close>

theorem commit_csum_unverified:
  assumes "jbd_has_csum s \<noteq> 0" and "length d = unat (js_blocksize s)" and "20 \<le> length d"
  shows "\<exists>d' c. jbd_commit_csum_set s d = Inr d' \<and> jbd_commit_csum s d' = Inr c \<and>
    jbd_verify_commit_csum s d' = Inr (to_be32 c = c)"
proof -
  let ?z = "patch (patch d 12 [0, 0]) 16 (enc32 0)" let ?c = "jbd_crc s ?z" let ?d = "patch ?z 16 (enc32 ?c)"
  have z: "length ?z = length d" using assms(3) by simp
  have c: "jbd_commit_csum s e = Inr ?c" if "e = ?z \<or> e = ?d" for e
  proof -
    have l: "length e = length d" using that assms(3) by auto
    have "patch e 12 [0, 0] = e" using that assms(3) by (auto simp: patch_def take_map drop_map)
    moreover have "patch e 16 (enc32 0) = ?z" using that z assms(3) by (auto simp: patch_patch)
    ultimately show ?thesis using assms l z by (simp add: jbd_commit_csum_def wr_range_patch rd_range_def)
  qed
  have "jbd_commit_csum_set s d = Inr ?d" using assms c z by (simp add: jbd_commit_csum_set_def wr_range_patch)
  moreover have "raw32 ?d 16 = Inr ?c" using z assms(3) by (simp add: raw32_def rd_patch)
  then have "jbd_verify_commit_csum s ?d = Inr (?c = to_be32 ?c)"
    using assms(1) c [OF disjI2 [OF refl]] by (simp add: jbd_verify_commit_csum_def)
  moreover have "(?c = to_be32 ?c) = (to_be32 ?c = ?c)" by (rule eq_commute)
  ultimately show ?thesis using c [OF disjI2 [OF refl]] by (intro exI [of _ ?d] exI [of _ ?c]) (simp only: simp_thms)
qed

section \<open>The block map and the replay on an image file\<close>

text \<open>
  C15: looking up a block in a map of pointers is exact. For an inode without extents whose pointer blocks lie
  in the volume, \<open>ext4_fs_get_inode_dblk_idx\<close> gives the address the pointers determine, 0 for a hole at any level, \<open>EIO\<close>
  beyond three levels; nothing changes and no block stays held.
\<close>

theorem pointer_lookup_exact:
  assumes "fs_at (store_abs hf_content) fs0 s fs" and "map_geom fs0 n" and "pointers_in (fs_sb fs0) ir li i n ok s"
    and "ext4_inode_get_size (fs_sb fs0) i \<noteq> 0" and "\<not> inode_uses_extents (fs_sb fs0) i" and "3 \<le> st_room s"
  shows "\<exists>fs' r. ext4_fs_get_inode_dblk_idx file_dev_iface b uw (fs, ir) = (pointer_block (st_view s) n i (unat b), fs', ir) \<and>
    r \<le> 3 \<and> fs_at (store_abs hf_content) fs0 (s\<lparr> st_room := st_room s - r \<rparr>) fs'"
proof -
  from file_dev.store.pointer_lookup_ok [OF assms(1-3,6), of b] obtain fs' r where
    1: "dblk_indirect file_dev_iface b (fs, ir) = (pointer_block (st_view s) n i (unat b), fs', ir)" "r \<le> 3"
      "fs_at (store_abs hf_content) fs0 (s\<lparr> st_room := st_room s - r \<rparr>) fs'" by blast
  have "inode_held (fs_sb fs0) ir li i s" using assms(3) by (simp add: pointers_in_def)
  then have "is_inode (fs, ir) = Inr i" by (rule file_dev.store.inode_eq [OF assms(1)])
  moreover have "fs_sb fs = fs_sb fs0" by (rule fs_at_fields [OF assms(1)])
  ultimately show ?thesis using assms(4,5) 1
    by (intro exI [of _ fs'] exI [of _ r]) (simp add: ext4_fs_get_inode_dblk_idx_def ext4_fs_get_inode_dblk_idx_internal_def sread_def)
qed

text \<open>
  C1: recovery applies exactly the committed transactions. The inode of the journal is mapped by pointer blocks, not by extents. Let
  its log hold complete transactions \<open>its\<close>, then perhaps the start \<open>us\<close> of another without its commit block, then a block that
  is not of the log; and let the tagged blocks lie in the volume, outside the journal, with block 0, whose copy in memory
  the replay would refresh as well, not among them. Then the three passes of \<open>jbd_recover\<close> end without an error, and the blocks of the
  volume are as before but for the tagged blocks of \<open>its\<close> that no record of the same or a later transaction revokes
  (comments in the code would replay those of the same one), put in place in the order of the log with the magic number
  restored; nothing of \<open>us\<close> is applied. What is left to do is to clear the flag of the superblock and the start of the log.
\<close>

theorem recovery_exact:
  assumes "fs_at (store_abs hf_content) fs0 s fs" and "journal_in fs0 ir li i n ok jb sb s" and "jf_sb jf = sb"
    and "js_first sb < js_maxlen sb" and "js_start sb < js_maxlen sb" and "js_start sb \<noteq> 0"
    and "log_laid sb (jlog (st_view s) n i) its us" and "length (its @ us) < fuel"
    and "3 * (fuel * (4 + st_bsize s)) \<le> st_room s"
    and "\<forall>l \<in> fst ` set (laid_writes sb (jlog (st_view s) n i) its). target_ok (jprot li ok jb) s l"
  shows "\<exists>fs' r. jbd_recover fuel file_dev_iface ((fs, ir), jf) = jbd_recovered file_dev_iface (laid_last sb its) ((fs', ir), jf) \<and>
    r \<le> 3 * (fuel * (4 + st_bsize s)) \<and>
    fs_at (store_abs hf_content) fs0 (st_out (laid_writes sb (jlog (st_view s) n i) its) r s) fs'"
proof -
  have "12 \<le> st_bsize s" using assms(2) by (simp add: journal_in_def map_geom_def pointers_in_def)
  from file_dev.journal.recover_ok [OF assms(1-6) this assms(9) log_replay_laid [OF assms(7,8)]] assms(10) show ?thesis by blast
qed

section \<open>A small journal\<close>

text \<open>
  The journal of the inode in block 5 are the blocks 7, 1, 2, 3 and 4; it holds one transaction, the
  seventh, which writes block 6.
\<close>

definition log_sb :: jbd_sb where
  "log_sb = (jbd_sb_of_bytes (replicate 1024 0))\<lparr> js_blocktype := JBD_SUPERBLOCK_V2, js_blocksize := 1024, js_maxlen := 5,
     js_first := 1, js_sequence := 7, js_start := 1, js_feature_incompat := 0 \<rparr>"

definition log_desc :: "u8 list" where
  "log_desc = [0xC0, 0x3B, 0x39, 0x98, 0, 0, 0, 1, 0, 0, 0, 7, 0, 0, 0, 6, 0, 0, 0, 10] @ replicate 1004 0"

definition log_data :: "u8 list" where "log_data = replicate 1024 0xAB"

definition log_commit :: "u8 list" where
  "log_commit = [0xC0, 0x3B, 0x39, 0x98, 0, 0, 0, 2, 0, 0, 0, 7] @ replicate 1012 0"

definition log_inode :: ext4_inode where
  "log_inode = (inode_of_bytes (replicate 156 0))\<lparr> in_size_lo := 5120, in_blocks := [7, 1, 2, 3, 4, 0, 0, 0, 0, 0, 0, 0, 0, 0, 0] \<rparr>"

definition log_image :: "u8 list" where
  "log_image = replicate 1024 0 @ log_desc @ log_data @ log_commit @ replicate 1024 0 @
     (take 128 (inode_bytes log_inode) @ replicate 896 0) @ replicate 2048 0"

definition log_store :: store where "log_store = (small_store log_image)\<lparr> st_room := 20000 \<rparr>"

definition log_fs :: "hostfile ext4_blockdev \<Rightarrow> hostfile ext4_fs" where
  "log_fs bd = (vol_fs bd)\<lparr> fs_inode_block_limits := fst (fs_block_limits 1024),
     fs_inode_blocks_per_level := snd (fs_block_limits 1024) \<rparr>"

definition log_jf :: jbd_fs where "log_jf = \<lparr> jf_sb = log_sb, jf_dirty = False \<rparr>"

lemma log_inode_bytes: "length (inode_bytes log_inode) = 156" "drop 128 (inode_bytes log_inode) = replicate 28 0"
  by code_simp+

lemma log_view:
  "st_view log_store 1 = log_desc" "st_view log_store 2 = log_data" "st_view log_store 3 = log_commit"
  "st_view log_store 4 = replicate 1024 0" "st_view log_store 5 = take 128 (inode_bytes log_inode) @ replicate 896 0"
  "length log_image = 8192"
  using log_inode_bytes(1) by (simp_all add: log_store_def small_store_def log_image_def slice_def log_desc_def log_data_def log_commit_def)

lemma log_read:
  "jbd_get32 log_desc 0 = Inr JBD_MAGIC_NUMBER" "jbd_get32 log_desc 4 = Inr JBD_DESCRIPTOR_BLOCK" "jbd_get32 log_desc 8 = Inr 7"
  "jbd_get32 log_desc 12 = Inr 6" "jbd_get16 log_desc 18 = Inr 10"
  "jbd_get32 log_commit 0 = Inr JBD_MAGIC_NUMBER" "jbd_get32 log_commit 4 = Inr JBD_COMMIT_BLOCK" "jbd_get32 log_commit 8 = Inr 7"
  "jbd_get32 (replicate 1024 0) 0 = Inr 0" "jbd_get32 (replicate 1024 0) 8 = Inr 0"
  by (simp_all add: jbd_get32_def raw32_def jbd_get16_def rd_range_def log_desc_def log_commit_def) code_simp+

lemma log_features: "\<not> JBD_HAS_INCOMPAT_FEATURE log_sb f" "jbd_has_csum log_sb = 0" "jbd_tag_bytes log_sb = 8" "js_blocksize log_sb = 1024"
proof -
  show f: "\<not> JBD_HAS_INCOMPAT_FEATURE log_sb f" for f
    by (simp add: JBD_HAS_INCOMPAT_FEATURE_def jbd_has_feature_def log_sb_def)
  show "jbd_has_csum log_sb = 0" "jbd_tag_bytes log_sb = 8" "js_blocksize log_sb = 1024"
    using f by (simp_all add: jbd_has_csum_def jbd_tag_bytes_def) (simp add: log_sb_def)
qed

definition log_tag :: tag_info where
  "log_tag = \<lparr> ti_tag_bytes = 8, ti_block = 6, ti_is_escape = False, ti_uuid_exist = False, ti_uuid = [], ti_last_tag = True, ti_checksum = 0 \<rparr>"

lemma log_tags: "block_tags log_sb log_desc = [log_tag]"
  by (simp add: block_tags_def table_size_def log_features, subst tags_of.simps)
     (simp add: jbd_extract_block_tag_def log_features tag_flags_def log_read jbd_consts log_tag_def)

lemma log_in_blocks: "in_blocks log_inode = [7, 1, 2, 3, 4, 0, 0, 0, 0, 0, 0, 0, 0, 0, 0]" by (simp add: log_inode_def)

lemma log_map_geom: "map_geom (log_fs bd) 256"
  by (simp add: map_geom_def log_fs_def)

lemma log_held: "inode_held vol_sb vol_ref 5 log_inode (st_get 5 log_store)"
proof -
  have "take 128 (inode_bytes log_inode) @ replicate 28 0 = inode_bytes log_inode"
    unfolding log_inode_bytes(2) [symmetric] by (rule append_take_drop_id)
  moreover have "length (in_blocks log_inode) = 15" by (simp add: log_inode_def)
  ultimately have "inode_at vol_sb (st_view log_store 5) 0 = Inr log_inode"
    using log_inode_bytes(1) inode_of_bytes_inode_bytes [of log_inode]
    by (simp add: inode_at_def rd_range_def inode_width_def vol_geometry log_view)
  then show ?thesis by (simp add: inode_held_def vol_ref_def store_simps)
qed

lemma log_pointers: "pointers_in vol_sb vol_ref 5 log_inode 256 {} (st_get 5 log_store)"
proof -
  have "in_blocks log_inode ! (11 + l) = 0" if "0 < l" "l \<le> 3" for l
  proof -
    from that have "l = 1 \<or> l = 2 \<or> l = 3" by linarith
    then show ?thesis by (auto simp: log_in_blocks)
  qed
  then show ?thesis using log_held
    by (auto simp: pointers_in_def tree_nodes_def) (simp_all add: log_store_def small_store_def store_simps)
qed

lemma log_inode_facts: "ext4_inode_get_size vol_sb log_inode \<noteq> 0" "\<not> inode_uses_extents vol_sb log_inode"
proof -
  have m: "\<not> ext4_sb_feature_incom vol_sb f" for f by (simp add: ext4_sb_feature_incom_def vol_sb_def sb_sample_def)
  show "\<not> inode_uses_extents vol_sb log_inode" by (simp add: inode_uses_extents_def m)
  show "ext4_inode_get_size vol_sb log_inode \<noteq> 0"
    by (simp add: ext4_inode_get_size_def) (simp add: log_inode_def inode_of_bytes_def get_field_defs le_dec_zeros)
qed

lemma log_blocks: "k < 12 \<Longrightarrow> pointer_block V 256 log_inode k = Inr (ucast (in_blocks log_inode ! k))"
  by (simp add: pointer_block_def)

lemma log_addrs:
  "jaddr V 256 log_inode 1 = 1" "jaddr V 256 log_inode 2 = 2" "jaddr V 256 log_inode 3 = 3" "jaddr V 256 log_inode 4 = 4"
  by (simp_all add: jaddr_def log_blocks log_in_blocks)

lemma log_journal: "journal_in (log_fs bd) vol_ref 5 log_inode 256 {} {7, 1, 2, 3, 4} log_sb (st_get 5 log_store)"
proof -
  have sb: "fs_sb (log_fs bd) = vol_sb" by (simp add: log_fs_def vol_fs_def)
  have "\<exists>a \<in> {7, 1, 2, 3, 4}. pointer_block V 256 log_inode (unat k) = Inr a" if "k < js_maxlen log_sb" for k :: u32 and V
  proof -
    from that have "unat k < 5" by (simp add: log_sb_def word_less_nat_alt)
    then have "unat k = 0 \<or> unat k = 1 \<or> unat k = 2 \<or> unat k = 3 \<or> unat k = 4" by linarith
    then show ?thesis by (elim disjE) (simp_all add: log_blocks log_in_blocks)
  qed
  moreover have "unat (js_blocksize log_sb) = st_bsize (st_get 5 log_store)"
    by (simp add: log_features log_store_def small_store_def store_simps)
  moreover have "\<forall>a \<in> {7, 1, 2, 3, 4}. a \<noteq> 0 \<and> a < st_cnt (st_get 5 log_store) \<and> a \<notin> st_pend (st_get 5 log_store)"
    by (simp add: log_store_def small_store_def store_simps word_less_nat_alt)
  ultimately show ?thesis unfolding journal_in_def sb using log_map_geom log_pointers log_inode_facts by (intro conjI) blast+
qed

lemma log_start: "\<exists>bd. fs_at (store_abs hf_content) (log_fs bd) (st_get 5 log_store) (log_fs bd)"
proof -
  have "store_abs hf_content (small_dev log_image) log_store"
    using small_store_abs [OF log_view(6)]
    by (simp add: store_abs_def log_store_def) (simp add: small_store_def small_dev_def tiny_dev_def vol_cache_def tiny_cache_def)
  moreover have "5 < st_cnt log_store" "st_room log_store \<noteq> 0" by (simp_all add: log_store_def small_store_def word_less_nat_alt)
  ultimately obtain bd where "store_abs hf_content bd (st_get 5 log_store)" using file_dev.store.store_get by blast
  then show ?thesis by (intro exI [of _ bd]) (simp add: fs_at_def log_fs_def vol_fs_def)
qed

abbreviation log_view_of :: "u32 \<Rightarrow> u8 list" where "log_view_of \<equiv> jlog (st_view (st_get 5 log_store)) 256 log_inode"

lemma log_blocks_of:
  "log_view_of 1 = log_desc" "log_view_of 2 = log_data" "log_view_of 3 = log_commit" "log_view_of 4 = replicate 1024 0"
  by (simp_all add: jlog_def log_addrs log_view store_simps)

lemma log_next: "next_pos log_sb 1 = 2" "next_pos log_sb 2 = 3" "next_pos log_sb 3 = 4" "js_start log_sb = 1" "js_sequence log_sb = 7"
  by (simp_all add: next_pos_def log_sb_def)

lemma log_items: "log_laid log_sb log_view_of [LDesc, LCommit] []"
proof -
  have n: "item_next log_sb log_view_of LDesc 1 = 3" "item_next log_sb log_view_of LCommit 3 = 4"
    by (simp_all add: item_next_def item_end_def log_blocks_of log_tags log_next)
  have "item_at log_sb log_view_of 7 1 LDesc" "item_at log_sb log_view_of 7 3 LCommit"
    by (simp_all add: item_at_def log_blocks_of log_read jbd_verify_meta_csum_def jbd_verify_commit_csum_def log_features)
  then show ?thesis
    by (simp add: log_laid_def n log_next item_tid_def complete_def ends_at_def log_blocks_of log_read JBD_MAGIC_NUMBER_def)
qed

lemma log_writes: "laid_writes log_sb log_view_of [LDesc, LCommit] = [(6, log_data)]" "laid_last log_sb [LDesc, LCommit] = 7"
  by (simp_all add: laid_writes_def laid_last_def log_next log_blocks_of log_tags wanted_def)
     (simp_all add: log_tag_def jbd_copy_def log_blocks_of log_next)

section \<open>Witnesses\<close>

theorem pointer_lookup_exact_witness:
  "\<exists>bd fs'. ext4_fs_get_inode_dblk_idx file_dev_iface 2 False (log_fs bd, vol_ref) = (Inr 2, fs', vol_ref)"
proof -
  obtain bd where a: "fs_at (store_abs hf_content) (log_fs bd) (st_get 5 log_store) (log_fs bd)" using log_start by blast
  have sb: "fs_sb (log_fs bd) = vol_sb" by (simp add: log_fs_def vol_fs_def)
  have "3 \<le> st_room (st_get 5 log_store)" by (simp add: log_store_def store_simps)
  moreover have "in_blocks log_inode ! 2 = 2" by (simp add: log_inode_def)
  ultimately show ?thesis
    using pointer_lookup_exact [OF a log_map_geom, unfolded sb, OF log_pointers log_inode_facts, of 2 False] by (auto simp: log_blocks)
qed

theorem recovery_exact_witness:
  "\<exists>bd fs' r. jbd_recover 3 file_dev_iface ((log_fs bd, vol_ref), log_jf) = jbd_recovered file_dev_iface 7 ((fs', vol_ref), log_jf) \<and>
     fs_at (store_abs hf_content) (log_fs bd) (st_out [(6, log_data)] r (st_get 5 log_store)) fs'"
proof -
  obtain bd where a: "fs_at (store_abs hf_content) (log_fs bd) (st_get 5 log_store) (log_fs bd)" using log_start by blast
  have "js_first log_sb < js_maxlen log_sb" "js_start log_sb < js_maxlen log_sb" "js_start log_sb \<noteq> 0" "jf_sb log_jf = log_sb"
    by (simp_all add: log_sb_def log_jf_def word_less_nat_alt)
  moreover have "length ([LDesc, LCommit] @ []) < (3 :: nat)" by simp
  moreover have "3 * (3 * (4 + st_bsize (st_get 5 log_store))) \<le> st_room (st_get 5 log_store)"
    by (simp add: log_store_def small_store_def store_simps)
  moreover have "target_ok (jprot 5 {} {7, 1, 2, 3, 4}) (st_get 5 log_store) 6"
    by (simp add: target_ok_def jprot_def log_store_def small_store_def store_simps word_less_nat_alt)
  ultimately show ?thesis
    using recovery_exact [OF a log_journal _ _ _ _ log_items, of log_jf 3] unfolding log_writes by auto
qed

text \<open>Two tags in a block of 64 bytes, the first with an identifier.\<close>

definition tag_one :: tag_info where
  "tag_one = log_tag\<lparr> ti_block := 77, ti_uuid_exist := True, ti_uuid := replicate 16 5, ti_last_tag := False \<rparr>"

theorem descriptor_roundtrip_witness:
  "\<exists>d' remain. put_tags (log_sb\<lparr> js_blocksize := 64 \<rparr>) [tag_one, log_tag] (replicate 64 0) 12 52 = Inr (d', 44, remain) \<and>
    collect_tags (log_sb\<lparr> js_blocksize := 64 \<rparr>) d' = (Inr (), [tag_one\<lparr> ti_tag_bytes := 24 \<rparr>, log_tag])"
proof -
  let ?s = "log_sb\<lparr> js_blocksize := 64 \<rparr>"
  have f: "\<not> JBD_HAS_INCOMPAT_FEATURE ?s g" for g
    by (simp add: JBD_HAS_INCOMPAT_FEATURE_def jbd_has_feature_def log_sb_def)
  have t: "tag_room ?s tag_one = 24" "tag_room ?s log_tag = 8" "jbd_tag_bytes ?s = 8" "tag_width ?s = 12" "table_size ?s = 52"
    by (simp_all add: tag_room_def jbd_tag_bytes_def tag_width_def table_size_def f tag_one_def log_tag_def)
  then have r: "tags_room ?s [tag_one, log_tag] = 32" by (simp add: tags_room_def)
  have "list_all (tag_ok ?s) [tag_one, log_tag]" by (simp add: tag_ok_def f) (simp add: tag_one_def log_tag_def word_less_nat_alt)
  moreover have "tags_end ?s [tag_one, log_tag] 20" by (simp add: tags_end_def) (simp add: tag_one_def log_tag_def)
  moreover have "map (tag_read ?s) [tag_one, log_tag] = [tag_one\<lparr> ti_tag_bytes := 24 \<rparr>, log_tag]"
    by (simp add: tag_read_def t) (simp add: tag_one_def log_tag_def)
  ultimately show ?thesis using descriptor_roundtrip [of ?s "replicate 64 0" "[tag_one, log_tag]"] f t r by simp
qed

theorem meta_csum_verifies_witness:
  "\<exists>d'. jbd_meta_csum_set (log_sb\<lparr> js_blocktype := JBD_SUPERBLOCK_V2, js_feature_incompat := JBD_FEATURE_INCOMPAT_CSUM_V3 \<rparr>) log_data = Inr d' \<and>
     jbd_verify_meta_csum (log_sb\<lparr> js_blocktype := JBD_SUPERBLOCK_V2, js_feature_incompat := JBD_FEATURE_INCOMPAT_CSUM_V3 \<rparr>) d' = Inr True"
  using meta_csum_verifies [of log_data "log_sb\<lparr> js_blocktype := JBD_SUPERBLOCK_V2, js_feature_incompat := JBD_FEATURE_INCOMPAT_CSUM_V3 \<rparr>"]
  by (auto simp: log_data_def log_sb_def)

definition csum_log_sb :: jbd_sb where
  "csum_log_sb = log_sb\<lparr> js_blocksize := 32, js_feature_incompat := JBD_FEATURE_INCOMPAT_CSUM_V3 \<rparr>"

lemma csum_log_facts: "jbd_has_csum csum_log_sb \<noteq> 0" "js_blocksize csum_log_sb = 32" "js_uuid csum_log_sb = replicate 16 0"
proof -
  have "JBD_HAS_INCOMPAT_FEATURE csum_log_sb JBD_FEATURE_INCOMPAT_CSUM_V3"
    by (simp add: JBD_HAS_INCOMPAT_FEATURE_def jbd_has_feature_def csum_log_sb_def log_sb_def jbd_consts) code_simp
  then show "jbd_has_csum csum_log_sb \<noteq> 0" by (simp add: jbd_has_csum_def)
  show "js_blocksize csum_log_sb = 32" "js_uuid csum_log_sb = replicate 16 0"
    by (simp_all add: csum_log_sb_def log_sb_def jbd_sb_of_bytes_def)
qed

definition csum_commit :: "u8 list" where "csum_commit = take 12 log_commit @ replicate 20 0"

lemma csum_commit_crc: "to_be32 (jbd_crc csum_log_sb csum_commit) \<noteq> jbd_crc csum_log_sb csum_commit"
  unfolding jbd_crc_def csum_log_facts(3) by code_simp

theorem commit_csum_unverified_witness:
  "\<exists>d'. jbd_commit_csum_set csum_log_sb csum_commit = Inr d' \<and> jbd_verify_commit_csum csum_log_sb d' = Inr False"
proof -
  have len: "length csum_commit = 32" by (simp add: csum_commit_def log_commit_def)
  have b: "csum_commit = take 12 log_commit @ [0, 0, 0, 0] @ [0, 0, 0, 0] @ replicate 12 0"
    by (simp add: csum_commit_def numeral_eq_Suc)
  have l: "length log_commit = 1024" by (simp add: log_commit_def)
  have e: "enc32 (0 :: u32) = [0, 0, 0, 0]" by code_simp
  have z: "patch csum_commit 12 [0, 0] = csum_commit" "patch csum_commit 16 (enc32 0) = csum_commit"
    by (simp_all add: b patch_def l e)
  from commit_csum_unverified [OF csum_log_facts(1), of csum_commit] len csum_log_facts(2) obtain d' c where
    d: "jbd_commit_csum_set csum_log_sb csum_commit = Inr d'" "jbd_commit_csum csum_log_sb d' = Inr c"
      "jbd_verify_commit_csum csum_log_sb d' = Inr (to_be32 c = c)" by auto
  have "d' = patch csum_commit 16 (enc32 (jbd_crc csum_log_sb csum_commit))"
    using d(1) csum_log_facts len z
    by (simp add: jbd_commit_csum_set_def jbd_commit_csum_def wr_range_patch rd_range_def)
  then have "jbd_commit_csum csum_log_sb d' = Inr (jbd_crc csum_log_sb csum_commit)"
    using csum_log_facts len z
    by (simp add: jbd_commit_csum_def wr_range_patch rd_range_def patch_patch) (simp add: patch_def b l e)
  then show ?thesis using d csum_commit_crc by (intro exI [of _ d']) simp
qed

end
