(* ===== verification/DirIdx.thy ===== *)
theory DirIdx
  imports DirBlock FsMap Hash
begin

text \<open>
  The hash index of a directory, \<^verbatim>\<open>src/ext4_dir_idx.c\<close>. Block 0 holds the root: the records of the two dots, the
  root information at 24 and the index records from 32 on; an inner node has its records from 8 on. A record
  is a hash and a block; the hash of the first is the pair of limit and count. Scratch memory is taken for
  granted; the order \<^verbatim>\<open>qsort\<close> leaves records of equal hash in is that of the block.
\<close>

section \<open>Fields\<close>

definition EXT4_ERR_BAD_DX_DIR :: ext4_err where "EXT4_ERR_BAD_DX_DIR = EDEV (- 25000)"
definition EXT4_DIR_DX_INIT_BCNT :: u64 where "EXT4_DIR_DX_INIT_BCNT = 2"

definition DX_ROOT_INFO :: nat where "DX_ROOT_INFO = 24"
definition DX_ROOT_EN :: nat where "DX_ROOT_EN = 32"
definition DX_NODE_EN :: nat where "DX_NODE_EN = 8"

definition ext4_dir_dx_rinfo_get_hash_version :: "u8 list \<Rightarrow> u8 res" where
  "ext4_dir_dx_rinfo_get_hash_version d = rd8 d (DX_ROOT_INFO + 4)"
definition ext4_dir_dx_rinfo_set_hash_version :: "u8 list \<Rightarrow> u8 \<Rightarrow> u8 list res" where
  "ext4_dir_dx_rinfo_set_hash_version d v = wr8 d (DX_ROOT_INFO + 4) v"
definition ext4_dir_dx_rinfo_get_info_length :: "u8 list \<Rightarrow> u8 res" where
  "ext4_dir_dx_rinfo_get_info_length d = rd8 d (DX_ROOT_INFO + 5)"
definition ext4_dir_dx_root_info_set_info_length :: "u8 list \<Rightarrow> u8 \<Rightarrow> u8 list res" where
  "ext4_dir_dx_root_info_set_info_length d v = wr8 d (DX_ROOT_INFO + 5) v"
definition ext4_dir_dx_rinfo_get_indirect_levels :: "u8 list \<Rightarrow> u8 res" where
  "ext4_dir_dx_rinfo_get_indirect_levels d = rd8 d (DX_ROOT_INFO + 6)"
definition ext4_dir_dx_rinfo_set_indirect_levels :: "u8 list \<Rightarrow> u8 \<Rightarrow> u8 list res" where
  "ext4_dir_dx_rinfo_set_indirect_levels d v = wr8 d (DX_ROOT_INFO + 6) v"
definition dx_rinfo_unused_flags :: "u8 list \<Rightarrow> u8 res" where
  "dx_rinfo_unused_flags d = rd8 d (DX_ROOT_INFO + 7)"

definition ext4_dir_dx_climit_get_limit :: "u8 list \<Rightarrow> nat \<Rightarrow> u16 res" where
  "ext4_dir_dx_climit_get_limit d p = rbind (rd_range d p 2) (\<lambda>bs. Inr (le_dec bs))"
definition ext4_dir_dx_climit_set_limit :: "u8 list \<Rightarrow> nat \<Rightarrow> u16 \<Rightarrow> u8 list res" where
  "ext4_dir_dx_climit_set_limit d p v = wr_range d p (enc16 v)"
definition ext4_dir_dx_climit_get_count :: "u8 list \<Rightarrow> nat \<Rightarrow> u16 res" where
  "ext4_dir_dx_climit_get_count d p = rbind (rd_range d (p + 2) 2) (\<lambda>bs. Inr (le_dec bs))"
definition ext4_dir_dx_climit_set_count :: "u8 list \<Rightarrow> nat \<Rightarrow> u16 \<Rightarrow> u8 list res" where
  "ext4_dir_dx_climit_set_count d p v = wr_range d (p + 2) (enc16 v)"

definition ext4_dir_dx_entry_get_hash :: "u8 list \<Rightarrow> nat \<Rightarrow> u32 res" where
  "ext4_dir_dx_entry_get_hash d p = rbind (rd_range d p 4) (\<lambda>bs. Inr (le_dec bs))"
definition ext4_dir_dx_entry_set_hash :: "u8 list \<Rightarrow> nat \<Rightarrow> u32 \<Rightarrow> u8 list res" where
  "ext4_dir_dx_entry_set_hash d p v = wr_range d p (enc32 v)"
definition ext4_dir_dx_entry_get_block :: "u8 list \<Rightarrow> nat \<Rightarrow> u32 res" where
  "ext4_dir_dx_entry_get_block d p = rbind (rd_range d (p + 4) 4) (\<lambda>bs. Inr (le_dec bs))"
definition ext4_dir_dx_entry_set_block :: "u8 list \<Rightarrow> nat \<Rightarrow> u32 \<Rightarrow> u8 list res" where
  "ext4_dir_dx_entry_set_block d p v = wr_range d (p + 4) (enc32 v)"

text \<open>The byte offset of a record of a node whose records start at \<open>base\<close>.\<close>

definition dx_entry :: "nat \<Rightarrow> nat \<Rightarrow> nat" where "dx_entry base k = base + 8 * k"

section \<open>The checksum of a node\<close>

definition ext4_dir_dx_checksum ::
    "ext4_sblock \<Rightarrow> u32 \<Rightarrow> ext4_inode \<Rightarrow> u8 list \<Rightarrow> nat \<Rightarrow> nat \<Rightarrow> nat \<Rightarrow> u32 res" where
  "ext4_dir_dx_checksum sb index i d count_offset count t =
     (if ext4_sb_feature_ro_com sb EXT4_FRO_COM_METADATA_CSUM then
        rbind (wr_range d (t + 4) (enc32 0)) (\<lambda>d.
        rbind (rd_range d 0 (count_offset + 8 * count)) (\<lambda>bs.
        rbind (rd_range d t 8) (\<lambda>tl.
        Inr (ext4_crc32c (ext4_crc32c (ext4_crc32c (ext4_crc32c (ext4_crc32c EXT4_CRC32_INIT (sb_uuid sb)) (enc32 index))
               (enc32 (ext4_inode_get_generation i))) bs) tl))))
      else Inr 0)"

definition ext4_dir_dx_get_climit :: "ext4_sblock \<Rightarrow> u8 list \<Rightarrow> nat option res" where
  "ext4_dir_dx_get_climit sb d =
     (let block_size = ext4_sb_get_block_size sb
      in rbind (ext4_dir_en_get_entry_len d 0) (\<lambda>entry_len.
         if entry_len = 12 then
           rbind (ext4_dir_en_get_entry_len d 12) (\<lambda>l.
           rbind (rd_range d DX_ROOT_INFO 4) (\<lambda>z.
           rbind (ext4_dir_dx_rinfo_get_info_length d) (\<lambda>n.
           Inr (if ucast l \<noteq> block_size - 12 \<or> (le_dec z :: u32) \<noteq> 0 \<or> n \<noteq> 8 then None else Some DX_ROOT_EN))))
         else Inr (if ucast entry_len = block_size then Some DX_NODE_EN else None)))"

text \<open>The place of the checksum record behind the records; \<open>None\<close> when there is none.\<close>

definition dx_tail :: "ext4_sblock \<Rightarrow> u8 list \<Rightarrow> (nat \<times> nat \<times> nat) option res" where
  "dx_tail sb d =
     rbind (ext4_dir_dx_get_climit sb d) (\<lambda>c. case c of
       None \<Rightarrow> Inr None
     | Some coff \<Rightarrow>
         rbind (ext4_dir_dx_climit_get_limit d coff) (\<lambda>limit.
         rbind (ext4_dir_dx_climit_get_count d coff) (\<lambda>cnt.
         Inr (if coff + 8 * unat limit > unat (ext4_sb_get_block_size sb) - 8 then None
              else Some (coff, unat cnt, dx_entry coff (unat limit))))))"

definition ext4_dir_dx_csum_verify :: "ext4_sblock \<Rightarrow> u32 \<Rightarrow> ext4_inode \<Rightarrow> u8 list \<Rightarrow> bool res" where
  "ext4_dir_dx_csum_verify sb index i d =
     (if ext4_sb_feature_ro_com sb EXT4_FRO_COM_METADATA_CSUM then
        rbind (dx_tail sb d) (\<lambda>t. case t of
          None \<Rightarrow> Inr True
        | Some (coff, cnt, t) \<Rightarrow>
            rbind (ext4_dir_dx_checksum sb index i d coff cnt t) (\<lambda>c.
            rbind (rd_range d (t + 4) 4) (\<lambda>bs. Inr (le_dec bs = c))))
      else Inr True)"

definition ext4_dir_set_dx_csum :: "ext4_sblock \<Rightarrow> u32 \<Rightarrow> ext4_inode \<Rightarrow> u8 list \<Rightarrow> u8 list res" where
  "ext4_dir_set_dx_csum sb index i d =
     (if ext4_sb_feature_ro_com sb EXT4_FRO_COM_METADATA_CSUM then
        rbind (dx_tail sb d) (\<lambda>t. case t of
          None \<Rightarrow> Inr d
        | Some (coff, cnt, t) \<Rightarrow>
            rbind (ext4_dir_dx_checksum sb index i d coff cnt t) (\<lambda>c. wr_range d (t + 4) (enc32 c)))
      else Inr d)"

section \<open>Blocks of a directory\<close>

text \<open>
  Reading and changing the bytes a handle points to. The result of a checksum test is only
  printed, so \<open>dx_peek\<close> reads what the test reads and goes on.
\<close>

definition blk_read :: "ext4_block \<Rightarrow> (u8 list \<Rightarrow> 'a res) \<Rightarrow> 'd istate \<Rightarrow> 'a res \<times> 'd istate" where
  "blk_read b f s = sread (\<lambda>s. rbind (fs_data b (fst s)) f) s"

definition blk_upd :: "ext4_block \<Rightarrow> (u8 list \<Rightarrow> u8 list res) \<Rightarrow> 'd istate \<Rightarrow> unit res \<times> 'd istate" where
  "blk_upd b f s = on_fs (\<lambda>fs. fs_store b (rbind (fs_data b fs) f) fs) s"

definition dx_peek :: "ext4_block \<Rightarrow> 'd istate \<Rightarrow> unit res \<times> 'd istate" where
  "dx_peek b s =
     sbind (sread is_inode s) (\<lambda>i s.
     sbind (blk_read b (ext4_dir_dx_csum_verify (fs_sb (fst s)) (ir_index (snd s)) i) s) (\<lambda>_ s. (Inr (), s)))"

definition leaf_peek :: "ext4_block \<Rightarrow> 'd istate \<Rightarrow> unit res \<times> 'd istate" where
  "leaf_peek b s =
     sbind (sread is_inode s) (\<lambda>i s.
     sbind (blk_read b (ext4_dir_csum_verify (fs_sb (fst s)) (ir_index (snd s)) i) s) (\<lambda>_ s. (Inr (), s)))"

definition dx_seal :: "ext4_block \<Rightarrow> 'd istate \<Rightarrow> unit res \<times> 'd istate" where
  "dx_seal b s =
     sbind (sread is_inode s) (\<lambda>i s.
     sbind (blk_upd b (ext4_dir_set_dx_csum (fs_sb (fst s)) (ir_index (snd s)) i) s) (\<lambda>_ s.
     on_fs (fs_set_dirty b) s))"

text \<open>Release a block whatever comes of it and return the given code.\<close>

definition blk_drop :: "'d ext4_blockdev_iface \<Rightarrow> ext4_block \<Rightarrow> ext4_err \<Rightarrow> 'd istate \<Rightarrow> 'a res \<times> 'd istate" where
  "blk_drop io b e s = sbind (sforget (on_fs (fs_block_set io b) s)) (\<lambda>_ s. (Inl e, s))"

section \<open>A new index\<close>

definition dx_entry_space :: "ext4_sblock \<Rightarrow> nat \<Rightarrow> u32" where
  "dx_entry_space sb base =
     (let space = ext4_sb_get_block_size sb - of_nat base
      in (if ext4_sb_feature_ro_com sb EXT4_FRO_COM_METADATA_CSUM then space - 8 else space) div 8)"

definition dx_init_root :: "ext4_sblock \<Rightarrow> u32 \<Rightarrow> u32 \<Rightarrow> u32 \<Rightarrow> u32 \<Rightarrow> u8 list \<Rightarrow> u8 list res" where
  "dx_init_root sb self stype parent ptype d =
     rbind (wr_range d 0 (replicate 32 0)) (\<lambda>d.
     rbind (ext4_dir_write_entry sb d 0 12 self stype [0x2E]) (\<lambda>d.
     rbind (ext4_dir_write_entry sb d 12 (ucast (ext4_sb_get_block_size sb) - 12) parent ptype [0x2E, 0x2E]) (\<lambda>d.
     rbind (ext4_dir_dx_rinfo_set_hash_version d (sb_default_hash_version sb)) (\<lambda>d.
     rbind (ext4_dir_dx_rinfo_set_indirect_levels d 0) (\<lambda>d.
     rbind (ext4_dir_dx_root_info_set_info_length d 8) (\<lambda>d.
     rbind (ext4_dir_dx_climit_set_count d DX_ROOT_EN 1) (\<lambda>d.
     ext4_dir_dx_climit_set_limit d DX_ROOT_EN (ucast (dx_entry_space sb DX_ROOT_EN)))))))))"

text \<open>The first leaf holds one unused record; its number is cleared after the checksum was taken.\<close>

definition dx_init_leaf :: "ext4_sblock \<Rightarrow> u32 \<Rightarrow> ext4_inode \<Rightarrow> u8 list \<Rightarrow> u8 list res" where
  "dx_init_leaf sb index i d =
     (let block_size = ext4_sb_get_block_size sb
      in rbind (if ext4_sb_feature_ro_com sb EXT4_FRO_COM_METADATA_CSUM then
                  rbind (ext4_dir_en_set_entry_len d 0 (ucast block_size - 12)) (\<lambda>d.
                  rbind (ext4_dir_en_set_name_len sb d 0 0) (\<lambda>d.
                  rbind (ext4_dir_en_set_inode_type sb d 0 EXT4_DE_UNKNOWN) (\<lambda>d.
                  rbind (wr_range d (unat block_size - EXT4_DIRENT_TAIL_SIZE) ext4_dir_init_entry_tail) (\<lambda>d.
                  ext4_dir_set_csum sb index i d))))
                else ext4_dir_en_set_entry_len d 0 (ucast block_size)) (\<lambda>d.
         ext4_dir_en_set_inode d 0 0))"

definition dx_new_block :: "'d ext4_blockdev_iface \<Rightarrow> bool \<Rightarrow> u32 \<Rightarrow> 'd istate \<Rightarrow> (u64 \<times> u32) res \<times> 'd istate" where
  "dx_new_block io need_append iblock s =
     (if need_append then ext4_fs_append_inode_dblk io s
      else sbind (ext4_fs_init_inode_dblk_idx io iblock s) (\<lambda>f s. (Inr (f, iblock), s)))"

definition ext4_dir_dx_init ::
    "'d ext4_blockdev_iface \<Rightarrow> u32 \<Rightarrow> u32 \<Rightarrow> 'd istate \<Rightarrow> unit res \<times> 'd istate" where
  "ext4_dir_dx_init io parent ptype s =
     sbind (sread is_inode s) (\<lambda>i s.
     let need_append = ext4_inode_get_size (fs_sb (fst s)) i < EXT4_DIR_DX_INIT_BCNT
     in sbind (dx_new_block io need_append 0 s) (\<lambda>(fblock, iblock) s.
        sbind (on_fs (fs_block_get_noread io fblock) s) (\<lambda>b s.
        sbind (sread is_inode s) (\<lambda>i s.
        sbind (blk_upd b (dx_init_root (fs_sb (fst s)) (ir_index (snd s)) (ext4_inode_type (fs_sb (fst s)) i) parent ptype) s) (\<lambda>_ s.
        sbind (scatch (dx_new_block io need_append (iblock + 1) s) (blk_drop io b)) (\<lambda>(fblock, iblock) s.
        sbind (scatch (on_fs (fs_block_get_noread io fblock) s) (blk_drop io b)) (\<lambda>nb s.
        sbind (sread is_inode s) (\<lambda>i s.
        sbind (blk_upd nb (dx_init_leaf (fs_sb (fst s)) (ir_index (snd s)) i) s) (\<lambda>_ s.
        sbind (on_fs (fs_set_dirty nb) s) (\<lambda>_ s.
        sbind (scatch (on_fs (fs_block_set io nb) s) (blk_drop io b)) (\<lambda>_ s.
        sbind (blk_upd b (\<lambda>d. ext4_dir_dx_entry_set_block d DX_ROOT_EN iblock) s) (\<lambda>_ s.
        sbind (dx_seal b s) (\<lambda>_ s.
        on_fs (fs_block_set io b) s)))))))))))))"

section \<open>The hash of a name\<close>

record ext4_hash_info =
  hi_hash :: u32
  hi_minor_hash :: u32
  hi_hash_version :: int
  hi_seed :: "u32 list option"

definition ext4_dir_dx_hash_string :: "ext4_hash_info \<Rightarrow> u8 list \<Rightarrow> ext4_hash_info res" where
  "ext4_dir_dx_hash_string h name =
     rbind (ext2_htree_hash (Some name) (int (length name)) (hi_seed h) (hi_hash_version h) True True) (\<lambda>(rc, major, minor).
     if rc \<noteq> 0 then Inl (if rc = errno_code ENOTSUP then ENOTSUP else EDEV rc)
     else Inr (h\<lparr> hi_hash := (case major of None \<Rightarrow> hi_hash h | Some v \<Rightarrow> v),
                  hi_minor_hash := (case minor of None \<Rightarrow> hi_minor_hash h | Some v \<Rightarrow> v) \<rparr>))"

definition ext4_dir_hinfo_init :: "ext4_sblock \<Rightarrow> u8 list \<Rightarrow> u8 list \<Rightarrow> ext4_hash_info res" where
  "ext4_dir_hinfo_init sb name d =
     rbind (ext4_dir_dx_rinfo_get_hash_version d) (\<lambda>v.
     rbind (dx_rinfo_unused_flags d) (\<lambda>fl.
     rbind (ext4_dir_dx_rinfo_get_indirect_levels d) (\<lambda>lv.
     rbind (ext4_dir_dx_climit_get_limit d DX_ROOT_EN) (\<lambda>limit.
     if int (unat v) \<noteq> EXT2_HTREE_LEGACY \<and> int (unat v) \<noteq> EXT2_HTREE_HALF_MD4 \<and> int (unat v) \<noteq> EXT2_HTREE_TEA
       then Inl EXT4_ERR_BAD_DX_DIR
     else if fl \<noteq> 0 then Inl EXT4_ERR_BAD_DX_DIR
     else if lv > 1 then Inl EXT4_ERR_BAD_DX_DIR
     else if ucast limit \<noteq> dx_entry_space sb DX_ROOT_EN then Inl EXT4_ERR_BAD_DX_DIR
     else
       let version = (if int (unat v) \<le> EXT2_HTREE_TEA \<and> ext4_sb_check_flag sb EXT4_SUPERBLOCK_FLAGS_UNSIGNED_HASH
                      then int (unat v) + 3 else int (unat v))
       in ext4_dir_dx_hash_string
            \<lparr> hi_hash = 0, hi_minor_hash = 0, hi_hash_version = version, hi_seed = Some (sb_hash_seed sb) \<rparr> name))))"

section \<open>Walking down\<close>

text \<open>A block on the path, with the offset of its records and the chosen record.\<close>

record ext4_dir_idx_block =
  dx_b :: ext4_block
  dx_base :: nat
  dx_pos :: nat

text \<open>The binary search; the record in front of the result covers the hash.\<close>

function dx_bsearch :: "u8 list \<Rightarrow> nat \<Rightarrow> u32 \<Rightarrow> int \<Rightarrow> int \<Rightarrow> int res" where
  "dx_bsearch d base h p q =
     (if p \<le> q then
        let m = p + (q - p) div 2
        in case ext4_dir_dx_entry_get_hash d (dx_entry base (nat m)) of
             Inl e \<Rightarrow> Inl e
           | Inr v \<Rightarrow> if v > h then dx_bsearch d base h p (m - 1) else dx_bsearch d base h (m + 1) q
      else Inr p)"
  by pat_completeness auto
termination by (relation "measure (\<lambda>(d, base, h, p, q). nat (q - p + 1))") auto

declare dx_bsearch.simps [simp del]

text \<open>The position in a node, which must hold between one record and its limit.\<close>

definition dx_search :: "nat \<Rightarrow> u32 \<Rightarrow> u16 \<Rightarrow> u8 list \<Rightarrow> nat res" where
  "dx_search base h limit d =
     rbind (ext4_dir_dx_climit_get_count d base) (\<lambda>cnt.
     if cnt = 0 \<or> cnt > limit then Inl EXT4_ERR_BAD_DX_DIR
     else rbind (dx_bsearch d base h 1 (int (unat cnt) - 1)) (\<lambda>p. Inr (nat (p - 1))))"

text \<open>
  The walk. With its code it returns what the variable for the current block holds, which the caller
  releases when the walk fails: a child whose limit is wrong has been released already.
\<close>

fun dx_walk ::
    "nat \<Rightarrow> 'd ext4_blockdev_iface \<Rightarrow> u32 \<Rightarrow> ext4_block \<Rightarrow> nat \<Rightarrow> u16 \<Rightarrow> ext4_dir_idx_block list \<Rightarrow> 'd istate \<Rightarrow>
     (unit res \<times> ext4_block \<times> ext4_dir_idx_block list) res \<times> 'd istate" where
  "dx_walk level io h b base limit path s =
     (if length path \<ge> 2 then (Inl UNDEF, s)
      else case blk_read b (dx_search base h limit) s of
        (Inl e, s) \<Rightarrow> if fatal e then (Inl e, s) else (Inr (Inl e, b, path), s)
      | (Inr at, s) \<Rightarrow>
          let path = path @ [\<lparr> dx_b = b, dx_base = base, dx_pos = at \<rparr>]
          in case level of
               0 \<Rightarrow> (Inr (Inr (), b, path), s)
             | Suc level \<Rightarrow>
                 sbind (blk_read b (\<lambda>d. ext4_dir_dx_entry_get_block d (dx_entry base at)) s) (\<lambda>n_blk s.
                 case ext4_fs_get_inode_dblk_idx io n_blk False s of
                   (Inl e, s) \<Rightarrow> if fatal e then (Inl e, s) else (Inr (Inl e, b, path), s)
                 | (Inr fblk, s) \<Rightarrow>
                     (case on_fs (fs_block_get io fblk) s of
                        (Inl e, s') \<Rightarrow> if fatal e then (Inl e, s') else (Inr (Inl e, get_handle io fblk b (fst s), path), s')
                      | (Inr c, s) \<Rightarrow>
                          sbind (blk_read c (\<lambda>d. ext4_dir_dx_climit_get_limit d DX_NODE_EN) s) (\<lambda>limit s.
                          if ucast limit \<noteq> dx_entry_space (fs_sb (fst s)) DX_NODE_EN then
                            sbind (sforget (on_fs (fs_block_set io c) s)) (\<lambda>_ s.
                            (Inr (Inl EXT4_ERR_BAD_DX_DIR, c\<lparr> b_lb_id := 0 \<rparr>, path), s))
                          else
                            sbind (dx_peek c s) (\<lambda>_ s. dx_walk level io h c DX_NODE_EN limit path s)))))"

definition ext4_dir_dx_get_leaf ::
    "'d ext4_blockdev_iface \<Rightarrow> u32 \<Rightarrow> ext4_block \<Rightarrow> 'd istate \<Rightarrow>
     (unit res \<times> ext4_block \<times> ext4_dir_idx_block list) res \<times> 'd istate" where
  "ext4_dir_dx_get_leaf io h root s =
     sbind (blk_read root (\<lambda>d. ext4_dir_dx_climit_get_limit d DX_ROOT_EN) s) (\<lambda>limit s.
     sbind (blk_read root ext4_dir_dx_rinfo_get_indirect_levels s) (\<lambda>levels s.
     dx_walk (unat levels) io h root DX_ROOT_EN limit [] s))"

section \<open>The next leaf\<close>

text \<open>
  Up the path to a node with a further record: the path with the positions moved on and the index of that node,
  \<open>None\<close> when there is none.
\<close>

fun dx_advance :: "nat \<Rightarrow> ext4_dir_idx_block list \<Rightarrow> 'd istate \<Rightarrow> (ext4_dir_idx_block list \<times> nat option) res \<times> 'd istate" where
  "dx_advance k path s =
     sbind (blk_read (dx_b (path ! k)) (\<lambda>d. ext4_dir_dx_climit_get_count d (dx_base (path ! k))) s) (\<lambda>cnt s.
     let p = (path ! k)\<lparr> dx_pos := dx_pos (path ! k) + 1 \<rparr>; path = path[k := p]
     in if dx_pos p < unat cnt then (Inr (path, Some k), s)
        else case k of 0 \<Rightarrow> (Inr (path, None), s) | Suc j \<Rightarrow> dx_advance j path s)"

text \<open>Down again, \<open>n\<close> levels from the node \<open>k\<close>, along the first records.\<close>

fun dx_refill ::
    "nat \<Rightarrow> nat \<Rightarrow> 'd ext4_blockdev_iface \<Rightarrow> ext4_dir_idx_block list \<Rightarrow> 'd istate \<Rightarrow>
     (unit res \<times> ext4_dir_idx_block list) res \<times> 'd istate" where
  "dx_refill 0 k io path s = (Inr (Inr (), path), s)"
| "dx_refill (Suc n) k io path s =
     sbind (blk_read (dx_b (path ! k)) (\<lambda>d. ext4_dir_dx_entry_get_block d (dx_entry (dx_base (path ! k)) (dx_pos (path ! k)))) s) (\<lambda>blk s.
     case sbind (ext4_fs_get_inode_dblk_idx io blk False s) (\<lambda>a s. on_fs (fs_block_get io a) s) of
       (Inl e, s) \<Rightarrow> if fatal e then (Inl e, s) else (Inr (Inl e, path), s)
     | (Inr b, s) \<Rightarrow>
         sbind (dx_peek b s) (\<lambda>_ s.
         case on_fs (fs_block_set io (dx_b (path ! (k + 1)))) s of
           (Inl e, s) \<Rightarrow> if fatal e then (Inl e, s) else (Inr (Inl e, path), s)
         | (Inr _, s) \<Rightarrow> dx_refill n (k + 1) io (path[k + 1 := \<lparr> dx_b = b, dx_base = DX_NODE_EN, dx_pos = 0 \<rparr>]) s))"

text \<open>The code is \<open>Inr ()\<close> when no further leaf may hold the hash and \<open>ENOENT\<close> when the path leads to one.\<close>

definition ext4_dir_dx_next_block ::
    "'d ext4_blockdev_iface \<Rightarrow> u32 \<Rightarrow> ext4_dir_idx_block list \<Rightarrow> 'd istate \<Rightarrow>
     (unit res \<times> ext4_dir_idx_block list) res \<times> 'd istate" where
  "ext4_dir_dx_next_block io h path s =
     sbind (dx_advance (length path - 1) path s) (\<lambda>(path, k) s.
     case k of
       None \<Rightarrow> (Inr (Inr (), path), s)
     | Some k \<Rightarrow>
         sbind (blk_read (dx_b (path ! k)) (\<lambda>d. ext4_dir_dx_entry_get_hash d (dx_entry (dx_base (path ! k)) (dx_pos (path ! k)))) s) (\<lambda>cur s.
         if h AND 1 = 0 \<and> cur AND NOT 1 \<noteq> h then (Inr (Inr (), path), s)
         else sbind (dx_refill (length path - 1 - k) k io path s) (\<lambda>(r, path) s.
              (Inr (case r of Inl e \<Rightarrow> Inl e | Inr _ \<Rightarrow> Inl ENOENT, path), s))))"

section \<open>Search\<close>

text \<open>Release the path; the first failure replaces a good result.\<close>

fun dx_release :: "ext4_dir_idx_block list \<Rightarrow> 'd ext4_blockdev_iface \<Rightarrow> 'a res \<Rightarrow> 'd istate \<Rightarrow> 'a res \<times> 'd istate" where
  "dx_release [] io r s = (r, s)"
| "dx_release (p # path) io r s =
     (case on_fs (fs_block_set io (dx_b p)) s of
        (Inl e, s) \<Rightarrow> if fatal e then (Inl e, s) else dx_release path io (case r of Inl _ \<Rightarrow> r | Inr _ \<Rightarrow> Inl e) s
      | (Inr _, s) \<Rightarrow> dx_release path io r s)"

text \<open>
  The leaves one after another. Only a negative code of the step to the next leaf is passed on.
\<close>

fun dx_find_loop ::
    "nat \<Rightarrow> 'd ext4_blockdev_iface \<Rightarrow> u32 \<Rightarrow> u8 list \<Rightarrow> ext4_dir_idx_block list \<Rightarrow> 'd istate \<Rightarrow>
     ((ext4_block \<times> nat) res \<times> ext4_dir_idx_block list) res \<times> 'd istate" where
  "dx_find_loop 0 io h name path s = (Inl EHANG, s)"
| "dx_find_loop (Suc fuel) io h name path s =
     (let p = List.last path
      in sbind (blk_read (dx_b p) (\<lambda>d. ext4_dir_dx_entry_get_block d (dx_entry (dx_base p) (dx_pos p))) s) (\<lambda>leaf s.
         case sbind (ext4_fs_get_inode_dblk_idx io leaf False s) (\<lambda>a s. on_fs (fs_block_get io a) s) of
           (Inl e, s) \<Rightarrow> if fatal e then (Inl e, s) else (Inr (Inl e, path), s)
         | (Inr b, s) \<Rightarrow>
             sbind (leaf_peek b s) (\<lambda>_ s.
             case blk_read b (\<lambda>d. ext4_dir_find_in_block d (fs_sb (fst s)) name) s of
               (Inr at, s) \<Rightarrow> (Inr (Inr (b, at), path), s)
             | (Inl e, s) \<Rightarrow>
                 if fatal e then (Inl e, s)
                 else case on_fs (fs_block_set io b) s of
                   (Inl e2, s) \<Rightarrow> if fatal e2 then (Inl e2, s) else (Inr (Inl e, path), s)
                 | (Inr _, s) \<Rightarrow>
                     if e \<noteq> ENOENT then (Inr (Inl e, path), s)
                     else sbind (ext4_dir_dx_next_block io h path s) (\<lambda>(r, path) s.
                          case r of
                            Inr _ \<Rightarrow> (Inr (Inl ENOENT, path), s)
                          | Inl e \<Rightarrow>
                              if errno_code e < 0 then (Inr (Inl e, path), s)
                              else if e = ENOENT then dx_find_loop fuel io h name path s
                              else (Inr (Inl ENOENT, path), s)))))"

text \<open>Every turn moves on in a tree of two levels with at most 65535 records each.\<close>

definition DX_FIND_FUEL :: nat where "DX_FIND_FUEL = 2 ^ 32"

text \<open>The root block, its hash and the path; used by the search and by the insertion.\<close>

definition dx_open :: "'d ext4_blockdev_iface \<Rightarrow> u8 list \<Rightarrow> 'd istate \<Rightarrow> (ext4_block \<times> ext4_hash_info) res \<times> 'd istate" where
  "dx_open io name s =
     sbind (ext4_fs_get_inode_dblk_idx io 0 False s) (\<lambda>a s.
     sbind (on_fs (fs_block_get io a) s) (\<lambda>root s.
     sbind (dx_peek root s) (\<lambda>_ s.
     sbind (scatch (blk_read root (ext4_dir_hinfo_init (fs_sb (fst s)) name) s) (\<lambda>_. blk_drop io root EXT4_ERR_BAD_DX_DIR)) (\<lambda>h s.
     (Inr (root, h), s)))))"

definition ext4_dir_dx_find_entry ::
    "'d ext4_blockdev_iface \<Rightarrow> u8 list \<Rightarrow> 'd istate \<Rightarrow> (ext4_block \<times> nat) res \<times> 'd istate" where
  "ext4_dir_dx_find_entry io name s =
     sbind (dx_open io name s) (\<lambda>(root, h) s.
     sbind (ext4_dir_dx_get_leaf io (hi_hash h) root s) (\<lambda>(r, b, path) s.
     case r of
       Inl _ \<Rightarrow> blk_drop io b EXT4_ERR_BAD_DX_DIR s
     | Inr _ \<Rightarrow>
         sbind (dx_find_loop DX_FIND_FUEL io (hi_hash h) name path s) (\<lambda>(r, path) s. dx_release path io r s)))"

section \<open>Inserting an index record\<close>

text \<open>Behind the record at \<open>pos\<close>; the room is the concern of the caller.\<close>

definition dx_put_entry :: "nat \<Rightarrow> nat \<Rightarrow> u32 \<Rightarrow> u32 \<Rightarrow> u8 list \<Rightarrow> u8 list res" where
  "dx_put_entry base pos hash iblock d =
     rbind (ext4_dir_dx_climit_get_count d base) (\<lambda>count.
     if unat count < pos + 1 then Inl UNDEF
     else
       rbind (rd_range d (dx_entry base (pos + 1)) (8 * (unat count - (pos + 1)))) (\<lambda>bs.
       rbind (wr_range d (dx_entry base (pos + 2)) bs) (\<lambda>d.
       rbind (ext4_dir_dx_entry_set_block d (dx_entry base (pos + 1)) iblock) (\<lambda>d.
       rbind (ext4_dir_dx_entry_set_hash d (dx_entry base (pos + 1)) hash) (\<lambda>d.
       ext4_dir_dx_climit_set_count d base (count + 1))))))"

definition ext4_dir_dx_insert_entry :: "ext4_dir_idx_block \<Rightarrow> u32 \<Rightarrow> u32 \<Rightarrow> 'd istate \<Rightarrow> unit res \<times> 'd istate" where
  "ext4_dir_dx_insert_entry p hash iblock s =
     sbind (blk_upd (dx_b p) (dx_put_entry (dx_base p) (dx_pos p) hash iblock) s) (\<lambda>_ s. dx_seal (dx_b p) s)"

section \<open>Splitting a leaf\<close>

text \<open>A record to be moved: its hash and its bytes up to the end of the name, rounded up to four.\<close>

type_synonym sort_entry = "u32 \<times> u8 list"

definition dx_rec_len :: "u16 \<Rightarrow> nat" where
  "dx_rec_len len = (let n = 8 + unat len in if n mod 4 \<noteq> 0 then n + (4 - n mod 4) else n)"

text \<open>
  The records in use, in the order of the block. The buffer for the records has the size of the block, the
  array of the sort one place for each 12 bytes of it.
\<close>

function dx_load :: "ext4_sblock \<Rightarrow> ext4_hash_info \<Rightarrow> u8 list \<Rightarrow> nat \<Rightarrow> nat \<Rightarrow> sort_entry list \<Rightarrow> sort_entry list res" where
  "dx_load sb h d lim p acc =
     (if \<not> p < lim then Inr acc
      else case rbind (ext4_dir_en_get_inode d p) (\<lambda>inode. rbind (rd8 d (p + 6)) (\<lambda>n. Inr (inode \<noteq> 0 \<and> n \<noteq> 0))) of
        Inl e \<Rightarrow> Inl e
      | Inr used \<Rightarrow>
          (case (if \<not> used then Inr acc
                 else rbind (ext4_dir_en_get_name_len sb d p) (\<lambda>len.
                      rbind (rd_range d (p + 8) (unat len)) (\<lambda>name.
                      rbind (ext4_dir_dx_hash_string h name) (\<lambda>h.
                      rbind (rd_range d p (dx_rec_len len)) (\<lambda>bs.
                      if sum_list (map (length \<circ> snd) acc) + length bs > lim \<or> lim div 12 \<le> length acc then Inl UNDEF
                      else Inr (acc @ [(hi_hash h, bs)])))))) of
             Inl e \<Rightarrow> Inl e
           | Inr acc \<Rightarrow>
               (case ext4_dir_en_get_entry_len d p of
                  Inl e \<Rightarrow> Inl e
                | Inr elen \<Rightarrow>
                    if elen = 0 then Inl (if used then UNDEF else EHANG)
                    else dx_load sb h d lim (p + unat elen) acc)))"
  by pat_completeness auto
termination by (relation "measure (\<lambda>(sb, h, d, lim, p, acc). lim - p)") (auto simp: word_unat_eq_iff)

declare dx_load.simps [simp del]

definition ext4_dir_dx_entry_comparator :: "sort_entry \<Rightarrow> sort_entry \<Rightarrow> int" where
  "ext4_dir_dx_entry_comparator a b = (if fst a = fst b then 0 else if fst a < fst b then - 1 else 1)"

definition dx_sort :: "sort_entry list \<Rightarrow> sort_entry list" where "dx_sort = sort_key fst"

text \<open>The first record that does not fit into half a block any more, with its hash; (0, 0) when all fit.\<close>

fun dx_half :: "nat \<Rightarrow> sort_entry list \<Rightarrow> nat \<Rightarrow> nat \<Rightarrow> nat \<times> u32" where
  "dx_half lim [] i cur = (0, 0)"
| "dx_half lim (e # es) i cur =
     (if cur + length (snd e) > lim div 2 then (i, fst e) else dx_half lim es (i + 1) (cur + length (snd e)))"

text \<open>Records put behind one another; the last takes the rest of the block up to \<open>lim\<close>.\<close>

fun dx_lay :: "nat \<Rightarrow> sort_entry list \<Rightarrow> nat \<Rightarrow> u8 list \<Rightarrow> u8 list res" where
  "dx_lay lim [] off d = Inr d"
| "dx_lay lim (e # es) off d =
     rbind (wr_range d off (snd e)) (\<lambda>d.
     rbind (ext4_dir_en_set_entry_len d off (of_nat (if es \<noteq> [] then length (snd e) else lim - off))) (\<lambda>d.
     dx_lay lim es (off + length (snd e)) d))"

definition dx_seal_leaf :: "ext4_block \<Rightarrow> 'd istate \<Rightarrow> unit res \<times> 'd istate" where
  "dx_seal_leaf b s =
     sbind (sread is_inode s) (\<lambda>i s.
     let sb = fs_sb (fst s)
     in blk_upd b (\<lambda>d.
          rbind (if ext4_sb_feature_ro_com sb EXT4_FRO_COM_METADATA_CSUM
                 then wr_range d (unat (ext4_sb_get_block_size sb) - EXT4_DIRENT_TAIL_SIZE) ext4_dir_init_entry_tail
                 else Inr d) (\<lambda>d. ext4_dir_set_csum sb (ir_index (snd s)) i d)) s)"

text \<open>When all records fit into half a block the code reads in front of its array.\<close>

definition ext4_dir_dx_split_data ::
    "'d ext4_blockdev_iface \<Rightarrow> ext4_hash_info \<Rightarrow> ext4_block \<Rightarrow> ext4_dir_idx_block \<Rightarrow> 'd istate \<Rightarrow> ext4_block res \<times> 'd istate" where
  "ext4_dir_dx_split_data io h old p s =
     (let sb = fs_sb (fst s); block_size = unat (ext4_sb_get_block_size sb)
      in sbind (blk_read old (\<lambda>d. dx_load sb h d block_size 0 []) s) (\<lambda>es s.
         let es = dx_sort es
         in sbind (ext4_fs_append_inode_dblk io s) (\<lambda>(fblock, iblock) s.
            sbind (on_fs (fs_block_get_noread io fblock) s) (\<lambda>nb s.
            case dx_half block_size es 0 0 of
              (mid, new_hash) \<Rightarrow>
                if mid = 0 then (Inl UNDEF, s)
                else
                  let continued = (if new_hash = fst (es ! (mid - 1)) then 1 else 0);
                      lim = (if ext4_sb_feature_ro_com sb EXT4_FRO_COM_METADATA_CSUM
                             then block_size - EXT4_DIRENT_TAIL_SIZE else block_size)
                  in sbind (blk_upd old (dx_lay lim (take mid es) 0) s) (\<lambda>_ s.
                     sbind (blk_upd nb (dx_lay lim (drop mid es) 0) s) (\<lambda>_ s.
                     sbind (dx_seal_leaf old s) (\<lambda>_ s.
                     sbind (dx_seal_leaf nb s) (\<lambda>_ s.
                     sbind (on_fs (fs_set_dirty old) s) (\<lambda>_ s.
                     sbind (on_fs (fs_set_dirty nb) s) (\<lambda>_ s.
                     sbind (ext4_dir_dx_insert_entry p (new_hash + continued) iblock s) (\<lambda>_ s.
                     (Inr nb, s))))))))))))"

section \<open>Splitting a node\<close>

text \<open>
  The limit of a new node is taken before the room of the checksum record is left out.
\<close>

definition dx_node_limit :: "ext4_sblock \<Rightarrow> u16" where
  "dx_node_limit sb = ucast ((ext4_sb_get_block_size sb - 8) div 8)"

definition dx_init_node :: "ext4_sblock \<Rightarrow> u8 list \<Rightarrow> u8 list res" where
  "dx_init_node sb d =
     rbind (wr_range d 0 (replicate 8 0)) (\<lambda>d. wr_range d 4 (enc16 (ucast (ext4_sb_get_block_size sb))))"

definition ext4_dir_dx_split_index ::
    "'d ext4_blockdev_iface \<Rightarrow> ext4_dir_idx_block list \<Rightarrow> 'd istate \<Rightarrow>
     (unit res \<times> ext4_dir_idx_block list) res \<times> 'd istate" where
  "ext4_dir_dx_split_index io path s =
     (let sb = fs_sb (fst s); p = List.last path; base = dx_base p; root = path ! 0
      in sbind (blk_read (dx_b p) (\<lambda>d. ext4_dir_dx_climit_get_limit d base) s) (\<lambda>leaf_limit s.
         sbind (blk_read (dx_b p) (\<lambda>d. ext4_dir_dx_climit_get_count d base) s) (\<lambda>leaf_count s.
         if leaf_limit \<noteq> leaf_count then (Inr (Inr (), path), s)
         else
           sbind (blk_read (dx_b root) (\<lambda>d. ext4_dir_dx_climit_get_limit d DX_ROOT_EN) s) (\<lambda>root_limit s.
           sbind (blk_read (dx_b root) (\<lambda>d. ext4_dir_dx_climit_get_count d DX_ROOT_EN) s) (\<lambda>root_count s.
           if length path > 1 \<and> root_limit = root_count then (Inr (Inl ENOSPC, path), s)
           else case sbind (ext4_fs_append_inode_dblk io s) (\<lambda>(fblk, iblk) s.
                     sbind (on_fs (fs_block_get_noread io fblk) s) (\<lambda>b s. (Inr (b, iblk), s))) of
             (Inl e, s) \<Rightarrow> if fatal e then (Inl e, s) else (Inr (Inl e, path), s)
           | (Inr (b, new_iblk), s) \<Rightarrow>
               sbind (blk_upd b (dx_init_node sb) s) (\<lambda>_ s.
               if length path > 1 then
                 let left = unat leaf_count div 2; right = unat leaf_count - left
                 in sbind (blk_read (dx_b p) (\<lambda>d. ext4_dir_dx_entry_get_hash d (dx_entry base left)) s) (\<lambda>hash_right s.
                    sbind (blk_read (dx_b p) (\<lambda>d. rd_range d (dx_entry base left) (8 * right)) s) (\<lambda>bs s.
                    sbind (blk_upd b (\<lambda>d. wr_range d DX_NODE_EN bs) s) (\<lambda>_ s.
                    sbind (blk_upd (dx_b p) (\<lambda>d. ext4_dir_dx_climit_set_count d base (of_nat left)) s) (\<lambda>_ s.
                    sbind (blk_upd b (\<lambda>d. rbind (ext4_dir_dx_climit_set_count d DX_NODE_EN (of_nat right))
                             (\<lambda>d. ext4_dir_dx_climit_set_limit d DX_NODE_EN (dx_node_limit sb))) s) (\<lambda>_ s.
                    sbind (if dx_pos p \<ge> left
                           then sbind (dx_seal (dx_b p) s) (\<lambda>_ s.
                                (Inr (\<lparr> dx_b = b, dx_base = DX_NODE_EN, dx_pos = dx_pos p - left \<rparr>, dx_b p), s))
                           else (Inr (p, b), s)) (\<lambda>(p, b) s.
                    let path = path[length path - 1 := p]
                    in sbind (ext4_dir_dx_insert_entry root hash_right new_iblk s) (\<lambda>_ s.
                       sbind (dx_seal (dx_b (path ! 0)) s) (\<lambda>_ s.
                       sbind (dx_seal (dx_b (path ! 1)) s) (\<lambda>_ s.
                       sbind (dx_seal b s) (\<lambda>_ s.
                       case on_fs (fs_block_set io b) s of
                         (Inl e, s) \<Rightarrow> if fatal e then (Inl e, s) else (Inr (Inl e, path), s)
                       | (Inr _, s) \<Rightarrow> (Inr (Inr (), path), s)))))))))))
               else
                 sbind (blk_read (dx_b p) (\<lambda>d. rd_range d (dx_entry base 0) (8 * unat leaf_count)) s) (\<lambda>bs s.
                 sbind (blk_upd b (\<lambda>d. rbind (wr_range d DX_NODE_EN bs)
                          (\<lambda>d. ext4_dir_dx_climit_set_limit d DX_NODE_EN (dx_node_limit sb))) s) (\<lambda>_ s.
                 sbind (blk_upd (dx_b p) (\<lambda>d. rbind (ext4_dir_dx_climit_set_count d base 1) (\<lambda>d.
                          rbind (ext4_dir_dx_entry_set_block d base new_iblk) (\<lambda>d.
                          ext4_dir_dx_rinfo_set_indirect_levels d 1))) s) (\<lambda>_ s.
                 sbind (dx_seal (dx_b p) s) (\<lambda>_ s.
                 sbind (dx_seal b s) (\<lambda>_ s.
                 (Inr (Inr (), path @ [\<lparr> dx_b = b, dx_base = DX_NODE_EN, dx_pos = dx_pos p \<rparr>]), s))))))))))))"

section \<open>Insertion\<close>

definition ext4_dir_try_insert_entry ::
    "ext4_block \<Rightarrow> u32 \<Rightarrow> u32 \<Rightarrow> u8 list \<Rightarrow> 'd istate \<Rightarrow> unit res \<times> 'd istate" where
  "ext4_dir_try_insert_entry b child ctype name s =
     sbind (sread is_inode s) (\<lambda>i s.
     sbind (blk_upd b (\<lambda>d. dir_insert_in_block (fs_sb (fst s)) (ir_index (snd s)) i d child ctype name) s) (\<lambda>_ s.
     on_fs (fs_set_dirty b) s))"

text \<open>Release the path, up to the first failure.\<close>

fun dx_release_all :: "ext4_dir_idx_block list \<Rightarrow> 'd ext4_blockdev_iface \<Rightarrow> unit res \<Rightarrow> 'd istate \<Rightarrow> unit res \<times> 'd istate" where
  "dx_release_all [] io r s = (r, s)"
| "dx_release_all (p # path) io r s =
     sbind (on_fs (fs_block_set io (dx_b p)) s) (\<lambda>_ s. dx_release_all path io r s)"

text \<open>What the second insertion after a split answers is dropped.\<close>

definition dx_add_to_leaf ::
    "'d ext4_blockdev_iface \<Rightarrow> ext4_hash_info \<Rightarrow> u64 \<Rightarrow> u32 \<Rightarrow> u32 \<Rightarrow> u8 list \<Rightarrow> ext4_dir_idx_block list \<Rightarrow>
     'd istate \<Rightarrow> unit res \<times> 'd istate" where
  "dx_add_to_leaf io h addr child ctype name path s =
     (case on_fs (fs_block_get io addr) s of
        (Inl e, s) \<Rightarrow> if fatal e then (Inl e, s) else dx_release_all path io (Inl e) s
      | (Inr t, s) \<Rightarrow>
          let p = List.last path;
              finish = (\<lambda>r s. sbind (on_fs (fs_block_set io t) s) (\<lambda>_ s. dx_release_all path io r s))
          in sbind (leaf_peek t s) (\<lambda>_ s.
             case ext4_dir_try_insert_entry t child ctype name s of
               (Inr _, s) \<Rightarrow> finish (Inr ()) s
             | (Inl e, s) \<Rightarrow>
                 if fatal e then (Inl e, s)
                 else (case ext4_dir_dx_split_data io h t p s of
                   (Inl e, s) \<Rightarrow> if fatal e then (Inl e, s) else finish (Inl e) s
                 | (Inr nb, s) \<Rightarrow>
                     sbind (blk_read (dx_b p) (\<lambda>d. ext4_dir_dx_entry_get_hash d (dx_entry (dx_base p) (dx_pos p + 1))) s) (\<lambda>blk_hash s.
                     sbind (sforget (ext4_dir_try_insert_entry (if hi_hash h \<ge> blk_hash then nb else t) child ctype name s)) (\<lambda>_ s.
                     sbind (on_fs (fs_block_set io nb) s) (\<lambda>_ s. finish (Inr ()) s))))))"

text \<open>After a failed walk, and after a failed split of the index, the code goes on with variables it has not set.\<close>

definition ext4_dir_dx_add_entry ::
    "'d ext4_blockdev_iface \<Rightarrow> u32 \<Rightarrow> u32 \<Rightarrow> u8 list \<Rightarrow> 'd istate \<Rightarrow> unit res \<times> 'd istate" where
  "ext4_dir_dx_add_entry io child ctype name s =
     sbind (dx_open io name s) (\<lambda>(root, h) s.
     sbind (ext4_dir_dx_get_leaf io (hi_hash h) root s) (\<lambda>(r, _, path) s.
     case r of
       Inl _ \<Rightarrow> (Inl UNDEF, s)
     | Inr _ \<Rightarrow>
         let p = List.last path
         in sbind (blk_read (dx_b p) (\<lambda>d. ext4_dir_dx_entry_get_block d (dx_entry (dx_base p) (dx_pos p))) s) (\<lambda>leaf s.
            case ext4_fs_get_inode_dblk_idx io leaf False s of
              (Inl e, s) \<Rightarrow> if fatal e then (Inl e, s) else dx_release_all path io (Inl e) s
            | (Inr addr, s) \<Rightarrow>
                sbind (ext4_dir_dx_split_index io path s) (\<lambda>(r, path) s.
                case r of
                  Inl _ \<Rightarrow> (Inl UNDEF, s)
                | Inr _ \<Rightarrow> dx_add_to_leaf io h addr child ctype name path s))))"

definition ext4_dx_dot_en_set_inode :: "u8 list \<Rightarrow> nat \<Rightarrow> u32 \<Rightarrow> u8 list res" where
  "ext4_dx_dot_en_set_inode d p inode = wr_range d p (enc32 inode)"

definition ext4_dir_dx_reset_parent_inode ::
    "'d ext4_blockdev_iface \<Rightarrow> u32 \<Rightarrow> 'd istate \<Rightarrow> unit res \<times> 'd istate" where
  "ext4_dir_dx_reset_parent_inode io parent s =
     sbind (ext4_fs_get_inode_dblk_idx io 0 False s) (\<lambda>fblock s.
     sbind (on_fs (fs_block_get io fblock) s) (\<lambda>b s.
     sbind (dx_peek b s) (\<lambda>_ s.
     sbind (blk_upd b (\<lambda>d. ext4_dx_dot_en_set_inode d 12 parent) s) (\<lambda>_ s.
     sbind (dx_seal b s) (\<lambda>_ s.
     on_fs (fs_block_set io b) s)))))"

end
