(* ===== verification/DirSplit.thy ===== *)
theory DirSplit
  imports DirIdx DirSpec "HOL-Library.Multiset"
begin

text \<open>
  The index of a directory: its binary search finds the record that covers a hash, and the split of a full leaf
  distributes the records of the leaf over two blocks by their hashes and loses none.
\<close>

section \<open>Search in a node\<close>

text \<open>The hashes of the records from 1 on; that of record 0 is not looked at.\<close>

definition dx_hashes :: "u8 list \<Rightarrow> nat \<Rightarrow> nat \<Rightarrow> (nat \<Rightarrow> u32) \<Rightarrow> bool" where
  "dx_hashes d base cnt hs \<longleftrightarrow>
     (\<forall>k. 1 \<le> k \<and> k < cnt \<longrightarrow> ext4_dir_dx_entry_get_hash d (dx_entry base k) = Inr (hs k)) \<and>
     (\<forall>j k. 1 \<le> j \<and> j \<le> k \<and> k < cnt \<longrightarrow> hs j \<le> hs k)"

lemma dx_bsearch_ok:
  assumes g: "dx_hashes d base cnt hs"
  shows "1 \<le> p \<Longrightarrow> p \<le> q + 1 \<Longrightarrow> q < int cnt \<Longrightarrow> (\<forall>k. 1 \<le> k \<and> int k < p \<longrightarrow> hs k \<le> h) \<Longrightarrow>
    (\<forall>k. q < int k \<and> k < cnt \<longrightarrow> h < hs k) \<Longrightarrow>
    \<exists>r. dx_bsearch d base h p q = Inr r \<and> 1 \<le> r \<and> r \<le> q + 1 \<and> (\<forall>k. 1 \<le> k \<and> int k < r \<longrightarrow> hs k \<le> h) \<and>
      (\<forall>k. r \<le> int k \<and> k < cnt \<longrightarrow> h < hs k)"
proof (induction "nat (q - p + 1)" arbitrary: p q rule: less_induct)
  case less
  show ?case
  proof (cases "p \<le> q")
    case False
    then have "p = q + 1" using less.prems(2) by simp
    then show ?thesis using less.prems by (intro exI [of _ p]) (simp add: dx_bsearch.simps)
  next
    case True
    let ?m = "p + (q - p) div 2"
    have m: "p \<le> ?m" "?m \<le> q" using True by simp_all
    have k: "1 \<le> nat ?m" "nat ?m < cnt" "int (nat ?m) = ?m" using m less.prems(1,3) by simp_all
    have v: "ext4_dir_dx_entry_get_hash d (dx_entry base (nat ?m)) = Inr (hs (nat ?m))" using g k(1,2) by (simp add: dx_hashes_def)
    have mono: "1 \<le> j \<Longrightarrow> j \<le> i \<Longrightarrow> i < cnt \<Longrightarrow> hs j \<le> hs i" for i j using g by (simp add: dx_hashes_def)
    show ?thesis
    proof (cases "h < hs (nat ?m)")
      case True
      have "h < hs j" if "?m - 1 < int j" "j < cnt" for j
      proof -
        have "nat ?m \<le> j" using that(1) by linarith
        then show ?thesis using mono [OF k(1) _ that(2)] True by (meson less_le_trans)
      qed
      then have "\<exists>r. dx_bsearch d base h p (?m - 1) = Inr r \<and> 1 \<le> r \<and> r \<le> ?m - 1 + 1 \<and> (\<forall>k. 1 \<le> k \<and> int k < r \<longrightarrow> hs k \<le> h) \<and>
          (\<forall>k. r \<le> int k \<and> k < cnt \<longrightarrow> h < hs k)"
        by (intro less.hyps) (use m less.prems in auto)
      then show ?thesis using \<open>p \<le> q\<close> m True v by (subst dx_bsearch.simps) (auto simp: Let_def)
    next
      case False
      have "hs j \<le> h" if "1 \<le> j" "int j < ?m + 1" for j
      proof -
        have "j \<le> nat ?m" using that(2) by linarith
        then show ?thesis using mono [OF that(1) _ k(2)] False by (meson le_less_trans not_less)
      qed
      then have "\<exists>r. dx_bsearch d base h (?m + 1) q = Inr r \<and> 1 \<le> r \<and> r \<le> q + 1 \<and> (\<forall>k. 1 \<le> k \<and> int k < r \<longrightarrow> hs k \<le> h) \<and>
          (\<forall>k. r \<le> int k \<and> k < cnt \<longrightarrow> h < hs k)"
        by (intro less.hyps) (use m less.prems in auto)
      then show ?thesis using \<open>p \<le> q\<close> False v by (subst dx_bsearch.simps) (simp add: Let_def)
    qed
  qed
qed

lemma dx_search_ok:
  assumes "ext4_dir_dx_climit_get_count d base = Inr cnt" and "cnt \<noteq> 0" and "cnt \<le> limit" and "dx_hashes d base (unat cnt) hs"
  shows "\<exists>at. dx_search base h limit d = Inr at \<and> at < unat cnt \<and> (at = 0 \<or> hs at \<le> h) \<and>
    (\<forall>k. at < k \<and> k < unat cnt \<longrightarrow> h < hs k)"
proof -
  have c: "0 < unat cnt" using assms(2) by (simp add: word_unat_eq_iff)
  let ?q = "int (unat cnt) - 1"
  have "\<exists>r. dx_bsearch d base h 1 ?q = Inr r \<and> 1 \<le> r \<and> r \<le> ?q + 1 \<and> (\<forall>k. 1 \<le> k \<and> int k < r \<longrightarrow> hs k \<le> h) \<and>
      (\<forall>k. r \<le> int k \<and> k < unat cnt \<longrightarrow> h < hs k)"
    by (rule dx_bsearch_ok [OF assms(4)]) (use c in linarith, use c in linarith, linarith, linarith, use c in linarith)
  then obtain r where
    r: "dx_bsearch d base h 1 (int (unat cnt) - 1) = Inr r" "1 \<le> r" "r \<le> int (unat cnt)"
      "\<forall>k. 1 \<le> k \<and> int k < r \<longrightarrow> hs k \<le> h" "\<forall>k. r \<le> int k \<and> k < unat cnt \<longrightarrow> h < hs k" by fastforce
  let ?at = "nat (r - 1)"
  have ai: "int ?at = r - 1" using r(2) by simp
  then have "?at < unat cnt" using r(3) by linarith
  moreover have "?at = 0 \<or> hs ?at \<le> h" using spec [OF r(4), of ?at] ai by (cases "?at = 0") simp_all
  moreover have "\<forall>k. ?at < k \<and> k < unat cnt \<longrightarrow> h < hs k" using r(5) ai by auto
  ultimately show ?thesis using assms(1-3) r(1) by (intro exI [of _ ?at]) (simp add: dx_search_def not_less)
qed

section \<open>Records as bytes\<close>

lemma rd_inner: "rd_range d p n = Inr bs \<Longrightarrow> k + m \<le> n \<Longrightarrow> rd_range bs k m = rd_range d (p + k) m"
  by (auto simp: rd_range_def drop_take min_def add.commute split: if_splits)

lemma rd8_inner: "rd_range d p n = Inr bs \<Longrightarrow> k < n \<Longrightarrow> rd8 bs k = rd8 d (p + k)"
  by (auto simp: rd_range_def rd8_def split: if_splits)

definition raw_of :: "ext4_sblock \<Rightarrow> u8 list \<Rightarrow> dirent \<Rightarrow> bool" where
  "raw_of sb bs e \<longleftrightarrow>
     de_ino e \<noteq> 0 \<and> 0 < length (de_name e) \<and> length (de_name e) < 256 \<and> length bs = de_size (length (de_name e)) \<and>
     ext4_dir_en_get_inode bs 0 = Inr (de_ino e) \<and> ext4_dir_en_get_inode_type sb bs 0 = Inr (de_type e) \<and>
     ext4_dir_en_get_name_len sb bs 0 = Inr (of_nat (length (de_name e))) \<and>
     rd_range bs 8 (length (de_name e)) = Inr (de_name e)"

lemma fields_inner:
  assumes r: "rd_range d p n = Inr bs" and n: "8 \<le> n"
  shows "ext4_dir_en_get_inode bs 0 = ext4_dir_en_get_inode d p"
    "ext4_dir_en_get_inode_type sb bs 0 = ext4_dir_en_get_inode_type sb d p"
    "ext4_dir_en_get_name_len sb bs 0 = ext4_dir_en_get_name_len sb d p"
  using rd_inner [OF r, of 0 4] rd8_inner [OF r, of 6] rd8_inner [OF r, of 7] n
  by (simp_all add: ext4_dir_en_get_inode_def ext4_dir_en_get_inode_type_def ext4_dir_en_get_name_len_def cong: if_cong)

lemma raw_read:
  assumes e: "dirent_at sb d p e" and i: "de_ino e \<noteq> 0" and n: "0 < length (de_name e)" "length (de_name e) < 256"
  shows "\<exists>bs. rd_range d p (de_size (length (de_name e))) = Inr bs \<and> raw_of sb bs e"
proof -
  let ?n = "length (de_name e)"
  have "de_size ?n \<le> unat (de_len e)" using e by (intro de_size_le) (simp_all add: dirent_at_def)
  then have fit: "p + de_size ?n \<le> length d" using e by (simp add: dirent_at_def)
  then obtain bs where r: "rd_range d p (de_size ?n) = Inr bs" by (simp add: rd_range_def)
  have l: "length bs = de_size ?n" using r fit by (auto simp: rd_range_def)
  have "8 \<le> de_size ?n" "8 + ?n \<le> de_size ?n" using de_size_bounds [of ?n] by simp_all
  then show ?thesis using fields_inner(1) [OF r] fields_inner(2,3) [OF r, of sb] rd_inner [OF r, of 8 ?n] r l e i n by (simp add: raw_of_def dirent_at_def)
qed

lemma raw_put:
  assumes r: "raw_of sb bs e" and l: "length bs \<le> unat l" "4 dvd unat l" "off + unat l \<le> length d"
  shows "\<exists>d1 d2. wr_range d off bs = Inr d1 \<and> ext4_dir_en_set_entry_len d1 off l = Inr d2 \<and> length d2 = length d \<and>
    agree d d2 0 off \<and> dirent_at sb d2 off (e\<lparr> de_len := l \<rparr>)"
proof -
  let ?n = "length (de_name e)"
  have b: "length bs = de_size ?n" "8 + ?n \<le> length bs" using r de_size_bounds [of ?n] by (simp_all add: raw_of_def)
  let ?d1 = "patch d off bs" let ?d2 = "patch ?d1 (off + 4) (enc16 l)"
  have f1: "off + length bs \<le> length d" using l by simp
  have f2: "off + 4 + length (enc16 l) \<le> length ?d1" using f1 b by simp
  have w: "wr_range d off bs = Inr ?d1" "ext4_dir_en_set_entry_len ?d1 off l = Inr ?d2"
    using wr_range_patch [OF f1] wr_range_patch [OF f2] by (simp_all add: ext4_dir_en_set_entry_len_def)
  have ag: "agree ?d1 ?d2 0 (off + 4)" "agree ?d1 ?d2 (off + 6) (length d)" using f2 by (auto intro: agree_patch)
  have "agree d ?d1 0 off" using f1 by (intro agree_patch) simp_all
  then have a: "agree d ?d2 0 off" using agree_sub [OF ag(1), of 0 off] by (auto simp: agree_def)
  have s: "rd_range ?d1 off (length bs) = Inr bs" using rd_patch_part [OF f1, of 0 "length bs"] by simp
  have i: "ext4_dir_en_get_inode ?d2 off = Inr (de_ino e)"
    using r rd_inner [OF s, of 0 4] b agree_rd_range [OF ag(1), of off 4] by (simp add: raw_of_def ext4_dir_en_get_inode_def)
  have b6: "rd8 ?d2 (off + 6) = rd8 bs 6" "rd8 ?d2 (off + 7) = rd8 bs 7"
    using rd8_inner [OF s, of 6] rd8_inner [OF s, of 7] b agree_rd8 [OF ag(2), of "off + 6"] agree_rd8 [OF ag(2), of "off + 7"] f1 by simp_all
  have t: "ext4_dir_en_get_inode_type sb ?d2 off = Inr (de_type e)" "ext4_dir_en_get_name_len sb ?d2 off = Inr (of_nat ?n)"
    using r by (simp_all add: raw_of_def ext4_dir_en_get_inode_type_def ext4_dir_en_get_name_len_def b6 cong: if_cong)
  have nm: "rd_range ?d2 (off + 8) ?n = Inr (de_name e)"
    using r rd_inner [OF s, of 8 ?n] b agree_rd_range [OF ag(2), of "off + 8" ?n] f1 by (simp add: raw_of_def)
  have "rd_range ?d2 (off + 4) 2 = Inr (enc16 l)" using f2 by (intro rd_patch) simp_all
  then have el: "ext4_dir_en_get_entry_len ?d2 off = Inr l" by (simp add: ext4_dir_en_get_entry_len_def)
  have ln: "length ?d2 = length d" using f1 f2 by simp
  have "de_ino e \<noteq> 0" using r by (simp add: raw_of_def)
  then have "dirent_at sb ?d2 off (e\<lparr> de_len := l \<rparr>)" using i t nm el ln l b by (simp add: dirent_at_def)
  then show ?thesis using w a ln by blast
qed

section \<open>Loading the records\<close>

definition de_used :: "dirent list \<Rightarrow> dirent list" where "de_used es = [e \<leftarrow> es. de_ino e \<noteq> 0]"

definition names_ok :: "dirent list \<Rightarrow> bool" where
  "names_ok es \<longleftrightarrow> (\<forall>e \<in> set es. de_ino e \<noteq> 0 \<longrightarrow> 0 < length (de_name e) \<and> length (de_name e) < 256)"

definition hash_ok :: "ext4_hash_info \<Rightarrow> bool" where
  "hash_ok h \<longleftrightarrow> (\<forall>name. 0 < length name \<and> length name < 256 \<longrightarrow> (\<exists>h'. ext4_dir_dx_hash_string h name = Inr h'))"

definition name_hash :: "ext4_hash_info \<Rightarrow> u8 list \<Rightarrow> u32" where
  "name_hash h name = (case ext4_dir_dx_hash_string h name of Inl _ \<Rightarrow> 0 | Inr h' \<Rightarrow> hi_hash h')"

definition raws :: "ext4_sblock \<Rightarrow> ext4_hash_info \<Rightarrow> sort_entry list \<Rightarrow> dirent list \<Rightarrow> bool" where
  "raws sb h xs es \<longleftrightarrow> list_all2 (\<lambda>x e. raw_of sb (snd x) e \<and> fst x = name_hash h (de_name e)) xs es"

definition sizes :: "sort_entry list \<Rightarrow> nat" where "sizes xs = sum_list (map (length \<circ> snd) xs)"

lemma sizes_simps [simp]: "sizes [] = 0" "sizes (x # xs) = length (snd x) + sizes xs" "sizes (xs @ ys) = sizes xs + sizes ys"
  by (simp_all add: sizes_def)

lemma name_byte_set:
  assumes "ext4_dir_en_get_name_len sb d p = Inr (of_nat n)" and "0 < n" "n < 256"
  shows "\<exists>v. rd8 d (p + 6) = Inr v \<and> v \<noteq> 0"
proof -
  obtain v where v: "rd8 d (p + 6) = Inr v" using assms(1) by (auto simp: ext4_dir_en_get_name_len_def rbind_Inr_iff)
  have u: "unat (of_nat n :: u16) = n" using assms(3) by (simp add: unat_of_nat)
  have "v \<noteq> 0"
  proof
    assume z: "v = 0"
    have "\<exists>w :: u8. push_bit 8 (ucast w) = (of_nat n :: u16)"
      using assms(1) v z by (cases "dir_old_rev sb") (auto simp: ext4_dir_en_get_name_len_def rbind_Inr_iff intro: exI [of _ 0])
    then obtain w :: u8 where "push_bit 8 (ucast w) = (of_nat n :: u16)" by blast
    then have "take_bit 8 (of_nat n :: u16) = 0" by (simp add: take_bit_push_bit flip: \<open>push_bit 8 (ucast w) = _\<close>)
    then have "unat (take_bit 8 (of_nat n :: u16)) = 0" by simp
    then have "n mod 256 = 0" by (simp add: take_bit_eq_mod unat_word_ariths(7) u)
    then show False using assms(2,3) by simp
  qed
  then show ?thesis using v by blast
qed

lemma dx_rec_len_eq: "n < 256 \<Longrightarrow> dx_rec_len (of_nat n) = de_size n"
proof -
  assume "n < 256"
  then have "unat (of_nat n :: u16) = n" by (simp add: unat_of_nat)
  then show ?thesis unfolding dx_rec_len_def de_size_def Let_def by (simp only:) presburger
qed

lemma de_size_12: "0 < n \<Longrightarrow> 12 \<le> de_size n" by (simp add: de_size_def)

lemma dx_load_ok:
  assumes h: "hash_ok h"
  shows "dir_path sb d p es lim \<Longrightarrow> names_ok es \<Longrightarrow> lim \<le> length d \<Longrightarrow> sizes acc \<le> p \<Longrightarrow> 12 * length acc \<le> p \<Longrightarrow>
    \<exists>xs. dx_load sb h d lim p acc = Inr (acc @ xs) \<and> raws sb h xs (de_used es) \<and> sizes xs \<le> lim - p"
proof (induction es arbitrary: p acc)
  case Nil
  then show ?case by (intro exI [of _ "[]"]) (simp add: dx_load.simps raws_def de_used_def)
next
  case (Cons e es)
  have e: "dirent_at sb d p e" and es: "dir_path sb d (p + unat (de_len e)) es lim" using Cons.prems(1) by simp_all
  have lt: "p + 8 \<le> lim" by (rule dir_path_less [OF Cons.prems(1)])
  have le: "p + unat (de_len e) \<le> lim" by (rule dir_path_le [OF es])
  have ns: "names_ok es" using Cons.prems(2) by (simp add: names_ok_def)
  have f: "ext4_dir_en_get_inode d p = Inr (de_ino e)" "ext4_dir_en_get_entry_len d p = Inr (de_len e)" "de_len e \<noteq> 0"
    using e dirent_len [OF e] by (simp_all add: dirent_at_def)
  obtain v where v: "rd8 d (p + 6) = Inr v" using lt Cons.prems(3) by (simp add: rd8_def)
  let ?p = "p + unat (de_len e)"
  show ?case
  proof (cases "de_ino e = 0")
    case True
    have "sizes acc \<le> ?p" "12 * length acc \<le> ?p" using Cons.prems(4,5) by simp_all
    from Cons.IH [OF es ns Cons.prems(3) this] obtain xs where
      "dx_load sb h d lim ?p acc = Inr (acc @ xs)" "raws sb h xs (de_used es)" "sizes xs \<le> lim - ?p" by blast
    moreover have "dx_load sb h d lim p acc = dx_load sb h d lim ?p acc"
      by (subst dx_load.simps) (use True f v lt in simp)
    ultimately show ?thesis using True by (intro exI [of _ xs]) (simp add: de_used_def)
  next
    case False
    let ?n = "length (de_name e)"
    have n: "0 < ?n" "?n < 256" using Cons.prems(2) False by (simp_all add: names_ok_def)
    have nl: "ext4_dir_en_get_name_len sb d p = Inr (of_nat ?n)" "rd_range d (p + 8) ?n = Inr (de_name e)"
      using e False by (simp_all add: dirent_at_def)
    have v0: "v \<noteq> 0" using name_byte_set [OF nl(1) n] v by simp
    obtain bs where bs: "rd_range d p (de_size ?n) = Inr bs" "raw_of sb bs e" using raw_read [OF e False n] by blast
    have lb: "length bs = de_size ?n" using bs(2) by (simp add: raw_of_def)
    obtain h' where h': "ext4_dir_dx_hash_string h (de_name e) = Inr h'" using h n by (auto simp: hash_ok_def)
    have dl: "de_size ?n \<le> unat (de_len e)" "12 \<le> de_size ?n"
      using e de_size_12 [OF n(1)] by (auto intro!: de_size_le simp: dirent_at_def)
    let ?acc = "acc @ [(hi_hash h', bs)]"
    have room: "\<not> (sizes acc + length bs > lim)" "\<not> lim div 12 \<le> length acc" using Cons.prems(4,5) le dl lb by simp_all
    have un: "unat (of_nat ?n :: u16) = ?n" using n by (simp add: unat_of_nat)
    have "sizes ?acc \<le> ?p" "12 * length ?acc \<le> ?p" using Cons.prems(4,5) dl lb by simp_all
    from Cons.IH [OF es ns Cons.prems(3) this] obtain xs where
      x: "dx_load sb h d lim ?p ?acc = Inr (?acc @ xs)" "raws sb h xs (de_used es)" "sizes xs \<le> lim - ?p" by blast
    have "dx_load sb h d lim p acc = dx_load sb h d lim ?p ?acc"
      by (subst dx_load.simps) (use False f v v0 lt nl bs(1) h' un dx_rec_len_eq [OF n(2)] room in \<open>simp add: sizes_def\<close>)
    moreover have "raws sb h ((hi_hash h', bs) # xs) (de_used (e # es))"
      using x(2) bs(2) h' False by (simp add: raws_def de_used_def name_hash_def)
    moreover have "sizes ((hi_hash h', bs) # xs) \<le> lim - p" using x(3) lb dl le by simp
    ultimately show ?thesis using x(1) by (intro exI [of _ "(hi_hash h', bs) # xs"]) simp
  qed
qed

section \<open>Laying records out\<close>

text \<open>A record without its length.\<close>

definition bare :: "dirent \<Rightarrow> dirent" where "bare e = e\<lparr> de_len := 0 \<rparr>"

lemma bare_len [simp]: "bare (e\<lparr> de_len := l \<rparr>) = bare e" by (simp add: bare_def)

lemma dx_lay_ok:
  "raws sb h xs es \<Longrightarrow> xs \<noteq> [] \<Longrightarrow> off + sizes xs \<le> lim \<Longrightarrow> lim \<le> length d \<Longrightarrow> lim < 2 ^ 16 \<Longrightarrow> 4 dvd lim \<Longrightarrow> 4 dvd off \<Longrightarrow>
   \<exists>d' us. dx_lay lim xs off d = Inr d' \<and> length d' = length d \<and> agree d d' 0 off \<and> dir_path sb d' off us lim \<and> map bare us = map bare es"
proof (induction xs arbitrary: es off d)
  case Nil
  then show ?case by simp
next
  case (Cons x xs)
  obtain e us where es: "es = e # us" and r: "raw_of sb (snd x) e" and rs: "raws sb h xs us"
    using Cons.prems(1) by (cases es) (auto simp: raws_def)
  let ?n = "length (snd x)"
  have n: "4 dvd ?n" "?n < 300" using r de_size_bounds [of "length (de_name e)"] by (auto simp: raw_of_def)
  let ?l = "of_nat (if xs \<noteq> [] then ?n else lim - off) :: u16"
  have ul: "unat ?l = (if xs \<noteq> [] then ?n else lim - off)" using n(2) Cons.prems(5) by (simp add: unat_of_nat)
  have fit: "?n \<le> unat ?l" "4 dvd unat ?l" "off + unat ?l \<le> length d"
    using Cons.prems n unfolding ul by (auto intro: dvd_diff_nat)
  from raw_put [OF r fit] obtain d1 d2 where
    1: "wr_range d off (snd x) = Inr d1" "ext4_dir_en_set_entry_len d1 off ?l = Inr d2" "length d2 = length d" "agree d d2 0 off"
      "dirent_at sb d2 off (e\<lparr> de_len := ?l \<rparr>)" by blast
  show ?case
  proof (cases "xs = []")
    case True
    then have u: "us = []" using rs by (simp add: raws_def)
    have "off + unat ?l = lim" using True Cons.prems(3) ul by simp
    then have "dir_path sb d2 off [e\<lparr> de_len := ?l \<rparr>] lim" using 1(5) by simp
    moreover have "dx_lay lim (x # xs) off d = Inr d2" using True 1(1,2) by simp
    ultimately show ?thesis using 1(3,4) es u by (intro exI [of _ d2] exI [of _ "[e\<lparr> de_len := ?l \<rparr>]"]) simp
  next
    case False
    have "off + ?n + sizes xs \<le> lim" "lim \<le> length d2" "4 dvd off + ?n" using Cons.prems 1(3) n(1) by simp_all
    from Cons.IH [OF rs False this(1,2) Cons.prems(5,6) this(3)] obtain d' ws where
      2: "dx_lay lim xs (off + ?n) d2 = Inr d'" "length d' = length d2" "agree d2 d' 0 (off + ?n)" "dir_path sb d' (off + ?n) ws lim"
        "map bare ws = map bare us" by blast
    have ln: "8 + length (de_name e) \<le> ?n" using r de_size_bounds [of "length (de_name e)"] by (simp add: raw_of_def)
    have "dirent_at sb d' off (e\<lparr> de_len := ?l \<rparr>)"
      using agree_dirent [of d2 d' off "e\<lparr> de_len := ?l \<rparr>" sb] agree_sub [OF 2(3), of off] ln 1(5) by simp
    then have "dir_path sb d' off (e\<lparr> de_len := ?l \<rparr> # ws) lim" using 2(4) ul False by simp
    moreover have "dx_lay lim (x # xs) off d = Inr d'" using False 1(1,2) 2(1) by simp
    moreover have "agree d d' 0 off" using 1(3,4) agree_sub [OF 2(3), of 0 off] by (auto simp: agree_def)
    ultimately show ?thesis using 1(3) 2(2,5) es by (intro exI [of _ d'] exI [of _ "e\<lparr> de_len := ?l \<rparr> # ws"]) simp
  qed
qed

section \<open>The halves\<close>

lemma dx_half_ok:
  "cur \<le> lim div 2 \<Longrightarrow> lim div 2 < cur + sizes xs \<Longrightarrow>
   \<exists>k < length xs. dx_half lim xs i cur = (i + k, fst (xs ! k)) \<and> cur + sizes (take k xs) \<le> lim div 2 \<and>
     lim div 2 < cur + sizes (take (Suc k) xs)"
proof (induction xs arbitrary: i cur)
  case Nil
  then show ?case by simp
next
  case (Cons x xs)
  show ?case
  proof (cases "lim div 2 < cur + length (snd x)")
    case True
    then show ?thesis using Cons.prems(1) by (intro exI [of _ 0]) simp
  next
    case False
    then have "cur + length (snd x) \<le> lim div 2" "lim div 2 < cur + length (snd x) + sizes xs" using Cons.prems(2) by simp_all
    from Cons.IH [OF this, of "i + 1"] obtain k where "k < length xs" "dx_half lim xs (i + 1) (cur + length (snd x)) = (i + 1 + k, fst (xs ! k))"
      "cur + length (snd x) + sizes (take k xs) \<le> lim div 2" "lim div 2 < cur + length (snd x) + sizes (take (Suc k) xs)" by blast
    then show ?thesis using False by (intro exI [of _ "Suc k"]) simp
  qed
qed

lemma raws_sizes: "raws sb h xs es \<Longrightarrow> sizes xs = sum_list (map (\<lambda>e. de_size (length (de_name e))) es)"
  unfolding raws_def by (induction xs es rule: list_all2_induct) (simp_all add: raw_of_def)

lemma raws_hash:
  assumes "raws sb h xs es" and "map bare us = map bare es" and "u \<in> set us"
  shows "\<exists>x \<in> set xs. name_hash h (de_name u) = fst x"
proof -
  have "bare u \<in> set (map bare es)" using assms(2,3) by (metis image_eqI set_map)
  then obtain e where e: "e \<in> set es" "bare u = bare e" by auto
  then have "de_name u = de_name e" by (metis bare_def dirent.select_convs(4) dirent.surjective dirent.update_convs(2))
  moreover obtain i where i: "i < length es" "es ! i = e" using e(1) by (auto simp: in_set_conv_nth)
  moreover have "i < length xs" "fst (xs ! i) = name_hash h (de_name (es ! i))"
    using assms(1) i(1) by (auto simp: raws_def list_all2_conv_all_nth)
  ultimately show ?thesis by (intro bexI [of _ "xs ! i"]) simp_all
qed

lemma raws_parts:
  "raws sb h xs es \<Longrightarrow> raws sb h (take k xs) (take k es)" "raws sb h xs es \<Longrightarrow> raws sb h (drop k xs) (drop k es)"
  by (simp_all add: raws_def list_all2_takeI list_all2_dropI)

lemma raw_small: "raws sb h xs es \<Longrightarrow> x \<in> set xs \<Longrightarrow> length (snd x) < 300"
proof -
  assume a: "raws sb h xs es" "x \<in> set xs"
  then obtain e where "raw_of sb (snd x) e" by (fastforce simp: raws_def list_all2_conv_all_nth in_set_conv_nth)
  then show "length (snd x) < 300" using de_size_bounds [of "length (de_name e)"] by (simp add: raw_of_def)
qed

lemma split_leaf_ok:
  assumes path: "dir_path sb d 0 es (length d)" and ns: "names_ok es" and h: "hash_ok h"
    and sz: "1024 \<le> length d" "length d < 2 ^ 16" and dn: "length dn = length d" and lim: "lim = length d \<or> lim = length d - 12"
    and full: "length d div 2 < sum_list (map (\<lambda>e. de_size (length (de_name e))) (de_used es))"
  shows "\<exists>xs mid nh dl dr el er. dx_load sb h d (length d) 0 [] = Inr xs \<and> dx_half (length d) (dx_sort xs) 0 0 = (mid, nh) \<and> 0 < mid \<and>
    dx_lay lim (take mid (dx_sort xs)) 0 d = Inr dl \<and> dx_lay lim (drop mid (dx_sort xs)) 0 dn = Inr dr \<and>
    dir_path sb dl 0 el lim \<and> dir_path sb dr 0 er lim \<and>
    mset (map bare el) + mset (map bare er) = mset (map bare (de_used es)) \<and>
    (\<forall>e \<in> set el. name_hash h (de_name e) \<le> nh) \<and> (\<forall>e \<in> set er. nh \<le> name_hash h (de_name e))"
proof -
  obtain xs where x: "dx_load sb h d (length d) 0 [] = Inr xs" "raws sb h xs (de_used es)" "sizes xs \<le> length d"
    using dx_load_ok [OF h path ns, of "[]"] by auto
  let ?xs = "dx_sort xs"
  have ms: "mset ?xs = mset xs" by (simp add: dx_sort_def)
  from list_all2_reorder_left_invariance [OF x(2) [unfolded raws_def] ms] obtain us where
    u: "raws sb h ?xs us" "mset us = mset (de_used es)" by (auto simp: raws_def)
  have "mset (map (length \<circ> snd) ?xs) = mset (map (length \<circ> snd) xs)" using ms by (simp only: mset_map)
  then have s: "sizes ?xs = sizes xs" unfolding sizes_def by (metis sum_mset_sum_list)
  have big: "length d div 2 < 0 + sizes ?xs" using full raws_sizes [OF x(2)] s by simp
  from dx_half_ok [OF _ big, of 0] obtain mid where
    k: "mid < length ?xs" "dx_half (length d) ?xs 0 0 = (mid, fst (?xs ! mid))" "sizes (take mid ?xs) \<le> length d div 2"
      "length d div 2 < sizes (take (Suc mid) ?xs)" by auto
  have small: "length (snd (?xs ! i)) < 300" if "i < length ?xs" for i using raw_small [OF u(1)] that by simp
  have mid: "0 < mid"
  proof (rule ccontr)
    assume "\<not> 0 < mid"
    then have z: "mid = 0" by simp
    then obtain y ys where "?xs = y # ys" using k(1) by (cases ?xs) auto
    then show False using z k(4) small [of 0] k(1) sz(1) by simp
  qed
  have sp: "sizes ?xs = sizes (take mid ?xs) + sizes (drop mid ?xs)" by (metis append_take_drop_id sizes_simps(3))
  have "sizes (take (Suc mid) ?xs) = sizes (take mid ?xs) + length (snd (?xs ! mid))" using k(1) by (simp add: take_Suc_conv_app_nth)
  then have right: "sizes (drop mid ?xs) \<le> length d div 2 + 300" using k(4) small [OF k(1)] sp s x(3) by linarith
  have d4: "4 dvd length d"
  proof -
    have "dir_path sb d p es q \<Longrightarrow> 4 dvd p \<Longrightarrow> 4 dvd q" for p q
      by (induction es arbitrary: p) (auto simp: dirent_at_def)
    from this [OF path] show ?thesis by simp
  qed
  have l: "lim \<le> length d" "lim < 2 ^ 16" "4 dvd lim" "length d - 12 \<le> lim"
    using lim sz d4 by (auto intro: dvd_diff_nat)
  have fits: "0 + sizes (take mid ?xs) \<le> lim" "0 + sizes (drop mid ?xs) \<le> lim" using k(3) right l(4) sz(1) by linarith+
  have ne: "take mid ?xs \<noteq> []" "drop mid ?xs \<noteq> []" using mid k(1) by auto
  obtain dl el where a: "dx_lay lim (take mid ?xs) 0 d = Inr dl" "dir_path sb dl 0 el lim" "map bare el = map bare (take mid us)"
    using dx_lay_ok [OF raws_parts(1) [OF u(1)] ne(1) fits(1) l(1-3)] by auto
  have ln: "lim \<le> length dn" using l(1) dn by simp
  obtain dr er where b: "dx_lay lim (drop mid ?xs) 0 dn = Inr dr" "dir_path sb dr 0 er lim" "map bare er = map bare (drop mid us)"
    using dx_lay_ok [OF raws_parts(2) [OF u(1)] ne(2) fits(2) ln l(2,3)] by auto
  have "mset (map bare el) + mset (map bare er) = mset (map bare (take mid us @ drop mid us))" using a(3) b(3) by (simp only: map_append mset_append)
  then have m: "mset (map bare el) + mset (map bare er) = mset (map bare (de_used es))" using u(2) by (simp only: append_take_drop_id mset_map)
  have so: "sorted (map fst ?xs)" by (simp add: dx_sort_def)
  have "name_hash h (de_name e) \<le> fst (?xs ! mid)" if e: "e \<in> set el" for e
  proof -
    from raws_hash [OF raws_parts(1) [OF u(1)] a(3) e] obtain y where y: "y \<in> set (take mid ?xs)" "name_hash h (de_name e) = fst y" by blast
    then obtain i where "i < mid" "y = ?xs ! i" using k(1) by (auto simp: in_set_conv_nth)
    then show ?thesis using y(2) sorted_nth_mono [OF so, of i mid] k(1) by simp
  qed
  moreover have "fst (?xs ! mid) \<le> name_hash h (de_name e)" if e: "e \<in> set er" for e
  proof -
    from raws_hash [OF raws_parts(2) [OF u(1)] b(3) e] obtain y where y: "y \<in> set (drop mid ?xs)" "name_hash h (de_name e) = fst y" by blast
    then obtain i where "i < length ?xs - mid" "y = ?xs ! (mid + i)" by (auto simp: in_set_conv_nth)
    then show ?thesis using y(2) sorted_nth_mono [OF so, of mid "mid + i"] by simp
  qed
  ultimately show ?thesis using x(1) k(2) mid a(1,2) b(1,2) m
    by (intro exI [of _ xs] exI [of _ mid] exI [of _ "fst (?xs ! mid)"] exI [of _ dl] exI [of _ dr] exI [of _ el] exI [of _ er]) blast
qed

section \<open>The properties\<close>

lemma hash_ok_versions:
  assumes "0 \<le> hi_hash_version h" "hi_hash_version h \<le> 5" and "4 \<le> length (htree_seed (hi_seed h))"
  shows "hash_ok h"
proof -
  have "\<exists>h'. ext4_dir_dx_hash_string h name = Inr h'" if n: "0 < length name" "length name < 256" for name
  proof -
    obtain ma mi where "htree_switch name (int (length name)) (htree_seed (hi_seed h)) (hi_hash_version h) = Some (ma, mi)"
      using htree_switch_None [of name "int (length name)" "htree_seed (hi_seed h)" "hi_hash_version h"] assms(1,2) by fastforce
    then show ?thesis using n assms(3) by (simp add: ext4_dir_dx_hash_string_def ext2_htree_hash_def Let_def)
  qed
  then show ?thesis by (simp add: hash_ok_def)
qed

text \<open>
  The search in an index node finds the record that covers the hash. On a node whose hashes are in order,
  \<open>dx_search\<close>, the binary search of \<open>ext4_dir_dx_get_leaf\<close>, ends at the last record whose hash is not above the given one, or at
  the first record, whose hash is not looked at.
\<close>

theorem dx_search_covers:
  assumes "ext4_dir_dx_climit_get_count d base = Inr cnt" and "cnt \<noteq> 0" and "cnt \<le> limit" and "dx_hashes d base (unat cnt) hs"
  shows "\<exists>at. dx_search base h limit d = Inr at \<and> at < unat cnt \<and> (at = 0 \<or> hs at \<le> h) \<and>
    (\<forall>k. at < k \<and> k < unat cnt \<longrightarrow> h < hs k)"
  by (rule dx_search_ok [OF assms])

text \<open>
  C16: the split of a leaf keeps every record and orders the halves. For a well-formed leaf whose records fill more than half a
  block, loading, sorting and laying them out succeeds; the two blocks are well-formed again, with or without room for the
  checksum record, together they hold exactly the records in use, and the hash the index gets for the new block separates them.
\<close>

theorem split_leaf_exact:
  assumes "dir_path sb d 0 es (length d)" and "names_ok es" and "hash_ok h"
    and "1024 \<le> length d" and "length d < 2 ^ 16" and "length dn = length d" and "lim = length d \<or> lim = length d - 12"
    and "length d div 2 < sum_list (map (\<lambda>e. de_size (length (de_name e))) (de_used es))"
  shows "\<exists>xs mid nh dl dr el er. dx_load sb h d (length d) 0 [] = Inr xs \<and> dx_half (length d) (dx_sort xs) 0 0 = (mid, nh) \<and> 0 < mid \<and>
    dx_lay lim (take mid (dx_sort xs)) 0 d = Inr dl \<and> dx_lay lim (drop mid (dx_sort xs)) 0 dn = Inr dr \<and>
    dir_path sb dl 0 el lim \<and> dir_path sb dr 0 er lim \<and>
    mset (map bare el) + mset (map bare er) = mset (map bare (de_used es)) \<and>
    (\<forall>e \<in> set el. name_hash h (de_name e) \<le> nh) \<and> (\<forall>e \<in> set er. nh \<le> name_hash h (de_name e))"
  by (rule split_leaf_ok [OF assms])

text \<open>
  A new index node is refused. With metadata checksums the limit \<open>ext4_dir_dx_split_index\<close> writes into a new node counts the
  room of the checksum record, the limit \<open>ext4_dir_dx_get_leaf\<close> asks for leaves it out: once the index has a second level, no walk
  gets past it.
\<close>

theorem node_limit_refused:
  assumes "ext4_sb_feature_ro_com sb EXT4_FRO_COM_METADATA_CSUM"
    and "1024 \<le> ext4_sb_get_block_size sb" and "ext4_sb_get_block_size sb \<le> 65536"
  shows "ucast (dx_node_limit sb) = dx_entry_space sb DX_NODE_EN + 1 \<and> ucast (dx_node_limit sb) \<noteq> dx_entry_space sb DX_NODE_EN"
proof -
  let ?b = "ext4_sb_get_block_size sb"
  have b: "1024 \<le> unat ?b" "unat ?b \<le> 65536" using assms(2,3) by (simp_all add: word_le_nat_alt)
  have u: "unat (?b - 8) = unat ?b - 8" "unat (?b - 8 - 8) = unat ?b - 16"
    using b unat_minus_le [of "8 :: u32" ?b] unat_minus_le [of "8 :: u32" "?b - 8"] by (simp_all add: word_le_nat_alt)
  have "unat (dx_node_limit sb) = (unat ?b - 8) div 8" using b u(1)
    by (simp add: dx_node_limit_def unsigned_ucast_eq unat_div take_bit_eq_mod)
  moreover have "unat (dx_entry_space sb DX_NODE_EN) = (unat ?b - 16) div 8"
    using assms(1) u(2) by (simp add: dx_entry_space_def DX_NODE_EN_def unat_div)
  moreover have "unat ?b - 8 = unat ?b - 16 + 8" using b(1) by simp
  then have "(unat ?b - 8) div 8 = (unat ?b - 16) div 8 + 1" by (simp only: div_add_self2)
  ultimately have n: "unat (dx_node_limit sb) = unat (dx_entry_space sb DX_NODE_EN) + 1" by simp
  have "unat (dx_node_limit sb) < 2 ^ LENGTH(16)" by (rule unsigned_less)
  then have lt: "unat (dx_node_limit sb) < 65536" by simp
  have "unat (ucast (dx_node_limit sb) :: u32) = unat (dx_node_limit sb)"
    using lt by (intro unat_ucast_small) simp
  moreover have "unat (dx_entry_space sb DX_NODE_EN + 1) = unat (dx_entry_space sb DX_NODE_EN) + 1"
    using n lt by (simp add: unat_word_ariths)
  ultimately have e: "ucast (dx_node_limit sb) = dx_entry_space sb DX_NODE_EN + 1" using n by (intro word_unat_eq_iff [THEN iffD2]) linarith
  have "x + 1 \<noteq> x" for x :: u32 by simp
  then show ?thesis unfolding e by blast
qed

section \<open>Witnesses\<close>

text \<open>A node with the hashes 10, 20 and 20.\<close>

definition node_sample :: "u8 list" where
  "node_sample = [127, 0, 4, 0, 1, 0, 0, 0, 10, 0, 0, 0, 2, 0, 0, 0, 20, 0, 0, 0, 3, 0, 0, 0, 20, 0, 0, 0, 4, 0, 0, 0]"

theorem dx_search_covers_witness: "dx_search 0 15 127 node_sample = Inr 1"
proof -
  let ?hs = "\<lambda>k :: nat. if k = 1 then 10 else 20 :: u32"
  have c: "ext4_dir_dx_climit_get_count node_sample 0 = Inr 4" by code_simp
  have "ext4_dir_dx_entry_get_hash node_sample (dx_entry 0 1) = Inr 10" "ext4_dir_dx_entry_get_hash node_sample (dx_entry 0 2) = Inr 20"
    "ext4_dir_dx_entry_get_hash node_sample (dx_entry 0 3) = Inr 20" by code_simp+
  moreover have "k = 1 \<or> k = 2 \<or> k = 3" if "1 \<le> k" "k < 4" for k :: nat using that by linarith
  ultimately have "dx_hashes node_sample 0 (unat (4 :: u16)) ?hs" by (auto simp: dx_hashes_def)
  moreover have "(4 :: u16) \<noteq> 0" "(4 :: u16) \<le> 127" by (simp_all add: word_le_nat_alt)
  ultimately obtain at where a: "dx_search 0 15 127 node_sample = Inr at" "at < 4" "at = 0 \<or> ?hs at \<le> 15" "\<forall>k. at < k \<and> k < 4 \<longrightarrow> 15 < ?hs k"
    using dx_search_covers [OF c, of 127 ?hs 15] by auto
  have "at \<noteq> 0" using a(4) [rule_format, of 1] by (auto simp: word_less_nat_alt)
  moreover have "at \<noteq> 2" "at \<noteq> 3" using a(3) by (auto simp: word_le_nat_alt)
  ultimately have "at = 1" using a(2) by linarith
  then show ?thesis using a(1) by simp
qed

text \<open>Three records with names of 250 bytes in a block of 1 KiB.\<close>

definition wide_record :: "u32 \<Rightarrow> u16 \<Rightarrow> u8 \<Rightarrow> nat \<Rightarrow> u8 list" where
  "wide_record ino len c pad = dir_hdr sb_sample ino len 0 250 @ replicate 250 c @ replicate pad 0"

definition wide_leaf :: "u8 list" where
  "wide_leaf = wide_record 11 260 97 2 @ wide_record 12 260 98 2 @ wide_record 13 504 99 246"

definition wide_dirents :: "dirent list" where
  "wide_dirents =
     [\<lparr> de_ino = 11, de_len = 260, de_type = 0, de_name = replicate 250 97 \<rparr>,
      \<lparr> de_ino = 12, de_len = 260, de_type = 0, de_name = replicate 250 98 \<rparr>,
      \<lparr> de_ino = 13, de_len = 504, de_type = 0, de_name = replicate 250 99 \<rparr>]"

lemma sb_sample_old: "dir_old_rev sb_sample"
  by (simp add: dir_old_rev_def sb_sample_def sb_of_bytes_def get_field_defs) code_simp

lemma dirent_inside:
  assumes d: "d = pre @ (dir_hdr sb child len t (length name) @ name) @ rest" "length pre = p"
    and l: "p + unat len \<le> length d" "8 + length name \<le> unat len" "4 dvd unat len" "length name < 256" "child \<noteq> 0"
  shows "dirent_at sb d p
    \<lparr> de_ino = child, de_len = len, de_type = (if dir_old_rev sb then EXT4_DE_UNKNOWN else t), de_name = name \<rparr>"
proof -
  have "patch d p (dir_hdr sb child len t (length name) @ name) = d" using d by (simp add: patch_def)
  then show ?thesis using patch_dirent [OF l, where t = t and sb = sb] by simp
qed

lemma wide_record_at:
  assumes "length pre = p" and "p + unat len \<le> length (pre @ wide_record ino len c pad @ rest)" and "258 \<le> unat len" "4 dvd unat len"
    and "ino \<noteq> 0"
  shows "dirent_at sb_sample (pre @ wide_record ino len c pad @ rest) p
    \<lparr> de_ino = ino, de_len = len, de_type = 0, de_name = replicate 250 c \<rparr>"
  using dirent_inside [of "pre @ wide_record ino len c pad @ rest" pre sb_sample ino len 0 "replicate 250 c" "replicate pad 0 @ rest" p]
    assms sb_sample_old by (simp add: wide_record_def EXT4_DE_UNKNOWN_def)

lemma wide_record_length [simp]: "length (wide_record ino len c pad) = 258 + pad" by (simp add: wide_record_def)

lemma wide_path: "dir_path sb_sample wide_leaf 0 wide_dirents 1024" "length wide_leaf = 1024"
proof -
  show "length wide_leaf = 1024" by (simp add: wide_leaf_def)
  let ?a = "wide_record 11 260 97 2" and ?b = "wide_record 12 260 98 2" and ?c = "wide_record 13 504 99 246"
  have "dirent_at sb_sample ([] @ ?a @ (?b @ ?c)) 0 \<lparr> de_ino = 11, de_len = 260, de_type = 0, de_name = replicate 250 97 \<rparr>"
    by (rule wide_record_at) simp_all
  moreover have "dirent_at sb_sample (?a @ ?b @ ?c) 260 \<lparr> de_ino = 12, de_len = 260, de_type = 0, de_name = replicate 250 98 \<rparr>"
    by (rule wide_record_at) simp_all
  moreover have "dirent_at sb_sample ((?a @ ?b) @ ?c @ []) 520 \<lparr> de_ino = 13, de_len = 504, de_type = 0, de_name = replicate 250 99 \<rparr>"
    by (rule wide_record_at) simp_all
  ultimately show "dir_path sb_sample wide_leaf 0 wide_dirents 1024" by (simp add: wide_dirents_def wide_leaf_def)
qed

definition hash_sample :: ext4_hash_info where
  "hash_sample = \<lparr> hi_hash = 0, hi_minor_hash = 0, hi_hash_version = 1, hi_seed = None \<rparr>"

theorem split_leaf_exact_witness:
  "\<exists>xs mid nh. dx_load sb_sample hash_sample wide_leaf 1024 0 [] = Inr xs \<and> dx_half 1024 (dx_sort xs) 0 0 = (mid, nh) \<and> 0 < mid"
proof -
  have "hash_ok hash_sample" by (rule hash_ok_versions) (simp_all add: hash_sample_def htree_seed_def)
  moreover have "names_ok wide_dirents" by (simp add: names_ok_def wide_dirents_def)
  moreover have "1024 div 2 < sum_list (map (\<lambda>e. de_size (length (de_name e))) (de_used wide_dirents))"
    by (simp add: wide_dirents_def de_used_def de_size_def)
  ultimately show ?thesis
    using split_leaf_exact [of sb_sample wide_leaf wide_dirents hash_sample "replicate 1024 0" 1024] wide_path by auto
qed

definition csum_sblock :: ext4_sblock where
  "csum_sblock = sb_sample\<lparr> sb_features_read_only := EXT4_FRO_COM_METADATA_CSUM \<rparr>"

theorem node_limit_refused_witness: "ucast (dx_node_limit csum_sblock) \<noteq> dx_entry_space csum_sblock DX_NODE_EN"
proof -
  have "ext4_sb_get_block_size csum_sblock = 1024" by (simp add: ext4_sb_get_block_size_def csum_sblock_def sb_sample_def)
  moreover have "ext4_sb_feature_ro_com csum_sblock EXT4_FRO_COM_METADATA_CSUM"
    by (simp add: ext4_sb_feature_ro_com_def csum_sblock_def ext4_consts)
  ultimately show ?thesis by (intro node_limit_refused [THEN conjunct2]) (simp_all add: word_le_nat_alt)
qed

end
