(* ===== verification/DirOps.thy ===== *)
theory DirOps
  imports DirIdx
begin

text \<open>
  The operations of \<^verbatim>\<open>src/ext4_dir.c\<close> on a whole directory: the iterator, and adding, finding and removing a name, by the
  index where the directory has one and block after block otherwise. A child is its number and the type bits of
  its mode; a hit is the handle of its block and the offset of its record.
\<close>

section \<open>The iterator\<close>

record ext4_dir_iter =
  it_curr_blk :: ext4_block
  it_curr_off :: u64
  it_curr :: "nat option"

type_synonym 'd dstate = "'d istate \<times> ext4_dir_iter"

definition on_di :: "('d istate \<Rightarrow> 'a res \<times> 'd istate) \<Rightarrow> 'd dstate \<Rightarrow> 'a res \<times> 'd dstate" where
  "on_di m s = (case m (fst s) of (r, t) \<Rightarrow> (r, t, snd s))"

definition it_upd :: "(ext4_dir_iter \<Rightarrow> ext4_dir_iter) \<Rightarrow> 'd dstate \<Rightarrow> 'd dstate" where
  "it_upd f s = (fst s, f (snd s))"

text \<open>What a record must satisfy at an offset of a block.\<close>

definition dir_entry_check :: "ext4_sblock \<Rightarrow> u32 \<Rightarrow> u32 \<Rightarrow> u8 list \<Rightarrow> unit res" where
  "dir_entry_check sb block_size off d =
     (if off mod 4 \<noteq> 0 then Inl EIO
      else if off > block_size - 8 then Inl EIO
      else rbind (ext4_dir_en_get_entry_len d (unat off)) (\<lambda>l.
           if off + ucast l > block_size then Inl EIO
           else rbind (ext4_dir_en_get_name_len sb d (unat off)) (\<lambda>n.
                if int (unat n) > int (unat l) - 8 then Inl EIO else Inr ())))"

definition ext4_dir_iterator_set :: "u32 \<Rightarrow> 'd dstate \<Rightarrow> unit res \<times> 'd dstate" where
  "ext4_dir_iterator_set block_size s =
     (let off = ucast (it_curr_off (snd s) mod ucast block_size) :: u32;
          s = it_upd (\<lambda>it. it\<lparr> it_curr := None \<rparr>) s
      in sbind (on_di (blk_read (it_curr_blk (snd s)) (dir_entry_check (fs_sb (fst (fst s))) block_size off)) s) (\<lambda>_ s.
         (Inr (), it_upd (\<lambda>it. it\<lparr> it_curr := Some (unat off) \<rparr>) s)))"

definition it_release :: "'d ext4_blockdev_iface \<Rightarrow> 'd dstate \<Rightarrow> unit res \<times> 'd dstate" where
  "it_release io s =
     (if b_lb_id (it_curr_blk (snd s)) = 0 then (Inr (), s)
      else case on_di (on_fs (fs_block_set io (it_curr_blk (snd s)))) s of
             (r, s) \<Rightarrow> (r, it_upd (\<lambda>it. it\<lparr> it_curr_blk := (it_curr_blk it)\<lparr> b_lb_id := 0 \<rparr> \<rparr>) s))"

definition ext4_dir_iterator_seek :: "'d ext4_blockdev_iface \<Rightarrow> u64 \<Rightarrow> 'd dstate \<Rightarrow> unit res \<times> 'd dstate" where
  "ext4_dir_iterator_seek io pos s =
     sbind (on_di (sread is_inode) s) (\<lambda>i s.
     let sb = fs_sb (fst (fst s)); size = ext4_inode_get_size sb i; s = it_upd (\<lambda>it. it\<lparr> it_curr := None \<rparr>) s
     in if pos \<ge> size then sbind (it_release io s) (\<lambda>_ s. (Inr (), it_upd (\<lambda>it. it\<lparr> it_curr_off := pos \<rparr>) s))
        else
          let block_size = ext4_sb_get_block_size sb;
              current_blk_idx = it_curr_off (snd s) div ucast block_size;
              next_blk_idx = ucast (pos div ucast block_size) :: u32
          in sbind (if b_lb_id (it_curr_blk (snd s)) = 0 \<or> current_blk_idx \<noteq> ucast next_blk_idx
                    then sbind (it_release io s) (\<lambda>_ s.
                         sbind (on_di (ext4_fs_get_inode_dblk_idx io next_blk_idx False) s) (\<lambda>a s.
                         sbind (on_di (on_fs (fs_block_get io a)) s) (\<lambda>b s.
                         (Inr (), it_upd (\<lambda>it. it\<lparr> it_curr_blk := b \<rparr>) s))))
                    else (Inr (), s)) (\<lambda>_ s.
             ext4_dir_iterator_set block_size (it_upd (\<lambda>it. it\<lparr> it_curr_off := pos \<rparr>) s)))"

definition ext4_dir_iterator_init ::
    "'d ext4_blockdev_iface \<Rightarrow> u64 \<Rightarrow> 'd istate \<Rightarrow> unit res \<times> 'd dstate" where
  "ext4_dir_iterator_init io pos s =
     ext4_dir_iterator_seek io pos
       (s, \<lparr> it_curr_blk = \<lparr> b_lb_id = 0, b_buf = None \<rparr>, it_curr_off = 0, it_curr = None \<rparr>)"

text \<open>Unused records are skipped; every record is at least 8 bytes long.\<close>

fun dir_next_loop :: "nat \<Rightarrow> 'd ext4_blockdev_iface \<Rightarrow> 'd dstate \<Rightarrow> unit res \<times> 'd dstate" where
  "dir_next_loop 0 io s = (Inl EHANG, s)"
| "dir_next_loop (Suc fuel) io s =
     (case it_curr (snd s) of
        None \<Rightarrow> (Inl UNDEF, s)
      | Some p \<Rightarrow>
          sbind (on_di (blk_read (it_curr_blk (snd s)) (\<lambda>d. ext4_dir_en_get_entry_len d p)) s) (\<lambda>skip s.
          sbind (ext4_dir_iterator_seek io (it_curr_off (snd s) + ucast skip) s) (\<lambda>_ s.
          case it_curr (snd s) of
            None \<Rightarrow> (Inr (), s)
          | Some p \<Rightarrow>
              sbind (on_di (blk_read (it_curr_blk (snd s)) (\<lambda>d. ext4_dir_en_get_inode d p)) s) (\<lambda>inode s.
              if inode \<noteq> 0 then (Inr (), s) else dir_next_loop fuel io s))))"

definition DIR_NEXT_FUEL :: nat where "DIR_NEXT_FUEL = 2 ^ 61"

definition ext4_dir_iterator_next :: "'d ext4_blockdev_iface \<Rightarrow> 'd dstate \<Rightarrow> unit res \<times> 'd dstate" where
  "ext4_dir_iterator_next io s = dir_next_loop DIR_NEXT_FUEL io s"

definition ext4_dir_iterator_fini :: "'d ext4_blockdev_iface \<Rightarrow> 'd dstate \<Rightarrow> unit res \<times> 'd dstate" where
  "ext4_dir_iterator_fini io s =
     (let s = it_upd (\<lambda>it. it\<lparr> it_curr := None \<rparr>) s
      in if b_lb_id (it_curr_blk (snd s)) \<noteq> 0 then on_di (on_fs (fs_block_set io (it_curr_blk (snd s)))) s else (Inr (), s))"

section \<open>Adding a name\<close>

definition dir_total_blocks :: "ext4_sblock \<Rightarrow> ext4_inode \<Rightarrow> u32" where
  "dir_total_blocks sb i = ucast (ext4_inode_get_size sb i div ucast (ext4_sb_get_block_size sb))"

text \<open>A damaged index is given up: the directory loses its flag.\<close>

definition dir_drop_index :: "'d istate \<Rightarrow> unit res \<times> 'd istate" where
  "dir_drop_index s = sbind (inode_edit (\<lambda>i. Inr (ext4_inode_clear_flag i EXT4_INODE_FLAG_INDEX)) s) (\<lambda>_ s. inode_mark s)"

fun dir_add_linear ::
    "nat \<Rightarrow> 'd ext4_blockdev_iface \<Rightarrow> u32 \<Rightarrow> u32 \<Rightarrow> u32 \<Rightarrow> u8 list \<Rightarrow> 'd istate \<Rightarrow> bool res \<times> 'd istate" where
  "dir_add_linear 0 io iblock child ctype name s = (Inr False, s)"
| "dir_add_linear (Suc n) io iblock child ctype name s =
     sbind (ext4_fs_get_inode_dblk_idx io iblock False s) (\<lambda>fblock s.
     sbind (on_fs (fs_block_get io fblock) s) (\<lambda>b s.
     sbind (leaf_peek b s) (\<lambda>_ s.
     case ext4_dir_try_insert_entry b child ctype name s of
       (r, s) \<Rightarrow>
         if (case r of Inl e \<Rightarrow> fatal e | Inr _ \<Rightarrow> False) then (Inl (case r of Inl e \<Rightarrow> e | Inr _ \<Rightarrow> UNDEF), s)
         else sbind (on_fs (fs_block_set io b) s) (\<lambda>_ s.
              case r of Inr _ \<Rightarrow> (Inr True, s) | Inl _ \<Rightarrow> dir_add_linear n io (iblock + 1) child ctype name s))))"

definition dir_fresh_block :: "ext4_sblock \<Rightarrow> u32 \<Rightarrow> ext4_inode \<Rightarrow> u32 \<Rightarrow> u32 \<Rightarrow> u8 list \<Rightarrow> u8 list \<Rightarrow> u8 list res" where
  "dir_fresh_block sb index i child ctype name d =
     (let block_size = ext4_sb_get_block_size sb
      in rbind (wr_range d 0 (replicate (unat block_size) 0)) (\<lambda>d.
         rbind (if ext4_sb_feature_ro_com sb EXT4_FRO_COM_METADATA_CSUM then
                  rbind (ext4_dir_write_entry sb d 0 (ucast block_size - 12) child ctype name) (\<lambda>d.
                  wr_range d (unat block_size - EXT4_DIRENT_TAIL_SIZE) ext4_dir_init_entry_tail)
                else ext4_dir_write_entry sb d 0 (ucast block_size) child ctype name) (\<lambda>d.
         ext4_dir_set_csum sb index i d)))"

definition dir_add_block ::
    "'d ext4_blockdev_iface \<Rightarrow> u32 \<Rightarrow> u32 \<Rightarrow> u8 list \<Rightarrow> 'd istate \<Rightarrow> unit res \<times> 'd istate" where
  "dir_add_block io child ctype name s =
     sbind (ext4_fs_append_inode_dblk io s) (\<lambda>(fblock, _) s.
     sbind (on_fs (fs_block_get_noread io fblock) s) (\<lambda>b s.
     sbind (sread is_inode s) (\<lambda>i s.
     sbind (blk_upd b (dir_fresh_block (fs_sb (fst s)) (ir_index (snd s)) i child ctype name) s) (\<lambda>_ s.
     sbind (on_fs (fs_set_dirty b) s) (\<lambda>_ s.
     on_fs (fs_block_set io b) s)))))"

definition dir_add_plain ::
    "'d ext4_blockdev_iface \<Rightarrow> u32 \<Rightarrow> u32 \<Rightarrow> u8 list \<Rightarrow> 'd istate \<Rightarrow> unit res \<times> 'd istate" where
  "dir_add_plain io child ctype name s =
     sbind (sread is_inode s) (\<lambda>i s.
     sbind (dir_add_linear (unat (dir_total_blocks (fs_sb (fst s)) i)) io 0 child ctype name s) (\<lambda>added s.
     if added then (Inr (), s) else dir_add_block io child ctype name s))"

definition ext4_dir_add_entry ::
    "'d ext4_blockdev_iface \<Rightarrow> u8 list \<Rightarrow> u32 \<Rightarrow> u32 \<Rightarrow> 'd istate \<Rightarrow> unit res \<times> 'd istate" where
  "ext4_dir_add_entry io name child ctype s =
     sbind (sread is_inode s) (\<lambda>i s.
     if link_is_dx (fs_sb (fst s)) i then
       case ext4_dir_dx_add_entry io child ctype name s of
         (r, s) \<Rightarrow>
           if r \<noteq> Inl EXT4_ERR_BAD_DX_DIR then (r, s)
           else sbind (dir_drop_index s) (\<lambda>_ s. dir_add_plain io child ctype name s)
     else dir_add_plain io child ctype name s)"

section \<open>Finding and removing a name\<close>

fun dir_find_linear ::
    "nat \<Rightarrow> 'd ext4_blockdev_iface \<Rightarrow> u32 \<Rightarrow> u8 list \<Rightarrow> 'd istate \<Rightarrow> (ext4_block \<times> nat) res \<times> 'd istate" where
  "dir_find_linear 0 io iblock name s = (Inl ENOENT, s)"
| "dir_find_linear (Suc n) io iblock name s =
     sbind (ext4_fs_get_inode_dblk_idx io iblock False s) (\<lambda>fblock s.
     sbind (on_fs (fs_block_get io fblock) s) (\<lambda>b s.
     sbind (leaf_peek b s) (\<lambda>_ s.
     case blk_read b (\<lambda>d. ext4_dir_find_in_block d (fs_sb (fst s)) name) s of
       (Inr p, s) \<Rightarrow> (Inr (b, p), s)
     | (Inl e, s) \<Rightarrow>
         if fatal e then (Inl e, s)
         else sbind (on_fs (fs_block_set io b) s) (\<lambda>_ s. dir_find_linear n io (iblock + 1) name s))))"

definition dir_find_plain ::
    "'d ext4_blockdev_iface \<Rightarrow> u8 list \<Rightarrow> 'd istate \<Rightarrow> (ext4_block \<times> nat) res \<times> 'd istate" where
  "dir_find_plain io name s =
     sbind (sread is_inode s) (\<lambda>i s. dir_find_linear (unat (dir_total_blocks (fs_sb (fst s)) i)) io 0 name s)"

definition ext4_dir_find_entry ::
    "'d ext4_blockdev_iface \<Rightarrow> u8 list \<Rightarrow> 'd istate \<Rightarrow> (ext4_block \<times> nat) res \<times> 'd istate" where
  "ext4_dir_find_entry io name s =
     sbind (sread is_inode s) (\<lambda>i s.
     if link_is_dx (fs_sb (fst s)) i then
       case ext4_dir_dx_find_entry io name s of
         (r, s) \<Rightarrow>
           if r \<noteq> Inl EXT4_ERR_BAD_DX_DIR then (r, s)
           else sbind (dir_drop_index s) (\<lambda>_ s. dir_find_plain io name s)
     else dir_find_plain io name s)"

definition ext4_dir_destroy_result :: "'d ext4_blockdev_iface \<Rightarrow> ext4_block \<Rightarrow> 'd istate \<Rightarrow> unit res \<times> 'd istate" where
  "ext4_dir_destroy_result io b s = (if b_lb_id b \<noteq> 0 then on_fs (fs_block_set io b) s else (Inr (), s))"

definition ext4_dir_remove_entry :: "'d ext4_blockdev_iface \<Rightarrow> u8 list \<Rightarrow> 'd istate \<Rightarrow> unit res \<times> 'd istate" where
  "ext4_dir_remove_entry io name s =
     sbind (sread is_inode s) (\<lambda>i s.
     if \<not> ext4_inode_is_type (fs_sb (fst s)) i EXT4_INODE_MODE_DIRECTORY then (Inl ENOTDIR, s)
     else sbind (ext4_dir_find_entry io name s) (\<lambda>(b, pos) s.
          sbind (sread is_inode s) (\<lambda>i s.
          sbind (blk_upd b (\<lambda>d. dir_remove_in_block (fs_sb (fst s)) (ir_index (snd s)) i d pos) s) (\<lambda>_ s.
          sbind (on_fs (fs_set_dirty b) s) (\<lambda>_ s.
          ext4_dir_destroy_result io b s)))))"

end
