(* ===== verification/FileData.thy ===== *)
theory FileData
  imports FsMap
begin

text \<open>
  Files, the data part of \<^verbatim>\<open>src/ext4.c\<close>: reading, writing, truncating and positioning an open file. An operation takes the file
  system and the descriptor and returns both. The buffer of the caller is a byte list, of which \<open>x_off\<close> is the place
  of the moving pointer; what a transfer that failed left of itself in the buffer is not modelled, only what was delivered before.
  The mutex of the mount point is one the caller provides and does nothing here; transactions without an open journal do nothing.
\<close>

section \<open>Descriptors\<close>

definition O_RDONLY :: u32 where "O_RDONLY = 0"
definition O_WRONLY :: u32 where "O_WRONLY = 1"
definition SEEK_SET :: u32 where "SEEK_SET = 0"
definition SEEK_CUR :: u32 where "SEEK_CUR = 1"
definition SEEK_END :: u32 where "SEEK_END = 2"

definition CONFIG_MAX_TRUNCATE_SIZE :: u64 where "CONFIG_MAX_TRUNCATE_SIZE = 16 * 1024 * 1024"

record ext4_file =
  f_inode :: u32
  f_flags :: u32
  f_fsize :: u64
  f_fpos :: u64

definition ext4_ftell :: "ext4_file \<Rightarrow> u64" where "ext4_ftell f = f_fpos f"
definition ext4_fsize :: "ext4_file \<Rightarrow> u64" where "ext4_fsize f = f_fsize f"

text \<open>The new offset is signed; an unknown origin goes to the start.\<close>

definition ext4_fseek :: "ext4_file \<Rightarrow> u64 \<Rightarrow> u32 \<Rightarrow> unit res \<times> ext4_file" where
  "ext4_fseek f offset origin =
     (let new_offset = (if origin = SEEK_SET then offset else if origin = SEEK_CUR then f_fpos f + offset
                        else if origin = SEEK_END then f_fsize f + offset else 0)
      in if sint new_offset < 0 then (Inl EINVAL, f) else (Inr (), f\<lparr> f_fpos := new_offset \<rparr>))"

section \<open>A transfer\<close>

record xfer =
  x_buf :: "u8 list"
  x_off :: nat
  x_size :: u64
  x_pos :: u64
  x_cnt :: u64

type_synonym 'd xstate = "'d istate \<times> xfer"

definition on_xi :: "('d istate \<Rightarrow> 'a res \<times> 'd istate) \<Rightarrow> 'd xstate \<Rightarrow> 'a res \<times> 'd xstate" where
  "on_xi m s = (case m (fst s) of (r, t) \<Rightarrow> (r, t, snd s))"

definition x_step :: "u64 \<Rightarrow> 'd xstate \<Rightarrow> unit res \<times> 'd xstate" where
  "x_step n s =
     (let x = snd s
      in (Inr (), fst s, x\<lparr> x_off := x_off x + unat n, x_size := x_size x - n, x_pos := x_pos x + n, x_cnt := x_cnt x + n \<rparr>))"

text \<open>Bytes put into the buffer at the pointer.\<close>

definition x_put :: "u8 list \<Rightarrow> 'd xstate \<Rightarrow> unit res \<times> 'd xstate" where
  "x_put bs s = (case wr_range (x_buf (snd s)) (x_off (snd s)) bs of
     Inl e \<Rightarrow> (Inl e, s) | Inr d \<Rightarrow> (Inr (), fst s, (snd s)\<lparr> x_buf := d \<rparr>))"

definition x_readbytes :: "'d ext4_blockdev_iface \<Rightarrow> u64 \<Rightarrow> u64 \<Rightarrow> 'd xstate \<Rightarrow> unit res \<times> 'd xstate" where
  "x_readbytes io off len s =
     sbind (on_xi (on_fs (fs_dev (ext4_block_readbytes io off (drop (x_off (snd s)) (x_buf (snd s))) (ucast len)))) s) (\<lambda>bs s.
     x_put bs s)"

definition x_writebytes :: "'d ext4_blockdev_iface \<Rightarrow> u64 \<Rightarrow> u64 \<Rightarrow> 'd xstate \<Rightarrow> unit res \<times> 'd xstate" where
  "x_writebytes io off len s =
     on_xi (on_fs (fs_dev (ext4_block_writebytes io off (drop (x_off (snd s)) (x_buf (snd s))) (ucast len)))) s"

definition x_get_direct :: "'d ext4_blockdev_iface \<Rightarrow> u64 \<Rightarrow> u32 \<Rightarrow> 'd xstate \<Rightarrow> unit res \<times> 'd xstate" where
  "x_get_direct io lba cnt s =
     (case ext4_blocks_get_direct io (drop (x_off (snd s)) (x_buf (snd s))) lba cnt (fs_bdev (fst (fst s))) of
        (r, bs, bd) \<Rightarrow> sbind (r, ((fst (fst s))\<lparr> fs_bdev := bd \<rparr>, snd (fst s)), snd s) (\<lambda>_ s. x_put bs s))"

definition x_set_direct :: "'d ext4_blockdev_iface \<Rightarrow> u64 \<Rightarrow> u32 \<Rightarrow> 'd xstate \<Rightarrow> unit res \<times> 'd xstate" where
  "x_set_direct io lba cnt s =
     on_xi (on_fs (fs_dev (ext4_blocks_set_direct io (drop (x_off (snd s)) (x_buf (snd s))) lba cnt))) s"

section \<open>Reading\<close>

text \<open>
  The next file block to look up, the run of volume blocks found so far (its start and its length), and the
  block looked up last, which is not set before the first lookup.
\<close>

record run =
  r_iblk :: u32
  r_start :: u64
  r_cnt :: u32
  r_fblk :: "u64 option"

text \<open>The run grows while the blocks follow one another; \<open>n\<close> file blocks are left.\<close>

fun fread_run :: "nat \<Rightarrow> 'd ext4_blockdev_iface \<Rightarrow> run \<Rightarrow> 'd istate \<Rightarrow> run res \<times> 'd istate" where
  "fread_run 0 io w s = (Inr w, s)"
| "fread_run (Suc n) io w s =
     sbind (ext4_fs_get_inode_dblk_idx io (r_iblk w) True s) (\<lambda>fblock s.
     let start = (if r_start w = 0 then fblock else r_start w);
         w' = w\<lparr> r_iblk := r_iblk w + 1, r_start := start, r_fblk := Some fblock \<rparr>
     in if start + ucast (r_cnt w) \<noteq> fblock then (Inr w', s)
        else fread_run n io (w'\<lparr> r_cnt := r_cnt w + 1 \<rparr>) s)"

text \<open>
  Whole blocks. The bytes of a run are counted in 32 bits; the block that ended a run begins the next.
\<close>

fun fread_loop :: "nat \<Rightarrow> 'd ext4_blockdev_iface \<Rightarrow> u32 \<Rightarrow> u32 \<Rightarrow> run \<Rightarrow> 'd xstate \<Rightarrow> run res \<times> 'd xstate" where
  "fread_loop fuel io block_size iblock_last w s =
     (if \<not> x_size (snd s) \<ge> ucast block_size then (Inr w, s)
      else case fuel of
        0 \<Rightarrow> (Inl EHANG, s)
      | Suc fuel \<Rightarrow>
          sbind (on_xi (fread_run (unat iblock_last - unat (r_iblk w)) io w) s) (\<lambda>w s.
          let bytes = block_size * r_cnt w
          in sbind (if r_start w = 0 then x_put (replicate (unat bytes) 0) s else x_get_direct io (r_start w) (r_cnt w) s) (\<lambda>_ s.
             sbind (x_step (ucast bytes) s) (\<lambda>_ s.
             case r_fblk w of
               None \<Rightarrow> (Inl UNDEF, s)
             | Some f \<Rightarrow> fread_loop fuel io block_size iblock_last (w\<lparr> r_start := f, r_cnt := 1 \<rparr>) s))))"

declare fread_loop.simps [simp del]

text \<open>Every turn ends with a block of the request behind it or with a file block looked up.\<close>

definition FILE_FUEL :: nat where "FILE_FUEL = 2 ^ 65"

text \<open>The first block, when the position is inside it. A missing block reads as zeros.\<close>

definition fread_head :: "'d ext4_blockdev_iface \<Rightarrow> u32 \<Rightarrow> u32 \<Rightarrow> u32 \<Rightarrow> 'd xstate \<Rightarrow> run res \<times> 'd xstate" where
  "fread_head io block_size iblock_idx unalg s =
     (if unalg \<noteq> 0 then
        let len = (if x_size (snd s) > ucast (block_size - unalg) then ucast (block_size - unalg) else x_size (snd s))
        in sbind (on_xi (ext4_fs_get_inode_dblk_idx io iblock_idx True) s) (\<lambda>fblock s.
           sbind (if fblock \<noteq> 0 then x_readbytes io (fblock * ucast block_size + ucast unalg) len s
                  else x_put (replicate (unat len) 0) s) (\<lambda>_ s.
           sbind (x_step len s) (\<lambda>_ s.
           (Inr \<lparr> r_iblk = iblock_idx + 1, r_start = 0, r_cnt = 0, r_fblk = Some fblock \<rparr>, s))))
      else (Inr \<lparr> r_iblk = iblock_idx, r_start = 0, r_cnt = 0, r_fblk = None \<rparr>, s))"

definition fread_tail :: "'d ext4_blockdev_iface \<Rightarrow> u32 \<Rightarrow> run \<Rightarrow> 'd xstate \<Rightarrow> unit res \<times> 'd xstate" where
  "fread_tail io block_size w s =
     (if x_size (snd s) \<noteq> 0 then
        sbind (on_xi (ext4_fs_get_inode_dblk_idx io (r_iblk w) True) s) (\<lambda>fblock s.
        sbind (x_readbytes io (fblock * ucast block_size) (x_size (snd s)) s) (\<lambda>_ s.
        let n = x_size (snd s)
        in (Inr (), fst s, (snd s)\<lparr> x_pos := x_pos (snd s) + n, x_cnt := x_cnt (snd s) + n \<rparr>)))
      else (Inr (), s))"

definition fread_blocks :: "'d ext4_blockdev_iface \<Rightarrow> u32 \<Rightarrow> 'd xstate \<Rightarrow> unit res \<times> 'd xstate" where
  "fread_blocks io block_size s =
     (let pos = x_pos (snd s);
          iblock_idx = ucast (pos div ucast block_size);
          iblock_last = ucast ((pos + x_size (snd s)) div ucast block_size);
          unalg = ucast (pos mod ucast block_size)
      in sbind (fread_head io block_size iblock_idx unalg s) (\<lambda>w s.
         sbind (fread_loop FILE_FUEL io block_size iblock_last w s) (\<lambda>w s.
         fread_tail io block_size w s)))"

text \<open>A short link is in the inode itself.\<close>

definition short_link :: "ext4_sblock \<Rightarrow> ext4_inode \<Rightarrow> u64 \<Rightarrow> bool" where
  "short_link sb i fsize \<longleftrightarrow>
     ext4_inode_is_type sb i EXT4_INODE_MODE_SOFTLINK \<and> fsize < 60 \<and> ext4_inode_get_blocks_count sb i = 0"

definition fread_link :: "u32 \<Rightarrow> u64 \<Rightarrow> ext4_inode \<Rightarrow> 'd xstate \<Rightarrow> unit res \<times> 'd xstate" where
  "fread_link block_size fsize i s =
     (let unalg = ucast (x_pos (snd s) mod ucast block_size) :: u32; n = x_size (snd s)
      in if x_pos (snd s) < fsize then
           let len = (if ucast unalg + n > ucast (ucast fsize :: u32) then ucast ((ucast fsize :: u32) - unalg) else n)
           in sbind (sread (\<lambda>_. rd_range (enc32s (in_blocks i)) (unat unalg) (unat len)) s) (\<lambda>bs s.
              sbind (x_put bs s) (\<lambda>_ s. (Inr (), fst s, (snd s)\<lparr> x_cnt := len \<rparr>)))
         else (Inr (), s))"

definition fread_body :: "'d ext4_blockdev_iface \<Rightarrow> 'd xstate \<Rightarrow> unit res \<times> 'd xstate" where
  "fread_body io s =
     sbind (on_xi (sread is_inode) s) (\<lambda>i s.
     let sb = fs_sb (fst (fst s)); fsize = ext4_inode_get_size sb i; block_size = ext4_sb_get_block_size sb; x = snd s;
         s = (fst s, x\<lparr> x_size := (if x_size x > fsize - x_pos x then fsize - x_pos x else x_size x) \<rparr>)
     in if short_link sb i fsize then fread_link block_size fsize i s else fread_blocks io block_size s)"

text \<open>
  The result, the buffer and the count, which is not set by an early return. The code of giving the inode
  back is not looked at.
\<close>

definition ext4_fread ::
    "'d ext4_blockdev_iface \<Rightarrow> u8 list \<Rightarrow> u64 \<Rightarrow> ext4_file \<Rightarrow> 'd ext4_fs \<Rightarrow>
     (unit res \<times> u8 list \<times> u64 option) \<times> ext4_file \<times> 'd ext4_fs" where
  "ext4_fread io buf n f fs =
     (if f_flags f AND O_WRONLY \<noteq> 0 then ((Inl EPERM, buf, None), f, fs)
      else if n = 0 then ((Inr (), buf, None), f, fs)
      else case ext4_fs_get_inode_ref io (f_inode f) fs of
        (Inl e, fs) \<Rightarrow> ((Inl e, buf, Some 0), f, fs)
      | (Inr ref, fs) \<Rightarrow>
          (case ir_load ref fs of
             Inl e \<Rightarrow> ((Inl e, buf, Some 0), f, fs)
           | Inr i \<Rightarrow>
               let f = f\<lparr> f_fsize := ext4_inode_get_size (fs_sb fs) i \<rparr>
               in case fread_body io ((fs, ref), \<lparr> x_buf = buf, x_off = 0, x_size = n, x_pos = f_fpos f, x_cnt = 0 \<rparr>) of
                    (r, (fs, ref), x) \<Rightarrow>
                      let f = f\<lparr> f_fpos := x_pos x \<rparr>
                      in if (case r of Inl e \<Rightarrow> fatal e | Inr _ \<Rightarrow> False) then ((r, x_buf x, Some (x_cnt x)), f, fs)
                         else case sforget (ext4_fs_put_inode_ref io ref fs) of
                           (Inl e, fs) \<Rightarrow> ((Inl e, x_buf x, Some (x_cnt x)), f, fs)
                         | (Inr _, fs) \<Rightarrow> ((r, x_buf x, Some (x_cnt x)), f, fs)))"

section \<open>Writing\<close>

definition x_write_back :: "'d ext4_blockdev_iface \<Rightarrow> u8 \<Rightarrow> 'd xstate \<Rightarrow> unit res \<times> 'd xstate" where
  "x_write_back io on_off s = on_xi (on_fs (fs_dev (ext4_block_cache_write_back io on_off))) s"

definition inode_set_size_dirty :: "u64 \<Rightarrow> 'd istate \<Rightarrow> unit res \<times> 'd istate" where
  "inode_set_size_dirty n s = sbind (inode_edit (\<lambda>i. Inr (ext4_inode_set_size i n)) s) (\<lambda>_ s. inode_mark s)"

definition fwrite_head :: "'d ext4_blockdev_iface \<Rightarrow> u32 \<Rightarrow> u32 \<Rightarrow> u32 \<Rightarrow> 'd xstate \<Rightarrow> run res \<times> 'd xstate" where
  "fwrite_head io block_size iblk_idx unalg s =
     (if unalg \<noteq> 0 then
        let len = (if x_size (snd s) > ucast (block_size - unalg) then ucast (block_size - unalg) else x_size (snd s))
        in sbind (on_xi (ext4_fs_init_inode_dblk_idx io iblk_idx) s) (\<lambda>fblk s.
           sbind (x_writebytes io (fblk * ucast block_size + ucast unalg) len s) (\<lambda>_ s.
           sbind (x_step len s) (\<lambda>_ s.
           (Inr \<lparr> r_iblk = iblk_idx + 1, r_start = 0, r_cnt = 0, r_fblk = Some fblk \<rparr>, s))))
      else (Inr \<lparr> r_iblk = iblk_idx, r_start = 0, r_cnt = 0, r_fblk = None \<rparr>, s))"

text \<open>The block of a file block: an old one, or one appended to the file.\<close>

definition fwrite_block ::
    "'d ext4_blockdev_iface \<Rightarrow> u32 \<Rightarrow> u32 \<Rightarrow> 'd istate \<Rightarrow> (u64 \<times> u32) res \<times> 'd istate" where
  "fwrite_block io ifile_blocks iblk s =
     (if iblk < ifile_blocks then sbind (ext4_fs_init_inode_dblk_idx io iblk s) (\<lambda>f s. (Inr (f, iblk), s))
      else ext4_fs_append_inode_dblk io s)"

text \<open>The code of an append that failed ends the run; that of a lookup ends the transfer.\<close>

fun fwrite_run ::
    "nat \<Rightarrow> 'd ext4_blockdev_iface \<Rightarrow> u32 \<Rightarrow> u32 \<Rightarrow> run \<Rightarrow> 'd istate \<Rightarrow> (unit res \<times> run) res \<times> 'd istate" where
  "fwrite_run 0 io iblock_last ifile_blocks w s = (if r_iblk w < iblock_last then (Inl EHANG, s) else (Inr (Inr (), w), s))"
| "fwrite_run (Suc fuel) io iblock_last ifile_blocks w s =
     (if \<not> r_iblk w < iblock_last then (Inr (Inr (), w), s)
      else case fwrite_block io ifile_blocks (r_iblk w) s of
        (Inl e, s) \<Rightarrow> if fatal e \<or> r_iblk w < ifile_blocks then (Inl e, s) else (Inr (Inl e, w), s)
      | (Inr (fblk, iblk), s) \<Rightarrow>
          let start = (if r_start w = 0 then fblk else r_start w);
              w' = w\<lparr> r_iblk := iblk + 1, r_start := start, r_fblk := Some fblk \<rparr>
          in if start + ucast (r_cnt w) \<noteq> fblk then (Inr (Inr (), w'), s)
             else fwrite_run fuel io iblock_last ifile_blocks (w'\<lparr> r_cnt := r_cnt w + 1 \<rparr>) s)"

text \<open>
  How the loop over whole blocks ends: behind the last whole block, with a device error, or because no block
  could be appended.
\<close>

datatype wend = WDone run | WFail | WFull

fun fwrite_loop ::
    "nat \<Rightarrow> 'd ext4_blockdev_iface \<Rightarrow> u32 \<Rightarrow> u32 \<Rightarrow> u32 \<Rightarrow> run \<Rightarrow> 'd xstate \<Rightarrow> wend res \<times> 'd xstate" where
  "fwrite_loop fuel io block_size iblock_last ifile_blocks w s =
     (if \<not> x_size (snd s) \<ge> ucast block_size then (Inr (WDone w), s)
      else case fuel of
        0 \<Rightarrow> (Inl EHANG, s)
      | Suc fuel \<Rightarrow>
          sbind (on_xi (fwrite_run (2 ^ 33) io iblock_last ifile_blocks w) s) (\<lambda>(rr, w) s.
          let bytes = block_size * r_cnt w
          in case x_set_direct io (r_start w) (r_cnt w) s of
               (Inl e, s) \<Rightarrow> if fatal e then (Inl e, s) else (Inr WFail, s)
             | (Inr _, s) \<Rightarrow>
                 sbind (x_step (ucast bytes) s) (\<lambda>_ s.
                 case rr of
                   Inl _ \<Rightarrow> (Inr WFull, s)
                 | Inr _ \<Rightarrow>
                     (case r_fblk w of
                        None \<Rightarrow> (Inl UNDEF, s)
                      | Some f \<Rightarrow> fwrite_loop fuel io block_size iblock_last ifile_blocks (w\<lparr> r_start := f, r_cnt := 1 \<rparr>) s))))"

declare fwrite_loop.simps [simp del]

text \<open>The rest of a block. An append that fails is forgotten, for the size is still to be looked at.\<close>

definition fwrite_tail :: "'d ext4_blockdev_iface \<Rightarrow> u32 \<Rightarrow> u32 \<Rightarrow> run \<Rightarrow> 'd xstate \<Rightarrow> unit res \<times> 'd xstate" where
  "fwrite_tail io block_size ifile_blocks w s =
     (if x_size (snd s) \<noteq> 0 then
        case on_xi (fwrite_block io ifile_blocks (r_iblk w)) s of
          (Inl e, s) \<Rightarrow> if fatal e \<or> r_iblk w < ifile_blocks then (Inl e, s) else (Inr (), s)
        | (Inr (fblk, _), s) \<Rightarrow>
            sbind (x_writebytes io (fblk * ucast block_size) (x_size (snd s)) s) (\<lambda>_ s.
            let n = x_size (snd s)
            in (Inr (), fst s, (snd s)\<lparr> x_pos := x_pos (snd s) + n, x_cnt := x_cnt (snd s) + n \<rparr>))
      else (Inr (), s))"

definition fwrite_blocks :: "'d ext4_blockdev_iface \<Rightarrow> u32 \<Rightarrow> u64 \<Rightarrow> 'd xstate \<Rightarrow> unit res \<times> 'd xstate" where
  "fwrite_blocks io block_size fsize s =
     (let pos = x_pos (snd s);
          iblock_last = ucast ((pos + x_size (snd s)) div ucast block_size);
          iblk_idx = ucast (pos div ucast block_size);
          ifile_blocks = ucast ((fsize + ucast block_size - 1) div ucast block_size);
          unalg = ucast (pos mod ucast block_size)
      in sbind (fwrite_head io block_size iblk_idx unalg s) (\<lambda>w s.
         sbind (x_write_back io 1 s) (\<lambda>_ s.
         sbind (fwrite_loop FILE_FUEL io block_size iblock_last ifile_blocks w s) (\<lambda>q s.
         case q of
           WFull \<Rightarrow> (Inr (), s)
         | WFail \<Rightarrow> sbind (sforget (x_write_back io 0 s)) (\<lambda>_ s. (Inl EIO, s))
         | WDone w \<Rightarrow> sbind (sforget (x_write_back io 0 s)) (\<lambda>_ s. fwrite_tail io block_size ifile_blocks w s)))))"

text \<open>
  The result is the code of giving the inode back, whatever became of the data. The size of the
  descriptor is returned in front.
\<close>

definition fwrite_body :: "'d ext4_blockdev_iface \<Rightarrow> 'd xstate \<Rightarrow> (u64 \<times> unit res) \<times> 'd xstate" where
  "fwrite_body io s =
     (case on_xi (sread is_inode) s of
        (Inl e, s) \<Rightarrow> ((0, Inl e), s)
      | (Inr i, s) \<Rightarrow>
          let fsize = ext4_inode_get_size (fs_sb (fst (fst s))) i; pos = x_pos (snd s)
          in case (if pos > fsize then on_xi (inode_set_size_dirty pos) s else (Inr (), s)) of
               (Inl e, s) \<Rightarrow> ((fsize, Inl e), s)
             | (Inr _, s) \<Rightarrow>
                 let fsize = (if pos > fsize then pos else fsize)
                 in case fwrite_blocks io (ext4_sb_get_block_size (fs_sb (fst (fst s)))) fsize s of
                      (Inl e, s) \<Rightarrow> ((fsize, Inl e), s)
                    | (Inr _, s) \<Rightarrow>
                        if x_pos (snd s) > fsize
                        then case on_xi (inode_set_size_dirty (x_pos (snd s))) s of (r, s) \<Rightarrow> ((x_pos (snd s), r), s)
                        else ((fsize, Inr ()), s))"

definition ext4_fwrite ::
    "'d ext4_blockdev_iface \<Rightarrow> u8 list \<Rightarrow> u64 \<Rightarrow> ext4_file \<Rightarrow> 'd ext4_fs \<Rightarrow>
     (unit res \<times> u64 option) \<times> ext4_file \<times> 'd ext4_fs" where
  "ext4_fwrite io buf n f fs =
     (if fs_read_only fs then ((Inl EROFS, None), f, fs)
      else if f_flags f AND O_RDONLY \<noteq> 0 then ((Inl EPERM, None), f, fs)
      else if n = 0 then ((Inr (), None), f, fs)
      else case ext4_fs_get_inode_ref io (f_inode f) fs of
        (Inl e, fs) \<Rightarrow> ((Inl e, Some 0), f, fs)
      | (Inr ref, fs) \<Rightarrow>
          (case fwrite_body io ((fs, ref), \<lparr> x_buf = buf, x_off = 0, x_size = n, x_pos = f_fpos f, x_cnt = 0 \<rparr>) of
             ((fsize, r), (fs, ref), x) \<Rightarrow>
               let f = f\<lparr> f_fsize := fsize, f_fpos := x_pos x \<rparr>
               in if (case r of Inl e \<Rightarrow> fatal e | Inr _ \<Rightarrow> False) then ((r, Some (x_cnt x)), f, fs)
                  else case ext4_fs_put_inode_ref io ref fs of (r, fs) \<Rightarrow> ((r, Some (x_cnt x)), f, fs)))"

section \<open>Truncating\<close>

definition trunc_step :: "'d ext4_blockdev_iface \<Rightarrow> u64 \<Rightarrow> ext4_inode_ref \<Rightarrow> 'd ext4_fs \<Rightarrow> unit res \<times> 'd ext4_fs" where
  "trunc_step io new_size ref fs =
     (case ext4_fs_truncate_inode io new_size (fs, ref) of
        (Inl e, fs, ref) \<Rightarrow> if fatal e then (Inl e, fs) else sbind (sforget (ext4_fs_put_inode_ref io ref fs)) (\<lambda>_ fs. (Inl e, fs))
      | (Inr _, fs, ref) \<Rightarrow> ext4_fs_put_inode_ref io ref fs)"

text \<open>
  Steps of 16 MiB. A step that fails is the way out; an inode that cannot be read ends the loop only, and the last step
  is tried all the same.
\<close>

fun trunc_loop :: "nat \<Rightarrow> 'd ext4_blockdev_iface \<Rightarrow> u32 \<Rightarrow> u64 \<Rightarrow> u64 \<Rightarrow> 'd ext4_fs \<Rightarrow> (unit res \<times> u64) res \<times> 'd ext4_fs" where
  "trunc_loop fuel io index new_size inode_size fs =
     (if \<not> inode_size > new_size + CONFIG_MAX_TRUNCATE_SIZE then (Inr (Inr (), inode_size), fs)
      else case fuel of
        0 \<Rightarrow> (Inl EHANG, fs)
      | Suc fuel \<Rightarrow>
          let inode_size = inode_size - CONFIG_MAX_TRUNCATE_SIZE
          in case ext4_fs_get_inode_ref io index fs of
               (Inl e, fs) \<Rightarrow> if fatal e then (Inl e, fs) else (Inr (Inl e, inode_size), fs)
             | (Inr ref, fs) \<Rightarrow>
                 sbind (trunc_step io inode_size ref fs) (\<lambda>_ fs. trunc_loop fuel io index new_size inode_size fs))"

declare trunc_loop.simps [simp del]

definition ext4_trunc_inode :: "'d ext4_blockdev_iface \<Rightarrow> u32 \<Rightarrow> u64 \<Rightarrow> 'd ext4_fs \<Rightarrow> unit res \<times> 'd ext4_fs" where
  "ext4_trunc_inode io index new_size fs =
     sbind (ext4_fs_get_inode_ref io index fs) (\<lambda>ref fs.
     sbind (sread (ir_load ref) fs) (\<lambda>i fs.
     let inode_size = ext4_inode_get_size (fs_sb fs) i
     in sbind (sforget (ext4_fs_put_inode_ref io ref fs)) (\<lambda>_ fs.
        sbind (trunc_loop FILE_FUEL io index new_size inode_size fs) (\<lambda>(r, inode_size) fs.
        if inode_size > new_size then
          sbind (ext4_fs_get_inode_ref io index fs) (\<lambda>ref fs. trunc_step io new_size ref fs)
        else (r, fs)))))"

definition fs_write_back :: "'d ext4_blockdev_iface \<Rightarrow> u8 \<Rightarrow> 'd ext4_fs \<Rightarrow> unit res \<times> 'd ext4_fs" where
  "fs_write_back io on_off fs = fs_dev (ext4_block_cache_write_back io on_off) fs"

text \<open>The descriptor learns the size of the inode first; write-back mode stays on when a step fails.\<close>

definition ftruncate_body ::
    "'d ext4_blockdev_iface \<Rightarrow> u64 \<Rightarrow> u32 \<Rightarrow> ext4_file \<Rightarrow> 'd ext4_fs \<Rightarrow> (unit res \<times> ext4_file) \<times> 'd ext4_fs" where
  "ftruncate_body io n index f fs =
     (if f_fsize f \<le> n then ((Inr (), f), fs)
      else case sbind (fs_write_back io 1 fs) (\<lambda>_ fs. ext4_trunc_inode io index n fs) of
        (Inl e, fs) \<Rightarrow> ((Inl e, f), fs)
      | (Inr _, fs) \<Rightarrow>
          (case sforget (fs_write_back io 0 fs) of
             (r, fs) \<Rightarrow> ((r, f\<lparr> f_fsize := n, f_fpos := (if f_fpos f > n then n else f_fpos f) \<rparr>), fs)))"

definition ext4_ftruncate_no_lock ::
    "'d ext4_blockdev_iface \<Rightarrow> u64 \<Rightarrow> ext4_file \<Rightarrow> 'd ext4_fs \<Rightarrow> (unit res \<times> ext4_file) \<times> 'd ext4_fs" where
  "ext4_ftruncate_no_lock io n f fs =
     (case sbind (ext4_fs_get_inode_ref io (f_inode f) fs) (\<lambda>ref fs. sbind (sread (ir_load ref) fs) (\<lambda>i fs. (Inr (ref, i), fs))) of
        (Inl e, fs) \<Rightarrow> ((Inl e, f), fs)
      | (Inr (ref, i), fs) \<Rightarrow>
          (case ftruncate_body io n (ir_index ref) (f\<lparr> f_fsize := ext4_inode_get_size (fs_sb fs) i \<rparr>) fs of
             ((r, f), fs) \<Rightarrow>
               if (case r of Inl e \<Rightarrow> fatal e | Inr _ \<Rightarrow> False) then ((r, f), fs)
               else (case sforget (ext4_fs_put_inode_ref io ref fs) of
                       (Inl e, fs) \<Rightarrow> ((Inl e, f), fs) | (Inr _, fs) \<Rightarrow> ((r, f), fs))))"

definition ext4_ftruncate ::
    "'d ext4_blockdev_iface \<Rightarrow> u64 \<Rightarrow> ext4_file \<Rightarrow> 'd ext4_fs \<Rightarrow> (unit res \<times> ext4_file) \<times> 'd ext4_fs" where
  "ext4_ftruncate io n f fs =
     (if fs_read_only fs then ((Inl EROFS, f), fs)
      else if f_flags f AND O_RDONLY \<noteq> 0 then ((Inl EPERM, f), fs)
      else ext4_ftruncate_no_lock io n f fs)"

end
