(* ===== verification/FileSpec.thy ===== *)
theory FileSpec
  imports FileData FsMapSpec
begin

text \<open>
  The bytes of a file on a store of blocks, and what reading a file relies on beyond reading blocks: whole blocks and parts
  of one block can be read past the cache, when the cache holds no newer bytes of them. Then the run of blocks that one
  transfer of \<open>fread_loop\<close> covers.
\<close>

section \<open>The bytes of a file\<close>

text \<open>\<open>M\<close> maps the blocks of the file to those of the volume; 0 is a hole, which reads as zeros.\<close>

definition file_blk :: "(u64 \<Rightarrow> u8 list) \<Rightarrow> nat \<Rightarrow> (nat \<Rightarrow> u64) \<Rightarrow> nat \<Rightarrow> u8 list" where
  "file_blk V bs M b = (if M b = 0 then replicate bs 0 else V (M b))"

definition file_part :: "(u64 \<Rightarrow> u8 list) \<Rightarrow> nat \<Rightarrow> (nat \<Rightarrow> u64) \<Rightarrow> nat \<Rightarrow> nat \<Rightarrow> u8 list" where
  "file_part V bs M p n = map (\<lambda>i. file_blk V bs M (i div bs) ! (i mod bs)) [p..<p + n]"

lemma length_file_part [simp]: "length (file_part V bs M p n) = n"
  by (simp add: file_part_def)

lemma file_part_0 [simp]: "file_part V bs M p 0 = []"
  by (simp add: file_part_def)

lemma file_part_add: "file_part V bs M p (n + m) = file_part V bs M p n @ file_part V bs M (p + n) m"
  unfolding file_part_def add.assoc [symmetric] by (subst upt_add_eq_append) simp_all

lemma file_part_within:
  assumes "o' + n \<le> bs" and "length (file_blk V bs M b) = bs" and "0 < bs"
  shows "file_part V bs M (b * bs + o') n = take n (drop o' (file_blk V bs M b))"
proof (rule nth_equalityI)
  fix i assume "i < length (file_part V bs M (b * bs + o') n)"
  then have i: "i < n" by simp
  then have "o' + i < bs" using assms(1) by simp
  then have "(b * bs + (o' + i)) div bs = b" "(b * bs + (o' + i)) mod bs = o' + i" by simp_all
  then show "file_part V bs M (b * bs + o') n ! i = take n (drop o' (file_blk V bs M b)) ! i"
    using i assms by (simp add: file_part_def add.assoc)
qed (use assms in simp)

lemma file_part_block:
  "length (file_blk V bs M b) = bs \<Longrightarrow> 0 < bs \<Longrightarrow> file_part V bs M (b * bs) bs = file_blk V bs M b"
  using file_part_within [of 0 bs bs V M b] by simp

lemma file_part_blocks:
  assumes "\<And>i. i < k \<Longrightarrow> length (file_blk V bs M (b + i)) = bs" and "0 < bs"
  shows "file_part V bs M (b * bs) (k * bs) = concat (map (\<lambda>i. file_blk V bs M (b + i)) [0..<k])"
  using assms(1)
proof (induction k)
  case (Suc k)
  have "file_part V bs M (b * bs) (Suc k * bs) = file_part V bs M (b * bs) (k * bs) @ file_part V bs M ((b + k) * bs) bs"
    unfolding mult_Suc add.commute [of bs] file_part_add by (simp add: algebra_simps)
  then show ?case using Suc assms(2) file_part_block [of V bs M "b + k"] by simp
qed simp

section \<open>Reading past the cache\<close>

locale data_reader = block_reader io rep
  for io :: "'d ext4_blockdev_iface" and rep :: "'d ext4_blockdev \<Rightarrow> store \<Rightarrow> bool" +
  fixes D :: "u64 set"
  assumes direct_read:
    "\<lbrakk> rep bd s; cnt \<noteq> 0; unat lba + unat cnt \<le> unat (st_cnt s); unat cnt * st_bsize s < 2 ^ 32;
       unat cnt * st_bsize s \<le> length buf; \<And>k. k < unat cnt \<Longrightarrow> lba + of_nat k \<in> D \<and> lba + of_nat k \<notin> st_pend s \<rbrakk> \<Longrightarrow>
     \<exists>bd'. ext4_blocks_get_direct io buf lba cnt bd =
         (Inr (), concat (map (\<lambda>k. st_view s (lba + of_nat k)) [0..<unat cnt]) @ drop (unat cnt * st_bsize s) buf, bd') \<and>
       rep bd' s"
  and bytes_read:
    "\<lbrakk> rep bd s; l < st_cnt s; l \<in> D; l \<notin> st_pend s; n \<noteq> 0; unat off = unat l * st_bsize s + k; k + unat n \<le> st_bsize s;
       unat n \<le> length buf \<rbrakk> \<Longrightarrow>
     \<exists>bd'. ext4_block_readbytes io off buf n bd = (Inr (take (unat n) (drop k (st_view s l)) @ drop (unat n) buf), bd') \<and>
       rep bd' s"
  and store_span: "rep bd s \<Longrightarrow> unat (st_cnt s) * st_bsize s < 2 ^ 63"

text \<open>A device with its cache meets this on the blocks \<open>D\<close> that are not dirty.\<close>

definition clean_abs :: "('d \<Rightarrow> u8 list) \<Rightarrow> u64 set \<Rightarrow> 'd ext4_blockdev \<Rightarrow> store \<Rightarrow> bool" where
  "clean_abs content D bd s \<longleftrightarrow> store_abs content bd s \<and> clean_on D bd"

lemma clean_view:
  assumes a: "clean_abs content D bd s" and l: "l \<in> D" "l \<notin> st_pend s" "l < st_cnt s"
  shows "blk_disk content bd l = st_view s l"
proof -
  have sy: "synced content (st_pend s) bd" using a by (auto simp: clean_abs_def store_abs_def dest: blk_readyD)
  have "st_view s l = blk_view content bd l" using a l by (simp add: clean_abs_def store_abs_def)
  also have "\<dots> = blk_disk content bd l"
    using a l(1,2) sy by (auto simp: blk_view_def clean_abs_def clean_on_def synced_def split: option.split)
  finally show ?thesis by simp
qed

text \<open>Both kinds of read leave the cache alone.\<close>

lemma clean_abs_kept:
  assumes a: "clean_abs content D bd s" and k: "bd_keep bd bd'" and c: "content (bd_dev bd') = content (bd_dev bd)"
  shows "clean_abs content D bd' s"
proof -
  note f = bd_keep_fields [OF k]
  have pos: "blk_pos bd' = blk_pos bd" by (simp add: fun_eq_iff blk_pos_def f)
  have disk: "blk_disk content bd' = blk_disk content bd" by (simp add: fun_eq_iff blk_disk_def c pos f)
  have coh: "buf_coh content bd' = buf_coh content bd" by (simp add: fun_eq_iff buf_coh_def disk f)
  have geom: "cache_geom bd' n = cache_geom bd n" for n by (simp add: cache_geom_def dev_geom_keep [OF k] f)
  have "cache_coh content bd' = cache_coh content bd" by (simp add: cache_coh_def coh geom c f)
  moreover have "dirty_queued {} bd' = dirty_queued {} bd" "held_uptodate bd' = held_uptodate bd" "blk_refs bd' = blk_refs bd"
      "clean_on D bd' = clean_on D bd"
    by (simp_all add: dirty_queued_def held_uptodate_def fun_eq_iff blk_refs_def clean_on_def f)
  moreover have "synced content (st_pend s) bd' = synced content (st_pend s) bd" by (simp add: synced_def disk f)
  moreover have "blk_view content bd' = blk_view content bd" unfolding fun_eq_iff blk_view_def disk f by simp
  ultimately show ?thesis using a by (simp add: clean_abs_def store_abs_def blk_ready_def blk_inv_def f)
qed

lemma slice_blocks:
  assumes "\<And>i. i < k \<Longrightarrow> slice c (p + i * n) n = f i"
  shows "slice c p (k * n) = concat (map f [0..<k])"
  using assms
proof (induction k)
  case (Suc k)
  have "slice c p (Suc k * n) = slice c p (k * n) @ slice c (p + k * n) n"
    unfolding mult_Suc add.commute [of n] by (rule slice_append)
  then show ?case using Suc by simp
qed simp

context block_device begin

lemma clean_abs_get:
  assumes a: "clean_abs content D bd s" and l: "l < st_cnt s" and n: "st_room s \<noteq> 0"
  shows "\<exists>bd'. ext4_block_get io l bd = (Inr (blk l), bd') \<and> clean_abs content D bd' (st_get l s)"
proof -
  have sa: "store_abs content bd s" using a by (simp add: clean_abs_def)
  from store_abs_get [OF sa l n] obtain bd' where
    1: "ext4_block_get io l bd = (Inr (blk l), bd')" "store_abs content bd' (st_get l s)" by blast
  have "cache_coh content bd" "l < bd_lg_bcnt bd" using sa l by (auto simp: store_abs_def dest: blk_readyD)
  from get_ok [OF this store_abs_room [OF sa n]] 1(1) have "get_post content l bd bd'" by auto
  then show ?thesis using 1 a by (simp add: clean_abs_def get_post_def view_kept_def)
qed

lemma clean_abs_set:
  assumes a: "clean_abs content D bd s" and r: "st_refs s l \<noteq> 0" and l: "l \<noteq> 0" "l \<notin> st_pend s"
  shows "\<exists>bd'. ext4_block_set io (blk l) bd = (Inr (), bd') \<and> clean_abs content D bd' (st_set l s)"
proof -
  have sa: "store_abs content bd s" using a by (simp add: clean_abs_def)
  from store_abs_set [OF sa r l] obtain bd' where
    1: "ext4_block_set io (blk l) bd = (Inr (), bd')" "store_abs content bd' (st_set l s)" by blast
  have rd: "blk_ready content (st_pend s) bd" and r': "blk_refs bd l \<noteq> 0" using sa r by (simp_all add: store_abs_def)
  note c = blk_readyD [OF rd]
  from set_ok [OF c(1,2) r' l(1)] c(3) l(2) 1(1) have "set_post content l bd bd'" by (auto simp: synced_def)
  then show ?thesis using 1 a by (simp add: clean_abs_def set_post_def view_kept_def)
qed

lemma blocks_in_range:
  assumes g: "cache_geom bd n" and e: "unat lba + unat cnt \<le> unat (bd_lg_bcnt bd)" and c: "unat cnt * unat (bd_lg_bsize bd) < 2 ^ 32" "cnt \<noteq> 0"
  shows "unat (bd_ph_bsize bd) * unat (blk_pb_cnt bd * cnt) = unat cnt * unat (bd_lg_bsize bd)"
    and "unat (bd_ph_bsize bd) * unat (blk_pba bd lba) = blk_pos bd lba"
    and "blk_pos bd lba + unat cnt * unat (bd_lg_bsize bd) \<le> n"
proof -
  have l: "lba < bd_lg_bcnt bd" using e c(2) by (simp add: word_less_nat_alt word_unat_eq_iff)
  note r = blk_in_range [OF g l] and q = cache_geom_num [OF g]
  have "1 * unat (blk_pb_cnt bd) \<le> unat (bd_ph_bsize bd) * unat (blk_pb_cnt bd)"
    using r(3) q(1) by (intro mult_le_mono1) (metis less_one linorder_not_le mult_is_0 nless_le)
  then have "unat (blk_pb_cnt bd) * unat cnt \<le> unat (bd_lg_bsize bd) * unat cnt" unfolding r(3) by (intro mult_le_mono1) simp
  then have "unat (blk_pb_cnt bd) * unat cnt < 2 ^ 32" using c(1) unfolding mult.commute [of "unat cnt"] by (rule le_less_trans)
  then have "unat (blk_pb_cnt bd * cnt) = unat (blk_pb_cnt bd) * unat cnt" by (intro unat_mult_le) simp
  then show "unat (bd_ph_bsize bd) * unat (blk_pb_cnt bd * cnt) = unat cnt * unat (bd_lg_bsize bd)"
    by (simp only: mult.assoc [symmetric] r(3) mult.commute [of "unat cnt"])
  show "unat (bd_ph_bsize bd) * unat (blk_pba bd lba) = blk_pos bd lba" by (rule r(2))
  have "(unat lba + unat cnt) * unat (bd_lg_bsize bd) \<le> unat (bd_lg_bcnt bd) * unat (bd_lg_bsize bd)"
    using e by (rule mult_le_mono1)
  then show "blk_pos bd lba + unat cnt * unat (bd_lg_bsize bd) \<le> n"
    using g by (auto simp: cache_geom_def dev_geom_def blk_pos_def algebra_simps)
qed

lemma clean_direct_read:
  assumes a: "clean_abs content D bd s" and cnt: "cnt \<noteq> 0" and e: "unat lba + unat cnt \<le> unat (st_cnt s)"
    and b: "unat cnt * st_bsize s < 2 ^ 32" "unat cnt * st_bsize s \<le> length buf"
    and D: "\<And>k. k < unat cnt \<Longrightarrow> lba + of_nat k \<in> D \<and> lba + of_nat k \<notin> st_pend s"
  shows "\<exists>bd'. ext4_blocks_get_direct io buf lba cnt bd =
         (Inr (), concat (map (\<lambda>k. st_view s (lba + of_nat k)) [0..<unat cnt]) @ drop (unat cnt * st_bsize s) buf, bd') \<and>
       clean_abs content D bd' s"
proof -
  have sa: "store_abs content bd s" using a by (simp add: clean_abs_def)
  then have sz: "unat (bd_lg_bsize bd) = st_bsize s" "bd_lg_bcnt bd = st_cnt s" and coh: "cache_coh content bd"
    by (auto simp: store_abs_def dest: blk_readyD)
  note g = cache_cohD(3) [OF coh]
  have r: "unat (bd_ph_bsize bd) * unat (blk_pb_cnt bd * cnt) = unat cnt * st_bsize s"
      "unat (bd_ph_bsize bd) * unat (blk_pba bd lba) = blk_pos bd lba" "blk_pos bd lba + unat cnt * st_bsize s \<le> length (content (bd_dev bd))"
    using blocks_in_range [OF g, of lba cnt] e b(1) cnt by (simp_all add: sz)
  have n0: "unat cnt * st_bsize s \<noteq> 0" and len: "length (content (bd_dev bd)) < 2 ^ 63"
    using cnt cache_geom_num [OF g] by (simp_all add: sz word_unat_eq_iff)
  from bdif_bread_ok [of bd "blk_pb_cnt bd * cnt" "blk_pba bd lba" buf] n0 r b len obtain bd' where
    1: "bd_same bd bd'" "content (bd_dev bd') = content (bd_dev bd)"
      "ext4_blocks_get_direct io buf lba cnt bd =
         (Inr (), slice (content (bd_dev bd)) (blk_pos bd lba) (unat cnt * st_bsize s) @ drop (unat cnt * st_bsize s) buf, bd')"
    by (auto simp: ext4_blocks_get_direct_def distrib_left)
  have "slice (content (bd_dev bd)) (blk_pos bd lba + k * st_bsize s) (st_bsize s) = st_view s (lba + of_nat k)"
    if k: "k < unat cnt" for k
  proof -
    have "unat lba + k < 2 ^ 64" using k e unat_lt64 [of "st_cnt s"] by linarith
    then have u: "unat (lba + of_nat k) = unat lba + k" using k
      by (subst unat_add_le) (simp_all add: unsigned_of_nat take_bit_nat_eq_self)
    then have "lba + of_nat k < st_cnt s" using e k by (simp add: word_less_nat_alt)
    with clean_view [OF a] D [OF k] have "blk_disk content bd (lba + of_nat k) = st_view s (lba + of_nat k)" by simp
    then show ?thesis by (simp add: blk_disk_def blk_pos_def u sz algebra_simps)
  qed
  then have "slice (content (bd_dev bd)) (blk_pos bd lba) (unat cnt * st_bsize s) =
      concat (map (\<lambda>k. st_view s (lba + of_nat k)) [0..<unat cnt])" by (rule slice_blocks)
  then show ?thesis using 1 clean_abs_kept [OF a bd_same_keep [OF 1(1)] 1(2)] by auto
qed

lemma clean_bytes_read:
  assumes a: "clean_abs content D bd s" and l: "l < st_cnt s" "l \<in> D" "l \<notin> st_pend s" and n: "n \<noteq> 0"
    and o: "unat off = unat l * st_bsize s + k" "k + unat n \<le> st_bsize s" and b: "unat n \<le> length buf"
  shows "\<exists>bd'. ext4_block_readbytes io off buf n bd = (Inr (take (unat n) (drop k (st_view s l)) @ drop (unat n) buf), bd') \<and>
       clean_abs content D bd' s"
proof -
  have sa: "store_abs content bd s" using a by (simp add: clean_abs_def)
  then have sz: "unat (bd_lg_bsize bd) = st_bsize s" "bd_lg_bcnt bd = st_cnt s" and coh: "cache_coh content bd"
    by (auto simp: store_abs_def dest: blk_readyD)
  note g = cache_cohD(3) [OF coh]
  have dg: "dev_geom bd (length (content (bd_dev bd)))" using g by (simp add: cache_geom_def)
  have "unat l + 1 \<le> unat (st_cnt s)" using l(1) by (simp add: word_less_nat_alt)
  then have "(unat l + 1) * st_bsize s \<le> unat (st_cnt s) * st_bsize s" by (rule mult_le_mono1)
  also have "\<dots> \<le> unat (bd_part_size bd)" using g sz by (simp add: cache_geom_def)
  finally have "unat off + unat n \<le> unat (bd_part_size bd)" using o by simp
  from readbytes_ok [OF dg this b n] obtain bd' where
    1: "bd_keep bd bd'" "content (bd_dev bd') = content (bd_dev bd)"
      "ext4_block_readbytes io off buf n bd =
        (Inr (slice (content (bd_dev bd)) (unat (bd_part_offset bd) + unat off) (unat n) @ drop (unat n) buf), bd')" by blast
  have "slice (content (bd_dev bd)) (unat (bd_part_offset bd) + unat off) (unat n) = slice (blk_disk content bd l) k (unat n)"
    using o by (simp add: blk_disk_def slice_slice blk_pos_def sz add.assoc)
  also have "\<dots> = take (unat n) (drop k (st_view s l))" by (simp add: clean_view [OF a l(2,3,1)] slice_def)
  finally show ?thesis using 1 clean_abs_kept [OF a 1(1,2)] by auto
qed

end

sublocale block_device < data: data_reader io "clean_abs content D" D for D
proof
  fix bd s l
  assume a: "clean_abs content D bd s"
  then have sa: "store_abs content bd s" by (simp add: clean_abs_def)
  show "l < st_cnt s" if "st_refs s l \<noteq> 0" by (rule store.store_held [OF sa that])
  show "\<exists>b. ext4_buf_lookup (bd_bc bd) l = Some b \<and> buf_data b = st_view s l" if "st_refs s l \<noteq> 0"
    by (rule store.store_data [OF sa that])
  show "length (st_view s l) = st_bsize s" if "l < st_cnt s" by (rule store.store_length [OF sa that])
  show "unat (st_cnt s) * st_bsize s < 2 ^ 63"
  proof -
    have "cache_geom bd (length (content (bd_dev bd)))" using sa by (auto simp: store_abs_def intro: cache_cohD(3) dest: blk_readyD)
    then show ?thesis using sa by (auto simp: cache_geom_def dev_geom_def store_abs_def)
  qed
  show "\<exists>bd'. ext4_block_get io l bd = (Inr (blk l), bd') \<and> clean_abs content D bd' (st_get l s)"
    if "l < st_cnt s" "st_room s \<noteq> 0" by (rule clean_abs_get [OF a that])
  show "\<exists>bd'. ext4_block_set io (blk l) bd = (Inr (), bd') \<and> clean_abs content D bd' (st_set l s)"
    if "st_refs s l \<noteq> 0" "l \<noteq> 0" "l \<notin> st_pend s" by (rule clean_abs_set [OF a that])
qed ((rule clean_direct_read; blast), (rule clean_bytes_read; assumption))

end
