(* ===== verification/FileRead.thy ===== *)
theory FileRead
  imports FileSpec
begin

text \<open>
  Reading a file exactly: \<open>fread_blocks\<close> delivers the bytes of the file, for every request whose whole blocks have no hole in front of a
  mapped block and whose last piece is mapped. What happens otherwise is stated too.
\<close>

section \<open>Runs\<close>

text \<open>The lookups of an inode answer \<open>M\<close> for the blocks up to \<open>B\<close>, each at the cost of three gets at most.\<close>

definition maps_blocks ::
    "'d ext4_blockdev_iface \<Rightarrow> ('d ext4_blockdev \<Rightarrow> store \<Rightarrow> bool) \<Rightarrow> 'd ext4_fs \<Rightarrow> store \<Rightarrow> ext4_inode_ref \<Rightarrow> (nat \<Rightarrow> u64) \<Rightarrow> nat \<Rightarrow> bool" where
  "maps_blocks io rep fs0 s ir M B \<longleftrightarrow>
     (\<forall>b fs R. unat b \<le> B \<and> fs_at rep fs0 (s\<lparr> st_room := R \<rparr>) fs \<and> 3 \<le> R \<longrightarrow>
        (\<exists>fs' r. ext4_fs_get_inode_dblk_idx io b True (fs, ir) = (Inr (M (unat b)), fs', ir) \<and> r \<le> 3 \<and>
           fs_at rep fs0 (s\<lparr> st_room := R - r \<rparr>) fs'))"

text \<open>The blocks of the run that starts with the file block \<open>c\<close> follow one another on the volume.\<close>

definition collected :: "(nat \<Rightarrow> u64) \<Rightarrow> nat \<Rightarrow> nat \<Rightarrow> run \<Rightarrow> bool" where
  "collected M c k w \<longleftrightarrow>
     unat (r_cnt w) = k \<and> r_start w = (if k = 0 then 0 else M c) \<and> (\<forall>i < k. M (c + i) = M c + of_nat i) \<and> (1 < k \<longrightarrow> M c \<noteq> 0)"

text \<open>
  The run forgets that its first block is a hole as soon as it looks at the next one. So, among the whole blocks from \<open>c0\<close>
  up to \<open>L\<close>, a hole in front of a mapped block is read as that block.
\<close>

definition read_map :: "(nat \<Rightarrow> u64) \<Rightarrow> nat \<Rightarrow> nat \<Rightarrow> nat \<Rightarrow> u64" where
  "read_map M c0 L b = (if M b = 0 \<and> c0 \<le> b \<and> Suc b < L then M (Suc b) else M b)"

text \<open>The state in which a run goes on: \<open>k\<close> blocks from \<open>c\<close> on, a hole only if it is the single one.\<close>

definition running :: "(nat \<Rightarrow> u64) \<Rightarrow> nat \<Rightarrow> nat \<Rightarrow> run \<Rightarrow> bool" where
  "running M c k w \<longleftrightarrow> collected M c k w \<and> unat (r_iblk w) = c + k \<and> (0 < k \<longrightarrow> r_fblk w \<noteq> None)"

text \<open>The addresses of a run stay below the end of the volume, so none of them is 0.\<close>

lemma collected_addr:
  assumes "collected M c k w" and v: "\<And>i. i < k \<Longrightarrow> M (c + i) < (v :: u64)" and "M c \<noteq> 0" and "i < k"
  shows "unat (M (c + i)) = unat (M c) + i" and "M (c + i) \<noteq> 0"
proof -
  have "unat (M (c + i)) = unat (M c) + i \<and> M (c + i) \<noteq> 0"
    using assms(4)
  proof (induction i)
    case (Suc i)
    then have ih: "unat (M (c + i)) = unat (M c) + i" "M (c + i) \<noteq> 0" by simp_all
    have "M (c + i) < v" using v [of i] Suc.prems by simp
    then have lt: "unat (M (c + i)) + 1 < 2 ^ 64" using unat_lt64 [of v] by (simp add: word_less_nat_alt)
    have "M (c + Suc i) = M c + of_nat (Suc i)" "M (c + i) = M c + of_nat i"
      using assms(1) Suc.prems by (simp_all add: collected_def del: add_Suc_right)
    then have "M (c + Suc i) = M (c + i) + 1" by simp
    then have "unat (M (c + Suc i)) = unat (M (c + i)) + 1" using lt by (simp add: unat_inc)
    with ih show ?case by (simp add: word_unat_eq_iff)
  qed (use assms(3) in simp)
  then show "unat (M (c + i)) = unat (M c) + i" and "M (c + i) \<noteq> 0" by simp_all
qed

lemma collected_read:
  assumes c: "collected M c k w" and v: "\<And>i. i < k \<Longrightarrow> M (c + i) < (v :: u64)" and h: "M c \<noteq> 0 \<or> Suc c = L"
  shows "collected (read_map M c0 L) c k w"
proof -
  have "read_map M c0 L (c + i) = M (c + i)" if i: "i < k" for i
  proof (cases "M c = 0")
    case True
    then have "k = 1" using c i by (cases "1 < k") (auto simp: collected_def)
    then show ?thesis using i True h by (simp add: read_map_def)
  next
    case False
    then show ?thesis using collected_addr(2) [OF c v False i] by (simp add: read_map_def)
  qed
  then show ?thesis using c unfolding collected_def by (metis add.right_neutral not_gr_zero zero_less_one less_trans)
qed

context data_reader begin

lemma fread_run_ok:
  assumes m: "maps_blocks io rep fs0 s ir M B" and B: "L \<le> Suc B" "L < 2 ^ 32"
    and v: "\<And>b. c \<le> b \<Longrightarrow> b < L \<Longrightarrow> M b < (v :: u64)" and c: "c0 \<le> c" "c < L"
  shows "running M c k w \<Longrightarrow> c + k + n = L \<Longrightarrow> fs_at rep fs0 (s\<lparr> st_room := R \<rparr>) fs \<Longrightarrow> 3 * n \<le> R \<Longrightarrow>
    \<exists>k' w' fs' R'. fread_run n io w (fs, ir) = (Inr w', fs', ir) \<and> collected (read_map M c0 L) c k' w' \<and> 0 < k' \<and> c + k' \<le> L \<and>
      (c + k' = L \<and> unat (r_iblk w') = L \<and> r_fblk w' \<noteq> None \<or>
       c + k' < L \<and> unat (r_iblk w') = c + k' + 1 \<and> r_fblk w' = Some (M (c + k'))) \<and>
      fs_at rep fs0 (s\<lparr> st_room := R' \<rparr>) fs' \<and> R + 3 * unat (r_iblk w) \<le> R' + 3 * unat (r_iblk w')"
proof (induction n arbitrary: k w R fs)
  case 0
  have col: "collected M c k w" and e: "c + k = L" "unat (r_iblk w) = L" "0 < k \<longrightarrow> r_fblk w \<noteq> None" and k0: "0 < k"
    using 0 c by (auto simp: running_def)
  have "M c \<noteq> 0 \<or> Suc c = L" using col e(1) k0 by (cases "1 < k") (auto simp: collected_def)
  from collected_read [OF col v this, of c0] e(1) have "collected (read_map M c0 L) c k w" by simp
  then show ?case using e k0 0(3) by (intro exI [of _ k] exI [of _ w] exI [of _ fs] exI [of _ R]) simp
next
  case (Suc n)
  let ?b = "c + k"
  have col: "collected M c k w" and ib: "unat (r_iblk w) = ?b" and fb: "0 < k \<longrightarrow> r_fblk w \<noteq> None"
    using Suc.prems(1) by (simp_all add: running_def)
  have b: "?b < L" "?b \<le> B" "3 \<le> R" using Suc.prems B by simp_all
  then have "unat (r_iblk w) \<le> B" using ib by simp
  then obtain fs1 r where 1: "ext4_fs_get_inode_dblk_idx io (r_iblk w) True (fs, ir) = (Inr (M ?b), fs1, ir)" "r \<le> 3"
      "fs_at rep fs0 (s\<lparr> st_room := R - r \<rparr>) fs1"
    using m ib Suc.prems(3) b(3) unfolding maps_blocks_def by metis
  have i1: "unat (r_iblk w + 1) = ?b + 1" using ib b(1) B(2) by (subst unat_inc) simp_all
  have kw: "ucast (r_cnt w) = (of_nat k :: u64)" "unat (r_cnt w) = k" using col by (auto simp: collected_def)
  let ?st = "if r_start w = 0 then M ?b else r_start w"
  let ?w = "w\<lparr> r_iblk := r_iblk w + 1, r_start := ?st, r_fblk := Some (M ?b) \<rparr>"
  have st: "r_start w = (if k = 0 then 0 else M c)" using col by (simp add: collected_def)
  have seq: "\<forall>i < k. M (c + i) = M c + of_nat i" "1 < k \<longrightarrow> M c \<noteq> 0" using col by (simp_all add: collected_def)
  have run: "fread_run (Suc n) io w (fs, ir) =
      (if ?st + of_nat k \<noteq> M ?b then (Inr ?w, fs1, ir) else fread_run n io (?w\<lparr> r_cnt := r_cnt w + 1 \<rparr>) (fs1, ir))"
    using 1(1) by (simp add: Let_def kw(1))
  show ?case
  proof (cases "?st + of_nat k = M ?b")
    case False
    then have k0: "0 < k" using st by (cases k) simp_all
    have "collected (read_map M c0 L) c k ?w"
    proof (cases "M c = 0")
      case True
      then have "k = 1" using k0 seq(2) by (cases "k = 1") simp_all
      then show ?thesis using kw(2) st True b(1) c(1) by (simp add: collected_def read_map_def)
    next
      case nz: False
      have "collected M c k ?w" using col k0 st nz by (simp add: collected_def)
      then show ?thesis by (rule collected_read [where v = v]) (use v b(1) nz in auto)
    qed
    then show ?thesis using run False k0 b(1) i1 1(2,3) ib
      by (intro exI [of _ k] exI [of _ ?w] exI [of _ fs1] exI [of _ "R - r"]) simp
  next
    case True
    have kL: "k + 1 < 2 ^ 32" using b(1) B(2) by simp
    have c1: "unat (r_cnt w + 1) = k + 1" using kw(2) kL by (subst unat_inc) simp_all
    have nz: "M c \<noteq> 0" if "0 < k"
    proof
      assume z: "M c = 0"
      then have "k = 1" using that seq(2) by (cases "k = 1") simp_all
      then show False using True z st by simp
    qed
    have st': "?st = M c" using st nz by auto
    have "M (c + i) = M c + of_nat i" if "i < Suc k" for i using that seq(1) True st' by (cases "i = k") auto
    then have col': "running M c (k + 1) (?w\<lparr> r_cnt := r_cnt w + 1 \<rparr>)"
      using c1 st' nz i1 by (simp add: collected_def running_def)
    have "3 * n \<le> R - r" using Suc.prems(4) 1(2) by simp
    from Suc.IH [OF col' _ 1(3) this] Suc.prems(2) obtain k' w' fs' R' where
      2: "fread_run n io (?w\<lparr> r_cnt := r_cnt w + 1 \<rparr>) (fs1, ir) = (Inr w', fs', ir)" "collected (read_map M c0 L) c k' w'" "0 < k'" "c + k' \<le> L"
        "c + k' = L \<and> unat (r_iblk w') = L \<and> r_fblk w' \<noteq> None \<or>
         c + k' < L \<and> unat (r_iblk w') = c + k' + 1 \<and> r_fblk w' = Some (M (c + k'))"
        "fs_at rep fs0 (s\<lparr> st_room := R' \<rparr>) fs'" "R - r + 3 * unat (r_iblk w + 1) \<le> R' + 3 * unat (r_iblk w')" by auto
    have "R + 3 * unat (r_iblk w) \<le> R' + 3 * unat (r_iblk w')" using 2(7) i1 1(2) ib Suc.prems(4) by simp
    then show ?thesis using run True 2(1-6)
      by (intro exI [of _ k'] exI [of _ w'] exI [of _ fs'] exI [of _ R']) simp
  qed
qed

end

section \<open>Progress of a transfer\<close>

text \<open>\<open>k\<close> of the \<open>N\<close> bytes from position \<open>P\<close> are in the buffer.\<close>

definition delivered ::
    "(u64 \<Rightarrow> u8 list) \<Rightarrow> nat \<Rightarrow> (nat \<Rightarrow> u64) \<Rightarrow> nat \<Rightarrow> nat \<Rightarrow> u8 list \<Rightarrow> nat \<Rightarrow> xfer \<Rightarrow> bool" where
  "delivered V bs M P N buf k x \<longleftrightarrow>
     x_buf x = file_part V bs M P k @ drop k buf \<and> x_off x = k \<and> k \<le> N \<and> unat (x_size x) = N - k \<and>
     unat (x_pos x) = P + k \<and> unat (x_cnt x) = k"

definition xfer_fits :: "nat \<Rightarrow> nat \<Rightarrow> u8 list \<Rightarrow> bool" where
  "xfer_fits P N buf \<longleftrightarrow> N \<le> length buf \<and> P + N < 2 ^ 64 \<and> N < 2 ^ 32"

lemma deliver_room:
  assumes "delivered V bs M P N buf k x" and "xfer_fits P N buf" and "k + m \<le> N"
  shows "m \<le> length (drop (x_off x) (x_buf x))"
proof -
  have "length (drop (x_off x) (x_buf x)) = length buf - k" using assms(1) by (simp add: delivered_def)
  moreover have "k + m \<le> length buf" using assms(2,3) by (simp add: xfer_fits_def)
  ultimately show ?thesis by simp
qed

lemma delivered_cong:
  assumes "delivered V bs M P N buf k x" and "P + k \<le> F * bs" and "\<And>b. b < F \<Longrightarrow> M' b = M b" and "0 < bs"
  shows "delivered V bs M' P N buf k x"
proof -
  have "i div bs < F" if "i < P + k" for i using that assms(2) by (simp add: div_less_iff_less_mult assms(4))
  then have "file_part V bs M' P k = file_part V bs M P k" using assms(3) by (simp add: file_part_def file_blk_def)
  then show ?thesis using assms(1) by (simp add: delivered_def)
qed

lemma deliver_put_raw:
  assumes "delivered V bs M P N buf k x" and "xfer_fits P N buf" and "k + length ys \<le> N"
  shows "x_put (ys @ drop (length ys) (drop (x_off x) (x_buf x))) (t, x) =
    (Inr (), t, x\<lparr> x_buf := file_part V bs M P k @ ys @ drop (k + length ys) buf \<rparr>)"
  using assms by (simp add: x_put_def wr_range_def delivered_def xfer_fits_def add.commute)

lemma deliver_put:
  assumes d: "delivered V bs M P N buf k x" and f: "xfer_fits P N buf" and m: "k + m \<le> N"
  shows "x_put (file_part V bs M (P + k) m) (t, x) = (Inr (), t, x\<lparr> x_buf := file_part V bs M P (k + m) @ drop (k + m) buf \<rparr>)"
    and "x_put (file_part V bs M (P + k) m @ drop m (drop (x_off x) (x_buf x))) (t, x) =
      (Inr (), t, x\<lparr> x_buf := file_part V bs M P (k + m) @ drop (k + m) buf \<rparr>)"
  using assms by (simp_all add: x_put_def wr_range_def delivered_def xfer_fits_def file_part_add add.commute)

lemma deliver_step:
  assumes d: "delivered V bs M P N buf k x" and f: "xfer_fits P N buf" and m: "k + unat n \<le> N"
  shows "\<exists>x'. x_step n (t, x\<lparr> x_buf := file_part V bs M P (k + unat n) @ drop (k + unat n) buf \<rparr>) = (Inr (), t, x') \<and>
    delivered V bs M P N buf (k + unat n) x'"
proof -
  have "unat (x_size x - n) = N - k - unat n" using d m by (subst unat_minus_le) (simp_all add: delivered_def)
  moreover have "unat (x_pos x + n) = P + (k + unat n)" using d m f
    by (subst unat_add_le) (simp_all add: delivered_def xfer_fits_def)
  moreover have "unat (x_cnt x + n) = k + unat n" using d m f
    by (subst unat_add_le) (simp_all add: delivered_def xfer_fits_def)
  ultimately show ?thesis using d m by (simp add: x_step_def delivered_def Let_def)
qed

section \<open>Whole blocks\<close>

text \<open>The data blocks of a file: on the volume, not newer in the cache.\<close>

definition data_at :: "u64 set \<Rightarrow> store \<Rightarrow> (nat \<Rightarrow> u64) \<Rightarrow> nat \<Rightarrow> bool" where
  "data_at D s M b \<longleftrightarrow> M b \<noteq> 0 \<longrightarrow> M b < st_cnt s \<and> M b \<in> D \<and> M b \<notin> st_pend s"

context data_reader begin

lemma run_transfer_ok:
  assumes a: "fs_at rep fs0 (s\<lparr> st_room := R \<rparr>) fs" and c: "collected M c k w" "0 < k"
    and da: "\<And>i. i < k \<Longrightarrow> data_at D s M (c + i)"
    and d: "delivered (st_view s) bs M P N buf j x" and f: "xfer_fits P N buf" and p: "P + j = c * bs" "j + k * bs \<le> N"
    and bs: "bs = st_bsize s" "unat bsw = bs" "0 < bs"
  shows "\<exists>fs'. (if r_start w = 0 then x_put (replicate (unat (bsw * r_cnt w)) 0) ((fs, ir), x)
              else x_get_direct io (r_start w) (r_cnt w) ((fs, ir), x)) =
      (Inr (), (fs', ir), x\<lparr> x_buf := file_part (st_view s) bs M P (j + k * bs) @ drop (j + k * bs) buf \<rparr>) \<and>
    fs_at rep fs0 (s\<lparr> st_room := R \<rparr>) fs' \<and> unat (bsw * r_cnt w) = k * bs"
proof -
  have kw: "unat (r_cnt w) = k" "r_start w = M c" using c by (simp_all add: collected_def)
  have kb: "k * bs < 2 ^ 32" using p(2) f by (simp add: xfer_fits_def)
  then have nb: "unat (bsw * r_cnt w) = k * bs" using kw(1) bs(2) by (subst unat_mult_le) (simp_all add: mult.commute)
  obtain bd where b: "fs = fs0\<lparr> fs_bdev := bd \<rparr>" "rep bd (s\<lparr> st_room := R \<rparr>)" using a by (auto simp: fs_at_def)
  have len: "length (file_blk (st_view s) bs M b) = bs" if "data_at D s M b" for b
    using that store_length [OF b(2), of "M b"] bs(1) by (auto simp: file_blk_def data_at_def)
  have part: "file_part (st_view s) bs M (P + j) (k * bs) = concat (map (\<lambda>i. file_blk (st_view s) bs M (c + i)) [0..<k])"
    unfolding p(1) by (rule file_part_blocks) (use len da bs(3) in auto)
  show ?thesis
  proof (cases "M c = 0")
    case True
    then have "k = 1" using c by (cases "1 < k") (auto simp: collected_def)
    then have "file_part (st_view s) bs M (P + j) (k * bs) = replicate (k * bs) 0" using part True by (simp add: file_blk_def)
    then have "x_put (replicate (k * bs) 0) ((fs, ir), x) =
        (Inr (), (fs, ir), x\<lparr> x_buf := file_part (st_view s) bs M P (j + k * bs) @ drop (j + k * bs) buf \<rparr>)"
      using deliver_put(1) [OF d f p(2), of "(fs, ir)"] by simp
    then show ?thesis using a by (intro exI [of _ fs]) (simp add: nb kw(2) True)
  next
    case False
    have "M c < st_cnt s" using da [of 0] c(2) False by (simp add: data_at_def)
    then have "0 < st_cnt s" by (rule le_less_trans [rotated]) simp
    then have v: "M (c + i) < st_cnt s" if "i < k" for i using da [OF that] by (cases "M (c + i) = 0") (simp_all add: data_at_def)
    have ad: "unat (M (c + i)) = unat (M c) + i" "M (c + i) \<noteq> 0" if "i < k" for i
      using collected_addr [OF c(1) v False that] by simp_all
    let ?s = "s\<lparr> st_room := R \<rparr>" and ?buf = "drop (x_off x) (x_buf x)"
    have addr: "M c + of_nat i = M (c + i)" if "i < k" for i using c(1) that by (simp add: collected_def)
    have "unat (M c) + k \<le> unat (st_cnt s)"
      using ad [of "k - 1"] da [of "k - 1"] c(2) by (auto simp: data_at_def word_less_nat_alt)
    moreover have "M c + of_nat i \<in> D \<and> M c + of_nat i \<notin> st_pend s" if "i < k" for i
      using da [OF that] ad(2) [OF that] addr [OF that] by (simp add: data_at_def)
    moreover have "k * st_bsize ?s \<le> length ?buf" using deliver_room [OF d f p(2)] bs(1) by simp
    moreover have "r_cnt w \<noteq> 0" using kw(1) c(2) by (auto simp: word_unat_eq_iff)
    ultimately obtain bd' where 1: "ext4_blocks_get_direct io ?buf (M c) (r_cnt w) bd =
        (Inr (), concat (map (\<lambda>i. st_view ?s (M c + of_nat i)) [0..<k]) @ drop (k * st_bsize ?s) ?buf, bd')" "rep bd' ?s"
      using direct_read [OF b(2), of "r_cnt w" "M c" ?buf] kw(1) kb bs(1) by auto
    have "map (\<lambda>i. st_view ?s (M c + of_nat i)) [0..<k] = map (\<lambda>i. file_blk (st_view s) bs M (c + i)) [0..<k]"
      by (rule map_cong) (use addr ad(2) in \<open>auto simp: file_blk_def\<close>)
    then have "concat (map (\<lambda>i. st_view ?s (M c + of_nat i)) [0..<k]) = file_part (st_view s) bs M (P + j) (k * bs)"
      unfolding part by (rule arg_cong)
    then have "ext4_blocks_get_direct io ?buf (M c) (r_cnt w) bd =
        (Inr (), file_part (st_view s) bs M (P + j) (k * bs) @ drop (k * bs) ?buf, bd')"
      using 1(1) bs(1) unfolding \<open>concat _ = _\<close> by simp
    then have "x_get_direct io (M c) (r_cnt w) ((fs, ir), x) =
        (Inr (), (fs0\<lparr> fs_bdev := bd' \<rparr>, ir), x\<lparr> x_buf := file_part (st_view s) bs M P (j + k * bs) @ drop (j + k * bs) buf \<rparr>)"
      using deliver_put(2) [OF d f p(2)] by (simp add: x_get_direct_def b(1))
    then show ?thesis using 1(2) False by (intro exI [of _ "fs0\<lparr> fs_bdev := bd' \<rparr>"]) (auto simp: nb kw(2) fs_at_def)
  qed
qed

lemma fread_loop_ok:
  assumes m: "maps_blocks io rep fs0 s ir M B" and B: "L \<le> Suc B" "L < 2 ^ 32"
    and da: "\<And>b. c0 \<le> b \<Longrightarrow> b < L \<Longrightarrow> data_at D s M b"
    and f: "xfer_fits P N buf" and bs: "bs = st_bsize s" "unat bsw = bs" "0 < bs"
    and L: "L * bs \<le> P + N" "P + N < (L + 1) * bs" and last: "unat lastw = L"
  shows "running M c k w \<Longrightarrow> k \<le> 1 \<Longrightarrow> c0 \<le> c \<Longrightarrow> c < L \<Longrightarrow>
    delivered (st_view s) bs (read_map M c0 L) P N buf j x \<Longrightarrow> P + j = c * bs \<Longrightarrow>
    fs_at rep fs0 (s\<lparr> st_room := R \<rparr>) fs \<Longrightarrow> 3 * (L - (c + k)) \<le> R \<Longrightarrow> L - c < fuel \<Longrightarrow>
    \<exists>w' x' fs' R'. fread_loop fuel io bsw lastw w ((fs, ir), x) = (Inr w', (fs', ir), x') \<and>
      delivered (st_view s) bs (read_map M c0 L) P N buf (L * bs - P) x' \<and> unat (r_iblk w') = L \<and>
      fs_at rep fs0 (s\<lparr> st_room := R' \<rparr>) fs' \<and> R \<le> R' + 3 * (L - (c + k))"
proof (induction fuel arbitrary: c k w j x fs R)
  case (Suc fuel)
  let ?M = "read_map M c0 L"
  have ib: "unat (r_iblk w) = c + k" using Suc.prems(1) by (simp add: running_def)
  have sz: "unat (x_size x) = N - j" "j \<le> N" using Suc.prems(5) by (simp_all add: delivered_def)
  have "(c + 1) * bs \<le> L * bs" using Suc.prems(4) by (intro mult_le_mono1) simp
  then have "bs \<le> N - j" using L(1) Suc.prems(6) by (simp add: algebra_simps)
  then have more: "x_size x \<ge> ucast bsw" using sz bs(2) by (simp add: word_le_nat_alt unat_ucast_up)
  have n: "unat lastw - unat (r_iblk w) = L - (c + k)" "c + k + (L - (c + k)) = L" using last ib Suc.prems(2,4) by simp_all
  have vb: "M b < max (st_cnt s) 1" if "c \<le> b" "b < L" for b
    using da [of b] that Suc.prems(3) by (cases "M b = 0") (simp_all add: data_at_def less_max_iff_disj)
  from fread_run_ok [OF m B vb Suc.prems(3,4,1) n(2) Suc.prems(7,8)] obtain k' w' fs1 R1 where
    1: "fread_run (L - (c + k)) io w (fs, ir) = (Inr w', fs1, ir)" "collected ?M c k' w'" "0 < k'" "c + k' \<le> L"
      "c + k' = L \<and> unat (r_iblk w') = L \<and> r_fblk w' \<noteq> None \<or>
       c + k' < L \<and> unat (r_iblk w') = c + k' + 1 \<and> r_fblk w' = Some (M (c + k'))"
      "fs_at rep fs0 (s\<lparr> st_room := R1 \<rparr>) fs1" "R + 3 * unat (r_iblk w) \<le> R1 + 3 * unat (r_iblk w')" by blast
  have "(c + k') * bs \<le> L * bs" using 1(4) by (rule mult_le_mono1)
  then have fit: "j + k' * bs \<le> N" using L(1) Suc.prems(6) by (simp add: algebra_simps)
  have daM: "data_at D s ?M b" if "c0 \<le> b" "b < L" for b
    using da [of b] da [of "Suc b"] that by (simp add: data_at_def read_map_def)
  then have "data_at D s ?M (c + i)" if "i < k'" for i using Suc.prems(3) 1(4) that by simp
  from run_transfer_ok [OF 1(6) 1(2,3) this Suc.prems(5) f Suc.prems(6) fit bs] obtain fs2 where
    2: "(if r_start w' = 0 then x_put (replicate (unat (bsw * r_cnt w')) 0) ((fs1, ir), x)
         else x_get_direct io (r_start w') (r_cnt w') ((fs1, ir), x)) =
        (Inr (), (fs2, ir), x\<lparr> x_buf := file_part (st_view s) bs ?M P (j + k' * bs) @ drop (j + k' * bs) buf \<rparr>)"
      "fs_at rep fs0 (s\<lparr> st_room := R1 \<rparr>) fs2" "unat (bsw * r_cnt w') = k' * bs" by blast
  have u: "unat (ucast (bsw * r_cnt w') :: u64) = k' * bs" using 2(3) by (simp add: unat_ucast_up)
  from deliver_step [OF Suc.prems(5) f, of "ucast (bsw * r_cnt w')" "(fs2, ir)", unfolded u, OF fit] obtain x2 where
    3: "x_step (ucast (bsw * r_cnt w'))
          ((fs2, ir), x\<lparr> x_buf := file_part (st_view s) bs ?M P (j + k' * bs) @ drop (j + k' * bs) buf \<rparr>) = (Inr (), (fs2, ir), x2)"
      "delivered (st_view s) bs ?M P N buf (j + k' * bs) x2" by blast
  obtain g where g: "r_fblk w' = Some g" using 1(5) by auto
  let ?w = "w'\<lparr> r_start := g, r_cnt := 1 \<rparr>"
  have run: "fread_loop (Suc fuel) io bsw lastw w ((fs, ir), x) = fread_loop fuel io bsw lastw ?w ((fs2, ir), x2)"
    using 1(1) 2(1) 3(1) g n(1) more
    by (subst fread_loop.simps) (simp add: on_xi_def Let_def)
  have pos: "P + (j + k' * bs) = (c + k') * bs" using Suc.prems(6) by (simp add: algebra_simps)
  show ?case
  proof (cases "c + k' = L")
    case True
    then have i: "unat (r_iblk w') = L" using 1(5) by auto
    have dl: "j + k' * bs = L * bs - P" using pos True by simp
    have "unat (x_size x2) = P + N - L * bs" using 3(2) pos True by (simp add: delivered_def)
    then have "\<not> x_size x2 \<ge> ucast bsw" using L bs(2) by (simp add: word_le_nat_alt unat_ucast_up)
    then have "fread_loop fuel io bsw lastw ?w ((fs2, ir), x2) = (Inr ?w, (fs2, ir), x2)" by (subst fread_loop.simps) simp
    then show ?thesis using run 3(2) dl i 2(2) 1(7) ib
      by (intro exI [of _ ?w] exI [of _ x2] exI [of _ fs2] exI [of _ R1]) simp
  next
    case False
    then have h: "c + k' < L" "unat (r_iblk w') = c + k' + 1" "g = M (c + k')" using 1(5) g by auto
    have "running M (c + k') 1 ?w" using h(2,3) g by (simp add: running_def collected_def)
    moreover have "3 * (L - (c + k' + 1)) \<le> R1" "L - (c + k') < fuel"
      using 1(7) ib Suc.prems(8,9) h(1,2) 1(3) by simp_all
    ultimately obtain w3 x3 fs3 R3 where
      4: "fread_loop fuel io bsw lastw ?w ((fs2, ir), x2) = (Inr w3, (fs3, ir), x3)" "delivered (st_view s) bs ?M P N buf (L * bs - P) x3"
        "unat (r_iblk w3) = L" "fs_at rep fs0 (s\<lparr> st_room := R3 \<rparr>) fs3" "R1 \<le> R3 + 3 * (L - (c + k' + 1))"
      using Suc.IH [of "c + k'" 1 ?w "j + k' * bs" x2 R1 fs2] h 3(2) pos 2(2) Suc.prems(3) g by auto
    have "R \<le> R3 + 3 * (L - (c + k))" using 4(5) 1(7) h(1,2) ib by linarith
    then show ?thesis using run 4(1-4) by (intro exI [of _ w3] exI [of _ x3] exI [of _ fs3] exI [of _ R3]) simp
  qed
qed simp

end

section \<open>A request\<close>

lemma block_bounds:
  assumes "0 < (bs :: nat)"
  shows "p div bs * bs \<le> p" and "p < (p div bs + 1) * bs" and "p div bs * bs + p mod bs = p"
proof -
  show "p div bs * bs + p mod bs = p" by (rule div_mult_mod_eq)
  moreover have "p mod bs < bs" using assms by simp
  moreover have "(p div bs + 1) * bs = p div bs * bs + bs" by simp
  ultimately show "p div bs * bs \<le> p" and "p < (p div bs + 1) * bs" by linarith+
qed

definition first_whole :: "nat \<Rightarrow> nat \<Rightarrow> nat" where "first_whole bs P = P div bs + (if P mod bs = 0 then 0 else 1)"

text \<open>The last piece of a block is read from the block the lookup names, even if that is 0.\<close>

definition tail_mapped :: "(nat \<Rightarrow> u64) \<Rightarrow> nat \<Rightarrow> nat \<Rightarrow> nat \<Rightarrow> bool" where
  "tail_mapped M bs P N \<longleftrightarrow> (P + N) mod bs \<noteq> 0 \<and> first_whole bs P \<le> (P + N) div bs \<longrightarrow> M ((P + N) div bs) \<noteq> 0"

text \<open>The map a request sees for its whole blocks, and the bytes it delivers: the last piece is of the block the lookup names.\<close>

definition seen_map :: "(nat \<Rightarrow> u64) \<Rightarrow> nat \<Rightarrow> nat \<Rightarrow> nat \<Rightarrow> nat \<Rightarrow> u64" where
  "seen_map M bs P N = read_map M (first_whole bs P) ((P + N) div bs)"

definition whole_part :: "nat \<Rightarrow> nat \<Rightarrow> nat \<Rightarrow> nat" where
  "whole_part bs P N = (if first_whole bs P \<le> (P + N) div bs then (P + N) div bs * bs - P else N)"

definition seen_bytes :: "(u64 \<Rightarrow> u8 list) \<Rightarrow> nat \<Rightarrow> (nat \<Rightarrow> u64) \<Rightarrow> nat \<Rightarrow> nat \<Rightarrow> u8 list" where
  "seen_bytes V bs M P N =
     file_part V bs (seen_map M bs P N) P (whole_part bs P N) @ take (N - whole_part bs P N) (V (M ((P + N) div bs)))"

lemma first_whole_above: "0 < bs \<Longrightarrow> P \<le> first_whole bs P * bs"
  using block_bounds [of bs P] by (cases "P mod bs = 0") (simp_all add: first_whole_def)

lemma whole_part:
  assumes "0 < bs"
  shows "whole_part bs P N \<le> N" and "N < whole_part bs P N + bs"
    and "whole_part bs P N < N \<Longrightarrow> P + whole_part bs P N = (P + N) div bs * bs \<and> first_whole bs P \<le> (P + N) div bs \<and>
      N - whole_part bs P N = (P + N) mod bs"
proof -
  let ?L = "(P + N) div bs"
  note b = block_bounds [OF assms, of "P + N"]
  have P: "P \<le> ?L * bs" if "first_whole bs P \<le> ?L"
    using first_whole_above [OF assms] mult_le_mono1 [OF that, of bs] by (rule order.trans)
  have "?L * bs - P \<le> N" using b(1) by linarith
  then show "whole_part bs P N \<le> N" by (simp add: whole_part_def)
  show "N < whole_part bs P N + bs" using b(2) assms P by (auto simp: whole_part_def)
  assume "whole_part bs P N < N"
  then have F: "first_whole bs P \<le> ?L" "whole_part bs P N = ?L * bs - P" by (simp_all add: whole_part_def split: if_splits)
  moreover have "P + (?L * bs - P) = ?L * bs" "N - (?L * bs - P) = (P + N) mod bs" using P [OF F(1)] b(3) by linarith+
  ultimately show "P + whole_part bs P N = ?L * bs \<and> first_whole bs P \<le> ?L \<and> N - whole_part bs P N = (P + N) mod bs" by simp
qed

lemma tail_mapped_iff:
  assumes "0 < bs"
  shows "tail_mapped M bs P N \<longleftrightarrow> (whole_part bs P N < N \<longrightarrow> M ((P + N) div bs) \<noteq> 0)"
proof -
  let ?L = "(P + N) div bs"
  have "whole_part bs P N < N" if "(P + N) mod bs \<noteq> 0" "first_whole bs P \<le> ?L"
  proof -
    have "P \<le> ?L * bs" using first_whole_above [OF assms] mult_le_mono1 [OF that(2), of bs] by (rule order.trans)
    then have "?L * bs - P < N" using that(1) block_bounds(3) [OF assms, of "P + N"] by linarith
    then show ?thesis using that(2) by (simp add: whole_part_def)
  qed
  then show ?thesis using whole_part(3) [OF assms, where P = P and N = N] by (auto simp: tail_mapped_def)
qed

text \<open>When the last piece is mapped these are the bytes of the file as the request sees it.\<close>

lemma seen_bytes_mapped:
  assumes bs: "0 < bs" and t: "tail_mapped M bs P N" and l: "M ((P + N) div bs) \<noteq> 0 \<Longrightarrow> length (V (M ((P + N) div bs))) = bs"
  shows "seen_bytes V bs M P N = file_part V bs (seen_map M bs P N) P N"
proof (cases "whole_part bs P N < N")
  case False
  then have "whole_part bs P N = N" using whole_part(1) [OF bs, where P = P and N = N] by simp
  then show ?thesis by (simp add: seen_bytes_def)
next
  case True
  let ?L = "(P + N) div bs" and ?w = "whole_part bs P N" and ?S = "seen_map M bs P N"
  have M: "M ?L \<noteq> 0" "?S ?L = M ?L" using t True tail_mapped_iff [OF bs] by (auto simp: seen_map_def read_map_def)
  have w: "P + ?w = ?L * bs + 0" "0 + (N - ?w) \<le> bs"
    using whole_part(2,3) [OF bs, where P = P and N = N] True by simp_all
  have blk: "file_blk V bs ?S ?L = V (M ?L)" using M by (simp add: file_blk_def)
  then have "file_part V bs ?S (P + ?w) (N - ?w) = take (N - ?w) (V (M ?L))"
    unfolding w(1) using file_part_within [OF w(2), of V ?S ?L] l M(1) bs by simp
  moreover have "file_part V bs ?S P N = file_part V bs ?S P ?w @ file_part V bs ?S (P + ?w) (N - ?w)"
    using True by (simp add: file_part_add [symmetric])
  ultimately show ?thesis by (simp add: seen_bytes_def)
qed

context data_reader begin

lemma piece_read_ok:
  assumes a: "fs_at rep fs0 (s\<lparr> st_room := R \<rparr>) fs" and d: "delivered (st_view s) bs M P N buf j x" and f: "xfer_fits P N buf"
    and p: "k + unat m \<le> bs" "j + unat m \<le> N" "unat m \<noteq> 0"
    and l: "l < st_cnt s" "l \<in> D" "l \<notin> st_pend s" and bs: "bs = st_bsize s" "unat (bsw :: u32) = bs" "0 < bs"
    and off: "off = l * ucast bsw + kw" "unat kw = k"
  shows "\<exists>fs'. x_readbytes io off m ((fs, ir), x) =
      (Inr (), (fs', ir), x\<lparr> x_buf := file_part (st_view s) bs M P j @ take (unat m) (drop k (st_view s l)) @ drop (j + unat m) buf \<rparr>) \<and>
    fs_at rep fs0 (s\<lparr> st_room := R \<rparr>) fs'"
proof -
  let ?s = "s\<lparr> st_room := R \<rparr>" and ?buf = "drop (x_off x) (x_buf x)" and ?m = "ucast m :: u32"
  let ?ys = "take (unat m) (drop k (st_view s l))"
  obtain bd where b: "fs = fs0\<lparr> fs_bdev := bd \<rparr>" "rep bd ?s" using a by (auto simp: fs_at_def)
  have l': "l < st_cnt ?s" "l \<notin> st_pend ?s" using l by simp_all
  have "(unat l + 1) * bs \<le> unat (st_cnt s) * bs" using l(1) by (intro mult_le_mono1) (simp add: word_less_nat_alt)
  then have lt: "unat l * bs + bs < 2 ^ 63" using store_span [OF b(2)] bs(1) by simp
  have "unat (l * ucast bsw) = unat l * bs" using lt bs(2) by (subst unat_mult_le) (simp_all add: unat_ucast_up)
  then have o: "unat off = unat l * st_bsize ?s + k" unfolding off(1)
    using lt off(2) p(1) bs(1) by (subst unat_add_le) simp_all
  have um: "unat ?m = unat m" using p(2) f by (simp add: unat_ucast_small xfer_fits_def)
  then have m0: "?m \<noteq> 0" using p(3) by (auto simp: word_unat_eq_iff)
  have kb: "k + unat ?m \<le> st_bsize ?s" using um p(1) bs(1) by simp
  have "unat ?m \<le> length ?buf" using deliver_room [OF d f p(2)] um by simp
  from bytes_read [OF b(2) l'(1) l(2) l'(2) m0 o kb this] obtain bd' where
    1: "ext4_block_readbytes io off ?buf ?m bd = (Inr (?ys @ drop (unat m) ?buf), bd')" "rep bd' ?s"
    by (auto simp: um)
  have len: "length ?ys = unat m" using store_length [OF b(2) l'(1)] p(1) bs(1) by simp
  have "x_readbytes io off m ((fs, ir), x) =
      (Inr (), (fs0\<lparr> fs_bdev := bd' \<rparr>, ir), x\<lparr> x_buf := file_part (st_view s) bs M P j @ ?ys @ drop (j + unat m) buf \<rparr>)"
    using deliver_put_raw [OF d f, of ?ys] 1(1) p(2) unfolding len by (simp add: x_readbytes_def on_xi_def on_fs_def fs_dev_def b(1))
  then show ?thesis using 1(2) by (intro exI [of _ "fs0\<lparr> fs_bdev := bd' \<rparr>"]) (auto simp: fs_at_def)
qed

lemma part_read_ok:
  assumes a: "fs_at rep fs0 (s\<lparr> st_room := R \<rparr>) fs" and d: "delivered (st_view s) bs M P N buf j x" and f: "xfer_fits P N buf"
    and p: "P + j = c * bs + k" "k + unat m \<le> bs" "j + unat m \<le> N" "unat m \<noteq> 0"
    and da: "data_at D s M c" "M c \<noteq> 0" and bs: "bs = st_bsize s" "unat (bsw :: u32) = bs" "0 < bs"
    and off: "off = M c * ucast bsw + kw" "unat kw = k"
  shows "\<exists>fs'. x_readbytes io off m ((fs, ir), x) =
      (Inr (), (fs', ir), x\<lparr> x_buf := file_part (st_view s) bs M P (j + unat m) @ drop (j + unat m) buf \<rparr>) \<and>
    fs_at rep fs0 (s\<lparr> st_room := R \<rparr>) fs'"
proof -
  obtain bd where b: "rep bd (s\<lparr> st_room := R \<rparr>)" using a by (auto simp: fs_at_def)
  have l: "M c < st_cnt s" "M c \<in> D" "M c \<notin> st_pend s" using da by (simp_all add: data_at_def)
  have len: "length (file_blk (st_view s) bs M c) = bs"
    using store_length [OF b, of "M c"] l(1) da(2) bs(1) by (simp add: file_blk_def)
  have "file_part (st_view s) bs M (P + j) (unat m) = take (unat m) (drop k (st_view s (M c)))"
    unfolding p(1) using file_part_within [OF p(2) len bs(3)] da(2) by (simp add: file_blk_def)
  then show ?thesis using piece_read_ok [OF a d f p(2-4) l bs off, of ir] by (simp add: file_part_add)
qed

lemma fread_head_ok:
  assumes a: "fs_at rep fs0 (s\<lparr> st_room := R \<rparr>) fs" "3 \<le> R" and m: "maps_blocks io rep fs0 s ir M B" "P div bs \<le> B"
    and c: "unat cw = P div bs" "P div bs + 1 < 2 ^ 32" and u: "unat unalg = P mod bs"
    and d: "delivered (st_view s) bs M P N buf 0 x" and f: "xfer_fits P N buf" and N: "N \<noteq> 0" and da: "data_at D s M (P div bs)"
    and bs: "bs = st_bsize s" "unat bsw = bs" "0 < bs"
  shows "\<exists>w x' fs' R'. fread_head io bsw cw unalg ((fs, ir), x) = (Inr w, (fs', ir), x') \<and>
      collected M (first_whole bs P) 0 w \<and> unat (r_iblk w) = first_whole bs P \<and>
      delivered (st_view s) bs M P N buf (min N (first_whole bs P * bs - P)) x' \<and>
      fs_at rep fs0 (s\<lparr> st_room := R' \<rparr>) fs' \<and> R \<le> R' + 3"
proof (cases "P mod bs = 0")
  case True
  then have "unalg = 0" "first_whole bs P = P div bs" "first_whole bs P * bs = P"
    using u by (auto simp: word_unat_eq_iff first_whole_def)
  then show ?thesis using a d c(1)
    by (intro exI [of _ "\<lparr> r_iblk = cw, r_start = 0, r_cnt = 0, r_fblk = None \<rparr>"] exI [of _ x] exI [of _ fs] exI [of _ R])
       (simp add: fread_head_def collected_def)
next
  case False
  let ?c = "P div bs" and ?u = "P mod bs"
  have ub: "?u < bs" using bs(3) by simp
  have Pe: "?c * bs + ?u = P" by (rule div_mult_mod_eq)
  have "(?c + 1) * bs = ?c * bs + bs" by simp
  then have "(?c + 1) * bs - P = bs - ?u" using Pe ub by linarith
  then have fw: "first_whole bs P = ?c + 1" "first_whole bs P * bs - P = bs - ?u" "P = ?c * bs + ?u"
    using False Pe by (simp_all add: first_whole_def)
  have u0: "unalg \<noteq> 0" using u False by (auto simp: word_unat_eq_iff)
  let ?left = "ucast (bsw - unalg) :: u64"
  have left: "unat ?left = bs - ?u" using u bs(2) ub by (simp add: unat_ucast_up unat_minus_le)
  define len where "len = (if x_size x > ?left then ?left else x_size x)"
  have sz: "unat (x_size x) = N" using d by (simp add: delivered_def)
  then have len: "unat len = min N (bs - ?u)" using left by (auto simp: word_less_nat_alt len_def)
  have cB: "unat cw \<le> B" using c(1) m(2) by simp
  then obtain fs1 r where 1: "ext4_fs_get_inode_dblk_idx io cw True (fs, ir) = (Inr (M ?c), fs1, ir)" "r \<le> 3"
      "fs_at rep fs0 (s\<lparr> st_room := R - r \<rparr>) fs1"
    using m(1) a c(1) unfolding maps_blocks_def by metis
  let ?k = "min N (bs - ?u)"
  have k: "0 + ?k \<le> N" "?k \<noteq> 0" "?u + ?k \<le> bs" using N ub by auto
  let ?x = "x\<lparr> x_buf := file_part (st_view s) bs M P (0 + ?k) @ drop (0 + ?k) buf \<rparr>"
  have "\<exists>fs'. (if M ?c \<noteq> 0 then x_readbytes io (M ?c * ucast bsw + ucast unalg) len ((fs1, ir), x)
            else x_put (replicate (unat len) 0) ((fs1, ir), x)) = (Inr (), (fs', ir), ?x) \<and>
      fs_at rep fs0 (s\<lparr> st_room := R - r \<rparr>) fs'"
  proof (cases "M ?c = 0")
    case True
    have "file_part (st_view s) bs M P ?k = replicate ?k 0"
      using file_part_within [OF k(3), of "st_view s" M ?c] fw(3) True bs(3) by (simp add: file_blk_def)
    then show ?thesis using deliver_put(1) [OF d f k(1), of "(fs1, ir)"] True 1(3) len by simp
  next
    case nz: False
    have "unat (ucast unalg :: u64) = ?u" using u by (simp add: unat_ucast_up)
    moreover have "P + 0 = ?c * bs + ?u" "?u + unat len \<le> bs" "0 + unat len \<le> N" "unat len \<noteq> 0"
      using fw(3) k len by simp_all
    ultimately show ?thesis
      using part_read_ok [OF 1(3) d f _ _ _ _ da nz bs refl, of ?u len "ucast unalg" ir] nz len by simp
  qed
  then obtain fs2 where 2: "(if M ?c \<noteq> 0 then x_readbytes io (M ?c * ucast bsw + ucast unalg) len ((fs1, ir), x)
            else x_put (replicate (unat len) 0) ((fs1, ir), x)) = (Inr (), (fs2, ir), ?x)"
      "fs_at rep fs0 (s\<lparr> st_room := R - r \<rparr>) fs2" by blast
  from deliver_step [OF d f, of len "(fs2, ir)", unfolded len, OF k(1)] obtain x3 where
    3: "x_step len ((fs2, ir), ?x) = (Inr (), (fs2, ir), x3)" "delivered (st_view s) bs M P N buf (0 + ?k) x3" by blast
  let ?w = "\<lparr> r_iblk = cw + 1, r_start = 0, r_cnt = 0, r_fblk = Some (M ?c) \<rparr>"
  have run: "fread_head io bsw cw unalg ((fs, ir), x) = (Inr ?w, (fs2, ir), x3)"
    using u0 1(1) 2(1) 3(1) unfolding fread_head_def snd_conv len_def [symmetric] by (simp add: on_xi_def Let_def split del: if_split)
  have "unat (cw + 1) = ?c + 1" using c by (subst unat_inc) simp_all
  then show ?thesis using run 2(2) 3(2) fw 1(2) a(2)
    by (intro exI [of _ ?w] exI [of _ x3] exI [of _ fs2] exI [of _ "R - r"]) (simp add: collected_def)
qed

lemma fread_tail_ok:
  assumes a: "fs_at rep fs0 (s\<lparr> st_room := R \<rparr>) fs" "3 \<le> R" and m: "maps_blocks io rep fs0 s ir M L"
    and w: "j < N \<Longrightarrow> unat (r_iblk w) = L" and d: "delivered (st_view s) bs M' P N buf j x" and f: "xfer_fits P N buf"
    and p: "N < j + bs" and da: "j < N \<Longrightarrow> M L < st_cnt s \<and> M L \<in> D \<and> M L \<notin> st_pend s"
    and bs: "bs = st_bsize s" "unat bsw = bs" "0 < bs"
  shows "\<exists>x' fs' R'. fread_tail io bsw w ((fs, ir), x) = (Inr (), (fs', ir), x') \<and>
      x_buf x' = file_part (st_view s) bs M' P j @ take (N - j) (st_view s (M L)) @ drop N buf \<and>
      unat (x_pos x') = P + N \<and> unat (x_cnt x') = N \<and> fs_at rep fs0 (s\<lparr> st_room := R' \<rparr>) fs'"
proof (cases "j = N")
  case True
  then have "x_size x = 0" using d by (simp add: delivered_def word_unat_eq_iff)
  then show ?thesis using a d True
    by (intro exI [of _ x] exI [of _ fs] exI [of _ R]) (simp add: fread_tail_def delivered_def)
next
  case False
  have sz: "unat (x_size x) = N - j" "unat (x_pos x) = P + j" "unat (x_cnt x) = j" "j \<le> N" using d by (simp_all add: delivered_def)
  then have jN: "j < N" and nz: "x_size x \<noteq> 0" using False by (auto simp: word_unat_eq_iff)
  have l: "M L < st_cnt s" "M L \<in> D" "M L \<notin> st_pend s" using da [OF jN] by simp_all
  have "unat (r_iblk w) \<le> L" using w [OF jN] by simp
  then obtain fs1 r where 1: "ext4_fs_get_inode_dblk_idx io (r_iblk w) True (fs, ir) = (Inr (M L), fs1, ir)"
      "fs_at rep fs0 (s\<lparr> st_room := R - r \<rparr>) fs1"
    using m a w [OF jN] unfolding maps_blocks_def by metis
  have "0 + unat (x_size x) \<le> bs" "j + unat (x_size x) \<le> N" "unat (x_size x) \<noteq> 0" "j + unat (x_size x) = N"
    using sz p jN by simp_all
  from piece_read_ok [OF 1(2) d f this(1-3) l bs, of "M L * ucast bsw" 0 ir] this(4) sz(1) obtain fs2 where
    2: "x_readbytes io (M L * ucast bsw) (x_size x) ((fs1, ir), x) =
        (Inr (), (fs2, ir), x\<lparr> x_buf := file_part (st_view s) bs M' P j @ take (N - j) (st_view s (M L)) @ drop N buf \<rparr>)"
      "fs_at rep fs0 (s\<lparr> st_room := R - r \<rparr>) fs2"
    by auto
  have u: "unat (x_pos x + x_size x) = P + N" "unat (x_cnt x + x_size x) = N"
    using sz jN f by (subst unat_add_le, simp_all add: xfer_fits_def)+
  let ?x = "x\<lparr> x_buf := file_part (st_view s) bs M' P j @ take (N - j) (st_view s (M L)) @ drop N buf,
    x_pos := x_pos x + x_size x, x_cnt := x_cnt x + x_size x \<rparr>"
  have "fread_tail io bsw w ((fs, ir), x) = (Inr (), (fs2, ir), ?x)"
    using nz 1(1) 2(1) by (simp add: fread_tail_def on_xi_def Let_def)
  then show ?thesis using 2(2) u by (intro exI [of _ ?x] exI [of _ fs2] exI [of _ "R - r"]) simp
qed

lemma fread_blocks_ok:
  assumes a: "fs_at rep fs0 (s\<lparr> st_room := R \<rparr>) fs" and m: "maps_blocks io rep fs0 s ir M ((P + N) div bs)"
    and L: "(P + N) div bs + 1 < 2 ^ 32" "3 * ((P + N) div bs - P div bs + 2) \<le> R"
    and x: "x = \<lparr> x_buf = buf, x_off = 0, x_size = n, x_pos = pos, x_cnt = 0 \<rparr>" "unat n = N" "unat pos = P" "N \<noteq> 0"
    and f: "xfer_fits P N buf" and da: "\<And>b. P div bs \<le> b \<Longrightarrow> b \<le> (P + N) div bs \<Longrightarrow> data_at D s M b"
    and tm: "tail_mapped M bs P N \<or> 0 < st_cnt s \<and> 0 \<in> D \<and> 0 \<notin> st_pend s" and bs: "bs = st_bsize s" "unat bsw = bs" "0 < bs"
  shows "\<exists>x' fs' R'. fread_blocks io bsw ((fs, ir), x) = (Inr (), (fs', ir), x') \<and>
      x_buf x' = seen_bytes (st_view s) bs M P N @ drop N buf \<and> unat (x_pos x') = P + N \<and> unat (x_cnt x') = N \<and>
      fs_at rep fs0 (s\<lparr> st_room := R' \<rparr>) fs'"
proof -
  let ?L = "(P + N) div bs" and ?F = "first_whole bs P" and ?M = "seen_map M bs P N"
  have "P div bs \<le> ?L" by (rule div_le_mono) simp
  note PL = this
  have Ls: "?L * bs \<le> P + N" "P + N < (?L + 1) * bs"
    by (rule block_bounds [OF bs(3)])+
  note FP = first_whole_above [OF bs(3), of P]
  have d0: "delivered (st_view s) bs M P N buf 0 x" using x by (simp add: delivered_def)
  have ub: "unat (ucast bsw :: u64) = bs" using bs(2) by (simp add: unat_ucast_up)
  have cw: "unat (ucast (pos div ucast bsw) :: u32) = P div bs"
    using PL L(1) x(3) ub by (subst unat_ucast_small) (simp_all add: unat_div)
  have un: "unat (ucast (pos mod ucast bsw) :: u32) = P mod bs"
  proof -
    have "P mod bs < bs" using bs(3) by simp
    also have "bs < 2 ^ 32" using bs(2) unat_lt32 [of bsw] by simp
    finally show ?thesis using x(3) ub by (subst unat_ucast_small) (simp_all add: unat_mod)
  qed
  have "unat (pos + n) = P + N" using x(2,3) f by (subst unat_add_le) (simp_all add: xfer_fits_def)
  then have lw: "unat (ucast ((pos + n) div ucast bsw) :: u32) = ?L"
    using L(1) ub by (subst unat_ucast_small) (simp_all add: unat_div)
  have R3: "3 \<le> R" and c1: "P div bs + 1 < 2 ^ 32" using L PL by simp_all
  have daP: "data_at D s M (P div bs)" using da PL by simp
  from fread_head_ok [OF a R3 m PL cw c1 un d0 f x(4) daP bs] obtain w1 x1 fs1 R1 where
    1: "fread_head io bsw (ucast (pos div ucast bsw)) (ucast (pos mod ucast bsw)) ((fs, ir), x) = (Inr w1, (fs1, ir), x1)"
      "collected M ?F 0 w1" "unat (r_iblk w1) = ?F" "delivered (st_view s) bs M P N buf (min N (?F * bs - P)) x1"
      "fs_at rep fs0 (s\<lparr> st_room := R1 \<rparr>) fs1" "R \<le> R1 + 3" by blast
  have "P + min N (?F * bs - P) \<le> ?F * bs" using FP by simp
  from delivered_cong [OF 1(4) this _ bs(3), of ?M] have d1: "delivered (st_view s) bs ?M P N buf (min N (?F * bs - P)) x1"
    by (simp add: seen_map_def read_map_def)
  let ?j = "whole_part bs P N"
  have "\<exists>w2 x2 fs2 R2. fread_loop FILE_FUEL io bsw (ucast ((pos + n) div ucast bsw)) w1 ((fs1, ir), x1) = (Inr w2, (fs2, ir), x2) \<and>
      delivered (st_view s) bs ?M P N buf ?j x2 \<and> (?F \<le> ?L \<longrightarrow> unat (r_iblk w2) = ?L) \<and>
      fs_at rep fs0 (s\<lparr> st_room := R2 \<rparr>) fs2 \<and> 3 \<le> R2"
  proof (cases "?F < ?L")
    case True
    have "?F * bs \<le> ?L * bs" using True by (intro mult_le_mono1) simp
    then have j: "min N (?F * bs - P) = ?F * bs - P" "P + (?F * bs - P) = ?F * bs" using Ls(1) FP by linarith+
    have run0: "running M ?F 0 w1" using 1(2,3) by (simp add: running_def)
    have daF: "data_at D s M b" if "?F \<le> b" "b < ?L" for b using da that by (simp add: first_whole_def)
    have "?L - ?F < FILE_FUEL" using L(1) by (simp add: FILE_FUEL_def)
    moreover have "3 * (?L - (?F + 0)) \<le> R1" using 1(6) L(2) by (simp add: first_whole_def split: if_splits)
    ultimately obtain w2 x2 fs2 R2 where
      "fread_loop FILE_FUEL io bsw (ucast ((pos + n) div ucast bsw)) w1 ((fs1, ir), x1) = (Inr w2, (fs2, ir), x2)"
      "delivered (st_view s) bs ?M P N buf (?L * bs - P) x2" "unat (r_iblk w2) = ?L"
      "fs_at rep fs0 (s\<lparr> st_room := R2 \<rparr>) fs2" "R1 \<le> R2 + 3 * (?L - (?F + 0))"
      using fread_loop_ok [OF m _ _ daF f bs Ls lw run0 _ order_refl True d1 [unfolded j(1) seen_map_def] j(2) 1(5), of FILE_FUEL] L(1)
      by (auto simp: seen_map_def)
    moreover have "3 \<le> R2" using 1(6) L(2) \<open>R1 \<le> _\<close> True by (simp add: first_whole_def split: if_splits)
    moreover have "?j = ?L * bs - P" using True by (simp add: whole_part_def)
    ultimately show ?thesis using True by (intro exI [of _ w2] exI [of _ x2] exI [of _ fs2] exI [of _ R2]) simp
  next
    case False
    have j: "min N (?F * bs - P) = ?j"
    proof (cases "?F \<le> ?L")
      case True
      then have "?F = ?L" using False by simp
      moreover have "?L * bs - P \<le> N" using Ls(1) by linarith
      ultimately show ?thesis by (simp add: min_absorb2 whole_part_def)
    next
      case False
      then have "(?L + 1) * bs \<le> ?F * bs" by (intro mult_le_mono1) simp
      then have "N \<le> ?F * bs - P" using Ls(2) by linarith
      then show ?thesis using False by (simp add: min_absorb1 whole_part_def)
    qed
    have "unat (x_size x1) = N - ?j" using d1 unfolding j by (simp add: delivered_def)
    also have "\<dots> < bs" using whole_part(1,2) [OF bs(3), where P = P and N = N] by linarith
    finally have "\<not> x_size x1 \<ge> ucast bsw" using ub by (simp add: word_le_nat_alt)
    then have "fread_loop FILE_FUEL io bsw (ucast ((pos + n) div ucast bsw)) w1 ((fs1, ir), x1) = (Inr w1, (fs1, ir), x1)"
      by (subst fread_loop.simps) simp
    then show ?thesis using 1(3,5,6) d1 L(2) False unfolding j by auto
  qed
  then obtain w2 x2 fs2 R2 where
    2: "fread_loop FILE_FUEL io bsw (ucast ((pos + n) div ucast bsw)) w1 ((fs1, ir), x1) = (Inr w2, (fs2, ir), x2)"
      "delivered (st_view s) bs ?M P N buf ?j x2" "?F \<le> ?L \<longrightarrow> unat (r_iblk w2) = ?L"
      "fs_at rep fs0 (s\<lparr> st_room := R2 \<rparr>) fs2" "3 \<le> R2" by blast
  have w2: "unat (r_iblk w2) = ?L" if "?j < N" using 2(3) whole_part(3) [OF bs(3) that] by blast
  have "M ?L < st_cnt s \<and> M ?L \<in> D \<and> M ?L \<notin> st_pend s" if "?j < N"
    using tm da [OF PL order_refl] that tail_mapped_iff [OF bs(3), of M P N]
    by (cases "M ?L = 0") (simp_all add: data_at_def)
  from fread_tail_ok [OF 2(4,5) m w2 2(2) f whole_part(2) [OF bs(3)] this bs] obtain x3 fs3 R3 where
    3: "fread_tail io bsw w2 ((fs2, ir), x2) = (Inr (), (fs3, ir), x3)"
      "x_buf x3 = seen_bytes (st_view s) bs M P N @ drop N buf" "unat (x_pos x3) = P + N" "unat (x_cnt x3) = N"
      "fs_at rep fs0 (s\<lparr> st_room := R3 \<rparr>) fs3" unfolding seen_bytes_def append_assoc by blast
  have "fread_blocks io bsw ((fs, ir), x) = (Inr (), (fs3, ir), x3)"
    using 1(1) 2(1) 3(1) x(1) by (simp add: fread_blocks_def Let_def)
  then show ?thesis using 3(2-5) by blast
qed

end

section \<open>Files mapped by pointers\<close>

definition pointer_map :: "(u64 \<Rightarrow> u8 list) \<Rightarrow> nat \<Rightarrow> ext4_inode \<Rightarrow> nat \<Rightarrow> u64" where
  "pointer_map V n i b = (case pointer_block V n i b of Inl _ \<Rightarrow> 0 | Inr a \<Rightarrow> a)"

text \<open>Where the inode of a number is: the block of the table of its group and the place in it.\<close>

definition inode_place :: "ext4_sblock \<Rightarrow> ext4_bgroup \<Rightarrow> u32 \<Rightarrow> u64 \<times> nat" where
  "inode_place sb bg idx =
     (let at_byte = ((idx - 1) mod sb_inodes_per_group sb) * ucast (sb_inode_size sb)
      in (ext4_bg_get_inode_table_first_block bg sb + ucast (at_byte div ext4_sb_get_block_size sb),
          unat (at_byte mod ext4_sb_get_block_size sb)))"

definition inode_found :: "ext4_sblock \<Rightarrow> store \<Rightarrow> u32 \<Rightarrow> u64 \<Rightarrow> ext4_inode \<Rightarrow> bool" where
  "inode_found sb s idx li i \<longleftrightarrow>
     (let g = (idx - 1) div sb_inodes_per_group sb
      in \<exists>bg off. group_ready sb (st_view s) g bg \<and> desc_block sb g < st_cnt s \<and> inode_place sb bg idx = (li, off) \<and>
         li \<noteq> 0 \<and> li < st_cnt s \<and> inode_at sb (st_view s li) off = Inr i)"

text \<open>
  The inode \<open>idx\<close> in block \<open>li\<close> is a file whose blocks are found through pointer blocks among \<open>ok\<close>, \<open>n\<close> pointers
  in each.
\<close>

definition pointer_file :: "'d ext4_fs \<Rightarrow> store \<Rightarrow> u32 \<Rightarrow> u64 \<Rightarrow> ext4_inode \<Rightarrow> nat \<Rightarrow> u64 set \<Rightarrow> bool" where
  "pointer_file fs s idx li i n ok \<longleftrightarrow>
     map_geom fs n \<and> inode_found (fs_sb fs) s idx li i \<and> st_pend s = {} \<and> st_bsize s = 4 * n \<and>
     ext4_sb_get_block_size (fs_sb fs) = of_nat (st_bsize s) \<and> tree_nodes s ok \<and>
     (\<forall>l. 0 < l \<and> l \<le> 3 \<and> in_blocks i ! (11 + l) \<noteq> 0 \<longrightarrow> ind_tree (st_view s) n ok l (ucast (in_blocks i ! (11 + l)))) \<and>
     ext4_inode_get_size (fs_sb fs) i \<noteq> 0 \<and> \<not> inode_uses_extents (fs_sb fs) i"

context block_reader begin

lemma get_inode_ok:
  assumes a: "fs_at rep fs0 s fs" and i: "inode_found (fs_sb fs0) s idx li i" and p: "st_pend s = {}" and room: "2 \<le> st_room s"
  shows "\<exists>ir fs'. ext4_fs_get_inode_ref io idx fs = (Inr ir, fs') \<and> ir_dirty ir = False \<and>
    fs_at rep fs0 (st_get li (s\<lparr> st_room := st_room s - 1 \<rparr>)) fs' \<and>
    inode_held (fs_sb fs0) ir li i (st_get li (s\<lparr> st_room := st_room s - 1 \<rparr>))"
proof -
  let ?sb = "fs_sb fs0" and ?g = "(idx - 1) div sb_inodes_per_group (fs_sb fs0)"
  obtain bg off where g: "group_ready ?sb (st_view s) ?g bg" "desc_block ?sb ?g < st_cnt s" "inode_place ?sb bg idx = (li, off)"
      "li \<noteq> 0" "li < st_cnt s" "inode_at ?sb (st_view s li) off = Inr i"
    using i by (auto simp: inode_found_def Let_def)
  let ?d = "desc_block ?sb ?g" and ?s1 = "s\<lparr> st_room := st_room s - 1 \<rparr>"
  let ?ir = "\<lparr> ir_block = blk li, ir_off = off, ir_index = idx - 1 + 1, ir_dirty = False \<rparr>"
  let ?Q = "\<lambda>ir fs'. ir = ?ir \<and> fs_at rep fs0 (st_get li ?s1) fs'"
  have sb: "fs_sb fs = ?sb" by (rule fs_at_fields [OF a])
  have d0: "?d \<noteq> 0" "group_at ?sb ?g (st_view s) = Inr bg" using g(1) by (simp_all add: group_ready_def)
  have room': "st_room s \<noteq> 0" "st_room ?s1 \<noteq> 0" using room by simp_all
  have s1: "st_set ?d (st_get ?d s) = ?s1" by (rule store.equality) (auto simp: st_set_def st_get_def)
  have last: "succeeds (fs_block_get io li fs') (\<lambda>b fs. b = blk li \<and> ?Q \<lparr> ir_block = b, ir_off = off, ir_index = idx - 1 + 1, ir_dirty = False \<rparr> fs)"
    if f: "fs_at rep fs0 (st_set ?d (st_get ?d s)) fs'" for fs'
    by (rule fs_get_rule [OF f [unfolded s1] _ room'(2)]) (use g(5) in simp_all)
  have "succeeds (ext4_fs_get_block_group_ref io ?g fs) (\<lambda>ref fs. succeeds (sread (bgr_load ref) fs) (\<lambda>bg' fs. bg' = bg \<and>
      succeeds (ext4_fs_put_block_group_ref io ref fs) (\<lambda>_ fs.
      succeeds (fs_block_get io li fs) (\<lambda>b fs. b = blk li \<and> ?Q \<lparr> ir_block = b, ir_off = off, ir_index = idx - 1 + 1, ir_dirty = False \<rparr> fs))))"
  proof (rule get_group_rule [OF a g(1) refl g(2) room'(1)])
    fix fs' assume f: "fs_at rep fs0 (st_get ?d s) fs'"
    have "bgr_load (grp_ref ?sb ?g False) fs' = Inr bg"
      by (rule bgr_load_eq [OF f]) (use d0 in \<open>simp_all add: store_simps\<close>)
    note ld = this
    have "succeeds (ext4_fs_put_block_group_ref io (grp_ref ?sb ?g False) fs') (\<lambda>_ fs.
        succeeds (fs_block_get io li fs) (\<lambda>b fs. b = blk li \<and> ?Q \<lparr> ir_block = b, ir_off = off, ir_index = idx - 1 + 1, ir_dirty = False \<rparr> fs))"
      by (rule put_group_clean_rule [OF f]) (use d0 p last in \<open>simp_all add: store_simps\<close>)
    then show "succeeds (sread (bgr_load (grp_ref ?sb ?g False)) fs') (\<lambda>bg' fs. bg' = bg \<and>
        succeeds (ext4_fs_put_block_group_ref io (grp_ref ?sb ?g False) fs) (\<lambda>_ fs.
        succeeds (fs_block_get io li fs) (\<lambda>b fs. b = blk li \<and> ?Q \<lparr> ir_block = b, ir_off = off, ir_index = idx - 1 + 1, ir_dirty = False \<rparr> fs)))"
      by (simp add: succeeds_sread [where f = "bgr_load _", OF ld])
  qed
  then have "succeeds (ext4_fs_get_inode_ref io idx fs) ?Q"
    using g(3) unfolding ext4_fs_get_inode_ref_def fs_get_inode_ref_def sb Let_def succeeds_simps
    by (rule_tac succeeds_mono) (auto simp: inode_place_def Let_def elim!: succeeds_mono)
  then obtain fs' where "ext4_fs_get_inode_ref io idx fs = (Inr ?ir, fs')" "fs_at rep fs0 (st_get li ?s1) fs'"
    by (auto simp: succeeds_def split: prod.splits sum.splits)
  then show ?thesis using g(6) by (intro exI [of _ ?ir] exI [of _ fs']) (simp add: inode_held_def store_simps)
qed

lemma pointer_maps:
  assumes g: "map_geom fs0 n" and p: "pointers_in (fs_sb fs0) ir li i n ok s"
    and i: "ext4_inode_get_size (fs_sb fs0) i \<noteq> 0" "\<not> inode_uses_extents (fs_sb fs0) i" and B: "B < map_base n 3"
  shows "maps_blocks io rep fs0 s ir (pointer_map (st_view s) n i) B"
  unfolding maps_blocks_def
proof (intro allI impI, elim conjE)
  fix b :: u32 and fs R assume b: "unat b \<le> B" and f: "fs_at rep fs0 (s\<lparr> st_room := R \<rparr>) fs" and R: "3 \<le> R"
  have "pointers_in (fs_sb fs0) ir li i n ok (s\<lparr> st_room := R \<rparr>)"
    using p by (simp add: pointers_in_def inode_held_def tree_nodes_def)
  from pointer_lookup_ok [OF f g this, of b] R obtain fs' r where
    1: "dblk_indirect io b (fs, ir) = (pointer_block (st_view s) n i (unat b), fs', ir)" "r \<le> 3"
      "fs_at rep fs0 (s\<lparr> st_room := R - r \<rparr>) fs'" by auto
  have "unat b < map_base n 3" using b B by simp
  then have "map_level n (unat b) \<noteq> None" by (simp add: map_level_def)
  then have "\<exists>x. pointer_block (st_view s) n i (unat b) = Inr x" by (auto simp: pointer_block_def Let_def)
  then obtain x where "pointer_block (st_view s) n i (unat b) = Inr x" ..
  then have "dblk_indirect io b (fs, ir) = (Inr (pointer_map (st_view s) n i (unat b)), fs', ir)" using 1(1) by (simp add: pointer_map_def)
  moreover have "is_inode (fs, ir) = Inr i" by (rule inode_eq(1) [OF f, of ir li]) (use p in \<open>simp add: pointers_in_def inode_held_def\<close>)
  moreover have "fs_sb fs = fs_sb fs0" by (rule fs_at_fields [OF f])
  ultimately show "\<exists>fs' r. ext4_fs_get_inode_dblk_idx io b True (fs, ir) = (Inr (pointer_map (st_view s) n i (unat b)), fs', ir) \<and> r \<le> 3 \<and>
      fs_at rep fs0 (s\<lparr> st_room := R - r \<rparr>) fs'"
    using 1(2,3) i by (intro exI [of _ fs'] exI [of _ r])
      (simp add: ext4_fs_get_inode_dblk_idx_def ext4_fs_get_inode_dblk_idx_internal_def sread_def)
qed

end

text \<open>
  The requests the theorems are about, of \<open>N\<close> bytes from position \<open>P\<close>: they stay inside the mapped range, their data blocks are not
  dirty in the cache, and neither is block 0 when the last piece of a block lies in a hole and so is read from there.
\<close>

definition read_request :: "u64 set \<Rightarrow> store \<Rightarrow> (nat \<Rightarrow> u64) \<Rightarrow> nat \<Rightarrow> nat \<Rightarrow> nat \<Rightarrow> u8 list \<Rightarrow> bool" where
  "read_request D s M B P N buf \<longleftrightarrow>
     N \<noteq> 0 \<and> xfer_fits P N buf \<and> (P + N) div st_bsize s < B \<and> (P + N) div st_bsize s + 1 < 2 ^ 32 \<and>
     (\<forall>b. P div st_bsize s \<le> b \<and> b \<le> (P + N) div st_bsize s \<longrightarrow> data_at D s M b) \<and>
     (tail_mapped M (st_bsize s) P N \<or> 0 < st_cnt s \<and> 0 \<in> D \<and> 0 \<notin> st_pend s) \<and>
     3 * ((P + N) div st_bsize s - P div st_bsize s + 2) + 2 \<le> st_room s"

context data_reader begin

lemma fread_body_ok:
  assumes a: "fs_at rep fs0 s fs" and g: "map_geom fs0 n" and p: "pointers_in (fs_sb fs0) ir li i n ok s" "st_pend s = {}"
    and i: "\<not> inode_uses_extents (fs_sb fs0) i" "\<not> short_link (fs_sb fs0) i (ext4_inode_get_size (fs_sb fs0) i)"
    and sz: "ext4_inode_get_size (fs_sb fs0) i \<noteq> 0" "N = min (unat m) (unat (ext4_inode_get_size (fs_sb fs0) i - pos))"
    and bw: "ext4_sb_get_block_size (fs_sb fs0) = of_nat (st_bsize s)"
    and r: "N \<noteq> 0" "xfer_fits P N buf" "(P + N) div st_bsize s < map_base n 3" "(P + N) div st_bsize s + 1 < 2 ^ 32"
      "\<And>b. P div st_bsize s \<le> b \<Longrightarrow> b \<le> (P + N) div st_bsize s \<Longrightarrow> data_at D s (pointer_map (st_view s) n i) b"
      "tail_mapped (pointer_map (st_view s) n i) (st_bsize s) P N \<or> 0 < st_cnt s \<and> 0 \<in> D \<and> 0 \<notin> st_pend s" "3 * ((P + N) div st_bsize s - P div st_bsize s + 2) \<le> st_room s"
    and pos: "unat pos = P"
  shows "\<exists>x' fs' R'. fread_body io ((fs, ir), \<lparr> x_buf = buf, x_off = 0, x_size = m, x_pos = pos, x_cnt = 0 \<rparr>) = (Inr (), (fs', ir), x') \<and>
      x_buf x' = seen_bytes (st_view s) (st_bsize s) (pointer_map (st_view s) n i) P N @ drop N buf \<and>
      unat (x_pos x') = P + N \<and> unat (x_cnt x') = N \<and> fs_at rep fs0 (s\<lparr> st_room := R' \<rparr>) fs'"
proof -
  let ?f = "ext4_inode_get_size (fs_sb fs0) i" and ?M = "pointer_map (st_view s) n i" and ?L = "(P + N) div st_bsize s"
  have ih: "inode_held (fs_sb fs0) ir li i s" and nb: "st_bsize s = 4 * n" using p(1) by (simp_all add: pointers_in_def)
  have inode: "is_inode (fs, ir) = Inr i" by (rule inode_eq [OF a ih])
  have sb: "fs_sb fs = fs_sb fs0" by (rule fs_at_fields [OF a])
  have bs: "0 < st_bsize s" "unat (of_nat (st_bsize s) :: u32) = st_bsize s"
    using nb g by (simp_all add: map_geom_def unsigned_of_nat take_bit_nat_eq_self del: of_nat_mult)
  let ?n = "if m > ?f - pos then ?f - pos else m"
  have un: "unat ?n = N" using sz(2) by (auto simp: word_less_nat_alt min_def)
  note maps = pointer_maps [OF g p(1) sz(1) i(1) r(3)]
  have a0: "fs_at rep fs0 (s\<lparr> st_room := st_room s \<rparr>) fs" using a by simp
  from fread_blocks_ok [OF a0 maps r(4,7) refl un pos r(1,2,5,6) refl bs(2,1)] obtain x' fs' R' where
    1: "fread_blocks io (of_nat (st_bsize s)) ((fs, ir), \<lparr> x_buf = buf, x_off = 0, x_size = ?n, x_pos = pos, x_cnt = 0 \<rparr>) = (Inr (), (fs', ir), x')"
      "x_buf x' = seen_bytes (st_view s) (st_bsize s) ?M P N @ drop N buf" "unat (x_pos x') = P + N" "unat (x_cnt x') = N"
      "fs_at rep fs0 (s\<lparr> st_room := R' \<rparr>) fs'" by auto
  have "fread_body io ((fs, ir), \<lparr> x_buf = buf, x_off = 0, x_size = m, x_pos = pos, x_cnt = 0 \<rparr>) = (Inr (), (fs', ir), x')"
    using inode i(2) bw 1(1) by (simp add: fread_body_def on_xi_def sread_def sb Let_def split del: if_split cong: if_cong)
  then show ?thesis using 1(2-5) by blast
qed

lemma fread_ok:
  assumes a: "fs_at rep fs0 s fs" and p: "pointer_file fs0 s (f_inode f) li i n ok"
    and i: "\<not> short_link (fs_sb fs0) i (ext4_inode_get_size (fs_sb fs0) i)" and f: "f_flags f AND O_WRONLY = 0"
    and P: "P = unat (f_fpos f)" and N: "N = min (unat m) (unat (ext4_inode_get_size (fs_sb fs0) i - f_fpos f))"
    and r: "read_request D s (pointer_map (st_view s) n i) (map_base n 3) P N buf"
  shows "\<exists>fs' R'. ext4_fread io buf m f fs =
      ((Inr (), seen_bytes (st_view s) (st_bsize s) (pointer_map (st_view s) n i) P N @ drop N buf, Some (of_nat N)),
       f\<lparr> f_fsize := ext4_inode_get_size (fs_sb fs0) i, f_fpos := of_nat (P + N) \<rparr>, fs') \<and>
    fs_at rep fs0 (s\<lparr> st_room := R' \<rparr>) fs'"
proof -
  let ?z = "ext4_inode_get_size (fs_sb fs0) i" and ?M = "pointer_map (st_view s) n i"
  let ?s1 = "st_get li (s\<lparr> st_room := st_room s - 1 \<rparr>)"
  have q: "map_geom fs0 n" "inode_found (fs_sb fs0) s (f_inode f) li i" "st_pend s = {}" "st_bsize s = 4 * n"
      "ext4_sb_get_block_size (fs_sb fs0) = of_nat (st_bsize s)" "tree_nodes s ok" "\<not> inode_uses_extents (fs_sb fs0) i"
      "ext4_inode_get_size (fs_sb fs0) i \<noteq> 0"
    using p by (simp_all add: pointer_file_def)
  have rq: "N \<noteq> 0" "xfer_fits P N buf" "(P + N) div st_bsize s < map_base n 3" "(P + N) div st_bsize s + 1 < 2 ^ 32"
      "\<And>b. P div st_bsize s \<le> b \<Longrightarrow> b \<le> (P + N) div st_bsize s \<Longrightarrow> data_at D s ?M b"
      "tail_mapped ?M (st_bsize s) P N \<or> 0 < st_cnt s \<and> 0 \<in> D \<and> 0 \<notin> st_pend s"
      "3 * ((P + N) div st_bsize s - P div st_bsize s + 2) + 2 \<le> st_room s"
    using r by (simp_all add: read_request_def)
  have room: "2 \<le> st_room s" using rq(7) by simp
  from get_inode_ok [OF a q(2,3) room] obtain ir fs1 where
    1: "ext4_fs_get_inode_ref io (f_inode f) fs = (Inr ir, fs1)" "ir_dirty ir = False" "fs_at rep fs0 ?s1 fs1"
      "inode_held (fs_sb fs0) ir li i ?s1" by blast
  have li: "li \<noteq> 0" using q(2) by (auto simp: inode_found_def Let_def)
  have load: "ir_load ir fs1 = Inr i" using inode_eq(1) [OF 1(3,4)] by (simp add: is_inode_def)
  have sb1: "fs_sb fs1 = fs_sb fs0" by (rule fs_at_fields [OF 1(3)])
  have p1: "pointers_in (fs_sb fs0) ir li i n ok ?s1"
    using p 1(4) by (simp add: pointer_file_def pointers_in_def tree_nodes_def store_simps)
  have r1: "data_at D ?s1 (pointer_map (st_view ?s1) n i) b" if "P div st_bsize ?s1 \<le> b" "b \<le> (P + N) div st_bsize ?s1" for b
    using rq(5) [of b] that by (simp add: data_at_def store_simps)
  have "st_pend ?s1 = {}" "ext4_sb_get_block_size (fs_sb fs0) = of_nat (st_bsize ?s1)" "(P + N) div st_bsize ?s1 < map_base n 3"
      "(P + N) div st_bsize ?s1 + 1 < 2 ^ 32" "tail_mapped (pointer_map (st_view ?s1) n i) (st_bsize ?s1) P N \<or> 0 < st_cnt ?s1 \<and> 0 \<in> D \<and> 0 \<notin> st_pend ?s1"
      "3 * ((P + N) div st_bsize ?s1 - P div st_bsize ?s1 + 2) \<le> st_room ?s1"
    using q(3,5) rq by (simp_all add: store_simps)
  from fread_body_ok [OF 1(3) q(1) p1 this(1) q(7) i q(8) N this(2) rq(1,2) this(3,4) r1 this(5,6) P [symmetric]] obtain x fs2 R where
    2: "fread_body io ((fs1, ir), \<lparr> x_buf = buf, x_off = 0, x_size = m, x_pos = f_fpos f, x_cnt = 0 \<rparr>) = (Inr (), (fs2, ir), x)"
      "x_buf x = seen_bytes (st_view s) (st_bsize s) ?M P N @ drop N buf" "unat (x_pos x) = P + N" "unat (x_cnt x) = N"
      "fs_at rep fs0 (?s1\<lparr> st_room := R \<rparr>) fs2" by (auto simp: store_simps)
  have "st_refs (?s1\<lparr> st_room := R \<rparr>) li \<noteq> 0" "li \<notin> st_pend (?s1\<lparr> st_room := R \<rparr>)" using q(3) by (simp_all add: store_simps)
  from set_eq [OF 2(5) this(1) li this(2)] obtain fs3 where
    3: "fs_block_set io (blk li) fs2 = (Inr (), fs3)" "fs_at rep fs0 (st_set li (?s1\<lparr> st_room := R \<rparr>)) fs3" by blast
  have s3: "st_set li (?s1\<lparr> st_room := R \<rparr>) = s\<lparr> st_room := R \<rparr>"
    by (rule store.equality) (auto simp: st_set_def st_get_def)
  have "ir_block ir = blk li" using 1(4) by (simp add: inode_held_def)
  then have put: "sforget (ext4_fs_put_inode_ref io ir fs2) = (Inr (), fs3)"
    using 1(2) 3(1) by (simp add: ext4_fs_put_inode_ref_def sforget_def)
  have w: "x_pos x = of_nat (P + N)" unfolding 2(3) [symmetric] by simp
  have w': "x_cnt x = of_nat N" unfolding 2(4) [symmetric] by simp
  have m0: "m \<noteq> 0" using N rq(1) by auto
  have "ext4_fread io buf m f fs = ((Inr (), x_buf x, Some (of_nat N)), f\<lparr> f_fsize := ?z, f_fpos := of_nat (P + N) \<rparr>, fs3)"
    using f m0 1(1) load 2(1) put w w' by (simp add: ext4_fread_def sb1 Let_def)
  then show ?thesis using 2(2) 3(2) unfolding s3 by auto
qed

end

end
