(* ===== verification/FileProps.thy ===== *)
theory FileProps
  imports FileRead VolumeFile
begin

text \<open>
  What reading a file promises and what it does not, and a file of five blocks on a volume of eight 1 KiB blocks that
  the properties are applied to.
\<close>

section \<open>The properties\<close>

text \<open>No hole in front of a mapped block, from \<open>c\<close> up to \<open>L\<close>; then a request sees the map as it is.\<close>

definition no_gap :: "(nat \<Rightarrow> u64) \<Rightarrow> nat \<Rightarrow> nat \<Rightarrow> bool" where
  "no_gap M c L \<longleftrightarrow> (\<forall>b. c \<le> b \<and> Suc b < L \<and> M b = 0 \<longrightarrow> M (Suc b) = 0)"

lemma seen_map_no_gap: "no_gap M (first_whole bs P) ((P + N) div bs) \<Longrightarrow> seen_map M bs P N = M"
  by (auto simp: seen_map_def read_map_def no_gap_def fun_eq_iff)

definition file_bytes :: "(u64 \<Rightarrow> u8 list) \<Rightarrow> nat \<Rightarrow> (nat \<Rightarrow> u64) \<Rightarrow> nat \<Rightarrow> u8 list" where
  "file_bytes V bs M z = file_part V bs M 0 z"

lemma file_part_slice: "P + N \<le> k \<Longrightarrow> file_part V bs M P N = slice (file_bytes V bs M k) P N"
  by (rule nth_equalityI) (simp_all add: slice_def file_bytes_def file_part_def)

text \<open>A file open for reading, and what a request of \<open>m\<close> bytes asks of it.\<close>

definition open_file :: "'d ext4_fs \<Rightarrow> store \<Rightarrow> ext4_file \<Rightarrow> u64 \<Rightarrow> ext4_inode \<Rightarrow> nat \<Rightarrow> u64 set \<Rightarrow> bool" where
  "open_file fs s f li i n ok \<longleftrightarrow>
     pointer_file fs s (f_inode f) li i n ok \<and> \<not> short_link (fs_sb fs) i (ext4_inode_get_size (fs_sb fs) i) \<and>
     f_flags f AND O_WRONLY = 0"

definition wanted :: "'d ext4_fs \<Rightarrow> ext4_file \<Rightarrow> ext4_inode \<Rightarrow> u64 \<Rightarrow> nat" where
  "wanted fs f i m = min (unat m) (unat (ext4_inode_get_size (fs_sb fs) i - f_fpos f))"

text \<open>What a request sees, whatever holes it meets.\<close>

lemma fread_seen:
  assumes "clean_abs hf_content D (fs_bdev fs) s" and "open_file fs s f li i n ok"
    and "P = unat (f_fpos f)" and "N = wanted fs f i m"
    and "read_request D s (pointer_map (st_view s) n i) (map_base n 3) P N buf"
  shows "\<exists>bd r. ext4_fread file_dev_iface buf m f fs =
      ((Inr (), seen_bytes (st_view s) (st_bsize s) (pointer_map (st_view s) n i) P N @ drop N buf, Some (of_nat N)),
       f\<lparr> f_fsize := ext4_inode_get_size (fs_sb fs) i, f_fpos := of_nat (P + N) \<rparr>, fs\<lparr> fs_bdev := bd \<rparr>) \<and>
    clean_abs hf_content D bd (s\<lparr> st_room := r \<rparr>)"
proof -
  have "pointer_file fs s (f_inode f) li i n ok" "\<not> short_link (fs_sb fs) i (ext4_inode_get_size (fs_sb fs) i)" "f_flags f AND O_WRONLY = 0"
    using assms(2) by (simp_all add: open_file_def)
  from file_dev.data.fread_ok [OF fs_at_self this assms(3) assms(4) [unfolded wanted_def] assms(5)] assms(1)
  show ?thesis by (auto simp: fs_at_def)
qed

lemma request_blocks:
  assumes a: "clean_abs hf_content D (fs_bdev fs) s" and o: "open_file fs s f li i n ok"
    and r: "read_request D s M B P N buf" and b: "P div st_bsize s \<le> b" "b \<le> (P + N) div st_bsize s"
  shows "0 < st_bsize s" and "M b \<noteq> 0 \<Longrightarrow> length (st_view s (M b)) = st_bsize s"
proof -
  have "st_bsize s = 4 * n" "256 \<le> n" using o by (simp_all add: open_file_def pointer_file_def map_geom_def)
  then show "0 < st_bsize s" by simp
  assume "M b \<noteq> 0"
  then have "M b < st_cnt s" using r b by (auto simp: read_request_def data_at_def)
  moreover have "store_abs hf_content (fs_bdev fs) s" using a by (simp add: clean_abs_def)
  ultimately show "length (st_view s (M b)) = st_bsize s" by (intro file_dev.store.store_length)
qed

lemma seen_request:
  assumes "clean_abs hf_content D (fs_bdev fs) s" and "open_file fs s f li i n ok"
    and "read_request D s M B P N buf" and "tail_mapped M (st_bsize s) P N"
  shows "seen_bytes (st_view s) (st_bsize s) M P N = file_part (st_view s) (st_bsize s) (seen_map M (st_bsize s) P N) P N"
  by (rule seen_bytes_mapped [OF _ assms(4)]) (use request_blocks [OF assms(1-3)] div_le_mono [of P "P + N" "st_bsize s"] in auto)

text \<open>
  C10: reading a file is exact. For a file mapped by pointer blocks that is no short link, with the position in front of its end and the
  data blocks of the request not dirty in the cache, \<open>ext4_fread\<close> delivers the bytes of the file from the position on, up to the end
  of the file, and nothing else in the buffer changes; the count and the new position are those bytes, and no block of the volume
  changes. Two kinds of request are excluded: one that meets a hole which a mapped block follows, and one that ends inside a block
  (beyond the one it starts in) that is a hole.
\<close>

theorem fread_exact:
  assumes "clean_abs hf_content D (fs_bdev fs) s" and "open_file fs s f li i n ok"
    and "f_fpos f < ext4_inode_get_size (fs_sb fs) i"
    and "P = unat (f_fpos f)" and "N = wanted fs f i m"
    and "read_request D s (pointer_map (st_view s) n i) (map_base n 3) P N buf"
    and "no_gap (pointer_map (st_view s) n i) (first_whole (st_bsize s) P) ((P + N) div st_bsize s)"
    and "tail_mapped (pointer_map (st_view s) n i) (st_bsize s) P N"
  shows "\<exists>bd r. ext4_fread file_dev_iface buf m f fs =
      ((Inr (), slice (file_bytes (st_view s) (st_bsize s) (pointer_map (st_view s) n i) (unat (ext4_inode_get_size (fs_sb fs) i))) P N @
          drop N buf, Some (of_nat N)),
       f\<lparr> f_fsize := ext4_inode_get_size (fs_sb fs) i, f_fpos := of_nat (P + N) \<rparr>, fs\<lparr> fs_bdev := bd \<rparr>) \<and>
    clean_abs hf_content D bd (s\<lparr> st_room := r \<rparr>)"
proof -
  let ?z = "ext4_inode_get_size (fs_sb fs) i"
  have "unat (?z - f_fpos f) = unat ?z - P" using assms(3,4) by (subst unat_minus_le) (simp_all add: word_less_nat_alt)
  then have "P + N \<le> unat ?z" using assms(3,4,5) by (simp add: wanted_def word_less_nat_alt)
  note part = file_part_slice [OF this]
  from fread_seen [OF assms(1,2,4-6)] show ?thesis
    unfolding seen_request [OF assms(1,2,6,8)] seen_map_no_gap [OF assms(7)] part .
qed

text \<open>
  C37: a hole can read as data. When a hole lies in front of a mapped block, both whole in the request, \<open>ext4_fread\<close>
  succeeds and delivers the bytes of that block in place of the zeros of the hole.
\<close>

theorem fread_hole_reads_next:
  assumes "clean_abs hf_content D (fs_bdev fs) s" and "open_file fs s f li i n ok"
    and "P = unat (f_fpos f)" and "N = wanted fs f i m"
    and "read_request D s (pointer_map (st_view s) n i) (map_base n 3) P N buf"
    and "pointer_map (st_view s) n i b = 0" and "pointer_map (st_view s) n i (Suc b) \<noteq> 0"
    and "first_whole (st_bsize s) P \<le> b" and "Suc b < (P + N) div st_bsize s"
  shows "\<exists>out f' fs'. ext4_fread file_dev_iface buf m f fs = ((Inr (), out, Some (of_nat N)), f', fs') \<and>
    take (st_bsize s) (drop (b * st_bsize s - P) out) = st_view s (pointer_map (st_view s) n i (Suc b))"
proof -
  let ?bs = "st_bsize s" and ?M = "pointer_map (st_view s) n i" and ?S = "seen_map (pointer_map (st_view s) n i) (st_bsize s) P N"
  let ?p = "b * ?bs - P"
  have PL: "P div ?bs \<le> (P + N) div ?bs" by (rule div_le_mono) simp
  note blks = request_blocks [OF assms(1,2,5)]
  have bs: "0 < ?bs" by (rule blks(1) [OF order_refl PL])
  have sb: "?S b = ?M (Suc b)" using assms(6,8,9) by (simp add: seen_map_def read_map_def)
  have "P \<le> first_whole ?bs P * ?bs"
    using block_bounds [OF bs, of P] by (cases "P mod ?bs = 0") (simp_all add: first_whole_def)
  also have "\<dots> \<le> b * ?bs" using assms(8) by (rule mult_le_mono1)
  finally have Pb: "P + ?p = b * ?bs" by simp
  have "Suc b * ?bs \<le> (P + N) div ?bs * ?bs" using assms(9) by (intro mult_le_mono1) simp
  also have "\<dots> \<le> P + N" by (rule block_bounds(1) [OF bs])
  finally have "b * ?bs + ?bs \<le> P + N" by simp
  define w where "w = whole_part ?bs P N"
  have "first_whole ?bs P \<le> (P + N) div ?bs" using assms(8,9) by simp
  then have "w = (P + N) div ?bs * ?bs - P" by (simp add: w_def whole_part_def)
  then have fit: "?p + ?bs \<le> w" using Pb \<open>Suc b * ?bs \<le> _\<close> by simp
  have "P div ?bs \<le> Suc b" using assms(8) by (simp add: first_whole_def split: if_splits)
  then have "length (st_view s (?M (Suc b))) = ?bs" using blks(2) [of "Suc b"] assms(7,9) by simp
  then have blk: "file_blk (st_view s) ?bs ?S b = st_view s (?M (Suc b))" "length (file_blk (st_view s) ?bs ?S b) = ?bs"
    using sb assms(7) by (simp_all add: file_blk_def)
  obtain d where w: "w = ?p + (?bs + d)" using fit by (metis add.assoc le_Suc_ex)
  have "file_part (st_view s) ?bs ?S P w = file_part (st_view s) ?bs ?S P ?p @ file_part (st_view s) ?bs ?S (b * ?bs) ?bs @
      file_part (st_view s) ?bs ?S (b * ?bs + ?bs) d"
    by (subst w) (simp only: file_part_add Pb)
  then have "take ?bs (drop ?p (seen_bytes (st_view s) ?bs ?M P N @ drop N buf)) = st_view s (?M (Suc b))"
    using file_part_block [OF blk(2) bs] blk by (simp add: seen_bytes_def w_def [symmetric])
  moreover obtain bd r where "ext4_fread file_dev_iface buf m f fs =
      ((Inr (), seen_bytes (st_view s) ?bs ?M P N @ drop N buf, Some (of_nat N)),
       f\<lparr> f_fsize := ext4_inode_get_size (fs_sb fs) i, f_fpos := of_nat (P + N) \<rparr>, fs\<lparr> fs_bdev := bd \<rparr>)"
    using fread_seen [OF assms(1-5)] by blast
  ultimately show ?thesis by blast
qed

text \<open>
  C38: behind the end of a file there is more to read. With the position past the end, the bytes left are
  computed without a sign, so \<open>ext4_fread\<close> delivers as many bytes as it is asked for, of what the blocks mapped there hold
  (of a request that does not end inside a hole).
\<close>

theorem fread_past_end:
  assumes "clean_abs hf_content D (fs_bdev fs) s" and "open_file fs s f li i n ok"
    and "ext4_inode_get_size (fs_sb fs) i < f_fpos f" and "unat (f_fpos f) < 2 ^ 63"
    and "read_request D s (pointer_map (st_view s) n i) (map_base n 3) (unat (f_fpos f)) (unat m) buf"
    and "tail_mapped (pointer_map (st_view s) n i) (st_bsize s) (unat (f_fpos f)) (unat m)"
  shows "\<exists>out f' fs'. ext4_fread file_dev_iface buf m f fs = ((Inr (), out, Some m), f', fs') \<and> f_fpos f' = f_fpos f + m \<and>
    take (unat m) out = file_part (st_view s) (st_bsize s)
      (seen_map (pointer_map (st_view s) n i) (st_bsize s) (unat (f_fpos f)) (unat m)) (unat (f_fpos f)) (unat m)"
proof -
  let ?z = "ext4_inode_get_size (fs_sb fs) i"
  have "unat (?z - f_fpos f) = 2 ^ 64 - (unat (f_fpos f) - unat ?z)"
    using assms(3) unat_lt64 [of "f_fpos f"] by (simp add: unat_sub_if_size word_size word_less_nat_alt word_le_nat_alt)
  moreover have "unat m < 2 ^ 32" using assms(5) by (simp add: read_request_def xfer_fits_def)
  ultimately have w: "wanted fs f i m = unat m" using assms(4) by (simp add: wanted_def)
  from fread_seen [OF assms(1,2) refl refl, of m buf, unfolded w, OF assms(5)] seen_request [OF assms(1,2,5,6)]
  show ?thesis by auto
qed

text \<open>
  C39: the end of a read can come from block 0. When a request on a file mapped by pointer blocks ends inside a block that is a
  hole, behind the block it starts in, and neither its data blocks nor block 0 are dirty in the cache, \<open>ext4_fread\<close> succeeds and
  its last bytes are the first bytes of block 0 of the volume in place of zeros.
\<close>

theorem fread_tail_hole:
  assumes "clean_abs hf_content D (fs_bdev fs) s" and "open_file fs s f li i n ok"
    and "P = unat (f_fpos f)" and "N = wanted fs f i m"
    and "read_request D s (pointer_map (st_view s) n i) (map_base n 3) P N buf"
    and "first_whole (st_bsize s) P \<le> (P + N) div st_bsize s" and "pointer_map (st_view s) n i ((P + N) div st_bsize s) = 0"
    and "r = (P + N) mod st_bsize s" and "r \<noteq> 0"
  shows "\<exists>out f' fs'. ext4_fread file_dev_iface buf m f fs = ((Inr (), out, Some (of_nat N)), f', fs') \<and>
    slice out (N - r) r = slice (st_view s 0) 0 r"
proof -
  let ?bs = "st_bsize s" and ?M = "pointer_map (st_view s) n i" and ?w = "whole_part (st_bsize s) P N"
  have bs: "0 < ?bs" by (rule request_blocks(1) [OF assms(1,2,5) order_refl]) (simp add: div_le_mono)
  have t: "\<not> tail_mapped ?M ?bs P N" using assms(6-9) by (simp add: tail_mapped_def)
  then have "?w < N" by (simp add: tail_mapped_iff [OF bs] assms(7))
  then have w: "?w = N - r" "N - ?w = r" "r \<le> N" using whole_part(3) [OF bs, where P = P and N = N] assms(8) by auto
  have "0 < st_cnt s" using t assms(5) by (simp add: read_request_def)
  moreover have "store_abs hf_content (fs_bdev fs) s" using assms(1) by (simp add: clean_abs_def)
  ultimately have "length (st_view s 0) = ?bs" by (intro file_dev.store.store_length)
  moreover have "r \<le> ?bs" using assms(8) bs by (simp add: less_imp_le)
  ultimately have "slice (seen_bytes (st_view s) ?bs ?M P N @ drop N buf) (N - r) r = slice (st_view s 0) 0 r"
    using w assms(7) by (simp add: seen_bytes_def slice_def)
  then show ?thesis using fread_seen [OF assms(1-5)] by blast
qed

section \<open>A small file\<close>

text \<open>
  Inode 1 of the volume is in block 5. Its blocks are 7, a hole, 4, 6 and 3, its size is 4500 bytes; the data blocks and block 0 hold one
  byte value each.
\<close>

definition doc_bg :: ext4_bgroup where
  "doc_bg = (bg_of_bytes (replicate 64 0))\<lparr> bg_inode_table_first_block_lo := 5 \<rparr>"

definition doc_inode :: ext4_inode where
  "doc_inode = (inode_of_bytes (replicate 156 0))\<lparr> in_mode := 0x8000, in_size_lo := 4500,
     in_blocks := [7, 0, 4, 6, 3, 0, 0, 0, 0, 0, 0, 0, 0, 0, 0] \<rparr>"

definition doc_desc :: "u8 list" where "doc_desc = take 32 (bg_bytes doc_bg) @ replicate 992 0"
definition doc_table :: "u8 list" where "doc_table = take 128 (inode_bytes doc_inode) @ replicate 896 0"

definition doc_image :: "u8 list" where
  "doc_image = replicate 1024 0xA0 @ replicate 1024 0 @ doc_desc @ replicate 1024 0xA3 @ replicate 1024 0xA4 @ doc_table @ replicate 1024 0xA6 @
     replicate 1024 0xA7"

definition doc_store :: store where "doc_store = (small_store doc_image)\<lparr> st_room := 20000 \<rparr>"

definition doc_fs :: "hostfile ext4_fs" where
  "doc_fs = (vol_fs (small_dev doc_image))\<lparr> fs_inode_block_limits := fst (fs_block_limits 1024),
     fs_inode_blocks_per_level := snd (fs_block_limits 1024) \<rparr>"

definition doc_file :: "u64 \<Rightarrow> ext4_file" where
  "doc_file pos = \<lparr> f_inode = 1, f_flags = O_RDONLY, f_fsize = 0, f_fpos = pos \<rparr>"

lemma doc_inode_bytes: "length (inode_bytes doc_inode) = 156" "drop 128 (inode_bytes doc_inode) = replicate 28 0"
  by code_simp+

lemma doc_lengths [simp]: "length doc_desc = 1024" "length doc_table = 1024" "length doc_image = 8192"
  by (simp_all add: doc_desc_def doc_table_def doc_image_def doc_inode_bytes)

lemma doc_view:
  "st_view doc_store 0 = replicate 1024 0xA0" "st_view doc_store 2 = doc_desc" "st_view doc_store 3 = replicate 1024 0xA3" "st_view doc_store 4 = replicate 1024 0xA4"
  "st_view doc_store 5 = doc_table" "st_view doc_store 6 = replicate 1024 0xA6" "st_view doc_store 7 = replicate 1024 0xA7"
  by (simp_all add: doc_store_def small_store_def slice_def doc_image_def)

lemma doc_fields [simp]: "st_refs doc_store l = 0" "st_pend doc_store = {}" "st_room doc_store = 20000" "st_cnt doc_store = 8" "st_bsize doc_store = 1024"
  by (simp_all add: doc_store_def small_store_def)

lemma doc_sb: "fs_sb doc_fs = vol_sb" "fs_bdev doc_fs = small_dev doc_image"
  by (simp_all add: doc_fs_def vol_fs_def)

lemma doc_clean: "clean_abs hf_content UNIV (fs_bdev doc_fs) doc_store"
proof -
  have "store_abs hf_content (small_dev doc_image) (small_store doc_image)" by (rule small_store_abs) simp
  then have "store_abs hf_content (small_dev doc_image) doc_store"
    by (simp add: store_abs_def doc_store_def) (simp add: small_store_def small_dev_def tiny_dev_def vol_cache_def tiny_cache_def)
  then show ?thesis
    by (simp add: clean_abs_def doc_sb clean_on_def) (simp add: small_dev_def vol_cache_def tiny_cache_def ext4_buf_lookup_def)
qed

lemma doc_group: "group_ready vol_sb (st_view doc_store) 0 doc_bg"
proof -
  have "bg_narrow vol_sb doc_bg"
    unfolding bg_narrow_iff by (simp add: doc_bg_def bg_of_bytes_def get_field_defs le_dec_zeros)
  then have "group_at vol_sb 0 (st_view doc_store) = Inr doc_bg"
    by (simp add: group_at_def bg_at_def vol_geometry doc_view doc_desc_def rd_range_def bg_narrow_def)
  moreover have "\<not> ext4_bg_has_flag doc_bg f" for f
    by (simp add: ext4_bg_has_flag_def) (simp add: doc_bg_def bg_of_bytes_def get_field_defs le_dec_zeros)
  ultimately show ?thesis by (simp add: group_ready_def vol_geometry)
qed

lemma doc_blocks: "in_blocks doc_inode = [7, 0, 4, 6, 3, 0, 0, 0, 0, 0, 0, 0, 0, 0, 0]" by (simp add: doc_inode_def)

lemma doc_geometry: "sb_inodes_per_group vol_sb \<noteq> 0" "ext4_sb_get_block_size vol_sb = 1024" "\<not> ext4_sb_feature_incom vol_sb f"
  by (simp_all add: ext4_sb_get_block_size_def ext4_sb_feature_incom_def vol_sb_def sb_sample_def)

lemma doc_inode_at: "inode_at vol_sb (st_view doc_store 5) 0 = Inr doc_inode"
proof -
  have "take 128 (inode_bytes doc_inode) @ replicate 28 0 = inode_bytes doc_inode"
    unfolding doc_inode_bytes(2) [symmetric] by (rule append_take_drop_id)
  then show ?thesis
    using doc_inode_bytes(1) inode_of_bytes_inode_bytes [of doc_inode]
    by (simp add: inode_at_def rd_range_def inode_width_def vol_geometry doc_view doc_table_def doc_blocks)
qed

lemma doc_found: "inode_found vol_sb doc_store 1 5 doc_inode"
proof -
  have "ext4_bg_get_inode_table_first_block doc_bg vol_sb = 5"
    by (simp add: ext4_bg_get_inode_table_first_block_def vol_geometry ext4_consts) (simp add: doc_bg_def)
  then have "inode_place vol_sb doc_bg 1 = (5, 0)" by (simp add: inode_place_def Let_def)
  then show ?thesis using doc_group doc_inode_at by (auto simp: inode_found_def vol_geometry)
qed

lemma doc_size: "ext4_inode_get_size vol_sb doc_inode = 4500"
  and doc_extents: "\<not> inode_uses_extents vol_sb doc_inode"
  and doc_mode: "\<not> short_link vol_sb doc_inode 4500"
proof -
  have h: "in_size_hi doc_inode = 0" "in_size_lo doc_inode = 4500"
    by (simp_all add: doc_inode_def inode_of_bytes_def get_field_defs le_dec_zeros)
  show "ext4_inode_get_size vol_sb doc_inode = 4500" by (simp add: ext4_inode_get_size_def h)
  show "\<not> inode_uses_extents vol_sb doc_inode" by (simp add: inode_uses_extents_def doc_geometry)
  show "\<not> short_link vol_sb doc_inode 4500" by (simp add: short_link_def)
qed

lemma doc_open: "open_file doc_fs doc_store (doc_file pos) 5 doc_inode 256 {}"
proof -
  have "in_blocks doc_inode ! (11 + l) = 0" if "0 < l" "l \<le> 3" for l
  proof -
    from that have "l = 1 \<or> l = 2 \<or> l = 3" by linarith
    then show ?thesis by (auto simp: doc_blocks)
  qed
  then have "pointer_file doc_fs doc_store 1 5 doc_inode 256 {}"
    by (auto simp: pointer_file_def doc_sb doc_found doc_geometry doc_size doc_extents tree_nodes_def)
       (simp add: map_geom_def doc_fs_def)
  then show ?thesis by (simp add: open_file_def doc_file_def doc_sb doc_size doc_mode O_RDONLY_def)
qed

abbreviation doc_map :: "nat \<Rightarrow> u64" where "doc_map \<equiv> pointer_map (st_view doc_store) 256 doc_inode"

lemma doc_map:
  "doc_map 0 = 7" "doc_map (Suc 0) = 0" "doc_map 1 = 0" "doc_map 2 = 4" "doc_map 3 = 6" "doc_map 4 = 3" "doc_map 5 = 0"
  by (simp_all add: pointer_map_def pointer_block_def doc_blocks)

lemma doc_base: "12 < map_base 256 3" by (simp add: map_base_values)

lemma doc_data: "b < 6 \<Longrightarrow> data_at UNIV doc_store doc_map b"
proof -
  assume "b < 6"
  then consider "b = 0" | "b = 1" | "b = 2" | "b = 3" | "b = 4" | "b = 5" by linarith
  then show ?thesis by cases (simp_all add: data_at_def doc_map word_less_nat_alt)
qed

lemma doc_request:
  assumes "0 < N" and "P + N < 5120" and "N \<le> length buf"
  shows "read_request UNIV doc_store doc_map (map_base 256 3) P N buf"
proof -
  have L: "(P + N) div 1024 < 5" using assms(2) by (simp add: div_less_iff_less_mult)
  then have "(P + N) div 1024 < map_base 256 3" using doc_base by linarith
  then show ?thesis using assms L doc_data
    by (auto simp: read_request_def xfer_fits_def)
qed

theorem fread_exact_witness:
  "\<exists>bd. ext4_fread file_dev_iface (replicate 1500 0) 1500 (doc_file 2048) doc_fs =
     ((Inr (), slice (file_bytes (st_view doc_store) 1024 doc_map 4500) 2048 1500, Some 1500),
      (doc_file 2048)\<lparr> f_fsize := 4500, f_fpos := 3548 \<rparr>, doc_fs\<lparr> fs_bdev := bd \<rparr>)"
proof -
  have w: "wanted doc_fs (doc_file 2048) doc_inode 1500 = 1500" by (simp add: wanted_def doc_sb doc_size doc_file_def)
  have r: "read_request UNIV doc_store doc_map (map_base 256 3) 2048 1500 (replicate 1500 0)"
    by (rule doc_request) simp_all
  have g: "no_gap doc_map (first_whole 1024 2048) ((2048 + 1500) div 1024)"
    by (auto simp: no_gap_def first_whole_def)
  have t: "tail_mapped doc_map 1024 2048 1500" by (simp add: tail_mapped_def doc_map)
  show ?thesis
    using fread_exact [OF doc_clean doc_open, of 2048 2048 1500 1500 "replicate 1500 0"] w r g t
    by (auto simp: doc_sb doc_size doc_file_def)
qed

theorem fread_hole_reads_next_witness:
  "\<exists>out f' fs'. ext4_fread file_dev_iface (replicate 2048 0) 2048 (doc_file 1024) doc_fs = ((Inr (), out, Some 2048), f', fs') \<and>
     take 1024 out = replicate 1024 0xA4"
proof -
  have w: "wanted doc_fs (doc_file 1024) doc_inode 2048 = 2048" by (simp add: wanted_def doc_sb doc_size doc_file_def)
  have r: "read_request UNIV doc_store doc_map (map_base 256 3) 1024 2048 (replicate 2048 0)"
    by (rule doc_request) simp_all
  show ?thesis
    using fread_hole_reads_next [OF doc_clean doc_open, of 1024 1024 2048 2048 "replicate 2048 0" 1] w r
    by (auto simp: doc_sb doc_file_def doc_map doc_view first_whole_def numeral_2_eq_2 [symmetric])
qed

theorem fread_past_end_witness:
  "\<exists>out f' fs'. ext4_fread file_dev_iface (replicate 100 0) 100 (doc_file 4600) doc_fs = ((Inr (), out, Some 100), f', fs') \<and>
     f_fpos f' = 4700"
proof -
  have r: "read_request UNIV doc_store doc_map (map_base 256 3) 4600 100 (replicate 100 0)"
    by (rule doc_request) simp_all
  have t: "tail_mapped doc_map 1024 4600 100" by (simp add: tail_mapped_def doc_map)
  show ?thesis
    using fread_past_end [OF doc_clean doc_open, of 4600 100 "replicate 100 0"] r t
    by (auto simp: doc_sb doc_size doc_file_def word_less_nat_alt)
qed

theorem fread_tail_hole_witness:
  "\<exists>out f' fs'. ext4_fread file_dev_iface (replicate 1500 0) 1500 (doc_file 0) doc_fs = ((Inr (), out, Some 1500), f', fs') \<and>
     slice out 1024 476 = replicate 476 0xA0"
proof -
  have w: "wanted doc_fs (doc_file 0) doc_inode 1500 = 1500" by (simp add: wanted_def doc_sb doc_size doc_file_def)
  have r: "read_request UNIV doc_store doc_map (map_base 256 3) 0 1500 (replicate 1500 0)"
    by (rule doc_request) simp_all
  have z: "slice (st_view doc_store 0) 0 476 = replicate 476 0xA0" by (simp add: doc_view slice_def)
  have "\<exists>out f' fs'. ext4_fread file_dev_iface (replicate 1500 0) 1500 (doc_file 0) doc_fs = ((Inr (), out, Some (of_nat 1500)), f', fs') \<and>
      slice out (1500 - 476) 476 = slice (st_view doc_store 0) 0 476"
    by (rule fread_tail_hole [OF doc_clean doc_open _ w [symmetric] r])
       (simp_all add: doc_file_def first_whole_def doc_map)
  then show ?thesis unfolding z by simp
qed

end
