(* ===== verification/Spec2Isabelle.thy ===== *)
theory Spec2Isabelle
  imports CacheSpec Bitmap Checksum Hash Super Inode IallocFile Balloc DirProps ExtentProps FsTrees JbdProps DirSplit DirOps FileProps
begin

text \<open>
  lwext4 is an ext2/3/4 file system library in C. This development models its core, from the block device up
  to directories, files and the journal, as HOL functions, and proves what the components promise. Names are those of
  the C sources; paths below are relative to \<^verbatim>\<open>src/\<close> and \<^verbatim>\<open>include/\<close>.

  \<^bold>\<open>Conventions.\<close> A routine that can fail returns \<open>ext4_err + 'a\<close>; the error codes of the code are the constructors
  of \<open>ext4_err\<close>. Three more are not codes: \<open>UNDEF\<close> (an access outside an object, or a variable used before it
  is set), \<open>EASSERT\<close> (a failed \<open>ext4_assert\<close>) and \<open>EHANG\<close> (fuel used up); \<open>fatal\<close> tells them from codes, and no
  error handling of the model goes on after one. A routine with effects takes the state and returns it behind the result;
  \<open>sbind\<close> is their sequence, so every early return is a branch. Blocks are byte lists read and written with
  \<open>rd_range\<close>, \<open>wr_range\<close> and the little-endian codecs of \<open>Prelude\<close>; machine integers are words of their width and wrap as in
  C. The configuration is that of \<^verbatim>\<open>ext4_config.h\<close> (4 levels of extents, metadata checksums, journal and directory index
  enabled) on a little-endian machine. Memory allocation succeeds where no text says otherwise. The journal is not
  open while an operation runs: \<^verbatim>\<open>ext4_trans.c\<close> is then the plain block layer.

  \<^bold>\<open>Theories and code.\<close>
  \<^item> Bytes and numbers: \<open>Prelude\<close>; \<open>Bitmap\<close> (\<^verbatim>\<open>ext4_bitmap.c\<close>), \<open>Checksum\<close> (\<^verbatim>\<open>ext4_crc32.c\<close>, \<open>ext4_bg_crc16\<close>), \<open>Hash\<close> (\<^verbatim>\<open>ext4_hash.c\<close>).
  \<^item> On-disk records: \<open>SuperLayout\<close>, \<open>Super\<close> (\<^verbatim>\<open>ext4_super.c\<close>), \<open>BlockGroup\<close> (\<^verbatim>\<open>ext4_block_group.h\<close>), \<open>Inode\<close> (\<^verbatim>\<open>ext4_inode.c\<close>).
    Each struct is a record with the fields of the struct and the map to its packed image.
  \<^item> Block layer: \<open>Bcache\<close> (\<^verbatim>\<open>ext4_bcache.c\<close>: the trees over buffers are association lists in tree order, a handle is
    the id of its buffer), \<open>BlockDev\<close>, \<open>BlockBytes\<close> (\<^verbatim>\<open>ext4_blockdev.c\<close>: the driver is the parameter
    \<open>ext4_blockdev_iface\<close>), \<open>FileDev\<close> (\<^verbatim>\<open>blockdev/linux/file_dev.c\<close>: a driver over one image file).
  \<^item> File system: \<open>Fs\<close> (\<^verbatim>\<open>ext4_fs.c\<close>: mount, groups, references to groups and inodes), \<open>Ialloc\<close> (\<^verbatim>\<open>ext4_ialloc.c\<close>), \<open>Balloc\<close>
    (\<^verbatim>\<open>ext4_balloc.c\<close>), \<open>Extent\<close>, \<open>ExtentPath\<close>, \<open>ExtentTree\<close> (\<^verbatim>\<open>ext4_extent.c\<close>), \<open>FsInode\<close>, \<open>FsMap\<close> (the rest of \<^verbatim>\<open>ext4_fs.c\<close>).
    The state \<open>ext4_fs\<close> is the superblock and the block device with its cache; an operation on an inode has the state
    \<open>istate\<close>, with the reference to the inode.
  \<^item> Directories: \<open>DirBlock\<close> and \<open>DirOps\<close> (\<^verbatim>\<open>ext4_dir.c\<close>), \<open>DirIdx\<close> (\<^verbatim>\<open>ext4_dir_idx.c\<close>).
  \<^item> Files: \<open>FileData\<close> (\<^verbatim>\<open>ext4.c\<close> from \<open>ext4_ftruncate\<close> to \<open>ext4_fsize\<close>, \<open>ext4_trunc_inode\<close>): reading, writing, truncating and
    positioning an open file. A transfer has the state \<open>xstate\<close>, the inode and the place in the buffer of the caller.
  \<^item> Journal: \<open>JbdFormat\<close>, \<open>JbdRecover\<close> (\<^verbatim>\<open>ext4_journal.c\<close> up to \<open>jbd_recover\<close>).

  \<^bold>\<open>Specifications and interfaces.\<close>
  \<^item> \<open>BlockSpec\<close>: the locale \<open>block_device\<close>, the contract of a driver; byte reads and writes over it are those of an array of bytes.
    \<open>FileDev\<close> interprets it.
  \<^item> \<open>CacheInv\<close>, \<open>CacheSpec\<close>: the invariant of the cache, and the cache over a device as an array of blocks: every history of
    its operations refines that array, a flush makes it durable, eviction loses nothing.
  \<^item> \<open>BlockStore\<close>: the locale \<open>block_store\<close>, what the upper layers rely on; a device with its cache is one. It extends
    \<open>block_reader\<close>, for those who only read. \<open>FsRules\<close> holds the rules by which operations on it are followed (\<open>succeeds\<close>).
  \<^item> \<open>BallocSpec\<close>, \<open>BallocAlloc\<close>, \<open>BallocVolume\<close>, \<open>VolumeSpec\<close>, \<open>VolumeOps\<close>, \<open>VolumeFile\<close>: a volume is its set of free addresses;
    allocating, freeing and claiming refine it, and through every history of them (\<open>vol_run\<close>) the counters stay true. \<open>IallocSpec\<close>, \<open>IallocFile\<close>: the same for inodes.
  \<^item> \<open>ExtentSpec\<close>, \<open>ExtentLookup\<close>, \<open>ExtentInsert\<close>, \<open>ExtentProps\<close>: a tree is its list of extents; lookup refines the map it
    stands for, insertion into a leaf adds to it.
  \<^item> \<open>FsMapSpec\<close>, \<open>FsTrees\<close>: the map of an inode through pointer blocks.
  \<^item> \<open>FileSpec\<close>, \<open>FileRead\<close>, \<open>FileProps\<close>: a file is an array of bytes spread over the blocks of the map; reading refines it where
    no hole comes in front of a mapped block and the request does not end in a hole; what it delivers otherwise is \<open>seen_bytes\<close>. The locale \<open>data_reader\<close> adds to \<open>block_reader\<close> what reading past the cache returns.
  \<^item> \<open>DirSpec\<close>, \<open>DirProps\<close>, \<open>DirSplit\<close>: a directory block is its list of records, a map from names; search, insertion and
    removal refine it, a split of an indexed leaf loses no record.
  \<^item> \<open>JbdSpec\<close>, \<open>JbdStore\<close>, \<open>JbdLog\<close>, \<open>JbdLaid\<close>, \<open>JbdProps\<close>: what is written as a tag is read as that tag; the log is a list
    of transactions, and recovery puts in place exactly the blocks of the complete ones that are not revoked. That is for a
    journal mapped by pointer blocks whose tags do not name block 0.

  \<^bold>\<open>Bounds and fuel.\<close> Loops whose measure is evident are total functions. The others take fuel, and \<open>EHANG\<close> is then
  a value that a property has to exclude: \<open>EXT_INSERT_FUEL\<close> 16 (each repetition makes room or adds a level, of which
  there are at most five), \<open>EXT_REMOVE_FUEL\<close> \<open>2 ^ 33\<close> (each turn passes a record or a node, and logical block numbers have 32
  bits), \<open>DX_FIND_FUEL\<close> \<open>2 ^ 32\<close> (a position of two 16-bit counts moves on), \<open>DIR_NEXT_FUEL\<close> \<open>2 ^ 61\<close> (a 64-bit offset
  moves by at least 8; a record of length 0 is refused before), \<open>FILE_FUEL\<close> \<open>2 ^ 65\<close> (each turn passes a block of the
  request or looks up a block of the file) with \<open>2 ^ 33\<close> for the run inside a turn (32-bit block numbers), the number of blocks of
  the log for recovery, and an argument for the inode allocator, whose loop repeats the same group when the counter of the group is wrong.

  \<^bold>\<open>Not modelled.\<close>
  \<^item> Open journal transactions (\<^verbatim>\<open>ext4_journal.c\<close> from \<open>jbd_journal_start\<close> on): they work by callbacks stored in buffers and by
    shared mutable lists of them, which the cache of this model does not run.
  \<^item> The rest of \<^verbatim>\<open>ext4.c\<close> (mount points, path walk, links, directories by descriptor), extended attributes \<^verbatim>\<open>ext4_xattr.c\<close>,
    \<^verbatim>\<open>ext4_mkfs.c\<close>, \<^verbatim>\<open>ext4_mbr.c\<close>: clients of what is modelled here.
  \<^item> \<^verbatim>\<open>ports/\<close>, \<^verbatim>\<open>fs_test/\<close>, the Windows driver: glue to other systems and test programs. \<^verbatim>\<open>include/misc/\<close>: vendored containers, used
    through what they are documented to do. Debug output.
\<close>

end
